(* ===== verification/Prelude.thy ===== *)
theory Prelude
  imports Main "HOL-Library.Word" "HOL-Library.AList"
begin

text \<open>
  Shared vocabulary of the development: the types of the contract framework (addresses,
  token identifiers, payments, the blockchain context of a call, the effects a call asks the
  virtual machine for), the result type of a fallible call with its sequencing, the checked
  arithmetic of \<open>BigUint\<close>, and the arithmetic lemmas and step-system locales that the
  components share.
\<close>

named_theorems res_simps "successful runs of the sequencing operators, decomposed"

unbundle bit_operations_syntax

section \<open>Values of the framework\<close>

type_synonym u8 = "8 word"
type_synonym u32 = "32 word"
type_synonym u64 = "64 word"
type_synonym biguint = nat
type_synonym address = nat
type_synonym token_id = string

abbreviation (input) zero_address :: address where
  "zero_address \<equiv> 0"

record esdt_payment =
  token_identifier :: token_id
  token_nonce :: u64
  amount :: biguint

definition new_payment :: "token_id \<Rightarrow> u64 \<Rightarrow> biguint \<Rightarrow> esdt_payment" where
  "new_payment t n a = \<lparr>token_identifier = t, token_nonce = n, amount = a\<rparr>"

lemma new_payment_sel [simp]:
  "token_identifier (new_payment t n a) = t"
  "token_nonce (new_payment t n a) = n"
  "amount (new_payment t n a) = a"
  by (simp_all add: new_payment_def)

text \<open>
  The context of a call: who calls, when, and the two predicates on addresses and token
  names that the framework answers. Both are parameters of the model.
\<close>

record blockchain =
  get_caller :: address
  get_sc_address :: address
  get_owner_address :: address
  get_block_epoch :: u64
  get_block_round :: u64
  get_block_nonce :: u64
  get_block_timestamp :: u64
  is_smart_contract :: "address \<Rightarrow> bool"
  is_valid_esdt_identifier :: "token_id \<Rightarrow> bool"

text \<open>
  What a call asks the virtual machine to do with tokens, in order: local mint and burn of a
  fungible token, creation, increase and burn of a token with nonce, a transfer to an address,
  a call of another contract's endpoint with a payment, without or with a user's address as
  its argument; a transfer and a call with EGLD, the native token. The last one is the tokens that a
  contract called before has sent back, with which the caller may go on.
\<close>

datatype effect =
    EsdtLocalMint token_id biguint
  | EsdtLocalBurn token_id biguint
  | DirectSend address "esdt_payment list"
  | NftCreate token_id biguint
  | NftAddQuantity token_id u64 biguint
  | NftBurn token_id u64 biguint
  | ExecuteOnDest address string "esdt_payment list"
  | ExecuteOnDestFor address string address "esdt_payment list"
  | DirectEgld address biguint
  | ExecuteWithEgld address string biguint
  | ReceivedFrom address "esdt_payment list"

section \<open>Errors and results\<close>

text \<open>
  \<open>SignalError\<close> carries the message of a \<open>require!\<close> or \<open>sc_panic!\<close>; the other
  constructors are the failures of the framework's operations. Every one of them aborts the
  transaction, so a failed call has no new state.
\<close>

datatype error =
    SignalError string
  | BigUintNegative
  | DivisionByZero
  | IncorrectNumTransfers
  | IndexOutOfRange
  | UnwrapNone
  | CallFailed string

definition require :: "bool \<Rightarrow> error \<Rightarrow> error + 'a \<Rightarrow> error + 'a" where
  "require c e k = (if c then k else Inl e)"

definition and_then :: "'e + 'a \<Rightarrow> ('a \<Rightarrow> 'e + 'b) \<Rightarrow> 'e + 'b" where
  "and_then r k = (case r of Inl e \<Rightarrow> Inl e | Inr x \<Rightarrow> k x)"

lemma require_simps [simp]:
  "require True e k = k"
  "require False e k = Inl e"
  by (simp_all add: require_def)

lemma require_Inr [res_simps]: "require c e k = Inr y \<longleftrightarrow> c \<and> k = Inr y"
  by (simp add: require_def)

lemma require_Inl: "require c e k = Inl e' \<longleftrightarrow> (if c then k = Inl e' else e = e')"
  by (auto simp: require_def)

lemma require_cong [cong]: "c = c' \<Longrightarrow> e = e' \<Longrightarrow> (c' \<Longrightarrow> k = k') \<Longrightarrow> require c e k = require c' e' k'"
  by (simp add: require_def)

lemma and_then_simps [simp]:
  "and_then (Inl e) k = Inl e"
  "and_then (Inr x) k = k x"
  by (simp_all add: and_then_def)

text \<open>Rules for the evaluation of concrete calls: only the first argument is simplified.\<close>

lemma and_then_weak_cong: "r = r' \<Longrightarrow> and_then r k = and_then r' k"
  by simp

lemma require_weak_cong: "b = b' \<Longrightarrow> require b e k = require b' e k"
  by simp

lemma and_then_Inr [res_simps]: "and_then r k = Inr y \<longleftrightarrow> (\<exists>x. r = Inr x \<and> k x = Inr y)"
  by (cases r) auto

lemma and_then_Inl:
  "and_then r k = Inl e \<longleftrightarrow> r = Inl e \<or> (\<exists>x. r = Inr x \<and> k x = Inl e)"
  by (cases r) auto

lemma and_then_cong [fundef_cong]:
  "r = r' \<Longrightarrow> (\<And>x. r' = Inr x \<Longrightarrow> k x = k' x) \<Longrightarrow> and_then r k = and_then r' k'"
  by (cases r') auto

lemma if_Inl_Inr [res_simps]: "(if c then Inl e else k) = Inr y \<longleftrightarrow> \<not> c \<and> k = Inr y"
  by simp

text \<open>The framework's \<open>single_esdt()\<close> and \<open>multi_esdt::<2>()\<close> on the attached payments.\<close>

definition single_esdt :: "esdt_payment list \<Rightarrow> error + esdt_payment" where
  "single_esdt ps = (case ps of [p] \<Rightarrow> Inr p | _ \<Rightarrow> Inl IncorrectNumTransfers)"

definition multi_esdt2 :: "esdt_payment list \<Rightarrow> error + (esdt_payment \<times> esdt_payment)" where
  "multi_esdt2 ps = (case ps of [p, q] \<Rightarrow> Inr (p, q) | _ \<Rightarrow> Inl IncorrectNumTransfers)"

lemma single_esdt_Inr [res_simps]: "single_esdt ps = Inr p \<longleftrightarrow> ps = [p]"
  by (auto simp: single_esdt_def split: list.splits)

lemma multi_esdt2_Inr [res_simps]: "multi_esdt2 ps = Inr pq \<longleftrightarrow> ps = [fst pq, snd pq]"
  by (cases pq) (auto simp: multi_esdt2_def split: list.splits)

text \<open>\<open>ManagedVec::get\<close>: indices start at 0, and reading outside aborts.\<close>

definition managed_vec_get :: "'a list \<Rightarrow> nat \<Rightarrow> error + 'a" where
  "managed_vec_get xs i = (if i < length xs then Inr (xs ! i) else Inl IndexOutOfRange)"

lemma managed_vec_get_Inr [res_simps]: "managed_vec_get xs i = Inr x \<longleftrightarrow> i < length xs \<and> x = xs ! i"
  by (auto simp: managed_vec_get_def)

section \<open>Checked arithmetic of BigUint\<close>

text \<open>
  \<open>BigUint\<close> is unbounded; a subtraction below zero and a division by zero abort the
  transaction.
\<close>

definition big_sub :: "biguint \<Rightarrow> biguint \<Rightarrow> error + biguint" where
  "big_sub a b = (if b \<le> a then Inr (a - b) else Inl BigUintNegative)"

definition big_div :: "biguint \<Rightarrow> biguint \<Rightarrow> error + biguint" where
  "big_div a b = (if b = 0 then Inl DivisionByZero else Inr (a div b))"

lemma big_sub_Inr [res_simps]: "big_sub a b = Inr c \<longleftrightarrow> b \<le> a \<and> c = a - b"
  by (auto simp: big_sub_def)

lemma big_div_Inr [res_simps]: "big_div a b = Inr c \<longleftrightarrow> b \<noteq> 0 \<and> c = a div b"
  by (auto simp: big_div_def)

lemma big_sub_ok [simp]: "b \<le> a \<Longrightarrow> big_sub a b = Inr (a - b)"
  by (simp add: big_sub_def)

lemma big_div_ok [simp]: "0 < b \<Longrightarrow> big_div a b = Inr (a div b)"
  by (simp add: big_div_def)

section \<open>Arithmetic shared by the components\<close>

lemma div_mult_le_nat: "(a::nat) div b * b \<le> a"
  by (simp add: div_times_less_eq_dividend)

lemma nat_le_div_iff: "0 < (c::nat) \<Longrightarrow> a \<le> b div c \<longleftrightarrow> a * c \<le> b"
  by (simp add: less_eq_div_iff_mult_less_eq)

lemma nat_div_less_iff: "0 < (c::nat) \<Longrightarrow> b div c < a \<longleftrightarrow> b < a * c"
  by (simp add: div_less_iff_less_mult)

lemma div_le_of_le_mult: "(a::nat) \<le> b * c \<Longrightarrow> a div c \<le> b"
proof (cases "c = 0")
  case False
  assume "a \<le> b * c"
  then have "a div c \<le> b * c div c" by (rule div_le_mono)
  with False show ?thesis by simp
qed simp

lemma unat_sub_u64: "(b::u64) \<le> a \<Longrightarrow> unat (a - b) = unat a - unat b"
  by (rule unat_sub)

section \<open>Step systems\<close>

text \<open>
  A contract seen from outside: a transaction either aborts, and then nothing changes, or
  replaces the state. \<open>run_txs\<close> runs a list of transactions from a state.
\<close>

fun run_txs :: "('s \<Rightarrow> 'op \<Rightarrow> 'e + 's) \<Rightarrow> 's \<Rightarrow> 'op list \<Rightarrow> 's" where
  "run_txs step s [] = s"
| "run_txs step s (x # xs) =
     run_txs step (case step s x of Inl e \<Rightarrow> s | Inr s' \<Rightarrow> s') xs"

locale step_system =
  fixes step :: "'s \<Rightarrow> 'op \<Rightarrow> 'e + 's"
    and inv :: "'s \<Rightarrow> bool"
    and admissible :: "'op \<Rightarrow> bool"
  assumes step_inv: "inv s \<Longrightarrow> admissible x \<Longrightarrow> step s x = Inr s' \<Longrightarrow> inv s'"
begin

lemma run_inv: "inv s \<Longrightarrow> list_all admissible xs \<Longrightarrow> inv (run_txs step s xs)"
proof (induction xs arbitrary: s)
  case Nil
  then show ?case by simp
next
  case (Cons x xs)
  have "inv (case step s x of Inl e \<Rightarrow> s | Inr s' \<Rightarrow> s')"
    using Cons.prems by (auto split: sum.splits dest: step_inv)
  with Cons.prems show ?case by (simp add: Cons.IH)
qed

end

text \<open>A quantity compared by a preorder that no successful transaction lets decrease.\<close>

locale monotone_step_system = step_system +
  fixes le :: "'a \<Rightarrow> 'a \<Rightarrow> bool"
  assumes le_refl: "inv s \<Longrightarrow> le s s"
    and le_trans: "inv s \<Longrightarrow> le s t \<Longrightarrow> le t u \<Longrightarrow> le s u"
    and step_le: "inv s \<Longrightarrow> admissible x \<Longrightarrow> step s x = Inr s' \<Longrightarrow> le s s'"
begin

lemma run_le: "inv s \<Longrightarrow> list_all admissible xs \<Longrightarrow> le s (run_txs step s xs)"
proof (induction xs arbitrary: s)
  case Nil
  then show ?case by (simp add: le_refl)
next
  case (Cons x xs)
  let ?t = "case step s x of Inl e \<Rightarrow> s | Inr s' \<Rightarrow> s'"
  have t: "inv ?t" and st: "le s ?t"
    using Cons.prems by (auto split: sum.splits dest: step_inv step_le intro: le_refl)
  have "le ?t (run_txs step ?t xs)"
    using t Cons.prems(2) by (simp add: Cons.IH)
  with Cons.prems(1) st show ?case
    by (simp add: le_trans)
qed

end

end
