(* ===== verification/CommonModules.thy ===== *)
theory CommonModules
  imports Prelude
begin

text \<open>
  The small modules every contract mixes in: \<open>common_errors\<close>, \<open>permissions_module\<close>
  (a bit set per address), \<open>pausable\<close> (the contract's state), and \<open>token_send\<close>.
  A module's storage is an argument and its new value a result, since each contract keeps
  its own copy.
\<close>

section \<open>common_errors\<close>

definition ERROR_PERMISSION_DENIED :: error where
  "ERROR_PERMISSION_DENIED = SignalError ''Permission denied''"

definition ERROR_BAD_INPUT_TOKEN :: error where
  "ERROR_BAD_INPUT_TOKEN = SignalError ''Bad input token''"

definition ERROR_PARAMETERS :: error where
  "ERROR_PARAMETERS = SignalError ''Bad parameters''"

section \<open>permissions_module\<close>

text \<open>\<open>Permissions\<close> is a 32-bit set with three flags; storage holds one per address.\<close>

type_synonym permissions = u32
type_synonym permission_map = "address \<Rightarrow> permissions"

definition NONE :: permissions where "NONE = 0"
definition OWNER :: permissions where "OWNER = 1"
definition ADMIN :: permissions where "ADMIN = 2"
definition PAUSE :: permissions where "PAUSE = 4"

lemmas permission_flags = NONE_def OWNER_def ADMIN_def PAUSE_def

definition intersects :: "permissions \<Rightarrow> permissions \<Rightarrow> bool" where
  "intersects a b \<longleftrightarrow> a AND b \<noteq> 0"

definition set_permissions :: "permission_map \<Rightarrow> address \<Rightarrow> permissions \<Rightarrow> permission_map" where
  "set_permissions m a p = m(a := p)"

definition add_permissions :: "permission_map \<Rightarrow> address \<Rightarrow> permissions \<Rightarrow> permission_map" where
  "add_permissions m a p = m(a := m a OR p)"

definition remove_permissions :: "permission_map \<Rightarrow> address \<Rightarrow> permissions \<Rightarrow> permission_map" where
  "remove_permissions m a p = m(a := m a AND NOT p)"

fun add_permissions_for_all :: "permission_map \<Rightarrow> address list \<Rightarrow> permissions \<Rightarrow> permission_map" where
  "add_permissions_for_all m [] p = m"
| "add_permissions_for_all m (a # as) p = add_permissions_for_all (add_permissions m a p) as p"

definition require_caller_any_of ::
  "permission_map \<Rightarrow> address \<Rightarrow> permissions \<Rightarrow> error + 'a \<Rightarrow> error + 'a" where
  "require_caller_any_of m c p k = require (intersects (m c) p) ERROR_PERMISSION_DENIED k"

definition require_caller_has_owner_permissions ::
  "permission_map \<Rightarrow> address \<Rightarrow> error + 'a \<Rightarrow> error + 'a" where
  "require_caller_has_owner_permissions m c k = require_caller_any_of m c OWNER k"

definition require_caller_has_owner_or_admin_permissions ::
  "permission_map \<Rightarrow> address \<Rightarrow> error + 'a \<Rightarrow> error + 'a" where
  "require_caller_has_owner_or_admin_permissions m c k = require_caller_any_of m c (OWNER OR ADMIN) k"

definition require_caller_has_admin_permissions ::
  "permission_map \<Rightarrow> address \<Rightarrow> error + 'a \<Rightarrow> error + 'a" where
  "require_caller_has_admin_permissions m c k = require_caller_any_of m c ADMIN k"

definition require_caller_has_pause_permissions ::
  "permission_map \<Rightarrow> address \<Rightarrow> error + 'a \<Rightarrow> error + 'a" where
  "require_caller_has_pause_permissions m c k = require_caller_any_of m c PAUSE k"

definition add_admin_endpoint ::
  "permission_map \<Rightarrow> address \<Rightarrow> address \<Rightarrow> error + permission_map" where
  "add_admin_endpoint m c a =
     require_caller_has_owner_permissions m c (Inr (add_permissions m a ADMIN))"

definition remove_admin_endpoint ::
  "permission_map \<Rightarrow> address \<Rightarrow> address \<Rightarrow> error + permission_map" where
  "remove_admin_endpoint m c a =
     require_caller_has_owner_permissions m c (Inr (remove_permissions m a ADMIN))"

text \<open>\<open>only_owner\<close> compares the caller with the owner account the protocol stores.\<close>

definition update_owner_or_admin_endpoint ::
  "blockchain \<Rightarrow> permission_map \<Rightarrow> address \<Rightarrow> error + permission_map" where
  "update_owner_or_admin_endpoint bc m previous_owner =
     require (get_caller bc = get_owner_address bc)
       (SignalError ''Endpoint can only be called by owner'')
       (let p = m previous_owner in
        Inr (set_permissions (m(previous_owner := 0)) (get_caller bc) p))"

lemmas require_caller_defs =
  require_caller_any_of_def require_caller_has_owner_permissions_def
  require_caller_has_owner_or_admin_permissions_def require_caller_has_admin_permissions_def
  require_caller_has_pause_permissions_def

lemma require_caller_any_of_Inr [res_simps]:
  "require_caller_any_of m c p k = Inr y \<longleftrightarrow> intersects (m c) p \<and> k = Inr y"
  by (simp add: require_caller_any_of_def res_simps)

lemma require_caller_Inr [res_simps]:
  "require_caller_has_owner_permissions m c k = Inr y \<longleftrightarrow> intersects (m c) OWNER \<and> k = Inr y"
  "require_caller_has_owner_or_admin_permissions m c k = Inr y \<longleftrightarrow>
     intersects (m c) (OWNER OR ADMIN) \<and> k = Inr y"
  "require_caller_has_admin_permissions m c k = Inr y \<longleftrightarrow> intersects (m c) ADMIN \<and> k = Inr y"
  "require_caller_has_pause_permissions m c k = Inr y \<longleftrightarrow> intersects (m c) PAUSE \<and> k = Inr y"
  by (simp_all add: require_caller_defs res_simps)

lemma bit_u32: "bit (w::u32) n \<Longrightarrow> n < 32"
  using bit_imp_le_length [of w n] by simp

lemma intersects_bit: "intersects a b \<longleftrightarrow> (\<exists>n. bit a n \<and> bit b n)"
  by (auto simp: intersects_def bit_eq_iff bit_simps dest: bit_u32)

lemma flag_bit: "(p::permissions) \<noteq> 0 \<Longrightarrow> \<exists>n. bit p n"
  by (auto simp: bit_eq_iff)

lemma intersects_or: "intersects a (p OR q) \<longleftrightarrow> intersects a p \<or> intersects a q"
  by (auto simp: intersects_bit bit_simps)

lemma intersects_add_same: "p \<noteq> 0 \<Longrightarrow> intersects (add_permissions m a p a) p"
  by (auto simp: intersects_bit add_permissions_def bit_simps dest: flag_bit)

lemma intersects_remove_same: "\<not> intersects (remove_permissions m a p a) p"
  by (auto simp: intersects_bit remove_permissions_def bit_simps)

text \<open>Removing a permission leaves every other permission as it was.\<close>

lemma intersects_remove_other:
  assumes "p AND q = 0"
  shows "intersects (remove_permissions m a p b) q = intersects (m b) q"
proof -
  have "\<not> (bit p n \<and> bit q n)" for n
    using assms by (metis bit_0_eq bit_and_iff bot_apply bot_bool_def)
  then show ?thesis
    by (auto simp: intersects_bit remove_permissions_def bit_simps dest: bit_u32)
qed

lemma add_permissions_mono: "intersects (m b) q \<Longrightarrow> intersects (add_permissions m a p b) q"
  by (auto simp: intersects_bit add_permissions_def bit_simps)

lemma add_permissions_for_all_mono:
  "intersects (m b) q \<Longrightarrow> intersects (add_permissions_for_all m as p b) q"
  by (induction as arbitrary: m) (auto intro: add_permissions_mono)

lemma add_permissions_for_all_grants:
  "a \<in> set as \<Longrightarrow> p \<noteq> 0 \<Longrightarrow> intersects (add_permissions_for_all m as p a) p"
  by (induction as arbitrary: m)
    (auto intro: add_permissions_for_all_mono intersects_add_same)

section \<open>pausable\<close>

datatype state = Inactive | Active | PartialActive

fun add_to_pause_whitelist ::
  "permission_map \<Rightarrow> address \<Rightarrow> address list \<Rightarrow> error + permission_map" where
  "add_to_pause_whitelist m c as =
     require_caller_has_owner_permissions m c (Inr (add_permissions_for_all m as PAUSE))"

fun remove_permissions_for_all :: "permission_map \<Rightarrow> address list \<Rightarrow> permissions \<Rightarrow> permission_map" where
  "remove_permissions_for_all m [] p = m"
| "remove_permissions_for_all m (a # as) p =
     remove_permissions_for_all (remove_permissions m a p) as p"

definition remove_from_pause_whitelist ::
  "permission_map \<Rightarrow> address \<Rightarrow> address list \<Rightarrow> error + permission_map" where
  "remove_from_pause_whitelist m c as =
     require_caller_has_owner_permissions m c (Inr (remove_permissions_for_all m as PAUSE))"

definition pause :: "permission_map \<Rightarrow> address \<Rightarrow> error + state" where
  "pause m c = require_caller_has_pause_permissions m c (Inr Inactive)"

definition resume :: "permission_map \<Rightarrow> address \<Rightarrow> error + state" where
  "resume m c = require_caller_has_pause_permissions m c (Inr Active)"

section \<open>token_send\<close>

definition send_multiple_tokens_if_not_zero :: "address \<Rightarrow> esdt_payment list \<Rightarrow> effect list" where
  "send_multiple_tokens_if_not_zero dest ps =
     (let non_zero = filter (\<lambda>p. 0 < amount p) ps
      in if non_zero \<noteq> [] then [DirectSend dest non_zero] else [])"

definition send_tokens_non_zero :: "address \<Rightarrow> token_id \<Rightarrow> u64 \<Rightarrow> biguint \<Rightarrow> effect list" where
  "send_tokens_non_zero dest t n a =
     (if a = 0 then [] else [DirectSend dest [new_payment t n a]])"

definition send_payment_non_zero :: "address \<Rightarrow> esdt_payment \<Rightarrow> effect list" where
  "send_payment_non_zero dest p =
     send_tokens_non_zero dest (token_identifier p) (token_nonce p) (amount p)"

section \<open>Token flow of a list of effects\<close>

text \<open>
  What the effects take from and give to the contract's own holdings of an ESDT token: a mint
  credits it; a burn, a transfer and the payment of a call debit it.
\<close>

definition paid_in :: "token_id \<Rightarrow> esdt_payment list \<Rightarrow> biguint" where
  "paid_in t ps = sum_list (map amount (filter (\<lambda>p. token_identifier p = t) ps))"

fun effect_out :: "token_id \<Rightarrow> effect \<Rightarrow> biguint" where
  "effect_out t (EsdtLocalMint u a) = 0"
| "effect_out t (EsdtLocalBurn u a) = (if u = t then a else 0)"
| "effect_out t (DirectSend d ps) = paid_in t ps"
| "effect_out t (NftCreate u a) = 0"
| "effect_out t (NftAddQuantity u n a) = 0"
| "effect_out t (NftBurn u n a) = (if u = t then a else 0)"
| "effect_out t (ExecuteOnDest d f ps) = paid_in t ps"
| "effect_out t (ExecuteOnDestFor d f user ps) = paid_in t ps"
| "effect_out t (DirectEgld d a) = 0"
| "effect_out t (ExecuteWithEgld d f a) = 0"
| "effect_out t (ReceivedFrom d ps) = 0"

fun effect_in :: "token_id \<Rightarrow> effect \<Rightarrow> biguint" where
  "effect_in t (EsdtLocalMint u a) = (if u = t then a else 0)"
| "effect_in t (EsdtLocalBurn u a) = 0"
| "effect_in t (DirectSend d ps) = 0"
| "effect_in t (NftCreate u a) = (if u = t then a else 0)"
| "effect_in t (NftAddQuantity u n a) = (if u = t then a else 0)"
| "effect_in t (NftBurn u n a) = 0"
| "effect_in t (ExecuteOnDest d f ps) = 0"
| "effect_in t (ExecuteOnDestFor d f user ps) = 0"
| "effect_in t (DirectEgld d a) = 0"
| "effect_in t (ExecuteWithEgld d f a) = 0"
| "effect_in t (ReceivedFrom d ps) = paid_in t ps"

definition outflow :: "token_id \<Rightarrow> effect list \<Rightarrow> biguint" where
  "outflow t es = sum_list (map (effect_out t) es)"

definition inflow :: "token_id \<Rightarrow> effect list \<Rightarrow> biguint" where
  "inflow t es = sum_list (map (effect_in t) es)"

lemma paid_in_simps [simp]:
  "paid_in t [] = 0"
  "paid_in t (p # ps) = (if token_identifier p = t then amount p else 0) + paid_in t ps"
  "paid_in t (ps @ qs) = paid_in t ps + paid_in t qs"
  by (simp_all add: paid_in_def)

lemma outflow_simps [simp]:
  "outflow t [] = 0"
  "outflow t (e # es) = effect_out t e + outflow t es"
  "outflow t (es @ fs) = outflow t es + outflow t fs"
  by (simp_all add: outflow_def)

lemma inflow_simps [simp]:
  "inflow t [] = 0"
  "inflow t (e # es) = effect_in t e + inflow t es"
  "inflow t (es @ fs) = inflow t es + inflow t fs"
  by (simp_all add: inflow_def)

lemma paid_in_non_zero: "paid_in t (filter (\<lambda>p. 0 < amount p) ps) = paid_in t ps"
  by (induction ps) auto

lemma send_multiple_flow [simp]:
  "outflow t (send_multiple_tokens_if_not_zero d ps) = paid_in t ps"
  "inflow t (send_multiple_tokens_if_not_zero d ps) = 0"
proof -
  have "filter (\<lambda>p. 0 < amount p) ps = [] \<Longrightarrow> paid_in t ps = 0"
    using paid_in_non_zero [of t ps] by simp
  then show "outflow t (send_multiple_tokens_if_not_zero d ps) = paid_in t ps"
    by (simp add: send_multiple_tokens_if_not_zero_def Let_def paid_in_non_zero)
  show "inflow t (send_multiple_tokens_if_not_zero d ps) = 0"
    by (simp add: send_multiple_tokens_if_not_zero_def Let_def)
qed

lemma send_tokens_flow [simp]:
  "outflow t (send_tokens_non_zero d u n a) = (if u = t then a else 0)"
  "inflow t (send_tokens_non_zero d u n a) = 0"
  by (simp_all add: send_tokens_non_zero_def)

end
