(* ===== verification/PairState.thy ===== *)
theory PairState
  imports CommonModules
begin

text \<open>
  The pair contract (\<open>dex/pair\<close>): its error messages, its storage, the environment of a
  call, and the context objects its endpoints work on. \<open>storage_cache\<close> is the part of the
  storage an endpoint reads at its start and writes back when the cache is dropped.
\<close>

section \<open>errors.rs\<close>

definition ERROR_ACTIVE :: error where
  "ERROR_ACTIVE = SignalError ''Active state''"

definition ERROR_NOT_ACTIVE :: error where
  "ERROR_NOT_ACTIVE = SignalError ''Not active''"

definition ERROR_LP_TOKEN_NOT_ISSUED :: error where
  "ERROR_LP_TOKEN_NOT_ISSUED = SignalError ''LP token not issued''"

definition ERROR_BAD_PAYMENT_TOKENS :: error where
  "ERROR_BAD_PAYMENT_TOKENS = SignalError ''Bad payment tokens''"

definition ERROR_ARGS_NOT_MATCH_PAYMENTS :: error where
  "ERROR_ARGS_NOT_MATCH_PAYMENTS = SignalError ''Arguments do not match payments''"

definition ERROR_INVALID_PAYMENTS :: error where
  "ERROR_INVALID_PAYMENTS = SignalError ''Invalid payments''"

definition ERROR_INVALID_ARGS :: error where
  "ERROR_INVALID_ARGS = SignalError ''Invalid args''"

definition ERROR_FIRST_LIQUDITY :: error where
  "ERROR_FIRST_LIQUDITY = SignalError ''First tokens needs to be greater than minimum liquidity''"

definition ERROR_INSUFFICIENT_LIQUIDITY :: error where
  "ERROR_INSUFFICIENT_LIQUIDITY = SignalError ''Insufficient liquidity minted''"

definition ERROR_INSUFFICIENT_FIRST_TOKEN :: error where
  "ERROR_INSUFFICIENT_FIRST_TOKEN = SignalError ''Insufficient first token computed amount''"

definition ERROR_INSUFFICIENT_SECOND_TOKEN :: error where
  "ERROR_INSUFFICIENT_SECOND_TOKEN = SignalError ''Insufficient second token computed amount''"

definition ERROR_OPTIMAL_GRATER_THAN_PAID :: error where
  "ERROR_OPTIMAL_GRATER_THAN_PAID = SignalError ''Optimal amount greater than desired amount''"

definition ERROR_K_INVARIANT_FAILED :: error where
  "ERROR_K_INVARIANT_FAILED = SignalError ''K invariant failed''"

definition ERROR_INSUFFICIENT_LIQ_BURNED :: error where
  "ERROR_INSUFFICIENT_LIQ_BURNED = SignalError ''Insufficient liquidity burned''"

definition ERROR_SLIPPAGE_ON_REMOVE :: error where
  "ERROR_SLIPPAGE_ON_REMOVE = SignalError ''Slippage amount does not match''"

definition ERROR_NOT_ENOUGH_RESERVE :: error where
  "ERROR_NOT_ENOUGH_RESERVE = SignalError ''Not enough reserve''"

definition ERROR_NOT_ENOUGH_LP :: error where
  "ERROR_NOT_ENOUGH_LP = SignalError ''Not enough LP token supply''"

definition ERROR_INITIAL_LIQUIDITY_NOT_ADDED :: error where
  "ERROR_INITIAL_LIQUIDITY_NOT_ADDED = SignalError ''Initial liquidity was not added''"

definition ERROR_INITIAL_LIQUIDITY_ALREADY_ADDED :: error where
  "ERROR_INITIAL_LIQUIDITY_ALREADY_ADDED = SignalError ''Initial liquidity was already added''"

definition ERROR_NOT_AN_ESDT :: error where
  "ERROR_NOT_AN_ESDT = SignalError ''Not a valid esdt id''"

definition ERROR_SAME_TOKENS :: error where
  "ERROR_SAME_TOKENS = SignalError ''Exchange tokens cannot be the same''"

definition ERROR_POOL_TOKEN_IS_PLT :: error where
  "ERROR_POOL_TOKEN_IS_PLT = SignalError ''Token ID cannot be the same as LP token ID''"

definition ERROR_BAD_PERCENTS :: error where
  "ERROR_BAD_PERCENTS = SignalError ''Bad percents''"

definition ERROR_NOT_WHITELISTED :: error where
  "ERROR_NOT_WHITELISTED = SignalError ''Not whitelisted''"

definition ERROR_ALREADY_WHITELISTED :: error where
  "ERROR_ALREADY_WHITELISTED = SignalError ''Already whitelisted''"

definition ERROR_PAIR_ALREADY_TRUSTED :: error where
  "ERROR_PAIR_ALREADY_TRUSTED = SignalError ''Pair already trusted''"

definition ERROR_PAIR_NOT_TRUSTED :: error where
  "ERROR_PAIR_NOT_TRUSTED = SignalError ''Pair not trusted''"

definition ERROR_ALREADY_FEE_DEST :: error where
  "ERROR_ALREADY_FEE_DEST = SignalError ''Already a fee destination''"

definition ERROR_NOT_FEE_DEST :: error where
  "ERROR_NOT_FEE_DEST = SignalError ''Not a fee destination''"

definition ERROR_BAD_TOKEN_FEE_DEST :: error where
  "ERROR_BAD_TOKEN_FEE_DEST = SignalError ''Destination fee token differs''"

definition ERROR_ZERO_AMOUNT :: error where
  "ERROR_ZERO_AMOUNT = SignalError ''Zero amount''"

definition ERROR_UNKNOWN_TOKEN :: error where
  "ERROR_UNKNOWN_TOKEN = SignalError ''Unknown token''"

definition ERROR_LP_TOKEN_SAME_AS_POOL_TOKENS :: error where
  "ERROR_LP_TOKEN_SAME_AS_POOL_TOKENS = SignalError ''LP token should differ from the exchange tokens''"

definition ERROR_SWAP_NOT_ENABLED :: error where
  "ERROR_SWAP_NOT_ENABLED = SignalError ''Swap is not enabled''"

definition ERROR_SLIPPAGE_EXCEEDED :: error where
  "ERROR_SLIPPAGE_EXCEEDED = SignalError ''Slippage exceeded''"

definition ERROR_NOTHING_TO_DO_WITH_FEE_SLICE :: error where
  "ERROR_NOTHING_TO_DO_WITH_FEE_SLICE = SignalError ''Nothing to do with fee slice''"

definition ERROR_SAFE_PRICE_SAME_ROUNDS :: error where
  "ERROR_SAFE_PRICE_SAME_ROUNDS = SignalError ''The safe price can be computed only between different rounds''"

definition ERROR_SAFE_PRICE_CURRENT_INDEX :: error where
  "ERROR_SAFE_PRICE_CURRENT_INDEX = SignalError ''The current safe price index is greater than the maximum number of observations''"

definition ERROR_SAFE_PRICE_OBSERVATION_DOES_NOT_EXIST :: error where
  "ERROR_SAFE_PRICE_OBSERVATION_DOES_NOT_EXIST = SignalError ''The price observation does not exist''"

section \<open>config.rs, fee.rs, locking_wrapper.rs: constants and storage\<close>

definition MAX_PERCENTAGE :: u64 where "MAX_PERCENTAGE = 100000"
definition MAX_FEE_PERCENTAGE :: u64 where "MAX_FEE_PERCENTAGE = 5000"

lemma unat_MAX_PERCENTAGE [simp]: "unat MAX_PERCENTAGE = 100000"
  by (simp add: MAX_PERCENTAGE_def)

lemma unat_MAX_FEE_PERCENTAGE [simp]: "unat MAX_FEE_PERCENTAGE = 5000"
  by (simp add: MAX_FEE_PERCENTAGE_def)

text \<open>\<open>safe_price.rs\<close>: one record of the accumulated reserves.\<close>

record price_observation =
  first_token_reserve_accumulated :: biguint
  second_token_reserve_accumulated :: biguint
  weight_accumulated :: u64
  recording_round :: u64
  lp_supply_accumulated :: biguint

record token_pair =
  first_token :: token_id
  second_token :: token_id

text \<open>
  A \<open>SingleValueMapper\<close> that may be empty is an option where the code asks
  \<open>is_empty\<close>, and a value with the type's default where it only reads. A \<open>MapMapper\<close>
  keeps its keys in insertion order, so it is an association list; a \<open>VecMapper\<close> is a list
  whose index 1 is the head.
\<close>

record pair_storage =
  pair_state :: state
  pair_permissions :: permission_map
  total_fee_percent :: u64
  special_fee_percent :: u64
  router_address :: address
  lp_token_identifier :: token_id
  first_token_id :: token_id
  second_token_id :: token_id
  lp_token_supply :: biguint
  initial_liquidity_adder :: "address option"
  pair_reserve :: "token_id \<Rightarrow> biguint"
  fees_collector_address :: "address option"
  fees_collector_cut_percentage :: u64
  destination_map :: "(address \<times> token_id) list"
  trusted_swap_pair :: "(token_pair \<times> address) list"
  pair_whitelist :: "address list"
  locking_sc_address :: address
  unlock_epoch :: u64
  locking_deadline_epoch :: u64
  price_observations :: "price_observation list"
  safe_price_current_index :: nat

text \<open>
  The answers of the contracts the pair calls: the locking contract returns a locked
  position or other tokens, which it has sent, the fees collector and the trusted pair either accept the payment or abort.
\<close>

record pair_env = blockchain +
  call_lock_tokens :: "address \<Rightarrow> u64 \<Rightarrow> esdt_payment \<Rightarrow> error + esdt_payment"
  call_deposit_swap_fees :: "address \<Rightarrow> esdt_payment \<Rightarrow> error + unit"
  call_swap_no_fee :: "address \<Rightarrow> esdt_payment \<Rightarrow> token_id \<Rightarrow> address \<Rightarrow> error + unit"

section \<open>contexts/base.rs\<close>

datatype swap_tokens_order = PoolOrder | ReverseOrder

record storage_cache =
  contract_state :: state
  lp_token_id :: token_id
  cached_first_token_id :: token_id
  cached_second_token_id :: token_id
  first_token_reserve :: biguint
  second_token_reserve :: biguint
  cached_lp_token_supply :: biguint

definition storage_cache_new :: "pair_storage \<Rightarrow> storage_cache" where
  "storage_cache_new s =
     \<lparr>contract_state = pair_state s,
      lp_token_id = lp_token_identifier s,
      cached_first_token_id = first_token_id s,
      cached_second_token_id = second_token_id s,
      first_token_reserve = pair_reserve s (first_token_id s),
      second_token_reserve = pair_reserve s (second_token_id s),
      cached_lp_token_supply = lp_token_supply s\<rparr>"

definition get_swap_tokens_order ::
  "storage_cache \<Rightarrow> token_id \<Rightarrow> token_id \<Rightarrow> error + swap_tokens_order" where
  "get_swap_tokens_order c first second =
     (if first = cached_first_token_id c \<and> second = cached_second_token_id c then Inr PoolOrder
      else if first = cached_second_token_id c \<and> second = cached_first_token_id c
      then Inr ReverseOrder
      else Inl (SignalError ''Invalid tokens''))"

fun get_reserve_in :: "storage_cache \<Rightarrow> swap_tokens_order \<Rightarrow> biguint" where
  "get_reserve_in c PoolOrder = first_token_reserve c"
| "get_reserve_in c ReverseOrder = second_token_reserve c"

fun get_reserve_out :: "storage_cache \<Rightarrow> swap_tokens_order \<Rightarrow> biguint" where
  "get_reserve_out c PoolOrder = second_token_reserve c"
| "get_reserve_out c ReverseOrder = first_token_reserve c"

text \<open>An assignment through the mutable reference.\<close>

fun set_reserve_in :: "swap_tokens_order \<Rightarrow> biguint \<Rightarrow> storage_cache \<Rightarrow> storage_cache" where
  "set_reserve_in PoolOrder v c = c\<lparr>first_token_reserve := v\<rparr>"
| "set_reserve_in ReverseOrder v c = c\<lparr>second_token_reserve := v\<rparr>"

fun set_reserve_out :: "swap_tokens_order \<Rightarrow> biguint \<Rightarrow> storage_cache \<Rightarrow> storage_cache" where
  "set_reserve_out PoolOrder v c = c\<lparr>second_token_reserve := v\<rparr>"
| "set_reserve_out ReverseOrder v c = c\<lparr>first_token_reserve := v\<rparr>"

text \<open>\<open>Drop\<close>: the mutable fields are written back to storage.\<close>

definition drop_cache :: "storage_cache \<Rightarrow> pair_storage \<Rightarrow> pair_storage" where
  "drop_cache c s =
     s\<lparr>pair_reserve :=
          (pair_reserve s)(cached_first_token_id c := first_token_reserve c,
                           cached_second_token_id c := second_token_reserve c),
       lp_token_supply := cached_lp_token_supply c\<rparr>"

section \<open>contexts: add_liquidity.rs, remove_liquidity.rs, swap.rs\<close>

record add_liquidity_context =
  first_payment :: esdt_payment
  second_payment :: esdt_payment
  first_token_amount_min :: biguint
  second_token_amount_min :: biguint
  first_token_optimal_amount :: biguint
  second_token_optimal_amount :: biguint
  liq_added :: biguint

definition add_liquidity_context_new ::
  "esdt_payment \<Rightarrow> esdt_payment \<Rightarrow> biguint \<Rightarrow> biguint \<Rightarrow> add_liquidity_context" where
  "add_liquidity_context_new p1 p2 min1 min2 =
     \<lparr>first_payment = p1, second_payment = p2,
      first_token_amount_min = min1, second_token_amount_min = min2,
      first_token_optimal_amount = 0, second_token_optimal_amount = 0, liq_added = 0\<rparr>"

record remove_liquidity_context =
  lp_token_payment_amount :: biguint
  rm_first_token_amount_min :: biguint
  rm_second_token_amount_min :: biguint
  first_token_amount_removed :: biguint
  second_token_amount_removed :: biguint

definition remove_liquidity_context_new ::
  "biguint \<Rightarrow> biguint \<Rightarrow> biguint \<Rightarrow> remove_liquidity_context" where
  "remove_liquidity_context_new lp min1 min2 =
     \<lparr>lp_token_payment_amount = lp,
      rm_first_token_amount_min = min1, rm_second_token_amount_min = min2,
      first_token_amount_removed = 0, second_token_amount_removed = 0\<rparr>"

record swap_context =
  input_token_id :: token_id
  input_token_amount :: biguint
  output_token_id :: token_id
  output_token_amount :: biguint
  swap_order :: swap_tokens_order
  final_input_amount :: biguint
  final_output_amount :: biguint
  fee_amount :: biguint

definition swap_context_new ::
  "token_id \<Rightarrow> biguint \<Rightarrow> token_id \<Rightarrow> biguint \<Rightarrow> swap_tokens_order \<Rightarrow> swap_context" where
  "swap_context_new tin ain tout aout order =
     \<lparr>input_token_id = tin, input_token_amount = ain,
      output_token_id = tout, output_token_amount = aout,
      swap_order = order,
      final_input_amount = 0, final_output_amount = 0, fee_amount = 0\<rparr>"

section \<open>Facts about the cache\<close>

lemma storage_cache_new_sel [simp]:
  "contract_state (storage_cache_new s) = pair_state s"
  "lp_token_id (storage_cache_new s) = lp_token_identifier s"
  "cached_first_token_id (storage_cache_new s) = first_token_id s"
  "cached_second_token_id (storage_cache_new s) = second_token_id s"
  "first_token_reserve (storage_cache_new s) = pair_reserve s (first_token_id s)"
  "second_token_reserve (storage_cache_new s) = pair_reserve s (second_token_id s)"
  "cached_lp_token_supply (storage_cache_new s) = lp_token_supply s"
  by (simp_all add: storage_cache_new_def)

lemma set_reserve_sel [simp]:
  "contract_state (set_reserve_in ord v c) = contract_state c"
  "lp_token_id (set_reserve_in ord v c) = lp_token_id c"
  "cached_first_token_id (set_reserve_in ord v c) = cached_first_token_id c"
  "cached_second_token_id (set_reserve_in ord v c) = cached_second_token_id c"
  "cached_lp_token_supply (set_reserve_in ord v c) = cached_lp_token_supply c"
  "contract_state (set_reserve_out ord v c) = contract_state c"
  "lp_token_id (set_reserve_out ord v c) = lp_token_id c"
  "cached_first_token_id (set_reserve_out ord v c) = cached_first_token_id c"
  "cached_second_token_id (set_reserve_out ord v c) = cached_second_token_id c"
  "cached_lp_token_supply (set_reserve_out ord v c) = cached_lp_token_supply c"
  by (cases ord; simp)+

lemma get_set_reserve [simp]:
  "get_reserve_in (set_reserve_in ord v c) ord = v"
  "get_reserve_out (set_reserve_out ord v c) ord = v"
  "get_reserve_out (set_reserve_in ord v c) ord = get_reserve_out c ord"
  "get_reserve_in (set_reserve_out ord v c) ord = get_reserve_in c ord"
  by (cases ord; simp)+

lemma reserves_by_order:
  "first_token_reserve c * second_token_reserve c = get_reserve_in c ord * get_reserve_out c ord"
  by (cases ord) simp_all

lemma drop_cache_sel [simp]:
  "pair_state (drop_cache c s) = pair_state s"
  "pair_permissions (drop_cache c s) = pair_permissions s"
  "total_fee_percent (drop_cache c s) = total_fee_percent s"
  "special_fee_percent (drop_cache c s) = special_fee_percent s"
  "lp_token_identifier (drop_cache c s) = lp_token_identifier s"
  "first_token_id (drop_cache c s) = first_token_id s"
  "second_token_id (drop_cache c s) = second_token_id s"
  "lp_token_supply (drop_cache c s) = cached_lp_token_supply c"
  "initial_liquidity_adder (drop_cache c s) = initial_liquidity_adder s"
  "price_observations (drop_cache c s) = price_observations s"
  "safe_price_current_index (drop_cache c s) = safe_price_current_index s"
  "destination_map (drop_cache c s) = destination_map s"
  "pair_whitelist (drop_cache c s) = pair_whitelist s"
  "fees_collector_address (drop_cache c s) = fees_collector_address s"
  by (simp_all add: drop_cache_def)

lemma drop_cache_reserve [simp]:
  "cached_first_token_id c \<noteq> cached_second_token_id c \<Longrightarrow>
   pair_reserve (drop_cache c s) (cached_first_token_id c) = first_token_reserve c"
  "pair_reserve (drop_cache c s) (cached_second_token_id c) = second_token_reserve c"
  by (simp_all add: drop_cache_def)

lemma get_swap_tokens_order_Inr:
  "get_swap_tokens_order c t u = Inr ord \<longleftrightarrow>
     (ord = PoolOrder \<and> t = cached_first_token_id c \<and> u = cached_second_token_id c) \<or>
     (ord = ReverseOrder \<and> t = cached_second_token_id c \<and> u = cached_first_token_id c \<and>
      \<not> (t = cached_first_token_id c \<and> u = cached_second_token_id c))"
  by (auto simp: get_swap_tokens_order_def)

end
