(* ===== verification/PairAmm.thy ===== *)
theory PairAmm
  imports PairState
begin

text \<open>
  \<open>dex/pair/src/amm.rs\<close>: the constant product formulas. The locale \<open>price_curve\<close> is the
  contract a formula promises to the pool code: the output it quotes never exceeds what the
  constant product leaves, as long as the pool keeps enough of the input.
\<close>

section \<open>Definitions\<close>

definition calculate_k_constant :: "biguint \<Rightarrow> biguint \<Rightarrow> biguint" where
  "calculate_k_constant first_token_amount second_token_amount =
     first_token_amount * second_token_amount"

definition quote :: "biguint \<Rightarrow> biguint \<Rightarrow> biguint \<Rightarrow> error + biguint" where
  "quote first_token_amount first_reserve second_reserve =
     big_div (first_token_amount * second_reserve) first_reserve"

definition get_amount_out_no_fee :: "biguint \<Rightarrow> biguint \<Rightarrow> biguint \<Rightarrow> error + biguint" where
  "get_amount_out_no_fee amount_in reserve_in reserve_out =
     (let numerator = amount_in * reserve_out;
          denominator = reserve_in + amount_in
      in big_div numerator denominator)"

definition get_amount_out ::
  "('a pair_storage_scheme) \<Rightarrow> biguint \<Rightarrow> biguint \<Rightarrow> biguint \<Rightarrow> error + biguint" where
  "get_amount_out s amount_in reserve_in reserve_out =
     (let amount_in_with_fee = amount_in * unat (MAX_PERCENTAGE - total_fee_percent s);
          numerator = amount_in_with_fee * reserve_out;
          denominator = reserve_in * unat MAX_PERCENTAGE + amount_in_with_fee
      in big_div numerator denominator)"

definition get_amount_in ::
  "('a pair_storage_scheme) \<Rightarrow> biguint \<Rightarrow> biguint \<Rightarrow> biguint \<Rightarrow> error + biguint" where
  "get_amount_in s amount_out reserve_in reserve_out =
     (let numerator = reserve_in * amount_out * unat MAX_PERCENTAGE in
      and_then (big_sub reserve_out amount_out) (\<lambda>left.
      let denominator = left * unat (MAX_PERCENTAGE - total_fee_percent s) in
      and_then (big_div numerator denominator) (\<lambda>q. Inr (q + 1))))"

definition get_special_fee_from_input :: "('a pair_storage_scheme) \<Rightarrow> biguint \<Rightarrow> biguint" where
  "get_special_fee_from_input s amount_in =
     amount_in * unat (special_fee_percent s) div unat MAX_PERCENTAGE"

section \<open>The contract of a price curve\<close>

locale price_curve =
  fixes out :: "biguint \<Rightarrow> biguint \<Rightarrow> biguint \<Rightarrow> biguint"
    and keeps :: "biguint \<Rightarrow> biguint \<Rightarrow> bool"
  assumes curve: "keeps a b \<Longrightarrow> out a rin rout * (rin + b) \<le> b * rout"
begin

lemma out_le: "keeps a b \<Longrightarrow> 0 < rin \<Longrightarrow> out a rin rout \<le> rout"
proof (rule ccontr)
  assume k: "keeps a b" and rin: "0 < rin" and "\<not> out a rin rout \<le> rout"
  then have "rout * (rin + b) < out a rin rout * (rin + b)"
    by simp
  also have "\<dots> \<le> b * rout"
    by (rule curve [OF k])
  finally show False by (simp add: algebra_simps)
qed

lemma out_less: "keeps a b \<Longrightarrow> 0 < rin \<Longrightarrow> 0 < rout \<Longrightarrow> out a rin rout < rout"
proof (rule ccontr)
  assume k: "keeps a b" and rin: "0 < rin" and rout: "0 < rout" and "\<not> out a rin rout < rout"
  then have "out a rin rout = rout"
    using out_le [OF k rin, of rout] by simp
  then have "rout * (rin + b) \<le> b * rout"
    using curve [OF k, of rin rout] by simp
  with rin rout show False by (simp add: algebra_simps)
qed

text \<open>The product of the reserves does not decrease when the pool keeps \<open>b\<close> of the input.\<close>

lemma product_kept:
  assumes k: "keeps a b" and o: "out a rin rout \<le> rout"
  shows "rin * rout \<le> (rin + b) * (rout - out a rin rout)"
proof -
  have "(rin + b) * (rout - out a rin rout) = (rin + b) * rout - (rin + b) * out a rin rout"
    by (rule diff_mult_distrib2)
  moreover have "(rin + b) * out a rin rout \<le> b * rout"
    using curve [OF k, of rin rout] by (simp add: mult.commute)
  moreover have "(rin + b) * rout = rin * rout + b * rout"
    by (rule distrib_right)
  ultimately show ?thesis by simp
qed

end

section \<open>Both formulas are price curves\<close>

lemma curve_core:
  assumes out: "out * (R + w) \<le> w * (rout::nat)" and le: "out \<le> rout" and wv: "w \<le> v"
  shows "out * (R + v) \<le> v * rout"
proof -
  obtain d where v: "v = w + d" using wv le_Suc_ex by blast
  have "out * (R + v) = out * (R + w) + out * d" by (simp add: v algebra_simps)
  also have "\<dots> \<le> w * rout + rout * d" by (rule add_mono [OF out mult_right_mono [OF le]]) simp
  finally show ?thesis by (simp add: v algebra_simps)
qed

lemma div_curve_le: "(w::nat) * rout div (R + w) \<le> rout"
  by (rule div_le_of_le_mult) (simp add: algebra_simps)

lemma scale_out:
  assumes "out * (rin * M + b * M) \<le> b * M * (rout::nat)" and "0 < M"
  shows "out * (rin + b) \<le> b * rout"
proof -
  have "M * (out * (rin + b)) \<le> M * (b * rout)"
    using assms(1) by (simp add: algebra_simps)
  with assms(2) show ?thesis by simp
qed

definition curve_no_fee :: "biguint \<Rightarrow> biguint \<Rightarrow> biguint \<Rightarrow> biguint" where
  "curve_no_fee a rin rout = a * rout div (rin + a)"

definition curve_with_fee :: "u64 \<Rightarrow> biguint \<Rightarrow> biguint \<Rightarrow> biguint \<Rightarrow> biguint" where
  "curve_with_fee fee a rin rout =
     (let w = a * unat (MAX_PERCENTAGE - fee) in w * rout div (rin * unat MAX_PERCENTAGE + w))"

lemma get_amount_out_no_fee_Inr [res_simps]:
  "get_amount_out_no_fee a rin rout = Inr y \<longleftrightarrow> 0 < rin + a \<and> y = curve_no_fee a rin rout"
  by (auto simp: get_amount_out_no_fee_def curve_no_fee_def Let_def res_simps)

lemma get_amount_out_Inr [res_simps]:
  "get_amount_out s a rin rout = Inr y \<longleftrightarrow>
     0 < rin * 100000 + a * unat (MAX_PERCENTAGE - total_fee_percent s) \<and>
     y = curve_with_fee (total_fee_percent s) a rin rout"
  by (auto simp: get_amount_out_def curve_with_fee_def Let_def res_simps)

interpretation no_fee: price_curve curve_no_fee "(\<le>)"
proof
  fix a b rin rout :: nat
  assume "a \<le> b"
  then show "curve_no_fee a rin rout * (rin + b) \<le> b * rout"
    unfolding curve_no_fee_def
    by (intro curve_core [OF div_mult_le_nat div_curve_le])
qed

interpretation with_fee: price_curve "curve_with_fee fee"
  "\<lambda>a b. a * unat (MAX_PERCENTAGE - fee) \<le> b * unat MAX_PERCENTAGE" for fee :: u64
proof
  fix a b rin rout :: nat
  let ?w = "a * unat (MAX_PERCENTAGE - fee)" and ?M = "unat MAX_PERCENTAGE"
  let ?o = "?w * rout div (rin * ?M + ?w)"
  assume "?w \<le> b * ?M"
  then have "?o * (rin * ?M + b * ?M) \<le> b * ?M * rout"
    by (intro curve_core [OF div_mult_le_nat div_curve_le])
  then have "?o * (rin + b) \<le> b * rout"
    by (rule scale_out) simp
  then show "curve_with_fee fee a rin rout * (rin + b) \<le> b * rout"
    by (simp only: curve_with_fee_def Let_def)
qed

section \<open>The special fee\<close>

text \<open>
  With the special fee not above the total fee, what is left of the input after the special
  fee covers what the formula counted.
\<close>

lemma get_special_fee_le:
  "special_fee_percent s \<le> MAX_PERCENTAGE \<Longrightarrow> get_special_fee_from_input s a \<le> a"
proof -
  assume "special_fee_percent s \<le> MAX_PERCENTAGE"
  then have "unat (special_fee_percent s) \<le> 100000"
    by (simp add: word_le_nat_alt)
  then show ?thesis
    unfolding get_special_fee_from_input_def by (intro div_le_of_le_mult) simp
qed

lemma after_special_fee_keeps:
  assumes le: "special_fee_percent s \<le> total_fee_percent s"
    and max: "total_fee_percent s \<le> MAX_PERCENTAGE"
  shows "a * unat (MAX_PERCENTAGE - total_fee_percent s)
    \<le> (a - get_special_fee_from_input s a) * unat MAX_PERCENTAGE"
proof -
  let ?f = "unat (total_fee_percent s)" and ?g = "unat (special_fee_percent s)"
  have gf: "?g \<le> ?f" and f: "?f \<le> 100000"
    using le max by (simp_all add: word_le_nat_alt)
  have "get_special_fee_from_input s a * 100000 \<le> a * ?g"
    unfolding get_special_fee_from_input_def by (simp add: div_mult_le_nat)
  also have "\<dots> \<le> a * ?f" using gf by simp
  finally have "get_special_fee_from_input s a * 100000 \<le> a * ?f" .
  moreover have "unat (MAX_PERCENTAGE - total_fee_percent s) = 100000 - ?f"
    using max by (simp add: unat_sub)
  ultimately show ?thesis
    by (simp add: diff_mult_distrib diff_mult_distrib2)
qed

end
