(* ===== verification/PairLiquidity.thy ===== *)
theory PairLiquidity
  imports PairAmm
begin

text \<open>
  \<open>dex/pair/src/liquidity_pool.rs\<close>: minting and burning of liquidity, the optimal amounts
  of a deposit, and the internal swap without fee. Lemmas: the exact change of the cached
  reserves and supply on success, and that no operation lowers the value of a share.
\<close>

definition MINIMUM_LIQUIDITY :: biguint where "MINIMUM_LIQUIDITY = 1000"

section \<open>Definitions\<close>

definition pool_add_liquidity ::
  "biguint \<Rightarrow> biguint \<Rightarrow> storage_cache \<Rightarrow> error + (biguint \<times> storage_cache)" where
  "pool_add_liquidity first_optimal second_optimal c =
     and_then (big_div (first_optimal * cached_lp_token_supply c) (first_token_reserve c))
       (\<lambda>first_potential_amt.
     and_then (big_div (second_optimal * cached_lp_token_supply c) (second_token_reserve c))
       (\<lambda>second_potential_amt.
     let liquidity = min first_potential_amt second_potential_amt in
     require (0 < liquidity) ERROR_INSUFFICIENT_LIQUIDITY
       (Inr (liquidity,
             c\<lparr>cached_lp_token_supply := cached_lp_token_supply c + liquidity,
               first_token_reserve := first_token_reserve c + first_optimal,
               second_token_reserve := second_token_reserve c + second_optimal\<rparr>))))"

definition pool_add_initial_liquidity ::
  "biguint \<Rightarrow> biguint \<Rightarrow> storage_cache \<Rightarrow> error + (biguint \<times> storage_cache \<times> effect list)" where
  "pool_add_initial_liquidity first_optimal second_optimal c =
     (let liquidity = min first_optimal second_optimal;
          minimum_liquidity = MINIMUM_LIQUIDITY in
      require (minimum_liquidity < liquidity) ERROR_FIRST_LIQUDITY
        (and_then (big_sub liquidity minimum_liquidity) (\<lambda>liq.
         Inr (liq,
              c\<lparr>cached_lp_token_supply := liquidity,
                first_token_reserve := first_token_reserve c + first_optimal,
                second_token_reserve := second_token_reserve c + second_optimal\<rparr>,
              [EsdtLocalMint (lp_token_id c) minimum_liquidity]))))"

definition get_amounts_removed ::
  "remove_liquidity_context \<Rightarrow> storage_cache \<Rightarrow> error + (biguint \<times> biguint)" where
  "get_amounts_removed ctx c =
     require (lp_token_payment_amount ctx + MINIMUM_LIQUIDITY \<le> cached_lp_token_supply c)
       ERROR_NOT_ENOUGH_LP
     (and_then (big_div (lp_token_payment_amount ctx * first_token_reserve c)
                        (cached_lp_token_supply c)) (\<lambda>first_amount_removed.
      require (0 < first_amount_removed) ERROR_INSUFFICIENT_LIQ_BURNED
     (require (rm_first_token_amount_min ctx \<le> first_amount_removed) ERROR_SLIPPAGE_ON_REMOVE
     (require (first_amount_removed < first_token_reserve c) ERROR_NOT_ENOUGH_RESERVE
     (and_then (big_div (lp_token_payment_amount ctx * second_token_reserve c)
                        (cached_lp_token_supply c)) (\<lambda>second_amount_removed.
      require (0 < second_amount_removed) ERROR_INSUFFICIENT_LIQ_BURNED
     (require (rm_second_token_amount_min ctx \<le> second_amount_removed) ERROR_SLIPPAGE_ON_REMOVE
     (require (second_amount_removed < second_token_reserve c) ERROR_NOT_ENOUGH_RESERVE
        (Inr (first_amount_removed, second_amount_removed))))))))))"

definition pool_remove_liquidity ::
  "remove_liquidity_context \<Rightarrow> storage_cache \<Rightarrow> error + (remove_liquidity_context \<times> storage_cache)" where
  "pool_remove_liquidity ctx c =
     and_then (get_amounts_removed ctx c) (\<lambda>(first_amount_removed, second_amount_removed).
     and_then (big_sub (cached_lp_token_supply c) (lp_token_payment_amount ctx)) (\<lambda>supply.
     and_then (big_sub (first_token_reserve c) first_amount_removed) (\<lambda>first_reserve.
     and_then (big_sub (second_token_reserve c) second_amount_removed) (\<lambda>second_reserve.
       Inr (ctx\<lparr>first_token_amount_removed := first_amount_removed,
                second_token_amount_removed := second_amount_removed\<rparr>,
            c\<lparr>cached_lp_token_supply := supply,
              first_token_reserve := first_reserve,
              second_token_reserve := second_reserve\<rparr>)))))"

definition set_optimal_amounts ::
  "add_liquidity_context \<Rightarrow> storage_cache \<Rightarrow> error + add_liquidity_context" where
  "set_optimal_amounts ctx c =
     (let first_desired = amount (first_payment ctx);
          second_desired = amount (second_payment ctx) in
      if cached_lp_token_supply c = 0 then
        Inr (ctx\<lparr>first_token_optimal_amount := first_desired,
                 second_token_optimal_amount := second_desired\<rparr>)
      else
        and_then (quote first_desired (first_token_reserve c) (second_token_reserve c))
          (\<lambda>second_optimal.
        and_then
          (if second_optimal \<le> second_desired then
             Inr (ctx\<lparr>first_token_optimal_amount := first_desired,
                      second_token_optimal_amount := second_optimal\<rparr>)
           else
             and_then (quote second_desired (second_token_reserve c) (first_token_reserve c))
               (\<lambda>first_optimal.
             require (first_optimal \<le> first_desired) ERROR_OPTIMAL_GRATER_THAN_PAID
               (Inr (ctx\<lparr>first_token_optimal_amount := first_optimal,
                         second_token_optimal_amount := second_desired\<rparr>))))
          (\<lambda>ctx.
        require (first_token_amount_min ctx \<le> first_token_optimal_amount ctx)
          ERROR_INSUFFICIENT_FIRST_TOKEN
       (require (second_token_amount_min ctx \<le> second_token_optimal_amount ctx)
          ERROR_INSUFFICIENT_SECOND_TOKEN
          (Inr ctx)))))"

definition get_token_for_given_position ::
  "('a pair_storage_scheme) \<Rightarrow> biguint \<Rightarrow> token_id \<Rightarrow> error + esdt_payment" where
  "get_token_for_given_position s liquidity t =
     (let reserve = pair_reserve s t; total_supply = lp_token_supply s in
      if total_supply \<noteq> 0 then
        and_then (big_div (liquidity * reserve) total_supply) (\<lambda>amt. Inr (new_payment t 0 amt))
      else Inr (new_payment t 0 total_supply))"

definition get_both_tokens_for_given_position ::
  "('a pair_storage_scheme) \<Rightarrow> biguint \<Rightarrow> error + (esdt_payment \<times> esdt_payment)" where
  "get_both_tokens_for_given_position s liquidity =
     and_then (get_token_for_given_position s liquidity (first_token_id s)) (\<lambda>p1.
     and_then (get_token_for_given_position s liquidity (second_token_id s)) (\<lambda>p2.
     Inr (p1, p2)))"

definition swap_safe_no_fee ::
  "storage_cache \<Rightarrow> swap_tokens_order \<Rightarrow> biguint \<Rightarrow> error + (biguint \<times> storage_cache)" where
  "swap_safe_no_fee c order amount_in =
     (let reserve_in = get_reserve_in c order; reserve_out = get_reserve_out c order in
      require (reserve_in \<noteq> 0) ERROR_ZERO_AMOUNT
     (and_then (get_amount_out_no_fee amount_in reserve_in reserve_out) (\<lambda>amount_out.
      require (amount_out < reserve_out \<and> amount_out \<noteq> 0) ERROR_ZERO_AMOUNT
     (let c' = set_reserve_in order (reserve_in + amount_in) c in
      and_then (big_sub (get_reserve_out c' order) amount_out) (\<lambda>left.
      Inr (amount_out, set_reserve_out order left c'))))))"

section \<open>What each operation does on success\<close>

text \<open>The parts of the cache that no pool operation changes.\<close>

definition same_pool :: "storage_cache \<Rightarrow> storage_cache \<Rightarrow> bool" where
  "same_pool c c' \<longleftrightarrow>
     contract_state c' = contract_state c \<and> lp_token_id c' = lp_token_id c \<and>
     cached_first_token_id c' = cached_first_token_id c \<and>
     cached_second_token_id c' = cached_second_token_id c"

lemma same_pool_refl [simp]: "same_pool c c"
  by (simp add: same_pool_def)

lemma same_pool_trans: "same_pool a b \<Longrightarrow> same_pool b c \<Longrightarrow> same_pool a c"
  by (simp add: same_pool_def)

lemma pool_add_liquidity_Inr:
  assumes "pool_add_liquidity a1 a2 c = Inr (liq, c')"
  shows "c' = c\<lparr>cached_lp_token_supply := cached_lp_token_supply c + liq,
                first_token_reserve := first_token_reserve c + a1,
                second_token_reserve := second_token_reserve c + a2\<rparr>"
    and "0 < liq" "0 < first_token_reserve c" "0 < second_token_reserve c"
    and "liq * first_token_reserve c \<le> a1 * cached_lp_token_supply c"
    and "liq * second_token_reserve c \<le> a2 * cached_lp_token_supply c"
  using assms
  by (auto simp: pool_add_liquidity_def Let_def res_simps nat_le_div_iff [symmetric])

lemma pool_add_initial_liquidity_Inr:
  assumes "pool_add_initial_liquidity a1 a2 c = Inr (liq, c', es)"
  shows "c' = c\<lparr>cached_lp_token_supply := liq + MINIMUM_LIQUIDITY,
                first_token_reserve := first_token_reserve c + a1,
                second_token_reserve := second_token_reserve c + a2\<rparr>"
    and "0 < liq" "liq + MINIMUM_LIQUIDITY = min a1 a2"
    and "es = [EsdtLocalMint (lp_token_id c) MINIMUM_LIQUIDITY]"
  using assms by (auto simp: pool_add_initial_liquidity_def Let_def res_simps)

lemma get_amounts_removed_Inr:
  "get_amounts_removed ctx c = Inr (x, y) \<longleftrightarrow>
     lp_token_payment_amount ctx + MINIMUM_LIQUIDITY \<le> cached_lp_token_supply c \<and>
     x = lp_token_payment_amount ctx * first_token_reserve c div cached_lp_token_supply c \<and>
     0 < x \<and> rm_first_token_amount_min ctx \<le> x \<and> x < first_token_reserve c \<and>
     y = lp_token_payment_amount ctx * second_token_reserve c div cached_lp_token_supply c \<and>
     0 < y \<and> rm_second_token_amount_min ctx \<le> y \<and> y < second_token_reserve c"
  by (auto simp: get_amounts_removed_def res_simps MINIMUM_LIQUIDITY_def)

lemma pool_remove_liquidity_Inr:
  assumes "pool_remove_liquidity ctx c = Inr (ctx', c')"
  obtains x y where
    "ctx' = ctx\<lparr>first_token_amount_removed := x, second_token_amount_removed := y\<rparr>"
    "c' = c\<lparr>cached_lp_token_supply := cached_lp_token_supply c - lp_token_payment_amount ctx,
            first_token_reserve := first_token_reserve c - x,
            second_token_reserve := second_token_reserve c - y\<rparr>"
    "lp_token_payment_amount ctx + MINIMUM_LIQUIDITY \<le> cached_lp_token_supply c"
    "0 < x" "x < first_token_reserve c" "rm_first_token_amount_min ctx \<le> x"
    "0 < y" "y < second_token_reserve c" "rm_second_token_amount_min ctx \<le> y"
    "x * cached_lp_token_supply c \<le> lp_token_payment_amount ctx * first_token_reserve c"
    "y * cached_lp_token_supply c \<le> lp_token_payment_amount ctx * second_token_reserve c"
proof -
  from assms obtain x y where r: "get_amounts_removed ctx c = Inr (x, y)"
    and ctx': "ctx' = ctx\<lparr>first_token_amount_removed := x, second_token_amount_removed := y\<rparr>"
    and c': "c' = c\<lparr>cached_lp_token_supply := cached_lp_token_supply c - lp_token_payment_amount ctx,
            first_token_reserve := first_token_reserve c - x,
            second_token_reserve := second_token_reserve c - y\<rparr>"
    by (auto simp: pool_remove_liquidity_def and_then_Inr big_sub_Inr)
  note b = r [unfolded get_amounts_removed_Inr]
  have "x * cached_lp_token_supply c \<le> lp_token_payment_amount ctx * first_token_reserve c"
    "y * cached_lp_token_supply c \<le> lp_token_payment_amount ctx * second_token_reserve c"
    using b div_mult_le_nat by blast+
  with b show thesis by (intro that [OF ctx' c']) blast+
qed

lemma swap_safe_no_fee_Inr:
  assumes "swap_safe_no_fee c ord a = Inr (out, c')"
  shows "out = curve_no_fee a (get_reserve_in c ord) (get_reserve_out c ord)"
    and "0 < get_reserve_in c ord" "0 < out" "out < get_reserve_out c ord"
    and "c' = set_reserve_out ord (get_reserve_out c ord - out)
                (set_reserve_in ord (get_reserve_in c ord + a) c)"
  using assms by (auto simp: swap_safe_no_fee_def Let_def res_simps)

lemmas pool_operation_defs =
  pool_add_liquidity_def pool_add_initial_liquidity_def pool_remove_liquidity_def
  set_optimal_amounts_def swap_safe_no_fee_def

section \<open>The deposit takes no more than what was paid\<close>

lemma set_optimal_amounts_cases:
  assumes "set_optimal_amounts ctx c = Inr ctx'"
  obtains x y where
    "ctx' = ctx\<lparr>first_token_optimal_amount := x, second_token_optimal_amount := y\<rparr>"
    "x \<le> amount (first_payment ctx)" "y \<le> amount (second_payment ctx)"
    "cached_lp_token_supply c \<noteq> 0 \<longrightarrow>
       first_token_amount_min ctx \<le> x \<and> second_token_amount_min ctx \<le> y"
proof (cases "cached_lp_token_supply c = 0")
  case True
  with assms show thesis
    by (intro that [where x = "amount (first_payment ctx)" and y = "amount (second_payment ctx)"])
      (simp_all add: set_optimal_amounts_def)
next
  case False
  from assms [unfolded set_optimal_amounts_def Let_def if_not_P [OF False] and_then_Inr require_Inr]
  show thesis
    by (elim exE conjE) (auto split: if_splits simp: and_then_Inr require_Inr intro: that)
qed

lemma set_optimal_amounts_bounds:
  assumes "set_optimal_amounts ctx c = Inr ctx'"
  shows "first_token_optimal_amount ctx' \<le> amount (first_payment ctx)"
    and "second_token_optimal_amount ctx' \<le> amount (second_payment ctx)"
    and "ctx' = ctx\<lparr>first_token_optimal_amount := first_token_optimal_amount ctx',
                    second_token_optimal_amount := second_token_optimal_amount ctx'\<rparr>"
    and "cached_lp_token_supply c \<noteq> 0 \<Longrightarrow>
      first_token_amount_min ctx \<le> first_token_optimal_amount ctx' \<and>
      second_token_amount_min ctx \<le> second_token_optimal_amount ctx'"
  using assms by (auto elim!: set_optimal_amounts_cases)

text \<open>
  The check that the first optimal amount is within the payment can never fail: the other
  branch is taken exactly when it would.
\<close>

lemma quote_cross:
  assumes "d1 * r2 div r1 > d2" and "0 < (r1::nat)" and "0 < r2"
  shows "d2 * r1 div r2 \<le> d1"
proof -
  have "d2 < d1 * r2 div r1" by (rule assms(1))
  then have "d2 * r1 \<le> d1 * r2"
    using div_mult_le_nat [of "d1 * r2" r1] by (meson less_imp_le_nat mult_le_mono1 order_trans)
  then show ?thesis by (rule div_le_of_le_mult)
qed

section \<open>Shares never lose value\<close>

text \<open>
  For one token: the reserve per share after the operation is at least the one before,
  written without division.
\<close>

definition share_le :: "biguint \<Rightarrow> biguint \<Rightarrow> biguint \<Rightarrow> biguint \<Rightarrow> bool" where
  "share_le r S r' S' \<longleftrightarrow> r * S' \<le> r' * S"

lemma pool_add_liquidity_share:
  assumes "pool_add_liquidity a1 a2 c = Inr (liq, c')"
  shows "share_le (first_token_reserve c) (cached_lp_token_supply c)
           (first_token_reserve c') (cached_lp_token_supply c')"
    and "share_le (second_token_reserve c) (cached_lp_token_supply c)
           (second_token_reserve c') (cached_lp_token_supply c')"
  using pool_add_liquidity_Inr [OF assms]
  by (auto simp: share_le_def algebra_simps)

lemma pool_remove_liquidity_share:
  assumes "pool_remove_liquidity ctx c = Inr (ctx', c')"
  shows "share_le (first_token_reserve c) (cached_lp_token_supply c)
           (first_token_reserve c') (cached_lp_token_supply c')"
    and "share_le (second_token_reserve c) (cached_lp_token_supply c)
           (second_token_reserve c') (cached_lp_token_supply c')"
proof -
  have key: "r * (S - lp) \<le> (r - x) * S" if "x * S \<le> lp * (r::nat)" for r S lp x
    using that by (simp add: diff_mult_distrib diff_mult_distrib2 mult.commute diff_le_mono2)
  from assms show "share_le (first_token_reserve c) (cached_lp_token_supply c)
           (first_token_reserve c') (cached_lp_token_supply c')"
    by (rule pool_remove_liquidity_Inr) (simp add: share_le_def key)
  from assms show "share_le (second_token_reserve c) (cached_lp_token_supply c)
           (second_token_reserve c') (cached_lp_token_supply c')"
    by (rule pool_remove_liquidity_Inr) (simp add: share_le_def key)
qed

lemma swap_safe_no_fee_product:
  assumes "swap_safe_no_fee c ord a = Inr (out, c')"
  shows "first_token_reserve c * second_token_reserve c
       \<le> first_token_reserve c' * second_token_reserve c'"
proof -
  note s = swap_safe_no_fee_Inr [OF assms]
  have "get_reserve_in c ord * get_reserve_out c ord
      \<le> (get_reserve_in c ord + a) * (get_reserve_out c ord - out)"
    unfolding s(1) using s(1,4) by (intro no_fee.product_kept) simp_all
  then show ?thesis
    by (simp only: reserves_by_order [of _ ord] s(5) get_set_reserve)
qed

end
