(* ===== verification/PairConfig.thy ===== *)
theory PairConfig
  imports PairLiquidity
begin

text \<open>
  The pair's deployment (\<open>lib.rs\<close>) and its administration endpoints: \<open>config.rs\<close>,
  \<open>locking_wrapper.rs\<close>, and the endpoints it inherits from the permission and pause
  modules. Each takes the context of the call and the storage, and returns the new storage.
\<close>

section \<open>lib.rs\<close>

definition set_fee_percents :: "u64 \<Rightarrow> u64 \<Rightarrow> pair_storage \<Rightarrow> error + pair_storage" where
  "set_fee_percents total_fee special_fee s =
     require (special_fee \<le> total_fee \<and> total_fee \<le> MAX_FEE_PERCENTAGE) ERROR_BAD_PERCENTS
       (Inr (s\<lparr>total_fee_percent := total_fee, special_fee_percent := special_fee\<rparr>))"

definition set_if_empty_token :: "token_id \<Rightarrow> token_id \<Rightarrow> token_id" where
  "set_if_empty_token old new = (if old = [] then new else old)"

definition pair_init ::
  "('e blockchain_scheme) \<Rightarrow> token_id \<Rightarrow> token_id \<Rightarrow> address \<Rightarrow> address \<Rightarrow> u64 \<Rightarrow> u64 \<Rightarrow> address \<Rightarrow>
   address list \<Rightarrow> pair_storage \<Rightarrow> error + pair_storage" where
  "pair_init env t1 t2 router router_owner total_fee special_fee liq_adder admins s =
     require (is_valid_esdt_identifier env t1) ERROR_NOT_AN_ESDT
    (require (is_valid_esdt_identifier env t2) ERROR_NOT_AN_ESDT
    (require (t1 \<noteq> t2) ERROR_SAME_TOKENS
    (let lp_token = lp_token_identifier s in
     require (t1 \<noteq> lp_token) ERROR_POOL_TOKEN_IS_PLT
    (require (t2 \<noteq> lp_token) ERROR_POOL_TOKEN_IS_PLT
    (and_then (set_fee_percents total_fee special_fee s) (\<lambda>s.
     let s = s\<lparr>pair_state := Inactive, router_address := router,
               first_token_id := set_if_empty_token (first_token_id s) t1,
               second_token_id := set_if_empty_token (second_token_id s) t2,
               initial_liquidity_adder :=
                 (case initial_liquidity_adder s of
                    Some a \<Rightarrow> Some a
                  | None \<Rightarrow> if liq_adder \<noteq> zero_address then Some liq_adder else None)\<rparr>;
         m = pair_permissions s;
         m = (if admins = [] then
                add_permissions (add_permissions m router (OWNER OR ADMIN OR PAUSE))
                  router_owner (OWNER OR ADMIN OR PAUSE)
              else
                add_permissions_for_all
                  (add_permissions (add_permissions m router (OWNER OR PAUSE))
                    router_owner (OWNER OR PAUSE))
                  admins ADMIN)
     in Inr (s\<lparr>pair_permissions := m\<rparr>)))))))"

definition set_lp_token_identifier ::
  "('e blockchain_scheme) \<Rightarrow> token_id \<Rightarrow> pair_storage \<Rightarrow> error + pair_storage" where
  "set_lp_token_identifier env t s =
     require_caller_has_owner_permissions (pair_permissions s) (get_caller env)
    (require (lp_token_identifier s = []) ERROR_LP_TOKEN_NOT_ISSUED
    (require (t \<noteq> first_token_id s \<and> t \<noteq> second_token_id s) ERROR_LP_TOKEN_SAME_AS_POOL_TOKENS
    (require (is_valid_esdt_identifier env t) ERROR_NOT_AN_ESDT
       (Inr (s\<lparr>lp_token_identifier := t\<rparr>)))))"

section \<open>config.rs\<close>

definition set_state_active_no_swaps ::
  "('e blockchain_scheme) \<Rightarrow> pair_storage \<Rightarrow> error + pair_storage" where
  "set_state_active_no_swaps env s =
     require_caller_has_owner_permissions (pair_permissions s) (get_caller env)
       (Inr (s\<lparr>pair_state := PartialActive\<rparr>))"

definition set_fee_percent ::
  "('e blockchain_scheme) \<Rightarrow> u64 \<Rightarrow> u64 \<Rightarrow> pair_storage \<Rightarrow> error + pair_storage" where
  "set_fee_percent env total_fee special_fee s =
     require_caller_has_owner_or_admin_permissions (pair_permissions s) (get_caller env)
       (set_fee_percents total_fee special_fee s)"

section \<open>locking_wrapper.rs\<close>

definition set_locking_deadline_epoch ::
  "('e blockchain_scheme) \<Rightarrow> u64 \<Rightarrow> pair_storage \<Rightarrow> error + pair_storage" where
  "set_locking_deadline_epoch env new_deadline s =
     require_caller_has_owner_permissions (pair_permissions s) (get_caller env)
       (Inr (s\<lparr>locking_deadline_epoch := new_deadline\<rparr>))"

definition set_locking_sc_address ::
  "('e blockchain_scheme) \<Rightarrow> address \<Rightarrow> pair_storage \<Rightarrow> error + pair_storage" where
  "set_locking_sc_address env new_address s =
     require_caller_has_owner_permissions (pair_permissions s) (get_caller env)
    (require (is_smart_contract env new_address) (SignalError ''Invalid SC Address'')
       (Inr (s\<lparr>locking_sc_address := new_address\<rparr>)))"

definition set_unlock_epoch ::
  "('e blockchain_scheme) \<Rightarrow> u64 \<Rightarrow> pair_storage \<Rightarrow> error + pair_storage" where
  "set_unlock_epoch env new_epoch s =
     require_caller_has_owner_permissions (pair_permissions s) (get_caller env)
       (Inr (s\<lparr>unlock_epoch := new_epoch\<rparr>))"

definition should_generate_locked_asset :: "('e blockchain_scheme) \<Rightarrow> pair_storage \<Rightarrow> bool" where
  "should_generate_locked_asset env s \<longleftrightarrow> get_block_epoch env < locking_deadline_epoch s"

text \<open>
  \<open>lock_common\<close> without a destination: the tokens go to the locking contract, which
  sends a payment to its caller and reports it, as \<open>lock_and_send\<close> of simple-lock does: a locked
  position, or the original tokens when the unlock epoch has passed.
\<close>

definition lock_tokens ::
  "('e pair_env_scheme) \<Rightarrow> pair_storage \<Rightarrow> token_id \<Rightarrow> biguint \<Rightarrow>
   error + (esdt_payment \<times> effect list)" where
  "lock_tokens env s t a =
     and_then (call_lock_tokens env (locking_sc_address s) (unlock_epoch s) (new_payment t 0 a))
       (\<lambda>locked. Inr (locked,
          [ExecuteOnDest (locking_sc_address s) ''lockTokens'' [new_payment t 0 a],
           ReceivedFrom (locking_sc_address s) [locked]]))"

section \<open>Inherited endpoints\<close>

definition with_permissions ::
  "pair_storage \<Rightarrow> error + permission_map \<Rightarrow> error + pair_storage" where
  "with_permissions s r = and_then r (\<lambda>m. Inr (s\<lparr>pair_permissions := m\<rparr>))"

definition with_state :: "pair_storage \<Rightarrow> error + state \<Rightarrow> error + pair_storage" where
  "with_state s r = and_then r (\<lambda>st. Inr (s\<lparr>pair_state := st\<rparr>))"

lemma with_permissions_Inr [res_simps]:
  "with_permissions s r = Inr s' \<longleftrightarrow> (\<exists>m. r = Inr m \<and> s' = s\<lparr>pair_permissions := m\<rparr>)"
  by (auto simp: with_permissions_def res_simps)

lemma with_state_Inr [res_simps]:
  "with_state s r = Inr s' \<longleftrightarrow> (\<exists>st. r = Inr st \<and> s' = s\<lparr>pair_state := st\<rparr>)"
  by (auto simp: with_state_def res_simps)

end
