(* ===== verification/PairFee.thy ===== *)
theory PairFee
  imports PairConfig
begin

text \<open>
  \<open>dex/pair/src/fee.rs\<close>: who may swap without fee, where the special fee goes, and how
  a fee is split. A slice of the fee is burned, swapped in this pool and burned, or sent to
  a trusted pair, directly or after a swap in this pool. Lemmas: no step lowers the product
  of the reserves, and every token leaving the contract is covered by the fee or by the
  change of the reserves.
\<close>

section \<open>Configuration endpoints\<close>

definition is_fee_enabled :: "pair_storage \<Rightarrow> bool" where
  "is_fee_enabled s \<longleftrightarrow> destination_map s \<noteq> [] \<or> fees_collector_address s \<noteq> None"

definition whitelist_endpoint ::
  "('e blockchain_scheme) \<Rightarrow> address \<Rightarrow> pair_storage \<Rightarrow> error + pair_storage" where
  "whitelist_endpoint env a s =
     require_caller_has_owner_permissions (pair_permissions s) (get_caller env)
    (require (a \<notin> set (pair_whitelist s)) ERROR_ALREADY_WHITELISTED
       (Inr (s\<lparr>pair_whitelist := pair_whitelist s @ [a]\<rparr>)))"

definition remove_whitelist ::
  "('e blockchain_scheme) \<Rightarrow> address \<Rightarrow> pair_storage \<Rightarrow> error + pair_storage" where
  "remove_whitelist env a s =
     require_caller_has_owner_permissions (pair_permissions s) (get_caller env)
    (require (a \<in> set (pair_whitelist s)) ERROR_NOT_WHITELISTED
       (Inr (s\<lparr>pair_whitelist := remove1 a (pair_whitelist s)\<rparr>)))"

definition add_trusted_swap_pair ::
  "('e blockchain_scheme) \<Rightarrow> address \<Rightarrow> token_id \<Rightarrow> token_id \<Rightarrow> pair_storage \<Rightarrow> error + pair_storage"
where
  "add_trusted_swap_pair env pair_address t1 t2 s =
     require_caller_has_owner_permissions (pair_permissions s) (get_caller env)
    (require (t1 \<noteq> t2) ERROR_SAME_TOKENS
    (let key = \<lparr>first_token = t1, second_token = t2\<rparr> in
     require (map_of (trusted_swap_pair s) key = None) ERROR_PAIR_ALREADY_TRUSTED
       (Inr (s\<lparr>trusted_swap_pair := AList.update key pair_address (trusted_swap_pair s)\<rparr>))))"

definition remove_trusted_swap_pair ::
  "('e blockchain_scheme) \<Rightarrow> token_id \<Rightarrow> token_id \<Rightarrow> pair_storage \<Rightarrow> error + pair_storage" where
  "remove_trusted_swap_pair env t1 t2 s =
     require_caller_has_owner_permissions (pair_permissions s) (get_caller env)
    (let key = \<lparr>first_token = t1, second_token = t2\<rparr>;
         reversed = \<lparr>first_token = t2, second_token = t1\<rparr> in
     if map_of (trusted_swap_pair s) key \<noteq> None then
       Inr (s\<lparr>trusted_swap_pair := AList.delete key (trusted_swap_pair s)\<rparr>)
     else
       require (map_of (trusted_swap_pair s) reversed \<noteq> None) ERROR_PAIR_NOT_TRUSTED
         (Inr (s\<lparr>trusted_swap_pair := AList.delete reversed (trusted_swap_pair s)\<rparr>)))"

definition setup_fees_collector ::
  "('e blockchain_scheme) \<Rightarrow> address \<Rightarrow> u64 \<Rightarrow> pair_storage \<Rightarrow> error + pair_storage" where
  "setup_fees_collector env collector cut_percentage s =
     require_caller_has_owner_permissions (pair_permissions s) (get_caller env)
    (require (is_smart_contract env collector) (SignalError ''Invalid fees collector address'')
    (require (0 < cut_percentage \<and> cut_percentage \<le> MAX_PERCENTAGE) (SignalError ''Invalid fees percentage'')
       (Inr (s\<lparr>fees_collector_address := Some collector,
               fees_collector_cut_percentage := cut_percentage\<rparr>))))"

definition set_fee_on ::
  "('e blockchain_scheme) \<Rightarrow> bool \<Rightarrow> address \<Rightarrow> token_id \<Rightarrow> pair_storage \<Rightarrow> error + pair_storage" where
  "set_fee_on env enabled fee_to_address fee_token s =
     require_caller_has_owner_permissions (pair_permissions s) (get_caller env)
    (let is_dest = fee_to_address \<in> set (map fst (destination_map s)) in
     if enabled then
       require (\<not> is_dest) ERROR_ALREADY_FEE_DEST
         (Inr (s\<lparr>destination_map := AList.update fee_to_address fee_token (destination_map s)\<rparr>))
     else
       require is_dest ERROR_NOT_FEE_DEST
      (case map_of (destination_map s) fee_to_address of
         None \<Rightarrow> Inl UnwrapNone
       | Some dest_fee_token \<Rightarrow>
           require (fee_token = dest_fee_token) ERROR_BAD_TOKEN_FEE_DEST
             (Inr (s\<lparr>destination_map := AList.delete fee_to_address (destination_map s)\<rparr>))))"

section \<open>Sending a fee\<close>

definition burn :: "token_id \<Rightarrow> biguint \<Rightarrow> effect list" where
  "burn t a = (if 0 < a then [EsdtLocalBurn t a] else [])"

definition get_extern_swap_pair_address :: "pair_storage \<Rightarrow> token_id \<Rightarrow> token_id \<Rightarrow> address" where
  "get_extern_swap_pair_address s t1 t2 =
     (case map_of (trusted_swap_pair s) \<lparr>first_token = t1, second_token = t2\<rparr> of
        Some a \<Rightarrow> a
      | None \<Rightarrow>
          (case map_of (trusted_swap_pair s) \<lparr>first_token = t2, second_token = t1\<rparr> of
             Some a \<Rightarrow> a
           | None \<Rightarrow> zero_address))"

definition can_send_fee_directly :: "token_id \<Rightarrow> token_id \<Rightarrow> bool" where
  "can_send_fee_directly fee_token requested \<longleftrightarrow> fee_token = requested"

definition can_resolve_swap_locally :: "token_id \<Rightarrow> token_id \<Rightarrow> token_id \<Rightarrow> token_id \<Rightarrow> bool" where
  "can_resolve_swap_locally fee_token requested pool_first pool_second \<longleftrightarrow>
     (requested = pool_first \<and> fee_token = pool_second) \<or>
     (requested = pool_second \<and> fee_token = pool_first)"

definition can_extern_swap_directly :: "pair_storage \<Rightarrow> token_id \<Rightarrow> token_id \<Rightarrow> bool" where
  "can_extern_swap_directly s fee_token requested \<longleftrightarrow>
     get_extern_swap_pair_address s fee_token requested \<noteq> zero_address"

definition can_extern_swap_after_local_swap ::
  "pair_storage \<Rightarrow> token_id \<Rightarrow> token_id \<Rightarrow> token_id \<Rightarrow> token_id \<Rightarrow> bool" where
  "can_extern_swap_after_local_swap s t1 t2 fee_token requested \<longleftrightarrow>
     (if fee_token = t1 then get_extern_swap_pair_address s t2 requested \<noteq> zero_address
      else if fee_token = t2 then get_extern_swap_pair_address s t1 requested \<noteq> zero_address
      else False)"

definition extern_swap_and_forward ::
  "('e pair_env_scheme) \<Rightarrow> pair_storage \<Rightarrow> token_id \<Rightarrow> biguint \<Rightarrow> token_id \<Rightarrow> address \<Rightarrow>
   error + effect list" where
  "extern_swap_and_forward env s available_token available_amount requested dest =
     (let pair_address = get_extern_swap_pair_address s available_token requested;
          payment = new_payment available_token 0 available_amount in
      and_then (call_swap_no_fee env pair_address payment requested dest) (\<lambda>_.
      Inr [ExecuteOnDest pair_address ''swapNoFeeAndForward'' [payment]]))"

definition send_fees_collector_cut ::
  "('e pair_env_scheme) \<Rightarrow> pair_storage \<Rightarrow> token_id \<Rightarrow> biguint \<Rightarrow> error + effect list" where
  "send_fees_collector_cut env s t cut_amount =
     (case fees_collector_address s of
        None \<Rightarrow> Inl UnwrapNone
      | Some collector \<Rightarrow>
          and_then (call_deposit_swap_fees env collector (new_payment t 0 cut_amount)) (\<lambda>_.
          Inr [ExecuteOnDest collector ''depositSwapFees'' [new_payment t 0 cut_amount]]))"

definition send_fee_slice ::
  "('e pair_env_scheme) \<Rightarrow> pair_storage \<Rightarrow> storage_cache \<Rightarrow> swap_tokens_order \<Rightarrow> token_id \<Rightarrow>
   biguint \<Rightarrow> address \<Rightarrow> token_id \<Rightarrow> error + (storage_cache \<times> effect list)" where
  "send_fee_slice env s c order fee_token fee_slice fee_address requested =
     (if can_send_fee_directly fee_token requested then
        Inr (c, burn fee_token fee_slice)
      else if can_resolve_swap_locally fee_token requested
                (cached_first_token_id c) (cached_second_token_id c) then
        and_then (swap_safe_no_fee c order fee_slice) (\<lambda>(to_burn, c').
        Inr (c', burn requested to_burn))
      else if can_extern_swap_directly s fee_token requested then
        and_then (extern_swap_and_forward env s fee_token fee_slice requested fee_address) (\<lambda>es.
        Inr (c, es))
      else if can_extern_swap_after_local_swap s (cached_first_token_id c)
                (cached_second_token_id c) fee_token requested then
        and_then (swap_safe_no_fee c order fee_slice) (\<lambda>(to_send, c').
        let to_send_token = (if fee_token = cached_first_token_id c
                             then cached_second_token_id c else cached_first_token_id c) in
        and_then (extern_swap_and_forward env s to_send_token to_send requested fee_address) (\<lambda>es.
        Inr (c', es)))
      else Inl ERROR_NOTHING_TO_DO_WITH_FEE_SLICE)"

text \<open>The loop of \<open>send_fee\<close> over the destinations.\<close>

fun send_fee_slices ::
  "('e pair_env_scheme) \<Rightarrow> pair_storage \<Rightarrow> storage_cache \<Rightarrow> swap_tokens_order \<Rightarrow> token_id \<Rightarrow>
   biguint \<Rightarrow> (address \<times> token_id) list \<Rightarrow> error + (storage_cache \<times> effect list)" where
  "send_fee_slices env s c order fee_token fee_slice [] = Inr (c, [])"
| "send_fee_slices env s c order fee_token fee_slice ((fee_address, requested) # dests) =
     and_then (send_fee_slice env s c order fee_token fee_slice fee_address requested)
       (\<lambda>(c', es).
     and_then (send_fee_slices env s c' order fee_token fee_slice dests) (\<lambda>(c'', es').
     Inr (c'', es @ es')))"

text \<open>The first part of \<open>send_fee\<close>: the fees collector's share, and what remains.\<close>

definition take_fees_collector_cut ::
  "('e pair_env_scheme) \<Rightarrow> pair_storage \<Rightarrow> token_id \<Rightarrow> biguint \<Rightarrow> error + (biguint \<times> effect list)"
where
  "take_fees_collector_cut env s fee_token fee =
     (if fees_collector_address s \<noteq> None then
        let cut_amount = fee * unat (fees_collector_cut_percentage s) div unat MAX_PERCENTAGE in
        and_then (big_sub fee cut_amount) (\<lambda>reminder.
        if 0 < cut_amount then
          and_then (send_fees_collector_cut env s fee_token cut_amount) (\<lambda>es. Inr (reminder, es))
        else Inr (reminder, []))
      else Inr (fee, []))"

definition send_fee ::
  "('e pair_env_scheme) \<Rightarrow> pair_storage \<Rightarrow> storage_cache \<Rightarrow> swap_tokens_order \<Rightarrow> token_id \<Rightarrow>
   biguint \<Rightarrow> error + (storage_cache \<times> effect list)" where
  "send_fee env s c order fee_token fee =
     (if fee = 0 then Inr (c, [])
      else
        and_then (take_fees_collector_cut env s fee_token fee) (\<lambda>(remaining_fee, es).
        let slices = length (destination_map s) in
        if slices = 0 then Inr (c, es)
        else
          and_then (big_div remaining_fee slices) (\<lambda>fee_slice.
          if fee_slice = 0 then Inr (c, es)
          else
            and_then (send_fee_slices env s c order fee_token fee_slice (destination_map s))
              (\<lambda>(c', es'). Inr (c', es @ es')))))"

section \<open>Fees never lower the product of the reserves\<close>

definition product :: "storage_cache \<Rightarrow> biguint" where
  "product c = calculate_k_constant (first_token_reserve c) (second_token_reserve c)"

text \<open>What a fee step keeps: tokens, supply, and the product at least as large.\<close>

definition fee_step :: "storage_cache \<Rightarrow> storage_cache \<Rightarrow> bool" where
  "fee_step c c' \<longleftrightarrow>
     same_pool c c' \<and> cached_lp_token_supply c' = cached_lp_token_supply c \<and>
     product c \<le> product c'"

lemma fee_step_refl [simp]: "fee_step c c"
  by (simp add: fee_step_def)

lemma fee_step_trans: "fee_step a b \<Longrightarrow> fee_step b c \<Longrightarrow> fee_step a c"
  by (auto simp: fee_step_def intro: same_pool_trans)

lemma swap_safe_no_fee_step:
  "swap_safe_no_fee c ord a = Inr (out, c') \<Longrightarrow> fee_step c c'"
  using swap_safe_no_fee_product [of c ord a out c'] swap_safe_no_fee_Inr(5) [of c ord a out c']
  by (auto simp: fee_step_def same_pool_def product_def calculate_k_constant_def)

lemma send_fee_slice_step:
  "send_fee_slice env s c ord t a d r = Inr (c', es) \<Longrightarrow> fee_step c c'"
  by (auto simp: send_fee_slice_def Let_def and_then_Inr dest: swap_safe_no_fee_step
      split: if_splits)

lemma send_fee_slices_step:
  "send_fee_slices env s c ord t a ds = Inr (c', es) \<Longrightarrow> fee_step c c'"
proof (induction ds arbitrary: c c' es)
  case (Cons d ds)
  then show ?case
    by (cases d) (fastforce simp: and_then_Inr intro: fee_step_trans send_fee_slice_step)
qed simp

lemma send_fee_step: "send_fee env s c ord t a = Inr (c', es) \<Longrightarrow> fee_step c c'"
  by (auto simp: send_fee_def Let_def and_then_Inr dest: send_fee_slices_step split: if_splits)

section \<open>Every token that leaves is accounted for\<close>

definition cache_reserve :: "storage_cache \<Rightarrow> token_id \<Rightarrow> biguint" where
  "cache_reserve c t =
     (if t = cached_first_token_id c then first_token_reserve c
      else if t = cached_second_token_id c then second_token_reserve c else 0)"

fun order_input :: "storage_cache \<Rightarrow> swap_tokens_order \<Rightarrow> token_id" where
  "order_input c PoolOrder = cached_first_token_id c"
| "order_input c ReverseOrder = cached_second_token_id c"

fun order_output :: "storage_cache \<Rightarrow> swap_tokens_order \<Rightarrow> token_id" where
  "order_output c PoolOrder = cached_second_token_id c"
| "order_output c ReverseOrder = cached_first_token_id c"

text \<open>
  A step that receives \<open>a\<close> of the token \<open>t\<close> and performs \<open>es\<close> is balanced when for
  each token the new reserve and what leaves are exactly the old reserve and what came.
\<close>

definition balanced :: "token_id \<Rightarrow> biguint \<Rightarrow> storage_cache \<Rightarrow> storage_cache \<Rightarrow> effect list \<Rightarrow> bool" where
  "balanced t a c c' es \<longleftrightarrow>
     (\<forall>u. cache_reserve c' u + outflow u es = cache_reserve c u + (if u = t then a else 0)) \<and>
     (\<forall>u. inflow u es = 0)"

lemma burn_flow [simp]:
  "outflow u (burn t a) = (if t = u then a else 0)" "inflow u (burn t a) = 0"
  by (simp_all add: burn_def)

lemma swap_safe_no_fee_balance:
  assumes "swap_safe_no_fee c ord a = Inr (out, c')"
    and "cached_first_token_id c \<noteq> cached_second_token_id c"
  shows "cache_reserve c' u + (if u = order_output c ord then out else 0)
       = cache_reserve c u + (if u = order_input c ord then a else 0)"
  using swap_safe_no_fee_Inr [OF assms(1)] assms(2)
  by (cases ord) (auto simp: cache_reserve_def)

lemma extern_swap_flow:
  "extern_swap_and_forward env s t a r d = Inr es \<Longrightarrow>
   outflow u es = (if t = u then a else 0) \<and> inflow u es = 0"
  by (auto simp: extern_swap_and_forward_def Let_def res_simps)

lemma send_fee_slice_balanced:
  assumes slice: "send_fee_slice env s c ord t a d r = Inr (c', es)"
    and distinct: "cached_first_token_id c \<noteq> cached_second_token_id c"
    and t: "t = order_input c ord"
  shows "balanced t a c c' es"
proof -
  have swap: "cache_reserve c2 u + (if u = order_output c ord then out else 0)
      = cache_reserve c u + (if u = t then a else 0)"
    if "swap_safe_no_fee c ord a = Inr (out, c2)" for out c2 u
    using swap_safe_no_fee_balance [OF that distinct] t by simp
  consider (direct) "t = r" "c' = c" "es = burn t a"
    | (local) out where "t \<noteq> r" "r = order_output c ord"
        "swap_safe_no_fee c ord a = Inr (out, c')" "es = burn r out"
    | (extern) "c' = c" "extern_swap_and_forward env s t a r d = Inr es"
    | (after) out where "swap_safe_no_fee c ord a = Inr (out, c')"
        "extern_swap_and_forward env s (order_output c ord) out r d = Inr es"
    using slice t distinct
    by (cases ord)
      (auto simp: send_fee_slice_def and_then_Inr can_send_fee_directly_def
        can_resolve_swap_locally_def split: if_splits)
  then show ?thesis
  proof cases
    case direct
    then show ?thesis by (auto simp: balanced_def)
  next
    case local
    then show ?thesis using swap by (auto simp: balanced_def eq_commute)
  next
    case extern
    then show ?thesis using extern_swap_flow [OF extern(2)] by (auto simp: balanced_def)
  next
    case after
    have "outflow u es = (if u = order_output c ord then out else 0) \<and> inflow u es = 0" for u
      using extern_swap_flow [OF after(2), of u] by auto
    then show ?thesis using swap [OF after(1)] by (simp add: balanced_def)
  qed
qed

lemma send_fee_slices_balanced:
  assumes "send_fee_slices env s c ord t a ds = Inr (c', es)"
    and "cached_first_token_id c \<noteq> cached_second_token_id c"
    and "t = order_input c ord"
  shows "balanced t (length ds * a) c c' es"
  using assms
proof (induction ds arbitrary: c c' es)
  case Nil
  then show ?case by (simp add: balanced_def)
next
  case (Cons d ds)
  obtain addr r where d: "d = (addr, r)" by (cases d)
  obtain c1 e1 e2 where one: "send_fee_slice env s c ord t a addr r = Inr (c1, e1)"
    and rest: "send_fee_slices env s c1 ord t a ds = Inr (c', e2)" and es: "es = e1 @ e2"
    using Cons.prems(1) by (auto simp: d and_then_Inr)
  have same: "same_pool c c1" using send_fee_slice_step [OF one] by (simp add: fee_step_def)
  then have d1: "cached_first_token_id c1 \<noteq> cached_second_token_id c1"
    using Cons.prems(2) by (simp add: same_pool_def)
  have t1: "t = order_input c1 ord"
    using same Cons.prems(3) by (cases ord) (simp_all add: same_pool_def)
  have b1: "balanced t a c c1 e1"
    using one Cons.prems(2,3) by (rule send_fee_slice_balanced)
  have b2: "balanced t (length ds * a) c1 c' e2"
    using rest d1 t1 by (rule Cons.IH)
  have "cache_reserve c' u + outflow u es = cache_reserve c u + (if u = t then length (d # ds) * a else 0)"
    for u
  proof -
    have "cache_reserve c1 u + outflow u e1 = cache_reserve c u + (if u = t then a else 0)"
      and "cache_reserve c' u + outflow u e2
        = cache_reserve c1 u + (if u = t then length ds * a else 0)"
      using b1 b2 by (simp_all add: balanced_def)
    then show ?thesis by (auto simp: es split: if_splits)
  qed
  with b1 b2 show ?case by (simp add: balanced_def es)
qed

lemma take_fees_collector_cut_flow:
  assumes "take_fees_collector_cut env s t fee = Inr (rem, es)"
  shows "rem + outflow t es = fee" "u \<noteq> t \<Longrightarrow> outflow u es = 0" "inflow u es = 0"
  using assms
  by (auto simp: take_fees_collector_cut_def send_fees_collector_cut_def Let_def and_then_Inr
      big_sub_Inr split: if_splits option.splits)

lemma send_fee_flow:
  assumes fee: "send_fee env s c ord t a = Inr (c', es)"
    and distinct: "cached_first_token_id c \<noteq> cached_second_token_id c"
    and t: "t = order_input c ord"
  shows "cache_reserve c' u + outflow u es \<le> cache_reserve c u + (if u = t then a else 0)
    \<and> inflow u es = 0"
proof (cases "a = 0")
  case True
  with fee show ?thesis by (simp add: send_fee_def)
next
  case False
  then obtain rem e1 where
    head: "take_fees_collector_cut env s t a = Inr (rem, e1)"
    and tail: "(c' = c \<and> es = e1) \<or>
      (\<exists>e2. send_fee_slices env s c ord t (rem div length (destination_map s))
              (destination_map s) = Inr (c', e2) \<and> es = e1 @ e2)"
    using fee by (auto simp: send_fee_def Let_def and_then_Inr big_div_Inr split: if_splits)
  note h = take_fees_collector_cut_flow [OF head]
  from tail show ?thesis
  proof
    assume "c' = c \<and> es = e1"
    with h show ?thesis by (cases "u = t") auto
  next
    let ?n = "length (destination_map s)"
    assume "\<exists>e2. send_fee_slices env s c ord t (rem div ?n) (destination_map s) = Inr (c', e2)
      \<and> es = e1 @ e2"
    then obtain e2 where
      sl: "send_fee_slices env s c ord t (rem div ?n) (destination_map s) = Inr (c', e2)"
      and es: "es = e1 @ e2" by blast
    obtain m where m: "m = ?n * (rem div ?n)" and "m \<le> rem"
      by (simp add: mult.commute div_mult_le_nat)
    have "balanced t m c c' e2"
      unfolding m using sl distinct t by (rule send_fee_slices_balanced)
    then have "cache_reserve c' u + outflow u e2 = cache_reserve c u + (if u = t then m else 0)"
      and "inflow u e2 = 0"
      by (simp_all only: balanced_def)
    with \<open>m \<le> rem\<close> h(1) h(2,3) [of u] show ?thesis
      by (cases "u = t") (simp_all add: es)
  qed
qed

end
