(* ===== verification/PairSafePrice.thy ===== *)
theory PairSafePrice
  imports PairState
begin

text \<open>
  \<open>dex/pair/src/safe_price.rs\<close>: the ring of price observations. The abstract view of the
  ring is the list of observations from the oldest to the newest (\<open>chronological\<close>); an
  update appends to it and, when the ring is full, drops its head. The invariant says that
  this list is ordered by round and that the index is inside the ring.
\<close>

definition MAX_OBSERVATIONS :: nat where "MAX_OBSERVATIONS = 65536"

lemma MAX_OBSERVATIONS_pos [simp]: "0 < MAX_OBSERVATIONS"
  by (simp add: MAX_OBSERVATIONS_def)

lemma MAX_OBSERVATIONS_nonzero [simp]: "MAX_OBSERVATIONS \<noteq> 0"
  by (simp add: MAX_OBSERVATIONS_def)

section \<open>Definitions\<close>

definition default_observation :: price_observation where
  "default_observation =
     \<lparr>first_token_reserve_accumulated = 0, second_token_reserve_accumulated = 0,
      weight_accumulated = 0, recording_round = 0, lp_supply_accumulated = 0\<rparr>"

text \<open>\<open>VecMapper\<close>: indices start at 1; reading or writing outside of it aborts.\<close>

definition vec_get :: "'a list \<Rightarrow> nat \<Rightarrow> error + 'a" where
  "vec_get xs i = (if 1 \<le> i \<and> i \<le> length xs then Inr (xs ! (i - 1)) else Inl IndexOutOfRange)"

definition vec_set :: "'a list \<Rightarrow> nat \<Rightarrow> 'a \<Rightarrow> error + 'a list" where
  "vec_set xs i x = (if 1 \<le> i \<and> i \<le> length xs then Inr (xs[i - 1 := x]) else Inl IndexOutOfRange)"

definition compute_new_observation ::
  "u64 \<Rightarrow> biguint \<Rightarrow> biguint \<Rightarrow> biguint \<Rightarrow> price_observation \<Rightarrow> price_observation" where
  "compute_new_observation new_round new_first new_second new_lp_supply cur =
     (let new_weight = (if recording_round cur = 0 then 1 else new_round - recording_round cur) in
      cur\<lparr>first_token_reserve_accumulated :=
            first_token_reserve_accumulated cur + unat new_weight * new_first,
          second_token_reserve_accumulated :=
            second_token_reserve_accumulated cur + unat new_weight * new_second,
          lp_supply_accumulated := lp_supply_accumulated cur + unat new_weight * new_lp_supply,
          weight_accumulated := weight_accumulated cur + new_weight,
          recording_round := new_round\<rparr>)"

definition update_safe_price ::
  "('e blockchain_scheme) \<Rightarrow> biguint \<Rightarrow> biguint \<Rightarrow> biguint \<Rightarrow> pair_storage \<Rightarrow> error + pair_storage"
where
  "update_safe_price env first_reserve second_reserve lp_supply s =
     (if first_reserve = 0 \<or> second_reserve = 0 \<or> lp_supply = 0 then Inr s
      else
        let current_round = get_block_round env;
            current_index = safe_price_current_index s;
            obs = price_observations s in
        require (current_index \<le> MAX_OBSERVATIONS) ERROR_SAFE_PRICE_CURRENT_INDEX
       (and_then
          (if obs \<noteq> [] then
             and_then (vec_get obs current_index) (\<lambda>last.
             Inr (last, current_index mod MAX_OBSERVATIONS + 1))
           else Inr (default_observation, 1)) (\<lambda>(last, new_index).
        if recording_round last = current_round then Inr s
        else
          let new_obs = compute_new_observation current_round first_reserve second_reserve
                          lp_supply last in
          and_then
            (if length obs = MAX_OBSERVATIONS then vec_set obs new_index new_obs
             else Inr (obs @ [new_obs])) (\<lambda>obs'.
          Inr (s\<lparr>price_observations := obs', safe_price_current_index := new_index\<rparr>)))))"

lemma vec_get_Inr [res_simps]:
  "vec_get xs i = Inr x \<longleftrightarrow> 1 \<le> i \<and> i \<le> length xs \<and> x = xs ! (i - 1)"
  by (auto simp: vec_get_def)

lemma vec_set_Inr [res_simps]:
  "vec_set xs i x = Inr ys \<longleftrightarrow> 1 \<le> i \<and> i \<le> length xs \<and> ys = xs[i - 1 := x]"
  by (auto simp: vec_set_def)

section \<open>The ring as a queue\<close>

definition chronological :: "'a list \<Rightarrow> nat \<Rightarrow> 'a list" where
  "chronological obs i = drop i obs @ take i obs"

definition ring_ok :: "'a list \<Rightarrow> nat \<Rightarrow> bool" where
  "ring_ok obs i \<longleftrightarrow>
     length obs \<le> MAX_OBSERVATIONS \<and> i \<le> length obs \<and> (obs \<noteq> [] \<longrightarrow> 1 \<le> i) \<and>
     (length obs < MAX_OBSERVATIONS \<longrightarrow> i = length obs)"

text \<open>The abstract update: a queue that holds at most \<open>MAX_OBSERVATIONS\<close> entries.\<close>

definition queue_push :: "'a list \<Rightarrow> 'a \<Rightarrow> 'a list" where
  "queue_push q x = (if length q = MAX_OBSERVATIONS then tl q else q) @ [x]"

lemma length_chronological [simp]: "length (chronological obs i) = length obs"
  by (simp add: chronological_def)

lemma set_chronological [simp]: "set (chronological obs i) = set obs"
proof -
  have "set (drop i obs) \<union> set (take i obs) = set obs"
    by (metis Un_commute append_take_drop_id set_append)
  then show ?thesis by (simp add: chronological_def)
qed

lemma last_chronological:
  "obs \<noteq> [] \<Longrightarrow> 1 \<le> i \<Longrightarrow> i \<le> length obs \<Longrightarrow> last (chronological obs i) = obs ! (i - 1)"
  by (simp add: chronological_def last_append last_conv_nth min_def)

lemma hd_chronological:
  "obs \<noteq> [] \<Longrightarrow> hd (chronological obs i) = (if i < length obs then obs ! i else hd obs)"
  by (auto simp: chronological_def hd_append hd_drop_conv_nth)

text \<open>Appending while there is room.\<close>

lemma ring_append:
  assumes "ring_ok obs i" and "length obs < MAX_OBSERVATIONS"
  shows "ring_ok (obs @ [x]) (i + 1)" "i + 1 = i mod MAX_OBSERVATIONS + 1"
    and "chronological (obs @ [x]) (i + 1) = queue_push (chronological obs i) x"
  using assms by (simp_all add: ring_ok_def chronological_def queue_push_def)

text \<open>Overwriting the oldest entry when the ring is full.\<close>

lemma ring_overwrite:
  assumes "ring_ok obs i" and full: "length obs = MAX_OBSERVATIONS"
  defines "n \<equiv> i mod MAX_OBSERVATIONS + 1"
  shows "ring_ok (obs[n - 1 := x]) n" and "1 \<le> n" and "n \<le> length obs"
    and "chronological (obs[n - 1 := x]) n = queue_push (chronological obs i) x"
proof -
  have i: "1 \<le> i" "i \<le> length obs"
    using assms by (auto simp: ring_ok_def)
  show n: "1 \<le> n" "n \<le> length obs"
    using full by (simp_all add: n_def Suc_leI)
  then show "ring_ok (obs[n - 1 := x]) n"
    using full by (simp add: ring_ok_def)
  show "chronological (obs[n - 1 := x]) n = queue_push (chronological obs i) x"
  proof (cases "i = length obs")
    case True
    then have "n = 1" using full by (simp add: n_def)
    moreover obtain y ys where "obs = y # ys" using i by (cases obs) auto
    ultimately show ?thesis using True full by (simp add: chronological_def queue_push_def)
  next
    case False
    then have i': "i < length obs" and n': "n = i + 1" using i full by (simp_all add: n_def)
    have "take (i + 1) (obs[i := x]) = take i obs @ [x]"
      using i' by (simp add: take_Suc_conv_app_nth)
    moreover have "drop (i + 1) (obs[i := x]) = tl (drop i obs)"
      by (simp add: drop_update_cancel) (simp add: drop_Suc tl_drop)
    ultimately show ?thesis
      using i' full by (simp add: chronological_def queue_push_def n')
  qed
qed

definition observations :: "pair_storage \<Rightarrow> price_observation list" where
  "observations s = chronological (price_observations s) (safe_price_current_index s)"

definition rounds_sorted :: "price_observation list \<Rightarrow> bool" where
  "rounds_sorted q \<longleftrightarrow> sorted_wrt (\<lambda>a b. recording_round a < recording_round b) q"

definition safe_price_inv :: "pair_storage \<Rightarrow> bool" where
  "safe_price_inv s \<longleftrightarrow>
     ring_ok (price_observations s) (safe_price_current_index s) \<and> rounds_sorted (observations s)"

text \<open>
  The update against the abstract queue: nothing when the pool is empty or the round is
  already recorded, otherwise one push of the observation computed from the newest one.
\<close>

definition abstract_update ::
  "u64 \<Rightarrow> biguint \<Rightarrow> biguint \<Rightarrow> biguint \<Rightarrow> price_observation list \<Rightarrow> price_observation list" where
  "abstract_update round r1 r2 lp q =
     (let newest = (if q = [] then default_observation else last q) in
      if r1 = 0 \<or> r2 = 0 \<or> lp = 0 \<or> recording_round newest = round then q
      else queue_push q (compute_new_observation round r1 r2 lp newest))"

lemma update_safe_price_refines:
  assumes inv: "ring_ok (price_observations s) (safe_price_current_index s)"
  shows "\<exists>s'. update_safe_price env r1 r2 lp s = Inr s' \<and>
    observations s' = abstract_update (get_block_round env) r1 r2 lp (observations s) \<and>
    ring_ok (price_observations s') (safe_price_current_index s') \<and>
    s' = s\<lparr>price_observations := price_observations s',
           safe_price_current_index := safe_price_current_index s'\<rparr>"
proof -
  let ?obs = "price_observations s" and ?i = "safe_price_current_index s"
  let ?n = "?i mod MAX_OBSERVATIONS + 1"
  have i: "?i \<le> MAX_OBSERVATIONS" using inv by (simp add: ring_ok_def)
  have empty: "observations s = [] \<longleftrightarrow> ?obs = []"
    by (metis length_0_conv length_chronological observations_def)
  define newest where "newest = (if ?obs = [] then default_observation else ?obs ! (?i - 1))"
  have newest: "newest = (if observations s = [] then default_observation else last (observations s))"
    using inv empty by (auto simp: newest_def observations_def ring_ok_def last_chronological)
  have head: "(if ?obs \<noteq> [] then and_then (vec_get ?obs ?i) (\<lambda>last. Inr (last, ?n))
       else Inr (default_observation, 1)) = Inr (newest, ?n)"
    using inv by (auto simp: newest_def ring_ok_def vec_get_def)
  let ?x = "compute_new_observation (get_block_round env) r1 r2 lp newest"
  show ?thesis
  proof (cases "r1 = 0 \<or> r2 = 0 \<or> lp = 0 \<or> recording_round newest = get_block_round env")
    case True
    then have "update_safe_price env r1 r2 lp s = Inr s"
      using i by (auto simp: update_safe_price_def Let_def head)
    then show ?thesis
      using True inv by (auto simp: abstract_update_def newest [symmetric])
  next
    case False
    then have abs: "abstract_update (get_block_round env) r1 r2 lp (observations s)
        = queue_push (observations s) ?x"
      by (simp add: abstract_update_def newest [symmetric])
    show ?thesis
    proof (cases "length ?obs = MAX_OBSERVATIONS")
      case True
      let ?s' = "s\<lparr>price_observations := ?obs[?n - 1 := ?x], safe_price_current_index := ?n\<rparr>"
      note ring = ring_overwrite(1,4) [OF inv True, of ?x] ring_overwrite(2,3) [OF inv True]
      have "update_safe_price env r1 r2 lp s = Inr ?s'"
        using False True i ring(3,4) by (simp add: update_safe_price_def Let_def head vec_set_def)
      then show ?thesis
        using abs ring by (intro exI [of _ ?s']) (simp add: observations_def)
    next
      case room: False
      let ?s' = "s\<lparr>price_observations := ?obs @ [?x], safe_price_current_index := ?n\<rparr>"
      have "length ?obs < MAX_OBSERVATIONS" using inv room by (simp add: ring_ok_def)
      note ring = ring_append(1,3) [OF inv this, of ?x] ring_append(2) [OF inv this]
      have "update_safe_price env r1 r2 lp s = Inr ?s'"
        using False room i by (simp add: update_safe_price_def Let_def head)
      then show ?thesis
        using abs ring by (intro exI [of _ ?s']) (simp add: observations_def)
    qed
  qed
qed

lemma recording_round_compute [simp]:
  "recording_round (compute_new_observation round r1 r2 lp cur) = round"
  by (simp add: compute_new_observation_def Let_def)

lemma rounds_sorted_push:
  assumes "rounds_sorted q" and "\<forall>ob \<in> set q. recording_round ob < recording_round x"
  shows "rounds_sorted (queue_push q x)"
proof -
  have "rounds_sorted (tl q)" "set (tl q) \<subseteq> set q"
    using assms(1) by (cases q; auto simp: rounds_sorted_def)+
  with assms show ?thesis
    by (auto simp: queue_push_def rounds_sorted_def sorted_wrt_append)
qed

lemma rounds_sorted_le_last:
  "rounds_sorted q \<Longrightarrow> x \<in> set q \<Longrightarrow> recording_round x \<le> recording_round (last q)"
  by (induction q) (auto simp: rounds_sorted_def dest: last_in_set intro: order.strict_implies_order)

lemma set_queue_push: "ob \<in> set (queue_push q x) \<Longrightarrow> ob = x \<or> ob \<in> set q"
  by (cases q) (auto simp: queue_push_def split: if_splits)

text \<open>
  With rounds that do not run backwards, an update keeps the invariant.
\<close>

lemma update_safe_price_inv:
  assumes inv: "safe_price_inv s"
    and round: "\<And>ob. ob \<in> set (price_observations s) \<Longrightarrow> recording_round ob \<le> get_block_round env"
    and upd: "update_safe_price env r1 r2 lp s = Inr s'"
  shows "safe_price_inv s'"
    and "\<And>ob. ob \<in> set (price_observations s') \<Longrightarrow> recording_round ob \<le> get_block_round env"
proof -
  have ring: "ring_ok (price_observations s) (safe_price_current_index s)"
    using inv by (simp add: safe_price_inv_def)
  obtain s2 where s2: "update_safe_price env r1 r2 lp s = Inr s2"
    "observations s2 = abstract_update (get_block_round env) r1 r2 lp (observations s)"
    "ring_ok (price_observations s2) (safe_price_current_index s2)"
    using update_safe_price_refines [OF ring] by blast
  then have s': "observations s' = abstract_update (get_block_round env) r1 r2 lp (observations s)"
    "ring_ok (price_observations s') (safe_price_current_index s')"
    using upd by simp_all
  have set: "set (observations t) = set (price_observations t)" for t
    by (simp add: observations_def)
  have sorted: "rounds_sorted (observations s)" using inv by (simp add: safe_price_inv_def)
  have below: "\<forall>ob \<in> set (observations s). recording_round ob < get_block_round env"
    if "observations s \<noteq> []" "recording_round (last (observations s)) \<noteq> get_block_round env"
  proof
    fix ob assume ob: "ob \<in> set (observations s)"
    have "recording_round ob \<le> recording_round (last (observations s))"
      using sorted ob by (rule rounds_sorted_le_last)
    also have "\<dots> < get_block_round env"
      using that round [of "last (observations s)"] set [of s]
      by (metis last_in_set order_le_less)
    finally show "recording_round ob < get_block_round env" .
  qed
  have "rounds_sorted (observations s')"
    unfolding s'(1) abstract_update_def Let_def
    using sorted below by (auto intro!: rounds_sorted_push)
  with s'(2) show "safe_price_inv s'" by (simp add: safe_price_inv_def)
  have "\<forall>ob \<in> set (observations s'). recording_round ob \<le> get_block_round env"
    unfolding s'(1) abstract_update_def Let_def
    using round set [of s] by (auto dest!: set_queue_push)
  then show "\<And>ob. ob \<in> set (price_observations s') \<Longrightarrow> recording_round ob \<le> get_block_round env"
    by (simp add: set)
qed

end
