(* ===== verification/PairActions.thy ===== *)
theory PairActions
  imports PairFee PairSafePrice
begin

text \<open>
  \<open>dex/pair/src/pair_actions\<close> and \<open>contexts/output_builder.rs\<close>: the endpoints that move
  tokens, and the views. An endpoint takes the context of the call, the attached payments,
  its arguments and the storage; on success it returns its results, the new storage (the
  cache written back by its \<open>Drop\<close>), and the effects in the order they are asked for.
\<close>

section \<open>common_methods.rs\<close>

definition is_state_active :: "state \<Rightarrow> bool" where
  "is_state_active st \<longleftrightarrow> st = Active \<or> st = PartialActive"

definition can_swap :: "state \<Rightarrow> bool" where
  "can_swap st \<longleftrightarrow> st = Active"

section \<open>contexts/output_builder.rs\<close>

type_synonym add_liquidity_result = "esdt_payment \<times> esdt_payment \<times> esdt_payment"

definition build_add_initial_liq_results ::
  "storage_cache \<Rightarrow> add_liquidity_context \<Rightarrow> add_liquidity_result" where
  "build_add_initial_liq_results c ctx =
     (new_payment (lp_token_id c) 0 (liq_added ctx),
      new_payment (cached_first_token_id c) 0 (first_token_optimal_amount ctx),
      new_payment (cached_second_token_id c) 0 (second_token_optimal_amount ctx))"

definition build_add_liq_output_payments ::
  "storage_cache \<Rightarrow> add_liquidity_context \<Rightarrow> error + esdt_payment list" where
  "build_add_liq_output_payments c ctx =
     and_then (big_sub (amount (first_payment ctx)) (first_token_optimal_amount ctx)) (\<lambda>rest1.
     and_then (big_sub (amount (second_payment ctx)) (second_token_optimal_amount ctx)) (\<lambda>rest2.
     Inr [new_payment (cached_first_token_id c) 0 rest1,
          new_payment (cached_second_token_id c) 0 rest2]))"

definition build_add_liq_results ::
  "storage_cache \<Rightarrow> add_liquidity_context \<Rightarrow> add_liquidity_result" where
  "build_add_liq_results c ctx =
     (new_payment (lp_token_id c) 0 (liq_added ctx),
      new_payment (cached_first_token_id c) 0 (first_token_optimal_amount ctx),
      new_payment (cached_second_token_id c) 0 (second_token_optimal_amount ctx))"

definition build_remove_liq_output_payments ::
  "storage_cache \<Rightarrow> remove_liquidity_context \<Rightarrow> esdt_payment list" where
  "build_remove_liq_output_payments c ctx =
     [new_payment (cached_first_token_id c) 0 (first_token_amount_removed ctx),
      new_payment (cached_second_token_id c) 0 (second_token_amount_removed ctx)]"

definition first_two :: "esdt_payment list \<Rightarrow> error + (esdt_payment \<times> esdt_payment)" where
  "first_two ps =
     and_then (managed_vec_get ps 0) (\<lambda>p. and_then (managed_vec_get ps 1) (\<lambda>q. Inr (p, q)))"

definition build_swap_output_payments ::
  "('e pair_env_scheme) \<Rightarrow> pair_storage \<Rightarrow> swap_context \<Rightarrow>
   error + (esdt_payment list \<times> effect list)" where
  "build_swap_output_payments env s ctx =
     and_then
       (if should_generate_locked_asset env s then
          lock_tokens env s (output_token_id ctx) (final_output_amount ctx)
        else Inr (new_payment (output_token_id ctx) 0 (final_output_amount ctx), []))
       (\<lambda>(out_payment, es).
     and_then (big_sub (input_token_amount ctx) (final_input_amount ctx)) (\<lambda>extra_amount.
     Inr ([out_payment, new_payment (input_token_id ctx) 0 extra_amount], es)))"

section \<open>initial_liq.rs\<close>

definition add_initial_liquidity ::
  "('e pair_env_scheme) \<Rightarrow> esdt_payment list \<Rightarrow> pair_storage \<Rightarrow>
   error + (add_liquidity_result \<times> pair_storage \<times> effect list)" where
  "add_initial_liquidity env payments s =
     (let c = storage_cache_new s; caller = get_caller env in
      require (case initial_liquidity_adder s of Some adder \<Rightarrow> caller = adder | None \<Rightarrow> True)
        ERROR_PERMISSION_DENIED
     (and_then (multi_esdt2 payments) (\<lambda>(p1, p2).
      require (token_identifier p1 = cached_first_token_id c \<and> 0 < amount p1)
        ERROR_BAD_PAYMENT_TOKENS
     (require (token_identifier p2 = cached_second_token_id c \<and> 0 < amount p2)
        ERROR_BAD_PAYMENT_TOKENS
     (require (\<not> is_state_active (contract_state c)) ERROR_ACTIVE
     (require (cached_lp_token_supply c = 0) ERROR_INITIAL_LIQUIDITY_ALREADY_ADDED
     (and_then (pool_add_initial_liquidity (amount p1) (amount p2) c) (\<lambda>(liq, c, es).
      let lp_payment = new_payment (lp_token_id c) 0 liq;
          es = es @ [EsdtLocalMint (lp_token_id c) liq] @ send_payment_non_zero caller lp_payment;
          s = s\<lparr>pair_state := PartialActive\<rparr>;
          ctx = \<lparr>first_payment = p1, second_payment = p2,
                 first_token_amount_min = 1, second_token_amount_min = 1,
                 first_token_optimal_amount = amount p1,
                 second_token_optimal_amount = amount p2, liq_added = liq\<rparr>
      in Inr (build_add_initial_liq_results c ctx, drop_cache c s, es)))))))))"

section \<open>add_liq.rs\<close>

definition add_liquidity ::
  "('e pair_env_scheme) \<Rightarrow> esdt_payment list \<Rightarrow> biguint \<Rightarrow> biguint \<Rightarrow> pair_storage \<Rightarrow>
   error + (add_liquidity_result \<times> pair_storage \<times> effect list)" where
  "add_liquidity env payments min1 min2 s =
     require (0 < min1 \<and> 0 < min2) ERROR_INVALID_ARGS
    (let c = storage_cache_new s; caller = get_caller env in
     and_then (multi_esdt2 payments) (\<lambda>(p1, p2).
     require (token_identifier p1 = cached_first_token_id c \<and> 0 < amount p1)
       ERROR_BAD_PAYMENT_TOKENS
    (require (token_identifier p2 = cached_second_token_id c \<and> 0 < amount p2)
       ERROR_BAD_PAYMENT_TOKENS
    (require (is_state_active (contract_state c)) ERROR_NOT_ACTIVE
    (require (is_valid_esdt_identifier env (lp_token_id c)) ERROR_LP_TOKEN_NOT_ISSUED
    (require (initial_liquidity_adder s = None \<or> cached_lp_token_supply c \<noteq> 0)
       ERROR_INITIAL_LIQUIDITY_NOT_ADDED
    (and_then (update_safe_price env (first_token_reserve c) (second_token_reserve c)
                 (cached_lp_token_supply c) s) (\<lambda>s.
     let initial_k = calculate_k_constant (first_token_reserve c) (second_token_reserve c);
         ctx = add_liquidity_context_new p1 p2 min1 min2 in
     and_then (set_optimal_amounts ctx c) (\<lambda>ctx.
     and_then
       (if cached_lp_token_supply c = 0 then
          pool_add_initial_liquidity (first_token_optimal_amount ctx)
            (second_token_optimal_amount ctx) c
        else
          and_then (pool_add_liquidity (first_token_optimal_amount ctx)
                      (second_token_optimal_amount ctx) c) (\<lambda>(liq, c).
          Inr (liq, c, []))) (\<lambda>(liq, c, es).
     let ctx = ctx\<lparr>liq_added := liq\<rparr>;
         new_k = calculate_k_constant (first_token_reserve c) (second_token_reserve c) in
     require (initial_k \<le> new_k) ERROR_K_INVARIANT_FAILED
    (let es = es @ [EsdtLocalMint (lp_token_id c) (liq_added ctx)];
         lp_payment = new_payment (lp_token_id c) 0 (liq_added ctx) in
     and_then (build_add_liq_output_payments c ctx) (\<lambda>output_payments.
     Inr (build_add_liq_results c ctx, drop_cache c s,
          es @ send_multiple_tokens_if_not_zero caller (output_payments @ [lp_payment]))))))))))))))"

section \<open>remove_liq.rs\<close>

definition remove_liquidity ::
  "('e pair_env_scheme) \<Rightarrow> esdt_payment list \<Rightarrow> biguint \<Rightarrow> biguint \<Rightarrow> pair_storage \<Rightarrow>
   error + ((esdt_payment \<times> esdt_payment) \<times> pair_storage \<times> effect list)" where
  "remove_liquidity env payments min1 min2 s =
     require (0 < min1 \<and> 0 < min2) ERROR_INVALID_ARGS
    (let c = storage_cache_new s; caller = get_caller env in
     and_then (single_esdt payments) (\<lambda>payment.
     require (is_state_active (contract_state c)) ERROR_NOT_ACTIVE
    (require (is_valid_esdt_identifier env (lp_token_id c)) ERROR_LP_TOKEN_NOT_ISSUED
    (require (token_identifier payment = lp_token_id c \<and> 0 < amount payment)
       ERROR_BAD_PAYMENT_TOKENS
    (and_then (update_safe_price env (first_token_reserve c) (second_token_reserve c)
                 (cached_lp_token_supply c) s) (\<lambda>s.
     let initial_k = calculate_k_constant (first_token_reserve c) (second_token_reserve c);
         ctx = remove_liquidity_context_new (amount payment) min1 min2 in
     and_then (pool_remove_liquidity ctx c) (\<lambda>(ctx, c).
     let new_k = calculate_k_constant (first_token_reserve c) (second_token_reserve c) in
     require (new_k \<le> initial_k) ERROR_K_INVARIANT_FAILED
    (let es = burn (lp_token_id c) (lp_token_payment_amount ctx);
         output_payments = build_remove_liq_output_payments c ctx in
     and_then (first_two output_payments) (\<lambda>(after1, after2).
     require (rm_first_token_amount_min ctx \<le> amount after1) ERROR_SLIPPAGE_ON_REMOVE
    (require (rm_second_token_amount_min ctx \<le> amount after2) ERROR_SLIPPAGE_ON_REMOVE
       (Inr ((after1, after2), drop_cache c s,
             es @ send_multiple_tokens_if_not_zero caller output_payments))))))))))))"

definition remove_liquidity_and_burn_token ::
  "('e pair_env_scheme) \<Rightarrow> esdt_payment list \<Rightarrow> token_id \<Rightarrow> pair_storage \<Rightarrow>
   error + (pair_storage \<times> effect list)" where
  "remove_liquidity_and_burn_token env payments token_to_burn s =
     (let c = storage_cache_new s; caller = get_caller env in
      and_then (single_esdt payments) (\<lambda>payment.
      require (caller \<in> set (pair_whitelist s)) ERROR_NOT_WHITELISTED
     (require (is_valid_esdt_identifier env (lp_token_id c)) ERROR_LP_TOKEN_NOT_ISSUED
     (require (token_identifier payment = lp_token_id c \<and> 0 < amount payment)
        ERROR_BAD_PAYMENT_TOKENS
     (and_then (update_safe_price env (first_token_reserve c) (second_token_reserve c)
                  (cached_lp_token_supply c) s) (\<lambda>s.
      let ctx = remove_liquidity_context_new (amount payment) 1 1 in
      and_then (pool_remove_liquidity ctx c) (\<lambda>(ctx, c).
      let es = burn (lp_token_id c) (lp_token_payment_amount ctx);
          dest_address = zero_address in
      and_then (send_fee_slice env s c PoolOrder (cached_first_token_id c)
                  (first_token_amount_removed ctx) dest_address token_to_burn) (\<lambda>(c, es1).
      and_then (send_fee_slice env s c ReverseOrder (cached_second_token_id c)
                  (second_token_amount_removed ctx) dest_address token_to_burn) (\<lambda>(c, es2).
      Inr (drop_cache c s, es @ es1 @ es2))))))))))"

section \<open>swap.rs\<close>

definition perform_swap_fixed_input ::
  "pair_storage \<Rightarrow> swap_context \<Rightarrow> storage_cache \<Rightarrow> error + (swap_context \<times> storage_cache)" where
  "perform_swap_fixed_input s ctx c =
     (let order = swap_order ctx;
          ctx = ctx\<lparr>final_input_amount := input_token_amount ctx\<rparr>;
          reserve_in = get_reserve_in c order;
          reserve_out = get_reserve_out c order in
      and_then (get_amount_out s (input_token_amount ctx) reserve_in reserve_out)
        (\<lambda>amount_out_optimal.
      require (output_token_amount ctx \<le> amount_out_optimal) ERROR_SLIPPAGE_EXCEEDED
     (require (amount_out_optimal < reserve_out) ERROR_NOT_ENOUGH_RESERVE
     (require (amount_out_optimal \<noteq> 0) ERROR_ZERO_AMOUNT
     (let ctx = ctx\<lparr>final_output_amount := amount_out_optimal\<rparr>;
          fee = (if is_fee_enabled s
                 then get_special_fee_from_input s (input_token_amount ctx) else fee_amount ctx);
          ctx = ctx\<lparr>fee_amount := fee\<rparr> in
      and_then (if is_fee_enabled s then big_sub (input_token_amount ctx) fee
                else Inr (input_token_amount ctx)) (\<lambda>amount_in_after_fee.
      let c = set_reserve_in order (get_reserve_in c order + amount_in_after_fee) c in
      and_then (big_sub (get_reserve_out c order) (final_output_amount ctx)) (\<lambda>left.
      Inr (ctx, set_reserve_out order left c))))))))"

definition perform_swap_fixed_output ::
  "pair_storage \<Rightarrow> swap_context \<Rightarrow> storage_cache \<Rightarrow> error + (swap_context \<times> storage_cache)" where
  "perform_swap_fixed_output s ctx c =
     (let order = swap_order ctx;
          ctx = ctx\<lparr>final_output_amount := output_token_amount ctx\<rparr>;
          reserve_in = get_reserve_in c order;
          reserve_out = get_reserve_out c order in
      and_then (get_amount_in s (output_token_amount ctx) reserve_in reserve_out)
        (\<lambda>amount_in_optimal.
      require (amount_in_optimal \<le> input_token_amount ctx) ERROR_SLIPPAGE_EXCEEDED
     (require (amount_in_optimal \<noteq> 0) ERROR_ZERO_AMOUNT
     (let ctx = ctx\<lparr>final_input_amount := amount_in_optimal\<rparr>;
          fee = (if is_fee_enabled s
                 then get_special_fee_from_input s amount_in_optimal else fee_amount ctx);
          ctx = ctx\<lparr>fee_amount := fee\<rparr> in
      and_then (if is_fee_enabled s then big_sub amount_in_optimal fee
                else Inr amount_in_optimal) (\<lambda>amount_in_optimal_after_fee.
      let c = set_reserve_in order (get_reserve_in c order + amount_in_optimal_after_fee) c in
      and_then (big_sub (get_reserve_out c order) (final_output_amount ctx)) (\<lambda>left.
      Inr (ctx, set_reserve_out order left c)))))))"

definition swap_no_fee ::
  "('e pair_env_scheme) \<Rightarrow> esdt_payment list \<Rightarrow> token_id \<Rightarrow> address \<Rightarrow> pair_storage \<Rightarrow>
   error + (pair_storage \<times> effect list)" where
  "swap_no_fee env payments token_out destination_address s =
     require (get_caller env \<in> set (pair_whitelist s)) ERROR_NOT_WHITELISTED
    (let c = storage_cache_new s in
     and_then (single_esdt payments) (\<lambda>payment.
     and_then (get_swap_tokens_order c (token_identifier payment) token_out) (\<lambda>order.
     require (can_swap (contract_state c)) ERROR_SWAP_NOT_ENABLED
    (and_then (update_safe_price env (first_token_reserve c) (second_token_reserve c)
                 (cached_lp_token_supply c) s) (\<lambda>s.
     let initial_k = calculate_k_constant (first_token_reserve c) (second_token_reserve c);
         ctx = (swap_context_new (token_identifier payment) (amount payment) token_out 1 order)
                 \<lparr>final_input_amount := amount payment\<rparr> in
     and_then (swap_safe_no_fee c (swap_order ctx) (final_input_amount ctx)) (\<lambda>(amount_out, c).
     require (0 < amount_out) ERROR_ZERO_AMOUNT
    (let ctx = ctx\<lparr>final_output_amount := amount_out\<rparr>;
         new_k = calculate_k_constant (first_token_reserve c) (second_token_reserve c) in
     require (initial_k \<le> new_k) ERROR_K_INVARIANT_FAILED
       (Inr (drop_cache c s, burn (output_token_id ctx) (final_output_amount ctx))))))))))"

definition swap_tokens_fixed_input ::
  "('e pair_env_scheme) \<Rightarrow> esdt_payment list \<Rightarrow> token_id \<Rightarrow> biguint \<Rightarrow> pair_storage \<Rightarrow>
   error + (esdt_payment \<times> pair_storage \<times> effect list)" where
  "swap_tokens_fixed_input env payments token_out amount_out_min s =
     require (0 < amount_out_min) ERROR_INVALID_ARGS
    (let c = storage_cache_new s in
     and_then (single_esdt payments) (\<lambda>payment.
     and_then (get_swap_tokens_order c (token_identifier payment) token_out) (\<lambda>order.
     require (can_swap (contract_state c)) ERROR_SWAP_NOT_ENABLED
    (require (amount_out_min < get_reserve_out c order) ERROR_NOT_ENOUGH_RESERVE
    (and_then (update_safe_price env (first_token_reserve c) (second_token_reserve c)
                 (cached_lp_token_supply c) s) (\<lambda>s.
     let initial_k = calculate_k_constant (first_token_reserve c) (second_token_reserve c);
         ctx = swap_context_new (token_identifier payment) (amount payment) token_out
                 amount_out_min order in
     and_then (perform_swap_fixed_input s ctx c) (\<lambda>(ctx, c).
     let new_k = calculate_k_constant (first_token_reserve c) (second_token_reserve c) in
     require (initial_k \<le> new_k) ERROR_K_INVARIANT_FAILED
    (and_then
       (if 0 < fee_amount ctx then
          send_fee env s c (swap_order ctx) (input_token_id ctx) (fee_amount ctx)
        else Inr (c, [])) (\<lambda>(c, es).
     let caller = get_caller env in
     and_then (build_swap_output_payments env s ctx) (\<lambda>(output_payments, es').
     and_then (managed_vec_get output_payments 0) (\<lambda>result.
     require (output_token_amount ctx \<le> amount result) ERROR_SLIPPAGE_EXCEEDED
       (Inr (result, drop_cache c s,
             es @ es' @ send_multiple_tokens_if_not_zero caller output_payments)))))))))))))"

definition swap_tokens_fixed_output ::
  "('e pair_env_scheme) \<Rightarrow> esdt_payment list \<Rightarrow> token_id \<Rightarrow> biguint \<Rightarrow> pair_storage \<Rightarrow>
   error + ((esdt_payment \<times> esdt_payment) \<times> pair_storage \<times> effect list)" where
  "swap_tokens_fixed_output env payments token_out amount_out s =
     require (0 < amount_out) ERROR_INVALID_ARGS
    (let c = storage_cache_new s in
     and_then (single_esdt payments) (\<lambda>payment.
     and_then (get_swap_tokens_order c (token_identifier payment) token_out) (\<lambda>order.
     require (can_swap (contract_state c)) ERROR_SWAP_NOT_ENABLED
    (require (amount_out < get_reserve_out c order) ERROR_NOT_ENOUGH_RESERVE
    (and_then (update_safe_price env (first_token_reserve c) (second_token_reserve c)
                 (cached_lp_token_supply c) s) (\<lambda>s.
     let initial_k = calculate_k_constant (first_token_reserve c) (second_token_reserve c);
         ctx = swap_context_new (token_identifier payment) (amount payment) token_out
                 amount_out order in
     and_then (perform_swap_fixed_output s ctx c) (\<lambda>(ctx, c).
     let new_k = calculate_k_constant (first_token_reserve c) (second_token_reserve c) in
     require (initial_k \<le> new_k) ERROR_K_INVARIANT_FAILED
    (and_then
       (if 0 < fee_amount ctx then
          send_fee env s c (swap_order ctx) (input_token_id ctx) (fee_amount ctx)
        else Inr (c, [])) (\<lambda>(c, es).
     let caller = get_caller env in
     and_then (build_swap_output_payments env s ctx) (\<lambda>(output_payments, es').
     and_then (first_two output_payments) (\<lambda>result.
       Inr (result, drop_cache c s,
            es @ es' @ send_multiple_tokens_if_not_zero caller output_payments))))))))))))"

section \<open>views.rs\<close>

definition get_tokens_for_given_position ::
  "pair_storage \<Rightarrow> biguint \<Rightarrow> error + (esdt_payment \<times> esdt_payment)" where
  "get_tokens_for_given_position s liquidity = get_both_tokens_for_given_position s liquidity"

definition get_reserves_and_total_supply :: "pair_storage \<Rightarrow> biguint \<times> biguint \<times> biguint" where
  "get_reserves_and_total_supply s =
     (pair_reserve s (first_token_id s), pair_reserve s (second_token_id s), lp_token_supply s)"

definition get_amount_out_view :: "pair_storage \<Rightarrow> token_id \<Rightarrow> biguint \<Rightarrow> error + biguint" where
  "get_amount_out_view s token_in amount_in =
     require (0 < amount_in) ERROR_ZERO_AMOUNT
    (let first_reserve = pair_reserve s (first_token_id s);
         second_reserve = pair_reserve s (second_token_id s) in
     if token_in = first_token_id s then
       require (0 < second_reserve) ERROR_NOT_ENOUGH_RESERVE
      (and_then (get_amount_out s amount_in first_reserve second_reserve) (\<lambda>amount_out.
       require (amount_out < second_reserve) ERROR_NOT_ENOUGH_RESERVE (Inr amount_out)))
     else if token_in = second_token_id s then
       require (0 < first_reserve) ERROR_NOT_ENOUGH_RESERVE
      (and_then (get_amount_out s amount_in second_reserve first_reserve) (\<lambda>amount_out.
       require (amount_out < first_reserve) ERROR_NOT_ENOUGH_RESERVE (Inr amount_out)))
     else Inl ERROR_UNKNOWN_TOKEN)"

definition get_amount_in_view :: "pair_storage \<Rightarrow> token_id \<Rightarrow> biguint \<Rightarrow> error + biguint" where
  "get_amount_in_view s token_wanted amount_wanted =
     require (0 < amount_wanted) ERROR_ZERO_AMOUNT
    (let first_reserve = pair_reserve s (first_token_id s);
         second_reserve = pair_reserve s (second_token_id s) in
     if token_wanted = first_token_id s then
       require (amount_wanted < first_reserve) ERROR_NOT_ENOUGH_RESERVE
         (get_amount_in s amount_wanted second_reserve first_reserve)
     else if token_wanted = second_token_id s then
       require (amount_wanted < second_reserve) ERROR_NOT_ENOUGH_RESERVE
         (get_amount_in s amount_wanted first_reserve second_reserve)
     else Inl ERROR_UNKNOWN_TOKEN)"

definition get_equivalent :: "pair_storage \<Rightarrow> token_id \<Rightarrow> biguint \<Rightarrow> error + biguint" where
  "get_equivalent s token_in amount_in =
     require (0 < amount_in) ERROR_ZERO_AMOUNT
    (let first_reserve = pair_reserve s (first_token_id s);
         second_reserve = pair_reserve s (second_token_id s) in
     if first_reserve = 0 \<or> second_reserve = 0 then Inr 0
     else if token_in = first_token_id s then quote amount_in first_reserve second_reserve
     else if token_in = second_token_id s then quote amount_in second_reserve first_reserve
     else Inl ERROR_UNKNOWN_TOKEN)"

end
