(* ===== verification/PairSafePriceView.thy ===== *)
theory PairSafePriceView
  imports PairActions
begin

text \<open>
  \<open>dex/pair/src/safe_price_view.rs\<close> and \<open>read_pair_storage.rs\<close>: the safe price views. They
  read the storage of any pair, so the state is a map from addresses to pair storages. A view
  looks up the accumulated reserves at two rounds, by binary search in the ring, by linear
  interpolation between two recorded rounds, or by simulating a record after the newest one,
  and returns averages over the window.
\<close>

definition DEFAULT_SAFE_PRICE_ROUNDS_OFFSET :: u64 where
  "DEFAULT_SAFE_PRICE_ROUNDS_OFFSET = 10 * 60"

definition SECONDS_PER_ROUND :: u64 where "SECONDS_PER_ROUND = 6"

record weighted_amounts =
  weighted_first_token_reserve :: biguint
  weighted_second_token_reserve :: biguint
  weighted_lp_supply :: biguint

type_synonym pair_storages = "address \<Rightarrow> pair_storage"

section \<open>read_pair_storage.rs\<close>

definition get_lp_token_supply_mapper :: "pair_storages \<Rightarrow> address \<Rightarrow> biguint" where
  "get_lp_token_supply_mapper world a = lp_token_supply (world a)"

definition get_first_token_id_mapper :: "pair_storages \<Rightarrow> address \<Rightarrow> token_id" where
  "get_first_token_id_mapper world a = first_token_id (world a)"

definition get_second_token_id_mapper :: "pair_storages \<Rightarrow> address \<Rightarrow> token_id" where
  "get_second_token_id_mapper world a = second_token_id (world a)"

definition get_safe_price_current_index_mapper :: "pair_storages \<Rightarrow> address \<Rightarrow> nat" where
  "get_safe_price_current_index_mapper world a = safe_price_current_index (world a)"

definition get_price_observation_mapper :: "pair_storages \<Rightarrow> address \<Rightarrow> price_observation list" where
  "get_price_observation_mapper world a = price_observations (world a)"

definition get_pair_reserve_mapper :: "pair_storages \<Rightarrow> address \<Rightarrow> token_id \<Rightarrow> biguint" where
  "get_pair_reserve_mapper world a t = pair_reserve (world a) t"

lemmas read_pair_storage_defs [simp] =
  get_lp_token_supply_mapper_def get_first_token_id_mapper_def get_second_token_id_mapper_def
  get_safe_price_current_index_mapper_def get_price_observation_mapper_def
  get_pair_reserve_mapper_def

section \<open>Looking up an observation\<close>

definition get_oldest_price_observation ::
  "nat \<Rightarrow> price_observation list \<Rightarrow> error + price_observation" where
  "get_oldest_price_observation current_index obs =
     require (obs \<noteq> []) ERROR_SAFE_PRICE_OBSERVATION_DOES_NOT_EXIST
       (vec_get obs (if length obs = MAX_OBSERVATIONS then current_index mod MAX_OBSERVATIONS + 1
                     else 1))"

text \<open>
  The loop of the binary search. The last component is the index that was read last. Every
  index it subtracts from was just read, so it is at least 1.
\<close>

function search_loop ::
  "price_observation list \<Rightarrow> u64 \<Rightarrow> nat \<Rightarrow> nat \<Rightarrow> nat \<Rightarrow> error + (price_observation \<times> nat)" where
  "search_loop obs search_round left_index right_index search_index =
     (if left_index \<le> right_index then
        let m = (left_index + right_index) div 2 in
        and_then (vec_get obs m) (\<lambda>ob.
        if recording_round ob = search_round then Inr (ob, m)
        else if recording_round ob < search_round then
          search_loop obs search_round (m + 1) right_index m
        else search_loop obs search_round left_index (m - 1) m)
      else Inr (default_observation, search_index))"
  by pat_completeness auto
termination
  by (relation "measure (\<lambda>(obs, s, l, r, i). r + 1 - l)") (auto simp: vec_get_Inr)

declare search_loop.simps [simp del]

definition price_observation_by_binary_search ::
  "nat \<Rightarrow> price_observation list \<Rightarrow> u64 \<Rightarrow> error + (price_observation \<times> nat)" where
  "price_observation_by_binary_search current_index obs search_round =
     and_then (vec_get obs 1) (\<lambda>observation_at_index_1.
     if recording_round observation_at_index_1 \<le> search_round
     then search_loop obs search_round 1 (current_index - 1) 1
     else search_loop obs search_round (current_index + 1) (length obs) 1)"

text \<open>The part of the interpolation after the two neighbours have been read.\<close>

definition interpolate_observations ::
  "price_observation \<Rightarrow> price_observation \<Rightarrow> u64 \<Rightarrow> error + price_observation" where
  "interpolate_observations l r search_round =
     (let left_weight = recording_round r - search_round;
          right_weight = search_round - recording_round l;
          weight_sum = left_weight + right_weight;
          weighted = (\<lambda>acc. unat left_weight * acc l + unat right_weight * acc r) in
      and_then (big_div (weighted first_token_reserve_accumulated) (unat weight_sum)) (\<lambda>first_acc.
      and_then (big_div (weighted second_token_reserve_accumulated) (unat weight_sum)) (\<lambda>second_acc.
      and_then (big_div (weighted lp_supply_accumulated) (unat weight_sum)) (\<lambda>lp_acc.
      Inr \<lparr>first_token_reserve_accumulated = first_acc,
           second_token_reserve_accumulated = second_acc,
           weight_accumulated = weight_accumulated l + search_round - recording_round l,
           recording_round = search_round,
           lp_supply_accumulated = lp_acc\<rparr>))))"

definition price_observation_by_linear_interpolation ::
  "price_observation list \<Rightarrow> u64 \<Rightarrow> nat \<Rightarrow> error + price_observation" where
  "price_observation_by_linear_interpolation obs search_round search_index =
     and_then (vec_get obs search_index) (\<lambda>last_found.
     and_then
       (if recording_round last_found < search_round then
          and_then (vec_get obs (search_index mod MAX_OBSERVATIONS + 1)) (\<lambda>r. Inr (last_found, r))
        else
          and_then (vec_get obs (if search_index = 1 then MAX_OBSERVATIONS else search_index - 1))
            (\<lambda>l. Inr (l, last_found))) (\<lambda>(l, r).
     interpolate_observations l r search_round))"

definition get_price_observation ::
  "('e blockchain_scheme) \<Rightarrow> pair_storages \<Rightarrow> address \<Rightarrow> token_id \<Rightarrow> token_id \<Rightarrow> nat \<Rightarrow>
   price_observation list \<Rightarrow> u64 \<Rightarrow> error + price_observation" where
  "get_price_observation env world pair t1 t2 current_index obs search_round =
     require (obs \<noteq> []) ERROR_SAFE_PRICE_OBSERVATION_DOES_NOT_EXIST
    (and_then (vec_get obs current_index) (\<lambda>last_observation.
     if recording_round last_observation = search_round then Inr last_observation
     else if recording_round last_observation < search_round then
       require (search_round \<le> get_block_round env) ERROR_SAFE_PRICE_OBSERVATION_DOES_NOT_EXIST
         (Inr (compute_new_observation search_round
                 (get_pair_reserve_mapper world pair t1) (get_pair_reserve_mapper world pair t2)
                 (get_lp_token_supply_mapper world pair) last_observation))
     else
       and_then (price_observation_by_binary_search current_index obs search_round)
         (\<lambda>(ob, last_search_index).
       if 0 < recording_round ob then Inr ob
       else price_observation_by_linear_interpolation obs search_round last_search_index)))"

section \<open>Averages over a window\<close>

definition compute_weighted_amounts ::
  "price_observation \<Rightarrow> price_observation \<Rightarrow> error + weighted_amounts" where
  "compute_weighted_amounts a b =
     (let weight_diff = weight_accumulated b - weight_accumulated a in
      require (0 < weight_diff) ERROR_SAFE_PRICE_SAME_ROUNDS
     (and_then (big_sub (first_token_reserve_accumulated b) (first_token_reserve_accumulated a))
        (\<lambda>first_diff.
      and_then (big_sub (second_token_reserve_accumulated b) (second_token_reserve_accumulated a))
        (\<lambda>second_diff.
      and_then (big_div first_diff (unat weight_diff)) (\<lambda>w1.
      and_then (big_div second_diff (unat weight_diff)) (\<lambda>w2.
      and_then
        (if 0 < lp_supply_accumulated a then
           and_then (big_sub (lp_supply_accumulated b) (lp_supply_accumulated a)) (\<lambda>lp_diff.
           big_div lp_diff (unat weight_diff))
         else Inr 0) (\<lambda>wlp.
      Inr \<lparr>weighted_first_token_reserve = w1, weighted_second_token_reserve = w2,
           weighted_lp_supply = wlp\<rparr>)))))))"

definition compute_weighted_price ::
  "pair_storages \<Rightarrow> address \<Rightarrow> esdt_payment \<Rightarrow> price_observation \<Rightarrow> price_observation \<Rightarrow>
   error + esdt_payment" where
  "compute_weighted_price world pair input a b =
     (let t1 = get_first_token_id_mapper world pair; t2 = get_second_token_id_mapper world pair in
      and_then (compute_weighted_amounts a b) (\<lambda>w.
      if token_identifier input = t1 then
        and_then (big_div (amount input * weighted_second_token_reserve w)
                    (weighted_first_token_reserve w)) (\<lambda>out. Inr (new_payment t2 0 out))
      else if token_identifier input = t2 then
        and_then (big_div (amount input * weighted_first_token_reserve w)
                    (weighted_second_token_reserve w)) (\<lambda>out. Inr (new_payment t1 0 out))
      else Inl ERROR_BAD_INPUT_TOKEN))"

definition get_default_offset_rounds :: "pair_storages \<Rightarrow> address \<Rightarrow> u64 \<Rightarrow> error + u64" where
  "get_default_offset_rounds world pair end_round =
     and_then (get_oldest_price_observation (get_safe_price_current_index_mapper world pair)
                 (get_price_observation_mapper world pair)) (\<lambda>oldest.
     let offset = end_round - recording_round oldest in
     Inr (if DEFAULT_SAFE_PRICE_ROUNDS_OFFSET < offset then DEFAULT_SAFE_PRICE_ROUNDS_OFFSET
          else offset))"

section \<open>The views\<close>

text \<open>The two observations of a window, as \<open>getSafePrice\<close> and \<open>getLpTokensSafePrice\<close> read them.\<close>

definition get_window ::
  "('e blockchain_scheme) \<Rightarrow> pair_storages \<Rightarrow> address \<Rightarrow> u64 \<Rightarrow> u64 \<Rightarrow>
   error + (price_observation \<times> price_observation)" where
  "get_window env world pair start_round end_round =
     require (start_round < end_round) ERROR_PARAMETERS
    (let index = get_safe_price_current_index_mapper world pair;
         obs = get_price_observation_mapper world pair;
         t1 = get_first_token_id_mapper world pair;
         t2 = get_second_token_id_mapper world pair in
     and_then (get_oldest_price_observation index obs) (\<lambda>oldest.
     require (recording_round oldest \<le> start_round) ERROR_SAFE_PRICE_OBSERVATION_DOES_NOT_EXIST
    (and_then (get_price_observation env world pair t1 t2 index obs start_round) (\<lambda>first.
     and_then (get_price_observation env world pair t1 t2 index obs end_round) (\<lambda>last.
     Inr (first, last))))))"

definition get_safe_price ::
  "('e blockchain_scheme) \<Rightarrow> pair_storages \<Rightarrow> address \<Rightarrow> u64 \<Rightarrow> u64 \<Rightarrow> esdt_payment \<Rightarrow>
   error + esdt_payment" where
  "get_safe_price env world pair start_round end_round input =
     and_then (get_window env world pair start_round end_round) (\<lambda>(first, last).
     compute_weighted_price world pair input first last)"

definition get_lp_tokens_safe_price ::
  "('e blockchain_scheme) \<Rightarrow> pair_storages \<Rightarrow> address \<Rightarrow> u64 \<Rightarrow> u64 \<Rightarrow> biguint \<Rightarrow>
   error + (esdt_payment \<times> esdt_payment)" where
  "get_lp_tokens_safe_price env world pair start_round end_round liquidity =
     and_then (get_window env world pair start_round end_round) (\<lambda>(first, last).
     and_then (compute_weighted_amounts first last) (\<lambda>w.
     let t1 = get_first_token_id_mapper world pair;
         t2 = get_second_token_id_mapper world pair;
         supply = (if weighted_lp_supply w = 0 then get_lp_token_supply_mapper world pair
                   else weighted_lp_supply w) in
     if supply = 0 then Inr (new_payment t1 0 0, new_payment t2 0 0)
     else
       and_then (big_div (liquidity * weighted_first_token_reserve w) supply) (\<lambda>worth1.
       and_then (big_div (liquidity * weighted_second_token_reserve w) supply) (\<lambda>worth2.
       Inr (new_payment t1 0 worth1, new_payment t2 0 worth2)))))"

definition get_price_observation_view ::
  "('e blockchain_scheme) \<Rightarrow> pair_storages \<Rightarrow> address \<Rightarrow> u64 \<Rightarrow> error + price_observation" where
  "get_price_observation_view env world pair search_round =
     (let index = get_safe_price_current_index_mapper world pair;
          obs = get_price_observation_mapper world pair in
      and_then (get_oldest_price_observation index obs) (\<lambda>oldest.
      require (recording_round oldest \<le> search_round) ERROR_SAFE_PRICE_OBSERVATION_DOES_NOT_EXIST
        (get_price_observation env world pair (get_first_token_id_mapper world pair)
           (get_second_token_id_mapper world pair) index obs search_round)))"

text \<open>The variants that count the window back from the current round.\<close>

definition get_lp_tokens_safe_price_by_default_offset ::
  "('e blockchain_scheme) \<Rightarrow> pair_storages \<Rightarrow> address \<Rightarrow> biguint \<Rightarrow>
   error + (esdt_payment \<times> esdt_payment)" where
  "get_lp_tokens_safe_price_by_default_offset env world pair liquidity =
     (let current_round = get_block_round env in
      and_then (get_default_offset_rounds world pair current_round) (\<lambda>offset.
      get_lp_tokens_safe_price env world pair (current_round - offset) current_round liquidity))"

definition get_lp_tokens_safe_price_by_round_offset ::
  "('e blockchain_scheme) \<Rightarrow> pair_storages \<Rightarrow> address \<Rightarrow> u64 \<Rightarrow> biguint \<Rightarrow>
   error + (esdt_payment \<times> esdt_payment)" where
  "get_lp_tokens_safe_price_by_round_offset env world pair round_offset liquidity =
     (let current_round = get_block_round env in
      require (0 < round_offset \<and> round_offset < current_round) ERROR_PARAMETERS
        (get_lp_tokens_safe_price env world pair (current_round - round_offset) current_round
           liquidity))"

definition get_lp_tokens_safe_price_by_timestamp_offset ::
  "('e blockchain_scheme) \<Rightarrow> pair_storages \<Rightarrow> address \<Rightarrow> u64 \<Rightarrow> biguint \<Rightarrow>
   error + (esdt_payment \<times> esdt_payment)" where
  "get_lp_tokens_safe_price_by_timestamp_offset env world pair timestamp_offset liquidity =
     (let current_round = get_block_round env;
          round_offset = timestamp_offset div SECONDS_PER_ROUND in
      require (0 < round_offset \<and> round_offset < current_round) ERROR_PARAMETERS
        (get_lp_tokens_safe_price env world pair (current_round - round_offset) current_round
           liquidity))"

definition get_safe_price_by_default_offset ::
  "('e blockchain_scheme) \<Rightarrow> pair_storages \<Rightarrow> address \<Rightarrow> esdt_payment \<Rightarrow> error + esdt_payment" where
  "get_safe_price_by_default_offset env world pair input =
     (let current_round = get_block_round env in
      and_then (get_default_offset_rounds world pair current_round) (\<lambda>offset.
      get_safe_price env world pair (current_round - offset) current_round input))"

definition get_safe_price_by_round_offset ::
  "('e blockchain_scheme) \<Rightarrow> pair_storages \<Rightarrow> address \<Rightarrow> u64 \<Rightarrow> esdt_payment \<Rightarrow>
   error + esdt_payment" where
  "get_safe_price_by_round_offset env world pair round_offset input =
     (let current_round = get_block_round env in
      require (0 < round_offset \<and> round_offset < current_round) ERROR_PARAMETERS
        (get_safe_price env world pair (current_round - round_offset) current_round input))"

definition get_safe_price_by_timestamp_offset ::
  "('e blockchain_scheme) \<Rightarrow> pair_storages \<Rightarrow> address \<Rightarrow> u64 \<Rightarrow> esdt_payment \<Rightarrow>
   error + esdt_payment" where
  "get_safe_price_by_timestamp_offset env world pair timestamp_offset input =
     (let current_round = get_block_round env;
          round_offset = timestamp_offset div SECONDS_PER_ROUND in
      require (0 < round_offset \<and> round_offset < current_round) ERROR_PARAMETERS
        (get_safe_price env world pair (current_round - round_offset) current_round input))"

definition update_and_get_tokens_for_given_position_with_safe_price ::
  "('e blockchain_scheme) \<Rightarrow> pair_storages \<Rightarrow> biguint \<Rightarrow> error + (esdt_payment \<times> esdt_payment)" where
  "update_and_get_tokens_for_given_position_with_safe_price env world liquidity =
     get_lp_tokens_safe_price_by_default_offset env world (get_sc_address env) liquidity"

definition update_and_get_safe_price ::
  "('e blockchain_scheme) \<Rightarrow> pair_storages \<Rightarrow> esdt_payment \<Rightarrow> error + esdt_payment" where
  "update_and_get_safe_price env world input =
     get_safe_price_by_default_offset env world (get_sc_address env) input"

end
