(* ===== verification/PairSafePriceFacts.thy ===== *)
theory PairSafePriceFacts
  imports PairSafePriceView
begin

text \<open>
  Correctness of the safe price views. The abstract view of the ring is its list of
  observations from the oldest to the newest (\<open>observations\<close>); \<open>observation_at\<close> looks a
  round up in that list. The binary search with its wrap-around refines it, and averages over
  a window of it stay within the bounds of the recorded reserves.
\<close>

section \<open>The binary search\<close>

text \<open>\<open>round_at obs k\<close>: the round at the 1-based index \<open>k\<close>.\<close>

definition round_at :: "price_observation list \<Rightarrow> nat \<Rightarrow> u64" where
  "round_at obs k = recording_round (obs ! (k - 1))"

text \<open>
  What the search has found in the segment \<open>lo..hi\<close>: the round itself, or an index next to
  the place where it is missing.
\<close>

definition search_result ::
  "price_observation list \<Rightarrow> u64 \<Rightarrow> nat \<Rightarrow> nat \<Rightarrow> price_observation \<times> nat \<Rightarrow> bool" where
  "search_result obs s lo hi r \<longleftrightarrow>
     (\<exists>k. lo \<le> k \<and> k \<le> hi \<and> round_at obs k = s \<and> fst r = obs ! (k - 1)) \<or>
     (fst r = default_observation \<and>
      (\<exists>p. lo \<le> p + 1 \<and> p \<le> hi \<and> (\<forall>k. lo \<le> k \<and> k \<le> p \<longrightarrow> round_at obs k < s) \<and>
           (\<forall>k. p < k \<and> k \<le> hi \<longrightarrow> s < round_at obs k) \<and>
           (snd r = p \<and> lo \<le> p \<or> snd r = p + 1 \<and> p + 1 \<le> hi)))"

lemma search_loop_correct:
  assumes "1 \<le> lo" and "hi \<le> length obs" and "lo \<le> left" and "right \<le> hi" and "left \<le> right + 1"
    and sorted: "\<And>j k. lo \<le> j \<Longrightarrow> j < k \<Longrightarrow> k \<le> hi \<Longrightarrow> round_at obs j < round_at obs k"
    and below: "\<And>k. lo \<le> k \<Longrightarrow> k < left \<Longrightarrow> round_at obs k < s"
    and above: "\<And>k. right < k \<Longrightarrow> k \<le> hi \<Longrightarrow> s < round_at obs k"
    and idx: "left \<le> right \<or> (idx = right \<and> lo \<le> right) \<or> (idx = left \<and> left \<le> hi)"
  shows "\<exists>r. search_loop obs s left right idx = Inr r \<and> search_result obs s lo hi r"
  using assms(3-5) below above idx
proof (induction "right + 1 - left" arbitrary: left right idx rule: less_induct)
  case less
  let ?m = "(left + right) div 2"
  show ?case
  proof (cases "left \<le> right")
    case False
    then have "left = right + 1" using less.prems(3) by simp
    then have "idx = right \<and> lo \<le> right \<or> idx = right + 1 \<and> right + 1 \<le> hi"
      using less.prems(6) False by blast
    with \<open>left = right + 1\<close> less.prems(1,2,4,5)
    have "search_result obs s lo hi (default_observation, idx)"
      unfolding search_result_def fst_conv snd_conv
      by - (rule disjI2, intro conjI exI [of _ right], simp_all)
    with False show ?thesis by (simp add: search_loop.simps)
  next
    case True
    have m: "left \<le> ?m" "?m \<le> right" using True by simp_all
    have lm: "lo \<le> ?m" "?m \<le> hi" "1 \<le> ?m" using m less.prems(1,2) assms(1) by linarith+
    have get: "vec_get obs ?m = Inr (obs ! (?m - 1))"
      using lm assms(2) by (simp add: vec_get_def)
    consider (eq) "round_at obs ?m = s" | (lt) "round_at obs ?m < s" | (gt) "s < round_at obs ?m"
      by fastforce
    then show ?thesis
    proof cases
      case eq
      then have "search_loop obs s left right idx = Inr (obs ! (?m - 1), ?m)"
        using True get by (subst search_loop.simps) (simp add: Let_def round_at_def)
      moreover have "search_result obs s lo hi (obs ! (?m - 1), ?m)"
        using eq lm by (auto simp: search_result_def)
      ultimately show ?thesis by blast
    next
      case lt
      have "search_loop obs s left right idx = search_loop obs s (?m + 1) right ?m"
        using True get lt by (subst search_loop.simps) (auto simp: Let_def round_at_def)
      moreover have "\<exists>r. search_loop obs s (?m + 1) right ?m = Inr r \<and> search_result obs s lo hi r"
      proof (rule less.hyps)
        show "round_at obs k < s" if "lo \<le> k" "k < ?m + 1" for k
        proof (cases "k = ?m")
          case False
          then show ?thesis using sorted [of k ?m] that lm lt by force
        qed (use lt in simp)
      qed (use True m lm less.prems in auto)
      ultimately show ?thesis by simp
    next
      case gt
      have "search_loop obs s left right idx = search_loop obs s left (?m - 1) ?m"
        using True get gt by (subst search_loop.simps) (auto simp: Let_def round_at_def)
      moreover have "\<exists>r. search_loop obs s left (?m - 1) ?m = Inr r \<and> search_result obs s lo hi r"
      proof (rule less.hyps)
        show "s < round_at obs k" if "?m - 1 < k" "k \<le> hi" for k
        proof (cases "k = ?m")
          case False
          then show ?thesis using sorted [of ?m k] that lm gt by force
        qed (use gt in simp)
      qed (use True m lm less.prems in auto)
      ultimately show ?thesis by simp
    qed
  qed
qed


section \<open>The ring in chronological order\<close>

lemma chronological_nth:
  assumes "i \<le> length obs" and "1 \<le> k" and "k \<le> length obs"
  shows "k \<le> i \<Longrightarrow> chronological obs i ! (length obs - i + (k - 1)) = obs ! (k - 1)"
    and "i < k \<Longrightarrow> chronological obs i ! (k - i - 1) = obs ! (k - 1)"
  using assms by (auto simp: chronological_def nth_append)

definition ring_inv :: "price_observation list \<Rightarrow> nat \<Rightarrow> bool" where
  "ring_inv obs i \<longleftrightarrow>
     ring_ok obs i \<and> obs \<noteq> [] \<and> rounds_sorted (chronological obs i) \<and>
     (\<forall>ob \<in> set obs. 0 < recording_round ob)"

lemma ring_invD:
  assumes "ring_inv obs i"
  shows "1 \<le> i" "i \<le> length obs" "length obs \<le> MAX_OBSERVATIONS"
    "length obs < MAX_OBSERVATIONS \<Longrightarrow> i = length obs"
    "\<And>k. 1 \<le> k \<Longrightarrow> k \<le> length obs \<Longrightarrow> 0 < round_at obs k"
  using assms by (auto simp: ring_inv_def ring_ok_def round_at_def)

lemma ring_sorted:
  assumes "ring_inv obs i" and "1 \<le> j" "j \<le> length obs" "1 \<le> k" "k \<le> length obs"
  shows "j < k \<Longrightarrow> k \<le> i \<or> i < j \<Longrightarrow> round_at obs j < round_at obs k"
    and "i < j \<Longrightarrow> k \<le> i \<Longrightarrow> round_at obs j < round_at obs k"
proof -
  let ?q = "chronological obs i"
  have i: "i \<le> length obs" by (rule ring_invD(2) [OF assms(1)])
  have sorted: "a < b \<Longrightarrow> b < length obs \<Longrightarrow> recording_round (?q ! a) < recording_round (?q ! b)" for a b
    using assms(1) by (simp add: ring_inv_def rounds_sorted_def sorted_wrt_iff_nth_less)
  note nj = chronological_nth [OF i assms(2,3)] and nk = chronological_nth [OF i assms(4,5)]
  show "round_at obs j < round_at obs k" if "j < k" "k \<le> i \<or> i < j"
    using that(2)
  proof
    assume "k \<le> i"
    with that(1) nj(1) nk(1) sorted [of "length obs - i + (j - 1)" "length obs - i + (k - 1)"] assms i
    show ?thesis by (simp add: round_at_def)
  next
    assume "i < j"
    with that(1) nj(2) nk(2) sorted [of "j - i - 1" "k - i - 1"] assms i
    show ?thesis by (simp add: round_at_def)
  qed
  show "round_at obs j < round_at obs k" if "i < j" "k \<le> i"
    using that nj(2) nk(1) sorted [of "j - i - 1" "length obs - i + (k - 1)"] assms i
    by (simp add: round_at_def)
qed

text \<open>The abstract look-up in a list of observations.\<close>

fun observation_at :: "u64 \<Rightarrow> price_observation list \<Rightarrow> error + price_observation" where
  "observation_at s [] = Inl ERROR_SAFE_PRICE_OBSERVATION_DOES_NOT_EXIST"
| "observation_at s [a] =
     (if recording_round a = s then Inr a else Inl ERROR_SAFE_PRICE_OBSERVATION_DOES_NOT_EXIST)"
| "observation_at s (a # b # q) =
     (if recording_round a = s then Inr a
      else if s < recording_round b then interpolate_observations a b s
      else observation_at s (b # q))"

lemma rounds_sorted_nth:
  "rounds_sorted q \<Longrightarrow> a < b \<Longrightarrow> b < length q \<Longrightarrow> recording_round (q ! a) < recording_round (q ! b)"
  by (simp add: rounds_sorted_def sorted_wrt_iff_nth_less)

lemma rounds_sorted_tl: "rounds_sorted (a # q) \<Longrightarrow> rounds_sorted q"
  by (simp add: rounds_sorted_def)

lemma observation_at_found:
  assumes "rounds_sorted q" and "k < length q" and "recording_round (q ! k) = s"
  shows "observation_at s q = Inr (q ! k)"
  using assms
proof (induction s q arbitrary: k rule: observation_at.induct)
  case (1 s)
  then show ?case by simp
next
  case (2 s a)
  then show ?case by simp
next
  case (3 s a b q)
  show ?case
  proof (cases k)
    case 0
    then show ?thesis using 3(4) by simp
  next
    case (Suc j)
    have "recording_round a \<noteq> s"
      using rounds_sorted_nth [OF 3(2), of 0 k] 3(3,4) Suc by auto
    moreover have "\<not> s < recording_round b"
      using rounds_sorted_nth [OF 3(2), of 1 k] 3(3,4) Suc by (cases "j = 0") auto
    ultimately show ?thesis
      using 3(1) [of j] 3(3,4) Suc rounds_sorted_tl [OF 3(2)] by simp
  qed
qed

lemma observation_at_between:
  assumes "rounds_sorted q" and "Suc k < length q"
    and "recording_round (q ! k) < s" and "s < recording_round (q ! Suc k)"
  shows "observation_at s q = interpolate_observations (q ! k) (q ! Suc k) s"
  using assms
proof (induction s q arbitrary: k rule: observation_at.induct)
  case (1 s)
  then show ?case by simp
next
  case (2 s a)
  then show ?case by simp
next
  case (3 s a b q)
  show ?case
  proof (cases k)
    case 0
    then show ?thesis using 3(4,5) by auto
  next
    case (Suc j)
    have "recording_round a \<noteq> s"
      using rounds_sorted_nth [OF 3(2), of 0 k] 3(3,4) Suc by auto
    moreover have "\<not> s < recording_round b"
      using rounds_sorted_nth [OF 3(2), of 1 k] 3(3,4) Suc by (cases "j = 0") auto
    ultimately show ?thesis
      using 3(1) [of j] 3(3-5) Suc rounds_sorted_tl [OF 3(2)] by simp
  qed
qed


section \<open>The search refines the abstract look-up\<close>

text \<open>
  One segment of the ring, \<open>lo..hi\<close>, whose first round is at most \<open>s\<close> and whose successor
  round is above it: the search and the interpolation together find \<open>s\<close>.
\<close>

lemma segment_search:
  assumes inv: "ring_inv obs i" and seg: "1 \<le> lo" "lo \<le> hi" "hi \<le> length obs"
    and same: "hi < i \<or> i < lo"
    and first: "round_at obs lo \<le> s" and succ: "s < round_at obs (hi mod MAX_OBSERVATIONS + 1)"
    and chron: "\<And>k. lo \<le> k \<Longrightarrow> k \<le> hi \<Longrightarrow>
      Suc (pos k) < length obs \<and> chronological obs i ! pos k = obs ! (k - 1) \<and>
      chronological obs i ! Suc (pos k) = obs ! (k mod MAX_OBSERVATIONS)"
    and bound: "hi mod MAX_OBSERVATIONS < length obs"
  shows "\<exists>ob k. search_loop obs s lo hi idx = Inr (ob, k) \<and>
    (if 0 < recording_round ob then Inr ob else price_observation_by_linear_interpolation obs s k)
      = observation_at s (chronological obs i)"
proof -
  let ?q = "chronological obs i"
  note ring = ring_invD [OF inv]
  have sorted_q: "rounds_sorted ?q" using inv by (simp add: ring_inv_def)
  have sorted: "round_at obs j < round_at obs k" if "lo \<le> j" "j < k" "k \<le> hi" for j k
    using ring_sorted(1) [OF inv, of j k] that seg same by auto
  obtain ob k where loop: "search_loop obs s lo hi idx = Inr (ob, k)"
    and res: "search_result obs s lo hi (ob, k)"
    using search_loop_correct [of lo hi obs lo hi s idx] seg sorted by force
  have small: "p mod MAX_OBSERVATIONS = p" if "p < hi" for p
    using that seg(3) ring(3) by simp
  from res [unfolded search_result_def fst_conv snd_conv] consider
      (found) j where "lo \<le> j" "j \<le> hi" "round_at obs j = s" "ob = obs ! (j - 1)"
    | (missing) p where "ob = default_observation" "lo \<le> p + 1" "p \<le> hi"
        "\<forall>k. lo \<le> k \<and> k \<le> p \<longrightarrow> round_at obs k < s" "\<forall>k. p < k \<and> k \<le> hi \<longrightarrow> s < round_at obs k"
        "k = p \<and> lo \<le> p \<or> k = p + 1 \<and> p + 1 \<le> hi"
    by blast
  then show ?thesis
  proof cases
    case j: (found j)
    have "0 < recording_round ob" using ring(5) [of j] j seg by (simp add: round_at_def)
    moreover have "observation_at s ?q = Inr (?q ! pos j)"
      using chron [OF j(1,2)] j by (intro observation_at_found [OF sorted_q]) (simp_all add: round_at_def)
    ultimately show ?thesis using loop chron [OF j(1,2)] j(4) by simp
  next
    case (missing p)
    note dflt = missing(1) and p = missing(2,3) and below = missing(4) and above = missing(5)
      and k = missing(6)
    have lo: "lo \<le> p" using above first p seg by (metis Suc_eq_plus1 le_SucE leD lessI)
    then have lt: "round_at obs p < s" using below by simp
    have p1: "1 \<le> p" "p \<le> length obs" using lo p(2) seg by simp_all
    have gt: "s < round_at obs (p mod MAX_OBSERVATIONS + 1)"
    proof (cases "p = hi")
      case False
      then show ?thesis using above small [of p] p(2) by simp
    qed (use succ in simp)
    have len: "p mod MAX_OBSERVATIONS < length obs"
    proof (cases "p = hi")
      case False
      then show ?thesis using small [of p] p(2) seg by simp
    qed (use bound in simp)
    have "price_observation_by_linear_interpolation obs s k
      = interpolate_observations (obs ! (p - 1)) (obs ! (p mod MAX_OBSERVATIONS)) s"
      using k
    proof
      assume "k = p \<and> lo \<le> p"
      then show ?thesis
        using p1 lt len by (simp add: price_observation_by_linear_interpolation_def vec_get_def round_at_def)
    next
      assume kp: "k = p + 1 \<and> p + 1 \<le> hi"
      then show ?thesis
        using p1 gt len small [of p] seg
        by (auto simp: price_observation_by_linear_interpolation_def vec_get_def round_at_def)
    qed
    also have "\<dots> = observation_at s ?q"
      using chron [OF lo p(2)] lt gt
      by (subst observation_at_between [OF sorted_q, of "pos p"]) (simp_all add: round_at_def)
    finally show ?thesis using loop dflt by (simp add: default_observation_def)
  qed
qed


lemma oldest_observation:
  assumes "ring_inv obs i"
  shows "get_oldest_price_observation i obs = Inr (hd (chronological obs i))"
proof -
  note ring = ring_invD [OF assms]
  have ne: "obs \<noteq> []" using assms by (simp add: ring_inv_def)
  show ?thesis
  proof (cases "length obs = MAX_OBSERVATIONS")
    case True
    then have "i < MAX_OBSERVATIONS \<or> i = MAX_OBSERVATIONS" using ring(2) by auto
    with True ne show ?thesis
      by (auto simp: get_oldest_price_observation_def vec_get_def hd_chronological hd_conv_nth Suc_leI)
  next
    case False
    then have "i = length obs" using ring(3,4) by simp
    with False ne show ?thesis
      by (simp add: get_oldest_price_observation_def vec_get_def hd_chronological hd_conv_nth Suc_leI)
  qed
qed

lemma binary_search_refines:
  assumes inv: "ring_inv obs i" and oldest: "recording_round (hd (chronological obs i)) \<le> s"
    and newest: "s < round_at obs i"
  shows "\<exists>ob k. price_observation_by_binary_search i obs s = Inr (ob, k) \<and>
    (if 0 < recording_round ob then Inr ob else price_observation_by_linear_interpolation obs s k)
      = observation_at s (chronological obs i)"
proof -
  let ?n = "length obs"
  note ring = ring_invD [OF inv]
  have ne: "obs \<noteq> []" and n: "0 < ?n" using inv by (auto simp: ring_inv_def)
  have one: "vec_get obs 1 = Inr (obs ! 0)" using n by (simp add: vec_get_def Suc_leI)
  note nth = chronological_nth [OF ring(2)]
  show ?thesis
  proof (cases "round_at obs 1 \<le> s")
    case True
    then have i: "1 \<le> i - 1" "i - 1 < MAX_OBSERVATIONS" "i - 1 + 1 = i"
      using newest ring(1-3) by (cases "i = 1"; simp)+
    have "\<exists>ob k. search_loop obs s 1 (i - 1) 1 = Inr (ob, k) \<and>
      (if 0 < recording_round ob then Inr ob else price_observation_by_linear_interpolation obs s k)
        = observation_at s (chronological obs i)"
    proof (rule segment_search [OF inv, where pos = "\<lambda>k. ?n - i + (k - 1)"])
      fix k assume k: "1 \<le> k" "k \<le> i - 1"
      show "Suc (?n - i + (k - 1)) < ?n \<and> chronological obs i ! (?n - i + (k - 1)) = obs ! (k - 1) \<and>
          chronological obs i ! Suc (?n - i + (k - 1)) = obs ! (k mod MAX_OBSERVATIONS)"
      proof -
        have "Suc (?n - i + (k - 1)) = ?n - i + (k + 1 - 1)" "Suc (?n - i + (k - 1)) < ?n"
          "k mod MAX_OBSERVATIONS = k + 1 - 1"
          using k i ring(2) by simp_all
        with nth(1) [of k] nth(1) [of "k + 1"] k i ring(2) show ?thesis by simp
      qed
    qed (use True i newest ring in auto)
    with True one show ?thesis
      by (simp add: price_observation_by_binary_search_def round_at_def)
  next
    case False
    then have i: "i < ?n" and head: "round_at obs (i + 1) \<le> s"
      using oldest ring(2) ne
      by (auto simp: hd_chronological hd_conv_nth round_at_def split: if_splits)
    have full: "?n = MAX_OBSERVATIONS" using i ring(3,4) by (metis order_le_less less_irrefl)
    have "\<exists>ob k. search_loop obs s (i + 1) ?n 1 = Inr (ob, k) \<and>
      (if 0 < recording_round ob then Inr ob else price_observation_by_linear_interpolation obs s k)
        = observation_at s (chronological obs i)"
    proof (rule segment_search [OF inv, where pos = "\<lambda>k. k - i - 1"])
      fix k assume k: "i + 1 \<le> k" "k \<le> ?n"
      show "Suc (k - i - 1) < ?n \<and> chronological obs i ! (k - i - 1) = obs ! (k - 1) \<and>
          chronological obs i ! Suc (k - i - 1) = obs ! (k mod MAX_OBSERVATIONS)"
      proof -
        have "Suc (k - i - 1) = k - i" using k by simp
        then show ?thesis
          using k nth(2) [of k] nth(2) [of "k + 1"] nth(1) [of 1] i ring(1) full
          by (cases "k = ?n") (auto simp del: diff_diff_left)
      qed
    qed (use False i full head n in auto)
    moreover have "\<not> recording_round (obs ! 0) \<le> s" using False by (simp add: round_at_def)
    ultimately show ?thesis
      unfolding price_observation_by_binary_search_def one and_then_simps by (simp only: if_False)
  qed
qed

lemma get_price_observation_refines:
  assumes inv: "ring_inv obs i" and oldest: "recording_round (hd (chronological obs i)) \<le> s"
    and newest: "s \<le> recording_round (last (chronological obs i))"
  shows "get_price_observation env world pair t1 t2 i obs s = observation_at s (chronological obs i)"
proof -
  note ring = ring_invD [OF inv]
  have ne: "obs \<noteq> []" and sorted: "rounds_sorted (chronological obs i)"
    using inv by (simp_all add: ring_inv_def)
  have last: "last (chronological obs i) = obs ! (i - 1)"
    using ne ring(1,2) by (rule last_chronological)
  have get: "vec_get obs i = Inr (obs ! (i - 1))" using ring(1,2) by (simp add: vec_get_def)
  show ?thesis
  proof (cases "s = round_at obs i")
    case True
    have "chronological obs i \<noteq> []" using ne by (metis length_chronological length_0_conv)
    then have "observation_at s (chronological obs i) = Inr (obs ! (i - 1))"
      using observation_at_found [OF sorted, of "length obs - 1" s] True ne last
      by (simp add: last_conv_nth round_at_def)
    with True get ne show ?thesis by (simp add: get_price_observation_def round_at_def)
  next
    case False
    then have "s < round_at obs i" using newest last by (simp add: round_at_def)
    with binary_search_refines [OF inv oldest this] get ne show ?thesis
      by (auto simp: get_price_observation_def round_at_def)
  qed
qed


section \<open>Bounds on accumulated reserves\<close>

text \<open>
  \<open>grows acc lo hi a b\<close>: from the observation \<open>a\<close> to the later one \<open>b\<close>, the accumulated
  quantity \<open>acc\<close> grew by at least \<open>lo\<close> and at most \<open>hi\<close> per round, and the weight by one
  per round.
\<close>

definition grows ::
  "(price_observation \<Rightarrow> biguint) \<Rightarrow> biguint \<Rightarrow> biguint \<Rightarrow> price_observation \<Rightarrow> price_observation \<Rightarrow> bool"
where
  "grows acc lo hi a b \<longleftrightarrow>
     recording_round a \<le> recording_round b \<and>
     weight_accumulated b - weight_accumulated a = recording_round b - recording_round a \<and>
     acc a + lo * (unat (recording_round b) - unat (recording_round a)) \<le> acc b \<and>
     acc b \<le> acc a + hi * (unat (recording_round b) - unat (recording_round a))"

lemma grows_refl: "grows acc lo hi a a"
  by (simp add: grows_def)

lemma add_chain:
  fixes a b c x y z :: nat
  shows "a + x \<le> b \<Longrightarrow> b + y \<le> c \<Longrightarrow> z = x + y \<Longrightarrow> a + z \<le> c"
    and "b \<le> a + x \<Longrightarrow> c \<le> b + y \<Longrightarrow> z = x + y \<Longrightarrow> c \<le> a + z"
  by simp_all

lemma grows_trans:
  assumes "grows acc lo hi a b" and "grows acc lo hi b c"
  shows "grows acc lo hi a c"
proof -
  let ?r = "\<lambda>x. unat (recording_round x)"
  note ab = assms(1) [unfolded grows_def] and bc = assms(2) [unfolded grows_def]
  have le: "recording_round a \<le> recording_round b" "recording_round b \<le> recording_round c"
    using ab bc by blast+
  then have split: "k * (?r c - ?r a) = k * (?r b - ?r a) + k * (?r c - ?r b)" for k
    by (simp add: word_le_nat_alt distrib_left [symmetric])
  have "weight_accumulated c - weight_accumulated a
      = (weight_accumulated c - weight_accumulated b) + (weight_accumulated b - weight_accumulated a)"
    by simp
  also have "\<dots> = (recording_round c - recording_round b) + (recording_round b - recording_round a)"
    using ab bc by (simp only:)
  also have "\<dots> = recording_round c - recording_round a" by simp
  finally have w: "weight_accumulated c - weight_accumulated a = recording_round c - recording_round a" .
  have "acc a + lo * (?r c - ?r a) \<le> acc c" "acc c \<le> acc a + hi * (?r c - ?r a)"
    using ab bc by (blast intro: add_chain split)+
  with le w show ?thesis by (simp add: grows_def)
qed

lemma compute_new_observation_grows:
  assumes "recording_round a \<noteq> 0" and "recording_round a \<le> s"
    and "lo \<le> r" and "r \<le> hi"
    and "acc (compute_new_observation s r1 r2 lp a) = acc a + unat (s - recording_round a) * r"
  shows "grows acc lo hi a (compute_new_observation s r1 r2 lp a)"
proof -
  have "unat (s - recording_round a) = unat s - unat (recording_round a)"
    using assms(2) by (rule unat_sub_u64)
  with assms show ?thesis
    by (simp add: grows_def compute_new_observation_def Let_def mult.commute mult_le_mono1)
qed


text \<open>Rounding down a line keeps the bounds on its slope.\<close>

lemma floor_slope:
  fixes A D t1 t2 lo hi :: nat
  assumes "lo * D \<le> A" and "A \<le> hi * D" and "0 < D" and "t1 \<le> t2"
  shows "t1 * A div D + lo * (t2 - t1) \<le> t2 * A div D"
    and "t2 * A div D \<le> t1 * A div D + hi * (t2 - t1)"
proof -
  obtain d where t2: "t2 = t1 + d" using assms(4) le_Suc_ex by blast
  have shift: "(t1 * A + d * (k * D)) div D = t1 * A div D + k * d" for k
  proof -
    have "(t1 * A + d * (k * D)) div D = (t1 * A + (k * d) * D) div D"
      by (simp only: ac_simps)
    also have "\<dots> = t1 * A div D + k * d"
      using assms(3) by (subst div_mult_self1) simp_all
    finally show ?thesis .
  qed
  have "(t1 * A + d * (lo * D)) div D \<le> (t1 * A + d * A) div D"
    using assms(1) by (intro div_le_mono) simp
  moreover have "(t1 * A + d * A) div D \<le> (t1 * A + d * (hi * D)) div D"
    using assms(2) by (intro div_le_mono) simp
  moreover have "t2 * A = t1 * A + d * A" "t2 - t1 = d" by (simp_all add: t2 distrib_right)
  ultimately show "t1 * A div D + lo * (t2 - t1) \<le> t2 * A div D"
    "t2 * A div D \<le> t1 * A div D + hi * (t2 - t1)"
    by (simp_all only: shift)
qed

text \<open>The quantities that are accumulated.\<close>

definition accumulators :: "(price_observation \<Rightarrow> biguint) set" where
  "accumulators =
     {first_token_reserve_accumulated, second_token_reserve_accumulated, lp_supply_accumulated}"

text \<open>\<open>on_line acc l r x\<close>: the observation \<open>x\<close> lies on the rounded line from \<open>l\<close> to \<open>r\<close>.\<close>

definition on_line ::
  "(price_observation \<Rightarrow> biguint) \<Rightarrow> price_observation \<Rightarrow> price_observation \<Rightarrow> price_observation \<Rightarrow> bool"
where
  "on_line acc l r x \<longleftrightarrow>
     recording_round l \<le> recording_round x \<and> recording_round x \<le> recording_round r \<and>
     weight_accumulated x - weight_accumulated l = recording_round x - recording_round l \<and>
     acc x = acc l + (unat (recording_round x) - unat (recording_round l)) * (acc r - acc l)
                div (unat (recording_round r) - unat (recording_round l))"

lemma on_line_ends:
  assumes "grows acc lo hi l r" and "recording_round l < recording_round r"
  shows "on_line acc l r l" and "on_line acc l r r"
  using assms by (auto simp: on_line_def grows_def word_less_nat_alt)

lemma on_line_grows:
  assumes lr: "grows acc lo hi l r" "recording_round l < recording_round r"
    and x: "on_line acc l r x" and y: "on_line acc l r y"
    and xy: "recording_round x \<le> recording_round y"
  shows "grows acc lo hi x y"
proof -
  let ?r = "\<lambda>x. unat (recording_round x)"
  let ?D = "?r r - ?r l" and ?A = "acc r - acc l"
  have D: "0 < ?D" "lo * ?D \<le> ?A" "?A \<le> hi * ?D"
    using lr by (auto simp: grows_def word_less_nat_alt)
  have t: "?r x - ?r l \<le> ?r y - ?r l" "?r y - ?r l - (?r x - ?r l) = ?r y - ?r x"
    using x y xy by (auto simp: on_line_def word_le_nat_alt)
  note slope = floor_slope [OF D(2,3,1) t(1), unfolded t(2)]
  have "weight_accumulated y - weight_accumulated x
      = (weight_accumulated y - weight_accumulated l) - (weight_accumulated x - weight_accumulated l)"
    by simp
  also have "\<dots> = (recording_round y - recording_round l) - (recording_round x - recording_round l)"
    using x y by (simp only: on_line_def)
  also have "\<dots> = recording_round y - recording_round x" by simp
  finally have w: "weight_accumulated y - weight_accumulated x = recording_round y - recording_round x" .
  show ?thesis
    using slope xy w x y by (simp add: grows_def on_line_def)
qed

lemma weighted_line: "v * a + w * (a + b) = w * b + (v + w) * (a::nat)"
  by (simp add: algebra_simps)

lemma interpolate_on_line:
  assumes lr: "grows acc lo hi l r" and l: "recording_round l < s" and r: "s < recording_round r"
    and acc: "acc \<in> accumulators"
  shows "\<exists>x. interpolate_observations l r s = Inr x \<and> recording_round x = s \<and> on_line acc l r x"
proof -
  let ?lw = "unat (recording_round r) - unat s" and ?rw = "unat s - unat (recording_round l)"
  let ?D = "unat (recording_round r) - unat (recording_round l)"
  have w: "unat (recording_round r - s) = ?lw" "unat (s - recording_round l) = ?rw"
    "unat (recording_round r - recording_round l) = ?D"
    using l r by (simp_all add: unat_sub_u64 less_imp_le)
  have D: "?D = ?lw + ?rw" "0 < ?D" using l r by (auto simp: word_less_nat_alt)
  have le: "acc l \<le> acc r" using lr by (simp add: grows_def)
  have "(?lw * acc l + ?rw * acc r) div ?D = acc l + ?rw * (acc r - acc l) div ?D"
  proof -
    obtain A where A: "acc r = acc l + A" using le le_Suc_ex by blast
    have "?lw * acc l + ?rw * acc r = ?rw * A + ?D * acc l"
      unfolding D(1) A by (rule weighted_line)
    then have "(?lw * acc l + ?rw * acc r) div ?D = acc l + ?rw * A div ?D"
      using D(2) by simp
    then show ?thesis by (simp add: A)
  qed
  then show ?thesis
    using acc D(2) l r
    by (auto simp: interpolate_observations_def Let_def w accumulators_def on_line_def)
qed


lemma observation_at_step:
  assumes ab: "recording_round a < recording_round b" "grows acc lo hi a b" and acc: "acc \<in> accumulators"
  shows "recording_round a \<le> u \<Longrightarrow> u < recording_round b \<Longrightarrow>
      \<exists>x. observation_at u (a # b # q) = Inr x \<and> recording_round x = u \<and> on_line acc a b x"
    and "recording_round b \<le> u \<Longrightarrow> observation_at u (a # b # q) = observation_at u (b # q)"
proof -
  show "\<exists>x. observation_at u (a # b # q) = Inr x \<and> recording_round x = u \<and> on_line acc a b x"
    if u: "recording_round a \<le> u" "u < recording_round b"
  proof (cases "u = recording_round a")
    case True
    then show ?thesis using on_line_ends(1) [OF ab(2,1)] by simp
  next
    case False
    then have "recording_round a < u" using u(1) by simp
    from interpolate_on_line [OF ab(2) this u(2) acc] False u(2) show ?thesis by auto
  qed
  show "recording_round b \<le> u \<Longrightarrow> observation_at u (a # b # q) = observation_at u (b # q)"
    using ab(1) by auto
qed

lemma on_line_between:
  assumes "grows acc lo hi a b" and "recording_round a < recording_round b" and "on_line acc a b x"
  shows "grows acc lo hi a x" and "grows acc lo hi x b"
  using on_line_grows [OF assms(1,2) on_line_ends(1) [OF assms(1,2)] assms(3)]
    on_line_grows [OF assms(1,2) assms(3) on_line_ends(2) [OF assms(1,2)]] assms(3)
  by (simp_all add: on_line_def)

text \<open>A history: ordered by round, with bounded growth between any two records.\<close>

definition history :: "(price_observation \<Rightarrow> biguint) \<Rightarrow> biguint \<Rightarrow> biguint \<Rightarrow> price_observation list \<Rightarrow> bool"
where
  "history acc lo hi q \<longleftrightarrow> rounds_sorted q \<and> sorted_wrt (grows acc lo hi) q"

lemma history_Cons:
  assumes "history acc lo hi (a # b # q)"
  shows "history acc lo hi (b # q)" "recording_round a < recording_round b" "grows acc lo hi a b"
    "grows acc lo hi b (last (b # q))"
  using assms by (auto simp: history_def rounds_sorted_def grows_refl last_in_set)

lemma observation_at_ends:
  assumes "acc \<in> accumulators" and "history acc lo hi q" and "q \<noteq> []"
    and "recording_round (hd q) \<le> s" and "s \<le> recording_round (last q)"
  shows "\<exists>x. observation_at s q = Inr x \<and> recording_round x = s \<and>
    grows acc lo hi (hd q) x \<and> grows acc lo hi x (last q)"
  using assms(2-5)
proof (induction s q rule: observation_at.induct)
  case (1 s)
  then show ?case by simp
next
  case (2 s a)
  then show ?case by (simp add: grows_refl)
next
  case (3 s a b q)
  note h = history_Cons [OF 3(2)]
  note step = observation_at_step [OF h(2,3) assms(1), of s q]
  show ?case
  proof (cases "s < recording_round b")
    case True
    with step(1) 3(4) obtain x where x: "observation_at s (a # b # q) = Inr x" "recording_round x = s"
      "on_line acc a b x" by auto
    note between = on_line_between [OF h(3,2) x(3)]
    have "grows acc lo hi x (last (a # b # q))" using grows_trans [OF between(2) h(4)] by simp
    with x between(1) show ?thesis by simp
  next
    case False
    then have le: "recording_round b \<le> s" by simp
    have ne: "recording_round a \<noteq> s" using h(2) le by auto
    from 3(1) [OF ne False h(1)] le 3(5) obtain x where x: "observation_at s (b # q) = Inr x"
      "recording_round x = s" "grows acc lo hi b x" "grows acc lo hi x (last (b # q))" by auto
    with step(2) [OF le] grows_trans [OF h(3) x(3)] show ?thesis by simp
  qed
qed

lemma observation_at_grows:
  assumes "acc \<in> accumulators" and "history acc lo hi q" and "q \<noteq> []"
    and "recording_round (hd q) \<le> s" and "s \<le> t" and "t \<le> recording_round (last q)"
  shows "\<exists>x y. observation_at s q = Inr x \<and> observation_at t q = Inr y \<and> grows acc lo hi x y"
  using assms(2-6)
proof (induction s q rule: observation_at.induct)
  case (1 s)
  then show ?case by simp
next
  case (2 s a)
  then show ?case by (auto simp: grows_refl)
next
  case (3 s a b q)
  note h = history_Cons [OF 3(2)]
  note step = observation_at_step [OF h(2,3) assms(1), of _ q]
  show ?case
  proof (cases "s < recording_round b")
    case True
    with step(1) [of s] 3(4) obtain x where x: "observation_at s (a # b # q) = Inr x"
      "recording_round x = s" "on_line acc a b x" by auto
    show ?thesis
    proof (cases "t < recording_round b")
      case True
      have "recording_round a \<le> t" using 3(4,5) by simp
      from step(1) [OF this True] obtain y where y: "observation_at t (a # b # q) = Inr y"
        "recording_round y = t" "on_line acc a b y" by blast
      have "grows acc lo hi x y"
        using on_line_grows [OF h(3,2) x(3) y(3)] x(2) y(2) 3(5) by simp
      with x(1) y(1) show ?thesis by blast
    next
      case False
      then have t: "recording_round b \<le> t" by simp
      from observation_at_ends [OF assms(1) h(1), of t] t 3(6) obtain y where
        y: "observation_at t (b # q) = Inr y" "grows acc lo hi b y" by auto
      from grows_trans [OF on_line_between(2) [OF h(3,2) x(3)] y(2)] step(2) [OF t] x(1) y(1)
      show ?thesis by simp
    qed
  next
    case False
    then have le: "recording_round b \<le> s" "recording_round b \<le> t" using 3(5) by simp_all
    have ne: "recording_round a \<noteq> s" using h(2) le by auto
    from 3(1) [OF ne False h(1)] le(1) 3(5,6) have
      "\<exists>x y. observation_at s (b # q) = Inr x \<and> observation_at t (b # q) = Inr y \<and> grows acc lo hi x y"
      by simp
    with step(2) [OF le(1)] step(2) [OF le(2)] show ?thesis by simp
  qed
qed


section \<open>The window of a view\<close>

text \<open>
  What the theorems assume of a pair: a ring in order, and for each accumulated quantity the
  bounds of its growth per round, which the current value also respects.
\<close>

record price_bounds =
  first_lo :: biguint
  first_hi :: biguint
  second_lo :: biguint
  second_hi :: biguint
  supply_lo :: biguint
  supply_hi :: biguint

definition history_within :: "pair_storage \<Rightarrow> price_bounds \<Rightarrow> bool" where
  "history_within s b \<longleftrightarrow>
     ring_inv (price_observations s) (safe_price_current_index s) \<and>
     history first_token_reserve_accumulated (first_lo b) (first_hi b) (observations s) \<and>
     history second_token_reserve_accumulated (second_lo b) (second_hi b) (observations s) \<and>
     history lp_supply_accumulated (supply_lo b) (supply_hi b) (observations s) \<and>
     first_lo b \<le> pair_reserve s (first_token_id s) \<and> pair_reserve s (first_token_id s) \<le> first_hi b \<and>
     second_lo b \<le> pair_reserve s (second_token_id s) \<and> pair_reserve s (second_token_id s) \<le> second_hi b \<and>
     supply_lo b \<le> lp_token_supply s \<and> lp_token_supply s \<le> supply_hi b"

text \<open>The observation a view reads for a round, over the abstract history.\<close>

definition history_at :: "('e blockchain_scheme) \<Rightarrow> pair_storage \<Rightarrow> u64 \<Rightarrow> error + price_observation" where
  "history_at env s round =
     (let newest = last (observations s) in
      if round \<le> recording_round newest then observation_at round (observations s)
      else if round \<le> get_block_round env then
        Inr (compute_new_observation round (pair_reserve s (first_token_id s))
               (pair_reserve s (second_token_id s)) (lp_token_supply s) newest)
      else Inl ERROR_SAFE_PRICE_OBSERVATION_DOES_NOT_EXIST)"

lemma get_price_observation_history:
  assumes inv: "ring_inv (price_observations (world pair)) (safe_price_current_index (world pair))"
    and oldest: "recording_round (hd (observations (world pair))) \<le> s"
  shows "get_price_observation env world pair (first_token_id (world pair)) (second_token_id (world pair))
      (safe_price_current_index (world pair)) (price_observations (world pair)) s
    = history_at env (world pair) s"
proof (cases "s \<le> recording_round (last (observations (world pair)))")
  case True
  then show ?thesis
    using get_price_observation_refines [OF inv] oldest by (simp add: history_at_def observations_def)
next
  case False
  let ?obs = "price_observations (world pair)" and ?i = "safe_price_current_index (world pair)"
  note ring = ring_invD [OF inv]
  have ne: "?obs \<noteq> []" using inv by (simp add: ring_inv_def)
  have last: "last (observations (world pair)) = ?obs ! (?i - 1)"
    unfolding observations_def using ne ring(1,2) by (rule last_chronological)
  with ring(1,2) have get: "vec_get ?obs ?i = Inr (last (observations (world pair)))"
    by (simp add: vec_get_def)
  with False ne show ?thesis
    by (auto simp: get_price_observation_def history_at_def require_def)
qed

lemma history_at_grows:
  assumes acc: "acc \<in> accumulators" and h: "history acc lo hi (observations s)"
    and ne: "observations s \<noteq> []" and pos: "recording_round (last (observations s)) \<noteq> 0"
    and r: "lo \<le> r" "r \<le> hi"
    and new: "\<And>t a. acc (compute_new_observation t (pair_reserve s (first_token_id s))
        (pair_reserve s (second_token_id s)) (lp_token_supply s) a)
      = acc a + unat (if recording_round a = 0 then 1 else t - recording_round a) * r"
    and window: "recording_round (hd (observations s)) \<le> t" "t \<le> u" "u \<le> get_block_round env"
  shows "\<exists>x y. history_at env s t = Inr x \<and> history_at env s u = Inr y \<and> grows acc lo hi x y"
proof -
  let ?q = "observations s" and ?l = "last (observations s)"
  let ?new = "\<lambda>t. compute_new_observation t (pair_reserve s (first_token_id s))
        (pair_reserve s (second_token_id s)) (lp_token_supply s) ?l"
  have new_grows: "grows acc lo hi ?l (?new t)" if "recording_round ?l \<le> t" for t
    using compute_new_observation_grows [OF pos that r] new pos by simp
  show ?thesis
  proof (cases "u \<le> recording_round ?l")
    case True
    then have "t \<le> recording_round ?l" using window(2) by simp
    with True show ?thesis
      using observation_at_grows [OF acc h ne window(1,2) True] by (simp add: history_at_def)
  next
    case u: False
    show ?thesis
    proof (cases "t \<le> recording_round ?l")
      case True
      from observation_at_ends [OF acc h ne window(1) True] obtain x where
        x: "observation_at t ?q = Inr x" "grows acc lo hi x ?l" by blast
      have "grows acc lo hi x (?new u)" using grows_trans [OF x(2) new_grows] u by simp
      with x(1) True u window(3) show ?thesis by (simp add: history_at_def)
    next
      case False
      let ?r = "unat (recording_round ?l)"
      have w: "unat (t - recording_round ?l) = unat t - ?r" "unat (u - recording_round ?l) = unat u - ?r"
        "unat u - ?r = (unat t - ?r) + (unat u - unat t)"
        using False u window(2) by (simp_all add: unat_sub_u64 word_le_nat_alt)
      have "lo * (unat u - unat t) \<le> (unat u - unat t) * r" "(unat u - unat t) * r \<le> hi * (unat u - unat t)"
        using r by (simp_all add: mult.commute mult_le_mono2)
      then have "grows acc lo hi (?new t) (?new u)"
        using pos window(2) unfolding grows_def new
        by (simp add: w distrib_right) (simp add: compute_new_observation_def Let_def)
      moreover have "t \<le> get_block_round env" using window(2,3) by simp
      ultimately show ?thesis using False u window(3) by (simp add: history_at_def)
    qed
  qed
qed

lemma weighted_within:
  assumes "grows acc lo hi x y" and "recording_round x < recording_round y"
  defines "d \<equiv> unat (weight_accumulated y - weight_accumulated x)"
  shows "0 < d" "acc x \<le> acc y" "lo \<le> (acc y - acc x) div d" "(acc y - acc x) div d \<le> hi"
proof -
  have d: "d = unat (recording_round y) - unat (recording_round x)"
    using assms by (simp add: grows_def unat_sub_u64)
  show pos: "0 < d" using assms(2) by (simp add: d word_less_nat_alt)
  have b: "acc x + lo * d \<le> acc y" "acc y \<le> acc x + hi * d"
    using assms(1) by (simp_all add: grows_def d)
  then show "acc x \<le> acc y" by simp
  show "lo \<le> (acc y - acc x) div d" using b pos by (simp add: nat_le_div_iff)
  show "(acc y - acc x) div d \<le> hi" using b by (intro div_le_of_le_mult) simp
qed

lemma history_within_window:
  assumes h: "history_within (world pair) b"
    and w: "recording_round (hd (observations (world pair))) \<le> t" "t < u" "u \<le> get_block_round env"
  shows "\<exists>x y. get_window env world pair t u = Inr (x, y) \<and> recording_round x < recording_round y \<and>
    grows first_token_reserve_accumulated (first_lo b) (first_hi b) x y \<and>
    grows second_token_reserve_accumulated (second_lo b) (second_hi b) x y \<and>
    grows lp_supply_accumulated (supply_lo b) (supply_hi b) x y"
proof -
  let ?s = "world pair"
  let ?obs = "price_observations ?s" and ?i = "safe_price_current_index ?s"
  have inv: "ring_inv ?obs ?i" using h by (simp add: history_within_def)
  have ne: "observations ?s \<noteq> []"
    using inv by (metis length_0_conv length_chronological observations_def ring_inv_def)
  have pos: "recording_round (last (observations ?s)) \<noteq> 0"
    using inv ne last_in_set [OF ne] by (auto simp: ring_inv_def observations_def)
  have tu: "t \<le> u" using w(2) by simp
  note grows = history_at_grows [OF _ _ ne pos _ _ _ w(1) tu w(3)]
  have h1: "history first_token_reserve_accumulated (first_lo b) (first_hi b) (observations ?s)"
    using h by (simp add: history_within_def)
  have rounds: "recording_round x = v" if at: "history_at env ?s v = Inr x" and v: "t \<le> v" for v x
  proof (cases "v \<le> recording_round (last (observations ?s))")
    case True
    have "recording_round (hd (observations ?s)) \<le> v" using w(1) v by simp
    with observation_at_ends [OF _ h1 ne this True] at True show ?thesis
      by (auto simp: history_at_def accumulators_def)
  next
    case False
    with at show ?thesis
      by (auto simp: history_at_def compute_new_observation_def Let_def split: if_splits)
  qed
  obtain x y where xy: "history_at env ?s t = Inr x" "history_at env ?s u = Inr y"
    and g1: "grows first_token_reserve_accumulated (first_lo b) (first_hi b) x y"
    using grows [of first_token_reserve_accumulated "first_lo b" "first_hi b"
        "pair_reserve ?s (first_token_id ?s)"] h
    by (auto simp: accumulators_def history_within_def compute_new_observation_def Let_def)
  have g2: "grows second_token_reserve_accumulated (second_lo b) (second_hi b) x y"
    using grows [of second_token_reserve_accumulated "second_lo b" "second_hi b"
        "pair_reserve ?s (second_token_id ?s)"] h xy
    by (auto simp: accumulators_def history_within_def compute_new_observation_def Let_def)
  have g3: "grows lp_supply_accumulated (supply_lo b) (supply_hi b) x y"
    using grows [of lp_supply_accumulated "supply_lo b" "supply_hi b" "lp_token_supply ?s"] h xy
    by (auto simp: accumulators_def history_within_def compute_new_observation_def Let_def)
  have "recording_round (hd (observations ?s)) \<le> u" using w(1) tu by simp
  then have "get_window env world pair t u = Inr (x, y)"
    using w(1,2) oldest_observation [OF inv] xy
      get_price_observation_history [where world = world and env = env, OF inv, of t]
      get_price_observation_history [where world = world and env = env, OF inv, of u]
    by (simp add: get_window_def Let_def observations_def)
  with rounds [OF xy(1)] rounds [OF xy(2) tu] w(2) g1 g2 g3 show ?thesis by auto
qed

lemma window_weighted_amounts:
  assumes "history_within (world pair) b"
    and "recording_round (hd (observations (world pair))) \<le> t" "t < u" "u \<le> get_block_round env"
  shows "\<exists>x y w. get_window env world pair t u = Inr (x, y) \<and>
    compute_weighted_amounts x y = Inr w \<and>
    first_lo b \<le> weighted_first_token_reserve w \<and> weighted_first_token_reserve w \<le> first_hi b \<and>
    second_lo b \<le> weighted_second_token_reserve w \<and> weighted_second_token_reserve w \<le> second_hi b \<and>
    (weighted_lp_supply w = 0 \<or> supply_lo b \<le> weighted_lp_supply w) \<and> weighted_lp_supply w \<le> supply_hi b"
proof -
  from history_within_window [where world = world and pair = pair, OF assms] obtain x y where win: "get_window env world pair t u = Inr (x, y)"
    and xy: "recording_round x < recording_round y"
    and g: "grows first_token_reserve_accumulated (first_lo b) (first_hi b) x y"
      "grows second_token_reserve_accumulated (second_lo b) (second_hi b) x y"
      "grows lp_supply_accumulated (supply_lo b) (supply_hi b) x y"
    by blast
  note w = weighted_within [OF g(1) xy] weighted_within [OF g(2) xy] weighted_within [OF g(3) xy]
  have pos: "0 < weight_accumulated y - weight_accumulated x"
    using w(1) by (simp add: word_less_nat_alt)
  show ?thesis
    using win w pos by (auto simp: compute_weighted_amounts_def Let_def)
qed

section \<open>Recording keeps the bounds\<close>

lemma history_push:
  assumes h: "history acc lo hi q" and ne: "q \<noteq> []"
    and new: "recording_round (last q) < recording_round x" "grows acc lo hi (last q) x"
  shows "history acc lo hi (queue_push q x)"
proof -
  have le: "grows acc lo hi a (last q) \<and> recording_round a \<le> recording_round (last q)" if "a \<in> set q" for a
  proof -
    from that obtain i where i: "i < length q" "q ! i = a" by (auto simp: in_set_conv_nth)
    have "last q = q ! (length q - 1)" using ne by (simp add: last_conv_nth)
    with h i show ?thesis
      by (cases "i = length q - 1")
        (auto simp: history_def rounds_sorted_def sorted_wrt_iff_nth_less grows_refl less_imp_le)
  qed
  then have "grows acc lo hi a x \<and> recording_round a < recording_round x" if "a \<in> set q" for a
    using that new by (meson grows_trans order_le_less_trans)
  moreover have "set (tl q) \<subseteq> set q" by (cases q) auto
  ultimately show ?thesis
    using h unfolding history_def rounds_sorted_def queue_push_def
    by (cases q) (auto simp: sorted_wrt_append)
qed


text \<open>An update whose reserves respect the bounds keeps the whole history within them.\<close>

lemma update_safe_price_history_within:
  assumes h: "history_within s b" and upd: "update_safe_price env r1 r2 lp s = Inr s'"
    and round: "recording_round (last (observations s)) \<le> get_block_round env"
    and r: "first_lo b \<le> r1" "r1 \<le> first_hi b" "second_lo b \<le> r2" "r2 \<le> second_hi b"
      "supply_lo b \<le> lp" "lp \<le> supply_hi b"
  shows "history_within s' b"
proof -
  let ?q = "observations s" and ?l = "last (observations s)"
  let ?x = "compute_new_observation (get_block_round env) r1 r2 lp ?l"
  have inv: "ring_inv (price_observations s) (safe_price_current_index s)"
    using h by (simp add: history_within_def)
  then have ring: "ring_ok (price_observations s) (safe_price_current_index s)"
    by (simp add: ring_inv_def)
  have ne: "?q \<noteq> []"
    using inv by (metis length_0_conv length_chronological observations_def ring_inv_def)
  have pos: "\<forall>ob \<in> set ?q. 0 < recording_round ob" using inv by (simp add: ring_inv_def observations_def)
  then have posl: "recording_round ?l \<noteq> 0" using last_in_set [OF ne] by fastforce
  from update_safe_price_refines [OF ring, of env r1 r2 lp] upd have
    q': "observations s' = abstract_update (get_block_round env) r1 r2 lp ?q"
    and ring': "ring_ok (price_observations s') (safe_price_current_index s')"
    and frame: "s' = s\<lparr>price_observations := price_observations s',
      safe_price_current_index := safe_price_current_index s'\<rparr>" by auto
  have same: "pair_reserve s' = pair_reserve s" "first_token_id s' = first_token_id s"
    "second_token_id s' = second_token_id s" "lp_token_supply s' = lp_token_supply s"
    by (subst frame, simp)+
  show ?thesis
  proof (cases "r1 = 0 \<or> r2 = 0 \<or> lp = 0 \<or> recording_round ?l = get_block_round env")
    case True
    then have q: "observations s' = ?q" using ne by (simp add: q' abstract_update_def)
    then have "ring_inv (price_observations s') (safe_price_current_index s')"
      using inv ring' ne by (metis chronological_def append_is_Nil_conv drop_Nil length_0_conv
        length_chronological observations_def ring_inv_def set_chronological take_Nil)
    with h same q show ?thesis by (simp add: history_within_def)
  next
    case False
    then have q: "observations s' = queue_push ?q ?x"
      using ne by (simp add: q' abstract_update_def)
    have lt: "recording_round ?l < recording_round ?x"
      using False order_le_neq_trans [OF round] by (simp add: compute_new_observation_def Let_def)
    have g: "grows first_token_reserve_accumulated (first_lo b) (first_hi b) ?l ?x"
      "grows second_token_reserve_accumulated (second_lo b) (second_hi b) ?l ?x"
      "grows lp_supply_accumulated (supply_lo b) (supply_hi b) ?l ?x"
      by (rule compute_new_observation_grows [OF posl round r(1,2)]
            compute_new_observation_grows [OF posl round r(3,4)]
            compute_new_observation_grows [OF posl round r(5,6)],
          simp add: compute_new_observation_def Let_def posl)+
    have hist: "history first_token_reserve_accumulated (first_lo b) (first_hi b) (observations s')"
      "history second_token_reserve_accumulated (second_lo b) (second_hi b) (observations s')"
      "history lp_supply_accumulated (supply_lo b) (supply_hi b) (observations s')"
      using h history_push [OF _ ne lt g(1)] history_push [OF _ ne lt g(2)] history_push [OF _ ne lt g(3)]
      by (simp_all add: q history_within_def)
    have "set (observations s') \<subseteq> insert ?x (set ?q)"
      unfolding q by (auto simp: queue_push_def dest: list.set_sel(2) [OF ne])
    moreover have "0 < recording_round ?x" using lt by (metis le_less_trans word_zero_le)
    ultimately have "\<forall>ob \<in> set (observations s'). 0 < recording_round ob" using pos by auto
    moreover have "price_observations s' \<noteq> []"
      using arg_cong [OF q, of length] by (auto simp: queue_push_def observations_def)
    ultimately have "ring_inv (price_observations s') (safe_price_current_index s')"
      using ring' hist(1) by (simp add: ring_inv_def history_def observations_def)
    with hist h same show ?thesis by (simp add: history_within_def)
  qed
qed

end
