(* ===== verification/PairPool.thy ===== *)
theory PairPool
  imports PairActions
begin

text \<open>
  What the token endpoints of the pair do to the pool: the exact amounts of a swap in both
  directions, and the preorder \<open>pool_le\<close> on caches, which says that the value of a share
  (the product of the reserves over the square of the supply) has not decreased.
\<close>

section \<open>The value of a share\<close>

definition pool_le :: "storage_cache \<Rightarrow> storage_cache \<Rightarrow> bool" where
  "pool_le c c' \<longleftrightarrow>
     (cached_lp_token_supply c = 0 \<or> cached_lp_token_supply c' \<noteq> 0) \<and>
     product c * (cached_lp_token_supply c')\<^sup>2 \<le> product c' * (cached_lp_token_supply c)\<^sup>2"

text \<open>A pool without shares holds nothing; one with shares holds the locked minimum.\<close>

definition pool_ok :: "storage_cache \<Rightarrow> bool" where
  "pool_ok c \<longleftrightarrow>
     (if cached_lp_token_supply c = 0 then first_token_reserve c = 0 \<and> second_token_reserve c = 0
      else MINIMUM_LIQUIDITY \<le> cached_lp_token_supply c \<and>
           0 < first_token_reserve c \<and> 0 < second_token_reserve c)"

lemma pool_le_refl [simp]: "pool_le c c"
  by (cases "cached_lp_token_supply c = 0") (simp_all add: pool_le_def)

lemma square_cancel:
  fixes r s t S T U :: nat
  assumes "r * T\<^sup>2 \<le> s * S\<^sup>2" and "s * U\<^sup>2 \<le> t * T\<^sup>2" and "0 < T"
  shows "r * U\<^sup>2 \<le> t * S\<^sup>2"
proof -
  have "r * U\<^sup>2 * T\<^sup>2 = r * T\<^sup>2 * U\<^sup>2" by simp
  also have "\<dots> \<le> s * S\<^sup>2 * U\<^sup>2" by (rule mult_le_mono1 [OF assms(1)])
  also have "\<dots> = s * U\<^sup>2 * S\<^sup>2" by simp
  also have "\<dots> \<le> t * T\<^sup>2 * S\<^sup>2" by (rule mult_le_mono1 [OF assms(2)])
  also have "\<dots> = t * S\<^sup>2 * T\<^sup>2" by simp
  finally show ?thesis using assms(3) by simp
qed

lemma pool_le_trans:
  assumes "pool_ok a" and "pool_le a b" and "pool_le b c"
  shows "pool_le a c"
proof (cases "cached_lp_token_supply a = 0")
  case True
  with assms(1) show ?thesis
    by (simp add: pool_le_def pool_ok_def product_def calculate_k_constant_def)
next
  case False
  with assms(2) have "0 < cached_lp_token_supply b" by (simp add: pool_le_def)
  with assms(2,3) False show ?thesis
    by (auto simp: pool_le_def intro: square_cancel)
qed

lemma fee_step_pool:
  "fee_step c c' \<Longrightarrow> pool_le c c'"
  by (auto simp: fee_step_def pool_le_def)

lemma fee_step_pool_ok:
  assumes "fee_step c c'" and "pool_ok c" and "cached_lp_token_supply c \<noteq> 0"
  shows "pool_ok c'"
proof -
  have "0 < product c" using assms(2,3)
    by (simp add: pool_ok_def product_def calculate_k_constant_def)
  then have "0 < product c'" using assms(1) by (simp add: fee_step_def)
  then show ?thesis using assms
    by (simp add: pool_ok_def fee_step_def product_def calculate_k_constant_def)
qed

text \<open>When both reserves per share are kept, so is the value of a share.\<close>

lemma share_le_pool_le:
  assumes "share_le (first_token_reserve c) (cached_lp_token_supply c)
             (first_token_reserve c') (cached_lp_token_supply c')"
    and "share_le (second_token_reserve c) (cached_lp_token_supply c)
             (second_token_reserve c') (cached_lp_token_supply c')"
    and "cached_lp_token_supply c = 0 \<or> cached_lp_token_supply c' \<noteq> 0"
  shows "pool_le c c'"
proof -
  let ?S = "cached_lp_token_supply c" and ?S' = "cached_lp_token_supply c'"
  have "(first_token_reserve c * ?S') * (second_token_reserve c * ?S')
      \<le> (first_token_reserve c' * ?S) * (second_token_reserve c' * ?S)"
    using assms(1,2) unfolding share_le_def by (rule mult_le_mono)
  then show ?thesis
    using assms(3)
    by (simp add: pool_le_def product_def calculate_k_constant_def power2_eq_square ac_simps)
qed

section \<open>Adding and removing liquidity\<close>

lemma pool_add_liquidity_pool:
  assumes "pool_add_liquidity a1 a2 c = Inr (liq, c')" and "pool_ok c"
    and "cached_lp_token_supply c \<noteq> 0"
  shows "pool_le c c'" and "pool_ok c'" and "same_pool c c'" and "product c \<le> product c'"
proof -
  note add = pool_add_liquidity_Inr [OF assms(1)]
  show "pool_le c c'"
    using add(1,2) by (intro share_le_pool_le pool_add_liquidity_share [OF assms(1)]) simp
  show "pool_ok c'" and "same_pool c c'"
    using assms(2,3) add(1) by (simp_all add: pool_ok_def same_pool_def)
  show "product c \<le> product c'"
    by (simp add: add(1) product_def calculate_k_constant_def mult_le_mono)
qed

lemma pool_add_initial_liquidity_pool:
  assumes "pool_add_initial_liquidity a1 a2 c = Inr (liq, c', es)" and "pool_ok c"
    and "cached_lp_token_supply c = 0"
  shows "pool_le c c'" and "pool_ok c'" and "same_pool c c'" and "product c \<le> product c'"
proof -
  note add = pool_add_initial_liquidity_Inr [OF assms(1)]
  have r: "first_token_reserve c = 0" "second_token_reserve c = 0"
    using assms(2,3) by (simp_all add: pool_ok_def)
  have "0 < a1" "0 < a2" using add(2,3) by auto
  then show "pool_le c c'" "pool_ok c'" "same_pool c c'" "product c \<le> product c'"
    using r assms(3) add(1)
    by (simp_all add: pool_le_def pool_ok_def same_pool_def product_def calculate_k_constant_def
        MINIMUM_LIQUIDITY_def)
qed

lemma pool_remove_liquidity_pool:
  assumes "pool_remove_liquidity ctx c = Inr (ctx', c')"
  shows "pool_le c c'" and "pool_ok c \<Longrightarrow> pool_ok c'" and "same_pool c c'"
    and "product c' \<le> product c" and "cached_lp_token_supply c' \<noteq> 0"
    and "cached_lp_token_supply c \<noteq> 0"
proof -
  from assms show lp: "cached_lp_token_supply c' \<noteq> 0" "cached_lp_token_supply c \<noteq> 0"
    by (auto elim!: pool_remove_liquidity_Inr simp: MINIMUM_LIQUIDITY_def)
  show "pool_le c c'"
    using lp by (intro share_le_pool_le pool_remove_liquidity_share [OF assms]) simp
  from assms show "pool_ok c \<Longrightarrow> pool_ok c'"
    by (auto elim!: pool_remove_liquidity_Inr simp: pool_ok_def MINIMUM_LIQUIDITY_def)
  from assms show "same_pool c c'"
    by (auto elim!: pool_remove_liquidity_Inr simp: same_pool_def)
  from assms show "product c' \<le> product c"
    by (auto elim!: pool_remove_liquidity_Inr
        simp: product_def calculate_k_constant_def intro!: mult_le_mono)
qed

section \<open>Swaps\<close>

text \<open>The fee parameters that \<open>set_fee_percents\<close> accepts.\<close>

definition fees_ok :: "pair_storage \<Rightarrow> bool" where
  "fees_ok s \<longleftrightarrow>
     special_fee_percent s \<le> total_fee_percent s \<and> total_fee_percent s \<le> MAX_FEE_PERCENTAGE"

lemma fees_ok_max:
  assumes "fees_ok s"
  shows "total_fee_percent s \<le> MAX_PERCENTAGE" and "special_fee_percent s \<le> MAX_PERCENTAGE"
proof -
  have "MAX_FEE_PERCENTAGE \<le> MAX_PERCENTAGE"
    by (simp add: MAX_FEE_PERCENTAGE_def MAX_PERCENTAGE_def)
  with assms show "total_fee_percent s \<le> MAX_PERCENTAGE" and "special_fee_percent s \<le> MAX_PERCENTAGE"
    by (auto simp: fees_ok_def)
qed

lemma fees_ok_factor:
  assumes "fees_ok s"
  shows "unat (MAX_PERCENTAGE - total_fee_percent s) = 100000 - unat (total_fee_percent s)"
    and "0 < unat (MAX_PERCENTAGE - total_fee_percent s)"
proof -
  show 1: "unat (MAX_PERCENTAGE - total_fee_percent s) = 100000 - unat (total_fee_percent s)"
    using fees_ok_max(1) [OF assms] by (simp add: unat_sub)
  have "unat (total_fee_percent s) \<le> 5000"
    using assms by (simp add: fees_ok_def word_le_nat_alt)
  with 1 show "0 < unat (MAX_PERCENTAGE - total_fee_percent s)" by simp
qed

text \<open>The special fee taken from \<open>a\<close>, when fees are enabled.\<close>

definition swap_fee :: "pair_storage \<Rightarrow> biguint \<Rightarrow> biguint" where
  "swap_fee s a = (if is_fee_enabled s then get_special_fee_from_input s a else 0)"

lemma swap_fee_le: "fees_ok s \<Longrightarrow> swap_fee s a \<le> a"
  using fees_ok_max(2) by (simp add: swap_fee_def get_special_fee_le)

lemma swap_fee_keeps:
  assumes "fees_ok s"
  shows "a * unat (MAX_PERCENTAGE - total_fee_percent s)
       \<le> (a - swap_fee s a) * unat MAX_PERCENTAGE"
proof (cases "is_fee_enabled s")
  case True
  with assms fees_ok_max(1) show ?thesis
    using after_special_fee_keeps [of s a] by (simp add: swap_fee_def fees_ok_def)
next
  case False
  with fees_ok_factor(1) [OF assms] show ?thesis by (simp add: swap_fee_def)
qed

lemma perform_swap_fixed_input_Inr:
  assumes "perform_swap_fixed_input s ctx c = Inr (ctx', c')" and "fee_amount ctx = 0"
  defines "rin \<equiv> get_reserve_in c (swap_order ctx)"
    and "rout \<equiv> get_reserve_out c (swap_order ctx)" and "a \<equiv> input_token_amount ctx"
  defines "out \<equiv> curve_with_fee (total_fee_percent s) a rin rout"
  shows "ctx' = ctx\<lparr>final_input_amount := a, final_output_amount := out,
                    fee_amount := swap_fee s a\<rparr>"
    and "c' = set_reserve_out (swap_order ctx) (rout - out)
               (set_reserve_in (swap_order ctx) (rin + (a - swap_fee s a)) c)"
    and "output_token_amount ctx \<le> out" "0 < out" "out < rout"
  using assms
  by (auto simp: perform_swap_fixed_input_def Let_def res_simps swap_fee_def split: if_splits)

lemma perform_swap_fixed_output_Inr:
  assumes "perform_swap_fixed_output s ctx c = Inr (ctx', c')" and "fee_amount ctx = 0"
  defines "rin \<equiv> get_reserve_in c (swap_order ctx)"
    and "rout \<equiv> get_reserve_out c (swap_order ctx)" and "out \<equiv> output_token_amount ctx"
    and "f \<equiv> unat (MAX_PERCENTAGE - total_fee_percent s)"
  obtains a where
    "a = rin * out * 100000 div ((rout - out) * f) + 1"
    "ctx' = ctx\<lparr>final_input_amount := a, final_output_amount := out,
                fee_amount := swap_fee s a\<rparr>"
    "c' = set_reserve_out (swap_order ctx) (rout - out)
            (set_reserve_in (swap_order ctx) (rin + (a - swap_fee s a)) c)"
    "a \<le> input_token_amount ctx" "out < rout" "0 < f"
proof -
  obtain a where "get_amount_in s out rin rout = Inr a" "a \<le> input_token_amount ctx"
    "ctx' = ctx\<lparr>final_input_amount := a, final_output_amount := out,
                fee_amount := swap_fee s a\<rparr>"
    "c' = set_reserve_out (swap_order ctx) (rout - out)
            (set_reserve_in (swap_order ctx) (rin + (a - swap_fee s a)) c)"
    using assms
    by (auto simp: perform_swap_fixed_output_def Let_def res_simps swap_fee_def split: if_splits)
  moreover from this(1) have "a = rin * out * 100000 div ((rout - out) * f) + 1" "out < rout" "0 < f"
    by (auto simp: get_amount_in_def Let_def res_simps f_def)
  ultimately show thesis using that by blast
qed

text \<open>
  The product of the reserves after a swap is at least the one before, although the special
  fee has been taken out of the input.
\<close>

lemma swap_product:
  assumes "rin * rout \<le> (rin + b) * (rout - out)"
    and "rin = get_reserve_in c ord" "rout = get_reserve_out c ord"
  shows "product c
    \<le> product (set_reserve_out ord (rout - out) (set_reserve_in ord (rin + b) c))"
  using assms
  by (simp only: product_def calculate_k_constant_def reserves_by_order [of _ ord] get_set_reserve)

lemma perform_swap_fixed_input_product:
  assumes "perform_swap_fixed_input s ctx c = Inr (ctx', c')" and "fee_amount ctx = 0"
    and "fees_ok s"
  shows "product c \<le> product c'" and "same_pool c c'"
    and "cached_lp_token_supply c' = cached_lp_token_supply c"
proof -
  note swap = perform_swap_fixed_input_Inr [OF assms(1,2)]
  show "product c \<le> product c'"
    unfolding swap(2)
    by (intro swap_product with_fee.product_kept less_imp_le swap_fee_keeps swap(5) assms(3) refl)
  show "same_pool c c'" "cached_lp_token_supply c' = cached_lp_token_supply c"
    by (simp_all add: swap(2) same_pool_def)
qed

lemma amount_in_product:
  fixes rin rout out f a b :: nat
  assumes a: "a = rin * out * M div ((rout - out) * f) + 1" and out: "out < rout" and f: "0 < f"
    and keeps: "a * f \<le> b * M" and M: "0 < M"
  shows "rin * rout \<le> (rin + b) * (rout - out)"
proof -
  have "rin * out * M < a * ((rout - out) * f)"
    using out f by (simp add: a dividend_less_div_times)
  also have "\<dots> = a * f * (rout - out)" by simp
  also have "\<dots> \<le> b * M * (rout - out)" by (rule mult_le_mono1 [OF keeps])
  finally have "M * (rin * out) < M * (b * (rout - out))" by (simp add: ac_simps)
  then have "rin * out < b * (rout - out)" using M by simp
  moreover have "rin * rout = rin * (rout - out) + rin * out"
    using out by (simp add: distrib_left [symmetric])
  ultimately show ?thesis by (simp add: distrib_right)
qed

lemma perform_swap_fixed_output_product:
  assumes "perform_swap_fixed_output s ctx c = Inr (ctx', c')" and "fee_amount ctx = 0"
    and "fees_ok s"
  shows "product c \<le> product c'" and "same_pool c c'"
    and "cached_lp_token_supply c' = cached_lp_token_supply c"
proof -
  let ?ord = "swap_order ctx"
  from assms(1,2) obtain a where
    a: "a = get_reserve_in c ?ord * output_token_amount ctx * 100000
          div ((get_reserve_out c ?ord - output_token_amount ctx)
               * unat (MAX_PERCENTAGE - total_fee_percent s)) + 1"
    and c': "c' = set_reserve_out ?ord (get_reserve_out c ?ord - output_token_amount ctx)
            (set_reserve_in ?ord (get_reserve_in c ?ord + (a - swap_fee s a)) c)"
    and out: "output_token_amount ctx < get_reserve_out c ?ord"
    and f: "0 < unat (MAX_PERCENTAGE - total_fee_percent s)"
    by (rule perform_swap_fixed_output_Inr)
  have "get_reserve_in c ?ord * get_reserve_out c ?ord
      \<le> (get_reserve_in c ?ord + (a - swap_fee s a))
        * (get_reserve_out c ?ord - output_token_amount ctx)"
    using swap_fee_keeps [OF assms(3), of a] by (intro amount_in_product [OF a out f]) simp_all
  then show "product c \<le> product c'"
    unfolding c' by (rule swap_product) (rule refl)+
  show "same_pool c c'" "cached_lp_token_supply c' = cached_lp_token_supply c"
    by (simp_all add: c' same_pool_def)
qed

end
