(* ===== verification/PairInvariant.thy ===== *)
theory PairInvariant
  imports PairPool
begin

text \<open>
  The invariant of the pair's storage, and for each endpoint that moves tokens: it keeps the
  invariant, it does not lower the value of a share (\<open>pool_step\<close>), and for both pool tokens
  what leaves is covered by what came in and the change of the reserve (\<open>covered\<close>).
\<close>

section \<open>Invariant and step relation\<close>

definition observations_ok :: "pair_storage \<Rightarrow> bool" where
  "observations_ok s \<longleftrightarrow> ring_ok (price_observations s) (safe_price_current_index s)"

definition pair_inv :: "pair_storage \<Rightarrow> bool" where
  "pair_inv s \<longleftrightarrow>
     first_token_id s \<noteq> second_token_id s \<and>
     lp_token_identifier s \<noteq> first_token_id s \<and> lp_token_identifier s \<noteq> second_token_id s \<and>
     fees_ok s \<and> pool_ok (storage_cache_new s) \<and> observations_ok s"

definition pool_step :: "pair_storage \<Rightarrow> pair_storage \<Rightarrow> bool" where
  "pool_step s s' \<longleftrightarrow>
     first_token_id s' = first_token_id s \<and> second_token_id s' = second_token_id s \<and>
     lp_token_identifier s' = lp_token_identifier s \<and>
     total_fee_percent s' = total_fee_percent s \<and>
     special_fee_percent s' = special_fee_percent s \<and>
     pair_permissions s' = pair_permissions s \<and> (observations_ok s \<longrightarrow> observations_ok s') \<and>
     pool_le (storage_cache_new s) (storage_cache_new s') \<and> pool_ok (storage_cache_new s')"

lemma pool_step_inv: "pair_inv s \<Longrightarrow> pool_step s s' \<Longrightarrow> pair_inv s'"
  by (simp add: pair_inv_def pool_step_def fees_ok_def)

definition pool_token :: "pair_storage \<Rightarrow> token_id \<Rightarrow> bool" where
  "pool_token s t \<longleftrightarrow> t = first_token_id s \<or> t = second_token_id s"

definition covered ::
  "pair_storage \<Rightarrow> esdt_payment list \<Rightarrow> pair_storage \<Rightarrow> effect list \<Rightarrow> bool" where
  "covered s ps s' es \<longleftrightarrow>
     (\<forall>t. pool_token s t \<longrightarrow>
        pair_reserve s' t + outflow t es \<le> pair_reserve s t + paid_in t ps + inflow t es)"

text \<open>What an endpoint changes outside of the cache: the observations and the state.\<close>

definition framed :: "pair_storage \<Rightarrow> pair_storage \<Rightarrow> bool" where
  "framed s s1 \<longleftrightarrow>
     s1 = s\<lparr>price_observations := price_observations s1,
            safe_price_current_index := safe_price_current_index s1,
            pair_state := pair_state s1\<rparr> \<and>
     (observations_ok s \<longrightarrow> observations_ok s1)"

lemma update_safe_price_framed:
  "update_safe_price env r1 r2 lp s = Inr s1 \<Longrightarrow>
   s1 = s\<lparr>price_observations := price_observations s1,
          safe_price_current_index := safe_price_current_index s1\<rparr>"
  by (auto simp: update_safe_price_def Let_def res_simps split: if_splits)

lemma update_safe_price_framed': "update_safe_price env r1 r2 lp s = Inr s1 \<Longrightarrow> framed s s1"
proof -
  assume upd: "update_safe_price env r1 r2 lp s = Inr s1"
  have "observations_ok s \<longrightarrow> observations_ok s1"
    using upd update_safe_price_refines [of s env r1 r2 lp] by (auto simp: observations_ok_def)
  moreover have "s1 = s\<lparr>price_observations := price_observations s1,
      safe_price_current_index := safe_price_current_index s1, pair_state := pair_state s1\<rparr>"
    using update_safe_price_framed [OF upd] by (cases s; cases s1) simp
  ultimately show ?thesis by (simp add: framed_def)
qed

lemma framed_sel:
  assumes "framed s s1"
  shows "first_token_id s1 = first_token_id s" "second_token_id s1 = second_token_id s"
    "lp_token_identifier s1 = lp_token_identifier s"
    "total_fee_percent s1 = total_fee_percent s" "special_fee_percent s1 = special_fee_percent s"
    "pair_permissions s1 = pair_permissions s"
    "pair_reserve s1 = pair_reserve s" "lp_token_supply s1 = lp_token_supply s"
    "destination_map s1 = destination_map s" "pair_whitelist s1 = pair_whitelist s"
  using assms by (cases s; cases s1; simp add: framed_def)+

lemma framed_fees_ok: "framed s s1 \<Longrightarrow> fees_ok s1 \<longleftrightarrow> fees_ok s"
  by (simp add: fees_ok_def framed_sel)

lemma pool_values_drop:
  assumes "same_pool (storage_cache_new s) c" and "framed s s1"
    and "first_token_id s \<noteq> second_token_id s"
  shows "first_token_reserve (storage_cache_new (drop_cache c s1)) = first_token_reserve c"
    and "second_token_reserve (storage_cache_new (drop_cache c s1)) = second_token_reserve c"
    and "cached_lp_token_supply (storage_cache_new (drop_cache c s1)) = cached_lp_token_supply c"
  using assms by (simp_all add: same_pool_def framed_sel drop_cache_def)

lemma pool_step_drop:
  assumes "pair_inv s" and "framed s s1" and "same_pool (storage_cache_new s) c"
    and "pool_le (storage_cache_new s) c" and "pool_ok c"
  shows "pool_step s (drop_cache c s1)"
proof -
  have d: "first_token_id s \<noteq> second_token_id s" using assms(1) by (simp add: pair_inv_def)
  note v = pool_values_drop [OF assms(3,2) d]
  show ?thesis
    using assms framed_sel [OF assms(2)] v
    by (simp add: pool_step_def pool_le_def pool_ok_def product_def observations_ok_def framed_def)
qed

lemma reserve_drop:
  assumes "pair_inv s" and "framed s s1" and "same_pool (storage_cache_new s) c" and "pool_token s t"
  shows "pair_reserve (drop_cache c s1) t = cache_reserve c t"
  using assms by (auto simp: pair_inv_def same_pool_def pool_token_def cache_reserve_def drop_cache_def)

lemma cache_reserve_new:
  "pool_token s t \<Longrightarrow> cache_reserve (storage_cache_new s) t = pair_reserve s t"
  by (auto simp: pool_token_def cache_reserve_def)

lemma covered_drop:
  assumes "pair_inv s" and "framed s s1" and "same_pool (storage_cache_new s) c"
    and "\<And>t. pool_token s t \<Longrightarrow>
      cache_reserve c t + outflow t es
        \<le> cache_reserve (storage_cache_new s) t + paid_in t ps + inflow t es"
  shows "covered s ps (drop_cache c s1) es"
  unfolding covered_def using assms(4) reserve_drop [OF assms(1-3)] by (simp add: cache_reserve_new)

lemma pair_inv_distinct:
  assumes "pair_inv s" and "same_pool (storage_cache_new s) c"
  shows "cached_first_token_id c \<noteq> cached_second_token_id c"
    and "lp_token_id c \<noteq> cached_first_token_id c" "lp_token_id c \<noteq> cached_second_token_id c"
  using assms by (auto simp: pair_inv_def same_pool_def)

section \<open>Adding liquidity\<close>

lemma send_payment_flow [simp]:
  "outflow t (send_payment_non_zero d p) = (if token_identifier p = t then amount p else 0)"
  "inflow t (send_payment_non_zero d p) = 0"
  by (simp_all add: send_payment_non_zero_def)

lemma add_initial_liquidity_step:
  assumes inv: "pair_inv s" and ok: "add_initial_liquidity env ps s = Inr (res, s', es)"
  shows "pool_step s s'" and "covered s ps s' es"
proof -
  let ?c = "storage_cache_new s"
  obtain p1 p2 liq c es1 where ps: "ps = [p1, p2]"
    and tok: "token_identifier p1 = first_token_id s" "token_identifier p2 = second_token_id s"
    and zero: "lp_token_supply s = 0"
    and pool: "pool_add_initial_liquidity (amount p1) (amount p2) ?c = Inr (liq, c, es1)"
    and s': "s' = drop_cache c (s\<lparr>pair_state := PartialActive\<rparr>)"
    and es: "es = es1 @ [EsdtLocalMint (lp_token_id c) liq] @
                  send_payment_non_zero (get_caller env) (new_payment (lp_token_id c) 0 liq)"
    using ok by (auto simp: add_initial_liquidity_def Let_def res_simps)
  have pok: "pool_ok ?c" using inv by (simp add: pair_inv_def)
  have z: "cached_lp_token_supply ?c = 0" using zero by simp
  note p = pool_add_initial_liquidity_pool [OF pool pok z]
  have fr: "framed s (s\<lparr>pair_state := PartialActive\<rparr>)" by (simp add: framed_def observations_ok_def)
  show "pool_step s s'" unfolding s' by (rule pool_step_drop [OF inv fr p(3,1,2)])
  note add = pool_add_initial_liquidity_Inr [OF pool]
  show "covered s ps s' es"
    unfolding s' using pair_inv_distinct [OF inv p(3)] tok
    by (intro covered_drop [OF inv fr p(3)]) (auto simp: ps es add(1,4) cache_reserve_def)
qed

lemma add_liquidity_Inr:
  assumes "add_liquidity env ps min1 min2 s = Inr (res, s', es)"
  obtains p1 p2 s1 ctx liq c es1 where
    "ps = [p1, p2]" "token_identifier p1 = first_token_id s" "token_identifier p2 = second_token_id s"
    "is_state_active (pair_state s)"
    "initial_liquidity_adder s = None \<or> lp_token_supply s \<noteq> 0"
    "update_safe_price env (pair_reserve s (first_token_id s)) (pair_reserve s (second_token_id s))
       (lp_token_supply s) s = Inr s1"
    "set_optimal_amounts (add_liquidity_context_new p1 p2 min1 min2) (storage_cache_new s) = Inr ctx"
    "if lp_token_supply s = 0
     then pool_add_initial_liquidity (first_token_optimal_amount ctx)
            (second_token_optimal_amount ctx) (storage_cache_new s) = Inr (liq, c, es1)
     else pool_add_liquidity (first_token_optimal_amount ctx)
            (second_token_optimal_amount ctx) (storage_cache_new s) = Inr (liq, c) \<and> es1 = []"
    "s' = drop_cache c s1"
    "res = (new_payment (lp_token_id c) 0 liq,
            new_payment (cached_first_token_id c) 0 (first_token_optimal_amount ctx),
            new_payment (cached_second_token_id c) 0 (second_token_optimal_amount ctx))"
    "es = es1 @ EsdtLocalMint (lp_token_id c) liq #
       send_multiple_tokens_if_not_zero (get_caller env)
         [new_payment (cached_first_token_id c) 0 (amount p1 - first_token_optimal_amount ctx),
          new_payment (cached_second_token_id c) 0 (amount p2 - second_token_optimal_amount ctx),
          new_payment (lp_token_id c) 0 liq]"
proof -
  obtain p1 p2 where ps: "ps = [p1, p2]"
    using assms by (auto simp: add_liquidity_def Let_def res_simps)
  obtain s1 where s1: "update_safe_price env (pair_reserve s (first_token_id s))
       (pair_reserve s (second_token_id s)) (lp_token_supply s) s = Inr s1"
    using assms by (auto simp: add_liquidity_def Let_def res_simps)
  obtain ctx where ctx: "set_optimal_amounts (add_liquidity_context_new p1 p2 min1 min2)
      (storage_cache_new s) = Inr ctx"
    using assms by (auto simp: add_liquidity_def Let_def res_simps ps)
  have pay: "first_payment ctx = p1" "second_payment ctx = p2"
    using set_optimal_amounts_bounds(3) [OF ctx]
    by (metis add_liquidity_context.select_convs(1,2) add_liquidity_context.simps
        add_liquidity_context_new_def)+
  show thesis
  proof (cases "lp_token_supply s = 0")
    case True
    with assms s1 show thesis
      by (auto simp: add_liquidity_def Let_def res_simps ps ctx pay multi_esdt2_def
          build_add_liq_output_payments_def build_add_liq_results_def
          intro!: that [OF ps _ _ _ _ s1 ctx])
  next
    case False
    with assms show thesis
      by (auto simp: add_liquidity_def Let_def res_simps ps s1 ctx pay multi_esdt2_def
          build_add_liq_output_payments_def build_add_liq_results_def
          intro!: that [OF ps _ _ _ _ s1 ctx])
  qed
qed

lemma add_liquidity_step:
  assumes inv: "pair_inv s" and ok: "add_liquidity env ps min1 min2 s = Inr (res, s', es)"
  shows "pool_step s s'" and "covered s ps s' es"
proof -
  let ?c = "storage_cache_new s"
  have pok: "pool_ok ?c" using inv by (simp add: pair_inv_def)
  from ok obtain p1 p2 s1 ctx liq c es1 where
    ps: "ps = [p1, p2]"
    and tok: "token_identifier p1 = first_token_id s" "token_identifier p2 = second_token_id s"
    and s1: "update_safe_price env (pair_reserve s (first_token_id s))
       (pair_reserve s (second_token_id s)) (lp_token_supply s) s = Inr s1"
    and ctx: "set_optimal_amounts (add_liquidity_context_new p1 p2 min1 min2) ?c = Inr ctx"
    and pool: "if lp_token_supply s = 0
       then pool_add_initial_liquidity (first_token_optimal_amount ctx)
              (second_token_optimal_amount ctx) ?c = Inr (liq, c, es1)
       else pool_add_liquidity (first_token_optimal_amount ctx)
              (second_token_optimal_amount ctx) ?c = Inr (liq, c) \<and> es1 = []"
    and s': "s' = drop_cache c s1"
    and es: "es = es1 @ EsdtLocalMint (lp_token_id c) liq #
       send_multiple_tokens_if_not_zero (get_caller env)
         [new_payment (cached_first_token_id c) 0 (amount p1 - first_token_optimal_amount ctx),
          new_payment (cached_second_token_id c) 0 (amount p2 - second_token_optimal_amount ctx),
          new_payment (lp_token_id c) 0 liq]"
    by (rule add_liquidity_Inr)
  note fr = update_safe_price_framed' [OF s1]
  have le: "first_token_optimal_amount ctx \<le> amount p1" "second_token_optimal_amount ctx \<le> amount p2"
    using set_optimal_amounts_bounds(1,2) [OF ctx] by (simp_all add: add_liquidity_context_new_def)
  have c: "pool_le ?c c \<and> pool_ok c \<and> same_pool ?c c \<and>
      first_token_reserve c = first_token_reserve ?c + first_token_optimal_amount ctx \<and>
      second_token_reserve c = second_token_reserve ?c + second_token_optimal_amount ctx \<and>
      (es1 = [] \<or> es1 = [EsdtLocalMint (lp_token_id ?c) MINIMUM_LIQUIDITY])"
  proof (cases "lp_token_supply s = 0")
    case True
    with pool have p: "pool_add_initial_liquidity (first_token_optimal_amount ctx)
        (second_token_optimal_amount ctx) ?c = Inr (liq, c, es1)" by simp
    from True pool_add_initial_liquidity_pool(1-3) [OF p pok] pool_add_initial_liquidity_Inr(1,4) [OF p]
    show ?thesis by simp
  next
    case False
    with pool have p: "pool_add_liquidity (first_token_optimal_amount ctx)
        (second_token_optimal_amount ctx) ?c = Inr (liq, c)" "es1 = []" by simp_all
    from False p(2) pool_add_liquidity_pool(1-3) [OF p(1) pok] pool_add_liquidity_Inr(1) [OF p(1)]
    show ?thesis by simp
  qed
  then have sp: "same_pool ?c c" by simp
  show "pool_step s s'" unfolding s' using c by (intro pool_step_drop [OF inv fr sp]) simp_all
  have ids: "lp_token_id c = lp_token_id ?c" "cached_first_token_id c = first_token_id s"
    "cached_second_token_id c = second_token_id s"
    using sp by (simp_all add: same_pool_def)
  show "covered s ps s' es"
    unfolding s' using pair_inv_distinct [OF inv sp] tok c le
    by (intro covered_drop [OF inv fr sp]) (auto simp: ps es ids cache_reserve_def pool_token_def)
qed

section \<open>Removing liquidity\<close>

lemma remove_liquidity_Inr:
  assumes "remove_liquidity env ps min1 min2 s = Inr (res, s', es)"
  obtains p s1 ctx c where
    "ps = [p]" "token_identifier p = lp_token_identifier s" "is_state_active (pair_state s)"
    "update_safe_price env (pair_reserve s (first_token_id s)) (pair_reserve s (second_token_id s))
       (lp_token_supply s) s = Inr s1"
    "pool_remove_liquidity (remove_liquidity_context_new (amount p) min1 min2)
       (storage_cache_new s) = Inr (ctx, c)"
    "s' = drop_cache c s1"
    "res = (new_payment (cached_first_token_id c) 0 (first_token_amount_removed ctx),
            new_payment (cached_second_token_id c) 0 (second_token_amount_removed ctx))"
    "es = burn (lp_token_id c) (lp_token_payment_amount ctx) @
       send_multiple_tokens_if_not_zero (get_caller env)
         [new_payment (cached_first_token_id c) 0 (first_token_amount_removed ctx),
          new_payment (cached_second_token_id c) 0 (second_token_amount_removed ctx)]"
  using assms
  by (auto simp: remove_liquidity_def Let_def res_simps build_remove_liq_output_payments_def
      first_two_def)

lemma pool_remove_liquidity_amounts:
  assumes "pool_remove_liquidity ctx c = Inr (ctx', c')"
  shows "first_token_reserve c' + first_token_amount_removed ctx' = first_token_reserve c"
    and "second_token_reserve c' + second_token_amount_removed ctx' = second_token_reserve c"
    and "cached_lp_token_supply c' + lp_token_payment_amount ctx = cached_lp_token_supply c"
    and "lp_token_payment_amount ctx' = lp_token_payment_amount ctx"
  using assms by (auto elim!: pool_remove_liquidity_Inr)

lemma remove_liquidity_step:
  assumes inv: "pair_inv s" and ok: "remove_liquidity env ps min1 min2 s = Inr (res, s', es)"
  shows "pool_step s s'" and "covered s ps s' es"
proof -
  let ?c = "storage_cache_new s"
  from ok obtain p s1 ctx c where ps: "ps = [p]"
    and s1: "update_safe_price env (pair_reserve s (first_token_id s))
       (pair_reserve s (second_token_id s)) (lp_token_supply s) s = Inr s1"
    and pool: "pool_remove_liquidity (remove_liquidity_context_new (amount p) min1 min2) ?c
       = Inr (ctx, c)"
    and s': "s' = drop_cache c s1"
    and es: "es = burn (lp_token_id c) (lp_token_payment_amount ctx) @
       send_multiple_tokens_if_not_zero (get_caller env)
         [new_payment (cached_first_token_id c) 0 (first_token_amount_removed ctx),
          new_payment (cached_second_token_id c) 0 (second_token_amount_removed ctx)]"
    by (rule remove_liquidity_Inr)
  note fr = update_safe_price_framed' [OF s1] and pl = pool_remove_liquidity_pool [OF pool]
  have pok: "pool_ok c" using inv pl(2) by (simp add: pair_inv_def)
  show "pool_step s s'" unfolding s' by (rule pool_step_drop [OF inv fr pl(3,1) pok])
  show "covered s ps s' es"
    unfolding s'
    using pair_inv_distinct [OF inv pl(3)] pool_remove_liquidity_amounts(1,2) [OF pool] pl(3)
    by (intro covered_drop [OF inv fr pl(3)])
      (auto simp: ps es cache_reserve_def pool_token_def same_pool_def)
qed

lemma remove_liquidity_and_burn_Inr:
  assumes "remove_liquidity_and_burn_token env ps t s = Inr (s', es)"
  obtains p s1 ctx c1 c2 c3 es1 es2 where
    "ps = [p]" "token_identifier p = lp_token_identifier s"
    "get_caller env \<in> set (pair_whitelist s)"
    "update_safe_price env (pair_reserve s (first_token_id s)) (pair_reserve s (second_token_id s))
       (lp_token_supply s) s = Inr s1"
    "pool_remove_liquidity (remove_liquidity_context_new (amount p) 1 1)
       (storage_cache_new s) = Inr (ctx, c1)"
    "send_fee_slice env s1 c1 PoolOrder (cached_first_token_id c1)
       (first_token_amount_removed ctx) 0 t = Inr (c2, es1)"
    "send_fee_slice env s1 c2 ReverseOrder (cached_second_token_id c2)
       (second_token_amount_removed ctx) 0 t = Inr (c3, es2)"
    "s' = drop_cache c3 s1"
    "es = burn (lp_token_id c1) (lp_token_payment_amount ctx) @ es1 @ es2"
  using assms
  by (auto simp: remove_liquidity_and_burn_token_def Let_def res_simps)

lemma remove_liquidity_and_burn_step:
  assumes inv: "pair_inv s" and ok: "remove_liquidity_and_burn_token env ps t s = Inr (s', es)"
  shows "pool_step s s'" and "covered s ps s' es"
proof -
  let ?c = "storage_cache_new s"
  from ok obtain p s1 ctx c1 c2 c3 es1 es2 where ps: "ps = [p]"
    and s1: "update_safe_price env (pair_reserve s (first_token_id s))
       (pair_reserve s (second_token_id s)) (lp_token_supply s) s = Inr s1"
    and pool: "pool_remove_liquidity (remove_liquidity_context_new (amount p) 1 1) ?c = Inr (ctx, c1)"
    and f1: "send_fee_slice env s1 c1 PoolOrder (cached_first_token_id c1)
       (first_token_amount_removed ctx) 0 t = Inr (c2, es1)"
    and f2: "send_fee_slice env s1 c2 ReverseOrder (cached_second_token_id c2)
       (second_token_amount_removed ctx) 0 t = Inr (c3, es2)"
    and s': "s' = drop_cache c3 s1"
    and es: "es = burn (lp_token_id c1) (lp_token_payment_amount ctx) @ es1 @ es2"
    by (rule remove_liquidity_and_burn_Inr)
  note fr = update_safe_price_framed' [OF s1] and pl = pool_remove_liquidity_pool [OF pool]
  have ok0: "pool_ok ?c" and ok1: "pool_ok c1" using inv pl(2) by (simp_all add: pair_inv_def)
  have step: "fee_step c1 c3"
    using send_fee_slice_step [OF f1] send_fee_slice_step [OF f2] by (rule fee_step_trans)
  then have ok3: "pool_ok c3" and sp: "same_pool ?c c3" and le: "pool_le ?c c3"
    using ok1 pl(3,5) pool_le_trans [OF ok0 pl(1) fee_step_pool [OF step]]
    by (auto simp: fee_step_def intro: fee_step_pool_ok [OF step] same_pool_trans)
  show "pool_step s s'" unfolding s' by (rule pool_step_drop [OF inv fr sp le ok3])
  have sp2: "same_pool ?c c2"
    using pl(3) send_fee_slice_step [OF f1] by (auto simp: fee_step_def intro: same_pool_trans)
  have b1: "balanced (cached_first_token_id c1) (first_token_amount_removed ctx) c1 c2 es1"
    by (rule send_fee_slice_balanced [OF f1 pair_inv_distinct(1) [OF inv pl(3)]]) simp
  have b2: "balanced (cached_second_token_id c2) (second_token_amount_removed ctx) c2 c3 es2"
    by (rule send_fee_slice_balanced [OF f2 pair_inv_distinct(1) [OF inv sp2]]) simp
  have ids: "cached_first_token_id c1 = first_token_id s" "cached_second_token_id c1 = second_token_id s"
    "cached_second_token_id c2 = second_token_id s" "lp_token_id c1 = lp_token_identifier s"
    using pl(3) sp2 by (simp_all add: same_pool_def)
  have distinct: "first_token_id s \<noteq> second_token_id s" "lp_token_identifier s \<noteq> first_token_id s"
    "lp_token_identifier s \<noteq> second_token_id s"
    using inv by (simp_all add: pair_inv_def)
  show "covered s ps s' es"
    unfolding s'
  proof (rule covered_drop [OF inv fr sp])
    fix u assume u: "pool_token s u"
    have "cache_reserve c2 u + outflow u es1
        = cache_reserve c1 u + (if u = first_token_id s then first_token_amount_removed ctx else 0)"
      and "cache_reserve c3 u + outflow u es2
        = cache_reserve c2 u + (if u = second_token_id s then second_token_amount_removed ctx else 0)"
      using b1 b2 by (simp_all add: balanced_def ids)
    moreover have "cache_reserve c1 u
        + (if u = first_token_id s then first_token_amount_removed ctx else 0)
        + (if u = second_token_id s then second_token_amount_removed ctx else 0)
        = cache_reserve ?c u"
      using u distinct pool_remove_liquidity_amounts(1,2) [OF pool]
      by (auto simp: cache_reserve_def ids pool_token_def)
    moreover have "outflow u es = outflow u es1 + outflow u es2"
      using u distinct by (auto simp: es ids pool_token_def)
    ultimately show "cache_reserve c3 u + outflow u es
        \<le> cache_reserve ?c u + paid_in u ps + inflow u es"
      by simp
  qed
qed

section \<open>Swaps\<close>

lemma swap_order_tokens:
  assumes "get_swap_tokens_order (storage_cache_new s) tin tout = Inr ord"
  shows "tin = order_input (storage_cache_new s) ord" "tout = order_output (storage_cache_new s) ord"
  using assms by (auto simp: get_swap_tokens_order_Inr)

lemma same_pool_order:
  assumes "same_pool c c'"
  shows "order_input c' ord = order_input c ord" "order_output c' ord = order_output c ord"
  using assms by (cases ord; simp add: same_pool_def)+

lemma swap_no_fee_Inr:
  assumes "swap_no_fee env ps tout dest s = Inr (s', es)"
  obtains p ord s1 out c where
    "get_caller env \<in> set (pair_whitelist s)" "ps = [p]" "pair_state s = Active"
    "get_swap_tokens_order (storage_cache_new s) (token_identifier p) tout = Inr ord"
    "update_safe_price env (pair_reserve s (first_token_id s)) (pair_reserve s (second_token_id s))
       (lp_token_supply s) s = Inr s1"
    "swap_safe_no_fee (storage_cache_new s) ord (amount p) = Inr (out, c)"
    "s' = drop_cache c s1" "es = burn tout out"
  using assms
  by (auto simp: swap_no_fee_def Let_def res_simps can_swap_def swap_context_new_def)

lemma swap_no_fee_step:
  assumes inv: "pair_inv s" and ok: "swap_no_fee env ps tout dest s = Inr (s', es)"
  shows "pool_step s s'" and "covered s ps s' es"
proof -
  let ?c = "storage_cache_new s"
  from ok obtain p ord s1 out c where ps: "ps = [p]"
    and ord: "get_swap_tokens_order ?c (token_identifier p) tout = Inr ord"
    and s1: "update_safe_price env (pair_reserve s (first_token_id s))
       (pair_reserve s (second_token_id s)) (lp_token_supply s) s = Inr s1"
    and swap: "swap_safe_no_fee ?c ord (amount p) = Inr (out, c)"
    and s': "s' = drop_cache c s1" and es: "es = burn tout out"
    by (rule swap_no_fee_Inr)
  note fr = update_safe_price_framed' [OF s1]
  have step: "fee_step ?c c" by (rule swap_safe_no_fee_step [OF swap])
  then have sp: "same_pool ?c c" by (simp add: fee_step_def)
  have ok0: "pool_ok ?c" using inv by (simp add: pair_inv_def)
  have lp: "cached_lp_token_supply ?c \<noteq> 0"
    using ok0 swap_safe_no_fee_Inr(2) [OF swap] by (cases ord) (auto simp: pool_ok_def split: if_splits)
  show "pool_step s s'"
    unfolding s' using fee_step_pool [OF step] fee_step_pool_ok [OF step ok0 lp]
    by (rule pool_step_drop [OF inv fr sp])
  have d: "cached_first_token_id ?c \<noteq> cached_second_token_id ?c" using inv by (simp add: pair_inv_def)
  show "covered s ps s' es"
    unfolding s'
  proof (rule covered_drop [OF inv fr sp])
    fix u
    show "cache_reserve c u + outflow u es \<le> cache_reserve ?c u + paid_in u ps + inflow u es"
      using swap_safe_no_fee_balance [OF swap d, of u] swap_order_tokens [OF ord]
      by (auto simp: es ps split: if_splits)
  qed
qed

text \<open>
  In the locking period the output goes to the locking contract, and what that sends back, whichever
  token it is, goes on to the caller.
\<close>

lemma build_swap_output_Inr:
  assumes "build_swap_output_payments env s ctx = Inr (outs, es)"
  shows "\<exists>q. outs = [q, new_payment (input_token_id ctx) 0
                        (input_token_amount ctx - final_input_amount ctx)] \<and>
    ((q = new_payment (output_token_id ctx) 0 (final_output_amount ctx) \<and> es = []) \<or>
     es = [ExecuteOnDest (locking_sc_address s) ''lockTokens''
             [new_payment (output_token_id ctx) 0 (final_output_amount ctx)],
           ReceivedFrom (locking_sc_address s) [q]])"
    and "final_input_amount ctx \<le> input_token_amount ctx"
  using assms
  by (auto simp: build_swap_output_payments_def lock_tokens_def res_simps split: if_splits)

lemma build_swap_output_flow:
  assumes "build_swap_output_payments env s ctx = Inr (outs, es)"
  shows "outflow u (es @ send_multiple_tokens_if_not_zero d outs) =
     (if output_token_id ctx = u then final_output_amount ctx else 0) +
     (if input_token_id ctx = u then input_token_amount ctx - final_input_amount ctx else 0) +
     inflow u (es @ send_multiple_tokens_if_not_zero d outs)"
  using build_swap_output_Inr(1) [OF assms] by auto

text \<open>
  The common part of the two swap endpoints: from a cache that already holds the swap, the
  special fee is sent and the output is paid.
\<close>

lemma swap_tail:
  assumes inv: "pair_inv s" and fr: "framed s s1"
    and lp: "lp_token_supply s \<noteq> 0"
    and ord: "get_swap_tokens_order (storage_cache_new s) tin tout = Inr ord"
    and ctx: "input_token_id ctx = tin" "output_token_id ctx = tout"
      "input_token_amount ctx = a" "final_input_amount ctx \<le> a"
      "fee_amount ctx \<le> final_input_amount ctx"
    and c1: "c1 = set_reserve_out ord (get_reserve_out (storage_cache_new s) ord - final_output_amount ctx)
        (set_reserve_in ord (get_reserve_in (storage_cache_new s) ord
           + (final_input_amount ctx - fee_amount ctx)) (storage_cache_new s))"
    and out: "final_output_amount ctx < get_reserve_out (storage_cache_new s) ord"
    and prod: "product (storage_cache_new s) \<le> product c1"
    and fee: "(if 0 < fee_amount ctx then send_fee env s1 c1 ord tin (fee_amount ctx)
               else Inr (c1, [])) = Inr (c2, es1)"
    and build: "build_swap_output_payments env s1 ctx = Inr (outs, es2)"
    and p: "token_identifier p = tin" "amount p = a"
  shows "pool_step s (drop_cache c2 s1)"
    and "covered s [p] (drop_cache c2 s1) (es1 @ es2 @ send_multiple_tokens_if_not_zero d outs)"
proof -
  let ?c = "storage_cache_new s"
  have same1: "same_pool ?c c1" by (simp add: c1 same_pool_def)
  have step1: "fee_step ?c c1" using prod same1 by (simp add: fee_step_def c1)
  have step2: "fee_step c1 c2" using fee by (auto split: if_splits intro: send_fee_step)
  have step: "fee_step ?c c2" using step1 step2 by (rule fee_step_trans)
  then have sp: "same_pool ?c c2" by (simp add: fee_step_def)
  have ok0: "pool_ok ?c" using inv by (simp add: pair_inv_def)
  show "pool_step s (drop_cache c2 s1)"
    using fee_step_pool [OF step] fee_step_pool_ok [OF step ok0] lp
    by (intro pool_step_drop [OF inv fr sp]) simp_all
  have d: "cached_first_token_id ?c \<noteq> cached_second_token_id ?c" using inv by (simp add: pair_inv_def)
  have d1: "cached_first_token_id c1 \<noteq> cached_second_token_id c1"
    using d same1 by (simp add: same_pool_def)
  have tokens: "tin = order_input ?c ord" "tout = order_output ?c ord"
    using swap_order_tokens [OF ord] by simp_all
  have tin1: "tin = order_input c1 ord" using tokens(1) same_pool_order [OF same1] by simp
  show "covered s [p] (drop_cache c2 s1) (es1 @ es2 @ send_multiple_tokens_if_not_zero d outs)"
  proof (rule covered_drop [OF inv fr sp])
    fix u
    have swap: "cache_reserve c1 u + (if u = tout then final_output_amount ctx else 0)
        = cache_reserve ?c u + (if u = tin then final_input_amount ctx - fee_amount ctx else 0)"
      using d out unfolding c1 tokens by (cases ord) (auto simp: cache_reserve_def)
    have fees: "cache_reserve c2 u + outflow u es1
        \<le> cache_reserve c1 u + (if u = tin then fee_amount ctx else 0)"
      using fee send_fee_flow [OF _ d1 tin1, of env s1 "fee_amount ctx" c2 es1 u]
      by (auto split: if_splits)
    have paid: "outflow u (es2 @ send_multiple_tokens_if_not_zero d outs) =
       (if tout = u then final_output_amount ctx else 0) +
       (if tin = u then a - final_input_amount ctx else 0) +
       inflow u (es2 @ send_multiple_tokens_if_not_zero d outs)"
      using build_swap_output_flow [OF build, of u d] ctx by simp
    have "tin \<noteq> tout" using tokens d by (cases ord) auto
    then show "cache_reserve c2 u + outflow u (es1 @ es2 @ send_multiple_tokens_if_not_zero d outs)
      \<le> cache_reserve ?c u
        + paid_in u [p]
        + inflow u (es1 @ es2 @ send_multiple_tokens_if_not_zero d outs)"
      using swap fees paid ctx(4,5) p
      by (cases "u = tin"; cases "u = tout") auto
  qed
qed

lemma swap_tokens_fixed_input_Inr:
  assumes "swap_tokens_fixed_input env ps tout amin s = Inr (res, s', es)"
  obtains p ord s1 ctx c1 c2 es1 outs es2 where
    "0 < amin" "ps = [p]" "pair_state s = Active"
    "get_swap_tokens_order (storage_cache_new s) (token_identifier p) tout = Inr ord"
    "amin < get_reserve_out (storage_cache_new s) ord"
    "update_safe_price env (pair_reserve s (first_token_id s)) (pair_reserve s (second_token_id s))
       (lp_token_supply s) s = Inr s1"
    "perform_swap_fixed_input s1 (swap_context_new (token_identifier p) (amount p) tout amin ord)
       (storage_cache_new s) = Inr (ctx, c1)"
    "(if 0 < fee_amount ctx then
        send_fee env s1 c1 (swap_order ctx) (input_token_id ctx) (fee_amount ctx)
      else Inr (c1, [])) = Inr (c2, es1)"
    "build_swap_output_payments env s1 ctx = Inr (outs, es2)"
    "res = outs ! 0" "output_token_amount ctx \<le> amount res" "s' = drop_cache c2 s1"
    "es = es1 @ es2 @ send_multiple_tokens_if_not_zero (get_caller env) outs"
proof -
  from assms obtain p ord s1 where ps: "0 < amin" "ps = [p]" "pair_state s = Active"
    and ord: "get_swap_tokens_order (storage_cache_new s) (token_identifier p) tout = Inr ord"
    and res: "amin < get_reserve_out (storage_cache_new s) ord"
    and s1: "update_safe_price env (pair_reserve s (first_token_id s))
       (pair_reserve s (second_token_id s)) (lp_token_supply s) s = Inr s1"
    by (auto simp: swap_tokens_fixed_input_def Let_def res_simps can_swap_def)
  show thesis
    using assms
    by (auto simp: swap_tokens_fixed_input_def Let_def res_simps ps s1 ord single_esdt_def
        simp del: if_split intro!: that [OF ps ord res s1])
qed

lemma swap_tokens_fixed_output_Inr:
  assumes "swap_tokens_fixed_output env ps tout aout s = Inr (res, s', es)"
  obtains p ord s1 ctx c1 c2 es1 outs es2 where
    "0 < aout" "ps = [p]" "pair_state s = Active"
    "get_swap_tokens_order (storage_cache_new s) (token_identifier p) tout = Inr ord"
    "aout < get_reserve_out (storage_cache_new s) ord"
    "update_safe_price env (pair_reserve s (first_token_id s)) (pair_reserve s (second_token_id s))
       (lp_token_supply s) s = Inr s1"
    "perform_swap_fixed_output s1 (swap_context_new (token_identifier p) (amount p) tout aout ord)
       (storage_cache_new s) = Inr (ctx, c1)"
    "(if 0 < fee_amount ctx then
        send_fee env s1 c1 (swap_order ctx) (input_token_id ctx) (fee_amount ctx)
      else Inr (c1, [])) = Inr (c2, es1)"
    "build_swap_output_payments env s1 ctx = Inr (outs, es2)"
    "res = (outs ! 0, outs ! 1)" "s' = drop_cache c2 s1"
    "es = es1 @ es2 @ send_multiple_tokens_if_not_zero (get_caller env) outs"
proof -
  from assms obtain p ord s1 where ps: "0 < aout" "ps = [p]" "pair_state s = Active"
    and ord: "get_swap_tokens_order (storage_cache_new s) (token_identifier p) tout = Inr ord"
    and res: "aout < get_reserve_out (storage_cache_new s) ord"
    and s1: "update_safe_price env (pair_reserve s (first_token_id s))
       (pair_reserve s (second_token_id s)) (lp_token_supply s) s = Inr s1"
    by (auto simp: swap_tokens_fixed_output_def Let_def res_simps can_swap_def)
  show thesis
    using assms
    by (auto simp: swap_tokens_fixed_output_def Let_def res_simps ps s1 ord single_esdt_def first_two_def
        simp del: if_split intro!: that [OF ps ord res s1])
qed

lemma swap_context_new_sel [simp]:
  "input_token_id (swap_context_new tin a tout b ord) = tin"
  "input_token_amount (swap_context_new tin a tout b ord) = a"
  "output_token_id (swap_context_new tin a tout b ord) = tout"
  "output_token_amount (swap_context_new tin a tout b ord) = b"
  "swap_order (swap_context_new tin a tout b ord) = ord"
  "fee_amount (swap_context_new tin a tout b ord) = 0"
  by (simp_all add: swap_context_new_def)

lemma pool_ok_reserve_out:
  "pool_ok c \<Longrightarrow> 0 < get_reserve_out c ord \<Longrightarrow> cached_lp_token_supply c \<noteq> 0"
  by (cases ord) (auto simp: pool_ok_def split: if_splits)

lemma swap_tokens_fixed_input_step:
  assumes inv: "pair_inv s"
    and ok: "swap_tokens_fixed_input env ps tout amin s = Inr (res, s', es)"
  shows "pool_step s s'" and "covered s ps s' es"
proof -
  let ?c = "storage_cache_new s"
  from ok obtain p ord s1 ctx c1 c2 es1 outs es2 where ps: "ps = [p]"
    and ord: "get_swap_tokens_order (storage_cache_new s) (token_identifier p) tout = Inr ord"
    and out: "amin < get_reserve_out (storage_cache_new s) ord"
    and s1: "update_safe_price env (pair_reserve s (first_token_id s))
       (pair_reserve s (second_token_id s)) (lp_token_supply s) s = Inr s1"
    and swap: "perform_swap_fixed_input s1
       (swap_context_new (token_identifier p) (amount p) tout amin ord) (storage_cache_new s)
       = Inr (ctx, c1)"
    and fee: "(if 0 < fee_amount ctx then
        send_fee env s1 c1 (swap_order ctx) (input_token_id ctx) (fee_amount ctx)
      else Inr (c1, [])) = Inr (c2, es1)"
    and build: "build_swap_output_payments env s1 ctx = Inr (outs, es2)"
    and s': "s' = drop_cache c2 s1"
    and es: "es = es1 @ es2 @ send_multiple_tokens_if_not_zero (get_caller env) outs"
    by (rule swap_tokens_fixed_input_Inr)
  note fr = update_safe_price_framed' [OF s1]
  have fees: "fees_ok s1" using inv framed_fees_ok [OF fr] by (simp add: pair_inv_def)
  have lp: "lp_token_supply s \<noteq> 0"
    using inv out pool_ok_reserve_out [of "storage_cache_new s" ord] by (auto simp: pair_inv_def)
  note sw = perform_swap_fixed_input_Inr [OF swap] and
    pr = perform_swap_fixed_input_product [OF swap swap_context_new_sel(6) fees]
  have ids: "swap_order ctx = ord" "input_token_id ctx = token_identifier p"
    by (simp_all add: sw(1))
  note fee' = fee [unfolded ids]
  have f: "input_token_id ctx = token_identifier p" "output_token_id ctx = tout"
    "input_token_amount ctx = amount p" "final_input_amount ctx \<le> amount p"
    "fee_amount ctx \<le> final_input_amount ctx"
    using swap_fee_le [OF fees] by (simp_all add: sw(1))
  have c1: "c1 = set_reserve_out ord (get_reserve_out ?c ord - final_output_amount ctx)
      (set_reserve_in ord (get_reserve_in ?c ord + (final_input_amount ctx - fee_amount ctx)) ?c)"
    by (subst sw(2)) (simp_all add: sw(1))
  have lt: "final_output_amount ctx < get_reserve_out ?c ord"
    using sw(5) by (simp add: sw(1))
  note tail = swap_tail [OF inv fr lp ord f c1 lt pr(1) fee' build refl refl]
  show "pool_step s s'" unfolding s' by (rule tail(1))
  show "covered s ps s' es"
    unfolding s' es ps by (rule tail(2))
qed

lemma swap_tokens_fixed_output_step:
  assumes inv: "pair_inv s"
    and ok: "swap_tokens_fixed_output env ps tout aout s = Inr (res, s', es)"
  shows "pool_step s s'" and "covered s ps s' es"
proof -
  let ?c = "storage_cache_new s"
  from ok obtain p ord s1 ctx c1 c2 es1 outs es2 where ps: "ps = [p]"
    and ord: "get_swap_tokens_order ?c (token_identifier p) tout = Inr ord"
    and out: "aout < get_reserve_out ?c ord"
    and s1: "update_safe_price env (pair_reserve s (first_token_id s))
       (pair_reserve s (second_token_id s)) (lp_token_supply s) s = Inr s1"
    and swap: "perform_swap_fixed_output s1
       (swap_context_new (token_identifier p) (amount p) tout aout ord) ?c = Inr (ctx, c1)"
    and fee: "(if 0 < fee_amount ctx then
        send_fee env s1 c1 (swap_order ctx) (input_token_id ctx) (fee_amount ctx)
      else Inr (c1, [])) = Inr (c2, es1)"
    and build: "build_swap_output_payments env s1 ctx = Inr (outs, es2)"
    and s': "s' = drop_cache c2 s1"
    and es: "es = es1 @ es2 @ send_multiple_tokens_if_not_zero (get_caller env) outs"
    by (rule swap_tokens_fixed_output_Inr)
  note fr = update_safe_price_framed' [OF s1]
  have fees: "fees_ok s1" using inv framed_fees_ok [OF fr] by (simp add: pair_inv_def)
  have lp: "lp_token_supply s \<noteq> 0"
    using inv out pool_ok_reserve_out [of ?c ord] by (auto simp: pair_inv_def)
  from swap obtain a where
    ctx: "ctx = swap_context_new (token_identifier p) (amount p) tout aout ord
            \<lparr>final_input_amount := a, final_output_amount := aout, fee_amount := swap_fee s1 a\<rparr>"
    and c1: "c1 = set_reserve_out ord (get_reserve_out ?c ord - aout)
            (set_reserve_in ord (get_reserve_in ?c ord + (a - swap_fee s1 a)) ?c)"
    and a: "a \<le> amount p"
    by (rule perform_swap_fixed_output_Inr) simp_all
  note pr = perform_swap_fixed_output_product(1) [OF swap swap_context_new_sel(6) fees]
  have ids: "swap_order ctx = ord" "input_token_id ctx = token_identifier p"
    by (simp_all add: ctx)
  note fee' = fee [unfolded ids]
  have f: "input_token_id ctx = token_identifier p" "output_token_id ctx = tout"
    "input_token_amount ctx = amount p" "final_input_amount ctx \<le> amount p"
    "fee_amount ctx \<le> final_input_amount ctx"
    using swap_fee_le [OF fees] a by (simp_all add: ctx)
  have c1': "c1 = set_reserve_out ord (get_reserve_out ?c ord - final_output_amount ctx)
      (set_reserve_in ord (get_reserve_in ?c ord + (final_input_amount ctx - fee_amount ctx)) ?c)"
    by (simp add: ctx c1)
  have lt: "final_output_amount ctx < get_reserve_out ?c ord"
    using out by (simp add: ctx)
  note tail = swap_tail [OF inv fr lp ord f c1' lt pr fee' build refl refl]
  show "pool_step s s'" unfolding s' by (rule tail(1))
  show "covered s ps s' es"
    unfolding s' es ps by (rule tail(2))
qed

end
