(* ===== verification/PairContract.thy ===== *)
theory PairContract
  imports PairInvariant
begin

text \<open>
  The pair contract as a whole: every endpoint as one call, the tokens the contract holds,
  and runs of transactions. The step-system locales are interpreted here, so the invariant
  and the monotonicity of the share value hold along every run.
\<close>

section \<open>Calls and transactions\<close>

datatype pair_call =
    AddAdmin address | RemoveAdmin address | UpdateOwnerOrAdmin address
  | AddToPauseWhitelist "address list" | RemoveFromPauseWhitelist "address list"
  | Pause | Resume | SetStateActiveNoSwaps | SetFeePercents u64 u64
  | SetLpTokenIdentifier token_id
  | Whitelist address | RemoveWhitelist address
  | AddTrustedSwapPair address token_id token_id | RemoveTrustedSwapPair token_id token_id
  | SetupFeesCollector address u64 | SetFeeOn bool address token_id
  | SetLockingDeadlineEpoch u64 | SetLockingScAddress address | SetUnlockEpoch u64
  | AddInitialLiquidity | AddLiquidity biguint biguint | RemoveLiquidity biguint biguint
  | RemoveLiquidityAndBuyBackAndBurnToken token_id
  | SwapNoFeeAndForward token_id address
  | SwapTokensFixedInput token_id biguint | SwapTokensFixedOutput token_id biguint

record pair_tx =
  tx_env :: pair_env
  tx_payments :: "esdt_payment list"
  tx_call :: pair_call

text \<open>An endpoint that is not payable refuses a call with payments.\<close>

definition not_payable :: "esdt_payment list \<Rightarrow> error + 's \<Rightarrow> error + ('s \<times> effect list)" where
  "not_payable ps r =
     require (ps = []) (SignalError ''function does not accept ESDT payment'')
       (and_then r (\<lambda>s. Inr (s, [])))"

definition without_result :: "error + ('r \<times> 's \<times> effect list) \<Rightarrow> error + ('s \<times> effect list)" where
  "without_result r = and_then r (\<lambda>(x, s, es). Inr (s, es))"

fun exec_call ::
  "pair_env \<Rightarrow> esdt_payment list \<Rightarrow> pair_call \<Rightarrow> pair_storage \<Rightarrow> error + (pair_storage \<times> effect list)"
where
  "exec_call env ps (AddAdmin a) s = not_payable ps (with_permissions s
     (add_admin_endpoint (pair_permissions s) (get_caller env) a))"
| "exec_call env ps (RemoveAdmin a) s = not_payable ps (with_permissions s
     (remove_admin_endpoint (pair_permissions s) (get_caller env) a))"
| "exec_call env ps (UpdateOwnerOrAdmin a) s = not_payable ps (with_permissions s
     (update_owner_or_admin_endpoint (blockchain.truncate env) (pair_permissions s) a))"
| "exec_call env ps (AddToPauseWhitelist as) s = not_payable ps (with_permissions s
     (add_to_pause_whitelist (pair_permissions s) (get_caller env) as))"
| "exec_call env ps (RemoveFromPauseWhitelist as) s = not_payable ps (with_permissions s
     (remove_from_pause_whitelist (pair_permissions s) (get_caller env) as))"
| "exec_call env ps Pause s = not_payable ps (with_state s
     (pause (pair_permissions s) (get_caller env)))"
| "exec_call env ps Resume s = not_payable ps (with_state s
     (resume (pair_permissions s) (get_caller env)))"
| "exec_call env ps SetStateActiveNoSwaps s = not_payable ps (set_state_active_no_swaps env s)"
| "exec_call env ps (SetFeePercents t f) s = not_payable ps (set_fee_percent env t f s)"
| "exec_call env ps (SetLpTokenIdentifier t) s = not_payable ps (set_lp_token_identifier env t s)"
| "exec_call env ps (Whitelist a) s = not_payable ps (whitelist_endpoint env a s)"
| "exec_call env ps (RemoveWhitelist a) s = not_payable ps (remove_whitelist env a s)"
| "exec_call env ps (AddTrustedSwapPair a t u) s = not_payable ps (add_trusted_swap_pair env a t u s)"
| "exec_call env ps (RemoveTrustedSwapPair t u) s = not_payable ps (remove_trusted_swap_pair env t u s)"
| "exec_call env ps (SetupFeesCollector a p) s = not_payable ps (setup_fees_collector env a p s)"
| "exec_call env ps (SetFeeOn b a t) s = not_payable ps (set_fee_on env b a t s)"
| "exec_call env ps (SetLockingDeadlineEpoch e) s = not_payable ps (set_locking_deadline_epoch env e s)"
| "exec_call env ps (SetLockingScAddress a) s = not_payable ps (set_locking_sc_address env a s)"
| "exec_call env ps (SetUnlockEpoch e) s = not_payable ps (set_unlock_epoch env e s)"
| "exec_call env ps AddInitialLiquidity s = without_result (add_initial_liquidity env ps s)"
| "exec_call env ps (AddLiquidity a b) s = without_result (add_liquidity env ps a b s)"
| "exec_call env ps (RemoveLiquidity a b) s = without_result (remove_liquidity env ps a b s)"
| "exec_call env ps (RemoveLiquidityAndBuyBackAndBurnToken t) s =
     remove_liquidity_and_burn_token env ps t s"
| "exec_call env ps (SwapNoFeeAndForward t a) s = swap_no_fee env ps t a s"
| "exec_call env ps (SwapTokensFixedInput t a) s =
     without_result (swap_tokens_fixed_input env ps t a s)"
| "exec_call env ps (SwapTokensFixedOutput t a) s =
     without_result (swap_tokens_fixed_output env ps t a s)"

section \<open>The contract with its holdings\<close>

text \<open>
  Holdings are integers, so that a transaction that spent more than the contract has would
  show as a negative balance instead of being cut off at zero.
\<close>

record pair_world =
  storage :: pair_storage
  holdings :: "token_id \<Rightarrow> int"

definition pair_step :: "pair_world \<Rightarrow> pair_tx \<Rightarrow> error + pair_world" where
  "pair_step w tx =
     and_then (exec_call (tx_env tx) (tx_payments tx) (tx_call tx) (storage w)) (\<lambda>(s', es).
     Inr \<lparr>storage = s',
          holdings = (\<lambda>t. holdings w t + int (paid_in t (tx_payments tx)) + int (inflow t es)
                          - int (outflow t es))\<rparr>)"

text \<open>The pool tokens \<open>t1\<close>, \<open>t2\<close> are fixed at deployment.\<close>

definition world_inv :: "token_id \<Rightarrow> token_id \<Rightarrow> pair_world \<Rightarrow> bool" where
  "world_inv t1 t2 w \<longleftrightarrow>
     pair_inv (storage w) \<and> first_token_id (storage w) = t1 \<and> second_token_id (storage w) = t2 \<and>
     (\<forall>t. pool_token (storage w) t \<longrightarrow> int (pair_reserve (storage w) t) \<le> holdings w t)"

definition world_le :: "pair_world \<Rightarrow> pair_world \<Rightarrow> bool" where
  "world_le w w' \<longleftrightarrow> pool_le (storage_cache_new (storage w)) (storage_cache_new (storage w'))"

section \<open>Administration leaves the pool alone\<close>

definition same_reserves :: "pair_storage \<Rightarrow> pair_storage \<Rightarrow> bool" where
  "same_reserves s s' \<longleftrightarrow>
     first_token_id s' = first_token_id s \<and> second_token_id s' = second_token_id s \<and>
     pair_reserve s' = pair_reserve s \<and> lp_token_supply s' = lp_token_supply s \<and>
     observations_ok s' = observations_ok s"

fun is_admin_call :: "pair_call \<Rightarrow> bool" where
  "is_admin_call AddInitialLiquidity = False"
| "is_admin_call (AddLiquidity a b) = False"
| "is_admin_call (RemoveLiquidity a b) = False"
| "is_admin_call (RemoveLiquidityAndBuyBackAndBurnToken t) = False"
| "is_admin_call (SwapNoFeeAndForward t a) = False"
| "is_admin_call (SwapTokensFixedInput t a) = False"
| "is_admin_call (SwapTokensFixedOutput t a) = False"
| "is_admin_call _ = True"

lemma not_payable_Inr [res_simps]:
  "not_payable ps r = Inr (s, es) \<longleftrightarrow> ps = [] \<and> es = [] \<and> r = Inr s"
  by (auto simp: not_payable_def res_simps)

lemma without_result_Inr [res_simps]:
  "without_result r = Inr (s, es) \<longleftrightarrow> (\<exists>x. r = Inr (x, s, es))"
  by (auto simp: without_result_def res_simps)

lemmas admin_call_defs =
  set_state_active_no_swaps_def set_fee_percent_def set_fee_percents_def
  set_lp_token_identifier_def whitelist_endpoint_def remove_whitelist_def
  add_trusted_swap_pair_def remove_trusted_swap_pair_def setup_fees_collector_def set_fee_on_def
  set_locking_deadline_epoch_def set_locking_sc_address_def set_unlock_epoch_def

lemma admin_call_same_reserves:
  "is_admin_call call \<Longrightarrow> exec_call env ps call s = Inr (s', es) \<Longrightarrow>
   same_reserves s s' \<and> es = [] \<and> ps = []"
  by (cases call)
    (auto simp: admin_call_defs res_simps Let_def same_reserves_def observations_ok_def
      split: if_splits option.splits)

lemma admin_call_tokens_fees:
  "is_admin_call call \<Longrightarrow> exec_call env ps call s = Inr (s', es) \<Longrightarrow> fees_ok s \<Longrightarrow>
   lp_token_identifier s \<noteq> first_token_id s \<Longrightarrow> lp_token_identifier s \<noteq> second_token_id s \<Longrightarrow>
   fees_ok s' \<and> lp_token_identifier s' \<noteq> first_token_id s' \<and>
   lp_token_identifier s' \<noteq> second_token_id s'"
  by (cases call)
    (auto simp: admin_call_defs res_simps Let_def fees_ok_def split: if_splits option.splits)

section \<open>Every call keeps the invariant\<close>

lemma exec_call_step:
  assumes inv: "pair_inv s" and ok: "exec_call env ps call s = Inr (s', es)"
  shows "pair_inv s'" and "pool_le (storage_cache_new s) (storage_cache_new s')"
    and "covered s ps s' es" and "first_token_id s' = first_token_id s"
    and "second_token_id s' = second_token_id s"
proof -
  have "pair_inv s' \<and> pool_le (storage_cache_new s) (storage_cache_new s') \<and> covered s ps s' es \<and>
    first_token_id s' = first_token_id s \<and> second_token_id s' = second_token_id s"
  proof (cases "is_admin_call call")
    case True
    note same = admin_call_same_reserves [OF True ok] and other = admin_call_tokens_fees [OF True ok]
    have "pool_le (storage_cache_new s) (storage_cache_new s')"
      "pool_ok (storage_cache_new s') = pool_ok (storage_cache_new s)"
      using same by (auto simp: same_reserves_def pool_le_def pool_ok_def product_def)
    with same other inv show ?thesis
      by (simp add: pair_inv_def same_reserves_def covered_def)
  next
    case False
    then have "pool_step s s' \<and> covered s ps s' es"
      using ok inv
      by (cases call)
        (auto simp: without_result_Inr dest: add_initial_liquidity_step add_liquidity_step
          remove_liquidity_step remove_liquidity_and_burn_step swap_no_fee_step
          swap_tokens_fixed_input_step swap_tokens_fixed_output_step)
    with inv show ?thesis using pool_step_inv by (auto simp: pool_step_def)
  qed
  then show "pair_inv s'" "pool_le (storage_cache_new s) (storage_cache_new s')"
    "covered s ps s' es" "first_token_id s' = first_token_id s"
    "second_token_id s' = second_token_id s" by simp_all
qed

lemma pair_step_world:
  assumes inv: "world_inv t1 t2 w" and ok: "pair_step w tx = Inr w'"
  shows "world_inv t1 t2 w'" and "world_le w w'"
proof -
  obtain s' es where call: "exec_call (tx_env tx) (tx_payments tx) (tx_call tx) (storage w) = Inr (s', es)"
    and w': "w' = \<lparr>storage = s', holdings = (\<lambda>t. holdings w t + int (paid_in t (tx_payments tx))
       + int (inflow t es) - int (outflow t es))\<rparr>"
    using ok by (auto simp: pair_step_def res_simps)
  have s: "pair_inv (storage w)" using inv by (simp add: world_inv_def)
  note step = exec_call_step [OF s call]
  have "int (pair_reserve s' t) \<le> holdings w' t" if "pool_token s' t" for t
  proof -
    have "pool_token (storage w) t" using that step(4,5) by (simp add: pool_token_def)
    then have "int (pair_reserve (storage w) t) \<le> holdings w t"
      and "pair_reserve s' t + outflow t es
        \<le> pair_reserve (storage w) t + paid_in t (tx_payments tx) + inflow t es"
      using inv step(3) by (simp_all add: world_inv_def covered_def)
    then show ?thesis by (simp add: w')
  qed
  with step inv show "world_inv t1 t2 w'" by (simp add: world_inv_def w')
  from step(2) show "world_le w w'" by (simp add: world_le_def w')
qed

interpretation pair: monotone_step_system pair_step "world_inv t1 t2" "\<lambda>tx. True" world_le
  for t1 t2
proof
  fix w w' tx
  assume "world_inv t1 t2 w" "pair_step w tx = Inr w'"
  then show "world_inv t1 t2 w'" "world_le w w'" by (rule pair_step_world)+
next
  fix w :: pair_world
  show "world_le w w" by (simp add: world_le_def)
next
  fix u v w :: pair_world
  assume "world_inv t1 t2 u" "world_le u v" "world_le v w"
  then show "world_le u w"
    by (auto simp: world_le_def world_inv_def pair_inv_def intro: pool_le_trans)
qed

section \<open>Deployment\<close>

definition empty_pair_storage :: pair_storage where
  "empty_pair_storage =
     \<lparr>pair_state = Inactive, pair_permissions = (\<lambda>_. 0), total_fee_percent = 0,
      special_fee_percent = 0, router_address = 0, lp_token_identifier = [],
      first_token_id = [], second_token_id = [], lp_token_supply = 0,
      initial_liquidity_adder = None, pair_reserve = (\<lambda>_. 0), fees_collector_address = None,
      fees_collector_cut_percentage = 0, destination_map = [], trusted_swap_pair = [],
      pair_whitelist = [], locking_sc_address = 0, unlock_epoch = 0, locking_deadline_epoch = 0,
      price_observations = [], safe_price_current_index = 0\<rparr>"

lemma pair_init_inv:
  assumes "pair_init env t1 t2 router router_owner tf sf adder admins empty_pair_storage = Inr s"
  shows "pair_inv s" and "first_token_id s = t1" and "second_token_id s = t2"
    and "pair_reserve s = (\<lambda>_. 0)" and "lp_token_supply s = 0"
proof -
  have "pair_inv s \<and> first_token_id s = t1 \<and> second_token_id s = t2 \<and>
    pair_reserve s = (\<lambda>_. 0) \<and> lp_token_supply s = 0"
    using assms
    by (auto simp: pair_init_def set_fee_percents_def Let_def res_simps empty_pair_storage_def
        pair_inv_def fees_ok_def pool_ok_def observations_ok_def ring_ok_def set_if_empty_token_def)
  then show "pair_inv s" "first_token_id s = t1" "second_token_id s = t2"
    "pair_reserve s = (\<lambda>_. 0)" "lp_token_supply s = 0" by simp_all
qed

end
