(* ===== verification/PairFacts.thy ===== *)
theory PairFacts
  imports PairContract
begin

text \<open>
  Facts about the whole endpoints of the pair, on which its properties rest: what a swap
  pays and how the views state it, what a round trip can return, and which calls can change
  the configuration (the step system \<open>config\<close>).
\<close>

section \<open>What a swap pays\<close>

lemma update_safe_price_total:
  assumes "pair_inv s"
  shows "\<exists>s1. update_safe_price env r1 r2 lp s = Inr s1"
proof -
  have "ring_ok (price_observations s) (safe_price_current_index s)"
    using assms by (simp add: pair_inv_def observations_ok_def)
  from update_safe_price_refines [OF this] show ?thesis by blast
qed

lemma send_fee_slice_inflow: "send_fee_slice env s c ord t a d r = Inr (c', es) \<Longrightarrow> inflow u es = 0"
  by (auto simp: send_fee_slice_def Let_def and_then_Inr extern_swap_flow split: if_splits)

lemma send_fee_slices_inflow:
  "send_fee_slices env s c ord t a ds = Inr (c', es) \<Longrightarrow> inflow u es = 0"
proof (induction ds arbitrary: c es)
  case (Cons d ds)
  then show ?case by (cases d) (auto simp: and_then_Inr send_fee_slice_inflow)
qed simp

lemma send_fee_inflow:
  assumes "(if 0 < a then send_fee env s c ord t a else Inr (c, [])) = Inr (c', es)"
  shows "inflow u es = 0"
  using assms
  by (auto simp: send_fee_def Let_def and_then_Inr take_fees_collector_cut_flow(3)
      send_fee_slices_inflow split: if_splits)

lemma update_safe_price_locking:
  assumes "update_safe_price env r1 r2 lp s = Inr s1"
  shows "should_generate_locked_asset env' s1 = should_generate_locked_asset env' s"
proof -
  have "locking_deadline_epoch s1 = locking_deadline_epoch s"
    by (subst update_safe_price_framed [OF assms]) simp
  then show ?thesis by (simp add: should_generate_locked_asset_def)
qed

lemma swap_input_paid:
  assumes inv: "pair_inv s" and locking: "\<not> should_generate_locked_asset env s"
    and ok: "swap_tokens_fixed_input env ps tout amin s = Inr (res, s', es)"
  obtains p ord where "ps = [p]"
    "get_swap_tokens_order (storage_cache_new s) (token_identifier p) tout = Inr ord"
    "res = new_payment tout 0 (curve_with_fee (total_fee_percent s) (amount p)
       (get_reserve_in (storage_cache_new s) ord) (get_reserve_out (storage_cache_new s) ord))"
    "amin \<le> amount res" "0 < amount res" "amount res < get_reserve_out (storage_cache_new s) ord"
    "DirectSend (get_caller env) [res] \<in> set es"
    "amount res \<le> outflow tout es" "\<And>u. inflow u es = 0"
proof -
  let ?c = "storage_cache_new s"
  from ok obtain p ord s1 ctx c1 c2 es1 outs es2 where ps: "ps = [p]"
    and ord: "get_swap_tokens_order ?c (token_identifier p) tout = Inr ord"
    and s1: "update_safe_price env (pair_reserve s (first_token_id s))
       (pair_reserve s (second_token_id s)) (lp_token_supply s) s = Inr s1"
    and swap: "perform_swap_fixed_input s1
       (swap_context_new (token_identifier p) (amount p) tout amin ord) ?c = Inr (ctx, c1)"
    and fee: "(if 0 < fee_amount ctx then
        send_fee env s1 c1 (swap_order ctx) (input_token_id ctx) (fee_amount ctx)
      else Inr (c1, [])) = Inr (c2, es1)"
    and build: "build_swap_output_payments env s1 ctx = Inr (outs, es2)"
    and res: "res = outs ! 0"
    and es: "es = es1 @ es2 @ send_multiple_tokens_if_not_zero (get_caller env) outs"
    by (rule swap_tokens_fixed_input_Inr)
  note fr = update_safe_price_framed' [OF s1] and sw = perform_swap_fixed_input_Inr [OF swap]
  have no: "\<not> should_generate_locked_asset env s1"
    using locking by (simp add: update_safe_price_locking [OF s1])
  have ctx: "output_token_id ctx = tout" "final_input_amount ctx = input_token_amount ctx"
    by (simp_all add: sw(1))
  have outs: "outs = [res, new_payment (input_token_id ctx) 0 0]" "es2 = []"
    "res = new_payment tout 0 (final_output_amount ctx)"
    using build no res by (auto simp: build_swap_output_payments_def res_simps ctx)
  have res': "res = new_payment tout 0 (curve_with_fee (total_fee_percent s) (amount p)
       (get_reserve_in ?c ord) (get_reserve_out ?c ord))"
    by (simp add: outs(3) sw(1) framed_sel(4) [OF fr])
  have pos: "amin \<le> amount res" "0 < amount res" "amount res < get_reserve_out ?c ord"
    using sw(3-5) by (simp_all add: res' framed_sel(4) [OF fr])
  have sent: "DirectSend (get_caller env) [res] \<in> set es"
    using pos(2) by (simp add: es outs(1) send_multiple_tokens_if_not_zero_def)
  have paid: "amount res \<le> outflow tout es"
    by (simp add: es outs(1,2)) (simp add: outs(3))
  have "inflow u es = 0" for u
    using send_fee_inflow [OF fee] by (simp add: es outs(2))
  with ps ord res' pos sent paid show thesis by (rule that)
qed

lemma swap_output_paid:
  assumes inv: "pair_inv s" and locking: "\<not> should_generate_locked_asset env s"
    and ok: "swap_tokens_fixed_output env ps tout aout s = Inr (res, s', es)"
  obtains p ord a where "ps = [p]"
    "get_swap_tokens_order (storage_cache_new s) (token_identifier p) tout = Inr ord"
    "get_amount_in s aout (get_reserve_in (storage_cache_new s) ord)
       (get_reserve_out (storage_cache_new s) ord) = Inr a"
    "a \<le> amount p" "0 < aout" "aout < get_reserve_out (storage_cache_new s) ord"
    "res = (new_payment tout 0 aout, new_payment (token_identifier p) 0 (amount p - a))"
    "DirectSend (get_caller env) (if a < amount p then [fst res, snd res] else [fst res]) \<in> set es"
proof -
  let ?c = "storage_cache_new s"
  from ok obtain p ord s1 ctx c1 c2 es1 outs es2 where ps: "0 < aout" "ps = [p]"
    and ord: "get_swap_tokens_order ?c (token_identifier p) tout = Inr ord"
    and lt: "aout < get_reserve_out ?c ord"
    and s1: "update_safe_price env (pair_reserve s (first_token_id s))
       (pair_reserve s (second_token_id s)) (lp_token_supply s) s = Inr s1"
    and swap: "perform_swap_fixed_output s1
       (swap_context_new (token_identifier p) (amount p) tout aout ord) ?c = Inr (ctx, c1)"
    and build: "build_swap_output_payments env s1 ctx = Inr (outs, es2)"
    and res: "res = (outs ! 0, outs ! 1)"
    and es: "es = es1 @ es2 @ send_multiple_tokens_if_not_zero (get_caller env) outs"
    by (rule swap_tokens_fixed_output_Inr)
  have no: "\<not> should_generate_locked_asset env s1"
    using locking by (simp add: update_safe_price_locking [OF s1])
  from swap obtain a where a: "a = get_reserve_in ?c ord * aout * 100000
        div ((get_reserve_out ?c ord - aout) * unat (MAX_PERCENTAGE - total_fee_percent s1)) + 1"
    and ctx: "ctx = swap_context_new (token_identifier p) (amount p) tout aout ord
            \<lparr>final_input_amount := a, final_output_amount := aout, fee_amount := swap_fee s1 a\<rparr>"
    and le: "a \<le> amount p" and f: "0 < unat (MAX_PERCENTAGE - total_fee_percent s1)"
    by (rule perform_swap_fixed_output_Inr) simp_all
  have "total_fee_percent s1 = total_fee_percent s"
    by (rule framed_sel(4) [OF update_safe_price_framed' [OF s1]])
  with a f lt have amt: "get_amount_in s aout (get_reserve_in ?c ord) (get_reserve_out ?c ord) = Inr a"
    by (simp add: get_amount_in_def)
  have outs: "outs = [new_payment tout 0 aout, new_payment (token_identifier p) 0 (amount p - a)]"
    using build no by (auto simp: build_swap_output_payments_def res_simps ctx)
  have res': "res = (new_payment tout 0 aout, new_payment (token_identifier p) 0 (amount p - a))"
    by (simp add: res outs)
  have sent: "DirectSend (get_caller env) (if a < amount p then [fst res, snd res] else [fst res])
      \<in> set es"
    using ps(1) by (simp add: es outs res send_multiple_tokens_if_not_zero_def)
  show thesis by (rule that [OF ps(2) ord amt le ps(1) lt res' sent])
qed

section \<open>Views and swaps\<close>

lemma order_reserves:
  assumes "get_swap_tokens_order (storage_cache_new s) tin tout = Inr ord"
  shows "get_reserve_in (storage_cache_new s) ord = pair_reserve s tin"
    and "get_reserve_out (storage_cache_new s) ord = pair_reserve s tout"
  using assms by (auto simp: get_swap_tokens_order_Inr)

lemma amount_in_suffices:
  fixes rin rout out f M :: nat
  assumes "a = rin * out * M div ((rout - out) * f) + 1" and "out < rout" and "0 < f"
  shows "out \<le> a * f * rout div (rin * M + a * f)"
proof -
  have a: "0 < a" using assms(1) by simp
  have "rin * out * M < a * ((rout - out) * f)"
    using assms by (simp add: dividend_less_div_times)
  then have "out * (rin * M) + out * (a * f) \<le> a * f * (rout - out) + out * (a * f)"
    by (simp add: ac_simps)
  also have "\<dots> = a * f * rout"
    using assms(2) by (simp add: mult.commute [of out] add_mult_distrib2 [symmetric])
  finally have "out * (rin * M + a * f) \<le> a * f * rout" by (simp add: distrib_left)
  moreover have "0 < rin * M + a * f" using a assms(3) by simp
  ultimately show ?thesis by (simp add: nat_le_div_iff)
qed

lemma amount_in_minimal:
  fixes rin rout out f M :: nat
  assumes "a = rin * out * M div ((rout - out) * f) + 1" and "out < rout" and "0 < f"
    and "out \<le> b * f * rout div (rin * M + b * f)" and "0 < out"
  shows "a \<le> b + 1"
proof -
  have "0 < rin * M + b * f" using assms(4,5) by (cases "rin * M + b * f = 0") simp_all
  then have "out * (rin * M + b * f) \<le> b * f * rout" using assms(4) by (simp add: nat_le_div_iff)
  also have "\<dots> = b * f * (rout - out) + out * (b * f)"
    using assms(2) by (simp add: mult.commute [of out] add_mult_distrib2 [symmetric])
  finally have "rin * out * M \<le> b * ((rout - out) * f)" by (simp add: distrib_left ac_simps)
  then have "rin * out * M div ((rout - out) * f) \<le> b" by (rule div_le_of_le_mult)
  with assms(1) show ?thesis by simp
qed

definition other_token :: "pair_storage \<Rightarrow> token_id \<Rightarrow> token_id" where
  "other_token s t = (if t = first_token_id s then second_token_id s else first_token_id s)"

lemma get_amount_in_view_Inr:
  assumes "pair_inv s" and "get_amount_in_view s tout out = Inr a"
  defines "rin \<equiv> pair_reserve s (other_token s tout)" and "rout \<equiv> pair_reserve s tout"
    and "f \<equiv> unat (MAX_PERCENTAGE - total_fee_percent s)"
  shows "a = rin * out * 100000 div ((rout - out) * f) + 1" "out < rout" "0 < out" "0 < f"
    "tout = first_token_id s \<or> tout = second_token_id s"
  using assms
  by (auto simp: get_amount_in_view_def get_amount_in_def Let_def res_simps other_token_def
      split: if_splits)

lemma get_amount_out_view_eq:
  assumes "pair_inv s" and "tout = first_token_id s \<or> tout = second_token_id s"
    and "0 < a" and "0 < pair_reserve s tout"
  shows "get_amount_out_view s (other_token s tout) a =
    Inr (curve_with_fee (total_fee_percent s) a (pair_reserve s (other_token s tout)) (pair_reserve s tout))"
proof -
  have d: "first_token_id s \<noteq> second_token_id s" and f: "fees_ok s"
    and r: "0 < pair_reserve s (other_token s tout)"
    using assms by (auto simp: pair_inv_def pool_ok_def other_token_def split: if_splits)
  have lt: "curve_with_fee (total_fee_percent s) a (pair_reserve s (other_token s tout))
      (pair_reserve s tout) < pair_reserve s tout"
    using swap_fee_keeps [OF f, of a] r assms(4) by (intro with_fee.out_less)
  show ?thesis
    using assms d r lt
    by (auto simp: get_amount_out_view_def Let_def other_token_def get_amount_out_def
        curve_with_fee_def split: if_splits)
qed

section \<open>No profit from a round trip\<close>

definition pool_k :: "pair_storage \<Rightarrow> biguint" where
  "pool_k s = calculate_k_constant (pair_reserve s (first_token_id s)) (pair_reserve s (second_token_id s))"

lemma pool_k_order:
  assumes "get_swap_tokens_order (storage_cache_new s) tin tout = Inr ord"
  shows "pool_k s = pair_reserve s tin * pair_reserve s tout"
  using assms by (auto simp: pool_k_def calculate_k_constant_def get_swap_tokens_order_Inr)

lemma pool_le_k:
  "pool_le (storage_cache_new s) (storage_cache_new s') \<longleftrightarrow>
     (lp_token_supply s = 0 \<or> lp_token_supply s' \<noteq> 0) \<and>
     pool_k s * (lp_token_supply s')\<^sup>2 \<le> pool_k s' * (lp_token_supply s)\<^sup>2"
  by (simp add: pool_le_def product_def pool_k_def)

lemma swap_fixed_input_supply:
  assumes "swap_tokens_fixed_input env ps tout amin s = Inr (res, s', es)"
  shows "lp_token_supply s' = lp_token_supply s"
proof -
  from assms obtain p ord s1 ctx c1 c2 es1 where "ps = [p]"
    and swap: "perform_swap_fixed_input s1
       (swap_context_new (token_identifier p) (amount p) tout amin ord) (storage_cache_new s) = Inr (ctx, c1)"
    and fee: "(if 0 < fee_amount ctx then
        send_fee env s1 c1 (swap_order ctx) (input_token_id ctx) (fee_amount ctx)
      else Inr (c1, [])) = Inr (c2, es1)"
    and s': "s' = drop_cache c2 s1"
    by (rule swap_tokens_fixed_input_Inr)
  have "cached_lp_token_supply c1 = lp_token_supply s"
    by (simp add: perform_swap_fixed_input_Inr(2) [OF swap])
  moreover have "fee_step c1 c2" using fee by (auto split: if_splits intro: send_fee_step)
  ultimately show ?thesis by (simp add: s' fee_step_def)
qed

lemma swap_fixed_input_flow:
  assumes inv: "pair_inv s" and no: "\<not> should_generate_locked_asset env s"
    and ok: "swap_tokens_fixed_input env [new_payment tin 0 a] tout amin s = Inr (res, s', es)"
  shows "pair_inv s'" "pool_k s \<le> pool_k s'" "pool_k s = pair_reserve s tin * pair_reserve s tout"
    "pool_k s' = pair_reserve s' tin * pair_reserve s' tout"
    "pair_reserve s' tin \<le> pair_reserve s tin + a"
    "pair_reserve s' tout + amount res \<le> pair_reserve s tout"
    "0 < pair_reserve s tin" "0 < pair_reserve s tout"
    "first_token_id s' = first_token_id s" "second_token_id s' = second_token_id s"
proof -
  note step = swap_tokens_fixed_input_step [OF inv ok]
  show inv': "pair_inv s'" by (rule pool_step_inv [OF inv step(1)])
  show ids: "first_token_id s' = first_token_id s" "second_token_id s' = second_token_id s"
    using step(1) by (simp_all add: pool_step_def)
  from inv no ok obtain ord where
    ord: "get_swap_tokens_order (storage_cache_new s) tin tout = Inr ord"
    and lt: "amount res < get_reserve_out (storage_cache_new s) ord"
    and paid: "amount res \<le> outflow tout es" and infl: "\<And>u. inflow u es = 0"
    by (rule swap_input_paid) auto
  show k: "pool_k s = pair_reserve s tin * pair_reserve s tout" by (rule pool_k_order [OF ord])
  have ord': "get_swap_tokens_order (storage_cache_new s') tin tout = Inr ord"
    using ord ids by (simp add: get_swap_tokens_order_Inr)
  then show "pool_k s' = pair_reserve s' tin * pair_reserve s' tout" by (rule pool_k_order)
  show out: "0 < pair_reserve s tout" using lt order_reserves(2) [OF ord] by simp
  have lp: "lp_token_supply s \<noteq> 0"
    using inv lt pool_ok_reserve_out [of "storage_cache_new s" ord] by (auto simp: pair_inv_def)
  then show "0 < pair_reserve s tin"
    using inv ord by (auto simp: pair_inv_def pool_ok_def get_swap_tokens_order_Inr)
  show "pool_k s \<le> pool_k s'"
    using step(1) swap_fixed_input_supply [OF ok] lp by (simp add: pool_step_def pool_le_k)
  have tok: "pool_token s tin" "pool_token s tout" "tin \<noteq> tout"
    using ord inv by (auto simp: get_swap_tokens_order_Inr pool_token_def pair_inv_def)
  then have c: "pair_reserve s' tin + outflow tin es \<le> pair_reserve s tin + a"
    "pair_reserve s' tout + outflow tout es \<le> pair_reserve s tout"
    using step(2) infl by (auto simp: covered_def)
  then show "pair_reserve s' tin \<le> pair_reserve s tin + a"
    "pair_reserve s' tout + amount res \<le> pair_reserve s tout" using paid by simp_all
qed

section \<open>Liquidity\<close>

text \<open>The amounts a share is worth, as the view states them.\<close>

lemma both_tokens_for_position:
  assumes "lp_token_supply s \<noteq> 0"
  shows "get_both_tokens_for_given_position s l = Inr
    (new_payment (first_token_id s) 0 (l * pair_reserve s (first_token_id s) div lp_token_supply s),
     new_payment (second_token_id s) 0 (l * pair_reserve s (second_token_id s) div lp_token_supply s))"
  using assms
  by (simp add: get_both_tokens_for_given_position_def get_token_for_given_position_def Let_def)

section \<open>A swap that meets its bound is served\<close>

lemma get_amount_out_view_Inr:
  assumes "pair_inv s" and "get_amount_out_view s tin a = Inr out"
  shows "0 < a" "out < pair_reserve s (other_token s tin)" "0 < pair_reserve s tin"
    "out = curve_with_fee (total_fee_percent s) a (pair_reserve s tin)
             (pair_reserve s (other_token s tin))"
    "tin = first_token_id s \<or> tin = second_token_id s" "lp_token_supply s \<noteq> 0"
  using assms
  by (auto simp: get_amount_out_view_def Let_def require_Inr and_then_Inr get_amount_out_Inr
      other_token_def pair_inv_def pool_ok_def split: if_splits)

section \<open>Access control\<close>

fun required_permissions :: "pair_call \<Rightarrow> permissions option" where
  "required_permissions (AddAdmin a) = Some OWNER"
| "required_permissions (RemoveAdmin a) = Some OWNER"
| "required_permissions (AddToPauseWhitelist as) = Some OWNER"
| "required_permissions (RemoveFromPauseWhitelist as) = Some OWNER"
| "required_permissions Pause = Some PAUSE"
| "required_permissions Resume = Some PAUSE"
| "required_permissions SetStateActiveNoSwaps = Some OWNER"
| "required_permissions (SetFeePercents t f) = Some (OWNER OR ADMIN)"
| "required_permissions (SetLpTokenIdentifier t) = Some OWNER"
| "required_permissions (Whitelist a) = Some OWNER"
| "required_permissions (RemoveWhitelist a) = Some OWNER"
| "required_permissions (AddTrustedSwapPair a t u) = Some OWNER"
| "required_permissions (RemoveTrustedSwapPair t u) = Some OWNER"
| "required_permissions (SetupFeesCollector a p) = Some OWNER"
| "required_permissions (SetFeeOn b a t) = Some OWNER"
| "required_permissions (SetLockingDeadlineEpoch e) = Some OWNER"
| "required_permissions (SetLockingScAddress a) = Some OWNER"
| "required_permissions (SetUnlockEpoch e) = Some OWNER"
| "required_permissions _ = None"

text \<open>What administration sets: everything but the pool, the observations and the state.\<close>

definition same_config :: "pair_storage \<Rightarrow> pair_storage \<Rightarrow> bool" where
  "same_config s s' \<longleftrightarrow>
     s' = s\<lparr>pair_state := pair_state s', lp_token_supply := lp_token_supply s',
            pair_reserve := pair_reserve s', price_observations := price_observations s',
            safe_price_current_index := safe_price_current_index s'\<rparr>"

lemma same_config_refl: "same_config s s"
  by (simp add: same_config_def)

lemma same_config_trans: "same_config s t \<Longrightarrow> same_config t u \<Longrightarrow> same_config s u"
  unfolding same_config_def by (cases s; cases t; cases u) simp

lemma same_config_permissions: "same_config s t \<Longrightarrow> pair_permissions t = pair_permissions s"
  unfolding same_config_def by (cases s; cases t) simp

lemma drop_cache_same_config:
  "update_safe_price env r1 r2 lp s = Inr s1 \<Longrightarrow>
   same_config s (drop_cache c s1) \<and> pair_state (drop_cache c s1) = pair_state s"
  by (drule update_safe_price_framed, cases s, cases s1) (simp add: same_config_def drop_cache_def)

lemma token_call_same_config:
  assumes "\<not> is_admin_call call" and "exec_call env ps call s = Inr (s', es)"
  shows "same_config s s' \<and> (pair_state s' = pair_state s \<or> \<not> is_state_active (pair_state s))"
proof (cases "call = AddInitialLiquidity")
  case True
  with assms(2) show ?thesis
    by (auto simp: without_result_Inr add_initial_liquidity_def Let_def and_then_Inr require_Inr
        same_config_def drop_cache_def)
next
  case False
  then have "\<exists>s1 c. update_safe_price env (pair_reserve s (first_token_id s))
      (pair_reserve s (second_token_id s)) (lp_token_supply s) s = Inr s1 \<and> s' = drop_cache c s1"
    using assms
    by (cases call)
      (auto simp: without_result_Inr elim!: add_liquidity_Inr remove_liquidity_Inr
        remove_liquidity_and_burn_Inr swap_no_fee_Inr swap_tokens_fixed_input_Inr
        swap_tokens_fixed_output_Inr)
  then show ?thesis
    by (auto dest: drop_cache_same_config)
qed

definition unprivileged :: "pair_storage \<Rightarrow> pair_tx \<Rightarrow> bool" where
  "unprivileged s tx \<longleftrightarrow>
     pair_permissions s (get_caller (tx_env tx)) = 0 \<and>
     get_caller (tx_env tx) \<noteq> get_owner_address (tx_env tx)"

lemma unprivileged_admin_call:
  assumes "is_admin_call call" and "pair_permissions s (get_caller env) = 0"
    and "get_caller env \<noteq> get_owner_address env"
  shows "exec_call env ps call s \<noteq> Inr r"
  using assms
  by (cases r; cases call)
    (auto simp: admin_call_defs res_simps add_admin_endpoint_def remove_admin_endpoint_def
      update_owner_or_admin_endpoint_def blockchain.truncate_def remove_from_pause_whitelist_def
      pause_def resume_def intersects_def)

definition config_kept :: "pair_storage \<Rightarrow> pair_world \<Rightarrow> bool" where
  "config_kept s w \<longleftrightarrow>
     same_config s (storage w) \<and>
     (is_state_active (pair_state s) \<longrightarrow> pair_state (storage w) = pair_state s)"

interpretation config: step_system pair_step "config_kept s" "unprivileged s" for s
proof
  fix w w' tx
  assume kept: "config_kept s w" and unpriv: "unprivileged s tx" and step: "pair_step w tx = Inr w'"
  obtain es where call: "exec_call (tx_env tx) (tx_payments tx) (tx_call tx) (storage w)
      = Inr (storage w', es)"
    using step by (auto simp: pair_step_def and_then_Inr)
  have perms: "pair_permissions (storage w) = pair_permissions s"
    using kept by (simp add: config_kept_def same_config_permissions)
  have "\<not> is_admin_call (tx_call tx)"
    using unprivileged_admin_call [of "tx_call tx" "storage w" "tx_env tx" "tx_payments tx"] call
      unpriv perms by (auto simp: unprivileged_def)
  from token_call_same_config [OF this call] kept show "config_kept s w'"
    by (auto simp: config_kept_def intro: same_config_trans)
qed

fun allowed_states :: "pair_call \<Rightarrow> state set" where
  "allowed_states (SwapTokensFixedInput t a) = {Active}"
| "allowed_states (SwapTokensFixedOutput t a) = {Active}"
| "allowed_states (SwapNoFeeAndForward t a) = {Active}"
| "allowed_states (AddLiquidity a b) = {Active, PartialActive}"
| "allowed_states (RemoveLiquidity a b) = {Active, PartialActive}"
| "allowed_states AddInitialLiquidity = {Inactive}"
| "allowed_states _ = UNIV"

end
