(* ===== verification/PairProperties.thy ===== *)
theory PairProperties
  imports PairFacts
begin

text \<open>
  The properties of the pair contract, each with an instance on the example pool of the
  first section: an active pool of ALPHA and BETA with a fee of 0.3 percent, of which 0.05
  percent is the special fee, and one fee destination that wants BETA.
\<close>

section \<open>The example pool\<close>

definition ex_env :: pair_env where
  "ex_env =
     \<lparr>get_caller = 7, get_sc_address = 100, get_owner_address = 1, get_block_epoch = 20,
      get_block_round = 50, get_block_nonce = 50, get_block_timestamp = 300,
      is_smart_contract = (\<lambda>a. 100 \<le> a), is_valid_esdt_identifier = (\<lambda>t. t \<noteq> []),
      call_lock_tokens = (\<lambda>a e p. Inr (new_payment ''LOCKED'' 1 (amount p))),
      call_deposit_swap_fees = (\<lambda>a p. Inr ()),
      call_swap_no_fee = (\<lambda>a p t d. Inr ())\<rparr>"

definition ex_observation :: price_observation where
  "ex_observation =
     \<lparr>first_token_reserve_accumulated = 1000000, second_token_reserve_accumulated = 2000000,
      weight_accumulated = 1, recording_round = 40, lp_supply_accumulated = 1000000\<rparr>"

definition ex_storage :: pair_storage where
  "ex_storage = empty_pair_storage
     \<lparr>pair_state := Active, pair_permissions := (\<lambda>a. if a = 1 then 7 else 0),
      total_fee_percent := 300, special_fee_percent := 50,
      lp_token_identifier := ''LPTOKEN'', first_token_id := ''ALPHA'', second_token_id := ''BETA'',
      lp_token_supply := 1000000,
      pair_reserve := (\<lambda>t. if t = ''ALPHA'' then 1000000 else if t = ''BETA'' then 2000000 else 0),
      destination_map := [(0, ''BETA'')], pair_whitelist := [9],
      price_observations := [ex_observation], safe_price_current_index := 1\<rparr>"

lemmas ex_defs = ex_env_def ex_storage_def ex_observation_def empty_pair_storage_def new_payment_def

definition succeeds :: "'e + 'a \<Rightarrow> bool" where
  "succeeds r = (case r of Inl _ \<Rightarrow> False | Inr _ \<Rightarrow> True)"

lemma succeedsD: "succeeds r \<Longrightarrow> \<exists>x. r = Inr x"
  by (cases r) (simp_all add: succeeds_def)

lemmas pair_eval_defs =
  swap_tokens_fixed_input_def swap_tokens_fixed_output_def remove_liquidity_def add_liquidity_def
  single_esdt_def multi_esdt2_def first_two_def get_swap_tokens_order_def can_swap_def
  is_state_active_def update_safe_price_def Let_def vec_get_def compute_new_observation_def
  calculate_k_constant_def perform_swap_fixed_input_def perform_swap_fixed_output_def
  get_amount_out_def get_amount_in_def swap_context_new_def MAX_OBSERVATIONS_def MAX_PERCENTAGE_def
  is_fee_enabled_def get_special_fee_from_input_def send_fee_def take_fees_collector_cut_def
  send_fee_slice_def can_send_fee_directly_def can_resolve_swap_locally_def swap_safe_no_fee_def
  get_amount_out_no_fee_def burn_def build_swap_output_payments_def should_generate_locked_asset_def
  managed_vec_get_def big_sub_def big_div_def drop_cache_def send_multiple_tokens_if_not_zero_def
  MINIMUM_LIQUIDITY_def pool_add_liquidity_def pool_remove_liquidity_def get_amounts_removed_def
  set_optimal_amounts_def quote_def add_liquidity_context_new_def remove_liquidity_context_new_def
  build_add_liq_output_payments_def build_add_liq_results_def build_remove_liq_output_payments_def

lemmas ex_inv_defs =
  pair_inv_def fees_ok_def pool_ok_def observations_ok_def ring_ok_def MAX_OBSERVATIONS_def
  MINIMUM_LIQUIDITY_def MAX_FEE_PERCENTAGE_def

lemma ex_storage_inv: "pair_inv ex_storage"
  by (simp add: ex_defs ex_inv_defs)

lemma ex_env_not_locking: "\<not> should_generate_locked_asset ex_env ex_storage"
  by (simp add: should_generate_locked_asset_def ex_defs)

lemma succeeds3: "succeeds r \<Longrightarrow> \<exists>x y z. r = Inr (x, y, z)"
  by (cases r) (auto simp: succeeds_def)

lemma ex_swap_in: "\<exists>res s' es. swap_tokens_fixed_input ex_env [new_payment ''ALPHA'' 0 10000] ''BETA'' 19000
    ex_storage = Inr (res, s', es)"
  by (rule succeeds3) (simp add: ex_defs pair_eval_defs succeeds_def)

lemma ex_swap_out: "\<exists>res s' es. swap_tokens_fixed_output ex_env [new_payment ''ALPHA'' 0 10000] ''BETA'' 19000
    ex_storage = Inr (res, s', es)"
  by (rule succeeds3) (simp add: ex_defs pair_eval_defs succeeds_def)

lemma ex_swap_back: "\<exists>res s' es back s'' es'.
    swap_tokens_fixed_input ex_env [new_payment ''ALPHA'' 0 10000] ''BETA'' 19000 ex_storage
      = Inr (res, s', es) \<and> \<not> should_generate_locked_asset ex_env s' \<and>
    swap_tokens_fixed_input ex_env [new_payment ''BETA'' 0 (amount res)] ''ALPHA'' 9000 s'
      = Inr (back, s'', es')"
  by (simp add: ex_defs pair_eval_defs)

lemma ex_add_remove: "\<exists>lp f1 f2 s' es x y s'' es'.
    add_liquidity ex_env [new_payment ''ALPHA'' 0 5000, new_payment ''BETA'' 0 20000] 1 1 ex_storage
      = Inr ((lp, f1, f2), s', es) \<and>
    remove_liquidity ex_env [lp] 1 1 s' = Inr ((x, y), s'', es')"
  by (simp add: ex_defs pair_eval_defs)

definition ex_world :: pair_world where
  "ex_world = \<lparr>storage = ex_storage, holdings = (\<lambda>t. int (pair_reserve ex_storage t))\<rparr>"

definition ex_tx :: "esdt_payment list \<Rightarrow> pair_call \<Rightarrow> pair_tx" where
  "ex_tx ps call = \<lparr>tx_env = ex_env, tx_payments = ps, tx_call = call\<rparr>"

lemma ex_world_inv: "world_inv ''ALPHA'' ''BETA'' ex_world"
  using ex_storage_inv by (simp add: world_inv_def ex_world_def) (simp add: ex_storage_def)

section \<open>Properties\<close>

text \<open>C1: No list of transactions, by any callers and in any order and whatever the contracts that the
  pair calls answer, lowers the value of a liquidity share of a pool in a sound state, as a deployed
  one always is: the product of the reserves over the square of the supply never decreases, and the
  supply of a pool that has shares never returns to zero.\<close>

theorem share_value_never_falls:
  assumes "world_inv t1 t2 w" and "s' = storage (run_txs pair_step w txs)"
  shows "pool_k (storage w) * (lp_token_supply s')\<^sup>2 \<le> pool_k s' * (lp_token_supply (storage w))\<^sup>2 \<and>
    (lp_token_supply (storage w) \<noteq> 0 \<longrightarrow> lp_token_supply s' \<noteq> 0)"
  using pair.run_le [OF assms(1), of txs] by (auto simp: world_le_def pool_le_k assms(2) list_all_iff)

theorem share_value_never_falls_witness:
  "\<exists>w txs s'. world_inv ''ALPHA'' ''BETA'' w \<and> s' = storage (run_txs pair_step w txs) \<and> lp_token_supply (storage w) = 1000000 \<and>
     lp_token_supply s' = 1000000 \<and> pair_reserve s' ''ALPHA'' = 1010000 \<and>
     pool_k (storage w) * (lp_token_supply s')\<^sup>2 \<le> pool_k s' * (lp_token_supply (storage w))\<^sup>2"
proof -
  let ?txs = "[ex_tx [new_payment ''ALPHA'' 0 10000] (SwapTokensFixedInput ''BETA'' 19000)]"
  have run: "lp_token_supply (storage (run_txs pair_step ex_world ?txs)) = 1000000 \<and>
      pair_reserve (storage (run_txs pair_step ex_world ?txs)) ''ALPHA'' = 1010000"
    by (simp add: pair_step_def without_result_def ex_world_def ex_tx_def ex_defs pair_eval_defs)
  have start: "lp_token_supply (storage ex_world) = 1000000" by (simp add: ex_world_def ex_defs)
  from share_value_never_falls [OF ex_world_inv refl] run start ex_world_inv show ?thesis
    by blast
qed

text \<open>C2: A pair that was deployed with \<open>init\<close> and has run any list of transactions keeps its
  invariant, and for both pool tokens holds at least its reserve. The locking contract may answer
  with any payment that it has sent, the tokens of the pool included.\<close>

theorem deployed_pair_stays_solvent:
  assumes "pair_init env t1 t2 router owner tf sf adder admins empty_pair_storage = Inr s"
    and "w = run_txs pair_step \<lparr>storage = s, holdings = (\<lambda>_. 0)\<rparr> txs"
  shows "pair_inv (storage w) \<and> first_token_id (storage w) = t1 \<and> second_token_id (storage w) = t2 \<and>
    int (pair_reserve (storage w) t1) \<le> holdings w t1 \<and>
    int (pair_reserve (storage w) t2) \<le> holdings w t2"
proof -
  have "world_inv t1 t2 \<lparr>storage = s, holdings = (\<lambda>_. 0)\<rparr>"
    using pair_init_inv [OF assms(1)] by (simp add: world_inv_def)
  from pair.run_inv [OF this, of txs] show ?thesis
    by (auto simp: assms(2) list_all_iff world_inv_def pool_token_def)
qed

theorem deployed_pair_stays_solvent_witness:
  "\<exists>s txs w. pair_init ex_env ''ALPHA'' ''BETA'' 1 2 300 50 0 [] empty_pair_storage = Inr s \<and>
     w = run_txs pair_step \<lparr>storage = s, holdings = (\<lambda>_. 0)\<rparr> txs \<and>
     pair_reserve (storage w) ''ALPHA'' = 4000 \<and>
     pair_inv (storage w) \<and> int (pair_reserve (storage w) ''ALPHA'') \<le> holdings w ''ALPHA''"
proof -
  let ?txs = "[ex_tx [new_payment ''ALPHA'' 0 4000, new_payment ''BETA'' 0 8000] AddInitialLiquidity]"
  obtain s where s: "pair_init ex_env ''ALPHA'' ''BETA'' 1 2 300 50 0 [] empty_pair_storage = Inr s"
    and run: "pair_reserve (storage (run_txs pair_step \<lparr>storage = s, holdings = (\<lambda>_. 0)\<rparr> ?txs))
        ''ALPHA'' = 4000"
    by (simp add: pair_step_def without_result_def ex_tx_def ex_defs pair_eval_defs pair_init_def
        set_fee_percents_def MAX_FEE_PERCENTAGE_def set_if_empty_token_def add_initial_liquidity_def
        pool_add_initial_liquidity_def)
  from deployed_pair_stays_solvent [OF s refl] s run show ?thesis by blast
qed

text \<open>C3: Swapping into the other token and straight back never returns more than was paid, when the
  pool is in a sound state and both swaps fall outside the locking period, so that they are paid in
  the pool's own tokens. The fees of both swaps go to any destinations.\<close>

theorem swap_and_back_gives_no_profit:
  assumes "pair_inv s" "\<not> should_generate_locked_asset env s" "\<not> should_generate_locked_asset env' s'"
    and "swap_tokens_fixed_input env [new_payment tin 0 a] tout m s = Inr (out, s', es)"
    and "swap_tokens_fixed_input env' [new_payment tout 0 (amount out)] tin m' s' = Inr (back, s'', es')"
  shows "amount back \<le> a"
proof -
  note f = swap_fixed_input_flow [OF assms(1,2,4)] and g = swap_fixed_input_flow [OF f(1) assms(3,5)]
  have "pair_reserve s'' tout \<le> pair_reserve s tout" using f(6) g(5) by simp
  then have "pool_k s'' \<le> pair_reserve s'' tin * pair_reserve s tout"
    by (simp add: g(4))
  moreover have "pair_reserve s tin * pair_reserve s tout \<le> pool_k s''"
    using f(2,3) g(2) by simp
  ultimately have "pair_reserve s tin \<le> pair_reserve s'' tin" using f(8) by (meson le_trans mult_le_cancel2)
  then show ?thesis using f(5) g(6) by simp
qed

theorem swap_and_back_gives_no_profit_witness:
  "\<exists>res s' es back s'' es'.
     swap_tokens_fixed_input ex_env [new_payment ''ALPHA'' 0 10000] ''BETA'' 19000 ex_storage
       = Inr (res, s', es) \<and>
     swap_tokens_fixed_input ex_env [new_payment ''BETA'' 0 (amount res)] ''ALPHA'' 9000 s'
       = Inr (back, s'', es') \<and> amount back \<le> 10000"
  using swap_and_back_gives_no_profit
    [OF ex_storage_inv ex_env_not_locking] ex_swap_back by blast

text \<open>C4: Adding liquidity and redeeming the minted shares at once returns at most what the
  deposit used of each token.\<close>

theorem add_then_remove_gives_no_profit:
  assumes "pair_inv s"
    and "add_liquidity env ps m1 m2 s = Inr ((lp, f1, f2), s', es)"
    and "remove_liquidity env' [lp] n1 n2 s' = Inr ((x, y), s'', es')"
  shows "amount x \<le> amount f1 \<and> amount y \<le> amount f2"
proof -
  let ?c = "storage_cache_new s"
  from assms(2) obtain p1 p2 s1 ctx liq c es1 where "ps = [p1, p2]"
    and s1: "update_safe_price env (pair_reserve s (first_token_id s))
       (pair_reserve s (second_token_id s)) (lp_token_supply s) s = Inr s1"
    and "set_optimal_amounts (add_liquidity_context_new p1 p2 m1 m2) ?c = Inr ctx"
    and pool: "if lp_token_supply s = 0
       then pool_add_initial_liquidity (first_token_optimal_amount ctx)
              (second_token_optimal_amount ctx) ?c = Inr (liq, c, es1)
       else pool_add_liquidity (first_token_optimal_amount ctx)
              (second_token_optimal_amount ctx) ?c = Inr (liq, c) \<and> es1 = []"
    and s': "s' = drop_cache c s1"
    and res: "(lp, f1, f2) = (new_payment (lp_token_id c) 0 liq,
            new_payment (cached_first_token_id c) 0 (first_token_optimal_amount ctx),
            new_payment (cached_second_token_id c) 0 (second_token_optimal_amount ctx))"
    by (rule add_liquidity_Inr)
  have deposit: "liq * first_token_reserve c \<le> amount f1 * cached_lp_token_supply c \<and>
    liq * second_token_reserve c \<le> amount f2 * cached_lp_token_supply c \<and>
    same_pool ?c c \<and> cached_lp_token_supply c \<noteq> 0"
  proof (cases "lp_token_supply s = 0")
    case True
    with pool have p: "pool_add_initial_liquidity (first_token_optimal_amount ctx)
        (second_token_optimal_amount ctx) ?c = Inr (liq, c, es1)" by simp
    note add = pool_add_initial_liquidity_Inr [OF p]
    have "first_token_reserve ?c = 0" "second_token_reserve ?c = 0"
      using assms(1) True by (simp_all add: pair_inv_def pool_ok_def)
    with res add(2) show ?thesis
      by (simp add: add(1) same_pool_def mult.commute)
  next
    case False
    with pool have p: "pool_add_liquidity (first_token_optimal_amount ctx)
        (second_token_optimal_amount ctx) ?c = Inr (liq, c)" by simp
    note add = pool_add_liquidity_Inr [OF p]
    from res add(2,5,6) show ?thesis
      by (simp add: add(1) same_pool_def distrib_left mult.commute)
  qed
  note v = pool_values_drop [OF _ update_safe_price_framed' [OF s1], of c]
  have ids: "first_token_id s \<noteq> second_token_id s" using assms(1) by (simp add: pair_inv_def)
  from assms(3) obtain p s2 ctx' c' where p: "[lp] = [p]"
    and pool': "pool_remove_liquidity (remove_liquidity_context_new (amount p) n1 n2)
       (storage_cache_new s') = Inr (ctx', c')"
    and res': "(x, y) = (new_payment (cached_first_token_id c') 0 (first_token_amount_removed ctx'),
            new_payment (cached_second_token_id c') 0 (second_token_amount_removed ctx'))"
    by (rule remove_liquidity_Inr)
  from pool' have "amount x * cached_lp_token_supply c \<le> liq * first_token_reserve c"
    "amount y * cached_lp_token_supply c \<le> liq * second_token_reserve c"
    using res' res p deposit v ids s'
    by (auto elim!: pool_remove_liquidity_Inr simp: remove_liquidity_context_new_def)
  with deposit have "amount x * cached_lp_token_supply c \<le> amount f1 * cached_lp_token_supply c"
    "amount y * cached_lp_token_supply c \<le> amount f2 * cached_lp_token_supply c" by linarith+
  with deposit show ?thesis by simp
qed

theorem add_then_remove_gives_no_profit_witness:
  "\<exists>lp f1 f2 s' es x y s'' es'.
     add_liquidity ex_env [new_payment ''ALPHA'' 0 5000, new_payment ''BETA'' 0 20000] 1 1 ex_storage
       = Inr ((lp, f1, f2), s', es) \<and>
     remove_liquidity ex_env [lp] 1 1 s' = Inr ((x, y), s'', es') \<and>
     amount x \<le> amount f1 \<and> amount y \<le> amount f2"
  using add_then_remove_gives_no_profit [OF ex_storage_inv] ex_add_remove by metis

text \<open>Outside the locking period a swap of a fixed input pays exactly what \<open>getAmountOut\<close> quotes on the state before it:
  at least the caller's bound, more than zero, less than the reserve, sent to the caller.\<close>

theorem swap_fixed_input_pays_the_view:
  assumes "pair_inv s" and "\<not> should_generate_locked_asset env s"
    and "swap_tokens_fixed_input env ps tout amin s = Inr (res, s', es)"
  shows "\<exists>p. ps = [p] \<and> get_amount_out_view s (token_identifier p) (amount p) = Inr (amount res) \<and>
    token_identifier res = tout \<and> amin \<le> amount res \<and>
    0 < amount res \<and> amount res < pair_reserve s tout \<and>
    DirectSend (get_caller env) [res] \<in> set es"
proof -
  let ?c = "storage_cache_new s"
  from assms obtain p ord where ps: "ps = [p]"
    and ord: "get_swap_tokens_order ?c (token_identifier p) tout = Inr ord"
    and res: "res = new_payment tout 0 (curve_with_fee (total_fee_percent s) (amount p)
       (get_reserve_in ?c ord) (get_reserve_out ?c ord))"
    and b: "amin \<le> amount res" "0 < amount res" "amount res < get_reserve_out ?c ord"
    and sent: "DirectSend (get_caller env) [res] \<in> set es"
    by (rule swap_input_paid)
  have f: "0 < unat (MAX_PERCENTAGE - total_fee_percent s)"
    using assms(1) by (intro fees_ok_factor) (simp add: pair_inv_def)
  have pos: "0 < amount p"
    using b(2) by (cases "amount p = 0") (simp_all add: res curve_with_fee_def)
  have d: "first_token_id s \<noteq> second_token_id s" using assms(1) by (simp add: pair_inv_def)
  have "get_amount_out_view s (token_identifier p) (amount p) = Inr (amount res)"
    using ord pos f b(3) d unfolding res get_swap_tokens_order_Inr
    by (auto simp: get_amount_out_view_def Let_def and_then_Inr require_Inr get_amount_out_Inr)
  with ps b sent order_reserves [OF ord] show ?thesis by (simp add: res)
qed

theorem swap_fixed_input_pays_the_view_witness:
  "\<exists>res s' es. swap_tokens_fixed_input ex_env [new_payment ''ALPHA'' 0 10000] ''BETA'' 19000
      ex_storage = Inr (res, s', es) \<and>
    get_amount_out_view ex_storage ''ALPHA'' 10000 = Inr (amount res) \<and> 19000 \<le> amount res \<and>
    DirectSend 7 [res] \<in> set es"
proof -
  have "get_caller ex_env = 7" by (simp add: ex_env_def)
  with ex_swap_in swap_fixed_input_pays_the_view [OF ex_storage_inv ex_env_not_locking]
  show ?thesis by fastforce
qed

text \<open>A swap for a fixed output charges exactly what \<open>getAmountIn\<close> quotes on the state before
  it, sends the requested output and refunds the rest of the payment.\<close>

theorem swap_fixed_output_charges_the_view:
  assumes "pair_inv s" and "\<not> should_generate_locked_asset env s"
    and "swap_tokens_fixed_output env ps tout aout s = Inr (res, s', es)"
  shows "\<exists>p a. ps = [p] \<and> get_amount_in_view s tout aout = Inr a \<and> a \<le> amount p \<and>
    res = (new_payment tout 0 aout, new_payment (token_identifier p) 0 (amount p - a)) \<and>
    DirectSend (get_caller env) (if a < amount p then [fst res, snd res] else [fst res]) \<in> set es"
proof -
  let ?c = "storage_cache_new s"
  from assms obtain p ord a where ps: "ps = [p]"
    and ord: "get_swap_tokens_order ?c (token_identifier p) tout = Inr ord"
    and amt: "get_amount_in s aout (get_reserve_in ?c ord) (get_reserve_out ?c ord) = Inr a"
    and a: "a \<le> amount p" and b: "0 < aout" "aout < get_reserve_out ?c ord"
    and res: "res = (new_payment tout 0 aout, new_payment (token_identifier p) 0 (amount p - a))"
    and sent: "DirectSend (get_caller env) (if a < amount p then [fst res, snd res] else [fst res])
      \<in> set es"
    by (rule swap_output_paid)
  have d: "first_token_id s \<noteq> second_token_id s" using assms(1) by (simp add: pair_inv_def)
  have "get_amount_in_view s tout aout = Inr a"
    using ord amt b d unfolding get_swap_tokens_order_Inr
    by (auto simp: get_amount_in_view_def Let_def)
  with ps a res sent show ?thesis by blast
qed

theorem swap_fixed_output_charges_the_view_witness:
  "\<exists>res s' es a. swap_tokens_fixed_output ex_env [new_payment ''ALPHA'' 0 10000] ''BETA'' 19000
      ex_storage = Inr (res, s', es) \<and>
    get_amount_in_view ex_storage ''BETA'' 19000 = Inr a \<and> a \<le> 10000 \<and>
    res = (new_payment ''BETA'' 0 19000, new_payment ''ALPHA'' 0 (10000 - a))"
  using ex_swap_out swap_fixed_output_charges_the_view [OF ex_storage_inv ex_env_not_locking]
  by fastforce

text \<open>C6: Without fee destinations and outside the locking period, an active pool serves every swap
  whose quote reaches the caller's bound: no check of the endpoint can refuse it, and the
  reserves move by exactly the payment and the output.\<close>

theorem swap_within_slippage_is_served:
  assumes inv: "pair_inv s" and active: "pair_state s = Active"
    and fees: "\<not> is_fee_enabled s" and lock: "\<not> should_generate_locked_asset env s"
    and view: "get_amount_out_view s tin a = Inr out" and amin: "0 < amin" "amin \<le> out"
  shows "\<exists>s'. swap_tokens_fixed_input env [new_payment tin 0 a] (other_token s tin) amin s =
      Inr (new_payment (other_token s tin) 0 out, s',
           [DirectSend (get_caller env) [new_payment (other_token s tin) 0 out]]) \<and>
    pair_reserve s' = (pair_reserve s)(tin := pair_reserve s tin + a,
                                       other_token s tin := pair_reserve s (other_token s tin) - out) \<and>
    lp_token_supply s' = lp_token_supply s"
proof -
  let ?c = "storage_cache_new s" and ?tout = "other_token s tin"
  let ?rin = "pair_reserve s tin" and ?rout = "pair_reserve s ?tout"
  note v = get_amount_out_view_Inr [OF inv view]
  have d: "first_token_id s \<noteq> second_token_id s" and fo: "fees_ok s"
    using inv by (simp_all add: pair_inv_def)
  define ord where "ord = (if tin = first_token_id s then PoolOrder else ReverseOrder)"
  have ord: "get_swap_tokens_order ?c tin ?tout = Inr ord"
    using v(5) d by (auto simp: get_swap_tokens_order_def ord_def other_token_def)
  note r = order_reserves [OF ord]
  obtain s1 where s1: "update_safe_price env (pair_reserve s (first_token_id s))
      (pair_reserve s (second_token_id s)) (lp_token_supply s) s = Inr s1"
    using update_safe_price_total [OF inv] by blast
  have fr: "framed s s1" by (rule update_safe_price_framed' [OF s1])
  have s1_eq: "s1 = s\<lparr>price_observations := price_observations s1,
      safe_price_current_index := safe_price_current_index s1\<rparr>"
    by (rule update_safe_price_framed [OF s1])
  have same: "\<not> is_fee_enabled s1" "\<not> should_generate_locked_asset env s1"
    using fees lock by (subst s1_eq, simp add: is_fee_enabled_def should_generate_locked_asset_def)+
  let ?ctx = "swap_context_new tin a ?tout amin ord"
  let ?ctx' = "?ctx\<lparr>final_input_amount := a, final_output_amount := out, fee_amount := 0\<rparr>"
  let ?c' = "set_reserve_out ord (?rout - out) (set_reserve_in ord (?rin + a) ?c)"
  have out: "get_amount_out s1 a ?rin ?rout = Inr out"
    using v(1,3,4) by (simp add: get_amount_out_Inr framed_sel(4) [OF fr])
  have swap: "perform_swap_fixed_input s1 ?ctx ?c = Inr (?ctx', ?c')"
    using same(1) amin v(2) out r
    by (simp add: perform_swap_fixed_input_def Let_def require_def get_special_fee_from_input_def)
  have k: "calculate_k_constant (first_token_reserve ?c) (second_token_reserve ?c)
      \<le> calculate_k_constant (first_token_reserve ?c') (second_token_reserve ?c')"
    using perform_swap_fixed_input_product(1) [OF swap] fo framed_fees_ok [OF fr]
    by (simp add: product_def)
  have build: "build_swap_output_payments env s1 ?ctx' =
      Inr ([new_payment ?tout 0 out, new_payment tin 0 0], [])"
    using same(2) by (simp add: build_swap_output_payments_def swap_context_new_def)
  have "swap_tokens_fixed_input env [new_payment tin 0 a] ?tout amin s =
      Inr (new_payment ?tout 0 out, drop_cache ?c' s1,
           [DirectSend (get_caller env) [new_payment ?tout 0 out]])"
    using amin v(2) active ord r s1 swap k build
    by (simp add: swap_tokens_fixed_input_def Let_def single_esdt_def can_swap_def
        managed_vec_get_def send_multiple_tokens_if_not_zero_def)
  moreover have "pair_reserve (drop_cache ?c' s1) =
      (pair_reserve s)(tin := ?rin + a, ?tout := ?rout - out)"
    using v(5) d by (auto simp: drop_cache_def ord_def other_token_def framed_sel(7) [OF fr])
  ultimately show ?thesis by simp
qed

theorem swap_within_slippage_is_served_witness:
  "\<exists>s'. swap_tokens_fixed_input ex_env [new_payment ''ALPHA'' 0 10000] ''BETA'' 19743
      (ex_storage\<lparr>destination_map := []\<rparr>) =
      Inr (new_payment ''BETA'' 0 19743, s', [DirectSend 7 [new_payment ''BETA'' 0 19743]]) \<and>
    pair_reserve s' ''ALPHA'' = 1010000"
proof -
  let ?s = "ex_storage\<lparr>destination_map := []\<rparr>"
  have "pair_inv ?s" by (simp add: ex_defs ex_inv_defs)
  moreover have "pair_state ?s = Active" "\<not> is_fee_enabled ?s"
    "\<not> should_generate_locked_asset ex_env ?s" "other_token ?s ''ALPHA'' = ''BETA''"
    "get_amount_out_view ?s ''ALPHA'' 10000 = Inr 19743" "get_caller ex_env = 7"
    "pair_reserve ?s ''ALPHA'' = 1000000"
    by (simp_all add: ex_defs is_fee_enabled_def should_generate_locked_asset_def other_token_def
        get_amount_out_view_def get_amount_out_def MAX_PERCENTAGE_def)
  ultimately show ?thesis
    using swap_within_slippage_is_served [of ?s ex_env "''ALPHA''" 10000 19743 19743] by auto
qed

text \<open>The input that \<open>getAmountIn\<close> quotes for an output is enough: \<open>getAmountOut\<close> of it is at
  least that output. It is also minimal up to one unit of rounding.\<close>

theorem amount_views_round_trip:
  assumes "pair_inv s" and "get_amount_in_view s tout out = Inr a"
  shows "(\<exists>out'. get_amount_out_view s (other_token s tout) a = Inr out' \<and> out \<le> out') \<and>
    (\<forall>b out'. get_amount_out_view s (other_token s tout) b = Inr out' \<and> out \<le> out' \<longrightarrow> a \<le> b + 1)"
proof -
  note v = get_amount_in_view_Inr [OF assms]
  have r: "0 < pair_reserve s tout" using v(2) by simp
  show ?thesis
  proof (intro conjI allI impI)
  show "\<exists>out'. get_amount_out_view s (other_token s tout) a = Inr out' \<and> out \<le> out'"
    using amount_in_suffices [OF v(1,2,4)] get_amount_out_view_eq [OF assms(1) v(5) _ r, of a] v(1)
    by (simp add: curve_with_fee_def Let_def)
  fix b out'
  assume b: "get_amount_out_view s (other_token s tout) b = Inr out' \<and> out \<le> out'"
  have "0 < b" using b by (auto simp: get_amount_out_view_def require_Inr)
  then have "out \<le> b * unat (MAX_PERCENTAGE - total_fee_percent s) * pair_reserve s tout
      div (pair_reserve s (other_token s tout) * 100000
           + b * unat (MAX_PERCENTAGE - total_fee_percent s))"
    using b get_amount_out_view_eq [OF assms(1) v(5) _ r, of b]
    by (simp add: curve_with_fee_def Let_def)
  then show "a \<le> b + 1" by (rule amount_in_minimal [OF v(1,2,4) _ v(3)])
  qed
qed

theorem amount_views_round_trip_witness:
  "get_amount_in_view ex_storage ''BETA'' 19742 = Inr 10000 \<and>
   (\<exists>out'. get_amount_out_view ex_storage (other_token ex_storage ''BETA'') 10000 = Inr out' \<and> 19742 \<le> out')"
proof -
  have v: "get_amount_in_view ex_storage ''BETA'' 19742 = Inr 10000"
    by (simp add: ex_defs get_amount_in_view_def get_amount_in_def MAX_PERCENTAGE_def)
  with amount_views_round_trip [OF ex_storage_inv v] show ?thesis by blast
qed

text \<open>A holder can always leave an active pool: when the position is worth the caller's bounds,
  \<open>removeLiquidity\<close> succeeds, burns the shares, and sends exactly what
  \<open>getTokensForGivenPosition\<close> states.\<close>

theorem remove_liquidity_pays_the_position:
  assumes inv: "pair_inv s" and active: "is_state_active (pair_state s)"
    and lp: "is_valid_esdt_identifier env (lp_token_identifier s)"
    and mins: "0 < m1" "0 < m2" "0 < l" and left: "l + MINIMUM_LIQUIDITY \<le> lp_token_supply s"
    and view: "get_tokens_for_given_position s l = Inr (x, y)"
    and slip: "m1 \<le> amount x" "m2 \<le> amount y"
  shows "\<exists>s'. remove_liquidity env [new_payment (lp_token_identifier s) 0 l] m1 m2 s =
      Inr ((x, y), s', [EsdtLocalBurn (lp_token_identifier s) l, DirectSend (get_caller env) [x, y]]) \<and>
    lp_token_supply s' = lp_token_supply s - l \<and>
    pair_reserve s' = (pair_reserve s)(first_token_id s := pair_reserve s (first_token_id s) - amount x,
                                       second_token_id s := pair_reserve s (second_token_id s) - amount y)"
proof -
  let ?c = "storage_cache_new s" and ?S = "lp_token_supply s"
  let ?r1 = "pair_reserve s (first_token_id s)" and ?r2 = "pair_reserve s (second_token_id s)"
  have S: "?S \<noteq> 0" "l < ?S" using left mins by (auto simp: MINIMUM_LIQUIDITY_def)
  have xy: "x = new_payment (first_token_id s) 0 (l * ?r1 div ?S)"
    "y = new_payment (second_token_id s) 0 (l * ?r2 div ?S)"
    using view both_tokens_for_position [OF S(1), of l]
    by (simp_all add: get_tokens_for_given_position_def)
  have r: "0 < ?r1" "0 < ?r2" using inv S by (simp_all add: pair_inv_def pool_ok_def)
  have less: "l * ?r1 div ?S < ?r1" "l * ?r2 div ?S < ?r2"
    using r S by (simp_all add: nat_div_less_iff mult.commute)
  have le: "(?r1 - l * ?r1 div ?S) * (?r2 - l * ?r2 div ?S) \<le> ?r1 * ?r2"
    by (intro mult_le_mono) simp_all
  obtain s1 where s1: "update_safe_price env ?r1 ?r2 ?S s = Inr s1"
    using update_safe_price_total [OF inv] by blast
  note fr = framed_sel [OF update_safe_price_framed' [OF s1]]
  have pos: "0 < l * ?r1 div ?S" "0 < l * ?r2 div ?S" using slip mins by (simp_all add: xy)
  let ?c' = "?c\<lparr>cached_lp_token_supply := ?S - l, first_token_reserve := ?r1 - l * ?r1 div ?S,
     second_token_reserve := ?r2 - l * ?r2 div ?S\<rparr>"
  have pool: "pool_remove_liquidity (remove_liquidity_context_new l m1 m2) ?c =
    Inr (remove_liquidity_context_new l m1 m2
      \<lparr>first_token_amount_removed := l * ?r1 div ?S, second_token_amount_removed := l * ?r2 div ?S\<rparr>, ?c')"
    using left slip pos less S
    by (simp add: pool_remove_liquidity_def get_amounts_removed_def remove_liquidity_context_new_def xy)
  have "remove_liquidity env [new_payment (lp_token_identifier s) 0 l] m1 m2 s =
      Inr ((x, y), drop_cache ?c' s1,
           [EsdtLocalBurn (lp_token_identifier s) l, DirectSend (get_caller env) [x, y]])"
    using active lp mins pos slip le
    by (simp add: remove_liquidity_def Let_def single_esdt_def s1
        pool [unfolded remove_liquidity_context_new_def] calculate_k_constant_def
        build_remove_liq_output_payments_def first_two_def managed_vec_get_def burn_def
        send_multiple_tokens_if_not_zero_def remove_liquidity_context_new_def xy)
  then show ?thesis by (simp add: drop_cache_def xy fr)
qed

theorem remove_liquidity_pays_the_position_witness:
  "\<exists>s'. remove_liquidity ex_env [new_payment ''LPTOKEN'' 0 500] 500 1000 ex_storage =
      Inr ((new_payment ''ALPHA'' 0 500, new_payment ''BETA'' 0 1000), s',
           [EsdtLocalBurn ''LPTOKEN'' 500,
            DirectSend 7 [new_payment ''ALPHA'' 0 500, new_payment ''BETA'' 0 1000]]) \<and>
    lp_token_supply s' = 999500"
proof -
  have "is_state_active (pair_state ex_storage)"
    "is_valid_esdt_identifier ex_env (lp_token_identifier ex_storage)"
    "500 + MINIMUM_LIQUIDITY \<le> lp_token_supply ex_storage" "lp_token_supply ex_storage = 1000000"
    "lp_token_identifier ex_storage = ''LPTOKEN''" "get_caller ex_env = 7"
    "get_tokens_for_given_position ex_storage 500 =
      Inr (new_payment ''ALPHA'' 0 500, new_payment ''BETA'' 0 1000)"
    by (simp_all add: ex_defs is_state_active_def MINIMUM_LIQUIDITY_def
        get_tokens_for_given_position_def get_both_tokens_for_given_position_def
        get_token_for_given_position_def)
  with remove_liquidity_pays_the_position
    [OF ex_storage_inv, of ex_env 500 1000 500 "new_payment ''ALPHA'' 0 500"
        "new_payment ''BETA'' 0 1000"]
  show ?thesis by auto
qed

text \<open>The amounts a deposit uses never exceed the payments, use one of them up, and meet both
  minimums; the check that guards the first of them can never fail.\<close>

theorem set_optimal_amounts_never_exceeds_payment:
  assumes "pool_ok c"
  shows "set_optimal_amounts ctx c \<noteq> Inl ERROR_OPTIMAL_GRATER_THAN_PAID \<and>
    (\<forall>ctx'. set_optimal_amounts ctx c = Inr ctx' \<longrightarrow>
       (let x = first_token_optimal_amount ctx'; y = second_token_optimal_amount ctx' in
        x \<le> amount (first_payment ctx) \<and> y \<le> amount (second_payment ctx) \<and>
        (x = amount (first_payment ctx) \<or> y = amount (second_payment ctx)) \<and>
        (cached_lp_token_supply c \<noteq> 0 \<longrightarrow>
           first_token_amount_min ctx \<le> x \<and> second_token_amount_min ctx \<le> y)))"
proof (cases "cached_lp_token_supply c = 0")
  case True
  then show ?thesis by (simp add: set_optimal_amounts_def Let_def)
next
  case False
  let ?r1 = "first_token_reserve c" and ?r2 = "second_token_reserve c"
  let ?d1 = "amount (first_payment ctx)" and ?d2 = "amount (second_payment ctx)"
  have r: "0 < ?r1" "0 < ?r2" using assms False by (simp_all add: pool_ok_def)
  have cross: "?d2 < ?d1 * ?r2 div ?r1 \<Longrightarrow> ?d2 * ?r1 div ?r2 \<le> ?d1"
    using quote_cross r by blast
  show ?thesis
    using False r cross
    by (auto simp: set_optimal_amounts_def Let_def quote_def require_Inr require_Inl not_le
        ERROR_OPTIMAL_GRATER_THAN_PAID_def ERROR_INSUFFICIENT_FIRST_TOKEN_def
        ERROR_INSUFFICIENT_SECOND_TOKEN_def)
qed

theorem set_optimal_amounts_never_exceeds_payment_witness:
  "pool_ok (storage_cache_new ex_storage) \<and>
   set_optimal_amounts (add_liquidity_context_new (new_payment ''ALPHA'' 0 5000)
       (new_payment ''BETA'' 0 20000) 1 1) (storage_cache_new ex_storage)
     \<noteq> Inl ERROR_OPTIMAL_GRATER_THAN_PAID"
proof -
  have "pool_ok (storage_cache_new ex_storage)" using ex_storage_inv by (simp add: pair_inv_def)
  with set_optimal_amounts_never_exceeds_payment [OF this] show ?thesis by blast
qed

text \<open>Transactions by callers without any permission, none of them the owner account, never
  change permissions, fees, fee destinations, trusted pairs, the whitelist, the locking
  settings or the tokens, and cannot pause or resume an active pool.\<close>

theorem unprivileged_runs_keep_the_configuration:
  assumes "list_all (unprivileged (storage w)) txs"
  shows "same_config (storage w) (storage (run_txs pair_step w txs)) \<and>
    (is_state_active (pair_state (storage w)) \<longrightarrow>
       pair_state (storage (run_txs pair_step w txs)) = pair_state (storage w))"
  using config.run_inv [of "storage w" w txs] assms by (simp add: config_kept_def same_config_refl)

theorem unprivileged_runs_keep_the_configuration_witness:
  "\<exists>txs. list_all (unprivileged (storage ex_world)) txs \<and> length txs = 2 \<and>
     same_config (storage ex_world) (storage (run_txs pair_step ex_world txs))"
proof -
  let ?txs = "[ex_tx [] (SetFeePercents 0 0),
    ex_tx [new_payment ''ALPHA'' 0 10000] (SwapTokensFixedInput ''BETA'' 19000)]"
  have "list_all (unprivileged (storage ex_world)) ?txs"
    by (simp add: unprivileged_def ex_world_def ex_tx_def ex_defs)
  with unprivileged_runs_keep_the_configuration [OF this] show ?thesis by (intro exI [of _ ?txs]) simp
qed

text \<open>C7: Every administration endpoint called without the permission it asks for fails with
  \<open>Permission denied\<close>, whatever its arguments and the state.\<close>

theorem admin_calls_need_their_permission:
  assumes "required_permissions call = Some p" and "\<not> intersects (pair_permissions s (get_caller env)) p"
  shows "exec_call env [] call s = Inl ERROR_PERMISSION_DENIED"
  using assms
  by (cases call)
    (auto simp: admin_call_defs not_payable_def with_permissions_def with_state_def
      add_admin_endpoint_def remove_admin_endpoint_def remove_from_pause_whitelist_def
      pause_def resume_def require_caller_defs)

theorem admin_calls_need_their_permission_witness:
  "exec_call ex_env [] (SetFeePercents 0 0) ex_storage = Inl ERROR_PERMISSION_DENIED \<and>
   \<not> intersects (pair_permissions ex_storage (get_caller ex_env)) (OWNER OR ADMIN)"
proof -
  have p: "\<not> intersects (pair_permissions ex_storage (get_caller ex_env)) (OWNER OR ADMIN)"
    by (simp add: intersects_def ex_defs)
  with admin_calls_need_their_permission [OF _ p, of "SetFeePercents 0 0"] show ?thesis by simp
qed

text \<open>A call succeeds only in a state that allows it: swaps in an active pool, deposits and
  withdrawals in an active or partially active one, the initial deposit in an inactive one.\<close>

theorem calls_follow_the_state:
  assumes "exec_call env ps call s = Inr r"
  shows "pair_state s \<in> allowed_states call"
proof -
  obtain s' es where "exec_call env ps call s = Inr (s', es)" using assms by (cases r) auto
  then show ?thesis
    by (cases call; cases "pair_state s")
      (auto simp: without_result_Inr is_state_active_def add_initial_liquidity_def Let_def
        require_Inr and_then_Inr elim!: add_liquidity_Inr remove_liquidity_Inr swap_no_fee_Inr
        swap_tokens_fixed_input_Inr swap_tokens_fixed_output_Inr)
qed

theorem calls_follow_the_state_witness:
  "\<exists>r. exec_call ex_env [new_payment ''ALPHA'' 0 10000] (SwapTokensFixedInput ''BETA'' 19000) ex_storage
      = Inr r \<and> pair_state ex_storage \<in> allowed_states (SwapTokensFixedInput ''BETA'' 19000)"
proof -
  obtain res s' es where "swap_tokens_fixed_input ex_env [new_payment ''ALPHA'' 0 10000] ''BETA'' 19000
    ex_storage = Inr (res, s', es)" using ex_swap_in by blast
  then have call: "exec_call ex_env [new_payment ''ALPHA'' 0 10000] (SwapTokensFixedInput ''BETA'' 19000)
    ex_storage = Inr (s', es)" by (simp add: without_result_def)
  with calls_follow_the_state [OF call] show ?thesis by blast
qed

text \<open>The swap without fee and the burning of liquidity are refused to callers that are not on
  the whitelist.\<close>

theorem whitelisted_calls:
  assumes "get_caller env \<notin> set (pair_whitelist s)"
  shows "exec_call env ps (SwapNoFeeAndForward t a) s = Inl ERROR_NOT_WHITELISTED \<and>
    exec_call env [p] (RemoveLiquidityAndBuyBackAndBurnToken t) s = Inl ERROR_NOT_WHITELISTED"
  using assms
  by (simp add: swap_no_fee_def remove_liquidity_and_burn_token_def Let_def single_esdt_def)

theorem whitelisted_calls_witness:
  "get_caller ex_env \<notin> set (pair_whitelist ex_storage) \<and>
   exec_call ex_env [] (SwapNoFeeAndForward ''BETA'' 0) ex_storage = Inl ERROR_NOT_WHITELISTED"
proof -
  have "get_caller ex_env \<notin> set (pair_whitelist ex_storage)" by (simp add: ex_defs)
  with whitelisted_calls [OF this] show ?thesis by blast
qed

text \<open>When no initial liquidity adder is set, any caller may make the first deposit of an
  inactive pool: it succeeds, mints the locked minimum, sends the rest of the shares to the
  caller and makes the pool partially active.\<close>

theorem initial_liquidity_is_open_without_an_adder:
  assumes "initial_liquidity_adder s = None" and "pair_state s = Inactive" and "lp_token_supply s = 0"
    and "MINIMUM_LIQUIDITY < min a1 a2"
  shows "\<exists>s' es. exec_call env
      [new_payment (first_token_id s) 0 a1, new_payment (second_token_id s) 0 a2]
      AddInitialLiquidity s = Inr (s', es) \<and>
    pair_state s' = PartialActive \<and> lp_token_supply s' = min a1 a2 \<and>
    EsdtLocalMint (lp_token_identifier s) MINIMUM_LIQUIDITY \<in> set es \<and>
    DirectSend (get_caller env)
      [new_payment (lp_token_identifier s) 0 (min a1 a2 - MINIMUM_LIQUIDITY)] \<in> set es"
proof -
  have pos: "0 < a1" "0 < a2" "MINIMUM_LIQUIDITY \<le> min a1 a2" "\<not> min a1 a2 \<le> MINIMUM_LIQUIDITY"
    using assms(4) by linarith+
  have pool: "pool_add_initial_liquidity a1 a2 (storage_cache_new s) =
    Inr (min a1 a2 - MINIMUM_LIQUIDITY,
         (storage_cache_new s)\<lparr>cached_lp_token_supply := min a1 a2,
            first_token_reserve := pair_reserve s (first_token_id s) + a1,
            second_token_reserve := pair_reserve s (second_token_id s) + a2\<rparr>,
         [EsdtLocalMint (lp_token_identifier s) MINIMUM_LIQUIDITY])"
    using assms(4) pos(3) by (simp add: pool_add_initial_liquidity_def Let_def del: min_less_iff_conj)
  show ?thesis
    using assms(1-3) pos
    by (simp add: without_result_def add_initial_liquidity_def Let_def multi_esdt2_def
        is_state_active_def pool send_payment_non_zero_def send_tokens_non_zero_def drop_cache_def)
qed

theorem initial_liquidity_is_open_without_an_adder_witness:
  "\<exists>s' es. exec_call ex_env [new_payment ''ALPHA'' 0 4000, new_payment ''BETA'' 0 8000]
      AddInitialLiquidity (ex_storage\<lparr>pair_state := Inactive, lp_token_supply := 0\<rparr>) = Inr (s', es) \<and>
    pair_state s' = PartialActive \<and> lp_token_supply s' = 4000"
proof -
  let ?s = "ex_storage\<lparr>pair_state := Inactive, lp_token_supply := 0\<rparr>"
  have "initial_liquidity_adder ?s = None" "pair_state ?s = Inactive" "lp_token_supply ?s = 0"
    "MINIMUM_LIQUIDITY < min 4000 8000" "first_token_id ?s = ''ALPHA''" "second_token_id ?s = ''BETA''"
    by (simp_all add: ex_defs MINIMUM_LIQUIDITY_def)
  with initial_liquidity_is_open_without_an_adder [OF this(1-4), of ex_env] show ?thesis by fastforce
qed

end
