(* ===== verification/PairSafePriceProperties.thy ===== *)
theory PairSafePriceProperties
  imports PairSafePriceFacts PairProperties
begin

text \<open>
  The properties of the safe price: the look-up in the ring, the bounds of the price, and
  their preservation when an observation is recorded, each with an instance on a pair that
  has recorded three rounds.
\<close>

section \<open>The example history\<close>

definition sp_observation :: "biguint \<Rightarrow> biguint \<Rightarrow> u64 \<Rightarrow> u64 \<Rightarrow> biguint \<Rightarrow> price_observation" where
  "sp_observation a b w r l =
     \<lparr>first_token_reserve_accumulated = a, second_token_reserve_accumulated = b,
      weight_accumulated = w, recording_round = r, lp_supply_accumulated = l\<rparr>"

definition sp_storage :: pair_storage where
  "sp_storage = ex_storage
     \<lparr>price_observations :=
        [sp_observation 1000 2000 1 10 500, sp_observation 5000 10000 5 14 2500,
         sp_observation 11600 21400 11 20 5500],
       safe_price_current_index := 3,
       pair_reserve := (\<lambda>t. if t = ''ALPHA'' then 1050 else if t = ''BETA'' then 1950 else 0),
       lp_token_supply := 500\<rparr>"

definition sp_bounds :: price_bounds where
  "sp_bounds = \<lparr>first_lo = 1000, first_hi = 1100, second_lo = 1900, second_hi = 2000,
                supply_lo = 500, supply_hi = 500\<rparr>"

lemmas sp_defs = sp_storage_def sp_observation_def sp_bounds_def ex_defs

lemma sp_observations: "observations sp_storage =
    [sp_observation 1000 2000 1 10 500, sp_observation 5000 10000 5 14 2500,
     sp_observation 11600 21400 11 20 5500]"
  by (simp add: observations_def chronological_def sp_storage_def)

lemma sp_history: "history_within sp_storage sp_bounds"
  by (simp add: history_within_def ring_inv_def history_def sp_observations)
    (simp add: sp_defs ring_ok_def MAX_OBSERVATIONS_def rounds_sorted_def grows_def chronological_def)

section \<open>Properties\<close>

text \<open>C9: The ring look-up, with its binary search, wrap-around and interpolation, returns what
  the abstract history of the pair states: the recorded observation of the round, the
  interpolation between the two records around it, or the simulated record after the newest.\<close>

theorem price_observation_view_reads_the_history:
  assumes "ring_inv (price_observations (world pair)) (safe_price_current_index (world pair))"
    and "recording_round (hd (observations (world pair))) \<le> s"
  shows "get_price_observation_view env world pair s = history_at env (world pair) s"
  using oldest_observation [OF assms(1)] assms(2)
    get_price_observation_history [where world = world and env = env, OF assms]
  by (simp add: get_price_observation_view_def Let_def observations_def)

theorem price_observation_view_reads_the_history_witness:
  "get_price_observation_view ex_env (\<lambda>_. sp_storage) 0 12 = history_at ex_env sp_storage 12 \<and>
   history_at ex_env sp_storage 12 = Inr (sp_observation 3000 6000 3 12 1500)"
proof -
  have inv: "ring_inv (price_observations sp_storage) (safe_price_current_index sp_storage)"
    using sp_history by (simp add: history_within_def)
  have hd: "recording_round (hd (observations sp_storage)) \<le> 12"
    by (simp add: sp_observations sp_observation_def)
  have "history_at ex_env sp_storage 12 = Inr (sp_observation 3000 6000 3 12 1500)"
    by (simp add: history_at_def sp_observations)
      (simp add: sp_observations sp_observation_def interpolate_observations_def Let_def big_div_def)
  with price_observation_view_reads_the_history
    [where world = "\<lambda>_. sp_storage" and pair = 0 and env = ex_env, OF inv hd]
  show ?thesis by simp
qed

lemma quotient_bounds:
  fixes a n d :: nat
  assumes "n_lo \<le> n" "n \<le> n_hi" "d_lo \<le> d" "d \<le> d_hi" "0 < d_lo"
  shows "a * n_lo div d_hi \<le> a * n div d" "a * n div d \<le> a * n_hi div d_lo"
proof -
  have "a * n_lo div d_hi \<le> a * n div d_hi" using assms(1) by (intro div_le_mono mult_le_mono2)
  also have "\<dots> \<le> a * n div d" using assms(3-5) by (intro div_le_mono2) auto
  finally show "a * n_lo div d_hi \<le> a * n div d" .
  have "a * n div d \<le> a * n div d_lo" using assms(3,5) by (intro div_le_mono2)
  also have "\<dots> \<le> a * n_hi div d_lo" using assms(2) by (intro div_le_mono mult_le_mono2)
  finally show "a * n div d \<le> a * n_hi div d_lo" .
qed

text \<open>C8: The safe price always answers for either token of the pair and a window inside the recorded
  history, and the answer, in the other token, is within the prices that the reserves of that history
  allow: one round of extreme reserves cannot move it outside of their bounds, whatever the
  interpolation rounds. It refuses every other token.\<close>

theorem safe_price_within_history_bounds:
  assumes "history_within (world pair) b" and "0 < first_lo b" "0 < second_lo b"
    and "recording_round (hd (observations (world pair))) \<le> t" and "t < u"
    and "u \<le> get_block_round env" and "first_token_id (world pair) \<noteq> second_token_id (world pair)"
  shows "(token_identifier input = first_token_id (world pair) \<longrightarrow>
      (\<exists>out. get_safe_price env world pair t u input = Inr (new_payment (second_token_id (world pair)) 0 out) \<and>
        amount input * second_lo b div first_hi b \<le> out \<and> out \<le> amount input * second_hi b div first_lo b)) \<and>
    (token_identifier input = second_token_id (world pair) \<longrightarrow>
      (\<exists>out. get_safe_price env world pair t u input = Inr (new_payment (first_token_id (world pair)) 0 out) \<and>
        amount input * first_lo b div second_hi b \<le> out \<and> out \<le> amount input * first_hi b div second_lo b)) \<and>
    (\<not> pool_token (world pair) (token_identifier input) \<longrightarrow>
      get_safe_price env world pair t u input = Inl ERROR_BAD_INPUT_TOKEN)"
proof -
  from window_weighted_amounts [where world = world and pair = pair, OF assms(1,4-6)]
  obtain x y w where win: "get_window env world pair t u = Inr (x, y)"
    and w: "compute_weighted_amounts x y = Inr w"
    and b: "first_lo b \<le> weighted_first_token_reserve w" "weighted_first_token_reserve w \<le> first_hi b"
      "second_lo b \<le> weighted_second_token_reserve w" "weighted_second_token_reserve w \<le> second_hi b"
    by blast
  note bounds = quotient_bounds [OF b(3,4,1,2) assms(2), of "amount input"]
    quotient_bounds [OF b(1-4) assms(3), of "amount input"]
  have pos: "0 < weighted_first_token_reserve w" "0 < weighted_second_token_reserve w"
    using b assms(2,3) by simp_all
  show ?thesis
    using win w pos bounds assms(7)
    by (simp add: get_safe_price_def compute_weighted_price_def Let_def pool_token_def new_payment_def)
qed

theorem safe_price_within_history_bounds_witness:
  "(\<exists>out. get_safe_price ex_env (\<lambda>_. sp_storage) 0 12 30 (new_payment ''ALPHA'' 0 1000)
       = Inr (new_payment ''BETA'' 0 out) \<and> 1727 \<le> out \<and> out \<le> 2000) \<and>
   (\<exists>out. get_safe_price ex_env (\<lambda>_. sp_storage) 0 12 30 (new_payment ''BETA'' 0 1000)
       = Inr (new_payment ''ALPHA'' 0 out) \<and> 500 \<le> out \<and> out \<le> 578)"
proof -
  have "0 < first_lo sp_bounds" "0 < second_lo sp_bounds" "recording_round (hd (observations sp_storage)) \<le> 12"
    "(12::u64) < 30" "30 \<le> get_block_round ex_env" "first_token_id sp_storage \<noteq> second_token_id sp_storage"
    by (simp_all add: sp_observations) (simp_all add: sp_defs)
  note both = safe_price_within_history_bounds [where world = "\<lambda>_. sp_storage" and pair = 0, OF sp_history this]
  show ?thesis
    using both [of "new_payment ''ALPHA'' 0 1000"] both [of "new_payment ''BETA'' 0 1000"] by (simp add: sp_defs)
qed

text \<open>Valuing liquidity by the safe price always answers inside the recorded history, and
  values each token within the reserves and supplies that the history recorded.\<close>

theorem lp_safe_price_within_history_bounds:
  assumes "history_within (world pair) b" and "0 < supply_lo b"
    and "recording_round (hd (observations (world pair))) \<le> t" and "t < u"
    and "u \<le> get_block_round env"
  shows "\<exists>x y. get_lp_tokens_safe_price env world pair t u l =
      Inr (new_payment (first_token_id (world pair)) 0 x, new_payment (second_token_id (world pair)) 0 y) \<and>
    l * first_lo b div supply_hi b \<le> x \<and> x \<le> l * first_hi b div supply_lo b \<and>
    l * second_lo b div supply_hi b \<le> y \<and> y \<le> l * second_hi b div supply_lo b"
proof -
  from window_weighted_amounts [where world = world and pair = pair, OF assms(1,3-5)]
  obtain a c w where win: "get_window env world pair t u = Inr (a, c)"
    and w: "compute_weighted_amounts a c = Inr w"
    and b: "first_lo b \<le> weighted_first_token_reserve w" "weighted_first_token_reserve w \<le> first_hi b"
      "second_lo b \<le> weighted_second_token_reserve w" "weighted_second_token_reserve w \<le> second_hi b"
    and lp: "weighted_lp_supply w = 0 \<or> supply_lo b \<le> weighted_lp_supply w"
      "weighted_lp_supply w \<le> supply_hi b"
    by blast
  define sup where "sup = (if weighted_lp_supply w = 0 then lp_token_supply (world pair) else weighted_lp_supply w)"
  have sup: "supply_lo b \<le> sup" "sup \<le> supply_hi b" "0 < sup"
    using lp assms(1,2) by (auto simp: sup_def history_within_def)
  have worth: "l * lo div supply_hi b \<le> l * v div sup \<and> l * v div sup \<le> l * hi div supply_lo b"
    if "lo \<le> v" "v \<le> hi" for lo v hi
  proof
    have "l * lo div supply_hi b \<le> l * v div supply_hi b" using that by (intro div_le_mono mult_le_mono2)
    also have "\<dots> \<le> l * v div sup" using sup by (intro div_le_mono2)
    finally show "l * lo div supply_hi b \<le> l * v div sup" .
    have "l * v div sup \<le> l * v div supply_lo b" using sup assms(2) by (intro div_le_mono2)
    also have "\<dots> \<le> l * hi div supply_lo b" using that by (intro div_le_mono mult_le_mono2)
    finally show "l * v div sup \<le> l * hi div supply_lo b" .
  qed
  have "get_lp_tokens_safe_price env world pair t u l =
      Inr (new_payment (first_token_id (world pair)) 0 (l * weighted_first_token_reserve w div sup),
           new_payment (second_token_id (world pair)) 0 (l * weighted_second_token_reserve w div sup))"
    using win w sup(3) by (auto simp: get_lp_tokens_safe_price_def Let_def sup_def)
  with worth [OF b(1,2)] worth [OF b(3,4)] show ?thesis by blast
qed

theorem lp_safe_price_within_history_bounds_witness:
  "\<exists>x y. get_lp_tokens_safe_price ex_env (\<lambda>_. sp_storage) 0 12 30 100 =
      Inr (new_payment ''ALPHA'' 0 x, new_payment ''BETA'' 0 y) \<and> 200 \<le> x \<and> x \<le> 220 \<and> 380 \<le> y \<and> y \<le> 400"
proof -
  have "0 < supply_lo sp_bounds" "recording_round (hd (observations sp_storage)) \<le> 12" "(12::u64) < 30"
    "30 \<le> get_block_round ex_env"
    by (simp_all add: sp_observations) (simp_all add: sp_defs)
  from lp_safe_price_within_history_bounds
    [where world = "\<lambda>_. sp_storage" and pair = 0 and l = 100, OF sp_history this]
  show ?thesis by (simp add: sp_defs)
qed

text \<open>Recording an observation refines a bounded queue: at most one entry per round is
  appended, the oldest is dropped when the ring is full, and a history within bounds stays
  ordered and within bounds when the recorded reserves are.\<close>

theorem recording_keeps_the_history:
  assumes "history_within s b" and "recording_round (last (observations s)) \<le> get_block_round env"
    and "first_lo b \<le> r1" "r1 \<le> first_hi b" "second_lo b \<le> r2" "r2 \<le> second_hi b"
      "supply_lo b \<le> lp" "lp \<le> supply_hi b"
  shows "\<exists>s'. update_safe_price env r1 r2 lp s = Inr s' \<and> history_within s' b \<and>
    observations s' = abstract_update (get_block_round env) r1 r2 lp (observations s)"
proof -
  have "ring_ok (price_observations s) (safe_price_current_index s)"
    using assms(1) by (simp add: history_within_def ring_inv_def)
  from update_safe_price_refines [OF this, of env r1 r2 lp]
    update_safe_price_history_within [OF assms(1) _ assms(2-8)]
  show ?thesis by blast
qed

theorem recording_keeps_the_history_witness:
  "\<exists>s'. update_safe_price ex_env 1020 1990 500 sp_storage = Inr s' \<and> history_within s' sp_bounds \<and>
     length (observations s') = 4"
proof -
  have "recording_round (last (observations sp_storage)) \<le> get_block_round ex_env"
    by (simp add: sp_observations) (simp add: sp_defs)
  from recording_keeps_the_history [OF sp_history this, of 1020 1990 500] obtain s' where
    s': "update_safe_price ex_env 1020 1990 500 sp_storage = Inr s'" "history_within s' sp_bounds"
    and q: "observations s' = abstract_update (get_block_round ex_env) 1020 1990 500 (observations sp_storage)"
    by (auto simp: sp_bounds_def)
  have "length (observations s') = 4"
    unfolding q sp_observations
    by (simp add: abstract_update_def queue_push_def MAX_OBSERVATIONS_def Let_def sp_defs)
  with s' show ?thesis by blast
qed

end
