(* ===== verification/CommonLib.thy ===== *)
theory CommonLib
  imports CommonModules
begin

text \<open>
  The libraries that the contracts share: \<open>common/modules/math\<close>, the traits \<open>Mergeable\<close>
  and \<open>FixedSupplyToken\<close>, \<open>token_merge_helper\<close>, \<open>sc_whitelist_module\<close> and the checks of
  \<open>utils\<close>. The two traits are the locales \<open>mergeable\<close> and \<open>fixed_supply\<close>; what a merged
  position is worth, and that merging conserves supply, is proved once in
  \<open>mergeable_supply\<close>. The attributes of a farm position (\<open>farm_types.rs\<close>) implement both.
\<close>

section \<open>math\<close>

text \<open>
  The generic functions at the types the contracts use them with: \<open>linear_interpolation\<close>
  and one use of \<open>safe_sub\<close> at \<open>u64\<close>, where the arithmetic wraps, the averages at
  \<open>BigUint\<close>.
\<close>

definition linear_interpolation :: "u64 \<Rightarrow> u64 \<Rightarrow> u64 \<Rightarrow> u64 \<Rightarrow> u64 \<Rightarrow> error + u64" where
  "linear_interpolation min_in max_in current_in min_out max_out =
     (if current_in < min_in \<or> max_in < current_in then Inl (SignalError ''Invalid values'')
      else
        let min_out_weighted = min_out * (max_in - current_in);
            max_out_weighted = max_out * (current_in - min_in);
            in_diff = max_in - min_in in
        if in_diff = 0 then Inl DivisionByZero
        else Inr ((min_out_weighted + max_out_weighted) div in_diff))"

definition weighted_average :: "biguint \<Rightarrow> biguint \<Rightarrow> biguint \<Rightarrow> biguint \<Rightarrow> error + biguint" where
  "weighted_average first_value first_weight second_value second_weight =
     (let weight_sum = first_weight + second_weight;
          weighted_sum = first_value * first_weight + second_value * second_weight
      in big_div weighted_sum weight_sum)"

definition weighted_average_round_up ::
  "biguint \<Rightarrow> biguint \<Rightarrow> biguint \<Rightarrow> biguint \<Rightarrow> error + biguint" where
  "weighted_average_round_up first_value first_weight second_value second_weight =
     (let weight_sum = first_weight + second_weight;
          weighted_sum = first_value * first_weight + second_value * second_weight in
      and_then (big_sub (weighted_sum + weight_sum) 1) (\<lambda>x. big_div x weight_sum))"

definition safe_sub :: "biguint \<Rightarrow> biguint \<Rightarrow> biguint" where
  "safe_sub first_value second_value =
     (if second_value < first_value then first_value - second_value else 0)"

definition safe_sub_u64 :: "u64 \<Rightarrow> u64 \<Rightarrow> u64" where
  "safe_sub_u64 first_value second_value =
     (if second_value < first_value then first_value - second_value else 0)"

lemma safe_sub_eq [simp]: "safe_sub a b = a - b"
  by (simp add: safe_sub_def)

lemma safe_sub_u64_unat [simp]: "unat (safe_sub_u64 a b) = unat a - unat b"
  by (auto simp: safe_sub_u64_def unat_sub_u64 word_less_nat_alt word_le_nat_alt)

lemma weighted_average_round_up_Inr [res_simps]:
  "weighted_average_round_up x a y b = Inr r \<longleftrightarrow>
     0 < a + b \<and> r = (x * a + y * b + (a + b) - 1) div (a + b)"
  by (auto simp: weighted_average_round_up_def Let_def res_simps)

text \<open>The rounded average lies between the two values, and is never below the exact one.\<close>

lemma ceil_average:
  fixes x y a b :: nat
  assumes "0 < a + b"
  defines "r \<equiv> (x * a + y * b + (a + b) - 1) div (a + b)"
  shows "x * a + y * b \<le> r * (a + b)" and "r * (a + b) < x * a + y * b + (a + b)"
    and "min x y \<le> r" and "r \<le> max x y"
proof -
  let ?n = "x * a + y * b" and ?w = "a + b"
  show lo: "?n \<le> r * ?w"
  proof (rule ccontr)
    assume "\<not> ?n \<le> r * ?w"
    then have "r * ?w + 1 \<le> ?n" by simp
    then have "(r + 1) * ?w \<le> ?n + ?w - 1" using assms(1) by (simp add: algebra_simps)
    then have "r + 1 \<le> r" unfolding r_def using assms(1) by (simp add: nat_le_div_iff)
    then show False by simp
  qed
  have "r * ?w \<le> ?n + ?w - 1" unfolding r_def by (rule div_mult_le_nat)
  moreover have "0 < ?n + ?w" using assms(1) by simp
  ultimately show hi: "r * ?w < ?n + ?w" by (simp add: le_diff_iff' flip: less_Suc_eq_le)
  have "min x y * ?w \<le> ?n" by (simp add: distrib_left add_mono)
  with lo have "min x y * ?w \<le> r * ?w" by linarith
  with assms(1) show "min x y \<le> r" by (simp only: mult_le_cancel2 simp_thms)
  have "?n \<le> max x y * ?w" by (simp add: distrib_left add_mono)
  with hi have "r * ?w < (max x y + 1) * ?w" by (simp add: distrib_right)
  then have "r < max x y + 1" by (simp only: mult_less_cancel2)
  then show "r \<le> max x y" by simp
qed

section \<open>Mergeable\<close>

definition CANNOT_MERGE :: error where "CANNOT_MERGE = SignalError ''Cannot merge''"

locale mergeable =
  fixes can_merge_with :: "'a \<Rightarrow> 'a \<Rightarrow> bool"
    and merge_with :: "'a \<Rightarrow> 'a \<Rightarrow> error + 'a"
  assumes merge_needs: "merge_with x y = Inr z \<Longrightarrow> can_merge_with x y"
    and merge_refused: "\<not> can_merge_with x y \<Longrightarrow> merge_with x y = Inl CANNOT_MERGE"

text \<open>\<open>merge_with_multiple\<close>, for any implementation of the trait.\<close>

fun merge_with_multiple :: "('a \<Rightarrow> 'a \<Rightarrow> error + 'a) \<Rightarrow> 'a \<Rightarrow> 'a list \<Rightarrow> error + 'a" where
  "merge_with_multiple merge_with x [] = Inr x"
| "merge_with_multiple merge_with x (y # ys) =
     and_then (merge_with x y) (\<lambda>z. merge_with_multiple merge_with z ys)"

definition esdt_can_merge_with :: "esdt_payment \<Rightarrow> esdt_payment \<Rightarrow> bool" where
  "esdt_can_merge_with p q \<longleftrightarrow>
     token_identifier p = token_identifier q \<and> token_nonce p = token_nonce q"

definition esdt_merge_with :: "esdt_payment \<Rightarrow> esdt_payment \<Rightarrow> error + esdt_payment" where
  "esdt_merge_with p q =
     require (esdt_can_merge_with p q) CANNOT_MERGE (Inr (p\<lparr>amount := amount p + amount q\<rparr>))"

section \<open>FixedSupplyToken\<close>

text \<open>\<open>rule_of_three\<close> takes the total supply of the token it is a method of.\<close>

definition rule_of_three :: "biguint \<Rightarrow> biguint \<Rightarrow> biguint \<Rightarrow> error + biguint" where
  "rule_of_three total_supply current_supply full_value =
     (if current_supply = total_supply then Inr full_value
      else big_div (full_value * current_supply) total_supply)"

definition rule_of_three_non_zero_result :: "biguint \<Rightarrow> biguint \<Rightarrow> biguint \<Rightarrow> error + biguint" where
  "rule_of_three_non_zero_result total_supply current_supply full_value =
     and_then (rule_of_three total_supply current_supply full_value) (\<lambda>r.
     if r = 0 then Inl (SignalError ''Zero amount'') else Inr r)"

lemma rule_of_three_le:
  assumes "rule_of_three t c v = Inr r" and "c \<le> t"
  shows "r * t \<le> v * c" "r \<le> v"
proof -
  show le: "r * t \<le> v * c"
    using assms(1) by (auto simp: rule_of_three_def res_simps div_mult_le_nat split: if_splits)
  show "r \<le> v"
  proof (cases "c = t")
    case True
    with assms(1) show ?thesis by (simp add: rule_of_three_def)
  next
    case False
    with assms have "0 < t" by (auto simp: rule_of_three_def res_simps)
    have "r * t \<le> v * t" using le assms(2) by (meson le_trans mult_le_mono2)
    with \<open>0 < t\<close> show ?thesis by simp
  qed
qed

locale fixed_supply =
  fixes get_total_supply :: "'a \<Rightarrow> biguint"
    and into_part :: "'a \<Rightarrow> biguint \<Rightarrow> error + 'a"
  assumes part_supply: "into_part x n = Inr y \<Longrightarrow> get_total_supply y = n"
    and whole: "into_part x (get_total_supply x) = Inr x"

text \<open>A position that can be split and merged: merging adds up the supplies.\<close>

locale mergeable_supply = fixed_supply + mergeable +
  assumes merge_supply: "merge_with x y = Inr z \<Longrightarrow>
    get_total_supply z = get_total_supply x + get_total_supply y"
begin

lemma merge_multiple_supply:
  "merge_with_multiple merge_with x ys = Inr z \<Longrightarrow>
   get_total_supply z = get_total_supply x + sum_list (map get_total_supply ys)"
proof (induction ys arbitrary: x)
  case (Cons y ys)
  then show ?case by (auto simp: and_then_Inr dest!: merge_supply)
qed simp

text \<open>Splitting a position in two and merging the parts gives back its supply.\<close>

lemma split_merge_supply:
  assumes "into_part x n = Inr a" and "into_part x m = Inr b" and "n + m = get_total_supply x"
    and "merge_with a b = Inr z"
  shows "get_total_supply z = get_total_supply x"
  using assms part_supply merge_supply by metis

end

section \<open>farm_types.rs\<close>

record farm_token_attributes =
  reward_per_share :: biguint
  entering_epoch :: u64
  compounded_reward :: biguint
  current_farm_amount :: biguint
  original_owner :: address

definition farm_get_total_supply :: "farm_token_attributes \<Rightarrow> biguint" where
  "farm_get_total_supply a = current_farm_amount a"

definition farm_into_part :: "farm_token_attributes \<Rightarrow> biguint \<Rightarrow> error + farm_token_attributes" where
  "farm_into_part a payment_amount =
     (if payment_amount = farm_get_total_supply a then Inr a
      else
        and_then (rule_of_three (farm_get_total_supply a) payment_amount (compounded_reward a))
          (\<lambda>new_compounded.
        Inr (a\<lparr>compounded_reward := new_compounded, current_farm_amount := payment_amount\<rparr>)))"

definition farm_can_merge_with :: "farm_token_attributes \<Rightarrow> farm_token_attributes \<Rightarrow> bool" where
  "farm_can_merge_with a b \<longleftrightarrow> True"

definition farm_merge_with ::
  "farm_token_attributes \<Rightarrow> farm_token_attributes \<Rightarrow> error + farm_token_attributes" where
  "farm_merge_with a b =
     require (farm_can_merge_with a b) CANNOT_MERGE
    (and_then (weighted_average_round_up (reward_per_share a) (farm_get_total_supply a)
                 (reward_per_share b) (farm_get_total_supply b)) (\<lambda>rps.
     Inr (a\<lparr>reward_per_share := rps,
            compounded_reward := compounded_reward a + compounded_reward b,
            current_farm_amount := current_farm_amount a + current_farm_amount b,
            entering_epoch := max (entering_epoch a) (entering_epoch b)\<rparr>)))"

definition get_initial_farming_tokens :: "farm_token_attributes \<Rightarrow> error + biguint" where
  "get_initial_farming_tokens a = big_sub (current_farm_amount a) (compounded_reward a)"

lemma farm_merge_with_Inr [res_simps]:
  "farm_merge_with a b = Inr c \<longleftrightarrow>
     0 < current_farm_amount a + current_farm_amount b \<and>
     c = a\<lparr>reward_per_share :=
             (reward_per_share a * current_farm_amount a + reward_per_share b * current_farm_amount b
              + (current_farm_amount a + current_farm_amount b) - 1)
             div (current_farm_amount a + current_farm_amount b),
           compounded_reward := compounded_reward a + compounded_reward b,
           current_farm_amount := current_farm_amount a + current_farm_amount b,
           entering_epoch := max (entering_epoch a) (entering_epoch b)\<rparr>"
  by (auto simp: farm_merge_with_def farm_can_merge_with_def farm_get_total_supply_def res_simps)

interpretation farm_position: mergeable_supply farm_get_total_supply farm_into_part
  farm_can_merge_with farm_merge_with
  by unfold_locales
    (auto simp: farm_into_part_def farm_get_total_supply_def farm_can_merge_with_def res_simps
      split: if_splits)

interpretation esdt_payments: mergeable esdt_can_merge_with esdt_merge_with
  by unfold_locales (auto simp: esdt_merge_with_def res_simps)

section \<open>token_merge_helper\<close>

datatype weighted_average_type = Floor | Ceil

text \<open>The weighted average of a data set of values and weights.\<close>

definition weighted_average_dataset ::
  "(biguint \<times> biguint) list \<Rightarrow> weighted_average_type \<Rightarrow> error + biguint" where
  "weighted_average_dataset dataset average_type =
     (let weight_sum = sum_list (map snd dataset);
          elem_weight_sum = sum_list (map (\<lambda>(v, w). v * w) dataset) in
      case average_type of
        Floor \<Rightarrow> big_div elem_weight_sum weight_sum
      | Ceil \<Rightarrow> and_then (big_sub (elem_weight_sum + weight_sum) 1) (\<lambda>x. big_div x weight_sum))"

section \<open>sc_whitelist_module and utils\<close>

definition ONLY_OWNER :: error where
  "ONLY_OWNER = SignalError ''Endpoint can only be called by owner''"

definition add_sc_address_to_whitelist ::
  "('e blockchain_scheme) \<Rightarrow> address \<Rightarrow> address set \<Rightarrow> error + address set" where
  "add_sc_address_to_whitelist env a whitelist =
     require (get_caller env = get_owner_address env) ONLY_OWNER
    (require (a \<notin> whitelist) ERROR_PARAMETERS (Inr (insert a whitelist)))"

definition remove_sc_address_from_whitelist ::
  "('e blockchain_scheme) \<Rightarrow> address \<Rightarrow> address set \<Rightarrow> error + address set" where
  "remove_sc_address_from_whitelist env a whitelist =
     require (get_caller env = get_owner_address env) ONLY_OWNER
    (require (a \<in> whitelist) ERROR_PARAMETERS (Inr (whitelist - {a})))"

definition require_sc_address_whitelisted :: "address set \<Rightarrow> address \<Rightarrow> error + 'a \<Rightarrow> error + 'a" where
  "require_sc_address_whitelisted whitelist a k =
     require (a \<in> whitelist) (SignalError ''Item not whitelisted'') k"

definition get_orig_caller_from_opt ::
  "address set \<Rightarrow> address \<Rightarrow> address option \<Rightarrow> error + address" where
  "get_orig_caller_from_opt whitelist caller opt_orig_caller =
     (case opt_orig_caller of
        Some orig \<Rightarrow> require_sc_address_whitelisted whitelist caller (Inr orig)
      | None \<Rightarrow> Inr caller)"

definition dest_from_optional :: "('e blockchain_scheme) \<Rightarrow> address option \<Rightarrow> address" where
  "dest_from_optional env opt_destination =
     (case opt_destination of Some dest \<Rightarrow> dest | None \<Rightarrow> get_caller env)"

definition get_non_empty_payments :: "esdt_payment list \<Rightarrow> error + esdt_payment list" where
  "get_non_empty_payments ps = require (ps \<noteq> []) (SignalError ''No payments'') (Inr ps)"

definition require_valid_token_id :: "('e blockchain_scheme) \<Rightarrow> token_id \<Rightarrow> error + 'a \<Rightarrow> error + 'a" where
  "require_valid_token_id env t k =
     require (is_valid_esdt_identifier env t) (SignalError ''Invalid token ID'') k"

definition require_sc_address :: "('e blockchain_scheme) \<Rightarrow> address \<Rightarrow> error + 'a \<Rightarrow> error + 'a" where
  "require_sc_address env a k =
     require (a \<noteq> zero_address \<and> is_smart_contract env a) (SignalError ''Invalid SC address'') k"

lemma utils_Inr [res_simps]:
  "require_sc_address_whitelisted wl a k = Inr y \<longleftrightarrow> a \<in> wl \<and> k = Inr y"
  "get_non_empty_payments ps = Inr qs \<longleftrightarrow> ps \<noteq> [] \<and> qs = ps"
  "require_valid_token_id env t k = Inr y \<longleftrightarrow> is_valid_esdt_identifier env t \<and> k = Inr y"
  "require_sc_address env a k = Inr y \<longleftrightarrow> a \<noteq> 0 \<and> is_smart_contract env a \<and> k = Inr y"
  by (auto simp: require_sc_address_whitelisted_def get_non_empty_payments_def
      require_valid_token_id_def require_sc_address_def res_simps)

end
