(* ===== verification/LockedTokens.thy ===== *)
theory LockedTokens
  imports CommonLib
begin

text \<open>
  Locked tokens, as \<open>simple-lock\<close> creates them and the energy factory uses them
  (\<open>basic_lock_unlock.rs\<close>, \<open>locked_token.rs\<close>, \<open>token_attributes.rs\<close>). A locked token is a
  meta token whose nonce stands for its attributes: the original token and the unlock epoch.
  The storage record keeps the mapping from attributes to nonces; the last two fields are the
  contract's account data at the protocol: the attributes each nonce was created with and the
  last nonce. A contract that mixes the modules in extends the record.
\<close>

section \<open>Tokens and attributes\<close>

datatype egld_or_esdt = Egld | Esdt token_id

record egld_or_esdt_payment =
  payment_token :: egld_or_esdt
  payment_nonce :: u64
  payment_amount :: biguint

definition egld_or_esdt_new :: "egld_or_esdt \<Rightarrow> u64 \<Rightarrow> biguint \<Rightarrow> egld_or_esdt_payment" where
  "egld_or_esdt_new t n a = \<lparr>payment_token = t, payment_nonce = n, payment_amount = a\<rparr>"

definition esdt_into :: "esdt_payment \<Rightarrow> egld_or_esdt_payment" where
  "esdt_into p = egld_or_esdt_new (Esdt (token_identifier p)) (token_nonce p) (amount p)"

definition to_esdt_payment :: "egld_or_esdt_payment \<Rightarrow> error + esdt_payment" where
  "to_esdt_payment p =
     (case payment_token p of
        Egld \<Rightarrow> Inl (SignalError ''ESDT expected'')
      | Esdt t \<Rightarrow> Inr (new_payment t (payment_nonce p) (payment_amount p)))"

record locked_token_attributes =
  original_token_id :: egld_or_esdt
  original_token_nonce :: u64
  unlock_epoch :: u64

record locked_token_storage =
  locked_token_id :: "token_id option"
  attributes_to_nonce_mapping :: "locked_token_attributes \<Rightarrow> u64"
  created_attributes :: "u64 \<Rightarrow> locked_token_attributes option"
  last_created_nonce :: u64

datatype previous_status_flag = NotLocked | Locked (locked_token_nonce: u64)

definition previous_status_flag_new :: "u64 \<Rightarrow> previous_status_flag" where
  "previous_status_flag_new n = (if n = 0 then NotLocked else Locked n)"

fun was_locked :: "previous_status_flag \<Rightarrow> bool" where
  "was_locked NotLocked = False"
| "was_locked (Locked n) = True"

record unlocked_payment_wrapper =
  unlocked_payment :: esdt_payment
  status_before :: previous_status_flag

definition get_locked_token_nonce :: "unlocked_payment_wrapper \<Rightarrow> u64" where
  "get_locked_token_nonce w = (case status_before w of NotLocked \<Rightarrow> 0 | Locked n \<Rightarrow> n)"

definition NO_PAYMENT_ERR_MSG :: error where
  "NO_PAYMENT_ERR_MSG = SignalError ''No payment''"

definition INVALID_PAYMENTS_ERR_MSG :: error where
  "INVALID_PAYMENTS_ERR_MSG = SignalError ''Invalid payments''"

definition CANNOT_UNLOCK_YET_ERR_MSG :: error where
  "CANNOT_UNLOCK_YET_ERR_MSG = SignalError ''Cannot unlock yet''"

section \<open>The token mapper\<close>

text \<open>
  \<open>NonFungibleTokenMapper\<close> refuses to work before the token is issued; reading the attributes
  of a nonce the contract has not created fails.
\<close>

definition get_token_id :: "'m locked_token_storage_scheme \<Rightarrow> error + token_id" where
  "get_token_id st =
     (case locked_token_id st of
        None \<Rightarrow> Inl (SignalError ''Invalid token ID'')
      | Some t \<Rightarrow> Inr t)"

definition require_same_token ::
  "'m locked_token_storage_scheme \<Rightarrow> token_id \<Rightarrow> error + 'a \<Rightarrow> error + 'a" where
  "require_same_token st t k =
     and_then (get_token_id st) (\<lambda>id.
     require (t = id) (SignalError ''Invalid payment token'') k)"

fun require_all_same_token ::
  "'m locked_token_storage_scheme \<Rightarrow> esdt_payment list \<Rightarrow> error + 'a \<Rightarrow> error + 'a" where
  "require_all_same_token st [] k = k"
| "require_all_same_token st (p # ps) k =
     require_same_token st (token_identifier p) (require_all_same_token st ps k)"

definition get_token_attributes ::
  "'m locked_token_storage_scheme \<Rightarrow> u64 \<Rightarrow> error + locked_token_attributes" where
  "get_token_attributes st n =
     (case created_attributes st n of
        None \<Rightarrow> Inl (CallFailed ''ESDTNFT token data not found'')
      | Some a \<Rightarrow> Inr a)"

definition nft_add_quantity ::
  "token_id \<Rightarrow> u64 \<Rightarrow> biguint \<Rightarrow> esdt_payment \<times> effect list" where
  "nft_add_quantity t n a = (new_payment t n a, [NftAddQuantity t n a])"

text \<open>\<open>send().esdt_local_burn\<close>, for a fungible token or one with a nonce.\<close>

definition esdt_local_burn :: "token_id \<Rightarrow> u64 \<Rightarrow> biguint \<Rightarrow> effect list" where
  "esdt_local_burn t n a = (if n = 0 then [EsdtLocalBurn t a] else [NftBurn t n a])"

section \<open>token_attributes.rs\<close>

definition INITIAL_SFT_AMOUNT :: biguint where "INITIAL_SFT_AMOUNT = 1"

text \<open>The protocol creates a token under the next nonce.\<close>

definition get_or_create_nonce_for_attributes ::
  "'m locked_token_storage_scheme \<Rightarrow> locked_token_attributes \<Rightarrow>
     error + (u64 \<times> 'm locked_token_storage_scheme \<times> effect list)" where
  "get_or_create_nonce_for_attributes st attributes =
     and_then (get_token_id st) (\<lambda>nft_token_id.
     let existing_nonce = attributes_to_nonce_mapping st attributes in
     if existing_nonce \<noteq> 0 then Inr (existing_nonce, st, [])
     else
       let new_nonce = last_created_nonce st + 1 in
       Inr (new_nonce,
            st\<lparr>created_attributes := (created_attributes st)(new_nonce := Some attributes),
               last_created_nonce := new_nonce,
               attributes_to_nonce_mapping :=
                 (attributes_to_nonce_mapping st)(attributes := new_nonce)\<rparr>,
            [NftCreate nft_token_id INITIAL_SFT_AMOUNT]))"

section \<open>basic_lock_unlock.rs\<close>

definition simple_lock_tokens ::
  "'e blockchain_scheme \<Rightarrow> 'm locked_token_storage_scheme \<Rightarrow> egld_or_esdt_payment \<Rightarrow> u64 \<Rightarrow>
     error + (egld_or_esdt_payment \<times> 'm locked_token_storage_scheme \<times> effect list)" where
  "simple_lock_tokens env st payment unlock =
     require (0 < payment_amount payment) NO_PAYMENT_ERR_MSG
    (let current_epoch = get_block_epoch env in
     if unlock \<le> current_epoch then Inr (payment, st, [])
     else
       let attributes = \<lparr>original_token_id = payment_token payment,
                         original_token_nonce = payment_nonce payment,
                         unlock_epoch = unlock\<rparr> in
       and_then (get_or_create_nonce_for_attributes st attributes) (\<lambda>(sft_nonce, st, es).
       and_then (get_token_id st) (\<lambda>id.
       let (p, es') = nft_add_quantity id sft_nonce (payment_amount payment) in
       Inr (esdt_into p, st, es @ es'))))"

definition direct :: "address \<Rightarrow> egld_or_esdt_payment \<Rightarrow> effect list" where
  "direct to p =
     (case payment_token p of
        Egld \<Rightarrow> [DirectEgld to (payment_amount p)]
      | Esdt t \<Rightarrow> [DirectSend to [new_payment t (payment_nonce p) (payment_amount p)]])"

definition lock_and_send ::
  "'e blockchain_scheme \<Rightarrow> 'm locked_token_storage_scheme \<Rightarrow> address \<Rightarrow> egld_or_esdt_payment \<Rightarrow>
     u64 \<Rightarrow> error + (egld_or_esdt_payment \<times> 'm locked_token_storage_scheme \<times> effect list)" where
  "lock_and_send env st to payment unlock =
     and_then (simple_lock_tokens env st payment unlock) (\<lambda>(out_payment, st, es).
     Inr (out_payment, st, es @ direct to out_payment))"

definition unlock_tokens_unchecked ::
  "esdt_payment \<Rightarrow> locked_token_attributes \<Rightarrow> error + egld_or_esdt_payment" where
  "unlock_tokens_unchecked p attributes =
     require (0 < amount p) NO_PAYMENT_ERR_MSG
       (Inr (egld_or_esdt_new (original_token_id attributes) (original_token_nonce attributes) (amount p)))"

definition unlock_tokens ::
  "'e blockchain_scheme \<Rightarrow> 'm locked_token_storage_scheme \<Rightarrow> esdt_payment \<Rightarrow>
     error + (egld_or_esdt_payment \<times> effect list)" where
  "unlock_tokens env st p =
     require_same_token st (token_identifier p)
    (and_then (get_token_attributes st (token_nonce p)) (\<lambda>attributes.
     require (unlock_epoch attributes \<le> get_block_epoch env) CANNOT_UNLOCK_YET_ERR_MSG
    (and_then (unlock_tokens_unchecked p attributes) (\<lambda>out.
     Inr (out, [NftBurn (token_identifier p) (token_nonce p) (amount p)])))))"

definition unlock_and_send ::
  "'e blockchain_scheme \<Rightarrow> 'm locked_token_storage_scheme \<Rightarrow> address \<Rightarrow> esdt_payment \<Rightarrow>
     error + (egld_or_esdt_payment \<times> effect list)" where
  "unlock_and_send env st to p =
     and_then (unlock_tokens env st p) (\<lambda>(out_payment, es).
     Inr (out_payment, es @ direct to out_payment))"

text \<open>
  \<open>send_tokens_optimal_status\<close> gives tokens that were locked before back as locked tokens
  while their unlock epoch has not come, anything else as it is.
\<close>

definition send_tokens_optimal_status ::
  "'e blockchain_scheme \<Rightarrow> 'm locked_token_storage_scheme \<Rightarrow> address \<Rightarrow> esdt_payment \<Rightarrow>
     previous_status_flag \<Rightarrow> error + (esdt_payment \<times> 'm locked_token_storage_scheme \<times> effect list)" where
  "send_tokens_optimal_status env st to p prev_status =
     (let send = Inr (p, st, [DirectSend to [p]]) in
      if amount p = 0 then Inr (p, st, [])
      else
        case prev_status of
          NotLocked \<Rightarrow> send
        | Locked n \<Rightarrow>
            and_then (get_token_attributes st n) (\<lambda>attributes.
            if get_block_epoch env < unlock_epoch attributes then
              and_then (get_or_create_nonce_for_attributes st attributes) (\<lambda>(nonce, st, es).
              and_then (get_token_id st) (\<lambda>id.
              let (q, es') = nft_add_quantity id nonce (amount p) in
              Inr (q, st, es @ es' @ [DirectSend to [q]])))
            else send))"

section \<open>Nonces stand for attributes\<close>

text \<open>
  The invariant of the mapping: nonce 0 is never created, nothing is created above the last
  nonce, and a mapped nonce was created with the attributes that map to it.
\<close>

definition nonces_ok :: "'m locked_token_storage_scheme \<Rightarrow> bool" where
  "nonces_ok st \<longleftrightarrow>
     created_attributes st 0 = None \<and>
     (\<forall>n a. created_attributes st n = Some a \<longrightarrow> n \<le> last_created_nonce st) \<and>
     (\<forall>a. attributes_to_nonce_mapping st a \<noteq> 0 \<longrightarrow>
        created_attributes st (attributes_to_nonce_mapping st a) = Some a)"

text \<open>What creating tokens may do to the storage: nothing that exists changes.\<close>

definition nonces_extend ::
  "'m locked_token_storage_scheme \<Rightarrow> 'm locked_token_storage_scheme \<Rightarrow> bool" where
  "nonces_extend st st' \<longleftrightarrow>
     (\<forall>n a. created_attributes st n = Some a \<longrightarrow> created_attributes st' n = Some a)"

lemma to_esdt_payment_Inr [res_simps]:
  "to_esdt_payment p = Inr q \<longleftrightarrow>
     payment_token p = Esdt (token_identifier q) \<and> payment_nonce p = token_nonce q \<and>
     payment_amount p = amount q"
  by (cases p; cases q) (auto simp: to_esdt_payment_def new_payment_def split: egld_or_esdt.splits)

lemma payment_sel [simp]:
  "payment_token (egld_or_esdt_new t n a) = t"
  "payment_nonce (egld_or_esdt_new t n a) = n"
  "payment_amount (egld_or_esdt_new t n a) = a"
  "payment_token (esdt_into p) = Esdt (token_identifier p)"
  "payment_nonce (esdt_into p) = token_nonce p"
  "payment_amount (esdt_into p) = amount p"
  by (simp_all add: egld_or_esdt_new_def esdt_into_def)

lemma new_payment_collapse [simp]: "new_payment (token_identifier q) (token_nonce q) (amount q) = q"
  by (simp add: new_payment_def)

lemma direct_esdt: "to_esdt_payment p = Inr q \<Longrightarrow> direct to p = [DirectSend to [q]]"
  by (simp add: direct_def res_simps)

lemma to_esdt_payment_into [simp]: "to_esdt_payment (esdt_into p) = Inr p"
  by (simp add: res_simps)

lemma get_token_id_Inr [res_simps]: "get_token_id st = Inr t \<longleftrightarrow> locked_token_id st = Some t"
  by (simp add: get_token_id_def split: option.splits)

lemma require_same_token_Inr [res_simps]:
  "require_same_token st t k = Inr y \<longleftrightarrow> locked_token_id st = Some t \<and> k = Inr y"
  by (auto simp: require_same_token_def res_simps)

lemma require_all_same_token_Inr [res_simps]:
  "require_all_same_token st ps k = Inr y \<longleftrightarrow>
     (\<forall>p\<in>set ps. locked_token_id st = Some (token_identifier p)) \<and> k = Inr y"
  by (induction ps) (auto simp: res_simps)

lemma get_token_attributes_Inr [res_simps]:
  "get_token_attributes st n = Inr a \<longleftrightarrow> created_attributes st n = Some a"
  by (simp add: get_token_attributes_def split: option.splits)

lemma unlock_tokens_unchecked_Inr [res_simps]:
  "unlock_tokens_unchecked p a = Inr q \<longleftrightarrow>
     0 < amount p \<and> q = egld_or_esdt_new (original_token_id a) (original_token_nonce a) (amount p)"
  by (auto simp: unlock_tokens_unchecked_def res_simps)

lemma unlock_tokens_Inr [res_simps]:
  "unlock_tokens env st p = Inr r \<longleftrightarrow>
     (\<exists>a. locked_token_id st = Some (token_identifier p) \<and>
          created_attributes st (token_nonce p) = Some a \<and>
          unlock_epoch a \<le> get_block_epoch env \<and> 0 < amount p \<and>
          r = (egld_or_esdt_new (original_token_id a) (original_token_nonce a) (amount p),
               [NftBurn (token_identifier p) (token_nonce p) (amount p)]))"
  by (auto simp: unlock_tokens_def res_simps)

lemma nonces_extend_refl [simp]: "nonces_extend st st"
  by (simp add: nonces_extend_def)

lemma nonces_extend_trans [trans]:
  "nonces_extend st st' \<Longrightarrow> nonces_extend st' st'' \<Longrightarrow> nonces_extend st st''"
  by (simp add: nonces_extend_def)

lemma nonces_extendD:
  "nonces_extend st st' \<Longrightarrow> created_attributes st n = Some a \<Longrightarrow> created_attributes st' n = Some a"
  by (simp add: nonces_extend_def)

text \<open>The number of nonces created between two states.\<close>

definition created_between ::
  "'m locked_token_storage_scheme \<Rightarrow> 'm locked_token_storage_scheme \<Rightarrow> nat" where
  "created_between st st' = unat (last_created_nonce st') - unat (last_created_nonce st)"

lemma nonce_counter_step:
  assumes "(n::u64) < - 1"
  shows "unat (n + 1) = unat n + 1" and "n < n + 1" and "n + 1 \<noteq> 0"
proof -
  show u: "unat (n + 1) = unat n + 1"
    using assms by unat_arith
  then show "n < n + 1" by (simp add: word_less_nat_alt)
  from u show "n + 1 \<noteq> 0" by (metis Suc_eq_plus1 Zero_not_Suc unat_0)
qed

lemma get_or_create_nonce_ok:
  assumes "get_or_create_nonce_for_attributes st a = Inr (n, st', es)"
    and "nonces_ok st" and "last_created_nonce st < - 1"
  shows "created_attributes st' n = Some a" and "nonces_ok st'" and "nonces_extend st st'"
    and "locked_token_storage.more st' = locked_token_storage.more st"
    and "locked_token_id st' = locked_token_id st"
    and "inflow t es = (if locked_token_id st = Some t then created_between st st' else 0)"
    and "outflow t es = 0"
    and "unat (last_created_nonce st') = unat (last_created_nonce st) + created_between st st'"
    and "created_between st st' \<le> 1"
    and "created_attributes st' m = created_attributes st m \<or> created_attributes st' m = Some a"
proof -
  let ?n = "last_created_nonce st + 1"
  note step = nonce_counter_step [OF assms(3)]
  have fresh: "created_attributes st ?n = None"
  proof (cases "created_attributes st ?n")
    case (Some b)
    then have "?n \<le> last_created_nonce st" using assms(2) by (auto simp: nonces_ok_def)
    with step(2) show ?thesis by simp
  qed simp
  consider (old) "attributes_to_nonce_mapping st a \<noteq> 0" "n = attributes_to_nonce_mapping st a"
      "st' = st" "es = []"
    | (new) id where "attributes_to_nonce_mapping st a = 0" "n = ?n" "locked_token_id st = Some id"
      "st' = st\<lparr>created_attributes := (created_attributes st)(?n := Some a),
               last_created_nonce := ?n,
               attributes_to_nonce_mapping := (attributes_to_nonce_mapping st)(a := ?n)\<rparr>"
      "es = [NftCreate id INITIAL_SFT_AMOUNT]"
    using assms(1)
    by (auto simp: get_or_create_nonce_for_attributes_def Let_def res_simps split: if_splits)
  note cases = this
  from cases show "created_attributes st' n = Some a"
    using assms(2) by cases (auto simp: nonces_ok_def)
  from cases show "nonces_ok st'"
  proof cases
    case new
    have "created_attributes st m = Some b \<Longrightarrow> m \<le> ?n" for m b
      using assms(2) step(2) by (meson nonces_ok_def order.strict_implies_order order_trans)
    moreover have "attributes_to_nonce_mapping st b \<noteq> ?n" for b
      using assms(2) fresh step(3) by (metis nonces_ok_def option.distinct(1))
    ultimately show ?thesis
      using assms(2) step(3) new by (auto simp: nonces_ok_def)
  qed (use assms(2) in simp)
  from cases show "nonces_extend st st'"
    using fresh by cases (auto simp: nonces_extend_def)
  from cases show "locked_token_storage.more st' = locked_token_storage.more st"
    by cases auto
  from cases show "locked_token_id st' = locked_token_id st" by cases auto
  from cases show "inflow t es = (if locked_token_id st = Some t then created_between st st' else 0)"
    using step(1) by cases (auto simp: created_between_def INITIAL_SFT_AMOUNT_def)
  from cases show "outflow t es = 0" by cases auto
  from cases show "unat (last_created_nonce st') = unat (last_created_nonce st) + created_between st st'"
    and "created_between st st' \<le> 1"
    using step(1) by (cases; simp add: created_between_def)+
  from cases show "created_attributes st' m = created_attributes st m \<or> created_attributes st' m = Some a"
    by cases auto
qed

text \<open>
  Locking: the output is the same amount of the locked token, under a nonce whose attributes
  are the original token and the unlock epoch.
\<close>

definition position_attributes :: "egld_or_esdt_payment \<Rightarrow> u64 \<Rightarrow> locked_token_attributes" where
  "position_attributes p u = \<lparr>original_token_id = payment_token p,
     original_token_nonce = payment_nonce p, unlock_epoch = u\<rparr>"

lemma position_attributes_sel [simp]:
  "original_token_id (position_attributes p u) = payment_token p"
  "original_token_nonce (position_attributes p u) = payment_nonce p"
  "unlock_epoch (position_attributes p u) = u"
  by (simp_all add: position_attributes_def)

lemma simple_lock_tokens_ok:
  assumes "simple_lock_tokens env st p u = Inr (q, st', es)"
    and "get_block_epoch env < u" and "nonces_ok st" and "last_created_nonce st < - 1"
  obtains id n where "locked_token_id st = Some id"
    and "q = egld_or_esdt_new (Esdt id) n (payment_amount p)" and "0 < payment_amount p"
    and "created_attributes st' n = Some (position_attributes p u)"
    and "nonces_ok st'" and "nonces_extend st st'"
    and "locked_token_storage.more st' = locked_token_storage.more st"
    and "locked_token_id st' = locked_token_id st"
    and "\<And>t. inflow t es = (if t = id then payment_amount p + created_between st st' else 0)"
    and "\<And>t. outflow t es = 0"
    and "unat (last_created_nonce st') = unat (last_created_nonce st) + created_between st st'"
    and "created_between st st' \<le> 1"
    and "\<And>m. created_attributes st' m = created_attributes st m \<or>
           created_attributes st' m = Some (position_attributes p u)"
proof -
  obtain n es1 id where g:
    "get_or_create_nonce_for_attributes st (position_attributes p u) = Inr (n, st', es1)"
    and id: "locked_token_id st' = Some id" and "0 < payment_amount p"
    and q: "q = esdt_into (new_payment id n (payment_amount p))"
    and es: "es = es1 @ [NftAddQuantity id n (payment_amount p)]"
    using assms(1,2)
    by (auto simp: simple_lock_tokens_def position_attributes_def nft_add_quantity_def Let_def
        res_simps not_le split: if_splits)
  note ok = get_or_create_nonce_ok [OF g assms(3,4)]
  show thesis
    by (rule that [of id n])
      (use ok id q es \<open>0 < payment_amount p\<close> in \<open>auto simp: esdt_into_def\<close>)
qed

text \<open>Locking never fails for a positive amount once the token is issued.\<close>

lemma simple_lock_tokens_total:
  assumes "locked_token_id st = Some tok" and "0 < payment_amount p"
  shows "\<exists>r. simple_lock_tokens env st p u = Inr r"
  using assms
  by (auto simp: simple_lock_tokens_def get_or_create_nonce_for_attributes_def get_token_id_def
      nft_add_quantity_def Let_def)

text \<open>A locked payment unlocks to what was locked, and not before its epoch.\<close>

lemma lock_unlock_round_trip:
  assumes "simple_lock_tokens env st p u = Inr (q, st', es)" and "get_block_epoch env < u"
    and "nonces_ok st" and "last_created_nonce st < - 1" and "to_esdt_payment q = Inr q'"
  shows "(u \<le> get_block_epoch env' \<longrightarrow> (\<exists>es'. unlock_tokens env' st' q' = Inr (p, es'))) \<and>
    (get_block_epoch env' < u \<longrightarrow> unlock_tokens env' st' q' = Inl CANNOT_UNLOCK_YET_ERR_MSG)"
proof (rule simple_lock_tokens_ok [OF assms(1-4)], goal_cases)
  case (1 id n)
  then have q': "q' = new_payment id n (payment_amount p)"
    using assms(5) by (cases q') (simp add: res_simps new_payment_def)
  have "egld_or_esdt_new (payment_token p) (payment_nonce p) (payment_amount p) = p"
    by (simp add: egld_or_esdt_new_def)
  with 1 q' show ?case
    by (simp add: unlock_tokens_def unlock_tokens_unchecked_def require_same_token_def
        get_token_id_def get_token_attributes_def require_def not_less)
qed

end
