(* ===== verification/Energy.thy ===== *)
theory Energy
  imports CommonLib "HOL-Library.Multiset"
begin

text \<open>
  A user's energy (\<open>locked-asset/energy-factory/src/energy.rs\<close>): a running sum, depleted by
  the locked amount every epoch, that stands for \<open>amount * (unlock_epoch - current_epoch)\<close>
  over the user's locked positions. That meaning is the abstract specification \<open>exact\<close>, over
  the multiset of the positions; every operation is shown to keep it.
\<close>

section \<open>energy.rs\<close>

record energy =
  energy_amount :: int
  last_update_epoch :: u64
  total_locked_tokens :: biguint

definition energy_new :: "int \<Rightarrow> u64 \<Rightarrow> biguint \<Rightarrow> energy" where
  "energy_new a e t = \<lparr>energy_amount = a, last_update_epoch = e, total_locked_tokens = t\<rparr>"

definition energy_default :: energy where
  "energy_default = energy_new 0 0 0"

definition new_zero_energy :: "u64 \<Rightarrow> energy" where
  "new_zero_energy current_epoch = energy_new 0 current_epoch 0"

definition energy_add :: "energy \<Rightarrow> u64 \<Rightarrow> u64 \<Rightarrow> biguint \<Rightarrow> energy" where
  "energy_add self future_epoch current_epoch amount_per_epoch =
     (if future_epoch \<le> current_epoch then self
      else
        let epochs_diff = future_epoch - current_epoch;
            energy_added = amount_per_epoch * unat epochs_diff
        in self\<lparr>energy_amount := energy_amount self + int energy_added\<rparr>)"

definition energy_subtract :: "energy \<Rightarrow> u64 \<Rightarrow> u64 \<Rightarrow> biguint \<Rightarrow> energy" where
  "energy_subtract self past_epoch current_epoch amount_per_epoch =
     (if current_epoch \<le> past_epoch then self
      else
        let epoch_diff = current_epoch - past_epoch;
            energy_decrease = amount_per_epoch * unat epoch_diff
        in self\<lparr>energy_amount := energy_amount self - int energy_decrease\<rparr>)"

definition deplete :: "energy \<Rightarrow> u64 \<Rightarrow> energy" where
  "deplete self current_epoch =
     (if last_update_epoch self = current_epoch then self
      else
        let self =
          (if 0 < total_locked_tokens self
           then energy_subtract self (last_update_epoch self) current_epoch (total_locked_tokens self)
           else self)
        in self\<lparr>last_update_epoch := current_epoch\<rparr>)"

definition add_energy_raw :: "energy \<Rightarrow> biguint \<Rightarrow> int \<Rightarrow> energy" where
  "add_energy_raw self locked_token_amount e =
     self\<lparr>total_locked_tokens := total_locked_tokens self + locked_token_amount,
          energy_amount := energy_amount self + e\<rparr>"

definition remove_energy_raw :: "energy \<Rightarrow> biguint \<Rightarrow> biguint \<Rightarrow> error + energy" where
  "remove_energy_raw self locked_token_amount e =
     and_then (big_sub (total_locked_tokens self) locked_token_amount) (\<lambda>t.
     Inr (self\<lparr>total_locked_tokens := t, energy_amount := energy_amount self - int e\<rparr>))"

definition add_after_token_lock :: "energy \<Rightarrow> biguint \<Rightarrow> u64 \<Rightarrow> u64 \<Rightarrow> energy" where
  "add_after_token_lock self lock_amount unlock current_epoch =
     (let self = energy_add self unlock current_epoch lock_amount
      in self\<lparr>total_locked_tokens := total_locked_tokens self + lock_amount\<rparr>)"

definition refund_after_token_unlock :: "energy \<Rightarrow> biguint \<Rightarrow> u64 \<Rightarrow> u64 \<Rightarrow> error + energy" where
  "refund_after_token_unlock self unlock_amount unlock current_epoch =
     (let self = energy_add self current_epoch unlock unlock_amount in
      and_then (big_sub (total_locked_tokens self) unlock_amount) (\<lambda>t.
      Inr (self\<lparr>total_locked_tokens := t\<rparr>)))"

definition deplete_after_early_unlock :: "energy \<Rightarrow> biguint \<Rightarrow> u64 \<Rightarrow> u64 \<Rightarrow> error + energy" where
  "deplete_after_early_unlock self unlock_amount unlock current_epoch =
     (let self = energy_subtract self current_epoch unlock unlock_amount in
      and_then (big_sub (total_locked_tokens self) unlock_amount) (\<lambda>t.
      Inr (self\<lparr>total_locked_tokens := t\<rparr>)))"

definition update_after_unlock_any :: "energy \<Rightarrow> biguint \<Rightarrow> u64 \<Rightarrow> u64 \<Rightarrow> error + energy" where
  "update_after_unlock_any self unlock_amount unlock current_epoch =
     (if unlock < current_epoch
      then refund_after_token_unlock self unlock_amount unlock current_epoch
      else deplete_after_early_unlock self unlock_amount unlock current_epoch)"

definition update_after_unlock_epoch_change ::
  "energy \<Rightarrow> biguint \<Rightarrow> u64 \<Rightarrow> u64 \<Rightarrow> u64 \<Rightarrow> error + energy" where
  "update_after_unlock_epoch_change self token_amount old_unlock_epoch new_unlock_epoch current_epoch =
     and_then (update_after_unlock_any self token_amount old_unlock_epoch current_epoch) (\<lambda>self.
     Inr (add_after_token_lock self token_amount new_unlock_epoch current_epoch))"

definition get_energy_amount :: "energy \<Rightarrow> biguint" where
  "get_energy_amount self = (if 0 < energy_amount self then nat \<bar>energy_amount self\<bar> else 0)"

section \<open>EnergyModule\<close>

text \<open>The storage \<open>user_energy\<close>: an entry per user, or none.\<close>

type_synonym energy_map = "address \<Rightarrow> energy option"

definition get_updated_energy_entry_for_user ::
  "'e blockchain_scheme \<Rightarrow> energy_map \<Rightarrow> address \<Rightarrow> energy" where
  "get_updated_energy_entry_for_user env user_energy user =
     (let current_epoch = get_block_epoch env in
      case user_energy user of
        Some e \<Rightarrow> deplete e current_epoch
      | None \<Rightarrow> new_zero_energy current_epoch)"

definition set_energy_entry :: "energy_map \<Rightarrow> address \<Rightarrow> energy \<Rightarrow> energy_map" where
  "set_energy_entry user_energy user new_energy = user_energy(user \<mapsto> new_energy)"

definition get_energy_amount_for_user ::
  "'e blockchain_scheme \<Rightarrow> energy_map \<Rightarrow> address \<Rightarrow> biguint" where
  "get_energy_amount_for_user env user_energy user =
     get_energy_amount (get_updated_energy_entry_for_user env user_energy user)"

section \<open>What an energy entry stands for\<close>

text \<open>A position is an amount and its unlock epoch.\<close>

type_synonym position = "biguint \<times> u64"

definition energy_of :: "position multiset \<Rightarrow> u64 \<Rightarrow> int" where
  "energy_of P c = (\<Sum>(a, u) \<in># P. int a * (uint u - uint c))"

definition locked_of :: "position multiset \<Rightarrow> biguint" where
  "locked_of P = (\<Sum>(a, u) \<in># P. a)"

definition exact :: "energy \<Rightarrow> position multiset \<Rightarrow> bool" where
  "exact e P \<longleftrightarrow> energy_amount e = energy_of P (last_update_epoch e) \<and>
     total_locked_tokens e = locked_of P"

lemma energy_of_simps [simp]:
  "energy_of {#} c = 0"
  "energy_of (add_mset (a, u) P) c = int a * (uint u - uint c) + energy_of P c"
  "energy_of (P + Q) c = energy_of P c + energy_of Q c"
  by (simp_all add: energy_of_def)

lemma locked_of_simps [simp]:
  "locked_of {#} = 0"
  "locked_of (add_mset (a, u) P) = a + locked_of P"
  "locked_of (P + Q) = locked_of P + locked_of Q"
  by (simp_all add: locked_of_def)

lemma energy_of_shift: "energy_of P d = energy_of P c - int (locked_of P) * (uint d - uint c)"
  by (induction P) (auto simp: algebra_simps)

text \<open>A position may be split: only its amount and epoch count.\<close>

lemma exact_split: "exact e (add_mset (a + b, u) P) = exact e (add_mset (a, u) (add_mset (b, u) P))"
  by (simp add: exact_def algebra_simps)

lemma exact_new_zero: "exact (new_zero_energy c) {#}"
  by (simp add: exact_def new_zero_energy_def energy_new_def)

lemma uint_diff: "(b::u64) \<le> a \<Longrightarrow> uint (a - b) = uint a - uint b"
  by (simp add: word_le_def uint_sub_lem)

lemma energy_add_eq:
  "energy_add e f c a = e\<lparr>energy_amount := energy_amount e +
     (if c \<le> f then int a * (uint f - uint c) else 0)\<rparr>"
  by (cases "f = c") (auto simp: energy_add_def Let_def uint_diff)

lemma energy_subtract_eq:
  "energy_subtract e p c a = e\<lparr>energy_amount := energy_amount e -
     (if p \<le> c then int a * (uint c - uint p) else 0)\<rparr>"
  by (cases "p = c") (auto simp: energy_subtract_def Let_def uint_diff)

lemma exact_deplete:
  assumes "exact e P" and "last_update_epoch e \<le> c"
  shows "exact (deplete e c) P"
proof (cases "last_update_epoch e = c")
  case False
  with assms show ?thesis
    by (auto simp: deplete_def exact_def energy_subtract_eq energy_of_shift [of P c "last_update_epoch e"])
qed (use assms in \<open>simp add: deplete_def\<close>)

lemma deplete_epoch [simp]: "last_update_epoch (deplete e c) = c"
  by (auto simp: deplete_def Let_def)

lemma exact_add_after_token_lock:
  assumes "exact e P" and "last_update_epoch e = c" and "c \<le> u"
  shows "exact (add_after_token_lock e a u c) (add_mset (a, u) P)"
  using assms by (simp add: add_after_token_lock_def exact_def energy_add_eq)

lemma add_after_token_lock_epoch [simp]:
  "last_update_epoch (add_after_token_lock e a u c) = last_update_epoch e"
  by (simp add: add_after_token_lock_def energy_add_eq)

lemma exact_refund:
  assumes "refund_after_token_unlock e a u c = Inr e'"
    and "exact e (add_mset (a, u) P)" and "last_update_epoch e = c" and "u \<le> c"
  shows "exact e' P" and "last_update_epoch e' = c"
  using assms by (auto simp: refund_after_token_unlock_def exact_def energy_add_eq res_simps algebra_simps)

lemma exact_deplete_after_early_unlock:
  assumes "deplete_after_early_unlock e a u c = Inr e'"
    and "exact e (add_mset (a, u) P)" and "last_update_epoch e = c" and "c \<le> u"
  shows "exact e' P" and "last_update_epoch e' = c"
  using assms
  by (auto simp: deplete_after_early_unlock_def exact_def energy_subtract_eq res_simps)

lemma exact_update_after_unlock_any:
  assumes "update_after_unlock_any e a u c = Inr e'"
    and "exact e (add_mset (a, u) P)" and "last_update_epoch e = c"
  shows "exact e' P" and "last_update_epoch e' = c"
  using assms exact_refund [of e a u c e' P] exact_deplete_after_early_unlock [of e a u c e' P]
  by (auto simp: update_after_unlock_any_def split: if_splits)

lemma exact_update_after_unlock_epoch_change:
  assumes "update_after_unlock_epoch_change e a u v c = Inr e'"
    and "exact e (add_mset (a, u) P)" and "last_update_epoch e = c" and "c \<le> v"
  shows "exact e' (add_mset (a, v) P)" and "last_update_epoch e' = c"
proof -
  obtain e1 where e1: "update_after_unlock_any e a u c = Inr e1"
    and e': "e' = add_after_token_lock e1 a v c"
    using assms(1) by (auto simp: update_after_unlock_epoch_change_def res_simps)
  note any = exact_update_after_unlock_any [OF e1 assms(2,3)]
  show "exact e' (add_mset (a, v) P)" "last_update_epoch e' = c"
    using any assms(4) by (auto simp: e' exact_add_after_token_lock)
qed

text \<open>An operation that removes a locked amount never fails on an entry that has it.\<close>

lemma update_after_unlock_any_total:
  assumes "exact e (add_mset (a, u) P)"
  shows "\<exists>e'. update_after_unlock_any e a u c = Inr e'"
  using assms
  by (auto simp: update_after_unlock_any_def refund_after_token_unlock_def
      deplete_after_early_unlock_def exact_def energy_add_eq energy_subtract_eq)

lemma exact_updated_entry:
  assumes "case user_energy user of Some e \<Rightarrow> exact e P \<and> last_update_epoch e \<le> get_block_epoch env
    | None \<Rightarrow> P = {#}"
  shows "exact (get_updated_energy_entry_for_user env user_energy user) P"
    and "last_update_epoch (get_updated_energy_entry_for_user env user_energy user) = get_block_epoch env"
  using assms exact_deplete exact_new_zero
  by (auto simp: get_updated_energy_entry_for_user_def Let_def new_zero_energy_def energy_new_def
      split: option.splits)

end
