(* ===== verification/LockOptions.thy ===== *)
theory LockOptions
  imports CommonLib
begin

text \<open>
  The lock options of the energy factory and the penalty of an early unlock
  (\<open>lock_options.rs\<close>, \<open>lock_options_endpoints.rs\<close>, \<open>penalty.rs\<close> and the two calculations of
  \<open>unlock_with_penalty.rs\<close>). The options are a list kept sorted by epochs; the penalty of a
  full unlock interpolates linearly between them. The arithmetic is that of \<open>u64\<close>, where the
  contract's build lets it wrap.
\<close>

section \<open>lock_options.rs\<close>

definition EPOCHS_PER_MONTH :: u64 where "EPOCHS_PER_MONTH = 30"
definition EPOCHS_PER_YEAR :: u64 where "EPOCHS_PER_YEAR = 12 * EPOCHS_PER_MONTH"
definition MAX_PENALTY_PERCENTAGE :: u64 where "MAX_PENALTY_PERCENTAGE = 10000"
definition MAX_LOCK_OPTIONS :: nat where "MAX_LOCK_OPTIONS = 10"

record lock_option =
  lock_epochs :: u64
  penalty_start_percentage :: u64

type_synonym all_lock_options = "lock_option list"

definition lock_option_new :: "u64 \<Rightarrow> u64 \<Rightarrow> lock_option" where
  "lock_option_new e p = \<lparr>lock_epochs = e, penalty_start_percentage = p\<rparr>"

definition lock_option_default :: lock_option where
  "lock_option_default = lock_option_new 0 0"

definition get_lock_options :: "all_lock_options \<Rightarrow> error + all_lock_options" where
  "get_lock_options options =
     require (options \<noteq> []) (SignalError ''no lock options available'') (Inr options)"

definition require_is_listed_lock_option ::
  "all_lock_options \<Rightarrow> u64 \<Rightarrow> error + 'a \<Rightarrow> error + 'a" where
  "require_is_listed_lock_option options epochs k =
     and_then (get_lock_options options) (\<lambda>lock_options.
     require (list_ex (\<lambda>opt. lock_epochs opt = epochs) lock_options)
       (SignalError ''Invalid lock choice'') k)"

definition unlock_epoch_to_start_of_month :: "u64 \<Rightarrow> u64" where
  "unlock_epoch_to_start_of_month unlock =
     (let extra_days = unlock mod EPOCHS_PER_MONTH in unlock - extra_days)"

definition CANNOT_UNWRAP :: error where "CANNOT_UNWRAP = SignalError ''Cannot unwrap value''"

definition unlock_epoch_to_start_of_month_upper_estimate ::
  "'e blockchain_scheme \<Rightarrow> all_lock_options \<Rightarrow> u64 \<Rightarrow> error + u64" where
  "unlock_epoch_to_start_of_month_upper_estimate env options unlock =
     (let lower_bound_unlock = unlock_epoch_to_start_of_month unlock in
      if unlock = lower_bound_unlock then Inr lower_bound_unlock
      else
        let new_unlock_epoch = lower_bound_unlock + EPOCHS_PER_MONTH;
            current_epoch = get_block_epoch env in
        if new_unlock_epoch \<le> current_epoch then Inr new_unlock_epoch
        else
          let new_lock_epochs_unbounded = new_unlock_epoch - current_epoch in
          and_then (get_lock_options options) (\<lambda>lock_options.
          Inr (if new_lock_epochs_unbounded \<le> lock_epochs (last lock_options)
               then new_unlock_epoch else lower_bound_unlock)))"

section \<open>lock_options_endpoints.rs\<close>

definition sort_lock_options :: "all_lock_options \<Rightarrow> all_lock_options" where
  "sort_lock_options options = sort_key lock_epochs options"

text \<open>
  The two checks of neighbours. On an empty list the source computes the end index \<open>0 - 1\<close>
  and reads outside the array without a check: what that comes to is the parameter \<open>outside\<close>, the
  error that ends the call, or \<open>None\<close> when the reads refuse nothing.
\<close>

fun neighbours :: "(lock_option \<Rightarrow> lock_option \<Rightarrow> bool) \<Rightarrow> all_lock_options \<Rightarrow> bool" where
  "neighbours bad (x # y # zs) = (if bad x y then False else neighbours bad (y # zs))"
| "neighbours bad _ = True"

definition require_no_duplicate_lock_epoch_options ::
  "error option \<Rightarrow> all_lock_options \<Rightarrow> error + 'a \<Rightarrow> error + 'a" where
  "require_no_duplicate_lock_epoch_options outside options k =
     (if options = [] then (case outside of Some e \<Rightarrow> Inl e | None \<Rightarrow> k)
      else if neighbours (\<lambda>x y. lock_epochs x = lock_epochs y) options then k
      else Inl (SignalError ''Duplicate lock options''))"

definition require_valid_percentages ::
  "error option \<Rightarrow> all_lock_options \<Rightarrow> error + 'a \<Rightarrow> error + 'a" where
  "require_valid_percentages outside options k =
     (if options = [] then (case outside of Some e \<Rightarrow> Inl e | None \<Rightarrow> k)
      else if neighbours (\<lambda>x y. penalty_start_percentage y \<le> penalty_start_percentage x) options then k
      else Inl (SignalError ''Invalid lock option percentages''))"

fun push_lock_options :: "all_lock_options \<Rightarrow> (u64 \<times> u64) list \<Rightarrow> error + all_lock_options" where
  "push_lock_options options [] = Inr options"
| "push_lock_options options ((epochs, percentage) # pairs) =
     require (EPOCHS_PER_YEAR \<le> epochs \<and> percentage \<le> MAX_PENALTY_PERCENTAGE)
       (SignalError ''Invalid option'')
       (push_lock_options (options @ [lock_option_new epochs percentage]) pairs)"

definition add_lock_options ::
  "error option \<Rightarrow> all_lock_options \<Rightarrow> (u64 \<times> u64) list \<Rightarrow> error + all_lock_options" where
  "add_lock_options outside options new_lock_options =
     (let new_total_options = length options + length new_lock_options in
      require (new_total_options \<le> MAX_LOCK_OPTIONS) (SignalError ''Too many lock options'')
     (and_then (push_lock_options options new_lock_options) (\<lambda>options.
      let options = sort_lock_options options in
      require_no_duplicate_lock_epoch_options outside options
     (require_valid_percentages outside options (Inr options)))))"

text \<open>The endpoint is the owner's; \<open>init\<close> calls the function itself.\<close>

definition add_lock_options_endpoint ::
  "error option \<Rightarrow> 'e blockchain_scheme \<Rightarrow> all_lock_options \<Rightarrow> (u64 \<times> u64) list \<Rightarrow> error + all_lock_options" where
  "add_lock_options_endpoint outside env options new_lock_options =
     require (get_caller env = get_owner_address env) ONLY_OWNER (add_lock_options outside options new_lock_options)"

section \<open>penalty.rs\<close>

text \<open>The loop over neighbours; it leaves the defaults when it finds no interval.\<close>

fun find_interval :: "all_lock_options \<Rightarrow> u64 \<Rightarrow> lock_option \<times> lock_option" where
  "find_interval (x # y # zs) remaining =
     (if lock_epochs x \<le> remaining \<and> remaining \<le> lock_epochs y then (x, y)
      else find_interval (y # zs) remaining)"
| "find_interval _ remaining = (lock_option_default, lock_option_default)"

definition calculate_penalty_percentage_full_unlock :: "all_lock_options \<Rightarrow> u64 \<Rightarrow> error + u64" where
  "calculate_penalty_percentage_full_unlock options lock_epochs_remaining =
     and_then (get_lock_options options) (\<lambda>lock_options.
     require (lock_epochs_remaining \<le> lock_epochs (last lock_options)) (SignalError ''Invalid lock epochs'')
    (let first_lock_option = hd lock_options;
         (prev_option, next_option) =
           (if 1 < length lock_options \<and> lock_epochs first_lock_option < lock_epochs_remaining
            then find_interval lock_options lock_epochs_remaining
            else (lock_option_default, first_lock_option)) in
     linear_interpolation (lock_epochs prev_option) (lock_epochs next_option) lock_epochs_remaining
       (penalty_start_percentage prev_option) (penalty_start_percentage next_option)))"

section \<open>The penalty calculations of unlock_with_penalty.rs\<close>

definition TOKEN_CAN_BE_UNLOCKED_ALREADY_ERR_MSG :: error where
  "TOKEN_CAN_BE_UNLOCKED_ALREADY_ERR_MSG = SignalError ''Token can be unlocked already''"

definition calculate_penalty_percentage_partial_unlock ::
  "all_lock_options \<Rightarrow> u64 \<Rightarrow> u64 \<Rightarrow> error + u64" where
  "calculate_penalty_percentage_partial_unlock options prev_lock_epochs_remaining new_lock_epochs_remaining =
     and_then (calculate_penalty_percentage_full_unlock options prev_lock_epochs_remaining)
       (\<lambda>prev_penalty_percentage_full.
     and_then (calculate_penalty_percentage_full_unlock options new_lock_epochs_remaining)
       (\<lambda>new_penalty_percentage.
     if MAX_PENALTY_PERCENTAGE - new_penalty_percentage = 0 then Inl DivisionByZero
     else Inr ((prev_penalty_percentage_full - new_penalty_percentage) * MAX_PENALTY_PERCENTAGE
               div (MAX_PENALTY_PERCENTAGE - new_penalty_percentage))))"

definition calculate_penalty_amount ::
  "all_lock_options \<Rightarrow> biguint \<Rightarrow> u64 \<Rightarrow> u64 \<Rightarrow> error + biguint" where
  "calculate_penalty_amount options token_amount prev_lock_epochs new_lock_epochs =
     require (0 < prev_lock_epochs) TOKEN_CAN_BE_UNLOCKED_ALREADY_ERR_MSG
    (require (new_lock_epochs < prev_lock_epochs) (SignalError ''Invalid new lock epoch'')
    (and_then
       (if new_lock_epochs = 0 then calculate_penalty_percentage_full_unlock options prev_lock_epochs
        else calculate_penalty_percentage_partial_unlock options prev_lock_epochs new_lock_epochs)
       (\<lambda>penalty_percentage_unlock.
     Inr (token_amount * unat penalty_percentage_unlock div unat MAX_PENALTY_PERCENTAGE))))"

lemmas lock_constants =
  EPOCHS_PER_MONTH_def EPOCHS_PER_YEAR_def MAX_PENALTY_PERCENTAGE_def MAX_LOCK_OPTIONS_def

section \<open>Valid lists of options\<close>

text \<open>
  What \<open>add_lock_options\<close> guarantees: between one and ten options, sorted, of at least a
  year, with percentages that increase with the epochs and are at most one hundred percent.
\<close>

definition valid_lock_options :: "all_lock_options \<Rightarrow> bool" where
  "valid_lock_options options \<longleftrightarrow> options \<noteq> [] \<and> length options \<le> MAX_LOCK_OPTIONS \<and>
     sorted_wrt (\<lambda>x y. lock_epochs x < lock_epochs y \<and>
                       penalty_start_percentage x < penalty_start_percentage y) options \<and>
     (\<forall>x\<in>set options. EPOCHS_PER_YEAR \<le> lock_epochs x \<and>
                      penalty_start_percentage x \<le> MAX_PENALTY_PERCENTAGE)"

lemma neighbours_successively: "neighbours bad xs = successively (\<lambda>x y. \<not> bad x y) xs"
  by (induction bad xs rule: neighbours.induct) auto

lemma push_lock_options_Inr:
  "push_lock_options options pairs = Inr options' \<Longrightarrow>
   options' = options @ map (\<lambda>(e, p). lock_option_new e p) pairs \<and>
   (\<forall>(e, p)\<in>set pairs. EPOCHS_PER_YEAR \<le> e \<and> p \<le> MAX_PENALTY_PERCENTAGE)"
  by (induction options pairs rule: push_lock_options.induct) (auto simp: res_simps)

lemma lock_option_new_sel [simp]:
  "lock_epochs (lock_option_new e p) = e" "penalty_start_percentage (lock_option_new e p) = p"
  by (simp_all add: lock_option_new_def)

lemma add_lock_options_valid:
  assumes "add_lock_options outside options new = Inr options'"
    and "options = [] \<or> valid_lock_options options"
  shows "options' \<noteq> [] \<Longrightarrow> valid_lock_options options'"
    and "set options' = set options \<union> (\<lambda>(e, p). lock_option_new e p) ` set new"
proof -
  let ?bad_epochs = "\<lambda>x y. lock_epochs x = lock_epochs y"
  let ?bad_percentages = "\<lambda>x y. penalty_start_percentage y \<le> penalty_start_percentage x"
  obtain pushed where pushed: "push_lock_options options new = Inr pushed"
    and len: "length options + length new \<le> MAX_LOCK_OPTIONS"
    and options': "options' = sort_key lock_epochs pushed"
    and ok: "neighbours ?bad_epochs options'" "neighbours ?bad_percentages options'"
    using assms(1)
    by (auto simp: add_lock_options_def sort_lock_options_def require_valid_percentages_def
        require_no_duplicate_lock_epoch_options_def Let_def res_simps split: if_splits option.splits)
  note p = push_lock_options_Inr [OF pushed]
  show set_eq: "set options' = set options \<union> (\<lambda>(e, p). lock_option_new e p) ` set new"
    using p options' by simp
  let ?R = "\<lambda>x y. lock_epochs x < lock_epochs y \<and>
      penalty_start_percentage x < penalty_start_percentage y"
  have "sorted (map lock_epochs options')" by (simp add: options')
  then have "sorted_wrt (\<lambda>x y. lock_epochs x \<le> lock_epochs y) options'" by (simp add: sorted_wrt_map)
  then have "successively (\<lambda>x y. lock_epochs x \<le> lock_epochs y) options'"
    by (subst successively_conv_sorted_wrt) (auto intro: transpI)
  with ok have "successively ?R options'"
    unfolding neighbours_successively
    by (induction options' rule: induct_list012) auto
  then have "sorted_wrt ?R options'"
    by (subst (asm) successively_conv_sorted_wrt) (auto intro!: transpI)
  moreover have "\<forall>x\<in>set options'. EPOCHS_PER_YEAR \<le> lock_epochs x \<and>
      penalty_start_percentage x \<le> MAX_PENALTY_PERCENTAGE"
    using set_eq p assms(2) by (auto simp: valid_lock_options_def)
  moreover have "length options' \<le> MAX_LOCK_OPTIONS" using len p options' by simp
  ultimately show "valid_lock_options options'" if "options' \<noteq> []"
    using that by (simp add: valid_lock_options_def)
qed

section \<open>The penalty as a function on naturals\<close>

definition interp :: "nat \<times> nat \<Rightarrow> nat \<times> nat \<Rightarrow> nat \<Rightarrow> nat" where
  "interp x y e = (snd x * (fst y - e) + snd y * (e - fst x)) div (fst y - fst x)"

lemma interp_eq:
  assumes "e1 < e2" "e1 \<le> e" "e \<le> e2" "p1 \<le> p2"
  shows "interp (e1, p1) (e2, p2) e = p1 + (p2 - p1) * (e - e1) div (e2 - e1)"
proof -
  obtain d where p2: "p2 = p1 + d" using assms(4) le_Suc_ex by blast
  obtain f where e: "e = e1 + f" using assms(2) le_Suc_ex by blast
  obtain g where e2: "e2 = e1 + f + g" using assms(3) e le_Suc_ex by blast
  have "p1 * (e2 - e) + p2 * (e - e1) = p1 * (f + g) + d * f"
    by (simp add: p2 e e2 algebra_simps)
  then show ?thesis
    using assms(1) by (simp add: interp_def p2 e e2)
qed

lemma interp_bounds:
  assumes "e1 < e2" "e1 \<le> e" "e \<le> e2" "p1 \<le> p2"
  shows "p1 \<le> interp (e1, p1) (e2, p2) e" "interp (e1, p1) (e2, p2) e \<le> p2"
proof -
  have "(p2 - p1) * (e - e1) div (e2 - e1) \<le> p2 - p1"
    using assms by (intro div_le_of_le_mult mult_le_mono) auto
  then show "p1 \<le> interp (e1, p1) (e2, p2) e" "interp (e1, p1) (e2, p2) e \<le> p2"
    using assms by (auto simp: interp_eq)
qed

lemma interp_mono:
  assumes "e1 < e2" "e1 \<le> e" "e \<le> f" "f \<le> e2" "p1 \<le> p2"
  shows "interp (e1, p1) (e2, p2) e \<le> interp (e1, p1) (e2, p2) f"
proof -
  have "(p2 - p1) * (e - e1) div (e2 - e1) \<le> (p2 - p1) * (f - e1) div (e2 - e1)"
    using assms by (intro div_le_mono mult_le_mono) auto
  then show ?thesis using assms by (simp add: interp_eq)
qed

lemma interp_ends:
  "e1 < e2 \<Longrightarrow> interp (e1, p1) (e2, p2) e1 = p1" "e1 < e2 \<Longrightarrow> interp (e1, p1) (e2, p2) e2 = p2"
  by (simp_all add: interp_def)

lemma linear_interpolation_nat:
  assumes "min_in \<le> cur" "cur \<le> max_in" "min_in < max_in" "min_out \<le> max_out"
    and small: "unat max_out * unat max_in < 2 ^ 64"
  shows "\<exists>r. linear_interpolation min_in max_in cur min_out max_out = Inr r \<and>
    unat r = interp (unat min_in, unat min_out) (unat max_in, unat max_out) (unat cur)"
proof -
  let ?n = "min_out * (max_in - cur) + max_out * (cur - min_in)"
  have le: "unat min_in \<le> unat cur" "unat cur \<le> unat max_in" "unat min_out \<le> unat max_out"
    "unat min_in < unat max_in"
    using assms by (simp_all add: word_le_nat_alt word_less_nat_alt)
  have "unat min_out * (unat max_in - unat cur) + unat max_out * (unat cur - unat min_in)
      \<le> unat max_out * (unat max_in - unat cur) + unat max_out * (unat cur - unat min_in)"
    using le by (intro add_mono mult_le_mono1) auto
  also have "\<dots> = unat max_out * (unat max_in - unat min_in)"
    using le by (simp flip: distrib_left)
  also have "\<dots> \<le> unat max_out * unat max_in" by simp
  finally have bound: "unat min_out * (unat max_in - unat cur) +
      unat max_out * (unat cur - unat min_in) < 2 ^ 64"
    using small by linarith
  have "unat ?n = unat min_out * (unat max_in - unat cur) + unat max_out * (unat cur - unat min_in)"
    using bound assms(1,2) by (simp add: unat_word_ariths unat_sub_u64 mod_add_eq)
  then have "unat (?n div (max_in - min_in)) =
      interp (unat min_in, unat min_out) (unat max_in, unat max_out) (unat cur)"
    using assms(3) by (simp add: unat_div unat_sub_u64 order.strict_implies_order interp_def)
  moreover have "max_in - min_in \<noteq> 0" using assms(3) by auto
  ultimately show ?thesis
    using assms(1,2) by (simp add: linear_interpolation_def Let_def not_less [symmetric])
qed

text \<open>
  The reference: the piecewise linear function through the origin and the options, rounded
  down. Options of at most \<open>2 ^ 50\<close> epochs keep the interpolation inside \<open>u64\<close>.
\<close>

fun piecewise :: "(nat \<times> nat) list \<Rightarrow> nat \<Rightarrow> nat" where
  "piecewise (x # y # zs) e = (if e \<le> fst y then interp x y e else piecewise (y # zs) e)"
| "piecewise _ e = 0"

definition knot :: "lock_option \<Rightarrow> nat \<times> nat" where
  "knot x = (unat (lock_epochs x), unat (penalty_start_percentage x))"

definition penalty_at :: "all_lock_options \<Rightarrow> nat \<Rightarrow> nat" where
  "penalty_at options e = piecewise ((0, 0) # map knot options) e"

definition sane_lock_options :: "all_lock_options \<Rightarrow> bool" where
  "sane_lock_options options \<longleftrightarrow> valid_lock_options options \<and>
     unat (lock_epochs (last options)) \<le> 2 ^ 50"

definition knots_ok :: "(nat \<times> nat) list \<Rightarrow> bool" where
  "knots_ok ks \<longleftrightarrow> sorted_wrt (\<lambda>x y. fst x < fst y \<and> snd x \<le> snd y) ks"

lemma knots_ok_Cons [simp]:
  "knots_ok [x]"
  "knots_ok (x # y # zs) \<longleftrightarrow> fst x < fst y \<and> snd x \<le> snd y \<and> knots_ok (y # zs)"
  by (auto simp: knots_ok_def)

lemma piecewise_bounds:
  assumes "knots_ok ks" "ks \<noteq> []" "2 \<le> length ks" "fst (hd ks) \<le> e" "e \<le> fst (last ks)"
  shows "snd (hd ks) \<le> piecewise ks e \<and> piecewise ks e \<le> snd (last ks)"
  using assms
proof (induction ks e rule: piecewise.induct)
  case (1 x y zs e)
  have zs: "snd y \<le> snd (last (y # zs))"
    using 1(2) by (cases zs) (auto simp: knots_ok_def)
  show ?case
  proof (cases "e \<le> fst y")
    case True
    with 1 zs interp_bounds [of "fst x" "fst y" e "snd x" "snd y"] show ?thesis by auto
  next
    case False
    then have "zs \<noteq> []" using 1(6) by auto
    with False 1 show ?thesis by (fastforce simp: Suc_le_eq)
  qed
qed auto

lemma piecewise_mono:
  assumes "knots_ok ks" "2 \<le> length ks" "fst (hd ks) \<le> e" "e \<le> f" "f \<le> fst (last ks)"
  shows "piecewise ks e \<le> piecewise ks f"
  using assms
proof (induction ks e arbitrary: f rule: piecewise.induct)
  case (1 x y zs e)
  show ?case
  proof (cases "f \<le> fst y")
    case True
    with 1 interp_mono [of "fst x" "fst y" e f "snd x" "snd y"] show ?thesis by auto
  next
    case False
    then have zs: "zs \<noteq> []" using 1(6) by auto
    show ?thesis
    proof (cases "e \<le> fst y")
      case True
      have "piecewise (x # y # zs) e \<le> snd y"
        using True 1 interp_bounds(2) [of "fst x" "fst y" e "snd x" "snd y"] by auto
      also have "snd y \<le> piecewise (y # zs) f"
        using piecewise_bounds [of "y # zs" f] 1 False zs by (auto simp: Suc_le_eq)
      finally show ?thesis using False by simp
    next
      case False
      with 1 zs show ?thesis by (auto simp: Suc_le_eq)
    qed
  qed
qed auto

lemma piecewise_at_knot:
  assumes "knots_ok (k # ks)" "x \<in> set ks"
  shows "piecewise (k # ks) (fst x) = snd x"
  using assms
proof (induction ks arbitrary: k)
  case (Cons y zs)
  show ?case
  proof (cases "x = y")
    case True
    with Cons.prems(1) interp_ends(2) [of "fst k" "fst y" "snd k" "snd y"] show ?thesis by simp
  next
    case False
    then have "x \<in> set zs" using Cons.prems by simp
    moreover have "fst y < fst x" using Cons.prems(1) calculation by (auto simp: knots_ok_def)
    ultimately show ?thesis using Cons by auto
  qed
qed simp

lemma valid_knots:
  assumes "valid_lock_options options"
  shows "knots_ok ((0, 0) # map knot options)" "2 \<le> length ((0, 0) # map knot options)"
    and "last ((0, 0) # map knot options) = knot (last options)"
  using assms
  by (auto simp: valid_lock_options_def knots_ok_def knot_def sorted_wrt_map word_less_nat_alt
      word_le_nat_alt last_map lock_constants Suc_le_eq elim!: sorted_wrt_mono_rel [rotated])

lemma find_interval_piecewise:
  assumes "find_interval options e = (x, y)" "knots_ok (map knot options)" "2 \<le> length options"
    and "lock_epochs (hd options) \<le> e" "e \<le> lock_epochs (last options)"
  shows "interp (knot x) (knot y) (unat e) = piecewise (map knot options) (unat e) \<and>
    lock_epochs x \<le> e \<and> e \<le> lock_epochs y \<and> lock_epochs x < lock_epochs y \<and>
    penalty_start_percentage x \<le> penalty_start_percentage y \<and> y \<in> set options"
  using assms
proof (induction options e rule: find_interval.induct)
  case (1 u v zs e)
  show ?case
  proof (cases "e \<le> lock_epochs v")
    case True
    with 1 show ?thesis by (auto simp: word_le_nat_alt word_less_nat_alt knot_def)
  next
    case False
    then have "zs \<noteq> []" using 1(6) by auto
    with False 1 show ?thesis by (auto simp: word_le_nat_alt knot_def Suc_le_eq)
  qed
qed auto

lemma penalty_percentage_full_unlock_ok:
  assumes sane: "sane_lock_options options" and e: "e \<le> lock_epochs (last options)"
  shows "\<exists>r. calculate_penalty_percentage_full_unlock options e = Inr r \<and>
    unat r = penalty_at options (unat e)"
proof -
  have valid: "valid_lock_options options" and ne: "options \<noteq> []"
    and big: "unat (lock_epochs (last options)) \<le> 2 ^ 50"
    using sane by (auto simp: sane_lock_options_def valid_lock_options_def)
  note knots = valid_knots [OF valid]
  obtain x xs where opts: "options = x # xs" using ne by (cases options) auto
  obtain u v where uv: "(if 1 < length options \<and> lock_epochs (hd options) < e
      then find_interval options e else (lock_option_default, hd options)) = (u, v)"
    by fastforce
  have *: "interp (knot u) (knot v) (unat e) = penalty_at options (unat e) \<and>
    lock_epochs u \<le> e \<and> e \<le> lock_epochs v \<and> lock_epochs u < lock_epochs v \<and>
    penalty_start_percentage u \<le> penalty_start_percentage v \<and> v \<in> set options"
  proof (cases "1 < length options \<and> lock_epochs (hd options) < e")
    case True
    then have "find_interval options e = (u, v)" using uv by simp
    moreover have "knots_ok (map knot options)" using knots(1) opts by simp
    moreover have "2 \<le> length options" "lock_epochs (hd options) \<le> e" using True by auto
    ultimately have "interp (knot u) (knot v) (unat e) = piecewise (map knot options) (unat e) \<and>
        lock_epochs u \<le> e \<and> e \<le> lock_epochs v \<and> lock_epochs u < lock_epochs v \<and>
        penalty_start_percentage u \<le> penalty_start_percentage v \<and> v \<in> set options"
      using e by (rule find_interval_piecewise)
    moreover have "penalty_at options (unat e) = piecewise (map knot options) (unat e)"
      using True opts by (simp add: penalty_at_def knot_def word_less_nat_alt)
    ultimately show ?thesis by simp
  next
    case False
    have "e \<le> lock_epochs x" using False e opts by (cases xs) auto
    with False uv opts valid knots(1) show ?thesis
      by (auto simp: penalty_at_def lock_option_default_def knot_def word_le_nat_alt
          word_less_nat_alt split: if_splits)
  qed
  have "lock_epochs v \<le> lock_epochs (last options)"
    using * valid by (cases options rule: rev_cases)
      (auto simp: valid_lock_options_def sorted_wrt_append intro: order.strict_implies_order)
  moreover have "penalty_start_percentage v \<le> MAX_PENALTY_PERCENTAGE"
    using * valid by (simp add: valid_lock_options_def)
  ultimately have "unat (penalty_start_percentage v) * unat (lock_epochs v) \<le> 10000 * 2 ^ 50"
    using big by (intro mult_le_mono) (auto simp: word_le_nat_alt MAX_PENALTY_PERCENTAGE_def)
  then have "unat (penalty_start_percentage v) * unat (lock_epochs v) < 2 ^ 64" by simp
  with * obtain r where "linear_interpolation (lock_epochs u) (lock_epochs v) e
      (penalty_start_percentage u) (penalty_start_percentage v) = Inr r"
    and "unat r = interp (knot u) (knot v) (unat e)"
    using linear_interpolation_nat [of "lock_epochs u" e "lock_epochs v"
        "penalty_start_percentage u" "penalty_start_percentage v"]
    by (auto simp: knot_def)
  then show ?thesis
    using * e ne uv by (simp add: calculate_penalty_percentage_full_unlock_def get_lock_options_def)
qed

section \<open>The penalty functions compute the reference\<close>

lemma penalty_at_zero [simp]: "penalty_at options 0 = 0"
  by (cases options) (auto simp: penalty_at_def interp_def)

lemma penalty_at_mono:
  assumes "valid_lock_options options" "e \<le> f" "f \<le> unat (lock_epochs (last options))"
  shows "penalty_at options e \<le> penalty_at options f"
  unfolding penalty_at_def using assms valid_knots [OF assms(1)]
  by (intro piecewise_mono) (auto simp: knot_def)

lemma penalty_at_option:
  assumes "valid_lock_options options" "x \<in> set options"
  shows "penalty_at options (unat (lock_epochs x)) = unat (penalty_start_percentage x)"
  using piecewise_at_knot [of "(0, 0)" "map knot options" "knot x"] valid_knots(1) [OF assms(1)]
    assms(2)
  by (simp add: penalty_at_def knot_def)

lemma last_percentage_le:
  "valid_lock_options options \<Longrightarrow> unat (penalty_start_percentage (last options)) \<le> 10000"
  by (auto simp: valid_lock_options_def word_le_nat_alt MAX_PENALTY_PERCENTAGE_def)

lemma penalty_at_le:
  assumes "valid_lock_options options" "e \<le> unat (lock_epochs (last options))"
  shows "penalty_at options e \<le> unat (penalty_start_percentage (last options))"
    and "penalty_at options e \<le> 10000"
proof -
  show "penalty_at options e \<le> unat (penalty_start_percentage (last options))"
    using penalty_at_mono [OF assms(1,2)] penalty_at_option [OF assms(1), of "last options"] assms(1)
    by (simp add: valid_lock_options_def)
  then show "penalty_at options e \<le> 10000" using last_percentage_le [OF assms(1)] by simp
qed

lemma piecewise_less:
  assumes "knots_ok ks" "2 \<le> length ks" "fst (hd ks) \<le> e" "e < fst (last ks)"
    and "\<forall>k\<in>set (butlast ks). snd k < m" "snd (last ks) \<le> m"
  shows "piecewise ks e < m"
  using assms
proof (induction ks e rule: piecewise.induct)
  case (1 x y zs e)
  show ?case
  proof (cases "e \<le> fst y")
    case True
    show ?thesis
    proof (cases zs)
      case (Cons z zs')
      then have "snd y < m" using 1(6) by simp
      with True 1 interp_bounds(2) [of "fst x" "fst y" e "snd x" "snd y"] show ?thesis
        by (auto intro: le_less_trans)
    next
      case Nil
      let ?n = "(snd y - snd x) * (e - fst x)" and ?d = "fst y - fst x"
      have "?n div ?d < snd y - snd x" if "snd x < snd y"
        using that 1(2,4,5) Nil by (simp add: nat_div_less_iff)
      moreover have "snd x < m" using 1(6) by simp
      ultimately have "snd x + ?n div ?d < m"
        using 1(2,7) Nil by (cases "snd x < snd y") auto
      with True 1(2,4) show ?thesis
        using interp_eq [of "fst x" "fst y" e "snd x" "snd y"] by simp
    qed
  next
    case False
    then have "zs \<noteq> []" using 1(5) by auto
    with False 1 show ?thesis by (auto simp: Suc_le_eq)
  qed
qed auto

lemma penalty_at_less:
  assumes "valid_lock_options options" "e < unat (lock_epochs (last options))"
  shows "penalty_at options e < 10000"
proof -
  note knots = valid_knots [OF assms(1)]
  obtain xs x where opts: "options = xs @ [x]"
    using assms(1) by (cases options rule: rev_cases) (auto simp: valid_lock_options_def)
  have last: "unat (penalty_start_percentage x) \<le> 10000"
    using last_percentage_le [OF assms(1)] opts by simp
  have "unat (penalty_start_percentage y) < 10000" if "y \<in> set xs" for y
    using that assms(1) last opts
    by (auto simp: valid_lock_options_def sorted_wrt_append word_less_nat_alt intro: less_le_trans)
  then have "\<forall>k\<in>set (butlast ((0, 0) # map knot options)). snd k < 10000"
    by (auto simp: opts knot_def butlast_append)
  then show ?thesis
    unfolding penalty_at_def using knots assms(2) last opts
    by (intro piecewise_less) (auto simp: knot_def)
qed

text \<open>
  The percentage of a reduction from \<open>P\<close> to \<open>N\<close>: what remains after it, reduced by \<open>N\<close>,
  is what remains after \<open>P\<close>, up to rounding.
\<close>

definition partial_percentage :: "nat \<Rightarrow> nat \<Rightarrow> nat" where
  "partial_percentage P N = (P - N) * 10000 div (10000 - N)"

lemma partial_percentage_zero [simp]: "partial_percentage P 0 = P"
  by (simp add: partial_percentage_def)

lemma partial_percentage_le: "P \<le> 10000 \<Longrightarrow> partial_percentage P N \<le> 10000"
  by (auto simp: partial_percentage_def intro!: div_le_of_le_mult)

lemma penalty_percentage_partial_unlock_ok:
  assumes sane: "sane_lock_options options" and n: "n < p" and p: "p \<le> lock_epochs (last options)"
  shows "\<exists>r. calculate_penalty_percentage_partial_unlock options p n = Inr r \<and>
    unat r = partial_percentage (penalty_at options (unat p)) (penalty_at options (unat n))"
proof -
  have valid: "valid_lock_options options" using sane by (simp add: sane_lock_options_def)
  let ?P = "penalty_at options (unat p)" and ?N = "penalty_at options (unat n)"
  have np: "unat n < unat p" and pl: "unat p \<le> unat (lock_epochs (last options))"
    using n p by (simp_all add: word_less_nat_alt word_le_nat_alt)
  have le: "?N \<le> ?P" "?P \<le> 10000" "?N < 10000"
    using penalty_at_mono [OF valid, of "unat n" "unat p"] penalty_at_le(2) [OF valid pl]
      penalty_at_less [OF valid, of "unat n"] np pl by auto
  obtain wp where wp: "calculate_penalty_percentage_full_unlock options p = Inr wp" "unat wp = ?P"
    using penalty_percentage_full_unlock_ok [OF sane p] by blast
  obtain wn where wn: "calculate_penalty_percentage_full_unlock options n = Inr wn" "unat wn = ?N"
    using penalty_percentage_full_unlock_ok [OF sane, of n] n p by fastforce
  have d: "unat (wp - wn) = ?P - ?N"
    using le wp(2) wn(2) by (simp add: unat_sub_u64 word_le_nat_alt)
  have m: "unat (MAX_PENALTY_PERCENTAGE - wn) = 10000 - ?N"
    using le wn(2) by (simp add: unat_sub_u64 word_le_nat_alt MAX_PENALTY_PERCENTAGE_def)
  then have ne: "MAX_PENALTY_PERCENTAGE - wn \<noteq> 0" using le(3) by (metis unat_0 zero_less_diff less_irrefl)
  have "unat (w * MAX_PENALTY_PERCENTAGE) = unat w * 10000" if "unat w \<le> 10000" for w
    using that by (simp add: unat_word_ariths MAX_PENALTY_PERCENTAGE_def)
  then have "unat ((wp - wn) * MAX_PENALTY_PERCENTAGE) = (?P - ?N) * 10000"
    using d le by simp
  then have "unat ((wp - wn) * MAX_PENALTY_PERCENTAGE div (MAX_PENALTY_PERCENTAGE - wn)) =
      partial_percentage ?P ?N"
    using m by (simp add: unat_div partial_percentage_def)
  with ne wp(1) wn(1) show ?thesis
    by (simp add: calculate_penalty_percentage_partial_unlock_def)
qed

lemma calculate_penalty_amount_ok:
  assumes sane: "sane_lock_options options" and n: "n < p" and p: "p \<le> lock_epochs (last options)"
  shows "calculate_penalty_amount options a p n =
    Inr (a * partial_percentage (penalty_at options (unat p)) (penalty_at options (unat n)) div 10000)"
proof -
  have pos: "0 < p" using n by (metis word_not_simps(1) word_gt_0)
  have M: "unat MAX_PENALTY_PERCENTAGE = 10000" by (simp add: MAX_PENALTY_PERCENTAGE_def)
  show ?thesis
  proof (cases "n = 0")
    case True
    then show ?thesis
      using penalty_percentage_full_unlock_ok [OF sane p] pos M
      by (auto simp: calculate_penalty_amount_def)
  next
    case False
    then show ?thesis
      using penalty_percentage_partial_unlock_ok [OF sane n p] pos n M
      by (auto simp: calculate_penalty_amount_def)
  qed
qed

text \<open>
  Reducing in two steps and leaving, against leaving at once: the two penalties together are
  never more than the one, and at most one part in ten thousand and two units less.
\<close>

lemma two_step_penalty:
  fixes a P N :: nat
  assumes "N \<le> P" "P \<le> 10000" "N < 10000"
  defines "x1 \<equiv> a * partial_percentage P N div 10000"
  defines "x2 \<equiv> (a - x1) * N div 10000"
  defines "x \<equiv> a * P div 10000"
  shows "x1 + x2 \<le> x" and "x \<le> x1 + x2 + a div 10000 + 2"
proof -
  define q where "q = partial_percentage P N"
  obtain d where d: "P = N + d" using assms(1) le_Suc_ex by blast
  obtain m where m: "10000 = N + m" "0 < m" using assms(3) by (metis less_imp_add_positive)
  have dm: "d \<le> m" using assms(2) d m(1) by linarith
  have "10000 - N = m" using m(1) by simp
  then have qd: "q = d * 10000 div m" by (simp add: q_def partial_percentage_def d)
  have q1: "q * m \<le> d * 10000" by (simp add: qd div_mult_le_nat)
  have q2: "d * 10000 < q * m + m"
    using m(2) by (simp add: qd) (metis add.commute dividend_less_div_times)
  have qM: "q \<le> 10000" using assms(2) by (simp add: q_def partial_percentage_le)
  define b where "b = a - x1"
  have x1: "x1 * 10000 \<le> a * q" "a * q < x1 * 10000 + 10000"
    using dividend_less_div_times [of 10000 "a * q"]
    by (simp_all add: x1_def q_def div_mult_le_nat add.commute)
  have "a * q \<le> a * 10000" using qM by simp
  with x1(1) have "x1 \<le> a" by linarith
  then have b: "a = b + x1" by (simp add: b_def)
  have x2: "x2 * 10000 \<le> b * N" "b * N < x2 * 10000 + 10000"
    using dividend_less_div_times [of 10000 "b * N"]
    by (simp_all add: x2_def b_def div_mult_le_nat add.commute)
  have "x1 * 10000 * m \<le> a * q * m" using x1(1) by simp
  also have "\<dots> \<le> a * (d * 10000)" using q1 by (simp add: mult.assoc)
  finally have A: "x1 * m \<le> a * d" by simp
  have "(x1 + x2) * 10000 \<le> x1 * (N + m) + b * N"
    using x2(1) m(1) by (simp add: distrib_right)
  also have "\<dots> \<le> a * N + a * d" using A by (simp add: b algebra_simps)
  finally have "(x1 + x2) * 10000 \<le> a * P" by (simp add: d distrib_left)
  then show "x1 + x2 \<le> x" by (simp add: x_def nat_le_div_iff)
  have "a * (d * 10000) \<le> a * (q * m + m)" using q2 by (intro mult_le_mono2) simp
  also have "\<dots> = (a * q) * m + a * m" by (simp add: algebra_simps)
  also have "\<dots> \<le> (x1 * 10000 + 10000) * m + a * m" using x1(2) by simp
  finally have "a * d * 10000 \<le> (x1 * m + m) * 10000 + a * m" by (simp add: algebra_simps)
  moreover have "a * m \<le> a * 10000" using m(1) by simp
  ultimately have "a * d * 10000 \<le> (x1 * m + m) * 10000 + a * 10000"
    by (rule order_trans [OF _ add_left_mono])
  then have "a * d * 10000 \<le> (x1 * m + m + a) * 10000" by (simp only: distrib_right)
  then have "a * d \<le> x1 * m + m + a" by simp
  moreover have "b * N \<le> x2 * 10000 + 10000" using x2(2) by simp
  ultimately have "a * P \<le> (x1 * m + m + a) + (x2 * 10000 + 10000) + x1 * N"
    by (simp add: b d distrib_left distrib_right)
  also have "\<dots> \<le> (x1 + x2 + 2) * 10000 + a"
  proof -
    have "x1 * m + x1 * N = x1 * 10000" by (metis m(1) add.commute distrib_left)
    moreover have "m \<le> 10000" using m(1) by simp
    ultimately show ?thesis by (simp add: distrib_right)
  qed
  finally have "x \<le> ((x1 + x2 + 2) * 10000 + a) div 10000"
    unfolding x_def by (rule div_le_mono)
  then show "x \<le> x1 + x2 + a div 10000 + 2" by simp
qed

section \<open>Months\<close>

lemma unat_start_of_month:
  "unat (unlock_epoch_to_start_of_month u) = unat u - unat u mod 30"
  by (simp add: unlock_epoch_to_start_of_month_def Let_def EPOCHS_PER_MONTH_def unat_sub_u64
      word_le_nat_alt unat_mod)

lemma start_of_month_bounds:
  "unlock_epoch_to_start_of_month u \<le> u"
  "unat u < unat (unlock_epoch_to_start_of_month u) + 30"
  "30 dvd unat (unlock_epoch_to_start_of_month u)"
  by (auto simp: word_le_nat_alt unat_start_of_month dvd_minus_mod
      intro!: less_diff_conv2 [THEN iffD1] dest: sym)

text \<open>
  The upper estimate of an epoch in the future is in the future: the lower month is only
  taken when the upper one lies more than the longest option ahead.
\<close>

lemma upper_estimate_bounds:
  assumes "unlock_epoch_to_start_of_month_upper_estimate env options u = Inr r"
    and "unat u + 30 < 2 ^ 64"
  shows "unat r < unat u + 30" "unat u < unat r + 30" "30 dvd unat r"
    and "valid_lock_options options \<Longrightarrow> get_block_epoch env < u \<Longrightarrow> get_block_epoch env < r"
    and "r \<le> u \<or> r \<le> get_block_epoch env \<or>
      unat r \<le> unat (get_block_epoch env) + unat (lock_epochs (last options))"
proof -
  let ?l = "unlock_epoch_to_start_of_month u" and ?c = "get_block_epoch env"
  note l = start_of_month_bounds [of u]
  have up: "unat (?l + EPOCHS_PER_MONTH) = unat ?l + 30"
    using assms(2) l(1) by (simp add: EPOCHS_PER_MONTH_def unat_word_ariths word_le_nat_alt)
  have ne: "unat ?l \<noteq> unat u" if "u \<noteq> ?l" using that by (metis word_unat_eq_iff)
  consider (low) "r = ?l" "u = ?l" | (past) "r = ?l + EPOCHS_PER_MONTH" "r \<le> ?c" "u \<noteq> ?l"
    | (near) "r = ?l + EPOCHS_PER_MONTH" "\<not> r \<le> ?c" "u \<noteq> ?l" "r - ?c \<le> lock_epochs (last options)"
    | (far) "r = ?l" "\<not> ?l + EPOCHS_PER_MONTH \<le> ?c" "u \<noteq> ?l" "options \<noteq> []"
        "\<not> ?l + EPOCHS_PER_MONTH - ?c \<le> lock_epochs (last options)"
    using assms(1)
    by (auto simp: unlock_epoch_to_start_of_month_upper_estimate_def Let_def res_simps
        get_lock_options_def split: if_splits)
  note cases = this
  from cases show "unat r < unat u + 30" "unat u < unat r + 30" "30 dvd unat r"
    using l up ne by (cases; auto simp: word_le_nat_alt)+
  from cases show "r \<le> u \<or> r \<le> ?c \<or> unat r \<le> unat ?c + unat (lock_epochs (last options))"
    using l(1) by cases (auto simp: word_le_nat_alt unat_sub_u64)
  show "?c < r" if valid: "valid_lock_options options" and future: "?c < u"
  proof -
    have year: "360 \<le> unat (lock_epochs (last options))"
      using valid by (auto simp: valid_lock_options_def word_le_nat_alt lock_constants)
    from cases show ?thesis
    proof cases
      case far
      then have "unat ?c + unat (lock_epochs (last options)) < unat ?l + 30"
        using up by (auto simp: word_le_nat_alt unat_sub_u64 not_le)
      with year far(1) show ?thesis by (simp add: word_less_nat_alt)
    next
      case past
      with future l(2) up show ?thesis by (auto simp: word_le_nat_alt word_less_nat_alt)
    qed (use future in \<open>auto simp: not_le\<close>)
  qed
qed

end
