(* ===== verification/UnlockSchedule.thy ===== *)
theory UnlockSchedule
  imports CommonLib
begin

text \<open>
  The attributes of the legacy locked tokens (\<open>common_structs/locked_token_types.rs\<close>): a
  schedule of milestones with percentages, in the old precision (\<open>u8\<close>, out of 100) and the
  new one (out of 100000), how an amount is divided among the milestones, and the decoding
  by nonce of \<open>legacy_token_decode_module\<close>.
\<close>

section \<open>Schedules\<close>

definition PERCENTAGE_TOTAL_EX :: u64 where "PERCENTAGE_TOTAL_EX = 100000"
definition PRECISION_EX_INCREASE :: u64 where "PRECISION_EX_INCREASE = 1000"
definition MAX_MILESTONES_IN_SCHEDULE :: nat where "MAX_MILESTONES_IN_SCHEDULE = 64"

record unlock_milestone =
  milestone_epoch :: u64
  milestone_percent :: u8

record unlock_milestone_ex =
  milestone_ex_epoch :: u64
  milestone_ex_percent :: u64

record locked_asset_token_attributes =
  unlock_schedule :: "unlock_milestone list"
  is_merged :: bool

record locked_asset_token_attributes_ex =
  unlock_schedule_ex :: "unlock_milestone_ex list"
  is_merged_ex :: bool

fun get_total_percent :: "unlock_milestone_ex list \<Rightarrow> u64" where
  "get_total_percent [] = 0"
| "get_total_percent (m # ms) = milestone_ex_percent m + get_total_percent ms"

text \<open>
  \<open>clear_unlockable_entries\<close> counts the milestones that have come and removes as many from
  the front of the schedule.
\<close>

definition clear_unlockable_entries :: "unlock_milestone_ex list \<Rightarrow> u64 \<Rightarrow> unlock_milestone_ex list" where
  "clear_unlockable_entries ms current_epoch =
     (let items_to_remove = length (filter (\<lambda>m. milestone_ex_epoch m \<le> current_epoch) ms)
      in drop items_to_remove ms)"

definition reallocated_percent :: "u64 \<Rightarrow> unlock_milestone_ex \<Rightarrow> u64" where
  "reallocated_percent current_total_percentage m =
     milestone_ex_percent m * PERCENTAGE_TOTAL_EX div current_total_percentage"

text \<open>The loop: the reallocated milestones and the sum of their percentages.\<close>

fun reallocate_loop :: "u64 \<Rightarrow> unlock_milestone_ex list \<Rightarrow> u64 \<Rightarrow> error + (unlock_milestone_ex list \<times> u64)" where
  "reallocate_loop current_total_percentage [] new_total = Inr ([], new_total)"
| "reallocate_loop current_total_percentage (m # ms) new_total =
     (if current_total_percentage = 0 then Inl DivisionByZero
      else
        let p = reallocated_percent current_total_percentage m in
        if 0 < p then
          and_then (reallocate_loop current_total_percentage ms (new_total + p)) (\<lambda>(rest, total).
          Inr (m\<lparr>milestone_ex_percent := p\<rparr> # rest, total))
        else reallocate_loop current_total_percentage ms new_total)"

definition reallocate_percentages :: "unlock_milestone_ex list \<Rightarrow> error + unlock_milestone_ex list" where
  "reallocate_percentages ms =
     (let current_total_percentage = get_total_percent ms in
      if current_total_percentage = PERCENTAGE_TOTAL_EX then Inr ms
      else
        and_then (reallocate_loop current_total_percentage ms 0) (\<lambda>(reallocated, new_total).
        let leftover_percent = PERCENTAGE_TOTAL_EX - new_total in
        if 0 < leftover_percent then
          if reallocated = [] then Inl IndexOutOfRange
          else
            let last_milestone = last reallocated in
            Inr (butlast reallocated @
                 [last_milestone\<lparr>milestone_ex_percent :=
                    milestone_ex_percent last_milestone + leftover_percent\<rparr>])
        else Inr reallocated))"

definition migrate_to_new_attributes ::
  "locked_asset_token_attributes \<Rightarrow> locked_asset_token_attributes_ex" where
  "migrate_to_new_attributes self =
     \<lparr>unlock_schedule_ex =
        map (\<lambda>m. \<lparr>milestone_ex_epoch = milestone_epoch m,
                   milestone_ex_percent = ucast (milestone_percent m) * PRECISION_EX_INCREASE\<rparr>)
          (unlock_schedule self),
      is_merged_ex = is_merged self\<rparr>"

section \<open>Amounts per epoch\<close>

record epoch_amount_pair =
  epoch :: u64
  epoch_amount :: biguint

type_synonym unlock_epoch_amount_pairs = "epoch_amount_pair list"

text \<open>
  The last milestone takes what the rounded shares of the others leave. The source's array
  has room for \<open>MAX_MILESTONES_IN_SCHEDULE\<close> pairs and is filled without a check.
\<close>

fun unlock_amounts_loop ::
  "biguint \<Rightarrow> u64 \<Rightarrow> biguint \<Rightarrow> unlock_milestone_ex list \<Rightarrow> error + unlock_epoch_amount_pairs" where
  "unlock_amounts_loop total_amount total_percent total_tokens_processed [] = Inr []"
| "unlock_amounts_loop total_amount total_percent total_tokens_processed [m] =
     and_then (big_sub total_amount total_tokens_processed) (\<lambda>a.
     Inr [\<lparr>epoch = milestone_ex_epoch m, epoch_amount = a\<rparr>])"
| "unlock_amounts_loop total_amount total_percent total_tokens_processed (m # ms) =
     and_then (big_div (total_amount * unat (milestone_ex_percent m)) (unat total_percent)) (\<lambda>a.
     and_then (unlock_amounts_loop total_amount total_percent (total_tokens_processed + a) ms) (\<lambda>rest.
     Inr (\<lparr>epoch = milestone_ex_epoch m, epoch_amount = a\<rparr> # rest)))"

definition get_unlock_amounts_per_epoch ::
  "locked_asset_token_attributes_ex \<Rightarrow> biguint \<Rightarrow> error + unlock_epoch_amount_pairs" where
  "get_unlock_amounts_per_epoch self total_amount =
     unlock_amounts_loop total_amount (get_total_percent (unlock_schedule_ex self)) 0
       (unlock_schedule_ex self)"

definition get_unlockable_entries ::
  "unlock_epoch_amount_pairs \<Rightarrow> u64 \<Rightarrow> unlock_epoch_amount_pairs" where
  "get_unlockable_entries pairs current_epoch = filter (\<lambda>p. epoch p \<le> current_epoch) pairs"

definition get_total_unlockable_amount :: "unlock_epoch_amount_pairs \<Rightarrow> u64 \<Rightarrow> biguint" where
  "get_total_unlockable_amount pairs current_epoch =
     fold (\<lambda>p total_unlockable.
       if epoch p \<le> current_epoch then total_unlockable + epoch_amount p else total_unlockable)
       pairs 0"

section \<open>legacy_token_decode_module\<close>

text \<open>
  The attributes of the legacy tokens are protocol data: the environment says what a nonce
  decodes to, in the initial format and in the extended one.
\<close>

record legacy_env = blockchain +
  initial_attributes :: "token_id \<Rightarrow> u64 \<Rightarrow> error + locked_asset_token_attributes"
  extended_attributes :: "token_id \<Rightarrow> u64 \<Rightarrow> error + locked_asset_token_attributes_ex"

definition LOCKED_TOKEN_ACTIVATION_NONCE :: u64 where
  "LOCKED_TOKEN_ACTIVATION_NONCE = 2286815"

definition decode_legacy_token ::
  "'e legacy_env_scheme \<Rightarrow> token_id \<Rightarrow> u64 \<Rightarrow> error + locked_asset_token_attributes_ex" where
  "decode_legacy_token env t n =
     (if n < LOCKED_TOKEN_ACTIVATION_NONCE
      then and_then (initial_attributes env t n) (\<lambda>a. Inr (migrate_to_new_attributes a))
      else extended_attributes env t n)"

section \<open>Nothing is lost in the division\<close>

lemma unlock_amounts_loop_sum:
  "unlock_amounts_loop tot tp processed ms = Inr pairs \<Longrightarrow>
   map epoch pairs = map milestone_ex_epoch ms \<and>
   (ms \<noteq> [] \<longrightarrow> processed + sum_list (map epoch_amount pairs) = tot)"
proof (induction tot tp processed ms arbitrary: pairs rule: unlock_amounts_loop.induct)
  case (3 tot tp processed m m' ms)
  then show ?case by (fastforce simp: res_simps)
qed (auto simp: res_simps)

lemma get_unlock_amounts_sum:
  assumes "get_unlock_amounts_per_epoch attrs tot = Inr pairs" "unlock_schedule_ex attrs \<noteq> []"
  shows "sum_list (map epoch_amount pairs) = tot"
  using assms unlock_amounts_loop_sum by (fastforce simp: get_unlock_amounts_per_epoch_def)

definition percent_sum :: "unlock_milestone_ex list \<Rightarrow> nat" where
  "percent_sum ms = sum_list (map (\<lambda>m. unat (milestone_ex_percent m)) ms)"

lemma percent_sum_simps [simp]:
  "percent_sum [] = 0"
  "percent_sum (m # ms) = unat (milestone_ex_percent m) + percent_sum ms"
  "percent_sum (ms @ ns) = percent_sum ms + percent_sum ns"
  by (simp_all add: percent_sum_def)

lemma unat_get_total_percent:
  "percent_sum ms < 2 ^ 64 \<Longrightarrow> unat (get_total_percent ms) = percent_sum ms"
  by (induction ms) (auto simp: unat_word_ariths)

lemma unlock_amounts_loop_total:
  assumes "processed * unat tp + tot * percent_sum ms \<le> tot * unat tp" "0 < unat tp"
  shows "\<exists>pairs. unlock_amounts_loop tot tp processed ms = Inr pairs"
  using assms
proof (induction tot tp processed ms rule: unlock_amounts_loop.induct)
  case (2 tot tp processed m)
  then have "processed * unat tp \<le> tot * unat tp" by linarith
  with 2(2) have "processed \<le> tot" by simp
  then show ?case by simp
next
  case (3 tot tp processed m m' ms)
  define a where "a = tot * unat (milestone_ex_percent m) div unat tp"
  have "a * unat tp \<le> tot * unat (milestone_ex_percent m)" unfolding a_def by (rule div_mult_le_nat)
  then have "(processed + a) * unat tp + tot * percent_sum (m' # ms) \<le> tot * unat tp"
    using 3(2) by (simp add: distrib_right distrib_left)
  then obtain pairs where "unlock_amounts_loop tot tp (processed + a) (m' # ms) = Inr pairs"
    using 3(1) [of a] 3(3) a_def by auto
  with 3(3) show ?case by (simp add: a_def)
qed simp

text \<open>A schedule whose percentages fit in \<open>u64\<close> and are not all zero divides any amount.\<close>

lemma get_unlock_amounts_total:
  assumes "0 < percent_sum (unlock_schedule_ex attrs)" "percent_sum (unlock_schedule_ex attrs) < 2 ^ 64"
  shows "\<exists>pairs. get_unlock_amounts_per_epoch attrs tot = Inr pairs"
  unfolding get_unlock_amounts_per_epoch_def
  using assms unlock_amounts_loop_total [of 0 "get_total_percent (unlock_schedule_ex attrs)" tot]
  by (simp add: unat_get_total_percent)

lemma get_total_unlockable_amount_eq:
  "get_total_unlockable_amount pairs e = sum_list (map epoch_amount (get_unlockable_entries pairs e))"
proof -
  have "fold (\<lambda>p t. if epoch p \<le> e then t + epoch_amount p else t) pairs n =
      n + sum_list (map epoch_amount (filter (\<lambda>p. epoch p \<le> e) pairs))" for n
    by (induction pairs arbitrary: n) auto
  then show ?thesis by (simp add: get_total_unlockable_amount_def get_unlockable_entries_def)
qed

section \<open>Reallocation\<close>

lemma reallocate_loop_ok:
  assumes "reallocate_loop T ms n = Inr (rs, n')" "0 < unat T" "unat T < 2 ^ 40"
    and "unat n * unat T + percent_sum ms * 100000 \<le> 100000 * unat T"
  shows "unat n' = unat n + percent_sum rs \<and>
    unat n' * unat T \<le> unat n * unat T + percent_sum ms * 100000"
  using assms
proof (induction T ms n arbitrary: rs n' rule: reallocate_loop.induct)
  case (2 T m ms n)
  let ?p = "reallocated_percent T m"
  have "percent_sum (m # ms) * 100000 \<le> 100000 * unat T" using 2 by simp
  then have "unat (milestone_ex_percent m) * 100000 \<le> 100000 * unat T" by simp
  then have "unat (milestone_ex_percent m) * 100000 < 2 ^ 64" using 2 by simp
  then have up: "unat ?p = unat (milestone_ex_percent m) * 100000 div unat T"
    by (simp add: reallocated_percent_def unat_div unat_word_ariths PERCENTAGE_TOTAL_EX_def)
  have pT: "unat ?p * unat T \<le> unat (milestone_ex_percent m) * 100000"
    unfolding up by (rule div_mult_le_nat)
  show ?case
  proof (cases "0 < ?p")
    case False
    have T: "T \<noteq> 0" using 2(4) by auto
    then have "reallocate_loop T ms n = Inr (rs, n')" using 2(3) False by (simp add: Let_def)
    moreover have "unat n * unat T + percent_sum ms * 100000 \<le> 100000 * unat T" using 2(6) by simp
    ultimately show ?thesis using 2(2) [OF T refl False] 2(4,5) by fastforce
  next
    case True
    have "(unat n + unat ?p) * unat T \<le> 100000 * unat T"
      unfolding distrib_right using pT 2(6) by simp
    then have "unat n + unat ?p \<le> 100000" using 2(4) by (metis mult_le_cancel2)
    then have un: "unat (n + ?p) = unat n + unat ?p" by (simp add: unat_word_ariths)
    obtain rest where r: "reallocate_loop T ms (n + ?p) = Inr (rest, n')"
      and rs: "rs = m\<lparr>milestone_ex_percent := ?p\<rparr> # rest"
      using 2(3,4) True by (auto simp: Let_def res_simps split: if_splits)
    have "T \<noteq> 0" using 2(4) by auto
    moreover have "unat (n + ?p) * unat T + percent_sum ms * 100000 \<le> 100000 * unat T"
      unfolding un distrib_right using pT 2(6) by simp
    ultimately have "unat n' = unat (n + ?p) + percent_sum rest \<and>
        unat n' * unat T \<le> unat (n + ?p) * unat T + percent_sum ms * 100000"
      using 2(1) [OF _ refl True r] 2(4,5) by blast
    then have IH: "unat n' = unat n + unat ?p + percent_sum rest"
      "unat n' * unat T \<le> unat n * unat T + unat ?p * unat T + percent_sum ms * 100000"
      unfolding un distrib_right by blast+
    have "unat n' * unat T \<le> unat n * unat T + percent_sum (m # ms) * 100000"
      using IH(2) pT by (simp add: distrib_right)
    moreover have "unat n' = unat n + percent_sum rs" using IH(1) rs by simp
    ultimately show ?thesis by blast
  qed
qed auto

text \<open>Reallocation brings the percentages of a schedule to the total exactly.\<close>

lemma reallocate_percentages_total:
  assumes "reallocate_percentages ms = Inr ms'"
    and "0 < percent_sum ms" "percent_sum ms < 2 ^ 40"
  shows "percent_sum ms' = 100000"
proof (cases "get_total_percent ms = PERCENTAGE_TOTAL_EX")
  case True
  then show ?thesis
    using assms unat_get_total_percent [of ms]
    by (simp add: reallocate_percentages_def PERCENTAGE_TOTAL_EX_def)
next
  case False
  let ?T = "get_total_percent ms"
  have T: "unat ?T = percent_sum ms" using assms(3) by (intro unat_get_total_percent) simp
  obtain rs n where l: "reallocate_loop ?T ms 0 = Inr (rs, n)"
    and ms': "if 0 < PERCENTAGE_TOTAL_EX - n
      then rs \<noteq> [] \<and> ms' = butlast rs @ [(last rs)\<lparr>milestone_ex_percent :=
             milestone_ex_percent (last rs) + (PERCENTAGE_TOTAL_EX - n)\<rparr>]
      else ms' = rs"
    using assms(1) False
    by (auto simp: reallocate_percentages_def Let_def res_simps split: if_splits)
  have ok: "unat n = percent_sum rs" "unat n * unat ?T \<le> percent_sum ms * 100000"
    using reallocate_loop_ok [OF l] assms(2,3) by (auto simp: T)
  then have n: "unat n \<le> 100000" using T assms(2) by (simp add: mult.commute)
  then have d: "unat (PERCENTAGE_TOTAL_EX - n) = 100000 - unat n"
    by (simp add: PERCENTAGE_TOTAL_EX_def unat_sub_u64 word_le_nat_alt)
  show ?thesis
  proof (cases "0 < PERCENTAGE_TOTAL_EX - n")
    case True
    then obtain ls r where rs: "rs = ls @ [r]" using ms' by (cases rs rule: rev_cases) auto
    have "unat (milestone_ex_percent r) \<le> unat n" using ok(1) rs by simp
    then have "unat (milestone_ex_percent r + (PERCENTAGE_TOTAL_EX - n)) =
        unat (milestone_ex_percent r) + (100000 - unat n)"
      using n d by (simp add: unat_word_ariths)
    then show ?thesis using True ms' ok(1) n rs by simp
  next
    case False
    then have "100000 - unat n = 0" using d by (metis unat_0 word_gt_0)
    with False ms' ok(1) n show ?thesis by simp
  qed
qed

end
