(* ===== verification/EnergyFactory.thy ===== *)
theory EnergyFactory
  imports LockedTokens Energy LockOptions UnlockSchedule
begin

text \<open>
  The energy factory (\<open>locked-asset/energy-factory/src\<close>): its storage, the environment of a
  call, and the endpoints that lock, extend, unlock, reduce, merge and lock on behalf of
  others (\<open>lib.rs\<close>, \<open>extend_lock.rs\<close>, \<open>unlock_with_penalty.rs\<close>, \<open>unstake.rs\<close>,
  \<open>token_merging.rs\<close>, \<open>virtual_lock.rs\<close>). An endpoint returns its result, the new storage and
  its effects; the attached payments are an argument.
\<close>

section \<open>Storage and environment\<close>

record factory_storage = locked_token_storage +
  paused :: bool
  base_asset_token_id :: token_id
  legacy_locked_token_id :: token_id
  old_locked_asset_factory_address :: "address option"
  min_migrated_token_locked_period :: u64
  user_updated_old_tokens_energy :: "address set"
  user_energy :: energy_map
  lock_options :: all_lock_options
  token_unstake_sc_address :: "address option"
  token_transfer_whitelist :: "address set"
  sc_whitelist_addresses :: "address set"

text \<open>The two endpoints of the token unstake contract, which a call may find failing.\<close>

record factory_env = legacy_env +
  call_deposit_user_tokens :: "address \<Rightarrow> address \<Rightarrow> esdt_payment list \<Rightarrow> error + unit"
  call_deposit_fees :: "address \<Rightarrow> esdt_payment list \<Rightarrow> error + unit"

type_synonym 'r factory_result = "error + ('r \<times> factory_storage \<times> effect list)"

definition STORAGE_DECODE_ERROR :: error where
  "STORAGE_DECODE_ERROR = SignalError ''storage decode error: bad array length''"

definition require_not_paused :: "factory_storage \<Rightarrow> error + 'a \<Rightarrow> error + 'a" where
  "require_not_paused st k = require (\<not> paused st) (SignalError ''Contract is paused'') k"

definition require_paused :: "factory_storage \<Rightarrow> error + 'a \<Rightarrow> error + 'a" where
  "require_paused st k = require (paused st) (SignalError ''Contract is not paused'') k"

definition require_owner :: "factory_env \<Rightarrow> error + 'a \<Rightarrow> error + 'a" where
  "require_owner env k = require (get_caller env = get_owner_address env) ONLY_OWNER k"

definition is_base_asset_token :: "factory_storage \<Rightarrow> token_id \<Rightarrow> bool" where
  "is_base_asset_token st t \<longleftrightarrow> t = base_asset_token_id st"

text \<open>
  \<open>update_energy\<close>: the entry is read, the closure works on it, and the result is stored. The
  closure may change the rest of the storage.
\<close>

definition update_energy ::
  "factory_env \<Rightarrow> factory_storage \<Rightarrow> address \<Rightarrow>
     (energy \<Rightarrow> error + ('r \<times> energy \<times> factory_storage \<times> effect list)) \<Rightarrow> 'r factory_result" where
  "update_energy env st user update_fn =
     (let e = get_updated_energy_entry_for_user env (user_energy st) user in
      and_then (update_fn e) (\<lambda>(r, e, st, es).
      Inr (r, st\<lparr>user_energy := set_energy_entry (user_energy st) user e\<rparr>, es)))"

section \<open>extend_lock.rs\<close>

definition lock_base_asset ::
  "factory_env \<Rightarrow> factory_storage \<Rightarrow> esdt_payment \<Rightarrow> u64 \<Rightarrow> u64 \<Rightarrow> energy \<Rightarrow>
     error + (esdt_payment \<times> energy \<times> factory_storage \<times> effect list)" where
  "lock_base_asset env st p unlock current_epoch e =
     and_then (simple_lock_tokens env st (esdt_into p) unlock) (\<lambda>(output_tokens, st, es).
     let e = add_after_token_lock e (payment_amount output_tokens) unlock current_epoch in
     and_then (to_esdt_payment output_tokens) (\<lambda>q. Inr (q, e, st, es)))"

definition extend_new_token_period ::
  "factory_env \<Rightarrow> factory_storage \<Rightarrow> esdt_payment \<Rightarrow> u64 \<Rightarrow> u64 \<Rightarrow> energy \<Rightarrow>
     error + (esdt_payment \<times> energy \<times> factory_storage \<times> effect list)" where
  "extend_new_token_period env st p new_unlock_epoch current_epoch e =
     and_then (get_token_attributes st (token_nonce p)) (\<lambda>attributes.
     require (unlock_epoch attributes < new_unlock_epoch)
       (SignalError ''New lock period must be longer than the current one'')
    (and_then (update_after_unlock_epoch_change e (amount p) (unlock_epoch attributes)
                 new_unlock_epoch current_epoch) (\<lambda>e.
     and_then (unlock_tokens_unchecked p attributes) (\<lambda>unlocked.
     and_then (simple_lock_tokens env st unlocked new_unlock_epoch) (\<lambda>(output_tokens, st, es).
     and_then (to_esdt_payment output_tokens) (\<lambda>q. Inr (q, e, st, es)))))))"

definition require_address_is_caller :: "factory_env \<Rightarrow> address \<Rightarrow> error + 'a \<Rightarrow> error + 'a" where
  "require_address_is_caller env a k =
     require (a = get_caller env)
       (SignalError ''May not use the optional destination argument here'') k"

definition lock_by_token_type ::
  "factory_env \<Rightarrow> factory_storage \<Rightarrow> address \<Rightarrow> esdt_payment \<Rightarrow> u64 \<Rightarrow> u64 \<Rightarrow>
     esdt_payment factory_result" where
  "lock_by_token_type env st dest_address p unlock current_epoch =
     and_then (update_energy env st dest_address (\<lambda>e.
       if is_base_asset_token st (token_identifier p)
       then lock_base_asset env st p unlock current_epoch e
       else
         require_address_is_caller env dest_address
        (require_same_token st (token_identifier p)
        (extend_new_token_period env st p unlock current_epoch e)))) (\<lambda>(q, st, es).
     Inr (q, st, es @ esdt_local_burn (token_identifier p) (token_nonce p) (amount p)))"

section \<open>lib.rs\<close>

definition factory_init ::
  "error option \<Rightarrow> factory_env \<Rightarrow> factory_storage \<Rightarrow> token_id \<Rightarrow> token_id \<Rightarrow> address \<Rightarrow> u64 \<Rightarrow> (u64 \<times> u64) list \<Rightarrow>
     unit factory_result" where
  "factory_init outside env st base_asset legacy_token old_factory min_period new_lock_options =
     require_valid_token_id env base_asset
    (require_valid_token_id env legacy_token
    (require_sc_address env old_factory
    (and_then (add_lock_options outside (lock_options st) new_lock_options) (\<lambda>options.
     and_then (get_lock_options options) (\<lambda>all_lock_options.
     require (min_period \<le> lock_epochs (last all_lock_options))
       (SignalError ''Invalid min epoch for migrated token'')
    (Inr ((), st\<lparr>lock_options := options,
                 min_migrated_token_locked_period := min_period,
                 base_asset_token_id :=
                   (if base_asset_token_id st = '''' then base_asset else base_asset_token_id st),
                 legacy_locked_token_id :=
                   (if legacy_locked_token_id st = '''' then legacy_token else legacy_locked_token_id st),
                 old_locked_asset_factory_address :=
                   (case old_locked_asset_factory_address st of
                      None \<Rightarrow> Some old_factory | Some a \<Rightarrow> Some a),
                 paused := True\<rparr>, [])))))))"

definition require_future_unlock :: "u64 \<Rightarrow> u64 \<Rightarrow> error + 'a \<Rightarrow> error + 'a" where
  "require_future_unlock unlock current_epoch k =
     require (current_epoch < unlock)
       (SignalError ''Unlock epoch must be greater than the current epoch'') k"

definition lock_tokens_endpoint ::
  "factory_env \<Rightarrow> factory_storage \<Rightarrow> esdt_payment list \<Rightarrow> u64 \<Rightarrow> address option \<Rightarrow>
     esdt_payment factory_result" where
  "lock_tokens_endpoint env st ps epochs opt_destination =
     require_not_paused st
    (require_is_listed_lock_option (lock_options st) epochs
    (and_then (single_esdt ps) (\<lambda>p.
     let dest_address = dest_from_optional env opt_destination;
         current_epoch = get_block_epoch env;
         unlock = unlock_epoch_to_start_of_month (current_epoch + epochs) in
     require_future_unlock unlock current_epoch
    (and_then (lock_by_token_type env st dest_address p unlock current_epoch)
       (\<lambda>(output_tokens, st, es).
     Inr (output_tokens, st, es @ [DirectSend dest_address [output_tokens]]))))))"

text \<open>The loop of \<open>unlockTokens\<close> over the payments.\<close>

fun unlock_loop ::
  "factory_env \<Rightarrow> factory_storage \<Rightarrow> esdt_payment list \<Rightarrow> esdt_payment \<Rightarrow> energy \<Rightarrow>
     error + (esdt_payment \<times> energy \<times> factory_storage \<times> effect list)" where
  "unlock_loop env st [] output_payment e = Inr (output_payment, e, st, [])"
| "unlock_loop env st (p # ps) output_payment e =
     and_then (get_token_attributes st (token_nonce p)) (\<lambda>attributes.
     and_then (unlock_tokens env st p) (\<lambda>(unlocked_tokens, es).
     and_then (refund_after_token_unlock e (payment_amount unlocked_tokens) (unlock_epoch attributes)
                 (get_block_epoch env)) (\<lambda>e.
     and_then (to_esdt_payment unlocked_tokens) (\<lambda>q.
     and_then (esdt_merge_with output_payment q) (\<lambda>output_payment.
     and_then (unlock_loop env st ps output_payment e) (\<lambda>(r, e, st, es').
     Inr (r, e, st, es @ es')))))))"

definition unlock_tokens_endpoint ::
  "factory_env \<Rightarrow> factory_storage \<Rightarrow> esdt_payment list \<Rightarrow> esdt_payment factory_result" where
  "unlock_tokens_endpoint env st ps =
     require_not_paused st
    (let caller = get_caller env;
         output_payment = new_payment (base_asset_token_id st) 0 0 in
     and_then (update_energy env st caller (\<lambda>e.
       and_then (get_non_empty_payments ps) (\<lambda>payments.
       require_all_same_token st payments (unlock_loop env st payments output_payment e))))
       (\<lambda>(output_payment, st, es).
     Inr (output_payment, st,
          es @ [EsdtLocalMint (token_identifier output_payment) (amount output_payment),
                DirectSend caller
                  [new_payment (token_identifier output_payment) 0 (amount output_payment)]])))"

definition extend_lock_period ::
  "factory_env \<Rightarrow> factory_storage \<Rightarrow> esdt_payment list \<Rightarrow> u64 \<Rightarrow> address \<Rightarrow>
     esdt_payment factory_result" where
  "extend_lock_period env st ps epochs user =
     require_not_paused st
    (require_is_listed_lock_option (lock_options st) epochs
    (let caller = get_caller env in
     require (caller \<in> token_transfer_whitelist st)
       (SignalError ''May not call this endpoint. Use lockTokens instead'')
    (and_then (single_esdt ps) (\<lambda>p.
     require_same_token st (token_identifier p)
    (let current_epoch = get_block_epoch env;
         unlock = unlock_epoch_to_start_of_month (current_epoch + epochs) in
     require_future_unlock unlock current_epoch
    (and_then (update_energy env st user (\<lambda>e.
       extend_new_token_period env st p unlock current_epoch e)) (\<lambda>(output_tokens, st, es).
     Inr (output_tokens, st,
          es @ esdt_local_burn (token_identifier p) (token_nonce p) (amount p)
             @ [DirectSend caller [output_tokens]]))))))))"

text \<open>\<open>adjustUserEnergy\<close>: signed corrections of the two totals, one user after the other.\<close>

fun adjust_loop ::
  "factory_env \<Rightarrow> energy_map \<Rightarrow> (address \<times> int \<times> int) list \<Rightarrow> error + energy_map" where
  "adjust_loop env m [] = Inr m"
| "adjust_loop env m ((user, e_amount, token_amount) # args) =
     require (m user \<noteq> None) (SignalError ''User energy not found'')
    (let old_energy = get_updated_energy_entry_for_user env m user;
         new_energy_amount = energy_amount old_energy + e_amount in
     and_then
       (if 0 \<le> token_amount then Inr (total_locked_tokens old_energy + nat \<bar>token_amount\<bar>)
        else
          require (nat \<bar>token_amount\<bar> \<le> total_locked_tokens old_energy)
            (SignalError ''Insufficient locked tokens'')
            (big_sub (total_locked_tokens old_energy) (nat \<bar>token_amount\<bar>)))
       (\<lambda>new_total_locked_tokens.
     adjust_loop env
       (set_energy_entry m user
          (energy_new new_energy_amount (get_block_epoch env) new_total_locked_tokens)) args))"

definition adjust_user_energy ::
  "factory_env \<Rightarrow> factory_storage \<Rightarrow> (address \<times> int \<times> int) list \<Rightarrow> unit factory_result" where
  "adjust_user_energy env st args =
     require_owner env
    (and_then (adjust_loop env (user_energy st) args) (\<lambda>m. Inr ((), st\<lparr>user_energy := m\<rparr>, [])))"

section \<open>unstake.rs\<close>

definition set_token_unstake_address ::
  "factory_env \<Rightarrow> factory_storage \<Rightarrow> address \<Rightarrow> unit factory_result" where
  "set_token_unstake_address env st sc_address =
     require_owner env
    (require_sc_address env sc_address
    (Inr ((), st\<lparr>token_unstake_sc_address := Some sc_address\<rparr>, [])))"

definition get_token_unstake_sc_address :: "factory_storage \<Rightarrow> error + address" where
  "get_token_unstake_sc_address st =
     (case token_unstake_sc_address st of None \<Rightarrow> Inl STORAGE_DECODE_ERROR | Some a \<Rightarrow> Inr a)"

definition require_caller_unstake_sc ::
  "factory_env \<Rightarrow> factory_storage \<Rightarrow> error + 'a \<Rightarrow> error + 'a" where
  "require_caller_unstake_sc env st k =
     and_then (get_token_unstake_sc_address st) (\<lambda>sc_address.
     require (get_caller env = sc_address)
       (SignalError ''Only the unstake SC may call this endpoint'') k)"

definition revert_unstake ::
  "factory_env \<Rightarrow> factory_storage \<Rightarrow> address \<Rightarrow> energy \<Rightarrow> unit factory_result" where
  "revert_unstake env st user new_energy =
     require_not_paused st
    (require_caller_unstake_sc env st
    (Inr ((), st\<lparr>user_energy := set_energy_entry (user_energy st) user new_energy\<rparr>, [])))"

definition unstake_tokens ::
  "factory_env \<Rightarrow> factory_storage \<Rightarrow> address \<Rightarrow> esdt_payment \<Rightarrow> esdt_payment \<Rightarrow> error + effect list" where
  "unstake_tokens env st caller locked_tokens unlocked_tokens =
     and_then (get_token_unstake_sc_address st) (\<lambda>sc_address.
     and_then (call_deposit_user_tokens env sc_address caller [locked_tokens, unlocked_tokens]) (\<lambda>_.
     Inr [ExecuteOnDestFor sc_address ''depositUserTokens'' caller [locked_tokens, unlocked_tokens]]))"

definition send_fees_to_unstake_sc ::
  "factory_env \<Rightarrow> factory_storage \<Rightarrow> esdt_payment \<Rightarrow> error + effect list" where
  "send_fees_to_unstake_sc env st fees =
     and_then (get_token_unstake_sc_address st) (\<lambda>sc_address.
     and_then (call_deposit_fees env sc_address [fees]) (\<lambda>_.
     Inr [ExecuteOnDest sc_address ''depositFees'' [fees]]))"

section \<open>unlock_with_penalty.rs\<close>

record lock_reduce_result =
  new_lock_epochs :: u64
  reduce_unlocked_tokens :: egld_or_esdt_payment
  reduce_energy :: energy

definition reduce_lock_period_common ::
  "factory_env \<Rightarrow> factory_storage \<Rightarrow> address \<Rightarrow> esdt_payment \<Rightarrow> u64 option \<Rightarrow>
     error + lock_reduce_result" where
  "reduce_lock_period_common env st caller p opt_new_lock_period =
     require_not_paused st
    (require_same_token st (token_identifier p)
    (and_then (get_token_attributes st (token_nonce p)) (\<lambda>attributes.
     let current_epoch = get_block_epoch env in
     require (current_epoch < unlock_epoch attributes) TOKEN_CAN_BE_UNLOCKED_ALREADY_ERR_MSG
    (let new_epochs =
       (case opt_new_lock_period of
          Some epochs \<Rightarrow>
            (let tentative_new_unlock_epoch = current_epoch + epochs;
                 start_of_month_epoch = unlock_epoch_to_start_of_month tentative_new_unlock_epoch;
                 epochs_diff_from_month_start = tentative_new_unlock_epoch - start_of_month_epoch
             in epochs - epochs_diff_from_month_start)
        | None \<Rightarrow> 0);
         prev_lock_epochs = unlock_epoch attributes - current_epoch in
     require (new_epochs < prev_lock_epochs) (SignalError ''Invalid reduce choice'')
    (and_then (deplete_after_early_unlock
                 (get_updated_energy_entry_for_user env (user_energy st) caller)
                 (amount p) (unlock_epoch attributes) current_epoch) (\<lambda>e.
     and_then (calculate_penalty_amount (lock_options st) (amount p) prev_lock_epochs new_epochs)
       (\<lambda>penalty_amount.
     and_then (unlock_tokens_unchecked p attributes) (\<lambda>unlocked.
     require (penalty_amount < payment_amount unlocked)
       (SignalError ''No tokens remaining after penalty is applied'')
    (and_then (big_sub (payment_amount unlocked) penalty_amount) (\<lambda>a.
     Inr \<lparr>new_lock_epochs = new_epochs,
          reduce_unlocked_tokens = unlocked\<lparr>payment_amount := a\<rparr>,
          reduce_energy = e\<rparr>))))))))))"

definition unlock_early ::
  "factory_env \<Rightarrow> factory_storage \<Rightarrow> esdt_payment list \<Rightarrow> unit factory_result" where
  "unlock_early env st ps =
     require_not_paused st
    (let caller = get_caller env in
     and_then (single_esdt ps) (\<lambda>p.
     and_then (reduce_lock_period_common env st caller p None) (\<lambda>reduce_result.
     and_then (to_esdt_payment (reduce_unlocked_tokens reduce_result)) (\<lambda>unlocked.
     let st = st\<lparr>user_energy := set_energy_entry (user_energy st) caller (reduce_energy reduce_result)\<rparr> in
     and_then (unstake_tokens env st caller p unlocked) (\<lambda>es.
     Inr ((), st, EsdtLocalMint (token_identifier unlocked) (amount unlocked) # es))))))"

definition reduce_lock_period ::
  "factory_env \<Rightarrow> factory_storage \<Rightarrow> esdt_payment list \<Rightarrow> u64 \<Rightarrow> esdt_payment factory_result" where
  "reduce_lock_period env st ps new_lock_period =
     require_not_paused st
    (require_is_listed_lock_option (lock_options st) new_lock_period
    (let caller = get_caller env in
     and_then (single_esdt ps) (\<lambda>p.
     and_then (reduce_lock_period_common env st caller p (Some new_lock_period)) (\<lambda>reduce_result.
     let current_epoch = get_block_epoch env;
         new_unlock_epoch = current_epoch + new_lock_epochs reduce_result;
         unlocked = reduce_unlocked_tokens reduce_result in
     and_then (big_sub (amount p) (payment_amount unlocked)) (\<lambda>penalty_amount.
     and_then (simple_lock_tokens env st unlocked new_unlock_epoch) (\<lambda>(new_locked_tokens, st, es).
     and_then (big_sub (amount p) penalty_amount) (\<lambda>amount_to_burn.
     let es_burn = esdt_local_burn (token_identifier p) (token_nonce p) amount_to_burn in
     and_then
       (if 0 < penalty_amount
        then send_fees_to_unstake_sc env st
               (new_payment (token_identifier p) (token_nonce p) penalty_amount)
        else Inr []) (\<lambda>es_fees.
     let e = add_after_token_lock (reduce_energy reduce_result)
               (payment_amount new_locked_tokens) new_unlock_epoch current_epoch;
         st = st\<lparr>user_energy := set_energy_entry (user_energy st) caller e\<rparr> in
     and_then (to_esdt_payment new_locked_tokens) (\<lambda>q.
     Inr (q, st, es @ es_burn @ es_fees @ direct caller new_locked_tokens))))))))))"

end
