(* ===== verification/EnergyMerging.thy ===== *)
theory EnergyMerging
  imports EnergyFactory
begin

text \<open>
  The rest of the energy factory: merging of locked tokens (\<open>token_merging.rs\<close>), virtual
  locks (\<open>virtual_lock.rs\<close>), the energy set by transfer contracts
  (\<open>locked_token_transfer.rs\<close>) and the migration of legacy tokens (\<open>migration.rs\<close>).
\<close>

section \<open>token_merging.rs\<close>

record locked_amount_attributes =
  token_amount :: biguint
  attributes :: locked_token_attributes

definition locked_can_merge_with ::
  "locked_amount_attributes \<Rightarrow> locked_amount_attributes \<Rightarrow> bool" where
  "locked_can_merge_with x y \<longleftrightarrow>
     original_token_id (attributes x) = original_token_id (attributes y) \<and>
     original_token_nonce (attributes x) = original_token_nonce (attributes y)"

definition biguint_to_u64 :: "biguint \<Rightarrow> error + u64" where
  "biguint_to_u64 n = (if n < 2 ^ 64 then Inr (of_nat n) else Inl CANNOT_UNWRAP)"

definition locked_merge_with ::
  "locked_amount_attributes \<Rightarrow> locked_amount_attributes \<Rightarrow> error + locked_amount_attributes" where
  "locked_merge_with x y =
     require (locked_can_merge_with x y) CANNOT_MERGE
    (and_then (weighted_average_round_up (unat (unlock_epoch (attributes x))) (token_amount x)
                 (unat (unlock_epoch (attributes y))) (token_amount y)) (\<lambda>w.
     and_then (biguint_to_u64 w) (\<lambda>new_unlock_epoch.
     Inr (x\<lparr>attributes := (attributes x)\<lparr>unlock_epoch := new_unlock_epoch\<rparr>,
            token_amount := token_amount x + token_amount y\<rparr>))))"

text \<open>The loop over the payments after the first.\<close>

fun merge_tokens_loop ::
  "factory_env \<Rightarrow> factory_storage \<Rightarrow> esdt_payment list \<Rightarrow> locked_amount_attributes \<Rightarrow> energy \<Rightarrow>
     error + (locked_amount_attributes \<times> energy \<times> effect list)" where
  "merge_tokens_loop env st [] output_pair e = Inr (output_pair, e, [])"
| "merge_tokens_loop env st (p # ps) output_pair e =
     and_then (get_token_attributes st (token_nonce p)) (\<lambda>a.
     require (get_block_epoch env < unlock_epoch a) TOKEN_CAN_BE_UNLOCKED_ALREADY_ERR_MSG
    (and_then (update_after_unlock_any e (amount p) (unlock_epoch a) (get_block_epoch env)) (\<lambda>e.
     and_then (locked_merge_with output_pair \<lparr>token_amount = amount p, attributes = a\<rparr>)
       (\<lambda>output_pair.
     and_then (merge_tokens_loop env st ps output_pair e) (\<lambda>(r, e, es).
     Inr (r, e, NftBurn (token_identifier p) (token_nonce p) (amount p) # es))))))"

definition merge_tokens ::
  "factory_env \<Rightarrow> factory_storage \<Rightarrow> esdt_payment list \<Rightarrow> energy \<Rightarrow>
     error + (locked_amount_attributes \<times> energy \<times> effect list)" where
  "merge_tokens env st payments e =
     require_all_same_token st payments
    (and_then (managed_vec_get payments 0) (\<lambda>first_payment.
     let payments = tl payments; current_epoch = get_block_epoch env in
     and_then (get_token_attributes st (token_nonce first_payment)) (\<lambda>first_token_attributes.
     require (current_epoch < unlock_epoch first_token_attributes)
       TOKEN_CAN_BE_UNLOCKED_ALREADY_ERR_MSG
    (and_then (update_after_unlock_any e (amount first_payment)
                 (unlock_epoch first_token_attributes) current_epoch) (\<lambda>e.
     and_then (merge_tokens_loop env st payments
                 \<lparr>token_amount = amount first_payment, attributes = first_token_attributes\<rparr> e)
       (\<lambda>(output_pair, e, es).
     and_then (unlock_epoch_to_start_of_month_upper_estimate env (lock_options st)
                 (unlock_epoch (attributes output_pair))) (\<lambda>normalized_unlock_epoch.
     let output_pair = output_pair\<lparr>attributes :=
           (attributes output_pair)\<lparr>unlock_epoch := normalized_unlock_epoch\<rparr>\<rparr>;
         e = add_after_token_lock e (token_amount output_pair) normalized_unlock_epoch current_epoch in
     Inr (output_pair, e,
          NftBurn (token_identifier first_payment) (token_nonce first_payment) (amount first_payment)
          # es))))))))"

definition merge_tokens_endpoint ::
  "factory_env \<Rightarrow> factory_storage \<Rightarrow> esdt_payment list \<Rightarrow> address option \<Rightarrow>
     esdt_payment factory_result" where
  "merge_tokens_endpoint env st ps opt_original_caller =
     require_not_paused st
    (and_then (get_non_empty_payments ps) (\<lambda>payments.
     let caller = get_caller env in
     and_then (get_orig_caller_from_opt (sc_whitelist_addresses st) caller opt_original_caller)
       (\<lambda>original_caller.
     and_then (update_energy env st original_caller (\<lambda>e.
       and_then (merge_tokens env st payments e) (\<lambda>(r, e, es). Inr (r, e, st, es))))
       (\<lambda>(output, st, es).
     let simulated_lock_payment =
       egld_or_esdt_new (original_token_id (attributes output))
         (original_token_nonce (attributes output)) (token_amount output) in
     and_then (lock_and_send env st caller simulated_lock_payment (unlock_epoch (attributes output)))
       (\<lambda>(output_tokens, st, es').
     and_then (to_esdt_payment output_tokens) (\<lambda>q. Inr (q, st, es @ es')))))))"

section \<open>virtual_lock.rs\<close>

definition lock_virtual ::
  "factory_env \<Rightarrow> factory_storage \<Rightarrow> token_id \<Rightarrow> biguint \<Rightarrow> u64 \<Rightarrow> address \<Rightarrow> address \<Rightarrow>
     esdt_payment factory_result" where
  "lock_virtual env st token a epochs dest_address energy_address =
     require_not_paused st
    (require (is_base_asset_token st token) (SignalError ''May only lock the base asset token'')
    (require (0 < a) (SignalError ''Amount cannot be 0'')
    (require_is_listed_lock_option (lock_options st) epochs
    (require_sc_address_whitelisted (sc_whitelist_addresses st) (get_caller env)
    (let current_epoch = get_block_epoch env;
         unlock = unlock_epoch_to_start_of_month (current_epoch + epochs) in
     require_future_unlock unlock current_epoch
    (and_then (update_energy env st energy_address (\<lambda>e.
       lock_base_asset env st (new_payment token 0 a) unlock current_epoch e))
       (\<lambda>(locked_tokens, st, es).
     Inr (locked_tokens, st, es @ [DirectSend dest_address [locked_tokens]]))))))))"

section \<open>locked_token_transfer.rs\<close>

fun add_to_token_transfer_whitelist_loop ::
  "factory_env \<Rightarrow> address set \<Rightarrow> address list \<Rightarrow> error + address set" where
  "add_to_token_transfer_whitelist_loop env m [] = Inr m"
| "add_to_token_transfer_whitelist_loop env m (a # as) =
     require_sc_address env a (add_to_token_transfer_whitelist_loop env (insert a m) as)"

definition add_to_token_transfer_whitelist ::
  "factory_env \<Rightarrow> factory_storage \<Rightarrow> address list \<Rightarrow> unit factory_result" where
  "add_to_token_transfer_whitelist env st sc_addresses =
     require_owner env
    (and_then (add_to_token_transfer_whitelist_loop env (token_transfer_whitelist st) sc_addresses)
       (\<lambda>m. Inr ((), st\<lparr>token_transfer_whitelist := m\<rparr>, [])))"

definition remove_from_token_transfer_whitelist ::
  "factory_env \<Rightarrow> factory_storage \<Rightarrow> address list \<Rightarrow> unit factory_result" where
  "remove_from_token_transfer_whitelist env st sc_addresses =
     require_owner env
    (Inr ((), st\<lparr>token_transfer_whitelist :=
        fold (\<lambda>a m. m - {a}) sc_addresses (token_transfer_whitelist st)\<rparr>, []))"

definition set_user_energy_after_locked_token_transfer ::
  "factory_env \<Rightarrow> factory_storage \<Rightarrow> address \<Rightarrow> energy \<Rightarrow> unit factory_result" where
  "set_user_energy_after_locked_token_transfer env st user e =
     require_not_paused st
    (require_sc_address_whitelisted (token_transfer_whitelist st) (get_caller env)
    (Inr ((), st\<lparr>user_energy := set_energy_entry (user_energy st) user e\<rparr>, [])))"

section \<open>migration.rs\<close>

definition TOKEN_MIGRATION_LOCK_EPOCHS_FACTOR :: u64 where "TOKEN_MIGRATION_LOCK_EPOCHS_FACTOR = 4"

fun set_energy_loop ::
  "factory_env \<Rightarrow> factory_storage \<Rightarrow> (address \<times> biguint \<times> int) list \<Rightarrow> factory_storage" where
  "set_energy_loop env st [] = st"
| "set_energy_loop env st ((user, total_locked, e_amount) # users_energy) =
     set_energy_loop env
       (st\<lparr>user_energy := set_energy_entry (user_energy st) user
              (energy_new e_amount (get_block_epoch env) total_locked),
           user_updated_old_tokens_energy := insert user (user_updated_old_tokens_energy st)\<rparr>)
       users_energy"

definition set_energy_for_old_tokens ::
  "factory_env \<Rightarrow> factory_storage \<Rightarrow> (address \<times> biguint \<times> int) list \<Rightarrow> unit factory_result" where
  "set_energy_for_old_tokens env st users_energy =
     require_owner env (require_paused st (Inr ((), set_energy_loop env st users_energy, [])))"

definition require_caller_old_factory ::
  "factory_env \<Rightarrow> factory_storage \<Rightarrow> error + 'a \<Rightarrow> error + 'a" where
  "require_caller_old_factory env st k =
     (case old_locked_asset_factory_address st of
        None \<Rightarrow> Inl STORAGE_DECODE_ERROR
      | Some a \<Rightarrow> require (get_caller env = a)
                   (SignalError ''May only call this through old factory SC'') k)"

definition require_old_tokens_energy_was_updated ::
  "factory_storage \<Rightarrow> address \<Rightarrow> error + 'a \<Rightarrow> error + 'a" where
  "require_old_tokens_energy_was_updated st a k =
     require (a \<in> user_updated_old_tokens_energy st)
       (SignalError ''Must have energy updated for old tokens first'') k"

fun unlock_pairs :: "u64 \<Rightarrow> unlock_epoch_amount_pairs \<Rightarrow> energy \<Rightarrow> error + energy" where
  "unlock_pairs current_epoch [] e = Inr e"
| "unlock_pairs current_epoch (p # ps) e =
     and_then (update_after_unlock_any e (epoch_amount p) (epoch p) current_epoch)
       (\<lambda>e. unlock_pairs current_epoch ps e)"

fun lock_pairs :: "u64 \<Rightarrow> unlock_epoch_amount_pairs \<Rightarrow> energy \<Rightarrow> energy" where
  "lock_pairs current_epoch [] e = e"
| "lock_pairs current_epoch (p # ps) e =
     lock_pairs current_epoch ps (add_after_token_lock e (epoch_amount p) (epoch p) current_epoch)"

definition update_energy_after_old_token_unlock ::
  "factory_env \<Rightarrow> factory_storage \<Rightarrow> address \<Rightarrow> unlock_epoch_amount_pairs \<Rightarrow>
     unlock_epoch_amount_pairs \<Rightarrow> unit factory_result" where
  "update_energy_after_old_token_unlock env st original_caller initial_pairs final_pairs =
     (if is_smart_contract env original_caller then Inr ((), st, [])
      else
        require_not_paused st
       (require_caller_old_factory env st
       (require_old_tokens_energy_was_updated st original_caller
       (update_energy env st original_caller (\<lambda>e.
          and_then (unlock_pairs (get_block_epoch env) initial_pairs e) (\<lambda>e.
          Inr ((), lock_pairs (get_block_epoch env) final_pairs e, st, [])))))))"

definition calculate_new_unlock_epoch_for_old_token ::
  "factory_env \<Rightarrow> factory_storage \<Rightarrow> unlock_epoch_amount_pairs \<Rightarrow> u64 \<Rightarrow> error + u64" where
  "calculate_new_unlock_epoch_for_old_token env st pairs current_epoch =
     (let weighted_epochs_sum =
            sum_list (map (\<lambda>p. epoch_amount p * unat (safe_sub_u64 (epoch p) current_epoch)) pairs);
          weight_sum = sum_list (map epoch_amount pairs) in
      and_then (big_div weighted_epochs_sum weight_sum) (\<lambda>base_lock_epochs_biguint.
      and_then (biguint_to_u64 base_lock_epochs_biguint) (\<lambda>base_lock_epochs.
      let new_tentative_unlock_epoch = base_lock_epochs * TOKEN_MIGRATION_LOCK_EPOCHS_FACTOR in
      and_then (get_lock_options (lock_options st)) (\<lambda>options.
      let new_unlock_epoch = min new_tentative_unlock_epoch (lock_epochs (last options));
          new_unlock_epoch = max new_unlock_epoch (min_migrated_token_locked_period st) in
      unlock_epoch_to_start_of_month_upper_estimate env (lock_options st)
        (current_epoch + new_unlock_epoch)))))"

fun migrate_pairs ::
  "bool \<Rightarrow> u64 \<Rightarrow> u64 \<Rightarrow> unlock_epoch_amount_pairs \<Rightarrow> energy \<Rightarrow> error + energy" where
  "migrate_pairs is_sc new_unlock_epoch current_epoch [] e = Inr e"
| "migrate_pairs is_sc new_unlock_epoch current_epoch (p # ps) e =
     and_then
       (if is_sc then Inr (add_after_token_lock e (epoch_amount p) new_unlock_epoch current_epoch)
        else update_after_unlock_epoch_change e (epoch_amount p) (epoch p) new_unlock_epoch current_epoch)
       (\<lambda>e. migrate_pairs is_sc new_unlock_epoch current_epoch ps e)"

definition migrate_single_old_token ::
  "factory_env \<Rightarrow> factory_storage \<Rightarrow> esdt_payment \<Rightarrow> bool \<Rightarrow> u64 \<Rightarrow> energy \<Rightarrow>
     error + (esdt_payment \<times> energy \<times> factory_storage \<times> effect list)" where
  "migrate_single_old_token env st p is_sc current_epoch e =
     and_then (decode_legacy_token env (token_identifier p) (token_nonce p)) (\<lambda>attrs.
     let es_burn = esdt_local_burn (token_identifier p) (token_nonce p) (amount p) in
     and_then (get_unlock_amounts_per_epoch attrs (amount p)) (\<lambda>pairs.
     and_then (calculate_new_unlock_epoch_for_old_token env st pairs current_epoch) (\<lambda>new_unlock_epoch.
     and_then (migrate_pairs is_sc new_unlock_epoch current_epoch pairs e) (\<lambda>e.
     let original_unlocked_tokens =
       egld_or_esdt_new (Esdt (base_asset_token_id st)) 0 (amount p) in
     and_then (simple_lock_tokens env st original_unlocked_tokens new_unlock_epoch)
       (\<lambda>(new_locked_tokens, st, es).
     and_then (to_esdt_payment new_locked_tokens) (\<lambda>q. Inr (q, e, st, es_burn @ es)))))))"

fun migrate_loop ::
  "factory_env \<Rightarrow> factory_storage \<Rightarrow> esdt_payment list \<Rightarrow> token_id \<Rightarrow> bool \<Rightarrow> energy \<Rightarrow>
     error + (esdt_payment list \<times> energy \<times> factory_storage \<times> effect list)" where
  "migrate_loop env st [] legacy is_sc e = Inr ([], e, st, [])"
| "migrate_loop env st (p # ps) legacy is_sc e =
     require (token_identifier p = legacy) INVALID_PAYMENTS_ERR_MSG
    (and_then (migrate_single_old_token env st p is_sc (get_block_epoch env) e) (\<lambda>(q, e, st, es).
     and_then (migrate_loop env st ps legacy is_sc e) (\<lambda>(qs, e, st, es').
     Inr (q # qs, e, st, es @ es'))))"

definition migrate_old_tokens ::
  "factory_env \<Rightarrow> factory_storage \<Rightarrow> esdt_payment list \<Rightarrow> (esdt_payment list) factory_result" where
  "migrate_old_tokens env st ps =
     require_not_paused st
    (let caller = get_caller env;
         is_sc = is_smart_contract env caller;
         go = and_then (get_non_empty_payments ps) (\<lambda>payments.
              and_then (update_energy env st caller (\<lambda>e.
                migrate_loop env st payments (legacy_locked_token_id st) is_sc e))
                (\<lambda>(output_payments, st, es).
              Inr (output_payments, st, es @ [DirectSend caller output_payments]))) in
     if \<not> is_sc then require_old_tokens_energy_was_updated st caller go else go)"

end
