(* ===== verification/EnergyFacts.thy ===== *)
theory EnergyFacts
  imports EnergyMerging
begin

text \<open>
  What the endpoints of the energy factory do, case by case: how they move a user's energy
  between sets of positions, that the contract keeps no tokens of the payments, and the
  invariant of its storage.
\<close>

section \<open>Invariant and vocabulary\<close>

text \<open>
  Only base asset tokens are locked, the locked token is not the base asset, and the lock
  options are the ones \<open>add_lock_options\<close> accepts, of at most \<open>2 ^ 50\<close> epochs.
\<close>

definition factory_inv :: "factory_storage \<Rightarrow> bool" where
  "factory_inv st \<longleftrightarrow> nonces_ok st \<and>
     (\<forall>n a. created_attributes st n = Some a \<longrightarrow>
        original_token_id a = Esdt (base_asset_token_id st) \<and> original_token_nonce a = 0) \<and>
     locked_token_id st \<noteq> Some (base_asset_token_id st) \<and>
     sane_lock_options (lock_options st) \<and>
     min_migrated_token_locked_period st \<le> lock_epochs (last (lock_options st))"

text \<open>The position a locked token stands for.\<close>

definition position_of :: "factory_storage \<Rightarrow> esdt_payment \<Rightarrow> position" where
  "position_of st p =
     (amount p, case created_attributes st (token_nonce p) of Some a \<Rightarrow> unlock_epoch a | None \<Rightarrow> 0)"

definition positions_of :: "factory_storage \<Rightarrow> esdt_payment list \<Rightarrow> position multiset" where
  "positions_of st ps = mset (map (position_of st) ps)"

text \<open>The stored entry of a user stands for the positions \<open>P\<close>; no entry stands for none.\<close>

definition entry_exact :: "factory_env \<Rightarrow> factory_storage \<Rightarrow> address \<Rightarrow> position multiset \<Rightarrow> bool" where
  "entry_exact env st user P \<longleftrightarrow>
     (case user_energy st user of
        Some e \<Rightarrow> exact e P \<and> last_update_epoch e \<le> get_block_epoch env
      | None \<Rightarrow> P = {#})"

definition moves_energy ::
  "factory_env \<Rightarrow> factory_storage \<Rightarrow> factory_storage \<Rightarrow> address \<Rightarrow> position multiset \<Rightarrow>
     position multiset \<Rightarrow> bool" where
  "moves_energy env st st' user removed added \<longleftrightarrow>
     (\<forall>P. entry_exact env st user (removed + P) \<longrightarrow> entry_exact env st' user (added + P)) \<and>
     (\<forall>v. v \<noteq> user \<longrightarrow> user_energy st' v = user_energy st v)"

definition energy_moves :: "u64 \<Rightarrow> energy \<Rightarrow> energy \<Rightarrow> position multiset \<Rightarrow> position multiset \<Rightarrow> bool" where
  "energy_moves c e e' removed added \<longleftrightarrow>
     (last_update_epoch e = c \<longrightarrow> last_update_epoch e' = c \<and>
        (\<forall>P. exact e (removed + P) \<longrightarrow> exact e' (added + P)))"

text \<open>
  Of the payments and what the call mints and burns nothing stays in the contract but one
  unit of every nonce it creates.
\<close>

definition keeps_nothing ::
  "factory_storage \<Rightarrow> factory_storage \<Rightarrow> esdt_payment list \<Rightarrow> effect list \<Rightarrow> bool" where
  "keeps_nothing st st' ps es \<longleftrightarrow>
     (\<forall>t. paid_in t ps + inflow t es =
        outflow t es + (if locked_token_id st = Some t then created_between st st' else 0))"

text \<open>What every endpoint keeps of the storage, when it creates at most \<open>k\<close> nonces.\<close>

definition same_factory :: "factory_storage \<Rightarrow> factory_storage \<Rightarrow> bool" where
  "same_factory st st' \<longleftrightarrow>
     locked_token_id st' = locked_token_id st \<and> paused st' = paused st \<and>
     base_asset_token_id st' = base_asset_token_id st \<and>
     legacy_locked_token_id st' = legacy_locked_token_id st \<and>
     min_migrated_token_locked_period st' = min_migrated_token_locked_period st \<and>
     lock_options st' = lock_options st"

definition keeps_storage :: "nat \<Rightarrow> factory_storage \<Rightarrow> factory_storage \<Rightarrow> bool" where
  "keeps_storage k st st' \<longleftrightarrow> factory_inv st' \<and> nonces_extend st st' \<and> same_factory st st' \<and>
     unat (last_created_nonce st') = unat (last_created_nonce st) + created_between st st' \<and>
     created_between st st' \<le> k"

lemma positions_of_simps [simp]:
  "positions_of st [] = {#}"
  "positions_of st (p # ps) = add_mset (position_of st p) (positions_of st ps)"
  "positions_of st (ps @ qs) = positions_of st ps + positions_of st qs"
  by (simp_all add: positions_of_def)

lemma user_energy_irrelevant [simp]:
  "factory_inv (st\<lparr>user_energy := m\<rparr>) = factory_inv st"
  "position_of (st\<lparr>user_energy := m\<rparr>) = position_of st"
  "positions_of (st\<lparr>user_energy := m\<rparr>) = positions_of st"
  "nonces_extend st (st'\<lparr>user_energy := m\<rparr>) = nonces_extend st st'"
  "nonces_extend (st\<lparr>user_energy := m\<rparr>) st' = nonces_extend st st'"
  "created_between st (st'\<lparr>user_energy := m\<rparr>) = created_between st st'"
  "created_between (st\<lparr>user_energy := m\<rparr>) st' = created_between st st'"
  "same_factory st (st'\<lparr>user_energy := m\<rparr>) = same_factory st st'"
  "same_factory (st\<lparr>user_energy := m\<rparr>) st' = same_factory st st'"
  "keeps_storage k st (st'\<lparr>user_energy := m\<rparr>) = keeps_storage k st st'"
  "keeps_storage k (st\<lparr>user_energy := m\<rparr>) st' = keeps_storage k st st'"
  "keeps_nothing st (st'\<lparr>user_energy := m\<rparr>) ps es = keeps_nothing st st' ps es"
  "keeps_nothing (st\<lparr>user_energy := m\<rparr>) st' ps es = keeps_nothing st st' ps es"
proof -
  show pos: "position_of (st\<lparr>user_energy := m\<rparr>) = position_of st"
    by (simp add: position_of_def fun_eq_iff)
  show "positions_of (st\<lparr>user_energy := m\<rparr>) = positions_of st"
    by (simp add: positions_of_def pos fun_eq_iff)
qed (simp_all add: factory_inv_def nonces_ok_def nonces_extend_def
      created_between_def same_factory_def keeps_storage_def keeps_nothing_def)

lemma created_between_refl [simp]: "created_between st st = 0"
  by (simp add: created_between_def)

lemma keeps_storage_refl: "factory_inv st \<Longrightarrow> keeps_storage k st st"
  by (simp add: keeps_storage_def same_factory_def)

lemma keeps_storage_trans:
  assumes "keeps_storage j st st'" "keeps_storage k st' st''"
  shows "keeps_storage (j + k) st st''"
    and "created_between st st'' = created_between st st' + created_between st' st''"
  using assms
  by (auto simp: keeps_storage_def same_factory_def created_between_def intro: nonces_extend_trans)

lemma keeps_storage_position:
  "keeps_storage k st st' \<Longrightarrow> created_attributes st (token_nonce p) = Some a \<Longrightarrow>
   position_of st' p = position_of st p"
  by (auto simp: keeps_storage_def position_of_def dest: nonces_extendD)

lemma esdt_local_burn_flow [simp]:
  "outflow t (esdt_local_burn u n a) = (if u = t then a else 0)"
  "inflow t (esdt_local_burn u n a) = 0"
  by (simp_all add: esdt_local_burn_def)

lemma energy_moves_refl: "energy_moves c e e P P"
  by (simp add: energy_moves_def)

lemma energy_moves_trans:
  "energy_moves c e e' A (B + C) \<Longrightarrow> energy_moves c e' e'' (B + D) E \<Longrightarrow>
   energy_moves c e e'' (A + D) (C + E)"
  unfolding energy_moves_def by (metis (no_types, lifting) add.assoc add.commute)

lemma energy_moves_lock:
  "c \<le> u \<Longrightarrow> energy_moves c e (add_after_token_lock e a u c) {#} {#(a, u)#}"
  using exact_add_after_token_lock by (simp add: energy_moves_def)

lemma unlock_keeps_epoch:
  "refund_after_token_unlock e a u c = Inr e' \<Longrightarrow> last_update_epoch e' = last_update_epoch e"
  "deplete_after_early_unlock e a u c = Inr e' \<Longrightarrow> last_update_epoch e' = last_update_epoch e"
  by (auto simp: refund_after_token_unlock_def deplete_after_early_unlock_def energy_add_eq
      energy_subtract_eq res_simps)

lemma energy_moves_refund:
  assumes "refund_after_token_unlock e a u c = Inr e'" "u \<le> c"
  shows "energy_moves c e e' {#(a, u)#} {#}"
  unfolding energy_moves_def
  using unlock_keeps_epoch(1) [OF assms(1)] exact_refund(1) [OF assms(1) _ _ assms(2)] by simp

lemma energy_moves_deplete:
  assumes "deplete_after_early_unlock e a u c = Inr e'" "c \<le> u"
  shows "energy_moves c e e' {#(a, u)#} {#}"
  unfolding energy_moves_def
  using unlock_keeps_epoch(2) [OF assms(1)] exact_deplete_after_early_unlock(1) [OF assms(1) _ _ assms(2)]
  by simp

lemma energy_moves_unlock:
  assumes "update_after_unlock_any e a u c = Inr e'"
  shows "energy_moves c e e' {#(a, u)#} {#}"
proof (cases "u < c")
  case True
  then show ?thesis using assms energy_moves_refund [of e a u c e']
    by (simp add: update_after_unlock_any_def)
next
  case False
  then show ?thesis using assms energy_moves_deplete [of e a u c e']
    by (simp add: update_after_unlock_any_def)
qed

lemma energy_moves_epoch_change:
  assumes "update_after_unlock_epoch_change e a u v c = Inr e'" "c \<le> v"
  shows "energy_moves c e e' {#(a, u)#} {#(a, v)#}"
proof -
  obtain e1 where "update_after_unlock_any e a u c = Inr e1" "e' = add_after_token_lock e1 a v c"
    using assms(1) by (auto simp: update_after_unlock_epoch_change_def res_simps)
  with energy_moves_unlock [of e a u c e1] energy_moves_lock [OF assms(2), of e1 a]
  have "energy_moves c e e1 {#(a, u)#} ({#} + {#})" "energy_moves c e1 e' ({#} + {#}) {#(a, v)#}"
    by simp_all
  from energy_moves_trans [OF this] show ?thesis by simp
qed

section \<open>update_energy\<close>

lemma update_energy_Inr [res_simps]:
  "update_energy env st user f = Inr r \<longleftrightarrow>
     (\<exists>x e st1 es. f (get_updated_energy_entry_for_user env (user_energy st) user) = Inr (x, e, st1, es) \<and>
        r = (x, st1\<lparr>user_energy := set_energy_entry (user_energy st1) user e\<rparr>, es))"
  by (auto simp: update_energy_def Let_def res_simps)

lemma set_entry_moves:
  assumes "energy_moves (get_block_epoch env) (get_updated_energy_entry_for_user env (user_energy st) user)
      e removed added" "user_energy st1 = user_energy st"
  shows "moves_energy env st (st1\<lparr>user_energy := set_energy_entry (user_energy st1) user e\<rparr>) user removed added"
proof -
  have "entry_exact env st user Q \<Longrightarrow>
      exact (get_updated_energy_entry_for_user env (user_energy st) user) Q \<and>
      last_update_epoch (get_updated_energy_entry_for_user env (user_energy st) user) =
        get_block_epoch env" for Q
    using exact_updated_entry [where user_energy = "user_energy st" and user = user and env = env and P = Q]
    by (simp add: entry_exact_def split: option.splits)
  then show ?thesis
    using assms by (auto simp: moves_energy_def entry_exact_def set_energy_entry_def energy_moves_def)
qed

section \<open>Creating a position\<close>

text \<open>Locking the base asset creates the position, under whatever nonce.\<close>

lemma lock_base_creates:
  assumes "simple_lock_tokens env st p u = Inr (q, st', es)" "to_esdt_payment q = Inr q'"
    and "payment_token p = Esdt (base_asset_token_id st)" "payment_nonce p = 0"
    and "get_block_epoch env < u" "factory_inv st" "last_created_nonce st < - 1"
  shows "keeps_storage 1 st st'" "user_energy st' = user_energy st"
    and "position_of st' q' = (payment_amount p, u)"
    and "locked_token_id st = Some (token_identifier q')" "amount q' = payment_amount p"
    and "0 < payment_amount p"
    and "inflow t es = (if locked_token_id st = Some t then payment_amount p + created_between st st' else 0)"
    and "outflow t es = 0"
proof -
  have "nonces_ok st" using assms(6) by (simp add: factory_inv_def)
  note ok = simple_lock_tokens_ok [OF assms(1,5) this assms(7)]
  have all: "keeps_storage 1 st st' \<and> user_energy st' = user_energy st \<and>
    position_of st' q' = (payment_amount p, u) \<and>
    locked_token_id st = Some (token_identifier q') \<and> amount q' = payment_amount p \<and>
    0 < payment_amount p \<and>
    inflow t es = (if locked_token_id st = Some t then payment_amount p + created_between st st' else 0) \<and>
    outflow t es = 0"
  proof (rule ok, goal_cases)
    case (1 tok n)
    have q': "q' = new_payment tok n (payment_amount p)"
      using assms(2) 1(2) by (cases q') (simp add: res_simps new_payment_def)
    have same: "same_factory st st'" "user_energy st' = user_energy st"
      using 1(7,8) by (cases st; cases st'; simp add: same_factory_def)+
    have base: "original_token_id a = Esdt (base_asset_token_id st') \<and> original_token_nonce a = 0"
      if "created_attributes st' m = Some a" for m a
      using that 1(13) [of m] assms(3,4,6) same(1) by (auto simp: factory_inv_def same_factory_def)
    have "factory_inv st'"
      using 1(5) base same(1) assms(6) by (auto simp: factory_inv_def same_factory_def)
    with same 1 q' show ?case
      by (auto simp: keeps_storage_def position_of_def)
  qed
  then show "keeps_storage 1 st st'" "user_energy st' = user_energy st"
    "position_of st' q' = (payment_amount p, u)"
    "locked_token_id st = Some (token_identifier q')" "amount q' = payment_amount p"
    "0 < payment_amount p"
    "inflow t es = (if locked_token_id st = Some t then payment_amount p + created_between st st' else 0)"
    "outflow t es = 0"
    by blast+
qed

end
