(* ===== verification/EnergySteps.thy ===== *)
theory EnergySteps
  imports EnergyFacts
begin

text \<open>
  Every user-facing endpoint of the energy factory as a step: the storage it keeps, the
  tokens it passes on, and the positions it takes from a user's energy and adds to it.
\<close>

section \<open>Creating a position, in one predicate\<close>

definition locks_position ::
  "factory_storage \<Rightarrow> factory_storage \<Rightarrow> effect list \<Rightarrow> esdt_payment \<Rightarrow> biguint \<Rightarrow> u64 \<Rightarrow> bool" where
  "locks_position st st' es q a u \<longleftrightarrow>
     keeps_storage 1 st st' \<and> user_energy st' = user_energy st \<and> position_of st' q = (a, u) \<and>
     locked_token_id st = Some (token_identifier q) \<and> amount q = a \<and> 0 < a \<and>
     (\<forall>t. inflow t es = (if locked_token_id st = Some t then a + created_between st st' else 0)) \<and>
     (\<forall>t. outflow t es = 0)"

definition step_ok ::
  "nat \<Rightarrow> factory_env \<Rightarrow> factory_storage \<Rightarrow> factory_storage \<Rightarrow> esdt_payment list \<Rightarrow> effect list \<Rightarrow>
     address \<Rightarrow> position multiset \<Rightarrow> position multiset \<Rightarrow> bool" where
  "step_ok k env st st' ps es user removed added \<longleftrightarrow>
     keeps_storage k st st' \<and> keeps_nothing st st' ps es \<and> moves_energy env st st' user removed added"

text \<open>Payments in the base asset are fungible.\<close>

definition fungible_base :: "factory_storage \<Rightarrow> esdt_payment list \<Rightarrow> bool" where
  "fungible_base st ps \<longleftrightarrow>
     (\<forall>p\<in>set ps. token_identifier p = base_asset_token_id st \<longrightarrow> token_nonce p = 0)"

lemma simple_lock_position:
  assumes "simple_lock_tokens env st p u = Inr (q, st', es)" "to_esdt_payment q = Inr q'"
    and "payment_token p = Esdt (base_asset_token_id st)" "payment_nonce p = 0"
    and "get_block_epoch env < u" "factory_inv st" "last_created_nonce st < - 1"
  shows "locks_position st st' es q' (payment_amount p) u"
  using lock_base_creates [OF assms] by (simp add: locks_position_def)

lemma lock_base_asset_ok:
  assumes "lock_base_asset env st p u (get_block_epoch env) e = Inr (q, e', st', es)"
    and "token_identifier p = base_asset_token_id st" "token_nonce p = 0"
    and "get_block_epoch env < u" "factory_inv st" "last_created_nonce st < - 1"
  shows "locks_position st st' es q (amount p) u"
    and "energy_moves (get_block_epoch env) e e' {#} {#(amount p, u)#}"
proof -
  obtain out where l: "simple_lock_tokens env st (esdt_into p) u = Inr (out, st', es)"
    and q: "to_esdt_payment out = Inr q"
    and e': "e' = add_after_token_lock e (payment_amount out) u (get_block_epoch env)"
    using assms(1) by (auto simp: lock_base_asset_def Let_def and_then_Inr)
  from simple_lock_position [OF l q] assms
  show lp: "locks_position st st' es q (amount p) u" by simp
  then have "payment_amount out = amount p" using q by (simp add: locks_position_def res_simps)
  with e' assms(4) energy_moves_lock [of "get_block_epoch env" u e "amount p"]
  show "energy_moves (get_block_epoch env) e e' {#} {#(amount p, u)#}" by simp
qed

lemma extend_new_token_period_ok:
  assumes "extend_new_token_period env st p u (get_block_epoch env) e = Inr (q, e', st', es)"
    and "get_block_epoch env < u" "factory_inv st" "last_created_nonce st < - 1"
  shows "locks_position st st' es q (amount p) u"
    and "energy_moves (get_block_epoch env) e e' {#position_of st p#} {#(amount p, u)#}"
    and "snd (position_of st p) < u"
proof -
  obtain a out where a: "created_attributes st (token_nonce p) = Some a" "unlock_epoch a < u"
    and e': "update_after_unlock_epoch_change e (amount p) (unlock_epoch a) u (get_block_epoch env) = Inr e'"
    and l: "simple_lock_tokens env st
      (egld_or_esdt_new (original_token_id a) (original_token_nonce a) (amount p)) u = Inr (out, st', es)"
    and q: "to_esdt_payment out = Inr q"
    using assms(1)
    by (auto simp: extend_new_token_period_def unlock_tokens_unchecked_Inr and_then_Inr require_Inr
        get_token_attributes_Inr)
  have "original_token_id a = Esdt (base_asset_token_id st)" "original_token_nonce a = 0"
    using a(1) assms(3) by (auto simp: factory_inv_def)
  then show "locks_position st st' es q (amount p) u"
    using simple_lock_position [OF l q] assms by simp
  show "energy_moves (get_block_epoch env) e e' {#position_of st p#} {#(amount p, u)#}"
    using energy_moves_epoch_change [OF e'] assms(2) a(1) by (simp add: position_of_def)
  show "snd (position_of st p) < u" using a by (simp add: position_of_def)
qed

section \<open>lockTokens, extendLockPeriod, lockVirtual\<close>

text \<open>The common end of the three: the payment is burnt and the new position sent.\<close>

lemma locked_step:
  assumes "locks_position st st1 es1 q a u" "amount p = a"
    and "energy_moves (get_block_epoch env)
      (get_updated_energy_entry_for_user env (user_energy st) user) e removed {#(a, u)#}"
    and "st' = st1\<lparr>user_energy := set_energy_entry (user_energy st1) user e\<rparr>"
  shows "step_ok 1 env st st' [p]
      (es1 @ esdt_local_burn (token_identifier p) (token_nonce p) (amount p) @ [DirectSend d [q]])
      user removed {#(a, u)#}"
    and "position_of st' q = (a, u)"
  using assms set_entry_moves [OF assms(3), of st1]
  by (auto simp: step_ok_def locks_position_def keeps_nothing_def)

lemma lock_tokens_endpoint_step:
  assumes run: "lock_tokens_endpoint env st ps epochs opt_dest = Inr (q, st', es)"
    and inv: "factory_inv st" and room: "last_created_nonce st < - 1" and fung: "fungible_base st ps"
  obtains p u where "ps = [p]" and "u = unlock_epoch_to_start_of_month (get_block_epoch env + epochs)"
    and "get_block_epoch env < u" and "position_of st' q = (amount p, u)"
    and "step_ok 1 env st st' ps es (dest_from_optional env opt_dest)
      (if token_identifier p = base_asset_token_id st then {#} else {#position_of st p#})
      {#(amount p, u)#}"
proof -
  let ?c = "get_block_epoch env" and ?d = "dest_from_optional env opt_dest"
  let ?u = "unlock_epoch_to_start_of_month (?c + epochs)"
  let ?e = "get_updated_energy_entry_for_user env (user_energy st) ?d"
  obtain p where ps: "ps = [p]" using run
    by (auto simp: lock_tokens_endpoint_def require_not_paused_def require_is_listed_lock_option_def
        Let_def res_simps)
  obtain e st1 es1 where u: "?c < ?u"
    and closure: "(if is_base_asset_token st (token_identifier p)
       then lock_base_asset env st p ?u ?c ?e
       else require_address_is_caller env ?d (require_same_token st (token_identifier p)
          (extend_new_token_period env st p ?u ?c ?e))) = Inr (q, e, st1, es1)"
    and st': "st' = st1\<lparr>user_energy := set_energy_entry (user_energy st1) ?d e\<rparr>"
    and es: "es = (es1 @ esdt_local_burn (token_identifier p) (token_nonce p) (amount p)) @ [DirectSend ?d [q]]"
    using run
    by (auto simp: lock_tokens_endpoint_def require_not_paused_def require_is_listed_lock_option_def
        require_future_unlock_def lock_by_token_type_def ps Let_def require_Inr and_then_Inr
        single_esdt_Inr update_energy_Inr)
  let ?removed = "if token_identifier p = base_asset_token_id st then {#} else {#position_of st p#}"
  have "locks_position st st1 es1 q (amount p) ?u \<and> energy_moves ?c ?e e ?removed {#(amount p, ?u)#}"
  proof (cases "token_identifier p = base_asset_token_id st")
    case True
    then have "lock_base_asset env st p ?u ?c ?e = Inr (q, e, st1, es1)" "token_nonce p = 0"
      using closure fung ps by (auto simp: is_base_asset_token_def fungible_base_def)
    with True lock_base_asset_ok [OF this(1) True this(2) u inv room] show ?thesis by simp
  next
    case False
    then have "extend_new_token_period env st p ?u ?c ?e = Inr (q, e, st1, es1)"
      using closure by (simp add: is_base_asset_token_def require_address_is_caller_def res_simps)
    with False extend_new_token_period_ok [OF this u inv room] show ?thesis by simp
  qed
  then show thesis
    using that [OF ps refl u] locked_step(1) [of st st1 es1 q "amount p" "?u" p env ?d e ?removed st' ?d]
      locked_step(2) [of st st1 es1 q "amount p" "?u" p env ?d e ?removed st'] st' es ps
    by auto
qed

lemma extend_lock_period_step:
  assumes run: "extend_lock_period env st ps epochs user = Inr (q, st', es)"
    and inv: "factory_inv st" and room: "last_created_nonce st < - 1"
  obtains p u where "ps = [p]" and "u = unlock_epoch_to_start_of_month (get_block_epoch env + epochs)"
    and "get_block_epoch env < u" and "position_of st' q = (amount p, u)"
    and "step_ok 1 env st st' ps es user {#position_of st p#} {#(amount p, u)#}"
proof -
  let ?c = "get_block_epoch env"
  let ?u = "unlock_epoch_to_start_of_month (?c + epochs)"
  let ?e = "get_updated_energy_entry_for_user env (user_energy st) user"
  obtain p where ps: "ps = [p]" using run
    by (auto simp: extend_lock_period_def require_not_paused_def require_is_listed_lock_option_def
        Let_def res_simps)
  obtain e st1 es1 where u: "?c < ?u"
    and closure: "extend_new_token_period env st p ?u ?c ?e = Inr (q, e, st1, es1)"
    and st': "st' = st1\<lparr>user_energy := set_energy_entry (user_energy st1) user e\<rparr>"
    and es: "es = es1 @ esdt_local_burn (token_identifier p) (token_nonce p) (amount p) @
       [DirectSend (get_caller env) [q]]"
    using run
    by (auto simp: extend_lock_period_def require_not_paused_def require_is_listed_lock_option_def
        require_future_unlock_def ps Let_def require_Inr and_then_Inr
        single_esdt_Inr update_energy_Inr require_same_token_Inr)
  show thesis
    using that [OF ps refl u] extend_new_token_period_ok [OF closure u inv room]
      locked_step(1) [of st st1 es1 q "amount p" "?u" p env user e "{#position_of st p#}" st' "get_caller env"]
      locked_step(2) [of st st1 es1 q "amount p" "?u" p env user e "{#position_of st p#}" st'] st' es ps
    by auto
qed

lemma lock_virtual_step:
  assumes run: "lock_virtual env st tok a epochs d user = Inr (q, st', es)"
    and inv: "factory_inv st" and room: "last_created_nonce st < - 1"
  obtains u where "u = unlock_epoch_to_start_of_month (get_block_epoch env + epochs)"
    and "get_block_epoch env < u" and "position_of st' q = (a, u)"
    and "step_ok 1 env st st' [] es user {#} {#(a, u)#}"
    and "get_caller env \<in> sc_whitelist_addresses st"
proof -
  let ?c = "get_block_epoch env"
  let ?u = "unlock_epoch_to_start_of_month (?c + epochs)"
  let ?e = "get_updated_energy_entry_for_user env (user_energy st) user"
  obtain e st1 es1 where u: "?c < ?u" and tok: "tok = base_asset_token_id st"
    and closure: "lock_base_asset env st (new_payment tok 0 a) ?u ?c ?e = Inr (q, e, st1, es1)"
    and st': "st' = st1\<lparr>user_energy := set_energy_entry (user_energy st1) user e\<rparr>"
    and es: "es = es1 @ [DirectSend d [q]]"
    and caller: "get_caller env \<in> sc_whitelist_addresses st"
    using run
    by (auto simp: lock_virtual_def require_not_paused_def require_is_listed_lock_option_def
        require_future_unlock_def Let_def require_Inr and_then_Inr is_base_asset_token_def
        update_energy_Inr utils_Inr)
  note ok = lock_base_asset_ok [OF closure, simplified, OF tok u inv room]
  show thesis
    using that [OF refl u _ _ caller] ok set_entry_moves [OF ok(2), of st1] st' es
    by (auto simp: step_ok_def locks_position_def keeps_nothing_def)
qed

section \<open>unlockTokens\<close>

lemma energy_moves_both:
  assumes "energy_moves c e e' A C" "energy_moves c e' e'' B D"
  shows "energy_moves c e e'' (A + B) (C + D)"
  using energy_moves_trans [of c e e' A "{#}" C e'' B D] assms by (simp add: add.commute)

lemma unlock_loop_ok:
  assumes "unlock_loop env st ps out e = Inr (out', e', st', es)" "factory_inv st"
    and "token_identifier out = base_asset_token_id st" "token_nonce out = 0"
  shows "st' = st \<and> out' = new_payment (base_asset_token_id st) 0 (amount out + sum_list (map amount ps)) \<and>
    energy_moves (get_block_epoch env) e e' (positions_of st ps) {#} \<and>
    inflow t es = 0 \<and> outflow t es = paid_in t ps \<and>
    (\<forall>p\<in>set ps. snd (position_of st p) \<le> get_block_epoch env)"
  using assms
proof (induction ps arbitrary: out e out' es)
  case Nil
  then show ?case by (cases out) (auto simp: new_payment_def energy_moves_refl)
next
  case (Cons p ps)
  obtain a e1 es1 where a: "created_attributes st (token_nonce p) = Some a"
      "unlock_epoch a \<le> get_block_epoch env"
    and e1: "refund_after_token_unlock e (amount p) (unlock_epoch a) (get_block_epoch env) = Inr e1"
    and rest: "unlock_loop env st ps (out\<lparr>amount := amount out + amount p\<rparr>) e1 = Inr (out', e', st', es1)"
    and es: "es = NftBurn (token_identifier p) (token_nonce p) (amount p) # es1"
    using Cons.prems(1)
    by (auto simp: and_then_Inr get_token_attributes_Inr unlock_tokens_Inr to_esdt_payment_Inr
        esdt_merge_with_def require_Inr)
  note IH = Cons.IH [OF rest Cons.prems(2)]
  have "energy_moves (get_block_epoch env) e e1 {#position_of st p#} {#}"
    using energy_moves_refund [OF e1 a(2)] a(1) by (simp add: position_of_def)
  then have "energy_moves (get_block_epoch env) e e' ({#position_of st p#} + positions_of st ps) ({#} + {#})"
    using IH Cons.prems(3,4) by (intro energy_moves_both) auto
  with IH Cons.prems(3,4) a es show ?case by (auto simp: position_of_def)
qed

lemma unlock_tokens_endpoint_step:
  assumes run: "unlock_tokens_endpoint env st ps = Inr (q, st', es)" and inv: "factory_inv st"
  shows "step_ok 0 env st st' ps es (get_caller env) (positions_of st ps) {#}"
    and "q = new_payment (base_asset_token_id st) 0 (sum_list (map amount ps))"
    and "\<forall>p\<in>set ps. snd (position_of st p) \<le> get_block_epoch env"
proof -
  let ?e = "get_updated_energy_entry_for_user env (user_energy st) (get_caller env)"
  obtain e st1 es1 where
    loop: "unlock_loop env st ps (new_payment (base_asset_token_id st) 0 0) ?e = Inr (q, e, st1, es1)"
    and st': "st' = st1\<lparr>user_energy := set_energy_entry (user_energy st1) (get_caller env) e\<rparr>"
    and es: "es = es1 @ [EsdtLocalMint (token_identifier q) (amount q),
       DirectSend (get_caller env) [new_payment (token_identifier q) 0 (amount q)]]"
    using run
    by (auto simp: unlock_tokens_endpoint_def require_not_paused_def Let_def require_Inr and_then_Inr
        update_energy_Inr utils_Inr require_all_same_token_Inr)
  note ok = unlock_loop_ok [OF loop inv new_payment_sel(1,2)]
  show "step_ok 0 env st st' ps es (get_caller env) (positions_of st ps) {#}"
    using ok set_entry_moves [of env st "get_caller env" e "positions_of st ps" "{#}" st1] inv
    by (simp add: step_ok_def keeps_nothing_def st' es keeps_storage_refl)
  show "q = new_payment (base_asset_token_id st) 0 (sum_list (map amount ps))"
    and "\<forall>p\<in>set ps. snd (position_of st p) \<le> get_block_epoch env"
    using ok by simp_all
qed

section \<open>unlockEarly and reduceLockPeriod\<close>

lemma reduce_common_ok:
  assumes run: "reduce_lock_period_common env st caller p opt = Inr r" and inv: "factory_inv st"
  obtains a pen where "created_attributes st (token_nonce p) = Some a"
    and "locked_token_id st = Some (token_identifier p)"
    and "get_block_epoch env < unlock_epoch a"
    and "new_lock_epochs r < unlock_epoch a - get_block_epoch env"
    and "calculate_penalty_amount (lock_options st) (amount p) (unlock_epoch a - get_block_epoch env)
      (new_lock_epochs r) = Inr pen"
    and "pen < amount p"
    and "reduce_unlocked_tokens r = egld_or_esdt_new (Esdt (base_asset_token_id st)) 0 (amount p - pen)"
    and "energy_moves (get_block_epoch env)
      (get_updated_energy_entry_for_user env (user_energy st) caller) (reduce_energy r)
      {#position_of st p#} {#}"
    and "opt = None \<Longrightarrow> new_lock_epochs r = 0"
    and "\<And>epochs. opt = Some epochs \<Longrightarrow> new_lock_epochs r =
      epochs - (get_block_epoch env + epochs -
        unlock_epoch_to_start_of_month (get_block_epoch env + epochs))"
proof -
  let ?c = "get_block_epoch env"
  let ?n = "case opt of Some epochs \<Rightarrow>
      epochs - (?c + epochs - unlock_epoch_to_start_of_month (?c + epochs)) | None \<Rightarrow> 0"
  obtain a e pen where a: "created_attributes st (token_nonce p) = Some a"
    and tok: "locked_token_id st = Some (token_identifier p)" and c: "?c < unlock_epoch a"
    and n: "?n < unlock_epoch a - ?c"
    and e: "deplete_after_early_unlock (get_updated_energy_entry_for_user env (user_energy st) caller)
      (amount p) (unlock_epoch a) ?c = Inr e"
    and pen: "calculate_penalty_amount (lock_options st) (amount p) (unlock_epoch a - ?c) ?n = Inr pen"
    and less: "pen < amount p"
    and r: "r = \<lparr>new_lock_epochs = ?n,
      reduce_unlocked_tokens = (egld_or_esdt_new (original_token_id a) (original_token_nonce a)
        (amount p))\<lparr>payment_amount := amount p - pen\<rparr>, reduce_energy = e\<rparr>"
    using run
    by (cases opt) (auto simp: reduce_lock_period_common_def require_not_paused_def Let_def require_Inr and_then_Inr
        require_same_token_Inr get_token_attributes_Inr unlock_tokens_unchecked_Inr big_sub_Inr)
  have "original_token_id a = Esdt (base_asset_token_id st)" "original_token_nonce a = 0"
    using a inv by (auto simp: factory_inv_def)
  moreover have "energy_moves ?c (get_updated_energy_entry_for_user env (user_energy st) caller) e
      {#position_of st p#} {#}"
    using energy_moves_deplete [OF e] c a by (simp add: position_of_def)
  ultimately show thesis
    using a tok c n pen less r by (intro that [of a pen]) (auto simp: egld_or_esdt_new_def)
qed

lemma unlock_early_step:
  assumes run: "unlock_early env st ps = Inr (x, st', es)" and inv: "factory_inv st"
  obtains p pen sc where "ps = [p]" and "token_unstake_sc_address st = Some sc"
    and "get_block_epoch env < snd (position_of st p)"
    and "calculate_penalty_amount (lock_options st) (amount p)
      (snd (position_of st p) - get_block_epoch env) 0 = Inr pen"
    and "pen < amount p"
    and "es = [EsdtLocalMint (base_asset_token_id st) (amount p - pen),
      ExecuteOnDestFor sc ''depositUserTokens'' (get_caller env)
        [p, new_payment (base_asset_token_id st) 0 (amount p - pen)]]"
    and "step_ok 0 env st st' ps es (get_caller env) {#position_of st p#} {#}"
proof -
  obtain p r sc unlocked where ps: "ps = [p]"
    and r: "reduce_lock_period_common env st (get_caller env) p None = Inr r"
    and unlocked: "to_esdt_payment (reduce_unlocked_tokens r) = Inr unlocked"
    and sc: "token_unstake_sc_address st = Some sc"
    and st': "st' = st\<lparr>user_energy :=
      set_energy_entry (user_energy st) (get_caller env) (reduce_energy r)\<rparr>"
    and es: "es = [EsdtLocalMint (token_identifier unlocked) (amount unlocked),
      ExecuteOnDestFor sc ''depositUserTokens'' (get_caller env) [p, unlocked]]"
    using run
    by (auto simp: unlock_early_def unstake_tokens_def get_token_unstake_sc_address_def
        require_not_paused_def Let_def require_Inr and_then_Inr single_esdt_Inr split: option.splits)
  from r inv show thesis
  proof (rule reduce_common_ok, goal_cases)
    case (1 a pen)
    have u: "unlocked = new_payment (base_asset_token_id st) 0 (amount p - pen)"
      using unlocked 1(7) by (cases unlocked) (simp add: to_esdt_payment_Inr new_payment_def)
    have "step_ok 0 env st st' ps es (get_caller env) {#position_of st p#} {#}"
      using set_entry_moves [OF 1(8) refl] inv
      by (simp add: step_ok_def keeps_nothing_def st' es ps u keeps_storage_refl)
    with 1 show ?case
      by (intro that [OF ps sc, of pen]) (auto simp: position_of_def es u)
  qed
qed

text \<open>The reduced period ends at the start of the month of the chosen one.\<close>

lemma reduced_epoch:
  fixes c epochs :: u64
  assumes "360 \<le> unat epochs"
  defines "n \<equiv> epochs - (c + epochs - unlock_epoch_to_start_of_month (c + epochs))"
  shows "c + n = unlock_epoch_to_start_of_month (c + epochs)" and "330 < unat n" and "n \<le> epochs"
proof -
  show "c + n = unlock_epoch_to_start_of_month (c + epochs)" by (simp add: n_def)
  let ?d = "c + epochs - unlock_epoch_to_start_of_month (c + epochs)"
  have "?d = (c + epochs) mod 30"
    by (simp add: unlock_epoch_to_start_of_month_def Let_def EPOCHS_PER_MONTH_def)
  then have "unat ?d = unat (c + epochs) mod 30" by (simp add: unat_mod)
  then have d: "unat ?d < 30" by simp
  then have "?d \<le> epochs" using assms(1) by (simp add: word_le_nat_alt)
  then have "unat n = unat epochs - unat ?d" unfolding n_def by (rule unat_sub_u64)
  with d assms(1) show "330 < unat n" "n \<le> epochs" by (auto simp: word_le_nat_alt)
qed

lemma listed_option_year:
  assumes "require_is_listed_lock_option options epochs k = Inr y" "valid_lock_options options"
  shows "k = Inr y" "360 \<le> unat epochs" "\<exists>x\<in>set options. lock_epochs x = epochs"
    "epochs \<le> lock_epochs (last options)"
proof -
  show k: "k = Inr y" and x: "\<exists>x\<in>set options. lock_epochs x = epochs"
    using assms(1) by (auto simp: require_is_listed_lock_option_def res_simps get_lock_options_def list_ex_iff)
  from x assms(2) show "360 \<le> unat epochs"
    by (auto simp: valid_lock_options_def word_le_nat_alt lock_constants)
  from x assms(2) show "epochs \<le> lock_epochs (last options)"
    by (cases options rule: rev_cases)
      (auto simp: valid_lock_options_def sorted_wrt_append intro: order.strict_implies_order)
qed

lemma reduce_lock_period_step:
  assumes run: "reduce_lock_period env st ps epochs = Inr (q, st', es)"
    and inv: "factory_inv st" and room: "last_created_nonce st < - 1"
  obtains p pen u where "ps = [p]" and "u = unlock_epoch_to_start_of_month (get_block_epoch env + epochs)"
    and "get_block_epoch env < u" and "u < snd (position_of st p)"
    and "calculate_penalty_amount (lock_options st) (amount p)
      (snd (position_of st p) - get_block_epoch env) (u - get_block_epoch env) = Inr pen"
    and "pen < amount p" and "position_of st' q = (amount p - pen, u)"
    and "step_ok 1 env st st' ps es (get_caller env) {#position_of st p#} {#(amount p - pen, u)#}"
proof -
  let ?c = "get_block_epoch env" and ?u = "unlock_epoch_to_start_of_month (get_block_epoch env + epochs)"
  have valid: "valid_lock_options (lock_options st)"
    using inv by (simp add: factory_inv_def sane_lock_options_def)
  have "require_is_listed_lock_option (lock_options st) epochs (Inr ()) = Inr ()"
    using run by (auto simp: reduce_lock_period_def require_not_paused_def require_Inr
        require_is_listed_lock_option_def and_then_Inr)
  note year = listed_option_year(2) [OF this valid]
  obtain p r pen out st1 es1 es_fees where ps: "ps = [p]"
    and r: "reduce_lock_period_common env st (get_caller env) p (Some epochs) = Inr r"
    and pen: "pen = amount p - payment_amount (reduce_unlocked_tokens r)"
    and l: "simple_lock_tokens env st (reduce_unlocked_tokens r) (?c + new_lock_epochs r) = Inr (out, st1, es1)"
    and fees: "(if 0 < pen
      then send_fees_to_unstake_sc env st1 (new_payment (token_identifier p) (token_nonce p) pen)
      else Inr []) = Inr es_fees"
    and st': "st' = st1\<lparr>user_energy := set_energy_entry (user_energy st1) (get_caller env)
      (add_after_token_lock (reduce_energy r) (payment_amount out) (?c + new_lock_epochs r) ?c)\<rparr>"
    and out: "to_esdt_payment out = Inr q"
    and es: "es = es1 @ esdt_local_burn (token_identifier p) (token_nonce p) (amount p - pen) @
      es_fees @ [DirectSend (get_caller env) [q]]"
    using run
    by (auto simp: reduce_lock_period_def require_is_listed_lock_option_def require_not_paused_def
        direct_esdt Let_def require_Inr and_then_Inr single_esdt_Inr big_sub_Inr)
  from r inv show thesis
  proof (rule reduce_common_ok, goal_cases)
    case (1 a pen')
    have n: "new_lock_epochs r = epochs - (?c + epochs - ?u)" using 1(10) by simp
    note red = reduced_epoch [OF year, of ?c, folded n]
    have pens: "pen = pen'" using pen 1(6,7) by simp
    have nat_n: "unat (new_lock_epochs r) < unat (unlock_epoch a) - unat ?c"
      using 1(3,4) by (simp add: word_less_nat_alt unat_sub_u64 order.strict_implies_order)
    then have "unat (?c + new_lock_epochs r) = unat ?c + unat (new_lock_epochs r)"
      using unsigned_less [of "unlock_epoch a", where ?'a = nat] by (simp add: unat_word_ariths)
    then have u: "unat ?u = unat ?c + unat (new_lock_epochs r)" unfolding red(1) .
    have c_u: "?c < ?u" unfolding word_less_nat_alt u using red(2) by linarith
    have u_a: "?u < unlock_epoch a" unfolding word_less_nat_alt u using nat_n by linarith
    have u_c: "?u - ?c = new_lock_epochs r" unfolding red(1) [symmetric] by simp
    have lp: "locks_position st st1 es1 q (amount p - pen) ?u"
      using simple_lock_position [OF l out] 1(7) c_u inv room pens red(1) by simp
    then have amt: "payment_amount out = amount p - pen"
      using out by (simp add: locks_position_def res_simps)
    have "energy_moves ?c (get_updated_energy_entry_for_user env (user_energy st) (get_caller env))
        (add_after_token_lock (reduce_energy r) (amount p - pen) ?u ?c)
        ({#position_of st p#} + {#}) ({#} + {#(amount p - pen, ?u)#})"
      by (rule energy_moves_both [OF 1(8) energy_moves_lock [OF order.strict_implies_order [OF c_u]]])
    from set_entry_moves [OF this [simplified], of st1]
    have mv: "moves_energy env st st' (get_caller env) {#position_of st p#} {#(amount p - pen, ?u)#}"
      using lp amt red(1) by (simp add: st' locks_position_def)
    have flow: "outflow t es_fees = (if token_identifier p = t then pen else 0)" "inflow t es_fees = 0" for t
      using fees by (auto simp: send_fees_to_unstake_sc_def res_simps split: if_splits)
    have "keeps_nothing st st' ps es"
      using lp 1(2,6) pens by (auto simp: keeps_nothing_def locks_position_def es ps flow st')
    with mv lp have "step_ok 1 env st st' ps es (get_caller env) {#position_of st p#} {#(amount p - pen, ?u)#}"
      by (simp add: step_ok_def locks_position_def st')
    moreover have "position_of st' q = (amount p - pen, ?u)" using lp by (simp add: locks_position_def st')
    moreover have pos: "snd (position_of st p) = unlock_epoch a" using 1(1) by (simp add: position_of_def)
    moreover have "calculate_penalty_amount (lock_options st) (amount p)
        (snd (position_of st p) - ?c) (?u - ?c) = Inr pen"
      unfolding pos u_c pens by (rule 1(5))
    moreover have "?u < snd (position_of st p)" "pen < amount p" unfolding pos pens by (rule u_a, rule 1(6))
    ultimately show ?case by (intro that [OF ps refl c_u])
  qed
qed

end
