(* ===== verification/EnergyMergeSteps.thy ===== *)
theory EnergyMergeSteps
  imports EnergySteps
begin

text \<open>
  The steps of merging and of the migration of legacy tokens: the merged position has the sum
  of the amounts and an epoch between those of the parts, up to a month; a migrated token
  becomes one position of its whole amount.
\<close>

section \<open>Merging two amounts\<close>

lemma unat_of_nat_u64: "n < 2 ^ 64 \<Longrightarrow> unat (of_nat n :: u64) = n"
  by (simp add: unsigned_of_nat take_bit_nat_eq_self)

lemma locked_merge_with_ok:
  assumes "locked_merge_with x y = Inr z"
  shows "token_amount z = token_amount x + token_amount y" "0 < token_amount z"
    and "original_token_id (attributes z) = original_token_id (attributes x)"
    and "original_token_nonce (attributes z) = original_token_nonce (attributes x)"
    and "unat (unlock_epoch (attributes x)) * token_amount x + unat (unlock_epoch (attributes y)) * token_amount y
      \<le> unat (unlock_epoch (attributes z)) * token_amount z"
    and "unat (unlock_epoch (attributes z)) * token_amount z <
      unat (unlock_epoch (attributes x)) * token_amount x + unat (unlock_epoch (attributes y)) * token_amount y
        + token_amount z"
    and "min (unlock_epoch (attributes x)) (unlock_epoch (attributes y)) \<le> unlock_epoch (attributes z)"
    and "unlock_epoch (attributes z) \<le> max (unlock_epoch (attributes x)) (unlock_epoch (attributes y))"
proof -
  let ?x = "unat (unlock_epoch (attributes x))" and ?y = "unat (unlock_epoch (attributes y))"
    and ?a = "token_amount x" and ?b = "token_amount y"
  define r where "r = (?x * ?a + ?y * ?b + (?a + ?b) - 1) div (?a + ?b)"
  have pos: "0 < ?a + ?b" and small: "r < 2 ^ 64"
    and z: "z = x\<lparr>attributes := (attributes x)\<lparr>unlock_epoch := of_nat r\<rparr>, token_amount := ?a + ?b\<rparr>"
    using assms by (auto simp: r_def locked_merge_with_def biguint_to_u64_def res_simps split: if_splits)
  have r: "unat (of_nat r :: u64) = r"
    using small unat_of_nat_u64 by blast
  note avg = ceil_average [OF pos, of ?x ?y, folded r_def]
  show "token_amount z = ?a + ?b" "0 < token_amount z"
    "original_token_id (attributes z) = original_token_id (attributes x)"
    "original_token_nonce (attributes z) = original_token_nonce (attributes x)"
    using pos by (simp_all add: z)
  show "?x * ?a + ?y * ?b \<le> unat (unlock_epoch (attributes z)) * token_amount z"
    "unat (unlock_epoch (attributes z)) * token_amount z < ?x * ?a + ?y * ?b + token_amount z"
    using avg(1,2) by (simp_all add: z r)
  show "min (unlock_epoch (attributes x)) (unlock_epoch (attributes y)) \<le> unlock_epoch (attributes z)"
    "unlock_epoch (attributes z) \<le> max (unlock_epoch (attributes x)) (unlock_epoch (attributes y))"
    using avg(3,4) by (auto simp: z r min_def max_def word_le_nat_alt split: if_splits)
qed

interpretation locked_amounts: mergeable locked_can_merge_with locked_merge_with
  by unfold_locales (auto simp: locked_merge_with_def res_simps)

definition pair_position :: "locked_amount_attributes \<Rightarrow> position" where
  "pair_position x = (token_amount x, unlock_epoch (attributes x))"

text \<open>Amounts weighted with their epochs.\<close>

definition epoch_weight :: "position multiset \<Rightarrow> nat" where
  "epoch_weight P = (\<Sum>(a, u) \<in># P. unat u * a)"

lemma epoch_weight_simps [simp]:
  "epoch_weight {#} = 0"
  "epoch_weight (add_mset (a, u) P) = unat u * a + epoch_weight P"
  by (simp_all add: epoch_weight_def)

lemma epoch_weight_add_mset: "epoch_weight (add_mset x P) = unat (snd x) * fst x + epoch_weight P"
  by (cases x) simp

lemma fst_position_of [simp]: "fst (position_of st p) = amount p"
  by (simp add: position_of_def)

text \<open>
  What merging some payments into a position gives: the lower bound on the weight says that
  the average never falls below the exact one, the upper one counts a rounding per payment.
\<close>

definition merged :: "factory_storage \<Rightarrow> esdt_payment list \<Rightarrow> position \<Rightarrow> position \<Rightarrow> bool" where
  "merged st ps x z \<longleftrightarrow>
     fst z = fst x + sum_list (map amount ps) \<and>
     epoch_weight (add_mset x (positions_of st ps)) \<le> unat (snd z) * fst z \<and>
     unat (snd z) * fst z \<le> epoch_weight (add_mset x (positions_of st ps)) + length ps * fst z \<and>
     (\<forall>lo hi. (\<forall>y\<in>#add_mset x (positions_of st ps). lo \<le> snd y \<and> snd y \<le> hi) \<longrightarrow>
        lo \<le> snd z \<and> snd z \<le> hi)"

lemma merged_range:
  assumes "merged st ps x z" "lo \<le> snd x" "snd x \<le> hi"
    and "\<forall>y\<in>#positions_of st ps. lo \<le> snd y \<and> snd y \<le> hi"
  shows "lo \<le> snd z" "snd z \<le> hi"
proof -
  have "\<forall>y\<in>#add_mset x (positions_of st ps). lo \<le> snd y \<and> snd y \<le> hi" using assms(2-4) by simp
  with assms(1) show "lo \<le> snd z" "snd z \<le> hi" by (simp_all only: merged_def)
qed

lemma merge_tokens_loop_ok:
  assumes "merge_tokens_loop env st ps x e = Inr (z, e', es)"
  shows "energy_moves (get_block_epoch env) e e' (positions_of st ps) {#} \<and>
    original_token_id (attributes z) = original_token_id (attributes x) \<and>
    original_token_nonce (attributes z) = original_token_nonce (attributes x) \<and>
    inflow t es = 0 \<and> outflow t es = paid_in t ps \<and>
    (\<forall>p\<in>set ps. get_block_epoch env < snd (position_of st p)) \<and>
    merged st ps (pair_position x) (pair_position z)"
  using assms
proof (induction ps arbitrary: x e es)
  case Nil
  then show ?case
    by (auto simp: energy_moves_refl merged_def epoch_weight_add_mset pair_position_def)
next
  case (Cons p ps)
  obtain a e1 y es1 where a: "created_attributes st (token_nonce p) = Some a"
      "get_block_epoch env < unlock_epoch a"
    and e1: "update_after_unlock_any e (amount p) (unlock_epoch a) (get_block_epoch env) = Inr e1"
    and y: "locked_merge_with x \<lparr>token_amount = amount p, attributes = a\<rparr> = Inr y"
    and rest: "merge_tokens_loop env st ps y e1 = Inr (z, e', es1)"
    and es: "es = NftBurn (token_identifier p) (token_nonce p) (amount p) # es1"
    using Cons.prems by (auto simp: and_then_Inr get_token_attributes_Inr require_Inr)
  note IH = Cons.IH [OF rest]
  note m = locked_merge_with_ok [OF y]
  have pos: "position_of st p = (amount p, unlock_epoch a)" using a by (simp add: position_of_def)
  have "energy_moves (get_block_epoch env) e e1 {#position_of st p#} {#}"
    using energy_moves_unlock [OF e1] by (simp add: pos)
  then have mv: "energy_moves (get_block_epoch env) e e' ({#position_of st p#} + positions_of st ps) ({#} + {#})"
    using IH by (intro energy_moves_both) auto
  let ?z = "unat (unlock_epoch (attributes z)) * token_amount z"
  have z: "token_amount z = token_amount y + sum_list (map amount ps)"
    "unat (unlock_epoch (attributes y)) * token_amount y + epoch_weight (positions_of st ps) \<le> ?z"
    "?z \<le> unat (unlock_epoch (attributes y)) * token_amount y + epoch_weight (positions_of st ps)
       + length ps * token_amount z"
    using IH by (auto simp: merged_def pair_position_def)
  have range: "lo \<le> unlock_epoch (attributes z) \<and> unlock_epoch (attributes z) \<le> hi"
    if "lo \<le> unlock_epoch (attributes x)" "unlock_epoch (attributes x) \<le> hi"
      "lo \<le> unlock_epoch a" "unlock_epoch a \<le> hi"
      "\<forall>y\<in>#positions_of st ps. lo \<le> snd y \<and> snd y \<le> hi" for lo hi
  proof -
    have "lo \<le> unlock_epoch (attributes y)" "unlock_epoch (attributes y) \<le> hi"
      using m(7,8) that by (auto simp: min_def max_def split: if_splits)
    with merged_range [of st ps "pair_position y" "pair_position z" lo hi] IH that(5) show ?thesis
      by (simp add: pair_position_def)
  qed
  have "merged st (p # ps) (pair_position x) (pair_position z)"
    unfolding merged_def
  proof (intro conjI allI impI, goal_cases)
    case 1
    then show ?case using z(1) m(1) by (simp add: pair_position_def)
  next
    case 2
    then show ?case using z(2) m(5) by (simp add: pair_position_def pos)
  next
    case 3
    have "token_amount y \<le> token_amount z" using z(1) by simp
    then show ?case using z(3) m(6) by (simp add: pair_position_def pos)
  next
    case (4 lo hi)
    then show ?case using range [of lo hi] by (simp add: pair_position_def pos)
  next
    case (5 lo hi)
    then show ?case using range [of lo hi] by (simp add: pair_position_def pos)
  qed
  with IH m mv a pos show ?case by (auto simp: es)
qed

section \<open>mergeTokens\<close>

lemma u64_next:
  assumes "(c::u64) < x"
  shows "c + 1 \<le> x" "c < c + 1"
proof -
  show "c + 1 \<le> x" using assms by (rule inc_le)
  have "c < - 1" using assms by (rule less_le_trans) simp
  then show "c < c + 1" by (rule nonce_counter_step)
qed

lemma u64_small: "unat (x::u64) < 2 ^ 63 \<Longrightarrow> x \<le> 2 ^ 63 - 1"
  by (simp add: word_le_nat_alt)

lemma merge_tokens_ok:
  assumes run: "merge_tokens env st ps e = Inr (z, e', es)" and inv: "factory_inv st"
    and small: "\<forall>p\<in>set ps. unat (snd (position_of st p)) < 2 ^ 63"
  obtains p qs y where "ps = p # qs"
    and "merged st qs (position_of st p) y"
    and "unlock_epoch_to_start_of_month_upper_estimate env (lock_options st) (snd y) =
      Inr (unlock_epoch (attributes z))"
    and "pair_position z = (fst y, unlock_epoch (attributes z))"
    and "original_token_id (attributes z) = Esdt (base_asset_token_id st)"
    and "original_token_nonce (attributes z) = 0"
    and "\<forall>p\<in>set ps. get_block_epoch env < snd (position_of st p)"
    and "get_block_epoch env < unlock_epoch (attributes z)"
    and "get_block_epoch env < snd y" and "unat (snd y) < 2 ^ 63"
    and "energy_moves (get_block_epoch env) e e' (positions_of st ps) {#pair_position z#}"
    and "\<And>t. inflow t es = 0" and "\<And>t. outflow t es = paid_in t ps"
proof -
  let ?c = "get_block_epoch env"
  obtain p qs a e1 y e2 es1 u where ps: "ps = p # qs"
    and a: "created_attributes st (token_nonce p) = Some a" "?c < unlock_epoch a"
    and e1: "update_after_unlock_any e (amount p) (unlock_epoch a) ?c = Inr e1"
    and loop: "merge_tokens_loop env st qs \<lparr>token_amount = amount p, attributes = a\<rparr> e1 = Inr (y, e2, es1)"
    and u: "unlock_epoch_to_start_of_month_upper_estimate env (lock_options st)
      (unlock_epoch (attributes y)) = Inr u"
    and z: "z = y\<lparr>attributes := (attributes y)\<lparr>unlock_epoch := u\<rparr>\<rparr>"
    and e': "e' = add_after_token_lock e2 (token_amount y) u ?c"
    and es: "es = NftBurn (token_identifier p) (token_nonce p) (amount p) # es1"
    using run
    by (cases ps) (auto simp: merge_tokens_def Let_def require_all_same_token_Inr require_same_token_Inr and_then_Inr
        managed_vec_get_Inr get_token_attributes_Inr require_Inr)
  have pos: "position_of st p = (amount p, unlock_epoch a)" using a by (simp add: position_of_def)
  have base: "original_token_id a = Esdt (base_asset_token_id st)" "original_token_nonce a = 0"
    using a inv by (auto simp: factory_inv_def)
  note ok = merge_tokens_loop_ok [OF loop, unfolded pair_position_def, simplified]
  have m: "merged st qs (position_of st p) (token_amount y, unlock_epoch (attributes y))"
    using ok pos by simp
  have small': "\<forall>p\<in>set ps. snd (position_of st p) \<le> 2 ^ 63 - 1" using small by (blast intro: u64_small)
  have "\<forall>y\<in>#positions_of st qs. ?c + 1 \<le> snd y \<and> snd y \<le> 2 ^ 63 - 1"
    using ok small' ps by (auto simp: positions_of_def u64_next(1))
  moreover have "?c + 1 \<le> unlock_epoch a" "unlock_epoch a \<le> 2 ^ 63 - 1"
    using a small' ps pos by (auto simp: u64_next(1))
  ultimately have "?c + 1 \<le> unlock_epoch (attributes y)" "unlock_epoch (attributes y) \<le> 2 ^ 63 - 1"
    using merged_range [OF m, of "?c + 1" "2 ^ 63 - 1"] pos by auto
  moreover have "?c < ?c + 1" using a(2) by (rule u64_next)
  ultimately have y_future: "?c < unlock_epoch (attributes y)" and y_small: "unat (unlock_epoch (attributes y)) < 2 ^ 63"
    using less_le_trans by (blast, simp add: word_le_nat_alt)
  have valid: "valid_lock_options (lock_options st)"
    using inv by (simp add: factory_inv_def sane_lock_options_def)
  have future: "?c < u"
    using upper_estimate_bounds(4) [OF u _ valid y_future] y_small by simp
  have "energy_moves ?c e e1 {#position_of st p#} {#}"
    using energy_moves_unlock [OF e1] by (simp add: pos)
  from energy_moves_both [OF this, of e2 "positions_of st qs" "{#}"] ok
  have "energy_moves ?c e e2 (positions_of st ps) {#}" by (simp add: ps)
  from energy_moves_both [OF this energy_moves_lock [OF order.strict_implies_order [OF future]], of "token_amount y"]
  have mv: "energy_moves ?c e e' (positions_of st ps) {#pair_position z#}"
    by (simp add: e' z pair_position_def)
  show thesis
  proof (rule that [OF ps m])
    show "\<forall>p\<in>set ps. ?c < snd (position_of st p)" using ok ps a pos by auto
  qed (use u z base ok future y_future y_small mv es ps in \<open>auto simp: pair_position_def\<close>)
qed

lemma moves_energy_cong:
  "user_energy st' = user_energy st'' \<Longrightarrow>
   moves_energy env st st' user A B = moves_energy env st st'' user A B"
  by (simp add: moves_energy_def entry_exact_def)

lemma merge_tokens_endpoint_step:
  assumes run: "merge_tokens_endpoint env st ps opt = Inr (q, st', es)"
    and inv: "factory_inv st" and room: "last_created_nonce st < - 1"
    and small: "\<forall>p\<in>set ps. unat (snd (position_of st p)) < 2 ^ 63"
  obtains p qs y u user where "ps = p # qs"
    and "get_orig_caller_from_opt (sc_whitelist_addresses st) (get_caller env) opt = Inr user"
    and "merged st qs (position_of st p) y"
    and "unlock_epoch_to_start_of_month_upper_estimate env (lock_options st) (snd y) = Inr u"
    and "position_of st' q = (fst y, u)" and "get_block_epoch env < u"
    and "get_block_epoch env < snd y" and "unat (snd y) < 2 ^ 63"
    and "\<forall>p\<in>set ps. get_block_epoch env < snd (position_of st p)"
    and "step_ok 1 env st st' ps es user (positions_of st ps) {#(fst y, u)#}"
proof -
  obtain user z e es1 out es2 where
    user: "get_orig_caller_from_opt (sc_whitelist_addresses st) (get_caller env) opt = Inr user"
    and merge: "merge_tokens env st ps
      (get_updated_energy_entry_for_user env (user_energy st) user) = Inr (z, e, es1)"
    and l: "simple_lock_tokens env (st\<lparr>user_energy := set_energy_entry (user_energy st) user e\<rparr>)
      (egld_or_esdt_new (original_token_id (attributes z)) (original_token_nonce (attributes z))
        (token_amount z)) (unlock_epoch (attributes z)) = Inr (out, st', es2)"
    and out: "to_esdt_payment out = Inr q"
    and es: "es = es1 @ es2 @ [DirectSend (get_caller env) [q]]"
    using run
    by (auto simp: merge_tokens_endpoint_def lock_and_send_def direct_esdt require_not_paused_def Let_def
        require_Inr and_then_Inr utils_Inr update_energy_Inr)
  let ?st = "st\<lparr>user_energy := set_energy_entry (user_energy st) user e\<rparr>"
  from merge inv small show thesis
  proof (rule merge_tokens_ok, goal_cases)
    case (1 p qs y)
    have lp: "locks_position ?st st' es2 q (fst y) (unlock_epoch (attributes z))"
      using simple_lock_position [OF l out] 1(4,5,6,8) inv room by (simp add: pair_position_def)
    have "moves_energy env st ?st user (positions_of st ps) {#(fst y, unlock_epoch (attributes z))#}"
      using set_entry_moves [OF 1(11) refl] 1(4) by simp
    then have mv: "moves_energy env st st' user (positions_of st ps) {#(fst y, unlock_epoch (attributes z))#}"
      using lp moves_energy_cong [of st' ?st] by (simp add: locks_position_def)
    have "keeps_nothing st st' ps es"
      using lp 1(12,13) by (auto simp: keeps_nothing_def locks_position_def es)
    with mv lp have "step_ok 1 env st st' ps es user (positions_of st ps)
        {#(fst y, unlock_epoch (attributes z))#}"
      by (simp add: step_ok_def locks_position_def)
    moreover have "position_of st' q = (fst y, unlock_epoch (attributes z))"
      using lp by (simp add: locks_position_def)
    ultimately show ?case using 1 by (intro that [OF 1(1) user 1(2,3)]) auto
  qed
qed

section \<open>migrateOldTokens\<close>

text \<open>The positions of a legacy token: its amount divided by its schedule.\<close>

definition legacy_pairs :: "factory_env \<Rightarrow> esdt_payment \<Rightarrow> unlock_epoch_amount_pairs" where
  "legacy_pairs env p =
     (case and_then (decode_legacy_token env (token_identifier p) (token_nonce p))
             (\<lambda>attrs. get_unlock_amounts_per_epoch attrs (amount p)) of
        Inr pairs \<Rightarrow> pairs | Inl _ \<Rightarrow> [])"

definition pairs_positions :: "unlock_epoch_amount_pairs \<Rightarrow> position multiset" where
  "pairs_positions pairs = mset (map (\<lambda>x. (epoch_amount x, epoch x)) pairs)"

definition legacy_positions :: "factory_env \<Rightarrow> esdt_payment list \<Rightarrow> position multiset" where
  "legacy_positions env ps = (\<Sum>p \<leftarrow> ps. pairs_positions (legacy_pairs env p))"

lemma pairs_positions_simps [simp]:
  "pairs_positions [] = {#}"
  "pairs_positions (x # xs) = add_mset (epoch_amount x, epoch x) (pairs_positions xs)"
  by (simp_all add: pairs_positions_def)

text \<open>Positions with one epoch are worth one position of their sum.\<close>

definition at_epoch :: "unlock_epoch_amount_pairs \<Rightarrow> u64 \<Rightarrow> position multiset" where
  "at_epoch pairs u = mset (map (\<lambda>x. (epoch_amount x, u)) pairs)"

lemma at_epoch_simps [simp]:
  "at_epoch [] u = {#}"
  "at_epoch (x # xs) u = add_mset (epoch_amount x, u) (at_epoch xs u)"
  by (simp_all add: at_epoch_def)

lemma exact_collect:
  "exact e (at_epoch pairs u + P) = exact e (add_mset (sum_list (map epoch_amount pairs), u) P)"
proof -
  have "energy_of (at_epoch pairs u) c = int (sum_list (map epoch_amount pairs)) * (uint u - uint c)" for c
    by (induction pairs) (simp_all add: algebra_simps)
  moreover have "locked_of (at_epoch pairs u) = sum_list (map epoch_amount pairs)"
    by (induction pairs) simp_all
  ultimately show ?thesis by (simp add: exact_def)
qed

lemma migrate_pairs_ok:
  "migrate_pairs is_sc u c pairs e = Inr e' \<Longrightarrow> c \<le> u \<Longrightarrow>
   energy_moves c e e' (if is_sc then {#} else pairs_positions pairs) (at_epoch pairs u)"
proof (induction is_sc u c pairs e rule: migrate_pairs.induct)
  case (1 is_sc u c e)
  then show ?case by (simp add: energy_moves_refl)
next
  case (2 is_sc u c x xs e)
  obtain e1 where e1: "(if is_sc then Inr (add_after_token_lock e (epoch_amount x) u c)
      else update_after_unlock_epoch_change e (epoch_amount x) (epoch x) u c) = Inr e1"
    and rest: "migrate_pairs is_sc u c xs e1 = Inr e'"
    using 2(2) by (auto simp: and_then_Inr)
  have "energy_moves c e e1 (if is_sc then {#} else {#(epoch_amount x, epoch x)#}) {#(epoch_amount x, u)#}"
    using e1 energy_moves_lock [OF 2(3)] energy_moves_epoch_change [OF _ 2(3)]
    by (auto split: if_splits)
  from energy_moves_both [OF this 2(1) [OF e1 rest 2(3)]] show ?case by (simp split: if_splits)
qed

lemma calculate_new_unlock_epoch_ok:
  assumes "calculate_new_unlock_epoch_for_old_token env st pairs (get_block_epoch env) = Inr u"
    and inv: "factory_inv st" and "0 < min_migrated_token_locked_period st"
    and "unat (get_block_epoch env) < 2 ^ 62"
  shows "get_block_epoch env < u"
    and "unat u \<le> unat (get_block_epoch env) + unat (lock_epochs (last (lock_options st)))"
    and "unat (get_block_epoch env) + unat (min_migrated_token_locked_period st) < unat u + 30"
    and "pairs \<noteq> []"
proof -
  let ?c = "get_block_epoch env" and ?max = "lock_epochs (last (lock_options st))"
    and ?min = "min_migrated_token_locked_period st"
  obtain b n where n: "n = max (min b ?max) ?min"
    and u: "unlock_epoch_to_start_of_month_upper_estimate env (lock_options st) (?c + n) = Inr u"
    and "pairs \<noteq> []"
    using assms(1)
    by (cases pairs)
      (auto simp: calculate_new_unlock_epoch_for_old_token_def Let_def res_simps get_lock_options_def)
  have valid: "valid_lock_options (lock_options st)" and max: "unat ?max \<le> 2 ^ 50" and min: "?min \<le> ?max"
    using inv by (simp_all add: factory_inv_def sane_lock_options_def)
  have n_le: "n \<le> ?max" "?min \<le> n" using n min by auto
  then have n_nat: "unat n \<le> unat ?max" "unat ?min \<le> unat n" "0 < unat n"
    using assms(3) by (auto simp: word_le_nat_alt word_less_nat_alt)
  have cn: "unat (?c + n) = unat ?c + unat n"
    using n_nat(1) max assms(4) by (simp add: unat_word_ariths)
  then have future: "?c < ?c + n" using n_nat(3) by (simp add: word_less_nat_alt)
  have ok: "unat (?c + n) + 30 < 2 ^ 64" using cn n_nat(1) max assms(4) by simp
  note b = upper_estimate_bounds [OF u ok]
  show "?c < u" by (rule b(4) [OF valid future])
  then show "unat u \<le> unat ?c + unat ?max"
    using b(5) cn n_nat(1) by (auto simp: word_le_nat_alt word_less_nat_alt)
  show "unat ?c + unat ?min < unat u + 30" using b(2) cn n_nat(2) by simp
  show "pairs \<noteq> []" by fact
qed

lemma migrate_single_ok:
  assumes run: "migrate_single_old_token env st p is_sc (get_block_epoch env) e = Inr (q, e', st', es)"
    and inv: "factory_inv st" and room: "last_created_nonce st < - 1"
    and period: "0 < min_migrated_token_locked_period st" and now: "unat (get_block_epoch env) < 2 ^ 62"
  obtains u es2 where "locks_position st st' es2 q (amount p) u"
    and "es = esdt_local_burn (token_identifier p) (token_nonce p) (amount p) @ es2"
    and "energy_moves (get_block_epoch env) e e'
      (if is_sc then {#} else pairs_positions (legacy_pairs env p)) {#(amount p, u)#}"
    and "get_block_epoch env < u"
    and "unat u \<le> unat (get_block_epoch env) + unat (lock_epochs (last (lock_options st)))"
    and "unat (get_block_epoch env) + unat (min_migrated_token_locked_period st) < unat u + 30"
proof -
  let ?c = "get_block_epoch env"
  obtain attrs pairs u out es2 where
    attrs: "decode_legacy_token env (token_identifier p) (token_nonce p) = Inr attrs"
    and pairs: "get_unlock_amounts_per_epoch attrs (amount p) = Inr pairs"
    and u: "calculate_new_unlock_epoch_for_old_token env st pairs ?c = Inr u"
    and mig: "migrate_pairs is_sc u ?c pairs e = Inr e'"
    and l: "simple_lock_tokens env st (egld_or_esdt_new (Esdt (base_asset_token_id st)) 0 (amount p)) u
      = Inr (out, st', es2)"
    and out: "to_esdt_payment out = Inr q"
    and es: "es = esdt_local_burn (token_identifier p) (token_nonce p) (amount p) @ es2"
    using run by (auto simp: migrate_single_old_token_def Let_def and_then_Inr)
  note new = calculate_new_unlock_epoch_ok [OF u inv period now]
  have lp: "locks_position st st' es2 q (amount p) u"
    using simple_lock_position [OF l out _ _ new(1) inv room] by simp
  have legacy: "legacy_pairs env p = pairs" using attrs pairs by (simp add: legacy_pairs_def)
  have "unlock_schedule_ex attrs \<noteq> []"
    using pairs new(4) by (auto simp: get_unlock_amounts_per_epoch_def)
  then have "sum_list (map epoch_amount pairs) = amount p" by (rule get_unlock_amounts_sum [OF pairs])
  moreover have "energy_moves ?c e e' (if is_sc then {#} else pairs_positions pairs) (at_epoch pairs u)"
    using migrate_pairs_ok [OF mig] new(1) by simp
  ultimately have "energy_moves ?c e e' (if is_sc then {#} else pairs_positions pairs) {#(amount p, u)#}"
    by (cases is_sc) (simp_all add: energy_moves_def exact_collect)
  then have "energy_moves ?c e e' (if is_sc then {#} else pairs_positions (legacy_pairs env p)) {#(amount p, u)#}"
    unfolding legacy .
  from that [OF lp es this new(1-3)] show thesis .
qed

lemma keeps_position:
  "keeps_storage k st st' \<Longrightarrow> snd (position_of st q) \<noteq> 0 \<Longrightarrow> position_of st' q = position_of st q"
  by (cases "created_attributes st (token_nonce q)")
    (auto simp: position_of_def keeps_storage_def dest: nonces_extendD)

lemma room_next:
  assumes "keeps_storage 1 st st'" "unat (last_created_nonce st) + Suc k < 2 ^ 64 - 1"
  shows "unat (last_created_nonce st') + k < 2 ^ 64 - 1" "last_created_nonce st < - 1"
proof -
  show "unat (last_created_nonce st') + k < 2 ^ 64 - 1"
    using assms by (simp add: keeps_storage_def)
  have "unat (- 1 :: u64) = 2 ^ 64 - 1" by (simp add: unsigned_minus_1_eq_mask mask_eq_exp_minus_1)
  then show "last_created_nonce st < - 1" using assms(2) by (simp add: word_less_nat_alt)
qed

text \<open>
  The migrated tokens: one position of the same amount for each, at an epoch between the
  minimum period (less a month) and the longest option from now.
\<close>

definition migrated :: "factory_env \<Rightarrow> factory_storage \<Rightarrow> factory_storage \<Rightarrow> esdt_payment \<Rightarrow> esdt_payment \<Rightarrow> bool" where
  "migrated env st st' p q \<longleftrightarrow>
     locked_token_id st = Some (token_identifier q) \<and> amount q = amount p \<and>
     fst (position_of st' q) = amount p \<and>
     get_block_epoch env < snd (position_of st' q) \<and>
     unat (snd (position_of st' q)) \<le>
       unat (get_block_epoch env) + unat (lock_epochs (last (lock_options st))) \<and>
     unat (get_block_epoch env) + unat (min_migrated_token_locked_period st)
       < unat (snd (position_of st' q)) + 30"

lemma migrate_loop_ok:
  assumes "migrate_loop env st ps legacy is_sc e = Inr (qs, e', st', es)" "factory_inv st"
    and "unat (last_created_nonce st) + length ps < 2 ^ 64 - 1"
    and "0 < min_migrated_token_locked_period st" "unat (get_block_epoch env) < 2 ^ 62"
  shows "keeps_storage (length ps) st st' \<and> user_energy st' = user_energy st \<and>
    list_all2 (migrated env st st') ps qs \<and>
    energy_moves (get_block_epoch env) e e'
      (if is_sc then {#} else legacy_positions env ps) (positions_of st' qs) \<and>
    (\<forall>t. paid_in t ps + inflow t es = outflow t es + paid_in t qs +
      (if locked_token_id st = Some t then created_between st st' else 0))"
  using assms
proof (induction ps arbitrary: st e qs es)
  case Nil
  then show ?case
    by (auto simp: keeps_storage_refl legacy_positions_def energy_moves_refl)
next
  case (Cons p ps)
  let ?c = "get_block_epoch env"
  obtain q e1 st1 es1 qs' es' where
    single: "migrate_single_old_token env st p is_sc ?c e = Inr (q, e1, st1, es1)"
    and rest: "migrate_loop env st1 ps legacy is_sc e1 = Inr (qs', e', st', es')"
    and qs: "qs = q # qs'" and es: "es = es1 @ es'"
    using Cons.prems(1) by (auto simp: and_then_Inr require_Inr)
  have room: "last_created_nonce st < - 1" using room_next(2) [of st st "length ps"] Cons.prems(2,3)
    by (simp add: keeps_storage_refl)
  from single Cons.prems(2) room Cons.prems(4,5) show ?case
  proof (rule migrate_single_ok, goal_cases)
    case (1 u es2)
    have k: "keeps_storage 1 st st1" and ue: "user_energy st1 = user_energy st"
      and q: "position_of st1 q = (amount p, u)" "amount q = amount p"
        "locked_token_id st = Some (token_identifier q)"
      using 1(1) by (simp_all add: locks_position_def)
    have same: "same_factory st st1" and inv1: "factory_inv st1" using k by (simp_all add: keeps_storage_def)
    have IH: "keeps_storage (length ps) st1 st' \<and> user_energy st' = user_energy st1 \<and>
        list_all2 (migrated env st1 st') ps qs' \<and>
        energy_moves ?c e1 e' (if is_sc then {#} else legacy_positions env ps) (positions_of st' qs') \<and>
        (\<forall>t. paid_in t ps + inflow t es' = outflow t es' + paid_in t qs' +
          (if locked_token_id st1 = Some t then created_between st1 st' else 0))"
      using rest inv1 room_next(1) [OF k] Cons.prems(3,4,5) same
      by (intro Cons.IH) (auto simp: same_factory_def)
    then have k': "keeps_storage (length ps) st1 st'" by simp
    note k_all = keeps_storage_trans [OF k k']
    have pos: "position_of st' q = (amount p, u)"
    proof -
      have "u \<noteq> 0" using 1(4) by auto
      then show ?thesis using keeps_position [OF k', of q] q(1) by simp
    qed
    have "energy_moves ?c e e'
        ((if is_sc then {#} else pairs_positions (legacy_pairs env p)) +
         (if is_sc then {#} else legacy_positions env ps))
        ({#(amount p, u)#} + positions_of st' qs')"
      using energy_moves_both [OF 1(3)] IH by blast
    then have mv: "energy_moves ?c e e' (if is_sc then {#} else legacy_positions env (p # ps)) (positions_of st' qs)"
      by (simp add: qs pos legacy_positions_def split: if_splits)
    have mig: "migrated env st st' p q"
      using 1(4,5,6) q pos by (simp add: migrated_def)
    have all: "list_all2 (migrated env st st') ps qs'"
      using IH same by (simp add: migrated_def [abs_def] same_factory_def)
    have flow: "paid_in t (p # ps) + inflow t es = outflow t es + paid_in t qs +
        (if locked_token_id st = Some t then created_between st st' else 0)" for t
    proof -
      have "paid_in t ps + inflow t es' = outflow t es' + paid_in t qs' +
          (if locked_token_id st = Some t then created_between st1 st' else 0)"
        using IH same by (simp add: same_factory_def)
      then show ?thesis
        using 1(1) q by (simp add: es qs 1(2) locks_position_def k_all(2))
    qed
    show ?case
      using k_all(1) IH ue mig all mv flow by (simp add: qs)
  qed
qed

lemma migrate_old_tokens_step:
  assumes run: "migrate_old_tokens env st ps = Inr (qs, st', es)" and inv: "factory_inv st"
    and room: "unat (last_created_nonce st) + length ps < 2 ^ 64 - 1"
    and period: "0 < min_migrated_token_locked_period st" and now: "unat (get_block_epoch env) < 2 ^ 62"
  shows "step_ok (length ps) env st st' ps es (get_caller env)
      (if is_smart_contract env (get_caller env) then {#} else legacy_positions env ps)
      (positions_of st' qs)"
    and "list_all2 (migrated env st st') ps qs"
proof -
  let ?sc = "is_smart_contract env (get_caller env)"
  obtain e st1 es1 where loop: "migrate_loop env st ps (legacy_locked_token_id st) ?sc
      (get_updated_energy_entry_for_user env (user_energy st) (get_caller env)) = Inr (qs, e, st1, es1)"
    and st': "st' = st1\<lparr>user_energy := set_energy_entry (user_energy st1) (get_caller env) e\<rparr>"
    and es: "es = es1 @ [DirectSend (get_caller env) qs]"
    using run
    by (auto simp: migrate_old_tokens_def require_not_paused_def require_old_tokens_energy_was_updated_def
        Let_def require_Inr and_then_Inr utils_Inr update_energy_Inr split: if_splits)
  note ok = migrate_loop_ok [OF loop inv room period now]
  have "moves_energy env st st' (get_caller env) (if ?sc then {#} else legacy_positions env ps)
      (positions_of st' qs)"
    using set_entry_moves [of env st "get_caller env" e _ _ st1] ok by (simp add: st')
  moreover have "keeps_nothing st st' ps es" using ok by (auto simp: keeps_nothing_def es st')
  ultimately show "step_ok (length ps) env st st' ps es (get_caller env)
      (if ?sc then {#} else legacy_positions env ps) (positions_of st' qs)"
    using ok by (simp add: step_ok_def st')
  show "list_all2 (migrated env st st') ps qs"
    using ok by (simp add: migrated_def [abs_def] st')
qed

end
