(* ===== verification/EnergyCalls.thy ===== *)
theory EnergyCalls
  imports EnergyMergeSteps
begin

text \<open>
  The user-facing calls of the energy factory as one step function, with the user whose
  energy a call changes and the positions it takes from it and gives to it; and a concrete
  factory, the input of the witnesses.
\<close>

section \<open>Calls\<close>

datatype factory_call =
    LockTokens "esdt_payment list" u64 "address option"
  | UnlockTokens "esdt_payment list"
  | ExtendLockPeriod "esdt_payment list" u64 address
  | UnlockEarly "esdt_payment list"
  | ReduceLockPeriod "esdt_payment list" u64
  | MergeTokens "esdt_payment list" "address option"
  | LockVirtual token_id biguint u64 address address
  | MigrateOldTokens "esdt_payment list"

definition one_payment :: "esdt_payment factory_result \<Rightarrow> (esdt_payment list) factory_result" where
  "one_payment r = and_then r (\<lambda>(q, st, es). Inr ([q], st, es))"

fun factory_exec :: "factory_env \<Rightarrow> factory_storage \<Rightarrow> factory_call \<Rightarrow> (esdt_payment list) factory_result" where
  "factory_exec env st (LockTokens ps epochs d) = one_payment (lock_tokens_endpoint env st ps epochs d)"
| "factory_exec env st (UnlockTokens ps) = one_payment (unlock_tokens_endpoint env st ps)"
| "factory_exec env st (ExtendLockPeriod ps epochs user) =
     one_payment (extend_lock_period env st ps epochs user)"
| "factory_exec env st (UnlockEarly ps) =
     and_then (unlock_early env st ps) (\<lambda>(_, st, es). Inr ([], st, es))"
| "factory_exec env st (ReduceLockPeriod ps epochs) = one_payment (reduce_lock_period env st ps epochs)"
| "factory_exec env st (MergeTokens ps user) = one_payment (merge_tokens_endpoint env st ps user)"
| "factory_exec env st (LockVirtual t a epochs d user) = one_payment (lock_virtual env st t a epochs d user)"
| "factory_exec env st (MigrateOldTokens ps) = migrate_old_tokens env st ps"

fun call_payments :: "factory_call \<Rightarrow> esdt_payment list" where
  "call_payments (LockTokens ps epochs d) = ps"
| "call_payments (UnlockTokens ps) = ps"
| "call_payments (ExtendLockPeriod ps epochs user) = ps"
| "call_payments (UnlockEarly ps) = ps"
| "call_payments (ReduceLockPeriod ps epochs) = ps"
| "call_payments (MergeTokens ps user) = ps"
| "call_payments (LockVirtual t a epochs d user) = []"
| "call_payments (MigrateOldTokens ps) = ps"

text \<open>Whose energy the call changes.\<close>

fun charged_user :: "factory_env \<Rightarrow> factory_storage \<Rightarrow> factory_call \<Rightarrow> address" where
  "charged_user env st (LockTokens ps epochs d) = dest_from_optional env d"
| "charged_user env st (ExtendLockPeriod ps epochs user) = user"
| "charged_user env st (MergeTokens ps user) = (case user of Some u \<Rightarrow> u | None \<Rightarrow> get_caller env)"
| "charged_user env st (LockVirtual t a epochs d user) = user"
| "charged_user env st call = get_caller env"

text \<open>The positions a call takes out of that energy, and those it puts in.\<close>

fun taken :: "factory_env \<Rightarrow> factory_storage \<Rightarrow> factory_call \<Rightarrow> position multiset" where
  "taken env st (LockTokens ps epochs d) =
     positions_of st (filter (\<lambda>p. token_identifier p \<noteq> base_asset_token_id st) ps)"
| "taken env st (LockVirtual t a epochs d user) = {#}"
| "taken env st (MigrateOldTokens ps) =
     (if is_smart_contract env (get_caller env) then {#} else legacy_positions env ps)"
| "taken env st call = positions_of st (call_payments call)"

fun given :: "factory_storage \<Rightarrow> factory_call \<Rightarrow> esdt_payment list \<Rightarrow> position multiset" where
  "given st (UnlockTokens ps) qs = {#}"
| "given st (UnlockEarly ps) qs = {#}"
| "given st call qs = positions_of st qs"

text \<open>
  Calls within the calendar: epochs far below the range of \<open>u64\<close>, nonces left to create, and
  a minimum period for migrated tokens.
\<close>

definition calendar_ok :: "factory_env \<Rightarrow> factory_storage \<Rightarrow> factory_call \<Rightarrow> bool" where
  "calendar_ok env st call \<longleftrightarrow>
     fungible_base st (call_payments call) \<and> unat (get_block_epoch env) < 2 ^ 62 \<and>
     unat (last_created_nonce st) + Suc (length (call_payments call)) < 2 ^ 64 - 1 \<and>
     (\<forall>p\<in>set (call_payments call). unat (snd (position_of st p)) < 2 ^ 63) \<and>
     0 < min_migrated_token_locked_period st"

lemma step_ok_mono: "step_ok j env st st' ps es user A B \<Longrightarrow> j \<le> k \<Longrightarrow> step_ok k env st st' ps es user A B"
  by (simp add: step_ok_def keeps_storage_def)

lemma room_of_calendar:
  assumes "calendar_ok env st call"
  shows "last_created_nonce st < - 1"
proof -
  have "unat (- 1 :: u64) = 2 ^ 64 - 1" by (simp add: unsigned_minus_1_eq_mask mask_eq_exp_minus_1)
  then show ?thesis using assms by (simp add: calendar_ok_def word_less_nat_alt)
qed

lemma one_payment_Inr [res_simps]:
  "one_payment r = Inr (qs, st', es) \<longleftrightarrow> (\<exists>q. r = Inr (q, st', es) \<and> qs = [q])"
  by (auto simp: one_payment_def res_simps)

lemma factory_exec_step:
  assumes "factory_exec env st call = Inr (qs, st', es)" "factory_inv st" "calendar_ok env st call"
  shows "step_ok (Suc (length (call_payments call))) env st st' (call_payments call) es
    (charged_user env st call) (taken env st call) (given st' call qs)"
proof -
  note room = room_of_calendar [OF assms(3)]
  have cal: "fungible_base st (call_payments call)" "unat (get_block_epoch env) < 2 ^ 62"
    "unat (last_created_nonce st) + length (call_payments call) < 2 ^ 64 - 1"
    "\<forall>p\<in>set (call_payments call). unat (snd (position_of st p)) < 2 ^ 63"
    "0 < min_migrated_token_locked_period st"
    using assms(3) by (simp_all add: calendar_ok_def)
  show ?thesis
  proof (cases call)
    case (LockTokens ps epochs d)
    then obtain q where q: "lock_tokens_endpoint env st ps epochs d = Inr (q, st', es)" "qs = [q]"
      using assms(1) by (auto simp: one_payment_Inr)
    from q(1) assms(2) room cal(1) LockTokens show ?thesis
      by (elim lock_tokens_endpoint_step) (auto simp: q(2) elim: step_ok_mono split: if_splits)
  next
    case (UnlockTokens ps)
    then obtain q where q: "unlock_tokens_endpoint env st ps = Inr (q, st', es)"
      using assms(1) by (auto simp: one_payment_Inr)
    from unlock_tokens_endpoint_step(1) [OF q assms(2)] show ?thesis
      by (auto simp: UnlockTokens elim: step_ok_mono)
  next
    case (ExtendLockPeriod ps epochs user)
    then obtain q where q: "extend_lock_period env st ps epochs user = Inr (q, st', es)" "qs = [q]"
      using assms(1) by (auto simp: one_payment_Inr)
    from q(1) assms(2) room show ?thesis
      by (rule extend_lock_period_step) (auto simp: ExtendLockPeriod q(2) elim: step_ok_mono)
  next
    case (UnlockEarly ps)
    then obtain x where q: "unlock_early env st ps = Inr (x, st', es)"
      using assms(1) by (auto simp: and_then_Inr)
    from q assms(2) show ?thesis
      by (rule unlock_early_step) (auto simp: UnlockEarly elim: step_ok_mono)
  next
    case (ReduceLockPeriod ps epochs)
    then obtain q where q: "reduce_lock_period env st ps epochs = Inr (q, st', es)" "qs = [q]"
      using assms(1) by (auto simp: one_payment_Inr)
    from q(1) assms(2) room show ?thesis
      by (rule reduce_lock_period_step) (auto simp: ReduceLockPeriod q(2) elim: step_ok_mono)
  next
    case (MergeTokens ps opt)
    then obtain q where q: "merge_tokens_endpoint env st ps opt = Inr (q, st', es)" "qs = [q]"
      using assms(1) by (auto simp: one_payment_Inr)
    have small: "\<forall>p\<in>set ps. unat (snd (position_of st p)) < 2 ^ 63" using cal(4) MergeTokens by simp
    from q(1) assms(2) room small show ?thesis
      by (rule merge_tokens_endpoint_step)
        (auto simp: MergeTokens q(2) get_orig_caller_from_opt_def utils_Inr elim: step_ok_mono
          split: option.splits)
  next
    case (LockVirtual t a epochs d user)
    then obtain q where q: "lock_virtual env st t a epochs d user = Inr (q, st', es)" "qs = [q]"
      using assms(1) by (auto simp: one_payment_Inr)
    from q(1) assms(2) room show ?thesis
      by (rule lock_virtual_step) (auto simp: LockVirtual q(2) elim: step_ok_mono)
  next
    case (MigrateOldTokens ps)
    then have q: "migrate_old_tokens env st ps = Inr (qs, st', es)"
      and len: "unat (last_created_nonce st) + length ps < 2 ^ 64 - 1"
      using assms(1) cal(3) by auto
    show ?thesis
      using step_ok_mono [OF migrate_old_tokens_step(1) [OF q assms(2) len cal(5,2)], of "Suc (length ps)"]
      by (simp add: MigrateOldTokens)
  qed
qed

section \<open>When unlocking succeeds\<close>

lemma updated_entry_exact:
  assumes "entry_exact env st user P"
  shows "exact (get_updated_energy_entry_for_user env (user_energy st) user) P"
    and "last_update_epoch (get_updated_energy_entry_for_user env (user_energy st) user) = get_block_epoch env"
  using exact_updated_entry [where user_energy = "user_energy st" and user = user and env = env and P = P]
    assms by (simp_all add: entry_exact_def split: option.splits)

lemma require_all_same_token_total:
  "\<forall>p\<in>set ps. locked_token_id st = Some (token_identifier p) \<Longrightarrow> require_all_same_token st ps k = k"
  by (induction ps) (auto simp: require_same_token_def get_token_id_def)

lemma unlock_loop_total:
  assumes "\<forall>p\<in>set ps. locked_token_id st = Some (token_identifier p) \<and> 0 < amount p \<and>
      created_attributes st (token_nonce p) \<noteq> None \<and> snd (position_of st p) \<le> get_block_epoch env"
    and "factory_inv st" and "exact e (positions_of st ps + P)" and "last_update_epoch e = get_block_epoch env"
    and "token_identifier out = base_asset_token_id st" "token_nonce out = 0"
  shows "\<exists>r. unlock_loop env st ps out e = Inr r"
  using assms
proof (induction ps arbitrary: out e)
  case (Cons p ps)
  obtain a where a: "created_attributes st (token_nonce p) = Some a" using Cons.prems(1) by auto
  then have base: "original_token_id a = Esdt (base_asset_token_id st)" "original_token_nonce a = 0"
    using Cons.prems(2) by (auto simp: factory_inv_def)
  have pos: "position_of st p = (amount p, unlock_epoch a)" using a by (simp add: position_of_def)
  have ex: "exact e (add_mset (amount p, unlock_epoch a) (positions_of st ps + P))"
    using Cons.prems(3) by (simp add: pos)
  then have "amount p \<le> total_locked_tokens e" by (simp add: exact_def)
  then obtain e1 where e1: "refund_after_token_unlock e (amount p) (unlock_epoch a) (get_block_epoch env) = Inr e1"
    by (auto simp: refund_after_token_unlock_def energy_add_eq)
  have due: "unlock_epoch a \<le> get_block_epoch env" using Cons.prems(1) pos by auto
  have next_e: "exact e1 (positions_of st ps + P)" "last_update_epoch e1 = get_block_epoch env"
    using exact_refund [OF e1 ex Cons.prems(4) due] by simp_all
  have "\<exists>r. unlock_loop env st ps (out\<lparr>amount := amount out + amount p\<rparr>) e1 = Inr r"
    using Cons.prems(1,5,6) by (intro Cons.IH Cons.prems(2) next_e) auto
  moreover have "unlock_tokens env st p = Inr (egld_or_esdt_new (Esdt (base_asset_token_id st)) 0 (amount p),
      [NftBurn (token_identifier p) (token_nonce p) (amount p)])"
    using Cons.prems(1) a base due by (simp add: unlock_tokens_Inr)
  ultimately show ?case
    using a e1 Cons.prems(5,6)
    by (auto simp: get_token_attributes_def to_esdt_payment_def esdt_merge_with_def esdt_can_merge_with_def)
qed simp

section \<open>Penalties of the calls\<close>

lemma calculate_penalty_amount_Inr:
  assumes "calculate_penalty_amount options a p n = Inr x"
  shows "0 < p" "n < p" "p \<le> lock_epochs (last options)"
  using assms
  by (auto simp: calculate_penalty_amount_def calculate_penalty_percentage_partial_unlock_def
      calculate_penalty_percentage_full_unlock_def res_simps get_lock_options_def split: if_splits)

lemma calculate_penalty_amount_eq:
  assumes "calculate_penalty_amount options a p n = Inr x" "sane_lock_options options"
  shows "x = a * partial_percentage (penalty_at options (unat p)) (penalty_at options (unat n)) div 10000"
  using calculate_penalty_amount_ok [OF assms(2) calculate_penalty_amount_Inr(2,3) [OF assms(1)], of a]
    assms(1) by simp

lemma penalty_at_order:
  assumes "sane_lock_options options" "n < p" "p \<le> lock_epochs (last options)"
  shows "penalty_at options (unat n) \<le> penalty_at options (unat p)"
    and "penalty_at options (unat p) \<le> 10000" "penalty_at options (unat n) < 10000"
proof -
  have valid: "valid_lock_options options" using assms(1) by (simp add: sane_lock_options_def)
  have np: "unat n < unat p" "unat p \<le> unat (lock_epochs (last options))"
    using assms(2,3) by (simp_all add: word_less_nat_alt word_le_nat_alt)
  show "penalty_at options (unat n) \<le> penalty_at options (unat p)"
    using penalty_at_mono [OF valid, of "unat n" "unat p"] np by simp
  show "penalty_at options (unat p) \<le> 10000" using penalty_at_le(2) [OF valid np(2)] .
  show "penalty_at options (unat n) < 10000" using penalty_at_less [OF valid, of "unat n"] np by simp
qed

section \<open>An example factory\<close>

definition ex_options :: all_lock_options where
  "ex_options = [lock_option_new 360 4000, lock_option_new 720 6000, lock_option_new 1440 8000]"

definition ex_factory_env :: factory_env where
  "ex_factory_env = \<lparr>get_caller = 7, get_sc_address = 1, get_owner_address = 2, get_block_epoch = 1000,
     get_block_round = 0, get_block_nonce = 0, get_block_timestamp = 0,
     is_smart_contract = (\<lambda>a. a < 5), is_valid_esdt_identifier = (\<lambda>t. True),
     initial_attributes = (\<lambda>t n. Inl (CallFailed ''none'')),
     extended_attributes = (\<lambda>t n. Inr \<lparr>unlock_schedule_ex =
        [\<lparr>milestone_ex_epoch = 900, milestone_ex_percent = 50000\<rparr>,
         \<lparr>milestone_ex_epoch = 1100, milestone_ex_percent = 50000\<rparr>], is_merged_ex = False\<rparr>),
     call_deposit_user_tokens = (\<lambda>a u ps. Inr ()), call_deposit_fees = (\<lambda>a ps. Inr ())\<rparr>"

definition ex_attributes :: "u64 \<Rightarrow> locked_token_attributes" where
  "ex_attributes u = \<lparr>original_token_id = Esdt ''MEX'', original_token_nonce = 0, unlock_epoch = u\<rparr>"

text \<open>
  User 7 owns 100 tokens locked until 1350, 300 until 2400 and 50 that could be unlocked since
  990, under the nonces 1, 2 and 3; the epoch is 1000.
\<close>

definition ex_factory :: factory_storage where
  "ex_factory = \<lparr>locked_token_id = Some ''XMEX'',
     attributes_to_nonce_mapping =
       (\<lambda>a. 0)(ex_attributes 1350 := 1, ex_attributes 2400 := 2, ex_attributes 990 := 3),
     created_attributes =
       [1 \<mapsto> ex_attributes 1350, 2 \<mapsto> ex_attributes 2400, 3 \<mapsto> ex_attributes 990],
     last_created_nonce = 3, paused = False, base_asset_token_id = ''MEX'',
     legacy_locked_token_id = ''LKMEX'', old_locked_asset_factory_address = Some 3,
     min_migrated_token_locked_period = 360, user_updated_old_tokens_energy = {7},
     user_energy = [7 \<mapsto> energy_new 454500 1000 450], lock_options = ex_options,
     token_unstake_sc_address = Some 4, token_transfer_whitelist = {}, sc_whitelist_addresses = {3}\<rparr>"

definition ex_locked :: "u64 \<Rightarrow> biguint \<Rightarrow> esdt_payment" where
  "ex_locked n a = new_payment ''XMEX'' n a"

lemma ex_options_valid: "sane_lock_options ex_options"
  by (simp add: sane_lock_options_def valid_lock_options_def ex_options_def lock_constants)

lemma ex_attributes_eq [simp]: "ex_attributes u = ex_attributes v \<longleftrightarrow> u = v"
  by (simp add: ex_attributes_def)

lemma ex_factory_inv: "factory_inv ex_factory"
proof -
  have "nonces_ok ex_factory"
    by (auto simp: nonces_ok_def ex_factory_def split: if_splits)
  moreover have "\<forall>n a. created_attributes ex_factory n = Some a \<longrightarrow>
      original_token_id a = Esdt (base_asset_token_id ex_factory) \<and> original_token_nonce a = 0"
    by (auto simp: ex_factory_def ex_attributes_def split: if_splits)
  ultimately show ?thesis
    using ex_options_valid by (simp add: factory_inv_def ex_factory_def) (simp add: ex_options_def)
qed

lemma ex_entry_exact: "entry_exact ex_factory_env ex_factory 7 {#(100, 1350), (300, 2400), (50, 990)#}"
  by (simp add: entry_exact_def exact_def ex_factory_def energy_new_def ex_factory_env_def)

lemma ex_factory_sel [simp]:
  "get_caller ex_factory_env = 7" "get_block_epoch ex_factory_env = 1000"
  "base_asset_token_id ex_factory = ''MEX''" "locked_token_id ex_factory = Some ''XMEX''"
  "lock_options ex_factory = ex_options" "paused ex_factory = False"
  "token_unstake_sc_address ex_factory = Some 4" "last_created_nonce ex_factory = 3"
  "min_migrated_token_locked_period ex_factory = 360"
  by (simp_all add: ex_factory_env_def ex_factory_def)

lemma ex_locked_sel [simp]:
  "token_identifier (ex_locked n a) = ''XMEX''" "token_nonce (ex_locked n a) = n" "amount (ex_locked n a) = a"
  by (simp_all add: ex_locked_def)

lemma ex_position [simp]:
  "position_of ex_factory (ex_locked 1 a) = (a, 1350)" "position_of ex_factory (ex_locked 2 a) = (a, 2400)"
  "position_of ex_factory (ex_locked 3 a) = (a, 990)"
  by (simp_all add: position_of_def ex_factory_def ex_attributes_def)

lemma ex_created:
  "created_attributes ex_factory 1 = Some (ex_attributes 1350)"
  "created_attributes ex_factory 3 = Some (ex_attributes 990)"
  by (simp_all add: ex_factory_def)

lemmas ex_factory_eval =
  ex_factory_def ex_factory_env_def ex_attributes_def ex_options_def ex_locked_def

text \<open>Evaluation of the endpoints on it.\<close>

lemmas factory_call_eval =
  factory_exec.simps one_payment_def merge_tokens_endpoint_def merge_tokens_def
  lock_tokens_endpoint_def lock_by_token_type_def lock_base_asset_def extend_new_token_period_def
  unlock_tokens_endpoint_def unlock_tokens_def unlock_tokens_unchecked_def esdt_merge_with_def
  esdt_can_merge_with_def unlock_early_def unstake_tokens_def get_token_unstake_sc_address_def
  reduce_lock_period_def reduce_lock_period_common_def send_fees_to_unstake_sc_def
  require_is_listed_lock_option_def require_future_unlock_def require_address_is_caller_def
  is_base_asset_token_def update_energy_def require_not_paused_def get_non_empty_payments_def
  get_orig_caller_from_opt_def dest_from_optional_def Let_def require_same_token_def get_token_id_def
  managed_vec_get_def get_token_attributes_def single_esdt_def lock_and_send_def simple_lock_tokens_def
  get_or_create_nonce_for_attributes_def nft_add_quantity_def direct_def to_esdt_payment_def
  egld_or_esdt_new_def esdt_into_def new_payment_def esdt_local_burn_def
  migrate_old_tokens_def require_old_tokens_energy_was_updated_def migrate_single_old_token_def
  decode_legacy_token_def get_unlock_amounts_per_epoch_def LOCKED_TOKEN_ACTIVATION_NONCE_def
  calculate_new_unlock_epoch_for_old_token_def TOKEN_MIGRATION_LOCK_EPOCHS_FACTOR_def
  safe_sub_u64_def

lemmas factory_energy_eval =
  get_updated_energy_entry_for_user_def deplete_def update_after_unlock_any_def
  update_after_unlock_epoch_change_def deplete_after_early_unlock_def refund_after_token_unlock_def
  energy_subtract_def energy_add_def add_after_token_lock_def energy_new_def set_energy_entry_def
  locked_merge_with_def locked_can_merge_with_def weighted_average_round_up_def biguint_to_u64_def
  unlock_epoch_to_start_of_month_upper_estimate_def unlock_epoch_to_start_of_month_def lock_constants
  get_lock_options_def calculate_penalty_amount_def calculate_penalty_percentage_full_unlock_def
  calculate_penalty_percentage_partial_unlock_def linear_interpolation_def lock_option_default_def

end
