(* ===== verification/EnergyProperties.thy ===== *)
theory EnergyProperties
  imports EnergyCalls
begin

text \<open>
  The properties of the energy factory, of simple locks and of the legacy schedules, each
  with a witness on the example factory.
\<close>

section \<open>Energy and tokens\<close>

text \<open>C10: The energy entry of a user tracks the user's locked positions. If it stands for the
  positions a call takes away together with any others, then after the call it stands for
  the positions the call creates together with the same others; entries of other users do
  not change. This covers locking, extending, unlocking, leaving early, reducing, merging,
  locking virtually and migrating.
\<close>

theorem energy_tracks_positions:
  assumes "factory_inv st" and "calendar_ok env st call"
    and "factory_exec env st call = Inr (qs, st', es)"
    and "entry_exact env st (charged_user env st call) (taken env st call + P)"
  shows "entry_exact env st' (charged_user env st call) (given st' call qs + P) \<and>
    (\<forall>v. v \<noteq> charged_user env st call \<longrightarrow> user_energy st' v = user_energy st v)"
  using factory_exec_step [OF assms(3,1,2)] assms(4) by (auto simp: step_ok_def moves_energy_def)

lemma ex_merge_calendar:
  "calendar_ok ex_factory_env ex_factory (MergeTokens [ex_locked 1 100, ex_locked 2 300] None)"
  by (simp add: calendar_ok_def fungible_base_def position_of_def ex_factory_eval)

lemma ex_merge_run:
  "\<exists>qs st' es. factory_exec ex_factory_env ex_factory
     (MergeTokens [ex_locked 1 100, ex_locked 2 300] None) = Inr (qs, st', es) \<and>
     user_energy st' 7 = Some (energy_new 463500 1000 450)"
  by (simp add: factory_call_eval factory_energy_eval ex_factory_eval)

lemma energy_tracks_positions_witness:
  "\<exists>qs st' es. factory_exec ex_factory_env ex_factory
     (MergeTokens [ex_locked 1 100, ex_locked 2 300] None) = Inr (qs, st', es) \<and>
   entry_exact ex_factory_env st' 7
     (given st' (MergeTokens [ex_locked 1 100, ex_locked 2 300] None) qs + {#(50, 990)#})"
proof -
  let ?call = "MergeTokens [ex_locked 1 100, ex_locked 2 300] None"
  obtain qs st' es where run: "factory_exec ex_factory_env ex_factory ?call = Inr (qs, st', es)"
    using ex_merge_run by blast
  have user: "charged_user ex_factory_env ex_factory ?call = 7"
    by (simp add: ex_factory_env_def)
  have taken: "taken ex_factory_env ex_factory ?call = {#(100, 1350), (300, 2400)#}"
    by (simp add: position_of_def ex_factory_eval)
  show ?thesis
    using energy_tracks_positions [OF ex_factory_inv ex_merge_calendar run, of "{#(50, 990)#}"] run
      ex_entry_exact unfolding user taken by (auto simp: add_mset_commute)
qed

text \<open>C11: A call leaves nothing of its payments in the contract: what is paid in and minted goes
  out or is burnt, but for the one unit that every newly created nonce needs. It keeps the
  contract's invariant, and a position that exists keeps its unlock epoch.
\<close>

theorem factory_keeps_no_tokens:
  assumes "factory_inv st" and "calendar_ok env st call"
    and "factory_exec env st call = Inr (qs, st', es)"
  shows "paid_in t (call_payments call) + inflow t es =
      outflow t es + (if locked_token_id st = Some t then created_between st st' else 0) \<and>
    factory_inv st' \<and>
    (\<forall>p. snd (position_of st p) \<noteq> 0 \<longrightarrow> position_of st' p = position_of st p)"
  using factory_exec_step [OF assms(3,1,2)] keeps_position
  by (auto simp: step_ok_def keeps_nothing_def keeps_storage_def)

lemma ex_reduce_run:
  "\<exists>st'. factory_exec ex_factory_env ex_factory (ReduceLockPeriod [ex_locked 2 300] 720) =
     Inr ([ex_locked 4 157], st',
       [NftCreate ''XMEX'' INITIAL_SFT_AMOUNT, NftAddQuantity ''XMEX'' 4 157,
        NftBurn ''XMEX'' 2 157, ExecuteOnDest 4 ''depositFees'' [ex_locked 2 143],
        DirectSend 7 [ex_locked 4 157]]) \<and> created_between ex_factory st' = 1"
  by (simp add: factory_call_eval factory_energy_eval ex_factory_eval created_between_def)

lemma ex_reduce_calendar:
  "calendar_ok ex_factory_env ex_factory (ReduceLockPeriod [ex_locked 2 300] 720)"
  by (simp add: calendar_ok_def fungible_base_def position_of_def ex_factory_eval)

lemma factory_keeps_no_tokens_witness:
  "\<exists>st' es. factory_exec ex_factory_env ex_factory (ReduceLockPeriod [ex_locked 2 300] 720) =
     Inr ([ex_locked 4 157], st', es) \<and> 300 + inflow ''XMEX'' es = outflow ''XMEX'' es + 1"
proof -
  obtain st' es where run: "factory_exec ex_factory_env ex_factory (ReduceLockPeriod [ex_locked 2 300] 720) =
      Inr ([ex_locked 4 157], st', es)" and one: "created_between ex_factory st' = 1"
    using ex_reduce_run by blast
  have "paid_in ''XMEX'' [ex_locked 2 300] = 300" "locked_token_id ex_factory = Some ''XMEX''"
    by (simp_all add: ex_locked_def ex_factory_def)
  then show ?thesis
    using factory_keeps_no_tokens [OF ex_factory_inv ex_reduce_calendar run, of "''XMEX''"] run one by auto
qed

section \<open>What the calls pay\<close>



text \<open>Leaving early mints and hands to the unstake contract, together with the locked token,
  exactly the amount less the penalty, and the penalty is the percentage that the line
  through the lock options gives at the remaining epochs.
\<close>

theorem unlock_early_pays_after_penalty:
  assumes "factory_inv st" and "unlock_early env st ps = Inr (x, st', es)"
  shows "\<exists>p sc. ps = [p] \<and> token_unstake_sc_address st = Some sc \<and>
    get_block_epoch env < snd (position_of st p) \<and>
    (let remaining = unat (snd (position_of st p)) - unat (get_block_epoch env);
         penalty = amount p * penalty_at (lock_options st) remaining div 10000;
         unlocked = new_payment (base_asset_token_id st) 0 (amount p - penalty)
     in penalty < amount p \<and>
        es = [EsdtLocalMint (base_asset_token_id st) (amount p - penalty),
              ExecuteOnDestFor sc ''depositUserTokens'' (get_caller env) [p, unlocked]])"
  using assms(2,1)
proof (rule unlock_early_step, goal_cases)
  case (1 p pen sc)
  have "sane_lock_options (lock_options st)" using assms(1) by (simp add: factory_inv_def)
  from calculate_penalty_amount_eq [OF 1(4) this] 1 show ?case
    by (simp add: Let_def unat_sub_u64 order.strict_implies_order)
qed

lemma unlock_early_pays_after_penalty_witness:
  "\<exists>st' es. unlock_early ex_factory_env ex_factory [ex_locked 1 100] = Inr ((), st', es) \<and>
    es = [EsdtLocalMint ''MEX'' 62, ExecuteOnDestFor 4 ''depositUserTokens'' 7
      [ex_locked 1 100, new_payment ''MEX'' 0 62]]"
proof -
  obtain st' es where run: "unlock_early ex_factory_env ex_factory [ex_locked 1 100] = Inr ((), st', es)"
    by (simp add: factory_call_eval factory_energy_eval ex_factory_eval)
  have "penalty_at ex_options 350 = 3888"
    by (simp add: penalty_at_def ex_options_def knot_def interp_def)
  then show ?thesis
    using unlock_early_pays_after_penalty [OF ex_factory_inv run] run by (simp add: Let_def)
qed

text \<open>Reducing a lock period pays, for the attached position, one that ends at the start of
  the month of the chosen option, later than now and earlier than before, with the amount
  less the penalty of the reduction between the two remaining periods.
\<close>

theorem reduce_lock_period_pays_after_penalty:
  assumes "factory_inv st" and "calendar_ok env st (ReduceLockPeriod ps epochs)"
    and "reduce_lock_period env st ps epochs = Inr (q, st', es)"
  shows "\<exists>p. ps = [p] \<and>
    (let u = unlock_epoch_to_start_of_month (get_block_epoch env + epochs);
         old = snd (position_of st p);
         now = unat (get_block_epoch env);
         penalty = amount p * partial_percentage (penalty_at (lock_options st) (unat old - now))
                     (penalty_at (lock_options st) (unat u - now)) div 10000
     in get_block_epoch env < u \<and> u < old \<and> penalty < amount p \<and>
        position_of st' q = (amount p - penalty, u))"
  using assms(3,1) room_of_calendar [OF assms(2)]
proof (rule reduce_lock_period_step, goal_cases)
  case (1 p pen u)
  have "sane_lock_options (lock_options st)" using assms(1) by (simp add: factory_inv_def)
  note pen = calculate_penalty_amount_eq [OF 1(5) this]
  have "get_block_epoch env \<le> u" "get_block_epoch env \<le> snd (position_of st p)" using 1(3,4) by auto
  then have "unat (u - get_block_epoch env) = unat u - unat (get_block_epoch env)"
    "unat (snd (position_of st p) - get_block_epoch env) =
      unat (snd (position_of st p)) - unat (get_block_epoch env)"
    by (simp_all only: unat_sub_u64)
  note pen = pen [unfolded this]
  show ?case
    unfolding Let_def 1(2) [symmetric] using 1(1,3,4,6,7) unfolding pen by blast
qed

lemma reduce_lock_period_pays_after_penalty_witness:
  "\<exists>st' es. reduce_lock_period ex_factory_env ex_factory [ex_locked 2 300] 720 =
     Inr (ex_locked 4 157, st', es) \<and> position_of st' (ex_locked 4 157) = (157, 1710)"
proof -
  obtain st' es where run: "reduce_lock_period ex_factory_env ex_factory [ex_locked 2 300] 720 =
      Inr (ex_locked 4 157, st', es)"
    using ex_reduce_run by (auto simp: one_payment_Inr)
  have "unlock_epoch_to_start_of_month (get_block_epoch ex_factory_env + 720) = 1710"
    by (simp add: unlock_epoch_to_start_of_month_def EPOCHS_PER_MONTH_def ex_factory_env_def)
  with reduce_lock_period_pays_after_penalty [OF ex_factory_inv ex_reduce_calendar run] run show ?thesis
    by (auto simp: Let_def position_of_def ex_locked_def)
qed

text \<open>C13: Merging pays one position of the whole amount. Its unlock epoch starts a month in the
  future; it is the average of the merged epochs, weighted with the amounts, up to one epoch
  for every merged token and the 29 of the month; and it leaves the range of the merged
  epochs by less than a month.
\<close>

theorem merged_position_is_the_weighted_average:
  assumes "factory_inv st" and "calendar_ok env st (MergeTokens ps opt)"
    and "merge_tokens_endpoint env st ps opt = Inr (q, st', es)"
  shows "let a = sum_list (map amount ps); u = snd (position_of st' q);
             w = epoch_weight (positions_of st ps)
    in position_of st' q = (a, u) \<and> get_block_epoch env < u \<and> 30 dvd unat u \<and>
       w \<le> (unat u + 29) * a \<and> unat u * a \<le> w + (length ps + 28) * a \<and>
       (\<forall>lo hi. (\<forall>p\<in>set ps. lo \<le> snd (position_of st p) \<and> snd (position_of st p) \<le> hi) \<longrightarrow>
          unat lo < unat u + 30 \<and> unat u < unat hi + 30)"
proof -
  have small: "\<forall>p\<in>set ps. unat (snd (position_of st p)) < 2 ^ 63"
    using assms(2) by (simp add: calendar_ok_def)
  from assms(3,1) room_of_calendar [OF assms(2)] small show ?thesis
  proof (rule merge_tokens_endpoint_step, goal_cases)
    case (1 p qs y u user)
    have "unat (snd y) + 30 < 2 ^ 64" using 1(8) by simp
    note up = upper_estimate_bounds [OF 1(4) this]
    have m: "fst y = sum_list (map amount ps)" "epoch_weight (positions_of st ps) \<le> unat (snd y) * fst y"
      "unat (snd y) * fst y \<le> epoch_weight (positions_of st ps) + length qs * fst y"
      using 1(3) by (auto simp: merged_def 1(1))
    have "unat (snd y) * fst y \<le> (unat u + 29) * fst y" "unat u * fst y \<le> (unat (snd y) + 29) * fst y"
      using up(1,2) by (auto intro!: mult_le_mono1)
    with m(2,3) have w: "epoch_weight (positions_of st ps) \<le> (unat u + 29) * fst y"
      "unat u * fst y \<le> epoch_weight (positions_of st ps) + (length ps + 28) * fst y"
      by (simp_all add: 1(1) distrib_right)
    have range: "unat lo < unat u + 30 \<and> unat u < unat hi + 30"
      if "\<forall>p\<in>set ps. lo \<le> snd (position_of st p) \<and> snd (position_of st p) \<le> hi" for lo hi
    proof -
      have "lo \<le> snd y" "snd y \<le> hi"
        using that merged_range [OF 1(3), of lo hi] by (auto simp: 1(1) positions_of_def)
      with up(1,2) show ?thesis by (simp add: word_le_nat_alt)
    qed
    show ?case
      unfolding Let_def using 1(5,6) m(1) w up(3) range by auto
  qed
qed

lemma merged_position_is_the_weighted_average_witness:
  "\<exists>q st' es. merge_tokens_endpoint ex_factory_env ex_factory [ex_locked 1 100, ex_locked 2 300] None =
     Inr (q, st', es) \<and> fst (position_of st' q) = 400 \<and>
     unat (snd (position_of st' q)) * 400 \<le> 100 * 1350 + 300 * 2400 + 30 * 400"
proof -
  obtain q st' es where run: "merge_tokens_endpoint ex_factory_env ex_factory
      [ex_locked 1 100, ex_locked 2 300] None = Inr (q, st', es)"
    using ex_merge_run by (auto simp: one_payment_Inr)
  from merged_position_is_the_weighted_average [OF ex_factory_inv ex_merge_calendar run]
  have pos: "position_of st' q = (400, snd (position_of st' q))"
    and le: "unat (snd (position_of st' q)) * 400 \<le> 100 * 1350 + 300 * 2400 + 30 * 400"
    by (simp_all add: Let_def)
  have "fst (position_of st' q) = 400" by (subst pos) simp
  with run le show ?thesis by blast
qed

text \<open>Migration turns every legacy token into one locked position of the same amount, whose
  epoch lies between the minimum period from now, less a month, and the longest lock option.
\<close>

theorem migrated_tokens_keep_their_amount:
  assumes "factory_inv st" and "calendar_ok env st (MigrateOldTokens ps)"
    and "migrate_old_tokens env st ps = Inr (qs, st', es)"
  shows "list_all2 (\<lambda>p q. amount q = amount p \<and> locked_token_id st = Some (token_identifier q) \<and>
    (let u = unat (snd (position_of st' q)); now = unat (get_block_epoch env)
     in now + unat (min_migrated_token_locked_period st) < u + 30 \<and>
        now < u \<and> u \<le> now + unat (lock_epochs (last (lock_options st))))) ps qs"
proof -
  have "unat (last_created_nonce st) + length ps < 2 ^ 64 - 1"
    using assms(2) by (simp add: calendar_ok_def)
  with assms have "list_all2 (migrated env st st') ps qs"
    by (intro migrate_old_tokens_step(2)) (auto simp: calendar_ok_def)
  then show ?thesis
    by (rule list_all2_mono) (auto simp: migrated_def Let_def word_less_nat_alt)
qed

lemma migrated_tokens_keep_their_amount_witness:
  "\<exists>q st' es. migrate_old_tokens ex_factory_env ex_factory [new_payment ''LKMEX'' 2286815 40] =
     Inr ([q], st', es) \<and> amount q = 40"
proof -
  let ?p = "new_payment ''LKMEX'' 2286815 40"
  obtain q st' es where run: "migrate_old_tokens ex_factory_env ex_factory [?p] = Inr ([q], st', es)"
    by (simp add: factory_call_eval factory_energy_eval ex_factory_eval)
  have "calendar_ok ex_factory_env ex_factory (MigrateOldTokens [?p])"
    by (simp add: calendar_ok_def fungible_base_def position_of_def ex_factory_eval)
  from migrated_tokens_keep_their_amount [OF ex_factory_inv this run] run show ?thesis by simp
qed

section \<open>Who may change whose energy\<close>

text \<open>Nothing happens while the contract is paused, and a call that takes positions from the
  energy of anybody but its caller comes from a whitelisted contract.
\<close>

theorem energy_of_others_needs_a_whitelisted_caller:
  assumes "factory_exec env st call = Inr (qs, st', es)"
  shows "\<not> paused st \<and>
    (charged_user env st call \<noteq> get_caller env \<and> taken env st call \<noteq> {#} \<longrightarrow>
     get_caller env \<in> token_transfer_whitelist st \<union> sc_whitelist_addresses st)"
proof (cases call)
  case (LockTokens ps epochs d)
  have "\<not> paused st" "\<exists>p. ps = [p]"
    using assms by (auto simp: LockTokens one_payment_Inr lock_tokens_endpoint_def
        require_not_paused_def require_is_listed_lock_option_def Let_def res_simps)
  moreover have "dest_from_optional env d = get_caller env \<or> token_identifier (hd ps) = base_asset_token_id st"
    using assms by (auto simp: LockTokens one_payment_Inr lock_tokens_endpoint_def lock_by_token_type_def
        require_not_paused_def require_is_listed_lock_option_def require_future_unlock_def
        require_address_is_caller_def is_base_asset_token_def Let_def res_simps split: if_splits)
  ultimately show ?thesis by (auto simp: LockTokens)
next
  case (ExtendLockPeriod ps epochs user)
  with assms show ?thesis
    by (auto simp: one_payment_Inr extend_lock_period_def require_not_paused_def Let_def res_simps
        require_is_listed_lock_option_def)
next
  case (MergeTokens ps opt)
  with assms show ?thesis
    by (auto simp: one_payment_Inr merge_tokens_endpoint_def require_not_paused_def Let_def res_simps
        get_orig_caller_from_opt_def split: option.splits)
qed (use assms in \<open>auto simp: one_payment_Inr unlock_tokens_endpoint_def unlock_early_def
    reduce_lock_period_def lock_virtual_def migrate_old_tokens_def require_not_paused_def res_simps
    Let_def\<close>)

lemma energy_of_others_needs_a_whitelisted_caller_witness:
  "\<exists>r. factory_exec (ex_factory_env\<lparr>get_caller := 3\<rparr>) ex_factory
     (MergeTokens [ex_locked 1 100, ex_locked 2 300] (Some 7)) = Inr r \<and>
   3 \<in> token_transfer_whitelist ex_factory \<union> sc_whitelist_addresses ex_factory"
proof -
  let ?env = "ex_factory_env\<lparr>get_caller := 3\<rparr>"
  let ?call = "MergeTokens [ex_locked 1 100, ex_locked 2 300] (Some 7)"
  obtain qs st' es where run: "factory_exec ?env ex_factory ?call = Inr (qs, st', es)"
    by (simp add: factory_call_eval require_sc_address_whitelisted_def factory_energy_eval ex_factory_eval)
  show ?thesis
    using energy_of_others_needs_a_whitelisted_caller [OF run] run by simp
qed

lemma adjust_loop_users:
  "adjust_loop env m args = Inr m' \<Longrightarrow>
   (\<forall>v. v \<notin> fst ` set args \<longrightarrow> m' v = m v) \<and> (\<forall>v\<in>fst ` set args. m v \<noteq> None)"
proof (induction env m args rule: adjust_loop.induct)
  case (2 env m user e_amount token_amount args)
  from 2(2) obtain t where "m user \<noteq> None" and rest: "adjust_loop env (set_energy_entry m user
      (energy_new (energy_amount (get_updated_energy_entry_for_user env m user) + e_amount)
        (get_block_epoch env) t)) args = Inr m'"
    and t: "(if 0 \<le> token_amount then Inr (total_locked_tokens (get_updated_energy_entry_for_user env m user)
         + nat \<bar>token_amount\<bar>)
       else require (nat \<bar>token_amount\<bar> \<le> total_locked_tokens (get_updated_energy_entry_for_user env m user))
         (SignalError ''Insufficient locked tokens'')
         (big_sub (total_locked_tokens (get_updated_energy_entry_for_user env m user)) (nat \<bar>token_amount\<bar>)))
       = (Inr t :: error + nat)"
    by (auto simp: Let_def require_Inr and_then_Inr)
  from 2(1) [OF refl refl t rest] \<open>m user \<noteq> None\<close> show ?case
    by (auto simp: set_energy_entry_def split: if_splits)
qed simp

lemma adjust_user_energy_ok:
  assumes "adjust_user_energy env st args = Inr r"
  shows "get_caller env = get_owner_address env \<and> (\<forall>v\<in>fst ` set args. user_energy st v \<noteq> None) \<and>
    (\<forall>v. v \<notin> fst ` set args \<longrightarrow> user_energy (fst (snd r)) v = user_energy st v)"
proof -
  obtain m where "get_caller env = get_owner_address env"
    and m: "adjust_loop env (user_energy st) args = Inr m" and "r = ((), st\<lparr>user_energy := m\<rparr>, [])"
    using assms by (auto simp: adjust_user_energy_def require_owner_def res_simps)
  with adjust_loop_users [OF m] show ?thesis by simp
qed

text \<open>The endpoints that write energy entries directly belong to their parties: the unstake
  contract and the whitelisted transfer contracts, each changing only the named user's entry
  of a contract that is not paused; the owner of a paused contract; the owner, for corrections
  of the entries of users that have one; and the old factory for legacy tokens.
\<close>

theorem energy_entries_are_written_by_their_parties:
  "(\<forall>r. revert_unstake env st user e = Inr r \<longrightarrow>
      \<not> paused st \<and> token_unstake_sc_address st = Some (get_caller env) \<and>
      r = ((), st\<lparr>user_energy := (user_energy st)(user \<mapsto> e)\<rparr>, [])) \<and>
   (\<forall>r. set_user_energy_after_locked_token_transfer env st user e = Inr r \<longrightarrow>
      \<not> paused st \<and> get_caller env \<in> token_transfer_whitelist st \<and>
      r = ((), st\<lparr>user_energy := (user_energy st)(user \<mapsto> e)\<rparr>, [])) \<and>
   (\<forall>r. set_energy_for_old_tokens env st entries = Inr r \<longrightarrow>
      paused st \<and> get_caller env = get_owner_address env) \<and>
   (\<forall>r. adjust_user_energy env st args = Inr r \<longrightarrow>
      get_caller env = get_owner_address env \<and> (\<forall>v\<in>fst ` set args. user_energy st v \<noteq> None) \<and>
      (\<forall>v. v \<notin> fst ` set args \<longrightarrow> user_energy (fst (snd r)) v = user_energy st v)) \<and>
   (\<forall>r. update_energy_after_old_token_unlock env st user olds news = Inr r \<longrightarrow>
      r = ((), st, []) \<or>
      \<not> paused st \<and> old_locked_asset_factory_address st = Some (get_caller env) \<and>
      user \<in> user_updated_old_tokens_energy st)"
  using adjust_user_energy_ok [of env st args]
  by (auto simp: revert_unstake_def set_user_energy_after_locked_token_transfer_def
    set_energy_for_old_tokens_def update_energy_after_old_token_unlock_def
    require_not_paused_def require_paused_def require_owner_def require_caller_unstake_sc_def
    get_token_unstake_sc_address_def require_caller_old_factory_def
    require_old_tokens_energy_was_updated_def set_energy_entry_def res_simps
    split: option.splits if_splits)

lemma energy_entries_are_written_by_their_parties_witness:
  "revert_unstake (ex_factory_env\<lparr>get_caller := 4\<rparr>) ex_factory 7 (energy_new 5 1000 1) =
     Inr ((), ex_factory\<lparr>user_energy := (user_energy ex_factory)(7 \<mapsto> energy_new 5 1000 1)\<rparr>, []) \<and>
   \<not> paused ex_factory"
proof -
  let ?env = "ex_factory_env\<lparr>get_caller := 4\<rparr>"
  have run: "revert_unstake ?env ex_factory 7 (energy_new 5 1000 1) =
      Inr ((), ex_factory\<lparr>user_energy := (user_energy ex_factory)(7 \<mapsto> energy_new 5 1000 1)\<rparr>, [])"
    by (simp add: revert_unstake_def require_not_paused_def require_caller_unstake_sc_def
        get_token_unstake_sc_address_def set_energy_entry_def)
  from energy_entries_are_written_by_their_parties [of ?env ex_factory 7 "energy_new 5 1000 1" "[]" "[]" "[]" "[]"]
  have "\<forall>r. revert_unstake ?env ex_factory 7 (energy_new 5 1000 1) = Inr r \<longrightarrow> \<not> paused ex_factory"
    by blast
  with run show ?thesis by blast
qed

end
