(* ===== verification/LockProperties.thy ===== *)
theory LockProperties
  imports EnergyCalls
begin

text \<open>
  The properties of the parts the energy factory is made of: lock options and penalties,
  simple locks, legacy schedules, and the energy entries that other contracts write; and of
  the farm positions of \<open>common_structs\<close>.
\<close>

section \<open>Lock options and penalties\<close>

text \<open>The lock options under calls of \<open>addLockOptions\<close>, by anyone.\<close>

fun option_step ::
  "error option \<Rightarrow> all_lock_options \<Rightarrow> 'e blockchain_scheme \<times> (u64 \<times> u64) list \<Rightarrow> error + all_lock_options" where
  "option_step outside options (env, new) = add_lock_options_endpoint outside env options new"

lemma add_option_endpoint_valid:
  assumes "add_lock_options_endpoint outside env options new = Inr options'" "valid_lock_options options"
  shows "get_caller env = get_owner_address env \<and> valid_lock_options options' \<and>
    set options' = set options \<union> (\<lambda>(e, p). lock_option_new e p) ` set new"
proof -
  have owner: "get_caller env = get_owner_address env" and add: "add_lock_options outside options new = Inr options'"
    using assms(1) by (simp_all add: add_lock_options_endpoint_def res_simps)
  note eq = add_lock_options_valid(2) [OF add disjI2 [OF assms(2)]]
  have "options' \<noteq> []" using eq assms(2) by (auto simp: valid_lock_options_def)
  from add_lock_options_valid(1) [OF add disjI2 [OF assms(2)] this] owner eq show ?thesis by blast
qed

interpretation lock_run: step_system "option_step outside" valid_lock_options "\<lambda>x. True" for outside
proof
  fix s x s' assume "valid_lock_options s" "option_step outside s x = Inr s'"
  then show "valid_lock_options s'" using add_option_endpoint_valid by (cases x) fastforce
qed

text \<open>A deployed energy factory has valid lock options. After \<open>init\<close>, with whatever list, and any calls
  of \<open>addLockOptions\<close> by anyone, there are between one and ten options, sorted, each of at least a year,
  with penalties that increase with the epochs and never exceed one hundred percent. A call that
  succeeds was the owner's, and the new list has the old options and the added ones. This holds
  whatever the reads outside of an empty list come to, since \<open>init\<close> refuses to end with one.
\<close>

theorem lock_options_stay_valid:
  fixes xs :: "('e blockchain_scheme \<times> (u64 \<times> u64) list) list"
  assumes "factory_init outside env st base legacy old min_period new = Inr (r, st', es)" and "lock_options st = []"
  defines "options \<equiv> run_txs (option_step outside) (lock_options st') xs"
  shows "valid_lock_options options \<and>
    set (lock_options st') = (\<lambda>(e, p). lock_option_new e p) ` set new \<and>
    (add_lock_options_endpoint outside env' options added = Inr options' \<longrightarrow>
      get_caller env' = get_owner_address env' \<and> valid_lock_options options' \<and>
      set options' = set options \<union> (\<lambda>(e, p). lock_option_new e p) ` set added)"
proof -
  have add: "add_lock_options outside [] new = Inr (lock_options st')" and ne: "lock_options st' \<noteq> []"
    using assms(1,2) by (auto simp: factory_init_def get_lock_options_def require_valid_token_id_def
        require_sc_address_def res_simps)
  note start = add_lock_options_valid [OF add disjI1 [OF refl]]
  have valid: "valid_lock_options options"
    unfolding options_def by (rule lock_run.run_inv [OF start(1) [OF ne]]) (simp add: list_all_iff)
  show ?thesis using valid start(2) add_option_endpoint_valid [OF _ valid, of outside env' added options'] by auto
qed

definition ex_undeployed :: factory_storage where
  "ex_undeployed = ex_factory\<lparr>lock_options := []\<rparr>"

lemma ex_init_options:
  "\<exists>st es. factory_init None ex_factory_env ex_undeployed ''MEX'' ''LKMEX'' 3 360 [(1440, 8000), (360, 4000), (720, 6000)] =
     Inr ((), st, es) \<and> lock_options st = ex_options"
  by (simp add: factory_init_def require_valid_token_id_def require_sc_address_def get_lock_options_def
      add_lock_options_def sort_lock_options_def require_no_duplicate_lock_epoch_options_def
      require_valid_percentages_def Let_def lock_constants ex_options_def ex_undeployed_def ex_factory_env_def)

lemma lock_options_stay_valid_witness:
  "valid_lock_options (run_txs (option_step None) ex_options [(ex_factory_env\<lparr>get_caller := 2\<rparr>, [(1800, 9000)])])"
proof -
  obtain st es where init: "factory_init None ex_factory_env ex_undeployed ''MEX'' ''LKMEX'' 3 360
      [(1440, 8000), (360, 4000), (720, 6000)] = Inr ((), st, es)" and options: "lock_options st = ex_options"
    using ex_init_options by blast
  have "lock_options ex_undeployed = []" by (simp add: ex_undeployed_def)
  from lock_options_stay_valid [OF init this, THEN conjunct1] show ?thesis unfolding options .
qed

text \<open>The percentage of a full unlock is the piecewise linear function through the origin and
  the lock options, rounded down: the \<open>u64\<close> arithmetic of the interpolation never wraps for
  options of at most \<open>2 ^ 50\<close> epochs, and no period up to the longest option fails.
\<close>

theorem full_unlock_penalty_is_piecewise_linear:
  assumes "sane_lock_options options" and "e \<le> lock_epochs (last options)"
  shows "\<exists>r. calculate_penalty_percentage_full_unlock options e = Inr r \<and>
    unat r = piecewise ((0, 0) # map knot options) (unat e)"
  using penalty_percentage_full_unlock_ok [OF assms] by (simp add: penalty_at_def)

lemma full_unlock_penalty_is_piecewise_linear_witness:
  "\<exists>r. calculate_penalty_percentage_full_unlock ex_options 540 = Inr r \<and> unat r = 5000"
proof -
  have "(540::u64) \<le> lock_epochs (last ex_options)" by (simp add: ex_options_def)
  from full_unlock_penalty_is_piecewise_linear [OF ex_options_valid this] show ?thesis
    by (simp add: ex_options_def knot_def interp_def)
qed

text \<open>A longer remaining lock never costs less, every listed option costs exactly its
  percentage, and no penalty exceeds that of the longest option.
\<close>

theorem penalty_grows_with_the_lock:
  assumes "sane_lock_options options" and "e \<le> f" and "f \<le> lock_epochs (last options)"
    and "calculate_penalty_percentage_full_unlock options e = Inr r"
    and "calculate_penalty_percentage_full_unlock options f = Inr s"
  shows "r \<le> s \<and> s \<le> penalty_start_percentage (last options) \<and>
    (\<forall>x\<in>set options. lock_epochs x = f \<longrightarrow> s = penalty_start_percentage x)"
proof -
  have valid: "valid_lock_options options" using assms(1) by (simp add: sane_lock_options_def)
  have r: "unat r = penalty_at options (unat e)"
    using penalty_percentage_full_unlock_ok [OF assms(1) order_trans [OF assms(2,3)]] assms(4) by auto
  have s: "unat s = penalty_at options (unat f)"
    using penalty_percentage_full_unlock_ok [OF assms(1,3)] assms(5) by auto
  have "unat e \<le> unat f" "unat f \<le> unat (lock_epochs (last options))"
    using assms(2,3) by (simp_all add: word_le_nat_alt)
  from penalty_at_mono [OF valid this] penalty_at_le(1) [OF valid this(2)]
  have "r \<le> s" "s \<le> penalty_start_percentage (last options)" by (simp_all add: word_le_nat_alt r s)
  moreover have "s = penalty_start_percentage x" if "x \<in> set options" "lock_epochs x = f" for x
    using penalty_at_option [OF valid that(1)] that(2) s by (simp add: word_unat_eq_iff)
  ultimately show ?thesis by blast
qed

lemma penalty_grows_with_the_lock_witness:
  "\<exists>r s. calculate_penalty_percentage_full_unlock ex_options 540 = Inr r \<and>
    calculate_penalty_percentage_full_unlock ex_options 720 = Inr s \<and> r \<le> s \<and> s = 6000"
proof -
  obtain r s where rs: "calculate_penalty_percentage_full_unlock ex_options 540 = Inr r"
    "calculate_penalty_percentage_full_unlock ex_options 720 = Inr s"
    by (simp add: calculate_penalty_percentage_full_unlock_def get_lock_options_def ex_options_def
        linear_interpolation_def)
  have "(540::u64) \<le> 720" "(720::u64) \<le> lock_epochs (last ex_options)" by (simp_all add: ex_options_def)
  from penalty_grows_with_the_lock [OF ex_options_valid this rs] rs show ?thesis
    by (auto simp: ex_options_def)
qed

text \<open>C14: Reducing a lock and then leaving never costs more than leaving at once, and saves at most
  one part in ten thousand of the amount and two units: the partial penalty composes with the
  full one, up to rounding.
\<close>

theorem leaving_in_two_steps_costs_the_same:
  assumes "sane_lock_options options" and "0 < n" and "n < p" and "p \<le> lock_epochs (last options)"
    and "calculate_penalty_amount options a p n = Inr x1"
    and "calculate_penalty_amount options (a - x1) n 0 = Inr x2"
    and "calculate_penalty_amount options a p 0 = Inr x"
  shows "x1 + x2 \<le> x \<and> x \<le> x1 + x2 + a div 10000 + 2"
proof -
  note order = penalty_at_order [OF assms(1,3,4)]
  have "x1 = a * partial_percentage (penalty_at options (unat p)) (penalty_at options (unat n)) div 10000"
    "x2 = (a - x1) * penalty_at options (unat n) div 10000" "x = a * penalty_at options (unat p) div 10000"
    using assms(5-7) [THEN calculate_penalty_amount_eq, OF assms(1)] by simp_all
  with two_step_penalty [OF order, of a] show ?thesis by simp
qed

lemma leaving_in_two_steps_costs_the_same_witness:
  "\<exists>x1 x2 x. calculate_penalty_amount ex_options 300 1400 710 = Inr x1 \<and>
    calculate_penalty_amount ex_options (300 - x1) 710 0 = Inr x2 \<and>
    calculate_penalty_amount ex_options 300 1400 0 = Inr x \<and> x1 + x2 \<le> x \<and> x \<le> x1 + x2 + 2"
proof -
  have le: "(1400::u64) \<le> lock_epochs (last ex_options)" "(0::u64) < 710" "(710::u64) < 1400"
    "(0::u64) < 1400" "(710::u64) \<le> lock_epochs (last ex_options)" by (simp_all add: ex_options_def)
  obtain x1 where 1: "calculate_penalty_amount ex_options 300 1400 710 = Inr x1"
    using calculate_penalty_amount_ok [OF ex_options_valid le(3,1)] by blast
  obtain x2 where 2: "calculate_penalty_amount ex_options (300 - x1) 710 0 = Inr x2"
    using calculate_penalty_amount_ok [OF ex_options_valid le(2,5)] by blast
  obtain x where 3: "calculate_penalty_amount ex_options 300 1400 0 = Inr x"
    using calculate_penalty_amount_ok [OF ex_options_valid le(4,1)] by blast
  show ?thesis
    using leaving_in_two_steps_costs_the_same [OF ex_options_valid le(2,3,1) 1 2 3] 1 2 3 by simp
qed

section \<open>Locking and unlocking\<close>

text \<open>A locked token unlocks to the payment that was locked: from its unlock epoch on,
  unlocking gives back the same token, nonce and amount, and before that epoch it fails.
\<close>

theorem locked_tokens_unlock_to_the_payment:
  assumes "nonces_ok st" and "last_created_nonce st < - 1" and "get_block_epoch env < u"
    and "simple_lock_tokens env st p u = Inr (q, st', es)" and "to_esdt_payment q = Inr q'"
  shows "(u \<le> get_block_epoch env' \<longrightarrow> (\<exists>es'. unlock_tokens env' st' q' = Inr (p, es'))) \<and>
    (get_block_epoch env' < u \<longrightarrow> unlock_tokens env' st' q' = Inl CANNOT_UNLOCK_YET_ERR_MSG)"
  by (rule lock_unlock_round_trip [OF assms(4,3,1,2,5)])

lemma locked_tokens_unlock_to_the_payment_witness:
  "\<exists>q st' es q'. simple_lock_tokens ex_factory_env ex_factory (egld_or_esdt_new (Esdt ''MEX'') 0 70) 2040 =
     Inr (q, st', es) \<and> to_esdt_payment q = Inr q' \<and>
   (\<exists>es'. unlock_tokens (ex_factory_env\<lparr>get_block_epoch := 2040\<rparr>) st' q' =
     Inr (egld_or_esdt_new (Esdt ''MEX'') 0 70, es'))"
proof -
  let ?p = "egld_or_esdt_new (Esdt ''MEX'') 0 70"
  obtain q st' es q' where run: "simple_lock_tokens ex_factory_env ex_factory ?p 2040 = Inr (q, st', es)"
    "to_esdt_payment q = Inr q'"
    by (simp add: factory_call_eval ex_factory_eval)
  have "nonces_ok ex_factory" using ex_factory_inv by (simp add: factory_inv_def)
  moreover have "last_created_nonce ex_factory < - 1" by simp
  moreover have "get_block_epoch ex_factory_env < 2040" by simp
  ultimately show ?thesis
    using locked_tokens_unlock_to_the_payment [of ex_factory ex_factory_env 2040 ?p q st' es q'
        "ex_factory_env\<lparr>get_block_epoch := 2040\<rparr>"] run
    by (auto simp del: ex_factory_sel)
qed

section \<open>Legacy schedules\<close>

text \<open>Dividing an amount by an unlock schedule loses nothing: a schedule whose percentages are
  not all zero and fit in \<open>u64\<close> gives one amount per milestone, in order, and the amounts
  add up to the whole.
\<close>

theorem legacy_schedule_divides_exactly:
  assumes "0 < percent_sum (unlock_schedule_ex attrs)"
    and "percent_sum (unlock_schedule_ex attrs) < 2 ^ 64"
  shows "\<exists>pairs. get_unlock_amounts_per_epoch attrs a = Inr pairs \<and>
    map epoch pairs = map milestone_ex_epoch (unlock_schedule_ex attrs) \<and>
    sum_list (map epoch_amount pairs) = a \<and>
    get_total_unlockable_amount pairs e + sum_list (map epoch_amount (filter (\<lambda>x. e < epoch x) pairs)) = a"
proof -
  obtain pairs where pairs: "get_unlock_amounts_per_epoch attrs a = Inr pairs"
    using get_unlock_amounts_total [OF assms] by blast
  have "unlock_schedule_ex attrs \<noteq> []" using assms(1) by auto
  then have sum: "sum_list (map epoch_amount pairs) = a" by (rule get_unlock_amounts_sum [OF pairs])
  have "map epoch pairs = map milestone_ex_epoch (unlock_schedule_ex attrs)"
    using unlock_amounts_loop_sum pairs by (fastforce simp: get_unlock_amounts_per_epoch_def)
  moreover have "get_total_unlockable_amount pairs e +
      sum_list (map epoch_amount (filter (\<lambda>x. e < epoch x) pairs)) = sum_list (map epoch_amount pairs)"
    unfolding get_total_unlockable_amount_eq get_unlockable_entries_def
    by (induction pairs) auto
  ultimately show ?thesis using pairs sum by auto
qed

lemma legacy_schedule_divides_exactly_witness:
  "\<exists>pairs. get_unlock_amounts_per_epoch \<lparr>unlock_schedule_ex =
      [\<lparr>milestone_ex_epoch = 10, milestone_ex_percent = 33333\<rparr>,
       \<lparr>milestone_ex_epoch = 40, milestone_ex_percent = 66667\<rparr>], is_merged_ex = False\<rparr> 100 = Inr pairs \<and>
    sum_list (map epoch_amount pairs) = 100"
proof -
  let ?a = "\<lparr>unlock_schedule_ex = [\<lparr>milestone_ex_epoch = 10, milestone_ex_percent = 33333\<rparr>,
      \<lparr>milestone_ex_epoch = 40, milestone_ex_percent = 66667\<rparr>], is_merged_ex = False\<rparr>"
  have "0 < percent_sum (unlock_schedule_ex ?a)" "percent_sum (unlock_schedule_ex ?a) < 2 ^ 64" by simp_all
  from legacy_schedule_divides_exactly [OF this, of 100] show ?thesis by auto
qed

text \<open>Reallocation restores a schedule to one hundred percent: after some milestones are gone,
  the percentages it computes add up to exactly \<open>PERCENTAGE_TOTAL_EX\<close>, with what rounding
  leaves given to the last milestone.
\<close>

theorem reallocated_percentages_are_complete:
  assumes "0 < percent_sum ms" and "percent_sum ms < 2 ^ 40"
    and "reallocate_percentages ms = Inr ms'"
  shows "percent_sum ms' = unat PERCENTAGE_TOTAL_EX"
  using reallocate_percentages_total [OF assms(3,1,2)] by (simp add: PERCENTAGE_TOTAL_EX_def)

lemma reallocated_percentages_are_complete_witness:
  "\<exists>ms'. reallocate_percentages [\<lparr>milestone_ex_epoch = 10, milestone_ex_percent = 20000\<rparr>,
      \<lparr>milestone_ex_epoch = 40, milestone_ex_percent = 40000\<rparr>] = Inr ms' \<and> percent_sum ms' = 100000"
proof -
  let ?ms = "[\<lparr>milestone_ex_epoch = 10, milestone_ex_percent = 20000\<rparr>,
      \<lparr>milestone_ex_epoch = 40, milestone_ex_percent = 40000\<rparr>]"
  obtain ms' where "reallocate_percentages ?ms = Inr ms'"
    by (simp add: reallocate_percentages_def reallocated_percent_def PERCENTAGE_TOTAL_EX_def Let_def)
  moreover have "0 < percent_sum ?ms" "percent_sum ?ms < 2 ^ 40" by simp_all
  ultimately show ?thesis
    using reallocated_percentages_are_complete [of ?ms ms'] by (auto simp: PERCENTAGE_TOTAL_EX_def)
qed

section \<open>Farm positions\<close>

text \<open>Merging two farm positions keeps their amounts and compounded rewards, and never lets
  the owner claim more: at any reward index the merged position is owed at most what the two
  are owed, because the merged entry index is rounded up.
\<close>

theorem merging_farm_positions_never_adds_rewards:
  assumes "farm_merge_with a b = Inr c" and "reward_per_share a \<le> g" and "reward_per_share b \<le> g"
  shows "current_farm_amount c = current_farm_amount a + current_farm_amount b \<and>
    compounded_reward c = compounded_reward a + compounded_reward b \<and>
    entering_epoch c = max (entering_epoch a) (entering_epoch b) \<and>
    reward_per_share c \<le> g \<and>
    (g - reward_per_share c) * current_farm_amount c \<le>
      (g - reward_per_share a) * current_farm_amount a + (g - reward_per_share b) * current_farm_amount b"
proof -
  let ?x = "reward_per_share a" and ?y = "reward_per_share b" and ?m = "current_farm_amount a"
    and ?n = "current_farm_amount b" and ?r = "reward_per_share c"
  have pos: "0 < ?m + ?n" and r: "?r = (?x * ?m + ?y * ?n + (?m + ?n) - 1) div (?m + ?n)"
    and c: "current_farm_amount c = ?m + ?n" "compounded_reward c = compounded_reward a + compounded_reward b"
      "entering_epoch c = max (entering_epoch a) (entering_epoch b)"
    using assms(1) by (auto simp: farm_merge_with_Inr)
  note avg = ceil_average [OF pos, of ?x ?y, folded r]
  have g: "?r \<le> g" using avg(4) assms(2,3) by (simp add: max_def split: if_splits)
  obtain d e f where d: "g = ?x + d" and e: "g = ?y + e" and f: "g = ?r + f"
    using assms(2,3) g le_Suc_ex by metis
  have "(?x + d) * ?m + (?y + e) * ?n = (?r + f) * (?m + ?n)"
    unfolding d [symmetric] e [symmetric] f [symmetric] by (simp add: distrib_left)
  then have "f * (?m + ?n) \<le> d * ?m + e * ?n" using avg(1) by (simp add: distrib_left distrib_right)
  moreover have "g - ?r = f" "g - ?x = d" "g - ?y = e" using d e f by simp_all
  ultimately show ?thesis using c g by simp
qed

lemma merging_farm_positions_never_adds_rewards_witness:
  "\<exists>c. farm_merge_with
      \<lparr>reward_per_share = 10, entering_epoch = 5, compounded_reward = 0, current_farm_amount = 7, original_owner = 1\<rparr>
      \<lparr>reward_per_share = 13, entering_epoch = 8, compounded_reward = 2, current_farm_amount = 4, original_owner = 1\<rparr>
      = Inr c \<and> current_farm_amount c = 11 \<and> (20 - reward_per_share c) * 11 \<le> 98"
proof -
  let ?a = "\<lparr>reward_per_share = 10, entering_epoch = 5, compounded_reward = 0, current_farm_amount = 7, original_owner = 1\<rparr>"
  let ?b = "\<lparr>reward_per_share = 13, entering_epoch = 8, compounded_reward = 2, current_farm_amount = 4, original_owner = 1\<rparr>"
  obtain c where c: "farm_merge_with ?a ?b = Inr c"
    by (simp add: farm_merge_with_def farm_can_merge_with_def weighted_average_round_up_def
        farm_get_total_supply_def)
  have "reward_per_share ?a \<le> 20" "reward_per_share ?b \<le> 20" by simp_all
  from merging_farm_positions_never_adds_rewards [OF c this] c show ?thesis by auto
qed

end
