(* ===== verification/EnergyQuery.thy ===== *)
theory EnergyQuery
  imports EnergyFactory
begin

text \<open>
  Reading the energy factory from another contract
  (\<open>energy-integration/common-modules/energy-query\<close>): the module keeps the factory's address
  and reads the factory's storage at that address. What the storage of an address holds is
  part of the environment; the factory's model provides it where contracts are composed.
\<close>

record energy_query_storage =
  energy_factory_address :: "address option"

record energy_query_env = blockchain +
  read_user_energy :: "address \<Rightarrow> address \<Rightarrow> energy option"
  read_base_token_id :: "address \<Rightarrow> token_id"
  read_locked_token_id :: "address \<Rightarrow> token_id"

definition get_energy_factory_address :: "'s energy_query_storage_scheme \<Rightarrow> error + address" where
  "get_energy_factory_address st =
     (case energy_factory_address st of None \<Rightarrow> Inl STORAGE_DECODE_ERROR | Some a \<Rightarrow> Inr a)"

definition set_energy_factory_address ::
  "'e blockchain_scheme \<Rightarrow> 's energy_query_storage_scheme \<Rightarrow> address \<Rightarrow>
     error + 's energy_query_storage_scheme" where
  "set_energy_factory_address env st sc_address =
     require (get_caller env = get_owner_address env) ONLY_OWNER
    (require (is_smart_contract env sc_address) (SignalError ''Invalid address'')
    (Inr (st\<lparr>energy_factory_address := Some sc_address\<rparr>)))"

definition get_energy_entry ::
  "'e energy_query_env_scheme \<Rightarrow> 's energy_query_storage_scheme \<Rightarrow> address \<Rightarrow> energy" where
  "get_energy_entry env st user =
     (let current_epoch = get_block_epoch env in
      case energy_factory_address st of
        None \<Rightarrow> new_zero_energy current_epoch
      | Some a \<Rightarrow>
          (case read_user_energy env a user of
             Some e \<Rightarrow> deplete e current_epoch
           | None \<Rightarrow> new_zero_energy current_epoch))"

definition query_energy_amount ::
  "'e energy_query_env_scheme \<Rightarrow> 's energy_query_storage_scheme \<Rightarrow> address \<Rightarrow> biguint" where
  "query_energy_amount env st user = get_energy_amount (get_energy_entry env st user)"

definition get_energy_amount_non_zero ::
  "'e energy_query_env_scheme \<Rightarrow> 's energy_query_storage_scheme \<Rightarrow> address \<Rightarrow> error + biguint" where
  "get_energy_amount_non_zero env st user =
     (let e = query_energy_amount env st user in
      require (0 < e) (SignalError ''No energy'') (Inr e))"

definition query_base_token_id ::
  "'e energy_query_env_scheme \<Rightarrow> 's energy_query_storage_scheme \<Rightarrow> error + token_id" where
  "query_base_token_id env st =
     and_then (get_energy_factory_address st) (\<lambda>a. Inr (read_base_token_id env a))"

definition query_locked_token_id ::
  "'e energy_query_env_scheme \<Rightarrow> 's energy_query_storage_scheme \<Rightarrow> error + token_id" where
  "query_locked_token_id env st =
     and_then (get_energy_factory_address st) (\<lambda>a. Inr (read_locked_token_id env a))"

lemma query_Inr [res_simps]:
  "get_energy_factory_address st = Inr a \<longleftrightarrow> energy_factory_address st = Some a"
  "query_base_token_id env st = Inr t \<longleftrightarrow>
     (\<exists>a. energy_factory_address st = Some a \<and> t = read_base_token_id env a)"
  "query_locked_token_id env st = Inr t \<longleftrightarrow>
     (\<exists>a. energy_factory_address st = Some a \<and> t = read_locked_token_id env a)"
  by (auto simp: get_energy_factory_address_def query_base_token_id_def query_locked_token_id_def
      split: option.splits)

lemma get_energy_entry_epoch [simp]:
  "last_update_epoch (get_energy_entry env st user) = get_block_epoch env"
  by (simp add: get_energy_entry_def Let_def new_zero_energy_def energy_new_def split: option.splits)

text \<open>Read from the factory's storage, the entry is the one the factory itself works with.\<close>

lemma get_energy_entry_of_factory:
  assumes "energy_factory_address st = Some a" "read_user_energy env a = user_energy f"
    and "get_block_epoch env = get_block_epoch fenv"
  shows "get_energy_entry env st user = get_updated_energy_entry_for_user fenv (user_energy f) user"
  using assms by (simp add: get_energy_entry_def get_updated_energy_entry_for_user_def)

end
