(* ===== verification/TokenUnstake.thy ===== *)
theory TokenUnstake
  imports EnergyQuery EnergyFacts
begin

text \<open>
  The token unstake contract (\<open>locked-asset/token-unstake/src\<close>). Tokens that leave the energy
  factory early wait here for the unbonding period: the locked token and the base asset it was
  exchanged for form an entry of their user. The user claims the base asset of the entries
  that are due, or cancels all of them and gets the locked tokens and the energy back. The
  penalty part of claimed locked tokens is burnt and sent to the fees collector.
\<close>

section \<open>tokens_per_user.rs\<close>

record unstake_pair =
  pair_unlock_epoch :: u64
  pair_locked_tokens :: esdt_payment
  pair_unlocked_tokens :: esdt_payment

record unstake_storage = energy_query_storage +
  unbond_epochs :: u64
  fees_burn_percentage :: u64
  unstake_fees_collector_address :: "address option"
  unlocked_tokens_for_user :: "address \<Rightarrow> unstake_pair list"

text \<open>
  The attributes of a locked token at the protocol, and the two calls of other contracts.
  \<open>call_revert_unstake\<close> changes the energy factory, so it works on a state of its own.
\<close>

record unstake_env = energy_query_env +
  locked_attributes :: "token_id \<Rightarrow> u64 \<Rightarrow> error + locked_token_attributes"
  call_deposit_swap_fees :: "address \<Rightarrow> esdt_payment list \<Rightarrow> error + unit"

definition MAX_UNSTAKE_PENALTY_PERCENTAGE :: u64 where
  "MAX_UNSTAKE_PENALTY_PERCENTAGE = 10000"

section \<open>lib.rs\<close>

definition token_unstake_init ::
  "unstake_env \<Rightarrow> unstake_storage \<Rightarrow> u64 \<Rightarrow> address \<Rightarrow> u64 \<Rightarrow> address \<Rightarrow> error + unstake_storage" where
  "token_unstake_init env st epochs factory burn_percentage collector =
     require_sc_address env factory
    (require_sc_address env collector
    (require (burn_percentage \<le> MAX_UNSTAKE_PENALTY_PERCENTAGE) (SignalError ''Invalid percentage'')
    (Inr (st\<lparr>unbond_epochs := epochs, energy_factory_address := Some factory,
            unstake_fees_collector_address := Some collector,
            fees_burn_percentage := burn_percentage\<rparr>))))"

section \<open>fees_handler.rs\<close>

definition deposit_user_tokens ::
  "unstake_env \<Rightarrow> unstake_storage \<Rightarrow> esdt_payment list \<Rightarrow> address \<Rightarrow> error + unstake_storage" where
  "deposit_user_tokens env st ps user =
     and_then (get_energy_factory_address st) (\<lambda>factory.
     require (get_caller env = factory)
       (SignalError ''Only energy factory SC can call this endpoint'')
    (and_then (multi_esdt2 ps) (\<lambda>(locked_tokens, unlocked_tokens).
     let unlock = get_block_epoch env + unbond_epochs st;
         pair = \<lparr>pair_unlock_epoch = unlock, pair_locked_tokens = locked_tokens,
                 pair_unlocked_tokens = unlocked_tokens\<rparr> in
     Inr (st\<lparr>unlocked_tokens_for_user :=
            (unlocked_tokens_for_user st)(user := unlocked_tokens_for_user st user @ [pair])\<rparr>))))"

definition send_fees_to_collector ::
  "unstake_env \<Rightarrow> unstake_storage \<Rightarrow> esdt_payment \<Rightarrow> error + effect list" where
  "send_fees_to_collector env st p =
     (if amount p = 0 then Inr []
      else
        case unstake_fees_collector_address st of
          None \<Rightarrow> Inl STORAGE_DECODE_ERROR
        | Some collector \<Rightarrow>
            and_then (call_deposit_swap_fees env collector [p]) (\<lambda>_.
            Inr [ExecuteOnDest collector ''depositSwapFees'' [p]]))"

definition burn_penalty ::
  "unstake_env \<Rightarrow> unstake_storage \<Rightarrow> esdt_payment \<Rightarrow> error + effect list" where
  "burn_penalty env st p =
     (let burn_amount =
        amount p * unat (fees_burn_percentage st) div unat MAX_UNSTAKE_PENALTY_PERCENTAGE in
      and_then (big_sub (amount p) burn_amount) (\<lambda>remaining_amount.
      let es = esdt_local_burn (token_identifier p) (token_nonce p) burn_amount in
      and_then (send_fees_to_collector env st
                 (new_payment (token_identifier p) (token_nonce p) remaining_amount)) (\<lambda>es'.
      Inr (es @ es'))))"

definition deposit_fees ::
  "unstake_env \<Rightarrow> unstake_storage \<Rightarrow> esdt_payment list \<Rightarrow> error + effect list" where
  "deposit_fees env st ps =
     and_then (get_energy_factory_address st) (\<lambda>factory.
     require (get_caller env = factory) (SignalError ''Only energy factory may deposit fees'')
    (and_then (single_esdt ps) (\<lambda>p.
     and_then (query_locked_token_id env st) (\<lambda>locked_id.
     require (token_identifier p = locked_id) (SignalError ''Invalid token'')
       (burn_penalty env st p)))))"

section \<open>unbond_tokens.rs\<close>

text \<open>
  The loop takes entries from the front while they are due: what it pays out, what is left
  over as penalty, the entries that stay, and the burns.
\<close>

fun claim_loop ::
  "u64 \<Rightarrow> unstake_pair list \<Rightarrow>
     error + (esdt_payment list \<times> esdt_payment list \<times> unstake_pair list \<times> effect list)" where
  "claim_loop current_epoch [] = Inr ([], [], [], [])"
| "claim_loop current_epoch (entry # entries) =
     (if current_epoch < pair_unlock_epoch entry then Inr ([], [], entry # entries, [])
      else
        let locked = pair_locked_tokens entry;
            unlocked = pair_unlocked_tokens entry;
            es = esdt_local_burn (token_identifier locked) (token_nonce locked) (amount unlocked) in
        and_then (big_sub (amount locked) (amount unlocked)) (\<lambda>penalty_amount.
        and_then (claim_loop current_epoch entries) (\<lambda>(outputs, penalties, rest, es').
        Inr (unlocked # outputs,
             (if 0 < penalty_amount
              then new_payment (token_identifier locked) (token_nonce locked) penalty_amount # penalties
              else penalties),
             rest, es @ es'))))"

fun burn_penalties ::
  "unstake_env \<Rightarrow> unstake_storage \<Rightarrow> esdt_payment list \<Rightarrow> error + effect list" where
  "burn_penalties env st [] = Inr []"
| "burn_penalties env st (p # ps) =
     and_then (burn_penalty env st p) (\<lambda>es.
     and_then (burn_penalties env st ps) (\<lambda>es'. Inr (es @ es')))"

definition claim_unlocked_tokens ::
  "unstake_env \<Rightarrow> unstake_storage \<Rightarrow> error + (esdt_payment list \<times> unstake_storage \<times> effect list)" where
  "claim_unlocked_tokens env st =
     (let caller = get_caller env in
      and_then (claim_loop (get_block_epoch env) (unlocked_tokens_for_user st caller))
        (\<lambda>(output_payments, penalty_tokens, rest, es).
      let st = st\<lparr>unlocked_tokens_for_user := (unlocked_tokens_for_user st)(caller := rest)\<rparr> in
      require (output_payments \<noteq> []) (SignalError ''Nothing to unbond'')
     (and_then (burn_penalties env st penalty_tokens) (\<lambda>es'.
      Inr (output_payments, st, es @ es' @ [DirectSend caller output_payments])))))"

section \<open>cancel_unstake.rs\<close>

fun cancel_loop ::
  "unstake_env \<Rightarrow> unstake_pair list \<Rightarrow> energy \<Rightarrow>
     error + (esdt_payment list \<times> energy \<times> effect list)" where
  "cancel_loop env [] e = Inr ([], e, [])"
| "cancel_loop env (entry # entries) e =
     (let current_epoch = get_block_epoch env;
          locked = pair_locked_tokens entry;
          unlocked = pair_unlocked_tokens entry in
      and_then (locked_attributes env (token_identifier locked) (token_nonce locked)) (\<lambda>attributes.
      and_then
        (if current_epoch \<le> unlock_epoch attributes
         then Inr (add_after_token_lock e (amount locked) (unlock_epoch attributes) current_epoch)
         else
           let epoch_diff = current_epoch - unlock_epoch attributes;
               energy_to_reduce = amount locked * unat epoch_diff in
           remove_energy_raw (add_energy_raw e (amount locked) 0) 0 energy_to_reduce) (\<lambda>e.
      and_then (cancel_loop env entries e) (\<lambda>(outputs, e, es).
      Inr (locked # outputs, e,
           esdt_local_burn (token_identifier unlocked) 0 (amount unlocked) @ es)))))"

definition cancel_unbond ::
  "unstake_env \<Rightarrow> (address \<Rightarrow> address \<Rightarrow> energy \<Rightarrow> 'f \<Rightarrow> error + 'f) \<Rightarrow> unstake_storage \<Rightarrow> 'f \<Rightarrow>
     error + (esdt_payment list \<times> unstake_storage \<times> 'f \<times> effect list)" where
  "cancel_unbond env call_revert_unstake st f =
     (let caller = get_caller env;
          e = get_energy_entry env st caller;
          user_entries = unlocked_tokens_for_user st caller in
      require (user_entries \<noteq> []) (SignalError ''No tokens to unbond'')
     (and_then (cancel_loop env user_entries e) (\<lambda>(output_payments, e, es).
      let st = st\<lparr>unlocked_tokens_for_user := (unlocked_tokens_for_user st)(caller := [])\<rparr> in
      and_then (get_energy_factory_address st) (\<lambda>sc_address.
      and_then (call_revert_unstake sc_address caller e f) (\<lambda>f.
      Inr (output_payments, st, f, es @ [DirectSend caller output_payments]))))))"

section \<open>What the contract owes\<close>

definition pair_holds :: "token_id \<Rightarrow> unstake_pair \<Rightarrow> biguint" where
  "pair_holds t x = paid_in t [pair_locked_tokens x, pair_unlocked_tokens x]"

definition entries_hold :: "token_id \<Rightarrow> unstake_pair list \<Rightarrow> biguint" where
  "entries_hold t xs = sum_list (map (pair_holds t) xs)"

lemma entries_hold_simps [simp]:
  "entries_hold t [] = 0"
  "entries_hold t (x # xs) = pair_holds t x + entries_hold t xs"
  "entries_hold t (xs @ ys) = entries_hold t xs + entries_hold t ys"
  by (simp_all add: entries_hold_def)

lemma burn_penalty_flow:
  assumes "burn_penalty env st p = Inr es"
  shows "outflow t es = paid_in t [p]" and "inflow t es = 0"
  using assms
  by (auto simp: burn_penalty_def send_fees_to_collector_def Let_def res_simps split: if_splits option.splits)

lemma burn_penalties_flow:
  "burn_penalties env st ps = Inr es \<Longrightarrow> outflow t es = paid_in t ps \<and> inflow t es = 0"
  by (induction ps arbitrary: es) (auto simp: res_simps burn_penalty_flow)

lemma claim_loop_flow:
  "claim_loop c xs = Inr (outputs, penalties, rest, es) \<Longrightarrow>
   entries_hold t xs = paid_in t outputs + paid_in t penalties + outflow t es + entries_hold t rest \<and>
   inflow t es = 0"
proof (induction c xs arbitrary: outputs penalties rest es rule: claim_loop.induct)
  case (2 c x xs)
  show ?case
  proof (cases "c < pair_unlock_epoch x")
    case False
    with "2.prems" obtain outputs' penalties' es' where r: "claim_loop c xs = Inr (outputs', penalties', rest, es')"
      and o: "outputs = pair_unlocked_tokens x # outputs'" "amount (pair_unlocked_tokens x) \<le> amount (pair_locked_tokens x)"
      "penalties = (if 0 < amount (pair_locked_tokens x) - amount (pair_unlocked_tokens x)
        then new_payment (token_identifier (pair_locked_tokens x)) (token_nonce (pair_locked_tokens x))
          (amount (pair_locked_tokens x) - amount (pair_unlocked_tokens x)) # penalties' else penalties')"
      "es = esdt_local_burn (token_identifier (pair_locked_tokens x)) (token_nonce (pair_locked_tokens x))
        (amount (pair_unlocked_tokens x)) @ es'"
      by (auto simp: Let_def res_simps)
    have "entries_hold t xs = paid_in t outputs' + paid_in t penalties' + outflow t es' + entries_hold t rest"
      "inflow t es' = 0"
      using "2.IH" [OF False refl refl refl _ r] o(2) by auto
    then show ?thesis using o by (auto simp: pair_holds_def)
  qed (use "2.prems" in auto)
qed simp

lemma cancel_loop_flow:
  assumes "cancel_loop env xs e = Inr (outputs, e', es)"
  shows "entries_hold t xs = paid_in t outputs + outflow t es \<and> inflow t es = 0 \<and>
    outputs = map pair_locked_tokens xs"
  using assms
  by (induction xs arbitrary: e outputs e' es) (auto simp: Let_def res_simps pair_holds_def)

end
