(* ===== verification/UnstakeFacts.thy ===== *)
theory UnstakeFacts
  imports TokenUnstake EnergyCalls
begin

text \<open>
  The calls of the token unstake contract as one step function, what they keep, and their
  composition with the energy factory: an early exit and its cancellation.
\<close>

section \<open>Calls\<close>

datatype unstake_call =
    DepositUserTokens "esdt_payment list" address
  | DepositFees "esdt_payment list"
  | ClaimUnlockedTokens
  | CancelUnbond

fun unstake_payments :: "unstake_call \<Rightarrow> esdt_payment list" where
  "unstake_payments (DepositUserTokens ps user) = ps"
| "unstake_payments (DepositFees ps) = ps"
| "unstake_payments ClaimUnlockedTokens = []"
| "unstake_payments CancelUnbond = []"

fun unstake_user :: "unstake_env \<Rightarrow> unstake_call \<Rightarrow> address" where
  "unstake_user env (DepositUserTokens ps user) = user"
| "unstake_user env call = get_caller env"

fun unstake_exec ::
  "unstake_env \<Rightarrow> (address \<Rightarrow> address \<Rightarrow> energy \<Rightarrow> 'f \<Rightarrow> error + 'f) \<Rightarrow> unstake_storage \<Rightarrow> 'f \<Rightarrow>
     unstake_call \<Rightarrow> error + (esdt_payment list \<times> unstake_storage \<times> 'f \<times> effect list)" where
  "unstake_exec env revert st f (DepositUserTokens ps user) =
     and_then (deposit_user_tokens env st ps user) (\<lambda>st. Inr ([], st, f, []))"
| "unstake_exec env revert st f (DepositFees ps) =
     and_then (deposit_fees env st ps) (\<lambda>es. Inr ([], st, f, es))"
| "unstake_exec env revert st f ClaimUnlockedTokens =
     and_then (claim_unlocked_tokens env st) (\<lambda>(qs, st, es). Inr (qs, st, f, es))"
| "unstake_exec env revert st f CancelUnbond = cancel_unbond env revert st f"

text \<open>Entries of other users never change; of the payments, what is not owed to the user leaves.\<close>

lemma unstake_exec_flow:
  assumes "unstake_exec env revert st f call = Inr (qs, st', f', es)"
  shows "paid_in t (unstake_payments call) + entries_hold t (unlocked_tokens_for_user st (unstake_user env call)) =
      outflow t es + entries_hold t (unlocked_tokens_for_user st' (unstake_user env call))"
    and "inflow t es = 0"
    and "v \<noteq> unstake_user env call \<Longrightarrow> unlocked_tokens_for_user st' v = unlocked_tokens_for_user st v"
proof -
  have "paid_in t (unstake_payments call) + entries_hold t (unlocked_tokens_for_user st (unstake_user env call)) =
      outflow t es + entries_hold t (unlocked_tokens_for_user st' (unstake_user env call)) \<and>
    inflow t es = 0 \<and> (\<forall>v. v \<noteq> unstake_user env call \<longrightarrow>
      unlocked_tokens_for_user st' v = unlocked_tokens_for_user st v)"
  proof (cases call)
    case (DepositUserTokens ps user)
    with assms show ?thesis
      by (auto simp: deposit_user_tokens_def Let_def res_simps pair_holds_def)
  next
    case (DepositFees ps)
    with assms show ?thesis
      by (auto simp: deposit_fees_def res_simps burn_penalty_flow)
  next
    case ClaimUnlockedTokens
    let ?xs = "unlocked_tokens_for_user st (get_caller env)"
    obtain pens rest es1 es2 where c: "claim_loop (get_block_epoch env) ?xs = Inr (qs, pens, rest, es1)"
      and b: "burn_penalties env (st\<lparr>unlocked_tokens_for_user :=
        (unlocked_tokens_for_user st)(get_caller env := rest)\<rparr>) pens = Inr es2"
      and st': "st' = st\<lparr>unlocked_tokens_for_user := (unlocked_tokens_for_user st)(get_caller env := rest)\<rparr>"
      and es: "es = es1 @ es2 @ [DirectSend (get_caller env) qs]"
      using assms ClaimUnlockedTokens by (auto simp: claim_unlocked_tokens_def Let_def res_simps)
    show ?thesis
      using claim_loop_flow [OF c, of t] burn_penalties_flow [OF b, of t]
      by (simp add: ClaimUnlockedTokens st' es)
  next
    case CancelUnbond
    let ?xs = "unlocked_tokens_for_user st (get_caller env)"
    obtain e es1 where c: "cancel_loop env ?xs (get_energy_entry env st (get_caller env)) = Inr (qs, e, es1)"
      and st': "st' = st\<lparr>unlocked_tokens_for_user := (unlocked_tokens_for_user st)(get_caller env := [])\<rparr>"
      and es: "es = es1 @ [DirectSend (get_caller env) qs]"
      using assms CancelUnbond by (auto simp: cancel_unbond_def Let_def res_simps)
    show ?thesis
      using cancel_loop_flow [OF c, of t] by (simp add: CancelUnbond st' es)
  qed
  then show "paid_in t (unstake_payments call) + entries_hold t (unlocked_tokens_for_user st (unstake_user env call)) =
      outflow t es + entries_hold t (unlocked_tokens_for_user st' (unstake_user env call))"
    and "inflow t es = 0"
    and "v \<noteq> unstake_user env call \<Longrightarrow> unlocked_tokens_for_user st' v = unlocked_tokens_for_user st v"
    by auto
qed

section \<open>Claims\<close>

text \<open>
  Entries are made in order of time with one unbonding period, so they are due in order; and
  the base asset of an entry is at most its locked amount.
\<close>

definition pair_due :: "u64 \<Rightarrow> unstake_pair \<Rightarrow> bool" where
  "pair_due c x \<longleftrightarrow> pair_unlock_epoch x \<le> c"

definition entries_ok :: "unstake_pair list \<Rightarrow> bool" where
  "entries_ok xs \<longleftrightarrow> sorted (map pair_unlock_epoch xs) \<and>
     (\<forall>x\<in>set xs. amount (pair_unlocked_tokens x) \<le> amount (pair_locked_tokens x))"

lemma claim_loop_due:
  assumes "entries_ok xs"
  shows "\<exists>penalties es. claim_loop c xs =
    Inr (map pair_unlocked_tokens (filter (pair_due c) xs), penalties, filter (\<lambda>x. \<not> pair_due c x) xs, es)"
  using assms
proof (induction xs)
  case (Cons x xs)
  have IH: "\<exists>penalties es. claim_loop c xs =
    Inr (map pair_unlocked_tokens (filter (pair_due c) xs), penalties, filter (\<lambda>x. \<not> pair_due c x) xs, es)"
    using Cons by (simp add: entries_ok_def)
  show ?case
  proof (cases "c < pair_unlock_epoch x")
    case True
    then have "\<not> pair_due c y" if "y \<in> set (x # xs)" for y
      using Cons.prems that by (auto simp: entries_ok_def pair_due_def)
    then have "filter (pair_due c) (x # xs) = []" "filter (\<lambda>y. \<not> pair_due c y) (x # xs) = x # xs"
      by (simp_all add: filter_empty_conv)
    with True show ?thesis by simp
  next
    case False
    then have "pair_due c x" by (simp add: pair_due_def)
    with False IH Cons.prems show ?thesis by (auto simp: entries_ok_def Let_def)
  qed
qed simp

lemma burn_penalties_total:
  assumes "unstake_fees_collector_address st = Some a" "\<And>ps. call_deposit_swap_fees env a ps = Inr ()"
    and "fees_burn_percentage st \<le> MAX_UNSTAKE_PENALTY_PERCENTAGE"
  shows "\<exists>es. burn_penalties env st ps = Inr es"
proof (induction ps)
  case (Cons p ps)
  have "unat (fees_burn_percentage st) \<le> 10000"
    using assms(3) by (simp add: MAX_UNSTAKE_PENALTY_PERCENTAGE_def word_le_nat_alt)
  then have "amount p * unat (fees_burn_percentage st) div 10000 \<le> amount p"
    by (intro div_le_of_le_mult) simp
  with Cons assms(1,2) show ?case
    by (auto simp: burn_penalty_def send_fees_to_collector_def Let_def MAX_UNSTAKE_PENALTY_PERCENTAGE_def)
qed simp

text \<open>
  The invariant at epoch \<open>c\<close>: no entry is due later than the unbonding period from now. It
  makes a new entry the last one.
\<close>

definition unstake_inv :: "u64 \<Rightarrow> unstake_storage \<Rightarrow> bool" where
  "unstake_inv c st \<longleftrightarrow>
     (\<forall>user. entries_ok (unlocked_tokens_for_user st user) \<and>
       (\<forall>x\<in>set (unlocked_tokens_for_user st user). pair_unlock_epoch x \<le> c + unbond_epochs st))"

text \<open>The factory deposits at most the locked amount of the base asset.\<close>

fun deposit_ok :: "unstake_call \<Rightarrow> bool" where
  "deposit_ok (DepositUserTokens ps user) \<longleftrightarrow>
     (case ps of [locked, unlocked] \<Rightarrow> amount unlocked \<le> amount locked | _ \<Rightarrow> True)"
| "deposit_ok call \<longleftrightarrow> True"

lemma unstake_inv_later:
  assumes "unstake_inv c st" "c \<le> d" "unat d + unat (unbond_epochs st) < 2 ^ 64"
  shows "unstake_inv d st"
proof -
  have "c + unbond_epochs st \<le> d + unbond_epochs st"
    using assms(2,3) by (simp add: word_le_nat_alt unat_word_ariths)
  then show ?thesis using assms(1) by (force simp: unstake_inv_def intro: order_trans)
qed

lemma entries_ok_filter: "entries_ok xs \<Longrightarrow> entries_ok (filter P xs)"
  by (auto simp: entries_ok_def sorted_filter)

lemma unstake_exec_inv:
  assumes "unstake_exec env revert st f call = Inr (qs, st', f', es)"
    and "unstake_inv (get_block_epoch env) st" "deposit_ok call"
  shows "unstake_inv (get_block_epoch env) st'"
proof (cases call)
  case (DepositUserTokens ps user)
  then show ?thesis
    using assms
    by (auto simp: deposit_user_tokens_def Let_def res_simps unstake_inv_def entries_ok_def sorted_append
        split: if_splits)
next
  case (DepositFees ps)
  with assms show ?thesis by (auto simp: res_simps)
next
  case ClaimUnlockedTokens
  then obtain pens rest es1 where
    c: "claim_loop (get_block_epoch env) (unlocked_tokens_for_user st (get_caller env)) = Inr (qs, pens, rest, es1)"
    and st': "st' = st\<lparr>unlocked_tokens_for_user := (unlocked_tokens_for_user st)(get_caller env := rest)\<rparr>"
    using assms(1) by (auto simp: claim_unlocked_tokens_def Let_def res_simps)
  have "entries_ok (unlocked_tokens_for_user st (get_caller env))"
    using assms(2) by (simp add: unstake_inv_def)
  from claim_loop_due [OF this, of "get_block_epoch env"] c
  have "rest = filter (\<lambda>x. \<not> pair_due (get_block_epoch env) x) (unlocked_tokens_for_user st (get_caller env))"
    by auto
  then show ?thesis using assms(2) by (auto simp: unstake_inv_def st' entries_ok_filter)
next
  case CancelUnbond
  with assms show ?thesis
    by (auto simp: cancel_unbond_def Let_def res_simps unstake_inv_def entries_ok_def split: if_splits)
qed

section \<open>Cancelling, with the energy factory\<close>

text \<open>The endpoint \<open>revertUnstake\<close> of the factory, called by the contract.\<close>

definition factory_revert ::
  "factory_env \<Rightarrow> address \<Rightarrow> address \<Rightarrow> energy \<Rightarrow> factory_storage \<Rightarrow> error + factory_storage" where
  "factory_revert fenv sc_address user e f =
     and_then (revert_unstake fenv f user e) (\<lambda>(_, f, es). Inr f)"

text \<open>What the contract reads at the factory's address is the factory's storage.\<close>

definition reads_factory :: "unstake_env \<Rightarrow> factory_env \<Rightarrow> unstake_storage \<Rightarrow> factory_storage \<Rightarrow> bool" where
  "reads_factory env fenv st f \<longleftrightarrow>
     (\<exists>a. energy_factory_address st = Some a \<and> read_user_energy env a = user_energy f) \<and>
     get_block_epoch env = get_block_epoch fenv \<and>
     locked_attributes env = (\<lambda>t. get_token_attributes f)"

lemma cancel_loop_exact:
  assumes "cancel_loop env xs e = Inr (qs, e', es)"
    and attrs: "locked_attributes env = (\<lambda>t. get_token_attributes f)"
    and "exact e P" "last_update_epoch e = get_block_epoch env"
  shows "exact e' (positions_of f (map pair_locked_tokens xs) + P) \<and>
    last_update_epoch e' = get_block_epoch env"
  using assms(1,3,4)
proof (induction xs arbitrary: e P qs es)
  case (Cons x xs)
  let ?p = "pair_locked_tokens x" and ?c = "get_block_epoch env"
  obtain a e1 qs1 es1 where a: "created_attributes f (token_nonce ?p) = Some a"
    and e1: "e1 = (if ?c \<le> unlock_epoch a then add_after_token_lock e (amount ?p) (unlock_epoch a) ?c
       else e\<lparr>total_locked_tokens := total_locked_tokens e + amount ?p,
         energy_amount := energy_amount e - int (amount ?p * unat (?c - unlock_epoch a))\<rparr>)"
    and rest: "cancel_loop env xs e1 = Inr (qs1, e', es1)"
    using Cons.prems(1)
    by (auto simp: Let_def and_then_Inr attrs get_token_attributes_Inr remove_energy_raw_def
        add_energy_raw_def split: if_splits)
  have "exact e1 (add_mset (position_of f ?p) P)" "last_update_epoch e1 = ?c"
    using exact_add_after_token_lock [OF Cons.prems(2), of ?c "unlock_epoch a" "amount ?p"] Cons.prems(2,3)
    by (auto simp: e1 position_of_def a exact_def uint_diff algebra_simps)
  from Cons.IH [OF rest this] show ?case by simp
qed simp

lemma factory_revert_Inr [res_simps]:
  "factory_revert fenv sc user e f = Inr f' \<longleftrightarrow>
     \<not> paused f \<and> token_unstake_sc_address f = Some (get_caller fenv) \<and>
     f' = f\<lparr>user_energy := set_energy_entry (user_energy f) user e\<rparr>"
  by (auto simp: factory_revert_def revert_unstake_def require_not_paused_def require_caller_unstake_sc_def
      get_token_unstake_sc_address_def res_simps split: option.splits)

text \<open>
  Cancelling gives the locked tokens back and moves their positions into the energy of the
  user; the factory changes in nothing else.
\<close>

lemma cancel_unbond_restores:
  assumes run: "cancel_unbond env (factory_revert fenv) st f = Inr (qs, st', f', es)"
    and link: "reads_factory env fenv st f"
    and entry: "entry_exact fenv f (get_caller env) P"
  shows "qs = map pair_locked_tokens (unlocked_tokens_for_user st (get_caller env))"
    and "unlocked_tokens_for_user st' = (unlocked_tokens_for_user st)(get_caller env := [])"
    and "entry_exact fenv f' (get_caller env) (positions_of f qs + P)"
    and "f' = f\<lparr>user_energy := user_energy f'\<rparr>"
    and "v \<noteq> get_caller env \<Longrightarrow> user_energy f' v = user_energy f v"
proof -
  let ?user = "get_caller env"
  obtain e es1 where loop: "cancel_loop env (unlocked_tokens_for_user st ?user) (get_energy_entry env st ?user) =
      Inr (qs, e, es1)"
    and st': "st' = st\<lparr>unlocked_tokens_for_user := (unlocked_tokens_for_user st)(?user := [])\<rparr>"
    and f': "f' = f\<lparr>user_energy := set_energy_entry (user_energy f) ?user e\<rparr>"
    using run by (auto simp: cancel_unbond_def Let_def and_then_Inr require_Inr factory_revert_Inr)
  obtain a where "energy_factory_address st = Some a" "read_user_energy env a = user_energy f"
    and epochs: "get_block_epoch env = get_block_epoch fenv"
    and attrs: "locked_attributes env = (\<lambda>t. get_token_attributes f)"
    using link by (auto simp: reads_factory_def)
  then have "get_energy_entry env st ?user = get_updated_energy_entry_for_user fenv (user_energy f) ?user"
    by (intro get_energy_entry_of_factory)
  moreover have "exact (get_updated_energy_entry_for_user fenv (user_energy f) ?user) P"
    using exact_updated_entry(1) [where user_energy = "user_energy f" and user = ?user and env = fenv and P = P]
      entry by (simp add: entry_exact_def split: option.splits)
  ultimately have "exact (get_energy_entry env st ?user) P" by simp
  from cancel_loop_exact [OF loop attrs this] cancel_loop_flow [OF loop]
  show "qs = map pair_locked_tokens (unlocked_tokens_for_user st ?user)"
    and "entry_exact fenv f' ?user (positions_of f qs + P)"
    by (simp_all add: entry_exact_def f' set_energy_entry_def epochs)
  show "unlocked_tokens_for_user st' = (unlocked_tokens_for_user st)(?user := [])"
    by (simp add: st')
  show "f' = f\<lparr>user_energy := user_energy f'\<rparr>" by (simp add: f')
  show "v \<noteq> ?user \<Longrightarrow> user_energy f' v = user_energy f v"
    by (simp add: f' set_energy_entry_def)
qed

section \<open>An early exit\<close>

text \<open>
  The call of \<open>depositUserTokens\<close> that an early exit from the factory makes reaches the
  contract; the other effects of the factory do not concern it.
\<close>

fun deliver_deposits :: "unstake_env \<Rightarrow> unstake_storage \<Rightarrow> effect list \<Rightarrow> error + unstake_storage" where
  "deliver_deposits env st [] = Inr st"
| "deliver_deposits env st (ExecuteOnDestFor sc endpoint user ps # es) =
     (if sc = get_sc_address env \<and> endpoint = ''depositUserTokens''
      then and_then (deposit_user_tokens env st ps user) (\<lambda>st. deliver_deposits env st es)
      else deliver_deposits env st es)"
| "deliver_deposits env st (e # es) = deliver_deposits env st es"

definition leave_early ::
  "factory_env \<Rightarrow> unstake_env \<Rightarrow> factory_storage \<Rightarrow> unstake_storage \<Rightarrow> esdt_payment list \<Rightarrow>
     error + (factory_storage \<times> unstake_storage)" where
  "leave_early fenv env f st ps =
     and_then (unlock_early fenv f ps) (\<lambda>(_, f, es).
     and_then (deliver_deposits env st es) (\<lambda>st. Inr (f, st)))"

lemma leave_early_adds_an_entry:
  assumes run: "leave_early fenv env f st ps = Inr (f', st')" and inv: "factory_inv f"
    and sc: "token_unstake_sc_address f = Some (get_sc_address env)"
    and entry: "entry_exact fenv f (get_caller fenv) (positions_of f ps + P)"
  obtains p q where "ps = [p]"
    and "unlocked_tokens_for_user st' = (unlocked_tokens_for_user st)(get_caller fenv :=
      unlocked_tokens_for_user st (get_caller fenv) @
        [\<lparr>pair_unlock_epoch = get_block_epoch env + unbond_epochs st, pair_locked_tokens = p,
          pair_unlocked_tokens = q\<rparr>])"
    and "entry_exact fenv f' (get_caller fenv) P"
    and "positions_of f' ps = positions_of f ps" and "token_nonce q = 0"
    and "token_identifier q = base_asset_token_id f" and "0 < amount q" "amount q \<le> amount p"
proof -
  obtain x es where early: "unlock_early fenv f ps = Inr (x, f', es)"
    and deliver: "deliver_deposits env st es = Inr st'"
    using run by (auto simp: leave_early_def and_then_Inr)
  from early inv show thesis
  proof (rule unlock_early_step, goal_cases)
    case (1 p pen sc')
    have "entry_exact fenv f' (get_caller fenv) P"
      using 1(7) entry by (auto simp: step_ok_def moves_energy_def 1(1))
    moreover have "created_attributes f (token_nonce p) \<noteq> None"
      using 1(3) by (auto simp: position_of_def split: option.splits)
    then have "position_of f' p = position_of f p"
      using 1(7) by (auto simp: step_ok_def dest: keeps_storage_position)
    ultimately show thesis
      using deliver 1 sc
      by (intro that [of p "new_payment (base_asset_token_id f) 0 (amount p - pen)"])
        (auto simp: deposit_user_tokens_def Let_def res_simps)
  qed
qed

lemma unlock_early_changes_energy:
  assumes "unlock_early fenv f ps = Inr (x, f', es)"
  shows "f' = f\<lparr>user_energy := user_energy f'\<rparr>" and "\<not> paused f"
  using assms by (auto simp: unlock_early_def require_not_paused_def Let_def res_simps)

lemma leave_early_known:
  assumes "leave_early fenv env f st [p] = Inr (f', st')" "factory_inv f"
  shows "created_attributes f (token_nonce p) \<noteq> None" "f' = f\<lparr>user_energy := user_energy f'\<rparr>"
proof -
  obtain y es where early: "unlock_early fenv f [p] = Inr (y, f', es)"
    using assms(1) by (auto simp: leave_early_def and_then_Inr)
  show "f' = f\<lparr>user_energy := user_energy f'\<rparr>" by (rule unlock_early_changes_energy(1) [OF early])
  from early assms(2) show "created_attributes f (token_nonce p) \<noteq> None"
  proof (rule unlock_early_step, goal_cases)
    case (1 q pen sc')
    then show ?case by (auto simp: position_of_def split: option.splits)
  qed
qed

text \<open>Nothing can stop a cancellation while the factory is active and knows the tokens of all entries.\<close>

definition entry_burns :: "unstake_pair \<Rightarrow> effect list" where
  "entry_burns x = esdt_local_burn (token_identifier (pair_unlocked_tokens x)) 0 (amount (pair_unlocked_tokens x))"

lemma cancel_loop_returns:
  assumes "locked_attributes env = (\<lambda>t. get_token_attributes f)"
    and "\<forall>x\<in>set xs. created_attributes f (token_nonce (pair_locked_tokens x)) \<noteq> None"
  shows "\<exists>e'. cancel_loop env xs e = Inr (map pair_locked_tokens xs, e', concat (map entry_burns xs))"
  using assms(2)
proof (induction xs arbitrary: e)
  case (Cons x xs)
  then obtain a where a: "created_attributes f (token_nonce (pair_locked_tokens x)) = Some a" by auto
  have rest: "\<exists>e'. cancel_loop env xs e = Inr (map pair_locked_tokens xs, e', concat (map entry_burns xs))" for e
    using Cons by simp
  define n where "n = amount (pair_locked_tokens x) * unat (get_block_epoch env - unlock_epoch a)"
  show ?case
    using rest [of "add_after_token_lock e (amount (pair_locked_tokens x)) (unlock_epoch a) (get_block_epoch env)"]
      rest [of "(add_energy_raw e (amount (pair_locked_tokens x)) 0)\<lparr>energy_amount :=
        energy_amount (add_energy_raw e (amount (pair_locked_tokens x)) 0) - int n\<rparr>"]
    by (auto simp: Let_def assms(1) get_token_attributes_def a remove_energy_raw_def entry_burns_def [of x] n_def)
qed simp

lemma cancel_unbond_returns:
  assumes link: "reads_factory env fenv st f" and sc: "token_unstake_sc_address f = Some (get_caller fenv)"
    and live: "\<not> paused f" and entries: "unlocked_tokens_for_user st (get_caller env) = xs" "xs \<noteq> []"
    and known: "\<forall>x\<in>set xs. created_attributes f (token_nonce (pair_locked_tokens x)) \<noteq> None"
  shows "\<exists>st' f'. cancel_unbond env (factory_revert fenv) st f = Inr (map pair_locked_tokens xs, st', f',
    concat (map entry_burns xs) @ [DirectSend (get_caller env) (map pair_locked_tokens xs)])"
proof -
  obtain e where "cancel_loop env xs (get_energy_entry env st (get_caller env)) =
      Inr (map pair_locked_tokens xs, e, concat (map entry_burns xs))"
    using cancel_loop_returns [OF _ known] link by (auto simp: reads_factory_def)
  then show ?thesis
    using link sc live entries
    by (auto simp: cancel_unbond_def Let_def reads_factory_def get_energy_factory_address_def factory_revert_def
        revert_unstake_def require_not_paused_def require_caller_unstake_sc_def get_token_unstake_sc_address_def)
qed

section \<open>An example\<close>

text \<open>The contract at address 4 of the example factory, with an unbonding period of ten epochs.\<close>

definition ex_unstake :: unstake_storage where
  "ex_unstake = \<lparr>energy_factory_address = Some 1, unbond_epochs = 10, fees_burn_percentage = 2000,
     unstake_fees_collector_address = Some 3, unlocked_tokens_for_user = (\<lambda>u. [])\<rparr>"

definition ex_unstake_env :: "address \<Rightarrow> u64 \<Rightarrow> factory_storage \<Rightarrow> unstake_env" where
  "ex_unstake_env caller c f = \<lparr>get_caller = caller, get_sc_address = 4, get_owner_address = 2,
     get_block_epoch = c, get_block_round = 0, get_block_nonce = 0, get_block_timestamp = 0,
     is_smart_contract = (\<lambda>a. a < 5), is_valid_esdt_identifier = (\<lambda>t. True),
     read_user_energy = (\<lambda>a. user_energy f), read_base_token_id = (\<lambda>a. ''MEX''),
     read_locked_token_id = (\<lambda>a. ''XMEX''),
     locked_attributes = (\<lambda>t. get_token_attributes f), call_deposit_swap_fees = (\<lambda>a ps. Inr ())\<rparr>"

lemmas unstake_eval =
  ex_unstake_def ex_unstake_env_def leave_early_def deposit_user_tokens_def
  get_energy_factory_address_def multi_esdt2_def claim_unlocked_tokens_def burn_penalty_def
  send_fees_to_collector_def MAX_UNSTAKE_PENALTY_PERCENTAGE_def

lemma ex_leave_run:
  "\<exists>f1 st1. leave_early ex_factory_env (ex_unstake_env 1 1000 ex_factory) ex_factory ex_unstake
     [ex_locked 1 100] = Inr (f1, st1) \<and> energy_factory_address st1 = Some 1"
  by (simp add: unstake_eval factory_call_eval factory_energy_eval ex_factory_eval)

definition ex_unstake_waiting :: unstake_storage where
  "ex_unstake_waiting = ex_unstake\<lparr>unlocked_tokens_for_user := (\<lambda>u. [])(7 :=
     [\<lparr>pair_unlock_epoch = 1010, pair_locked_tokens = ex_locked 1 100,
       pair_unlocked_tokens = new_payment ''MEX'' 0 61\<rparr>,
      \<lparr>pair_unlock_epoch = 1020, pair_locked_tokens = ex_locked 2 300,
       pair_unlocked_tokens = new_payment ''MEX'' 0 130\<rparr>])\<rparr>"

lemma ex_unstake_waiting_ok:
  "entries_ok (unlocked_tokens_for_user ex_unstake_waiting 7)" "unstake_inv 1015 ex_unstake_waiting"
  by (auto simp: entries_ok_def unstake_inv_def ex_unstake_waiting_def ex_unstake_def ex_locked_def)

end
