(* ===== verification/UnstakeProperties.thy ===== *)
theory UnstakeProperties
  imports UnstakeFacts
begin

text \<open>The properties of the token unstake contract, alone and together with the energy factory.\<close>

text \<open>C16: An early exit can be cancelled. A user leaves the energy factory early with a locked token, which
  adds an entry to those of the user's earlier exits. Later, after any calls of the two contracts that
  have kept the attributes of created tokens, as all calls of the factory do, and as long as the user
  has not claimed or cancelled, the factory is not paused and it still works with this contract, the
  user's cancellation succeeds: it gives exactly the locked tokens of all the entries back, burns the
  base asset that was set aside and moves the positions back into the user's energy, whatever that
  stands for by then, and whether or not the tokens have become unlockable in between. Nobody
  else's energy or entries change.
\<close>

theorem early_exit_can_be_cancelled:
  assumes "leave_early fenv env f st ps = Inr (f1, st1)" and "factory_inv f"
    and "token_unstake_sc_address f = Some (get_sc_address env)"
    and "entry_exact fenv f (get_caller fenv) (positions_of f ps + P)"
    and "\<forall>x\<in>set (unlocked_tokens_for_user st (get_caller fenv)).
      created_attributes f (token_nonce (pair_locked_tokens x)) \<noteq> None"
    and "unlocked_tokens_for_user st2 (get_caller fenv) = unlocked_tokens_for_user st1 (get_caller fenv)"
    and "created_attributes f1 \<subseteq>\<^sub>m created_attributes f2" "\<not> paused f2"
    and "token_unstake_sc_address f2 = Some (get_sc_address env)" "entry_exact fenv' f2 (get_caller fenv) Q"
    and "get_caller env' = get_caller fenv" "get_caller fenv' = get_sc_address env" "reads_factory env' fenv' st2 f2"
  shows "\<exists>st3 f3 a old. old = map pair_locked_tokens (unlocked_tokens_for_user st (get_caller fenv)) \<and> 0 < a \<and>
    cancel_unbond env' (factory_revert fenv') st2 f2 = Inr (old @ ps, st3, f3,
      concat (map entry_burns (unlocked_tokens_for_user st (get_caller fenv))) @
      [EsdtLocalBurn (base_asset_token_id f) a, DirectSend (get_caller fenv) (old @ ps)]) \<and>
    unlocked_tokens_for_user st3 = (unlocked_tokens_for_user st2)(get_caller fenv := []) \<and>
    entry_exact fenv f1 (get_caller fenv) P \<and>
    entry_exact fenv' f3 (get_caller fenv) (positions_of f old + positions_of f ps + Q) \<and>
    (\<forall>v. v \<noteq> get_caller fenv \<longrightarrow> user_energy f3 v = user_energy f2 v)"
proof -
  let ?user = "get_caller fenv" and ?xs = "unlocked_tokens_for_user st (get_caller fenv)"
  let ?old = "map pair_locked_tokens ?xs"
  obtain p q where ps: "ps = [p]" and q: "token_nonce q = 0" "token_identifier q = base_asset_token_id f" "0 < amount q"
    and st1: "unlocked_tokens_for_user st1 = (unlocked_tokens_for_user st)(?user := ?xs @
      [\<lparr>pair_unlock_epoch = get_block_epoch env + unbond_epochs st, pair_locked_tokens = p,
        pair_unlocked_tokens = q\<rparr>])"
    and entry: "entry_exact fenv f1 ?user P"
    by (rule leave_early_adds_an_entry [OF assms(1-4)]) blast
  let ?x = "\<lparr>pair_unlock_epoch = get_block_epoch env + unbond_epochs st, pair_locked_tokens = p, pair_unlocked_tokens = q\<rparr>"
  note known = leave_early_known [OF assms(1) [unfolded ps] assms(2)]
  have same: "created_attributes f1 = created_attributes f" by (subst known(2)) simp
  have kept: "created_attributes f2 (token_nonce r) = created_attributes f (token_nonce r)"
    if "r = p \<or> r \<in> set ?old" for r
    using that assms(5,7) known(1) same by (fastforce simp: map_le_def dom_def)
  have "\<exists>st3 f3. cancel_unbond env' (factory_revert fenv') st2 f2 = Inr (map pair_locked_tokens (?xs @ [?x]), st3, f3,
      concat (map entry_burns (?xs @ [?x])) @ [DirectSend (get_caller env') (map pair_locked_tokens (?xs @ [?x]))])"
    by (rule cancel_unbond_returns [OF assms(13) _ assms(8)])
      (use assms(5,6,9,11,12) st1 kept known(1) in auto)
  then obtain st3 f3 where run: "cancel_unbond env' (factory_revert fenv') st2 f2 = Inr (?old @ ps, st3, f3,
      concat (map entry_burns ?xs) @ [EsdtLocalBurn (base_asset_token_id f) (amount q), DirectSend ?user (?old @ ps)])"
    using q assms(11) by (auto simp: ps entry_burns_def esdt_local_burn_def)
  have "positions_of f2 (?old @ ps) = positions_of f ?old + positions_of f ps"
    using kept by (auto simp: positions_of_def position_of_def ps intro!: arg_cong [of _ _ mset] image_mset_cong)
  then show ?thesis
    using cancel_unbond_restores [OF run assms(13)] assms(10,11) run entry q(3)
    by (intro exI [of _ st3] exI [of _ f3] exI [of _ "amount q"] exI [of _ ?old]) simp
qed

lemma early_exit_can_be_cancelled_witness:
  "\<exists>f1 st1. leave_early ex_factory_env (ex_unstake_env 1 1000 ex_factory) ex_factory ex_unstake
      [ex_locked 1 100] = Inr (f1, st1) \<and>
    (\<exists>st2 f2 u a. cancel_unbond (ex_unstake_env 7 1400 f1) (factory_revert (ex_factory_env\<lparr>get_caller := 4,
        get_block_epoch := 1400\<rparr>)) st1 f1 =
      Inr ([ex_locked 1 100], st2, f2, [EsdtLocalBurn u a, DirectSend 7 [ex_locked 1 100]]) \<and>
     entry_exact (ex_factory_env\<lparr>get_caller := 4, get_block_epoch := 1400\<rparr>) f2 7
       {#(100, 1350), (300, 2400), (50, 990)#})"
proof -
  let ?fenv = "ex_factory_env\<lparr>get_caller := 4, get_block_epoch := 1400\<rparr>"
  obtain f1 st1 where run: "leave_early ex_factory_env (ex_unstake_env 1 1000 ex_factory) ex_factory ex_unstake
      [ex_locked 1 100] = Inr (f1, st1)" and factory: "energy_factory_address st1 = Some 1"
    using ex_leave_run by blast
  have link: "reads_factory (ex_unstake_env 7 1400 f1) ?fenv st1 f1"
    using factory by (simp add: reads_factory_def ex_unstake_env_def)
  have caller: "get_caller ex_factory_env = 7" by (simp add: ex_factory_env_def)
  have sc: "token_unstake_sc_address ex_factory = Some (get_sc_address (ex_unstake_env 1 1000 ex_factory))"
    by (simp add: ex_factory_def ex_unstake_env_def)
  have entry: "entry_exact ex_factory_env ex_factory (get_caller ex_factory_env)
      (positions_of ex_factory [ex_locked 1 100] + {#(300, 2400), (50, 990)#})"
    using ex_entry_exact by (simp add: caller add_mset_commute)
  have after: "entry_exact ex_factory_env f1 (get_caller ex_factory_env) {#(300, 2400), (50, 990)#}"
    by (rule leave_early_adds_an_entry [OF run ex_factory_inv sc entry]) blast
  then have later: "entry_exact ?fenv f1 (get_caller ex_factory_env) {#(300, 2400), (50, 990)#}"
    using order_trans [of _ "1000::u64" 1400] by (auto simp: entry_exact_def ex_factory_env_def split: option.splits)
  note f1 = leave_early_known(2) [OF run ex_factory_inv]
  have live: "\<not> paused f1" "token_unstake_sc_address f1 = Some (get_sc_address (ex_unstake_env 1 1000 ex_factory))"
    by (subst f1, simp add: ex_factory_def ex_unstake_env_def)+
  have callers: "get_caller (ex_unstake_env 7 1400 f1) = get_caller ex_factory_env"
    "get_caller ?fenv = get_sc_address (ex_unstake_env 1 1000 ex_factory)"
    and none: "\<forall>x\<in>set (unlocked_tokens_for_user ex_unstake (get_caller ex_factory_env)).
      created_attributes ex_factory (token_nonce (pair_locked_tokens x)) \<noteq> None"
    by (simp_all add: ex_unstake_env_def ex_factory_env_def ex_unstake_def)
  from early_exit_can_be_cancelled [OF run ex_factory_inv sc entry none refl map_le_refl live later callers link] run
  show ?thesis by (auto simp: ex_unstake_def add_mset_commute caller)
qed

text \<open>C17: The contract holds what it owes: what a call brings in is, token by token, what the
  entries of its user grow by or what leaves again, so the balance covers the entries of all
  users at all times; it mints nothing, changes nobody else's entries, and keeps the entries
  in the order in which they become due.
\<close>

theorem unstake_holds_its_entries:
  assumes "unstake_exec env revert st f call = Inr (qs, st', f', es)"
    and "unstake_inv (get_block_epoch env) st" "deposit_ok call"
  shows "paid_in t (unstake_payments call) + entries_hold t (unlocked_tokens_for_user st (unstake_user env call)) =
      outflow t es + entries_hold t (unlocked_tokens_for_user st' (unstake_user env call)) \<and>
    inflow t es = 0 \<and> unstake_inv (get_block_epoch env) st' \<and>
    (\<forall>v. v \<noteq> unstake_user env call \<longrightarrow> unlocked_tokens_for_user st' v = unlocked_tokens_for_user st v)"
  using unstake_exec_flow [OF assms(1)] unstake_exec_inv [OF assms] by blast

lemma unstake_holds_its_entries_witness:
  "\<exists>qs st' f' es. unstake_exec (ex_unstake_env 7 1015 ex_factory) (\<lambda>a u e f. Inr f) ex_unstake_waiting ex_factory
      ClaimUnlockedTokens = Inr (qs, st', f', es) \<and>
    400 = outflow ''XMEX'' es + entries_hold ''XMEX'' (unlocked_tokens_for_user st' 7) \<and>
    entries_hold ''XMEX'' (unlocked_tokens_for_user st' 7) = 300"
proof -
  let ?env = "ex_unstake_env 7 1015 ex_factory"
  obtain qs st' f' es where run: "unstake_exec ?env (\<lambda>a u e f. Inr f) ex_unstake_waiting ex_factory
      ClaimUnlockedTokens = Inr (qs, st', f', es)"
    and left: "entries_hold ''XMEX'' (unlocked_tokens_for_user st' 7) = 300"
    by (simp add: ex_unstake_waiting_def unstake_eval esdt_local_burn_def pair_holds_def)
  have inv: "unstake_inv (get_block_epoch ?env) ex_unstake_waiting"
    using ex_unstake_waiting_ok by (simp add: ex_unstake_env_def)
  have "entries_hold ''XMEX'' (unlocked_tokens_for_user ex_unstake_waiting 7) = 400"
    by (simp add: ex_unstake_waiting_def pair_holds_def)
  then show ?thesis
    using unstake_holds_its_entries [OF run inv, of "''XMEX''"] run left
    by (auto simp: ex_unstake_env_def)
qed

end
