(* ===== verification/WeeklyEnergy.thy ===== *)
theory WeeklyEnergy
  imports EnergyQuery
begin

text \<open>
  Weekly rewards by energy (\<open>energy-integration/common-modules/week-timekeeping\<close> and
  \<open>weekly-rewards-splitting\<close>): the calendar of weeks, the claim progress of a user, the
  buckets that let the contract deplete the energy of all users at once when a week ends, the
  totals per week, and the update of one user. A contract that mixes the modules in extends
  the storage record.
\<close>

section \<open>week-timekeeping\<close>

text \<open>\<open>Week\<close> is \<open>usize\<close>, 32 bits in the virtual machine; the conversion of the quotient is unchecked.\<close>

type_synonym week = u32

definition EPOCHS_IN_WEEK :: u64 where "EPOCHS_IN_WEEK = 7"

definition INVALID_WEEK_ERR_MSG :: error where
  "INVALID_WEEK_ERR_MSG = SignalError ''Week 0 is not a valid week''"

record locked_tokens_bucket =
  bucket_token_amount :: biguint
  surplus_energy_amount :: biguint

record claim_progress =
  progress_energy :: energy
  progress_week :: week

record weekly_storage = energy_query_storage +
  first_week_start_epoch :: u64
  current_claim_progress :: "address \<Rightarrow> claim_progress option"
  last_global_update_week :: week
  total_rewards_for_week :: "week \<Rightarrow> esdt_payment list"
  total_energy_for_week :: "week \<Rightarrow> biguint"
  total_locked_tokens_for_week :: "week \<Rightarrow> biguint"
  first_bucket_id :: u64
  locked_tokens_in_bucket :: "u64 \<Rightarrow> locked_tokens_bucket option"

definition get_week_for_epoch :: "'s weekly_storage_scheme \<Rightarrow> u64 \<Rightarrow> error + week" where
  "get_week_for_epoch st c =
     require (first_week_start_epoch st \<le> c) INVALID_WEEK_ERR_MSG
       (let zero_based_week = ucast ((c - first_week_start_epoch st) div EPOCHS_IN_WEEK)
        in Inr (zero_based_week + 1))"

definition get_current_week :: "'e blockchain_scheme \<Rightarrow> 's weekly_storage_scheme \<Rightarrow> error + week" where
  "get_current_week env st = get_week_for_epoch st (get_block_epoch env)"

definition get_start_epoch_for_week :: "'s weekly_storage_scheme \<Rightarrow> week \<Rightarrow> error + u64" where
  "get_start_epoch_for_week st w =
     require (w \<noteq> 0) INVALID_WEEK_ERR_MSG
       (Inr (first_week_start_epoch st + ucast (w - 1) * EPOCHS_IN_WEEK))"

definition get_end_epoch_for_week :: "'s weekly_storage_scheme \<Rightarrow> week \<Rightarrow> error + u64" where
  "get_end_epoch_for_week st w =
     and_then (get_start_epoch_for_week st w) (\<lambda>start_epoch. Inr (start_epoch + EPOCHS_IN_WEEK - 1))"

section \<open>lib.rs: ClaimProgress\<close>

definition USER_MAX_CLAIM_WEEKS :: week where "USER_MAX_CLAIM_WEEKS = 4"

definition advance_week :: "claim_progress \<Rightarrow> claim_progress" where
  "advance_week self =
     (let next_week_epoch = last_update_epoch (progress_energy self) + EPOCHS_IN_WEEK in
      self\<lparr>progress_energy := deplete (progress_energy self) next_week_epoch,
           progress_week := progress_week self + 1\<rparr>)"

definition advance_multiple_weeks :: "claim_progress \<Rightarrow> week \<Rightarrow> claim_progress" where
  "advance_multiple_weeks self nr_weeks =
     (let end_epoch = last_update_epoch (progress_energy self) + EPOCHS_IN_WEEK * ucast nr_weeks in
      self\<lparr>progress_energy := deplete (progress_energy self) end_epoch,
           progress_week := progress_week self + nr_weeks\<rparr>)"

section \<open>locked_token_buckets.rs\<close>

record bucket_pair =
  opt_prev_bucket :: "u64 option"
  opt_current_bucket :: "u64 option"

definition default_bucket :: locked_tokens_bucket where
  "default_bucket = \<lparr>bucket_token_amount = 0, surplus_energy_amount = 0\<rparr>"

text \<open>One position: the expiring tokens leave the total, and all that remain lose a week.\<close>

primrec shift_loop ::
  "nat \<Rightarrow> u64 \<Rightarrow> (u64 \<Rightarrow> locked_tokens_bucket option) \<Rightarrow> biguint \<Rightarrow> biguint \<Rightarrow>
     error + (u64 \<times> (u64 \<Rightarrow> locked_tokens_bucket option) \<times> biguint \<times> biguint)" where
  "shift_loop 0 bucket_id buckets total_tokens total_energy =
     Inr (bucket_id, buckets, total_tokens, total_energy)"
| "shift_loop (Suc n) bucket_id buckets total_tokens total_energy =
     (let bucket = (case buckets bucket_id of Some b \<Rightarrow> b | None \<Rightarrow> default_bucket) in
      and_then (big_sub total_tokens (bucket_token_amount bucket)) (\<lambda>total_tokens.
      let energy_deplete = total_tokens * unat EPOCHS_IN_WEEK + surplus_energy_amount bucket in
      shift_loop n (bucket_id + 1) (buckets(bucket_id := None)) total_tokens
        (safe_sub total_energy energy_deplete)))"

definition shift_buckets_and_update_tokens_energy ::
  "'s weekly_storage_scheme \<Rightarrow> week \<Rightarrow> biguint \<Rightarrow> biguint \<Rightarrow>
     error + ('s weekly_storage_scheme \<times> biguint \<times> biguint)" where
  "shift_buckets_and_update_tokens_energy st nr_pos_to_shift total_tokens total_energy =
     and_then (shift_loop (unat nr_pos_to_shift) (first_bucket_id st) (locked_tokens_in_bucket st)
                 total_tokens total_energy) (\<lambda>(f, buckets, total_tokens, total_energy).
     Inr (st\<lparr>first_bucket_id := f, locked_tokens_in_bucket := buckets\<rparr>, total_tokens, total_energy))"

definition get_bucket_id_for_energy ::
  "'s weekly_storage_scheme \<Rightarrow> energy \<Rightarrow> error + u64 option" where
  "get_bucket_id_for_energy st e =
     (let total_tokens = total_locked_tokens e; total_energy = get_energy_amount e in
      if total_tokens = 0 then Inr None
      else if total_energy = 0 then Inr None
      else
        let epochs_to_full_expire = total_energy div total_tokens;
            weeks_to_full_expire = epochs_to_full_expire div unat EPOCHS_IN_WEEK;
            bucket_id = weeks_to_full_expire + unat (first_bucket_id st) in
        if bucket_id < 2 ^ 64 then Inr (Some (of_nat bucket_id)) else Inl UnwrapNone)"

definition get_surplus_for_energy :: "energy \<Rightarrow> biguint" where
  "get_surplus_for_energy e =
     (let token_amount = total_locked_tokens e in
      if token_amount = 0 then 0
      else get_energy_amount e mod (token_amount * unat EPOCHS_IN_WEEK))"

definition init_and_update_bucket ::
  "'s weekly_storage_scheme \<Rightarrow> u64 \<Rightarrow> (locked_tokens_bucket \<Rightarrow> error + locked_tokens_bucket) \<Rightarrow>
     error + 's weekly_storage_scheme" where
  "init_and_update_bucket st bucket_id update_fn =
     (let bucket = (case locked_tokens_in_bucket st bucket_id of Some b \<Rightarrow> b | None \<Rightarrow> default_bucket) in
      and_then (update_fn bucket) (\<lambda>bucket.
      Inr (st\<lparr>locked_tokens_in_bucket := (locked_tokens_in_bucket st)(bucket_id := Some bucket)\<rparr>)))"

definition take_from_bucket :: "energy \<Rightarrow> locked_tokens_bucket \<Rightarrow> error + locked_tokens_bucket" where
  "take_from_bucket e bucket =
     and_then (big_sub (bucket_token_amount bucket) (total_locked_tokens e)) (\<lambda>t.
     and_then (big_sub (surplus_energy_amount bucket) (get_surplus_for_energy e)) (\<lambda>s.
     Inr (bucket\<lparr>bucket_token_amount := t, surplus_energy_amount := s\<rparr>)))"

definition put_into_bucket :: "energy \<Rightarrow> locked_tokens_bucket \<Rightarrow> error + locked_tokens_bucket" where
  "put_into_bucket e bucket =
     Inr (bucket\<lparr>bucket_token_amount := bucket_token_amount bucket + total_locked_tokens e,
                 surplus_energy_amount := surplus_energy_amount bucket + get_surplus_for_energy e\<rparr>)"

definition reallocate_bucket_after_energy_update ::
  "'s weekly_storage_scheme \<Rightarrow> energy \<Rightarrow> energy \<Rightarrow> energy \<Rightarrow>
     error + (bucket_pair \<times> 's weekly_storage_scheme)" where
  "reallocate_bucket_after_energy_update st original_prev_energy depleted_prev_energy current_energy =
     and_then (get_bucket_id_for_energy st depleted_prev_energy) (\<lambda>opt_prev.
     and_then
       (case opt_prev of
          Some b \<Rightarrow> init_and_update_bucket st b (take_from_bucket original_prev_energy)
        | None \<Rightarrow> Inr st) (\<lambda>st.
     and_then (get_bucket_id_for_energy st current_energy) (\<lambda>opt_current.
     and_then
       (case opt_current of
          Some b \<Rightarrow> init_and_update_bucket st b (put_into_bucket current_energy)
        | None \<Rightarrow> Inr st) (\<lambda>st.
     Inr (\<lparr>opt_prev_bucket = opt_prev, opt_current_bucket = opt_current\<rparr>, st)))))"

section \<open>global_info.rs\<close>

definition perform_weekly_update ::
  "'s weekly_storage_scheme \<Rightarrow> week \<Rightarrow> error + 's weekly_storage_scheme" where
  "perform_weekly_update st current_week =
     (let last_update_week = last_global_update_week st in
      if last_update_week = current_week then Inr st
      else
        let st = st\<lparr>last_global_update_week := current_week\<rparr> in
        if last_update_week = 0 then Inr st
        else
          let total_energy = total_energy_for_week st last_update_week;
              total_tokens = total_locked_tokens_for_week st last_update_week;
              st = st\<lparr>total_locked_tokens_for_week :=
                        (total_locked_tokens_for_week st)(last_update_week := 0)\<rparr>;
              week_diff = current_week - last_update_week in
          and_then (shift_buckets_and_update_tokens_energy st week_diff total_tokens total_energy)
            (\<lambda>(st, total_tokens, total_energy).
          let st = st\<lparr>total_energy_for_week := (total_energy_for_week st)(current_week := total_energy),
                      total_locked_tokens_for_week :=
                        (total_locked_tokens_for_week st)(current_week := total_tokens)\<rparr> in
          if USER_MAX_CLAIM_WEEKS + 1 < current_week then
            let inaccessible_week = current_week - USER_MAX_CLAIM_WEEKS - 1 in
            Inr (st\<lparr>total_rewards_for_week := (total_rewards_for_week st)(inaccessible_week := []),
                    total_energy_for_week := (total_energy_for_week st)(inaccessible_week := 0)\<rparr>)
          else Inr st))"

definition update_and_get_total_tokens_amounts_after_user_energy_update ::
  "'s weekly_storage_scheme \<Rightarrow> week \<Rightarrow> energy \<Rightarrow> energy \<Rightarrow> energy \<Rightarrow> error + 's weekly_storage_scheme" where
  "update_and_get_total_tokens_amounts_after_user_energy_update st current_week
     original_prev_user_energy depleted_prev_user_energy current_user_energy =
     and_then (reallocate_bucket_after_energy_update st original_prev_user_energy
                 depleted_prev_user_energy current_user_energy) (\<lambda>(pair, st).
     let total_locked = total_locked_tokens_for_week st current_week;
         had_prev_energy = opt_prev_bucket pair \<noteq> None;
         has_current_energy = opt_current_bucket pair \<noteq> None in
     and_then
       (if had_prev_energy \<and> has_current_energy then
          big_sub (total_locked + total_locked_tokens current_user_energy)
            (total_locked_tokens depleted_prev_user_energy)
        else if had_prev_energy \<and> \<not> has_current_energy then
          big_sub total_locked (total_locked_tokens depleted_prev_user_energy)
        else if \<not> had_prev_energy \<and> has_current_energy then
          Inr (total_locked + total_locked_tokens current_user_energy)
        else Inr total_locked) (\<lambda>total_locked.
     Inr (st\<lparr>total_locked_tokens_for_week :=
            (total_locked_tokens_for_week st)(current_week := total_locked)\<rparr>)))"

definition update_and_get_total_energy_amounts_after_user_energy_update ::
  "'s weekly_storage_scheme \<Rightarrow> week \<Rightarrow> energy \<Rightarrow> energy \<Rightarrow> error + 's weekly_storage_scheme" where
  "update_and_get_total_energy_amounts_after_user_energy_update st current_week
     prev_user_energy current_user_energy =
     and_then (big_sub (total_energy_for_week st current_week) (get_energy_amount prev_user_energy))
       (\<lambda>total_energy.
     Inr (st\<lparr>total_energy_for_week := (total_energy_for_week st)
            (current_week := total_energy + get_energy_amount current_user_energy)\<rparr>))"

definition update_global_amounts_for_current_week ::
  "'s weekly_storage_scheme \<Rightarrow> week \<Rightarrow> week \<Rightarrow> energy \<Rightarrow> energy \<Rightarrow> error + 's weekly_storage_scheme" where
  "update_global_amounts_for_current_week st current_week user_last_active_week
     prev_user_energy current_user_energy =
     and_then (perform_weekly_update st current_week) (\<lambda>st.
     let prev_energy_for_update =
       (if current_week \<noteq> user_last_active_week then
          let week_diff = current_week - user_last_active_week;
              deplete_end_epoch =
                last_update_epoch prev_user_energy + ucast week_diff * EPOCHS_IN_WEEK in
          deplete prev_user_energy deplete_end_epoch
        else prev_user_energy) in
     and_then (update_and_get_total_tokens_amounts_after_user_energy_update st current_week
                 prev_user_energy prev_energy_for_update current_user_energy) (\<lambda>st.
     update_and_get_total_energy_amounts_after_user_energy_update st current_week
       prev_energy_for_update current_user_energy))"

section \<open>update_claim_progress_energy.rs\<close>

definition update_user_energy_for_current_week ::
  "'s weekly_storage_scheme \<Rightarrow> week \<Rightarrow> energy \<Rightarrow> claim_progress option \<Rightarrow>
     error + 's weekly_storage_scheme" where
  "update_user_energy_for_current_week st current_week current_energy opt_existing_claim_progress =
     (let (last_active_week, prev_energy) =
        (case opt_existing_claim_progress of
           Some p \<Rightarrow> (progress_week p, progress_energy p)
         | None \<Rightarrow> (0, energy_default)) in
      update_global_amounts_for_current_week st current_week last_active_week prev_energy current_energy)"

definition store_claim_progress ::
  "'s weekly_storage_scheme \<Rightarrow> address \<Rightarrow> energy \<Rightarrow> week \<Rightarrow> 's weekly_storage_scheme" where
  "store_claim_progress st user e w =
     st\<lparr>current_claim_progress := (current_claim_progress st)
       (user := if 0 < get_energy_amount e
                then Some \<lparr>progress_energy = e, progress_week = w\<rparr> else None)\<rparr>"

definition update_energy_and_progress ::
  "'e energy_query_env_scheme \<Rightarrow> 's weekly_storage_scheme \<Rightarrow> address \<Rightarrow>
     error + 's weekly_storage_scheme" where
  "update_energy_and_progress env st caller =
     and_then (get_current_week env st) (\<lambda>current_week.
     let current_user_energy = get_energy_entry env st caller in
     and_then (update_user_energy_for_current_week st current_week current_user_energy
                 (current_claim_progress st caller)) (\<lambda>st.
     Inr (store_claim_progress st caller current_user_energy current_week)))"

definition update_energy_for_user ::
  "'e energy_query_env_scheme \<Rightarrow> 's weekly_storage_scheme \<Rightarrow> address \<Rightarrow>
     error + 's weekly_storage_scheme" where
  "update_energy_for_user env st user =
     and_then (get_current_week env st) (\<lambda>current_week.
     require (case current_claim_progress st user of
                Some p \<Rightarrow> progress_week p = current_week | None \<Rightarrow> True)
       (SignalError ''Can update only after claim rewards'')
       (update_energy_and_progress env st user))"

definition clear_user_energy ::
  "'e energy_query_env_scheme \<Rightarrow> 's weekly_storage_scheme \<Rightarrow> address \<Rightarrow> biguint \<Rightarrow> biguint \<Rightarrow>
     error + 's weekly_storage_scheme" where
  "clear_user_energy env st user remaining_farm_payment_amount min_farm_amount =
     (if min_farm_amount \<le> remaining_farm_payment_amount then Inr st
      else
        and_then (get_current_week env st) (\<lambda>current_week.
        let current_user_energy = new_zero_energy (get_block_epoch env) in
        and_then (update_user_energy_for_current_week st current_week current_user_energy
                    (current_claim_progress st user)) (\<lambda>st.
        Inr (st\<lparr>current_claim_progress := (current_claim_progress st)(user := None)\<rparr>))))"

section \<open>base_impl.rs\<close>

definition user_reward_shares ::
  "esdt_payment list \<Rightarrow> biguint \<Rightarrow> biguint \<Rightarrow> esdt_payment list" where
  "user_reward_shares total_rewards user_energy_amount total_energy =
     filter (\<lambda>p. 0 < amount p)
       (map (\<lambda>weekly_reward. new_payment (token_identifier weekly_reward) 0
               (amount weekly_reward * user_energy_amount div total_energy)) total_rewards)"

definition collect_and_get_rewards_for_week ::
  "(week \<Rightarrow> 's weekly_storage_scheme \<Rightarrow> error + (esdt_payment list \<times> 's weekly_storage_scheme)) \<Rightarrow>
     week \<Rightarrow> 's weekly_storage_scheme \<Rightarrow> error + (esdt_payment list \<times> 's weekly_storage_scheme)" where
  "collect_and_get_rewards_for_week collect w st =
     (if total_rewards_for_week st w = [] then
        and_then (collect w st) (\<lambda>(total_rewards, st).
        Inr (total_rewards,
             st\<lparr>total_rewards_for_week := (total_rewards_for_week st)(w := total_rewards)\<rparr>))
      else Inr (total_rewards_for_week st w, st))"

definition get_user_rewards_for_week ::
  "(week \<Rightarrow> 's weekly_storage_scheme \<Rightarrow> error + (esdt_payment list \<times> 's weekly_storage_scheme)) \<Rightarrow>
     week \<Rightarrow> biguint \<Rightarrow> biguint \<Rightarrow> 's weekly_storage_scheme \<Rightarrow>
     error + (esdt_payment list \<times> 's weekly_storage_scheme)" where
  "get_user_rewards_for_week collect w user_energy_amount total_energy st =
     (if user_energy_amount = 0 \<or> total_energy = 0 then Inr ([], st)
      else
        and_then (collect_and_get_rewards_for_week collect w st) (\<lambda>(total_rewards, st).
        Inr (user_reward_shares total_rewards user_energy_amount total_energy, st)))"

section \<open>lib.rs: claiming\<close>

text \<open>
  The module is generic in a wrapper, whose \<open>get_user_rewards_for_week\<close> a contract may
  replace: here an argument.
\<close>

type_synonym 's user_rewards =
  "week \<Rightarrow> biguint \<Rightarrow> biguint \<Rightarrow> 's weekly_storage_scheme \<Rightarrow>
     error + (esdt_payment list \<times> 's weekly_storage_scheme)"

definition claim_single ::
  "'s user_rewards \<Rightarrow> claim_progress \<Rightarrow> 's weekly_storage_scheme \<Rightarrow>
     error + (esdt_payment list \<times> claim_progress \<times> 's weekly_storage_scheme)" where
  "claim_single user_rewards p st =
     (let total_energy = total_energy_for_week st (progress_week p) in
      and_then (user_rewards (progress_week p) (get_energy_amount (progress_energy p)) total_energy st)
        (\<lambda>(rewards, st). Inr (rewards, advance_week p, st)))"

primrec claim_weeks ::
  "nat \<Rightarrow> 's user_rewards \<Rightarrow> claim_progress \<Rightarrow> 's weekly_storage_scheme \<Rightarrow>
     error + (esdt_payment list \<times> 's weekly_storage_scheme)" where
  "claim_weeks 0 user_rewards p st = Inr ([], st)"
| "claim_weeks (Suc n) user_rewards p st =
     and_then (claim_single user_rewards p st) (\<lambda>(rewards_for_week, p, st).
     and_then (claim_weeks n user_rewards p st) (\<lambda>(all_rewards, st).
     Inr (rewards_for_week @ all_rewards, st)))"

definition claim_multi ::
  "'e energy_query_env_scheme \<Rightarrow> 's user_rewards \<Rightarrow> 's weekly_storage_scheme \<Rightarrow> address \<Rightarrow>
     error + (esdt_payment list \<times> 's weekly_storage_scheme)" where
  "claim_multi env user_rewards st user =
     and_then (get_current_week env st) (\<lambda>current_week.
     let current_user_energy = get_energy_entry env st user;
         opt_progress = current_claim_progress st user;
         claim_progress =
           (case opt_progress of
              Some p \<Rightarrow> p
            | None \<Rightarrow> \<lparr>progress_energy = current_user_energy, progress_week = current_week\<rparr>) in
     and_then (update_user_energy_for_current_week st current_week current_user_energy opt_progress)
       (\<lambda>st.
     let total_weeks_to_claim = current_week - progress_week claim_progress;
         claim_progress =
           (if USER_MAX_CLAIM_WEEKS < total_weeks_to_claim
            then advance_multiple_weeks claim_progress (total_weeks_to_claim - USER_MAX_CLAIM_WEEKS)
            else claim_progress);
         weeks_to_claim = min total_weeks_to_claim USER_MAX_CLAIM_WEEKS in
     and_then (claim_weeks (unat weeks_to_claim) user_rewards claim_progress st) (\<lambda>(all_rewards, st).
     Inr (all_rewards, store_claim_progress st user current_user_energy current_week))))"

definition get_last_active_week_for_user_view :: "'s weekly_storage_scheme \<Rightarrow> address \<Rightarrow> week" where
  "get_last_active_week_for_user_view st user =
     (case current_claim_progress st user of Some p \<Rightarrow> progress_week p | None \<Rightarrow> 0)"

definition get_user_energy_for_week_view ::
  "'s weekly_storage_scheme \<Rightarrow> address \<Rightarrow> week \<Rightarrow> energy option" where
  "get_user_energy_for_week_view st user w =
     (case current_claim_progress st user of
        None \<Rightarrow> None
      | Some p \<Rightarrow> if progress_week p = w then Some (progress_energy p) else None)"

end
