(* ===== verification/FeesCollector.thy ===== *)
theory FeesCollector
  imports WeeklyEnergy
begin

text \<open>
  The fees collector (\<open>energy-integration/fees-collector/src\<close>): pairs and the token unstake
  contract deposit fees, every week's fees are shared among the users by their energy, and
  locked tokens are paid by having the energy factory lock new ones
  (\<open>locking_module/lock_with_energy_module.rs\<close>).
\<close>

section \<open>Storage and environment\<close>

record fees_storage = weekly_storage +
  collector_paused :: bool
  collector_locked_token_id :: token_id
  known_contracts :: "address set"
  known_tokens :: "token_id set"
  all_tokens :: "token_id list"
  allow_external_claim_rewards :: "address \<Rightarrow> bool"
  accumulated_fees :: "week \<Rightarrow> token_id \<Rightarrow> biguint"
  last_locked_token_add_week :: week
  locked_tokens_per_block :: biguint
  collector_locking_sc_address :: "address option"
  collector_lock_epochs :: u64
  collector_whitelist :: "address set"

text \<open>The call of \<open>lockVirtual\<close> at the energy factory: its arguments and the payment it returns.\<close>

record fees_env = energy_query_env +
  call_lock_virtual :: "address \<Rightarrow> token_id \<Rightarrow> biguint \<Rightarrow> u64 \<Rightarrow> address \<Rightarrow> address \<Rightarrow> error + esdt_payment"

definition collector_only_owner :: "fees_env \<Rightarrow> error + 'a \<Rightarrow> error + 'a" where
  "collector_only_owner env k = require (get_caller env = get_owner_address env) ONLY_OWNER k"

section \<open>lock_with_energy_module.rs\<close>

definition collector_set_locking_sc_address ::
  "fees_env \<Rightarrow> fees_storage \<Rightarrow> address \<Rightarrow> error + fees_storage" where
  "collector_set_locking_sc_address env st new_address =
     collector_only_owner env
    (require (is_smart_contract env new_address) (SignalError ''Invalid SC Address'')
    (Inr (st\<lparr>collector_locking_sc_address := Some new_address\<rparr>)))"

definition collector_set_lock_epochs :: "fees_env \<Rightarrow> fees_storage \<Rightarrow> u64 \<Rightarrow> error + fees_storage" where
  "collector_set_lock_epochs env st epochs =
     collector_only_owner env (Inr (st\<lparr>collector_lock_epochs := epochs\<rparr>))"

definition collector_lock_virtual ::
  "fees_env \<Rightarrow> fees_storage \<Rightarrow> token_id \<Rightarrow> biguint \<Rightarrow> address \<Rightarrow> address \<Rightarrow> error + esdt_payment" where
  "collector_lock_virtual env st token a dest_address energy_address =
     (case collector_locking_sc_address st of
        None \<Rightarrow> Inl STORAGE_DECODE_ERROR
      | Some sc \<Rightarrow>
          call_lock_virtual env sc token a (collector_lock_epochs st) dest_address energy_address)"

section \<open>config.rs\<close>

fun add_known_contracts_loop ::
  "fees_env \<Rightarrow> address set \<Rightarrow> address list \<Rightarrow> error + address set" where
  "add_known_contracts_loop env known [] = Inr known"
| "add_known_contracts_loop env known (sc # scs) =
     require (is_smart_contract env sc) (SignalError ''Invalid SC address'')
       (add_known_contracts_loop env (insert sc known) scs)"

definition add_known_contracts ::
  "fees_env \<Rightarrow> fees_storage \<Rightarrow> address list \<Rightarrow> error + fees_storage" where
  "add_known_contracts env st contracts =
     collector_only_owner env
    (and_then (add_known_contracts_loop env (known_contracts st) contracts) (\<lambda>known.
     Inr (st\<lparr>known_contracts := known\<rparr>)))"

definition remove_known_contracts ::
  "fees_env \<Rightarrow> fees_storage \<Rightarrow> address list \<Rightarrow> error + fees_storage" where
  "remove_known_contracts env st contracts =
     collector_only_owner env (Inr (st\<lparr>known_contracts := known_contracts st - set contracts\<rparr>))"

fun add_known_tokens_loop ::
  "fees_env \<Rightarrow> token_id set \<Rightarrow> token_id list \<Rightarrow> token_id list \<Rightarrow>
     error + (token_id set \<times> token_id list)" where
  "add_known_tokens_loop env known all_tokens_vec [] = Inr (known, all_tokens_vec)"
| "add_known_tokens_loop env known all_tokens_vec (token # tokens) =
     require (is_valid_esdt_identifier env token) (SignalError ''Invalid token ID'')
       (if token \<in> known then add_known_tokens_loop env known all_tokens_vec tokens
        else add_known_tokens_loop env (insert token known) (all_tokens_vec @ [token]) tokens)"

text \<open>The owner check belongs to the endpoint; \<open>init\<close> calls the function.\<close>

definition add_known_tokens :: "fees_env \<Rightarrow> fees_storage \<Rightarrow> token_id list \<Rightarrow> error + fees_storage" where
  "add_known_tokens env st tokens =
     and_then (add_known_tokens_loop env (known_tokens st) (all_tokens st) tokens)
       (\<lambda>(known, all_tokens_vec). Inr (st\<lparr>known_tokens := known, all_tokens := all_tokens_vec\<rparr>))"

fun remove_known_tokens_loop ::
  "token_id set \<Rightarrow> token_id list \<Rightarrow> token_id list \<Rightarrow> token_id set \<times> token_id list" where
  "remove_known_tokens_loop known all_tokens_vec [] = (known, all_tokens_vec)"
| "remove_known_tokens_loop known all_tokens_vec (token # tokens) =
     (if token \<in> known
      then remove_known_tokens_loop (known - {token}) (remove1 token all_tokens_vec) tokens
      else remove_known_tokens_loop known all_tokens_vec tokens)"

definition remove_known_tokens :: "fees_env \<Rightarrow> fees_storage \<Rightarrow> token_id list \<Rightarrow> error + fees_storage" where
  "remove_known_tokens env st tokens =
     collector_only_owner env
       (let (known, all_tokens_vec) = remove_known_tokens_loop (known_tokens st) (all_tokens st) tokens
        in Inr (st\<lparr>known_tokens := known, all_tokens := all_tokens_vec\<rparr>))"

section \<open>fees_accumulation.rs\<close>

definition add_accumulated_fees :: "fees_storage \<Rightarrow> week \<Rightarrow> token_id \<Rightarrow> biguint \<Rightarrow> fees_storage" where
  "add_accumulated_fees st w t a =
     st\<lparr>accumulated_fees := (accumulated_fees st)
       (w := (accumulated_fees st w)(t := accumulated_fees st w t + a))\<rparr>"

definition deposit_swap_fees ::
  "fees_env \<Rightarrow> fees_storage \<Rightarrow> esdt_payment list \<Rightarrow> error + (fees_storage \<times> effect list)" where
  "deposit_swap_fees env st ps =
     require (get_caller env \<in> known_contracts st) (SignalError ''Only known contracts can deposit'')
    (and_then (single_esdt ps) (\<lambda>p.
     require (token_identifier p \<in> known_tokens st) (SignalError ''Invalid payment token'')
    (and_then (get_current_week env st) (\<lambda>current_week.
     and_then
       (if 0 < token_nonce p then
          require (token_identifier p = collector_locked_token_id st) (SignalError ''Invalid locked token'')
            (Inr [NftBurn (token_identifier p) (token_nonce p) (amount p)])
        else Inr []) (\<lambda>es.
     Inr (add_accumulated_fees st current_week (token_identifier p) (amount p), es))))))"

definition get_and_clear_accumulated_fees ::
  "fees_storage \<Rightarrow> week \<Rightarrow> token_id \<Rightarrow> biguint option \<times> fees_storage" where
  "get_and_clear_accumulated_fees st w t =
     (let v = accumulated_fees st w t;
          st = st\<lparr>accumulated_fees := (accumulated_fees st)(w := (accumulated_fees st w)(t := 0))\<rparr>
      in (if 0 < v then Some v else None, st))"

section \<open>additional_locked_tokens.rs\<close>

definition BLOCKS_IN_WEEK :: biguint where "BLOCKS_IN_WEEK = 100800"

definition accumulate_additional_locked_tokens ::
  "fees_env \<Rightarrow> fees_storage \<Rightarrow> error + fees_storage" where
  "accumulate_additional_locked_tokens env st =
     and_then (get_current_week env st) (\<lambda>current_week.
     if last_locked_token_add_week st = current_week then Inr st
     else
       let new_tokens_amount = locked_tokens_per_block st * BLOCKS_IN_WEEK;
           st = add_accumulated_fees st (current_week - 1) (collector_locked_token_id st) new_tokens_amount in
       Inr (st\<lparr>last_locked_token_add_week := current_week\<rparr>))"

definition set_locked_tokens_per_block ::
  "fees_env \<Rightarrow> fees_storage \<Rightarrow> biguint \<Rightarrow> error + fees_storage" where
  "set_locked_tokens_per_block env st per_block =
     collector_only_owner env
    (and_then (accumulate_additional_locked_tokens env st) (\<lambda>st.
     Inr (st\<lparr>locked_tokens_per_block := per_block\<rparr>)))"

section \<open>lib.rs\<close>

definition fees_collector_init ::
  "fees_env \<Rightarrow> fees_storage \<Rightarrow> token_id \<Rightarrow> address \<Rightarrow> error + fees_storage" where
  "fees_collector_init env st token factory =
     (let current_epoch = get_block_epoch env;
          st = (if first_week_start_epoch st = 0 then st\<lparr>first_week_start_epoch := current_epoch\<rparr> else st) in
      require_valid_token_id env token
     (require_sc_address env factory
     (and_then (add_known_tokens env st [token]) (\<lambda>st.
      Inr (st\<lparr>collector_locked_token_id :=
                (if collector_locked_token_id st = '''' then token else collector_locked_token_id st),
              energy_factory_address := Some factory\<rparr>)))))"

text \<open>\<open>FeesCollectorWrapper::collect_rewards_for_week\<close>.\<close>

fun collect_tokens :: "week \<Rightarrow> token_id list \<Rightarrow> fees_storage \<Rightarrow> esdt_payment list \<times> fees_storage" where
  "collect_tokens w [] st = ([], st)"
| "collect_tokens w (token # tokens) st =
     (let (opt_accumulated_fees, st) = get_and_clear_accumulated_fees st w token;
          (results, st) = collect_tokens w tokens st
      in (case opt_accumulated_fees of
            Some fees \<Rightarrow> new_payment token 0 fees # results
          | None \<Rightarrow> results, st))"

definition collect_rewards_for_week ::
  "week \<Rightarrow> fees_storage \<Rightarrow> error + (esdt_payment list \<times> fees_storage)" where
  "collect_rewards_for_week w st = Inr (collect_tokens w (all_tokens st) st)"

abbreviation fees_user_rewards ::
  "week \<Rightarrow> biguint \<Rightarrow> biguint \<Rightarrow> fees_storage \<Rightarrow> error + (esdt_payment list \<times> fees_storage)" where
  "fees_user_rewards \<equiv> get_user_rewards_for_week collect_rewards_for_week"

text \<open>The loop that takes the rewards in the locked token out of the list and adds them up.\<close>

fun take_locked_rewards :: "token_id \<Rightarrow> esdt_payment list \<Rightarrow> esdt_payment list \<times> biguint" where
  "take_locked_rewards t [] = ([], 0)"
| "take_locked_rewards t (rew # rewards) =
     (let (others, total) = take_locked_rewards t rewards
      in if token_identifier rew \<noteq> t then (rew # others, total)
         else (others, total + amount rew))"

text \<open>
  The result: the payments returned, the storage, the effects, and the amount that the factory
  was asked to lock for the caller.
\<close>

definition pay_rewards ::
  "fees_env \<Rightarrow> fees_storage \<Rightarrow> address \<Rightarrow> address \<Rightarrow> esdt_payment list \<Rightarrow>
     error + (esdt_payment list \<times> fees_storage \<times> effect list \<times> biguint)" where
  "pay_rewards env st caller original_caller rewards =
     (if rewards = [] then Inr ([], st, [], 0)
      else
        and_then (query_locked_token_id env st) (\<lambda>locked_id.
        let (rewards, total_locked_token_rewards_amount) = take_locked_rewards locked_id rewards;
            es = (if rewards \<noteq> [] then [DirectSend caller rewards] else []) in
        if 0 < total_locked_token_rewards_amount then
          and_then (query_base_token_id env st) (\<lambda>base.
          and_then (collector_lock_virtual env st base total_locked_token_rewards_amount
                      caller original_caller) (\<lambda>locked_rewards.
          Inr (rewards @ [locked_rewards], st, es, total_locked_token_rewards_amount)))
        else Inr (rewards, st, es, 0)))"

definition claim_rewards ::
  "fees_env \<Rightarrow> fees_storage \<Rightarrow> address \<Rightarrow> address \<Rightarrow>
     error + (esdt_payment list \<times> fees_storage \<times> effect list \<times> biguint)" where
  "claim_rewards env st caller original_caller =
     and_then (accumulate_additional_locked_tokens env st) (\<lambda>st.
     and_then (claim_multi env fees_user_rewards st original_caller) (\<lambda>(rewards, st).
     pay_rewards env st caller original_caller rewards))"

definition claim_rewards_endpoint ::
  "fees_env \<Rightarrow> fees_storage \<Rightarrow> address option \<Rightarrow>
     error + (esdt_payment list \<times> fees_storage \<times> effect list \<times> biguint)" where
  "claim_rewards_endpoint env st opt_original_caller =
     require (\<not> collector_paused st) (SignalError ''Cannot claim while paused'')
    (let caller = get_caller env in
     and_then (get_orig_caller_from_opt (collector_whitelist st) caller opt_original_caller)
       (\<lambda>original_caller. claim_rewards env st caller original_caller))"

definition claim_boosted_rewards ::
  "fees_env \<Rightarrow> fees_storage \<Rightarrow> address option \<Rightarrow>
     error + (esdt_payment list \<times> fees_storage \<times> effect list \<times> biguint)" where
  "claim_boosted_rewards env st opt_original_caller =
     require (\<not> collector_paused st) (SignalError ''Cannot claim while paused'')
    (and_then
       (case opt_original_caller of
          Some user \<Rightarrow>
            require (allow_external_claim_rewards st user)
              (SignalError ''Cannot claim rewards for this address'') (Inr user)
        | None \<Rightarrow> Inr (get_caller env)) (\<lambda>original_caller.
     claim_rewards env st original_caller original_caller))"

end
