(* ===== verification/WeeklyFacts.thy ===== *)
theory WeeklyFacts
  imports WeeklyEnergy
begin

text \<open>
  What the buckets of the weekly rewards mean. The contract never visits all users when a
  week ends; it keeps the users' tokens in buckets by the week in which their energy runs
  out. Here: the totals kept that way are the sums over all users of the energy each one has
  left in the current week.
\<close>

section \<open>Weeks\<close>

lemma weeks_simps: "unat EPOCHS_IN_WEEK = 7"
  by (simp add: EPOCHS_IN_WEEK_def)

lemma get_week_for_epoch_Inr:
  assumes "unat c < 2 ^ 33"
  shows "get_week_for_epoch st c = Inr w \<longleftrightarrow> first_week_start_epoch st \<le> c \<and>
    unat w = (unat c - unat (first_week_start_epoch st)) div 7 + 1"
proof (cases "first_week_start_epoch st \<le> c")
  case True
  let ?q = "(c - first_week_start_epoch st) div 7"
  have q: "unat ?q = (unat c - unat (first_week_start_epoch st)) div 7"
    using True by (simp add: unat_div unat_sub_u64)
  also have "\<dots> < 2 ^ 31" using assms by simp
  finally have "unat (ucast ?q :: week) = unat ?q"
    by (simp add: unsigned_ucast_eq take_bit_nat_eq_self)
  with q \<open>_ < 2 ^ 31\<close> have "unat (ucast ?q + 1 :: week) = (unat c - unat (first_week_start_epoch st)) div 7 + 1"
    by (simp add: unat_word_ariths)
  with True show ?thesis
    by (auto simp: get_week_for_epoch_def EPOCHS_IN_WEEK_def word_unat_eq_iff)
qed (auto simp: get_week_for_epoch_def)

section \<open>A user's energy in later weeks\<close>

abbreviation progress_tokens :: "claim_progress \<Rightarrow> biguint" where
  "progress_tokens p \<equiv> total_locked_tokens (progress_energy p)"

definition energy_at :: "claim_progress \<Rightarrow> nat \<Rightarrow> biguint" where
  "energy_at p w = nat (energy_amount (progress_energy p) -
     int (7 * progress_tokens p * (w - unat (progress_week p))))"

definition full_weeks :: "claim_progress \<Rightarrow> nat" where
  "full_weeks p = get_energy_amount (progress_energy p) div (7 * progress_tokens p)"

definition surplus :: "claim_progress \<Rightarrow> nat" where
  "surplus p = get_energy_amount (progress_energy p) mod (7 * progress_tokens p)"

text \<open>In week \<open>w\<close> with first bucket \<open>f\<close>: whether and where the user's tokens still are.\<close>

definition active_at :: "nat \<Rightarrow> claim_progress \<Rightarrow> bool" where
  "active_at w p \<longleftrightarrow> 0 < progress_tokens p \<and> w - unat (progress_week p) \<le> full_weeks p"

definition in_bucket :: "nat \<Rightarrow> nat \<Rightarrow> nat \<Rightarrow> claim_progress \<Rightarrow> bool" where
  "in_bucket f w b p \<longleftrightarrow> active_at w p \<and> b + (w - unat (progress_week p)) = f + full_weeks p"

lemma get_energy_amount_nat: "get_energy_amount e = nat (energy_amount e)"
  by (simp add: get_energy_amount_def)

lemma deplete_weeks:
  assumes "unat (last_update_epoch e) + 7 * n < 2 ^ 64"
    and "c = last_update_epoch e + of_nat n * 7"
  shows "energy_amount (deplete e c) = energy_amount e - int (7 * total_locked_tokens e * n)"
    and "total_locked_tokens (deplete e c) = total_locked_tokens e"
    and "unat (last_update_epoch (deplete e c)) = unat (last_update_epoch e) + 7 * n"
proof -
  have c: "unat c = unat (last_update_epoch e) + 7 * n"
    using assms by (simp add: unat_word_ariths unat_of_nat)
  then have le: "last_update_epoch e \<le> c" by (simp add: word_le_nat_alt)
  have "uint c - uint (last_update_epoch e) = int (7 * n)"
    using arg_cong [OF c, of int] by simp
  then show "energy_amount (deplete e c) = energy_amount e - int (7 * total_locked_tokens e * n)"
    using le by (auto simp: deplete_def energy_subtract_eq Let_def)
  show "total_locked_tokens (deplete e c) = total_locked_tokens e"
    by (auto simp: deplete_def energy_subtract_eq Let_def)
  show "unat (last_update_epoch (deplete e c)) = unat (last_update_epoch e) + 7 * n"
    using c by simp
qed

lemma energy_at_step:
  assumes "unat (progress_week p) \<le> w" "0 < energy_amount (progress_energy p)"
  shows "energy_at p w = energy_at p (Suc w) +
    (if active_at (Suc w) p then 7 * progress_tokens p else if active_at w p then surplus p else 0)"
proof -
  let ?T = "progress_tokens p" and ?A = "get_energy_amount (progress_energy p)"
  obtain j where j: "w = unat (progress_week p) + j" using assms(1) le_Suc_ex by blast
  have at: "energy_at p (unat (progress_week p) + i) = ?A - 7 * ?T * i" for i
  proof -
    have "energy_at p (unat (progress_week p) + i) = nat (int ?A - int (7 * ?T * i))"
      using assms(2) by (simp add: energy_at_def get_energy_amount_nat)
    then show ?thesis by (simp only: nat_minus_as_int)
  qed
  have j1: "Suc w = unat (progress_week p) + Suc j" using j by simp
  show ?thesis
  proof (cases "?T = 0")
    case False
    let ?m = "7 * ?T"
    have A: "?A = ?m * full_weeks p + surplus p" "surplus p < ?m"
      using False by (simp_all add: full_weeks_def surplus_def)
    consider "Suc j \<le> full_weeks p" | "j = full_weeks p" | "full_weeks p < j" by linarith
    then show ?thesis
    proof cases
      case 1
      then have "?m * Suc j \<le> ?m * full_weeks p" by (intro mult_le_mono2)
      then show ?thesis using 1 False A at [of j] at [of "Suc j"] j j1
        by (simp add: active_at_def)
    next
      case 2
      then show ?thesis using False A at [of j] at [of "Suc j"] j j1
        by (simp add: active_at_def)
    next
      case 3
      then have "?m * Suc (full_weeks p) \<le> ?m * j" by (intro mult_le_mono2) simp
      then show ?thesis using 3 False A at [of j] at [of "Suc j"] j j1
        by (simp add: active_at_def)
    qed
  qed (use at [of j] at [of "Suc j"] j j1 in \<open>simp add: active_at_def\<close>)
qed

section \<open>Sums over the users\<close>

type_synonym progress_map = "address \<Rightarrow> claim_progress option"

definition user_sum :: "progress_map \<Rightarrow> (claim_progress \<Rightarrow> nat) \<Rightarrow> nat" where
  "user_sum m g = (\<Sum>u\<in>dom m. g (the (m u)))"

definition of_user :: "(claim_progress \<Rightarrow> nat) \<Rightarrow> claim_progress option \<Rightarrow> nat" where
  "of_user g x = (case x of Some p \<Rightarrow> g p | None \<Rightarrow> 0)"

lemma of_user_simps [simp]: "of_user g None = 0" "of_user g (Some p) = g p"
  by (simp_all add: of_user_def)

lemma user_sum_upd:
  assumes "finite (dom m)"
  shows "user_sum (m(u := x)) g + of_user g (m u) = user_sum m g + of_user g x"
proof -
  have split: "user_sum m' g = user_sum (m'(u := None)) g + of_user g (m' u)" if "finite (dom m')" for m'
  proof (cases "m' u")
    case None
    then have "m'(u := None) = m'" by auto
    with None show ?thesis by simp
  next
    case (Some p)
    then have "dom m' = insert u (dom m' - {u})" by auto
    then have "user_sum m' g = g p + (\<Sum>v\<in>dom m' - {u}. g (the (m' v)))"
      using that Some sum.remove [of "dom m'" u "\<lambda>v. g (the (m' v))"] by (auto simp: user_sum_def)
    also have "(\<Sum>v\<in>dom m' - {u}. g (the (m' v))) = user_sum (m'(u := None)) g"
      unfolding user_sum_def by (rule sum.cong) auto
    finally show ?thesis using Some by simp
  qed
  have "finite (dom (m(u := x)))" using assms by (cases x) auto
  from split [OF this] split [OF assms] show ?thesis by simp
qed

lemma user_sum_cong:
  assumes "\<And>u p. m u = Some p \<Longrightarrow> g p = h p"
  shows "user_sum m g = user_sum m h"
  unfolding user_sum_def by (rule sum.cong) (use assms in auto)

lemma user_sum_mono:
  assumes "\<And>u p. m u = Some p \<Longrightarrow> g p \<le> h p"
  shows "user_sum m g \<le> user_sum m h"
  unfolding user_sum_def by (rule sum_mono) (use assms in auto)

lemma user_sum_add: "user_sum m (\<lambda>p. g p + h p) = user_sum m g + user_sum m h"
  by (simp add: user_sum_def sum.distrib)

lemma user_sum_mult: "user_sum m (\<lambda>p. c * g p) = c * user_sum m g"
  by (simp add: user_sum_def sum_distrib_left)

lemma user_sum_empty [simp]: "user_sum Map.empty g = 0"
  by (simp add: user_sum_def)

lemma user_sum_le: "finite (dom m) \<Longrightarrow> m u = Some p \<Longrightarrow> g p \<le> user_sum m g"
  using user_sum_upd [of m u None g] by simp

section \<open>The invariant of the buckets\<close>

type_synonym bucket_map = "u64 \<Rightarrow> locked_tokens_bucket option"

definition bucket_of :: "bucket_map \<Rightarrow> u64 \<Rightarrow> locked_tokens_bucket" where
  "bucket_of B b = (case B b of Some x \<Rightarrow> x | None \<Rightarrow> default_bucket)"

text \<open>
  The progress of a user: energy above zero in a past week, stored at an epoch of that week
  (before the end of it, counted from \<open>first\<close>), and in a bucket whose number fits \<open>u64\<close>.
\<close>

definition progress_ok :: "nat \<Rightarrow> nat \<Rightarrow> nat \<Rightarrow> claim_progress \<Rightarrow> bool" where
  "progress_ok first f w p \<longleftrightarrow> 0 < energy_amount (progress_energy p) \<and> unat (progress_week p) \<le> w \<and>
     unat (last_update_epoch (progress_energy p)) < first + 7 * unat (progress_week p) \<and>
     f + full_weeks p < 2 ^ 64 + (w - unat (progress_week p))"

definition progress_map_ok :: "nat \<Rightarrow> nat \<Rightarrow> nat \<Rightarrow> progress_map \<Rightarrow> bool" where
  "progress_map_ok first f w m \<longleftrightarrow>
     finite (dom m) \<and> (\<forall>u p. m u = Some p \<longrightarrow> progress_ok first f w p)"

lemma progress_map_ok_later:
  "progress_map_ok first f w m \<Longrightarrow> progress_map_ok first (f + n) (w + n) m"
proof -
  assume "progress_map_ok first f w m"
  moreover have "progress_ok first f w p \<Longrightarrow> progress_ok first (f + n) (w + n) p" for p
    unfolding progress_ok_def by linarith
  ultimately show ?thesis by (auto simp: progress_map_ok_def)
qed

abbreviation tokens_if :: "(claim_progress \<Rightarrow> bool) \<Rightarrow> claim_progress \<Rightarrow> nat" where
  "tokens_if P \<equiv> (\<lambda>p. if P p then progress_tokens p else 0)"

abbreviation surplus_if :: "(claim_progress \<Rightarrow> bool) \<Rightarrow> claim_progress \<Rightarrow> nat" where
  "surplus_if P \<equiv> (\<lambda>p. if P p then surplus p else 0)"

text \<open>
  In week \<open>w\<close>, with first bucket \<open>f\<close>: the total energy is exact. The total of tokens and the
  first bucket may both hold \<open>stale\<close> tokens of users who came back just when their energy had
  run out; the next shift removes them.
\<close>

definition bucket_inv ::
  "progress_map \<Rightarrow> nat \<Rightarrow> u64 \<Rightarrow> bucket_map \<Rightarrow> biguint \<Rightarrow> biguint \<Rightarrow> nat \<Rightarrow> bool" where
  "bucket_inv m w f B tokens energy stale \<longleftrightarrow>
     energy = user_sum m (\<lambda>p. energy_at p w) \<and>
     tokens = user_sum m (tokens_if (active_at w)) + stale \<and>
     (\<forall>b\<ge>f. bucket_token_amount (bucket_of B b) =
          user_sum m (tokens_if (in_bucket (unat f) w (unat b))) + (if b = f then stale else 0) \<and>
        surplus_energy_amount (bucket_of B b) = user_sum m (surplus_if (in_bucket (unat f) w (unat b))))"

lemma bucket_of_upd [simp]:
  "bucket_of (B(b := Some x)) c = (if c = b then x else bucket_of B c)"
  "bucket_of (B(b := None)) c = (if c = b then default_bucket else bucket_of B c)"
  by (simp_all add: bucket_of_def)

lemma default_bucket_sel [simp]:
  "bucket_token_amount default_bucket = 0" "surplus_energy_amount default_bucket = 0"
  by (simp_all add: default_bucket_def)

text \<open>One shift of the buckets.\<close>

lemma bucket_inv_shift:
  assumes inv: "bucket_inv m w f B tokens energy stale" and ok: "progress_map_ok first (unat f) w m"
    and f: "unat f + 1 < 2 ^ 64"
  defines "x \<equiv> bucket_of B f"
  shows "bucket_token_amount x \<le> tokens"
    and "bucket_inv m (Suc w) (f + 1) (B(f := None)) (tokens - bucket_token_amount x)
      (safe_sub energy ((tokens - bucket_token_amount x) * 7 + surplus_energy_amount x)) 0"
proof -
  have wk: "unat (progress_week p) \<le> w" "0 < energy_amount (progress_energy p)" if "m u = Some p" for u p
    using ok that by (auto simp: progress_map_ok_def progress_ok_def)
  have f1: "unat (f + 1) = Suc (unat f)" using f by (simp add: unat_word_ariths)
  have split: "active_at w p \<longleftrightarrow> active_at (Suc w) p \<or> in_bucket (unat f) w (unat f) p"
    "\<not> (active_at (Suc w) p \<and> in_bucket (unat f) w (unat f) p)"
    "in_bucket (unat f) w (unat f) p \<longleftrightarrow> active_at w p \<and> \<not> active_at (Suc w) p"
    if "m u = Some p" for u p
    using wk(1) [OF that] by (auto simp: active_at_def in_bucket_def)
  have tok: "bucket_token_amount x = user_sum m (tokens_if (in_bucket (unat f) w (unat f))) + stale"
    and sur: "surplus_energy_amount x = user_sum m (surplus_if (in_bucket (unat f) w (unat f)))"
    using inv by (simp_all add: bucket_inv_def x_def)
  have "user_sum m (tokens_if (active_at w)) =
      user_sum m (\<lambda>p. tokens_if (active_at (Suc w)) p + tokens_if (in_bucket (unat f) w (unat f)) p)"
    by (rule user_sum_cong) (use split in auto)
  then have tokens: "tokens = user_sum m (tokens_if (active_at (Suc w))) + bucket_token_amount x"
    using inv by (simp add: bucket_inv_def user_sum_add tok)
  then show "bucket_token_amount x \<le> tokens" by simp
  have rest: "tokens - bucket_token_amount x = user_sum m (tokens_if (active_at (Suc w)))"
    using tokens by simp
  have "energy = user_sum m (\<lambda>p. energy_at p w)" using inv by (simp add: bucket_inv_def)
  also have "\<dots> = user_sum m (\<lambda>p. energy_at p (Suc w) +
      (7 * tokens_if (active_at (Suc w)) p + surplus_if (in_bucket (unat f) w (unat f)) p))"
    by (rule user_sum_cong) (use energy_at_step wk split in auto)
  finally have "energy = user_sum m (\<lambda>p. energy_at p (Suc w)) +
      ((tokens - bucket_token_amount x) * 7 + surplus_energy_amount x)"
    by (simp add: user_sum_add user_sum_mult rest sur)
  moreover have later: "bucket_token_amount (bucket_of (B(f := None)) b) =
        user_sum m (tokens_if (in_bucket (unat (f + 1)) (Suc w) (unat b))) \<and>
      surplus_energy_amount (bucket_of (B(f := None)) b) =
        user_sum m (surplus_if (in_bucket (unat (f + 1)) (Suc w) (unat b)))"
    if "f + 1 \<le> b" for b
  proof -
    have b: "f \<noteq> b" "f \<le> b" "unat f < unat b"
      using that f1 by (auto simp: word_le_nat_alt)
    have same: "in_bucket (unat (f + 1)) (Suc w) (unat b) p = in_bucket (unat f) w (unat b) p"
      if "m u = Some p" for u p
      using wk(1) [OF that] b f1 by (auto simp: in_bucket_def active_at_def)
    have "user_sum m (tokens_if (in_bucket (unat (f + 1)) (Suc w) (unat b))) =
        user_sum m (tokens_if (in_bucket (unat f) w (unat b)))"
      "user_sum m (surplus_if (in_bucket (unat (f + 1)) (Suc w) (unat b))) =
        user_sum m (surplus_if (in_bucket (unat f) w (unat b)))"
      by (rule user_sum_cong; use same in simp)+
    then show ?thesis using inv b by (simp add: bucket_inv_def)
  qed
  ultimately show "bucket_inv m (Suc w) (f + 1) (B(f := None)) (tokens - bucket_token_amount x)
      (safe_sub energy ((tokens - bucket_token_amount x) * 7 + surplus_energy_amount x)) 0"
    unfolding bucket_inv_def using rest by (auto simp: safe_sub_def)
qed

text \<open>All shifts of a weekly update.\<close>

lemma shift_loop_Suc:
  assumes "bucket_token_amount (bucket_of B f) \<le> tokens"
  shows "shift_loop (Suc n) f B tokens energy =
    (let t = tokens - bucket_token_amount (bucket_of B f) in
     shift_loop n (f + 1) (B(f := None)) t
       (safe_sub energy (t * 7 + surplus_energy_amount (bucket_of B f))))"
  using assms by (simp add: bucket_of_def weeks_simps Let_def)

lemma bucket_inv_shift_loop:
  assumes "bucket_inv m w f B tokens energy stale" "progress_map_ok first (unat f) w m" "unat f + n < 2 ^ 64"
  shows "\<exists>B' tokens' energy' stale'.
    shift_loop n f B tokens energy = Inr (f + of_nat n, B', tokens', energy') \<and>
    bucket_inv m (w + n) (f + of_nat n) B' tokens' energy' stale'"
  using assms
proof (induction n arbitrary: w f B tokens energy stale)
  case (Suc n)
  let ?x = "bucket_of B f" and ?w = "Suc w"
  let ?t = "tokens - bucket_token_amount ?x"
  let ?e = "safe_sub energy (?t * 7 + surplus_energy_amount ?x)"
  have f: "unat f + 1 < 2 ^ 64" "unat (f + 1) + n < 2 ^ 64"
    using Suc.prems(3) by (simp_all add: unat_word_ariths)
  note shift = bucket_inv_shift [OF Suc.prems(1,2) f(1)]
  have "progress_map_ok first (unat (f + 1)) ?w m"
    using progress_map_ok_later [OF Suc.prems(2), of 1] Suc.prems(3) by (simp add: unat_word_ariths)
  from Suc.IH [OF shift(2) this f(2)] show ?case
    by (simp add: shift_loop_Suc [OF shift(1)] Let_def add.assoc add.commute [of 1]
        del: shift_loop.simps fun_upd_apply)
qed auto

section \<open>One user leaves and enters\<close>

text \<open>What is left of the energy of a user whose tokens are still, or no longer, in a bucket.\<close>

lemma energy_at_active:
  assumes "progress_ok first f w p" "0 < progress_tokens p"
  shows "surplus p < 7 * progress_tokens p"
    and "energy_at p w = (if active_at w p
      then 7 * progress_tokens p * (full_weeks p - (w - unat (progress_week p))) + surplus p else 0)"
proof -
  let ?m = "7 * progress_tokens p" and ?A = "get_energy_amount (progress_energy p)"
  define j where "j = w - unat (progress_week p)"
  have "energy_at p w = nat (int ?A - int (?m * j))"
    using assms by (simp add: energy_at_def get_energy_amount_nat progress_ok_def j_def)
  then have at: "energy_at p w = ?A - ?m * j" by (simp only: nat_minus_as_int)
  have A: "?A = ?m * full_weeks p + surplus p" by (simp add: full_weeks_def surplus_def)
  show lt: "surplus p < ?m" using assms(2) by (simp add: surplus_def)
  show "energy_at p w = (if active_at w p
      then ?m * (full_weeks p - (w - unat (progress_week p))) + surplus p else 0)"
  proof (cases "j \<le> full_weeks p")
    case True
    then have "?m * full_weeks p = ?m * j + ?m * (full_weeks p - j)"
      by (simp flip: distrib_left)
    with True A at assms(2) show ?thesis by (simp add: active_at_def j_def)
  next
    case False
    then have "?m * Suc (full_weeks p) \<le> ?m * j" by (intro mult_le_mono2) simp
    then have "?A \<le> ?m * j" using A lt by simp
    with False at show ?thesis by (simp add: active_at_def j_def)
  qed
qed

lemma unat_of_nat_fits: "n < 2 ^ 64 \<Longrightarrow> unat (of_nat n :: u64) = n"
  by (simp add: unat_of_nat)

lemma unat_add_of_nat: "unat (a::u64) + n < 2 ^ 64 \<Longrightarrow> unat (a + of_nat n) = unat a + n"
  by (simp add: unat_word_ariths unat_of_nat)

lemma mult_add_div_nat: "(s::nat) < m \<Longrightarrow> (m * k + s) div m = k"
  by simp

lemma energy_at_bucket:
  assumes "progress_ok first f w p" "0 < progress_tokens p" "0 < energy_at p w"
  shows "active_at w p"
    and "in_bucket h w b p \<longleftrightarrow> b = h + energy_at p w div (7 * progress_tokens p)"
proof -
  note at = energy_at_active [OF assms(1,2)]
  show act: "active_at w p" using at(2) assms(3) by (simp split: if_splits)
  have "energy_at p w div (7 * progress_tokens p) = full_weeks p - (w - unat (progress_week p))"
    using act mult_add_div_nat [OF at(1)] by (subst at(2)) simp
  with act show "in_bucket h w b p \<longleftrightarrow> b = h + energy_at p w div (7 * progress_tokens p)"
    by (auto simp: in_bucket_def active_at_def)
qed

lemma energy_at_stale:
  assumes "progress_ok first f w p" "energy_at p w = 0"
  shows "in_bucket h w b p \<longleftrightarrow> b = h \<and> active_at w p"
    and "active_at w p \<Longrightarrow> surplus p = 0"
proof -
  have "surplus p = 0 \<and> full_weeks p = w - unat (progress_week p)" if act: "active_at w p"
  proof -
    have m: "0 < progress_tokens p" "w - unat (progress_week p) \<le> full_weeks p"
      using act by (simp_all add: active_at_def)
    show ?thesis using energy_at_active(2) [OF assms(1) m(1)] act m assms(2) by simp
  qed
  then show "in_bucket h w b p \<longleftrightarrow> b = h \<and> active_at w p" and "active_at w p \<Longrightarrow> surplus p = 0"
    by (auto simp: in_bucket_def)
qed

lemma bucket_index_fits:
  assumes "progress_ok first f w p" "0 < progress_tokens p" "0 < energy_at p w"
  shows "f + energy_at p w div (7 * progress_tokens p) < 2 ^ 64"
proof -
  have "in_bucket f w (f + energy_at p w div (7 * progress_tokens p)) p"
    using energy_at_bucket(2) [OF assms] by simp
  then show ?thesis using assms(1) by (auto simp: in_bucket_def active_at_def progress_ok_def)
qed

text \<open>The bucket the contract computes.\<close>

lemma get_bucket_id_Inr:
  assumes "get_energy_amount d = energy_at p w" "total_locked_tokens d = progress_tokens p"
    and "progress_ok first (unat (first_bucket_id st)) w p"
  shows "get_bucket_id_for_energy st d = Inr
    (if 0 < progress_tokens p \<and> 0 < energy_at p w
     then Some (of_nat (unat (first_bucket_id st) + energy_at p w div (7 * progress_tokens p))) else None)"
proof -
  let ?f = "unat (first_bucket_id st)"
  have "energy_at p w div progress_tokens p div 7 = energy_at p w div (7 * progress_tokens p)"
    by (simp add: div_mult2_eq [symmetric] mult.commute)
  then show "get_bucket_id_for_energy st d = Inr
    (if 0 < progress_tokens p \<and> 0 < energy_at p w
     then Some (of_nat (?f + energy_at p w div (7 * progress_tokens p))) else None)"
    using bucket_index_fits [OF assms(3)] by (auto simp: get_bucket_id_for_energy_def assms(1,2) weeks_simps Let_def add.commute)
qed

lemma get_surplus: "0 < progress_tokens p \<Longrightarrow> get_surplus_for_energy (progress_energy p) = surplus p"
  by (simp add: get_surplus_for_energy_def surplus_def weeks_simps Let_def mult.commute)

text \<open>A user leaves the sums.\<close>

lemma bucket_inv_leave:
  assumes inv: "bucket_inv m w f B tokens energy stale" and ok: "progress_map_ok first (unat f) w m"
    and u: "m u = Some p"
  shows "energy_at p w \<le> energy"
    and "\<not> (0 < progress_tokens p \<and> 0 < energy_at p w) \<Longrightarrow>
      bucket_inv (m(u := None)) w f B tokens (energy - energy_at p w) (stale + tokens_if (active_at w) p)"
    and "0 < progress_tokens p \<Longrightarrow> 0 < energy_at p w \<Longrightarrow>
      b = of_nat (unat f + energy_at p w div (7 * progress_tokens p)) \<Longrightarrow>
      \<exists>x. take_from_bucket (progress_energy p) (bucket_of B b) = Inr x \<and> progress_tokens p \<le> tokens \<and>
        bucket_inv (m(u := None)) w f (B(b := Some x)) (tokens - progress_tokens p)
          (energy - energy_at p w) stale"
proof -
  have fin: "finite (dom m)" and pok: "progress_ok first (unat f) w p"
    using ok u by (auto simp: progress_map_ok_def)
  have drop: "user_sum m g = user_sum (m(u := None)) g + g p" for g
    using user_sum_upd [OF fin, of u None g] u by simp
  show "energy_at p w \<le> energy" using inv drop [of "\<lambda>p. energy_at p w"] by (simp add: bucket_inv_def)
  {
    assume gone: "\<not> (0 < progress_tokens p \<and> 0 < energy_at p w)"
    show "bucket_inv (m(u := None)) w f B tokens (energy - energy_at p w) (stale + tokens_if (active_at w) p)"
    proof (cases "progress_tokens p = 0")
      case True
      then have "\<not> active_at w p" "\<And>b. \<not> in_bucket (unat f) w b p"
        by (simp_all add: active_at_def in_bucket_def)
      with inv drop show ?thesis by (simp add: bucket_inv_def)
    next
      case False
      with gone have "energy_at p w = 0" by simp
      note st = energy_at_stale [OF pok this]
      from inv drop st show ?thesis
        by (auto simp: bucket_inv_def word_unat_eq_iff)
    qed
  }
  assume live: "0 < progress_tokens p" "0 < energy_at p w"
    and b: "b = of_nat (unat f + energy_at p w div (7 * progress_tokens p))"
  have ub: "unat b = unat f + energy_at p w div (7 * progress_tokens p)"
    unfolding b by (rule unat_of_nat_fits [OF bucket_index_fits [OF pok live]])
  then have fb: "f \<le> b" by (simp add: word_le_nat_alt)
  have mem: "in_bucket (unat f) w (unat c) p \<longleftrightarrow> c = b" for c
    using energy_at_bucket(2) [OF pok live] ub by (simp add: word_unat_eq_iff)
  let ?y = "bucket_of B b"
  have y: "bucket_token_amount ?y = user_sum (m(u := None)) (tokens_if (in_bucket (unat f) w (unat b))) +
      progress_tokens p + (if b = f then stale else 0)"
    "surplus_energy_amount ?y = user_sum (m(u := None)) (surplus_if (in_bucket (unat f) w (unat b))) + surplus p"
    using inv fb drop [of "tokens_if (in_bucket (unat f) w (unat b))"]
      drop [of "surplus_if (in_bucket (unat f) w (unat b))"] by (simp_all add: bucket_inv_def mem)
  let ?x = "?y\<lparr>bucket_token_amount := bucket_token_amount ?y - progress_tokens p,
    surplus_energy_amount := surplus_energy_amount ?y - surplus p\<rparr>"
  have taken: "take_from_bucket (progress_energy p) ?y = Inr ?x"
    using y live(1) by (simp add: take_from_bucket_def get_surplus)
  have tok: "tokens = user_sum (m(u := None)) (tokens_if (active_at w)) + progress_tokens p + stale"
    using inv drop [of "tokens_if (active_at w)"] energy_at_bucket(1) [OF pok live]
    by (simp add: bucket_inv_def)
  have "bucket_inv (m(u := None)) w f (B(b := Some ?x)) (tokens - progress_tokens p)
      (energy - energy_at p w) stale"
    unfolding bucket_inv_def
  proof (intro conjI allI impI)
    show "energy - energy_at p w = user_sum (m(u := None)) (\<lambda>p. energy_at p w)"
      using inv drop [of "\<lambda>p. energy_at p w"] by (simp add: bucket_inv_def)
    show "tokens - progress_tokens p = user_sum (m(u := None)) (tokens_if (active_at w)) + stale"
      using tok by simp
    fix c assume c: "f \<le> c"
    show "bucket_token_amount (bucket_of (B(b := Some ?x)) c) =
        user_sum (m(u := None)) (tokens_if (in_bucket (unat f) w (unat c))) + (if c = f then stale else 0)"
      using inv c y(1) drop [of "tokens_if (in_bucket (unat f) w (unat c))"]
      by (cases "c = b") (simp_all add: bucket_inv_def mem)
    show "surplus_energy_amount (bucket_of (B(b := Some ?x)) c) =
        user_sum (m(u := None)) (surplus_if (in_bucket (unat f) w (unat c)))"
      using inv c y(2) drop [of "surplus_if (in_bucket (unat f) w (unat c))"]
      by (cases "c = b") (simp_all add: bucket_inv_def mem)
  qed
  then show "\<exists>x. take_from_bucket (progress_energy p) ?y = Inr x \<and> progress_tokens p \<le> tokens \<and>
      bucket_inv (m(u := None)) w f (B(b := Some x)) (tokens - progress_tokens p) (energy - energy_at p w) stale"
    using taken tok by (intro exI [of _ ?x]) simp
qed

text \<open>A user enters the sums, with an energy of the current week.\<close>

lemma bucket_inv_enter:
  assumes inv: "bucket_inv m w f B tokens energy stale" and fin: "finite (dom m)" and u: "m u = None"
    and p: "progress_ok first (unat f) w p" "unat (progress_week p) = w"
  shows "energy_at p w = get_energy_amount (progress_energy p)"
    and "progress_tokens p = 0 \<Longrightarrow>
      bucket_inv (m(u := Some p)) w f B tokens (energy + energy_at p w) stale"
    and "0 < progress_tokens p \<Longrightarrow>
      b = of_nat (unat f + energy_at p w div (7 * progress_tokens p)) \<Longrightarrow>
      \<exists>x. put_into_bucket (progress_energy p) (bucket_of B b) = Inr x \<and>
        bucket_inv (m(u := Some p)) w f (B(b := Some x)) (tokens + progress_tokens p)
          (energy + energy_at p w) stale"
proof -
  have add: "user_sum (m(u := Some p)) g = user_sum m g + g p" for g
    using user_sum_upd [OF fin, of u "Some p" g] u by simp
  show at: "energy_at p w = get_energy_amount (progress_energy p)"
    using p(2) by (simp add: energy_at_def get_energy_amount_nat)
  then have pos: "0 < energy_at p w" using p(1) by (simp add: progress_ok_def get_energy_amount_nat)
  {
    assume "progress_tokens p = 0"
    then have "\<not> active_at w p" "\<And>b. \<not> in_bucket (unat f) w b p"
      by (simp_all add: active_at_def in_bucket_def)
    with inv add show "bucket_inv (m(u := Some p)) w f B tokens (energy + energy_at p w) stale"
      by (simp add: bucket_inv_def)
  }
  assume live: "0 < progress_tokens p" and b: "b = of_nat (unat f + energy_at p w div (7 * progress_tokens p))"
  have ub: "unat b = unat f + energy_at p w div (7 * progress_tokens p)"
    unfolding b by (rule unat_of_nat_fits [OF bucket_index_fits [OF p(1) live pos]])
  then have fb: "f \<le> b" by (simp add: word_le_nat_alt)
  have mem: "in_bucket (unat f) w (unat c) p \<longleftrightarrow> c = b" for c
    using energy_at_bucket(2) [OF p(1) live pos] ub by (simp add: word_unat_eq_iff)
  let ?y = "bucket_of B b"
  let ?x = "?y\<lparr>bucket_token_amount := bucket_token_amount ?y + progress_tokens p,
    surplus_energy_amount := surplus_energy_amount ?y + surplus p\<rparr>"
  have put: "put_into_bucket (progress_energy p) ?y = Inr ?x"
    using live by (simp add: put_into_bucket_def get_surplus)
  have "bucket_inv (m(u := Some p)) w f (B(b := Some ?x)) (tokens + progress_tokens p)
      (energy + energy_at p w) stale"
    unfolding bucket_inv_def
  proof (intro conjI allI impI)
    show "energy + energy_at p w = user_sum (m(u := Some p)) (\<lambda>p. energy_at p w)"
      using inv add by (simp add: bucket_inv_def)
    show "tokens + progress_tokens p = user_sum (m(u := Some p)) (tokens_if (active_at w)) + stale"
      using inv add [of "tokens_if (active_at w)"] energy_at_bucket(1) [OF p(1) live pos]
      by (simp add: bucket_inv_def)
    fix c assume c: "f \<le> c"
    show "bucket_token_amount (bucket_of (B(b := Some ?x)) c) =
        user_sum (m(u := Some p)) (tokens_if (in_bucket (unat f) w (unat c))) + (if c = f then stale else 0)"
      using inv c add [of "tokens_if (in_bucket (unat f) w (unat c))"]
      by (cases "c = b") (simp_all add: bucket_inv_def mem)
    show "surplus_energy_amount (bucket_of (B(b := Some ?x)) c) =
        user_sum (m(u := Some p)) (surplus_if (in_bucket (unat f) w (unat c)))"
      using inv c add [of "surplus_if (in_bucket (unat f) w (unat c))"]
      by (cases "c = b") (simp_all add: bucket_inv_def mem)
  qed
  with put show "\<exists>x. put_into_bucket (progress_energy p) ?y = Inr x \<and>
      bucket_inv (m(u := Some p)) w f (B(b := Some x)) (tokens + progress_tokens p)
        (energy + energy_at p w) stale"
    by (intro exI [of _ ?x]) simp
qed

end
