(* ===== verification/WeeklyInvariant.thy ===== *)
theory WeeklyInvariant
  imports WeeklyFacts
begin

text \<open>
  The invariant of the weekly rewards' storage and that the operations keep it: the weekly
  update, and the update of one user that every claim and every energy update starts with.
\<close>

section \<open>Invariant\<close>

abbreviation current_week_no :: "'s weekly_storage_scheme \<Rightarrow> nat" where
  "current_week_no st \<equiv> unat (last_global_update_week st)"

text \<open>The energy of a user counted in a past week, if the user has not claimed that week yet.\<close>

definition unclaimed_energy :: "week \<Rightarrow> claim_progress \<Rightarrow> nat" where
  "unclaimed_energy w p = (if progress_week p \<le> w then energy_at p (unat w) else 0)"

definition past_weeks_ok :: "'s weekly_storage_scheme \<Rightarrow> progress_map \<Rightarrow> bool" where
  "past_weeks_ok st m \<longleftrightarrow>
     (\<forall>w<last_global_update_week st. total_energy_for_week st w = 0 \<or>
        user_sum m (unclaimed_energy w) \<le> total_energy_for_week st w)"

definition weekly_totals_ok :: "'s weekly_storage_scheme \<Rightarrow> progress_map \<Rightarrow> bool" where
  "weekly_totals_ok st m \<longleftrightarrow>
     progress_map_ok (unat (first_week_start_epoch st)) (unat (first_bucket_id st)) (current_week_no st) m \<and>
     (\<exists>stale. bucket_inv m (current_week_no st) (first_bucket_id st) (locked_tokens_in_bucket st)
        (total_locked_tokens_for_week st (last_global_update_week st))
        (total_energy_for_week st (last_global_update_week st)) stale)"

definition weekly_inv :: "'s weekly_storage_scheme \<Rightarrow> bool" where
  "weekly_inv st \<longleftrightarrow>
     weekly_totals_ok st (current_claim_progress st) \<and> past_weeks_ok st (current_claim_progress st) \<and>
     unat (first_bucket_id st) \<le> current_week_no st \<and>
     unat (first_week_start_epoch st) + 7 * current_week_no st < 2 ^ 62 \<and>
     (last_global_update_week st = 0 \<longrightarrow>
        current_claim_progress st = Map.empty \<and> locked_tokens_in_bucket st = Map.empty) \<and>
     (\<forall>w>last_global_update_week st.
        total_locked_tokens_for_week st w = 0 \<and> total_energy_for_week st w = 0) \<and>
     (\<forall>w\<ge>last_global_update_week st. total_rewards_for_week st w = [])"

text \<open>
  What updates leave alone: the users, the calendar, what a contract adds to the record; of
  the past weeks they only clear entries.
\<close>

definition weekly_frame :: "'s weekly_storage_scheme \<Rightarrow> 's weekly_storage_scheme \<Rightarrow> bool" where
  "weekly_frame st st' \<longleftrightarrow>
     st' = st\<lparr>last_global_update_week := last_global_update_week st',
              total_rewards_for_week := total_rewards_for_week st',
              total_energy_for_week := total_energy_for_week st',
              total_locked_tokens_for_week := total_locked_tokens_for_week st',
              first_bucket_id := first_bucket_id st',
              locked_tokens_in_bucket := locked_tokens_in_bucket st'\<rparr> \<and>
     (\<forall>w. total_rewards_for_week st' w = total_rewards_for_week st w \<or> total_rewards_for_week st' w = []) \<and>
     (\<forall>w<last_global_update_week st.
        total_energy_for_week st' w = total_energy_for_week st w \<or> total_energy_for_week st' w = 0)"

lemma weekly_frame_refl: "weekly_frame st st"
  by (simp add: weekly_frame_def)

lemma weekly_frameD:
  assumes "weekly_frame st st'"
  shows "total_rewards_for_week st' w = total_rewards_for_week st w \<or> total_rewards_for_week st' w = []"
    and "w < last_global_update_week st \<Longrightarrow>
      total_energy_for_week st' w = total_energy_for_week st w \<or> total_energy_for_week st' w = 0"
  using assms unfolding weekly_frame_def by (metis, metis)

lemma weekly_frame_sel:
  assumes "weekly_frame st st'"
  shows "current_claim_progress st' = current_claim_progress st"
    "first_week_start_epoch st' = first_week_start_epoch st"
    "energy_factory_address st' = energy_factory_address st"
proof -
  have eq: "st' = st\<lparr>last_global_update_week := last_global_update_week st',
              total_rewards_for_week := total_rewards_for_week st',
              total_energy_for_week := total_energy_for_week st',
              total_locked_tokens_for_week := total_locked_tokens_for_week st',
              first_bucket_id := first_bucket_id st',
              locked_tokens_in_bucket := locked_tokens_in_bucket st'\<rparr>"
    using assms by (simp add: weekly_frame_def)
  show "current_claim_progress st' = current_claim_progress st"
    "first_week_start_epoch st' = first_week_start_epoch st"
    "energy_factory_address st' = energy_factory_address st"
    by (subst eq; simp)+
qed

lemma bucket_inv_empty:
  "bucket_inv Map.empty w f Map.empty 0 0 0"
  by (simp add: bucket_inv_def bucket_of_def)

lemma progress_map_ok_empty [simp]: "progress_map_ok first f w Map.empty"
  by (simp add: progress_map_ok_def)

section \<open>The weekly update\<close>

lemma perform_weekly_update_ok:
  assumes inv: "weekly_inv st" and w: "last_global_update_week st \<le> cw" "0 < cw"
    and bound: "unat (first_week_start_epoch st) + 7 * unat cw < 2 ^ 62"
  obtains st' where "perform_weekly_update st cw = Inr st'" and "weekly_inv st'"
    and "last_global_update_week st' = cw" and "weekly_frame st st'"
proof -
  let ?W = "last_global_update_week st" and ?m = "current_claim_progress st"
  consider "?W = cw" | "?W \<noteq> cw" "?W = 0" | "0 < ?W" "?W < cw"
    using w by (auto simp: word_gt_0 le_less)
  then show thesis
  proof cases
    case 1
    then show thesis
      using that [of st] inv by (simp add: perform_weekly_update_def weekly_frame_refl)
  next
    case 2
    let ?st = "st\<lparr>last_global_update_week := cw\<rparr>"
    have empty: "?m = Map.empty" "locked_tokens_in_bucket st = Map.empty"
      using inv 2 by (simp_all add: weekly_inv_def)
    obtain stale where "bucket_inv ?m 0 (first_bucket_id st) Map.empty
        (total_locked_tokens_for_week st 0) (total_energy_for_week st 0) stale"
      using inv 2 empty by (auto simp: weekly_inv_def weekly_totals_ok_def)
    then have zero: "total_energy_for_week st 0 = 0"
      by (simp add: bucket_inv_def empty)
    have "total_energy_for_week st v = 0 \<and> total_rewards_for_week st v = []" for v
      using inv 2 zero by (cases "v = 0") (auto simp: weekly_inv_def word_gt_0)
    moreover have "total_locked_tokens_for_week st cw = 0"
      using inv 2 w by (auto simp: weekly_inv_def)
    moreover have "\<forall>v>cw. total_locked_tokens_for_week st v = 0"
      using inv 2 w by (auto simp: weekly_inv_def)
    ultimately have "weekly_inv ?st"
      using inv 2 empty bound w bucket_inv_empty [of "unat cw" "first_bucket_id st"]
      by (auto simp: weekly_inv_def weekly_totals_ok_def past_weeks_ok_def)
    moreover have "perform_weekly_update st cw = Inr ?st"
      using 2 by (simp add: perform_weekly_update_def)
    ultimately show thesis using that [of ?st] 2 by (simp add: weekly_frame_def)
  next
    case 3
    define n where "n = unat (cw - ?W)"
    let ?f = "first_bucket_id st"
    have lt: "unat ?W < unat cw" using 3 by (simp add: word_less_nat_alt)
    have "n = unat cw - unat ?W" unfolding n_def using 3 by (intro unat_sub) simp
    with lt have n: "unat cw = unat ?W + n" by simp
    have f: "unat ?f \<le> unat ?W" using inv by (simp add: weekly_inv_def)
    have cw32: "unat cw < 2 ^ 32" using unsigned_less [of cw, where ?'a = nat] by simp
    obtain stale where b: "bucket_inv ?m (unat ?W) ?f (locked_tokens_in_bucket st)
        (total_locked_tokens_for_week st ?W) (total_energy_for_week st ?W) stale"
      and ok: "progress_map_ok (unat (first_week_start_epoch st)) (unat ?f) (unat ?W) ?m"
      using inv by (auto simp: weekly_inv_def weekly_totals_ok_def)
    have fits: "unat ?f + n < 2 ^ 64" using f n cw32 by simp
    obtain B' tokens' energy' stale' where shift: "shift_loop n ?f (locked_tokens_in_bucket st)
        (total_locked_tokens_for_week st ?W) (total_energy_for_week st ?W) =
        Inr (?f + of_nat n, B', tokens', energy')"
      and b': "bucket_inv ?m (unat cw) (?f + of_nat n) B' tokens' energy' stale'"
      using bucket_inv_shift_loop [OF b ok fits] n by auto
    have f': "unat (?f + of_nat n) = unat ?f + n"
      by (rule unat_add_of_nat [OF fits])
    have ok': "progress_map_ok (unat (first_week_start_epoch st)) (unat (?f + of_nat n)) (unat cw) ?m"
      using progress_map_ok_later [OF ok, of n] n f' by simp
    define old where "old = cw - USER_MAX_CLAIM_WEEKS - 1"
    let ?en = "(total_energy_for_week st)(cw := energy')"
    let ?clear = "USER_MAX_CLAIM_WEEKS + 1 < cw"
    let ?st = "st\<lparr>last_global_update_week := cw,
        total_rewards_for_week := (if ?clear then (total_rewards_for_week st)(old := [])
          else total_rewards_for_week st),
        total_energy_for_week := (if ?clear then ?en(old := 0) else ?en),
        total_locked_tokens_for_week := (total_locked_tokens_for_week st)(?W := 0, cw := tokens'),
        first_bucket_id := ?f + of_nat n, locked_tokens_in_bucket := B'\<rparr>"
    have old: "?clear \<Longrightarrow> old \<noteq> cw" by (simp add: old_def USER_MAX_CLAIM_WEEKS_def)
    have run: "perform_weekly_update st cw = Inr ?st"
      using 3 shift by (auto simp: perform_weekly_update_def shift_buckets_and_update_tokens_energy_def Let_def old_def n_def)
    have "past_weeks_ok ?st ?m"
      unfolding past_weeks_ok_def
    proof (intro allI impI)
      fix v assume v: "v < last_global_update_week ?st"
      have "total_energy_for_week st v = 0 \<or> user_sum ?m (unclaimed_energy v) \<le> total_energy_for_week st v"
      proof (cases "v = ?W")
        case True
        have "user_sum ?m (unclaimed_energy v) = user_sum ?m (\<lambda>p. energy_at p (unat ?W))"
          using ok True
          by (intro user_sum_cong) (auto simp: unclaimed_energy_def progress_map_ok_def progress_ok_def word_le_nat_alt)
        then show ?thesis using b True by (simp add: bucket_inv_def)
      next
        case False
        then show ?thesis
          using inv by (cases "v < ?W") (auto simp: weekly_inv_def past_weeks_ok_def not_less le_less)
      qed
      moreover have "v \<noteq> cw" using v by auto
      then have "total_energy_for_week ?st v = 0 \<or> total_energy_for_week ?st v = total_energy_for_week st v"
        by simp
      ultimately show "total_energy_for_week ?st v = 0 \<or> user_sum ?m (unclaimed_energy v) \<le> total_energy_for_week ?st v"
        by (elim disjE; simp only:; blast)
    qed
    moreover have "weekly_totals_ok ?st ?m"
      using ok' b' old by (auto simp: weekly_totals_ok_def)
    moreover have "\<forall>v>cw. total_locked_tokens_for_week ?st v = 0 \<and> total_energy_for_week ?st v = 0"
      using inv 3 by (auto simp: weekly_inv_def)
    moreover have "\<forall>v\<ge>cw. total_rewards_for_week ?st v = []"
      using inv 3 by (auto simp: weekly_inv_def)
    moreover have "unat (?f + of_nat n) \<le> unat cw" using f f' n by simp
    ultimately have "weekly_inv ?st"
      using bound w(2) unfolding weekly_inv_def by (simp add: word_gt_0)
    moreover have "weekly_frame st ?st" using old 3 by (auto simp: weekly_frame_def)
    ultimately show thesis using that [OF run] by simp
  qed
qed

section \<open>The update of one user\<close>

lemma init_and_update_bucket_eq:
  "init_and_update_bucket st b g = and_then (g (bucket_of (locked_tokens_in_bucket st) b))
     (\<lambda>x. Inr (st\<lparr>locked_tokens_in_bucket := (locked_tokens_in_bucket st)(b := Some x)\<rparr>))"
  by (simp add: init_and_update_bucket_def bucket_of_def)

text \<open>
  \<open>d\<close> is what is left in week \<open>w\<close> of the energy \<open>prev\<close> that the stored progress of a user has;
  a user without progress has none.
\<close>

definition left_in_week :: "nat \<Rightarrow> claim_progress option \<Rightarrow> energy \<Rightarrow> energy \<Rightarrow> bool" where
  "left_in_week w x prev d \<longleftrightarrow>
     (case x of
        Some p \<Rightarrow> prev = progress_energy p \<and> get_energy_amount d = energy_at p w \<and>
          total_locked_tokens d = progress_tokens p
      | None \<Rightarrow> get_energy_amount d = 0 \<and> total_locked_tokens d = 0)"

lemma reallocate_leave:
  assumes inv: "bucket_inv m w (first_bucket_id st) (locked_tokens_in_bucket st) tokens energy stale"
    and ok: "progress_map_ok first (unat (first_bucket_id st)) w m" and d: "left_in_week w (m u) prev d"
  obtains opt B tokens' stale' where "get_bucket_id_for_energy st d = Inr opt"
    and "(case opt of Some b \<Rightarrow> init_and_update_bucket st b (take_from_bucket prev) | None \<Rightarrow> Inr st) =
      Inr (st\<lparr>locked_tokens_in_bucket := B\<rparr>)"
    and "bucket_inv (m(u := None)) w (first_bucket_id st) B tokens' (energy - get_energy_amount d) stale'"
    and "get_energy_amount d \<le> energy"
    and "if opt = None then tokens' = tokens
      else total_locked_tokens d \<le> tokens \<and> tokens' = tokens - total_locked_tokens d"
proof (cases "m u")
  case None
  then have "get_energy_amount d = 0" "total_locked_tokens d = 0" "m(u := None) = m"
    using d by (auto simp: left_in_week_def)
  then show thesis
    using that [of None "locked_tokens_in_bucket st" tokens stale] inv by (simp add: get_bucket_id_for_energy_def)
next
  case (Some p)
  let ?f = "unat (first_bucket_id st)"
  have dp: "prev = progress_energy p" "get_energy_amount d = energy_at p w" "total_locked_tokens d = progress_tokens p"
    using d Some by (simp_all add: left_in_week_def)
  have pok: "progress_ok first ?f w p" using ok Some by (simp add: progress_map_ok_def)
  note leave = bucket_inv_leave [OF inv ok Some]
  show thesis
  proof (cases "0 < progress_tokens p \<and> 0 < energy_at p w")
    case True
    obtain b :: u64 where b: "b = of_nat (?f + energy_at p w div (7 * progress_tokens p))" by simp
    obtain x where x: "take_from_bucket prev (bucket_of (locked_tokens_in_bucket st) b) = Inr x"
      "progress_tokens p \<le> tokens"
      "bucket_inv (m(u := None)) w (first_bucket_id st) ((locked_tokens_in_bucket st)(b := Some x))
        (tokens - progress_tokens p) (energy - energy_at p w) stale"
      using leave(3) [OF _ _ b] True dp by auto
    have "get_bucket_id_for_energy st d = Inr (Some b)"
      using get_bucket_id_Inr [OF dp(2,3) pok] True by (simp only: b if_True simp_thms)
    then show thesis
    proof (rule that)
      show "(case Some b of Some b \<Rightarrow> init_and_update_bucket st b (take_from_bucket prev) | None \<Rightarrow> Inr st) =
          Inr (st\<lparr>locked_tokens_in_bucket := (locked_tokens_in_bucket st)(b := Some x)\<rparr>)"
        using x(1) by (simp add: init_and_update_bucket_eq)
    qed (use x leave(1) dp in simp_all)
  next
    case False
    then show thesis
      using that [of None "locked_tokens_in_bucket st" tokens "stale + tokens_if (active_at w) p"]
        get_bucket_id_Inr [OF dp(2,3) pok] leave(1,2) dp by auto
  qed
qed

text \<open>The energy \<open>e\<close> of a user fits a bucket.\<close>

definition energy_fits :: "'s weekly_storage_scheme \<Rightarrow> energy \<Rightarrow> bool" where
  "energy_fits st e \<longleftrightarrow>
     unat (first_bucket_id st) + get_energy_amount e div (7 * total_locked_tokens e) < 2 ^ 64"

definition new_progress :: "energy \<Rightarrow> week \<Rightarrow> claim_progress option" where
  "new_progress e w =
     (if 0 < get_energy_amount e then Some \<lparr>progress_energy = e, progress_week = w\<rparr> else None)"

lemma get_bucket_id_buckets [simp]:
  "get_bucket_id_for_energy (st\<lparr>locked_tokens_in_bucket := B\<rparr>) e = get_bucket_id_for_energy st e"
  by (simp add: get_bucket_id_for_energy_def Let_def)

lemma get_bucket_id_fits:
  assumes "get_bucket_id_for_energy st e = Inr opt" "unat (first_bucket_id st) < 2 ^ 64"
  shows "energy_fits st e"
proof -
  have "get_energy_amount e div total_locked_tokens e div 7 = get_energy_amount e div (7 * total_locked_tokens e)"
    by (simp add: div_mult2_eq [symmetric] mult.commute)
  then show ?thesis
    using assms
    by (cases "total_locked_tokens e = 0"; cases "get_energy_amount e = 0")
      (simp_all add: get_bucket_id_for_energy_def energy_fits_def weeks_simps Let_def add.commute split: if_splits)
qed

lemma reallocate_enter:
  assumes inv: "bucket_inv m (unat w) (first_bucket_id st) (locked_tokens_in_bucket st) tokens energy stale"
    and ok: "progress_map_ok first (unat (first_bucket_id st)) (unat w) m" and u: "m u = None"
    and e: "unat (last_update_epoch e) < first + 7 * unat w" "energy_fits st e"
  obtains opt B tokens' stale' where "get_bucket_id_for_energy st e = Inr opt"
    and "(case opt of Some b \<Rightarrow> init_and_update_bucket st b (put_into_bucket e) | None \<Rightarrow> Inr st) =
      Inr (st\<lparr>locked_tokens_in_bucket := B\<rparr>)"
    and "bucket_inv (m(u := new_progress e w)) (unat w) (first_bucket_id st) B tokens'
      (energy + get_energy_amount e) stale'"
    and "progress_map_ok first (unat (first_bucket_id st)) (unat w) (m(u := new_progress e w))"
    and "tokens' = (if opt = None then tokens else tokens + total_locked_tokens e)"
proof -
  let ?f = "unat (first_bucket_id st)" and ?p = "\<lparr>progress_energy = e, progress_week = w\<rparr>"
  have fin: "finite (dom m)" using ok by (simp add: progress_map_ok_def)
  show thesis
  proof (cases "get_energy_amount e = 0")
    case True
    then have "new_progress e w = None" "m(u := None) = m" using u by (auto simp: new_progress_def)
    then show thesis
      using that [of None "locked_tokens_in_bucket st" tokens stale] inv ok True
      by (simp add: get_bucket_id_for_energy_def Let_def)
  next
    case False
    then have np: "new_progress e w = Some ?p" by (simp add: new_progress_def)
    have pok: "progress_ok first ?f (unat w) ?p"
      using False e by (simp add: progress_ok_def energy_fits_def full_weeks_def get_energy_amount_nat)
    have ok': "progress_map_ok first ?f (unat w) (m(u := new_progress e w))"
      using ok pok by (auto simp: progress_map_ok_def np)
    note enter = bucket_inv_enter [OF inv fin u pok]
    have at: "get_energy_amount e = energy_at ?p (unat w)" using enter(1) by simp
    have bucket: "get_bucket_id_for_energy st e = Inr
        (if 0 < total_locked_tokens e
         then Some (of_nat (?f + energy_at ?p (unat w) div (7 * total_locked_tokens e))) else None)"
      using get_bucket_id_Inr [OF at _ pok] False at by simp
    show thesis
    proof (cases "total_locked_tokens e = 0")
      case True
      then show thesis
        using that [of None "locked_tokens_in_bucket st" tokens stale] bucket enter(2) ok' np at by simp
    next
      case False
      obtain b :: u64 where b: "b = of_nat (?f + energy_at ?p (unat w) div (7 * total_locked_tokens e))" by simp
      obtain x where x: "put_into_bucket e (bucket_of (locked_tokens_in_bucket st) b) = Inr x"
        "bucket_inv (m(u := Some ?p)) (unat w) (first_bucket_id st) ((locked_tokens_in_bucket st)(b := Some x))
          (tokens + total_locked_tokens e) (energy + energy_at ?p (unat w)) stale"
        using enter(3) [of b] b False by auto
      have "get_bucket_id_for_energy st e = Inr (Some b)"
        using bucket False by (simp only: b if_True simp_thms neq0_conv)
      then show thesis
      proof (rule that)
        show "(case Some b of Some b \<Rightarrow> init_and_update_bucket st b (put_into_bucket e) | None \<Rightarrow> Inr st) =
            Inr (st\<lparr>locked_tokens_in_bucket := (locked_tokens_in_bucket st)(b := Some x)\<rparr>)"
          using x(1) by (simp add: init_and_update_bucket_eq)
      qed (use x(2) ok' np at in simp_all)
    qed
  qed
qed

lemma store_claim_progress_eq:
  "store_claim_progress st user e w =
     st\<lparr>current_claim_progress := (current_claim_progress st)(user := new_progress e w)\<rparr>"
  by (simp add: store_claim_progress_def new_progress_def)

lemma past_weeks_store:
  assumes "past_weeks_ok st m" "finite (dom m)" "last_global_update_week st = w"
  shows "past_weeks_ok st (m(user := new_progress e w))"
proof -
  have "user_sum (m(user := new_progress e w)) (unclaimed_energy v) \<le> user_sum m (unclaimed_energy v)"
    if "v < w" for v
  proof -
    have "of_user (unclaimed_energy v) (new_progress e w) = 0"
      using that by (auto simp: new_progress_def unclaimed_energy_def)
    then show ?thesis
      using user_sum_upd [OF assms(2), of user "new_progress e w" "unclaimed_energy v"] by linarith
  qed
  then show ?thesis
    using assms(1,3) unfolding past_weeks_ok_def by (meson le_trans)
qed

lemma user_update_ok:
  assumes inv: "weekly_inv st" and cw: "last_global_update_week st = cw" "0 < cw"
    and d: "left_in_week (unat cw) (current_claim_progress st user) prev d"
    and e: "unat (last_update_epoch e) < unat (first_week_start_epoch st) + 7 * unat cw" "energy_fits st e"
  obtains st' where
    "and_then (update_and_get_total_tokens_amounts_after_user_energy_update st cw prev d e)
       (\<lambda>st. update_and_get_total_energy_amounts_after_user_energy_update st cw d e) = Inr st'"
    and "weekly_inv (store_claim_progress st' user e cw)"
    and "weekly_frame st st'" and "last_global_update_week st' = cw"
    and "past_weeks_ok st' (current_claim_progress st)" and "\<forall>w\<ge>cw. total_rewards_for_week st' w = []"
proof -
  let ?m = "current_claim_progress st" and ?first = "unat (first_week_start_epoch st)"
  let ?tok = "total_locked_tokens_for_week st cw" and ?en = "total_energy_for_week st cw"
  obtain stale where b: "bucket_inv ?m (unat cw) (first_bucket_id st) (locked_tokens_in_bucket st) ?tok ?en stale"
    and ok: "progress_map_ok ?first (unat (first_bucket_id st)) (unat cw) ?m"
    using inv cw by (auto simp: weekly_inv_def weekly_totals_ok_def)
  have ok1: "progress_map_ok ?first (unat (first_bucket_id st)) (unat cw) (?m(user := None))"
    using ok by (auto simp: progress_map_ok_def)
  obtain opt1 B1 tok1 stale1 where leave: "get_bucket_id_for_energy st d = Inr opt1"
      "(case opt1 of Some b \<Rightarrow> init_and_update_bucket st b (take_from_bucket prev) | None \<Rightarrow> Inr st) =
        Inr (st\<lparr>locked_tokens_in_bucket := B1\<rparr>)"
    and b1: "bucket_inv (?m(user := None)) (unat cw) (first_bucket_id st) B1 tok1 (?en - get_energy_amount d) stale1"
    and en: "get_energy_amount d \<le> ?en"
    and tok1: "if opt1 = None then tok1 = ?tok
      else total_locked_tokens d \<le> ?tok \<and> tok1 = ?tok - total_locked_tokens d"
    by (rule reallocate_leave [OF b ok d])
  let ?st1 = "st\<lparr>locked_tokens_in_bucket := B1\<rparr>"
  have b1': "bucket_inv (?m(user := None)) (unat cw) (first_bucket_id ?st1) (locked_tokens_in_bucket ?st1)
      tok1 (?en - get_energy_amount d) stale1"
    and ok1': "progress_map_ok ?first (unat (first_bucket_id ?st1)) (unat cw) (?m(user := None))"
    and fits: "energy_fits ?st1 e"
    using b1 ok1 e(2) by (simp_all add: energy_fits_def)
  obtain opt2 B2 tok2 stale2 where enter: "get_bucket_id_for_energy ?st1 e = Inr opt2"
      "(case opt2 of Some b \<Rightarrow> init_and_update_bucket ?st1 b (put_into_bucket e) | None \<Rightarrow> Inr ?st1) =
        Inr (?st1\<lparr>locked_tokens_in_bucket := B2\<rparr>)"
    and b2: "bucket_inv (?m(user := new_progress e cw)) (unat cw) (first_bucket_id st) B2 tok2
      (?en - get_energy_amount d + get_energy_amount e) stale2"
    and ok2: "progress_map_ok ?first (unat (first_bucket_id st)) (unat cw) (?m(user := new_progress e cw))"
    and tok2: "tok2 = (if opt2 = None then tok1 else tok1 + total_locked_tokens e)"
    by (rule reallocate_enter [OF b1' ok1' _ e(1) fits]) auto
  let ?st' = "st\<lparr>locked_tokens_in_bucket := B2,
      total_locked_tokens_for_week := (total_locked_tokens_for_week st)(cw := tok2),
      total_energy_for_week := (total_energy_for_week st)
        (cw := ?en - get_energy_amount d + get_energy_amount e)\<rparr>"
  have "reallocate_bucket_after_energy_update st prev d e = Inr
      (\<lparr>opt_prev_bucket = opt1, opt_current_bucket = opt2\<rparr>, st\<lparr>locked_tokens_in_bucket := B2\<rparr>)"
    using leave enter by (simp add: reallocate_bucket_after_energy_update_def)
  then have "update_and_get_total_tokens_amounts_after_user_energy_update st cw prev d e = Inr
      (st\<lparr>locked_tokens_in_bucket := B2,
          total_locked_tokens_for_week := (total_locked_tokens_for_week st)(cw := tok2)\<rparr>)"
    using tok1 tok2
    by (cases "opt1 = None"; cases "opt2 = None")
      (auto simp: update_and_get_total_tokens_amounts_after_user_energy_update_def Let_def)
  then have run: "and_then (update_and_get_total_tokens_amounts_after_user_energy_update st cw prev d e)
       (\<lambda>st. update_and_get_total_energy_amounts_after_user_energy_update st cw d e) = Inr ?st'"
    using en by (simp add: update_and_get_total_energy_amounts_after_user_energy_update_def)
  have past: "past_weeks_ok ?st' ?m"
    using inv cw by (auto simp: weekly_inv_def past_weeks_ok_def)
  have rew: "\<forall>w\<ge>cw. total_rewards_for_week ?st' w = []" using inv cw by (simp add: weekly_inv_def)
  have "past_weeks_ok ?st' (?m(user := new_progress e cw))"
    using past_weeks_store [OF past] ok cw by (simp add: progress_map_ok_def)
  moreover have "weekly_totals_ok ?st' (?m(user := new_progress e cw))"
    using ok2 b2 cw by (auto simp: weekly_totals_ok_def)
  ultimately have "weekly_inv (store_claim_progress ?st' user e cw)"
    using inv cw rew
    by (auto simp: weekly_inv_def weekly_totals_ok_def past_weeks_ok_def store_claim_progress_eq word_gt_0)
  then show thesis
    using that [OF run] past cw rew by (simp add: weekly_frame_def)
qed

lemma weekly_frame_trans:
  assumes "weekly_frame st st1" "weekly_frame st1 st2"
    and "last_global_update_week st \<le> last_global_update_week st1"
  shows "weekly_frame st st2"
proof -
  obtain a b c d f g where st1: "st1 = st\<lparr>last_global_update_week := a, total_rewards_for_week := b,
      total_energy_for_week := c, total_locked_tokens_for_week := d, first_bucket_id := f,
      locked_tokens_in_bucket := g\<rparr>"
    using assms(1) unfolding weekly_frame_def by blast
  obtain a' b' c' d' f' g' where st2: "st2 = st1\<lparr>last_global_update_week := a', total_rewards_for_week := b',
      total_energy_for_week := c', total_locked_tokens_for_week := d', first_bucket_id := f',
      locked_tokens_in_bucket := g'\<rparr>"
    using assms(2) unfolding weekly_frame_def by blast
  have "total_energy_for_week st2 w = total_energy_for_week st w \<or> total_energy_for_week st2 w = 0"
    if "w < last_global_update_week st" for w
    using that assms unfolding weekly_frame_def by (metis order_less_le_trans)
  moreover have "total_rewards_for_week st2 w = total_rewards_for_week st w \<or> total_rewards_for_week st2 w = []" for w
    using assms(1,2) unfolding weekly_frame_def by metis
  ultimately show ?thesis unfolding weekly_frame_def by (simp add: st1 st2)
qed

text \<open>The energy left is the stored one, depleted by the weeks since.\<close>

lemma left_in_week_progress:
  assumes ok: "progress_map_ok first f (unat cw) m" and bound: "first + 7 * unat cw < 2 ^ 62"
    and x: "(last_active, prev) = (case m user of
      Some p \<Rightarrow> (progress_week p, progress_energy p) | None \<Rightarrow> (0, energy_default))"
  shows "left_in_week (unat cw) (m user) prev
    (if cw \<noteq> last_active
     then deplete prev (last_update_epoch prev + ucast (cw - last_active) * EPOCHS_IN_WEEK) else prev)"
proof (cases "m user")
  case None
  then show ?thesis
    using x by (auto simp: left_in_week_def energy_default_def energy_new_def deplete_def
        get_energy_amount_nat Let_def)
next
  case (Some p)
  have p: "last_active = progress_week p" "prev = progress_energy p" using x Some by simp_all
  have pok: "progress_ok first f (unat cw) p" using ok Some by (simp add: progress_map_ok_def)
  then have le: "progress_week p \<le> cw" by (simp add: progress_ok_def word_le_nat_alt)
  let ?n = "unat cw - unat (progress_week p)"
  have diff: "ucast (cw - progress_week p) * EPOCHS_IN_WEEK = of_nat ?n * (7 :: u64)"
  proof -
    have "unat (cw - progress_week p) = ?n" using le by (rule unat_sub)
    moreover have "?n < 2 ^ 32" using unsigned_less [of cw, where ?'a = nat] by simp
    ultimately have "(ucast (cw - progress_week p) :: u64) = of_nat ?n"
      by (simp add: word_unat_eq_iff unsigned_ucast_eq unat_of_nat take_bit_nat_eq_self)
    then show ?thesis by (simp add: EPOCHS_IN_WEEK_def)
  qed
  have "unat (last_update_epoch (progress_energy p)) + 7 * ?n < 2 ^ 64"
    using pok bound le by (auto simp: progress_ok_def word_le_nat_alt)
  note dep = deplete_weeks [OF this refl]
  show ?thesis
  proof (cases "cw = progress_week p")
    case True
    then show ?thesis by (simp add: left_in_week_def Some p energy_at_def get_energy_amount_nat)
  next
    case False
    then show ?thesis
      using dep(1,2) by (simp add: left_in_week_def Some p energy_at_def get_energy_amount_nat diff)
  qed
qed

text \<open>The whole update, when it succeeds; it fails only for an energy that fits no bucket.\<close>

lemma update_user_energy_ok:
  fixes user :: address
  assumes inv: "weekly_inv st" and cw: "last_global_update_week st \<le> cw" "0 < cw"
    and bound: "unat (first_week_start_epoch st) + 7 * unat cw < 2 ^ 62"
    and e: "unat (last_update_epoch e) < unat (first_week_start_epoch st) + 7 * unat cw"
  defines "run \<equiv> update_user_energy_for_current_week st cw e (current_claim_progress st user)"
  shows "run = Inr st' \<Longrightarrow> weekly_inv (store_claim_progress st' user e cw) \<and> weekly_frame st st' \<and>
      last_global_update_week st' = cw \<and> past_weeks_ok st' (current_claim_progress st) \<and>
      (\<forall>w\<ge>cw. total_rewards_for_week st' w = [])"
    and "get_energy_amount e div (7 * total_locked_tokens e) < 2 ^ 62 \<Longrightarrow> \<exists>st'. run = Inr st'"
proof -
  let ?m = "current_claim_progress st"
  obtain st1 where week: "perform_weekly_update st cw = Inr st1" and inv1: "weekly_inv st1"
    and cw1: "last_global_update_week st1 = cw" and frame1: "weekly_frame st st1"
    by (rule perform_weekly_update_ok [OF inv cw bound])
  note sel = weekly_frame_sel [OF frame1]
  obtain last_active prev where x: "(last_active, prev) = (case ?m user of
      Some p \<Rightarrow> (progress_week p, progress_energy p) | None \<Rightarrow> (0, energy_default))"
    by (metis surj_pair)
  let ?d = "if cw \<noteq> last_active
     then deplete prev (last_update_epoch prev + ucast (cw - last_active) * EPOCHS_IN_WEEK) else prev"
  have run: "run = and_then (update_and_get_total_tokens_amounts_after_user_energy_update st1 cw prev ?d e)
       (\<lambda>st. update_and_get_total_energy_amounts_after_user_energy_update st cw ?d e)"
    by (simp add: run_def update_user_energy_for_current_week_def x [symmetric] week
        update_global_amounts_for_current_week_def Let_def)
  have "progress_map_ok (unat (first_week_start_epoch st1)) (unat (first_bucket_id st1)) (unat cw)
      (current_claim_progress st1)"
    using inv1 cw1 by (auto simp: weekly_inv_def weekly_totals_ok_def)
  from left_in_week_progress [OF this, of last_active prev user] x bound sel
  have d: "left_in_week (unat cw) (current_claim_progress st1 user) prev ?d" by simp
  have e1: "unat (last_update_epoch e) < unat (first_week_start_epoch st1) + 7 * unat cw"
    using e sel by simp
  note update = user_update_ok [OF inv1 cw1 cw(2) d e1]
  {
    assume "run = Inr st'"
    then have eq: "and_then (update_and_get_total_tokens_amounts_after_user_energy_update st1 cw prev ?d e)
       (\<lambda>st. update_and_get_total_energy_amounts_after_user_energy_update st cw ?d e) = Inr st'"
      using run by simp
    then obtain opt where "get_bucket_id_for_energy st1 e = Inr opt"
      by (auto simp: update_and_get_total_tokens_amounts_after_user_energy_update_def res_simps
          reallocate_bucket_after_energy_update_def init_and_update_bucket_eq split: option.splits)
    moreover have "unat (first_bucket_id st1) < 2 ^ 64"
      using unsigned_less [of "first_bucket_id st1", where ?'a = nat] by simp
    ultimately have "energy_fits st1 e" by (rule get_bucket_id_fits)
    from update [OF this] eq weekly_frame_trans [OF frame1] cw cw1 sel
    show "weekly_inv (store_claim_progress st' user e cw) \<and> weekly_frame st st' \<and>
      last_global_update_week st' = cw \<and> past_weeks_ok st' ?m \<and> (\<forall>w\<ge>cw. total_rewards_for_week st' w = [])"
      by auto
  }
  assume "get_energy_amount e div (7 * total_locked_tokens e) < 2 ^ 62"
  moreover have "unat (first_bucket_id st1) \<le> unat cw" "unat cw < 2 ^ 32"
    using inv1 cw1 unsigned_less [of cw, where ?'a = nat] by (simp_all add: weekly_inv_def)
  ultimately have "energy_fits st1 e" by (simp add: energy_fits_def)
  from update [OF this] show "\<exists>st'. run = Inr st'" unfolding run by blast
qed

end
