(* ===== verification/WeeklyClaims.thy ===== *)
theory WeeklyClaims
  imports WeeklyInvariant
begin

text \<open>
  Claiming: the contract behind a wrapper says what a user gets for a week; here is what that
  must satisfy, as an interface, so that a whole claim pays no more than the contract's pot
  loses, and what the claim keeps.
\<close>

section \<open>Advancing the progress\<close>

text \<open>A progress whose epochs stay in range up to the current week.\<close>

definition in_time :: "week \<Rightarrow> claim_progress \<Rightarrow> bool" where
  "in_time cw p \<longleftrightarrow> progress_week p \<le> cw \<and>
     unat (last_update_epoch (progress_energy p)) + 7 * (unat cw - unat (progress_week p)) < 2 ^ 62"

lemma advance_weeks:
  assumes "in_time cw p" "unat (progress_week p) + n \<le> unat cw"
  defines "q \<equiv> p\<lparr>progress_energy := deplete (progress_energy p)
      (last_update_epoch (progress_energy p) + of_nat n * 7), progress_week := progress_week p + of_nat n\<rparr>"
  shows "unat (progress_week q) = unat (progress_week p) + n"
    and "in_time cw q"
    and "unat w \<ge> unat (progress_week p) + n \<Longrightarrow> energy_at q (unat w) = energy_at p (unat w)"
    and "unclaimed_energy w q = (if progress_week q \<le> w then unclaimed_energy w p else 0)"
proof -
  let ?e = "progress_energy p"
  have fit: "unat (last_update_epoch ?e) + 7 * n < 2 ^ 64"
  proof -
    have "7 * n \<le> 7 * (unat cw - unat (progress_week p))" using assms(2) by simp
    then show ?thesis using assms(1) by (simp add: in_time_def)
  qed
  note dep = deplete_weeks [OF fit refl]
  have "unat cw < 2 ^ 32" using unsigned_less [of cw, where ?'a = nat] by simp
  then show week: "unat (progress_week q) = unat (progress_week p) + n"
    using assms(2) by (simp add: q_def unat_word_ariths unat_of_nat)
  have en: "energy_amount (progress_energy q) = energy_amount ?e - int (7 * total_locked_tokens ?e * n)"
    "total_locked_tokens (progress_energy q) = total_locked_tokens ?e"
    "unat (last_update_epoch (progress_energy q)) = unat (last_update_epoch ?e) + 7 * n"
    using dep by (simp_all add: q_def)
  show "in_time cw q"
    using assms(1,2) en(3) week by (simp add: in_time_def word_le_nat_alt)
  have at: "energy_at q (unat w) = energy_at p (unat w)" if "unat (progress_week p) + n \<le> unat w" for w :: week
  proof -
    obtain k where k: "unat w = unat (progress_week p) + n + k" using \<open>_ \<le> unat w\<close> le_Suc_ex by blast
    show ?thesis using en week by (simp add: energy_at_def k algebra_simps)
  qed
  then show "unat w \<ge> unat (progress_week p) + n \<Longrightarrow> energy_at q (unat w) = energy_at p (unat w)" .
  show "unclaimed_energy w q = (if progress_week q \<le> w then unclaimed_energy w p else 0)"
    using at [of w] week by (auto simp: unclaimed_energy_def word_le_nat_alt)
qed

lemma advance_week_eq: "advance_week p = p\<lparr>progress_energy := deplete (progress_energy p)
    (last_update_epoch (progress_energy p) + of_nat 1 * 7), progress_week := progress_week p + of_nat 1\<rparr>"
  by (simp add: advance_week_def EPOCHS_IN_WEEK_def)

lemma advance_multiple_weeks_eq: "advance_multiple_weeks p n = p\<lparr>progress_energy := deplete (progress_energy p)
    (last_update_epoch (progress_energy p) + of_nat (unat n) * 7), progress_week := progress_week p + of_nat (unat n)\<rparr>"
proof -
  have "unat n < 2 ^ 32" using unsigned_less [of n, where ?'a = nat] by simp
  then have "(ucast n :: u64) = of_nat (unat n)"
    by (simp add: word_unat_eq_iff unsigned_ucast_eq unat_of_nat take_bit_nat_eq_self)
  then show ?thesis by (simp add: advance_multiple_weeks_def EPOCHS_IN_WEEK_def mult.commute)
qed

section \<open>What past users are owed only shrinks\<close>

definition fewer_claims :: "week \<Rightarrow> claim_progress option \<Rightarrow> claim_progress option \<Rightarrow> bool" where
  "fewer_claims cw x y \<longleftrightarrow> (\<forall>w<cw. of_user (unclaimed_energy w) y \<le> of_user (unclaimed_energy w) x)"

lemma past_weeks_fewer:
  assumes "past_weeks_ok st m" "finite (dom m)" "fewer_claims (last_global_update_week st) (m u) y"
  shows "past_weeks_ok st (m(u := y))"
  unfolding past_weeks_ok_def
proof (intro allI impI)
  fix w assume w: "w < last_global_update_week st"
  have "user_sum (m(u := y)) (unclaimed_energy w) \<le> user_sum m (unclaimed_energy w)"
    using user_sum_upd [OF assms(2), of u y "unclaimed_energy w"] assms(3) w
    by (auto simp: fewer_claims_def)
  then show "total_energy_for_week st w = 0 \<or> user_sum (m(u := y)) (unclaimed_energy w) \<le> total_energy_for_week st w"
    using assms(1) w by (auto simp: past_weeks_ok_def intro: le_trans)
qed

lemma fewer_claims_new: "fewer_claims cw x (new_progress e cw)"
  by (auto simp: fewer_claims_def new_progress_def unclaimed_energy_def)

lemma fewer_claims_advance:
  assumes "in_time cw p" "unat (progress_week p) + unat n \<le> unat cw"
  shows "fewer_claims cw (Some p) (Some (advance_multiple_weeks p n))"
  unfolding advance_multiple_weeks_eq using advance_weeks(4) [OF assms] by (simp add: fewer_claims_def)

section \<open>The storage a claim does not touch\<close>

definition same_weekly :: "'s weekly_storage_scheme \<Rightarrow> 's weekly_storage_scheme \<Rightarrow> bool" where
  "same_weekly st st' \<longleftrightarrow>
     energy_factory_address st' = energy_factory_address st \<and>
     first_week_start_epoch st' = first_week_start_epoch st \<and>
     current_claim_progress st' = current_claim_progress st \<and>
     last_global_update_week st' = last_global_update_week st \<and>
     total_energy_for_week st' = total_energy_for_week st \<and>
     total_locked_tokens_for_week st' = total_locked_tokens_for_week st \<and>
     first_bucket_id st' = first_bucket_id st \<and> locked_tokens_in_bucket st' = locked_tokens_in_bucket st \<and>
     (\<forall>w\<ge>last_global_update_week st. total_rewards_for_week st' w = total_rewards_for_week st w)"

lemma same_weekly_trans: "same_weekly st st1 \<Longrightarrow> same_weekly st1 st2 \<Longrightarrow> same_weekly st st2"
  by (simp add: same_weekly_def)

lemma same_weekly_refl [simp]: "same_weekly st st"
  by (simp add: same_weekly_def)

lemma same_weekly_inv:
  assumes "same_weekly st st'" "weekly_inv (store_claim_progress st u e w)"
  shows "weekly_inv (store_claim_progress st' u e w)"
  using assms
  by (simp add: same_weekly_def weekly_inv_def weekly_totals_ok_def past_weeks_ok_def store_claim_progress_eq)

section \<open>The interface of the wrapper\<close>

text \<open>
  \<open>pot st m t\<close> is what the contract still has to pay in token \<open>t\<close> to users with the progress
  \<open>m\<close>. Paying one user for one week takes the payment out of it.
\<close>

locale reward_wrapper =
  fixes user_rewards :: "'s user_rewards"
    and pot :: "'s weekly_storage_scheme \<Rightarrow> progress_map \<Rightarrow> token_id \<Rightarrow> biguint"
  assumes keeps: "user_rewards w a b st = Inr (rs, st') \<Longrightarrow> w < last_global_update_week st \<Longrightarrow>
      same_weekly st st'"
    and pays: "user_rewards (progress_week p) (get_energy_amount (progress_energy p))
        (total_energy_for_week st (progress_week p)) st = Inr (rs, st') \<Longrightarrow>
      progress_week p < last_global_update_week st \<Longrightarrow> in_time (last_global_update_week st) p \<Longrightarrow>
      past_weeks_ok st m \<Longrightarrow> finite (dom m) \<Longrightarrow> m u = Some p \<Longrightarrow>
      pot st' (m(u := Some (advance_week p))) t + paid_in t rs \<le> pot st m t"
    and drops: "finite (dom m) \<Longrightarrow> fewer_claims (last_global_update_week st) (m u) y \<Longrightarrow>
      (\<forall>w\<ge>last_global_update_week st. total_rewards_for_week st w = []) \<Longrightarrow>
      pot st (m(u := y)) t \<le> pot st m t"
    and updates: "weekly_frame st st' \<Longrightarrow>
      (\<forall>w\<ge>last_global_update_week st. total_rewards_for_week st w = []) \<Longrightarrow> pot st' m t \<le> pot st m t"
    and stores: "pot (st\<lparr>current_claim_progress := x\<rparr>) m t = pot st m t"
begin

lemma claim_weeks_pays:
  assumes "claim_weeks n user_rewards p st = Inr (rs, st')" and "m u = Some p"
    and "unat (progress_week p) + n = unat (last_global_update_week st)"
    and "in_time (last_global_update_week st) p" "past_weeks_ok st m" "finite (dom m)"
  shows "\<exists>q. pot st' (m(u := Some q)) t + paid_in t rs \<le> pot st m t \<and>
    progress_week q = last_global_update_week st \<and> same_weekly st st'"
  using assms
proof (induction n arbitrary: p st rs m)
  case 0
  then have "progress_week p = last_global_update_week st" by (simp add: word_unat_eq_iff)
  with 0 show ?case by (intro exI [of _ p]) (auto simp: fun_upd_idem)
next
  case (Suc n)
  let ?cw = "last_global_update_week st" and ?q = "advance_week p"
  obtain rs1 st1 rs2 where one: "user_rewards (progress_week p) (get_energy_amount (progress_energy p))
        (total_energy_for_week st (progress_week p)) st = Inr (rs1, st1)"
    and rest: "claim_weeks n user_rewards ?q st1 = Inr (rs2, st')" and rs: "rs = rs1 @ rs2"
    using Suc.prems(1) by (auto simp: claim_single_def Let_def res_simps)
  have lt: "progress_week p < ?cw" using Suc.prems(3) by (simp add: word_less_nat_alt)
  have le1: "unat (progress_week p) + 1 \<le> unat ?cw" using Suc.prems(3) by simp
  note adv = advance_weeks [OF Suc.prems(4) le1, folded advance_week_eq]
  note same = keeps [OF one lt]
  have cw1: "last_global_update_week st1 = ?cw" using same by (simp add: same_weekly_def)
  have "fewer_claims ?cw (m u) (Some ?q)"
    using adv(4) Suc.prems(2) by (simp add: fewer_claims_def)
  then have "past_weeks_ok st (m(u := Some ?q))"
    by (rule past_weeks_fewer [OF Suc.prems(5,6)])
  then have past: "past_weeks_ok st1 (m(u := Some ?q))"
    using same by (simp add: past_weeks_ok_def same_weekly_def)
  have claims: "\<exists>q. pot st' (m(u := Some ?q, u := Some q)) t + paid_in t rs2 \<le> pot st1 (m(u := Some ?q)) t \<and>
      progress_week q = last_global_update_week st1 \<and> same_weekly st1 st'"
    using adv(1,2) Suc.prems(3,6) past by (intro Suc.IH [OF rest]) (simp_all add: cw1 del: fun_upd_apply, simp)
  have "pot st1 (m(u := Some ?q)) t + paid_in t rs1 \<le> pot st m t"
    by (rule pays [OF one lt Suc.prems(4,5,6,2)])
  moreover obtain q where "pot st' (m(u := Some q)) t + paid_in t rs2 \<le> pot st1 (m(u := Some ?q)) t"
    "progress_week q = ?cw" "same_weekly st1 st'"
    using claims cw1 by auto
  ultimately show ?case
    using same_weekly_trans [OF same] by (intro exI [of _ q]) (simp add: rs del: fun_upd_apply)
qed

text \<open>A whole claim of a user.\<close>

lemma claim_multi_pays:
  assumes run: "claim_multi env user_rewards st user = Inr (rs, st')"
    and inv: "weekly_inv st" and cw: "get_current_week env st = Inr cw"
    and time: "last_global_update_week st \<le> cw" "0 < cw"
    and bound: "unat (first_week_start_epoch st) + 7 * unat cw < 2 ^ 61"
    and epoch: "unat (get_block_epoch env) < unat (first_week_start_epoch st) + 7 * unat cw"
  shows "weekly_inv st'"
    and "pot st' (current_claim_progress st') t + paid_in t rs \<le> pot st (current_claim_progress st) t"
    and "last_global_update_week st' = cw" and "first_week_start_epoch st' = first_week_start_epoch st"
    and "energy_factory_address st' = energy_factory_address st"
proof -
  let ?e = "get_energy_entry env st user" and ?m = "current_claim_progress st"
  let ?p = "case ?m user of Some p \<Rightarrow> p | None \<Rightarrow> \<lparr>progress_energy = ?e, progress_week = cw\<rparr>"
  let ?total = "cw - progress_week ?p"
  let ?q = "if USER_MAX_CLAIM_WEEKS < ?total
    then advance_multiple_weeks ?p (?total - USER_MAX_CLAIM_WEEKS) else ?p"
  obtain st1 st2 where upd: "update_user_energy_for_current_week st cw ?e (?m user) = Inr st1"
    and weeks: "claim_weeks (unat (min ?total USER_MAX_CLAIM_WEEKS)) user_rewards ?q st1 = Inr (rs, st2)"
    and st': "st' = store_claim_progress st2 user ?e cw"
    using run cw by (auto simp: claim_multi_def Let_def res_simps)
  have e: "unat (last_update_epoch ?e) < unat (first_week_start_epoch st) + 7 * unat cw"
    using epoch by simp
  note ok = update_user_energy_ok(1) [OF inv time _ e upd]
  have inv1: "weekly_inv (store_claim_progress st1 user ?e cw)" and frame: "weekly_frame st st1"
    and cw1: "last_global_update_week st1 = cw" and past: "past_weeks_ok st1 ?m"
    and rew1: "\<forall>w\<ge>cw. total_rewards_for_week st1 w = []"
    using ok bound by simp_all
  note sel = weekly_frame_sel [OF frame]
  have rew: "\<forall>w\<ge>last_global_update_week st. total_rewards_for_week st w = []"
    using inv by (simp add: weekly_inv_def)
  have fin: "finite (dom ?m)"
    using inv by (simp add: weekly_inv_def weekly_totals_ok_def progress_map_ok_def)
  have pot1: "pot st1 ?m t \<le> pot st ?m t" by (rule updates [OF frame rew])
  have claims: "\<exists>y. pot st2 (?m(user := y)) t + paid_in t rs \<le> pot st1 ?m t \<and> same_weekly st1 st2 \<and>
      fewer_claims cw y (new_progress ?e cw)"
  proof (cases "?m user")
    case None
    then have "rs = []" "st2 = st1" "?m(user := None) = ?m" using weeks by (auto simp: fun_upd_idem)
    then show ?thesis using fewer_claims_new by (intro exI [of _ None]) simp
  next
    case (Some p)
    have pok: "unat (progress_week p) \<le> unat (last_global_update_week st)"
      "unat (last_update_epoch (progress_energy p)) < unat (first_week_start_epoch st) + 7 * unat (progress_week p)"
      using inv Some by (auto simp: weekly_inv_def weekly_totals_ok_def progress_map_ok_def progress_ok_def)
    then have le: "progress_week p \<le> cw" using time(1) by (simp add: word_le_nat_alt)
    then have intime: "in_time cw p"
      using pok bound by (simp add: in_time_def word_le_nat_alt)
    have total: "unat (cw - progress_week p) = unat cw - unat (progress_week p)"
      using le by (rule unat_sub)
    let ?q = "if USER_MAX_CLAIM_WEEKS < cw - progress_week p
      then advance_multiple_weeks p (cw - progress_week p - USER_MAX_CLAIM_WEEKS) else p"
    have q: "in_time cw ?q" "fewer_claims cw (Some p) (Some ?q)"
      "unat (progress_week ?q) + unat (min (cw - progress_week p) USER_MAX_CLAIM_WEEKS) = unat cw"
    proof (atomize (full), cases "USER_MAX_CLAIM_WEEKS < cw - progress_week p")
      case True
      let ?k = "cw - progress_week p - USER_MAX_CLAIM_WEEKS"
      have "unat ?k = unat (cw - progress_week p) - unat USER_MAX_CLAIM_WEEKS"
        using True by (intro unat_sub) simp
      then have k: "unat ?k = unat cw - unat (progress_week p) - 4" "4 < unat cw - unat (progress_week p)"
        using True total by (simp_all add: USER_MAX_CLAIM_WEEKS_def word_less_nat_alt)
      then have kle: "unat (progress_week p) + unat ?k \<le> unat cw" by simp
      note adv = advance_weeks [OF intime kle, folded advance_multiple_weeks_eq]
      have "min (cw - progress_week p) USER_MAX_CLAIM_WEEKS = USER_MAX_CLAIM_WEEKS"
        using True by (simp add: min_absorb2)
      then show "in_time cw ?q \<and> fewer_claims cw (Some p) (Some ?q) \<and>
        unat (progress_week ?q) + unat (min (cw - progress_week p) USER_MAX_CLAIM_WEEKS) = unat cw"
        using True adv(1,2) fewer_claims_advance [OF intime kle] k by (simp add: USER_MAX_CLAIM_WEEKS_def)
    next
      case False
      then have "min (cw - progress_week p) USER_MAX_CLAIM_WEEKS = cw - progress_week p"
        by (simp add: min_absorb1)
      then show "in_time cw ?q \<and> fewer_claims cw (Some p) (Some ?q) \<and>
        unat (progress_week ?q) + unat (min (cw - progress_week p) USER_MAX_CLAIM_WEEKS) = unat cw"
        using False intime total le by (simp add: fewer_claims_def word_le_nat_alt)
    qed
    have fewer: "fewer_claims (last_global_update_week st1) (?m user) (Some ?q)" using q(2) Some cw1 by simp
    have past': "past_weeks_ok st1 (?m(user := Some ?q))" by (rule past_weeks_fewer [OF past fin fewer])
    have run': "claim_weeks (unat (min (cw - progress_week p) USER_MAX_CLAIM_WEEKS)) user_rewards ?q st1 = Inr (rs, st2)"
      using weeks by (simp only: Some option.case)
    obtain y where y: "pot st2 (?m(user := Some ?q, user := Some y)) t + paid_in t rs \<le> pot st1 (?m(user := Some ?q)) t"
      "progress_week y = cw" "same_weekly st1 st2"
      using claim_weeks_pays [OF run', of "?m(user := Some ?q)" user t] q cw1 past' fin by auto
    have "pot st1 (?m(user := Some ?q)) t \<le> pot st1 ?m t"
      using drops [OF fin fewer] rew1 cw1 by simp
    with y show ?thesis using fewer_claims_new by (intro exI [of _ "Some y"]) auto
  qed
  then obtain y where y: "pot st2 (?m(user := y)) t + paid_in t rs \<le> pot st1 ?m t"
    and same: "same_weekly st1 st2" and fewer: "fewer_claims cw y (new_progress ?e cw)" by blast
  have m2: "current_claim_progress st2 = ?m" "last_global_update_week st2 = cw"
    "first_week_start_epoch st2 = first_week_start_epoch st" "energy_factory_address st2 = energy_factory_address st"
    using same sel cw1 by (simp_all add: same_weekly_def)
  show "weekly_inv st'" unfolding st' by (rule same_weekly_inv [OF same inv1])
  have "pot st2 (?m(user := y, user := new_progress ?e cw)) t \<le> pot st2 (?m(user := y)) t"
  proof (rule drops)
    show "finite (dom (?m(user := y)))" using fin by (cases y) auto
    show "fewer_claims (last_global_update_week st2) ((?m(user := y)) user) (new_progress ?e cw)"
      using fewer m2 by simp
    show "\<forall>w\<ge>last_global_update_week st2. total_rewards_for_week st2 w = []"
      using same rew1 cw1 by (simp add: same_weekly_def)
  qed
  then have "pot st2 (?m(user := new_progress ?e cw)) t + paid_in t rs \<le> pot st ?m t"
    using y pot1 by simp
  then show "pot st' (current_claim_progress st') t + paid_in t rs \<le> pot st (current_claim_progress st) t"
    by (simp add: st' store_claim_progress_eq stores m2)
  show "last_global_update_week st' = cw" "first_week_start_epoch st' = first_week_start_epoch st"
    "energy_factory_address st' = energy_factory_address st"
    using m2 by (simp_all add: st' store_claim_progress_eq)
qed

end

end
