(* ===== verification/FeesFacts.thy ===== *)
theory FeesFacts
  imports FeesCollector WeeklyClaims
begin

text \<open>
  What the fees collector owes: the fees it has not shared yet, and of the shared ones the
  parts of the users who have not claimed. Its \<open>collect_rewards_for_week\<close> with the default
  wrapper meets the interface of the weekly rewards.
\<close>

section \<open>What is owed\<close>

definition share_of :: "'s weekly_storage_scheme \<Rightarrow> week \<Rightarrow> biguint \<Rightarrow> claim_progress \<Rightarrow> biguint" where
  "share_of st w a q = a * unclaimed_energy w q div total_energy_for_week st w"

definition owed_of_list ::
  "'s weekly_storage_scheme \<Rightarrow> progress_map \<Rightarrow> week \<Rightarrow> token_id \<Rightarrow> esdt_payment list \<Rightarrow> biguint" where
  "owed_of_list st m w t ps =
     sum_list (map (\<lambda>p. if token_identifier p = t then user_sum m (share_of st w (amount p)) else 0) ps)"

abbreviation owed_in_week ::
  "'s weekly_storage_scheme \<Rightarrow> progress_map \<Rightarrow> week \<Rightarrow> token_id \<Rightarrow> biguint" where
  "owed_in_week st m w t \<equiv> owed_of_list st m w t (total_rewards_for_week st w)"

definition fees_pot :: "fees_storage \<Rightarrow> progress_map \<Rightarrow> token_id \<Rightarrow> biguint" where
  "fees_pot st m t = (\<Sum>w\<in>UNIV. accumulated_fees st w t + owed_in_week st m w t)"

lemma owed_of_list_simps [simp]:
  "owed_of_list st m w t [] = 0"
  "owed_of_list st m w t (p # ps) =
     (if token_identifier p = t then user_sum m (share_of st w (amount p)) else 0) + owed_of_list st m w t ps"
  by (simp_all add: owed_of_list_def)

lemma sum_div_le: "(\<Sum>x\<in>A. f x div (c::nat)) * c \<le> (\<Sum>x\<in>A. f x)"
  unfolding sum_distrib_right by (intro sum_mono) (rule div_mult_le_nat)

text \<open>The shares of all users together are at most the amount.\<close>

lemma shares_le:
  assumes "user_sum m (unclaimed_energy w) \<le> total_energy_for_week st w" "total_energy_for_week st w \<noteq> 0"
  shows "user_sum m (share_of st w a) \<le> a"
proof -
  let ?E = "total_energy_for_week st w"
  have "user_sum m (share_of st w a) * ?E \<le> user_sum m (\<lambda>q. a * unclaimed_energy w q)"
    unfolding user_sum_def share_of_def by (rule sum_div_le)
  also have "\<dots> \<le> a * ?E" using assms(1) by (simp add: user_sum_mult)
  finally show ?thesis using assms(2) by simp
qed

lemma owed_le_list:
  assumes "user_sum m (unclaimed_energy w) \<le> total_energy_for_week st w" "total_energy_for_week st w \<noteq> 0"
  shows "owed_of_list st m w t ps \<le> paid_in t ps"
  by (induction ps) (auto intro: add_mono shares_le [OF assms])

lemma share_mono: "unclaimed_energy w p \<le> unclaimed_energy w q \<Longrightarrow> share_of st w a p \<le> share_of st w a q"
  by (simp add: share_of_def div_le_mono)

lemma owed_fewer:
  assumes "finite (dom m)" "of_user (unclaimed_energy w) y \<le> of_user (unclaimed_energy w) (m u)"
  shows "owed_of_list st m' w t ps \<le> owed_of_list st m' w t ps"
    and "owed_of_list st (m(u := y)) w t ps \<le> owed_of_list st m w t ps"
proof -
  have "of_user (share_of st w a) y \<le> of_user (share_of st w a) (m u)" for a
    using assms(2) share_mono by (cases y; cases "m u") (auto simp: share_of_def div_le_mono)
  then have "user_sum (m(u := y)) (share_of st w a) \<le> user_sum m (share_of st w a)" for a
    using user_sum_upd [OF assms(1), of u y "share_of st w a"] by (metis add_le_imp_le_right add_le_mono le_refl)
  then show "owed_of_list st (m(u := y)) w t ps \<le> owed_of_list st m w t ps"
    by (induction ps) (auto intro: add_mono)
qed simp

section \<open>Collecting and paying a week\<close>

lemma collect_tokens_eq:
  assumes "collect_tokens w ts st = (ps, st')"
  shows "st' = st\<lparr>accumulated_fees := accumulated_fees st'\<rparr>"
    and "paid_in t ps + accumulated_fees st' w t = accumulated_fees st w t"
    and "v \<noteq> w \<Longrightarrow> accumulated_fees st' v = accumulated_fees st v"
proof -
  have "st' = st\<lparr>accumulated_fees := accumulated_fees st'\<rparr> \<and>
    paid_in t ps + accumulated_fees st' w t = accumulated_fees st w t \<and>
    (\<forall>v. v \<noteq> w \<longrightarrow> accumulated_fees st' v = accumulated_fees st v)"
    using assms
  proof (induction ts arbitrary: st ps)
    case (Cons x ts)
    let ?st = "st\<lparr>accumulated_fees := (accumulated_fees st)(w := (accumulated_fees st w)(x := 0))\<rparr>"
    obtain qs where rest: "collect_tokens w ts ?st = (qs, st')"
      and ps: "ps = (if 0 < accumulated_fees st w x then new_payment x 0 (accumulated_fees st w x) # qs else qs)"
      using Cons.prems by (auto simp: get_and_clear_accumulated_fees_def Let_def split: prod.splits)
    from Cons.IH [OF rest] have IH: "st' = ?st\<lparr>accumulated_fees := accumulated_fees st'\<rparr>"
      "paid_in t qs + accumulated_fees st' w t = accumulated_fees ?st w t"
      "\<forall>v. v \<noteq> w \<longrightarrow> accumulated_fees st' v = accumulated_fees ?st v" by auto
    have "st' = st\<lparr>accumulated_fees := accumulated_fees st'\<rparr>" using IH(1) by simp
    with IH(2,3) show ?case by (auto simp: ps)
  qed simp
  then show "st' = st\<lparr>accumulated_fees := accumulated_fees st'\<rparr>"
    and "paid_in t ps + accumulated_fees st' w t = accumulated_fees st w t"
    and "v \<noteq> w \<Longrightarrow> accumulated_fees st' v = accumulated_fees st v" by blast+
qed

lemma sum_one_changes:
  fixes f g :: "week \<Rightarrow> nat"
  assumes "f w + a \<le> g w" "\<And>v. v \<noteq> w \<Longrightarrow> f v \<le> g v"
  shows "(\<Sum>v\<in>UNIV. f v) + a \<le> (\<Sum>v\<in>UNIV. g v)"
proof -
  have "(\<Sum>v\<in>UNIV. f v) = f w + (\<Sum>v\<in>UNIV - {w}. f v)"
    "(\<Sum>v\<in>UNIV. g v) = g w + (\<Sum>v\<in>UNIV - {w}. g v)"
    by (simp_all add: sum.remove)
  moreover have "(\<Sum>v\<in>UNIV - {w}. f v) \<le> (\<Sum>v\<in>UNIV - {w}. g v)"
    by (rule sum_mono) (use assms(2) in auto)
  ultimately show ?thesis using assms(1) by linarith
qed

lemma owed_cong:
  "total_energy_for_week st' w = total_energy_for_week st w \<Longrightarrow> owed_of_list st' m w t ps = owed_of_list st m w t ps"
proof -
  assume "total_energy_for_week st' w = total_energy_for_week st w"
  then have "share_of st' w = share_of st w" by (simp add: share_of_def fun_eq_iff)
  then show ?thesis by (simp add: owed_of_list_def cong del: if_weak_cong)
qed

lemma collect_and_get_ok:
  assumes run: "collect_and_get_rewards_for_week collect_rewards_for_week w st = Inr (ps, st')"
    and past: "user_sum m (unclaimed_energy w) \<le> total_energy_for_week st w" "total_energy_for_week st w \<noteq> 0"
  shows "total_rewards_for_week st' w = ps" and "w < last_global_update_week st \<Longrightarrow> same_weekly st st'"
    and "fees_pot st' m t \<le> fees_pot st m t"
proof -
  have "total_rewards_for_week st' w = ps \<and> (w < last_global_update_week st \<longrightarrow> same_weekly st st') \<and>
    fees_pot st' m t \<le> fees_pot st m t"
  proof (cases "total_rewards_for_week st w = []")
    case False
    with run show ?thesis by (auto simp: collect_and_get_rewards_for_week_def)
  next
    case True
    obtain qs st1 where collect: "collect_tokens w (all_tokens st) st = (qs, st1)" by fastforce
    with run True have ps: "ps = qs"
      and st': "st' = st1\<lparr>total_rewards_for_week := (total_rewards_for_week st1)(w := qs)\<rparr>"
      by (auto simp: collect_and_get_rewards_for_week_def collect_rewards_for_week_def)
    note eq = collect_tokens_eq [OF collect]
    have sel: "total_rewards_for_week st1 = total_rewards_for_week st"
      "total_energy_for_week st1 = total_energy_for_week st"
      by (subst eq(1), simp)+
    have same: "w < last_global_update_week st \<longrightarrow> same_weekly st st'"
      unfolding st' by (subst (1 2) eq(1)) (auto simp: same_weekly_def)
    have "fees_pot st' m t + 0 \<le> fees_pot st m t"
      unfolding fees_pot_def
    proof (rule sum_one_changes)
      have "owed_of_list st' m w t qs \<le> paid_in t qs"
        using owed_le_list [OF past, of t qs] owed_cong [of st' w st m t qs] sel by (simp add: st')
      then show "accumulated_fees st' w t + owed_in_week st' m w t + 0 \<le>
          accumulated_fees st w t + owed_in_week st m w t"
        using eq(2) [of t] True by (simp add: st')
      fix v assume "v \<noteq> w"
      then show "accumulated_fees st' v t + owed_in_week st' m v t \<le> accumulated_fees st v t + owed_in_week st m v t"
        using eq(3) sel owed_cong [of st' v st m t "total_rewards_for_week st v"] by (simp add: st')
    qed
    with same show ?thesis by (simp add: st' ps)
  qed
  then show "total_rewards_for_week st' w = ps" and "w < last_global_update_week st \<Longrightarrow> same_weekly st st'"
    and "fees_pot st' m t \<le> fees_pot st m t" by auto
qed

lemma paid_in_shares:
  "paid_in t (user_reward_shares ps e E) =
     sum_list (map (\<lambda>p. if token_identifier p = t then amount p * e div E else 0) ps)"
  unfolding user_reward_shares_def paid_in_non_zero by (induction ps) auto

text \<open>A user who advances leaves the week, and takes exactly the user's shares.\<close>

lemma owed_advance:
  assumes "finite (dom m)" "m u = Some p" "unclaimed_energy w q = 0"
    and "unclaimed_energy w p = e" "total_energy_for_week st w = E"
  shows "owed_of_list st (m(u := Some q)) w t ps + paid_in t (user_reward_shares ps e E) = owed_of_list st m w t ps"
proof -
  have share: "user_sum (m(u := Some q)) (share_of st w a) + a * e div E = user_sum m (share_of st w a)" for a
    using user_sum_upd [OF assms(1), of u "Some q" "share_of st w a"] assms(2-5) by (simp add: share_of_def)
  show ?thesis unfolding paid_in_shares
  proof (induction ps)
    case (Cons p ps)
    then show ?case using share [of "amount p"] by (simp del: fun_upd_apply)
  qed simp
qed

lemma fees_pot_fewer:
  assumes "finite (dom m)" "\<And>w. total_rewards_for_week st w \<noteq> [] \<Longrightarrow>
      of_user (unclaimed_energy w) y \<le> of_user (unclaimed_energy w) (m u)"
  shows "fees_pot st (m(u := y)) t \<le> fees_pot st m t"
  unfolding fees_pot_def
proof (rule sum_mono)
  fix w
  show "accumulated_fees st w t + owed_in_week st (m(u := y)) w t \<le> accumulated_fees st w t + owed_in_week st m w t"
    using owed_fewer(2) [OF assms(1) assms(2)] by (cases "total_rewards_for_week st w = []") auto
qed

lemma owed_none:
  assumes "total_energy_for_week st w = 0"
  shows "owed_of_list st m w t ps = 0"
proof -
  have "user_sum m (share_of st w a) = 0" for a
    using assms by (simp add: user_sum_def share_of_def)
  then show ?thesis by (induction ps) auto
qed

section \<open>The interface is met\<close>

lemma fees_keeps:
  assumes "fees_user_rewards w a b st = Inr (rs, st')" "w < last_global_update_week st"
  shows "same_weekly st st'"
proof (cases "a = 0 \<or> b = 0 \<or> total_rewards_for_week st w \<noteq> []")
  case True
  then show ?thesis
    using assms by (auto simp: get_user_rewards_for_week_def collect_and_get_rewards_for_week_def split: if_splits)
next
  case False
  obtain qs st1 where collect: "collect_tokens w (all_tokens st) st = (qs, st1)" by fastforce
  then have "st' = st1\<lparr>total_rewards_for_week := (total_rewards_for_week st1)(w := qs)\<rparr>"
    using assms False
    by (auto simp: get_user_rewards_for_week_def collect_and_get_rewards_for_week_def collect_rewards_for_week_def)
  then show ?thesis
    using assms(2) by (subst (asm) collect_tokens_eq(1) [OF collect], subst (asm) collect_tokens_eq(1) [OF collect])
      (auto simp: same_weekly_def)
qed

lemma fees_pays:
  assumes run: "fees_user_rewards (progress_week p) (get_energy_amount (progress_energy p))
      (total_energy_for_week st (progress_week p)) st = Inr (rs, st')"
    and w: "progress_week p < last_global_update_week st" "in_time (last_global_update_week st) p"
    and past: "past_weeks_ok st m" and m: "finite (dom m)" "m u = Some p"
  shows "fees_pot st' (m(u := Some (advance_week p))) t + paid_in t rs \<le> fees_pot st m t"
proof -
  let ?w = "progress_week p" and ?e = "get_energy_amount (progress_energy p)" and ?q = "advance_week p"
  let ?E = "total_energy_for_week st ?w"
  have le: "unat ?w + 1 \<le> unat (last_global_update_week st)" using w(1) by (simp add: word_less_nat_alt)
  note adv = advance_weeks [OF w(2) le, folded advance_week_eq]
  have e: "unclaimed_energy ?w p = ?e"
    by (simp add: unclaimed_energy_def energy_at_def get_energy_amount_nat)
  have q: "unclaimed_energy ?w ?q = 0"
    using adv(1,4) by (auto simp: word_le_nat_alt)
  have fewer: "of_user (unclaimed_energy v) (Some ?q) \<le> of_user (unclaimed_energy v) (m u)" for v
    using adv(4) m(2) by simp
  show ?thesis
  proof (cases "?e = 0 \<or> ?E = 0")
    case True
    then have "rs = []" "st' = st" using run by (auto simp: get_user_rewards_for_week_def)
    then show ?thesis using fees_pot_fewer [OF m(1) fewer] by simp
  next
    case False
    then obtain ps where collect: "collect_and_get_rewards_for_week collect_rewards_for_week ?w st = Inr (ps, st')"
      and rs: "rs = user_reward_shares ps ?e ?E"
      using run by (auto simp: get_user_rewards_for_week_def res_simps)
    have le_E: "user_sum m (unclaimed_energy ?w) \<le> ?E" "?E \<noteq> 0"
      using past w(1) False by (auto simp: past_weeks_ok_def)
    note ok = collect_and_get_ok [OF collect le_E]
    have E: "total_energy_for_week st' ?w = ?E" using ok(2) w(1) by (simp add: same_weekly_def)
    have "fees_pot st' (m(u := Some ?q)) t + paid_in t rs \<le> fees_pot st' m t"
      unfolding fees_pot_def
    proof (rule sum_one_changes)
      show "accumulated_fees st' ?w t + owed_in_week st' (m(u := Some ?q)) ?w t + paid_in t rs \<le>
          accumulated_fees st' ?w t + owed_in_week st' m ?w t"
        using owed_advance [OF m q e E, of t ps] ok(1) by (simp add: rs)
      fix v
      show "accumulated_fees st' v t + owed_in_week st' (m(u := Some ?q)) v t \<le>
          accumulated_fees st' v t + owed_in_week st' m v t"
        using owed_fewer(2) [OF m(1) fewer] by simp
    qed
    also have "\<dots> \<le> fees_pot st m t" by (rule ok(3))
    finally show ?thesis .
  qed
qed

lemma fees_updates:
  assumes "weekly_frame st st'" "\<forall>w\<ge>last_global_update_week st. total_rewards_for_week st w = []"
  shows "fees_pot st' m t \<le> fees_pot st m t"
  unfolding fees_pot_def
proof (rule sum_mono)
  fix w
  obtain a b c d f g where "st' = st\<lparr>last_global_update_week := a, total_rewards_for_week := b,
      total_energy_for_week := c, total_locked_tokens_for_week := d, first_bucket_id := f,
      locked_tokens_in_bucket := g\<rparr>"
    using assms(1) unfolding weekly_frame_def by blast
  then have acc: "accumulated_fees st' = accumulated_fees st" by simp
  consider "total_rewards_for_week st' w = []"
    | "total_rewards_for_week st' w = total_rewards_for_week st w" "w < last_global_update_week st"
    using assms(2) weekly_frameD(1) [OF assms(1), of w] by (metis not_less)
  then have "owed_in_week st' m w t \<le> owed_in_week st m w t"
  proof cases
    case 2
    then have "total_energy_for_week st' w = total_energy_for_week st w \<or> total_energy_for_week st' w = 0"
      by (intro weekly_frameD(2) [OF assms(1)])
    then show ?thesis using 2(1) owed_cong [of st' w st] owed_none [of st' w] by auto
  qed simp
  then show "accumulated_fees st' w t + owed_in_week st' m w t \<le> accumulated_fees st w t + owed_in_week st m w t"
    by (simp add: acc)
qed

interpretation fees: reward_wrapper fees_user_rewards fees_pot
proof unfold_locales
  show "same_weekly st st'" if "fees_user_rewards w a b st = Inr (rs, st')" "w < last_global_update_week st"
    for w a b st rs st'
    using fees_keeps that .
  show "fees_pot st' (m(u := Some (advance_week p))) t + paid_in t rs \<le> fees_pot st m t"
    if "fees_user_rewards (progress_week p) (get_energy_amount (progress_energy p))
        (total_energy_for_week st (progress_week p)) st = Inr (rs, st')"
      "progress_week p < last_global_update_week st" "in_time (last_global_update_week st) p"
      "past_weeks_ok st m" "finite (dom m)" "m u = Some p" for p st rs st' m u t
    using fees_pays that .
  show "fees_pot st (m(u := y)) t \<le> fees_pot st m t"
    if "finite (dom m)" "fewer_claims (last_global_update_week st) (m u) y"
      "\<forall>w\<ge>last_global_update_week st. total_rewards_for_week st w = []" for m st u y t
    using that by (intro fees_pot_fewer) (auto simp: fewer_claims_def, metis not_less)
  show "fees_pot st' m t \<le> fees_pot st m t"
    if "weekly_frame st st'" "\<forall>w\<ge>last_global_update_week st. total_rewards_for_week st w = []" for st st' m t
    using fees_updates that .
  show "fees_pot (st\<lparr>current_claim_progress := x\<rparr>) m t = fees_pot st m t" for st x m t
  proof -
    have "owed_of_list (st\<lparr>current_claim_progress := x\<rparr>) m w t ps = owed_of_list st m w t ps" for w ps
      by (rule owed_cong) simp
    then show ?thesis by (simp add: fees_pot_def)
  qed
qed

end
