(* ===== verification/FeesBooks.thy ===== *)
theory FeesBooks
  imports FeesFacts
begin

text \<open>
  The fees collector as a step system with books: what it has received of every token, counting
  the locked tokens it emits, and what it has paid, counting the tokens it has the factory lock.
\<close>

section \<open>Calls\<close>

datatype fees_call =
    DepositSwapFees "esdt_payment list"
  | ClaimRewards "address option"
  | ClaimBoostedRewards "address option"
  | UpdateEnergyForUser address
  | SetLockedTokensPerBlock biguint
  | AddKnownTokens "token_id list"
  | RemoveKnownTokens "token_id list"
  | AddKnownContracts "address list"
  | RemoveKnownContracts "address list"
  | CollectorLockEpochs u64
  | CollectorLockingSc address
  | CollectorEnergyFactory address
  | AddCollectorWhitelist address
  | RemoveCollectorWhitelist address

type_synonym fees_outcome = "esdt_payment list \<times> fees_storage \<times> effect list \<times> biguint"

definition quiet :: "error + fees_storage \<Rightarrow> error + fees_outcome" where
  "quiet r = and_then r (\<lambda>st. Inr ([], st, [], 0))"

fun fees_exec :: "fees_env \<Rightarrow> fees_storage \<Rightarrow> fees_call \<Rightarrow> error + fees_outcome" where
  "fees_exec env st (DepositSwapFees ps) =
     and_then (deposit_swap_fees env st ps) (\<lambda>(st, es). Inr ([], st, es, 0))"
| "fees_exec env st (ClaimRewards user) = claim_rewards_endpoint env st user"
| "fees_exec env st (ClaimBoostedRewards user) = claim_boosted_rewards env st user"
| "fees_exec env st (UpdateEnergyForUser user) = quiet (update_energy_for_user env st user)"
| "fees_exec env st (SetLockedTokensPerBlock a) = quiet (set_locked_tokens_per_block env st a)"
| "fees_exec env st (AddKnownTokens ts) = quiet (collector_only_owner env (add_known_tokens env st ts))"
| "fees_exec env st (RemoveKnownTokens ts) = quiet (remove_known_tokens env st ts)"
| "fees_exec env st (AddKnownContracts cs) = quiet (add_known_contracts env st cs)"
| "fees_exec env st (RemoveKnownContracts cs) = quiet (remove_known_contracts env st cs)"
| "fees_exec env st (CollectorLockEpochs n) = quiet (collector_set_lock_epochs env st n)"
| "fees_exec env st (CollectorLockingSc a) = quiet (collector_set_locking_sc_address env st a)"
| "fees_exec env st (CollectorEnergyFactory a) = quiet (set_energy_factory_address env st a)"
| "fees_exec env st (AddCollectorWhitelist a) =
     quiet (and_then (add_sc_address_to_whitelist env a (collector_whitelist st))
       (\<lambda>s. Inr (st\<lparr>collector_whitelist := s\<rparr>)))"
| "fees_exec env st (RemoveCollectorWhitelist a) =
     quiet (and_then (remove_sc_address_from_whitelist env a (collector_whitelist st))
       (\<lambda>s. Inr (st\<lparr>collector_whitelist := s\<rparr>)))"

section \<open>Books\<close>

text \<open>The locked tokens a call emits: once a week, for the week before.\<close>

definition emission :: "fees_env \<Rightarrow> fees_storage \<Rightarrow> token_id \<Rightarrow> biguint" where
  "emission env st t =
     (if t = collector_locked_token_id st \<and> get_current_week env st \<noteq> Inr (last_locked_token_add_week st)
      then locked_tokens_per_block st * BLOCKS_IN_WEEK else 0)"

fun call_received :: "fees_env \<Rightarrow> fees_storage \<Rightarrow> fees_call \<Rightarrow> token_id \<Rightarrow> biguint" where
  "call_received env st (DepositSwapFees ps) t = paid_in t ps"
| "call_received env st (ClaimRewards user) t = emission env st t"
| "call_received env st (ClaimBoostedRewards user) t = emission env st t"
| "call_received env st (SetLockedTokensPerBlock a) t = emission env st t"
| "call_received env st call t = 0"

text \<open>Burning a deposit of locked tokens is no payment.\<close>

fun call_paid :: "fees_env \<Rightarrow> fees_storage \<Rightarrow> fees_call \<Rightarrow> effect list \<Rightarrow> biguint \<Rightarrow> token_id \<Rightarrow> biguint" where
  "call_paid env st (DepositSwapFees ps) es v t = 0"
| "call_paid env st call es v t =
     outflow t es + (if query_locked_token_id env st = Inr t then v else 0)"

record fees_books =
  book_storage :: fees_storage
  book_epoch :: u64
  book_received :: "token_id \<Rightarrow> biguint"
  book_paid :: "token_id \<Rightarrow> biguint"

text \<open>Block epochs never go back, so a call from an earlier epoch does not exist.\<close>

definition fees_step :: "fees_books \<Rightarrow> fees_env \<times> fees_call \<Rightarrow> error + fees_books" where
  "fees_step b x =
     (let (env, call) = x; st = book_storage b in
      require (book_epoch b \<le> get_block_epoch env) (CallFailed ''block of the past'')
     (and_then (fees_exec env st call) (\<lambda>(qs, st', es, v).
      Inr \<lparr>book_storage = st', book_epoch = get_block_epoch env,
           book_received = (\<lambda>t. book_received b t + call_received env st call t),
           book_paid = (\<lambda>t. book_paid b t + call_paid env st call es v t)\<rparr>)))"

definition books_inv :: "fees_books \<Rightarrow> bool" where
  "books_inv b \<longleftrightarrow> weekly_inv (book_storage b) \<and>
     (\<forall>t. fees_pot (book_storage b) (current_claim_progress (book_storage b)) t + book_paid b t \<le> book_received b t) \<and>
     first_week_start_epoch (book_storage b) \<le> book_epoch b \<and> unat (book_epoch b) < 2 ^ 33 \<and>
     current_week_no (book_storage b) \<le>
       (unat (book_epoch b) - unat (first_week_start_epoch (book_storage b))) div 7 + 1"

definition fees_admissible :: "fees_env \<times> fees_call \<Rightarrow> bool" where
  "fees_admissible x \<longleftrightarrow> unat (get_block_epoch (fst x)) < 2 ^ 33"

section \<open>Every call keeps the books\<close>

text \<open>What a call does, in week \<open>cw\<close>, with \<open>inc\<close> received and \<open>out\<close> paid.\<close>

definition call_ok ::
  "fees_storage \<Rightarrow> fees_storage \<Rightarrow> week \<Rightarrow> (token_id \<Rightarrow> biguint) \<Rightarrow> (token_id \<Rightarrow> biguint) \<Rightarrow> bool" where
  "call_ok st st' cw inc out \<longleftrightarrow> weekly_inv st' \<and>
     (\<forall>t. fees_pot st' (current_claim_progress st') t + out t \<le>
        fees_pot st (current_claim_progress st) t + inc t) \<and>
     first_week_start_epoch st' = first_week_start_epoch st \<and>
     (last_global_update_week st' = last_global_update_week st \<or> last_global_update_week st' = cw)"

definition in_week :: "fees_env \<Rightarrow> fees_storage \<Rightarrow> week \<Rightarrow> bool" where
  "in_week env st cw \<longleftrightarrow> get_current_week env st = Inr cw \<and> last_global_update_week st \<le> cw \<and> 0 < cw \<and>
     unat (first_week_start_epoch st) + 7 * unat cw < 2 ^ 61 \<and>
     unat (get_block_epoch env) < unat (first_week_start_epoch st) + 7 * unat cw"

lemma weekly_inv_collector [simp]:
  "weekly_inv (st\<lparr>accumulated_fees := a\<rparr>) = weekly_inv st"
  "weekly_inv (st\<lparr>last_locked_token_add_week := w\<rparr>) = weekly_inv st"
  "weekly_inv (st\<lparr>locked_tokens_per_block := n\<rparr>) = weekly_inv st"
  "weekly_inv (st\<lparr>known_tokens := k, all_tokens := ts\<rparr>) = weekly_inv st"
  "weekly_inv (st\<lparr>known_contracts := c\<rparr>) = weekly_inv st"
  "weekly_inv (st\<lparr>collector_lock_epochs := e\<rparr>) = weekly_inv st"
  "weekly_inv (st\<lparr>collector_locking_sc_address := o1\<rparr>) = weekly_inv st"
  "weekly_inv (st\<lparr>energy_factory_address := o1\<rparr>) = weekly_inv st"
  "weekly_inv (st\<lparr>collector_whitelist := c\<rparr>) = weekly_inv st"
  by (simp_all add: weekly_inv_def weekly_totals_ok_def past_weeks_ok_def)

lemma fees_pot_cong:
  assumes "accumulated_fees st' = accumulated_fees st" "total_rewards_for_week st' = total_rewards_for_week st"
    and "total_energy_for_week st' = total_energy_for_week st"
  shows "fees_pot st' m t = fees_pot st m t"
  using owed_cong [of st' _ st m t] assms by (simp add: fees_pot_def)

lemma call_ok_config:
  assumes "weekly_inv st" "weekly_inv st'" "accumulated_fees st' = accumulated_fees st"
    and "total_rewards_for_week st' = total_rewards_for_week st"
    and "total_energy_for_week st' = total_energy_for_week st"
    and "current_claim_progress st' = current_claim_progress st"
    and "first_week_start_epoch st' = first_week_start_epoch st"
    and "last_global_update_week st' = last_global_update_week st"
    and "\<And>t. inc t = 0" "\<And>t. out t = 0"
  shows "call_ok st st' cw inc out"
  using assms fees_pot_cong [OF assms(3,4,5)] by (simp add: call_ok_def)

lemma add_accumulated_fees_pot:
  "fees_pot (add_accumulated_fees st w u a) m t = fees_pot st m t + (if u = t then a else 0)"
proof -
  let ?st = "add_accumulated_fees st w u a"
  have owed: "owed_of_list ?st m v t ps = owed_of_list st m v t ps" for v ps
    by (rule owed_cong) (simp add: add_accumulated_fees_def)
  have "fees_pot ?st m t = (\<Sum>v\<in>UNIV. (accumulated_fees st v t + owed_in_week st m v t) +
      (if v = w then if u = t then a else 0 else 0))"
    unfolding fees_pot_def by (rule sum.cong) (auto simp: owed, auto simp: add_accumulated_fees_def)
  also have "\<dots> = fees_pot st m t + (if u = t then a else 0)"
    by (simp add: sum.distrib fees_pot_def)
  finally show ?thesis .
qed

lemma accumulate_ok:
  assumes "accumulate_additional_locked_tokens env st = Inr st1" "weekly_inv st"
  shows "weekly_inv st1" "fees_pot st1 m t = fees_pot st m t + emission env st t"
    "current_claim_progress st1 = current_claim_progress st" "first_week_start_epoch st1 = first_week_start_epoch st"
    "last_global_update_week st1 = last_global_update_week st" "energy_factory_address st1 = energy_factory_address st"
    "collector_locking_sc_address st1 = collector_locking_sc_address st"
proof -
  obtain cw where cw: "get_current_week env st = Inr cw"
    and st1: "st1 = (if last_locked_token_add_week st = cw then st
      else (add_accumulated_fees st (cw - 1) (collector_locked_token_id st)
        (locked_tokens_per_block st * BLOCKS_IN_WEEK))\<lparr>last_locked_token_add_week := cw\<rparr>)"
    using assms(1) by (auto simp: accumulate_additional_locked_tokens_def Let_def res_simps split: if_splits)
  show "weekly_inv st1" using assms(2) by (simp add: st1) (simp add: add_accumulated_fees_def)
  have "fees_pot (st0\<lparr>last_locked_token_add_week := cw\<rparr>) m t = fees_pot st0 m t" for st0
    by (rule fees_pot_cong) simp_all
  then show "fees_pot st1 m t = fees_pot st m t + emission env st t"
    by (auto simp: st1 add_accumulated_fees_pot emission_def cw)
  show "current_claim_progress st1 = current_claim_progress st" "first_week_start_epoch st1 = first_week_start_epoch st"
    "last_global_update_week st1 = last_global_update_week st" "energy_factory_address st1 = energy_factory_address st"
    "collector_locking_sc_address st1 = collector_locking_sc_address st"
    by (simp_all add: st1) (simp_all add: add_accumulated_fees_def)
qed

lemma take_locked_rewards_eq:
  "take_locked_rewards u rs = (others, tot) \<Longrightarrow>
   paid_in t others + (if u = t then tot else 0) = paid_in t rs"
  by (induction rs arbitrary: others tot) (auto split: prod.splits if_splits)

lemma pay_rewards_eq:
  assumes "pay_rewards env st caller user rs = Inr (qs, st', es, v)"
  shows "st' = st" and "outflow t es + (if query_locked_token_id env st = Inr t then v else 0) = paid_in t rs"
proof -
  have "st' = st \<and> outflow t es + (if query_locked_token_id env st = Inr t then v else 0) = paid_in t rs"
  proof (cases "rs = []")
    case True
    then show ?thesis using assms by (simp add: pay_rewards_def)
  next
    case False
    then obtain u where u: "query_locked_token_id env st = Inr u"
      using assms by (auto simp: pay_rewards_def and_then_Inr)
    obtain others tot where take: "take_locked_rewards u rs = (others, tot)" by fastforce
    have "st' = st \<and> es = (if others \<noteq> [] then [DirectSend caller others] else []) \<and> v = tot"
      using assms False u take
      by (cases "0 < tot") (auto simp: pay_rewards_def Let_def and_then_Inr)
    then show ?thesis using take_locked_rewards_eq [OF take, of t] u by auto
  qed
  then show "st' = st" and "outflow t es + (if query_locked_token_id env st = Inr t then v else 0) = paid_in t rs"
    by blast+
qed

lemma claim_rewards_ok:
  assumes run: "claim_rewards env st caller user = Inr (qs, st', es, v)"
    and inv: "weekly_inv st" and week: "in_week env st cw"
  shows "call_ok st st' cw (emission env st)
    (\<lambda>t. outflow t es + (if query_locked_token_id env st = Inr t then v else 0))"
proof -
  obtain st1 st2 rs where acc: "accumulate_additional_locked_tokens env st = Inr st1"
    and claim: "claim_multi env fees_user_rewards st1 user = Inr (rs, st2)"
    and pay: "pay_rewards env st2 caller user rs = Inr (qs, st', es, v)"
    using run by (auto simp: claim_rewards_def and_then_Inr)
  note a = accumulate_ok [OF acc inv] and p = pay_rewards_eq [OF pay]
  have week1: "get_current_week env st1 = Inr cw" "last_global_update_week st1 \<le> cw" "0 < cw"
    "unat (first_week_start_epoch st1) + 7 * unat cw < 2 ^ 61"
    "unat (get_block_epoch env) < unat (first_week_start_epoch st1) + 7 * unat cw"
    using week a by (simp_all add: in_week_def get_current_week_def get_week_for_epoch_def)
  note c = fees.claim_multi_pays [OF claim a(1) week1]
  have "query_locked_token_id env st2 = query_locked_token_id env st"
    using c(5) a(6) by (simp add: query_locked_token_id_def get_energy_factory_address_def)
  then have out: "outflow t es + (if query_locked_token_id env st = Inr t then v else 0) = paid_in t rs" for t
    using p(2) [of t] by simp
  show ?thesis
    unfolding call_ok_def out using c a p(1) by simp
qed

lemma update_energy_for_user_ok:
  assumes run: "update_energy_for_user env st user = Inr st'"
    and inv: "weekly_inv st" and week: "in_week env st cw"
  shows "call_ok st st' cw (\<lambda>t. 0) (\<lambda>t. 0)"
proof -
  let ?e = "get_energy_entry env st user" and ?m = "current_claim_progress st"
  have cw: "get_current_week env st = Inr cw" "last_global_update_week st \<le> cw" "0 < cw"
    "unat (first_week_start_epoch st) + 7 * unat cw < 2 ^ 62"
    "unat (last_update_epoch ?e) < unat (first_week_start_epoch st) + 7 * unat cw"
    using week by (simp_all add: in_week_def)
  obtain st1 where upd: "update_user_energy_for_current_week st cw ?e (?m user) = Inr st1"
    and st': "st' = store_claim_progress st1 user ?e cw"
    using run cw(1) by (auto simp: update_energy_for_user_def update_energy_and_progress_def Let_def res_simps)
  note ok = update_user_energy_ok(1) [OF inv cw(2-5) upd]
  then have frame: "weekly_frame st st1" and cw1: "last_global_update_week st1 = cw"
    and rew: "\<forall>w\<ge>last_global_update_week st1. total_rewards_for_week st1 w = []" by simp_all
  note sel = weekly_frame_sel [OF frame]
  have fin: "finite (dom ?m)" and rew0: "\<forall>w\<ge>last_global_update_week st. total_rewards_for_week st w = []"
    using inv by (simp_all add: weekly_inv_def weekly_totals_ok_def progress_map_ok_def)
  have "fees_pot st1 (?m(user := new_progress ?e cw)) t \<le> fees_pot st ?m t" for t
    using fees.drops [OF fin fewer_claims_new [of "last_global_update_week st1" "?m user" ?e] rew, of t]
      fees.updates [OF frame rew0, of ?m t] cw1 by simp
  then show ?thesis
    using ok sel by (simp add: call_ok_def st' store_claim_progress_eq fees.stores)
qed

lemma quiet_Inr [res_simps]:
  "quiet r = Inr (qs, st', es, v) \<longleftrightarrow> r = Inr st' \<and> qs = [] \<and> es = [] \<and> v = 0"
  by (auto simp: quiet_def res_simps)

lemma fees_exec_ok:
  assumes run: "fees_exec env st call = Inr (qs, st', es, v)"
    and inv: "weekly_inv st" and week: "in_week env st cw"
  shows "call_ok st st' cw (call_received env st call) (call_paid env st call es v)"
proof (cases call)
  case (DepositSwapFees ps)
  then obtain p w where "ps = [p]" "st' = add_accumulated_fees st w (token_identifier p) (amount p)"
    using run by (auto simp: deposit_swap_fees_def and_then_Inr require_Inr single_esdt_Inr split: if_splits)
  moreover from this have "weekly_inv st'" using inv by (simp add: add_accumulated_fees_def)
  ultimately show ?thesis
    by (auto simp: call_ok_def DepositSwapFees add_accumulated_fees_pot)
      (simp_all add: add_accumulated_fees_def)
next
  case (ClaimRewards user)
  with run obtain c u where "claim_rewards env st c u = Inr (qs, st', es, v)"
    by (auto simp: claim_rewards_endpoint_def Let_def and_then_Inr require_Inr)
  moreover have "call_received env st call = emission env st"
    "call_paid env st call es v = (\<lambda>t. outflow t es + (if query_locked_token_id env st = Inr t then v else 0))"
    by (simp_all add: ClaimRewards fun_eq_iff)
  ultimately show ?thesis using claim_rewards_ok [OF _ inv week] by simp
next
  case (ClaimBoostedRewards user)
  with run obtain c u where "claim_rewards env st c u = Inr (qs, st', es, v)"
    by (auto simp: claim_boosted_rewards_def and_then_Inr require_Inr)
  moreover have "call_received env st call = emission env st"
    "call_paid env st call es v = (\<lambda>t. outflow t es + (if query_locked_token_id env st = Inr t then v else 0))"
    by (simp_all add: ClaimBoostedRewards fun_eq_iff)
  ultimately show ?thesis using claim_rewards_ok [OF _ inv week] by simp
next
  case (UpdateEnergyForUser user)
  then have "update_energy_for_user env st user = Inr st'" and "es = []" "v = 0"
    using run by (simp_all add: quiet_Inr)
  moreover from update_energy_for_user_ok [OF this(1) inv week]
  have "call_ok st st' cw (\<lambda>t. 0) (\<lambda>t. 0)" .
  moreover have "call_received env st call = (\<lambda>t. 0)" "call_paid env st call [] 0 = (\<lambda>t. 0)"
    by (simp_all add: UpdateEnergyForUser fun_eq_iff)
  ultimately show ?thesis by simp
next
  case (SetLockedTokensPerBlock a)
  then obtain st1 where acc: "accumulate_additional_locked_tokens env st = Inr st1"
    and st': "st' = st1\<lparr>locked_tokens_per_block := a\<rparr>" and "es = []" "v = 0"
    using run by (auto simp: set_locked_tokens_per_block_def collector_only_owner_def res_simps)
  have "fees_pot st' m t = fees_pot st1 m t" for m t
    unfolding st' by (rule fees_pot_cong) simp_all
  then show ?thesis
    using accumulate_ok [OF acc inv] by (simp add: call_ok_def SetLockedTokensPerBlock st' \<open>es = []\<close> \<open>v = 0\<close>)
next
  case (AddKnownTokens ts)
  then show ?thesis
    using run inv by (auto simp: add_known_tokens_def collector_only_owner_def res_simps intro!: call_ok_config)
next
  case (RemoveKnownTokens ts)
  then show ?thesis
    using run inv by (auto simp: remove_known_tokens_def collector_only_owner_def res_simps split: prod.splits
        intro!: call_ok_config)
next
  case (AddKnownContracts cs)
  then show ?thesis
    using run inv by (auto simp: add_known_contracts_def collector_only_owner_def res_simps intro!: call_ok_config)
next
  case (RemoveKnownContracts cs)
  then show ?thesis
    using run inv by (auto simp: remove_known_contracts_def collector_only_owner_def res_simps intro!: call_ok_config)
next
  case (CollectorLockEpochs n)
  then show ?thesis
    using run inv by (auto simp: collector_set_lock_epochs_def collector_only_owner_def res_simps intro!: call_ok_config)
next
  case (CollectorLockingSc a)
  then show ?thesis
    using run inv
    by (auto simp: collector_set_locking_sc_address_def collector_only_owner_def res_simps intro!: call_ok_config)
next
  case (CollectorEnergyFactory a)
  then show ?thesis
    using run inv by (auto simp: set_energy_factory_address_def res_simps intro!: call_ok_config)
next
  case (AddCollectorWhitelist a)
  then show ?thesis
    using run inv by (auto simp: res_simps intro!: call_ok_config)
next
  case (RemoveCollectorWhitelist a)
  then show ?thesis
    using run inv by (auto simp: res_simps intro!: call_ok_config)
qed

section \<open>The step system\<close>

lemma in_week_step:
  assumes "books_inv b" "book_epoch b \<le> get_block_epoch env" "unat (get_block_epoch env) < 2 ^ 33"
  obtains cw where "in_week env (book_storage b) cw"
    and "unat cw = (unat (get_block_epoch env) - unat (first_week_start_epoch (book_storage b))) div 7 + 1"
proof -
  let ?st = "book_storage b" and ?c = "unat (get_block_epoch env)"
  let ?first = "unat (first_week_start_epoch ?st)"
  have first: "?first \<le> unat (book_epoch b)" "unat (book_epoch b) \<le> ?c"
    using assms(1,2) by (simp_all add: books_inv_def word_le_nat_alt)
  define n where "n = (?c - ?first) div 7 + 1"
  have n: "7 * n \<le> ?c - ?first + 7" "?c - ?first < 7 * n"
    using div_mult_mod_eq [of "?c - ?first" 7] by (simp_all add: n_def)
  then have small: "n < 2 ^ 32" using assms(3) by simp
  then have un: "unat (of_nat n :: week) = n" by (simp add: unat_of_nat)
  have "current_week_no ?st \<le> (unat (book_epoch b) - ?first) div 7 + 1"
    using assms(1) by (simp add: books_inv_def)
  also have "\<dots> \<le> n" unfolding n_def using first by (intro add_mono div_le_mono) simp_all
  finally have W: "current_week_no ?st \<le> n" .
  have "get_current_week env ?st = Inr (of_nat n)"
    using get_week_for_epoch_Inr [OF assms(3), of ?st "of_nat n"] first un
    by (simp add: get_current_week_def n_def word_le_nat_alt)
  moreover have "0 < (of_nat n :: week)" using un by (simp add: word_less_nat_alt n_def)
  moreover have "?first + 7 * n < 2 ^ 61" "?c < ?first + 7 * n"
    using n first assms(3) by simp_all
  ultimately have "in_week env ?st (of_nat n)"
    using W un by (simp add: in_week_def word_le_nat_alt)
  then show thesis using that un n_def by simp
qed

lemma fees_step_inv:
  assumes "books_inv b" "fees_admissible x" "fees_step b x = Inr b'"
  shows "books_inv b'"
proof -
  obtain env call where x: "x = (env, call)" by (cases x)
  let ?st = "book_storage b"
  obtain qs st' es v where time: "book_epoch b \<le> get_block_epoch env"
    and run: "fees_exec env ?st call = Inr (qs, st', es, v)"
    and b': "b' = \<lparr>book_storage = st', book_epoch = get_block_epoch env,
           book_received = (\<lambda>t. book_received b t + call_received env ?st call t),
           book_paid = (\<lambda>t. book_paid b t + call_paid env ?st call es v t)\<rparr>"
    using assms(3) by (auto simp: fees_step_def x Let_def res_simps)
  have small: "unat (get_block_epoch env) < 2 ^ 33" using assms(2) by (simp add: fees_admissible_def x)
  obtain cw where week: "in_week env ?st cw"
    and cw: "unat cw = (unat (get_block_epoch env) - unat (first_week_start_epoch ?st)) div 7 + 1"
    by (rule in_week_step [OF assms(1) time small])
  have ok: "call_ok ?st st' cw (call_received env ?st call) (call_paid env ?st call es v)"
    using fees_exec_ok [OF run _ week] assms(1) by (simp add: books_inv_def)
  have W: "current_week_no st' \<le> unat cw"
    using ok week by (auto simp: call_ok_def in_week_def word_le_nat_alt)
  have "fees_pot st' (current_claim_progress st') t + (book_paid b t + call_paid env ?st call es v t) \<le>
      book_received b t + call_received env ?st call t" for t
  proof -
    have "fees_pot st' (current_claim_progress st') t + call_paid env ?st call es v t \<le>
        fees_pot ?st (current_claim_progress ?st) t + call_received env ?st call t"
      using ok by (simp add: call_ok_def)
    moreover have "fees_pot ?st (current_claim_progress ?st) t + book_paid b t \<le> book_received b t"
      using assms(1) by (simp add: books_inv_def)
    ultimately show ?thesis by linarith
  qed
  moreover have "first_week_start_epoch st' \<le> get_block_epoch env"
    using assms(1) time ok by (auto simp: books_inv_def call_ok_def intro: order_trans)
  ultimately show ?thesis
    using ok W cw small by (simp add: books_inv_def b' call_ok_def)
qed

interpretation fees_run: step_system fees_step books_inv fees_admissible
  by unfold_locales (rule fees_step_inv)

section \<open>Deployment\<close>

text \<open>The storage of a contract that is about to be deployed.\<close>

definition empty_fees_storage :: fees_storage where
  "empty_fees_storage = \<lparr>energy_factory_address = None, first_week_start_epoch = 0,
     current_claim_progress = Map.empty, last_global_update_week = 0, total_rewards_for_week = (\<lambda>w. []),
     total_energy_for_week = (\<lambda>w. 0), total_locked_tokens_for_week = (\<lambda>w. 0), first_bucket_id = 0,
     locked_tokens_in_bucket = Map.empty, collector_paused = False, collector_locked_token_id = '''',
     known_contracts = {}, known_tokens = {}, all_tokens = [], allow_external_claim_rewards = (\<lambda>u. False),
     accumulated_fees = (\<lambda>w t. 0), last_locked_token_add_week = 0, locked_tokens_per_block = 0,
     collector_locking_sc_address = None, collector_lock_epochs = 0, collector_whitelist = {}\<rparr>"

definition new_books :: "fees_env \<Rightarrow> fees_storage \<Rightarrow> fees_books" where
  "new_books env st = \<lparr>book_storage = st, book_epoch = get_block_epoch env,
     book_received = (\<lambda>t. 0), book_paid = (\<lambda>t. 0)\<rparr>"

lemma new_books_inv:
  assumes "fees_collector_init env empty_fees_storage token factory = Inr st" "unat (get_block_epoch env) < 2 ^ 33"
  shows "books_inv (new_books env st)"
proof -
  obtain ks ts where st: "st = empty_fees_storage\<lparr>first_week_start_epoch := get_block_epoch env,
      known_tokens := ks, all_tokens := ts, collector_locked_token_id := token,
      energy_factory_address := Some factory\<rparr>"
    using assms(1)
    by (auto simp: fees_collector_init_def add_known_tokens_def Let_def res_simps empty_fees_storage_def split: if_splits)
  have "weekly_inv st"
    using assms(2) bucket_inv_empty [of 0 0]
    by (auto simp: weekly_inv_def weekly_totals_ok_def past_weeks_ok_def st empty_fees_storage_def)
  moreover have "fees_pot st m t = 0" for m t
    by (simp add: fees_pot_def st empty_fees_storage_def)
  ultimately show ?thesis
    using assms(2) by (simp add: books_inv_def new_books_def) (simp add: st empty_fees_storage_def)
qed

end
