(* ===== verification/FeesProperties.thy ===== *)
theory FeesProperties
  imports FeesBooks
begin

text \<open>The properties of the fees collector, and of the weekly energy totals it works with.\<close>

section \<open>Claims return\<close>

lemma fees_user_rewards_total: "\<exists>rs st'. fees_user_rewards w e n st = Inr (rs, st')"
  by (simp add: get_user_rewards_for_week_def collect_and_get_rewards_for_week_def
      collect_rewards_for_week_def split: prod.splits)

lemma claim_weeks_total: "\<exists>rs st'. claim_weeks n fees_user_rewards p st = Inr (rs, st')"
proof (induction n arbitrary: p st)
  case (Suc n)
  obtain rs st1 where "fees_user_rewards (progress_week p) (get_energy_amount (progress_energy p))
      (total_energy_for_week st (progress_week p)) st = Inr (rs, st1)"
    using fees_user_rewards_total by blast
  then have "claim_single fees_user_rewards p st = Inr (rs, advance_week p, st1)"
    by (simp add: claim_single_def)
  moreover obtain qs st2 where "claim_weeks n fees_user_rewards (advance_week p) st1 = Inr (qs, st2)"
    using Suc.IH by blast
  ultimately show ?case by simp
qed simp

lemma fees_user_rewards_locking:
  "fees_user_rewards w e n st = Inr (rs, st') \<Longrightarrow>
   collector_locking_sc_address st' = collector_locking_sc_address st"
  using collect_tokens_eq(1)
  by (fastforce simp: get_user_rewards_for_week_def collect_and_get_rewards_for_week_def
      collect_rewards_for_week_def res_simps split: if_splits prod.splits
      dest: arg_cong [where f = collector_locking_sc_address])

lemma claim_weeks_locking:
  "claim_weeks n fees_user_rewards p st = Inr (rs, st') \<Longrightarrow>
   collector_locking_sc_address st' = collector_locking_sc_address st"
proof (induction n arbitrary: p st rs)
  case (Suc n)
  from Suc.prems show ?case
    by (auto simp: claim_single_def Let_def res_simps dest!: Suc.IH fees_user_rewards_locking)
qed simp

lemma weekly_frame_locking:
  "weekly_frame st st' \<Longrightarrow> collector_locking_sc_address st' = collector_locking_sc_address st"
proof -
  assume "weekly_frame st st'"
  then obtain a b c d f g where "st' = st\<lparr>last_global_update_week := a, total_rewards_for_week := b,
      total_energy_for_week := c, total_locked_tokens_for_week := d, first_bucket_id := f,
      locked_tokens_in_bucket := g\<rparr>"
    unfolding weekly_frame_def by blast
  then show ?thesis by simp
qed

lemma claim_multi_returns:
  assumes inv: "weekly_inv st" and week: "in_week env st cw"
    and small: "query_energy_amount env st user div
      (7 * total_locked_tokens (get_energy_entry env st user)) < 2 ^ 62"
  obtains rs st' where "claim_multi env fees_user_rewards st user = Inr (rs, st')"
    and "collector_locking_sc_address st' = collector_locking_sc_address st"
    and "energy_factory_address st' = energy_factory_address st"
proof -
  let ?e = "get_energy_entry env st user" and ?m = "current_claim_progress st"
  let ?p = "case ?m user of Some p \<Rightarrow> p | None \<Rightarrow> \<lparr>progress_energy = ?e, progress_week = cw\<rparr>"
  let ?q = "if USER_MAX_CLAIM_WEEKS < cw - progress_week ?p
    then advance_multiple_weeks ?p (cw - progress_week ?p - USER_MAX_CLAIM_WEEKS) else ?p"
  let ?n = "unat (min (cw - progress_week ?p) USER_MAX_CLAIM_WEEKS)"
  have w: "last_global_update_week st \<le> cw" "0 < cw"
    "unat (first_week_start_epoch st) + 7 * unat cw < 2 ^ 62"
    "unat (last_update_epoch ?e) < unat (first_week_start_epoch st) + 7 * unat cw"
    using week by (simp_all add: in_week_def)
  obtain st1 where upd: "update_user_energy_for_current_week st cw ?e (?m user) = Inr st1"
    using update_user_energy_ok(2) [OF inv w] small by (auto simp: query_energy_amount_def)
  have frame: "weekly_frame st st1" using update_user_energy_ok(1) [OF inv w upd] by simp
  obtain rs st2 where weeks: "claim_weeks ?n fees_user_rewards ?q st1 = Inr (rs, st2)"
    using claim_weeks_total by blast
  have run: "claim_multi env fees_user_rewards st user = Inr (rs, store_claim_progress st2 user ?e cw)"
    using week upd weeks by (simp add: claim_multi_def in_week_def Let_def)
  have "collector_locking_sc_address st2 = collector_locking_sc_address st"
    using claim_weeks_locking [OF weeks] weekly_frame_locking [OF frame] by simp
  moreover have "energy_factory_address (store_claim_progress st2 user ?e cw) = energy_factory_address st"
    using fees.claim_multi_pays(5) [OF run inv] week by (simp add: in_week_def)
  ultimately show thesis
    using that [OF run] by (simp add: store_claim_progress_eq)
qed

lemma pay_rewards_total:
  assumes "energy_factory_address st = Some f" "collector_locking_sc_address st = Some sc"
    and "\<And>t a n d u. \<exists>p. call_lock_virtual env sc t a n d u = Inr p"
  shows "\<exists>qs es v. pay_rewards env st caller user rs = Inr (qs, st, es, v)"
proof (cases "take_locked_rewards (read_locked_token_id env f) rs")
  case (Pair others tot)
  obtain p where "call_lock_virtual env sc (read_base_token_id env f) tot (collector_lock_epochs st)
      caller user = Inr p"
    using assms(3) by blast
  then show ?thesis
    using assms(1,2) Pair
    by (simp add: pay_rewards_def query_locked_token_id_def query_base_token_id_def
        get_energy_factory_address_def collector_lock_virtual_def Let_def)
qed

section \<open>A run\<close>

definition ex_fees_env :: "address \<Rightarrow> u64 \<Rightarrow> fees_env" where
  "ex_fees_env caller c = \<lparr>get_caller = caller, get_sc_address = 4, get_owner_address = 2,
     get_block_epoch = c, get_block_round = 0, get_block_nonce = 0, get_block_timestamp = 0,
     is_smart_contract = (\<lambda>a. a < 5), is_valid_esdt_identifier = (\<lambda>t. True),
     read_user_energy = (\<lambda>a u. if u = 7 then Some (energy_new 6000 10 10)
       else if u = 8 then Some (energy_new 2000 10 5) else None),
     read_base_token_id = (\<lambda>a. ''MEX''), read_locked_token_id = (\<lambda>a. ''XMEX''),
     call_lock_virtual = (\<lambda>sc t a n d u. Inr (new_payment ''XMEX'' 1 a))\<rparr>"

definition ex_fees :: fees_storage where
  "ex_fees = empty_fees_storage\<lparr>first_week_start_epoch := 10, energy_factory_address := Some 1,
     collector_locked_token_id := ''XMEX'', known_tokens := {''XMEX''}, all_tokens := [''XMEX'']\<rparr>"

definition ex_fees_calls :: "(fees_env \<times> fees_call) list" where
  "ex_fees_calls =
    [(ex_fees_env 2 10, AddKnownContracts [3]), (ex_fees_env 2 10, AddKnownTokens [''MEX'']),
     (ex_fees_env 2 10, CollectorLockingSc 1), (ex_fees_env 2 10, SetLockedTokensPerBlock 1),
     (ex_fees_env 3 11, DepositSwapFees [new_payment ''MEX'' 0 1000]),
     (ex_fees_env 7 12, ClaimRewards None), (ex_fees_env 8 12, ClaimRewards None),
     (ex_fees_env 7 18, ClaimRewards None)]"

lemma ex_fees_init: "fees_collector_init (ex_fees_env 2 10) empty_fees_storage ''XMEX'' 1 = Inr ex_fees"
  by (simp add: fees_collector_init_def add_known_tokens_def ex_fees_def ex_fees_env_def
      empty_fees_storage_def require_valid_token_id_def require_sc_address_def)

lemma ex_fees_epoch: "unat (get_block_epoch (ex_fees_env 2 10)) < 2 ^ 33"
  by (simp add: ex_fees_env_def)

lemma ex_fees_admissible: "list_all fees_admissible ex_fees_calls"
  by (simp add: ex_fees_calls_def fees_admissible_def ex_fees_env_def)

lemmas fees_eval =
  ex_fees_def ex_fees_env_def empty_fees_storage_def new_books_def fees_step_def Let_def
  collector_only_owner_def add_known_contracts_def add_known_tokens_def quiet_def
  collector_set_locking_sc_address_def set_locked_tokens_per_block_def
  accumulate_additional_locked_tokens_def get_current_week_def get_week_for_epoch_def
  EPOCHS_IN_WEEK_def add_accumulated_fees_def emission_def BLOCKS_IN_WEEK_def
  deposit_swap_fees_def single_esdt_def claim_rewards_endpoint_def claim_rewards_def
  get_orig_caller_from_opt_def query_locked_token_id_def get_energy_factory_address_def

lemmas weekly_eval =
  claim_multi_def get_energy_entry_def update_user_energy_for_current_week_def
  update_global_amounts_for_current_week_def perform_weekly_update_def
  update_and_get_total_tokens_amounts_after_user_energy_update_def
  update_and_get_total_energy_amounts_after_user_energy_update_def
  reallocate_bucket_after_energy_update_def get_bucket_id_for_energy_def init_and_update_bucket_def
  take_from_bucket_def put_into_bucket_def get_surplus_for_energy_def default_bucket_def
  shift_buckets_and_update_tokens_energy_def safe_sub_def store_claim_progress_def
  energy_default_def energy_new_def new_zero_energy_def deplete_def energy_subtract_def get_energy_amount_def
  claim_single_def advance_week_def USER_MAX_CLAIM_WEEKS_def
  get_user_rewards_for_week_def collect_and_get_rewards_for_week_def collect_rewards_for_week_def
  get_and_clear_accumulated_fees_def user_reward_shares_def pay_rewards_def
  query_base_token_id_def collector_lock_virtual_def big_sub_def

definition ex_fees_view ::
  "fees_books \<Rightarrow> biguint \<times> biguint \<times> u64 \<times> biguint \<times> bool \<times> address option \<times> address option" where
  "ex_fees_view b = (let st = book_storage b in
     (book_paid b ''MEX'', book_received b ''MEX'', book_epoch b,
      total_energy_for_week st (last_global_update_week st), collector_paused st,
      energy_factory_address st, collector_locking_sc_address st))"

abbreviation ex_fees_books :: fees_books where
  "ex_fees_books \<equiv> run_txs fees_step (new_books (ex_fees_env 2 10) ex_fees) ex_fees_calls"

lemma ex_fees_run: "ex_fees_view ex_fees_books = (750, 1000, 18, 7875, False, Some 1, Some 1)"
  by (simp add: fees_eval weekly_eval ex_fees_calls_def ex_fees_view_def
      cong: and_then_weak_cong require_weak_cong let_weak_cong)

lemma ex_fees_run_sel:
  "book_paid ex_fees_books ''MEX'' = 750" "book_received ex_fees_books ''MEX'' = 1000"
  "book_epoch ex_fees_books = 18"
  "total_energy_for_week (book_storage ex_fees_books)
     (last_global_update_week (book_storage ex_fees_books)) = 7875"
  "\<not> collector_paused (book_storage ex_fees_books)"
  "energy_factory_address (book_storage ex_fees_books) = Some 1"
  "collector_locking_sc_address (book_storage ex_fees_books) = Some 1"
  using ex_fees_run unfolding ex_fees_view_def Let_def by simp_all

section \<open>Properties\<close>

text \<open>C18: The fees collector is solvent. Whatever calls are made after its deployment, in blocks
  whose epochs do not go back and with whatever energy the factory reports, it has received at
  least what it has paid out together with the fees it still accumulates and the shares that all
  users can still claim of the weeks already collected. Here the locked tokens it emits count as
  received and the tokens it has the factory lock count as paid.
\<close>

theorem fees_collector_pays_what_it_received:
  assumes "fees_collector_init env empty_fees_storage token factory = Inr st"
    and "unat (get_block_epoch env) < 2 ^ 33" and "list_all fees_admissible xs"
  defines "b \<equiv> run_txs fees_step (new_books env st) xs"
  shows "fees_pot (book_storage b) (current_claim_progress (book_storage b)) t + book_paid b t \<le> book_received b t"
  using fees_run.run_inv [OF new_books_inv [OF assms(1,2)] assms(3)] by (simp add: books_inv_def b_def)

lemma fees_collector_pays_what_it_received_witness:
  "fees_pot (book_storage ex_fees_books) (current_claim_progress (book_storage ex_fees_books)) ''MEX'' + 750 \<le> 1000"
  using fees_collector_pays_what_it_received [OF ex_fees_init ex_fees_epoch ex_fees_admissible, of "''MEX''"]
  by (simp only: ex_fees_run_sel)

text \<open>C19: The buckets are exact. Whatever calls were made, the total energy the fees collector
  keeps for the last week it updated is the sum, over the users with a claim progress, of what
  the energy in the user's progress has come down to in that week; it never visits the users to
  compute it.
\<close>

theorem weekly_energy_is_the_sum_of_the_users:
  assumes "fees_collector_init env empty_fees_storage token factory = Inr st"
    and "unat (get_block_epoch env) < 2 ^ 33" and "list_all fees_admissible xs"
  defines "s \<equiv> book_storage (run_txs fees_step (new_books env st) xs)"
  shows "total_energy_for_week s (last_global_update_week s) =
    (\<Sum>u\<in>dom (current_claim_progress s).
       energy_at (the (current_claim_progress s u)) (unat (last_global_update_week s)))"
  using fees_run.run_inv [OF new_books_inv [OF assms(1,2)] assms(3)]
  by (auto simp: books_inv_def s_def weekly_inv_def weekly_totals_ok_def bucket_inv_def user_sum_def)

lemma weekly_energy_is_the_sum_of_the_users_witness:
  "(\<Sum>u\<in>dom (current_claim_progress (book_storage ex_fees_books)).
     energy_at (the (current_claim_progress (book_storage ex_fees_books) u))
       (unat (last_global_update_week (book_storage ex_fees_books)))) = 7875"
  using weekly_energy_is_the_sum_of_the_users [OF ex_fees_init ex_fees_epoch ex_fees_admissible]
  by (simp only: ex_fees_run_sel)

text \<open>C20: Claims return. Whatever calls were made, a user can claim while the contract is not
  paused, in any later block: the bucket sums never go below zero on the way, however many weeks
  nobody has called, provided that the factory serves the lock and the user's energy is not
  beyond \<open>2 ^ 62\<close> weeks of depletion.
\<close>

theorem claims_return:
  assumes "fees_collector_init env empty_fees_storage token factory = Inr st"
    and "unat (get_block_epoch env) < 2 ^ 33" and "list_all fees_admissible xs"
  defines "b \<equiv> run_txs fees_step (new_books env st) xs"
  assumes "book_epoch b \<le> get_block_epoch env'" "unat (get_block_epoch env') < 2 ^ 33"
    and "\<not> collector_paused (book_storage b)"
    and "energy_factory_address (book_storage b) = Some f"
    and "collector_locking_sc_address (book_storage b) = Some sc"
    and "\<And>t a n d u. \<exists>p. call_lock_virtual env' sc t a n d u = Inr p"
    and "query_energy_amount env' (book_storage b) (get_caller env') div
      (7 * total_locked_tokens (get_energy_entry env' (book_storage b) (get_caller env'))) < 2 ^ 62"
  shows "\<exists>qs st' es v. claim_rewards_endpoint env' (book_storage b) None = Inr (qs, st', es, v)"
proof -
  let ?st = "book_storage b" and ?user = "get_caller env'"
  have inv: "books_inv b"
    using fees_run.run_inv [OF new_books_inv [OF assms(1,2)] assms(3)] by (simp add: b_def)
  obtain cw where week: "in_week env' ?st cw" by (rule in_week_step [OF inv assms(5,6)])
  obtain st1 where acc: "accumulate_additional_locked_tokens env' ?st = Inr st1"
    using week by (cases "last_locked_token_add_week ?st = cw")
      (simp_all add: accumulate_additional_locked_tokens_def in_week_def Let_def)
  have weekly: "weekly_inv ?st" using inv by (simp add: books_inv_def)
  note a = accumulate_ok [OF acc weekly]
  have loc: "collector_locking_sc_address st1 = Some sc"
    using a(7) assms(9) by simp
  have week1: "in_week env' st1 cw"
    using week a by (simp add: in_week_def get_current_week_def get_week_for_epoch_def)
  have "get_energy_entry env' st1 ?user = get_energy_entry env' ?st ?user"
    using a(6) by (simp add: get_energy_entry_def)
  then have small: "query_energy_amount env' st1 ?user div
      (7 * total_locked_tokens (get_energy_entry env' st1 ?user)) < 2 ^ 62"
    using assms(11) by (simp add: query_energy_amount_def)
  obtain rs st2 where claim: "claim_multi env' fees_user_rewards st1 ?user = Inr (rs, st2)"
    and "collector_locking_sc_address st2 = Some sc" "energy_factory_address st2 = Some f"
    using claim_multi_returns [OF a(1) week1 small] loc a(6) assms(8) by metis
  then obtain qs es v where "pay_rewards env' st2 ?user ?user rs = Inr (qs, st2, es, v)"
    using pay_rewards_total assms(10) by blast
  then show ?thesis
    using acc claim assms(7)
    by (simp add: claim_rewards_endpoint_def claim_rewards_def get_orig_caller_from_opt_def)
qed

lemma claims_return_witness:
  "\<exists>qs st' es v. claim_rewards_endpoint (ex_fees_env 8 40) (book_storage ex_fees_books) None = Inr (qs, st', es, v)"
proof (rule claims_return [OF ex_fees_init ex_fees_epoch ex_fees_admissible])
  show "query_energy_amount (ex_fees_env 8 40) (book_storage ex_fees_books) (get_caller (ex_fees_env 8 40)) div
    (7 * total_locked_tokens (get_energy_entry (ex_fees_env 8 40) (book_storage ex_fees_books)
      (get_caller (ex_fees_env 8 40)))) < 2 ^ 62"
    unfolding query_energy_amount_def get_energy_entry_def ex_fees_run_sel
    by (simp add: ex_fees_env_def deplete_def energy_subtract_def energy_new_def get_energy_amount_def Let_def)
qed (simp_all only: ex_fees_run_sel, simp_all add: ex_fees_env_def)

end
