(* ===== verification/FarmState.thy ===== *)
theory FarmState
  imports WeeklyClaims LockedTokens
begin

text \<open>
  The state of a farm (\<open>common/modules/farm\<close>, \<open>dex/farm\<close>): the storage of its modules in one
  record, the storage cache of a call, the farm token with its attributes, and the positions of
  the users. The attributes of a nonce and the last nonce are data of the protocol.
\<close>

section \<open>Errors\<close>

definition ERROR_FARM_NOT_ACTIVE :: error where "ERROR_FARM_NOT_ACTIVE = SignalError ''Not active''"
definition ERROR_EMPTY_PAYMENTS :: error where "ERROR_EMPTY_PAYMENTS = SignalError ''Empty payments''"
definition ERROR_NO_FARM_TOKEN :: error where "ERROR_NO_FARM_TOKEN = SignalError ''No farm token''"
definition ERROR_FARM_ZERO_AMOUNT :: error where "ERROR_FARM_ZERO_AMOUNT = SignalError ''Zero amount''"
definition ERROR_FARM_NOT_AN_ESDT :: error where "ERROR_FARM_NOT_AN_ESDT = SignalError ''Not a valid esdt id''"
definition ERROR_DIFFERENT_TOKEN_IDS :: error where
  "ERROR_DIFFERENT_TOKEN_IDS = SignalError ''Different token ids''"
definition ERROR_BAD_PAYMENTS :: error where "ERROR_BAD_PAYMENTS = SignalError ''Bad payments''"

section \<open>Storage\<close>

text \<open>\<open>boosted_yields_factors.rs\<close>: the factors of the last five weeks, the newest last.\<close>

record boosted_yields_factors =
  max_rewards_factor :: biguint
  user_rewards_energy_const :: biguint
  user_rewards_farm_const :: biguint
  min_energy_amount :: biguint
  min_farm_amount :: biguint

record boosted_yields_config =
  factors_last_update_week :: week
  factors_per_week :: "boosted_yields_factors list"

record farm_storage = weekly_storage +
  farm_state :: state
  farm_permissions :: permission_map
  farm_sc_whitelist :: "address set"
  farming_token_id :: token_id
  reward_token_id :: token_id
  per_block_reward_amount :: biguint
  produce_rewards_enabled :: bool
  last_reward_block_nonce :: u64
  division_safety_constant :: biguint
  user_total_farm_position :: "address \<Rightarrow> biguint"
  allow_external_claim :: "address \<Rightarrow> bool"
  farm_position_migration_nonce :: u64
  stored_reward_per_share :: biguint
  reward_reserve :: biguint
  farm_token :: "token_id option"
  farm_token_supply :: biguint
  farm_attributes :: "u64 \<Rightarrow> farm_token_attributes option"
  farm_last_nonce :: u64
  boosted_yields_rewards_percentage :: u64
  accumulated_rewards_for_week :: "week \<Rightarrow> biguint"
  farm_supply_for_week :: "week \<Rightarrow> biguint"
  remaining_boosted_rewards_to_distribute :: "week \<Rightarrow> biguint"
  last_undistributed_collect_week :: week
  undistributed_boosted_rewards :: biguint
  boosted_config :: "boosted_yields_config option"
  penalty_percent :: u64
  minimum_farming_epochs :: u64
  burn_gas_limit :: u64
  pair_contract_address :: address

section \<open>The farm token\<close>

definition get_farm_token_id :: "'s farm_storage_scheme \<Rightarrow> error + token_id" where
  "get_farm_token_id st =
     (case farm_token st of
        None \<Rightarrow> Inl (SignalError ''Invalid token ID'')
      | Some t \<Rightarrow> Inr t)"

definition require_same_farm_token :: "'s farm_storage_scheme \<Rightarrow> token_id \<Rightarrow> error + 'a \<Rightarrow> error + 'a" where
  "require_same_farm_token st t k =
     and_then (get_farm_token_id st) (\<lambda>id. require (t = id) (SignalError ''Invalid payment token'') k)"

fun require_all_same_farm_token ::
  "'s farm_storage_scheme \<Rightarrow> esdt_payment list \<Rightarrow> error + 'a \<Rightarrow> error + 'a" where
  "require_all_same_farm_token st [] k = k"
| "require_all_same_farm_token st (p # ps) k =
     require_same_farm_token st (token_identifier p) (require_all_same_farm_token st ps k)"

definition get_farm_token_attributes ::
  "'s farm_storage_scheme \<Rightarrow> u64 \<Rightarrow> error + farm_token_attributes" where
  "get_farm_token_attributes st n =
     (case farm_attributes st n of
        None \<Rightarrow> Inl (CallFailed ''ESDTNFT token data not found'')
      | Some a \<Rightarrow> Inr a)"

text \<open>The protocol creates a token under the next nonce.\<close>

definition farm_nft_create ::
  "'s farm_storage_scheme \<Rightarrow> biguint \<Rightarrow> farm_token_attributes \<Rightarrow>
     error + (esdt_payment \<times> 's farm_storage_scheme \<times> effect list)" where
  "farm_nft_create st a attr =
     and_then (get_farm_token_id st) (\<lambda>t.
     let new_nonce = farm_last_nonce st + 1 in
     Inr (new_payment t new_nonce a,
          st\<lparr>farm_attributes := (farm_attributes st)(new_nonce := Some attr),
             farm_last_nonce := new_nonce\<rparr>,
          [NftCreate t a]))"

definition esdt_local_burn_multi :: "esdt_payment list \<Rightarrow> effect list" where
  "esdt_local_burn_multi ps =
     concat (map (\<lambda>p. esdt_local_burn (token_identifier p) (token_nonce p) (amount p)) ps)"

section \<open>utils: merging positions\<close>

definition get_attributes_as_part_of_fixed_supply ::
  "'s farm_storage_scheme \<Rightarrow> esdt_payment \<Rightarrow> error + farm_token_attributes" where
  "get_attributes_as_part_of_fixed_supply st p =
     and_then (get_farm_token_attributes st (token_nonce p)) (\<lambda>attr. farm_into_part attr (amount p))"

fun merge_attributes_from_payments ::
  "'s farm_storage_scheme \<Rightarrow> farm_token_attributes \<Rightarrow> esdt_payment list \<Rightarrow> error + farm_token_attributes" where
  "merge_attributes_from_payments st base [] = Inr base"
| "merge_attributes_from_payments st base (p # ps) =
     and_then (get_attributes_as_part_of_fixed_supply st p) (\<lambda>attr.
     and_then (farm_merge_with base attr) (\<lambda>base.
     merge_attributes_from_payments st base ps))"

definition merge_and_create_token ::
  "'s farm_storage_scheme \<Rightarrow> farm_token_attributes \<Rightarrow> esdt_payment list \<Rightarrow>
     error + (esdt_payment \<times> farm_token_attributes \<times> 's farm_storage_scheme \<times> effect list)" where
  "merge_and_create_token st base ps =
     and_then (merge_attributes_from_payments st base ps) (\<lambda>attr.
     and_then (farm_nft_create st (farm_get_total_supply attr) attr) (\<lambda>(p, st, es).
     Inr (p, attr, st, es)))"

definition pop_first_payment :: "esdt_payment list \<Rightarrow> error + (esdt_payment \<times> esdt_payment list)" where
  "pop_first_payment ps =
     (case ps of [] \<Rightarrow> Inl (SignalError ''No payments'') | p # ps' \<Rightarrow> Inr (p, ps'))"

definition merge_from_payments_and_burn ::
  "'s farm_storage_scheme \<Rightarrow> esdt_payment list \<Rightarrow> error + (farm_token_attributes \<times> effect list)" where
  "merge_from_payments_and_burn st ps =
     and_then (pop_first_payment ps) (\<lambda>(first_payment, ps).
     and_then (get_attributes_as_part_of_fixed_supply st first_payment) (\<lambda>base.
     and_then (get_farm_token_id st) (\<lambda>t.
     let es = [NftBurn t (token_nonce first_payment) (amount first_payment)] in
     and_then (merge_attributes_from_payments st base ps) (\<lambda>attr.
     Inr (attr, es @ esdt_local_burn_multi ps)))))"

section \<open>config.rs\<close>

definition is_old_farm_position :: "'s farm_storage_scheme \<Rightarrow> u64 \<Rightarrow> bool" where
  "is_old_farm_position st n \<longleftrightarrow> 0 < n \<and> n < farm_position_migration_nonce st"

definition DEFAULT_FARM_POSITION_MIGRATION_NONCE :: u64 where
  "DEFAULT_FARM_POSITION_MIGRATION_NONCE = 1"

definition try_set_farm_position_migration_nonce :: "'s farm_storage_scheme \<Rightarrow> 's farm_storage_scheme" where
  "try_set_farm_position_migration_nonce st =
     (if farm_position_migration_nonce st \<noteq> 0 then st
      else st\<lparr>farm_position_migration_nonce :=
        (if farm_token st \<noteq> None
         then farm_last_nonce st + DEFAULT_FARM_POSITION_MIGRATION_NONCE
         else DEFAULT_FARM_POSITION_MIGRATION_NONCE)\<rparr>)"

section \<open>storage_cache.rs\<close>

record farm_cache =
  cache_state :: state
  cache_farm_token_id :: token_id
  cache_farm_token_supply :: biguint
  cache_farming_token_id :: token_id
  cache_reward_token_id :: token_id
  cache_reward_reserve :: biguint
  cache_reward_per_share :: biguint
  cache_division_safety_constant :: biguint

definition farm_cache_new :: "'s farm_storage_scheme \<Rightarrow> error + farm_cache" where
  "farm_cache_new st =
     and_then (get_farm_token_id st) (\<lambda>t.
     Inr \<lparr>cache_state = farm_state st, cache_farm_token_id = t,
          cache_farm_token_supply = farm_token_supply st,
          cache_farming_token_id = farming_token_id st, cache_reward_token_id = reward_token_id st,
          cache_reward_reserve = reward_reserve st, cache_reward_per_share = stored_reward_per_share st,
          cache_division_safety_constant = division_safety_constant st\<rparr>)"

definition farm_cache_drop :: "farm_cache \<Rightarrow> 's farm_storage_scheme \<Rightarrow> 's farm_storage_scheme" where
  "farm_cache_drop c st =
     st\<lparr>reward_reserve := cache_reward_reserve c,
        stored_reward_per_share := cache_reward_per_share c,
        farm_token_supply := cache_farm_token_supply c\<rparr>"

section \<open>base_traits_impl.rs: positions of the users\<close>

definition increase_user_farm_position ::
  "'s farm_storage_scheme \<Rightarrow> address \<Rightarrow> biguint \<Rightarrow> 's farm_storage_scheme" where
  "increase_user_farm_position st user a =
     st\<lparr>user_total_farm_position :=
        (user_total_farm_position st)(user := user_total_farm_position st user + a)\<rparr>"

text \<open>The total goes down by the amount, to zero at the least.\<close>

definition reduce_total_position :: "biguint \<Rightarrow> biguint \<Rightarrow> biguint" where
  "reduce_total_position user_total a = (if a < user_total then user_total - a else 0)"

definition decrease_user_farm_position ::
  "'s farm_storage_scheme \<Rightarrow> esdt_payment \<Rightarrow> error + 's farm_storage_scheme" where
  "decrease_user_farm_position st farm_position =
     (if is_old_farm_position st (token_nonce farm_position) then Inr st
      else
        and_then (get_farm_token_attributes st (token_nonce farm_position)) (\<lambda>attr.
        let owner = original_owner attr in
        Inr (st\<lparr>user_total_farm_position := (user_total_farm_position st)
               (owner := reduce_total_position (user_total_farm_position st owner) (amount farm_position))\<rparr>)))"

fun check_and_update_user_farm_position ::
  "'s farm_storage_scheme \<Rightarrow> address \<Rightarrow> esdt_payment list \<Rightarrow> error + 's farm_storage_scheme" where
  "check_and_update_user_farm_position st user [] = Inr st"
| "check_and_update_user_farm_position st user (p # ps) =
     require_same_farm_token st (token_identifier p)
       (if is_old_farm_position st (token_nonce p) then check_and_update_user_farm_position st user ps
        else
          and_then (get_farm_token_attributes st (token_nonce p)) (\<lambda>attr.
          if original_owner attr \<noteq> user then
            and_then (decrease_user_farm_position st p) (\<lambda>st.
            check_and_update_user_farm_position (increase_user_farm_position st user (amount p)) user ps)
          else check_and_update_user_farm_position st user ps))"

section \<open>Contexts\<close>

definition enter_farm_context_new ::
  "esdt_payment list \<Rightarrow> token_id \<Rightarrow> token_id \<Rightarrow> error + (esdt_payment \<times> esdt_payment list)" where
  "enter_farm_context_new ps farming_id farm_id =
     (case ps of
        [] \<Rightarrow> Inl ERROR_EMPTY_PAYMENTS
      | p # ps' \<Rightarrow>
          require (token_identifier p = farming_id) ERROR_BAD_PAYMENTS
         (require (list_all (\<lambda>q. token_identifier q = farm_id) ps') ERROR_BAD_PAYMENTS
         (Inr (p, ps'))))"

definition claim_rewards_context_new ::
  "'s farm_storage_scheme \<Rightarrow> esdt_payment list \<Rightarrow> token_id \<Rightarrow>
     error + (esdt_payment \<times> farm_token_attributes \<times> esdt_payment list)" where
  "claim_rewards_context_new st ps farm_id =
     (case ps of
        [] \<Rightarrow> Inl ERROR_EMPTY_PAYMENTS
      | p # ps' \<Rightarrow>
          require (list_all (\<lambda>q. token_identifier q = farm_id) ps) ERROR_BAD_PAYMENTS
         (and_then (get_farm_token_attributes st (token_nonce p)) (\<lambda>attr. Inr (p, attr, ps'))))"

definition exit_farm_context_new ::
  "'s farm_storage_scheme \<Rightarrow> esdt_payment \<Rightarrow> token_id \<Rightarrow> error + farm_token_attributes" where
  "exit_farm_context_new st p farm_id =
     require (token_identifier p = farm_id) ERROR_BAD_PAYMENTS
       (get_farm_token_attributes st (token_nonce p))"

end
