(* ===== verification/FarmBoosted.thy ===== *)
theory FarmBoosted
  imports FarmState
begin

text \<open>
  The boosted yields of farms (\<open>energy-integration/farm-boosted-yields/src\<close>): a part of the
  rewards of every week is set aside and shared by energy and farm position, through the weekly
  rewards module with a wrapper of its own.
\<close>

section \<open>boosted_yields_factors.rs\<close>

definition BOOSTED_YIELDS_FACTORS_ARRAY_LEN :: nat where
  "BOOSTED_YIELDS_FACTORS_ARRAY_LEN = unat USER_MAX_CLAIM_WEEKS + 1"

definition INVALID_CONFIG_WEEK_ERR_MSG :: error where
  "INVALID_CONFIG_WEEK_ERR_MSG = SignalError ''Invalid config week''"

definition NO_CONFIG_ERR_MSG :: error where "NO_CONFIG_ERR_MSG = SignalError ''No config''"

definition boosted_factors_new :: "week \<Rightarrow> boosted_yields_factors \<Rightarrow> boosted_yields_config" where
  "boosted_factors_new current_week factors =
     \<lparr>factors_last_update_week = current_week,
      factors_per_week = replicate BOOSTED_YIELDS_FACTORS_ARRAY_LEN factors\<rparr>"

definition boosted_factors_update ::
  "boosted_yields_config \<Rightarrow> week \<Rightarrow> boosted_yields_factors option \<Rightarrow> error + boosted_yields_config" where
  "boosted_factors_update self current_week opt_new_boost_factors =
     require (factors_last_update_week self \<le> current_week) INVALID_CONFIG_WEEK_ERR_MSG
    (let week_diff = min (unat (current_week - factors_last_update_week self)) BOOSTED_YIELDS_FACTORS_ARRAY_LEN;
         last_index = BOOSTED_YIELDS_FACTORS_ARRAY_LEN - 1 in
     if week_diff = 0 then
       (case opt_new_boost_factors of
          Some new_factors \<Rightarrow>
            require (last_index < length (factors_per_week self)) IndexOutOfRange
              (Inr (self\<lparr>factors_per_week := (factors_per_week self)[last_index := new_factors]\<rparr>))
        | None \<Rightarrow> Inr self)
     else
       and_then (managed_vec_get (factors_per_week self) last_index) (\<lambda>current_last_factors.
       let latest_config =
         (case opt_new_boost_factors of Some f \<Rightarrow> f | None \<Rightarrow> current_last_factors) in
       Inr (self\<lparr>factors_per_week := drop week_diff (factors_per_week self) @
                   replicate (week_diff - 1) current_last_factors @ [latest_config],
                 factors_last_update_week := current_week\<rparr>)))"

definition get_factors_for_week :: "boosted_yields_config \<Rightarrow> week \<Rightarrow> error + boosted_yields_factors" where
  "get_factors_for_week self w =
     require (w < factors_last_update_week self) INVALID_CONFIG_WEEK_ERR_MSG
    (let offset = unat (factors_last_update_week self - w) in
     require (offset < BOOSTED_YIELDS_FACTORS_ARRAY_LEN) INVALID_CONFIG_WEEK_ERR_MSG
       (managed_vec_get (factors_per_week self) (BOOSTED_YIELDS_FACTORS_ARRAY_LEN - 1 - offset)))"

definition get_latest_factors :: "boosted_yields_config \<Rightarrow> error + boosted_yields_factors" where
  "get_latest_factors self =
     managed_vec_get (factors_per_week self) (BOOSTED_YIELDS_FACTORS_ARRAY_LEN - 1)"

definition set_boosted_yields_factors ::
  "'e blockchain_scheme \<Rightarrow> 's farm_storage_scheme \<Rightarrow> boosted_yields_factors \<Rightarrow>
     error + 's farm_storage_scheme" where
  "set_boosted_yields_factors env st factors =
     require_caller_has_admin_permissions (farm_permissions st) (get_caller env)
    (require (0 < min_energy_amount factors \<and> 0 < min_farm_amount factors)
       (SignalError ''Min amounts must be greater than 0'')
    (and_then (get_current_week env st) (\<lambda>current_week.
     case boosted_config st of
       Some cfg \<Rightarrow>
         and_then (boosted_factors_update cfg current_week (Some factors)) (\<lambda>cfg.
         Inr (st\<lparr>boosted_config := Some cfg\<rparr>))
     | None \<Rightarrow> Inr (st\<lparr>boosted_config := Some (boosted_factors_new current_week factors)\<rparr>))))"

definition try_get_boosted_yields_config ::
  "'e blockchain_scheme \<Rightarrow> 's farm_storage_scheme \<Rightarrow> error + boosted_yields_config option" where
  "try_get_boosted_yields_config env st =
     (case boosted_config st of
        None \<Rightarrow> Inr None
      | Some cfg \<Rightarrow>
          and_then (get_current_week env st) (\<lambda>current_week.
          and_then (boosted_factors_update cfg current_week None) (\<lambda>cfg. Inr (Some cfg))))"

definition get_updated_boosted_yields_config ::
  "'e blockchain_scheme \<Rightarrow> 's farm_storage_scheme \<Rightarrow> error + boosted_yields_config" where
  "get_updated_boosted_yields_config env st =
     and_then (try_get_boosted_yields_config env st) (\<lambda>opt_config.
     case opt_config of Some cfg \<Rightarrow> Inr cfg | None \<Rightarrow> Inl NO_CONFIG_ERR_MSG)"

definition update_boosted_yields_config ::
  "'e blockchain_scheme \<Rightarrow> 's farm_storage_scheme \<Rightarrow> error + 's farm_storage_scheme" where
  "update_boosted_yields_config env st =
     and_then (get_updated_boosted_yields_config env st) (\<lambda>updated_config.
     Inr (st\<lparr>boosted_config := Some updated_config\<rparr>))"

definition get_boosted_yields_factors :: "'s farm_storage_scheme \<Rightarrow> error + boosted_yields_factors" where
  "get_boosted_yields_factors st =
     (case boosted_config st of
        None \<Rightarrow> Inl (CallFailed ''storage decode error'')
      | Some cfg \<Rightarrow> get_latest_factors cfg)"

section \<open>lib.rs\<close>

definition MAX_PERCENT :: biguint where "MAX_PERCENT = 10000"

record split_reward =
  base_farm :: biguint
  boosted_farm :: biguint

text \<open>The loop over the weeks from \<open>w\<close> on.\<close>

primrec collect_undistributed_loop ::
  "nat \<Rightarrow> week \<Rightarrow> 's farm_storage_scheme \<Rightarrow> 's farm_storage_scheme" where
  "collect_undistributed_loop 0 w st = st"
| "collect_undistributed_loop (Suc n) w st =
     (let rewards_to_distribute = remaining_boosted_rewards_to_distribute st w in
      collect_undistributed_loop n (w + 1)
        (st\<lparr>remaining_boosted_rewards_to_distribute := (remaining_boosted_rewards_to_distribute st)(w := 0),
            undistributed_boosted_rewards := undistributed_boosted_rewards st + rewards_to_distribute\<rparr>))"

definition collect_undistributed_boosted_rewards ::
  "'e blockchain_scheme \<Rightarrow> 's farm_storage_scheme \<Rightarrow> error + 's farm_storage_scheme" where
  "collect_undistributed_boosted_rewards env st =
     require_caller_has_admin_permissions (farm_permissions st) (get_caller env)
    (let collect_rewards_offset = USER_MAX_CLAIM_WEEKS + 1 in
     and_then (get_current_week env st) (\<lambda>current_week.
     require (collect_rewards_offset < current_week)
       (SignalError ''Current week must be higher than the week offset'')
    (let first_collect_week = last_undistributed_collect_week st + 1;
         last_collect_week = current_week - collect_rewards_offset in
     if last_collect_week < first_collect_week then Inr st
     else
       Inr ((collect_undistributed_loop (unat (last_collect_week - first_collect_week) + 1)
               first_collect_week st)\<lparr>last_undistributed_collect_week := last_collect_week\<rparr>))))"

definition take_reward_slice ::
  "'e blockchain_scheme \<Rightarrow> 's farm_storage_scheme \<Rightarrow> biguint \<Rightarrow>
     error + (split_reward \<times> 's farm_storage_scheme)" where
  "take_reward_slice env st full_reward =
     (let percentage = unat (boosted_yields_rewards_percentage st) in
      if percentage = 0 then Inr (\<lparr>base_farm = full_reward, boosted_farm = 0\<rparr>, st)
      else
        let boosted_yields_cut = full_reward * percentage div MAX_PERCENT in
        if 0 < boosted_yields_cut then
          and_then (get_current_week env st) (\<lambda>current_week.
          let st = st\<lparr>accumulated_rewards_for_week := (accumulated_rewards_for_week st)
                (current_week := accumulated_rewards_for_week st current_week + boosted_yields_cut)\<rparr> in
          and_then (big_sub full_reward boosted_yields_cut) (\<lambda>base_farm_amount.
          Inr (\<lparr>base_farm = base_farm_amount, boosted_farm = boosted_yields_cut\<rparr>, st)))
        else Inr (\<lparr>base_farm = full_reward, boosted_farm = boosted_yields_cut\<rparr>, st))"

definition set_farm_supply_for_current_week ::
  "'e blockchain_scheme \<Rightarrow> 's farm_storage_scheme \<Rightarrow> biguint \<Rightarrow> error + 's farm_storage_scheme" where
  "set_farm_supply_for_current_week env st farm_supply =
     and_then (get_current_week env st) (\<lambda>current_week.
     Inr (st\<lparr>farm_supply_for_week := (farm_supply_for_week st)(current_week := farm_supply)\<rparr>))"

definition clear_user_energy_if_needed ::
  "'e energy_query_env_scheme \<Rightarrow> 's farm_storage_scheme \<Rightarrow> address \<Rightarrow> error + 's farm_storage_scheme" where
  "clear_user_energy_if_needed env st original_caller =
     and_then (try_get_boosted_yields_config env st) (\<lambda>opt_config.
     case opt_config of
       None \<Rightarrow> Inr st
     | Some cfg \<Rightarrow>
         and_then (get_latest_factors cfg) (\<lambda>factors.
         clear_user_energy env st original_caller (user_total_farm_position st original_caller)
           (min_farm_amount factors)))"

section \<open>FarmBoostedYieldsWrapper\<close>

definition boosted_collect_rewards_for_week ::
  "'e blockchain_scheme \<Rightarrow> week \<Rightarrow> 's farm_storage_scheme \<Rightarrow>
     error + (esdt_payment list \<times> 's farm_storage_scheme)" where
  "boosted_collect_rewards_for_week env w st =
     and_then (update_boosted_yields_config env st) (\<lambda>st.
     let total_rewards = accumulated_rewards_for_week st w in
     Inr ([new_payment (reward_token_id st) 0 total_rewards],
          st\<lparr>accumulated_rewards_for_week := (accumulated_rewards_for_week st)(w := 0),
             remaining_boosted_rewards_to_distribute :=
               (remaining_boosted_rewards_to_distribute st)(w := total_rewards)\<rparr>))"

text \<open>The reward of a user for a week of which \<open>weekly_reward\<close> is to be shared.\<close>

definition boosted_user_reward ::
  "boosted_yields_factors \<Rightarrow> biguint \<Rightarrow> biguint \<Rightarrow> biguint \<Rightarrow> biguint \<Rightarrow> biguint \<Rightarrow> error + biguint" where
  "boosted_user_reward factors weekly_reward user_farm_amount farm_supply energy total_energy =
     and_then (big_div (max_rewards_factor factors * weekly_reward * user_farm_amount) farm_supply)
       (\<lambda>max_rewards.
     and_then (big_div (weekly_reward * user_rewards_energy_const factors * energy) total_energy)
       (\<lambda>boosted_rewards_by_energy.
     and_then (big_div (weekly_reward * user_rewards_farm_const factors * user_farm_amount) farm_supply)
       (\<lambda>boosted_rewards_by_tokens.
     let constants_base = user_rewards_energy_const factors + user_rewards_farm_const factors in
     and_then (big_div (boosted_rewards_by_energy + boosted_rewards_by_tokens) constants_base)
       (\<lambda>boosted_reward_amount.
     Inr (min max_rewards boosted_reward_amount)))))"

definition boosted_user_rewards_for_week ::
  "'e blockchain_scheme \<Rightarrow> biguint \<Rightarrow> boosted_yields_config \<Rightarrow> week \<Rightarrow> biguint \<Rightarrow> biguint \<Rightarrow>
     's farm_storage_scheme \<Rightarrow> error + (esdt_payment list \<times> 's farm_storage_scheme)" where
  "boosted_user_rewards_for_week env user_farm_amount cfg w energy total_energy st =
     (let farm_supply = farm_supply_for_week st w in
      if total_energy = 0 \<or> farm_supply = 0 then Inr ([], st)
      else
        and_then (get_factors_for_week cfg w) (\<lambda>factors.
        if energy < min_energy_amount factors \<or> user_farm_amount < min_farm_amount factors then Inr ([], st)
        else
          and_then (collect_and_get_rewards_for_week (boosted_collect_rewards_for_week env) w st)
            (\<lambda>(total_rewards, st).
          if total_rewards = [] then Inr ([], st)
          else
            require (length total_rewards = 1) (SignalError ''Invalid boosted yields rewards'')
           (and_then (managed_vec_get total_rewards 0) (\<lambda>weekly_reward.
            if amount weekly_reward = 0 then Inr ([], st)
            else
              and_then (boosted_user_reward factors (amount weekly_reward) user_farm_amount farm_supply
                          energy total_energy) (\<lambda>user_reward.
              if 0 < user_reward then
                and_then (big_sub (remaining_boosted_rewards_to_distribute st w) user_reward) (\<lambda>remaining.
                Inr ([new_payment (token_identifier weekly_reward) 0 user_reward],
                     st\<lparr>remaining_boosted_rewards_to_distribute :=
                       (remaining_boosted_rewards_to_distribute st)(w := remaining)\<rparr>))
              else Inr ([], st)))))))"

definition claim_boosted_yields_rewards ::
  "'e energy_query_env_scheme \<Rightarrow> 's farm_storage_scheme \<Rightarrow> address \<Rightarrow> biguint \<Rightarrow>
     error + (biguint \<times> 's farm_storage_scheme)" where
  "claim_boosted_yields_rewards env st user farm_token_amount =
     and_then (try_get_boosted_yields_config env st) (\<lambda>opt_config.
     case opt_config of
       None \<Rightarrow> Inr (0, st)
     | Some cfg \<Rightarrow>
         and_then (claim_multi env (boosted_user_rewards_for_week env farm_token_amount cfg) st user)
           (\<lambda>(rewards, st). Inr (sum_list (map amount rewards), st)))"

end
