(* ===== verification/FarmBase.thy ===== *)
theory FarmBase
  imports FarmBoosted
begin

text \<open>
  The base implementation of farms (\<open>common/modules/farm/farm_base_impl\<close>, \<open>rewards\<close>): entering,
  claiming, compounding and leaving. As the trait \<open>FarmContract\<close> lets a contract replace how
  rewards are generated and calculated, the two are arguments here.
\<close>

section \<open>rewards.rs\<close>

definition start_produce_rewards ::
  "'e blockchain_scheme \<Rightarrow> 's farm_storage_scheme \<Rightarrow> error + 's farm_storage_scheme" where
  "start_produce_rewards env st =
     require (per_block_reward_amount st \<noteq> 0) (SignalError ''Cannot produce zero reward amount'')
    (require (\<not> produce_rewards_enabled st) (SignalError ''Producing rewards is already enabled'')
    (Inr (st\<lparr>produce_rewards_enabled := True, last_reward_block_nonce := get_block_nonce env\<rparr>)))"

section \<open>base_traits_impl.rs\<close>

definition calculate_per_block_rewards ::
  "'s farm_storage_scheme \<Rightarrow> u64 \<Rightarrow> u64 \<Rightarrow> biguint" where
  "calculate_per_block_rewards st current_block_nonce last_nonce =
     (if current_block_nonce \<le> last_nonce \<or> \<not> produce_rewards_enabled st then 0
      else per_block_reward_amount st * unat (current_block_nonce - last_nonce))"

text \<open>\<open>mint_rewards\<close> is the effect of minting, which a contract may replace.\<close>

type_synonym mint_rewards = "token_id \<Rightarrow> biguint \<Rightarrow> effect list"

definition default_mint_rewards :: mint_rewards where
  "default_mint_rewards t a = [EsdtLocalMint t a]"

definition mint_per_block_rewards ::
  "mint_rewards \<Rightarrow> 'e blockchain_scheme \<Rightarrow> 's farm_storage_scheme \<Rightarrow> token_id \<Rightarrow>
     biguint \<times> 's farm_storage_scheme \<times> effect list" where
  "mint_per_block_rewards mint env st t =
     (let current_block_nonce = get_block_nonce env;
          last_reward_nonce = last_reward_block_nonce st in
      if last_reward_nonce < current_block_nonce then
        let to_mint = calculate_per_block_rewards st current_block_nonce last_reward_nonce in
        (to_mint, st\<lparr>last_reward_block_nonce := current_block_nonce\<rparr>,
         if to_mint \<noteq> 0 then mint t to_mint else [])
      else (0, st, []))"

definition default_calculate_rewards :: "biguint \<Rightarrow> farm_token_attributes \<Rightarrow> farm_cache \<Rightarrow> error + biguint" where
  "default_calculate_rewards farm_token_amount attr c =
     (let token_rps = reward_per_share attr in
      if token_rps < cache_reward_per_share c then
        big_div (farm_token_amount * (cache_reward_per_share c - token_rps)) (cache_division_safety_constant c)
      else Inr 0)"

definition create_enter_farm_initial_attributes ::
  "'e blockchain_scheme \<Rightarrow> address \<Rightarrow> biguint \<Rightarrow> biguint \<Rightarrow> farm_token_attributes" where
  "create_enter_farm_initial_attributes env caller farming_token_amount current_reward_per_share =
     \<lparr>reward_per_share = current_reward_per_share, entering_epoch = get_block_epoch env,
      compounded_reward = 0, current_farm_amount = farming_token_amount, original_owner = caller\<rparr>"

definition create_claim_rewards_initial_attributes ::
  "address \<Rightarrow> farm_token_attributes \<Rightarrow> biguint \<Rightarrow> farm_token_attributes" where
  "create_claim_rewards_initial_attributes caller initial current_reward_per_share =
     \<lparr>reward_per_share = current_reward_per_share, entering_epoch = entering_epoch initial,
      compounded_reward = compounded_reward initial,
      current_farm_amount = farm_get_total_supply initial, original_owner = caller\<rparr>"

definition create_compound_rewards_initial_attributes ::
  "'e blockchain_scheme \<Rightarrow> address \<Rightarrow> farm_token_attributes \<Rightarrow> biguint \<Rightarrow> biguint \<Rightarrow> farm_token_attributes" where
  "create_compound_rewards_initial_attributes env caller initial current_reward_per_share rew =
     \<lparr>reward_per_share = current_reward_per_share, entering_epoch = get_block_epoch env,
      compounded_reward = compounded_reward initial + rew,
      current_farm_amount = current_farm_amount initial + rew, original_owner = caller\<rparr>"

type_synonym ('e, 's) farm_generate =
  "'e \<Rightarrow> 's \<Rightarrow> farm_cache \<Rightarrow> error + ('s \<times> farm_cache \<times> effect list)"

type_synonym ('e, 's) farm_calculate =
  "'e \<Rightarrow> 's \<Rightarrow> address \<Rightarrow> biguint \<Rightarrow> farm_token_attributes \<Rightarrow> farm_cache \<Rightarrow> error + (biguint \<times> 's)"

section \<open>base_farm_validation.rs and base_farm_init.rs\<close>

definition validate_contract_state ::
  "'e blockchain_scheme \<Rightarrow> farm_cache \<Rightarrow> error + 'a \<Rightarrow> error + 'a" where
  "validate_contract_state env c k =
     require (cache_state c = Active) ERROR_FARM_NOT_ACTIVE
       (require (is_valid_esdt_identifier env (cache_farm_token_id c)) ERROR_NO_FARM_TOKEN k)"

definition base_farm_init ::
  "'e blockchain_scheme \<Rightarrow> 's farm_storage_scheme \<Rightarrow> token_id \<Rightarrow> token_id \<Rightarrow> biguint \<Rightarrow> address \<Rightarrow>
     address list \<Rightarrow> error + 's farm_storage_scheme" where
  "base_farm_init env st reward_id farming_id dsc owner admins =
     require (is_valid_esdt_identifier env reward_id) ERROR_FARM_NOT_AN_ESDT
    (require (is_valid_esdt_identifier env farming_id) ERROR_FARM_NOT_AN_ESDT
    (require (dsc \<noteq> 0) ERROR_FARM_ZERO_AMOUNT
    (let st = st\<lparr>farm_state := Inactive,
                division_safety_constant :=
                  (if division_safety_constant st = 0 then dsc else division_safety_constant st),
                reward_token_id := (if reward_token_id st = '''' then reward_id else reward_token_id st),
                farming_token_id := (if farming_token_id st = '''' then farming_id else farming_token_id st)\<rparr>;
         perms = farm_permissions st;
         perms = (if owner \<noteq> zero_address then add_permissions perms owner (OWNER OR PAUSE) else perms);
         caller = get_caller env;
         perms = (if admins = [] then add_permissions perms caller (OWNER OR ADMIN OR PAUSE)
                  else add_permissions_for_all (add_permissions perms caller (OWNER OR PAUSE)) admins ADMIN)
     in Inr (st\<lparr>farm_permissions := perms\<rparr>))))"

section \<open>enter_farm.rs\<close>

definition enter_farm_base ::
  "('e blockchain_scheme, 's farm_storage_scheme) farm_generate \<Rightarrow> 'e blockchain_scheme \<Rightarrow>
     's farm_storage_scheme \<Rightarrow> address \<Rightarrow> esdt_payment list \<Rightarrow>
     error + (esdt_payment \<times> farm_cache \<times> 's farm_storage_scheme \<times> effect list)" where
  "enter_farm_base generate env st caller ps =
     and_then (farm_cache_new st) (\<lambda>c.
     validate_contract_state env c
    (and_then (enter_farm_context_new ps (cache_farming_token_id c) (cache_farm_token_id c))
       (\<lambda>(farming_token_payment, additional_farm_tokens).
     and_then (check_and_update_user_farm_position st caller additional_farm_tokens) (\<lambda>st.
     let st = increase_user_farm_position st caller (amount farming_token_payment) in
     and_then (generate env st c) (\<lambda>(st, c, es1).
     let c = c\<lparr>cache_farm_token_supply := cache_farm_token_supply c + amount farming_token_payment\<rparr>;
         base_attributes = create_enter_farm_initial_attributes env caller
           (amount farming_token_payment) (cache_reward_per_share c) in
     and_then (merge_and_create_token st base_attributes additional_farm_tokens)
       (\<lambda>(new_farm_token, attr, st, es2).
     Inr (new_farm_token, c, st, es1 @ es2 @ esdt_local_burn_multi additional_farm_tokens)))))))"

section \<open>claim_rewards.rs\<close>

text \<open>The result: the reward, the amount and the attributes of the position to create.\<close>

definition claim_rewards_base_no_farm_token_mint ::
  "('e blockchain_scheme, 's farm_storage_scheme) farm_generate \<Rightarrow>
     ('e blockchain_scheme, 's farm_storage_scheme) farm_calculate \<Rightarrow> 'e blockchain_scheme \<Rightarrow>
     's farm_storage_scheme \<Rightarrow> address \<Rightarrow> esdt_payment list \<Rightarrow>
     error + (esdt_payment \<times> farm_token_attributes \<times> farm_cache \<times> 's farm_storage_scheme \<times> effect list)" where
  "claim_rewards_base_no_farm_token_mint generate calculate env st caller ps =
     and_then (farm_cache_new st) (\<lambda>c.
     validate_contract_state env c
    (and_then (claim_rewards_context_new st ps (cache_farm_token_id c))
       (\<lambda>(first_payment, first_attributes, additional_payments).
     and_then (generate env st c) (\<lambda>(st, c, es1).
     and_then (farm_into_part first_attributes (amount first_payment)) (\<lambda>token_attributes.
     and_then (calculate env st caller (amount first_payment) token_attributes c) (\<lambda>(rew, st).
     and_then (big_sub (cache_reward_reserve c) rew) (\<lambda>reserve.
     let c = c\<lparr>cache_reward_reserve := reserve\<rparr> in
     and_then (check_and_update_user_farm_position st caller ps) (\<lambda>st.
     let base_attributes = create_claim_rewards_initial_attributes caller token_attributes
           (cache_reward_per_share c) in
     and_then (merge_attributes_from_payments st base_attributes additional_payments) (\<lambda>new_attributes.
     and_then (get_farm_token_id st) (\<lambda>t.
     let es2 = [NftBurn t (token_nonce first_payment) (amount first_payment)] in
     Inr (new_payment (cache_reward_token_id c) 0 rew, new_attributes, c, st,
          es1 @ es2 @ esdt_local_burn_multi additional_payments)))))))))))"

definition claim_rewards_base ::
  "('e blockchain_scheme, 's farm_storage_scheme) farm_generate \<Rightarrow>
     ('e blockchain_scheme, 's farm_storage_scheme) farm_calculate \<Rightarrow> 'e blockchain_scheme \<Rightarrow>
     's farm_storage_scheme \<Rightarrow> address \<Rightarrow> esdt_payment list \<Rightarrow>
     error + (esdt_payment \<times> esdt_payment \<times> farm_cache \<times> 's farm_storage_scheme \<times> effect list)" where
  "claim_rewards_base generate calculate env st caller ps =
     and_then (claim_rewards_base_no_farm_token_mint generate calculate env st caller ps)
       (\<lambda>(rewards, attr, c, st, es1).
     and_then (farm_nft_create st (farm_get_total_supply attr) attr) (\<lambda>(new_farm_token, st, es2).
     Inr (new_farm_token, rewards, c, st, es1 @ es2)))"

section \<open>compound_rewards.rs\<close>

definition compound_rewards_base ::
  "('e blockchain_scheme, 's farm_storage_scheme) farm_generate \<Rightarrow>
     ('e blockchain_scheme, 's farm_storage_scheme) farm_calculate \<Rightarrow> 'e blockchain_scheme \<Rightarrow>
     's farm_storage_scheme \<Rightarrow> address \<Rightarrow> esdt_payment list \<Rightarrow>
     error + (esdt_payment \<times> farm_cache \<times> 's farm_storage_scheme \<times> effect list)" where
  "compound_rewards_base generate calculate env st caller ps =
     and_then (farm_cache_new st) (\<lambda>c.
     validate_contract_state env c
    (require (cache_farming_token_id c = cache_reward_token_id c) ERROR_DIFFERENT_TOKEN_IDS
    (and_then (claim_rewards_context_new st ps (cache_farm_token_id c))
       (\<lambda>(first_payment, first_attributes, additional_payments).
     and_then (generate env st c) (\<lambda>(st, c, es1).
     and_then (farm_into_part first_attributes (amount first_payment)) (\<lambda>token_attributes.
     and_then (calculate env st caller (amount first_payment) token_attributes c) (\<lambda>(rew, st).
     and_then (big_sub (cache_reward_reserve c) rew) (\<lambda>reserve.
     let c = c\<lparr>cache_reward_reserve := reserve, cache_farm_token_supply := cache_farm_token_supply c + rew\<rparr> in
     and_then (check_and_update_user_farm_position st caller ps) (\<lambda>st.
     let base_attributes = create_compound_rewards_initial_attributes env caller token_attributes
           (cache_reward_per_share c) rew in
     and_then (merge_and_create_token st base_attributes additional_payments)
       (\<lambda>(new_farm_token, attr, st, es2).
     let st = increase_user_farm_position st caller rew in
     and_then (get_farm_token_id st) (\<lambda>t.
     let es3 = [NftBurn t (token_nonce first_payment) (amount first_payment)] in
     Inr (new_farm_token, c, st,
          es1 @ es2 @ es3 @ esdt_local_burn_multi additional_payments))))))))))))"

section \<open>exit_farm.rs\<close>

definition exit_farm_base ::
  "('e blockchain_scheme, 's farm_storage_scheme) farm_generate \<Rightarrow>
     ('e blockchain_scheme, 's farm_storage_scheme) farm_calculate \<Rightarrow> 'e blockchain_scheme \<Rightarrow>
     's farm_storage_scheme \<Rightarrow> address \<Rightarrow> esdt_payment \<Rightarrow>
     error + (esdt_payment \<times> esdt_payment \<times> farm_token_attributes \<times> farm_cache \<times>
              's farm_storage_scheme \<times> effect list)" where
  "exit_farm_base generate calculate env st caller p =
     and_then (farm_cache_new st) (\<lambda>c.
     validate_contract_state env c
    (and_then (exit_farm_context_new st p (cache_farm_token_id c)) (\<lambda>attr.
     and_then (generate env st c) (\<lambda>(st, c, es1).
     and_then (farm_into_part attr (amount p)) (\<lambda>token_attributes.
     and_then (calculate env st caller (amount p) token_attributes c) (\<lambda>(rew, st).
     and_then (big_sub (cache_reward_reserve c) rew) (\<lambda>reserve.
     let c = c\<lparr>cache_reward_reserve := reserve\<rparr> in
     and_then (decrease_user_farm_position st p) (\<lambda>st.
     let farming_token_amount = farm_get_total_supply token_attributes;
         farming_token_payment = new_payment (cache_farming_token_id c) 0 farming_token_amount;
         reward_payment = new_payment (cache_reward_token_id c) 0 rew;
         es2 = esdt_local_burn (token_identifier p) (token_nonce p) (amount p) in
     and_then (big_sub (cache_farm_token_supply c) farming_token_amount) (\<lambda>supply.
     let c = c\<lparr>cache_farm_token_supply := supply\<rparr> in
     Inr (farming_token_payment, reward_payment, attr, c, st, es1 @ es2))))))))))"

end
