(* ===== verification/FarmContract.thy ===== *)
theory FarmContract
  imports FarmBase
begin

text \<open>
  The farm (\<open>dex/farm/src\<close>): what it shares with the farm with locked rewards
  (\<open>base_functions.rs\<close>, \<open>exit_penalty.rs\<close>), which differs only in how rewards are minted and
  paid, and its endpoints (\<open>lib.rs\<close>).
\<close>

section \<open>exit_penalty.rs\<close>

definition DEFAULT_PENALTY_PERCENT :: u64 where "DEFAULT_PENALTY_PERCENT = 100"
definition DEFAULT_MINUMUM_FARMING_EPOCHS :: u64 where "DEFAULT_MINUMUM_FARMING_EPOCHS = 3"
definition DEFAULT_BURN_GAS_LIMIT :: u64 where "DEFAULT_BURN_GAS_LIMIT = 50000000"
definition MAX_MINIMUM_FARMING_EPOCHS :: u64 where "MAX_MINIMUM_FARMING_EPOCHS = 30"

definition set_penalty_percent ::
  "'e blockchain_scheme \<Rightarrow> 's farm_storage_scheme \<Rightarrow> u64 \<Rightarrow> error + 's farm_storage_scheme" where
  "set_penalty_percent env st percent =
     require (get_caller env = get_owner_address env) ONLY_OWNER
    (require (unat percent < MAX_PERCENT) ERROR_PARAMETERS
    (Inr (st\<lparr>penalty_percent := percent\<rparr>)))"

definition set_minimum_farming_epochs ::
  "'e blockchain_scheme \<Rightarrow> 's farm_storage_scheme \<Rightarrow> u64 \<Rightarrow> error + 's farm_storage_scheme" where
  "set_minimum_farming_epochs env st epochs =
     require_caller_has_admin_permissions (farm_permissions st) (get_caller env)
    (require (epochs \<le> MAX_MINIMUM_FARMING_EPOCHS) ERROR_PARAMETERS
    (Inr (st\<lparr>minimum_farming_epochs := epochs\<rparr>)))"

definition set_burn_gas_limit ::
  "'e blockchain_scheme \<Rightarrow> 's farm_storage_scheme \<Rightarrow> u64 \<Rightarrow> error + 's farm_storage_scheme" where
  "set_burn_gas_limit env st gas_limit =
     require (get_caller env = get_owner_address env) ONLY_OWNER (Inr (st\<lparr>burn_gas_limit := gas_limit\<rparr>))"

definition burn_farming_tokens ::
  "'s farm_storage_scheme \<Rightarrow> biguint \<Rightarrow> token_id \<Rightarrow> effect list" where
  "burn_farming_tokens st farming_amount farming_id =
     (if pair_contract_address st = zero_address then [EsdtLocalBurn farming_id farming_amount]
      else [ExecuteOnDest (pair_contract_address st) ''removeLiquidityAndBuyBackAndBurnToken''
              [new_payment farming_id 0 farming_amount]])"

section \<open>base_functions.rs: Wrapper\<close>

definition farm_generate_aggregated_rewards ::
  "mint_rewards \<Rightarrow> ('e blockchain_scheme, 's farm_storage_scheme) farm_generate" where
  "farm_generate_aggregated_rewards mint env st c =
     (let (total_reward, st, es) = mint_per_block_rewards mint env st (cache_reward_token_id c) in
      if 0 < total_reward then
        let c = c\<lparr>cache_reward_reserve := cache_reward_reserve c + total_reward\<rparr> in
        and_then (take_reward_slice env st total_reward) (\<lambda>(split_rewards, st).
        if cache_farm_token_supply c \<noteq> 0 then
          let increase = base_farm split_rewards * cache_division_safety_constant c
                           div cache_farm_token_supply c in
          Inr (st, c\<lparr>cache_reward_per_share := cache_reward_per_share c + increase\<rparr>, es)
        else Inr (st, c, es))
      else Inr (st, c, es))"

definition calculate_boosted_rewards ::
  "'e energy_query_env_scheme \<Rightarrow> 's farm_storage_scheme \<Rightarrow> address \<Rightarrow>
     error + (biguint \<times> 's farm_storage_scheme)" where
  "calculate_boosted_rewards env st caller =
     claim_boosted_yields_rewards env st caller (user_total_farm_position st caller)"

definition farm_calculate_rewards ::
  "('e energy_query_env_scheme, 's farm_storage_scheme) farm_calculate" where
  "farm_calculate_rewards env st caller farm_token_amount attr c =
     and_then (default_calculate_rewards farm_token_amount attr c) (\<lambda>base_farm_reward.
     and_then (calculate_boosted_rewards env st caller) (\<lambda>(boosted_yield_rewards, st).
     Inr (base_farm_reward + boosted_yield_rewards, st)))"

definition get_exit_penalty ::
  "'e blockchain_scheme \<Rightarrow> 's farm_storage_scheme \<Rightarrow> biguint \<Rightarrow> farm_token_attributes \<Rightarrow> biguint" where
  "get_exit_penalty env st total_exit_amount attr =
     (let user_farming_epochs = get_block_epoch env - entering_epoch attr in
      if minimum_farming_epochs st \<le> user_farming_epochs then 0
      else total_exit_amount * unat (penalty_percent st) div MAX_PERCENT)"

definition apply_penalty ::
  "'e blockchain_scheme \<Rightarrow> 's farm_storage_scheme \<Rightarrow> biguint \<Rightarrow> farm_token_attributes \<Rightarrow> farm_cache \<Rightarrow>
     error + (biguint \<times> effect list)" where
  "apply_penalty env st total_exit_amount attr c =
     (let penalty_amount = get_exit_penalty env st total_exit_amount attr in
      if 0 < penalty_amount then
        and_then (big_sub total_exit_amount penalty_amount) (\<lambda>left.
        Inr (left, burn_farming_tokens st penalty_amount (cache_farming_token_id c)))
      else Inr (total_exit_amount, []))"

section \<open>base_functions.rs: the module\<close>

definition farm_enter ::
  "mint_rewards \<Rightarrow> 'e blockchain_scheme \<Rightarrow> 's farm_storage_scheme \<Rightarrow> address \<Rightarrow> esdt_payment list \<Rightarrow>
     error + (esdt_payment \<times> 's farm_storage_scheme \<times> effect list)" where
  "farm_enter mint env st caller ps =
     and_then (enter_farm_base (farm_generate_aggregated_rewards mint) env st caller ps)
       (\<lambda>(new_farm_token, c, st, es).
     and_then (set_farm_supply_for_current_week env st (cache_farm_token_supply c)) (\<lambda>st.
     Inr (new_farm_token, farm_cache_drop c st, es)))"

definition farm_claim ::
  "mint_rewards \<Rightarrow> 'e energy_query_env_scheme \<Rightarrow> 's farm_storage_scheme \<Rightarrow> address \<Rightarrow> esdt_payment list \<Rightarrow>
     error + (esdt_payment \<times> esdt_payment \<times> 's farm_storage_scheme \<times> effect list)" where
  "farm_claim mint env st caller ps =
     and_then (claim_rewards_base (farm_generate_aggregated_rewards mint) farm_calculate_rewards env st caller ps)
       (\<lambda>(new_farm_token, rewards, c, st, es).
     and_then (set_farm_supply_for_current_week env st (cache_farm_token_supply c)) (\<lambda>st.
     Inr (new_farm_token, rewards, farm_cache_drop c st, es)))"

definition farm_compound ::
  "mint_rewards \<Rightarrow> 'e energy_query_env_scheme \<Rightarrow> 's farm_storage_scheme \<Rightarrow> address \<Rightarrow> esdt_payment list \<Rightarrow>
     error + (esdt_payment \<times> 's farm_storage_scheme \<times> effect list)" where
  "farm_compound mint env st caller ps =
     and_then (compound_rewards_base (farm_generate_aggregated_rewards mint) farm_calculate_rewards env st caller ps)
       (\<lambda>(new_farm_token, c, st, es).
     and_then (set_farm_supply_for_current_week env st (cache_farm_token_supply c)) (\<lambda>st.
     Inr (new_farm_token, farm_cache_drop c st, es)))"

definition farm_exit ::
  "mint_rewards \<Rightarrow> 'e energy_query_env_scheme \<Rightarrow> 's farm_storage_scheme \<Rightarrow> address \<Rightarrow> esdt_payment \<Rightarrow>
     error + (esdt_payment \<times> esdt_payment \<times> 's farm_storage_scheme \<times> effect list)" where
  "farm_exit mint env st caller p =
     and_then (exit_farm_base (farm_generate_aggregated_rewards mint) farm_calculate_rewards env st caller p)
       (\<lambda>(farming_token_payment, reward_payment, attr, c, st, es1).
     and_then (set_farm_supply_for_current_week env st (cache_farm_token_supply c)) (\<lambda>st.
     and_then (apply_penalty env st (amount farming_token_payment) attr c) (\<lambda>(left, es2).
     Inr (farming_token_payment\<lparr>amount := left\<rparr>, reward_payment, farm_cache_drop c st, es1 @ es2))))"

definition merge_and_return_attributes ::
  "'s farm_storage_scheme \<Rightarrow> address \<Rightarrow> esdt_payment list \<Rightarrow>
     error + (farm_token_attributes \<times> 's farm_storage_scheme \<times> effect list)" where
  "merge_and_return_attributes st orig_caller ps =
     and_then (get_non_empty_payments ps) (\<lambda>ps.
     require_all_same_farm_token st ps
    (and_then (check_and_update_user_farm_position st orig_caller ps) (\<lambda>st.
     and_then (merge_from_payments_and_burn st ps) (\<lambda>(attr, es). Inr (attr, st, es)))))"

definition claim_only_boosted_payment ::
  "'e energy_query_env_scheme \<Rightarrow> 's farm_storage_scheme \<Rightarrow> address \<Rightarrow>
     error + (biguint \<times> 's farm_storage_scheme)" where
  "claim_only_boosted_payment env st caller =
     and_then (calculate_boosted_rewards env st caller) (\<lambda>(rew, st).
     if 0 < rew then
       and_then (big_sub (reward_reserve st) rew) (\<lambda>reserve. Inr (rew, st\<lparr>reward_reserve := reserve\<rparr>))
     else Inr (rew, st))"

definition migrate_old_farm_positions ::
  "'s farm_storage_scheme \<Rightarrow> address \<Rightarrow> esdt_payment list \<Rightarrow> error + (biguint \<times> 's farm_storage_scheme)" where
  "migrate_old_farm_positions st caller ps =
     and_then (get_non_empty_payments ps) (\<lambda>ps.
     and_then (get_farm_token_id st) (\<lambda>t.
     let migrated_amount = sum_list (map amount
           (filter (\<lambda>p. token_identifier p = t \<and> is_old_farm_position st (token_nonce p)) ps)) in
     Inr (migrated_amount,
          if 0 < migrated_amount then increase_user_farm_position st caller migrated_amount else st)))"

definition decrease_old_farm_positions ::
  "'s farm_storage_scheme \<Rightarrow> biguint \<Rightarrow> address \<Rightarrow> 's farm_storage_scheme" where
  "decrease_old_farm_positions st migrated_amount caller =
     (if migrated_amount = 0 then st
      else st\<lparr>user_total_farm_position := (user_total_farm_position st)
        (caller := reduce_total_position (user_total_farm_position st caller) migrated_amount)\<rparr>)"

definition end_produce_rewards ::
  "mint_rewards \<Rightarrow> 'e blockchain_scheme \<Rightarrow> 's farm_storage_scheme \<Rightarrow>
     error + ('s farm_storage_scheme \<times> effect list)" where
  "end_produce_rewards mint env st =
     and_then (farm_cache_new st) (\<lambda>c.
     and_then (farm_generate_aggregated_rewards mint env st c) (\<lambda>(st, c, es).
     Inr (farm_cache_drop c (st\<lparr>produce_rewards_enabled := False\<rparr>), es)))"

definition set_per_block_rewards ::
  "mint_rewards \<Rightarrow> 'e blockchain_scheme \<Rightarrow> 's farm_storage_scheme \<Rightarrow> biguint \<Rightarrow>
     error + ('s farm_storage_scheme \<times> effect list)" where
  "set_per_block_rewards mint env st per_block_amount =
     require (per_block_amount \<noteq> 0) ERROR_FARM_ZERO_AMOUNT
    (and_then (farm_cache_new st) (\<lambda>c.
     and_then (farm_generate_aggregated_rewards mint env st c) (\<lambda>(st, c, es).
     Inr (farm_cache_drop c (st\<lparr>per_block_reward_amount := per_block_amount\<rparr>), es))))"

definition require_queried :: "'e blockchain_scheme \<Rightarrow> error + 'a \<Rightarrow> error + 'a" where
  "require_queried env k =
     require (get_caller env = get_sc_address env)
       (SignalError ''May only call this function through VM query'') k"

section \<open>lib.rs\<close>

definition farm_init ::
  "'e blockchain_scheme \<Rightarrow> 's farm_storage_scheme \<Rightarrow> token_id \<Rightarrow> token_id \<Rightarrow> biguint \<Rightarrow> address \<Rightarrow>
     address \<Rightarrow> address list \<Rightarrow> error + 's farm_storage_scheme" where
  "farm_init env st reward_id farming_id dsc pair owner admins =
     and_then (base_farm_init env st reward_id farming_id dsc owner admins) (\<lambda>st.
     let st = st\<lparr>penalty_percent := (if penalty_percent st = 0 then DEFAULT_PENALTY_PERCENT else penalty_percent st),
                minimum_farming_epochs :=
                  (if minimum_farming_epochs st = 0 then DEFAULT_MINUMUM_FARMING_EPOCHS
                   else minimum_farming_epochs st),
                burn_gas_limit := (if burn_gas_limit st = 0 then DEFAULT_BURN_GAS_LIMIT else burn_gas_limit st),
                pair_contract_address := pair,
                first_week_start_epoch :=
                  (if first_week_start_epoch st = 0 then get_block_epoch env else first_week_start_epoch st)\<rparr> in
     Inr (try_set_farm_position_migration_nonce st))"

definition farm_upgrade :: "'e blockchain_scheme \<Rightarrow> 's farm_storage_scheme \<Rightarrow> 's farm_storage_scheme" where
  "farm_upgrade env st =
     try_set_farm_position_migration_nonce
       (st\<lparr>first_week_start_epoch :=
          (if first_week_start_epoch st = 0 then get_block_epoch env else first_week_start_epoch st)\<rparr>)"

type_synonym 's farm_result = "error + (esdt_payment list \<times> 's \<times> effect list)"

definition enter_farm_endpoint ::
  "'e energy_query_env_scheme \<Rightarrow> 's farm_storage_scheme \<Rightarrow> esdt_payment list \<Rightarrow> address option \<Rightarrow>
     's farm_storage_scheme farm_result" where
  "enter_farm_endpoint env st ps opt_orig_caller =
     (let caller = get_caller env in
      and_then (get_orig_caller_from_opt (farm_sc_whitelist st) caller opt_orig_caller) (\<lambda>orig_caller.
      and_then (migrate_old_farm_positions st orig_caller ps) (\<lambda>(migrated_amount, st).
      and_then (claim_only_boosted_payment env st orig_caller) (\<lambda>(boosted_rewards, st).
      let boosted_rewards_payment = new_payment (reward_token_id st) 0 boosted_rewards in
      and_then (farm_enter default_mint_rewards env st orig_caller ps) (\<lambda>(new_farm_token, st, es).
      and_then (update_energy_and_progress env st orig_caller) (\<lambda>st.
      Inr ([new_farm_token, boosted_rewards_payment], st,
           es @ send_payment_non_zero caller new_farm_token @
           send_payment_non_zero caller boosted_rewards_payment)))))))"

definition farm_claim_rewards_endpoint ::
  "'e energy_query_env_scheme \<Rightarrow> 's farm_storage_scheme \<Rightarrow> esdt_payment list \<Rightarrow> address option \<Rightarrow>
     's farm_storage_scheme farm_result" where
  "farm_claim_rewards_endpoint env st ps opt_orig_caller =
     (let caller = get_caller env in
      and_then (get_orig_caller_from_opt (farm_sc_whitelist st) caller opt_orig_caller) (\<lambda>orig_caller.
      and_then (migrate_old_farm_positions st orig_caller ps) (\<lambda>(migrated_amount, st).
      and_then (farm_claim default_mint_rewards env st orig_caller ps) (\<lambda>(new_farm_token, rewards, st, es).
      Inr ([new_farm_token, rewards], st,
           es @ send_payment_non_zero caller new_farm_token @ send_payment_non_zero caller rewards)))))"

definition compound_rewards_endpoint ::
  "'e energy_query_env_scheme \<Rightarrow> 's farm_storage_scheme \<Rightarrow> esdt_payment list \<Rightarrow> address option \<Rightarrow>
     's farm_storage_scheme farm_result" where
  "compound_rewards_endpoint env st ps opt_orig_caller =
     (let caller = get_caller env in
      and_then (get_orig_caller_from_opt (farm_sc_whitelist st) caller opt_orig_caller) (\<lambda>orig_caller.
      and_then (migrate_old_farm_positions st orig_caller ps) (\<lambda>(migrated_amount, st).
      and_then (farm_compound default_mint_rewards env st orig_caller ps) (\<lambda>(output_farm_token, st, es).
      and_then (update_energy_and_progress env st orig_caller) (\<lambda>st.
      Inr ([output_farm_token], st, es @ send_payment_non_zero caller output_farm_token))))))"

definition exit_farm_endpoint ::
  "'e energy_query_env_scheme \<Rightarrow> 's farm_storage_scheme \<Rightarrow> esdt_payment list \<Rightarrow> address option \<Rightarrow>
     's farm_storage_scheme farm_result" where
  "exit_farm_endpoint env st ps opt_orig_caller =
     (let caller = get_caller env in
      and_then (get_orig_caller_from_opt (farm_sc_whitelist st) caller opt_orig_caller) (\<lambda>orig_caller.
      and_then (single_esdt ps) (\<lambda>payment.
      and_then (migrate_old_farm_positions st orig_caller ps) (\<lambda>(migrated_amount, st).
      and_then (farm_exit default_mint_rewards env st orig_caller payment)
        (\<lambda>(farming_tokens, rewards, st, es).
      let st = decrease_old_farm_positions st migrated_amount orig_caller in
      and_then (clear_user_energy_if_needed env st orig_caller) (\<lambda>st.
      Inr ([farming_tokens, rewards], st,
           es @ send_payment_non_zero caller farming_tokens @ send_payment_non_zero caller rewards)))))))"

definition merge_and_update_farm_tokens ::
  "'s farm_storage_scheme \<Rightarrow> address \<Rightarrow> esdt_payment list \<Rightarrow>
     error + (esdt_payment \<times> 's farm_storage_scheme \<times> effect list)" where
  "merge_and_update_farm_tokens st orig_caller ps =
     and_then (merge_and_return_attributes st orig_caller ps) (\<lambda>(output_attributes, st, es1).
     let output_attributes = output_attributes\<lparr>original_owner := orig_caller\<rparr> in
     and_then (farm_nft_create st (farm_get_total_supply output_attributes) output_attributes)
       (\<lambda>(p, st, es2). Inr (p, st, es1 @ es2)))"

definition merge_farm_tokens_endpoint ::
  "'e energy_query_env_scheme \<Rightarrow> 's farm_storage_scheme \<Rightarrow> esdt_payment list \<Rightarrow> address option \<Rightarrow>
     's farm_storage_scheme farm_result" where
  "merge_farm_tokens_endpoint env st ps opt_orig_caller =
     (let caller = get_caller env in
      and_then (get_orig_caller_from_opt (farm_sc_whitelist st) caller opt_orig_caller) (\<lambda>orig_caller.
      and_then (migrate_old_farm_positions st orig_caller ps) (\<lambda>(migrated_amount, st).
      and_then (claim_only_boosted_payment env st orig_caller) (\<lambda>(boosted_rewards, st).
      let boosted_rewards_payment = new_payment (reward_token_id st) 0 boosted_rewards in
      and_then (merge_and_update_farm_tokens st orig_caller ps) (\<lambda>(merged_farm_token, st, es).
      Inr ([merged_farm_token, boosted_rewards_payment], st,
           es @ send_payment_non_zero caller merged_farm_token @
           send_payment_non_zero caller boosted_rewards_payment))))))"

text \<open>
  The cache is read before the boosted rewards leave the stored reserve, and written back after:
  the reserve of the storage is then the one of the cache, from which they have not been taken.
\<close>

definition farm_claim_boosted_rewards ::
  "'e energy_query_env_scheme \<Rightarrow> 's farm_storage_scheme \<Rightarrow> address option \<Rightarrow>
     's farm_storage_scheme farm_result" where
  "farm_claim_boosted_rewards env st opt_user =
     (let caller = get_caller env;
          user = (case opt_user of Some u \<Rightarrow> u | None \<Rightarrow> caller) in
      require (user \<noteq> caller \<longrightarrow> allow_external_claim st user)
        (SignalError ''Cannot claim rewards for this address'')
     (require (user_total_farm_position st user \<noteq> 0)
        (SignalError ''User total farm position is empty!'')
     (and_then (farm_cache_new st) (\<lambda>c.
      validate_contract_state env c
     (and_then (farm_generate_aggregated_rewards default_mint_rewards env st c) (\<lambda>(st, c, es).
      and_then (claim_only_boosted_payment env st user) (\<lambda>(boosted_rewards, st).
      let boosted_rewards_payment = new_payment (reward_token_id st) 0 boosted_rewards in
      and_then (set_farm_supply_for_current_week env st (cache_farm_token_supply c)) (\<lambda>st.
      Inr ([boosted_rewards_payment], farm_cache_drop c st,
           es @ send_payment_non_zero user boosted_rewards_payment)))))))))"

definition start_produce_rewards_endpoint ::
  "'e blockchain_scheme \<Rightarrow> 's farm_storage_scheme \<Rightarrow> error + 's farm_storage_scheme" where
  "start_produce_rewards_endpoint env st =
     require_caller_has_admin_permissions (farm_permissions st) (get_caller env) (start_produce_rewards env st)"

definition end_produce_rewards_endpoint ::
  "mint_rewards \<Rightarrow> 'e blockchain_scheme \<Rightarrow> 's farm_storage_scheme \<Rightarrow>
     error + ('s farm_storage_scheme \<times> effect list)" where
  "end_produce_rewards_endpoint mint env st =
     require_caller_has_admin_permissions (farm_permissions st) (get_caller env) (end_produce_rewards mint env st)"

definition set_per_block_rewards_endpoint ::
  "mint_rewards \<Rightarrow> 'e blockchain_scheme \<Rightarrow> 's farm_storage_scheme \<Rightarrow> biguint \<Rightarrow>
     error + ('s farm_storage_scheme \<times> effect list)" where
  "set_per_block_rewards_endpoint mint env st per_block_amount =
     require_caller_has_admin_permissions (farm_permissions st) (get_caller env)
       (set_per_block_rewards mint env st per_block_amount)"

definition set_boosted_yields_rewards_percentage ::
  "mint_rewards \<Rightarrow> 'e blockchain_scheme \<Rightarrow> 's farm_storage_scheme \<Rightarrow> u64 \<Rightarrow>
     error + ('s farm_storage_scheme \<times> effect list)" where
  "set_boosted_yields_rewards_percentage mint env st percentage =
     require_caller_has_admin_permissions (farm_permissions st) (get_caller env)
    (require (unat percentage \<le> MAX_PERCENT) (SignalError ''Invalid percentage'')
    (and_then (farm_cache_new st) (\<lambda>c.
     and_then (farm_generate_aggregated_rewards mint env st c) (\<lambda>(st, c, es).
     Inr (farm_cache_drop c (st\<lparr>boosted_yields_rewards_percentage := percentage\<rparr>), es)))))"

text \<open>A query: its changes of the storage are thrown away.\<close>

definition calculate_rewards_for_given_position ::
  "'e energy_query_env_scheme \<Rightarrow> 's farm_storage_scheme \<Rightarrow> address \<Rightarrow> biguint \<Rightarrow> farm_token_attributes \<Rightarrow>
     error + biguint" where
  "calculate_rewards_for_given_position env st user farm_token_amount attr =
     require_queried env
    (and_then (farm_cache_new st) (\<lambda>c.
     and_then (farm_generate_aggregated_rewards default_mint_rewards env st c) (\<lambda>(st, c, es).
     and_then (farm_calculate_rewards env st user farm_token_amount attr c) (\<lambda>(rew, st).
     Inr rew))))"

end
