(* ===== verification/FarmFacts.thy ===== *)
theory FarmFacts
  imports FarmContract
begin

text \<open>
  What the parts of a farm do. The boosted rewards: a claim takes what it pays from what was set
  aside for the weeks, and leaves the rest of the farm alone. The merging of positions: the merged
  position owes no more than its parts.
\<close>

section \<open>Claims through the weekly rewards module\<close>

text \<open>The storage without what the weekly rewards module writes.\<close>

definition weekly_rest :: "'s weekly_storage_scheme \<Rightarrow> 's weekly_storage_scheme" where
  "weekly_rest st = st\<lparr>last_global_update_week := 0, total_rewards_for_week := (\<lambda>w. []),
     total_energy_for_week := (\<lambda>w. 0), total_locked_tokens_for_week := (\<lambda>w. 0), first_bucket_id := 0,
     locked_tokens_in_bucket := Map.empty, current_claim_progress := Map.empty\<rparr>"

lemma weekly_rest_upd [simp]:
  "weekly_rest (st\<lparr>last_global_update_week := a\<rparr>) = weekly_rest st"
  "weekly_rest (st\<lparr>total_rewards_for_week := b\<rparr>) = weekly_rest st"
  "weekly_rest (st\<lparr>total_energy_for_week := c\<rparr>) = weekly_rest st"
  "weekly_rest (st\<lparr>total_locked_tokens_for_week := d\<rparr>) = weekly_rest st"
  "weekly_rest (st\<lparr>first_bucket_id := f\<rparr>) = weekly_rest st"
  "weekly_rest (st\<lparr>locked_tokens_in_bucket := g\<rparr>) = weekly_rest st"
  "weekly_rest (st\<lparr>current_claim_progress := m\<rparr>) = weekly_rest st"
  by (simp_all add: weekly_rest_def)

lemma shift_buckets_rest:
  "shift_buckets_and_update_tokens_energy st n t e = Inr (st', t', e') \<Longrightarrow> weekly_rest st' = weekly_rest st"
  by (auto simp: shift_buckets_and_update_tokens_energy_def res_simps)

lemma perform_weekly_update_rest:
  assumes "perform_weekly_update st cw = Inr st'"
  shows "weekly_rest st' = weekly_rest st"
  using assms
  by (auto simp: perform_weekly_update_def Let_def res_simps dest!: shift_buckets_rest split: if_splits)

lemma init_bucket_rest: "init_and_update_bucket st b g = Inr st' \<Longrightarrow> weekly_rest st' = weekly_rest st"
  by (auto simp: init_and_update_bucket_eq res_simps)

lemma reallocate_rest:
  assumes "reallocate_bucket_after_energy_update st e1 e2 e3 = Inr (p, st')"
  shows "weekly_rest st' = weekly_rest st"
proof -
  obtain x y st1 where
    "(case x of Some b \<Rightarrow> init_and_update_bucket st b (take_from_bucket e1) | None \<Rightarrow> Inr st) = Inr st1"
    "(case y of Some b \<Rightarrow> init_and_update_bucket st1 b (put_into_bucket e3) | None \<Rightarrow> Inr st1) = Inr st'"
    using assms by (auto simp: reallocate_bucket_after_energy_update_def and_then_Inr)
  then show ?thesis by (cases x; cases y) (auto dest!: init_bucket_rest)
qed

lemma update_user_energy_rest:
  assumes "update_user_energy_for_current_week st cw e x = Inr st'"
  shows "weekly_rest st' = weekly_rest st"
  using assms
  by (auto simp: update_user_energy_for_current_week_def update_global_amounts_for_current_week_def
      update_and_get_total_tokens_amounts_after_user_energy_update_def
      update_and_get_total_energy_amounts_after_user_energy_update_def Let_def and_then_Inr
      dest!: perform_weekly_update_rest reallocate_rest split: prod.splits)

lemma update_energy_and_progress_rest:
  "update_energy_and_progress env st user = Inr st' \<Longrightarrow> weekly_rest st' = weekly_rest st"
  by (auto simp: update_energy_and_progress_def store_claim_progress_eq Let_def res_simps
      dest!: update_user_energy_rest)

lemma update_energy_for_user_rest:
  "update_energy_for_user env st user = Inr st' \<Longrightarrow> weekly_rest st' = weekly_rest st"
  by (auto simp: update_energy_for_user_def res_simps dest!: update_energy_and_progress_rest)

lemma clear_user_energy_rest:
  "clear_user_energy env st user a b = Inr st' \<Longrightarrow> weekly_rest st' = weekly_rest st"
  by (auto simp: clear_user_energy_def Let_def res_simps dest!: update_user_energy_rest split: if_splits)

text \<open>
  A relation between storages with the amount paid that the wrapper keeps, and that what the
  module itself writes keeps, holds for a whole claim.
\<close>

abbreviation total_amount :: "esdt_payment list \<Rightarrow> biguint" where
  "total_amount ps \<equiv> sum_list (map amount ps)"

locale claim_relation =
  fixes user_rewards :: "'s user_rewards"
    and R :: "'s weekly_storage_scheme \<Rightarrow> biguint \<Rightarrow> 's weekly_storage_scheme \<Rightarrow> bool"
  assumes wrapper: "user_rewards w a b st = Inr (rs, st') \<Longrightarrow> R st (total_amount rs) st'"
    and weekly: "weekly_rest st' = weekly_rest st \<Longrightarrow> R st 0 st'"
    and combine: "R st a s \<Longrightarrow> R s b s' \<Longrightarrow> R st (a + b) s'"
begin

lemma claim_weeks_rel: "claim_weeks n user_rewards p st = Inr (rs, st') \<Longrightarrow> R st (total_amount rs) st'"
proof (induction n arbitrary: p st rs)
  case 0
  then show ?case using weekly [of st st] by simp
next
  case (Suc n)
  then obtain qs st1 ps where one: "user_rewards (progress_week p) (get_energy_amount (progress_energy p))
      (total_energy_for_week st (progress_week p)) st = Inr (qs, st1)"
    and rest: "claim_weeks n user_rewards (advance_week p) st1 = Inr (ps, st')" and rs: "rs = qs @ ps"
    by (auto simp: claim_single_def Let_def res_simps)
  from combine [OF wrapper [OF one] Suc.IH [OF rest]] show ?case by (simp add: rs)
qed

lemma claim_multi_rel:
  assumes "claim_multi env user_rewards st user = Inr (rs, st')"
  shows "R st (total_amount rs) st'"
proof -
  let ?e = "get_energy_entry env st user" and ?m = "current_claim_progress st"
  obtain cw st1 st2 n p where upd: "update_user_energy_for_current_week st cw ?e (?m user) = Inr st1"
    and weeks: "claim_weeks n user_rewards p st1 = Inr (rs, st2)"
    and st': "st' = store_claim_progress st2 user ?e cw"
    using assms by (auto simp: claim_multi_def Let_def res_simps)
  have "weekly_rest st' = weekly_rest st2" by (simp add: st' store_claim_progress_eq)
  from combine [OF combine [OF weekly [OF update_user_energy_rest [OF upd]] claim_weeks_rel [OF weeks]] weekly [OF this]]
  show ?thesis by simp
qed

end

section \<open>Boosted rewards\<close>

text \<open>What is set aside, and the farm without it and without the weekly rewards.\<close>

definition boosted_total :: "'s farm_storage_scheme \<Rightarrow> biguint" where
  "boosted_total st =
     (\<Sum>w\<in>UNIV. accumulated_rewards_for_week st w + remaining_boosted_rewards_to_distribute st w) +
     undistributed_boosted_rewards st"

definition farm_rest :: "'s farm_storage_scheme \<Rightarrow> 's farm_storage_scheme" where
  "farm_rest st = (weekly_rest st)\<lparr>accumulated_rewards_for_week := (\<lambda>w. 0), farm_supply_for_week := (\<lambda>w. 0),
     remaining_boosted_rewards_to_distribute := (\<lambda>w. 0), last_undistributed_collect_week := 0,
     undistributed_boosted_rewards := 0, boosted_config := None\<rparr>"

lemma farm_rest_upd [simp]:
  "farm_rest (st\<lparr>accumulated_rewards_for_week := a\<rparr>) = farm_rest st"
  "farm_rest (st\<lparr>farm_supply_for_week := a\<rparr>) = farm_rest st"
  "farm_rest (st\<lparr>remaining_boosted_rewards_to_distribute := a\<rparr>) = farm_rest st"
  "farm_rest (st\<lparr>last_undistributed_collect_week := w\<rparr>) = farm_rest st"
  "farm_rest (st\<lparr>undistributed_boosted_rewards := b\<rparr>) = farm_rest st"
  "farm_rest (st\<lparr>boosted_config := x\<rparr>) = farm_rest st"
  "farm_rest (st\<lparr>total_rewards_for_week := c\<rparr>) = farm_rest st"
  by (simp_all add: farm_rest_def weekly_rest_def)

lemma farm_rest_weekly: "weekly_rest st' = weekly_rest st \<Longrightarrow> farm_rest st' = farm_rest st"
  by (simp add: farm_rest_def)

lemma boosted_total_weekly: "weekly_rest st' = weekly_rest st \<Longrightarrow> boosted_total st' = boosted_total st"
proof -
  have sel: "accumulated_rewards_for_week s = accumulated_rewards_for_week (weekly_rest s)"
    "remaining_boosted_rewards_to_distribute s = remaining_boosted_rewards_to_distribute (weekly_rest s)"
    "undistributed_boosted_rewards s = undistributed_boosted_rewards (weekly_rest s)" for s :: "'a farm_storage_scheme"
    by (simp_all add: weekly_rest_def)
  assume "weekly_rest st' = weekly_rest st"
  then show ?thesis unfolding boosted_total_def by (simp only: sel [of st'] sel [of st])
qed

lemma sum_fun_upd:
  fixes f :: "'a :: finite \<Rightarrow> nat"
  shows "(\<Sum>v\<in>UNIV. (f(w := x)) v) + f w = (\<Sum>v\<in>UNIV. f v) + x"
proof -
  have split: "(\<Sum>v\<in>UNIV. g v) = g w + (\<Sum>v\<in>UNIV - {w}. g v)" for g :: "'a \<Rightarrow> nat"
    by (simp add: sum.remove)
  have "(\<Sum>v\<in>UNIV - {w}. (f(w := x)) v) = (\<Sum>v\<in>UNIV - {w}. f v)"
    by (rule sum.cong) simp_all
  then show ?thesis using split [of f] split [of "f(w := x)"] by simp
qed

lemma boosted_total_split:
  "boosted_total st = (\<Sum>w\<in>UNIV. accumulated_rewards_for_week st w) +
     (\<Sum>w\<in>UNIV. remaining_boosted_rewards_to_distribute st w) + undistributed_boosted_rewards st"
  by (simp add: boosted_total_def sum.distrib)

definition boosted_rel :: "'s farm_storage_scheme \<Rightarrow> biguint \<Rightarrow> 's farm_storage_scheme \<Rightarrow> bool" where
  "boosted_rel st a st' \<longleftrightarrow> farm_rest st' = farm_rest st \<and> boosted_total st' + a \<le> boosted_total st"

lemma boosted_relI:
  assumes "farm_rest st' = farm_rest st" "boosted_total st' + a \<le> boosted_total st"
  shows "boosted_rel st a st'"
  unfolding boosted_rel_def using assms by (rule conjI)

lemma boosted_rel_trans: "boosted_rel st a s \<Longrightarrow> boosted_rel s b s' \<Longrightarrow> boosted_rel st (a + b) s'"
  unfolding boosted_rel_def by (elim conjE, intro conjI, erule (1) trans [rotated], linarith)

lemma boosted_rel_weekly: "weekly_rest st' = weekly_rest st \<Longrightarrow> boosted_rel st 0 st'"
  by (rule boosted_relI, erule farm_rest_weekly, drule boosted_total_weekly, simp)

lemma collect_boosted_rel:
  assumes "collect_and_get_rewards_for_week (boosted_collect_rewards_for_week env) w st = Inr (rs, st')"
  shows "boosted_rel st 0 st'"
proof (cases "total_rewards_for_week st w = []")
  case True
  let ?a = "accumulated_rewards_for_week st w"
  obtain x where st': "st' = st\<lparr>boosted_config := x,
      accumulated_rewards_for_week := (accumulated_rewards_for_week st)(w := 0),
      remaining_boosted_rewards_to_distribute := (remaining_boosted_rewards_to_distribute st)(w := ?a),
      total_rewards_for_week := (total_rewards_for_week st)(w := rs)\<rparr>"
    using assms True by (auto simp: collect_and_get_rewards_for_week_def boosted_collect_rewards_for_week_def
        update_boosted_yields_config_def Let_def res_simps)
  have "boosted_total st' \<le> boosted_total st"
    using sum_fun_upd [of "accumulated_rewards_for_week st" w 0]
      sum_fun_upd [of "remaining_boosted_rewards_to_distribute st" w ?a]
    by (simp add: boosted_total_split st' del: fun_upd_apply)
  then show ?thesis by (intro boosted_relI) (simp_all add: st')
next
  case False
  then show ?thesis using assms by (simp add: collect_and_get_rewards_for_week_def boosted_rel_def)
qed

lemma boosted_user_rewards_rel:
  assumes "boosted_user_rewards_for_week env farm_amount cfg w e E st = Inr (rs, st')"
  shows "boosted_rel st (total_amount rs) st'"
proof -
  have refl: "boosted_rel st 0 st" by (rule boosted_rel_weekly) simp
  show ?thesis
  proof (cases "E = 0 \<or> farm_supply_for_week st w = 0")
    case True
    then show ?thesis using assms refl by (simp add: boosted_user_rewards_for_week_def)
  next
    case False
    then obtain factors where factors: "get_factors_for_week cfg w = Inr factors"
      using assms by (auto simp: boosted_user_rewards_for_week_def and_then_Inr)
    note run = assms [unfolded boosted_user_rewards_for_week_def factors Let_def if_not_P [OF False] and_then_simps]
    show ?thesis
    proof (cases "e < min_energy_amount factors \<or> farm_amount < min_farm_amount factors")
      case True
      then show ?thesis using run refl by simp
    next
      case no: False
      obtain ps st1 where collect: "collect_and_get_rewards_for_week (boosted_collect_rewards_for_week env) w st = Inr (ps, st1)"
        using run no by (auto simp: and_then_Inr)
      note rel1 = collect_boosted_rel [OF collect]
      consider "rs = []" "st' = st1"
        | r t where "r \<le> remaining_boosted_rewards_to_distribute st1 w" "rs = [new_payment t 0 r]"
          "st' = st1\<lparr>remaining_boosted_rewards_to_distribute := (remaining_boosted_rewards_to_distribute st1)
             (w := remaining_boosted_rewards_to_distribute st1 w - r)\<rparr>"
      proof (cases "ps = []")
        case True
        show thesis by (rule that(1)) (use run [unfolded if_not_P [OF no] collect and_then_simps prod.case] True in simp_all)
      next
        case False
        note run1 = run [unfolded if_not_P [OF no] collect and_then_simps prod.case if_not_P [OF False]]
        obtain q where q: "managed_vec_get ps 0 = Inr q" using run1 by (auto simp: require_Inr and_then_Inr)
        show thesis
        proof (cases "amount q = 0")
          case True
          show thesis by (rule that(1)) (use run1 q True in \<open>simp_all add: require_Inr\<close>)
        next
          case pos: False
          obtain r where "boosted_user_reward factors (amount q) farm_amount (farm_supply_for_week st w) e E = Inr r"
            using run1 q pos by (auto simp: require_Inr and_then_Inr)
          note run2 = run1 [unfolded q and_then_simps if_not_P [OF pos] this, unfolded require_Inr, THEN conjunct2]
          show thesis
          proof (cases "0 < r")
            case True
            note run3 = run2 [unfolded if_P [OF True]]
            have "r \<le> remaining_boosted_rewards_to_distribute st1 w"
              using run3 by (auto simp: and_then_Inr big_sub_Inr)
            then show thesis by (rule that(2)) (use run3 in \<open>auto simp: and_then_Inr big_sub_Inr\<close>)
          next
            case False
            show thesis by (rule that(1)) (use run2 False in simp_all)
          qed
        qed
      qed
      then show ?thesis
      proof cases
        case 1
        then show ?thesis using rel1 by simp
      next
        case (2 r t)
        let ?f = "remaining_boosted_rewards_to_distribute st1"
        have "boosted_total st' + r \<le> boosted_total st1"
          using sum_fun_upd [of ?f w "?f w - r"] 2(1) by (simp add: boosted_total_split 2(3) del: fun_upd_apply)
        then have "boosted_rel st1 r st'" by (intro boosted_relI) (simp_all add: 2(3))
        with boosted_rel_trans [OF rel1 this] show ?thesis by (simp add: 2(2))
      qed
    qed
  qed
qed

interpretation boosted: claim_relation "boosted_user_rewards_for_week env farm_amount cfg" boosted_rel
  for env farm_amount cfg
  by unfold_locales (auto intro: boosted_user_rewards_rel boosted_rel_weekly dest: boosted_rel_trans)

lemma calculate_boosted_rewards_rel:
  "calculate_boosted_rewards env st user = Inr (rew, st') \<Longrightarrow> boosted_rel st rew st'"
  by (auto simp: calculate_boosted_rewards_def claim_boosted_yields_rewards_def res_simps
      intro: boosted_rel_weekly dest: boosted.claim_multi_rel split: option.splits)

lemma collect_undistributed_loop_rel: "boosted_rel st 0 (collect_undistributed_loop n w st)"
proof (induction n arbitrary: w st)
  case 0
  show ?case by (simp add: boosted_rel_def)
next
  case (Suc n)
  let ?f = "remaining_boosted_rewards_to_distribute st"
  let ?st = "st\<lparr>remaining_boosted_rewards_to_distribute := ?f(w := 0),
      undistributed_boosted_rewards := undistributed_boosted_rewards st + ?f w\<rparr>"
  have "boosted_total ?st = boosted_total st"
    using sum_fun_upd [of ?f w 0] by (simp add: boosted_total_split del: fun_upd_apply)
  then have "boosted_rel st 0 ?st" by (intro boosted_relI) simp_all
  from boosted_rel_trans [OF this Suc.IH] show ?case by (simp add: Let_def)
qed

section \<open>Merging positions\<close>

lemma farm_into_part_Inr:
  "farm_into_part a n = Inr b \<Longrightarrow> reward_per_share b = reward_per_share a \<and> current_farm_amount b = n \<and>
     original_owner b = original_owner a \<and> entering_epoch b = entering_epoch a"
  by (auto simp: farm_into_part_def farm_get_total_supply_def res_simps split: if_splits)

text \<open>What a position of an amount owes when the reward per share is \<open>r\<close>, without the division.\<close>

definition position_owed :: "nat \<Rightarrow> farm_token_attributes \<Rightarrow> nat" where
  "position_owed r a = current_farm_amount a * (r - reward_per_share a)"

lemma farm_merge_owed:
  assumes "farm_merge_with a b = Inr c" "reward_per_share a \<le> r" "reward_per_share b \<le> r"
  shows "reward_per_share c \<le> r" "current_farm_amount c = current_farm_amount a + current_farm_amount b"
    "original_owner c = original_owner a" "position_owed r c \<le> position_owed r a + position_owed r b"
proof -
  let ?w = "current_farm_amount a + current_farm_amount b"
  let ?n = "reward_per_share a * current_farm_amount a + reward_per_share b * current_farm_amount b"
  define q where "q = (?n + ?w - 1) div ?w"
  have w: "0 < ?w" and c: "reward_per_share c = q" "current_farm_amount c = ?w" "original_owner c = original_owner a"
    using assms(1) by (simp_all add: farm_merge_with_Inr q_def)
  note avg = ceil_average [OF w, of "reward_per_share a" "reward_per_share b", folded q_def]
  show "current_farm_amount c = ?w" "original_owner c = original_owner a" by (rule c)+
  show le: "reward_per_share c \<le> r" using avg(4) assms(2,3) by (simp add: c)
  have "?w * (r - q) + ?n \<le> ?w * r"
  proof -
    have "?w * (r - q) + q * ?w = ?w * r"
      using le by (simp add: c mult.commute [of _ ?w] flip: distrib_left)
    then show ?thesis using avg(1) by linarith
  qed
  moreover have "position_owed r a + position_owed r b + ?n = ?w * r"
  proof -
    have part: "position_owed r x + reward_per_share x * current_farm_amount x = current_farm_amount x * r"
      if "reward_per_share x \<le> r" for x
      using that by (simp add: position_owed_def mult.commute [of _ "current_farm_amount x"] flip: distrib_left)
    show ?thesis using part [OF assms(2)] part [OF assms(3)] by (simp add: distrib_right)
  qed
  ultimately show "position_owed r c \<le> position_owed r a + position_owed r b"
    by (simp add: position_owed_def c)
qed

end
