(* ===== verification/FarmLedger.thy ===== *)
theory FarmLedger
  imports FarmFacts
begin

text \<open>
  The ledger of a farm's tokens, how much of every nonce exists, is kept by the protocol and not
  by the contract. Against it: what the positions owe, whose they are, and what the creation of a
  position, the update of the users' totals and the generation of rewards do to both.
\<close>

type_synonym ledger = "u64 \<Rightarrow> nat"
type_synonym attributes_map = "u64 \<Rightarrow> farm_token_attributes option"

section \<open>Spending from the ledger\<close>

definition nonce_amount :: "esdt_payment list \<Rightarrow> u64 \<Rightarrow> nat" where
  "nonce_amount ps n = total_amount (filter (\<lambda>p. token_nonce p = n) ps)"

definition covered :: "ledger \<Rightarrow> esdt_payment list \<Rightarrow> bool" where
  "covered L ps \<longleftrightarrow> list_all (\<lambda>p. nonce_amount ps (token_nonce p) \<le> L (token_nonce p)) ps"

definition spend :: "ledger \<Rightarrow> esdt_payment list \<Rightarrow> ledger" where
  "spend L ps = (\<lambda>n. L n - nonce_amount ps n)"

lemma nonce_amount_simps [simp]:
  "nonce_amount [] n = 0"
  "nonce_amount (p # ps) n = (if token_nonce p = n then amount p else 0) + nonce_amount ps n"
  "nonce_amount (ps @ qs) n = nonce_amount ps n + nonce_amount qs n"
  by (simp_all add: nonce_amount_def)

lemma nonce_amount_other: "n \<notin> token_nonce ` set ps \<Longrightarrow> nonce_amount ps n = 0"
  by (induction ps) auto

lemma covered_iff: "covered L ps \<longleftrightarrow> (\<forall>n. nonce_amount ps n \<le> L n)"
proof -
  have "nonce_amount ps n \<le> L n" if "covered L ps" for n
    using that nonce_amount_other [of n ps] by (cases "n \<in> token_nonce ` set ps") (auto simp: covered_def list_all_iff)
  then show ?thesis by (auto simp: covered_def list_all_iff)
qed

lemma spend_Nil [simp]: "spend L [] = L"
  by (simp add: spend_def)

lemma spend_le: "spend L ps n \<le> L n"
  by (simp add: spend_def)

lemma sum_nonce_amount:
  "(\<Sum>n\<in>UNIV. nonce_amount ps n * g n) = sum_list (map (\<lambda>p. amount p * g (token_nonce p)) ps)"
proof (induction ps)
  case (Cons p ps)
  have "(\<Sum>n\<in>UNIV. nonce_amount (p # ps) n * g n) =
      (\<Sum>n\<in>UNIV. (if token_nonce p = n then amount p * g n else 0) + nonce_amount ps n * g n)"
    by (rule sum.cong) (simp_all add: distrib_right)
  also have "\<dots> = amount p * g (token_nonce p) + (\<Sum>n\<in>UNIV. nonce_amount ps n * g n)"
    by (simp add: sum.distrib)
  finally show ?case using Cons.IH by simp
qed simp

lemma sum_spend:
  assumes "covered L ps"
  shows "(\<Sum>n\<in>UNIV. L n * g n) =
    (\<Sum>n\<in>UNIV. spend L ps n * g n) + sum_list (map (\<lambda>p. amount p * g (token_nonce p)) ps)"
proof -
  have "L n * g n = spend L ps n * g n + nonce_amount ps n * g n" for n
    using assms by (simp add: spend_def covered_iff flip: distrib_right)
  then show ?thesis by (simp add: sum.distrib sum_nonce_amount)
qed

lemma sum_new_nonce:
  fixes L :: ledger
  assumes "L n = 0"
  shows "(\<Sum>v\<in>UNIV. (L(n := a)) v * g v) = (\<Sum>v\<in>UNIV. L v * g v) + a * g n"
proof -
  have "(\<lambda>v. (L(n := a)) v * g v) = (\<lambda>v. L v * g v)(n := a * g n)" by (simp add: fun_eq_iff)
  then have "(\<Sum>v\<in>UNIV. (L(n := a)) v * g v) = (\<Sum>v\<in>UNIV. ((\<lambda>v. L v * g v)(n := a * g n)) v)"
    by (simp only:)
  then show ?thesis
    using sum_fun_upd [of "\<lambda>v. L v * g v" n "a * g n"] by (simp only: assms mult_0 add_0_right)
qed

section \<open>Positions\<close>

definition rps_in :: "attributes_map \<Rightarrow> u64 \<Rightarrow> nat" where
  "rps_in A n = (case A n of Some a \<Rightarrow> reward_per_share a | None \<Rightarrow> 0)"

definition owner_in :: "attributes_map \<Rightarrow> u64 \<Rightarrow> address" where
  "owner_in A n = (case A n of Some a \<Rightarrow> original_owner a | None \<Rightarrow> 0)"

text \<open>What all positions owe at a reward per share, and how much of them belongs to a user.\<close>

definition owed_base :: "attributes_map \<Rightarrow> nat \<Rightarrow> ledger \<Rightarrow> nat" where
  "owed_base A r L = (\<Sum>n\<in>UNIV. L n * (r - rps_in A n))"

definition held_by :: "attributes_map \<Rightarrow> ledger \<Rightarrow> address \<Rightarrow> nat" where
  "held_by A L u = (\<Sum>n\<in>UNIV. L n * (if owner_in A n = u then 1 else 0))"

definition tokens_ok :: "attributes_map \<Rightarrow> u64 \<Rightarrow> nat \<Rightarrow> ledger \<Rightarrow> bool" where
  "tokens_ok A l r L \<longleftrightarrow>
     (\<forall>n a. A n = Some a \<longrightarrow> n \<le> l \<and> reward_per_share a \<le> r \<and> L n \<le> current_farm_amount a) \<and>
     (\<forall>n. L n \<noteq> 0 \<longrightarrow> A n \<noteq> None)"

lemma held_by_spend:
  "covered L ps \<Longrightarrow> held_by A L u = held_by A (spend L ps) u +
     sum_list (map (\<lambda>p. if owner_in A (token_nonce p) = u then amount p else 0) ps)"
  using sum_spend [of L ps "\<lambda>n. if owner_in A n = u then 1 else 0"]
  by (simp add: held_by_def if_distrib cong: if_cong)

lemma owed_base_spend:
  "covered L ps \<Longrightarrow> owed_base A r L = owed_base A r (spend L ps) +
     sum_list (map (\<lambda>p. amount p * (r - rps_in A (token_nonce p))) ps)"
  unfolding owed_base_def by (rule sum_spend)

lemma supply_spend:
  assumes "covered L ps"
  shows "(\<Sum>n\<in>UNIV. L n) = (\<Sum>n\<in>UNIV. spend L ps n) + total_amount ps"
  using sum_spend [OF assms, of "\<lambda>n. 1"] by simp

lemma tokens_ok_spend: "tokens_ok A l r L \<Longrightarrow> tokens_ok A l r (spend L ps)"
  by (auto simp: tokens_ok_def spend_def intro: le_trans [OF diff_le_self])

lemma tokens_ok_mono: "tokens_ok A l r L \<Longrightarrow> r \<le> r' \<Longrightarrow> tokens_ok A l r' L"
  by (fastforce simp: tokens_ok_def)

lemma owed_base_mono:
  "tokens_ok A l r L \<Longrightarrow> owed_base A (r + x) L = owed_base A r L + (\<Sum>n\<in>UNIV. L n) * x"
proof -
  assume ok: "tokens_ok A l r L"
  have "L n * (r + x - rps_in A n) = L n * (r - rps_in A n) + L n * x" for n
  proof (cases "A n")
    case None
    then have "L n = 0" using ok by (metis tokens_ok_def)
    then show ?thesis by simp
  next
    case (Some a)
    then have "rps_in A n \<le> r" using ok by (auto simp: tokens_ok_def rps_in_def)
    then show ?thesis by (simp flip: distrib_left)
  qed
  then show ?thesis by (simp add: owed_base_def sum.distrib sum_distrib_right)
qed

text \<open>A position created under the next nonce.\<close>

lemma new_position:
  assumes ok: "tokens_ok A l r L" and l: "l + 1 \<noteq> 0" and a: "reward_per_share a \<le> r"
  defines "A' \<equiv> A(l + 1 := Some a)" and "L' \<equiv> L(l + 1 := current_farm_amount a)"
  shows "tokens_ok A' (l + 1) r L'"
    and "owed_base A' r L' = owed_base A r L + position_owed r a"
    and "held_by A' L' u = held_by A L u + (if original_owner a = u then current_farm_amount a else 0)"
    and "(\<Sum>n\<in>UNIV. L' n) = (\<Sum>n\<in>UNIV. L n) + current_farm_amount a"
proof -
  have next_l: "l < l + 1" using l unatSuc [of l] by (simp add: word_less_nat_alt add.commute)
  then have new: "A (l + 1) = None"
    using ok by (cases "A (l + 1)") (auto simp: tokens_ok_def dest!: spec [of _ "l + 1"])
  then have L0: "L (l + 1) = 0" using ok by (auto simp: tokens_ok_def)
  show "tokens_ok A' (l + 1) r L'"
    using ok next_l a by (auto simp: tokens_ok_def A'_def L'_def) (meson less_imp_le order_trans)
  have same: "L' n * g (rps_in A' n) (owner_in A' n) =
      (L(l + 1 := current_farm_amount a)) n *
        (if n = l + 1 then g (reward_per_share a) (original_owner a) else g (rps_in A n) (owner_in A n))"
    for n and g :: "nat \<Rightarrow> nat \<Rightarrow> nat"
    by (simp add: A'_def L'_def rps_in_def owner_in_def)
  have upd: "(\<Sum>n\<in>UNIV. L' n * g (rps_in A' n) (owner_in A' n)) =
      (\<Sum>n\<in>UNIV. L n * g (rps_in A n) (owner_in A n)) +
        current_farm_amount a * g (reward_per_share a) (original_owner a)"
    for g :: "nat \<Rightarrow> nat \<Rightarrow> nat"
  proof -
    have "(\<Sum>n\<in>UNIV. L n * (if n = l + 1 then g (reward_per_share a) (original_owner a)
        else g (rps_in A n) (owner_in A n))) = (\<Sum>n\<in>UNIV. L n * g (rps_in A n) (owner_in A n))"
      by (rule sum.cong) (use L0 in auto)
    then show ?thesis unfolding same by (simp only: sum_new_nonce [of L "l + 1", OF L0] if_True refl)
  qed
  show "owed_base A' r L' = owed_base A r L + position_owed r a"
    using upd [of "\<lambda>x o'. r - x"] by (simp add: owed_base_def position_owed_def)
  show "held_by A' L' u = held_by A L u + (if original_owner a = u then current_farm_amount a else 0)"
    using upd [of "\<lambda>x o'. if o' = u then 1 else 0"] by (simp add: held_by_def)
  show "(\<Sum>n\<in>UNIV. L' n) = (\<Sum>n\<in>UNIV. L n) + current_farm_amount a"
    using upd [of "\<lambda>x o'. 1"] by simp
qed

end
