(* ===== verification/FarmInvariant.thy ===== *)
theory FarmInvariant
  imports FarmLedger
begin

text \<open>
  The invariant of a farm's storage against the ledger of its tokens, what the farm owes (the pot),
  and that the parts of the endpoints keep the one and do not raise the other beyond what was
  generated.
\<close>

lemma farm_rest_sel:
  "farm_state (farm_rest st) = farm_state st"
  "farm_permissions (farm_rest st) = farm_permissions st"
  "farm_sc_whitelist (farm_rest st) = farm_sc_whitelist st"
  "farming_token_id (farm_rest st) = farming_token_id st"
  "reward_token_id (farm_rest st) = reward_token_id st"
  "per_block_reward_amount (farm_rest st) = per_block_reward_amount st"
  "produce_rewards_enabled (farm_rest st) = produce_rewards_enabled st"
  "last_reward_block_nonce (farm_rest st) = last_reward_block_nonce st"
  "division_safety_constant (farm_rest st) = division_safety_constant st"
  "user_total_farm_position (farm_rest st) = user_total_farm_position st"
  "farm_position_migration_nonce (farm_rest st) = farm_position_migration_nonce st"
  "stored_reward_per_share (farm_rest st) = stored_reward_per_share st"
  "reward_reserve (farm_rest st) = reward_reserve st"
  "farm_token (farm_rest st) = farm_token st"
  "farm_token_supply (farm_rest st) = farm_token_supply st"
  "farm_attributes (farm_rest st) = farm_attributes st"
  "farm_last_nonce (farm_rest st) = farm_last_nonce st"
  "boosted_yields_rewards_percentage (farm_rest st) = boosted_yields_rewards_percentage st"
  "penalty_percent (farm_rest st) = penalty_percent st"
  "minimum_farming_epochs (farm_rest st) = minimum_farming_epochs st"
  "pair_contract_address (farm_rest st) = pair_contract_address st"
  by (simp_all add: farm_rest_def weekly_rest_def)

lemma farm_restD:
  assumes "farm_rest st' = farm_rest st"
  shows "farm_state st' = farm_state st"
    and "farm_permissions st' = farm_permissions st"
    and "farm_sc_whitelist st' = farm_sc_whitelist st"
    and "farming_token_id st' = farming_token_id st"
    and "reward_token_id st' = reward_token_id st"
    and "per_block_reward_amount st' = per_block_reward_amount st"
    and "produce_rewards_enabled st' = produce_rewards_enabled st"
    and "last_reward_block_nonce st' = last_reward_block_nonce st"
    and "division_safety_constant st' = division_safety_constant st"
    and "user_total_farm_position st' = user_total_farm_position st"
    and "farm_position_migration_nonce st' = farm_position_migration_nonce st"
    and "stored_reward_per_share st' = stored_reward_per_share st"
    and "reward_reserve st' = reward_reserve st"
    and "farm_token st' = farm_token st"
    and "farm_token_supply st' = farm_token_supply st"
    and "farm_attributes st' = farm_attributes st"
    and "farm_last_nonce st' = farm_last_nonce st"
    and "boosted_yields_rewards_percentage st' = boosted_yields_rewards_percentage st"
    and "penalty_percent st' = penalty_percent st"
    and "minimum_farming_epochs st' = minimum_farming_epochs st"
    and "pair_contract_address st' = pair_contract_address st"
proof -
  show "farm_state st' = farm_state st" by (rule arg_cong [OF assms, of farm_state, unfolded farm_rest_sel])
  show "farm_permissions st' = farm_permissions st" by (rule arg_cong [OF assms, of farm_permissions, unfolded farm_rest_sel])
  show "farm_sc_whitelist st' = farm_sc_whitelist st" by (rule arg_cong [OF assms, of farm_sc_whitelist, unfolded farm_rest_sel])
  show "farming_token_id st' = farming_token_id st" by (rule arg_cong [OF assms, of farming_token_id, unfolded farm_rest_sel])
  show "reward_token_id st' = reward_token_id st" by (rule arg_cong [OF assms, of reward_token_id, unfolded farm_rest_sel])
  show "per_block_reward_amount st' = per_block_reward_amount st" by (rule arg_cong [OF assms, of per_block_reward_amount, unfolded farm_rest_sel])
  show "produce_rewards_enabled st' = produce_rewards_enabled st" by (rule arg_cong [OF assms, of produce_rewards_enabled, unfolded farm_rest_sel])
  show "last_reward_block_nonce st' = last_reward_block_nonce st" by (rule arg_cong [OF assms, of last_reward_block_nonce, unfolded farm_rest_sel])
  show "division_safety_constant st' = division_safety_constant st" by (rule arg_cong [OF assms, of division_safety_constant, unfolded farm_rest_sel])
  show "user_total_farm_position st' = user_total_farm_position st" by (rule arg_cong [OF assms, of user_total_farm_position, unfolded farm_rest_sel])
  show "farm_position_migration_nonce st' = farm_position_migration_nonce st" by (rule arg_cong [OF assms, of farm_position_migration_nonce, unfolded farm_rest_sel])
  show "stored_reward_per_share st' = stored_reward_per_share st" by (rule arg_cong [OF assms, of stored_reward_per_share, unfolded farm_rest_sel])
  show "reward_reserve st' = reward_reserve st" by (rule arg_cong [OF assms, of reward_reserve, unfolded farm_rest_sel])
  show "farm_token st' = farm_token st" by (rule arg_cong [OF assms, of farm_token, unfolded farm_rest_sel])
  show "farm_token_supply st' = farm_token_supply st" by (rule arg_cong [OF assms, of farm_token_supply, unfolded farm_rest_sel])
  show "farm_attributes st' = farm_attributes st" by (rule arg_cong [OF assms, of farm_attributes, unfolded farm_rest_sel])
  show "farm_last_nonce st' = farm_last_nonce st" by (rule arg_cong [OF assms, of farm_last_nonce, unfolded farm_rest_sel])
  show "boosted_yields_rewards_percentage st' = boosted_yields_rewards_percentage st" by (rule arg_cong [OF assms, of boosted_yields_rewards_percentage, unfolded farm_rest_sel])
  show "penalty_percent st' = penalty_percent st" by (rule arg_cong [OF assms, of penalty_percent, unfolded farm_rest_sel])
  show "minimum_farming_epochs st' = minimum_farming_epochs st" by (rule arg_cong [OF assms, of minimum_farming_epochs, unfolded farm_rest_sel])
  show "pair_contract_address st' = pair_contract_address st" by (rule arg_cong [OF assms, of pair_contract_address, unfolded farm_rest_sel])
qed

definition books_ok :: "'s farm_storage_scheme \<Rightarrow> ledger \<Rightarrow> bool" where
  "books_ok st L \<longleftrightarrow>
     tokens_ok (farm_attributes st) (farm_last_nonce st) (stored_reward_per_share st) L \<and>
     (\<Sum>n\<in>UNIV. L n) = farm_token_supply st \<and>
     division_safety_constant st \<noteq> 0 \<and> farm_position_migration_nonce st = 1 \<and>
     (\<forall>t. farm_token st = Some t \<longrightarrow> t \<noteq> farming_token_id st \<and> t \<noteq> reward_token_id st)"

definition farm_inv :: "'s farm_storage_scheme \<Rightarrow> ledger \<Rightarrow> bool" where
  "farm_inv st L \<longleftrightarrow> books_ok st L \<and>
     (\<forall>u. user_total_farm_position st u = held_by (farm_attributes st) L u)"

text \<open>The pot is what the farm owes times the division safety constant.\<close>

definition farm_pot :: "'s farm_storage_scheme \<Rightarrow> ledger \<Rightarrow> nat" where
  "farm_pot st L = owed_base (farm_attributes st) (stored_reward_per_share st) L +
     division_safety_constant st * boosted_total st"

lemma farm_inv_rest:
  assumes "farm_rest st' = farm_rest st"
  shows "farm_inv st' L = farm_inv st L"
  unfolding farm_inv_def books_ok_def farm_restD [OF assms] by (rule refl)

lemma farm_inv_boosted: "boosted_rel st a st' \<Longrightarrow> farm_inv st' L = farm_inv st L"
  unfolding boosted_rel_def by (elim conjE, erule farm_inv_rest)

lemma farm_pot_boosted:
  assumes "boosted_rel st a st'"
  shows "farm_pot st' L + division_safety_constant st * a \<le> farm_pot st L"
proof -
  note eq = assms [unfolded boosted_rel_def, THEN conjunct1] and le = assms [unfolded boosted_rel_def, THEN conjunct2]
  have "division_safety_constant st * boosted_total st' + division_safety_constant st * a \<le>
      division_safety_constant st * boosted_total st"
    using mult_le_mono2 [OF le, of "division_safety_constant st"] by (simp add: distrib_left)
  then show ?thesis unfolding farm_pot_def farm_restD [OF eq] by linarith
qed

lemma no_old_positions: "farm_position_migration_nonce st \<le> 1 \<Longrightarrow> \<not> is_old_farm_position st n"
  by (auto simp: is_old_farm_position_def word_less_nat_alt word_le_nat_alt)

section \<open>The totals of the users\<close>

definition moved_to :: "attributes_map \<Rightarrow> ledger \<Rightarrow> address \<Rightarrow> esdt_payment list \<Rightarrow> address \<Rightarrow> nat" where
  "moved_to A L user ps u = held_by A (spend L ps) u + (if u = user then total_amount ps else 0)"

lemma covered_append: "covered L (ps @ qs) \<Longrightarrow> covered L ps"
  by (auto simp: covered_iff intro: add_leD1)

lemma moved_to_step:
  assumes "covered L (qs @ [p])"
  shows "moved_to A L user (qs @ [p]) u + (if owner_in A (token_nonce p) = u then amount p else 0) =
      moved_to A L user qs u + (if u = user then amount p else 0)"
    and "owner_in A (token_nonce p) \<noteq> user \<Longrightarrow> amount p \<le> moved_to A L user qs (owner_in A (token_nonce p))"
proof -
  have le: "amount p \<le> spend L qs (token_nonce p)"
    using assms by (auto simp: covered_iff spend_def dest!: spec [of _ "token_nonce p"])
  have one: "covered (spend L qs) [p]"
    using le by (auto simp: covered_iff)
  have "spend (spend L qs) [p] = spend L (qs @ [p])"
    by (simp add: spend_def fun_eq_iff)
  with held_by_spend [OF one, of A]
  have eq: "held_by A (spend L qs) v = held_by A (spend L (qs @ [p])) v +
      (if owner_in A (token_nonce p) = v then amount p else 0)" for v by simp
  show "moved_to A L user (qs @ [p]) u + (if owner_in A (token_nonce p) = u then amount p else 0) =
      moved_to A L user qs u + (if u = user then amount p else 0)"
    using eq [of u] by (simp add: moved_to_def)
  show "amount p \<le> moved_to A L user qs (owner_in A (token_nonce p))" if "owner_in A (token_nonce p) \<noteq> user"
    using eq [of "owner_in A (token_nonce p)"] by (simp add: moved_to_def)
qed

lemma reduce_total_exact: "a \<le> b \<Longrightarrow> reduce_total_position b a = b - a"
  by (auto simp: reduce_total_position_def)

lemma check_and_update_ok:
  assumes "check_and_update_user_farm_position st user ps = Inr st'"
    and "farm_position_migration_nonce st \<le> 1" "covered L (qs @ ps)"
    and "\<And>u. user_total_farm_position st u = moved_to (farm_attributes st) L user qs u"
  shows "st' = st\<lparr>user_total_farm_position := moved_to (farm_attributes st) L user (qs @ ps)\<rparr>"
  using assms
proof (induction ps arbitrary: st qs)
  case Nil
  then have "user_total_farm_position st = moved_to (farm_attributes st) L user qs" by (simp add: fun_eq_iff)
  with Nil(1) show ?case by simp
next
  case (Cons p ps)
  let ?A = "farm_attributes st" and ?T = "user_total_farm_position st" and ?n = "token_nonce p"
  have young: "\<not> is_old_farm_position st ?n" using Cons.prems(2) by (rule no_old_positions)
  obtain a where a: "?A ?n = Some a"
    using Cons.prems(1) young
    by (auto simp: require_same_farm_token_def get_farm_token_attributes_def and_then_Inr require_Inr
        split: option.splits)
  then have owner: "owner_in ?A ?n = original_owner a" by (simp add: owner_in_def)
  note run = Cons.prems(1) [simplified, unfolded require_same_farm_token_def and_then_Inr require_Inr]
  have cov: "covered L (qs @ [p])" using covered_append [of L "qs @ [p]" ps] Cons.prems(3) by simp
  note step = moved_to_step [OF cov, of ?A user]
  show ?case
  proof (cases "original_owner a = user")
    case True
    have rest: "check_and_update_user_farm_position st user ps = Inr st'"
      using run young a True by (auto simp: get_farm_token_attributes_def)
    have "?T u = moved_to ?A L user (qs @ [p]) u" for u
      using step(1) [of u] Cons.prems(4) [of u] owner True by (simp split: if_splits)
    from Cons.IH [OF rest Cons.prems(2) _ this] Cons.prems(3) show ?thesis by simp
  next
    case False
    let ?o = "original_owner a"
    let ?T' = "?T(?o := ?T ?o - amount p)"
    define st1 where "st1 = increase_user_farm_position (st\<lparr>user_total_farm_position := ?T'\<rparr>) user (amount p)"
    have le: "amount p \<le> ?T ?o" using step(2) False owner Cons.prems(4) by simp
    have dec: "decrease_user_farm_position st p = Inr (st\<lparr>user_total_farm_position := ?T'\<rparr>)"
      using young a le
      by (simp add: decrease_user_farm_position_def get_farm_token_attributes_def reduce_total_exact Let_def)
    have rest: "check_and_update_user_farm_position st1 user ps = Inr st'"
      using run young a False
      by (simp add: get_farm_token_attributes_def dec st1_def del: fun_upd_apply)
    have "user_total_farm_position st1 u = moved_to ?A L user (qs @ [p]) u" for u
      using step(1) [of u] Cons.prems(4) [of u] owner False le by (simp add: st1_def increase_user_farm_position_def split: if_splits)
    moreover have "farm_attributes st1 = ?A" by (simp add: st1_def increase_user_farm_position_def)
    ultimately have "st' = st1\<lparr>user_total_farm_position := moved_to ?A L user ((qs @ [p]) @ ps)\<rparr>"
      using Cons.IH [OF rest, of "qs @ [p]"] Cons.prems(2,3) by (simp add: st1_def increase_user_farm_position_def)
    then show ?thesis by (simp add: st1_def increase_user_farm_position_def)
  qed
qed

section \<open>Merged positions\<close>

lemma merge_attributes_ok:
  assumes "merge_attributes_from_payments st base ps = Inr attr" "reward_per_share base \<le> r"
    and "tokens_ok (farm_attributes st) l r L"
  shows "reward_per_share attr \<le> r \<and> current_farm_amount attr = current_farm_amount base + total_amount ps \<and>
    original_owner attr = original_owner base \<and>
    position_owed r attr \<le> position_owed r base +
      sum_list (map (\<lambda>p. amount p * (r - rps_in (farm_attributes st) (token_nonce p))) ps)"
  using assms(1,2)
proof (induction ps arbitrary: base)
  case Nil
  then show ?case by simp
next
  case (Cons p ps)
  let ?A = "farm_attributes st"
  obtain a part m where a: "?A (token_nonce p) = Some a" and part: "farm_into_part a (amount p) = Inr part"
    and m: "farm_merge_with base part = Inr m" and rest: "merge_attributes_from_payments st m ps = Inr attr"
    using Cons.prems(1)
    by (auto simp: get_attributes_as_part_of_fixed_supply_def get_farm_token_attributes_def and_then_Inr
        split: option.splits)
  note b = farm_into_part_Inr [OF part]
  have le: "reward_per_share part \<le> r" using assms(3) a b by (auto simp: tokens_ok_def)
  note mo = farm_merge_owed [OF m Cons.prems(2) le]
  have "position_owed r part = amount p * (r - rps_in ?A (token_nonce p))"
    using b a by (simp add: position_owed_def rps_in_def)
  then show ?case using Cons.IH [OF rest mo(1)] mo b by simp
qed

lemma positions_replaced:
  assumes ok: "tokens_ok A l r L" and l: "l + 1 \<noteq> 0" and cov: "covered L ps"
    and a: "reward_per_share a \<le> r"
    and owed: "position_owed r a + x \<le> sum_list (map (\<lambda>p. amount p * (r - rps_in A (token_nonce p))) ps)"
  defines "A' \<equiv> A(l + 1 := Some a)" and "L' \<equiv> (spend L ps)(l + 1 := current_farm_amount a)"
  shows "tokens_ok A' (l + 1) r L'" "owed_base A' r L' + x \<le> owed_base A r L"
    and "held_by A' L' u = held_by A (spend L ps) u + (if original_owner a = u then current_farm_amount a else 0)"
    and "(\<Sum>n\<in>UNIV. L' n) + total_amount ps = (\<Sum>n\<in>UNIV. L n) + current_farm_amount a"
proof -
  note new = new_position [OF tokens_ok_spend [OF ok, of ps] l a, folded A'_def L'_def]
  show "tokens_ok A' (l + 1) r L'"
    "held_by A' L' u = held_by A (spend L ps) u + (if original_owner a = u then current_farm_amount a else 0)"
    by (rule new)+
  show "owed_base A' r L' + x \<le> owed_base A r L"
    using new(2) owed_base_spend [OF cov, of A r] owed by linarith
  show "(\<Sum>n\<in>UNIV. L' n) + total_amount ps = (\<Sum>n\<in>UNIV. L n) + current_farm_amount a"
    using new(4) supply_spend [OF cov] by linarith
qed

section \<open>Generating rewards\<close>

lemma boosted_total_accumulated:
  "boosted_total (st\<lparr>accumulated_rewards_for_week :=
     (accumulated_rewards_for_week st)(w := accumulated_rewards_for_week st w + a)\<rparr>) = boosted_total st + a"
  using sum_fun_upd [of "accumulated_rewards_for_week st" w "accumulated_rewards_for_week st w + a"]
  by (simp add: boosted_total_split del: fun_upd_apply)

lemma take_reward_slice_Inr:
  assumes "take_reward_slice env st n = Inr (s, st')"
  obtains acc where "st' = st\<lparr>accumulated_rewards_for_week := acc\<rparr>"
    and "boosted_total st' = boosted_total st + boosted_farm s" "base_farm s + boosted_farm s = n"
proof (cases "unat (boosted_yields_rewards_percentage st) = 0")
  case True
  then have "s = \<lparr>base_farm = n, boosted_farm = 0\<rparr>" "st' = st"
    using assms by (simp_all add: take_reward_slice_def)
  then show thesis using that [of "accumulated_rewards_for_week st"] by simp
next
  case pos: False
  define cut where "cut = n * unat (boosted_yields_rewards_percentage st) div MAX_PERCENT"
  note run = assms [unfolded take_reward_slice_def Let_def if_not_P [OF pos], folded cut_def]
  show thesis
  proof (cases "0 < cut")
    case True
    obtain w where "get_current_week env st = Inr w" "cut \<le> n"
      using run [unfolded if_P [OF True] and_then_Inr big_sub_Inr] by blast
    note run1 = run [unfolded if_P [OF True] this(1) and_then_simps big_sub_ok [OF this(2)]]
    show thesis
      by (rule that) (use run1 \<open>cut \<le> n\<close> in \<open>auto simp: boosted_total_accumulated simp del: fun_upd_apply\<close>)
  next
    case False
    then have "s = \<lparr>base_farm = n, boosted_farm = 0\<rparr>" "st' = st"
      using run by simp_all
    then show thesis using that [of "accumulated_rewards_for_week st"] by simp
  qed
qed

lemma generate_Inr:
  assumes "farm_generate_aggregated_rewards mint env st c = Inr (st', c', es)"
  obtains g x y nonce acc where
    "st' = st\<lparr>last_reward_block_nonce := nonce, accumulated_rewards_for_week := acc\<rparr>"
    and "boosted_total st' = boosted_total st + y"
    and "c' = c\<lparr>cache_reward_reserve := cache_reward_reserve c + g,
           cache_reward_per_share := cache_reward_per_share c + x\<rparr>"
    and "cache_farm_token_supply c * x + cache_division_safety_constant c * y \<le> cache_division_safety_constant c * g"
    and "es = (if g \<noteq> 0 then mint (cache_reward_token_id c) g else [])"
    and "g = (if last_reward_block_nonce st < get_block_nonce env
       then calculate_per_block_rewards st (get_block_nonce env) (last_reward_block_nonce st) else 0)"
proof -
  define g where "g = (if last_reward_block_nonce st < get_block_nonce env
       then calculate_per_block_rewards st (get_block_nonce env) (last_reward_block_nonce st) else 0)"
  define n where "n = (if last_reward_block_nonce st < get_block_nonce env then get_block_nonce env
    else last_reward_block_nonce st)"
  let ?st = "st\<lparr>last_reward_block_nonce := n\<rparr>" and ?supply = "cache_farm_token_supply c"
    and ?dsc = "cache_division_safety_constant c"
  have mint: "mint_per_block_rewards mint env st t = (g, ?st, if g \<noteq> 0 then mint t g else [])" for t
    by (auto simp: mint_per_block_rewards_def Let_def g_def n_def)
  note run = assms [unfolded farm_generate_aggregated_rewards_def mint Let_def prod.case]
  show thesis
  proof (cases "0 < g")
    case False
    then have g: "g = 0" by simp
    have res: "st' = ?st" "c' = c" "es = []" using run by (simp_all add: g)
    show thesis
      by (rule that [OF _ _ _ _ _ g_def, where nonce = n and acc = "accumulated_rewards_for_week st" and x = 0 and y = 0])
        (simp_all add: res g boosted_total_def)
  next
    case True
    obtain s st1 where slice: "take_reward_slice env ?st g = Inr (s, st1)"
      using run [unfolded if_P [OF True] and_then_Inr] by fastforce
    note run1 = run [unfolded if_P [OF True] slice and_then_simps prod.case]
    define x where "x = (if ?supply \<noteq> 0 then base_farm s * ?dsc div ?supply else 0)"
    have res: "st' = st1 \<and> es = mint (cache_reward_token_id c) g \<and>
      c' = c\<lparr>cache_reward_reserve := cache_reward_reserve c + g, cache_reward_per_share := cache_reward_per_share c + x\<rparr>"
      using run1 True by (cases c; cases "?supply = 0") (auto simp: x_def)
    obtain acc where acc: "st1 = ?st\<lparr>accumulated_rewards_for_week := acc\<rparr>"
      "boosted_total st1 = boosted_total ?st + boosted_farm s" "base_farm s + boosted_farm s = g"
      using slice by (rule take_reward_slice_Inr)
    have "?supply * x \<le> ?dsc * base_farm s"
      by (simp add: x_def mult.commute [of "base_farm s"] times_div_less_eq_dividend)
    then have le: "?supply * x + ?dsc * boosted_farm s \<le> ?dsc * g"
      by (simp only: flip: acc(3)) (simp add: distrib_left)
    show thesis
    proof (rule that [OF _ _ _ le _ g_def])
      show "st' = st\<lparr>last_reward_block_nonce := n, accumulated_rewards_for_week := acc\<rparr>"
        using res acc(1) by simp
      show "boosted_total st' = boosted_total st + boosted_farm s"
        using res acc(2) by (simp add: boosted_total_def)
    qed (use res True in simp_all)
  qed
qed

end
