(* ===== verification/FarmMoves.thy ===== *)
theory FarmMoves
  imports FarmInvariant
begin

text \<open>
  Every operation of a farm against its ledger: it keeps the invariant, and what the farm owes
  grows by no more than was generated less what was paid.
\<close>

section \<open>Moves\<close>

definition farm_frame :: "'s farm_storage_scheme \<Rightarrow> 's farm_storage_scheme \<Rightarrow> bool" where
  "farm_frame st st' \<longleftrightarrow> farming_token_id st' = farming_token_id st \<and>
     reward_token_id st' = reward_token_id st \<and> farm_token st' = farm_token st \<and>
     division_safety_constant st' = division_safety_constant st \<and>
     farm_position_migration_nonce st' = farm_position_migration_nonce st"

text \<open>The attributes of a nonce are never changed.\<close>

definition attributes_kept :: "'s farm_storage_scheme \<Rightarrow> 's farm_storage_scheme \<Rightarrow> bool" where
  "attributes_kept st st' \<longleftrightarrow> farm_last_nonce st \<le> farm_last_nonce st' \<and>
     (\<forall>n \<le> farm_last_nonce st. farm_attributes st' n = farm_attributes st n)"

lemma attributes_kept_trans: "attributes_kept st s \<Longrightarrow> attributes_kept s st' \<Longrightarrow> attributes_kept st st'"
  unfolding attributes_kept_def by (metis order_trans)

lemma attributes_kept_same:
  "farm_attributes st' = farm_attributes st \<Longrightarrow> farm_last_nonce st' = farm_last_nonce st \<Longrightarrow> attributes_kept st st'"
  by (simp add: attributes_kept_def)

lemma attributes_kept_new:
  assumes "farm_attributes st' = (farm_attributes st)(farm_last_nonce st + 1 := a)"
    and "farm_last_nonce st' = farm_last_nonce st + 1" "farm_last_nonce st + 1 \<noteq> 0"
  shows "attributes_kept st st'"
proof -
  have "farm_last_nonce st < farm_last_nonce st + 1"
    using assms(3) unatSuc [of "farm_last_nonce st"] by (simp add: word_less_nat_alt add.commute)
  then show ?thesis using assms(1,2) by (auto simp: attributes_kept_def)
qed

text \<open>From \<open>st\<close> to \<open>st'\<close> with \<open>g\<close> generated and \<open>x\<close> paid.\<close>

definition farm_moves ::
  "'s farm_storage_scheme \<Rightarrow> ledger \<Rightarrow> 's farm_storage_scheme \<Rightarrow> ledger \<Rightarrow> nat \<Rightarrow> nat \<Rightarrow> bool" where
  "farm_moves st L st' L' g x \<longleftrightarrow> farm_inv st' L' \<and> farm_frame st st' \<and> attributes_kept st st' \<and>
     farm_pot st' L' + division_safety_constant st * x \<le> farm_pot st L + division_safety_constant st * g \<and>
     reward_reserve st + g \<le> reward_reserve st' + x"

lemma farm_moves_trans:
  assumes "farm_moves st L s M g x" "farm_moves s M st' L' h y"
  shows "farm_moves st L st' L' (g + h) (x + y)"
  using assms attributes_kept_trans [of st s st'] unfolding farm_moves_def farm_frame_def
  by (simp add: distrib_left)

lemma farm_moves_boosted:
  assumes "farm_inv st L" "boosted_rel st x st'"
  shows "farm_moves st L (st'\<lparr>reward_reserve := reward_reserve st' - x\<rparr>) L 0 x"
proof -
  note eq = assms(2) [unfolded boosted_rel_def, THEN conjunct1]
  have inv: "farm_inv (st'\<lparr>reward_reserve := reward_reserve st' - x\<rparr>) L"
    using farm_inv_boosted [OF assms(2), of L] assms(1) by (simp add: farm_inv_def books_ok_def)
  have "farm_pot (st'\<lparr>reward_reserve := reward_reserve st' - x\<rparr>) L = farm_pot st' L"
    by (simp add: farm_pot_def boosted_total_def)
  then show ?thesis
    using inv farm_pot_boosted [OF assms(2), of L]
    unfolding farm_moves_def farm_frame_def by (simp add: farm_restD [OF eq] attributes_kept_same)
qed

lemma farm_moves_weekly:
  assumes "farm_inv st L" "weekly_rest st' = weekly_rest st"
  shows "farm_moves st L st' L 0 0"
  using farm_moves_boosted [OF assms(1) boosted_rel_weekly [OF assms(2)]] by simp

lemma farm_moves_replace:
  fixes st st' :: "'s farm_storage_scheme"
  defines "A \<equiv> farm_attributes st" and "l \<equiv> farm_last_nonce st" and "dsc \<equiv> division_safety_constant st"
  assumes inv: "farm_inv st L" and l: "l + 1 \<noteq> 0" and cov: "covered L ps"
    and fields: "farm_attributes st' = A(l + 1 := Some a)" "farm_last_nonce st' = l + 1"
      "stored_reward_per_share st' = r" "farm_token_supply st' + total_amount ps = farm_token_supply st + current_farm_amount a"
    and totals: "\<And>u. user_total_farm_position st' u = held_by A (spend L ps) u +
      (if original_owner a = u then current_farm_amount a else 0)"
    and frame: "farm_frame st st'"
    and r: "stored_reward_per_share st \<le> r" "reward_per_share a \<le> r"
    and owed: "position_owed r a + y \<le> sum_list (map (\<lambda>p. amount p * (r - rps_in A (token_nonce p))) ps)"
    and gen: "owed_base A r L + dsc * boosted_total st' + dsc * z \<le> farm_pot st L + dsc * g"
    and paid: "dsc * x \<le> y + dsc * z"
    and reserve: "reward_reserve st + g \<le> reward_reserve st' + x"
  shows "farm_moves st L st' ((spend L ps)(l + 1 := current_farm_amount a)) g x"
proof -
  let ?L = "(spend L ps)(l + 1 := current_farm_amount a)"
  have ok: "tokens_ok A l r L"
    using inv r(1) by (auto simp: farm_inv_def books_ok_def A_def l_def intro: tokens_ok_mono)
  note new = positions_replaced [OF ok l cov r(2) owed]
  have "farm_token_supply st' = (\<Sum>n\<in>UNIV. ?L n)"
    using new(4) fields(4) inv by (simp add: farm_inv_def books_ok_def)
  then have "farm_inv st' ?L"
    using new(1,3) inv frame totals unfolding farm_inv_def books_ok_def fields farm_frame_def by simp
  moreover have "farm_pot st' ?L + dsc * x \<le> farm_pot st L + dsc * g"
  proof -
    have "farm_pot st' ?L = owed_base (A(l + 1 := Some a)) r ?L + dsc * boosted_total st'"
      using frame unfolding farm_pot_def fields farm_frame_def dsc_def by simp
    then show ?thesis using new(2) gen paid by linarith
  qed
  moreover have "attributes_kept st st'"
    using attributes_kept_new [of st'] fields(1,2) l by (simp add: A_def l_def)
  ultimately show ?thesis using frame reserve by (simp add: farm_moves_def dsc_def)
qed

lemma farm_moves_upd [simp]:
  "farm_moves st L (st'\<lparr>farm_state := v1\<rparr>) L' g x = farm_moves st L st' L' g x"
  "farm_moves st L (st'\<lparr>farm_permissions := v2\<rparr>) L' g x = farm_moves st L st' L' g x"
  "farm_moves st L (st'\<lparr>farm_sc_whitelist := v3\<rparr>) L' g x = farm_moves st L st' L' g x"
  "farm_moves st L (st'\<lparr>per_block_reward_amount := v4\<rparr>) L' g x = farm_moves st L st' L' g x"
  "farm_moves st L (st'\<lparr>produce_rewards_enabled := v5\<rparr>) L' g x = farm_moves st L st' L' g x"
  "farm_moves st L (st'\<lparr>last_reward_block_nonce := v6\<rparr>) L' g x = farm_moves st L st' L' g x"
  "farm_moves st L (st'\<lparr>penalty_percent := v7\<rparr>) L' g x = farm_moves st L st' L' g x"
  "farm_moves st L (st'\<lparr>minimum_farming_epochs := v8\<rparr>) L' g x = farm_moves st L st' L' g x"
  "farm_moves st L (st'\<lparr>burn_gas_limit := v9\<rparr>) L' g x = farm_moves st L st' L' g x"
  "farm_moves st L (st'\<lparr>boosted_yields_rewards_percentage := v9\<rparr>) L' g x = farm_moves st L st' L' g x"
  "farm_moves st L (st'\<lparr>boosted_config := v10\<rparr>) L' g x = farm_moves st L st' L' g x"
  "farm_moves st L (st'\<lparr>last_undistributed_collect_week := v11\<rparr>) L' g x = farm_moves st L st' L' g x"
  "farm_moves st L (st'\<lparr>farm_supply_for_week := v12\<rparr>) L' g x = farm_moves st L st' L' g x"
  "farm_moves st L (st'\<lparr>energy_factory_address := v13\<rparr>) L' g x = farm_moves st L st' L' g x"
  "farm_moves st L (st'\<lparr>first_week_start_epoch := v14\<rparr>) L' g x = farm_moves st L st' L' g x"
  by (simp_all add: farm_moves_def farm_frame_def farm_inv_def books_ok_def farm_pot_def boosted_total_def
      attributes_kept_def)

section \<open>Steps of the operations\<close>

lemma farm_cache_new_Inr:
  assumes "farm_cache_new st = Inr c"
  shows "farm_token st = Some (cache_farm_token_id c)" "cache_farm_token_supply c = farm_token_supply st"
    "cache_farming_token_id c = farming_token_id st" "cache_reward_token_id c = reward_token_id st"
    "cache_reward_reserve c = reward_reserve st" "cache_reward_per_share c = stored_reward_per_share st"
    "cache_division_safety_constant c = division_safety_constant st"
  using assms by (auto simp: farm_cache_new_def and_then_Inr get_farm_token_id_def split: option.splits)

definition generated_rewards :: "'e blockchain_scheme \<Rightarrow> 's farm_storage_scheme \<Rightarrow> nat" where
  "generated_rewards env st = (if last_reward_block_nonce st < get_block_nonce env
     then calculate_per_block_rewards st (get_block_nonce env) (last_reward_block_nonce st) else 0)"

definition mint_effects :: "mint_rewards \<Rightarrow> token_id \<Rightarrow> nat \<Rightarrow> effect list" where
  "mint_effects mint t g = (if g \<noteq> 0 then mint t g else [])"

lemma farm_generated:
  fixes c :: farm_cache
  assumes run: "farm_generate_aggregated_rewards mint env st c = Inr (st', c', es)"
    and c: "cache_farm_token_supply c = (\<Sum>n\<in>UNIV. L n)" "cache_reward_per_share c = stored_reward_per_share st"
      "cache_division_safety_constant c = division_safety_constant st"
    and ok: "tokens_ok (farm_attributes st) l (stored_reward_per_share st) L"
  obtains r nonce acc where
    "st' = st\<lparr>last_reward_block_nonce := nonce, accumulated_rewards_for_week := acc\<rparr>"
    and "c' = c\<lparr>cache_reward_reserve := cache_reward_reserve c + generated_rewards env st,
           cache_reward_per_share := r\<rparr>"
    and "stored_reward_per_share st \<le> r"
    and "owed_base (farm_attributes st) r L + division_safety_constant st * boosted_total st' \<le>
      farm_pot st L + division_safety_constant st * generated_rewards env st"
    and "es = mint_effects mint (cache_reward_token_id c) (generated_rewards env st)"
proof -
  obtain g x y nonce acc where gen:
    "st' = st\<lparr>last_reward_block_nonce := nonce, accumulated_rewards_for_week := acc\<rparr>"
    "boosted_total st' = boosted_total st + y"
    "c' = c\<lparr>cache_reward_reserve := cache_reward_reserve c + g,
           cache_reward_per_share := cache_reward_per_share c + x\<rparr>"
    "cache_farm_token_supply c * x + cache_division_safety_constant c * y \<le> cache_division_safety_constant c * g"
    "es = (if g \<noteq> 0 then mint (cache_reward_token_id c) g else [])"
    "g = (if last_reward_block_nonce st < get_block_nonce env
       then calculate_per_block_rewards st (get_block_nonce env) (last_reward_block_nonce st) else 0)"
    using run by (rule generate_Inr)
  have g: "g = generated_rewards env st" by (simp add: generated_rewards_def gen(6))
  show thesis
  proof (rule that)
    show "owed_base (farm_attributes st) (stored_reward_per_share st + x) L +
        division_safety_constant st * boosted_total st' \<le>
      farm_pot st L + division_safety_constant st * generated_rewards env st"
      using gen(4) c by (simp add: gen(2) farm_pot_def owed_base_mono [OF ok] distrib_left g)
  qed (use gen c g in \<open>simp_all add: mint_effects_def\<close>)
qed

lemma calculated:
  assumes run: "farm_calculate_rewards env st caller n a c = Inr (rew, st')"
    and le: "reward_per_share a \<le> cache_reward_per_share c"
  obtains base b where "rew = base + b" "boosted_rel st b st'"
    and "cache_division_safety_constant c * base \<le> n * (cache_reward_per_share c - reward_per_share a)"
proof -
  let ?dsc = "cache_division_safety_constant c" and ?owed = "n * (cache_reward_per_share c - reward_per_share a)"
  obtain base b where base: "default_calculate_rewards n a c = Inr base" and "rew = base + b"
    and "calculate_boosted_rewards env st caller = Inr (b, st')"
    using run by (auto simp: farm_calculate_rewards_def and_then_Inr)
  moreover have "?dsc * base \<le> ?owed"
    using base div_mult_le_nat [of ?owed ?dsc]
    by (auto simp: default_calculate_rewards_def Let_def big_div_Inr mult.commute split: if_splits)
  ultimately show thesis using that calculate_boosted_rewards_rel by blast
qed

lemma farm_nft_create_Inr:
  assumes "farm_nft_create st n a = Inr (p, st', es)"
  shows "p = new_payment (token_identifier p) (farm_last_nonce st + 1) n" "farm_token st = Some (token_identifier p)"
    "st' = st\<lparr>farm_attributes := (farm_attributes st)(farm_last_nonce st + 1 := Some a),
       farm_last_nonce := farm_last_nonce st + 1\<rparr>"
    "es = [NftCreate (token_identifier p) n]"
  using assms by (auto simp: farm_nft_create_def Let_def and_then_Inr get_farm_token_id_def split: option.splits)

lemma totals_start: "moved_to A L user [] = held_by A L"
  by (simp add: moved_to_def fun_eq_iff)

text \<open>The totals after a user has brought positions.\<close>

lemma farm_inv_moved:
  assumes "check_and_update_user_farm_position st user ps = Inr st'"
    and "farm_position_migration_nonce st \<le> 1" "covered L ps"
    and "\<And>u. user_total_farm_position st u = held_by (farm_attributes st) L u"
  shows "st' = st\<lparr>user_total_farm_position := moved_to (farm_attributes st) L user ps\<rparr>"
  using check_and_update_ok [OF assms(1,2), of L "[]"] assms(3,4) by (simp add: totals_start)

section \<open>The interface of generating rewards\<close>

text \<open>
  The base operations take the generation of rewards as an argument. What their proofs need of it:
  it leaves positions alone, raises the reward per share and what the boosted weeks hold by no more
  than the rewards that it says it generated, and mints these. A contract may keep further storage.
\<close>

locale farm_generation =
  fixes generate :: "('e energy_query_env_scheme, 's farm_storage_scheme) farm_generate"
    and gen :: "'e energy_query_env_scheme \<Rightarrow> 's farm_storage_scheme \<Rightarrow> nat"
    and mint :: mint_rewards
    and rest :: "'e energy_query_env_scheme \<Rightarrow> 's farm_storage_scheme \<Rightarrow> 's"
  assumes generate_ok: "generate env st c = Inr (st', c', es) \<Longrightarrow>
      cache_farm_token_supply c = (\<Sum>n\<in>UNIV. L n) \<Longrightarrow>
      cache_reward_per_share c = stored_reward_per_share st \<Longrightarrow>
      cache_division_safety_constant c = division_safety_constant st \<Longrightarrow>
      tokens_ok (farm_attributes st) l (stored_reward_per_share st) L \<Longrightarrow>
      \<exists>r nonce acc.
        st' = farm_storage.more_update (\<lambda>_. rest env st)
          (st\<lparr>last_reward_block_nonce := nonce, accumulated_rewards_for_week := acc\<rparr>) \<and>
        c' = c\<lparr>cache_reward_reserve := cache_reward_reserve c + gen env st, cache_reward_per_share := r\<rparr> \<and>
        stored_reward_per_share st \<le> r \<and>
        owed_base (farm_attributes st) r L + division_safety_constant st * boosted_total st' \<le>
          farm_pot st L + division_safety_constant st * gen env st \<and>
        es = mint_effects mint (cache_reward_token_id c) (gen env st)"
    and gen_positions: "gen env (st\<lparr>user_total_farm_position := x\<rparr>) = gen env st"
    and rest_positions: "rest env (st\<lparr>user_total_farm_position := x\<rparr>) = rest env st"
begin

lemma generated:
  assumes run: "generate env st c = Inr (st', c', es)"
    and c: "cache_farm_token_supply c = (\<Sum>n\<in>UNIV. L n)" "cache_reward_per_share c = stored_reward_per_share st"
      "cache_division_safety_constant c = division_safety_constant st"
    and ok: "tokens_ok (farm_attributes st) l (stored_reward_per_share st) L"
  obtains r nonce acc where
    "st' = farm_storage.more_update (\<lambda>_. rest env st)
       (st\<lparr>last_reward_block_nonce := nonce, accumulated_rewards_for_week := acc\<rparr>)"
    and "c' = c\<lparr>cache_reward_reserve := cache_reward_reserve c + gen env st, cache_reward_per_share := r\<rparr>"
    and "stored_reward_per_share st \<le> r"
    and "owed_base (farm_attributes st) r L + division_safety_constant st * boosted_total st' \<le>
      farm_pot st L + division_safety_constant st * gen env st"
    and "es = mint_effects mint (cache_reward_token_id c) (gen env st)"
  using generate_ok [OF assms] by blast

end

lemma generated_rewards_upd [simp]:
  "generated_rewards env (st\<lparr>user_total_farm_position := x\<rparr>) = generated_rewards env st"
  by (simp add: generated_rewards_def calculate_per_block_rewards_def)

interpretation farm_gen: farm_generation "farm_generate_aggregated_rewards mint" generated_rewards mint
  "\<lambda>env. farm_storage.more" for mint
proof
  fix env :: "'e energy_query_env_scheme" and st st' :: "'s farm_storage_scheme" and c c' es L l
  assume "farm_generate_aggregated_rewards mint env st c = Inr (st', c', es)"
    "cache_farm_token_supply c = (\<Sum>n\<in>UNIV. L n)" "cache_reward_per_share c = stored_reward_per_share st"
    "cache_division_safety_constant c = division_safety_constant st"
    "tokens_ok (farm_attributes st) l (stored_reward_per_share st) L"
  then obtain r nonce acc where "st' = st\<lparr>last_reward_block_nonce := nonce, accumulated_rewards_for_week := acc\<rparr>"
    and "c' = c\<lparr>cache_reward_reserve := cache_reward_reserve c + generated_rewards env st,
           cache_reward_per_share := r\<rparr>"
    and "stored_reward_per_share st \<le> r"
    and "owed_base (farm_attributes st) r L + division_safety_constant st * boosted_total st' \<le>
      farm_pot st L + division_safety_constant st * generated_rewards env st"
    and "es = mint_effects mint (cache_reward_token_id c) (generated_rewards env st)"
    by (rule farm_generated)
  then show "\<exists>r nonce acc.
        st' = farm_storage.more_update (\<lambda>_. farm_storage.more st)
          (st\<lparr>last_reward_block_nonce := nonce, accumulated_rewards_for_week := acc\<rparr>) \<and>
        c' = c\<lparr>cache_reward_reserve := cache_reward_reserve c + generated_rewards env st, cache_reward_per_share := r\<rparr> \<and>
        stored_reward_per_share st \<le> r \<and>
        owed_base (farm_attributes st) r L + division_safety_constant st * boosted_total st' \<le>
          farm_pot st L + division_safety_constant st * generated_rewards env st \<and>
        es = mint_effects mint (cache_reward_token_id c) (generated_rewards env st)"
    by (intro exI [of _ r] exI [of _ nonce] exI [of _ acc]) simp
qed simp_all

lemma farm_rest_more:
  assumes "farm_rest st' = farm_rest st"
  shows "farm_storage.more st' = farm_storage.more st"
  using arg_cong [OF assms, of farm_storage.more] by (simp add: farm_rest_def weekly_rest_def)

text \<open>Writing the cache back, and fields it does not hold.\<close>

lemma drop_upd:
  "farm_cache_drop c (st\<lparr>produce_rewards_enabled := a\<rparr>) = (farm_cache_drop c st)\<lparr>produce_rewards_enabled := a\<rparr>"
  "farm_cache_drop c (st\<lparr>per_block_reward_amount := b\<rparr>) = (farm_cache_drop c st)\<lparr>per_block_reward_amount := b\<rparr>"
  "farm_cache_drop c (st\<lparr>boosted_yields_rewards_percentage := p\<rparr>) =
     (farm_cache_drop c st)\<lparr>boosted_yields_rewards_percentage := p\<rparr>"
  "farm_cache_drop c (st\<lparr>farm_supply_for_week := f\<rparr>) = (farm_cache_drop c st)\<lparr>farm_supply_for_week := f\<rparr>"
  by (simp_all add: farm_cache_drop_def)

end
