(* ===== verification/FarmOperations.thy ===== *)
theory FarmOperations
  imports FarmMoves
begin

text \<open>
  Entering, claiming, compounding, leaving and merging keep the farm's invariant against the
  ledger, and release no more than the positions and the boosted weeks were owed.
\<close>

text \<open>The farm tokens among the payments, and the ledger after they are replaced by a new position.\<close>

definition farm_part :: "'s farm_storage_scheme \<Rightarrow> esdt_payment list \<Rightarrow> esdt_payment list" where
  "farm_part st ps = filter (\<lambda>p. farm_token st = Some (token_identifier p)) ps"

definition ledger_after :: "'s farm_storage_scheme \<Rightarrow> ledger \<Rightarrow> esdt_payment list \<Rightarrow> nat \<Rightarrow> ledger" where
  "ledger_after st L ps n = (spend L (farm_part st ps))(farm_last_nonce st + 1 := n)"

lemma farm_part_all:
  "farm_token st = Some t \<Longrightarrow> list_all (\<lambda>q. token_identifier q = t) ps \<Longrightarrow> farm_part st ps = ps"
  by (auto simp: farm_part_def list_all_iff filter_id_conv)

lemma farm_pot_upd [simp]:
  "farm_pot (st\<lparr>user_total_farm_position := x\<rparr>) L = farm_pot st L"
  by (simp add: farm_pot_def boosted_total_def)

lemma set_supply_Inr:
  "set_farm_supply_for_current_week env st n = Inr st' \<longleftrightarrow>
     (\<exists>w. get_current_week env st = Inr w \<and> st' = st\<lparr>farm_supply_for_week := (farm_supply_for_week st)(w := n)\<rparr>)"
  by (auto simp: set_farm_supply_for_current_week_def and_then_Inr)

lemma enter_farm_context_new_Inr:
  "enter_farm_context_new ps t u = Inr x \<longleftrightarrow> ps = fst x # snd x \<and> token_identifier (fst x) = t \<and>
     list_all (\<lambda>q. token_identifier q = u) (snd x)"
  by (cases x) (auto simp: enter_farm_context_new_def require_Inr split: list.splits)

lemma claim_rewards_context_new_Inr:
  "claim_rewards_context_new st ps u = Inr (p, a, add) \<longleftrightarrow> ps = p # add \<and>
     list_all (\<lambda>q. token_identifier q = u) ps \<and> farm_attributes st (token_nonce p) = Some a"
  by (auto simp: claim_rewards_context_new_def get_farm_token_attributes_def require_Inr and_then_Inr
      split: list.splits option.splits)

lemma validate_contract_state_Inr:
  "validate_contract_state env c k = Inr x \<longleftrightarrow>
     cache_state c = Active \<and> is_valid_esdt_identifier env (cache_farm_token_id c) \<and> k = Inr x"
  by (simp add: validate_contract_state_def require_Inr)

lemmas operation_Inr = enter_farm_context_new_Inr claim_rewards_context_new_Inr validate_contract_state_Inr
  set_supply_Inr and_then_Inr require_Inr big_sub_Inr

lemma fresh_position_owed:
  "position_owed r \<lparr>reward_per_share = r, entering_epoch = e, compounded_reward = x,
     current_farm_amount = n, original_owner = u\<rparr> = 0"
  by (simp add: position_owed_def)

text \<open>For every way of generating rewards that meets the interface.\<close>

context farm_generation begin

lemma enter_base_moves:
  assumes run: "enter_farm_base generate env st caller ps = Inr (q, c', s, es)"
    and st': "st' = farm_cache_drop c' s"
    and inv: "farm_inv st L" and cov: "covered L (farm_part st ps)" and l: "farm_last_nonce st + 1 \<noteq> 0"
  obtains p add where "ps = p # add" "token_identifier p = farming_token_id st" "farm_part st ps = add"
    and "farm_moves st L st' (ledger_after st L ps (amount q)) (gen env st) 0"
    and "farm_token st = Some (token_identifier q)" "token_nonce q = farm_last_nonce st + 1"
    and "amount q = amount p + total_amount add" "farm_token_supply st' = farm_token_supply st + amount p"
    and "farm_last_nonce st' = farm_last_nonce st + 1" "farm_storage.more st' = rest env st"
    and "es = mint_effects mint (reward_token_id st) (gen env st) @
      [NftCreate (token_identifier q) (amount q)] @ esdt_local_burn_multi add"
proof -
  let ?A = "farm_attributes st" and ?l = "farm_last_nonce st"
  have books: "books_ok st L" and totals: "\<And>u. user_total_farm_position st u = held_by ?A L u"
    using inv by (simp_all add: farm_inv_def)
  obtain c p add where c: "farm_cache_new st = Inr c" and ps: "ps = p # add"
    and p: "token_identifier p = cache_farming_token_id c"
    and add: "list_all (\<lambda>q. token_identifier q = cache_farm_token_id c) add"
    using run
    by (auto simp: enter_farm_base_def operation_Inr)
  note cache = farm_cache_new_Inr [OF c]
  have part: "farm_part st ps = add"
  proof -
    have "farm_token st \<noteq> Some (token_identifier p)" using books p cache by (auto simp: books_ok_def)
    then show ?thesis using farm_part_all [OF cache(1) add] ps by (simp add: farm_part_def)
  qed
  obtain st1 st2 c2 es1 attr es2 where moved: "check_and_update_user_farm_position st caller add = Inr st1"
    and gen: "generate env (increase_user_farm_position st1 caller (amount p)) c =
      Inr (st2, c2, es1)"
    and merge: "merge_attributes_from_payments st2
      (create_enter_farm_initial_attributes env caller (amount p) (cache_reward_per_share c2)) add = Inr attr"
    and create: "farm_nft_create st2 (farm_get_total_supply attr) attr = Inr (q, s, es2)"
    and es: "es = es1 @ es2 @ esdt_local_burn_multi add"
    and c': "c' = c2\<lparr>cache_farm_token_supply := cache_farm_token_supply c2 + amount p\<rparr>"
    using run c p add ps
    by (auto simp: enter_farm_base_def merge_and_create_token_def Let_def operation_Inr)
  let ?tot = "(moved_to ?A L caller add)(caller := moved_to ?A L caller add caller + amount p)"
  let ?st = "st\<lparr>user_total_farm_position := ?tot\<rparr>"
  have inc: "increase_user_farm_position st1 caller (amount p) = ?st"
    using farm_inv_moved [OF moved _ _ totals] books cov part
    by (simp add: books_ok_def increase_user_farm_position_def)
  have pre: "cache_farm_token_supply c = (\<Sum>n\<in>UNIV. L n)" "cache_reward_per_share c = stored_reward_per_share ?st"
    "cache_division_safety_constant c = division_safety_constant ?st"
    "tokens_ok (farm_attributes ?st) ?l (stored_reward_per_share ?st) L"
    using books cache by (simp_all add: books_ok_def)
  obtain r nonce acc where g:
    "st2 = farm_storage.more_update (\<lambda>_. rest env ?st) (?st\<lparr>last_reward_block_nonce := nonce, accumulated_rewards_for_week := acc\<rparr>)"
    "c2 = c\<lparr>cache_reward_reserve := cache_reward_reserve c + gen env ?st,
           cache_reward_per_share := r\<rparr>"
    "stored_reward_per_share ?st \<le> r"
    "owed_base (farm_attributes ?st) r L + division_safety_constant ?st * boosted_total st2 \<le>
      farm_pot ?st L + division_safety_constant ?st * gen env ?st"
    "es1 = mint_effects mint (cache_reward_token_id c) (gen env ?st)"
    by (rule generated [OF gen [unfolded inc] pre])
  note st2 = g(1) [unfolded rest_positions] and c2 = g(2) [unfolded gen_positions] and r = g(3) [simplified]
    and pot = g(4) [simplified, unfolded gen_positions] and es1 = g(5) [unfolded gen_positions]
  have "tokens_ok (farm_attributes st2) ?l r L"
    using books r by (auto simp: books_ok_def st2 intro: tokens_ok_mono)
  note merged = merge_attributes_ok [OF merge _ this]
  have merged_attr: "reward_per_share attr \<le> r" "current_farm_amount attr = amount p + total_amount add"
    "original_owner attr = caller"
    using merged by (simp_all add: create_enter_farm_initial_attributes_def c2)
  have owed: "position_owed r attr \<le> sum_list (map (\<lambda>p. amount p * (r - rps_in ?A (token_nonce p))) add)"
    using merged by (simp add: create_enter_farm_initial_attributes_def c2 st2 fresh_position_owed)
  note q = farm_nft_create_Inr [OF create]
  have amount_q: "amount q = current_farm_amount attr" "token_nonce q = ?l + 1"
    by (subst q(1), simp add: new_payment_def farm_get_total_supply_def st2)+
  define attrs where "attrs = ?A(?l + 1 := Some attr)"
  have st'_eq: "st' = farm_storage.more_update (\<lambda>_. rest env st) (st\<lparr>user_total_farm_position := ?tot, last_reward_block_nonce := nonce,
      accumulated_rewards_for_week := acc, farm_attributes := attrs, farm_last_nonce := ?l + 1,
      reward_reserve := reward_reserve st + gen env st, stored_reward_per_share := r,
      farm_token_supply := farm_token_supply st + amount p\<rparr>)"
    by (simp add: st' farm_cache_drop_def c' q(3) st2 c2 cache attrs_def)
  have boosted: "boosted_total st' = boosted_total st2" by (simp add: st'_eq st2 boosted_total_def)
  show thesis
  proof (rule that [OF ps _ part])
    show "farm_moves st L st' (ledger_after st L ps (amount q)) (gen env st) 0"
      unfolding ledger_after_def part amount_q
    proof (rule farm_moves_replace [OF inv l])
      show "covered L add" using cov part by simp
      show "farm_attributes st' = ?A(?l + 1 := Some attr)" by (simp add: st'_eq attrs_def)
      show "user_total_farm_position st' u = held_by ?A (spend L add) u +
          (if original_owner attr = u then current_farm_amount attr else 0)" for u
        by (simp add: st'_eq merged_attr(2,3) moved_to_def)
      show "farm_frame st st'" by (simp add: farm_frame_def st'_eq)
      show "position_owed r attr + 0 \<le> sum_list (map (\<lambda>p. amount p * (r - rps_in ?A (token_nonce p))) add)"
        using owed by simp
      show "owed_base ?A r L + division_safety_constant st * boosted_total st' + division_safety_constant st * 0 \<le>
          farm_pot st L + division_safety_constant st * gen env st"
        using pot by (simp add: boosted)
    qed (use r merged_attr(1,2) in \<open>simp_all add: st'_eq\<close>)
    show "farm_token st = Some (token_identifier q)" using q(2) by (simp add: st2)
    show "farm_token_supply st' = farm_token_supply st + amount p"
      by (simp add: st'_eq)
    show "es = mint_effects mint (reward_token_id st) (gen env st) @
      [NftCreate (token_identifier q) (amount q)] @ esdt_local_burn_multi add"
      by (simp add: es es1 cache q(4) amount_q farm_get_total_supply_def)
  qed (use amount_q merged_attr(2) p cache in \<open>simp_all add: st'_eq\<close>)
qed

end

lemma farm_enter_moves:
  fixes env :: "'e energy_query_env_scheme"
  assumes run: "farm_enter mint env st caller ps = Inr (q, st', es)"
    and inv: "farm_inv st L" and cov: "covered L (farm_part st ps)" and l: "farm_last_nonce st + 1 \<noteq> 0"
  obtains p add where "ps = p # add" "token_identifier p = farming_token_id st" "farm_part st ps = add"
    and "farm_moves st L st' (ledger_after st L ps (amount q)) (generated_rewards env st) 0"
    and "farm_token st = Some (token_identifier q)" "token_nonce q = farm_last_nonce st + 1"
    and "amount q = amount p + total_amount add" "farm_token_supply st' = farm_token_supply st + amount p"
    and "farm_last_nonce st' = farm_last_nonce st + 1"
    and "es = mint_effects mint (reward_token_id st) (generated_rewards env st) @
      [NftCreate (token_identifier q) (amount q)] @ esdt_local_burn_multi add"
proof -
  obtain c s f where base: "enter_farm_base (farm_generate_aggregated_rewards mint) env st caller ps = Inr (q, c, s, es)"
    and st': "st' = (farm_cache_drop c s)\<lparr>farm_supply_for_week := f\<rparr>"
    using run by (auto simp: farm_enter_def drop_upd operation_Inr)
  show thesis
    by (rule farm_gen.enter_base_moves [OF base refl inv cov l], rule that) (simp_all add: st')
qed

section \<open>Claiming and compounding\<close>

text \<open>What the two and leaving share: generating, and calculating the reward of the first position.\<close>

context farm_generation begin

lemma calculated_position:
  fixes st :: "'s farm_storage_scheme"
  defines "A \<equiv> farm_attributes st" and "dsc \<equiv> division_safety_constant st"
  assumes inv: "farm_inv st L" and c: "farm_cache_new st = Inr c"
    and gen: "generate env st c = Inr (st1, c1, es1)"
    and a: "A (token_nonce p) = Some a" and part: "farm_into_part a (amount p) = Inr b"
    and calc: "farm_calculate_rewards env st1 caller (amount p) b c1 = Inr (rew, st2)"
  obtains r base z where "rew = base + z" "stored_reward_per_share st \<le> r"
    and "c1 = c\<lparr>cache_reward_reserve := reward_reserve st + gen env st, cache_reward_per_share := r\<rparr>"
    and "dsc * base \<le> amount p * (r - rps_in A (token_nonce p))"
    and "owed_base A r L + dsc * boosted_total st2 + dsc * z \<le> farm_pot st L + dsc * gen env st"
    and "es1 = mint_effects mint (reward_token_id st) (gen env st)"
    and "farm_attributes st2 = A" "farm_last_nonce st2 = farm_last_nonce st" "farm_frame st st2"
      "user_total_farm_position st2 = user_total_farm_position st" "farm_token_supply st2 = farm_token_supply st"
      "farm_storage.more st2 = rest env st"
proof -
  note cache = farm_cache_new_Inr [OF c]
  have books: "books_ok st L" using inv by (simp add: farm_inv_def)
  have pre: "cache_farm_token_supply c = (\<Sum>n\<in>UNIV. L n)" "tokens_ok (farm_attributes st) (farm_last_nonce st) (stored_reward_per_share st) L"
    using books cache by (simp_all add: books_ok_def)
  obtain r nonce acc where st1: "st1 = farm_storage.more_update (\<lambda>_. rest env st)
      (st\<lparr>last_reward_block_nonce := nonce, accumulated_rewards_for_week := acc\<rparr>)"
    and c1: "c1 = c\<lparr>cache_reward_reserve := cache_reward_reserve c + gen env st,
           cache_reward_per_share := r\<rparr>"
    and r: "stored_reward_per_share st \<le> r"
    and pot: "owed_base (farm_attributes st) r L + division_safety_constant st * boosted_total st1 \<le>
      farm_pot st L + division_safety_constant st * gen env st"
    and es1: "es1 = mint_effects mint (cache_reward_token_id c) (gen env st)"
    by (rule generated [OF gen pre(1) cache(6,7) pre(2)])
  have rps: "reward_per_share b = rps_in A (token_nonce p)"
    using farm_into_part_Inr [OF part] a by (simp add: rps_in_def)
  have le: "reward_per_share b \<le> cache_reward_per_share c1"
  proof -
    have "reward_per_share a \<le> stored_reward_per_share st" using pre(2) a by (simp add: tokens_ok_def A_def)
    then show ?thesis using farm_into_part_Inr [OF part] r by (simp add: c1)
  qed
  obtain base z where rew: "rew = base + z" and rel: "boosted_rel st1 z st2"
    and base: "cache_division_safety_constant c1 * base \<le> amount p * (cache_reward_per_share c1 - reward_per_share b)"
    by (rule calculated [OF calc le])
  note eq = rel [unfolded boosted_rel_def, THEN conjunct1] and total = rel [unfolded boosted_rel_def, THEN conjunct2]
  have "dsc * boosted_total st2 + dsc * z \<le> dsc * boosted_total st1"
    using mult_le_mono2 [OF total, of dsc] by (simp add: distrib_left)
  then have owed: "owed_base A r L + dsc * boosted_total st2 + dsc * z \<le> farm_pot st L + dsc * gen env st"
    using pot unfolding A_def dsc_def by linarith
  show thesis
  proof (rule that [OF rew r _ _ owed])
    show "dsc * base \<le> amount p * (r - rps_in A (token_nonce p))"
      using base cache by (simp add: c1 rps dsc_def)
    show "es1 = mint_effects mint (reward_token_id st) (gen env st)" using es1 cache by simp
  qed (simp_all add: c1 cache farm_restD [OF eq] farm_rest_more [OF eq] st1 A_def farm_frame_def)
qed

lemma claim_base_moves:
  assumes run: "claim_rewards_base_no_farm_token_mint (generate) farm_calculate_rewards
      env st caller ps = Inr (rewards, attr, c', st', es)"
    and inv: "farm_inv st L" and cov: "covered L (farm_part st ps)"
  obtains t r y z where "farm_part st ps = ps" "ps \<noteq> []" "farm_token st = Some t"
    and "rewards = new_payment (reward_token_id st) 0 (amount rewards)"
    and "division_safety_constant st * amount rewards \<le> y + division_safety_constant st * z"
    and "stored_reward_per_share st \<le> r" "reward_per_share attr \<le> r"
    and "current_farm_amount attr = total_amount ps" "original_owner attr = caller"
    and "position_owed r attr + y \<le>
      sum_list (map (\<lambda>p. amount p * (r - rps_in (farm_attributes st) (token_nonce p))) ps)"
    and "owed_base (farm_attributes st) r L + division_safety_constant st * boosted_total st' +
      division_safety_constant st * z \<le> farm_pot st L + division_safety_constant st * gen env st"
    and "amount rewards \<le> reward_reserve st + gen env st"
    and "cache_reward_reserve c' = reward_reserve st + gen env st - amount rewards"
    and "cache_reward_per_share c' = r" "cache_farm_token_supply c' = farm_token_supply st"
    and "farm_attributes st' = farm_attributes st" "farm_last_nonce st' = farm_last_nonce st" "farm_frame st st'"
      "user_total_farm_position st' = moved_to (farm_attributes st) L caller ps" "farm_storage.more st' = rest env st"
    and "es = mint_effects mint (reward_token_id st) (gen env st) @
      [NftBurn t (token_nonce (hd ps)) (amount (hd ps))] @ esdt_local_burn_multi (tl ps)"
proof -
  let ?A = "farm_attributes st"
  have books: "books_ok st L" and totals: "\<And>u. user_total_farm_position st u = held_by ?A L u"
    using inv by (simp_all add: farm_inv_def)
  obtain c p add a where c: "farm_cache_new st = Inr c" and ps: "ps = p # add"
    and ids: "list_all (\<lambda>q. token_identifier q = cache_farm_token_id c) ps"
    and a: "?A (token_nonce p) = Some a"
    using run by (auto simp: claim_rewards_base_no_farm_token_mint_def operation_Inr)
  note cache = farm_cache_new_Inr [OF c]
  obtain st1 c1 es1 b rew st2 reserve t
    where gen: "generate env st c = Inr (st1, c1, es1)"
    and part: "farm_into_part a (amount p) = Inr b"
    and calc: "farm_calculate_rewards env st1 caller (amount p) b c1 = Inr (rew, st2)"
    and reserve: "rew \<le> cache_reward_reserve c1"
    and c': "c' = c1\<lparr>cache_reward_reserve := cache_reward_reserve c1 - rew\<rparr>"
    and moved: "check_and_update_user_farm_position st2 caller ps = Inr st'"
    and merge: "merge_attributes_from_payments st'
      (create_claim_rewards_initial_attributes caller b (cache_reward_per_share c1)) add = Inr attr"
    and t: "get_farm_token_id st' = Inr t"
    and rewards: "rewards = new_payment (cache_reward_token_id c1) 0 rew"
    and es: "es = es1 @ [NftBurn t (token_nonce p) (amount p)] @ esdt_local_burn_multi add"
    using run c ids a ps
    by (auto simp: claim_rewards_base_no_farm_token_mint_def Let_def operation_Inr
        claim_rewards_context_new_Inr [of st "p # add"])
  note part_all = farm_part_all [OF cache(1) ids]
  obtain r base z where calcd: "rew = base + z" "stored_reward_per_share st \<le> r"
    "c1 = c\<lparr>cache_reward_reserve := reward_reserve st + gen env st, cache_reward_per_share := r\<rparr>"
    "division_safety_constant st * base \<le> amount p * (r - rps_in ?A (token_nonce p))"
    "owed_base ?A r L + division_safety_constant st * boosted_total st2 + division_safety_constant st * z \<le>
      farm_pot st L + division_safety_constant st * gen env st"
    "es1 = mint_effects mint (reward_token_id st) (gen env st)"
    "farm_attributes st2 = ?A" "farm_last_nonce st2 = farm_last_nonce st" "farm_frame st st2"
      "user_total_farm_position st2 = user_total_farm_position st" "farm_token_supply st2 = farm_token_supply st"
      "farm_storage.more st2 = rest env st"
    by (rule calculated_position [OF inv c gen a part calc])
  have st': "st' = st2\<lparr>user_total_farm_position := moved_to ?A L caller ps\<rparr>"
    using farm_inv_moved [OF moved, of L] cov part_all books totals calcd(7,9,10)
    by (simp add: books_ok_def farm_frame_def)
  have "tokens_ok (farm_attributes st') (farm_last_nonce st) r L"
    using books calcd(2,7) by (auto simp: books_ok_def st' intro: tokens_ok_mono)
  note merged = merge_attributes_ok [OF merge _ this]
  have b: "current_farm_amount b = amount p" using farm_into_part_Inr [OF part] by simp
  have m: "reward_per_share attr \<le> r" "current_farm_amount attr = total_amount ps" "original_owner attr = caller"
    using merged b by (simp_all add: create_claim_rewards_initial_attributes_def calcd(3) ps farm_get_total_supply_def)
  have "position_owed r attr \<le> sum_list (map (\<lambda>p. amount p * (r - rps_in ?A (token_nonce p))) add)"
    using merged by (simp add: create_claim_rewards_initial_attributes_def calcd(3,7) st' fresh_position_owed)
  then have owed: "position_owed r attr + division_safety_constant st * base \<le>
      sum_list (map (\<lambda>p. amount p * (r - rps_in ?A (token_nonce p))) ps)"
    using calcd(4) by (simp add: ps)
  have tok: "farm_token st = Some t"
    using t calcd(9) by (auto simp: st' get_farm_token_id_def farm_frame_def split: option.splits)
  have rew: "amount rewards = rew" by (simp add: rewards new_payment_def)
  show thesis
  proof (rule that [OF part_all _ tok _ _ calcd(2) m owed])
    show "division_safety_constant st * amount rewards \<le>
        division_safety_constant st * base + division_safety_constant st * z"
      by (simp add: rew calcd(1) distrib_left)
    show "owed_base ?A r L + division_safety_constant st * boosted_total st' + division_safety_constant st * z \<le>
        farm_pot st L + division_safety_constant st * gen env st"
      using calcd(5) by (simp add: st' boosted_total_def)
    show "es = mint_effects mint (reward_token_id st) (gen env st) @
        [NftBurn t (token_nonce (hd ps)) (amount (hd ps))] @ esdt_local_burn_multi (tl ps)"
      by (simp add: es calcd(6) ps)
    show "farm_frame st st'" using calcd(9) by (simp add: farm_frame_def st')
  qed (use reserve calcd(7,8,12) in \<open>simp_all add: rew rewards calcd(3) c' cache st' ps\<close>)
qed

lemma compound_base_moves:
  assumes run: "compound_rewards_base generate farm_calculate_rewards env st caller ps = Inr (q, c', s, es)"
    and st': "st' = farm_cache_drop c' s"
    and inv: "farm_inv st L" and cov: "covered L (farm_part st ps)" and l: "farm_last_nonce st + 1 \<noteq> 0"
  obtains rew where "farm_part st ps = ps" "ps \<noteq> []" "farming_token_id st = reward_token_id st"
    and "farm_moves st L st' (ledger_after st L ps (amount q)) (gen env st) rew"
    and "farm_token st = Some (token_identifier q)" "token_nonce q = farm_last_nonce st + 1"
    and "amount q = total_amount ps + rew" "farm_token_supply st' = farm_token_supply st + rew"
    and "farm_last_nonce st' = farm_last_nonce st + 1" "farm_storage.more st' = rest env st"
    and "es = mint_effects mint (reward_token_id st) (gen env st) @
      [NftCreate (token_identifier q) (amount q)] @
      [NftBurn (token_identifier q) (token_nonce (hd ps)) (amount (hd ps))] @ esdt_local_burn_multi (tl ps)"
proof -
  let ?A = "farm_attributes st" and ?l = "farm_last_nonce st" and ?dsc = "division_safety_constant st"
  have books: "books_ok st L" and totals: "\<And>u. user_total_farm_position st u = held_by ?A L u"
    using inv by (simp_all add: farm_inv_def)
  obtain c p add a where c: "farm_cache_new st = Inr c" and ps: "ps = p # add"
    and ids: "list_all (\<lambda>q. token_identifier q = cache_farm_token_id c) ps"
    and a: "?A (token_nonce p) = Some a" and same: "cache_farming_token_id c = cache_reward_token_id c"
    using run by (auto simp: compound_rewards_base_def operation_Inr)
  note cache = farm_cache_new_Inr [OF c]
  obtain st1 c1 es1 b rew st2 st3 attr st4 es2 t
    where gen: "generate env st c = Inr (st1, c1, es1)"
    and part: "farm_into_part a (amount p) = Inr b"
    and calc: "farm_calculate_rewards env st1 caller (amount p) b c1 = Inr (rew, st2)"
    and reserve: "rew \<le> cache_reward_reserve c1"
    and moved: "check_and_update_user_farm_position st2 caller ps = Inr st3"
    and merge: "merge_attributes_from_payments st3
      (create_compound_rewards_initial_attributes env caller b (cache_reward_per_share c1) rew) add = Inr attr"
    and create: "farm_nft_create st3 (farm_get_total_supply attr) attr = Inr (q, st4, es2)"
    and t: "get_farm_token_id (increase_user_farm_position st4 caller rew) = Inr t"
    and es: "es = es1 @ es2 @ [NftBurn t (token_nonce p) (amount p)] @ esdt_local_burn_multi add"
    and c': "c' = c1\<lparr>cache_reward_reserve := cache_reward_reserve c1 - rew,
        cache_farm_token_supply := cache_farm_token_supply c1 + rew\<rparr>"
    and s: "s = increase_user_farm_position st4 caller rew"
    using run c ids a ps same
    by (auto simp: compound_rewards_base_def merge_and_create_token_def Let_def operation_Inr
        claim_rewards_context_new_Inr [of st "p # add"])
  note part_all = farm_part_all [OF cache(1) ids]
  obtain r base z where calcd: "rew = base + z" "stored_reward_per_share st \<le> r"
    "c1 = c\<lparr>cache_reward_reserve := reward_reserve st + gen env st, cache_reward_per_share := r\<rparr>"
    "?dsc * base \<le> amount p * (r - rps_in ?A (token_nonce p))"
    "owed_base ?A r L + ?dsc * boosted_total st2 + ?dsc * z \<le> farm_pot st L + ?dsc * gen env st"
    "es1 = mint_effects mint (reward_token_id st) (gen env st)"
    "farm_attributes st2 = ?A" "farm_last_nonce st2 = ?l" "farm_frame st st2"
      "user_total_farm_position st2 = user_total_farm_position st" "farm_token_supply st2 = farm_token_supply st"
      "farm_storage.more st2 = rest env st"
    by (rule calculated_position [OF inv c gen a part calc])
  have st3: "st3 = st2\<lparr>user_total_farm_position := moved_to ?A L caller ps\<rparr>"
    using farm_inv_moved [OF moved, of L] cov part_all books totals calcd(7,9,10)
    by (simp add: books_ok_def farm_frame_def)
  have "tokens_ok (farm_attributes st3) ?l r L"
    using books calcd(2,7) by (auto simp: books_ok_def st3 intro: tokens_ok_mono)
  note merged = merge_attributes_ok [OF merge _ this]
  have b: "current_farm_amount b = amount p" using farm_into_part_Inr [OF part] by simp
  have m: "reward_per_share attr \<le> r" "current_farm_amount attr = total_amount ps + rew" "original_owner attr = caller"
    using merged b by (simp_all add: create_compound_rewards_initial_attributes_def calcd(3) ps)
  have "position_owed r attr \<le> sum_list (map (\<lambda>p. amount p * (r - rps_in ?A (token_nonce p))) add)"
    using merged by (simp add: create_compound_rewards_initial_attributes_def calcd(3,7) st3 fresh_position_owed)
  then have owed: "position_owed r attr + ?dsc * base \<le> sum_list (map (\<lambda>p. amount p * (r - rps_in ?A (token_nonce p))) ps)"
    using calcd(4) by (simp add: ps)
  note q = farm_nft_create_Inr [OF create]
  have amount_q: "amount q = current_farm_amount attr" "token_nonce q = ?l + 1"
    by (subst q(1), simp add: new_payment_def farm_get_total_supply_def st3 calcd(8))+
  have toks: "farm_token st = Some (token_identifier q)" "t = token_identifier q"
    using q(2) t calcd(9)
    by (auto simp: st3 q(3) farm_frame_def get_farm_token_id_def increase_user_farm_position_def split: option.splits)
  note final = st' c' s q(3) farm_cache_drop_def st3 increase_user_farm_position_def
  have boosted: "boosted_total st' = boosted_total st2"
    by (simp add: final boosted_total_def)
  show thesis
  proof (rule that [OF part_all _ _ _ toks(1) amount_q(2)])
    show "farm_moves st L st' (ledger_after st L ps (amount q)) (gen env st) rew"
      unfolding ledger_after_def part_all amount_q
    proof (rule farm_moves_replace [OF inv l _ _ _ _ _ _ _ calcd(2) m(1) owed calcd(5) [folded boosted]])
      show "covered L ps" using cov part_all by simp
      show "user_total_farm_position st' u = held_by ?A (spend L ps) u +
          (if original_owner attr = u then current_farm_amount attr else 0)" for u
        by (simp add: final calcd(7,8) moved_to_def m)
      show "farm_frame st st'" using calcd(9) by (simp add: final farm_frame_def)
      show "?dsc * rew \<le> ?dsc * base + ?dsc * z" by (simp add: calcd(1) distrib_left)
    qed (use reserve in \<open>simp_all add: final calcd(3,7,8) cache m\<close>)
  qed (use same cache in
      \<open>simp_all add: es calcd(6) q(4) toks(2) amount_q m ps final calcd(3,8,12) farm_get_total_supply_def\<close>)
qed

end

lemma farm_claim_moves:
  assumes run: "farm_claim mint env st caller ps = Inr (q, rewards, st', es)"
    and inv: "farm_inv st L" and cov: "covered L (farm_part st ps)" and l: "farm_last_nonce st + 1 \<noteq> 0"
  obtains "farm_part st ps = ps" "ps \<noteq> []"
    and "rewards = new_payment (reward_token_id st) 0 (amount rewards)"
    and "farm_moves st L st' (ledger_after st L ps (amount q)) (generated_rewards env st) (amount rewards)"
    and "farm_token st = Some (token_identifier q)" "token_nonce q = farm_last_nonce st + 1"
    and "amount q = total_amount ps" "farm_token_supply st' = farm_token_supply st"
    and "farm_last_nonce st' = farm_last_nonce st + 1"
    and "es = mint_effects mint (reward_token_id st) (generated_rewards env st) @
      [NftBurn (token_identifier q) (token_nonce (hd ps)) (amount (hd ps))] @ esdt_local_burn_multi (tl ps) @
      [NftCreate (token_identifier q) (amount q)]"
proof -
  let ?A = "farm_attributes st" and ?l = "farm_last_nonce st"
  obtain attr c st1 es1 st2 es2 w x where base: "claim_rewards_base_no_farm_token_mint
      (farm_generate_aggregated_rewards mint) farm_calculate_rewards env st caller ps = Inr (rewards, attr, c, st1, es1)"
    and create: "farm_nft_create st1 (farm_get_total_supply attr) attr = Inr (q, st2, es2)"
    and es: "es = es1 @ es2"
    and st': "st' = farm_cache_drop c (st2\<lparr>farm_supply_for_week := (farm_supply_for_week st2)(w := x)\<rparr>)"
    using run by (auto simp: farm_claim_def claim_rewards_base_def operation_Inr)
  obtain t r y z where part: "farm_part st ps = ps" "ps \<noteq> []" "farm_token st = Some t"
    and rewards: "rewards = new_payment (reward_token_id st) 0 (amount rewards)"
    and paid: "division_safety_constant st * amount rewards \<le> y + division_safety_constant st * z"
    and r: "stored_reward_per_share st \<le> r" "reward_per_share attr \<le> r"
    and m: "current_farm_amount attr = total_amount ps" "original_owner attr = caller"
    and owed: "position_owed r attr + y \<le> sum_list (map (\<lambda>p. amount p * (r - rps_in ?A (token_nonce p))) ps)"
    and pot: "owed_base ?A r L + division_safety_constant st * boosted_total st1 +
      division_safety_constant st * z \<le> farm_pot st L + division_safety_constant st * generated_rewards env st"
    and reserve: "amount rewards \<le> reward_reserve st + generated_rewards env st"
    and c: "cache_reward_reserve c = reward_reserve st + generated_rewards env st - amount rewards"
      "cache_reward_per_share c = r" "cache_farm_token_supply c = farm_token_supply st"
    and st1: "farm_attributes st1 = ?A" "farm_last_nonce st1 = ?l" "farm_frame st st1"
      "user_total_farm_position st1 = moved_to ?A L caller ps"
    and es1: "es1 = mint_effects mint (reward_token_id st) (generated_rewards env st) @
      [NftBurn t (token_nonce (hd ps)) (amount (hd ps))] @ esdt_local_burn_multi (tl ps)"
    by (rule farm_gen.claim_base_moves [OF base inv cov])
  note q = farm_nft_create_Inr [OF create]
  have amount_q: "amount q = current_farm_amount attr" "token_nonce q = ?l + 1"
    by (subst q(1), simp add: new_payment_def farm_get_total_supply_def st1)+
  have tok: "token_identifier q = t" using q(2) part(3) st1(3) by (simp add: farm_frame_def)
  have boosted: "boosted_total st' = boosted_total st1"
    by (simp add: st' q(3) farm_cache_drop_def boosted_total_def)
  show thesis
  proof (rule that [OF part(1,2) rewards])
    show "farm_moves st L st' (ledger_after st L ps (amount q)) (generated_rewards env st) (amount rewards)"
      unfolding ledger_after_def part amount_q
    proof (rule farm_moves_replace [OF inv l _ _ _ _ _ _ _ r owed pot [folded boosted] paid])
      show "covered L ps" using cov part by simp
      show "user_total_farm_position st' u = held_by ?A (spend L ps) u +
          (if original_owner attr = u then current_farm_amount attr else 0)" for u
        by (simp add: st' q(3) farm_cache_drop_def st1 moved_to_def m)
      show "farm_frame st st'" using st1(3) by (simp add: st' q(3) farm_cache_drop_def farm_frame_def)
    qed (use reserve in \<open>simp_all add: st' q(3) farm_cache_drop_def st1 c m\<close>)
  qed (use part amount_q m tok in
      \<open>simp_all add: es es1 q(4) st' q(3) st1(2) farm_cache_drop_def c farm_get_total_supply_def\<close>)
qed


lemma farm_compound_moves:
  assumes run: "farm_compound mint env st caller ps = Inr (q, st', es)"
    and inv: "farm_inv st L" and cov: "covered L (farm_part st ps)" and l: "farm_last_nonce st + 1 \<noteq> 0"
  obtains rew where "farm_part st ps = ps" "ps \<noteq> []" "farming_token_id st = reward_token_id st"
    and "farm_moves st L st' (ledger_after st L ps (amount q)) (generated_rewards env st) rew"
    and "farm_token st = Some (token_identifier q)" "token_nonce q = farm_last_nonce st + 1"
    and "amount q = total_amount ps + rew" "farm_token_supply st' = farm_token_supply st + rew"
    and "farm_last_nonce st' = farm_last_nonce st + 1"
    and "es = mint_effects mint (reward_token_id st) (generated_rewards env st) @
      [NftCreate (token_identifier q) (amount q)] @
      [NftBurn (token_identifier q) (token_nonce (hd ps)) (amount (hd ps))] @ esdt_local_burn_multi (tl ps)"
proof -
  obtain c s f where base: "compound_rewards_base (farm_generate_aggregated_rewards mint) farm_calculate_rewards
      env st caller ps = Inr (q, c, s, es)"
    and st': "st' = (farm_cache_drop c s)\<lparr>farm_supply_for_week := f\<rparr>"
    using run by (auto simp: farm_compound_def drop_upd operation_Inr)
  show thesis
    by (rule farm_gen.compound_base_moves [OF base refl inv cov l], rule that) (simp_all add: st')
qed

section \<open>Leaving\<close>

lemma penalty_split:
  assumes "apply_penalty env st n a c = Inr (left, es)"
  obtains x where "n = left + x"
    and "es = (if 0 < x then burn_farming_tokens st x (cache_farming_token_id c) else [])"
proof (cases "0 < get_exit_penalty env st n a")
  case True
  then show thesis
    using assms that [of "get_exit_penalty env st n a"]
    by (auto simp: apply_penalty_def Let_def and_then_Inr big_sub_Inr)
next
  case False
  then show thesis using assms that [of 0] by (auto simp: apply_penalty_def)
qed

lemma decrease_exact:
  assumes "decrease_user_farm_position st p = Inr st'" "farm_position_migration_nonce st \<le> 1" "covered L [p]"
    and "\<And>u. user_total_farm_position st u = held_by (farm_attributes st) L u"
  shows "st' = st\<lparr>user_total_farm_position := held_by (farm_attributes st) (spend L [p])\<rparr>"
proof -
  let ?A = "farm_attributes st" and ?n = "token_nonce p"
  obtain a where a: "?A ?n = Some a"
    and st': "st' = st\<lparr>user_total_farm_position := (user_total_farm_position st)(original_owner a :=
      reduce_total_position (user_total_farm_position st (original_owner a)) (amount p))\<rparr>"
    using assms(1) no_old_positions [OF assms(2)]
    by (auto simp: decrease_user_farm_position_def get_farm_token_attributes_def Let_def split: option.splits)
  have held: "held_by ?A L u = held_by ?A (spend L [p]) u + (if original_owner a = u then amount p else 0)" for u
    using held_by_spend [OF assms(3), of ?A u] a by (simp add: owner_in_def)
  have "(user_total_farm_position st)(original_owner a :=
      reduce_total_position (user_total_farm_position st (original_owner a)) (amount p)) = held_by ?A (spend L [p])"
    using held by (auto simp: fun_eq_iff assms(4) reduce_total_exact)
  with st' show ?thesis by simp
qed

context farm_generation begin

lemma exit_base_moves:
  assumes run: "exit_farm_base generate farm_calculate_rewards env st caller p = Inr (q, rewards, attr, c', s, es)"
    and st': "st' = farm_cache_drop c' s"
    and inv: "farm_inv st L" and cov: "covered L (farm_part st [p])"
  obtains "farm_part st [p] = [p]" "q = new_payment (farming_token_id st) 0 (amount p)"
    and "rewards = new_payment (reward_token_id st) 0 (amount rewards)"
    and "farm_moves st L st' (spend L [p]) (gen env st) (amount rewards)"
    and "farm_token_supply st' + amount p = farm_token_supply st" "farm_last_nonce st' = farm_last_nonce st"
    and "es = mint_effects mint (reward_token_id st) (gen env st) @
      esdt_local_burn (token_identifier p) (token_nonce p) (amount p)"
    and "cache_farming_token_id c' = farming_token_id st" "farm_storage.more st' = rest env st"
proof -
  let ?A = "farm_attributes st" and ?l = "farm_last_nonce st" and ?dsc = "division_safety_constant st"
  have books: "books_ok st L" and totals: "\<And>u. user_total_farm_position st u = held_by ?A L u"
    using inv by (simp_all add: farm_inv_def)
  obtain c a where c: "farm_cache_new st = Inr c" and id: "token_identifier p = cache_farm_token_id c"
    and a: "?A (token_nonce p) = Some a"
    using run by (auto simp: exit_farm_base_def exit_farm_context_new_def
        get_farm_token_attributes_def operation_Inr split: option.splits)
  note cache = farm_cache_new_Inr [OF c]
  obtain st1 c1 es1 b rew st2
    where gen: "generate env st c = Inr (st1, c1, es1)"
    and part: "farm_into_part a (amount p) = Inr b"
    and calc: "farm_calculate_rewards env st1 caller (amount p) b c1 = Inr (rew, st2)"
    and reserve: "rew \<le> cache_reward_reserve c1"
    and decr: "decrease_user_farm_position st2 p = Inr s"
    and enough: "farm_get_total_supply b \<le> cache_farm_token_supply c1"
    and es: "es = es1 @ esdt_local_burn (token_identifier p) (token_nonce p) (amount p)"
    and rewards: "rewards = new_payment (cache_reward_token_id c1) 0 rew"
    and q: "q = new_payment (cache_farming_token_id c1) 0 (farm_get_total_supply b)"
    and c': "c' = c1\<lparr>cache_reward_reserve := cache_reward_reserve c1 - rew,
        cache_farm_token_supply := cache_farm_token_supply c1 - farm_get_total_supply b\<rparr>"
    using run c id a
    by (auto simp: exit_farm_base_def exit_farm_context_new_def get_farm_token_attributes_def
        Let_def operation_Inr new_payment_def)
  have part_p: "farm_part st [p] = [p]" using cache id by (simp add: farm_part_def)
  have covp: "covered L [p]" using cov by (simp only: part_p)
  obtain r base z where calcd: "rew = base + z" "stored_reward_per_share st \<le> r"
    "c1 = c\<lparr>cache_reward_reserve := reward_reserve st + gen env st, cache_reward_per_share := r\<rparr>"
    "?dsc * base \<le> amount p * (r - rps_in ?A (token_nonce p))"
    "owed_base ?A r L + ?dsc * boosted_total st2 + ?dsc * z \<le> farm_pot st L + ?dsc * gen env st"
    "es1 = mint_effects mint (reward_token_id st) (gen env st)"
    "farm_attributes st2 = ?A" "farm_last_nonce st2 = ?l" "farm_frame st st2"
      "user_total_farm_position st2 = user_total_farm_position st" "farm_token_supply st2 = farm_token_supply st"
      "farm_storage.more st2 = rest env st"
    by (rule calculated_position [OF inv c gen a part calc])
  have st3: "s = st2\<lparr>user_total_farm_position := held_by ?A (spend L [p])\<rparr>"
    using decrease_exact [OF decr, of L] covp books totals calcd(7,9,10) by (simp add: books_ok_def farm_frame_def)
  have b: "farm_get_total_supply b = amount p"
    using farm_into_part_Inr [OF part] by (simp add: farm_get_total_supply_def)
  note final = st' c' farm_cache_drop_def st3
  have owed: "owed_base ?A r L = owed_base ?A r (spend L [p]) + amount p * (r - rps_in ?A (token_nonce p))"
    using owed_base_spend [OF covp, of ?A r] by simp
  have sup: "farm_token_supply st' + amount p = farm_token_supply st"
    using enough by (simp add: final b calcd(3) cache)
  have ok: "tokens_ok ?A ?l r (spend L [p])"
    using books calcd(2) by (auto simp: books_ok_def intro: tokens_ok_mono tokens_ok_spend)
  show thesis
  proof (rule that [OF part_p _ _ _ sup])
    have "farm_frame st st'" using calcd(9) by (simp add: final farm_frame_def)
    moreover have "farm_inv st' (spend L [p])"
    proof -
      have "(\<Sum>n\<in>UNIV. spend L [p] n) = farm_token_supply st'"
        using supply_spend [OF covp] books sup by (simp add: books_ok_def)
      then show ?thesis
        using books ok calcd(9) by (simp add: farm_inv_def books_ok_def final calcd(3,7,8) farm_frame_def)
    qed
    moreover have "farm_pot st' (spend L [p]) + ?dsc * rew \<le> farm_pot st L + ?dsc * gen env st"
    proof -
      have "farm_pot st' (spend L [p]) = owed_base ?A r (spend L [p]) + ?dsc * boosted_total st2"
        using calcd(9) by (simp add: farm_pot_def final calcd(3,7) farm_frame_def boosted_total_def)
      then show ?thesis using owed calcd(4,5) by (simp add: calcd(1) distrib_left)
    qed
    moreover have "attributes_kept st st'" by (rule attributes_kept_same) (simp_all add: final calcd(7,8))
    ultimately show "farm_moves st L st' (spend L [p]) (gen env st) (amount rewards)"
      using reserve by (simp add: farm_moves_def rewards new_payment_def final calcd(3))
  qed (simp_all add: q rewards new_payment_def b c' calcd(3,6) cache es, simp_all add: final calcd(8,12))
qed

end

lemma farm_exit_moves:
  assumes run: "farm_exit mint env st caller p = Inr (q, rewards, st', es)"
    and inv: "farm_inv st L" and cov: "covered L (farm_part st [p])"
  obtains x where "farm_part st [p] = [p]" "amount p = amount q + x"
    and "q = new_payment (farming_token_id st) 0 (amount q)"
    and "rewards = new_payment (reward_token_id st) 0 (amount rewards)"
    and "farm_moves st L st' (spend L [p]) (generated_rewards env st) (amount rewards)"
    and "farm_token_supply st' + amount p = farm_token_supply st" "farm_last_nonce st' = farm_last_nonce st"
    and "es = mint_effects mint (reward_token_id st) (generated_rewards env st) @
      esdt_local_burn (token_identifier p) (token_nonce p) (amount p) @
      (if 0 < x then burn_farming_tokens st' x (farming_token_id st) else [])"
proof -
  obtain r attr c s es1 f left es2 where base: "exit_farm_base (farm_generate_aggregated_rewards mint)
      farm_calculate_rewards env st caller p = Inr (r, rewards, attr, c, s, es1)"
    and penalty: "apply_penalty env (s\<lparr>farm_supply_for_week := f\<rparr>) (amount r) attr c = Inr (left, es2)"
    and q: "q = r\<lparr>amount := left\<rparr>" and es: "es = es1 @ es2"
    and st': "st' = (farm_cache_drop c s)\<lparr>farm_supply_for_week := f\<rparr>"
    using run by (auto simp: farm_exit_def drop_upd operation_Inr)
  obtain part: "farm_part st [p] = [p]" and r: "r = new_payment (farming_token_id st) 0 (amount p)"
    and rewards: "rewards = new_payment (reward_token_id st) 0 (amount rewards)"
    and moves: "farm_moves st L (farm_cache_drop c s) (spend L [p]) (generated_rewards env st) (amount rewards)"
    and final: "farm_token_supply (farm_cache_drop c s) + amount p = farm_token_supply st"
      "farm_last_nonce (farm_cache_drop c s) = farm_last_nonce st"
    and es1: "es1 = mint_effects mint (reward_token_id st) (generated_rewards env st) @
      esdt_local_burn (token_identifier p) (token_nonce p) (amount p)"
    and c: "cache_farming_token_id c = farming_token_id st"
    by (rule farm_gen.exit_base_moves [OF base refl inv cov])
  obtain x where x: "amount p = left + x"
    and es2: "es2 = (if 0 < x then burn_farming_tokens st' x (farming_token_id st) else [])"
    using penalty by (rule penalty_split) (simp add: r new_payment_def c st' farm_cache_drop_def burn_farming_tokens_def)
  show thesis
    by (rule that [OF part, of x]) (use x es1 es2 moves final rewards in \<open>simp_all add: q r es st' new_payment_def\<close>)
qed

section \<open>Merging\<close>

lemma require_all_same_Inr:
  "require_all_same_farm_token st xs k = Inr y \<longleftrightarrow>
     k = Inr y \<and> (\<forall>p\<in>set xs. farm_token st = Some (token_identifier p))"
  by (induction xs) (auto simp: require_same_farm_token_def get_farm_token_id_def operation_Inr split: option.splits)

lemma merge_and_burn_Inr:
  "merge_from_payments_and_burn st ps = Inr x \<longleftrightarrow>
     (\<exists>p add base t attr. ps = p # add \<and> get_attributes_as_part_of_fixed_supply st p = Inr base \<and>
        get_farm_token_id st = Inr t \<and> merge_attributes_from_payments st base add = Inr attr \<and>
        x = (attr, [NftBurn t (token_nonce p) (amount p)] @ esdt_local_burn_multi add))"
  by (auto simp: merge_from_payments_and_burn_def pop_first_payment_def Let_def and_then_Inr split: list.splits)

lemma position_owed_owner: "position_owed r (a\<lparr>original_owner := u\<rparr>) = position_owed r a"
  by (simp add: position_owed_def)

lemma farm_merge_moves:
  assumes run: "merge_and_update_farm_tokens st user ps = Inr (q, st', es)"
    and inv: "farm_inv st L" and cov: "covered L (farm_part st ps)" and l: "farm_last_nonce st + 1 \<noteq> 0"
  obtains "farm_part st ps = ps" "ps \<noteq> []"
    and "farm_moves st L st' (ledger_after st L ps (amount q)) 0 0"
    and "farm_token st = Some (token_identifier q)" "token_nonce q = farm_last_nonce st + 1"
    and "amount q = total_amount ps" "farm_token_supply st' = farm_token_supply st"
    and "farm_last_nonce st' = farm_last_nonce st + 1"
    and "es = [NftBurn (token_identifier q) (token_nonce (hd ps)) (amount (hd ps))] @ esdt_local_burn_multi (tl ps) @
      [NftCreate (token_identifier q) (amount q)]"
proof -
  let ?A = "farm_attributes st" and ?l = "farm_last_nonce st" and ?r = "stored_reward_per_share st"
  have books: "books_ok st L" and totals: "\<And>u. user_total_farm_position st u = held_by ?A L u"
    using inv by (simp_all add: farm_inv_def)
  obtain p add st1 base attr t es1 where ps: "ps = p # add"
    and same: "\<forall>p\<in>set ps. farm_token st = Some (token_identifier p)"
    and moved: "check_and_update_user_farm_position st user ps = Inr st1"
    and part: "get_attributes_as_part_of_fixed_supply st1 p = Inr base"
    and t: "get_farm_token_id st1 = Inr t"
    and merge: "merge_attributes_from_payments st1 base add = Inr attr"
    and create: "farm_nft_create st1 (farm_get_total_supply attr) (attr\<lparr>original_owner := user\<rparr>) = Inr (q, st', es1)"
    and es: "es = ([NftBurn t (token_nonce p) (amount p)] @ esdt_local_burn_multi add) @ es1"
    using run
    by (auto simp: merge_and_update_farm_tokens_def merge_and_return_attributes_def merge_and_burn_Inr
        require_all_same_Inr get_non_empty_payments_def farm_get_total_supply_def Let_def operation_Inr
        simp del: check_and_update_user_farm_position.simps)
  have part_all: "farm_part st ps = ps" using same by (simp add: farm_part_def)
  have st1: "st1 = st\<lparr>user_total_farm_position := moved_to ?A L user ps\<rparr>"
    using farm_inv_moved [OF moved, of L] cov part_all books totals by (simp add: books_ok_def)
  obtain a where a: "?A (token_nonce p) = Some a" and into: "farm_into_part a (amount p) = Inr base"
    using part by (auto simp: get_attributes_as_part_of_fixed_supply_def get_farm_token_attributes_def st1
        operation_Inr split: option.splits)
  note b = farm_into_part_Inr [OF into]
  have ok: "tokens_ok ?A ?l ?r L" using books by (simp add: books_ok_def)
  then have le: "reward_per_share base \<le> ?r" using a b by (auto simp: tokens_ok_def)
  have "tokens_ok (farm_attributes st1) ?l ?r L" using ok by (simp add: st1)
  note merged = merge_attributes_ok [OF merge le this]
  have m: "current_farm_amount attr = total_amount ps" "reward_per_share attr \<le> ?r"
    using merged b by (simp_all add: ps)
  have "position_owed ?r base = amount p * (?r - rps_in ?A (token_nonce p))"
    using b a by (simp add: position_owed_def rps_in_def)
  then have owed: "position_owed ?r (attr\<lparr>original_owner := user\<rparr>) + 0 \<le>
      sum_list (map (\<lambda>p. amount p * (?r - rps_in ?A (token_nonce p))) ps)"
    using merged by (simp add: ps st1 position_owed_owner)
  note q = farm_nft_create_Inr [OF create]
  have amount_q: "amount q = total_amount ps" "token_nonce q = ?l + 1"
    by (subst q(1), simp add: new_payment_def farm_get_total_supply_def st1 m)+
  have tok: "farm_token st = Some (token_identifier q)" "t = token_identifier q"
    using q(2) t by (auto simp: st1 get_farm_token_id_def)
  have pot: "owed_base ?A ?r L + division_safety_constant st * boosted_total st' +
      division_safety_constant st * 0 \<le> farm_pot st L + division_safety_constant st * 0"
    by (simp add: farm_pot_def q(3) st1 boosted_total_def)
  show thesis
  proof (rule that [OF part_all _ _ tok(1) amount_q(2,1)])
    have "farm_moves st L st' ((spend L ps)(?l + 1 := current_farm_amount (attr\<lparr>original_owner := user\<rparr>))) 0 0"
    proof (rule farm_moves_replace [OF inv l _ _ _ _ _ _ _ order_refl _ owed pot])
      show "covered L ps" using cov part_all by simp
      show "user_total_farm_position st' u = held_by ?A (spend L ps) u +
          (if original_owner (attr\<lparr>original_owner := user\<rparr>) = u
           then current_farm_amount (attr\<lparr>original_owner := user\<rparr>) else 0)" for u
        by (simp add: q(3) st1 moved_to_def m)
      show "farm_frame st st'" by (simp add: q(3) st1 farm_frame_def)
    qed (simp_all add: q(3) st1 m)
    then show "farm_moves st L st' (ledger_after st L ps (amount q)) 0 0"
      by (simp add: ledger_after_def part_all amount_q m)
  qed (use amount_q(1) m(1) in \<open>simp_all add: q(3,4) st1 es tok(2) ps farm_get_total_supply_def\<close>)
qed

end
