(* ===== verification/FarmSettings.thy ===== *)
theory FarmSettings
  imports FarmOperations
begin

text \<open>
  The calls that set up and control a farm, as one function that the farm and the farm with locked
  rewards share, and the steps that their endpoints share: they keep the invariant against the
  ledger, leave positions alone, and generate at most the rewards of the blocks passed.
\<close>

section \<open>Settings\<close>

datatype farm_setting =
    StartProduceRewards
  | EndProduceRewards
  | SetPerBlockRewards biguint
  | SetBoostedPercentage u64
  | SetBoostedFactors boosted_yields_factors
  | CollectUndistributed
  | FarmUpdateEnergy address
  | SetPenaltyPercent u64
  | SetMinimumFarmingEpochs u64
  | SetBurnGasLimit u64
  | FarmEnergyFactory address
  | PauseFarm
  | ResumeFarm
  | AddFarmPausers "address list"
  | RemoveFarmPausers "address list"
  | AddFarmAdmin address
  | RemoveFarmAdmin address
  | UpdateFarmOwner address
  | AddFarmWhitelist address
  | RemoveFarmWhitelist address
  | UpgradeFarm

type_synonym 's setting_result = "error + ('s \<times> effect list)"

definition farm_quiet :: "error + 's \<Rightarrow> 's setting_result" where
  "farm_quiet r = and_then r (\<lambda>st. Inr (st, []))"

definition with_permissions ::
  "'s farm_storage_scheme \<Rightarrow> error + permission_map \<Rightarrow> 's farm_storage_scheme setting_result" where
  "with_permissions st r = farm_quiet (and_then r (\<lambda>m. Inr (st\<lparr>farm_permissions := m\<rparr>)))"

definition with_whitelist ::
  "'s farm_storage_scheme \<Rightarrow> error + address set \<Rightarrow> 's farm_storage_scheme setting_result" where
  "with_whitelist st r = farm_quiet (and_then r (\<lambda>w. Inr (st\<lparr>farm_sc_whitelist := w\<rparr>)))"

definition with_state ::
  "'s farm_storage_scheme \<Rightarrow> error + state \<Rightarrow> 's farm_storage_scheme setting_result" where
  "with_state st r = farm_quiet (and_then r (\<lambda>s. Inr (st\<lparr>farm_state := s\<rparr>)))"

text \<open>The last one is an upgrade of the code by the owner.\<close>

fun farm_set ::
  "mint_rewards \<Rightarrow> 'e energy_query_env_scheme \<Rightarrow> 's farm_storage_scheme \<Rightarrow> farm_setting \<Rightarrow>
     's farm_storage_scheme setting_result" where
  "farm_set mint env st StartProduceRewards = farm_quiet (start_produce_rewards_endpoint env st)"
| "farm_set mint env st EndProduceRewards = end_produce_rewards_endpoint mint env st"
| "farm_set mint env st (SetPerBlockRewards a) = set_per_block_rewards_endpoint mint env st a"
| "farm_set mint env st (SetBoostedPercentage n) = set_boosted_yields_rewards_percentage mint env st n"
| "farm_set mint env st (SetBoostedFactors f) = farm_quiet (set_boosted_yields_factors env st f)"
| "farm_set mint env st CollectUndistributed = farm_quiet (collect_undistributed_boosted_rewards env st)"
| "farm_set mint env st (FarmUpdateEnergy u) = farm_quiet (update_energy_for_user env st u)"
| "farm_set mint env st (SetPenaltyPercent n) = farm_quiet (set_penalty_percent env st n)"
| "farm_set mint env st (SetMinimumFarmingEpochs n) = farm_quiet (set_minimum_farming_epochs env st n)"
| "farm_set mint env st (SetBurnGasLimit n) = farm_quiet (set_burn_gas_limit env st n)"
| "farm_set mint env st (FarmEnergyFactory a) = farm_quiet (set_energy_factory_address env st a)"
| "farm_set mint env st PauseFarm = with_state st (pause (farm_permissions st) (get_caller env))"
| "farm_set mint env st ResumeFarm = with_state st (resume (farm_permissions st) (get_caller env))"
| "farm_set mint env st (AddFarmPausers us) =
     with_permissions st (add_to_pause_whitelist (farm_permissions st) (get_caller env) us)"
| "farm_set mint env st (RemoveFarmPausers us) =
     with_permissions st (remove_from_pause_whitelist (farm_permissions st) (get_caller env) us)"
| "farm_set mint env st (AddFarmAdmin u) =
     with_permissions st (add_admin_endpoint (farm_permissions st) (get_caller env) u)"
| "farm_set mint env st (RemoveFarmAdmin u) =
     with_permissions st (remove_admin_endpoint (farm_permissions st) (get_caller env) u)"
| "farm_set mint env st (UpdateFarmOwner u) =
     with_permissions st (update_owner_or_admin_endpoint (blockchain.truncate env) (farm_permissions st) u)"
| "farm_set mint env st (AddFarmWhitelist a) =
     with_whitelist st (add_sc_address_to_whitelist env a (farm_sc_whitelist st))"
| "farm_set mint env st (RemoveFarmWhitelist a) =
     with_whitelist st (remove_sc_address_from_whitelist env a (farm_sc_whitelist st))"
| "farm_set mint env st UpgradeFarm = Inr (farm_upgrade env st, [])"

section \<open>Steps the endpoints share\<close>

lemma migrate_old_Inr:
  assumes "farm_position_migration_nonce st = 1" "migrate_old_farm_positions st user ps = Inr (m, st')"
  shows "m = 0" "st' = st"
proof -
  have "\<not> is_old_farm_position st n" for n by (rule no_old_positions) (simp add: assms(1))
  then show "m = 0" "st' = st"
    using assms(2) by (auto simp: migrate_old_farm_positions_def Let_def and_then_Inr)
qed

lemma farm_moves_refl: "farm_inv st L \<Longrightarrow> farm_moves st L st L 0 0"
  by (simp add: farm_moves_def farm_frame_def attributes_kept_same)

definition same_tokens :: "'s farm_storage_scheme \<Rightarrow> 's farm_storage_scheme \<Rightarrow> bool" where
  "same_tokens st st' \<longleftrightarrow> farm_last_nonce st' = farm_last_nonce st \<and>
     farm_token_supply st' = farm_token_supply st \<and> farm_token st' = farm_token st"

lemma same_tokens_rest:
  assumes "farm_rest st' = farm_rest st"
  shows "same_tokens st st'"
  unfolding same_tokens_def farm_restD [OF assms] by simp

lemma claim_only_moves:
  assumes run: "claim_only_boosted_payment env st user = Inr (b, st')" and inv: "farm_inv st L"
  shows "farm_moves st L st' L 0 b" "same_tokens st st'"
proof -
  obtain st1 where calc: "calculate_boosted_rewards env st user = Inr (b, st1)"
    and st': "st' = st1\<lparr>reward_reserve := reward_reserve st1 - b\<rparr>"
    using run by (auto simp: claim_only_boosted_payment_def and_then_Inr big_sub_Inr split: if_splits)
  note rel = calculate_boosted_rewards_rel [OF calc]
  show "farm_moves st L st' L 0 b" unfolding st' by (rule farm_moves_boosted [OF inv rel])
  have "same_tokens st st1" by (rule same_tokens_rest, rule rel [unfolded boosted_rel_def, THEN conjunct1])
  then show "same_tokens st st'" by (simp add: st' same_tokens_def)
qed

lemma weekly_moves:
  assumes "weekly_rest st' = weekly_rest st" "farm_inv st L"
  shows "farm_moves st L st' L 0 0" "same_tokens st st'"
  by (rule farm_moves_weekly [OF assms(2,1)]) (rule same_tokens_rest, rule farm_rest_weekly, rule assms(1))

lemma farm_moves_inv: "farm_moves st L st' L' g x \<Longrightarrow> farm_inv st' L'"
  by (simp add: farm_moves_def)

lemma same_tokens_part: "same_tokens st st' \<Longrightarrow> farm_part st' ps = farm_part st ps"
  by (simp add: same_tokens_def farm_part_def)

lemma same_tokens_ledger: "same_tokens st st' \<Longrightarrow> ledger_after st' L ps n = ledger_after st L ps n"
  by (simp add: ledger_after_def same_tokens_part) (simp add: same_tokens_def)

lemma farm_inv_tokens:
  assumes "farm_inv st L" "farm_token st = Some t"
  shows "t \<noteq> farming_token_id st" "t \<noteq> reward_token_id st"
  using assms by (simp_all add: farm_inv_def books_ok_def)

lemma farm_frame_of: "farm_moves st L st' L' g x \<Longrightarrow> farm_frame st st'"
  by (simp add: farm_moves_def)

context farm_generation begin

lemma generate_moves:
  assumes c: "farm_cache_new st = Inr c" and inv: "farm_inv st L"
    and run: "generate env st c = Inr (st1, c1, es)"
  shows "farm_moves st L (farm_cache_drop c1 st1) L (gen env st) 0"
    and "es = mint_effects mint (reward_token_id st) (gen env st)"
    and "farm_token_supply (farm_cache_drop c1 st1) = farm_token_supply st" "farm_last_nonce st1 = farm_last_nonce st"
    and "farm_storage.more (farm_cache_drop c1 st1) = rest env st"
proof -
  let ?A = "farm_attributes st" and ?l = "farm_last_nonce st" and ?dsc = "division_safety_constant st"
  note cache = farm_cache_new_Inr [OF c]
  have books: "books_ok st L" using inv by (simp add: farm_inv_def)
  have pre: "cache_farm_token_supply c = (\<Sum>n\<in>UNIV. L n)" "tokens_ok ?A ?l (stored_reward_per_share st) L"
    using books cache by (simp_all add: books_ok_def)
  obtain r nonce acc where st1: "st1 = farm_storage.more_update (\<lambda>_. rest env st)
      (st\<lparr>last_reward_block_nonce := nonce, accumulated_rewards_for_week := acc\<rparr>)"
    and c1: "c1 = c\<lparr>cache_reward_reserve := cache_reward_reserve c + gen env st, cache_reward_per_share := r\<rparr>"
    and r: "stored_reward_per_share st \<le> r"
    and pot: "owed_base ?A r L + ?dsc * boosted_total st1 \<le> farm_pot st L + ?dsc * gen env st"
    and es: "es = mint_effects mint (cache_reward_token_id c) (gen env st)"
    by (rule generated [OF run pre(1) cache(6,7) pre(2)])
  let ?st = "farm_cache_drop c1 st1"
  have "tokens_ok ?A ?l r L" using pre(2) r by (rule tokens_ok_mono)
  then have "farm_inv ?st L"
    using inv by (simp add: farm_inv_def books_ok_def farm_cache_drop_def st1 c1 cache)
  moreover have "boosted_total ?st = boosted_total st1" by (simp add: farm_cache_drop_def boosted_total_def)
  moreover have "attributes_kept st ?st" by (rule attributes_kept_same) (simp_all add: farm_cache_drop_def st1)
  ultimately show "farm_moves st L ?st L (gen env st) 0"
    using pot
    by (simp add: farm_moves_def farm_frame_def farm_pot_def [of ?st], simp add: farm_cache_drop_def st1 c1 cache)
  show "es = mint_effects mint (reward_token_id st) (gen env st)" by (simp add: es cache)
  show "farm_token_supply ?st = farm_token_supply st" "farm_last_nonce st1 = ?l" "farm_storage.more ?st = rest env st"
    by (simp_all add: farm_cache_drop_def c1 st1 cache)
qed

end

lemma collect_undistributed_moves:
  assumes "collect_undistributed_boosted_rewards env st = Inr st'" "farm_inv st L"
  shows "farm_moves st L st' L 0 0" "same_tokens st st'"
proof -
  obtain n w x where "st' = st \<or> st' = (collect_undistributed_loop n w st)\<lparr>last_undistributed_collect_week := x\<rparr>"
    using assms(1)
    by (auto simp: collect_undistributed_boosted_rewards_def Let_def require_caller_has_admin_permissions_def
        res_simps simp del: collect_undistributed_loop.simps split: if_splits)
  then have "farm_moves st L st' L 0 0 \<and> same_tokens st st'"
  proof
    assume "st' = st"
    then show ?thesis using farm_moves_refl [OF assms(2)] by (simp add: same_tokens_def)
  next
    let ?st = "collect_undistributed_loop n w st"
    assume st': "st' = ?st\<lparr>last_undistributed_collect_week := x\<rparr>"
    note rel = collect_undistributed_loop_rel [of st n w]
    have "farm_moves st L ?st L 0 0" using farm_moves_boosted [OF assms(2) rel] by simp
    moreover have "same_tokens st ?st"
      by (rule same_tokens_rest, rule rel [unfolded boosted_rel_def, THEN conjunct1])
    ultimately show ?thesis by (simp add: st' same_tokens_def)
  qed
  then show "farm_moves st L st' L 0 0" "same_tokens st st'" by blast+
qed

section \<open>Settings move no positions\<close>

lemma farm_quiet_Inr: "farm_quiet r = Inr (st', es) \<longleftrightarrow> r = Inr st' \<and> es = []"
  by (auto simp: farm_quiet_def and_then_Inr)

lemma with_Inr:
  "with_permissions st r = Inr (st', es) \<longleftrightarrow> (\<exists>m. r = Inr m \<and> st' = st\<lparr>farm_permissions := m\<rparr>) \<and> es = []"
  "with_whitelist st w = Inr (st', es) \<longleftrightarrow> (\<exists>m. w = Inr m \<and> st' = st\<lparr>farm_sc_whitelist := m\<rparr>) \<and> es = []"
  "with_state st s = Inr (st', es) \<longleftrightarrow> (\<exists>m. s = Inr m \<and> st' = st\<lparr>farm_state := m\<rparr>) \<and> es = []"
  by (auto simp: with_permissions_def with_whitelist_def with_state_def farm_quiet_Inr and_then_Inr)

text \<open>What a call does that leaves positions alone, with \<open>g\<close> generated.\<close>

definition sets ::
  "mint_rewards \<Rightarrow> 's farm_storage_scheme \<Rightarrow> ledger \<Rightarrow> 's farm_storage_scheme \<Rightarrow> effect list \<Rightarrow> nat \<Rightarrow> bool" where
  "sets mint st L st' es g \<longleftrightarrow> farm_moves st L st' L g 0 \<and> same_tokens st st' \<and>
     es = mint_effects mint (reward_token_id st) g"

lemma sets_quiet: "farm_moves st L st' L 0 0 \<Longrightarrow> same_tokens st st' \<Longrightarrow> sets mint st L st' [] 0"
  by (simp add: sets_def mint_effects_def)

lemma sets_generate:
  fixes env :: "'e energy_query_env_scheme"
  assumes c: "farm_cache_new st = Inr c" and inv: "farm_inv st L"
    and gen: "farm_generate_aggregated_rewards mint env st c = Inr (st1, c1, es)"
    and moves: "farm_moves st L (farm_cache_drop c1 st1) L (generated_rewards env st) 0 \<Longrightarrow>
      farm_moves st L st' L (generated_rewards env st) 0"
    and "same_tokens (farm_cache_drop c1 st1) st'"
  shows "sets mint st L st' es (generated_rewards env st)"
proof -
  note g = farm_gen.generate_moves [OF c inv gen]
  have "farm_token (farm_cache_drop c1 st1) = farm_token st"
    using farm_frame_of [OF g(1)] by (simp add: farm_frame_def)
  then show ?thesis
    using moves [OF g(1)] g(2,3,4) assms(5) by (simp add: sets_def same_tokens_def, simp add: farm_cache_drop_def)
qed

fun setting_generates :: "farm_setting \<Rightarrow> bool" where
  "setting_generates EndProduceRewards = True"
| "setting_generates (SetPerBlockRewards a) = True"
| "setting_generates (SetBoostedPercentage n) = True"
| "setting_generates c = False"

lemma farm_set_sets:
  assumes run: "farm_set mint env st c = Inr (st', es)" and inv: "farm_inv st L"
  shows "sets mint st L st' es (if setting_generates c then generated_rewards env st else 0)"
proof -
  note refl = farm_moves_refl [OF inv]
  have migrated: "farm_position_migration_nonce st = 1" using inv by (simp add: farm_inv_def books_ok_def)
  show ?thesis
  proof (cases c)
    case C: EndProduceRewards
    then have "sets mint st L st' es (generated_rewards env st)"
      using run by (auto simp: end_produce_rewards_endpoint_def end_produce_rewards_def same_tokens_def
          require_caller_has_admin_permissions_def res_simps drop_upd intro!: sets_generate [OF _ inv])
    then show ?thesis using C by simp
  next
    case C: (SetPerBlockRewards a)
    then have "sets mint st L st' es (generated_rewards env st)"
      using run by (auto simp: set_per_block_rewards_endpoint_def set_per_block_rewards_def same_tokens_def
          require_caller_has_admin_permissions_def res_simps drop_upd intro!: sets_generate [OF _ inv])
    then show ?thesis using C by simp
  next
    case C: (SetBoostedPercentage n)
    then have "sets mint st L st' es (generated_rewards env st)"
      using run by (auto simp: set_boosted_yields_rewards_percentage_def same_tokens_def
          require_caller_has_admin_permissions_def res_simps drop_upd intro!: sets_generate [OF _ inv])
    then show ?thesis using C by simp
  next
    case C: CollectUndistributed
    with run have "collect_undistributed_boosted_rewards env st = Inr st'" and "es = []"
      by (simp_all add: farm_quiet_Inr)
    from sets_quiet [OF collect_undistributed_moves [OF this(1) inv]] this(2) C show ?thesis by simp
  next
    case C: (FarmUpdateEnergy u)
    with run have "update_energy_for_user env st u = Inr st'" and "es = []" by (simp_all add: farm_quiet_Inr)
    from sets_quiet [OF weekly_moves [OF update_energy_for_user_rest [OF this(1)] inv]] this(2) C show ?thesis by simp
  next
    case C: StartProduceRewards
    then have "sets mint st L st' es 0"
      using run by (auto simp: farm_quiet_Inr start_produce_rewards_endpoint_def start_produce_rewards_def
          require_caller_has_admin_permissions_def res_simps refl same_tokens_def intro!: sets_quiet)
    then show ?thesis using C by simp
  next
    case C: (SetBoostedFactors f)
    then have "sets mint st L st' es 0"
      using run by (auto simp: farm_quiet_Inr set_boosted_yields_factors_def require_caller_has_admin_permissions_def
          res_simps refl same_tokens_def intro!: sets_quiet split: option.splits)
    then show ?thesis using C by simp
  next
    case C: (SetPenaltyPercent n)
    then have "sets mint st L st' es 0"
      using run by (auto simp: farm_quiet_Inr set_penalty_percent_def res_simps refl same_tokens_def intro!: sets_quiet)
    then show ?thesis using C by simp
  next
    case C: (SetMinimumFarmingEpochs n)
    then have "sets mint st L st' es 0"
      using run by (auto simp: farm_quiet_Inr set_minimum_farming_epochs_def require_caller_has_admin_permissions_def
          res_simps refl same_tokens_def intro!: sets_quiet)
    then show ?thesis using C by simp
  next
    case C: (SetBurnGasLimit n)
    then have "sets mint st L st' es 0"
      using run by (auto simp: farm_quiet_Inr set_burn_gas_limit_def res_simps refl same_tokens_def intro!: sets_quiet)
    then show ?thesis using C by simp
  next
    case C: (FarmEnergyFactory a)
    then have "sets mint st L st' es 0"
      using run by (auto simp: farm_quiet_Inr set_energy_factory_address_def res_simps refl same_tokens_def intro!: sets_quiet)
    then show ?thesis using C by simp
  next
    case C: UpgradeFarm
    then have "sets mint st L st' es 0"
      using run by (auto simp: farm_upgrade_def try_set_farm_position_migration_nonce_def migrated refl same_tokens_def
          intro!: sets_quiet)
    then show ?thesis using C by simp
  qed (use run in \<open>auto simp: with_Inr refl same_tokens_def intro!: sets_quiet\<close>)
qed

section \<open>The common part of the endpoints\<close>

lemma not_migrated:
  assumes "farm_inv st L" "migrate_old_farm_positions st user ps = Inr (m, st0)"
  shows "m = 0" "st0 = st"
  using migrate_old_Inr [OF _ assms(2)] assms(1) by (simp_all add: farm_inv_def books_ok_def)

lemma generated_rewards_frame:
  assumes "farm_rest st' = farm_rest st"
  shows "generated_rewards env st' = generated_rewards env st"
  unfolding generated_rewards_def calculate_per_block_rewards_def farm_restD [OF assms] by (rule refl)

lemma claim_only_generated:
  assumes "claim_only_boosted_payment env st user = Inr (b, st')"
  shows "generated_rewards env' st' = generated_rewards env' st"
proof -
  obtain st1 where calc: "calculate_boosted_rewards env st user = Inr (b, st1)"
    and st': "st' = st1\<lparr>reward_reserve := reward_reserve st1 - b\<rparr>"
    using assms by (auto simp: claim_only_boosted_payment_def and_then_Inr big_sub_Inr split: if_splits)
  have "generated_rewards env' st1 = generated_rewards env' st"
    by (rule generated_rewards_frame, rule calculate_boosted_rewards_rel [OF calc, unfolded boosted_rel_def, THEN conjunct1])
  moreover have "generated_rewards env' st' = generated_rewards env' st1"
    by (simp add: st' generated_rewards_def calculate_per_block_rewards_def)
  ultimately show ?thesis by simp
qed

lemma farm_part_tokens:
  assumes "farm_part st ps = ps" "farm_token st = Some u"
  shows "\<forall>p\<in>set ps. token_identifier p = u"
proof
  fix p assume "p \<in> set ps"
  then have "p \<in> set (farm_part st ps)" using assms(1) by simp
  then show "token_identifier p = u" using assms(2) by (simp add: farm_part_def)
qed

lemma paid_farm_part:
  assumes "farm_part st ps = ps" "farm_token st = Some u"
  shows "paid_in t ps = (if t = u then total_amount ps else 0)"
proof -
  from farm_part_tokens [OF assms] show ?thesis by (induction ps) auto
qed

lemma enter_core:
  fixes env1 :: "'e energy_query_env_scheme"
  assumes mig: "migrate_old_farm_positions st user ps = Inr (m, st0)"
    and boost: "claim_only_boosted_payment env st0 user = Inr (b, st1)"
    and enter: "farm_enter mint env1 st1 user ps = Inr (q, st2, es)"
    and upd: "update_energy_and_progress env2 st2 user = Inr st'"
    and inv: "farm_inv st L" and cov: "covered L (farm_part st ps)" and l: "farm_last_nonce st + 1 \<noteq> 0"
  obtains p add where "ps = p # add" "token_identifier p = farming_token_id st"
    and "\<forall>t. paid_in t add = (if t = token_identifier q then total_amount add else 0)"
    and "farm_moves st L st' (ledger_after st L ps (amount q)) (generated_rewards env1 st) b"
    and "farm_token st = Some (token_identifier q)" "token_identifier q \<noteq> farming_token_id st"
      "token_identifier q \<noteq> reward_token_id st" "reward_token_id st1 = reward_token_id st"
    and "amount q = amount p + total_amount add" "farm_token_supply st' = farm_token_supply st + amount p"
    and "farm_last_nonce st' = farm_last_nonce st + 1"
    and "es = mint_effects mint (reward_token_id st) (generated_rewards env1 st) @
      [NftCreate (token_identifier q) (amount q)] @ esdt_local_burn_multi add"
proof -
  note st0 = not_migrated(2) [OF inv mig]
  note claim = claim_only_moves [OF boost [unfolded st0] inv]
  note inv1 = farm_moves_inv [OF claim(1)]
  note frame1 = farm_frame_of [OF claim(1), unfolded farm_frame_def]
  note same1 = claim(2) [unfolded same_tokens_def] and gen1 = claim_only_generated [OF boost [unfolded st0]]
  have cov1: "covered L (farm_part st1 ps)" and l1: "farm_last_nonce st1 + 1 \<noteq> 0"
    using cov l claim(2) by (simp_all add: same_tokens_part) (simp add: same_tokens_def)
  obtain p add where ps: "ps = p # add" and p: "token_identifier p = farming_token_id st1"
    and part: "farm_part st1 ps = add"
    and moves: "farm_moves st1 L st2 (ledger_after st1 L ps (amount q)) (generated_rewards env1 st1) 0"
    and q: "farm_token st1 = Some (token_identifier q)" "token_nonce q = farm_last_nonce st1 + 1"
    and amount_q: "amount q = amount p + total_amount add"
    and final: "farm_token_supply st2 = farm_token_supply st1 + amount p" "farm_last_nonce st2 = farm_last_nonce st1 + 1"
    and es: "es = mint_effects mint (reward_token_id st1) (generated_rewards env1 st1) @
      [NftCreate (token_identifier q) (amount q)] @ esdt_local_burn_multi add"
    by (rule farm_enter_moves [OF enter inv1 cov1 l1])
  note weekly = weekly_moves [OF update_energy_and_progress_rest [OF upd] farm_moves_inv [OF moves]]
  note same' = weekly(2) [unfolded same_tokens_def]
  have all: "farm_moves st L st' (ledger_after st L ps (amount q)) (generated_rewards env1 st) b"
    using farm_moves_trans [OF claim(1) farm_moves_trans [OF moves weekly(1)]] same_tokens_ledger [OF claim(2)]
    by (simp add: gen1)
  have "farm_part st1 add = add" using part by (auto simp: farm_part_def filter_id_conv split: if_splits)
  then have paid: "\<forall>t. paid_in t add = (if t = token_identifier q then total_amount add else 0)"
    using q(1) by (simp add: paid_farm_part)
  have tok: "farm_token st = Some (token_identifier q)" using q(1) same1 by simp
  note toks = farm_inv_tokens [OF inv tok]
  show thesis
    by (rule that [OF ps _ paid all tok toks])
      (use p amount_q final es frame1 same1 same' in \<open>simp_all add: gen1\<close>)
qed

lemma merge_core:
  assumes mig: "migrate_old_farm_positions st user ps = Inr (m, st0)"
    and boost: "claim_only_boosted_payment env st0 user = Inr (b, st1)"
    and merge: "merge_and_update_farm_tokens st1 user ps = Inr (q, st', es)"
    and inv: "farm_inv st L" and cov: "covered L (farm_part st ps)" and l: "farm_last_nonce st + 1 \<noteq> 0"
  obtains "farm_part st ps = ps" "ps \<noteq> []"
    and "farm_moves st L st' (ledger_after st L ps (amount q)) 0 b"
    and "farm_token st = Some (token_identifier q)" "token_identifier q \<noteq> farming_token_id st"
      "token_identifier q \<noteq> reward_token_id st" "reward_token_id st1 = reward_token_id st"
    and "amount q = total_amount ps" "farm_token_supply st' = farm_token_supply st"
    and "farm_last_nonce st' = farm_last_nonce st + 1"
    and "es = [NftBurn (token_identifier q) (token_nonce (hd ps)) (amount (hd ps))] @ esdt_local_burn_multi (tl ps) @
      [NftCreate (token_identifier q) (amount q)]"
proof -
  note st0 = not_migrated(2) [OF inv mig]
  note claim = claim_only_moves [OF boost [unfolded st0] inv]
  note inv1 = farm_moves_inv [OF claim(1)]
  note frame1 = farm_frame_of [OF claim(1), unfolded farm_frame_def]
  note same1 = claim(2) [unfolded same_tokens_def]
  have cov1: "covered L (farm_part st1 ps)" and l1: "farm_last_nonce st1 + 1 \<noteq> 0"
    using cov l claim(2) by (simp_all add: same_tokens_part) (simp add: same_tokens_def)
  obtain part: "farm_part st1 ps = ps" and ne: "ps \<noteq> []"
    and moves: "farm_moves st1 L st' (ledger_after st1 L ps (amount q)) 0 0"
    and q: "farm_token st1 = Some (token_identifier q)" "token_nonce q = farm_last_nonce st1 + 1"
    and final: "amount q = total_amount ps" "farm_token_supply st' = farm_token_supply st1"
      "farm_last_nonce st' = farm_last_nonce st1 + 1"
    and es: "es = [NftBurn (token_identifier q) (token_nonce (hd ps)) (amount (hd ps))] @
      esdt_local_burn_multi (tl ps) @ [NftCreate (token_identifier q) (amount q)]"
    by (rule farm_merge_moves [OF merge inv1 cov1 l1])
  have all: "farm_moves st L st' (ledger_after st L ps (amount q)) 0 b"
    using farm_moves_trans [OF claim(1) moves] same_tokens_ledger [OF claim(2)] by simp
  have tok: "farm_token st = Some (token_identifier q)" using q(1) same1 by simp
  note toks = farm_inv_tokens [OF inv tok]
  show thesis
    by (rule that [OF _ ne all tok toks])
      (use part final es frame1 same1 same_tokens_part [OF claim(2)] in simp_all)
qed

lemma exit_core:
  assumes mig: "migrate_old_farm_positions st user [p] = Inr (m, st0)"
    and exit: "farm_exit mint env st0 user p = Inr (q, rewards, st1, es)"
    and clear: "clear_user_energy_if_needed env2 (decrease_old_farm_positions st1 m user) user = Inr st'"
    and inv: "farm_inv st L" and cov: "covered L (farm_part st [p])"
  obtains x where "farm_part st [p] = [p]" "amount p = amount q + x"
    and "token_identifier q = farming_token_id st" "token_identifier rewards = reward_token_id st"
    and "farm_moves st L st' (spend L [p]) (generated_rewards env st) (amount rewards)"
    and "farm_token_supply st' + amount p = farm_token_supply st" "farm_last_nonce st' = farm_last_nonce st"
    and "es = mint_effects mint (reward_token_id st) (generated_rewards env st) @
      esdt_local_burn (token_identifier p) (token_nonce p) (amount p) @
      (if 0 < x then burn_farming_tokens st1 x (farming_token_id st) else [])"
proof -
  note st0 = not_migrated(2) [OF inv mig] and m = not_migrated(1) [OF inv mig]
  obtain x where part: "farm_part st [p] = [p]" and x: "amount p = amount q + x"
    and q: "q = new_payment (farming_token_id st) 0 (amount q)"
    and rewards: "rewards = new_payment (reward_token_id st) 0 (amount rewards)"
    and moves: "farm_moves st L st1 (spend L [p]) (generated_rewards env st) (amount rewards)"
    and final: "farm_token_supply st1 + amount p = farm_token_supply st" "farm_last_nonce st1 = farm_last_nonce st"
    and es: "es = mint_effects mint (reward_token_id st) (generated_rewards env st) @
      esdt_local_burn (token_identifier p) (token_nonce p) (amount p) @
      (if 0 < x then burn_farming_tokens st1 x (farming_token_id st) else [])"
    by (rule farm_exit_moves [OF exit [unfolded st0] inv cov])
  have "weekly_rest st' = weekly_rest st1"
    using clear
    by (auto simp: clear_user_energy_if_needed_def decrease_old_farm_positions_def m and_then_Inr
        dest: clear_user_energy_rest split: option.splits)
  note weekly = weekly_moves [OF this farm_moves_inv [OF moves]]
  note same' = weekly(2) [unfolded same_tokens_def]
  have all: "farm_moves st L st' (spend L [p]) (generated_rewards env st) (amount rewards)"
    using farm_moves_trans [OF moves weekly(1)] by simp
  have "token_identifier q = farming_token_id st" "token_identifier rewards = reward_token_id st"
    by (subst q, simp add: new_payment_def, subst rewards, simp add: new_payment_def)
  from that [OF part x this all _ _ es] final same' show thesis by simp
qed

context farm_generation begin

lemma boosted_core:
  assumes c: "farm_cache_new st = Inr c"
    and run: "generate env st c = Inr (st1, c1, es)"
    and boost: "claim_only_boosted_payment env st1 u = Inr (b, st2)" and inv: "farm_inv st L"
    and st'_def: "st' = farm_cache_drop c1 (st2\<lparr>farm_supply_for_week := F\<rparr>)"
  shows "farm_moves st L st' L (gen env st) b" "same_tokens st st'"
    and "reward_token_id st2 = reward_token_id st"
    and "es = mint_effects mint (reward_token_id st) (gen env st)"
    and "farm_storage.more st' = rest env st"
proof -
  let ?A = "farm_attributes st" and ?l = "farm_last_nonce st" and ?dsc = "division_safety_constant st"
  note cache = farm_cache_new_Inr [OF c]
  have books: "books_ok st L" using inv by (simp add: farm_inv_def)
  have pre: "cache_farm_token_supply c = (\<Sum>n\<in>UNIV. L n)" "tokens_ok ?A ?l (stored_reward_per_share st) L"
    using books cache by (simp_all add: books_ok_def)
  obtain r nonce acc where st1: "st1 = farm_storage.more_update (\<lambda>_. rest env st)
      (st\<lparr>last_reward_block_nonce := nonce, accumulated_rewards_for_week := acc\<rparr>)"
    and c1: "c1 = c\<lparr>cache_reward_reserve := cache_reward_reserve c + gen env st, cache_reward_per_share := r\<rparr>"
    and r: "stored_reward_per_share st \<le> r"
    and pot: "owed_base ?A r L + ?dsc * boosted_total st1 \<le> farm_pot st L + ?dsc * gen env st"
    and es: "es = mint_effects mint (cache_reward_token_id c) (gen env st)"
    by (rule generated [OF run pre(1) cache(6,7) pre(2)])
  obtain st2' where calc: "calculate_boosted_rewards env st1 u = Inr (b, st2')"
    and st2: "st2 = st2'\<lparr>reward_reserve := reward_reserve st2' - b\<rparr>"
    using boost by (auto simp: claim_only_boosted_payment_def and_then_Inr big_sub_Inr split: if_splits)
  note rel = calculate_boosted_rewards_rel [OF calc]
  note eq = rel [unfolded boosted_rel_def, THEN conjunct1]
  have "?dsc * boosted_total st2' + ?dsc * b \<le> ?dsc * boosted_total st1"
    using mult_le_mono2 [OF rel [unfolded boosted_rel_def, THEN conjunct2], of ?dsc] by (simp add: distrib_left)
  moreover have "boosted_total st' = boosted_total st2'"
    by (simp add: st'_def farm_cache_drop_def st2 boosted_total_def)
  ultimately have owed: "farm_pot st' L + ?dsc * b \<le> farm_pot st L + ?dsc * gen env st"
    using pot by (simp add: farm_pot_def [of st'], simp add: st'_def farm_cache_drop_def st2 farm_restD [OF eq] st1 c1)
  have frame: "farm_frame st st'"
    by (simp add: farm_frame_def st'_def farm_cache_drop_def st2 farm_restD [OF eq] st1)
  have "tokens_ok ?A ?l r L" using pre(2) r by (rule tokens_ok_mono)
  then have "farm_inv st' L"
    using inv by (simp add: farm_inv_def books_ok_def st'_def farm_cache_drop_def st2 farm_restD [OF eq] st1 c1 cache)
  moreover have "attributes_kept st st'"
    by (rule attributes_kept_same) (simp_all add: st'_def farm_cache_drop_def st2 farm_restD [OF eq] st1)
  ultimately show "farm_moves st L st' L (gen env st) b"
    using frame owed by (simp add: farm_moves_def st'_def farm_cache_drop_def c1 cache)
  show "same_tokens st st'" "reward_token_id st2 = reward_token_id st"
    by (simp_all add: same_tokens_def st'_def farm_cache_drop_def st2 farm_restD [OF eq] st1 c1 cache)
  show "es = mint_effects mint (reward_token_id st) (gen env st)" by (simp add: es cache)
  show "farm_storage.more st' = rest env st"
    by (simp add: st'_def farm_cache_drop_def st2 farm_rest_more [OF eq] st1)
qed

end

end
