(* ===== verification/FarmBooks.thy ===== *)
theory FarmBooks
  imports FarmSettings
begin

text \<open>
  The farm as a step system with books: the ledger of the farm tokens, and what the contract has
  received of every token, counting what it minted, and what it has paid, counting what it burned.
\<close>

section \<open>Calls\<close>

datatype farm_call =
    EnterFarm "esdt_payment list" "address option"
  | ClaimFarmRewards "esdt_payment list" "address option"
  | CompoundFarmRewards "esdt_payment list" "address option"
  | ExitFarm "esdt_payment list" "address option"
  | MergeFarmTokens "esdt_payment list" "address option"
  | ClaimFarmBoosted "address option"
  | FarmSetting farm_setting
  | FarmTokenIssued token_id

type_synonym farm_outcome = "esdt_payment list \<times> farm_storage \<times> effect list"

text \<open>
  The last call is the protocol's: the callback with the identifier of the farm token, which is
  new when it is issued.
\<close>

definition farm_token_issued ::
  "'s farm_storage_scheme \<Rightarrow> token_id \<Rightarrow> error + 's farm_storage_scheme" where
  "farm_token_issued st t =
     require (farm_token st = None \<and> t \<noteq> farming_token_id st \<and> t \<noteq> reward_token_id st)
       (CallFailed ''token not issued'') (Inr (st\<lparr>farm_token := Some t\<rparr>))"

fun farm_exec :: "energy_query_env \<Rightarrow> farm_storage \<Rightarrow> farm_call \<Rightarrow> error + farm_outcome" where
  "farm_exec env st (EnterFarm ps opt) = enter_farm_endpoint env st ps opt"
| "farm_exec env st (ClaimFarmRewards ps opt) = farm_claim_rewards_endpoint env st ps opt"
| "farm_exec env st (CompoundFarmRewards ps opt) = compound_rewards_endpoint env st ps opt"
| "farm_exec env st (ExitFarm ps opt) = exit_farm_endpoint env st ps opt"
| "farm_exec env st (MergeFarmTokens ps opt) = merge_farm_tokens_endpoint env st ps opt"
| "farm_exec env st (ClaimFarmBoosted opt) = farm_claim_boosted_rewards env st opt"
| "farm_exec env st (FarmSetting c) =
     and_then (farm_set default_mint_rewards env st c) (\<lambda>(st, es). Inr ([], st, es))"
| "farm_exec env st (FarmTokenIssued t) = and_then (farm_token_issued st t) (\<lambda>st. Inr ([], st, []))"

fun farm_call_payments :: "farm_call \<Rightarrow> esdt_payment list" where
  "farm_call_payments (EnterFarm ps opt) = ps"
| "farm_call_payments (ClaimFarmRewards ps opt) = ps"
| "farm_call_payments (CompoundFarmRewards ps opt) = ps"
| "farm_call_payments (ExitFarm ps opt) = ps"
| "farm_call_payments (MergeFarmTokens ps opt) = ps"
| "farm_call_payments call = []"

section \<open>Books\<close>

record farm_books =
  farm_book_storage :: farm_storage
  farm_book_ledger :: ledger
  farm_book_received :: "token_id \<Rightarrow> biguint"
  farm_book_paid :: "token_id \<Rightarrow> biguint"

text \<open>
  The protocol keeps the ledger: farm tokens that are paid must exist, and a creation adds the
  next nonce, as long as there is one.
\<close>

definition next_ledger ::
  "'s farm_storage_scheme \<Rightarrow> ledger \<Rightarrow> esdt_payment list \<Rightarrow> 's farm_storage_scheme \<Rightarrow> effect list \<Rightarrow> ledger" where
  "next_ledger st L ps st' es =
     (let L' = spend L (farm_part st ps) in
      if farm_last_nonce st' = farm_last_nonce st then L'
      else case farm_token st of
        Some t \<Rightarrow> L'(farm_last_nonce st' := inflow t es)
      | None \<Rightarrow> L')"

definition farm_step :: "farm_books \<Rightarrow> energy_query_env \<times> farm_call \<Rightarrow> error + farm_books" where
  "farm_step b x =
     (let (env, call) = x; st = farm_book_storage b; ps = farm_call_payments call in
      require (covered (farm_book_ledger b) (farm_part st ps)) (CallFailed ''insufficient funds'')
     (require (farm_last_nonce st + 1 \<noteq> 0) (CallFailed ''nonces exhausted'')
     (and_then (farm_exec env st call) (\<lambda>(qs, st', es).
      Inr \<lparr>farm_book_storage = st', farm_book_ledger = next_ledger st (farm_book_ledger b) ps st' es,
           farm_book_received = (\<lambda>t. farm_book_received b t + paid_in t ps + inflow t es),
           farm_book_paid = (\<lambda>t. farm_book_paid b t + outflow t es)\<rparr>))))"

text \<open>
  What the farm must have of a token, times the division safety constant: the farming tokens of
  all positions, and what it owes in rewards.
\<close>

definition farm_need :: "farm_storage \<Rightarrow> ledger \<Rightarrow> token_id \<Rightarrow> nat" where
  "farm_need st L t =
     (if t = farming_token_id st then division_safety_constant st * farm_token_supply st else 0) +
     (if t = reward_token_id st then farm_pot st L else 0)"

definition farm_books_inv :: "farm_books \<Rightarrow> bool" where
  "farm_books_inv b \<longleftrightarrow>
     (let st = farm_book_storage b; L = farm_book_ledger b; dsc = division_safety_constant st in
      farm_inv st L \<and> farm_pot st L \<le> dsc * reward_reserve st \<and>
      (\<forall>t. farm_need st L t + dsc * farm_book_paid b t \<le> dsc * farm_book_received b t))"

section \<open>Every call keeps the books\<close>

definition farm_call_ok ::
  "farm_storage \<Rightarrow> ledger \<Rightarrow> esdt_payment list \<Rightarrow> farm_storage \<Rightarrow> ledger \<Rightarrow> effect list \<Rightarrow> bool" where
  "farm_call_ok st L ps st' L' es \<longleftrightarrow> (\<exists>g x. farm_moves st L st' L' g x \<and>
     (\<forall>t. (if t = farming_token_id st then farm_token_supply st' else 0) + outflow t es +
            (if t = reward_token_id st then g else 0) \<le>
          (if t = farming_token_id st then farm_token_supply st else 0) + paid_in t ps + inflow t es +
            (if t = reward_token_id st then x else 0)))"

lemma burn_multi_flow [simp]:
  "outflow t (esdt_local_burn_multi ps) = paid_in t ps" "inflow t (esdt_local_burn_multi ps) = 0"
  by (induction ps) (auto simp: esdt_local_burn_multi_def esdt_local_burn_def)

lemma burn_one_flow:
  "outflow t (esdt_local_burn u n a) = (if u = t then a else 0)" "inflow t (esdt_local_burn u n a) = 0"
  by (simp_all add: esdt_local_burn_def)

lemma mint_flow [simp]:
  "outflow t (mint_effects default_mint_rewards u g) = 0"
  "inflow t (mint_effects default_mint_rewards u g) = (if u = t then g else 0)"
  by (simp_all add: mint_effects_def default_mint_rewards_def)

lemma farm_send_payment_flow [simp]:
  "outflow t (send_payment_non_zero d p) = (if token_identifier p = t then amount p else 0)"
  "inflow t (send_payment_non_zero d p) = 0"
  by (simp_all add: send_payment_non_zero_def)

lemma farming_burn_flow:
  "outflow t (burn_farming_tokens st x u) = (if u = t then x else 0)" "inflow t (burn_farming_tokens st x u) = 0"
  by (simp_all add: burn_farming_tokens_def new_payment_def)

lemma burn_positions_flow:
  assumes "farm_part st ps = ps" "farm_token st = Some u" "ps \<noteq> []"
  shows "paid_in t (tl ps) = (if t = u then total_amount ps - amount (hd ps) else 0)"
    and "amount (hd ps) \<le> total_amount ps"
proof -
  obtain p qs where ps: "ps = p # qs" using assms(3) by (cases ps) auto
  then have "token_identifier p = u" using farm_part_tokens [OF assms(1,2)] by simp
  then show "paid_in t (tl ps) = (if t = u then total_amount ps - amount (hd ps) else 0)"
    and "amount (hd ps) \<le> total_amount ps"
    using paid_farm_part [OF assms(1,2), of t] by (auto simp: ps split: if_splits)
qed

lemma next_ledger_created:
  assumes "farm_token st = Some t" "farm_last_nonce st' = farm_last_nonce st + 1" "inflow t es = n"
  shows "next_ledger st L ps st' es = ledger_after st L ps n"
  using assms by (simp add: next_ledger_def ledger_after_def)

lemma farm_call_okI:
  assumes "farm_moves st L st' L' g x"
    and "\<And>t. (if t = farming_token_id st then farm_token_supply st' else 0) + outflow t es +
            (if t = reward_token_id st then g else 0) \<le>
          (if t = farming_token_id st then farm_token_supply st else 0) + paid_in t ps + inflow t es +
            (if t = reward_token_id st then x else 0)"
  shows "farm_call_ok st L ps st' L' es"
  unfolding farm_call_ok_def using assms by blast

subsection \<open>The endpoints\<close>

lemma enter_farm_call_ok:
  assumes run: "enter_farm_endpoint env st ps opt = Inr (qs, st', es)"
    and inv: "farm_inv st L" and cov: "covered L (farm_part st ps)" and l: "farm_last_nonce st + 1 \<noteq> 0"
  shows "farm_call_ok st L ps st' (next_ledger st L ps st' es) es"
proof -
  obtain user m st0 b st1 q st2 es1 where mig: "migrate_old_farm_positions st user ps = Inr (m, st0)"
    and boost: "claim_only_boosted_payment env st0 user = Inr (b, st1)"
    and enter: "farm_enter default_mint_rewards env st1 user ps = Inr (q, st2, es1)"
    and upd: "update_energy_and_progress env st2 user = Inr st'"
    and es: "es = es1 @ send_payment_non_zero (get_caller env) q @
      send_payment_non_zero (get_caller env) (new_payment (reward_token_id st1) 0 b)"
    using run by (auto simp: enter_farm_endpoint_def Let_def and_then_Inr)
  obtain p add where ps: "ps = p # add" "token_identifier p = farming_token_id st"
    and paid: "\<forall>t. paid_in t add = (if t = token_identifier q then total_amount add else 0)"
    and moves: "farm_moves st L st' (ledger_after st L ps (amount q)) (generated_rewards env st) b"
    and q: "farm_token st = Some (token_identifier q)" "token_identifier q \<noteq> farming_token_id st"
      "token_identifier q \<noteq> reward_token_id st" "reward_token_id st1 = reward_token_id st"
    and final: "amount q = amount p + total_amount add" "farm_token_supply st' = farm_token_supply st + amount p"
      "farm_last_nonce st' = farm_last_nonce st + 1"
    and es1: "es1 = mint_effects default_mint_rewards (reward_token_id st) (generated_rewards env st) @
      [NftCreate (token_identifier q) (amount q)] @ esdt_local_burn_multi add"
    by (rule enter_core [OF mig boost enter upd inv cov l])
  have ledger: "next_ledger st L ps st' es = ledger_after st L ps (amount q)"
    by (rule next_ledger_created [OF q(1) final(3)]) (use q(2-4) in \<open>simp add: es es1 new_payment_def\<close>)
  show ?thesis
    unfolding ledger
    by (rule farm_call_okI [OF moves])
      (use q(2-4) in \<open>simp add: es es1 ps paid final new_payment_def\<close>)
qed

lemma claim_call_ok:
  assumes run: "farm_claim_rewards_endpoint env st ps opt = Inr (qs, st', es)"
    and inv: "farm_inv st L" and cov: "covered L (farm_part st ps)" and l: "farm_last_nonce st + 1 \<noteq> 0"
  shows "farm_call_ok st L ps st' (next_ledger st L ps st' es) es"
proof -
  obtain user m st0 q rewards es1 where mig: "migrate_old_farm_positions st user ps = Inr (m, st0)"
    and claim: "farm_claim default_mint_rewards env st0 user ps = Inr (q, rewards, st', es1)"
    and es: "es = es1 @ send_payment_non_zero (get_caller env) q @ send_payment_non_zero (get_caller env) rewards"
    using run by (auto simp: farm_claim_rewards_endpoint_def Let_def and_then_Inr)
  have st0: "st0 = st" using migrate_old_Inr(2) [OF _ mig] inv by (simp add: farm_inv_def books_ok_def)
  obtain part: "farm_part st ps = ps" and ne: "ps \<noteq> []"
    and rewards: "rewards = new_payment (reward_token_id st) 0 (amount rewards)"
    and moves: "farm_moves st L st' (ledger_after st L ps (amount q)) (generated_rewards env st) (amount rewards)"
    and q: "farm_token st = Some (token_identifier q)" "token_nonce q = farm_last_nonce st + 1"
    and final: "amount q = total_amount ps" "farm_token_supply st' = farm_token_supply st"
      "farm_last_nonce st' = farm_last_nonce st + 1"
    and es1: "es1 = mint_effects default_mint_rewards (reward_token_id st) (generated_rewards env st) @
      [NftBurn (token_identifier q) (token_nonce (hd ps)) (amount (hd ps))] @ esdt_local_burn_multi (tl ps) @
      [NftCreate (token_identifier q) (amount q)]"
    by (rule farm_claim_moves [OF claim [unfolded st0] inv cov l])
  note toks = farm_inv_tokens [OF inv q(1)]
  have rew: "token_identifier rewards = reward_token_id st" by (subst rewards) (simp add: new_payment_def)
  have ledger: "next_ledger st L ps st' es = ledger_after st L ps (amount q)"
    by (rule next_ledger_created [of _ "token_identifier q"])
      (use q(1) final toks in \<open>simp_all add: es es1\<close>)
  show ?thesis
    unfolding ledger
    by (rule farm_call_okI [OF moves])
      (use toks burn_positions_flow(2) [OF part q(1) ne] in
        \<open>simp add: es es1 paid_farm_part [OF part q(1)] burn_positions_flow(1) [OF part q(1) ne] final rew\<close>)
qed

lemma compound_call_ok:
  assumes run: "compound_rewards_endpoint env st ps opt = Inr (qs, st', es)"
    and inv: "farm_inv st L" and cov: "covered L (farm_part st ps)" and l: "farm_last_nonce st + 1 \<noteq> 0"
  shows "farm_call_ok st L ps st' (next_ledger st L ps st' es) es"
proof -
  obtain user m st0 q st1 es1 where mig: "migrate_old_farm_positions st user ps = Inr (m, st0)"
    and claim: "farm_compound default_mint_rewards env st0 user ps = Inr (q, st1, es1)"
    and upd: "update_energy_and_progress env st1 user = Inr st'"
    and es: "es = es1 @ send_payment_non_zero (get_caller env) q"
    using run by (auto simp: compound_rewards_endpoint_def Let_def and_then_Inr)
  have st0: "st0 = st" using migrate_old_Inr(2) [OF _ mig] inv by (simp add: farm_inv_def books_ok_def)
  obtain rew where part: "farm_part st ps = ps" and ne: "ps \<noteq> []" and same: "farming_token_id st = reward_token_id st"
    and moves: "farm_moves st L st1 (ledger_after st L ps (amount q)) (generated_rewards env st) rew"
    and q: "farm_token st = Some (token_identifier q)" "token_nonce q = farm_last_nonce st + 1"
    and final: "amount q = total_amount ps + rew" "farm_token_supply st1 = farm_token_supply st + rew"
      "farm_last_nonce st1 = farm_last_nonce st + 1"
    and es1: "es1 = mint_effects default_mint_rewards (reward_token_id st) (generated_rewards env st) @
      [NftCreate (token_identifier q) (amount q)] @
      [NftBurn (token_identifier q) (token_nonce (hd ps)) (amount (hd ps))] @ esdt_local_burn_multi (tl ps)"
    by (rule farm_compound_moves [OF claim [unfolded st0] inv cov l])
  note weekly = weekly_moves [OF update_energy_and_progress_rest [OF upd] farm_moves_inv [OF moves]]
  note same_st' = weekly(2) [unfolded same_tokens_def]
  have all: "farm_moves st L st' (ledger_after st L ps (amount q)) (generated_rewards env st) rew"
    using farm_moves_trans [OF moves weekly(1)] by simp
  note toks = farm_inv_tokens [OF inv q(1)]
  have ledger: "next_ledger st L ps st' es = ledger_after st L ps (amount q)"
    by (rule next_ledger_created [of _ "token_identifier q"])
      (use q(1) final toks same_st' in \<open>simp_all add: es es1\<close>)
  show ?thesis
    unfolding ledger
    by (rule farm_call_okI [OF all])
      (use toks burn_positions_flow(2) [OF part q(1) ne] in
        \<open>simp add: es es1 paid_farm_part [OF part q(1)] burn_positions_flow(1) [OF part q(1) ne] final same same_st'\<close>)
qed

lemma exit_call_ok:
  assumes run: "exit_farm_endpoint env st ps opt = Inr (qs, st', es)"
    and inv: "farm_inv st L" and cov: "covered L (farm_part st ps)"
  shows "farm_call_ok st L ps st' (next_ledger st L ps st' es) es"
proof -
  obtain user p m st0 q rewards st1 es1 where ps: "ps = [p]"
    and mig: "migrate_old_farm_positions st user [p] = Inr (m, st0)"
    and exit: "farm_exit default_mint_rewards env st0 user p = Inr (q, rewards, st1, es1)"
    and clear: "clear_user_energy_if_needed env (decrease_old_farm_positions st1 m user) user = Inr st'"
    and es: "es = es1 @ send_payment_non_zero (get_caller env) q @ send_payment_non_zero (get_caller env) rewards"
    using run by (auto simp: exit_farm_endpoint_def Let_def and_then_Inr single_esdt_Inr)
  obtain x where part: "farm_part st [p] = [p]" and x: "amount p = amount q + x"
    and ids: "token_identifier q = farming_token_id st" "token_identifier rewards = reward_token_id st"
    and moves: "farm_moves st L st' (spend L [p]) (generated_rewards env st) (amount rewards)"
    and final: "farm_token_supply st' + amount p = farm_token_supply st" "farm_last_nonce st' = farm_last_nonce st"
    and es1: "es1 = mint_effects default_mint_rewards (reward_token_id st) (generated_rewards env st) @
      esdt_local_burn (token_identifier p) (token_nonce p) (amount p) @
      (if 0 < x then burn_farming_tokens st1 x (farming_token_id st) else [])"
    by (rule exit_core [OF mig exit clear inv cov [unfolded ps]])
  have ledger: "next_ledger st L ps st' es = spend L [p]"
    using final(2) by (simp add: next_ledger_def ps part)
  show ?thesis
    unfolding ledger unfolding ps
    by (rule farm_call_okI [OF moves])
      (use final(1) x in \<open>simp add: es es1 burn_one_flow farming_burn_flow ids\<close>)
qed

lemma merge_call_ok:
  assumes run: "merge_farm_tokens_endpoint env st ps opt = Inr (qs, st', es)"
    and inv: "farm_inv st L" and cov: "covered L (farm_part st ps)" and l: "farm_last_nonce st + 1 \<noteq> 0"
  shows "farm_call_ok st L ps st' (next_ledger st L ps st' es) es"
proof -
  obtain user m st0 b st1 q es1 where mig: "migrate_old_farm_positions st user ps = Inr (m, st0)"
    and boost: "claim_only_boosted_payment env st0 user = Inr (b, st1)"
    and merge: "merge_and_update_farm_tokens st1 user ps = Inr (q, st', es1)"
    and es: "es = es1 @ send_payment_non_zero (get_caller env) q @
      send_payment_non_zero (get_caller env) (new_payment (reward_token_id st1) 0 b)"
    using run by (auto simp: merge_farm_tokens_endpoint_def Let_def and_then_Inr)
  obtain part: "farm_part st ps = ps" and ne: "ps \<noteq> []"
    and moves: "farm_moves st L st' (ledger_after st L ps (amount q)) 0 b"
    and q: "farm_token st = Some (token_identifier q)" "token_identifier q \<noteq> farming_token_id st"
      "token_identifier q \<noteq> reward_token_id st" "reward_token_id st1 = reward_token_id st"
    and final: "amount q = total_amount ps" "farm_token_supply st' = farm_token_supply st"
      "farm_last_nonce st' = farm_last_nonce st + 1"
    and es1: "es1 = [NftBurn (token_identifier q) (token_nonce (hd ps)) (amount (hd ps))] @
      esdt_local_burn_multi (tl ps) @ [NftCreate (token_identifier q) (amount q)]"
    by (rule merge_core [OF mig boost merge inv cov l])
  have ledger: "next_ledger st L ps st' es = ledger_after st L ps (amount q)"
    by (rule next_ledger_created [OF q(1) final(3)]) (use q(2-4) in \<open>simp add: es es1 new_payment_def\<close>)
  show ?thesis
    unfolding ledger
    by (rule farm_call_okI [OF moves])
      (use q(2-4) burn_positions_flow(2) [OF part q(1) ne] in
        \<open>simp add: es es1 paid_farm_part [OF part q(1)] burn_positions_flow(1) [OF part q(1) ne]
          final new_payment_def\<close>)
qed

lemma claim_boosted_call_ok:
  assumes run: "farm_claim_boosted_rewards env st opt = Inr (qs, st', es)" and inv: "farm_inv st L"
  shows "farm_call_ok st L [] st' (next_ledger st L [] st' es) es"
proof -
  define u where "u = (case opt of Some u \<Rightarrow> u | None \<Rightarrow> get_caller env)"
  note boosted_Inr = farm_claim_boosted_rewards_def Let_def u_def [symmetric] and_then_Inr require_Inr
    validate_contract_state_Inr set_supply_Inr
  obtain c where c: "farm_cache_new st = Inr c"
    using run by (auto simp: boosted_Inr)
  obtain st1 c1 es1 where gen: "farm_generate_aggregated_rewards default_mint_rewards env st c = Inr (st1, c1, es1)"
    using run c by (auto simp: boosted_Inr)
  obtain b st2 where boost: "claim_only_boosted_payment env st1 u = Inr (b, st2)"
    using run c gen by (auto simp: boosted_Inr)
  obtain w where es: "es = es1 @ send_payment_non_zero u (new_payment (reward_token_id st2) 0 b)"
    and st': "st' = farm_cache_drop c1
      (st2\<lparr>farm_supply_for_week := (farm_supply_for_week st2)(w := cache_farm_token_supply c1)\<rparr>)"
    using run c gen boost by (auto simp: boosted_Inr)
  note core = farm_gen.boosted_core [OF c gen boost inv st']
  have ledger: "next_ledger st L [] st' es = L"
    using core(2) by (simp add: next_ledger_def farm_part_def same_tokens_def)
  show ?thesis
    unfolding ledger
    by (rule farm_call_okI [OF core(1)])
      (use core(2) in \<open>simp add: es core(3,4) new_payment_def same_tokens_def\<close>)
qed

lemma setting_call_ok:
  assumes run: "farm_set default_mint_rewards env st c = Inr (st', es)" and inv: "farm_inv st L"
  shows "farm_call_ok st L [] st' (next_ledger st L [] st' es) es"
proof -
  obtain g where "sets default_mint_rewards st L st' es g" by (rule that, rule farm_set_sets [OF run inv])
  then have moves: "farm_moves st L st' L g 0" and same: "same_tokens st st'"
    and es: "es = mint_effects default_mint_rewards (reward_token_id st) g"
    by (simp_all add: sets_def)
  have ledger: "next_ledger st L [] st' es = L"
    using same by (simp add: next_ledger_def farm_part_def same_tokens_def)
  show ?thesis
    unfolding ledger by (rule farm_call_okI [OF moves]) (use same in \<open>simp add: es same_tokens_def\<close>)
qed

lemma farm_exec_ok:
  assumes run: "farm_exec env st call = Inr (qs, st', es)" and inv: "farm_inv st L"
    and cov: "covered L (farm_part st (farm_call_payments call))" and l: "farm_last_nonce st + 1 \<noteq> 0"
    and "\<nexists>t. call = FarmTokenIssued t"
  shows "farm_call_ok st L (farm_call_payments call) st' (next_ledger st L (farm_call_payments call) st' es) es"
proof (cases call)
  case EnterFarm then show ?thesis using enter_farm_call_ok [OF _ inv _ l] run cov by simp
next
  case ClaimFarmRewards then show ?thesis using claim_call_ok [OF _ inv _ l] run cov by simp
next
  case CompoundFarmRewards then show ?thesis using compound_call_ok [OF _ inv _ l] run cov by simp
next
  case ExitFarm then show ?thesis using exit_call_ok [OF _ inv] run cov by simp
next
  case MergeFarmTokens then show ?thesis using merge_call_ok [OF _ inv _ l] run cov by simp
next
  case ClaimFarmBoosted then show ?thesis using claim_boosted_call_ok [OF _ inv] run by simp
next
  case FarmSetting then show ?thesis using setting_call_ok [OF _ inv] run by (auto simp: and_then_Inr)
next
  case FarmTokenIssued then show ?thesis using assms(5) by simp
qed

section \<open>The step system\<close>

lemma farm_books_invI:
  assumes moves: "farm_call_ok st L ps st' L' es" and inv: "farm_books_inv b"
    and b: "farm_book_storage b = st" "farm_book_ledger b = L"
    and b': "farm_book_storage b' = st'" "farm_book_ledger b' = L'"
      "farm_book_received b' = (\<lambda>t. farm_book_received b t + paid_in t ps + inflow t es)"
      "farm_book_paid b' = (\<lambda>t. farm_book_paid b t + outflow t es)"
  shows "farm_books_inv b'"
proof -
  let ?dsc = "division_safety_constant st" and ?f = "farming_token_id st" and ?r = "reward_token_id st"
  obtain g x where m: "farm_moves st L st' L' g x"
    and flow: "\<And>t. (if t = ?f then farm_token_supply st' else 0) + outflow t es + (if t = ?r then g else 0) \<le>
          (if t = ?f then farm_token_supply st else 0) + paid_in t ps + inflow t es + (if t = ?r then x else 0)"
    using moves unfolding farm_call_ok_def by blast
  have frame: "farming_token_id st' = ?f" "reward_token_id st' = ?r" "division_safety_constant st' = ?dsc"
    and pot: "farm_pot st' L' + ?dsc * x \<le> farm_pot st L + ?dsc * g"
    and reserve: "reward_reserve st + g \<le> reward_reserve st' + x" and inv': "farm_inv st' L'"
    using m by (simp_all add: farm_moves_def farm_frame_def)
  have old: "farm_need st L t + ?dsc * farm_book_paid b t \<le> ?dsc * farm_book_received b t"
    and old_reserve: "farm_pot st L \<le> ?dsc * reward_reserve st" for t
    using inv by (simp_all add: farm_books_inv_def b Let_def)
  have "farm_pot st' L' \<le> ?dsc * reward_reserve st'"
    using mult_le_mono2 [OF reserve, of ?dsc] pot old_reserve by (simp add: distrib_left)
  moreover have "farm_need st' L' t + ?dsc * farm_book_paid b' t \<le> ?dsc * farm_book_received b' t" for t
  proof -
    have "farm_need st' L' t + ?dsc * outflow t es \<le> farm_need st L t + ?dsc * (paid_in t ps + inflow t es)"
      using mult_le_mono2 [OF flow [of t], of ?dsc] pot
      by (simp add: farm_need_def frame distrib_left if_distrib [of "\<lambda>n. ?dsc * n"] split: if_splits)
    then show ?thesis using old [of t] by (simp add: b' distrib_left)
  qed
  ultimately show ?thesis using inv' by (simp add: farm_books_inv_def b' frame)
qed

lemma farm_step_inv:
  assumes "farm_books_inv b" "farm_step b x = Inr b'"
  shows "farm_books_inv b'"
proof -
  obtain env call where x: "x = (env, call)" by (cases x)
  let ?st = "farm_book_storage b" and ?L = "farm_book_ledger b" and ?ps = "farm_call_payments call"
  obtain qs st' es where cov: "covered ?L (farm_part ?st ?ps)" and l: "farm_last_nonce ?st + 1 \<noteq> 0"
    and run: "farm_exec env ?st call = Inr (qs, st', es)"
    and b': "b' = \<lparr>farm_book_storage = st', farm_book_ledger = next_ledger ?st ?L ?ps st' es,
           farm_book_received = (\<lambda>t. farm_book_received b t + paid_in t ?ps + inflow t es),
           farm_book_paid = (\<lambda>t. farm_book_paid b t + outflow t es)\<rparr>"
    using assms(2) by (auto simp: farm_step_def x Let_def res_simps)
  have inv: "farm_inv ?st ?L" using assms(1) by (simp add: farm_books_inv_def Let_def)
  show ?thesis
  proof (cases "\<exists>t. call = FarmTokenIssued t")
    case True
    then obtain t where st': "st' = ?st\<lparr>farm_token := Some t\<rparr>" and rest: "es = []" "?ps = []"
      and t: "t \<noteq> farming_token_id ?st" "t \<noteq> reward_token_id ?st"
      using run by (auto simp: farm_token_issued_def and_then_Inr require_Inr)
    have pot: "farm_pot st' ?L = farm_pot ?st ?L" by (simp add: farm_pot_def st' boosted_total_def)
    have need: "farm_need st' ?L u = farm_need ?st ?L u" for u by (simp add: farm_need_def pot, simp add: st')
    have "farm_inv st' ?L" using inv t by (simp add: farm_inv_def books_ok_def st')
    moreover have "next_ledger ?st ?L ?ps st' es = ?L"
      by (simp add: next_ledger_def rest farm_part_def st')
    ultimately show ?thesis
      using assms(1) by (simp add: farm_books_inv_def b' pot need rest Let_def) (simp add: st')
  next
    case False
    show ?thesis
      by (rule farm_books_invI [OF farm_exec_ok [OF run inv cov l False] assms(1)]) (simp_all add: b')
  qed
qed

interpretation farm_run: step_system farm_step farm_books_inv "\<lambda>x. True"
  by unfold_locales (rule farm_step_inv)

section \<open>Deployment\<close>

definition empty_farm_storage :: farm_storage where
  "empty_farm_storage = \<lparr>energy_factory_address = None, first_week_start_epoch = 0,
     current_claim_progress = Map.empty, last_global_update_week = 0, total_rewards_for_week = (\<lambda>w. []),
     total_energy_for_week = (\<lambda>w. 0), total_locked_tokens_for_week = (\<lambda>w. 0), first_bucket_id = 0,
     locked_tokens_in_bucket = Map.empty, farm_state = Inactive, farm_permissions = (\<lambda>a. 0),
     farm_sc_whitelist = {}, farming_token_id = '''', reward_token_id = '''', per_block_reward_amount = 0,
     produce_rewards_enabled = False, last_reward_block_nonce = 0, division_safety_constant = 0,
     user_total_farm_position = (\<lambda>u. 0), allow_external_claim = (\<lambda>u. False),
     farm_position_migration_nonce = 0, stored_reward_per_share = 0, reward_reserve = 0, farm_token = None,
     farm_token_supply = 0, farm_attributes = Map.empty, farm_last_nonce = 0,
     boosted_yields_rewards_percentage = 0, accumulated_rewards_for_week = (\<lambda>w. 0),
     farm_supply_for_week = (\<lambda>w. 0), remaining_boosted_rewards_to_distribute = (\<lambda>w. 0),
     last_undistributed_collect_week = 0, undistributed_boosted_rewards = 0, boosted_config = None,
     penalty_percent = 0, minimum_farming_epochs = 0, burn_gas_limit = 0, pair_contract_address = 0\<rparr>"

definition new_farm_books :: "farm_storage \<Rightarrow> farm_books" where
  "new_farm_books st = \<lparr>farm_book_storage = st, farm_book_ledger = (\<lambda>n. 0),
     farm_book_received = (\<lambda>t. 0), farm_book_paid = (\<lambda>t. 0)\<rparr>"

lemma new_farm_books_inv:
  assumes "farm_init env empty_farm_storage reward_id farming_id dsc pair owner admins = Inr st"
  shows "farm_books_inv (new_farm_books st)"
proof -
  obtain x perms st0 where "dsc \<noteq> 0"
    and "st = empty_farm_storage\<lparr>division_safety_constant := dsc, reward_token_id := reward_id,
      farming_token_id := farming_id, farm_permissions := perms, penalty_percent := DEFAULT_PENALTY_PERCENT,
      minimum_farming_epochs := DEFAULT_MINUMUM_FARMING_EPOCHS, burn_gas_limit := DEFAULT_BURN_GAS_LIMIT,
      pair_contract_address := pair, first_week_start_epoch := get_block_epoch env,
      farm_position_migration_nonce := 1\<rparr>"
    using assms
    by (auto simp: farm_init_def base_farm_init_def try_set_farm_position_migration_nonce_def
        DEFAULT_FARM_POSITION_MIGRATION_NONCE_def Let_def res_simps empty_farm_storage_def)
  then show ?thesis
    by (simp add: farm_books_inv_def new_farm_books_def farm_inv_def books_ok_def tokens_ok_def farm_need_def
        farm_pot_def owed_base_def boosted_total_def held_by_def empty_farm_storage_def)
qed

end
