(* ===== verification/FarmProperties.thy ===== *)
theory FarmProperties
  imports FarmBooks
begin

text \<open>The properties of the farm, with a run from its deployment as the input of their witnesses.\<close>

section \<open>A run\<close>

definition ex_farm_env :: "address \<Rightarrow> u64 \<Rightarrow> u64 \<Rightarrow> energy_query_env" where
  "ex_farm_env caller c n = \<lparr>get_caller = caller, get_sc_address = 4, get_owner_address = 2,
     get_block_epoch = c, get_block_round = 0, get_block_nonce = n, get_block_timestamp = 0,
     is_smart_contract = (\<lambda>a. a < 5), is_valid_esdt_identifier = (\<lambda>t. True),
     read_user_energy = (\<lambda>a u. if u = 7 then Some (energy_new 6000 10 10)
       else if u = 8 then Some (energy_new 2000 10 5) else None),
     read_base_token_id = (\<lambda>a. ''MEX''), read_locked_token_id = (\<lambda>a. ''XMEX'')\<rparr>"

definition ex_farm :: farm_storage where
  "ex_farm = empty_farm_storage\<lparr>division_safety_constant := 1000, reward_token_id := ''MEX'',
     farming_token_id := ''LPT'', farm_permissions := (\<lambda>a. 0)(2 := 7),
     penalty_percent := 100, minimum_farming_epochs := 3, burn_gas_limit := 50000000,
     first_week_start_epoch := 10, farm_position_migration_nonce := 1\<rparr>"

definition ex_factors :: boosted_yields_factors where
  "ex_factors = \<lparr>max_rewards_factor = 10, user_rewards_energy_const = 3, user_rewards_farm_const = 2,
     min_energy_amount = 1, min_farm_amount = 1\<rparr>"

definition ex_farm_calls :: "(energy_query_env \<times> farm_call) list" where
  "ex_farm_calls =
    [(ex_farm_env 2 10 11, FarmTokenIssued ''FARM''), (ex_farm_env 2 10 11, FarmSetting (FarmEnergyFactory 1)),
     (ex_farm_env 2 10 11, FarmSetting ResumeFarm), (ex_farm_env 2 10 11, FarmSetting (SetBoostedFactors ex_factors)),
     (ex_farm_env 2 10 11, FarmSetting (SetPerBlockRewards 1000)), (ex_farm_env 2 10 11, FarmSetting (SetBoostedPercentage 2500)),
     (ex_farm_env 2 10 11, FarmSetting StartProduceRewards),
     (ex_farm_env 7 10 12, EnterFarm [new_payment ''LPT'' 0 100] None),
     (ex_farm_env 8 10 14, EnterFarm [new_payment ''LPT'' 0 300] None),
     (ex_farm_env 7 18 22, ClaimFarmRewards [new_payment ''FARM'' 1 100] None),
     (ex_farm_env 8 18 24, ExitFarm [new_payment ''FARM'' 2 120] None)]"

lemma ex_farm_init:
  "farm_init (ex_farm_env 2 10 11) empty_farm_storage ''MEX'' ''LPT'' 1000 0 0 [] = Inr ex_farm"
  by (simp add: farm_init_def base_farm_init_def try_set_farm_position_migration_nonce_def Let_def
      ex_farm_def ex_farm_env_def empty_farm_storage_def DEFAULT_PENALTY_PERCENT_def DEFAULT_MINUMUM_FARMING_EPOCHS_def
      DEFAULT_BURN_GAS_LIMIT_def DEFAULT_FARM_POSITION_MIGRATION_NONCE_def add_permissions_def set_permissions_def OWNER_def ADMIN_def PAUSE_def fun_eq_iff)

lemma factors_len: "BOOSTED_YIELDS_FACTORS_ARRAY_LEN = 5" "replicate 5 x = [x, x, x, x, x]"
proof -
  show "BOOSTED_YIELDS_FACTORS_ARRAY_LEN = 5"
    by (simp add: BOOSTED_YIELDS_FACTORS_ARRAY_LEN_def USER_MAX_CLAIM_WEEKS_def)
  show "replicate 5 x = [x, x, x, x, x]" by (simp add: eval_nat_numeral)
qed

lemmas farm_eval =
  factors_len OWNER_def ADMIN_def PAUSE_def
  ex_farm_def ex_farm_env_def ex_factors_def empty_farm_storage_def new_farm_books_def farm_step_def Let_def
  farm_quiet_def farm_token_issued_def with_state_def resume_def farm_part_def covered_def spend_def next_ledger_def
  set_energy_factory_address_def set_boosted_yields_factors_def set_per_block_rewards_endpoint_def
  set_per_block_rewards_def set_boosted_yields_rewards_percentage_def start_produce_rewards_endpoint_def
  start_produce_rewards_def require_caller_defs require_caller_any_of_def intersects_def
  get_current_week_def get_week_for_epoch_def EPOCHS_IN_WEEK_def boosted_factors_new_def
  farm_cache_new_def get_farm_token_id_def farm_cache_drop_def farm_generate_aggregated_rewards_def
  mint_per_block_rewards_def calculate_per_block_rewards_def default_mint_rewards_def take_reward_slice_def
  MAX_PERCENT_def
  enter_farm_endpoint_def get_orig_caller_from_opt_def migrate_old_farm_positions_def get_non_empty_payments_def
  is_old_farm_position_def claim_only_boosted_payment_def calculate_boosted_rewards_def
  claim_boosted_yields_rewards_def try_get_boosted_yields_config_def boosted_factors_update_def
  farm_enter_def enter_farm_base_def validate_contract_state_def enter_farm_context_new_def
  increase_user_farm_position_def create_enter_farm_initial_attributes_def merge_and_create_token_def
  farm_nft_create_def farm_get_total_supply_def set_farm_supply_for_current_week_def update_energy_and_progress_def
  esdt_local_burn_multi_def send_payment_non_zero_def send_tokens_non_zero_def new_payment_def
  paid_in_def inflow_def outflow_def nonce_amount_def
  farm_claim_rewards_endpoint_def farm_claim_def claim_rewards_base_def claim_rewards_base_no_farm_token_mint_def
  claim_rewards_context_new_def get_farm_token_attributes_def farm_into_part_def farm_calculate_rewards_def
  default_calculate_rewards_def create_claim_rewards_initial_attributes_def
  boosted_user_rewards_for_week_def get_factors_for_week_def boosted_collect_rewards_for_week_def
  update_boosted_yields_config_def get_updated_boosted_yields_config_def boosted_user_reward_def managed_vec_get_def
  require_same_farm_token_def exit_farm_endpoint_def farm_exit_def exit_farm_base_def exit_farm_context_new_def
  decrease_user_farm_position_def reduce_total_position_def esdt_local_burn_def apply_penalty_def get_exit_penalty_def
  burn_farming_tokens_def decrease_old_farm_positions_def clear_user_energy_if_needed_def get_latest_factors_def
  clear_user_energy_def single_esdt_def rule_of_three_def

lemmas farm_weekly_eval =
  claim_multi_def get_energy_entry_def update_user_energy_for_current_week_def
  update_global_amounts_for_current_week_def perform_weekly_update_def
  update_and_get_total_tokens_amounts_after_user_energy_update_def
  update_and_get_total_energy_amounts_after_user_energy_update_def
  reallocate_bucket_after_energy_update_def get_bucket_id_for_energy_def init_and_update_bucket_def
  take_from_bucket_def put_into_bucket_def get_surplus_for_energy_def default_bucket_def
  shift_buckets_and_update_tokens_energy_def safe_sub_def store_claim_progress_def
  energy_default_def energy_new_def new_zero_energy_def deplete_def energy_subtract_def get_energy_amount_def
  claim_single_def advance_week_def USER_MAX_CLAIM_WEEKS_def
  collect_and_get_rewards_for_week_def big_sub_def big_div_def

definition ex_farm_view ::
  "farm_books \<Rightarrow> biguint \<times> biguint \<times> biguint \<times> biguint \<times> biguint \<times> biguint" where
  "ex_farm_view b = (let st = farm_book_storage b in
     (farm_book_paid b ''MEX'', farm_book_received b ''MEX'', farm_book_paid b ''LPT'',
      farm_book_received b ''LPT'', user_total_farm_position st 7, user_total_farm_position st 8))"

abbreviation ex_farm_books :: farm_books where
  "ex_farm_books \<equiv> run_txs farm_step (new_farm_books ex_farm) ex_farm_calls"

lemma ex_farm_run: "ex_farm_view ex_farm_books = (5999, 13000, 120, 400, 100, 180)"
  by (simp add: farm_eval farm_weekly_eval ex_farm_calls_def ex_farm_view_def
      cong: and_then_weak_cong require_weak_cong let_weak_cong)

lemma ex_farm_run_sel:
  "farm_book_paid ex_farm_books ''MEX'' = 5999" "farm_book_received ex_farm_books ''MEX'' = 13000"
  "farm_book_paid ex_farm_books ''LPT'' = 120" "farm_book_received ex_farm_books ''LPT'' = 400"
  "user_total_farm_position (farm_book_storage ex_farm_books) 7 = 100"
  "user_total_farm_position (farm_book_storage ex_farm_books) 8 = 180"
  using ex_farm_run unfolding ex_farm_view_def Let_def by simp_all

section \<open>The books\<close>

text \<open>C21: The farm is solvent. Whatever calls are made after its deployment, with whatever payments
  exist and whatever energies the factory reports, the contract has received of every token at
  least what it has paid out together with what it must still hold: the farming tokens of all
  positions, the rewards every position in existence is owed at the current reward per share, and
  the boosted rewards set aside. Amounts are times the division safety constant, minting counts as
  receiving and burning as paying.
\<close>

theorem farm_stays_solvent:
  fixes xs :: "(energy_query_env \<times> farm_call) list"
  assumes "farm_init env empty_farm_storage reward_id farming_id dsc pair owner admins = Inr st"
  defines "b \<equiv> run_txs farm_step (new_farm_books st) xs"
  shows "farm_need (farm_book_storage b) (farm_book_ledger b) t +
      division_safety_constant (farm_book_storage b) * farm_book_paid b t \<le>
    division_safety_constant (farm_book_storage b) * farm_book_received b t"
  using farm_run.run_inv [OF new_farm_books_inv [OF assms(1)], of xs]
  by (simp add: farm_books_inv_def b_def Let_def list_all_iff)

lemma farm_stays_solvent_witness:
  "farm_need (farm_book_storage ex_farm_books) (farm_book_ledger ex_farm_books) ''MEX'' +
     division_safety_constant (farm_book_storage ex_farm_books) * 5999 \<le>
   division_safety_constant (farm_book_storage ex_farm_books) * 13000"
  using farm_stays_solvent [OF ex_farm_init, of ex_farm_calls "''MEX''"] by (simp only: ex_farm_run_sel)

text \<open>C22: The totals of the users are exact. Whatever calls are made after the deployment, positions
  sold on and merged by others included, the total the farm keeps for every user, by which boosted
  rewards are shared, is the sum of the farm tokens in existence whose attributes name that user as
  the owner.
\<close>

theorem user_totals_are_their_positions:
  fixes xs :: "(energy_query_env \<times> farm_call) list"
  assumes "farm_init env empty_farm_storage reward_id farming_id dsc pair owner admins = Inr st"
  defines "b \<equiv> run_txs farm_step (new_farm_books st) xs"
  shows "user_total_farm_position (farm_book_storage b) u =
    (\<Sum>n\<in>UNIV. if owner_in (farm_attributes (farm_book_storage b)) n = u then farm_book_ledger b n else 0)"
  using farm_run.run_inv [OF new_farm_books_inv [OF assms(1)], of xs]
  by (simp add: farm_books_inv_def farm_inv_def held_by_def b_def Let_def list_all_iff
      if_distrib [of "\<lambda>n. _ * n"] cong: if_cong)

lemma user_totals_are_their_positions_witness:
  "(\<Sum>n\<in>UNIV. if owner_in (farm_attributes (farm_book_storage ex_farm_books)) n = 8
     then farm_book_ledger ex_farm_books n else 0) = 180"
  using user_totals_are_their_positions [OF ex_farm_init, of ex_farm_calls 8] by (simp only: ex_farm_run_sel)

text \<open>C23: Farm tokens are well formed. Whatever calls are made after the deployment, every nonce of
  which tokens exist has attributes, under a nonce the farm has created, with at least the amount
  in existence and a reward per share not above the farm's; and the supply the farm keeps is the
  sum over all nonces.
\<close>

theorem farm_tokens_are_well_formed:
  fixes xs :: "(energy_query_env \<times> farm_call) list"
  assumes "farm_init env empty_farm_storage reward_id farming_id dsc pair owner admins = Inr st"
  defines "b \<equiv> run_txs farm_step (new_farm_books st) xs"
  shows "(\<forall>n. farm_book_ledger b n = 0 \<or>
      (\<exists>a. farm_attributes (farm_book_storage b) n = Some a \<and> n \<le> farm_last_nonce (farm_book_storage b) \<and>
         farm_book_ledger b n \<le> current_farm_amount a \<and>
         reward_per_share a \<le> stored_reward_per_share (farm_book_storage b))) \<and>
    (\<Sum>n\<in>UNIV. farm_book_ledger b n) = farm_token_supply (farm_book_storage b)"
proof -
  let ?st = "farm_book_storage b" and ?L = "farm_book_ledger b"
  have inv: "books_ok ?st ?L"
    using farm_run.run_inv [OF new_farm_books_inv [OF assms(1)], of xs]
    by (simp add: farm_books_inv_def farm_inv_def b_def Let_def list_all_iff)
  then have ok: "tokens_ok (farm_attributes ?st) (farm_last_nonce ?st) (stored_reward_per_share ?st) ?L"
    and sums: "(\<Sum>n\<in>UNIV. ?L n) = farm_token_supply ?st"
    by (simp_all add: books_ok_def)
  have "?L n = 0 \<or> (\<exists>a. farm_attributes ?st n = Some a \<and> n \<le> farm_last_nonce ?st \<and>
      ?L n \<le> current_farm_amount a \<and> reward_per_share a \<le> stored_reward_per_share ?st)" for n
    using ok by (cases "farm_attributes ?st n") (auto simp: tokens_ok_def)
  with sums show ?thesis by simp
qed

lemma farm_tokens_are_well_formed_witness:
  "(\<Sum>n\<in>UNIV. farm_book_ledger ex_farm_books n) = farm_token_supply (farm_book_storage ex_farm_books)"
  using farm_tokens_are_well_formed [OF ex_farm_init, of ex_farm_calls] by simp

section \<open>Leaving and the view\<close>

text \<open>Generation, calculation and the weekly claims do not look at who calls.\<close>

lemma caller_irrelevant [simp]:
  fixes env :: "'e energy_query_env_scheme"
  shows "get_current_week (env\<lparr>get_caller := u\<rparr>) st = get_current_week env st"
    and "get_energy_entry (env\<lparr>get_caller := u\<rparr>) qs v = get_energy_entry env qs v"
    and "try_get_boosted_yields_config (env\<lparr>get_caller := u\<rparr>) fs = try_get_boosted_yields_config env fs"
  by (simp_all add: get_current_week_def get_energy_entry_def try_get_boosted_yields_config_def Let_def
      split: option.splits)

lemma generate_caller:
  "farm_generate_aggregated_rewards mint (env\<lparr>get_caller := u\<rparr>) st c = farm_generate_aggregated_rewards mint env st c"
  by (simp add: farm_generate_aggregated_rewards_def mint_per_block_rewards_def take_reward_slice_def
      get_current_week_def Let_def)

lemma calculate_caller:
  fixes env :: "'e energy_query_env_scheme"
  shows "farm_calculate_rewards (env\<lparr>get_caller := u\<rparr>) st v n a c = farm_calculate_rewards env st v n a c"
proof -
  have collect: "boosted_collect_rewards_for_week (env\<lparr>get_caller := u\<rparr>) = boosted_collect_rewards_for_week env"
    by (simp add: fun_eq_iff boosted_collect_rewards_for_week_def update_boosted_yields_config_def
        get_updated_boosted_yields_config_def)
  have users: "boosted_user_rewards_for_week (env\<lparr>get_caller := u\<rparr>) = boosted_user_rewards_for_week env"
    by (intro ext) (unfold boosted_user_rewards_for_week_def collect, rule refl)
  have multi: "claim_multi (env\<lparr>get_caller := u\<rparr>) = claim_multi env"
    by (intro ext) (unfold claim_multi_def caller_irrelevant, rule refl)
  have claims: "claim_boosted_yields_rewards (env\<lparr>get_caller := u\<rparr>) = claim_boosted_yields_rewards env"
    by (intro ext) (unfold claim_boosted_yields_rewards_def caller_irrelevant users multi, rule refl)
  show ?thesis by (simp add: farm_calculate_rewards_def calculate_boosted_rewards_def claims)
qed

lemma young_position_unmigrated:
  assumes "\<not> is_old_farm_position st (token_nonce p)" "migrate_old_farm_positions st user [p] = Inr (m, st')"
  shows "m = 0 \<and> st' = st"
  using assms by (simp add: migrate_old_farm_positions_def get_non_empty_payments_def Let_def and_then_Inr)

text \<open>C24: The view is what is paid. A user who leaves or claims with one position is paid exactly the
  reward that the view for this position, asked in the same block, states: the share of the base
  rewards and the boosted rewards of all weeks that the user can still claim.
\<close>

theorem farm_pays_the_view:
  assumes "exit_farm_endpoint env st [p] None = Inr ([q, r], st', es) \<or>
      farm_claim_rewards_endpoint env st [p] None = Inr ([q, r], st', es)"
    and "\<not> is_old_farm_position st (token_nonce p)"
    and "farm_attributes st (token_nonce p) = Some a" "farm_into_part a (amount p) = Inr part"
  shows "calculate_rewards_for_given_position (env\<lparr>get_caller := get_sc_address env\<rparr>) st (get_caller env)
    (amount p) part = Inr (amount r)"
proof -
  have "\<exists>c st1 c1 es1 st2. farm_cache_new st = Inr c \<and>
      farm_generate_aggregated_rewards default_mint_rewards env st c = Inr (st1, c1, es1) \<and>
      farm_calculate_rewards env st1 (get_caller env) (amount p) part c1 = Inr (amount r, st2)"
    using assms(1)
  proof
    assume "exit_farm_endpoint env st [p] None = Inr ([q, r], st', es)"
    then obtain st0 m st1 es1 where "migrate_old_farm_positions st (get_caller env) [p] = Inr (m, st0)"
      and "farm_exit default_mint_rewards env st0 (get_caller env) p = Inr (q, r, st1, es1)"
      by (auto simp: exit_farm_endpoint_def get_orig_caller_from_opt_def Let_def and_then_Inr single_esdt_Inr)
    with young_position_unmigrated [OF assms(2)] show ?thesis
      using assms(3,4)
      by (fastforce simp: farm_exit_def exit_farm_base_def exit_farm_context_new_def get_farm_token_attributes_def
          Let_def operation_Inr new_payment_def)
  next
    assume "farm_claim_rewards_endpoint env st [p] None = Inr ([q, r], st', es)"
    then obtain st0 m st1 es1 where "migrate_old_farm_positions st (get_caller env) [p] = Inr (m, st0)"
      and "farm_claim default_mint_rewards env st0 (get_caller env) [p] = Inr (q, r, st1, es1)"
      by (auto simp: farm_claim_rewards_endpoint_def get_orig_caller_from_opt_def Let_def and_then_Inr)
    with young_position_unmigrated [OF assms(2)] show ?thesis
      using assms(3,4)
      by (fastforce simp: farm_claim_def claim_rewards_base_def claim_rewards_base_no_farm_token_mint_def
          Let_def operation_Inr new_payment_def)
  qed
  then show ?thesis
    by (auto simp: calculate_rewards_for_given_position_def require_queried_def generate_caller calculate_caller)
qed

definition ex_position :: farm_storage where
  "ex_position = ex_farm\<lparr>farm_state := Active, farm_token := Some ''FARM'', per_block_reward_amount := 1000,
     produce_rewards_enabled := True, last_reward_block_nonce := 12, farm_token_supply := 100,
     farm_attributes := [1 \<mapsto> \<lparr>reward_per_share = 0, entering_epoch = 10, compounded_reward = 0,
       current_farm_amount = 100, original_owner = 7\<rparr>],
     farm_last_nonce := 1, user_total_farm_position := (\<lambda>u. 0)(7 := 100)\<rparr>"

lemma ex_exit:
  "\<exists>st' es. exit_farm_endpoint (ex_farm_env 7 18 22) ex_position [new_payment ''FARM'' 1 40] None =
     Inr ([new_payment ''LPT'' 0 40, new_payment ''MEX'' 0 4000], st', es)"
  by (simp add: ex_position_def farm_eval farm_weekly_eval cong: and_then_weak_cong require_weak_cong let_weak_cong)

lemma farm_pays_the_view_witness:
  "calculate_rewards_for_given_position (ex_farm_env 4 18 22) ex_position 7 40
     \<lparr>reward_per_share = 0, entering_epoch = 10, compounded_reward = 0, current_farm_amount = 40,
      original_owner = 7\<rparr> = Inr 4000"
proof -
  obtain st' es where run: "exit_farm_endpoint (ex_farm_env 7 18 22) ex_position [new_payment ''FARM'' 1 40] None =
      Inr ([new_payment ''LPT'' 0 40, new_payment ''MEX'' 0 4000], st', es)"
    using ex_exit by blast
  show ?thesis
    using farm_pays_the_view [OF disjI1 [OF run], of "\<lparr>reward_per_share = 0, entering_epoch = 10,
      compounded_reward = 0, current_farm_amount = 100, original_owner = 7\<rparr>" "\<lparr>reward_per_share = 0,
      entering_epoch = 10, compounded_reward = 0, current_farm_amount = 40, original_owner = 7\<rparr>"]
    by (simp add: ex_position_def ex_farm_def ex_farm_env_def is_old_farm_position_def new_payment_def
        farm_into_part_def farm_get_total_supply_def rule_of_three_def)
qed

text \<open>Generation returns when the week is known and the percentage is one.\<close>

lemma generate_returns:
  fixes st :: "'s farm_storage_scheme"
  assumes "get_current_week env st = Inr w" "unat (boosted_yields_rewards_percentage st) \<le> MAX_PERCENT"
  shows "\<exists>st' c' es. farm_generate_aggregated_rewards mint env st c = Inr (st', c', es)"
proof -
  have slice: "\<exists>s st'. take_reward_slice env st1 n = Inr (s, st')"
    if "get_current_week env st1 = Inr w"
      "boosted_yields_rewards_percentage st1 = boosted_yields_rewards_percentage st" for st1 :: "'s farm_storage_scheme" and n
  proof -
    have "n * unat (boosted_yields_rewards_percentage st) div MAX_PERCENT \<le> n"
      by (rule div_le_of_le_mult) (simp add: assms(2))
    then show ?thesis using that by (simp add: take_reward_slice_def Let_def)
  qed
  let ?n = "if last_reward_block_nonce st < get_block_nonce env then get_block_nonce env
    else last_reward_block_nonce st"
  obtain n es where mint: "mint_per_block_rewards mint env st (cache_reward_token_id c) =
      (n, st\<lparr>last_reward_block_nonce := ?n\<rparr>, es)"
    by (cases "last_reward_block_nonce st < get_block_nonce env") (simp_all add: mint_per_block_rewards_def Let_def)
  define st1 where "st1 = st\<lparr>last_reward_block_nonce := ?n\<rparr>"
  have st1: "get_current_week env st1 = Inr w"
      "boosted_yields_rewards_percentage st1 = boosted_yields_rewards_percentage st"
    using assms(1) by (simp_all add: st1_def get_current_week_def get_week_for_epoch_def)
  obtain s st2 where "take_reward_slice env st1 n = Inr (s, st2)" using slice [OF st1] by blast
  then show ?thesis by (simp add: farm_generate_aggregated_rewards_def mint [folded st1_def] Let_def)
qed

lemma exit_returns:
  fixes s :: farm_storage
  assumes inv: "farm_inv s L" and reserve: "farm_pot s L \<le> division_safety_constant s * reward_reserve s"
    and active: "farm_state s = Active" "farm_token s = Some t" "is_valid_esdt_identifier env t"
    and plain: "boosted_config s = None"
    and percent: "unat (boosted_yields_rewards_percentage s) \<le> MAX_PERCENT" "unat (penalty_percent s) \<le> MAX_PERCENT"
    and week: "get_current_week env s = Inr w" and n: "0 < n" "n \<le> L k"
  shows "\<exists>qs st' es. exit_farm_endpoint env s [new_payment t k n] None = Inr (qs, st', es)"
proof -
  let ?p = "new_payment t k n" and ?A = "farm_attributes s" and ?dsc = "division_safety_constant s"
  have books: "books_ok s L" using inv by (simp add: farm_inv_def)
  have ok: "tokens_ok ?A (farm_last_nonce s) (stored_reward_per_share s) L" using books by (simp add: books_ok_def)
  have "L k \<noteq> 0" using n by simp
  then obtain a where a: "?A k = Some a" using ok unfolding tokens_ok_def by blast
  have big: "n \<le> current_farm_amount a" using ok a n(2) unfolding tokens_ok_def by (meson order_trans)
  have young: "\<not> is_old_farm_position s k"
    using books by (intro no_old_positions) (simp add: books_ok_def)
  obtain c where c: "farm_cache_new s = Inr c"
    using active(2) by (simp add: farm_cache_new_def get_farm_token_id_def)
  note cache = farm_cache_new_Inr [OF c]
  have state: "cache_state c = Active"
    using c active(1,2) by (auto simp: farm_cache_new_def get_farm_token_id_def)
  obtain st1 c1 es1 where gen: "farm_generate_aggregated_rewards default_mint_rewards env s c = Inr (st1, c1, es1)"
    using generate_returns [OF week percent(1)] by blast
  have pre: "cache_farm_token_supply c = (\<Sum>n\<in>UNIV. L n)" "tokens_ok ?A (farm_last_nonce s) (stored_reward_per_share s) L"
    using books cache by (simp_all add: books_ok_def)
  obtain r nonce acc where st1: "st1 = s\<lparr>last_reward_block_nonce := nonce, accumulated_rewards_for_week := acc\<rparr>"
    and c1: "c1 = c\<lparr>cache_reward_reserve := cache_reward_reserve c + generated_rewards env s, cache_reward_per_share := r\<rparr>"
    and r: "stored_reward_per_share s \<le> r"
    and pot: "owed_base ?A r L + ?dsc * boosted_total st1 \<le> farm_pot s L + ?dsc * generated_rewards env s"
    by (rule farm_generated [OF gen pre(1) cache(6,7) pre(2)])
  have "\<exists>part. farm_into_part a n = Inr part"
    using n big by (simp add: farm_into_part_def farm_get_total_supply_def rule_of_three_def)
  then obtain part where part: "farm_into_part a n = Inr part" by blast
  note b = farm_into_part_Inr [OF part]
  define base where "base = (if reward_per_share part < r then n * (r - reward_per_share part) div ?dsc else 0)"
  have calc: "farm_calculate_rewards env st1 u n part c1 = Inr (base, st1)" for u
    using plain books
    by (simp add: farm_calculate_rewards_def default_calculate_rewards_def calculate_boosted_rewards_def
        claim_boosted_yields_rewards_def try_get_boosted_yields_config_def st1 c1 cache base_def books_ok_def)
  have enough: "base \<le> cache_reward_reserve c1"
  proof -
    have "n * (r - rps_in ?A k) \<le> owed_base ?A r L"
      unfolding owed_base_def using member_le_sum [of k UNIV "\<lambda>n. L n * (r - rps_in ?A n)"] n
      by (auto intro: order_trans [OF mult_le_mono1])
    also have "\<dots> \<le> ?dsc * cache_reward_reserve c1"
      using pot reserve by (simp add: c1 cache distrib_left)
    finally have "n * (r - reward_per_share part) \<le> cache_reward_reserve c1 * ?dsc"
      using b a by (simp add: rps_in_def mult.commute)
    then show ?thesis by (simp add: base_def div_le_of_le_mult)
  qed
  have total: "n \<le> cache_farm_token_supply c1"
    using member_le_sum [of k UNIV L] n(2) pre(1) by (simp add: c1)
  have penalty: "\<exists>left es. apply_penalty env S n a C = Inr (left, es)"
    if "penalty_percent S = penalty_percent s" for S :: farm_storage and C
  proof -
    have "n * unat (penalty_percent s) div MAX_PERCENT \<le> n"
      by (rule div_le_of_le_mult) (simp add: percent(2))
    then show ?thesis by (simp add: apply_penalty_def get_exit_penalty_def Let_def that)
  qed
  let ?u = "get_caller env"
  let ?st = "st1\<lparr>user_total_farm_position := (user_total_farm_position s)(original_owner a :=
    reduce_total_position (user_total_farm_position s (original_owner a)) n)\<rparr>"
  have decr: "decrease_user_farm_position st1 ?p = Inr ?st"
  proof -
    have "\<not> is_old_farm_position st1 k" using young by (simp add: is_old_farm_position_def st1)
    then show ?thesis
      using a by (simp add: decrease_user_farm_position_def get_farm_token_attributes_def st1 new_payment_def Let_def)
  qed
  have week1: "set_farm_supply_for_current_week env ?st x =
      Inr (?st\<lparr>farm_supply_for_week := (farm_supply_for_week s)(w := x)\<rparr>)" for x
    using week by (simp add: st1 set_farm_supply_for_current_week_def get_current_week_def get_week_for_epoch_def)
  have "\<exists>q rew st2 es2. farm_exit default_mint_rewards env s ?u ?p = Inr (q, rew, st2, es2) \<and> boosted_config st2 = None"
  proof -
    let ?c = "c1\<lparr>cache_reward_reserve := cache_reward_reserve c1 - base,
      cache_farm_token_supply := cache_farm_token_supply c1 - n\<rparr>"
    have "\<exists>left es3. apply_penalty env
        (?st\<lparr>farm_supply_for_week := (farm_supply_for_week s)(w := cache_farm_token_supply c1 - n)\<rparr>) n a ?c = Inr (left, es3)"
      by (rule penalty) (simp add: st1)
    then obtain left es3 where pay: "apply_penalty env
        (?st\<lparr>farm_supply_for_week := (farm_supply_for_week s)(w := cache_farm_token_supply c1 - n)\<rparr>) n a ?c = Inr (left, es3)"
      by blast
    show ?thesis
      by (unfold farm_exit_def exit_farm_base_def c and_then_simps validate_contract_state_def)
        (use state active(2,3) cache(1) a b part calc enough total decr week1 pay gen plain in
          \<open>simp_all add: exit_farm_context_new_def get_farm_token_attributes_def new_payment_def
            farm_get_total_supply_def farm_cache_drop_def st1\<close>)
  qed
  then obtain q rew st2 es2 where run: "farm_exit default_mint_rewards env s ?u ?p = Inr (q, rew, st2, es2)"
    and same: "boosted_config st2 = None" by blast
  show ?thesis
    using run same young
    by (simp add: exit_farm_endpoint_def get_orig_caller_from_opt_def single_esdt_def migrate_old_farm_positions_def
        get_non_empty_payments_def get_farm_token_id_def active(2) new_payment_def decrease_old_farm_positions_def
        clear_user_energy_if_needed_def try_get_boosted_yields_config_def Let_def)
qed

text \<open>C25: Positions can be left. Whatever calls were made after the deployment, as long as the farm is
  active and no factors for boosted rewards are set, whoever holds farm tokens can leave with any
  part of them: the reserve always covers the reward and the supply the position, so no subtraction
  on the way fails. The settings must be percentages and the block not before the first week.
\<close>

theorem positions_can_be_left:
  fixes xs :: "(energy_query_env \<times> farm_call) list"
  assumes "farm_init env0 empty_farm_storage reward_id farming_id dsc pair owner admins = Inr st"
  defines "b \<equiv> run_txs farm_step (new_farm_books st) xs"
  defines "s \<equiv> farm_book_storage b"
  assumes "farm_state s = Active" "farm_token s = Some t" "is_valid_esdt_identifier env t"
    and "boosted_config s = None"
    and "unat (boosted_yields_rewards_percentage s) \<le> MAX_PERCENT" "unat (penalty_percent s) \<le> MAX_PERCENT"
    and "get_current_week env s = Inr w" and "0 < n" "n \<le> farm_book_ledger b k"
  shows "\<exists>qs st' es. exit_farm_endpoint env s [new_payment t k n] None = Inr (qs, st', es)"
proof -
  have "farm_books_inv b"
    using farm_run.run_inv [OF new_farm_books_inv [OF assms(1)], of xs] by (simp add: b_def list_all_iff)
  then have "farm_inv s (farm_book_ledger b)"
    and "farm_pot s (farm_book_ledger b) \<le> division_safety_constant s * reward_reserve s"
    by (simp_all add: farm_books_inv_def s_def Let_def)
  then show ?thesis using assms(4-12) by (rule exit_returns)
qed

definition ex_plain_calls :: "(energy_query_env \<times> farm_call) list" where
  "ex_plain_calls =
    [(ex_farm_env 2 10 11, FarmTokenIssued ''FARM''), (ex_farm_env 2 10 11, FarmSetting ResumeFarm),
     (ex_farm_env 2 10 11, FarmSetting (SetPerBlockRewards 1000)), (ex_farm_env 2 10 11, FarmSetting StartProduceRewards),
     (ex_farm_env 7 10 12, EnterFarm [new_payment ''LPT'' 0 100] None)]"

abbreviation ex_plain_books :: farm_books where
  "ex_plain_books \<equiv> run_txs farm_step (new_farm_books ex_farm) ex_plain_calls"

definition ex_plain_view ::
  "farm_books \<Rightarrow> state \<times> token_id option \<times> boosted_yields_config option \<times> u64 \<times> u64 \<times> u64 \<times> nat" where
  "ex_plain_view b = (let st = farm_book_storage b in
     (farm_state st, farm_token st, boosted_config st, boosted_yields_rewards_percentage st, penalty_percent st,
      first_week_start_epoch st, farm_book_ledger b 1))"

lemma ex_plain_run: "ex_plain_view ex_plain_books = (Active, Some ''FARM'', None, 0, 100, 10, 100)"
  by (simp add: farm_eval farm_weekly_eval ex_plain_calls_def ex_plain_view_def
      cong: and_then_weak_cong require_weak_cong let_weak_cong)

lemma ex_plain_run_sel:
  "farm_state (farm_book_storage ex_plain_books) = Active"
  "farm_token (farm_book_storage ex_plain_books) = Some ''FARM''"
  "boosted_config (farm_book_storage ex_plain_books) = None"
  "boosted_yields_rewards_percentage (farm_book_storage ex_plain_books) = 0"
  "penalty_percent (farm_book_storage ex_plain_books) = 100"
  "first_week_start_epoch (farm_book_storage ex_plain_books) = 10"
  "farm_book_ledger ex_plain_books 1 = 100"
  using ex_plain_run unfolding ex_plain_view_def Let_def by simp_all

lemma positions_can_be_left_witness:
  "\<exists>qs st' es. exit_farm_endpoint (ex_farm_env 9 40 70) (farm_book_storage ex_plain_books)
     [new_payment ''FARM'' 1 60] None = Inr (qs, st', es)"
proof (rule positions_can_be_left [OF ex_farm_init])
  show "get_current_week (ex_farm_env 9 40 70) (farm_book_storage ex_plain_books) = Inr 5"
    by (simp add: get_current_week_def get_week_for_epoch_def ex_plain_run_sel ex_farm_env_def EPOCHS_IN_WEEK_def)
qed (simp_all only: ex_plain_run_sel, simp_all add: ex_farm_env_def MAX_PERCENT_def)

section \<open>Claiming boosted rewards alone\<close>

text \<open>C26: Claiming boosted rewards alone does not lower the recorded reserve. Whatever
  \<open>claimBoostedRewards\<close> pays, the reserve afterwards is the one before together with what the call
  generated: the endpoint keeps its cache from before the payment and writes it back after it, so
  the deduction is lost and the reserve from then on counts tokens that have left the farm.
\<close>

theorem boosted_claims_are_not_deducted:
  assumes "farm_claim_boosted_rewards env st opt = Inr ([p], st', es)"
  shows "reward_reserve st' = reward_reserve st + generated_rewards env st"
proof -
  define u where "u = (case opt of Some u \<Rightarrow> u | None \<Rightarrow> get_caller env)"
  note boosted_Inr = farm_claim_boosted_rewards_def Let_def u_def [symmetric] and_then_Inr require_Inr
    validate_contract_state_Inr set_supply_Inr
  obtain c where c: "farm_cache_new st = Inr c"
    using assms by (auto simp: boosted_Inr)
  obtain st1 c1 es1 where gen: "farm_generate_aggregated_rewards default_mint_rewards env st c = Inr (st1, c1, es1)"
    using assms c by (auto simp: boosted_Inr)
  have "\<exists>s. st' = farm_cache_drop c1 s" using assms c gen by (auto simp: boosted_Inr)
  moreover have "cache_reward_reserve c1 = reward_reserve st + generated_rewards env st"
    using gen by (rule generate_Inr) (simp add: farm_cache_new_Inr [OF c] generated_rewards_def)
  ultimately show ?thesis by (auto simp: farm_cache_drop_def)
qed

definition ex_boosted :: farm_storage where
  "ex_boosted = ex_position\<lparr>energy_factory_address := Some 1, last_global_update_week := 1,
     boosted_config := Some \<lparr>factors_last_update_week = 1, factors_per_week = replicate 5 ex_factors\<rparr>,
     current_claim_progress := [7 \<mapsto> \<lparr>progress_energy = energy_new 6000 10 10, progress_week = 1\<rparr>],
     total_energy_for_week := (\<lambda>w. 0)(1 := 6000), total_locked_tokens_for_week := (\<lambda>w. 0)(1 := 10),
     locked_tokens_in_bucket := [85 \<mapsto> \<lparr>bucket_token_amount = 10, surplus_energy_amount = 50\<rparr>],
     accumulated_rewards_for_week := (\<lambda>w. 0)(1 := 500), farm_supply_for_week := (\<lambda>w. 0)(1 := 100),
     reward_reserve := 500, last_reward_block_nonce := 22\<rparr>"

lemma ex_boosted_claim:
  "\<exists>st' es. farm_claim_boosted_rewards (ex_farm_env 7 18 22) ex_boosted None =
     Inr ([new_payment ''MEX'' 0 500], st', es)"
  by (simp add: ex_boosted_def ex_position_def farm_claim_boosted_rewards_def farm_eval farm_weekly_eval
      cong: and_then_weak_cong require_weak_cong let_weak_cong)

lemma boosted_claims_are_not_deducted_witness:
  "\<exists>st' es. farm_claim_boosted_rewards (ex_farm_env 7 18 22) ex_boosted None =
     Inr ([new_payment ''MEX'' 0 500], st', es) \<and> reward_reserve st' = 500"
proof -
  have "generated_rewards (ex_farm_env 7 18 22) ex_boosted = 0" "reward_reserve ex_boosted = 500"
    by (simp_all add: generated_rewards_def ex_boosted_def ex_farm_env_def)
  then show ?thesis
    using ex_boosted_claim boosted_claims_are_not_deducted by fastforce
qed

end
