(* ===== verification/FarmLocked.thy ===== *)
theory FarmLocked
  imports FarmSettings
begin

text \<open>
  The farm with locked rewards (\<open>dex/farm-with-locked-rewards/src/lib.rs\<close>): the farm of
  \<open>FarmContract\<close> with nothing minted for rewards; what a user is paid of them is locked by the
  energy factory instead (\<open>locking_module/lock_with_energy_module.rs\<close>).
\<close>

section \<open>Storage and environment\<close>

record locked_farm_storage = farm_storage +
  farm_locking_sc_address :: "address option"
  farm_lock_epochs :: u64

text \<open>
  The call of \<open>lockVirtual\<close> at the energy factory: its arguments, the payment it returns, and the
  energies of the users as the factory holds them from then on, which the farm reads again later
  in the same transaction.
\<close>

record lock_env = energy_query_env +
  call_lock :: "address \<Rightarrow> token_id \<Rightarrow> biguint \<Rightarrow> u64 \<Rightarrow> address \<Rightarrow> address \<Rightarrow>
    error + (esdt_payment \<times> (address \<Rightarrow> address \<Rightarrow> energy option))"

text \<open>What the farm has asked to be locked: the token, the amount, its receiver and whose energy grows.\<close>

record lock_request =
  lock_token :: token_id
  lock_amount :: biguint
  lock_destination :: address
  lock_energy_address :: address

section \<open>lock_with_energy_module.rs\<close>

definition farm_set_locking_sc_address ::
  "'e blockchain_scheme \<Rightarrow> 's locked_farm_storage_scheme \<Rightarrow> address \<Rightarrow> error + 's locked_farm_storage_scheme" where
  "farm_set_locking_sc_address env st new_address =
     require (get_caller env = get_owner_address env) ONLY_OWNER
    (require (is_smart_contract env new_address) (SignalError ''Invalid SC Address'')
    (Inr (st\<lparr>farm_locking_sc_address := Some new_address\<rparr>)))"

definition farm_set_lock_epochs ::
  "'e blockchain_scheme \<Rightarrow> 's locked_farm_storage_scheme \<Rightarrow> u64 \<Rightarrow> error + 's locked_farm_storage_scheme" where
  "farm_set_lock_epochs env st epochs =
     require (get_caller env = get_owner_address env) ONLY_OWNER (Inr (st\<lparr>farm_lock_epochs := epochs\<rparr>))"

definition farm_lock_virtual ::
  "lock_env \<Rightarrow> 's locked_farm_storage_scheme \<Rightarrow> token_id \<Rightarrow> biguint \<Rightarrow> address \<Rightarrow> address \<Rightarrow>
     error + (esdt_payment \<times> lock_env)" where
  "farm_lock_virtual env st token a dest_address energy_address =
     (case farm_locking_sc_address st of
        None \<Rightarrow> Inl STORAGE_DECODE_ERROR
      | Some sc \<Rightarrow>
          and_then (call_lock env sc token a (farm_lock_epochs st) dest_address energy_address)
            (\<lambda>(p, energies). Inr (p, env\<lparr>read_user_energy := energies\<rparr>)))"

section \<open>lib.rs\<close>

definition no_mint_rewards :: mint_rewards where
  "no_mint_rewards token a = []"

definition send_to_lock_contract_non_zero ::
  "lock_env \<Rightarrow> 's locked_farm_storage_scheme \<Rightarrow> token_id \<Rightarrow> biguint \<Rightarrow> address \<Rightarrow> address \<Rightarrow>
     error + (esdt_payment \<times> lock_env \<times> lock_request list)" where
  "send_to_lock_contract_non_zero env st token a destination energy_address =
     (if a = 0 then
        and_then (query_locked_token_id env st) (\<lambda>locked_token_id.
        Inr (new_payment locked_token_id 0 a, env, []))
      else
        and_then (farm_lock_virtual env st token a destination energy_address) (\<lambda>(p, env).
        Inr (p, env, [\<lparr>lock_token = token, lock_amount = a, lock_destination = destination,
                        lock_energy_address = energy_address\<rparr>])))"

definition locked_farm_init ::
  "'e blockchain_scheme \<Rightarrow> locked_farm_storage \<Rightarrow> token_id \<Rightarrow> token_id \<Rightarrow> biguint \<Rightarrow> address \<Rightarrow>
     address \<Rightarrow> address list \<Rightarrow> error + locked_farm_storage" where
  "locked_farm_init env st reward_id farming_id dsc pair owner admins =
     and_then (base_farm_init env st reward_id farming_id dsc owner admins) (\<lambda>st.
     let st = st\<lparr>penalty_percent := (if penalty_percent st = 0 then DEFAULT_PENALTY_PERCENT else penalty_percent st),
                minimum_farming_epochs :=
                  (if minimum_farming_epochs st = 0 then DEFAULT_MINUMUM_FARMING_EPOCHS
                   else minimum_farming_epochs st),
                burn_gas_limit := (if burn_gas_limit st = 0 then DEFAULT_BURN_GAS_LIMIT else burn_gas_limit st),
                pair_contract_address := pair,
                first_week_start_epoch :=
                  (if first_week_start_epoch st = 0 then get_block_epoch env else first_week_start_epoch st)\<rparr> in
     Inr (try_set_farm_position_migration_nonce st))"

type_synonym locked_farm_result =
  "error + (esdt_payment list \<times> locked_farm_storage \<times> effect list \<times> lock_request list)"

definition locked_enter_farm_endpoint ::
  "lock_env \<Rightarrow> locked_farm_storage \<Rightarrow> esdt_payment list \<Rightarrow> address option \<Rightarrow> locked_farm_result" where
  "locked_enter_farm_endpoint env st ps opt_orig_caller =
     (let caller = get_caller env in
      and_then (get_orig_caller_from_opt (farm_sc_whitelist st) caller opt_orig_caller) (\<lambda>orig_caller.
      and_then (migrate_old_farm_positions st orig_caller ps) (\<lambda>(migrated_amount, st).
      and_then (claim_only_boosted_payment env st orig_caller) (\<lambda>(boosted_rewards, st).
      and_then (send_to_lock_contract_non_zero env st (reward_token_id st) boosted_rewards caller orig_caller)
        (\<lambda>(boosted_rewards_payment, env, locks).
      and_then (farm_enter no_mint_rewards env st orig_caller ps) (\<lambda>(new_farm_token, st, es).
      and_then (update_energy_and_progress env st orig_caller) (\<lambda>st.
      Inr ([new_farm_token, boosted_rewards_payment], st,
           es @ send_payment_non_zero caller new_farm_token, locks))))))))"

definition locked_claim_rewards_endpoint ::
  "lock_env \<Rightarrow> locked_farm_storage \<Rightarrow> esdt_payment list \<Rightarrow> address option \<Rightarrow> locked_farm_result" where
  "locked_claim_rewards_endpoint env st ps opt_orig_caller =
     (let caller = get_caller env in
      and_then (get_orig_caller_from_opt (farm_sc_whitelist st) caller opt_orig_caller) (\<lambda>orig_caller.
      and_then (migrate_old_farm_positions st orig_caller ps) (\<lambda>(migrated_amount, st).
      and_then (farm_claim no_mint_rewards env st orig_caller ps) (\<lambda>(new_farm_token, rewards, st, es).
      and_then (send_to_lock_contract_non_zero env st (token_identifier rewards) (amount rewards) caller orig_caller)
        (\<lambda>(locked_rewards_payment, env, locks).
      Inr ([new_farm_token, locked_rewards_payment], st,
           es @ send_payment_non_zero caller new_farm_token, locks))))))"

definition locked_exit_farm_endpoint ::
  "lock_env \<Rightarrow> locked_farm_storage \<Rightarrow> esdt_payment list \<Rightarrow> address option \<Rightarrow> locked_farm_result" where
  "locked_exit_farm_endpoint env st ps opt_orig_caller =
     (let caller = get_caller env in
      and_then (get_orig_caller_from_opt (farm_sc_whitelist st) caller opt_orig_caller) (\<lambda>orig_caller.
      and_then (single_esdt ps) (\<lambda>payment.
      and_then (migrate_old_farm_positions st orig_caller ps) (\<lambda>(migrated_amount, st).
      and_then (farm_exit no_mint_rewards env st orig_caller payment)
        (\<lambda>(farming_tokens, rewards, st, es).
      let st = decrease_old_farm_positions st migrated_amount orig_caller in
      and_then (send_to_lock_contract_non_zero env st (token_identifier rewards) (amount rewards) caller orig_caller)
        (\<lambda>(locked_rewards_payment, env, locks).
      and_then (clear_user_energy_if_needed env st orig_caller) (\<lambda>st.
      Inr ([farming_tokens, locked_rewards_payment], st,
           es @ send_payment_non_zero caller farming_tokens, locks))))))))"

text \<open>The copy of \<open>merge_and_update_farm_tokens\<close> in this contract is the farm's, as merging mints nothing.\<close>

definition locked_merge_farm_tokens_endpoint ::
  "lock_env \<Rightarrow> locked_farm_storage \<Rightarrow> esdt_payment list \<Rightarrow> address option \<Rightarrow> locked_farm_result" where
  "locked_merge_farm_tokens_endpoint env st ps opt_orig_caller =
     (let caller = get_caller env in
      and_then (get_orig_caller_from_opt (farm_sc_whitelist st) caller opt_orig_caller) (\<lambda>orig_caller.
      and_then (migrate_old_farm_positions st orig_caller ps) (\<lambda>(migrated_amount, st).
      and_then (claim_only_boosted_payment env st orig_caller) (\<lambda>(boosted_rewards, st).
      and_then (merge_and_update_farm_tokens st orig_caller ps) (\<lambda>(merged_farm_token, st, es).
      and_then (send_to_lock_contract_non_zero env st (reward_token_id st) boosted_rewards caller orig_caller)
        (\<lambda>(locked_rewards_payment, env, locks).
      Inr ([merged_farm_token, locked_rewards_payment], st,
           es @ send_payment_non_zero caller merged_farm_token, locks)))))))"

definition locked_claim_boosted_rewards ::
  "lock_env \<Rightarrow> locked_farm_storage \<Rightarrow> address option \<Rightarrow> locked_farm_result" where
  "locked_claim_boosted_rewards env st opt_user =
     (let caller = get_caller env;
          user = (case opt_user of Some u \<Rightarrow> u | None \<Rightarrow> caller) in
      require (user \<noteq> caller \<longrightarrow> allow_external_claim st user)
        (SignalError ''Cannot claim rewards for this address'')
     (require (user_total_farm_position st user \<noteq> 0)
        (SignalError ''User total farm position is empty!'')
     (and_then (farm_cache_new st) (\<lambda>c.
      validate_contract_state env c
     (and_then (farm_generate_aggregated_rewards no_mint_rewards env st c) (\<lambda>(st, c, es).
      and_then (claim_only_boosted_payment env st user) (\<lambda>(boosted_rewards, st).
      and_then (set_farm_supply_for_current_week env st (cache_farm_token_supply c)) (\<lambda>st.
      and_then (send_to_lock_contract_non_zero env st (reward_token_id st) boosted_rewards user user)
        (\<lambda>(locked_rewards_payment, env, locks).
      Inr ([locked_rewards_payment], farm_cache_drop c st, es, locks))))))))))"

text \<open>The endpoints that produce rewards and the view are the farm's, with nothing minted.\<close>

definition locked_start_produce_rewards ::
  "'e blockchain_scheme \<Rightarrow> locked_farm_storage \<Rightarrow> error + locked_farm_storage" where
  "locked_start_produce_rewards env st =
     require_caller_has_admin_permissions (farm_permissions st) (get_caller env) (start_produce_rewards env st)"

definition locked_end_produce_rewards ::
  "'e blockchain_scheme \<Rightarrow> locked_farm_storage \<Rightarrow> error + (locked_farm_storage \<times> effect list)" where
  "locked_end_produce_rewards env st =
     require_caller_has_admin_permissions (farm_permissions st) (get_caller env)
       (end_produce_rewards no_mint_rewards env st)"

definition locked_set_per_block_rewards ::
  "'e blockchain_scheme \<Rightarrow> locked_farm_storage \<Rightarrow> biguint \<Rightarrow> error + (locked_farm_storage \<times> effect list)" where
  "locked_set_per_block_rewards env st per_block_amount =
     require_caller_has_admin_permissions (farm_permissions st) (get_caller env)
       (set_per_block_rewards no_mint_rewards env st per_block_amount)"

definition locked_set_boosted_percentage ::
  "'e blockchain_scheme \<Rightarrow> locked_farm_storage \<Rightarrow> u64 \<Rightarrow> error + (locked_farm_storage \<times> effect list)" where
  "locked_set_boosted_percentage env st percentage =
     require_caller_has_admin_permissions (farm_permissions st) (get_caller env)
    (require (unat percentage \<le> MAX_PERCENT) (SignalError ''Invalid percentage'')
    (and_then (farm_cache_new st) (\<lambda>c.
     and_then (farm_generate_aggregated_rewards no_mint_rewards env st c) (\<lambda>(st, c, es).
     Inr (farm_cache_drop c (st\<lparr>boosted_yields_rewards_percentage := percentage\<rparr>), es)))))"

definition locked_calculate_rewards_for_given_position ::
  "'e energy_query_env_scheme \<Rightarrow> locked_farm_storage \<Rightarrow> address \<Rightarrow> biguint \<Rightarrow> farm_token_attributes \<Rightarrow>
     error + biguint" where
  "locked_calculate_rewards_for_given_position env st user farm_token_amount attr =
     require_queried env
    (and_then (farm_cache_new st) (\<lambda>c.
     and_then (farm_generate_aggregated_rewards no_mint_rewards env st c) (\<lambda>(st, c, es).
     and_then (farm_calculate_rewards env st user farm_token_amount attr c) (\<lambda>(rew, st).
     Inr rew))))"

definition locked_farm_upgrade :: "'e blockchain_scheme \<Rightarrow> locked_farm_storage \<Rightarrow> locked_farm_storage" where
  "locked_farm_upgrade env st =
     try_set_farm_position_migration_nonce
       (st\<lparr>first_week_start_epoch :=
          (if first_week_start_epoch st = 0 then get_block_epoch env else first_week_start_epoch st)\<rparr>)"

end
