(* ===== verification/FarmLockedBooks.thy ===== *)
theory FarmLockedBooks
  imports FarmLocked FarmBooks
begin

text \<open>
  The farm with locked rewards as a step system with books: the ledger of the farm tokens, what
  the contract has received and paid of every token, what its rate has generated, and what it has
  asked the energy factory to lock.
\<close>

section \<open>Calls\<close>

datatype locked_call =
    LockedEnter "esdt_payment list" "address option"
  | LockedClaim "esdt_payment list" "address option"
  | LockedExit "esdt_payment list" "address option"
  | LockedMerge "esdt_payment list" "address option"
  | LockedBoosted "address option"
  | LockedSetting farm_setting
  | LockedLockingSc address
  | LockedLockEpochs u64
  | LockedTokenIssued token_id

fun locked_exec :: "lock_env \<Rightarrow> locked_farm_storage \<Rightarrow> locked_call \<Rightarrow> locked_farm_result" where
  "locked_exec env st (LockedEnter ps opt) = locked_enter_farm_endpoint env st ps opt"
| "locked_exec env st (LockedClaim ps opt) = locked_claim_rewards_endpoint env st ps opt"
| "locked_exec env st (LockedExit ps opt) = locked_exit_farm_endpoint env st ps opt"
| "locked_exec env st (LockedMerge ps opt) = locked_merge_farm_tokens_endpoint env st ps opt"
| "locked_exec env st (LockedBoosted opt) = locked_claim_boosted_rewards env st opt"
| "locked_exec env st (LockedSetting c) =
     and_then (farm_set no_mint_rewards env st c) (\<lambda>(st, es). Inr ([], st, es, []))"
| "locked_exec env st (LockedLockingSc a) =
     and_then (farm_set_locking_sc_address env st a) (\<lambda>st. Inr ([], st, [], []))"
| "locked_exec env st (LockedLockEpochs n) = and_then (farm_set_lock_epochs env st n) (\<lambda>st. Inr ([], st, [], []))"
| "locked_exec env st (LockedTokenIssued t) = and_then (farm_token_issued st t) (\<lambda>st. Inr ([], st, [], []))"

text \<open>The settings of the farm, with nothing minted, are this contract's endpoints.\<close>

lemma locked_settings:
  "farm_set no_mint_rewards env st StartProduceRewards = farm_quiet (locked_start_produce_rewards env st)"
  "farm_set no_mint_rewards env st EndProduceRewards = locked_end_produce_rewards env st"
  "farm_set no_mint_rewards env st (SetPerBlockRewards a) = locked_set_per_block_rewards env st a"
  "farm_set no_mint_rewards env st (SetBoostedPercentage n) = locked_set_boosted_percentage env st n"
  "farm_set no_mint_rewards env st UpgradeFarm = Inr (locked_farm_upgrade env st, [])"
  by (simp_all add: start_produce_rewards_endpoint_def locked_start_produce_rewards_def
      end_produce_rewards_endpoint_def locked_end_produce_rewards_def set_per_block_rewards_endpoint_def
      locked_set_per_block_rewards_def set_boosted_yields_rewards_percentage_def locked_set_boosted_percentage_def
      farm_upgrade_def locked_farm_upgrade_def)

fun locked_payments :: "locked_call \<Rightarrow> esdt_payment list" where
  "locked_payments (LockedEnter ps opt) = ps"
| "locked_payments (LockedClaim ps opt) = ps"
| "locked_payments (LockedExit ps opt) = ps"
| "locked_payments (LockedMerge ps opt) = ps"
| "locked_payments call = []"

text \<open>The calls that generate the rewards of the blocks since the last such call.\<close>

fun locked_generates :: "locked_call \<Rightarrow> bool" where
  "locked_generates (LockedEnter ps opt) = True"
| "locked_generates (LockedClaim ps opt) = True"
| "locked_generates (LockedExit ps opt) = True"
| "locked_generates (LockedBoosted opt) = True"
| "locked_generates (LockedSetting c) = setting_generates c"
| "locked_generates call = False"

section \<open>Books\<close>

record locked_books =
  locked_book_storage :: locked_farm_storage
  locked_book_ledger :: ledger
  locked_book_received :: "token_id \<Rightarrow> biguint"
  locked_book_paid :: "token_id \<Rightarrow> biguint"
  locked_book_generated :: biguint
  locked_book_requests :: "lock_request list"

definition locked_generated :: "lock_env \<Rightarrow> locked_farm_storage \<Rightarrow> locked_call \<Rightarrow> biguint" where
  "locked_generated env st call = (if locked_generates call then generated_rewards env st else 0)"

definition locked_step :: "locked_books \<Rightarrow> lock_env \<times> locked_call \<Rightarrow> error + locked_books" where
  "locked_step b x =
     (let (env, call) = x; st = locked_book_storage b; L = locked_book_ledger b; ps = locked_payments call in
      require (covered L (farm_part st ps)) (CallFailed ''insufficient funds'')
     (require (farm_last_nonce st + 1 \<noteq> 0) (CallFailed ''nonces exhausted'')
     (and_then (locked_exec env st call) (\<lambda>(qs, st', es, locks).
      Inr \<lparr>locked_book_storage = st', locked_book_ledger = next_ledger st L ps st' es,
           locked_book_received = (\<lambda>t. locked_book_received b t + paid_in t ps + inflow t es),
           locked_book_paid = (\<lambda>t. locked_book_paid b t + outflow t es),
           locked_book_generated = locked_book_generated b + locked_generated env st call,
           locked_book_requests = locked_book_requests b @ locks\<rparr>))))"

definition locked_total :: "lock_request list \<Rightarrow> biguint" where
  "locked_total rs = sum_list (map lock_amount rs)"

lemma locked_total_simps [simp]:
  "locked_total [] = 0" "locked_total (r # rs) = lock_amount r + locked_total rs"
  "locked_total (rs @ qs) = locked_total rs + locked_total qs"
  by (simp_all add: locked_total_def)

definition locked_inv :: "locked_books \<Rightarrow> bool" where
  "locked_inv b \<longleftrightarrow>
     (let st = locked_book_storage b; L = locked_book_ledger b; dsc = division_safety_constant st in
      farm_inv st L \<and>
      farm_pot st L + dsc * locked_total (locked_book_requests b) \<le> dsc * locked_book_generated b \<and>
      list_all (\<lambda>r. lock_token r = reward_token_id st) (locked_book_requests b) \<and>
      (\<forall>t. (if t = farming_token_id st then farm_token_supply st else 0) + locked_book_paid b t
        \<le> locked_book_received b t))"

section \<open>Every call keeps the books\<close>

definition locked_call_ok ::
  "locked_farm_storage \<Rightarrow> ledger \<Rightarrow> esdt_payment list \<Rightarrow> nat \<Rightarrow> locked_farm_storage \<Rightarrow> ledger \<Rightarrow> effect list \<Rightarrow>
     lock_request list \<Rightarrow> bool" where
  "locked_call_ok st L ps g st' L' es locks \<longleftrightarrow> farm_moves st L st' L' g (locked_total locks) \<and>
     list_all (\<lambda>r. lock_token r = reward_token_id st) locks \<and>
     (\<forall>t. (if t = farming_token_id st then farm_token_supply st' else 0) + outflow t es \<le>
          (if t = farming_token_id st then farm_token_supply st else 0) + paid_in t ps + inflow t es)"

lemma send_to_lock_Inr:
  assumes "send_to_lock_contract_non_zero env st token a d u = Inr (p, env', locks)"
  obtains energies where "env' = env\<lparr>read_user_energy := energies\<rparr>"
    and "locks = (if a = 0 then [] else [\<lparr>lock_token = token, lock_amount = a, lock_destination = d,
      lock_energy_address = u\<rparr>])"
proof -
  have "\<exists>energies. env' = env\<lparr>read_user_energy := energies\<rparr> \<and>
      locks = (if a = 0 then [] else [\<lparr>lock_token = token, lock_amount = a, lock_destination = d,
        lock_energy_address = u\<rparr>])"
  proof (cases "a = 0")
    case True
    then have "env' = env\<lparr>read_user_energy := read_user_energy env\<rparr>" "locks = []"
      using assms by (auto simp: send_to_lock_contract_non_zero_def and_then_Inr)
    then show ?thesis using True by (intro exI [of _ "read_user_energy env"]) simp
  next
    case False
    then show ?thesis
      using assms by (auto simp: send_to_lock_contract_non_zero_def farm_lock_virtual_def and_then_Inr split: option.splits)
  qed
  then show thesis using that by blast
qed

lemma send_to_lock_total:
  assumes "send_to_lock_contract_non_zero env st token a d u = Inr (p, env', locks)"
  shows "locked_total locks = a" "list_all (\<lambda>r. lock_token r = token) locks"
    and "generated_rewards env' st1 = generated_rewards env st1"
  using assms by (auto elim!: send_to_lock_Inr simp: generated_rewards_def)

lemma no_mint_flow [simp]: "mint_effects no_mint_rewards t g = []"
  by (simp add: mint_effects_def no_mint_rewards_def)

lemma locked_enter_call_ok:
  assumes run: "locked_enter_farm_endpoint env st ps opt = Inr (qs, st', es, locks)"
    and inv: "farm_inv st L" and cov: "covered L (farm_part st ps)" and l: "farm_last_nonce st + 1 \<noteq> 0"
  shows "locked_call_ok st L ps (generated_rewards env st) st' (next_ledger st L ps st' es) es locks"
proof -
  obtain user m st0 b st1 r env1 q st2 es1 where mig: "migrate_old_farm_positions st user ps = Inr (m, st0)"
    and boost: "claim_only_boosted_payment env st0 user = Inr (b, st1)"
    and lock: "send_to_lock_contract_non_zero env st1 (reward_token_id st1) b (get_caller env) user = Inr (r, env1, locks)"
    and enter: "farm_enter no_mint_rewards env1 st1 user ps = Inr (q, st2, es1)"
    and upd: "update_energy_and_progress env1 st2 user = Inr st'"
    and es: "es = es1 @ send_payment_non_zero (get_caller env) q"
    using run by (auto simp: locked_enter_farm_endpoint_def Let_def and_then_Inr)
  obtain p add where ps: "ps = p # add" "token_identifier p = farming_token_id st"
    and paid: "\<forall>t. paid_in t add = (if t = token_identifier q then total_amount add else 0)"
    and moves: "farm_moves st L st' (ledger_after st L ps (amount q)) (generated_rewards env1 st) b"
    and q: "farm_token st = Some (token_identifier q)" "token_identifier q \<noteq> farming_token_id st"
      "token_identifier q \<noteq> reward_token_id st" "reward_token_id st1 = reward_token_id st"
    and final: "amount q = amount p + total_amount add" "farm_token_supply st' = farm_token_supply st + amount p"
      "farm_last_nonce st' = farm_last_nonce st + 1"
    and es1: "es1 = mint_effects no_mint_rewards (reward_token_id st) (generated_rewards env1 st) @
      [NftCreate (token_identifier q) (amount q)] @ esdt_local_burn_multi add"
    by (rule enter_core [OF mig boost enter upd inv cov l])
  note locks = send_to_lock_total [OF lock]
  have ledger: "next_ledger st L ps st' es = ledger_after st L ps (amount q)"
    by (rule next_ledger_created [OF q(1) final(3)]) (simp add: es es1)
  show ?thesis
    unfolding ledger locked_call_ok_def
    using moves locks(1,2) q by (simp add: es es1 ps paid final locks(3))
qed

lemma locked_claim_call_ok:
  assumes run: "locked_claim_rewards_endpoint env st ps opt = Inr (qs, st', es, locks)"
    and inv: "farm_inv st L" and cov: "covered L (farm_part st ps)" and l: "farm_last_nonce st + 1 \<noteq> 0"
  shows "locked_call_ok st L ps (generated_rewards env st) st' (next_ledger st L ps st' es) es locks"
proof -
  obtain user m st0 q rewards es1 r env1 where mig: "migrate_old_farm_positions st user ps = Inr (m, st0)"
    and claim: "farm_claim no_mint_rewards env st0 user ps = Inr (q, rewards, st', es1)"
    and lock: "send_to_lock_contract_non_zero env st' (token_identifier rewards) (amount rewards) (get_caller env) user
      = Inr (r, env1, locks)"
    and es: "es = es1 @ send_payment_non_zero (get_caller env) q"
    using run by (auto simp: locked_claim_rewards_endpoint_def Let_def and_then_Inr)
  note st0 = not_migrated(2) [OF inv mig]
  obtain part: "farm_part st ps = ps" and ne: "ps \<noteq> []"
    and rewards: "rewards = new_payment (reward_token_id st) 0 (amount rewards)"
    and moves: "farm_moves st L st' (ledger_after st L ps (amount q)) (generated_rewards env st) (amount rewards)"
    and q: "farm_token st = Some (token_identifier q)" "token_nonce q = farm_last_nonce st + 1"
    and final: "amount q = total_amount ps" "farm_token_supply st' = farm_token_supply st"
      "farm_last_nonce st' = farm_last_nonce st + 1"
    and es1: "es1 = mint_effects no_mint_rewards (reward_token_id st) (generated_rewards env st) @
      [NftBurn (token_identifier q) (token_nonce (hd ps)) (amount (hd ps))] @ esdt_local_burn_multi (tl ps) @
      [NftCreate (token_identifier q) (amount q)]"
    by (rule farm_claim_moves [OF claim [unfolded st0] inv cov l])
  note toks = farm_inv_tokens [OF inv q(1)] and locks = send_to_lock_total [OF lock]
  have rew: "token_identifier rewards = reward_token_id st" by (subst rewards) (simp add: new_payment_def)
  have ledger: "next_ledger st L ps st' es = ledger_after st L ps (amount q)"
    by (rule next_ledger_created [OF q(1) final(3)]) (simp add: es es1)
  show ?thesis
    unfolding ledger locked_call_ok_def
    using moves locks toks rew burn_positions_flow(2) [OF part q(1) ne]
    by (simp add: es es1 paid_farm_part [OF part q(1)] burn_positions_flow(1) [OF part q(1) ne] final)
qed

lemma locked_exit_call_ok:
  assumes run: "locked_exit_farm_endpoint env st ps opt = Inr (qs, st', es, locks)"
    and inv: "farm_inv st L" and cov: "covered L (farm_part st ps)"
  shows "locked_call_ok st L ps (generated_rewards env st) st' (next_ledger st L ps st' es) es locks"
proof -
  obtain user p m st0 q rewards st1 es1 r env1 where ps: "ps = [p]"
    and mig: "migrate_old_farm_positions st user [p] = Inr (m, st0)"
    and exit: "farm_exit no_mint_rewards env st0 user p = Inr (q, rewards, st1, es1)"
    and lock: "send_to_lock_contract_non_zero env (decrease_old_farm_positions st1 m user)
      (token_identifier rewards) (amount rewards) (get_caller env) user = Inr (r, env1, locks)"
    and clear: "clear_user_energy_if_needed env1 (decrease_old_farm_positions st1 m user) user = Inr st'"
    and es: "es = es1 @ send_payment_non_zero (get_caller env) q"
    using run by (auto simp: locked_exit_farm_endpoint_def Let_def and_then_Inr single_esdt_Inr)
  obtain x where part: "farm_part st [p] = [p]" and x: "amount p = amount q + x"
    and ids: "token_identifier q = farming_token_id st" "token_identifier rewards = reward_token_id st"
    and moves: "farm_moves st L st' (spend L [p]) (generated_rewards env st) (amount rewards)"
    and final: "farm_token_supply st' + amount p = farm_token_supply st" "farm_last_nonce st' = farm_last_nonce st"
    and es1: "es1 = mint_effects no_mint_rewards (reward_token_id st) (generated_rewards env st) @
      esdt_local_burn (token_identifier p) (token_nonce p) (amount p) @
      (if 0 < x then burn_farming_tokens st1 x (farming_token_id st) else [])"
    by (rule exit_core [OF mig exit clear inv cov [unfolded ps]])
  note locks = send_to_lock_total [OF lock]
  have ledger: "next_ledger st L ps st' es = spend L [p]"
    using final(2) by (simp add: next_ledger_def ps part)
  show ?thesis
    unfolding ledger locked_call_ok_def unfolding ps
    using moves locks final(1) x by (simp add: es es1 burn_one_flow farming_burn_flow ids)
qed

lemma locked_merge_call_ok:
  assumes run: "locked_merge_farm_tokens_endpoint env st ps opt = Inr (qs, st', es, locks)"
    and inv: "farm_inv st L" and cov: "covered L (farm_part st ps)" and l: "farm_last_nonce st + 1 \<noteq> 0"
  shows "locked_call_ok st L ps 0 st' (next_ledger st L ps st' es) es locks"
proof -
  obtain user m st0 b st1 q es1 r env1 where mig: "migrate_old_farm_positions st user ps = Inr (m, st0)"
    and boost: "claim_only_boosted_payment env st0 user = Inr (b, st1)"
    and merge: "merge_and_update_farm_tokens st1 user ps = Inr (q, st', es1)"
    and lock: "send_to_lock_contract_non_zero env st' (reward_token_id st') b (get_caller env) user = Inr (r, env1, locks)"
    and es: "es = es1 @ send_payment_non_zero (get_caller env) q"
    using run by (auto simp: locked_merge_farm_tokens_endpoint_def Let_def and_then_Inr)
  obtain part: "farm_part st ps = ps" and ne: "ps \<noteq> []"
    and moves: "farm_moves st L st' (ledger_after st L ps (amount q)) 0 b"
    and q: "farm_token st = Some (token_identifier q)" "token_identifier q \<noteq> farming_token_id st"
      "token_identifier q \<noteq> reward_token_id st" "reward_token_id st1 = reward_token_id st"
    and final: "amount q = total_amount ps" "farm_token_supply st' = farm_token_supply st"
      "farm_last_nonce st' = farm_last_nonce st + 1"
    and es1: "es1 = [NftBurn (token_identifier q) (token_nonce (hd ps)) (amount (hd ps))] @
      esdt_local_burn_multi (tl ps) @ [NftCreate (token_identifier q) (amount q)]"
    by (rule merge_core [OF mig boost merge inv cov l])
  note locks = send_to_lock_total [OF lock]
  have same: "reward_token_id st' = reward_token_id st"
    using farm_frame_of [OF moves] by (simp add: farm_frame_def)
  have ledger: "next_ledger st L ps st' es = ledger_after st L ps (amount q)"
    by (rule next_ledger_created [OF q(1) final(3)]) (simp add: es es1)
  show ?thesis
    unfolding ledger locked_call_ok_def
    using moves locks same q(2-4) burn_positions_flow(2) [OF part q(1) ne]
    by (simp add: es es1 paid_farm_part [OF part q(1)] burn_positions_flow(1) [OF part q(1) ne] final)
qed

lemma locked_boosted_call_ok:
  assumes run: "locked_claim_boosted_rewards env st opt = Inr (qs, st', es, locks)" and inv: "farm_inv st L"
  shows "locked_call_ok st L [] (generated_rewards env st) st' (next_ledger st L [] st' es) es locks"
proof -
  define u where "u = (case opt of Some u \<Rightarrow> u | None \<Rightarrow> get_caller env)"
  note boosted_Inr = locked_claim_boosted_rewards_def Let_def u_def [symmetric] and_then_Inr require_Inr
    validate_contract_state_Inr set_supply_Inr
  obtain c where c: "farm_cache_new st = Inr c"
    using run by (auto simp: boosted_Inr)
  obtain st1 c1 where gen: "farm_generate_aggregated_rewards no_mint_rewards env st c = Inr (st1, c1, es)"
    using run c by (auto simp: boosted_Inr)
  obtain b st2 where boost: "claim_only_boosted_payment env st1 u = Inr (b, st2)"
    using run c gen by (auto simp: boosted_Inr)
  obtain w r env1 where lock: "send_to_lock_contract_non_zero env
      (st2\<lparr>farm_supply_for_week := (farm_supply_for_week st2)(w := cache_farm_token_supply c1)\<rparr>)
      (reward_token_id st2) b u u = Inr (r, env1, locks)"
    and st': "st' = farm_cache_drop c1
      (st2\<lparr>farm_supply_for_week := (farm_supply_for_week st2)(w := cache_farm_token_supply c1)\<rparr>)"
    using run c gen boost by (auto simp: boosted_Inr) blast+
  note core = farm_gen.boosted_core [OF c gen boost inv st'] and locks = send_to_lock_total [OF lock]
  have ledger: "next_ledger st L [] st' es = L"
    using core(2) by (simp add: next_ledger_def farm_part_def same_tokens_def)
  show ?thesis
    unfolding ledger locked_call_ok_def
    using core locks by (simp add: same_tokens_def)
qed

lemma locked_quiet_call_ok:
  assumes "farm_moves st L st' L g 0" "same_tokens st st'"
  shows "locked_call_ok st L [] g st' (next_ledger st L [] st' []) [] []"
proof -
  have "next_ledger st L [] st' [] = L"
    using assms(2) by (simp add: next_ledger_def farm_part_def same_tokens_def)
  then show ?thesis using assms by (simp add: locked_call_ok_def same_tokens_def)
qed

lemma locked_upd_moves:
  assumes "farm_inv st L"
  shows "farm_moves st L (st\<lparr>farm_locking_sc_address := a\<rparr>) L 0 0" "farm_moves st L (st\<lparr>farm_lock_epochs := n\<rparr>) L 0 0"
  using farm_moves_refl [OF assms]
  by (simp_all add: farm_moves_def farm_frame_def farm_inv_def books_ok_def farm_pot_def boosted_total_def attributes_kept_def)

lemma locked_exec_ok:
  assumes run: "locked_exec env st call = Inr (qs, st', es, locks)" and inv: "farm_inv st L"
    and cov: "covered L (farm_part st (locked_payments call))" and l: "farm_last_nonce st + 1 \<noteq> 0"
    and "\<nexists>t. call = LockedTokenIssued t"
  shows "locked_call_ok st L (locked_payments call) (locked_generated env st call) st'
    (next_ledger st L (locked_payments call) st' es) es locks"
proof (cases call)
  case C: LockedEnter
  then show ?thesis using locked_enter_call_ok [OF _ inv _ l] run cov by (simp add: locked_generated_def)
next
  case C: LockedClaim
  then show ?thesis using locked_claim_call_ok [OF _ inv _ l] run cov by (simp add: locked_generated_def)
next
  case C: LockedExit
  then show ?thesis using locked_exit_call_ok [OF _ inv] run cov by (simp add: locked_generated_def)
next
  case C: LockedMerge
  then show ?thesis using locked_merge_call_ok [OF _ inv _ l] run cov by (simp add: locked_generated_def)
next
  case C: LockedBoosted
  then show ?thesis using locked_boosted_call_ok [OF _ inv] run by (simp add: locked_generated_def)
next
  case C: (LockedSetting c)
  then have "farm_set no_mint_rewards env st c = Inr (st', es)" and locks: "locks = []"
    using run by (auto simp: and_then_Inr)
  from farm_set_sets [OF this(1) inv] have "es = []"
    and "farm_moves st L st' L (locked_generated env st call) 0" "same_tokens st st'"
    by (simp_all add: sets_def locked_generated_def C)
  from locked_quiet_call_ok [OF this(2,3)] this(1) show ?thesis by (simp add: C locks)
next
  case C: (LockedLockingSc a)
  then have "st' = st\<lparr>farm_locking_sc_address := Some a\<rparr>" "es = []" "locks = []"
    using run by (auto simp: and_then_Inr farm_set_locking_sc_address_def require_Inr)
  then show ?thesis
    using locked_quiet_call_ok [OF locked_upd_moves(1) [OF inv]] C
    by (simp add: locked_generated_def same_tokens_def)
next
  case C: (LockedLockEpochs n)
  then have "st' = st\<lparr>farm_lock_epochs := n\<rparr>" "es = []" "locks = []"
    using run by (auto simp: and_then_Inr farm_set_lock_epochs_def require_Inr)
  then show ?thesis
    using locked_quiet_call_ok [OF locked_upd_moves(2) [OF inv]] C
    by (simp add: locked_generated_def same_tokens_def)
next
  case LockedTokenIssued
  then show ?thesis using assms(5) by simp
qed

section \<open>The step system\<close>

lemma locked_invI:
  assumes ok: "locked_call_ok st L ps g st' L' es locks" and inv: "locked_inv b"
    and b: "locked_book_storage b = st" "locked_book_ledger b = L"
    and b': "locked_book_storage b' = st'" "locked_book_ledger b' = L'"
      "locked_book_received b' = (\<lambda>t. locked_book_received b t + paid_in t ps + inflow t es)"
      "locked_book_paid b' = (\<lambda>t. locked_book_paid b t + outflow t es)"
      "locked_book_generated b' = locked_book_generated b + g"
      "locked_book_requests b' = locked_book_requests b @ locks"
  shows "locked_inv b'"
proof -
  let ?dsc = "division_safety_constant st" and ?f = "farming_token_id st"
  have m: "farm_moves st L st' L' g (locked_total locks)"
    and flow: "\<And>t. (if t = ?f then farm_token_supply st' else 0) + outflow t es \<le>
          (if t = ?f then farm_token_supply st else 0) + paid_in t ps + inflow t es"
    and toks: "list_all (\<lambda>r. lock_token r = reward_token_id st) locks"
    using ok by (simp_all add: locked_call_ok_def)
  have frame: "farming_token_id st' = ?f" "reward_token_id st' = reward_token_id st"
      "division_safety_constant st' = ?dsc"
    and pot: "farm_pot st' L' + ?dsc * locked_total locks \<le> farm_pot st L + ?dsc * g" and inv': "farm_inv st' L'"
    using m by (simp_all add: farm_moves_def farm_frame_def)
  have old: "farm_pot st L + ?dsc * locked_total (locked_book_requests b) \<le> ?dsc * locked_book_generated b"
    and old_toks: "list_all (\<lambda>r. lock_token r = reward_token_id st) (locked_book_requests b)"
    and old_flow: "\<And>t. (if t = ?f then farm_token_supply st else 0) + locked_book_paid b t \<le> locked_book_received b t"
    using inv by (simp_all add: locked_inv_def b Let_def)
  have "(if t = ?f then farm_token_supply st' else 0) + (locked_book_paid b t + outflow t es) \<le>
      locked_book_received b t + paid_in t ps + inflow t es" for t
    using flow [of t] old_flow [of t] by linarith
  moreover have "farm_pot st' L' + ?dsc * (locked_total (locked_book_requests b) + locked_total locks) \<le>
      ?dsc * (locked_book_generated b + g)"
    using pot old by (simp add: distrib_left)
  ultimately show ?thesis using inv' toks old_toks by (simp add: locked_inv_def b' frame)
qed

lemma locked_step_inv:
  assumes "locked_inv b" "locked_step b x = Inr b'"
  shows "locked_inv b'"
proof -
  obtain env call where x: "x = (env, call)" by (cases x)
  let ?st = "locked_book_storage b" and ?L = "locked_book_ledger b" and ?ps = "locked_payments call"
  obtain qs st' es locks where cov: "covered ?L (farm_part ?st ?ps)" and l: "farm_last_nonce ?st + 1 \<noteq> 0"
    and run: "locked_exec env ?st call = Inr (qs, st', es, locks)"
    and b': "b' = \<lparr>locked_book_storage = st', locked_book_ledger = next_ledger ?st ?L ?ps st' es,
           locked_book_received = (\<lambda>t. locked_book_received b t + paid_in t ?ps + inflow t es),
           locked_book_paid = (\<lambda>t. locked_book_paid b t + outflow t es),
           locked_book_generated = locked_book_generated b + locked_generated env ?st call,
           locked_book_requests = locked_book_requests b @ locks\<rparr>"
    using assms(2) by (auto simp: locked_step_def x Let_def res_simps)
  have inv: "farm_inv ?st ?L" using assms(1) by (simp add: locked_inv_def Let_def)
  show ?thesis
  proof (cases "\<exists>t. call = LockedTokenIssued t")
    case True
    then obtain t where st': "st' = ?st\<lparr>farm_token := Some t\<rparr>" and rest: "es = []" "locks = []" "?ps = []"
        "locked_generated env ?st call = 0"
      and t: "t \<noteq> farming_token_id ?st" "t \<noteq> reward_token_id ?st"
      using run by (auto simp: farm_token_issued_def and_then_Inr require_Inr locked_generated_def)
    have pot: "farm_pot st' ?L = farm_pot ?st ?L" by (simp add: farm_pot_def st' boosted_total_def)
    have "farm_inv st' ?L" using inv t by (simp add: farm_inv_def books_ok_def st')
    moreover have "next_ledger ?st ?L ?ps st' es = ?L"
      by (simp add: next_ledger_def rest farm_part_def st')
    ultimately show ?thesis
      using assms(1) by (simp add: locked_inv_def b' pot rest Let_def split del: if_split) (simp add: st' cong: if_cong)
  next
    case False
    show ?thesis
      by (rule locked_invI [OF locked_exec_ok [OF run inv cov l False] assms(1)]) (simp_all add: b')
  qed
qed

section \<open>Deployment\<close>

definition empty_locked_farm_storage :: locked_farm_storage where
  "empty_locked_farm_storage =
     farm_storage.extend empty_farm_storage \<lparr>farm_locking_sc_address = None, farm_lock_epochs = 0\<rparr>"

definition new_locked_books :: "locked_farm_storage \<Rightarrow> locked_books" where
  "new_locked_books st = \<lparr>locked_book_storage = st, locked_book_ledger = (\<lambda>n. 0),
     locked_book_received = (\<lambda>t. 0), locked_book_paid = (\<lambda>t. 0), locked_book_generated = 0,
     locked_book_requests = []\<rparr>"

lemma new_locked_inv:
  assumes "locked_farm_init env empty_locked_farm_storage reward_id farming_id dsc pair owner admins = Inr st"
  shows "locked_inv (new_locked_books st)"
proof -
  obtain perms where "dsc \<noteq> 0"
    and "st = empty_locked_farm_storage\<lparr>division_safety_constant := dsc, reward_token_id := reward_id,
      farming_token_id := farming_id, farm_permissions := perms, penalty_percent := DEFAULT_PENALTY_PERCENT,
      minimum_farming_epochs := DEFAULT_MINUMUM_FARMING_EPOCHS, burn_gas_limit := DEFAULT_BURN_GAS_LIMIT,
      pair_contract_address := pair, first_week_start_epoch := get_block_epoch env,
      farm_position_migration_nonce := 1\<rparr>"
    using assms
    by (auto simp: locked_farm_init_def base_farm_init_def try_set_farm_position_migration_nonce_def
        DEFAULT_FARM_POSITION_MIGRATION_NONCE_def Let_def res_simps empty_locked_farm_storage_def
        farm_storage.defs empty_farm_storage_def)
  then show ?thesis
    by (simp add: locked_inv_def new_locked_books_def farm_inv_def books_ok_def tokens_ok_def
        farm_pot_def owed_base_def boosted_total_def held_by_def empty_locked_farm_storage_def
        farm_storage.defs empty_farm_storage_def)
qed

interpretation locked_run: step_system locked_step locked_inv "\<lambda>x. True"
  by unfold_locales (rule locked_step_inv)

end
