(* ===== verification/FarmLockedProperties.thy ===== *)
theory FarmLockedProperties
  imports FarmLockedBooks FarmProperties
begin

text \<open>The property of the farm with locked rewards, with a run as the input of its witness.\<close>

definition ex_lock_env :: "address \<Rightarrow> u64 \<Rightarrow> u64 \<Rightarrow> lock_env" where
  "ex_lock_env caller c n = energy_query_env.extend (ex_farm_env caller c n)
     \<lparr>call_lock = (\<lambda>sc t a n d u. Inr (new_payment ''XMEX'' 3 a,
        \<lambda>s v. if v = 7 then Some (energy_new 9000 c 15) else if v = 8 then Some (energy_new 2000 c 5) else None))\<rparr>"

definition ex_locked_farm :: locked_farm_storage where
  "ex_locked_farm = farm_storage.extend ex_farm \<lparr>farm_locking_sc_address = None, farm_lock_epochs = 0\<rparr>"

lemma ex_locked_init:
  "locked_farm_init (ex_lock_env 2 10 11) empty_locked_farm_storage ''MEX'' ''LPT'' 1000 0 0 [] = Inr ex_locked_farm"
  by (simp add: locked_farm_init_def base_farm_init_def try_set_farm_position_migration_nonce_def Let_def
      ex_locked_farm_def ex_farm_def ex_lock_env_def ex_farm_env_def empty_locked_farm_storage_def empty_farm_storage_def
      farm_storage.defs energy_query_env.defs DEFAULT_PENALTY_PERCENT_def DEFAULT_MINUMUM_FARMING_EPOCHS_def
      DEFAULT_BURN_GAS_LIMIT_def DEFAULT_FARM_POSITION_MIGRATION_NONCE_def add_permissions_def set_permissions_def
      OWNER_def ADMIN_def PAUSE_def fun_eq_iff)

definition ex_locked_calls :: "(lock_env \<times> locked_call) list" where
  "ex_locked_calls =
    [(ex_lock_env 2 10 11, LockedTokenIssued ''FARM''), (ex_lock_env 2 10 11, LockedLockingSc 1),
     (ex_lock_env 2 10 11, LockedLockEpochs 360), (ex_lock_env 2 10 11, LockedSetting (FarmEnergyFactory 1)),
     (ex_lock_env 2 10 11, LockedSetting ResumeFarm), (ex_lock_env 2 10 11, LockedSetting (SetBoostedFactors ex_factors)),
     (ex_lock_env 2 10 11, LockedSetting (SetPerBlockRewards 1000)),
     (ex_lock_env 2 10 11, LockedSetting (SetBoostedPercentage 2500)),
     (ex_lock_env 2 10 11, LockedSetting StartProduceRewards),
     (ex_lock_env 7 10 12, LockedEnter [new_payment ''LPT'' 0 100] None),
     (ex_lock_env 8 10 14, LockedEnter [new_payment ''LPT'' 0 300] None),
     (ex_lock_env 7 18 22, LockedClaim [new_payment ''FARM'' 1 100] None),
     (ex_lock_env 8 18 24, LockedExit [new_payment ''FARM'' 2 120] None)]"

abbreviation ex_locked_books :: locked_books where
  "ex_locked_books \<equiv> run_txs locked_step (new_locked_books ex_locked_farm) ex_locked_calls"

lemmas locked_eval =
  ex_lock_env_def ex_locked_farm_def farm_storage.defs energy_query_env.defs new_locked_books_def locked_step_def
  locked_generated_def locked_enter_farm_endpoint_def locked_claim_rewards_endpoint_def locked_exit_farm_endpoint_def
  send_to_lock_contract_non_zero_def farm_lock_virtual_def farm_set_locking_sc_address_def farm_set_lock_epochs_def
  no_mint_rewards_def query_locked_token_id_def get_energy_factory_address_def generated_rewards_def

definition ex_locked_view :: "locked_books \<Rightarrow> biguint \<times> biguint list \<times> biguint \<times> biguint" where
  "ex_locked_view b = (locked_book_generated b, map lock_amount (locked_book_requests b),
     locked_book_received b ''LPT'', locked_book_paid b ''LPT'')"

lemma ex_locked_run: "ex_locked_view ex_locked_books = (13000, [3412, 2587], 400, 120)"
  by (simp add: farm_eval farm_weekly_eval locked_eval ex_locked_calls_def ex_locked_view_def
      cong: and_then_weak_cong require_weak_cong let_weak_cong)

lemma ex_locked_run_sel:
  "locked_book_generated ex_locked_books = 13000"
  "locked_total (locked_book_requests ex_locked_books) = 5999"
  "locked_book_received ex_locked_books ''LPT'' = 400" "locked_book_paid ex_locked_books ''LPT'' = 120"
  using ex_locked_run unfolding ex_locked_view_def locked_total_def by simp_all

text \<open>C27: The farm with locked rewards has only generated rewards locked. Whatever calls are made after
  its deployment, whatever the energy factory answers to the calls that lock tokens and whatever
  energies it reports afterwards, the farm has asked to lock nothing but its reward token, and the
  amounts it has asked for, together with what positions and boosted rewards are still owed, are at
  most what the rate per block has generated; and of every token it has received at least what it
  has paid out and burned together with the farming tokens of all positions.
\<close>

theorem locked_rewards_are_generated:
  fixes xs :: "(lock_env \<times> locked_call) list"
  assumes "locked_farm_init env empty_locked_farm_storage reward_id farming_id dsc pair owner admins = Inr st"
  defines "b \<equiv> run_txs locked_step (new_locked_books st) xs"
  shows "farm_pot (locked_book_storage b) (locked_book_ledger b) +
      division_safety_constant (locked_book_storage b) * locked_total (locked_book_requests b) \<le>
    division_safety_constant (locked_book_storage b) * locked_book_generated b \<and>
    list_all (\<lambda>r. lock_token r = reward_token_id (locked_book_storage b)) (locked_book_requests b) \<and>
    (if t = farming_token_id (locked_book_storage b) then farm_token_supply (locked_book_storage b) else 0) +
      locked_book_paid b t \<le> locked_book_received b t"
  using locked_run.run_inv [OF new_locked_inv [OF assms(1)], of xs] unfolding b_def
  by (simp add: locked_inv_def Let_def list_all_iff split del: if_split)

lemma locked_rewards_are_generated_witness:
  "farm_pot (locked_book_storage ex_locked_books) (locked_book_ledger ex_locked_books) +
     division_safety_constant (locked_book_storage ex_locked_books) * 5999 \<le>
   division_safety_constant (locked_book_storage ex_locked_books) * 13000"
  using locked_rewards_are_generated [OF ex_locked_init, of ex_locked_calls, THEN conjunct1]
  by (simp only: ex_locked_run_sel)

end
