(* ===== verification/PriceDiscovery.thy ===== *)
theory PriceDiscovery
  imports LockedTokens
begin

text \<open>
  Price discovery (\<open>dex/price-discovery/src\<close>): users deposit a launched or an accepted token for
  redeem tokens, withdraw against a penalty that depends on the phase, and at the end buy the other
  token at the ratio of the two balances. What they buy is locked by simple lock
  (\<open>common/modules/locking_module/locking_module.rs\<close>).
\<close>

section \<open>common_storage.rs\<close>

definition DISCOVERY_MAX_PERCENTAGE :: biguint where
  "DISCOVERY_MAX_PERCENTAGE = 10000000000000"

text \<open>
  The mappers of all modules. The last field is protocol data: the last nonce of the redeem token
  that the contract has created.
\<close>

record discovery_storage =
  launched_token_id :: token_id
  accepted_token_id :: egld_or_esdt
  launched_token_balance :: biguint
  accepted_token_balance :: biguint
  start_block :: u64
  end_block :: u64
  no_limit_phase_duration_blocks :: u64
  linear_penalty_phase_duration_blocks :: u64
  fixed_penalty_phase_duration_blocks :: u64
  penalty_min_percentage :: biguint
  penalty_max_percentage :: biguint
  fixed_penalty_percentage :: biguint
  redeem_token :: "token_id option"
  redeem_token_total_circulating_supply :: "u64 \<Rightarrow> biguint"
  min_launched_token_price :: biguint
  price_precision :: u64
  discovery_locking_sc_address :: "address option"
  discovery_unlock_epoch :: u64
  redeem_token_last_nonce :: u64

text \<open>The call of \<open>lockTokens\<close> at simple lock: its arguments and the payment it returns.\<close>

record discovery_env = blockchain +
  call_simple_lock ::
    "address \<Rightarrow> u64 \<Rightarrow> address option \<Rightarrow> egld_or_esdt_payment \<Rightarrow> error + egld_or_esdt_payment"

section \<open>phase.rs\<close>

datatype phase =
    Idle
  | NoPenalty
  | LinearIncreasingPenalty biguint
  | OnlyWithdrawFixedPenalty biguint
  | Redeem

fun get_penalty_percentage :: "phase \<Rightarrow> biguint" where
  "get_penalty_percentage (LinearIncreasingPenalty penalty_percentage) = penalty_percentage"
| "get_penalty_percentage (OnlyWithdrawFixedPenalty penalty_percentage) = penalty_percentage"
| "get_penalty_percentage p = 0"

definition get_current_phase ::
  "'e blockchain_scheme \<Rightarrow> 's discovery_storage_scheme \<Rightarrow> error + phase" where
  "get_current_phase env st =
     (let current_block = get_block_nonce env in
      if current_block < start_block st then Inr Idle
      else
      let no_limit_phase_end = start_block st + no_limit_phase_duration_blocks st in
      if current_block < no_limit_phase_end then Inr NoPenalty
      else
      let linear_duration = linear_penalty_phase_duration_blocks st;
          linear_penalty_phase_start = no_limit_phase_end;
          linear_penalty_phase_end = linear_penalty_phase_start + linear_duration in
      if current_block < linear_penalty_phase_end then
        let blocks_passed_in_penalty_phase = current_block - linear_penalty_phase_start in
        and_then (big_sub (penalty_max_percentage st) (penalty_min_percentage st)) (\<lambda>percentage_diff.
        let penalty_percentage_increase =
              (if 1 < linear_duration
               then percentage_diff * unat blocks_passed_in_penalty_phase div unat (linear_duration - 1)
               else 0) in
        Inr (LinearIncreasingPenalty (penalty_min_percentage st + penalty_percentage_increase)))
      else
      let fixed_penalty_phase_end = linear_penalty_phase_end + fixed_penalty_phase_duration_blocks st in
      if current_block < fixed_penalty_phase_end
      then Inr (OnlyWithdrawFixedPenalty (fixed_penalty_percentage st))
      else Inr Redeem)"

fun require_deposit_allowed :: "phase \<Rightarrow> error + 'a \<Rightarrow> error + 'a" where
  "require_deposit_allowed Idle k = Inl (SignalError ''Deposit not allowed in this phase'')"
| "require_deposit_allowed (OnlyWithdrawFixedPenalty p) k =
     Inl (SignalError ''Deposit not allowed in this phase'')"
| "require_deposit_allowed Redeem k = Inl (SignalError ''Deposit not allowed in this phase'')"
| "require_deposit_allowed NoPenalty k = k"
| "require_deposit_allowed (LinearIncreasingPenalty p) k = k"

fun require_withdraw_allowed :: "phase \<Rightarrow> error + 'a \<Rightarrow> error + 'a" where
  "require_withdraw_allowed Idle k = Inl (SignalError ''Withdraw not allowed in this phase'')"
| "require_withdraw_allowed Redeem k = Inl (SignalError ''Withdraw not allowed in this phase'')"
| "require_withdraw_allowed NoPenalty k = k"
| "require_withdraw_allowed (LinearIncreasingPenalty p) k = k"
| "require_withdraw_allowed (OnlyWithdrawFixedPenalty p) k = k"

definition require_redeem_allowed :: "phase \<Rightarrow> error + 'a \<Rightarrow> error + 'a" where
  "require_redeem_allowed p k = require (p = Redeem) (SignalError ''Redeem not allowed in this phase'') k"

section \<open>redeem_token.rs\<close>

definition LAUNCHED_TOKEN_REDEEM_NONCE :: u64 where "LAUNCHED_TOKEN_REDEEM_NONCE = 1"
definition ACCEPTED_TOKEN_REDEEM_NONCE :: u64 where "ACCEPTED_TOKEN_REDEEM_NONCE = 2"

definition redeem_token_id :: "'s discovery_storage_scheme \<Rightarrow> error + token_id" where
  "redeem_token_id st =
     (case redeem_token st of None \<Rightarrow> Inl (SignalError ''Invalid token ID'') | Some t \<Rightarrow> Inr t)"

definition create_initial_redeem_tokens ::
  "'e blockchain_scheme \<Rightarrow> 's discovery_storage_scheme \<Rightarrow>
     error + ('s discovery_storage_scheme \<times> effect list)" where
  "create_initial_redeem_tokens env st =
     require (get_caller env = get_owner_address env)
       (SignalError ''Endpoint can only be called by owner'')
    (case redeem_token st of
       None \<Rightarrow> Inl (SignalError ''Token not issued'')
     | Some t \<Rightarrow>
         Inr (st\<lparr>redeem_token_last_nonce := redeem_token_last_nonce st + 2\<rparr>, [NftCreate t 1, NftCreate t 1]))"

text \<open>The protocol adds to a nonce only when it has been created.\<close>

definition mint_and_send_redeem_token ::
  "'s discovery_storage_scheme \<Rightarrow> address \<Rightarrow> u64 \<Rightarrow> biguint \<Rightarrow>
     error + (esdt_payment \<times> 's discovery_storage_scheme \<times> effect list)" where
  "mint_and_send_redeem_token st to nonce a =
     (let st = st\<lparr>redeem_token_total_circulating_supply :=
          (redeem_token_total_circulating_supply st)
            (nonce := redeem_token_total_circulating_supply st nonce + a)\<rparr> in
      and_then (redeem_token_id st) (\<lambda>t.
      require (nonce \<le> redeem_token_last_nonce st) (CallFailed ''ESDTNFT token not found'')
     (let p = new_payment t nonce a in Inr (p, st, [NftAddQuantity t nonce a, DirectSend to [p]]))))"

definition burn_redeem_token_without_supply_decrease ::
  "'s discovery_storage_scheme \<Rightarrow> u64 \<Rightarrow> biguint \<Rightarrow> error + effect list" where
  "burn_redeem_token_without_supply_decrease st nonce a =
     and_then (redeem_token_id st) (\<lambda>t. Inr [NftBurn t nonce a])"

definition burn_redeem_token ::
  "'s discovery_storage_scheme \<Rightarrow> u64 \<Rightarrow> biguint \<Rightarrow>
     error + ('s discovery_storage_scheme \<times> effect list)" where
  "burn_redeem_token st nonce a =
     and_then (burn_redeem_token_without_supply_decrease st nonce a) (\<lambda>es.
     and_then (big_sub (redeem_token_total_circulating_supply st nonce) a) (\<lambda>supply_left.
     Inr (st\<lparr>redeem_token_total_circulating_supply :=
       (redeem_token_total_circulating_supply st)(nonce := supply_left)\<rparr>, es)))"

section \<open>locking_module.rs\<close>

definition discovery_only_owner :: "'e blockchain_scheme \<Rightarrow> error + 'a \<Rightarrow> error + 'a" where
  "discovery_only_owner env k =
     require (get_caller env = get_owner_address env)
       (SignalError ''Endpoint can only be called by owner'') k"

text \<open>
  The contract calls \<open>set_locking_sc_address\<close> from \<open>init\<close>, without the check of the endpoint.
\<close>

definition discovery_set_locking_sc ::
  "'e blockchain_scheme \<Rightarrow> 's discovery_storage_scheme \<Rightarrow> address \<Rightarrow> error + 's discovery_storage_scheme" where
  "discovery_set_locking_sc env st new_address =
     require (is_smart_contract env new_address) (SignalError ''Invalid SC Address'')
    (Inr (st\<lparr>discovery_locking_sc_address := Some new_address\<rparr>))"

definition discovery_set_locking_sc_address ::
  "'e blockchain_scheme \<Rightarrow> 's discovery_storage_scheme \<Rightarrow> address \<Rightarrow> error + 's discovery_storage_scheme" where
  "discovery_set_locking_sc_address env st new_address =
     discovery_only_owner env (discovery_set_locking_sc env st new_address)"

definition discovery_set_unlock_epoch ::
  "'e blockchain_scheme \<Rightarrow> 's discovery_storage_scheme \<Rightarrow> u64 \<Rightarrow> error + 's discovery_storage_scheme" where
  "discovery_set_unlock_epoch env st new_epoch =
     discovery_only_owner env (Inr (st\<lparr>discovery_unlock_epoch := new_epoch\<rparr>))"

definition transfer_execute :: "address \<Rightarrow> string \<Rightarrow> egld_or_esdt_payment \<Rightarrow> effect list" where
  "transfer_execute d f p =
     (case payment_token p of
        Egld \<Rightarrow> [ExecuteWithEgld d f (payment_amount p)]
      | Esdt t \<Rightarrow> [ExecuteOnDest d f [new_payment t (payment_nonce p) (payment_amount p)]])"

definition lock_common ::
  "discovery_env \<Rightarrow> 's discovery_storage_scheme \<Rightarrow> address option \<Rightarrow> egld_or_esdt \<Rightarrow> biguint \<Rightarrow>
     error + (egld_or_esdt_payment \<times> effect list)" where
  "lock_common env st opt_dest token a =
     (case discovery_locking_sc_address st of
        None \<Rightarrow> Inl (CallFailed ''storage decode error'')
      | Some sc \<Rightarrow>
          let p = egld_or_esdt_new token 0 a in
          and_then (call_simple_lock env sc (discovery_unlock_epoch st) opt_dest p) (\<lambda>locked.
          Inr (locked, transfer_execute sc ''lockTokens'' p)))"

definition lock_tokens_and_forward ::
  "discovery_env \<Rightarrow> 's discovery_storage_scheme \<Rightarrow> address \<Rightarrow> egld_or_esdt \<Rightarrow> biguint \<Rightarrow>
     error + (egld_or_esdt_payment \<times> effect list)" where
  "lock_tokens_and_forward env st to token a = lock_common env st (Some to) token a"

section \<open>lib.rs\<close>

definition INVALID_PAYMENT_ERR_MSG :: error where
  "INVALID_PAYMENT_ERR_MSG = SignalError ''Invalid payment token''"

definition BELOW_MIN_PRICE_ERR_MSG :: error where
  "BELOW_MIN_PRICE_ERR_MSG = SignalError ''Launched token below min price''"

definition MAX_TOKEN_DECIMALS :: u32 where "MAX_TOKEN_DECIMALS = 18"

text \<open>\<open>egld_or_single_fungible_esdt()\<close> on the attached EGLD and ESDT payments.\<close>

definition egld_or_single_fungible_esdt ::
  "biguint \<Rightarrow> esdt_payment list \<Rightarrow> error + (egld_or_esdt \<times> biguint)" where
  "egld_or_single_fungible_esdt egld ps =
     (case ps of
        [] \<Rightarrow> Inr (Egld, egld)
      | [p] \<Rightarrow> require (token_nonce p = 0) (SignalError ''fungible ESDT token expected'')
                 (Inr (Esdt (token_identifier p), amount p))
      | _ \<Rightarrow> Inl IncorrectNumTransfers)"

definition is_valid_token :: "'e blockchain_scheme \<Rightarrow> egld_or_esdt \<Rightarrow> bool" where
  "is_valid_token env t = (case t of Egld \<Rightarrow> True | Esdt i \<Rightarrow> is_valid_esdt_identifier env i)"

definition discovery_init ::
  "'e blockchain_scheme \<Rightarrow> 's discovery_storage_scheme \<Rightarrow> token_id \<Rightarrow> egld_or_esdt \<Rightarrow> u32 \<Rightarrow> biguint \<Rightarrow> u64 \<Rightarrow>
     u64 \<Rightarrow> u64 \<Rightarrow> u64 \<Rightarrow> u64 \<Rightarrow> biguint \<Rightarrow> biguint \<Rightarrow> biguint \<Rightarrow> address \<Rightarrow> error + 's discovery_storage_scheme" where
  "discovery_init env st launched accepted decimals min_price start no_limit linear fixed unlock
       pen_min pen_max pen_fixed locking_sc =
     require (is_valid_esdt_identifier env launched) (SignalError ''Invalid launched token ID'')
    (require (is_valid_token env accepted) (SignalError ''Invalid payment token ID'')
    (require (accepted \<noteq> Esdt launched) (SignalError ''Launched and accepted token must be different'')
    (require (decimals \<le> MAX_TOKEN_DECIMALS) (SignalError ''Launched token has too many decimals'')
    (require (get_block_nonce env < start) (SignalError ''Start block cannot be in the past'')
    (let end = start + no_limit + linear + fixed in
     require (pen_min \<le> pen_max) (SignalError ''Min percentage higher than max percentage'')
    (require (pen_max < DISCOVERY_MAX_PERCENTAGE) (SignalError ''Max percentage higher than 100%'')
    (require (pen_fixed < DISCOVERY_MAX_PERCENTAGE) (SignalError ''Fixed percentage higher than 100%'')
    (require (get_block_epoch env < unlock) (SignalError ''Unlock epoch cannot be in the past'')
    (discovery_set_locking_sc env
      (st\<lparr>launched_token_id := launched, accepted_token_id := accepted, start_block := start,
          end_block := end, discovery_unlock_epoch := unlock,
          price_precision := 10 ^ unat decimals, min_launched_token_price := min_price,
          no_limit_phase_duration_blocks := no_limit, linear_penalty_phase_duration_blocks := linear,
          fixed_penalty_phase_duration_blocks := fixed, penalty_min_percentage := pen_min,
          penalty_max_percentage := pen_max, fixed_penalty_percentage := pen_fixed\<rparr>) locking_sc)))))))))"

definition calculate_price :: "'s discovery_storage_scheme \<Rightarrow> error + biguint" where
  "calculate_price st =
     require (0 < launched_token_balance st) (SignalError ''No launched tokens available'')
    (Inr (accepted_token_balance st * unat (price_precision st) div launched_token_balance st))"

definition increase_balance ::
  "'s discovery_storage_scheme \<Rightarrow> u64 \<Rightarrow> biguint \<Rightarrow> 's discovery_storage_scheme" where
  "increase_balance st nonce a =
     (if nonce = ACCEPTED_TOKEN_REDEEM_NONCE
      then st\<lparr>accepted_token_balance := accepted_token_balance st + a\<rparr>
      else st\<lparr>launched_token_balance := launched_token_balance st + a\<rparr>)"

definition decrease_balance ::
  "'s discovery_storage_scheme \<Rightarrow> u64 \<Rightarrow> biguint \<Rightarrow> error + 's discovery_storage_scheme" where
  "decrease_balance st nonce a =
     (if nonce = ACCEPTED_TOKEN_REDEEM_NONCE
      then and_then (big_sub (accepted_token_balance st) a) (\<lambda>left. Inr (st\<lparr>accepted_token_balance := left\<rparr>))
      else and_then (big_sub (launched_token_balance st) a) (\<lambda>left. Inr (st\<lparr>launched_token_balance := left\<rparr>)))"

definition deposit ::
  "'e blockchain_scheme \<Rightarrow> 's discovery_storage_scheme \<Rightarrow> biguint \<Rightarrow> esdt_payment list \<Rightarrow>
     error + (esdt_payment \<times> 's discovery_storage_scheme \<times> effect list)" where
  "deposit env st egld ps =
     and_then (get_current_phase env st) (\<lambda>phase.
     require_deposit_allowed phase
    (and_then (egld_or_single_fungible_esdt egld ps) (\<lambda>(payment_token, payment_amount).
     and_then
      (if payment_token = accepted_token_id st then Inr ACCEPTED_TOKEN_REDEEM_NONCE
       else if payment_token = Esdt (launched_token_id st) then Inr LAUNCHED_TOKEN_REDEEM_NONCE
       else Inl INVALID_PAYMENT_ERR_MSG) (\<lambda>redeem_token_nonce.
     let st = increase_balance st redeem_token_nonce payment_amount in
     and_then (calculate_price st) (\<lambda>current_price.
     require (current_price = 0 \<or> min_launched_token_price st \<le> current_price \<or>
              payment_token = accepted_token_id st) BELOW_MIN_PRICE_ERR_MSG
    (mint_and_send_redeem_token st (get_caller env) redeem_token_nonce payment_amount))))))"

definition refund_token :: "'s discovery_storage_scheme \<Rightarrow> u64 \<Rightarrow> error + egld_or_esdt" where
  "refund_token st nonce =
     (if nonce = LAUNCHED_TOKEN_REDEEM_NONCE then Inr (Esdt (launched_token_id st))
      else if nonce = ACCEPTED_TOKEN_REDEEM_NONCE then Inr (accepted_token_id st)
      else Inl INVALID_PAYMENT_ERR_MSG)"

definition withdraw ::
  "'e blockchain_scheme \<Rightarrow> 's discovery_storage_scheme \<Rightarrow> esdt_payment list \<Rightarrow>
     error + (egld_or_esdt_payment \<times> 's discovery_storage_scheme \<times> effect list)" where
  "withdraw env st ps =
     and_then (get_current_phase env st) (\<lambda>phase.
     require_withdraw_allowed phase
    (and_then (single_esdt ps) (\<lambda>p.
     and_then (redeem_token_id st) (\<lambda>redeem_id.
     require (token_identifier p = redeem_id) INVALID_PAYMENT_ERR_MSG
    (and_then (refund_token st (token_nonce p)) (\<lambda>refund_token_id.
     and_then (burn_redeem_token st (token_nonce p) (amount p)) (\<lambda>(st, es).
     let penalty_amount = amount p * get_penalty_percentage phase div DISCOVERY_MAX_PERCENTAGE in
     and_then (big_sub (amount p) penalty_amount) (\<lambda>withdraw_amount.
     and_then (decrease_balance st (token_nonce p) withdraw_amount) (\<lambda>st.
     and_then (calculate_price st) (\<lambda>current_price.
     require (min_launched_token_price st \<le> current_price) BELOW_MIN_PRICE_ERR_MSG
    (let out = egld_or_esdt_new refund_token_id 0 withdraw_amount in
     Inr (out, st, es @ direct (get_caller env) out))))))))))))"

definition compute_bought_tokens ::
  "'s discovery_storage_scheme \<Rightarrow> u64 \<Rightarrow> biguint \<Rightarrow> error + egld_or_esdt_payment" where
  "compute_bought_tokens st redeem_token_nonce redeem_token_amount =
     (let redeem_token_supply = redeem_token_total_circulating_supply st redeem_token_nonce in
      and_then
       (if redeem_token_nonce = ACCEPTED_TOKEN_REDEEM_NONCE
        then Inr (Esdt (launched_token_id st), launched_token_balance st)
        else if redeem_token_nonce = LAUNCHED_TOKEN_REDEEM_NONCE
        then Inr (accepted_token_id st, accepted_token_balance st)
        else Inl INVALID_PAYMENT_ERR_MSG) (\<lambda>(token, total_token_supply).
      and_then (big_div (total_token_supply * redeem_token_amount) redeem_token_supply) (\<lambda>reward_amount.
      Inr (egld_or_esdt_new token 0 reward_amount))))"

definition redeem ::
  "discovery_env \<Rightarrow> 's discovery_storage_scheme \<Rightarrow> esdt_payment list \<Rightarrow>
     error + (egld_or_esdt_payment \<times> 's discovery_storage_scheme \<times> effect list)" where
  "redeem env st ps =
     and_then (get_current_phase env st) (\<lambda>phase.
     require_redeem_allowed phase
    (and_then (single_esdt ps) (\<lambda>p.
     and_then (redeem_token_id st) (\<lambda>redeem_id.
     require (token_identifier p = redeem_id) INVALID_PAYMENT_ERR_MSG
    (and_then (compute_bought_tokens st (token_nonce p) (amount p)) (\<lambda>bought_tokens.
     and_then (burn_redeem_token_without_supply_decrease st (token_nonce p) (amount p)) (\<lambda>es.
     if 0 < payment_amount bought_tokens then
       and_then (lock_tokens_and_forward env st (get_caller env) (payment_token bought_tokens)
         (payment_amount bought_tokens)) (\<lambda>(locked, es_lock). Inr (bought_tokens, st, es @ es_lock))
     else Inr (bought_tokens, st, es))))))))"

end
