(* ===== verification/PriceDiscoveryBooks.thy ===== *)
theory PriceDiscoveryBooks
  imports PriceDiscovery
begin

text \<open>
  Price discovery as a step system with books: the redeem tokens that users hold, and what the
  contract has received, refunded and sold of every token.
\<close>

section \<open>Calls\<close>

datatype discovery_call =
    Deposit biguint "esdt_payment list"
  | Withdraw "esdt_payment list"
  | RedeemTokens "esdt_payment list"
  | CreateInitialRedeemTokens
  | DiscoveryLockingSc address
  | DiscoveryUnlockEpoch u64
  | RedeemTokenIssued token_id

type_synonym discovery_outcome = "discovery_storage \<times> effect list"

text \<open>The last call is the protocol's: the callback with the identifier of the redeem token, which is new.\<close>

definition redeem_token_issued :: "discovery_storage \<Rightarrow> token_id \<Rightarrow> error + discovery_storage" where
  "redeem_token_issued st t =
     require (redeem_token st = None \<and> t \<noteq> launched_token_id st \<and> Esdt t \<noteq> accepted_token_id st)
       (CallFailed ''token not issued'') (Inr (st\<lparr>redeem_token := Some t\<rparr>))"

fun discovery_exec :: "discovery_env \<Rightarrow> discovery_storage \<Rightarrow> discovery_call \<Rightarrow> error + discovery_outcome" where
  "discovery_exec env st (Deposit egld ps) = and_then (deposit env st egld ps) (\<lambda>(p, st, es). Inr (st, es))"
| "discovery_exec env st (Withdraw ps) = and_then (withdraw env st ps) (\<lambda>(p, st, es). Inr (st, es))"
| "discovery_exec env st (RedeemTokens ps) = and_then (redeem env st ps) (\<lambda>(p, st, es). Inr (st, es))"
| "discovery_exec env st CreateInitialRedeemTokens = create_initial_redeem_tokens env st"
| "discovery_exec env st (DiscoveryLockingSc a) =
     and_then (discovery_set_locking_sc_address env st a) (\<lambda>st. Inr (st, []))"
| "discovery_exec env st (DiscoveryUnlockEpoch n) =
     and_then (discovery_set_unlock_epoch env st n) (\<lambda>st. Inr (st, []))"
| "discovery_exec env st (RedeemTokenIssued t) = and_then (redeem_token_issued st t) (\<lambda>st. Inr (st, []))"

fun discovery_payments :: "discovery_call \<Rightarrow> esdt_payment list" where
  "discovery_payments (Deposit egld ps) = ps"
| "discovery_payments (Withdraw ps) = ps"
| "discovery_payments (RedeemTokens ps) = ps"
| "discovery_payments call = []"

fun discovery_egld :: "discovery_call \<Rightarrow> biguint" where
  "discovery_egld (Deposit egld ps) = egld"
| "discovery_egld call = 0"

section \<open>Flows of tokens and EGLD\<close>

fun egld_out :: "effect \<Rightarrow> biguint" where
  "egld_out (DirectEgld d a) = a"
| "egld_out (ExecuteWithEgld d f a) = a"
| "egld_out e = 0"

definition flow_out :: "egld_or_esdt \<Rightarrow> effect list \<Rightarrow> biguint" where
  "flow_out k es = (case k of Egld \<Rightarrow> sum_list (map egld_out es) | Esdt t \<Rightarrow> outflow t es)"

definition flow_in :: "egld_or_esdt \<Rightarrow> discovery_call \<Rightarrow> biguint" where
  "flow_in k call =
     (case k of Egld \<Rightarrow> discovery_egld call | Esdt t \<Rightarrow> paid_in t (discovery_payments call))"

lemma flow_out_simps [simp]:
  "flow_out k [] = 0" "flow_out k (es @ fs) = flow_out k es + flow_out k fs"
  by (simp_all add: flow_out_def split: egld_or_esdt.splits)

lemma flow_out_direct [simp]:
  "flow_out k (direct d p) = (if payment_token p = k then payment_amount p else 0)"
  "flow_out k (transfer_execute d f p) = (if payment_token p = k then payment_amount p else 0)"
  by (auto simp: flow_out_def direct_def transfer_execute_def paid_in_def new_payment_def split: egld_or_esdt.splits)

section \<open>Books\<close>

text \<open>
  The protocol keeps \<open>held\<close>, the redeem tokens of every nonce that users hold: tokens that are paid
  must exist, and what is minted goes to users. Block nonces never go down. Refunds and sales are
  counted apart.
\<close>

record discovery_books =
  disc_storage :: discovery_storage
  disc_block :: u64
  disc_held :: "u64 \<Rightarrow> biguint"
  disc_received :: "egld_or_esdt \<Rightarrow> biguint"
  disc_refunded :: "egld_or_esdt \<Rightarrow> biguint"
  disc_sold :: "egld_or_esdt \<Rightarrow> biguint"

definition redeem_paid :: "discovery_storage \<Rightarrow> esdt_payment list \<Rightarrow> u64 \<Rightarrow> biguint" where
  "redeem_paid st ps n =
     sum_list (map amount (filter (\<lambda>p. Some (token_identifier p) = redeem_token st \<and> token_nonce p = n) ps))"

fun redeem_minted :: "discovery_call \<Rightarrow> effect list \<Rightarrow> u64 \<Rightarrow> biguint" where
  "redeem_minted (Deposit egld ps) es n =
     sum_list (map (\<lambda>e. case e of NftAddQuantity t m a \<Rightarrow> if m = n then a else 0 | _ \<Rightarrow> 0) es)"
| "redeem_minted call es n = 0"

fun is_redeem :: "discovery_call \<Rightarrow> bool" where
  "is_redeem (RedeemTokens ps) = True"
| "is_redeem call = False"

definition discovery_step :: "discovery_books \<Rightarrow> discovery_env \<times> discovery_call \<Rightarrow> error + discovery_books" where
  "discovery_step b x =
     (let (env, call) = x; st = disc_storage b; ps = discovery_payments call in
      require (disc_block b \<le> get_block_nonce env) (CallFailed ''block in the past'')
     (require (list_all (\<lambda>p. redeem_paid st ps (token_nonce p) \<le> disc_held b (token_nonce p)) ps)
        (CallFailed ''insufficient funds'')
     (and_then (discovery_exec env st call) (\<lambda>(st', es).
      Inr \<lparr>disc_storage = st', disc_block = get_block_nonce env,
           disc_held = (\<lambda>n. disc_held b n - redeem_paid st ps n + redeem_minted call es n),
           disc_received = (\<lambda>k. disc_received b k + flow_in k call),
           disc_refunded = (\<lambda>k. disc_refunded b k + (if is_redeem call then 0 else flow_out k es)),
           disc_sold = (\<lambda>k. disc_sold b k + (if is_redeem call then flow_out k es else 0))\<rparr>))))"

section \<open>The invariant\<close>

definition redeem_time :: "'s discovery_storage_scheme \<Rightarrow> u64 \<Rightarrow> bool" where
  "redeem_time st n \<longleftrightarrow> \<not> n < start_block st \<and>
     \<not> n < start_block st + no_limit_phase_duration_blocks st \<and>
     \<not> n < start_block st + no_limit_phase_duration_blocks st + linear_penalty_phase_duration_blocks st \<and>
     \<not> n < start_block st + no_limit_phase_duration_blocks st + linear_penalty_phase_duration_blocks st +
       fixed_penalty_phase_duration_blocks st"

lemma redeem_time_iff:
  assumes "penalty_min_percentage st \<le> penalty_max_percentage st"
  shows "get_current_phase env st = Inr Redeem \<longleftrightarrow> redeem_time st (get_block_nonce env)"
  using assms by (simp add: get_current_phase_def redeem_time_def Let_def)

lemma redeem_time_mono: "redeem_time st n \<Longrightarrow> n \<le> m \<Longrightarrow> redeem_time st m"
  unfolding redeem_time_def by (meson less_le_trans not_less order_trans)

text \<open>
  One side of the auction: the redeem tokens of a nonce, with their recorded supply \<open>S\<close> and what
  users hold \<open>H\<close> of them, against the tokens they were got for, with balance \<open>B\<close>, and those
  they buy, with balance \<open>C\<close> and \<open>X\<close> sold.
\<close>

definition side_ok :: "bool \<Rightarrow> biguint \<Rightarrow> biguint \<Rightarrow> biguint \<Rightarrow> biguint \<Rightarrow> biguint \<Rightarrow> bool" where
  "side_ok r S H B C X \<longleftrightarrow> H \<le> S \<and> S \<le> B \<and> X * S \<le> C * (S - H) \<and>
     (S = 0 \<longrightarrow> X = 0) \<and> (\<not> r \<longrightarrow> H = S \<and> X = 0)"

definition discovery_ok ::
  "discovery_storage \<Rightarrow> u64 \<Rightarrow> (u64 \<Rightarrow> biguint) \<Rightarrow> (egld_or_esdt \<Rightarrow> biguint) \<Rightarrow> (egld_or_esdt \<Rightarrow> biguint) \<Rightarrow>
     (egld_or_esdt \<Rightarrow> biguint) \<Rightarrow> bool" where
  "discovery_ok st n H received refunded sold \<longleftrightarrow>
     (let S = redeem_token_total_circulating_supply st; r = redeem_time st n;
          L = launched_token_balance st; A = accepted_token_balance st in
      Esdt (launched_token_id st) \<noteq> accepted_token_id st \<and>
      (case redeem_token st of None \<Rightarrow> True
       | Some t \<Rightarrow> t \<noteq> launched_token_id st \<and> Esdt t \<noteq> accepted_token_id st) \<and>
      penalty_min_percentage st \<le> penalty_max_percentage st \<and>
      penalty_max_percentage st < DISCOVERY_MAX_PERCENTAGE \<and>
      fixed_penalty_percentage st < DISCOVERY_MAX_PERCENTAGE \<and>
      side_ok r (S LAUNCHED_TOKEN_REDEEM_NONCE) (H LAUNCHED_TOKEN_REDEEM_NONCE) L A
        (sold (accepted_token_id st)) \<and>
      side_ok r (S ACCEPTED_TOKEN_REDEEM_NONCE) (H ACCEPTED_TOKEN_REDEEM_NONCE) A L
        (sold (Esdt (launched_token_id st))) \<and>
      L + refunded (Esdt (launched_token_id st)) \<le> received (Esdt (launched_token_id st)) \<and>
      A + refunded (accepted_token_id st) \<le> received (accepted_token_id st))"

definition discovery_inv :: "discovery_books \<Rightarrow> bool" where
  "discovery_inv b \<longleftrightarrow>
     discovery_ok (disc_storage b) (disc_block b) (disc_held b) (disc_received b) (disc_refunded b) (disc_sold b)"

lemma side_ok_sold:
  assumes "side_ok r S H B C X"
  shows "X + C * H div S \<le> C"
proof (cases "S = 0")
  case True
  then show ?thesis using assms by (simp add: side_ok_def)
next
  case False
  have le: "X * S \<le> C * (S - H)" "H \<le> S" using assms by (simp_all add: side_ok_def)
  have "(X + C * H div S) * S = X * S + C * H div S * S" by (rule distrib_right)
  also have "\<dots> \<le> C * (S - H) + C * H" by (rule add_mono [OF le(1) div_mult_le_nat])
  also have "\<dots> = C * S" using le(2) by (simp flip: distrib_left)
  finally have "(X + C * H div S) * S \<le> C * S" .
  then show ?thesis using False by simp
qed

lemma side_ok_deposit: "side_ok False S H B C X \<Longrightarrow> side_ok r (S + a) (H + a) (B + a) C' X"
  by (simp add: side_ok_def)

lemma side_ok_other: "side_ok False S H B C X \<Longrightarrow> side_ok r S H B C' X"
  by (simp add: side_ok_def)

lemma side_ok_withdraw:
  "side_ok False S H B C X \<Longrightarrow> a \<le> S \<Longrightarrow> w \<le> a \<Longrightarrow> w \<le> B \<Longrightarrow> side_ok r (S - a) (H - a) (B - w) C' X"
  by (auto simp: side_ok_def)

lemma side_ok_later: "side_ok r S H B C X \<Longrightarrow> (r \<Longrightarrow> r') \<Longrightarrow> side_ok r' S H B C X"
  by (auto simp: side_ok_def)

lemma side_ok_redeem:
  assumes "side_ok r S H B C X" "a \<le> H" "0 < S" "r'"
  shows "side_ok r' S (H - a) B C (X + C * a div S)"
proof -
  have le: "X * S \<le> C * (S - H)" "H \<le> S" using assms(1) by (simp_all add: side_ok_def)
  have "(X + C * a div S) * S = X * S + C * a div S * S" by (rule distrib_right)
  also have "\<dots> \<le> C * (S - H) + C * a" by (rule add_mono [OF le(1) div_mult_le_nat])
  also have "\<dots> = C * (S - (H - a))" using assms(2) le(2) by (simp flip: distrib_left)
  finally have "(X + C * a div S) * S \<le> C * (S - (H - a))" .
  then show ?thesis using assms by (auto simp: side_ok_def)
qed

lemma redeem_nonces [simp]:
  "LAUNCHED_TOKEN_REDEEM_NONCE \<noteq> ACCEPTED_TOKEN_REDEEM_NONCE"
  "ACCEPTED_TOKEN_REDEEM_NONCE \<noteq> LAUNCHED_TOKEN_REDEEM_NONCE"
  by (simp_all add: LAUNCHED_TOKEN_REDEEM_NONCE_def ACCEPTED_TOKEN_REDEEM_NONCE_def)

section \<open>Every call keeps the invariant\<close>

lemma deposit_phase:
  assumes "penalty_min_percentage st \<le> penalty_max_percentage st"
    and "get_current_phase env st = Inr ph" "ph \<noteq> Redeem"
  shows "\<not> redeem_time st (get_block_nonce env)"
  using redeem_time_iff [OF assms(1), of env] assms(2,3) by auto

lemma allowed_Inr:
  "require_deposit_allowed ph k = Inr y \<Longrightarrow> ph \<noteq> Redeem \<and> ph \<noteq> Idle \<and> k = Inr y"
  "require_withdraw_allowed ph k = Inr y \<Longrightarrow> ph \<noteq> Redeem \<and> ph \<noteq> Idle \<and> k = Inr y"
  by (cases ph; simp)+

lemma deposit_Inr:
  assumes "deposit env st egld ps = Inr (q, st', es)"
  obtains ph k a n t where "get_current_phase env st = Inr ph" "ph \<noteq> Redeem"
    and "egld_or_single_fungible_esdt egld ps = Inr (k, a)" "redeem_token st = Some t"
    and "k = accepted_token_id st \<and> n = ACCEPTED_TOKEN_REDEEM_NONCE \<or>
      k \<noteq> accepted_token_id st \<and> k = Esdt (launched_token_id st) \<and> n = LAUNCHED_TOKEN_REDEEM_NONCE"
    and "st' = (increase_balance st n a)\<lparr>redeem_token_total_circulating_supply :=
      (redeem_token_total_circulating_supply st)(n := redeem_token_total_circulating_supply st n + a)\<rparr>"
    and "es = [NftAddQuantity t n a, DirectSend (get_caller env) [new_payment t n a]]"
    and "q = new_payment t n a" "0 < launched_token_balance st'"
proof -
  obtain ph k a n where ph: "get_current_phase env st = Inr ph" "ph \<noteq> Redeem"
    and k: "egld_or_single_fungible_esdt egld ps = Inr (k, a)"
    and n: "k = accepted_token_id st \<and> n = ACCEPTED_TOKEN_REDEEM_NONCE \<or>
      k \<noteq> accepted_token_id st \<and> k = Esdt (launched_token_id st) \<and> n = LAUNCHED_TOKEN_REDEEM_NONCE"
    and price: "0 < launched_token_balance (increase_balance st n a)"
    and mint: "mint_and_send_redeem_token (increase_balance st n a) (get_caller env) n a = Inr (q, st', es)"
    using assms
    by (fastforce simp: deposit_def res_simps Let_def calculate_price_def split: if_splits dest!: allowed_Inr)
  have same: "redeem_token (increase_balance st n a) = redeem_token st"
    "redeem_token_total_circulating_supply (increase_balance st n a) = redeem_token_total_circulating_supply st"
    by (simp_all add: increase_balance_def)
  obtain t where t: "redeem_token st = Some t" and q: "q = new_payment t n a"
    and st': "st' = (increase_balance st n a)\<lparr>redeem_token_total_circulating_supply :=
      (redeem_token_total_circulating_supply st)(n := redeem_token_total_circulating_supply st n + a)\<rparr>"
    and es: "es = [NftAddQuantity t n a, DirectSend (get_caller env) [new_payment t n a]]"
    using mint by (auto simp: mint_and_send_redeem_token_def redeem_token_id_def res_simps Let_def same split: option.splits)
  have "0 < launched_token_balance st'" using price by (simp add: st')
  from that [OF ph k t n st' es q this] show thesis .
qed

lemma withdraw_Inr:
  assumes "withdraw env st ps = Inr (out, st', es)"
  obtains ph p t w st1 where "get_current_phase env st = Inr ph" "ph \<noteq> Redeem" "ph \<noteq> Idle"
    and "ps = [p]" "redeem_token st = Some t" "token_identifier p = t"
    and "token_nonce p = LAUNCHED_TOKEN_REDEEM_NONCE \<or> token_nonce p = ACCEPTED_TOKEN_REDEEM_NONCE"
    and "amount p \<le> redeem_token_total_circulating_supply st (token_nonce p)"
    and "w = amount p - amount p * get_penalty_percentage ph div DISCOVERY_MAX_PERCENTAGE"
    and "st1 = st\<lparr>redeem_token_total_circulating_supply := (redeem_token_total_circulating_supply st)
      (token_nonce p := redeem_token_total_circulating_supply st (token_nonce p) - amount p)\<rparr>"
    and "decrease_balance st1 (token_nonce p) w = Inr st'"
    and "out = egld_or_esdt_new (if token_nonce p = LAUNCHED_TOKEN_REDEEM_NONCE then Esdt (launched_token_id st)
      else accepted_token_id st) 0 w"
    and "es = NftBurn t (token_nonce p) (amount p) # direct (get_caller env) out"
  using assms
  by (fastforce simp: withdraw_def res_simps Let_def redeem_token_id_def refund_token_def burn_redeem_token_def
      burn_redeem_token_without_supply_decrease_def split: if_splits option.splits dest!: allowed_Inr)

lemma redeem_Inr:
  assumes "redeem env st ps = Inr (out, st', es)"
  obtains p t k C S where "get_current_phase env st = Inr Redeem" "st' = st"
    and "ps = [p]" "redeem_token st = Some t" "token_identifier p = t"
    and "token_nonce p = ACCEPTED_TOKEN_REDEEM_NONCE \<and> k = Esdt (launched_token_id st) \<and>
        C = launched_token_balance st \<or>
      token_nonce p = LAUNCHED_TOKEN_REDEEM_NONCE \<and> k = accepted_token_id st \<and> C = accepted_token_balance st"
    and "S = redeem_token_total_circulating_supply st (token_nonce p)" "0 < S"
    and "out = egld_or_esdt_new k 0 (C * amount p div S)"
    and "\<forall>u. flow_out u es = flow_out u [NftBurn t (token_nonce p) (amount p)] +
      (if u = k then C * amount p div S else 0)"
proof -
  obtain p t bought es1 where ph: "get_current_phase env st = Inr Redeem" and ps: "ps = [p]"
    and t: "redeem_token st = Some t" "token_identifier p = t"
    and bought: "compute_bought_tokens st (token_nonce p) (amount p) = Inr out"
    and pay: "if 0 < payment_amount out
      then \<exists>l e. lock_tokens_and_forward env st (get_caller env) (payment_token out) (payment_amount out) = Inr (l, e) \<and>
        st' = st \<and> es = NftBurn t (token_nonce p) (amount p) # e
      else st' = st \<and> es = [NftBurn t (token_nonce p) (amount p)]"
    using assms
    by (fastforce simp: redeem_def res_simps redeem_token_id_def require_redeem_allowed_def
        burn_redeem_token_without_supply_decrease_def split: if_splits option.splits)
  obtain k C where kC: "token_nonce p = ACCEPTED_TOKEN_REDEEM_NONCE \<and> k = Esdt (launched_token_id st) \<and>
        C = launched_token_balance st \<or>
      token_nonce p = LAUNCHED_TOKEN_REDEEM_NONCE \<and> k = accepted_token_id st \<and> C = accepted_token_balance st"
    and S: "0 < redeem_token_total_circulating_supply st (token_nonce p)"
    and out: "out = egld_or_esdt_new k 0 (C * amount p div redeem_token_total_circulating_supply st (token_nonce p))"
    using bought by (auto simp: compute_bought_tokens_def Let_def res_simps split: if_splits)
  have "st' = st" using pay by (auto split: if_splits)
  moreover have "flow_out u es = flow_out u [NftBurn t (token_nonce p) (amount p)] +
      (if u = k then C * amount p div redeem_token_total_circulating_supply st (token_nonce p) else 0)" for u
  proof (cases "0 < payment_amount out")
    case True
    then obtain l e where "lock_tokens_and_forward env st (get_caller env) (payment_token out) (payment_amount out) = Inr (l, e)"
      and es: "es = NftBurn t (token_nonce p) (amount p) # e"
      using pay by auto
    then have "flow_out u e = (if u = payment_token out then payment_amount out else 0)"
      by (auto simp: lock_tokens_and_forward_def lock_common_def Let_def and_then_Inr split: option.splits)
    then show ?thesis
      using flow_out_simps(2) [of u "[NftBurn t (token_nonce p) (amount p)]" e] by (simp add: es out)
  next
    case False
    then show ?thesis using pay by (simp add: out)
  qed
  ultimately show thesis using that [OF ph _ ps t kC refl S out] by blast
qed

lemma discovery_okD:
  assumes "discovery_ok st n H received refunded sold"
  shows "Esdt (launched_token_id st) \<noteq> accepted_token_id st" "accepted_token_id st \<noteq> Esdt (launched_token_id st)"
    and "redeem_token st = Some t \<Longrightarrow> t \<noteq> launched_token_id st"
    and "redeem_token st = Some t \<Longrightarrow> launched_token_id st \<noteq> t"
    and "redeem_token st = Some t \<Longrightarrow> Esdt t \<noteq> accepted_token_id st"
    and "penalty_min_percentage st \<le> penalty_max_percentage st"
    and "side_ok (redeem_time st n) (redeem_token_total_circulating_supply st LAUNCHED_TOKEN_REDEEM_NONCE)
      (H LAUNCHED_TOKEN_REDEEM_NONCE) (launched_token_balance st) (accepted_token_balance st)
      (sold (accepted_token_id st))"
    and "side_ok (redeem_time st n) (redeem_token_total_circulating_supply st ACCEPTED_TOKEN_REDEEM_NONCE)
      (H ACCEPTED_TOKEN_REDEEM_NONCE) (accepted_token_balance st) (launched_token_balance st)
      (sold (Esdt (launched_token_id st)))"
  using assms by (auto simp: discovery_ok_def Let_def)

lemma flow_out_redeem_token:
  assumes "k = Esdt (launched_token_id st) \<or> k = accepted_token_id st" "redeem_token st = Some t"
    and "discovery_ok st n H received refunded sold"
  shows "flow_out k [NftBurn t m a] = 0" "flow_out k [NftAddQuantity t m a, DirectSend d [new_payment t m a]] = 0"
    and "flow_out k (NftBurn t m a # es) = flow_out k es"
proof -
  have "k \<noteq> Esdt t" using assms(1) discovery_okD(3,5) [OF assms(3,2)] by auto
  then show "flow_out k [NftBurn t m a] = 0" "flow_out k [NftAddQuantity t m a, DirectSend d [new_payment t m a]] = 0"
    and "flow_out k (NftBurn t m a # es) = flow_out k es"
    by (auto simp: flow_out_def paid_in_def new_payment_def split: egld_or_esdt.splits)
qed

text \<open>What the redemption time and the redeem tokens paid depend on.\<close>

lemma redeem_time_upd [simp]:
  "redeem_time (st\<lparr>redeem_token_total_circulating_supply := S\<rparr>) = redeem_time st"
  "redeem_time (st\<lparr>launched_token_balance := a\<rparr>) = redeem_time st"
  "redeem_time (st\<lparr>accepted_token_balance := b\<rparr>) = redeem_time st"
  "redeem_time (st\<lparr>redeem_token_last_nonce := n\<rparr>) = redeem_time st"
  "redeem_time (st\<lparr>discovery_locking_sc_address := sc\<rparr>) = redeem_time st"
  "redeem_time (st\<lparr>discovery_unlock_epoch := e\<rparr>) = redeem_time st"
  "redeem_time (st\<lparr>redeem_token := t\<rparr>) = redeem_time st"
  by (simp_all add: redeem_time_def fun_eq_iff)

text \<open>What a call must establish: the configuration kept, both sides, and the tokens of both sides.\<close>

definition same_config :: "discovery_storage \<Rightarrow> discovery_storage \<Rightarrow> bool" where
  "same_config st st' \<longleftrightarrow> launched_token_id st' = launched_token_id st \<and>
     accepted_token_id st' = accepted_token_id st \<and> redeem_token st' = redeem_token st \<and>
     penalty_min_percentage st' = penalty_min_percentage st \<and>
     penalty_max_percentage st' = penalty_max_percentage st \<and>
     fixed_penalty_percentage st' = fixed_penalty_percentage st \<and> redeem_time st' = redeem_time st"

lemma discovery_ok_next:
  assumes "discovery_ok st n H received refunded sold" "same_config st st'"
    and "side_ok (redeem_time st n') (redeem_token_total_circulating_supply st' LAUNCHED_TOKEN_REDEEM_NONCE)
      (H' LAUNCHED_TOKEN_REDEEM_NONCE) (launched_token_balance st') (accepted_token_balance st')
      (sold' (accepted_token_id st))"
    and "side_ok (redeem_time st n') (redeem_token_total_circulating_supply st' ACCEPTED_TOKEN_REDEEM_NONCE)
      (H' ACCEPTED_TOKEN_REDEEM_NONCE) (accepted_token_balance st') (launched_token_balance st')
      (sold' (Esdt (launched_token_id st)))"
    and "launched_token_balance st' + refunded' (Esdt (launched_token_id st)) +
        received (Esdt (launched_token_id st)) \<le> received' (Esdt (launched_token_id st)) +
        launched_token_balance st + refunded (Esdt (launched_token_id st))"
    and "accepted_token_balance st' + refunded' (accepted_token_id st) + received (accepted_token_id st) \<le>
        received' (accepted_token_id st) + accepted_token_balance st + refunded (accepted_token_id st)"
  shows "discovery_ok st' n' H' received' refunded' sold'"
  using assms by (simp add: discovery_ok_def same_config_def Let_def split: option.splits)

lemma deposit_ok:
  assumes run: "deposit env st egld ps = Inr (q, st', es)" and ok: "discovery_ok st n0 H received refunded sold"
    and n0: "n0 \<le> get_block_nonce env"
  shows "discovery_ok st' (get_block_nonce env)
    (\<lambda>n. H n - redeem_paid st ps n + redeem_minted (Deposit egld ps) es n)
    (\<lambda>k. received k + flow_in k (Deposit egld ps)) (\<lambda>k. refunded k + flow_out k es) sold"
proof -
  obtain ph k a n t where ph: "get_current_phase env st = Inr ph" "ph \<noteq> Redeem"
    and k: "egld_or_single_fungible_esdt egld ps = Inr (k, a)" and t: "redeem_token st = Some t"
    and n: "k = accepted_token_id st \<and> n = ACCEPTED_TOKEN_REDEEM_NONCE \<or>
      k \<noteq> accepted_token_id st \<and> k = Esdt (launched_token_id st) \<and> n = LAUNCHED_TOKEN_REDEEM_NONCE"
    and st': "st' = (increase_balance st n a)\<lparr>redeem_token_total_circulating_supply :=
      (redeem_token_total_circulating_supply st)(n := redeem_token_total_circulating_supply st n + a)\<rparr>"
    and es: "es = [NftAddQuantity t n a, DirectSend (get_caller env) [new_payment t n a]]"
    by (rule deposit_Inr [OF run])
  have late: "\<not> redeem_time st (get_block_nonce env)"
    by (rule deposit_phase [OF discovery_okD(6) [OF ok] ph])
  then have early: "redeem_time st n0 = False" using redeem_time_mono n0 by blast
  have received: "flow_in k (Deposit egld ps) = a" and paid: "redeem_paid st ps = (\<lambda>n. 0)"
    using k n t discovery_okD(3,4,5) [OF ok t]
    by (auto simp: egld_or_single_fungible_esdt_def flow_in_def redeem_paid_def res_simps fun_eq_iff
        split: list.splits egld_or_esdt.splits)
  have minted: "redeem_minted (Deposit egld ps) es m = (if m = n then a else 0)" for m by (simp add: es)
  note out = flow_out_redeem_token(2) [OF _ t ok, of _ n a "get_caller env", folded es]
  note sides = discovery_okD(7,8) [OF ok, unfolded early]
  have config: "same_config st st'" by (simp add: st' increase_balance_def same_config_def)
  show ?thesis
  proof (cases "n = ACCEPTED_TOKEN_REDEEM_NONCE")
    case True
    then have k: "k = accepted_token_id st" using n by auto
    show ?thesis
      by (rule discovery_ok_next [OF ok config])
        (use sides received [unfolded k] in \<open>simp_all only: late minted paid out True, simp_all add: st' increase_balance_def True
          out side_ok_deposit side_ok_other\<close>)
  next
    case False
    then have k: "k = Esdt (launched_token_id st)" "n = LAUNCHED_TOKEN_REDEEM_NONCE" using n by auto
    show ?thesis
      by (rule discovery_ok_next [OF ok config])
        (use sides received [unfolded k] in \<open>simp_all only: late minted paid out k, simp_all add: st' increase_balance_def k
          out side_ok_deposit side_ok_other\<close>)
  qed
qed

lemma decrease_balance_Inr:
  "decrease_balance st n a = Inr st' \<longleftrightarrow>
     (if n = ACCEPTED_TOKEN_REDEEM_NONCE
      then a \<le> accepted_token_balance st \<and> st' = st\<lparr>accepted_token_balance := accepted_token_balance st - a\<rparr>
      else a \<le> launched_token_balance st \<and> st' = st\<lparr>launched_token_balance := launched_token_balance st - a\<rparr>)"
  by (auto simp: decrease_balance_def res_simps)

lemma redeem_paid_single:
  "redeem_token st = Some (token_identifier p) \<Longrightarrow>
     redeem_paid st [p] n = (if n = token_nonce p then amount p else 0)"
  by (simp add: redeem_paid_def)

lemma withdraw_ok:
  assumes run: "withdraw env st ps = Inr (q, st', es)" and ok: "discovery_ok st n0 H received refunded sold"
    and n0: "n0 \<le> get_block_nonce env"
  shows "discovery_ok st' (get_block_nonce env) (\<lambda>n. H n - redeem_paid st ps n)
    (\<lambda>k. received k + flow_in k (Withdraw ps)) (\<lambda>k. refunded k + flow_out k es) sold"
proof -
  obtain ph p t w st1 where ph: "get_current_phase env st = Inr ph" "ph \<noteq> Redeem" and ps: "ps = [p]"
    and t: "redeem_token st = Some t" "token_identifier p = t"
    and n: "token_nonce p = LAUNCHED_TOKEN_REDEEM_NONCE \<or> token_nonce p = ACCEPTED_TOKEN_REDEEM_NONCE"
    and a: "amount p \<le> redeem_token_total_circulating_supply st (token_nonce p)"
    and w: "w = amount p - amount p * get_penalty_percentage ph div DISCOVERY_MAX_PERCENTAGE"
    and st1: "st1 = st\<lparr>redeem_token_total_circulating_supply := (redeem_token_total_circulating_supply st)
      (token_nonce p := redeem_token_total_circulating_supply st (token_nonce p) - amount p)\<rparr>"
    and dec: "decrease_balance st1 (token_nonce p) w = Inr st'"
    and q: "q = egld_or_esdt_new (if token_nonce p = LAUNCHED_TOKEN_REDEEM_NONCE then Esdt (launched_token_id st)
      else accepted_token_id st) 0 w"
    and es: "es = NftBurn t (token_nonce p) (amount p) # direct (get_caller env) q"
    by (rule withdraw_Inr [OF run])
  have late: "\<not> redeem_time st (get_block_nonce env)"
    by (rule deposit_phase [OF discovery_okD(6) [OF ok] ph])
  then have early: "redeem_time st n0 = False" using redeem_time_mono n0 by blast
  note sides = discovery_okD(7,8) [OF ok, unfolded early]
  note paid = redeem_paid_single [of st p, OF t(1) [folded t(2)]]
  note out = flow_out_redeem_token(3) [OF _ t(1) ok, of _ "token_nonce p" "amount p" "direct (get_caller env) q", folded es]
  have w_le: "w \<le> amount p" by (simp add: w)
  have config: "same_config st st'" using dec by (auto simp: decrease_balance_Inr st1 same_config_def split: if_splits)
  show ?thesis
  proof (cases "token_nonce p = ACCEPTED_TOKEN_REDEEM_NONCE")
    case True
    then have w_B: "w \<le> accepted_token_balance st" and st': "st' = st1\<lparr>accepted_token_balance := accepted_token_balance st - w\<rparr>"
      using dec by (auto simp: decrease_balance_Inr st1)
    show ?thesis
      by (rule discovery_ok_next [OF ok config])
        (use sides a w_B w_le True discovery_okD(1) [OF ok] in \<open>simp_all add: late ps paid out q st' st1 side_ok_withdraw side_ok_other\<close>)
  next
    case False
    then have n: "token_nonce p = LAUNCHED_TOKEN_REDEEM_NONCE" using n by simp
    then have w_B: "w \<le> launched_token_balance st" and st': "st' = st1\<lparr>launched_token_balance := launched_token_balance st - w\<rparr>"
      using dec by (auto simp: decrease_balance_Inr st1)
    show ?thesis
      by (rule discovery_ok_next [OF ok config])
        (use sides a w_B w_le n discovery_okD(1) [OF ok] in \<open>simp_all add: late ps paid out q st' st1 side_ok_withdraw side_ok_other\<close>)
  qed
qed

lemma redeem_ok:
  assumes run: "redeem env st ps = Inr (q, st', es)" and ok: "discovery_ok st n0 H received refunded sold"
    and held: "list_all (\<lambda>p. redeem_paid st ps (token_nonce p) \<le> H (token_nonce p)) ps"
  shows "discovery_ok st' (get_block_nonce env) (\<lambda>n. H n - redeem_paid st ps n)
    (\<lambda>k. received k + flow_in k (RedeemTokens ps)) refunded (\<lambda>k. sold k + flow_out k es)"
proof -
  obtain p t k C S where ph: "get_current_phase env st = Inr Redeem" and st': "st' = st" and ps: "ps = [p]"
    and t: "redeem_token st = Some t" "token_identifier p = t"
    and n: "token_nonce p = ACCEPTED_TOKEN_REDEEM_NONCE \<and> k = Esdt (launched_token_id st) \<and>
        C = launched_token_balance st \<or>
      token_nonce p = LAUNCHED_TOKEN_REDEEM_NONCE \<and> k = accepted_token_id st \<and> C = accepted_token_balance st"
    and S: "S = redeem_token_total_circulating_supply st (token_nonce p)" "0 < S"
    and q: "q = egld_or_esdt_new k 0 (C * amount p div S)"
    and flow: "\<forall>u. flow_out u es = flow_out u [NftBurn t (token_nonce p) (amount p)] +
      (if u = k then C * amount p div S else 0)"
    by (rule redeem_Inr [OF run])
  have late: "redeem_time st (get_block_nonce env)"
    using redeem_time_iff [OF discovery_okD(6) [OF ok]] ph by blast
  note sides = discovery_okD(7,8) [OF ok]
  note paid = redeem_paid_single [of st p, OF t(1) [folded t(2)]]
  have le: "amount p \<le> H (token_nonce p)" using held by (simp add: ps paid)
  note out = flow_out_redeem_token(1) [OF _ t(1) ok]
  have config: "same_config st st'" by (simp add: st' same_config_def)
  show ?thesis
  proof (cases "token_nonce p = ACCEPTED_TOKEN_REDEEM_NONCE")
    case True
    then have k: "k = Esdt (launched_token_id st)" "C = launched_token_balance st" using n by auto
    show ?thesis
      by (rule discovery_ok_next [OF ok config])
        (use side_ok_redeem [OF sides(2) le [unfolded True] S(2) [unfolded S(1) True] late]
          side_ok_later [OF sides(1), of True] True discovery_okD(1,2) [OF ok] in
          \<open>simp_all add: late ps paid flow out k S(1) st'\<close>)
  next
    case False
    then have k: "k = accepted_token_id st" "C = accepted_token_balance st" "token_nonce p = LAUNCHED_TOKEN_REDEEM_NONCE"
      using n by auto
    show ?thesis
      by (rule discovery_ok_next [OF ok config])
        (use side_ok_redeem [OF sides(1) le [unfolded k] S(2) [unfolded S(1) k] late]
          side_ok_later [OF sides(2), of True] discovery_okD(1,2) [OF ok] in
          \<open>simp_all add: late ps paid flow out k S(1) st'\<close>)
  qed
qed

lemma quiet_ok:
  assumes ok: "discovery_ok st n H received refunded sold" and n: "n \<le> n'" and config: "same_config st st'"
    and "launched_token_balance st' = launched_token_balance st"
      "accepted_token_balance st' = accepted_token_balance st"
      "redeem_token_total_circulating_supply st' = redeem_token_total_circulating_supply st"
  shows "discovery_ok st' n' H received refunded sold"
  by (rule discovery_ok_next [OF ok config])
    (use discovery_okD(7,8) [OF ok, THEN side_ok_later, OF redeem_time_mono [OF _ n]] assms(4-6) in simp_all)

lemma quiet_flows [simp]:
  "redeem_paid st [] n = 0" "flow_in k CreateInitialRedeemTokens = 0" "flow_in k (DiscoveryLockingSc a) = 0"
  "flow_in k (DiscoveryUnlockEpoch e) = 0" "flow_in k (RedeemTokenIssued t) = 0"
  "flow_out k [NftCreate t a, NftCreate t a] = 0"
  by (simp_all add: redeem_paid_def flow_in_def flow_out_def paid_in_def split: egld_or_esdt.splits)

lemma issued_ok:
  assumes ok: "discovery_ok st n H received refunded sold" and n: "n \<le> n'"
    and run: "redeem_token_issued st t = Inr st'"
  shows "discovery_ok st' n' H received refunded sold"
proof -
  have st': "st' = st\<lparr>redeem_token := Some t\<rparr>" and t: "t \<noteq> launched_token_id st" "Esdt t \<noteq> accepted_token_id st"
    using run by (auto simp: redeem_token_issued_def require_Inr)
  have "discovery_ok st n' H received refunded sold"
    by (rule quiet_ok [OF ok n]) (simp_all add: same_config_def)
  then show ?thesis using t by (simp add: st' discovery_ok_def Let_def)
qed

lemma discovery_step_inv:
  assumes inv: "discovery_inv b" and "discovery_step b x = Inr b'"
  shows "discovery_inv b'"
proof -
  obtain env call where x: "x = (env, call)" by (cases x)
  let ?st = "disc_storage b" and ?ps = "discovery_payments call"
  obtain st' es where n: "disc_block b \<le> get_block_nonce env"
    and held: "list_all (\<lambda>p. redeem_paid ?st ?ps (token_nonce p) \<le> disc_held b (token_nonce p)) ?ps"
    and run: "discovery_exec env ?st call = Inr (st', es)"
    and b': "b' = \<lparr>disc_storage = st', disc_block = get_block_nonce env,
           disc_held = (\<lambda>n. disc_held b n - redeem_paid ?st ?ps n + redeem_minted call es n),
           disc_received = (\<lambda>k. disc_received b k + flow_in k call),
           disc_refunded = (\<lambda>k. disc_refunded b k + (if is_redeem call then 0 else flow_out k es)),
           disc_sold = (\<lambda>k. disc_sold b k + (if is_redeem call then flow_out k es else 0))\<rparr>"
    using assms(2) by (auto simp: discovery_step_def x Let_def res_simps)
  have ok: "discovery_ok ?st (disc_block b) (disc_held b) (disc_received b) (disc_refunded b) (disc_sold b)"
    using inv by (simp add: discovery_inv_def)
  show ?thesis
  proof (cases call)
    case (Deposit egld ps)
    then show ?thesis
      using deposit_ok [OF _ ok n, of egld ps] run
      by (auto simp: discovery_inv_def b' and_then_Inr simp del: redeem_minted.simps(1))
  next
    case (Withdraw ps)
    then show ?thesis using withdraw_ok [OF _ ok n, of ps] run by (auto simp: discovery_inv_def b' and_then_Inr)
  next
    case (RedeemTokens ps)
    then show ?thesis using redeem_ok [OF _ ok, of env ps] held run by (auto simp: discovery_inv_def b' and_then_Inr)
  next
    case (RedeemTokenIssued t)
    then show ?thesis using issued_ok [OF ok n] run by (auto simp: discovery_inv_def b' and_then_Inr flow_out_simps)
  next
    case CreateInitialRedeemTokens
    then show ?thesis
      using quiet_ok [OF ok n, of st'] run
      by (auto simp: discovery_inv_def b' create_initial_redeem_tokens_def require_Inr same_config_def split: option.splits)
  next
    case (DiscoveryLockingSc a)
    then show ?thesis
      using quiet_ok [OF ok n, of st'] run
      by (auto simp: discovery_inv_def b' discovery_set_locking_sc_address_def discovery_set_locking_sc_def
          discovery_only_owner_def and_then_Inr require_Inr same_config_def)
  next
    case (DiscoveryUnlockEpoch e)
    then show ?thesis
      using quiet_ok [OF ok n, of st'] run
      by (auto simp: discovery_inv_def b' discovery_set_unlock_epoch_def
          discovery_only_owner_def and_then_Inr require_Inr same_config_def)
  qed
qed

interpretation discovery_run: step_system discovery_step discovery_inv "\<lambda>x. True"
  by unfold_locales (rule discovery_step_inv)

section \<open>Deployment\<close>

definition empty_discovery_storage :: discovery_storage where
  "empty_discovery_storage = \<lparr>launched_token_id = '''', accepted_token_id = Egld, launched_token_balance = 0,
     accepted_token_balance = 0, start_block = 0, end_block = 0, no_limit_phase_duration_blocks = 0,
     linear_penalty_phase_duration_blocks = 0, fixed_penalty_phase_duration_blocks = 0, penalty_min_percentage = 0,
     penalty_max_percentage = 0, fixed_penalty_percentage = 0, redeem_token = None,
     redeem_token_total_circulating_supply = (\<lambda>n. 0), min_launched_token_price = 0, price_precision = 0,
     discovery_locking_sc_address = None, discovery_unlock_epoch = 0, redeem_token_last_nonce = 0\<rparr>"

definition new_discovery_books :: "u64 \<Rightarrow> discovery_storage \<Rightarrow> discovery_books" where
  "new_discovery_books n st = \<lparr>disc_storage = st, disc_block = n, disc_held = (\<lambda>n. 0), disc_received = (\<lambda>k. 0),
     disc_refunded = (\<lambda>k. 0), disc_sold = (\<lambda>k. 0)\<rparr>"

lemma new_discovery_inv:
  assumes "discovery_init env empty_discovery_storage launched accepted decimals min_price start no_limit linear
    fixed unlock pen_min pen_max pen_fixed locking_sc = Inr st"
  shows "discovery_inv (new_discovery_books (get_block_nonce env) st)"
  using assms
  by (auto simp: discovery_init_def discovery_set_locking_sc_def Let_def require_Inr discovery_inv_def
      new_discovery_books_def discovery_ok_def side_ok_def empty_discovery_storage_def)

end
