(* ===== verification/PriceDiscoveryProperties.thy ===== *)
theory PriceDiscoveryProperties
  imports PriceDiscoveryBooks
begin

text \<open>The properties of price discovery, with a run from its deployment as the input of their witnesses.\<close>

section \<open>The prices are final once tokens are redeemed\<close>

definition final_state :: "discovery_storage \<Rightarrow> discovery_books \<Rightarrow> bool" where
  "final_state st0 b \<longleftrightarrow>
     (let st = disc_storage b in discovery_inv b \<and> redeem_time st (disc_block b) \<and>
      launched_token_id st = launched_token_id st0 \<and> accepted_token_id st = accepted_token_id st0 \<and>
      launched_token_balance st = launched_token_balance st0 \<and>
      accepted_token_balance st = accepted_token_balance st0 \<and>
      redeem_token_total_circulating_supply st = redeem_token_total_circulating_supply st0)"

lemma final_step:
  assumes final: "final_state st0 b" and step: "discovery_step b x = Inr b'"
  shows "final_state st0 b'"
proof -
  obtain env call where x: "x = (env, call)" by (cases x)
  let ?st = "disc_storage b"
  have inv: "discovery_inv b" "discovery_inv b'" and now: "redeem_time ?st (disc_block b)"
    using final discovery_step_inv [OF _ step] by (simp_all add: final_state_def Let_def)
  obtain st' es where n: "disc_block b \<le> get_block_nonce env"
    and run: "discovery_exec env ?st call = Inr (st', es)"
    and b': "disc_storage b' = st'" "disc_block b' = get_block_nonce env"
    using step by (auto simp: discovery_step_def x Let_def res_simps)
  have late: "redeem_time ?st (get_block_nonce env)" by (rule redeem_time_mono [OF now n])
  have "penalty_min_percentage ?st \<le> penalty_max_percentage ?st"
    using discovery_okD(6) inv(1) by (simp add: discovery_inv_def)
  then have ph: "get_current_phase env ?st = Inr Redeem" using late by (simp add: redeem_time_iff)
  have "redeem_time st' (get_block_nonce env) \<and>
      launched_token_id st' = launched_token_id ?st \<and> accepted_token_id st' = accepted_token_id ?st \<and>
      launched_token_balance st' = launched_token_balance ?st \<and>
      accepted_token_balance st' = accepted_token_balance ?st \<and>
      redeem_token_total_circulating_supply st' = redeem_token_total_circulating_supply ?st"
    using run late
  proof (cases call)
    case (Deposit egld ps)
    then show ?thesis using run ph by (auto simp: and_then_Inr elim!: deposit_Inr)
  next
    case (Withdraw ps)
    then show ?thesis using run ph by (auto simp: and_then_Inr elim!: withdraw_Inr)
  next
    case (RedeemTokens ps)
    then show ?thesis using run late by (auto simp: and_then_Inr elim!: redeem_Inr)
  qed (auto simp: create_initial_redeem_tokens_def discovery_set_locking_sc_address_def
      discovery_set_locking_sc_def discovery_set_unlock_epoch_def discovery_only_owner_def
      redeem_token_issued_def and_then_Inr require_Inr split: option.splits)
  then show ?thesis using final inv(2) by (simp add: final_state_def b' Let_def)
qed

interpretation discovery_final: step_system discovery_step "final_state st0" "\<lambda>x. True"
  by unfold_locales (rule final_step)

section \<open>Phases\<close>

fun phase_number :: "phase \<Rightarrow> nat" where
  "phase_number Idle = 0"
| "phase_number NoPenalty = 1"
| "phase_number (LinearIncreasingPenalty p) = 2"
| "phase_number (OnlyWithdrawFixedPenalty p) = 3"
| "phase_number Redeem = 4"

lemma blocks_passed_less:
  fixes s d n :: u64
  assumes "s \<le> n" "n < s + d"
  shows "unat (n - s) < unat d"
proof -
  have "unat s \<le> unat n" "unat n < unat (s + d)" using assms by (simp_all add: word_le_nat_alt word_less_nat_alt)
  moreover have "unat (s + d) \<le> unat s + unat d" by (simp add: unat_word_ariths)
  ultimately show ?thesis using assms(1) by (simp add: unat_sub)
qed

definition linear_penalty :: "discovery_storage \<Rightarrow> u64 \<Rightarrow> nat" where
  "linear_penalty st n =
     (let k = unat (n - (start_block st + no_limit_phase_duration_blocks st));
          d = linear_penalty_phase_duration_blocks st in
      penalty_min_percentage st +
      (if 1 < d then (penalty_max_percentage st - penalty_min_percentage st) * k div unat (d - 1) else 0))"

lemma phase_cases:
  assumes "get_current_phase env st = Inr ph" "penalty_min_percentage st \<le> penalty_max_percentage st"
  defines "n \<equiv> get_block_nonce env" and "e1 \<equiv> start_block st + no_limit_phase_duration_blocks st"
  defines "e2 \<equiv> e1 + linear_penalty_phase_duration_blocks st"
  defines "e3 \<equiv> e2 + fixed_penalty_phase_duration_blocks st"
  shows "ph = Idle \<and> n < start_block st \<or>
    ph = NoPenalty \<and> \<not> n < start_block st \<and> n < e1 \<or>
    ph = LinearIncreasingPenalty (linear_penalty st n) \<and> \<not> n < start_block st \<and> \<not> n < e1 \<and> n < e2 \<or>
    ph = OnlyWithdrawFixedPenalty (fixed_penalty_percentage st) \<and>
      \<not> n < start_block st \<and> \<not> n < e1 \<and> \<not> n < e2 \<and> n < e3 \<or>
    ph = Redeem \<and> \<not> n < start_block st \<and> \<not> n < e1 \<and> \<not> n < e2 \<and> \<not> n < e3"
  using assms(1,2)
  by (auto simp: get_current_phase_def linear_penalty_def Let_def n_def e1_def e2_def e3_def split: if_splits)

lemma linear_penalty_bounds:
  assumes "penalty_min_percentage st \<le> penalty_max_percentage st"
    and n: "start_block st + no_limit_phase_duration_blocks st \<le> n"
      "n < start_block st + no_limit_phase_duration_blocks st + linear_penalty_phase_duration_blocks st"
  shows "penalty_min_percentage st \<le> linear_penalty st n" "linear_penalty st n \<le> penalty_max_percentage st"
proof -
  let ?d = "linear_penalty_phase_duration_blocks st"
  let ?k = "unat (n - (start_block st + no_limit_phase_duration_blocks st))"
  let ?diff = "penalty_max_percentage st - penalty_min_percentage st"
  have "?diff * ?k div unat (?d - 1) \<le> ?diff" if "1 < ?d"
  proof (rule div_le_of_le_mult)
    have "?k < unat ?d" by (rule blocks_passed_less [OF n])
    moreover have "unat (?d - 1) = unat ?d - 1" using that by (simp add: unat_sub word_le_nat_alt word_less_nat_alt)
    ultimately have "?k \<le> unat (?d - 1)" by linarith
    then show "?diff * ?k \<le> ?diff * unat (?d - 1)" by (rule mult_le_mono2)
  qed
  then have "(if 1 < ?d then ?diff * ?k div unat (?d - 1) else 0) \<le> ?diff" by simp
  then show "penalty_min_percentage st \<le> linear_penalty st n" "linear_penalty st n \<le> penalty_max_percentage st"
    using assms(1) unfolding linear_penalty_def Let_def by linarith+
qed

lemma linear_penalty_mono:
  assumes "start_block st + no_limit_phase_duration_blocks st \<le> n" "n \<le> m"
  shows "linear_penalty st n \<le> linear_penalty st m"
proof -
  let ?s = "start_block st + no_limit_phase_duration_blocks st"
  have "unat (n - ?s) \<le> unat (m - ?s)"
    using assms by (simp add: unat_sub order_trans [OF assms] word_le_nat_alt [THEN iffD1] diff_le_mono)
  then show ?thesis
    by (simp add: linear_penalty_def Let_def div_le_mono mult_le_mono2)
qed

text \<open>Phases only advance. At a later block the phase is the same or a later one, even where the sum
  of the durations wraps, so once tokens can be redeemed no deposit or withdrawal is possible any
  more; the penalty of a withdrawal stays between the minimum and the maximum, below 100%, in the
  phase of the increasing penalty, and never falls during it.
\<close>

theorem phases_only_advance:
  fixes st :: discovery_storage
  assumes "get_current_phase env st = Inr p" "get_current_phase env' st = Inr q"
    and "get_block_nonce env \<le> get_block_nonce env'"
    and "penalty_min_percentage st \<le> penalty_max_percentage st"
  shows "phase_number p \<le> phase_number q \<and>
    (\<forall>a. p = LinearIncreasingPenalty a \<longrightarrow> penalty_min_percentage st \<le> a \<and> a \<le> penalty_max_percentage st) \<and>
    (\<forall>a b. p = LinearIncreasingPenalty a \<and> q = LinearIncreasingPenalty b \<longrightarrow> a \<le> b)"
proof -
  note p = phase_cases [OF assms(1,4)] and q = phase_cases [OF assms(2,4)]
  have "phase_number p \<le> phase_number q"
    using p q assms(3) by (elim disjE conjE) (auto dest: order_le_less_trans)
  then show ?thesis
    using p q linear_penalty_bounds [OF assms(4), of "get_block_nonce env"]
      linear_penalty_mono [OF _ assms(3), of st]
    by (auto simp: not_less)
qed

section \<open>A run\<close>

definition ex_disc_env :: "address \<Rightarrow> u64 \<Rightarrow> discovery_env" where
  "ex_disc_env caller n = \<lparr>get_caller = caller, get_sc_address = 4, get_owner_address = 2,
     get_block_epoch = 1, get_block_round = 0, get_block_nonce = n, get_block_timestamp = 0,
     is_smart_contract = (\<lambda>a. a < 5), is_valid_esdt_identifier = (\<lambda>t. True),
     call_simple_lock = (\<lambda>sc e d p. Inr p)\<rparr>"

definition ex_disc :: discovery_storage where
  "ex_disc = empty_discovery_storage\<lparr>launched_token_id := ''NEW'', accepted_token_id := Esdt ''WEGLD'',
     start_block := 10, end_block := 25, discovery_unlock_epoch := 30, price_precision := 100,
     min_launched_token_price := 1, no_limit_phase_duration_blocks := 5,
     linear_penalty_phase_duration_blocks := 5, fixed_penalty_phase_duration_blocks := 5,
     penalty_min_percentage := 1000000000000, penalty_max_percentage := 5000000000000,
     fixed_penalty_percentage := 2500000000000, discovery_locking_sc_address := Some 1\<rparr>"

lemma ex_disc_init:
  "discovery_init (ex_disc_env 2 3) empty_discovery_storage ''NEW'' (Esdt ''WEGLD'') 2 1 10 5 5 5 30
     1000000000000 5000000000000 2500000000000 1 = Inr ex_disc"
  by (simp add: discovery_init_def discovery_set_locking_sc_def ex_disc_env_def ex_disc_def is_valid_token_def
      empty_discovery_storage_def MAX_TOKEN_DECIMALS_def DISCOVERY_MAX_PERCENTAGE_def Let_def)

definition ex_disc_calls :: "(discovery_env \<times> discovery_call) list" where
  "ex_disc_calls =
    [(ex_disc_env 2 4, RedeemTokenIssued ''RT''), (ex_disc_env 2 5, CreateInitialRedeemTokens),
     (ex_disc_env 7 10, Deposit 0 [new_payment ''NEW'' 0 1000]),
     (ex_disc_env 8 11, Deposit 0 [new_payment ''WEGLD'' 0 400]),
     (ex_disc_env 8 16, Withdraw [new_payment ''RT'' 2 100]),
     (ex_disc_env 7 25, RedeemTokens [new_payment ''RT'' 1 500])]"

abbreviation ex_disc_books :: discovery_books where
  "ex_disc_books \<equiv> run_txs discovery_step (new_discovery_books 3 ex_disc) ex_disc_calls"

lemmas disc_eval =
  ex_disc_def ex_disc_env_def empty_discovery_storage_def new_discovery_books_def discovery_step_def Let_def
  redeem_token_issued_def create_initial_redeem_tokens_def deposit_def withdraw_def redeem_def get_current_phase_def
  egld_or_single_fungible_esdt_def increase_balance_def decrease_balance_def calculate_price_def
  mint_and_send_redeem_token_def redeem_token_id_def refund_token_def burn_redeem_token_def
  burn_redeem_token_without_supply_decrease_def compute_bought_tokens_def require_redeem_allowed_def
  lock_tokens_and_forward_def lock_common_def transfer_execute_def single_esdt_def new_payment_def
  egld_or_esdt_new_def direct_def redeem_paid_def flow_in_def flow_out_def outflow_def paid_in_def
  LAUNCHED_TOKEN_REDEEM_NONCE_def ACCEPTED_TOKEN_REDEEM_NONCE_def DISCOVERY_MAX_PERCENTAGE_def big_sub_def big_div_def

definition ex_disc_view :: "discovery_books \<Rightarrow> biguint \<times> biguint \<times> biguint \<times> biguint \<times> biguint \<times> biguint" where
  "ex_disc_view b = (disc_received b (Esdt ''WEGLD''), disc_refunded b (Esdt ''WEGLD''), disc_sold b (Esdt ''WEGLD''),
     accepted_token_balance (disc_storage b), disc_held b 1, redeem_token_total_circulating_supply (disc_storage b) 1)"

lemma ex_disc_run: "ex_disc_view ex_disc_books = (400, 80, 160, 320, 500, 1000)"
  by (simp add: disc_eval ex_disc_calls_def ex_disc_view_def cong: and_then_weak_cong require_weak_cong let_weak_cong)

lemma ex_disc_run_sel:
  "disc_received ex_disc_books (Esdt ''WEGLD'') = 400" "disc_refunded ex_disc_books (Esdt ''WEGLD'') = 80"
  "disc_sold ex_disc_books (Esdt ''WEGLD'') = 160" "accepted_token_balance (disc_storage ex_disc_books) = 320"
  "disc_held ex_disc_books 1 = 500" "redeem_token_total_circulating_supply (disc_storage ex_disc_books) 1 = 1000"
  using ex_disc_run unfolding ex_disc_view_def by simp_all

definition ex_disc_view2 :: "discovery_books \<Rightarrow> token_id \<times> egld_or_esdt \<times> token_id option \<times> address option \<times> bool" where
  "ex_disc_view2 b = (let st = disc_storage b in
     (launched_token_id st, accepted_token_id st, redeem_token st, discovery_locking_sc_address st,
      redeem_time st (disc_block b)))"

lemma ex_disc_run2: "ex_disc_view2 ex_disc_books = (''NEW'', Esdt ''WEGLD'', Some ''RT'', Some 1, True)"
  by (simp add: disc_eval redeem_time_def ex_disc_calls_def ex_disc_view2_def
      cong: and_then_weak_cong require_weak_cong let_weak_cong)

lemma ex_disc_run2_sel:
  "launched_token_id (disc_storage ex_disc_books) = ''NEW''"
  "accepted_token_id (disc_storage ex_disc_books) = Esdt ''WEGLD''"
  "redeem_token (disc_storage ex_disc_books) = Some ''RT''"
  "discovery_locking_sc_address (disc_storage ex_disc_books) = Some 1"
  "redeem_time (disc_storage ex_disc_books) (disc_block ex_disc_books)"
  using ex_disc_run2 unfolding ex_disc_view2_def Let_def by simp_all

section \<open>The books\<close>

text \<open>C28: Price discovery can pay what it promises. Whatever calls are made after the deployment, at
  block nonces that do not fall, the contract has received of the launched and of the accepted
  token at least what it has refunded and sold together with what the redeem tokens that users still
  hold of the other side buy at the current balances and supplies.
\<close>

theorem discovery_stays_solvent:
  fixes xs :: "(discovery_env \<times> discovery_call) list"
  assumes "discovery_init env empty_discovery_storage launched accepted decimals min_price start no_limit linear
    fixed unlock pen_min pen_max pen_fixed locking_sc = Inr st0"
  defines "b \<equiv> run_txs discovery_step (new_discovery_books (get_block_nonce env) st0) xs"
  defines "st \<equiv> disc_storage b"
  shows "disc_refunded b (Esdt (launched_token_id st)) + disc_sold b (Esdt (launched_token_id st)) +
      launched_token_balance st * disc_held b ACCEPTED_TOKEN_REDEEM_NONCE div
        redeem_token_total_circulating_supply st ACCEPTED_TOKEN_REDEEM_NONCE
      \<le> disc_received b (Esdt (launched_token_id st)) \<and>
    disc_refunded b (accepted_token_id st) + disc_sold b (accepted_token_id st) +
      accepted_token_balance st * disc_held b LAUNCHED_TOKEN_REDEEM_NONCE div
        redeem_token_total_circulating_supply st LAUNCHED_TOKEN_REDEEM_NONCE
      \<le> disc_received b (accepted_token_id st)"
proof -
  have ok: "discovery_ok st (disc_block b) (disc_held b) (disc_received b) (disc_refunded b) (disc_sold b)"
    using discovery_run.run_inv [OF new_discovery_inv [OF assms(1)], of xs]
    by (simp add: discovery_inv_def b_def st_def list_all_iff)
  then have "launched_token_balance st + disc_refunded b (Esdt (launched_token_id st)) \<le>
      disc_received b (Esdt (launched_token_id st))"
    and "accepted_token_balance st + disc_refunded b (accepted_token_id st) \<le>
      disc_received b (accepted_token_id st)"
    by (simp_all add: discovery_ok_def Let_def)
  then show ?thesis
    using side_ok_sold [OF discovery_okD(7) [OF ok]] side_ok_sold [OF discovery_okD(8) [OF ok]] by linarith
qed

lemma discovery_stays_solvent_witness:
  "(80::nat) + 160 + 320 * 500 div 1000 \<le> disc_received ex_disc_books (Esdt ''WEGLD'')"
  using discovery_stays_solvent [OF ex_disc_init, of ex_disc_calls, THEN conjunct2]
  by (simp add: ex_disc_run_sel ex_disc_run2_sel ex_disc_env_def LAUNCHED_TOKEN_REDEEM_NONCE_def)

lemma phases_only_advance_witness:
  "get_current_phase (ex_disc_env 7 16) ex_disc = Inr (LinearIncreasingPenalty 2000000000000) \<and>
   get_current_phase (ex_disc_env 7 18) ex_disc = Inr (LinearIncreasingPenalty 4000000000000) \<and>
   phase_number (LinearIncreasingPenalty 2000000000000) \<le> phase_number (LinearIncreasingPenalty 4000000000000)"
proof -
  have "get_current_phase (ex_disc_env 7 16) ex_disc = Inr (LinearIncreasingPenalty 2000000000000)"
    and "get_current_phase (ex_disc_env 7 18) ex_disc = Inr (LinearIncreasingPenalty 4000000000000)"
    by (simp_all add: disc_eval cong: and_then_weak_cong require_weak_cong let_weak_cong)
  then show ?thesis
    using phases_only_advance [of "ex_disc_env 7 16" ex_disc "LinearIncreasingPenalty 2000000000000"
        "ex_disc_env 7 18" "LinearIncreasingPenalty 4000000000000"]
    by (simp add: ex_disc_env_def ex_disc_def)
qed

section \<open>Redeeming and taking back\<close>

text \<open>C29: Everyone buys at one final price. From the moment tokens can be redeemed, whoever holds redeem
  tokens can redeem any part of them, no matter what calls were made in between, and is paid the
  amount that the ratio at that moment gives, as long as the locking contract accepts the tokens.
\<close>

theorem redemption_pays_the_final_price:
  fixes xs ys :: "(discovery_env \<times> discovery_call) list"
  assumes "discovery_init env0 empty_discovery_storage launched accepted decimals min_price start no_limit linear
    fixed unlock pen_min pen_max pen_fixed locking_sc = Inr st0"
  defines "b0 \<equiv> run_txs discovery_step (new_discovery_books (get_block_nonce env0) st0) xs"
  defines "b \<equiv> run_txs discovery_step b0 ys"
  assumes "redeem_time (disc_storage b0) (disc_block b0)" "disc_block b \<le> get_block_nonce env"
    and "redeem_token (disc_storage b) = Some t" "n = LAUNCHED_TOKEN_REDEEM_NONCE \<or> n = ACCEPTED_TOKEN_REDEEM_NONCE"
    and "0 < a" "a \<le> disc_held b n" "discovery_locking_sc_address (disc_storage b) = Some sc"
    and "\<forall>p. \<exists>q. call_simple_lock env sc (discovery_unlock_epoch (disc_storage b)) (Some (get_caller env)) p = Inr q"
  shows "\<exists>out es. compute_bought_tokens (disc_storage b0) n a = Inr out \<and>
    redeem env (disc_storage b) [new_payment t n a] = Inr (out, disc_storage b, es)"
proof -
  let ?fin = "disc_storage b0" and ?st = "disc_storage b"
  have "discovery_inv b0"
    using discovery_run.run_inv [OF new_discovery_inv [OF assms(1)], of xs] by (simp add: b0_def list_all_iff)
  then have "final_state ?fin b0" using assms(4) by (simp add: final_state_def Let_def)
  from discovery_final.run_inv [OF this, of ys] have final: "final_state ?fin b" by (simp add: b_def list_all_iff)
  then have ok: "discovery_ok ?st (disc_block b) (disc_held b) (disc_received b) (disc_refunded b) (disc_sold b)"
    and now: "redeem_time ?st (disc_block b)"
    and same: "compute_bought_tokens ?st n a = compute_bought_tokens ?fin n a"
    by (simp_all add: final_state_def discovery_inv_def compute_bought_tokens_def Let_def)
  have "get_current_phase env ?st = Inr Redeem"
    using redeem_time_iff [OF discovery_okD(6) [OF ok]] redeem_time_mono [OF now assms(5)] by blast
  moreover have "0 < redeem_token_total_circulating_supply ?st n"
    using discovery_okD(7,8) [OF ok] assms(7,8,9) by (auto simp: side_ok_def)
  then have "\<exists>out. compute_bought_tokens ?st n a = Inr out"
    using assms(7) by (auto simp: compute_bought_tokens_def Let_def big_div_def)
  then obtain out where "compute_bought_tokens ?st n a = Inr out" ..
  moreover have "\<exists>l es. lock_tokens_and_forward env ?st (get_caller env) (payment_token out) (payment_amount out) = Inr (l, es)"
    using assms(10,11) by (auto simp: lock_tokens_and_forward_def lock_common_def Let_def) (metis and_then_simps(2))
  ultimately show ?thesis
    using assms(6) same
    by (auto simp: redeem_def require_redeem_allowed_def redeem_token_id_def single_esdt_def
        burn_redeem_token_without_supply_decrease_def new_payment_def)
qed

lemma redemption_pays_the_final_price_witness:
  "\<exists>out es. compute_bought_tokens (disc_storage ex_disc_books) 1 200 = Inr out \<and>
     redeem (ex_disc_env 7 26) (disc_storage ex_disc_books) [new_payment ''RT'' 1 200] =
       Inr (out, disc_storage ex_disc_books, es)"
proof -
  have "disc_block ex_disc_books \<le> 26"
    by (simp add: disc_eval ex_disc_calls_def cong: and_then_weak_cong require_weak_cong let_weak_cong)
  then show ?thesis
    using redemption_pays_the_final_price [OF ex_disc_init, of ex_disc_calls "[]" "ex_disc_env 7 26" "''RT''" 1 200 1]
    by (simp add: ex_disc_run_sel ex_disc_run2_sel LAUNCHED_TOKEN_REDEEM_NONCE_def)
      (simp add: ex_disc_env_def ex_disc_run2_sel ex_disc_run_sel)
qed

lemma phase_upd:
  "get_current_phase env (st\<lparr>launched_token_balance := x\<rparr>) = get_current_phase env st"
  "get_current_phase env (st\<lparr>accepted_token_balance := y\<rparr>) = get_current_phase env st"
  "get_current_phase env (st\<lparr>redeem_token_total_circulating_supply := z\<rparr>) = get_current_phase env st"
  by (simp_all add: get_current_phase_def Let_def cong: if_cong)

text \<open>A deposit can be taken back whole while there is no penalty. In the first phase, when the price
  before the deposit was not below the minimum, withdrawing what a deposit has just given returns the
  deposited token and amount and leaves the storage as it was before the deposit.
\<close>

theorem deposit_then_withdraw:
  assumes "deposit env st egld ps = Inr (q, st1, es)" "get_current_phase env st = Inr NoPenalty"
    and "accepted_token_id st \<noteq> Esdt (launched_token_id st)"
    and "calculate_price st = Inr price" "min_launched_token_price st \<le> price"
    and "egld_or_single_fungible_esdt egld ps = Inr (k, a)"
  shows "\<exists>es'. withdraw env st1 [q] = Inr (egld_or_esdt_new k 0 a, st, es')"
proof -
  obtain ph k' a' n t where k': "egld_or_single_fungible_esdt egld ps = Inr (k', a')" and t: "redeem_token st = Some t"
    and n: "k' = accepted_token_id st \<and> n = ACCEPTED_TOKEN_REDEEM_NONCE \<or>
      k' \<noteq> accepted_token_id st \<and> k' = Esdt (launched_token_id st) \<and> n = LAUNCHED_TOKEN_REDEEM_NONCE"
    and st1: "st1 = (increase_balance st n a')\<lparr>redeem_token_total_circulating_supply :=
      (redeem_token_total_circulating_supply st)(n := redeem_token_total_circulating_supply st n + a')\<rparr>"
    and q: "q = new_payment t n a'"
    by (rule deposit_Inr [OF assms(1)])
  have ka: "k' = k" "a' = a" using k' assms(6) by simp_all
  have phase: "get_current_phase env st1 = Inr NoPenalty"
    using assms(2) by (simp add: st1 increase_balance_def phase_upd)
  show ?thesis
    using n
  proof
    assume n: "k' = accepted_token_id st \<and> n = ACCEPTED_TOKEN_REDEEM_NONCE"
    then have "st1 = st\<lparr>accepted_token_balance := accepted_token_balance st + a,
        redeem_token_total_circulating_supply := (redeem_token_total_circulating_supply st)
          (ACCEPTED_TOKEN_REDEEM_NONCE := redeem_token_total_circulating_supply st ACCEPTED_TOKEN_REDEEM_NONCE + a)\<rparr>"
      by (simp add: st1 ka increase_balance_def)
    then show ?thesis
      using n assms(4,5) phase t
      by (simp add: q ka withdraw_def single_esdt_def redeem_token_id_def refund_token_def burn_redeem_token_def
          burn_redeem_token_without_supply_decrease_def decrease_balance_def calculate_price_def new_payment_def
          DISCOVERY_MAX_PERCENTAGE_def Let_def)
  next
    assume n: "k' \<noteq> accepted_token_id st \<and> k' = Esdt (launched_token_id st) \<and> n = LAUNCHED_TOKEN_REDEEM_NONCE"
    then have "st1 = st\<lparr>launched_token_balance := launched_token_balance st + a,
        redeem_token_total_circulating_supply := (redeem_token_total_circulating_supply st)
          (LAUNCHED_TOKEN_REDEEM_NONCE := redeem_token_total_circulating_supply st LAUNCHED_TOKEN_REDEEM_NONCE + a)\<rparr>"
      by (simp add: st1 ka increase_balance_def)
    then show ?thesis
      using n assms(4,5) phase t
      by (simp add: q ka withdraw_def single_esdt_def redeem_token_id_def refund_token_def burn_redeem_token_def
          burn_redeem_token_without_supply_decrease_def decrease_balance_def calculate_price_def new_payment_def
          DISCOVERY_MAX_PERCENTAGE_def Let_def)
  qed
qed

definition ex_disc_open :: discovery_storage where
  "ex_disc_open = ex_disc\<lparr>redeem_token := Some ''RT'', redeem_token_last_nonce := 2,
     launched_token_balance := 1000, accepted_token_balance := 400,
     redeem_token_total_circulating_supply := (\<lambda>n. if n = 1 then 1000 else if n = 2 then 400 else 0)\<rparr>"

lemma deposit_then_withdraw_witness:
  "\<exists>q st1 es es'. deposit (ex_disc_env 8 12) ex_disc_open 0 [new_payment ''WEGLD'' 0 70] = Inr (q, st1, es) \<and>
     withdraw (ex_disc_env 8 12) st1 [q] = Inr (egld_or_esdt_new (Esdt ''WEGLD'') 0 70, ex_disc_open, es')"
proof -
  have s: "\<exists>q st1 es. deposit (ex_disc_env 8 12) ex_disc_open 0 [new_payment ''WEGLD'' 0 70] = Inr (q, st1, es)"
    "get_current_phase (ex_disc_env 8 12) ex_disc_open = Inr NoPenalty"
    "accepted_token_id ex_disc_open \<noteq> Esdt (launched_token_id ex_disc_open)"
    "calculate_price ex_disc_open = Inr 40" "min_launched_token_price ex_disc_open \<le> 40"
    "egld_or_single_fungible_esdt 0 [new_payment ''WEGLD'' 0 70] = Inr (Esdt ''WEGLD'', 70)"
    by (simp_all add: ex_disc_open_def disc_eval cong: and_then_weak_cong require_weak_cong let_weak_cong)
  from s(1) obtain q st1 es where "deposit (ex_disc_env 8 12) ex_disc_open 0 [new_payment ''WEGLD'' 0 70] = Inr (q, st1, es)"
    by blast
  with deposit_then_withdraw [OF this s(2-6)] show ?thesis by blast
qed

end
