(* ===== verification/EnergyTransfer.thy ===== *)
theory EnergyTransfer
  imports EnergyQuery EnergyFacts
begin

text \<open>
  Moving energy with locked tokens (\<open>locked-asset/lkmex-transfer/src/energy_transfer.rs\<close>): a contract
  that takes locked tokens removes their energy from the sender, one that gives them adds it to the
  receiver, and writes the entry to the energy factory.
\<close>

text \<open>
  The attributes of locked tokens as the protocol keeps them, and whether the energy factory accepts
  a new entry of a user. The entries written are part of a call's result.
\<close>

record transfer_env = energy_query_env +
  read_locked_attributes :: "token_id \<Rightarrow> u64 \<Rightarrow> locked_token_attributes option"
  call_set_energy :: "address \<Rightarrow> address \<Rightarrow> energy \<Rightarrow> error + unit"

type_synonym energy_write = "address \<times> energy"

definition read_attributes ::
  "'e transfer_env_scheme \<Rightarrow> token_id \<Rightarrow> u64 \<Rightarrow> error + locked_token_attributes" where
  "read_attributes env t n =
     (case read_locked_attributes env t n of
        None \<Rightarrow> Inl (CallFailed ''ESDTNFT token data not found'') | Some a \<Rightarrow> Inr a)"

definition set_energy_in_factory ::
  "'e transfer_env_scheme \<Rightarrow> 's energy_query_storage_scheme \<Rightarrow> address \<Rightarrow> energy \<Rightarrow> error + energy_write" where
  "set_energy_in_factory env st user e =
     and_then (get_energy_factory_address st) (\<lambda>sc_address.
     and_then (call_set_energy env sc_address user e) (\<lambda>_. Inr (user, e)))"

fun deduct_energy_loop ::
  "'e transfer_env_scheme \<Rightarrow> u64 \<Rightarrow> energy \<Rightarrow> esdt_payment list \<Rightarrow> error + energy" where
  "deduct_energy_loop env current_epoch e [] = Inr e"
| "deduct_energy_loop env current_epoch e (token # tokens) =
     and_then (read_attributes env (token_identifier token) (token_nonce token)) (\<lambda>attributes.
     require (current_epoch < unlock_epoch attributes)
       (SignalError ''Cannot transfer tokens that are unlockable'')
    (and_then (deplete_after_early_unlock e (amount token) (unlock_epoch attributes) current_epoch) (\<lambda>e.
     deduct_energy_loop env current_epoch e tokens)))"

definition deduct_energy_from_sender ::
  "'e transfer_env_scheme \<Rightarrow> 's energy_query_storage_scheme \<Rightarrow> address \<Rightarrow> esdt_payment list \<Rightarrow>
     error + energy_write" where
  "deduct_energy_from_sender env st from_user tokens =
     and_then (deduct_energy_loop env (get_block_epoch env) (get_energy_entry env st from_user) tokens) (\<lambda>e.
     set_energy_in_factory env st from_user e)"

fun add_energy_loop ::
  "'e transfer_env_scheme \<Rightarrow> u64 \<Rightarrow> energy \<Rightarrow> esdt_payment list \<Rightarrow> error + energy" where
  "add_energy_loop env current_epoch e [] = Inr e"
| "add_energy_loop env current_epoch e (token # tokens) =
     and_then (read_attributes env (token_identifier token) (token_nonce token)) (\<lambda>attributes.
     and_then
       (if current_epoch < unlock_epoch attributes
        then Inr (add_after_token_lock e (amount token) (unlock_epoch attributes) current_epoch)
        else
          let epoch_diff = current_epoch - unlock_epoch attributes;
              simulated_deplete_amount = amount token * unat epoch_diff in
          and_then (remove_energy_raw e 0 simulated_deplete_amount) (\<lambda>e.
          Inr (add_energy_raw e (amount token) 0))) (\<lambda>e.
     add_energy_loop env current_epoch e tokens))"

definition add_energy_to_destination ::
  "'e transfer_env_scheme \<Rightarrow> 's energy_query_storage_scheme \<Rightarrow> address \<Rightarrow> esdt_payment list \<Rightarrow>
     error + energy_write" where
  "add_energy_to_destination env st to_user tokens =
     and_then (add_energy_loop env (get_block_epoch env) (get_energy_entry env st to_user) tokens) (\<lambda>e.
     set_energy_in_factory env st to_user e)"

section \<open>Together with the energy factory\<close>

text \<open>
  The environment answers as the energy factory with storage \<open>f\<close> does when it is called by the
  contract; the entries written are then the factory's.
\<close>

definition answers_as_factory ::
  "'e transfer_env_scheme \<Rightarrow> factory_env \<Rightarrow> factory_storage \<Rightarrow> bool" where
  "answers_as_factory env fenv f \<longleftrightarrow>
     get_caller fenv = get_sc_address env \<and> get_block_epoch fenv = get_block_epoch env \<and>
     (\<forall>a. read_user_energy env a = user_energy f) \<and>
     (\<forall>t n. read_locked_attributes env t n = created_attributes f n) \<and>
     (\<forall>a u e. call_set_energy env a u e =
        and_then (set_user_energy_after_locked_token_transfer fenv f u e) (\<lambda>_. Inr ()))"

definition factory_after :: "factory_storage \<Rightarrow> energy_write \<Rightarrow> factory_storage" where
  "factory_after f w = f\<lparr>user_energy := set_energy_entry (user_energy f) (fst w) (snd w)\<rparr>"

lemma set_energy_in_factory_run:
  assumes "set_energy_in_factory env st user e = Inr w" "answers_as_factory env fenv f"
  shows "w = (user, e)" "set_user_energy_after_locked_token_transfer fenv f user e = Inr ((), factory_after f w, [])"
proof -
  show w: "w = (user, e)" using assms(1) by (auto simp: set_energy_in_factory_def res_simps)
  obtain r where "set_user_energy_after_locked_token_transfer fenv f user e = Inr r"
    using assms by (auto simp: set_energy_in_factory_def res_simps answers_as_factory_def)
  then show "set_user_energy_after_locked_token_transfer fenv f user e = Inr ((), factory_after f w, [])"
    by (auto simp: set_user_energy_after_locked_token_transfer_def require_not_paused_def res_simps factory_after_def w)
qed

lemma energy_entry_of_factory:
  assumes "answers_as_factory env fenv f" "energy_factory_address st = Some a"
  shows "get_energy_entry env st user = get_updated_energy_entry_for_user fenv (user_energy f) user"
  using assms by (intro get_energy_entry_of_factory) (auto simp: answers_as_factory_def)

lemma energy_moves_empty: "energy_moves c e e {#} {#}"
  by (rule energy_moves_refl)

lemma energy_moves_add:
  assumes "energy_moves c e e' A {#}" "energy_moves c e' e'' B {#}"
  shows "energy_moves c e e'' (A + B) {#}"
  using energy_moves_trans [of c e e' A "{#}" "{#}" e'' B "{#}"] assms by simp

lemma energy_moves_more:
  assumes "energy_moves c e e' {#} A" "energy_moves c e' e'' {#} B"
  shows "energy_moves c e e'' {#} (A + B)"
  using energy_moves_trans [of c e e' "{#}" "{#}" A e'' "{#}" B] assms by simp

lemma deduct_energy_loop_moves:
  assumes "deduct_energy_loop env c e tokens = Inr e'" "answers_as_factory env fenv f"
  shows "energy_moves c e e' (positions_of f tokens) {#}"
  using assms(1)
proof (induction tokens arbitrary: e)
  case Nil
  then show ?case by (simp add: energy_moves_refl)
next
  case (Cons p ps)
  then obtain a e1 where a: "created_attributes f (token_nonce p) = Some a" "c < unlock_epoch a"
    and e1: "deplete_after_early_unlock e (amount p) (unlock_epoch a) c = Inr e1"
    and rest: "deduct_energy_loop env c e1 ps = Inr e'"
    using assms(2) by (auto simp: res_simps read_attributes_def answers_as_factory_def split: option.splits)
  have "energy_moves c e e1 {#position_of f p#} {#}"
    using energy_moves_deplete [OF e1] a by (simp add: position_of_def)
  from energy_moves_add [OF this Cons.IH [OF rest]] show ?case by simp
qed

text \<open>An expired token counts with the energy it has lost since, which is negative.\<close>

lemma energy_moves_expired:
  assumes "u \<le> c" "remove_energy_raw e 0 (a * unat (c - u)) = Inr e1"
  shows "energy_moves c e (add_energy_raw e1 a 0) {#} {#(a, u)#}"
proof -
  have e1: "e1 = e\<lparr>energy_amount := energy_amount e - int a * (uint c - uint u)\<rparr>"
    using assms(2) uint_diff [OF assms(1)] by (auto simp: remove_energy_raw_def res_simps)
  show ?thesis by (auto simp: energy_moves_def add_energy_raw_def exact_def e1 algebra_simps)
qed

lemma add_energy_loop_moves:
  assumes "add_energy_loop env c e tokens = Inr e'" "answers_as_factory env fenv f"
  shows "energy_moves c e e' {#} (positions_of f tokens)"
  using assms(1)
proof (induction tokens arbitrary: e)
  case Nil
  then show ?case by (simp add: energy_moves_refl)
next
  case (Cons p ps)
  then obtain a e1 where a: "created_attributes f (token_nonce p) = Some a"
    and e1: "if c < unlock_epoch a then e1 = add_after_token_lock e (amount p) (unlock_epoch a) c
      else \<exists>e0. remove_energy_raw e 0 (amount p * unat (c - unlock_epoch a)) = Inr e0 \<and> e1 = add_energy_raw e0 (amount p) 0"
    and rest: "add_energy_loop env c e1 ps = Inr e'"
    using assms(2) by (auto simp: res_simps read_attributes_def answers_as_factory_def Let_def split: option.splits if_splits)
  have "energy_moves c e e1 {#} {#position_of f p#}"
    using e1 energy_moves_lock [of c "unlock_epoch a" e "amount p"] energy_moves_expired [of "unlock_epoch a" c e "amount p"] a
    by (auto simp: position_of_def split: if_splits)
  from energy_moves_more [OF this Cons.IH [OF rest]] show ?case by simp
qed

lemma deduct_energy_moves:
  assumes run: "deduct_energy_from_sender env st user tokens = Inr w" and factory: "answers_as_factory env fenv f"
  shows "moves_energy fenv f (factory_after f w) user (positions_of f tokens) {#}" "fst w = user"
    and "set_user_energy_after_locked_token_transfer fenv f (fst w) (snd w) = Inr ((), factory_after f w, [])"
proof -
  obtain e a where loop: "deduct_energy_loop env (get_block_epoch env) (get_energy_entry env st user) tokens = Inr e"
    and set: "set_energy_in_factory env st user e = Inr w" and a: "energy_factory_address st = Some a"
    using run by (auto simp: deduct_energy_from_sender_def set_energy_in_factory_def res_simps)
  note w = set_energy_in_factory_run [OF set factory]
  have "get_block_epoch fenv = get_block_epoch env" using factory by (simp add: answers_as_factory_def)
  with deduct_energy_loop_moves [OF loop factory] show "moves_energy fenv f (factory_after f w) user (positions_of f tokens) {#}"
    unfolding factory_after_def w(1) fst_conv snd_conv
    by (intro set_entry_moves) (simp_all add: energy_entry_of_factory [OF factory a])
  show "fst w = user" "set_user_energy_after_locked_token_transfer fenv f (fst w) (snd w) = Inr ((), factory_after f w, [])"
    using w by simp_all
qed

lemma add_energy_moves:
  assumes run: "add_energy_to_destination env st user tokens = Inr w" and factory: "answers_as_factory env fenv f"
  shows "moves_energy fenv f (factory_after f w) user {#} (positions_of f tokens)" "fst w = user"
    and "set_user_energy_after_locked_token_transfer fenv f (fst w) (snd w) = Inr ((), factory_after f w, [])"
proof -
  obtain e a where loop: "add_energy_loop env (get_block_epoch env) (get_energy_entry env st user) tokens = Inr e"
    and set: "set_energy_in_factory env st user e = Inr w" and a: "energy_factory_address st = Some a"
    using run by (auto simp: add_energy_to_destination_def set_energy_in_factory_def res_simps)
  note w = set_energy_in_factory_run [OF set factory]
  have "get_block_epoch fenv = get_block_epoch env" using factory by (simp add: answers_as_factory_def)
  with add_energy_loop_moves [OF loop factory] show "moves_energy fenv f (factory_after f w) user {#} (positions_of f tokens)"
    unfolding factory_after_def w(1) fst_conv snd_conv
    by (intro set_entry_moves) (simp_all add: energy_entry_of_factory [OF factory a])
  show "fst w = user" "set_user_energy_after_locked_token_transfer fenv f (fst w) (snd w) = Inr ((), factory_after f w, [])"
    using w by simp_all
qed

end
