(* ===== verification/LkmexTransfer.thy ===== *)
theory LkmexTransfer
  imports EnergyTransfer
begin

text \<open>
  Delayed transfers of locked tokens (\<open>locked-asset/lkmex-transfer/src\<close>): a sender locks tokens for a
  receiver, who can withdraw them after some epochs unless an administrator cancels the transfer.
\<close>

section \<open>UnorderedSetMapper\<close>

text \<open>The framework's set keeps an order: a removed value is replaced by the last one.\<close>

definition unordered_insert :: "'a list \<Rightarrow> 'a \<Rightarrow> 'a list" where
  "unordered_insert xs x = (if x \<in> set xs then xs else xs @ [x])"

definition unordered_swap_remove :: "'a list \<Rightarrow> 'a \<Rightarrow> 'a list" where
  "unordered_swap_remove xs x =
     (if x \<in> set xs
      then let i = length (takeWhile (\<lambda>y. y \<noteq> x) xs) in butlast (xs[i := last xs])
      else xs)"

lemma unordered_insert_set [simp]: "set (unordered_insert xs x) = insert x (set xs)"
  by (auto simp: unordered_insert_def)

lemma unordered_insert_distinct [simp]: "distinct (unordered_insert xs x) = distinct xs"
  by (auto simp: unordered_insert_def)

lemma position_in_list:
  "x \<in> set xs \<Longrightarrow> length (takeWhile (\<lambda>y. y \<noteq> x) xs) < length xs \<and> xs ! length (takeWhile (\<lambda>y. y \<noteq> x) xs) = x"
  by (induction xs) auto

lemma unordered_swap_remove_mset: "mset (unordered_swap_remove xs x) = mset xs - {#x#}"
proof (cases "x \<in> set xs")
  case True
  define i where "i = length (takeWhile (\<lambda>y. y \<noteq> x) xs)"
  have i: "i < length xs" "xs ! i = x"
    using position_in_list [OF True] by (simp_all add: i_def)
  have ne: "xs \<noteq> []" using True by auto
  have "last (xs[i := last xs]) = last xs"
    using i(1) ne by (simp add: last_conv_nth nth_list_update)
  then have "xs[i := last xs] = butlast (xs[i := last xs]) @ [last xs]"
    using ne append_butlast_last_id [of "xs[i := last xs]"] by simp
  then have "mset (xs[i := last xs]) = mset (butlast (xs[i := last xs])) + {#last xs#}"
    by (metis mset_append mset_single_iff_right)
  moreover have "mset (xs[i := last xs]) = mset xs - {#x#} + {#last xs#}"
    using mset_update [OF i(1), of "last xs"] i(2) by simp
  ultimately show ?thesis using True by (simp add: unordered_swap_remove_def i_def Let_def)
next
  case False
  then show ?thesis by (simp add: unordered_swap_remove_def diff_single_trivial)
qed

lemma unordered_swap_remove_set:
  assumes "distinct xs"
  shows "set (unordered_swap_remove xs x) = set xs - {x}" "distinct (unordered_swap_remove xs x)"
proof -
  have mset: "mset (unordered_swap_remove xs x) = mset (remove1 x xs)"
    by (simp add: unordered_swap_remove_mset)
  then show "set (unordered_swap_remove xs x) = set xs - {x}"
    using assms by (metis mset_eq_setD set_remove1_eq)
  show "distinct (unordered_swap_remove xs x)"
    using mset assms by (metis distinct_remove1 mset_eq_imp_distinct_iff)
qed

section \<open>constants.rs\<close>

definition BAD_LOCKING_TOKEN :: error where
  "BAD_LOCKING_TOKEN = SignalError ''wrong token for locking''"

definition CALLER_NOTHING_TO_CLAIM :: error where
  "CALLER_NOTHING_TO_CLAIM = SignalError ''caller has nothing to claim''"

definition CALLER_ON_COOLDOWN :: error where
  "CALLER_ON_COOLDOWN = SignalError ''caller cannot use this contract at this time''"

definition TOKENS_STILL_LOCKED :: error where
  "TOKENS_STILL_LOCKED = SignalError ''requested funds are still locked''"

definition ALREADY_SENT_TO_ADDRESS :: error where
  "ALREADY_SENT_TO_ADDRESS = SignalError ''caller already sent unclaimed funds to the destination address''"

definition TRANSFER_NON_EXISTENT :: error where
  "TRANSFER_NON_EXISTENT = SignalError ''The transfer does not exist''"

section \<open>lib.rs\<close>

record locked_funds =
  funds :: "esdt_payment list"
  locked_epoch :: u64

record scheduled_transfer =
  transfer_sender :: address
  transfer_locked_funds :: locked_funds

text \<open>Funds are kept by receiver and sender; an empty epoch is stored as 0.\<close>

record lkmex_storage = energy_query_storage +
  lkmex_permissions :: permission_map
  locked_funds_of :: "address \<times> address \<Rightarrow> locked_funds option"
  all_senders :: "address \<Rightarrow> address list"
  sender_last_transfer_epoch :: "address \<Rightarrow> u64"
  receiver_last_transfer_epoch :: "address \<Rightarrow> u64"
  lkmex_locked_token_id :: token_id
  min_lock_epochs :: u64
  epochs_cooldown_duration :: u64

type_synonym lkmex_result = "error + (lkmex_storage \<times> effect list \<times> energy_write list)"

definition lkmex_init ::
  "'e blockchain_scheme \<Rightarrow> lkmex_storage \<Rightarrow> address \<Rightarrow> token_id \<Rightarrow> u64 \<Rightarrow> u64 \<Rightarrow> error + lkmex_storage" where
  "lkmex_init env st factory locked_token min_epochs cooldown =
     require_valid_token_id env locked_token
    (let st = st\<lparr>min_lock_epochs := min_epochs, epochs_cooldown_duration := cooldown,
                lkmex_locked_token_id := locked_token\<rparr> in
     and_then (set_energy_factory_address env st factory) (\<lambda>st.
     Inr (st\<lparr>lkmex_permissions := add_permissions (lkmex_permissions st) (get_caller env) OWNER\<rparr>)))"

definition check_address_on_cooldown ::
  "'e blockchain_scheme \<Rightarrow> lkmex_storage \<Rightarrow> u64 \<Rightarrow> error + 'a \<Rightarrow> error + 'a" where
  "check_address_on_cooldown env st last_transfer_epoch k =
     (if last_transfer_epoch = 0 then k
      else
        let epochs_since_last_transfer = get_block_epoch env - last_transfer_epoch in
        require (epochs_cooldown_duration st < epochs_since_last_transfer) CALLER_ON_COOLDOWN k)"

definition get_unlocked_funds ::
  "'e blockchain_scheme \<Rightarrow> lkmex_storage \<Rightarrow> address \<Rightarrow> address \<Rightarrow> error + esdt_payment list" where
  "get_unlocked_funds env st receiver sender =
     (case locked_funds_of st (receiver, sender) of
        None \<Rightarrow> Inl CALLER_NOTHING_TO_CLAIM
      | Some locked \<Rightarrow>
          require (min_lock_epochs st < get_block_epoch env - locked_epoch locked) TOKENS_STILL_LOCKED
            (Inr (funds locked)))"

definition lkmex_withdraw ::
  "'e transfer_env_scheme \<Rightarrow> lkmex_storage \<Rightarrow> address \<Rightarrow> lkmex_result" where
  "lkmex_withdraw env st sender =
     (let receiver = get_caller env in
      check_address_on_cooldown env st (receiver_last_transfer_epoch st receiver)
     (and_then (get_unlocked_funds env st receiver sender) (\<lambda>unlocked.
      and_then (add_energy_to_destination env st receiver unlocked) (\<lambda>w.
      Inr (st\<lparr>locked_funds_of := (locked_funds_of st)((receiver, sender) := None),
              all_senders := (all_senders st)(receiver := unordered_swap_remove (all_senders st receiver) sender),
              receiver_last_transfer_epoch :=
                (receiver_last_transfer_epoch st)(receiver := get_block_epoch env)\<rparr>,
           [DirectSend receiver unlocked], [w])))))"

definition cancel_transfer ::
  "'e transfer_env_scheme \<Rightarrow> lkmex_storage \<Rightarrow> address \<Rightarrow> address \<Rightarrow> lkmex_result" where
  "cancel_transfer env st sender receiver =
     require_caller_has_admin_permissions (lkmex_permissions st) (get_caller env)
    (case locked_funds_of st (receiver, sender) of
       None \<Rightarrow> Inl TRANSFER_NON_EXISTENT
     | Some locked \<Rightarrow>
         let st = st\<lparr>locked_funds_of := (locked_funds_of st)((receiver, sender) := None),
              all_senders := (all_senders st)(receiver := unordered_swap_remove (all_senders st receiver) sender),
              sender_last_transfer_epoch := (sender_last_transfer_epoch st)(sender := 0)\<rparr> in
         and_then (add_energy_to_destination env st sender (funds locked)) (\<lambda>w.
         Inr (st, [DirectSend sender (funds locked)], [w])))"

definition lock_funds ::
  "'e transfer_env_scheme \<Rightarrow> lkmex_storage \<Rightarrow> esdt_payment list \<Rightarrow> address \<Rightarrow> lkmex_result" where
  "lock_funds env st payments receiver =
     (let sender = get_caller env in
      require (locked_funds_of st (receiver, sender) = None) ALREADY_SENT_TO_ADDRESS
     (check_address_on_cooldown env st (sender_last_transfer_epoch st sender)
     (require (list_all (\<lambda>p. token_identifier p = lkmex_locked_token_id st) payments) BAD_LOCKING_TOKEN
     (and_then (deduct_energy_from_sender env st sender payments) (\<lambda>w.
      let current_epoch = get_block_epoch env;
          locked = \<lparr>funds = payments, locked_epoch = current_epoch\<rparr> in
      Inr (st\<lparr>locked_funds_of := (locked_funds_of st)((receiver, sender) := Some locked),
              sender_last_transfer_epoch := (sender_last_transfer_epoch st)(sender := current_epoch),
              all_senders := (all_senders st)(receiver := unordered_insert (all_senders st receiver) sender)\<rparr>,
           [], [w]))))))"

text \<open>Reading an empty mapper of funds fails to decode.\<close>

fun scheduled_transfers_loop ::
  "lkmex_storage \<Rightarrow> address \<Rightarrow> address list \<Rightarrow> error + scheduled_transfer list" where
  "scheduled_transfers_loop st receiver [] = Inr []"
| "scheduled_transfers_loop st receiver (sender # senders) =
     (case locked_funds_of st (receiver, sender) of
        None \<Rightarrow> Inl STORAGE_DECODE_ERROR
      | Some locked \<Rightarrow>
          and_then (scheduled_transfers_loop st receiver senders) (\<lambda>ts.
          Inr (\<lparr>transfer_sender = sender, transfer_locked_funds = locked\<rparr> # ts)))"

definition get_scheduled_transfers :: "lkmex_storage \<Rightarrow> address \<Rightarrow> error + scheduled_transfer list" where
  "get_scheduled_transfers st receiver = scheduled_transfers_loop st receiver (all_senders st receiver)"

end
