(* ===== verification/LkmexBooks.thy ===== *)
theory LkmexBooks
  imports LkmexTransfer
begin

text \<open>
  Delayed transfers as a step system with books: what the contract has received and paid of every
  token, against the transfers it holds.
\<close>

datatype lkmex_call =
    LkmexWithdraw address
  | LkmexCancel address address
  | LkmexLock "esdt_payment list" address
  | LkmexEnergyFactory address
  | LkmexAddAdmin address
  | LkmexRemoveAdmin address
  | LkmexUpdateOwner address

definition lkmex_permission_call :: "lkmex_storage \<Rightarrow> error + permission_map \<Rightarrow> lkmex_result" where
  "lkmex_permission_call st r = and_then r (\<lambda>m. Inr (st\<lparr>lkmex_permissions := m\<rparr>, [], []))"

fun lkmex_exec :: "'e transfer_env_scheme \<Rightarrow> lkmex_storage \<Rightarrow> lkmex_call \<Rightarrow> lkmex_result" where
  "lkmex_exec env st (LkmexWithdraw sender) = lkmex_withdraw env st sender"
| "lkmex_exec env st (LkmexCancel sender receiver) = cancel_transfer env st sender receiver"
| "lkmex_exec env st (LkmexLock ps receiver) = lock_funds env st ps receiver"
| "lkmex_exec env st (LkmexEnergyFactory a) =
     and_then (set_energy_factory_address env st a) (\<lambda>st. Inr (st, [], []))"
| "lkmex_exec env st (LkmexAddAdmin a) =
     lkmex_permission_call st (add_admin_endpoint (lkmex_permissions st) (get_caller env) a)"
| "lkmex_exec env st (LkmexRemoveAdmin a) =
     lkmex_permission_call st (remove_admin_endpoint (lkmex_permissions st) (get_caller env) a)"
| "lkmex_exec env st (LkmexUpdateOwner a) =
     lkmex_permission_call st (update_owner_or_admin_endpoint (blockchain.truncate env) (lkmex_permissions st) a)"

fun lkmex_payments :: "lkmex_call \<Rightarrow> esdt_payment list" where
  "lkmex_payments (LkmexLock ps receiver) = ps"
| "lkmex_payments call = []"

record lkmex_books =
  lkmex_book :: lkmex_storage
  lkmex_received :: "token_id \<Rightarrow> biguint"
  lkmex_paid :: "token_id \<Rightarrow> biguint"

definition lkmex_step :: "lkmex_books \<Rightarrow> transfer_env \<times> lkmex_call \<Rightarrow> error + lkmex_books" where
  "lkmex_step b x =
     (let (env, call) = x in
      and_then (lkmex_exec env (lkmex_book b) call) (\<lambda>(st', es, ws).
      Inr \<lparr>lkmex_book = st',
           lkmex_received = (\<lambda>t. lkmex_received b t + paid_in t (lkmex_payments call)),
           lkmex_paid = (\<lambda>t. lkmex_paid b t + outflow t es)\<rparr>))"

text \<open>The tokens of all transfers that are scheduled, from every sender to every receiver.\<close>

definition scheduled :: "(address \<times> address \<Rightarrow> locked_funds option) \<Rightarrow> token_id \<Rightarrow> biguint" where
  "scheduled m t = (\<Sum>k\<in>dom m. paid_in t (funds (the (m k))))"

definition lkmex_inv :: "lkmex_books \<Rightarrow> bool" where
  "lkmex_inv b \<longleftrightarrow>
     (let st = lkmex_book b; m = locked_funds_of st in
      finite (dom m) \<and>
      (\<forall>r. distinct (all_senders st r) \<and> set (all_senders st r) = {s. m (r, s) \<noteq> None}) \<and>
      (\<forall>t. lkmex_received b t = lkmex_paid b t + scheduled m t))"

lemma scheduled_remove:
  assumes "finite (dom m)" "m k = Some f"
  shows "scheduled m t = scheduled (m(k := None)) t + paid_in t (funds f)"
proof -
  have "(\<Sum>j\<in>dom (m(k := None)). paid_in t (funds (the ((m(k := None)) j)))) =
      (\<Sum>j\<in>dom m - {k}. paid_in t (funds (the (m j))))"
    by (rule sum.cong) auto
  moreover have "k \<in> dom m" using assms(2) by auto
  ultimately show ?thesis
    using sum.remove [OF assms(1), of k "\<lambda>j. paid_in t (funds (the (m j)))"] assms(2) by (simp add: scheduled_def)
qed

lemma scheduled_add:
  assumes "finite (dom m)" "m k = None"
  shows "scheduled (m(k := Some f)) t = scheduled m t + paid_in t (funds f)"
proof -
  have "m = m(k := Some f, k := None)" using assms(2) by auto
  then show ?thesis using scheduled_remove [of "m(k := Some f)" k f t] assms(1) by simp
qed

lemma senders_remove:
  assumes "\<forall>r. distinct (S r) \<and> set (S r) = {s. m (r, s) \<noteq> None}"
  shows "\<forall>r'. distinct ((S(r := unordered_swap_remove (S r) s)) r') \<and>
    set ((S(r := unordered_swap_remove (S r) s)) r') = {s'. (m((r, s) := None)) (r', s') \<noteq> None}"
  using assms by (auto simp: unordered_swap_remove_set)

lemma senders_insert:
  assumes "\<forall>r. distinct (S r) \<and> set (S r) = {s. m (r, s) \<noteq> None}"
  shows "\<forall>r'. distinct ((S(r := unordered_insert (S r) s)) r') \<and>
    set ((S(r := unordered_insert (S r) s)) r') = {s'. (m((r, s) := Some f)) (r', s') \<noteq> None}"
  using assms by auto

text \<open>Giving a scheduled transfer away, to the receiver or back to the sender.\<close>

lemma lkmex_gives:
  assumes inv: "lkmex_inv b" and f: "locked_funds_of (lkmex_book b) (r, s) = Some f"
    and b': "locked_funds_of (lkmex_book b') = (locked_funds_of (lkmex_book b))((r, s) := None)"
      "all_senders (lkmex_book b') = (all_senders (lkmex_book b))
        (r := unordered_swap_remove (all_senders (lkmex_book b) r) s)"
      "lkmex_received b' = lkmex_received b" "lkmex_paid b' = (\<lambda>t. lkmex_paid b t + paid_in t (funds f))"
  shows "lkmex_inv b'"
proof -
  let ?m = "locked_funds_of (lkmex_book b)"
  have fin: "finite (dom ?m)" and senders: "\<forall>r. distinct (all_senders (lkmex_book b) r) \<and>
      set (all_senders (lkmex_book b) r) = {s. ?m (r, s) \<noteq> None}"
    and sums: "\<And>t. lkmex_received b t = lkmex_paid b t + scheduled ?m t"
    using inv by (simp_all add: lkmex_inv_def Let_def)
  show ?thesis
    unfolding lkmex_inv_def Let_def b'
    using fin senders_remove [OF senders, of r s] sums scheduled_remove [OF fin f] by simp
qed

lemma lkmex_step_inv:
  assumes inv: "lkmex_inv b" and step: "lkmex_step b x = Inr b'"
  shows "lkmex_inv b'"
proof -
  obtain env call where x: "x = (env, call)" by (cases x)
  let ?st = "lkmex_book b"
  obtain st' es ws where run: "lkmex_exec env ?st call = Inr (st', es, ws)"
    and b': "b' = \<lparr>lkmex_book = st', lkmex_received = (\<lambda>t. lkmex_received b t + paid_in t (lkmex_payments call)),
           lkmex_paid = (\<lambda>t. lkmex_paid b t + outflow t es)\<rparr>"
    using step by (auto simp: lkmex_step_def x res_simps)
  have same: "lkmex_inv b'" if "locked_funds_of st' = locked_funds_of ?st" "all_senders st' = all_senders ?st"
      "es = []" "lkmex_payments call = []"
    using inv that by (simp add: lkmex_inv_def b' Let_def paid_in_def)
  show ?thesis
  proof (cases call)
    case (LkmexWithdraw s)
    then obtain f where "locked_funds_of ?st (get_caller env, s) = Some f" "es = [DirectSend (get_caller env) (funds f)]"
      and "locked_funds_of st' = (locked_funds_of ?st)((get_caller env, s) := None)"
      and "all_senders st' = (all_senders ?st)(get_caller env := unordered_swap_remove (all_senders ?st (get_caller env)) s)"
      using run by (auto simp: lkmex_withdraw_def check_address_on_cooldown_def get_unlocked_funds_def Let_def res_simps
          split: if_splits option.splits)
    then show ?thesis
      by (intro lkmex_gives [OF inv, where b' = b']) (simp_all add: b' LkmexWithdraw paid_in_def)
  next
    case (LkmexCancel s r)
    then obtain f where "locked_funds_of ?st (r, s) = Some f" "es = [DirectSend s (funds f)]"
      and "locked_funds_of st' = (locked_funds_of ?st)((r, s) := None)"
      and "all_senders st' = (all_senders ?st)(r := unordered_swap_remove (all_senders ?st r) s)"
      using run by (auto simp: cancel_transfer_def Let_def res_simps split: option.splits)
    then show ?thesis
      by (intro lkmex_gives [OF inv, where b' = b']) (simp_all add: b' LkmexCancel paid_in_def)
  next
    case (LkmexLock ps r)
    let ?s = "get_caller env" and ?f = "\<lparr>funds = ps, locked_epoch = get_block_epoch env\<rparr>"
    have f: "locked_funds_of ?st (r, ?s) = None" and es: "es = []"
      and st': "locked_funds_of st' = (locked_funds_of ?st)((r, ?s) := Some ?f)"
        "all_senders st' = (all_senders ?st)(r := unordered_insert (all_senders ?st r) ?s)"
      using run LkmexLock
      by (auto simp: lock_funds_def check_address_on_cooldown_def Let_def res_simps split: if_splits)
    have fin: "finite (dom (locked_funds_of ?st))" and senders: "\<forall>r. distinct (all_senders ?st r) \<and>
        set (all_senders ?st r) = {s. locked_funds_of ?st (r, s) \<noteq> None}"
      and sums: "\<And>t. lkmex_received b t = lkmex_paid b t + scheduled (locked_funds_of ?st) t"
      using inv by (simp_all add: lkmex_inv_def Let_def)
    show ?thesis
      unfolding lkmex_inv_def Let_def b' lkmex_books.select_convs st'
      using fin senders_insert [OF senders, of r ?s ?f] sums scheduled_add [OF fin f, of ?f] by (simp add: es LkmexLock)
  next
    case (LkmexEnergyFactory a)
    then show ?thesis
      using run by (intro same) (auto simp: set_energy_factory_address_def res_simps)
  qed (use run in \<open>auto simp: lkmex_permission_call_def res_simps intro!: same\<close>)
qed

interpretation lkmex_run: step_system lkmex_step lkmex_inv "\<lambda>x. True"
  by unfold_locales (rule lkmex_step_inv)

definition empty_lkmex_storage :: lkmex_storage where
  "empty_lkmex_storage = \<lparr>energy_factory_address = None, lkmex_permissions = (\<lambda>a. 0), locked_funds_of = Map.empty,
     all_senders = (\<lambda>a. []), sender_last_transfer_epoch = (\<lambda>a. 0), receiver_last_transfer_epoch = (\<lambda>a. 0),
     lkmex_locked_token_id = '''', min_lock_epochs = 0, epochs_cooldown_duration = 0\<rparr>"

definition new_lkmex_books :: "lkmex_storage \<Rightarrow> lkmex_books" where
  "new_lkmex_books st = \<lparr>lkmex_book = st, lkmex_received = (\<lambda>t. 0), lkmex_paid = (\<lambda>t. 0)\<rparr>"

lemma new_lkmex_inv:
  assumes "lkmex_init env empty_lkmex_storage factory token n cooldown = Inr st"
  shows "lkmex_inv (new_lkmex_books st)"
  using assms
  by (auto simp: lkmex_init_def set_energy_factory_address_def Let_def res_simps empty_lkmex_storage_def
      lkmex_inv_def new_lkmex_books_def scheduled_def)

text \<open>The view lists every scheduled transfer.\<close>

lemma scheduled_transfers_loop_Inr:
  assumes "\<forall>s\<in>set ss. \<exists>f. locked_funds_of st (r, s) = Some f"
  shows "scheduled_transfers_loop st r ss =
    Inr (map (\<lambda>s. \<lparr>transfer_sender = s, transfer_locked_funds = the (locked_funds_of st (r, s))\<rparr>) ss)"
  using assms by (induction ss) auto

end
