(* ===== verification/TokenWrapper.thy ===== *)
theory TokenWrapper
  imports EnergyTransfer
begin

text \<open>
  The wrapper of locked tokens (\<open>locked-asset/locked-token-wrapper/src\<close>): a locked token goes in and a
  wrapped one, without energy, comes out, and the other way round.
\<close>

section \<open>wrapped_token.rs\<close>

record wrapped_token_attributes =
  wrapped_locked_nonce :: u64

text \<open>
  The last three fields are the mapping from attributes to nonces of \<open>token_attributes.rs\<close> and the
  protocol's account data: the attributes each nonce was created with, and the last nonce.
\<close>

record wrapper_storage = energy_query_storage +
  wrapped_token :: "token_id option"
  wrapped_nonce_mapping :: "wrapped_token_attributes \<Rightarrow> u64"
  wrapped_attributes :: "u64 \<Rightarrow> wrapped_token_attributes option"
  wrapped_last_nonce :: u64

definition wrapped_token_id :: "wrapper_storage \<Rightarrow> error + token_id" where
  "wrapped_token_id st =
     (case wrapped_token st of None \<Rightarrow> Inl (SignalError ''Invalid token ID'') | Some t \<Rightarrow> Inr t)"

definition wrapped_get_or_create_nonce ::
  "wrapper_storage \<Rightarrow> wrapped_token_attributes \<Rightarrow> error + (u64 \<times> wrapper_storage \<times> effect list)" where
  "wrapped_get_or_create_nonce st attrs =
     and_then (wrapped_token_id st) (\<lambda>t.
     let existing_nonce = wrapped_nonce_mapping st attrs in
     if existing_nonce \<noteq> 0 then Inr (existing_nonce, st, [])
     else
       let new_nonce = wrapped_last_nonce st + 1 in
       Inr (new_nonce,
            st\<lparr>wrapped_attributes := (wrapped_attributes st)(new_nonce := Some attrs),
               wrapped_last_nonce := new_nonce,
               wrapped_nonce_mapping := (wrapped_nonce_mapping st)(attrs := new_nonce)\<rparr>,
            [NftCreate t 1]))"

definition wrap_locked_token_and_send ::
  "wrapper_storage \<Rightarrow> address \<Rightarrow> esdt_payment \<Rightarrow> error + (esdt_payment \<times> wrapper_storage \<times> effect list)" where
  "wrap_locked_token_and_send st caller token =
     and_then (wrapped_get_or_create_nonce st \<lparr>wrapped_locked_nonce = token_nonce token\<rparr>)
       (\<lambda>(wrapped_token_nonce, st, es).
     and_then (wrapped_token_id st) (\<lambda>t.
     let (p, es') = nft_add_quantity t wrapped_token_nonce (amount token) in
     Inr (p, st, es @ es' @ [DirectSend caller [p]])))"

definition unwrap_locked_token ::
  "wrapper_storage \<Rightarrow> token_id \<Rightarrow> esdt_payment \<Rightarrow> error + (esdt_payment \<times> effect list)" where
  "unwrap_locked_token st locked_token token =
     and_then (wrapped_token_id st) (\<lambda>t.
     require (token_identifier token = t) (SignalError ''Invalid payment token'')
    (case wrapped_attributes st (token_nonce token) of
       None \<Rightarrow> Inl (CallFailed ''ESDTNFT token data not found'')
     | Some attrs \<Rightarrow>
         Inr (new_payment locked_token (wrapped_locked_nonce attrs) (amount token),
              esdt_local_burn (token_identifier token) (token_nonce token) (amount token))))"

section \<open>lib.rs\<close>

definition wrapper_init ::
  "'e blockchain_scheme \<Rightarrow> wrapper_storage \<Rightarrow> address \<Rightarrow> error + wrapper_storage" where
  "wrapper_init env st factory =
     require_sc_address env factory (Inr (st\<lparr>energy_factory_address := Some factory\<rparr>))"

type_synonym wrapper_result = "error + (esdt_payment \<times> wrapper_storage \<times> effect list \<times> energy_write list)"

definition wrap_locked_token_endpoint ::
  "'e transfer_env_scheme \<Rightarrow> wrapper_storage \<Rightarrow> esdt_payment list \<Rightarrow> wrapper_result" where
  "wrap_locked_token_endpoint env st ps =
     and_then (single_esdt ps) (\<lambda>payment.
     let caller = get_caller env in
     and_then (query_locked_token_id env st) (\<lambda>locked_token.
     require (token_identifier payment = locked_token) (SignalError ''Bad payment tokens'')
    (and_then (deduct_energy_from_sender env st caller [payment]) (\<lambda>w.
     and_then (wrap_locked_token_and_send st caller payment) (\<lambda>(p, st, es).
     Inr (p, st, es, [w]))))))"

definition unwrap_locked_token_endpoint ::
  "'e transfer_env_scheme \<Rightarrow> wrapper_storage \<Rightarrow> esdt_payment list \<Rightarrow> wrapper_result" where
  "unwrap_locked_token_endpoint env st ps =
     (let caller = get_caller env in
      and_then (single_esdt ps) (\<lambda>payment.
      and_then (query_locked_token_id env st) (\<lambda>locked_token.
      and_then (unwrap_locked_token st locked_token payment) (\<lambda>(original, es).
      and_then (add_energy_to_destination env st caller [original]) (\<lambda>w.
      Inr (original, st, es @ [DirectSend caller [original]], [w]))))))"

section \<open>Books\<close>

datatype wrapper_call =
    WrapLockedToken "esdt_payment list"
  | UnwrapLockedToken "esdt_payment list"
  | WrapperEnergyFactory address
  | WrappedTokenIssued token_id

text \<open>The last call is the protocol's: the callback with the identifier of the wrapped token, which is new.\<close>

fun wrapper_exec ::
  "'e transfer_env_scheme \<Rightarrow> wrapper_storage \<Rightarrow> wrapper_call \<Rightarrow>
     error + (wrapper_storage \<times> effect list \<times> energy_write list)" where
  "wrapper_exec env st (WrapLockedToken ps) = and_then (wrap_locked_token_endpoint env st ps) (\<lambda>(p, r). Inr r)"
| "wrapper_exec env st (UnwrapLockedToken ps) = and_then (unwrap_locked_token_endpoint env st ps) (\<lambda>(p, r). Inr r)"
| "wrapper_exec env st (WrapperEnergyFactory a) =
     and_then (set_energy_factory_address env st a) (\<lambda>st. Inr (st, [], []))"
| "wrapper_exec env st (WrappedTokenIssued t) =
     require (wrapped_token st = None) (CallFailed ''token not issued'')
       (Inr (st\<lparr>wrapped_token := Some t\<rparr>, [], []))"

fun wrapper_payments :: "wrapper_call \<Rightarrow> esdt_payment list" where
  "wrapper_payments (WrapLockedToken ps) = ps"
| "wrapper_payments (UnwrapLockedToken ps) = ps"
| "wrapper_payments call = []"

text \<open>
  The protocol keeps \<open>wrapped_held\<close>, the wrapped tokens of every nonce in existence but for the one of
  the contract. Received and paid count the locked tokens of every nonce; the locked token is \<open>L\<close>.
\<close>

record wrapper_books =
  wrapper_book :: wrapper_storage
  wrapped_held :: "u64 \<Rightarrow> biguint"
  locked_received :: "u64 \<Rightarrow> biguint"
  locked_paid :: "u64 \<Rightarrow> biguint"

definition nonce_sum :: "token_id option \<Rightarrow> esdt_payment list \<Rightarrow> u64 \<Rightarrow> biguint" where
  "nonce_sum t ps n =
     sum_list (map amount (filter (\<lambda>p. Some (token_identifier p) = t \<and> token_nonce p = n) ps))"

fun nonce_added :: "effect list \<Rightarrow> u64 \<Rightarrow> biguint" where
  "nonce_added [] n = 0"
| "nonce_added (NftAddQuantity t m a # es) n = (if m = n then a else 0) + nonce_added es n"
| "nonce_added (e # es) n = nonce_added es n"

fun sent_payments :: "effect list \<Rightarrow> esdt_payment list" where
  "sent_payments [] = []"
| "sent_payments (DirectSend d ps # es) = ps @ sent_payments es"
| "sent_payments (e # es) = sent_payments es"

definition wrapper_step ::
  "token_id \<Rightarrow> wrapper_books \<Rightarrow> transfer_env \<times> wrapper_call \<Rightarrow> error + wrapper_books" where
  "wrapper_step L b x =
     (let (env, call) = x; st = wrapper_book b; ps = wrapper_payments call in
      require (list_all (\<lambda>p. nonce_sum (wrapped_token st) ps (token_nonce p) \<le> wrapped_held b (token_nonce p)) ps)
        (CallFailed ''insufficient funds'')
     (require (wrapped_last_nonce st + 1 \<noteq> 0) (CallFailed ''nonces exhausted'')
     (and_then (wrapper_exec env st call) (\<lambda>(st', es, ws).
      Inr \<lparr>wrapper_book = st',
           wrapped_held = (\<lambda>n. wrapped_held b n - nonce_sum (wrapped_token st) ps n + nonce_added es n),
           locked_received = (\<lambda>n. locked_received b n + nonce_sum (Some L) ps n),
           locked_paid = (\<lambda>n. locked_paid b n + nonce_sum (Some L) (sent_payments es) n)\<rparr>))))"

text \<open>The factory the wrapper works with has the locked token \<open>L\<close>, and a wrapped token is another one.\<close>

definition wrapper_admissible :: "token_id \<Rightarrow> transfer_env \<times> wrapper_call \<Rightarrow> bool" where
  "wrapper_admissible L x \<longleftrightarrow>
     (\<forall>a. read_locked_token_id (fst x) a = L) \<and> snd x \<noteq> WrappedTokenIssued L"

definition wrapper_nonces :: "wrapper_storage \<Rightarrow> bool" where
  "wrapper_nonces st \<longleftrightarrow> wrapped_attributes st 0 = None \<and>
     (\<forall>k a. wrapped_attributes st k = Some a \<longrightarrow> k \<le> wrapped_last_nonce st \<and> wrapped_nonce_mapping st a = k) \<and>
     (\<forall>a. wrapped_nonce_mapping st a \<noteq> 0 \<longrightarrow> wrapped_attributes st (wrapped_nonce_mapping st a) = Some a)"

definition wrapper_tokens ::
  "wrapper_storage \<Rightarrow> (u64 \<Rightarrow> biguint) \<Rightarrow> (u64 \<Rightarrow> biguint) \<Rightarrow> (u64 \<Rightarrow> biguint) \<Rightarrow> bool" where
  "wrapper_tokens st held received paid \<longleftrightarrow>
     (\<forall>k. wrapped_attributes st k = None \<longrightarrow> held k = 0) \<and>
     (\<forall>n. received n = paid n +
       (let k = wrapped_nonce_mapping st \<lparr>wrapped_locked_nonce = n\<rparr> in if k = 0 then 0 else held k))"

definition wrapper_inv :: "token_id \<Rightarrow> wrapper_books \<Rightarrow> bool" where
  "wrapper_inv L b \<longleftrightarrow> wrapped_token (wrapper_book b) \<noteq> Some L \<and> wrapper_nonces (wrapper_book b) \<and>
     wrapper_tokens (wrapper_book b) (wrapped_held b) (locked_received b) (locked_paid b)"

section \<open>Every call keeps the books\<close>

lemma nonce_sum_simps [simp]:
  "nonce_sum t [] n = 0"
  "nonce_sum t [p] n = (if Some (token_identifier p) = t \<and> token_nonce p = n then amount p else 0)"
  by (simp_all add: nonce_sum_def)

text \<open>Creating a nonce, or finding it, keeps the mapping and what is held under it.\<close>

lemma get_or_create_ok:
  assumes run: "wrapped_get_or_create_nonce st a = Inr (k, st', es)" and ok: "wrapper_nonces st"
    and fresh: "wrapped_last_nonce st + 1 \<noteq> 0"
  shows "wrapper_nonces st'" "wrapped_nonce_mapping st' a = k" "wrapped_attributes st' k = Some a"
    and "wrapped_token st' = wrapped_token st" "nonce_added es n = 0" "sent_payments es = []"
    and "wrapper_tokens st held received paid \<Longrightarrow> wrapper_tokens st' held received paid"
proof -
  have "wrapper_nonces st' \<and> wrapped_nonce_mapping st' a = k \<and> wrapped_attributes st' k = Some a \<and>
      wrapped_token st' = wrapped_token st \<and> nonce_added es n = 0 \<and> sent_payments es = [] \<and>
      (wrapper_tokens st held received paid \<longrightarrow> wrapper_tokens st' held received paid)"
  proof (cases "wrapped_nonce_mapping st a = 0")
    case False
    then have "st' = st" "k = wrapped_nonce_mapping st a" "es = []"
      using run by (auto simp: wrapped_get_or_create_nonce_def Let_def res_simps)
    then show ?thesis using ok False by (simp add: wrapper_nonces_def)
  next
    case True
    then obtain t where k: "k = wrapped_last_nonce st + 1" and es: "es = [NftCreate t 1]"
      and st': "st' = st\<lparr>wrapped_attributes := (wrapped_attributes st)(k := Some a),
        wrapped_last_nonce := k, wrapped_nonce_mapping := (wrapped_nonce_mapping st)(a := k)\<rparr>"
      using run by (auto simp: wrapped_get_or_create_nonce_def Let_def res_simps)
    have "unat (1 + wrapped_last_nonce st) = Suc (unat (wrapped_last_nonce st))"
      by (rule unatSuc) (use fresh in \<open>simp add: add.commute\<close>)
    then have less: "wrapped_last_nonce st < k" by (simp add: k word_less_nat_alt add.commute)
    have new: "wrapped_attributes st k = None"
      using ok leD [of k "wrapped_last_nonce st"] less
      by (cases "wrapped_attributes st k") (auto simp: wrapper_nonces_def)
    have k0: "k \<noteq> 0" using fresh k by simp
    have "wrapper_nonces st'"
      unfolding wrapper_nonces_def
    proof (intro conjI allI impI)
      show "wrapped_attributes st' 0 = None" using ok k0 by (simp add: st' wrapper_nonces_def)
      fix j c assume j: "wrapped_attributes st' j = Some c"
      show "j \<le> wrapped_last_nonce st'"
        using j ok order_trans [OF _ less_imp_le [OF less], of j]
        by (cases "j = k") (auto simp: st' wrapper_nonces_def)
      show "wrapped_nonce_mapping st' c = j"
        using j ok True k0 by (cases "j = k") (auto simp: st' wrapper_nonces_def)
    next
      fix c assume c: "wrapped_nonce_mapping st' c \<noteq> 0"
      show "wrapped_attributes st' (wrapped_nonce_mapping st' c) = Some c"
      proof (cases "c = a")
        case False
        then have "wrapped_attributes st (wrapped_nonce_mapping st c) = Some c"
          using c ok by (simp add: st' wrapper_nonces_def)
        then show ?thesis using False new by (auto simp: st')
      qed (simp add: st')
    qed
    moreover have "wrapper_tokens st' held received paid" if tokens: "wrapper_tokens st held received paid"
      unfolding wrapper_tokens_def
    proof (intro conjI allI impI)
      fix j assume "wrapped_attributes st' j = None"
      then show "held j = 0" using tokens by (simp add: st' wrapper_tokens_def split: if_splits)
    next
      fix n
      have "held k = 0" using tokens new by (simp add: wrapper_tokens_def)
      then show "received n = paid n +
          (let k = wrapped_nonce_mapping st' \<lparr>wrapped_locked_nonce = n\<rparr> in if k = 0 then 0 else held k)"
        using tokens True by (cases "\<lparr>wrapped_locked_nonce = n\<rparr> = a") (auto simp: st' wrapper_tokens_def Let_def)
    qed
    ultimately show ?thesis by (simp add: st' es)
  qed
  then show "wrapper_nonces st'" "wrapped_nonce_mapping st' a = k" "wrapped_attributes st' k = Some a"
    and "wrapped_token st' = wrapped_token st" "nonce_added es n = 0" "sent_payments es = []"
    and "wrapper_tokens st held received paid \<Longrightarrow> wrapper_tokens st' held received paid"
    by blast+
qed

text \<open>The tokens of one nonce move on both sides.\<close>

lemma wrapper_tokens_add:
  assumes tokens: "wrapper_tokens st held received paid" and ok: "wrapper_nonces st"
    and k: "wrapped_attributes st k = Some \<lparr>wrapped_locked_nonce = n\<rparr>"
    and held: "\<And>j. j \<noteq> k \<Longrightarrow> held' j = held j" and others: "\<And>m. m \<noteq> n \<Longrightarrow> received' m + paid m = received m + paid' m"
    and this_one: "received' n + paid n + held k = received n + paid' n + held' k"
  shows "wrapper_tokens st held' received' paid'"
  unfolding wrapper_tokens_def
proof (intro conjI allI impI)
  fix j assume "wrapped_attributes st j = None"
  moreover from this have "j \<noteq> k" using k by auto
  ultimately show "held' j = 0" using tokens held [of j] by (simp add: wrapper_tokens_def)
next
  fix m
  have mk: "wrapped_nonce_mapping st \<lparr>wrapped_locked_nonce = n\<rparr> = k" "k \<noteq> 0"
    using k ok by (auto simp: wrapper_nonces_def)
  have eq: "received m = paid m + (let k = wrapped_nonce_mapping st \<lparr>wrapped_locked_nonce = m\<rparr> in if k = 0 then 0 else held k)"
    using tokens by (simp add: wrapper_tokens_def)
  show "received' m = paid' m + (let k = wrapped_nonce_mapping st \<lparr>wrapped_locked_nonce = m\<rparr> in if k = 0 then 0 else held' k)"
  proof (cases "m = n")
    case True
    then show ?thesis using eq this_one mk by (simp add: Let_def)
  next
    case False
    have "wrapped_nonce_mapping st \<lparr>wrapped_locked_nonce = m\<rparr> \<noteq> k"
    proof
      assume "wrapped_nonce_mapping st \<lparr>wrapped_locked_nonce = m\<rparr> = k"
      then have "wrapped_attributes st k = Some \<lparr>wrapped_locked_nonce = m\<rparr>"
        using ok mk(2) unfolding wrapper_nonces_def by metis
      then show False using k \<open>m \<noteq> n\<close> by simp
    qed
    then show ?thesis using eq others [OF False] held by (auto simp: Let_def split: if_splits)
  qed
qed

lemma wrap_books:
  assumes run: "wrap_locked_token_endpoint env st ps = Inr (q, st', es, ws)"
    and inv: "wrapped_token st \<noteq> Some L" "wrapper_nonces st" "wrapper_tokens st held received paid"
    and fresh: "wrapped_last_nonce st + 1 \<noteq> 0" and L: "\<forall>a. read_locked_token_id env a = L"
  shows "wrapped_token st' = wrapped_token st" "wrapper_nonces st'"
    and "wrapper_tokens st' (\<lambda>n. held n - nonce_sum (wrapped_token st) ps n + nonce_added es n)
      (\<lambda>n. received n + nonce_sum (Some L) ps n) (\<lambda>n. paid n + nonce_sum (Some L) (sent_payments es) n)"
proof -
  obtain p where ps: "ps = [p]" and p: "token_identifier p = L"
    and wrap: "wrap_locked_token_and_send st (get_caller env) p = Inr (q, st', es)"
    using run L by (auto simp: wrap_locked_token_endpoint_def Let_def res_simps)
  obtain t k es1 where create: "wrapped_get_or_create_nonce st \<lparr>wrapped_locked_nonce = token_nonce p\<rparr> = Inr (k, st', es1)"
    and t: "wrapped_token st' = Some t"
    and es: "es = es1 @ [NftAddQuantity t k (amount p), DirectSend (get_caller env) [new_payment t k (amount p)]]"
    using wrap by (auto simp: wrap_locked_token_and_send_def wrapped_token_id_def nft_add_quantity_def res_simps split: option.splits)
  note new = get_or_create_ok [OF create inv(2) fresh]
  show "wrapped_token st' = wrapped_token st" "wrapper_nonces st'" using new by simp_all
  have added: "nonce_added (es1 @ es2) n = nonce_added es2 n" "sent_payments (es1 @ es2) = sent_payments es2" for es2 n
    using create by (auto simp: wrapped_get_or_create_nonce_def Let_def res_simps split: if_splits)
  have "t \<noteq> L" using t new(4) inv(1) by simp
  then show "wrapper_tokens st' (\<lambda>n. held n - nonce_sum (wrapped_token st) ps n + nonce_added es n)
      (\<lambda>n. received n + nonce_sum (Some L) ps n) (\<lambda>n. paid n + nonce_sum (Some L) (sent_payments es) n)"
    using t new(4) p
    by (intro wrapper_tokens_add [OF new(7) [OF inv(3)] new(1,3)]) (auto simp: ps es added new_payment_def)
qed

lemma unwrap_books:
  assumes run: "unwrap_locked_token_endpoint env st ps = Inr (q, st', es, ws)"
    and inv: "wrapped_token st \<noteq> Some L" "wrapper_nonces st" "wrapper_tokens st held received paid"
    and covered: "list_all (\<lambda>p. nonce_sum (wrapped_token st) ps (token_nonce p) \<le> held (token_nonce p)) ps"
    and L: "\<forall>a. read_locked_token_id env a = L"
  shows "st' = st"
    and "wrapper_tokens st (\<lambda>n. held n - nonce_sum (wrapped_token st) ps n + nonce_added es n)
      (\<lambda>n. received n + nonce_sum (Some L) ps n) (\<lambda>n. paid n + nonce_sum (Some L) (sent_payments es) n)"
proof -
  obtain p t a where ps: "ps = [p]" and st': "st' = st" and t: "wrapped_token st = Some t" "token_identifier p = t"
    and a: "wrapped_attributes st (token_nonce p) = Some a"
    and es: "es = esdt_local_burn t (token_nonce p) (amount p) @
      [DirectSend (get_caller env) [new_payment L (wrapped_locked_nonce a) (amount p)]]"
    using run L
    by (auto simp: unwrap_locked_token_endpoint_def unwrap_locked_token_def wrapped_token_id_def Let_def res_simps split: option.splits)
  show "st' = st" by (rule st')
  have a': "wrapped_attributes st (token_nonce p) = Some \<lparr>wrapped_locked_nonce = wrapped_locked_nonce a\<rparr>"
    using a by (cases a) simp
  have "amount p \<le> held (token_nonce p)" using covered t by (simp add: ps)
  then show "wrapper_tokens st (\<lambda>n. held n - nonce_sum (wrapped_token st) ps n + nonce_added es n)
      (\<lambda>n. received n + nonce_sum (Some L) ps n) (\<lambda>n. paid n + nonce_sum (Some L) (sent_payments es) n)"
    using t inv(1)
    by (intro wrapper_tokens_add [OF inv(3,2) a']) (auto simp: ps es esdt_local_burn_def new_payment_def)
qed

lemma wrapper_step_inv:
  assumes inv: "wrapper_inv L b" and ok: "wrapper_admissible L x" and step: "wrapper_step L b x = Inr b'"
  shows "wrapper_inv L b'"
proof -
  obtain env call where x: "x = (env, call)" by (cases x)
  let ?st = "wrapper_book b" and ?ps = "wrapper_payments call"
  obtain st' es ws where run: "wrapper_exec env ?st call = Inr (st', es, ws)"
    and covered: "list_all (\<lambda>p. nonce_sum (wrapped_token ?st) ?ps (token_nonce p) \<le> wrapped_held b (token_nonce p)) ?ps"
    and fresh: "wrapped_last_nonce ?st + 1 \<noteq> 0"
    and b': "b' = \<lparr>wrapper_book = st',
           wrapped_held = (\<lambda>n. wrapped_held b n - nonce_sum (wrapped_token ?st) ?ps n + nonce_added es n),
           locked_received = (\<lambda>n. locked_received b n + nonce_sum (Some L) ?ps n),
           locked_paid = (\<lambda>n. locked_paid b n + nonce_sum (Some L) (sent_payments es) n)\<rparr>"
    using step by (auto simp: wrapper_step_def x Let_def res_simps)
  have L: "\<forall>a. read_locked_token_id env a = L" using ok by (simp add: wrapper_admissible_def x)
  note parts = inv [unfolded wrapper_inv_def, THEN conjunct1] inv [unfolded wrapper_inv_def, THEN conjunct2, THEN conjunct1]
    inv [unfolded wrapper_inv_def, THEN conjunct2, THEN conjunct2]
  show ?thesis
  proof (cases call)
    case (WrapLockedToken ps)
    then show ?thesis
      using run wrap_books [OF _ parts fresh L, of ps] parts(1) by (auto simp: wrapper_inv_def b' and_then_Inr)
  next
    case (UnwrapLockedToken ps)
    then show ?thesis
      using run unwrap_books [OF _ parts _ L, of ps] covered parts by (auto simp: wrapper_inv_def b' and_then_Inr)
  next
    case (WrapperEnergyFactory a)
    then show ?thesis
      using run parts by (auto simp: wrapper_inv_def b' and_then_Inr set_energy_factory_address_def require_Inr
          wrapper_nonces_def wrapper_tokens_def)
  next
    case (WrappedTokenIssued t)
    then show ?thesis
      using run parts ok by (auto simp: wrapper_inv_def b' require_Inr wrapper_admissible_def x
          wrapper_nonces_def wrapper_tokens_def)
  qed
qed

interpretation wrapper_run: step_system "wrapper_step L" "wrapper_inv L" "wrapper_admissible L"
  by unfold_locales (rule wrapper_step_inv)

definition empty_wrapper_storage :: wrapper_storage where
  "empty_wrapper_storage = \<lparr>energy_factory_address = None, wrapped_token = None, wrapped_nonce_mapping = (\<lambda>a. 0),
     wrapped_attributes = Map.empty, wrapped_last_nonce = 0\<rparr>"

definition new_wrapper_books :: "wrapper_storage \<Rightarrow> wrapper_books" where
  "new_wrapper_books st = \<lparr>wrapper_book = st, wrapped_held = (\<lambda>n. 0), locked_received = (\<lambda>n. 0), locked_paid = (\<lambda>n. 0)\<rparr>"

lemma new_wrapper_inv:
  assumes "wrapper_init env empty_wrapper_storage factory = Inr st"
  shows "wrapper_inv L (new_wrapper_books st)"
  using assms
  by (auto simp: wrapper_init_def res_simps empty_wrapper_storage_def wrapper_inv_def new_wrapper_books_def
      wrapper_nonces_def wrapper_tokens_def)

end
