(* ===== verification/TransferProperties.thy ===== *)
theory TransferProperties
  imports LkmexBooks TokenWrapper EnergyCalls
begin

text \<open>
  What the transfers of locked tokens promise: the energy goes with the positions, the scheduled
  transfers are held by the contract, and every wrapped token stands for a locked one.
\<close>

section \<open>An example\<close>

text \<open>
  User 7 of the energy factory's example sends 100 of the tokens under nonce 1 to user 8, and wraps
  60 of those under nonce 2. The contracts have address 20, which the factory lists.
\<close>

definition ex_transfer_factory :: factory_storage where
  "ex_transfer_factory = ex_factory\<lparr>token_transfer_whitelist := {20}\<rparr>"

definition ex_transfer_fenv :: "u64 \<Rightarrow> factory_env" where
  "ex_transfer_fenv now = ex_factory_env\<lparr>get_caller := 20, get_block_epoch := now\<rparr>"

definition ex_transfer_env :: "address \<Rightarrow> u64 \<Rightarrow> transfer_env" where
  "ex_transfer_env caller now =
     \<lparr>get_caller = caller, get_sc_address = 20, get_owner_address = 2, get_block_epoch = now,
      get_block_round = 0, get_block_nonce = 0, get_block_timestamp = 0,
      is_smart_contract = (\<lambda>a. a < 5 \<or> a = 20), is_valid_esdt_identifier = (\<lambda>t. True),
      read_user_energy = (\<lambda>a. user_energy ex_transfer_factory), read_base_token_id = (\<lambda>a. ''MEX''),
      read_locked_token_id = (\<lambda>a. ''XMEX''),
      read_locked_attributes = (\<lambda>t. created_attributes ex_transfer_factory),
      call_set_energy = (\<lambda>a u e. and_then
        (set_user_energy_after_locked_token_transfer (ex_transfer_fenv now) ex_transfer_factory u e) (\<lambda>_. Inr ()))\<rparr>"

lemma ex_answers_as_factory: "answers_as_factory (ex_transfer_env u c) (ex_transfer_fenv c) ex_transfer_factory"
  by (simp add: answers_as_factory_def ex_transfer_env_def ex_transfer_fenv_def)

definition ex_lkmex :: lkmex_storage where
  "ex_lkmex = (case lkmex_init (ex_transfer_env 2 1000) empty_lkmex_storage 1 ''XMEX'' 5 10 of
     Inr st \<Rightarrow> st | Inl e \<Rightarrow> empty_lkmex_storage)"

definition ex_lkmex_calls :: "(transfer_env \<times> lkmex_call) list" where
  "ex_lkmex_calls =
     [(ex_transfer_env 7 1000, LkmexLock [ex_locked 1 100] 8),
      (ex_transfer_env 7 1003, LkmexLock [ex_locked 2 40] 8),
      (ex_transfer_env 7 1020, LkmexLock [ex_locked 2 40] 9),
      (ex_transfer_env 8 1020, LkmexWithdraw 7)]"

definition ex_wrapper :: wrapper_storage where
  "ex_wrapper = (case wrapper_init (ex_transfer_env 2 1000) empty_wrapper_storage 1 of
     Inr st \<Rightarrow> st | Inl e \<Rightarrow> empty_wrapper_storage)"

definition ex_wrapper_calls :: "(transfer_env \<times> wrapper_call) list" where
  "ex_wrapper_calls =
     [(ex_transfer_env 2 1000, WrappedTokenIssued ''WXMEX''),
      (ex_transfer_env 7 1000, WrapLockedToken [ex_locked 2 60]),
      (ex_transfer_env 9 1001, UnwrapLockedToken [new_payment ''WXMEX'' 1 25])]"

lemma ex_lkmex_init: "lkmex_init (ex_transfer_env 2 1000) empty_lkmex_storage 1 ''XMEX'' 5 10 = Inr ex_lkmex"
  by (simp add: ex_lkmex_def lkmex_init_def ex_transfer_env_def set_energy_factory_address_def require_valid_token_id_def
      require_sc_address_def)

lemma ex_wrapper_init: "wrapper_init (ex_transfer_env 2 1000) empty_wrapper_storage 1 = Inr ex_wrapper"
  by (simp add: ex_wrapper_def wrapper_init_def ex_transfer_env_def require_sc_address_def)

text \<open>Evaluation of the endpoints on it.\<close>

lemma ex_transfer_env_sel [simp]:
  "get_caller (ex_transfer_env u c) = u" "get_block_epoch (ex_transfer_env u c) = c"
  "read_locked_token_id (ex_transfer_env u c) a = ''XMEX''"
  "read_user_energy (ex_transfer_env u c) a = [7 \<mapsto> energy_new 454500 1000 450]"
  "read_locked_attributes (ex_transfer_env u c) t n =
     [1 \<mapsto> ex_attributes 1350, 2 \<mapsto> ex_attributes 2400, 3 \<mapsto> ex_attributes 990] n"
  "call_set_energy (ex_transfer_env u c) a v e = Inr ()"
  "is_smart_contract (ex_transfer_env u c) a \<longleftrightarrow> a < 5 \<or> a = 20"
  "is_valid_esdt_identifier (ex_transfer_env u c) t" "get_owner_address (ex_transfer_env u c) = 2"
  by (simp_all add: ex_transfer_env_def ex_transfer_fenv_def ex_transfer_factory_def ex_factory_def
      set_user_energy_after_locked_token_transfer_def require_not_paused_def require_sc_address_whitelisted_def ex_factory_env_def)

lemma ex_lkmex_eq: "ex_lkmex = empty_lkmex_storage\<lparr>min_lock_epochs := 5, epochs_cooldown_duration := 10,
    lkmex_locked_token_id := ''XMEX'', energy_factory_address := Some 1,
    lkmex_permissions := add_permissions (\<lambda>a. 0) 2 OWNER\<rparr>"
  by (simp add: ex_lkmex_def lkmex_init_def set_energy_factory_address_def require_valid_token_id_def
      require_sc_address_def empty_lkmex_storage_def)

lemma ex_wrapper_eq: "ex_wrapper = empty_wrapper_storage\<lparr>energy_factory_address := Some 1\<rparr>"
  by (simp add: ex_wrapper_def wrapper_init_def require_sc_address_def empty_wrapper_storage_def)

lemmas transfer_eval =
  get_energy_factory_address_def deduct_energy_from_sender_def add_energy_to_destination_def
  read_attributes_def set_energy_in_factory_def get_energy_entry_def energy_new_def new_zero_energy_def
  deplete_def add_after_token_lock_def deplete_after_early_unlock_def energy_add_def energy_subtract_def
  remove_energy_raw_def add_energy_raw_def ex_attributes_def

lemma ex_lkmex_lock:
  "\<exists>st' es ws. lkmex_exec (ex_transfer_env 7 1000) ex_lkmex (LkmexLock [ex_locked 1 100] 8) = Inr (st', es, ws)"
  by (simp add: transfer_eval ex_lkmex_eq empty_lkmex_storage_def lock_funds_def check_address_on_cooldown_def)

lemma ex_lkmex_run: "(let b = run_txs lkmex_step (new_lkmex_books ex_lkmex) ex_lkmex_calls in
   (lkmex_received b ''XMEX'', lkmex_paid b ''XMEX'', all_senders (lkmex_book b) 8, all_senders (lkmex_book b) 9)) =
   (140, 100, [], [7])"
  by (simp add: transfer_eval ex_lkmex_eq empty_lkmex_storage_def lock_funds_def check_address_on_cooldown_def
      get_unlocked_funds_def lkmex_withdraw_def unordered_insert_def unordered_swap_remove_def
      ex_lkmex_calls_def new_lkmex_books_def lkmex_step_def
      cong: and_then_weak_cong require_weak_cong let_weak_cong)

lemma ex_wrapper_run: "(let b = run_txs (wrapper_step ''XMEX'') (new_wrapper_books ex_wrapper) ex_wrapper_calls in
   (wrapped_held b 1, locked_received b 2, locked_paid b 2)) = (35, 60, 25)"
  by (simp add: transfer_eval ex_wrapper_eq empty_wrapper_storage_def
      wrap_locked_token_endpoint_def unwrap_locked_token_endpoint_def wrap_locked_token_and_send_def
      unwrap_locked_token_def wrapped_get_or_create_nonce_def wrapped_token_id_def query_locked_token_id_def
      nft_add_quantity_def esdt_local_burn_def nonce_sum_def
      ex_wrapper_calls_def new_wrapper_books_def wrapper_step_def
      Let_def single_esdt_def cong: and_then_weak_cong require_weak_cong)

section \<open>Properties\<close>

text \<open>The user whose energy a call changes, with the tokens it takes away and the tokens it gives.\<close>

definition moved_by ::
  "'e blockchain_scheme \<Rightarrow> lkmex_storage \<Rightarrow> lkmex_call \<Rightarrow> (address \<times> esdt_payment list \<times> esdt_payment list) option" where
  "moved_by env st call =
     (case call of
        LkmexLock ps r \<Rightarrow> Some (get_caller env, ps, [])
      | LkmexWithdraw s \<Rightarrow>
          map_option (\<lambda>l. (get_caller env, [], funds l)) (locked_funds_of st (get_caller env, s))
      | LkmexCancel s r \<Rightarrow> map_option (\<lambda>l. (s, [], funds l)) (locked_funds_of st (r, s))
      | _ \<Rightarrow> None)"

text \<open>C30: Delayed transfers and the energy factory agree on energies. When the factory with storage
  \<open>f\<close> answers the contract, a call that succeeds writes the energy of one user, the sender who
  locks tokens, the receiver who withdraws them or the sender who gets them back, and no call
  writes anything else. The factory's own endpoint accepts the written entry, and if the entry of
  that user was exact for a set of positions with the tokens taken away, afterwards it is exact for
  the positions without them, or with the tokens given; nobody else's entry changes.\<close>

theorem transfers_move_positions:
  assumes run: "lkmex_exec env st call = Inr (st', es, ws)" and factory: "answers_as_factory env fenv f"
  shows "case moved_by env st call of
      None \<Rightarrow> ws = []
    | Some (user, sent, gained) \<Rightarrow>
        (\<exists>e. ws = [(user, e)] \<and>
          set_user_energy_after_locked_token_transfer fenv f user e = Inr ((), factory_after f (user, e), []) \<and>
          moves_energy fenv f (factory_after f (user, e)) user (positions_of f sent) (positions_of f gained))"
proof -
  have deduct: ?thesis if "deduct_energy_from_sender env s user sent = Inr w" "ws = [w]"
      "moved_by env st call = Some (user, sent, [])" for w user sent and s :: lkmex_storage
    using deduct_energy_moves [OF that(1) factory] that(2,3) by (cases w) auto
  have add: ?thesis if "add_energy_to_destination env s user gained = Inr w" "ws = [w]"
      "moved_by env st call = Some (user, [], gained)" for w user gained and s :: lkmex_storage
    using add_energy_moves [OF that(1) factory] that(2,3) by (cases w) auto
  show ?thesis
  proof (cases call)
    case (LkmexWithdraw s)
    obtain l where l: "locked_funds_of st (get_caller env, s) = Some l"
      and w: "\<exists>w. add_energy_to_destination env st (get_caller env) (funds l) = Inr w \<and> ws = [w]"
      using run LkmexWithdraw
      by (auto simp: lkmex_withdraw_def check_address_on_cooldown_def get_unlocked_funds_def Let_def res_simps
          split: if_splits option.splits)
    from w obtain w where w: "add_energy_to_destination env st (get_caller env) (funds l) = Inr w" "ws = [w]"
      by blast
    show ?thesis by (rule add [OF w]) (simp add: moved_by_def LkmexWithdraw l)
  next
    case (LkmexCancel s r)
    obtain l where l: "locked_funds_of st (r, s) = Some l"
      and w: "\<exists>w s'. add_energy_to_destination env (s' :: lkmex_storage) s (funds l) = Inr w \<and> ws = [w]"
      using run LkmexCancel by (auto simp: cancel_transfer_def Let_def res_simps split: option.splits)
    from w obtain w s' where w: "add_energy_to_destination env (s' :: lkmex_storage) s (funds l) = Inr w" "ws = [w]"
      by blast
    show ?thesis by (rule add [OF w]) (simp add: moved_by_def LkmexCancel l)
  next
    case (LkmexLock ps r)
    obtain w where w: "deduct_energy_from_sender env st (get_caller env) ps = Inr w" "ws = [w]"
      using run LkmexLock by (auto simp: lock_funds_def check_address_on_cooldown_def Let_def res_simps split: if_splits)
    show ?thesis by (rule deduct [OF w]) (simp add: moved_by_def LkmexLock)
  qed (use run in \<open>auto simp: lkmex_permission_call_def res_simps moved_by_def\<close>)
qed

theorem transfers_move_positions_witness:
  "\<exists>st' es e. lkmex_exec (ex_transfer_env 7 1000) ex_lkmex (LkmexLock [ex_locked 1 100] 8) = Inr (st', es, [(7, e)]) \<and>
    moves_energy (ex_transfer_fenv 1000) ex_transfer_factory (factory_after ex_transfer_factory (7, e)) 7
      {#(100, 1350)#} {#}"
proof -
  obtain st' es ws where
    run: "lkmex_exec (ex_transfer_env 7 1000) ex_lkmex (LkmexLock [ex_locked 1 100] 8) = Inr (st', es, ws)"
    using ex_lkmex_lock by blast
  have "position_of ex_transfer_factory (ex_locked 1 100) = (100, 1350)"
    by (simp add: ex_transfer_factory_def position_of_def ex_factory_def ex_attributes_def)
  then show ?thesis
    using transfers_move_positions [OF run ex_answers_as_factory] run by (auto simp: moved_by_def)
qed

text \<open>C31: Scheduled transfers are safe. After any sequence of calls on a newly deployed contract of
  delayed transfers, the tokens received are the tokens paid out and the funds of the transfers that
  are scheduled, for every token; and the view lists for each receiver exactly the scheduled
  transfers to it, each sender once.\<close>

theorem scheduled_transfers_are_held:
  fixes calls :: "(transfer_env \<times> lkmex_call) list"
  assumes init: "lkmex_init env empty_lkmex_storage factory token n cooldown = Inr st"
  defines "b \<equiv> run_txs lkmex_step (new_lkmex_books st) calls"
  shows "lkmex_received b t = lkmex_paid b t + scheduled (locked_funds_of (lkmex_book b)) t \<and>
    (\<exists>ts. get_scheduled_transfers (lkmex_book b) r = Inr ts \<and> distinct (map transfer_sender ts) \<and>
      set ts = {\<lparr>transfer_sender = s, transfer_locked_funds = l\<rparr> | s l. locked_funds_of (lkmex_book b) (r, s) = Some l})"
proof
  have inv: "lkmex_inv b"
    unfolding b_def by (intro lkmex_run.run_inv new_lkmex_inv [OF init]) (simp add: list_all_iff)
  then show "lkmex_received b t = lkmex_paid b t + scheduled (locked_funds_of (lkmex_book b)) t"
    by (simp add: lkmex_inv_def Let_def)
  let ?st = "lkmex_book b"
  have senders: "distinct (all_senders ?st r)" "set (all_senders ?st r) = {s. locked_funds_of ?st (r, s) \<noteq> None}"
    using inv by (simp_all add: lkmex_inv_def Let_def)
  have "get_scheduled_transfers ?st r = Inr
      (map (\<lambda>s. \<lparr>transfer_sender = s, transfer_locked_funds = the (locked_funds_of ?st (r, s))\<rparr>) (all_senders ?st r))"
    unfolding get_scheduled_transfers_def using senders by (intro scheduled_transfers_loop_Inr) auto
  then show "\<exists>ts. get_scheduled_transfers ?st r = Inr ts \<and> distinct (map transfer_sender ts) \<and>
      set ts = {\<lparr>transfer_sender = s, transfer_locked_funds = l\<rparr> | s l. locked_funds_of ?st (r, s) = Some l}"
    using senders by (fastforce simp: comp_def image_iff)
qed

theorem scheduled_transfers_are_held_witness:
  "let b = run_txs lkmex_step (new_lkmex_books ex_lkmex) ex_lkmex_calls in
   lkmex_received b ''XMEX'' = 140 \<and> lkmex_paid b ''XMEX'' = 100 \<and>
   scheduled (locked_funds_of (lkmex_book b)) ''XMEX'' = 40 \<and> all_senders (lkmex_book b) 9 = [7]"
  using ex_lkmex_run scheduled_transfers_are_held [OF ex_lkmex_init, of ex_lkmex_calls "''XMEX''"]
  by (simp add: Let_def)

text \<open>C32: Every wrapped token is backed. After any sequence of calls on a newly deployed wrapper,
  made with a factory whose locked token is \<open>L\<close>, a wrapped nonce that users hold stands for one
  locked nonce \<open>n\<close>, and the wrapper has received exactly as many locked tokens of nonce \<open>n\<close>
  more than it has paid back as there are wrapped tokens of it; of a locked nonce without a wrapped
  one it keeps nothing.\<close>

theorem wrapped_tokens_are_backed:
  assumes init: "wrapper_init env empty_wrapper_storage factory = Inr st"
    and calls: "list_all (wrapper_admissible L) calls"
  defines "b \<equiv> run_txs (wrapper_step L) (new_wrapper_books st) calls"
  defines "wrapped \<equiv> wrapped_nonce_mapping (wrapper_book b)"
  shows "(wrapped_held b k \<noteq> 0 \<longrightarrow> (\<exists>n. wrapped \<lparr>wrapped_locked_nonce = n\<rparr> = k \<and>
      locked_received b n = locked_paid b n + wrapped_held b k)) \<and>
    (wrapped \<lparr>wrapped_locked_nonce = n\<rparr> = 0 \<longrightarrow> locked_received b n = locked_paid b n)"
proof (intro conjI impI)
  have inv: "wrapper_inv L b"
    unfolding b_def by (intro wrapper_run.run_inv new_wrapper_inv [OF init] calls)
  then have sums: "locked_received b n = locked_paid b n +
      (let k = wrapped \<lparr>wrapped_locked_nonce = n\<rparr> in if k = 0 then 0 else wrapped_held b k)" for n
    by (simp add: wrapper_inv_def wrapper_tokens_def wrapped_def)
  show "locked_received b n = locked_paid b n" if "wrapped \<lparr>wrapped_locked_nonce = n\<rparr> = 0"
    using sums [of n] that by simp
  assume "wrapped_held b k \<noteq> 0"
  then obtain a where a: "wrapped_attributes (wrapper_book b) k = Some a"
    using inv by (cases "wrapped_attributes (wrapper_book b) k") (auto simp: wrapper_inv_def wrapper_tokens_def)
  then have "wrapped \<lparr>wrapped_locked_nonce = wrapped_locked_nonce a\<rparr> = k" "k \<noteq> 0"
    using inv by (auto simp: wrapper_inv_def wrapper_nonces_def wrapped_def)
  then show "\<exists>n. wrapped \<lparr>wrapped_locked_nonce = n\<rparr> = k \<and> locked_received b n = locked_paid b n + wrapped_held b k"
    using sums [of "wrapped_locked_nonce a"] by (intro exI [of _ "wrapped_locked_nonce a"]) simp
qed

theorem wrapped_tokens_are_backed_witness:
  "let b = run_txs (wrapper_step ''XMEX'') (new_wrapper_books ex_wrapper) ex_wrapper_calls in
   wrapped_held b 1 = 35 \<and>
   (\<exists>n. wrapped_nonce_mapping (wrapper_book b) \<lparr>wrapped_locked_nonce = n\<rparr> = 1 \<and>
      locked_received b n = locked_paid b n + 35)"
proof -
  have ok: "list_all (wrapper_admissible ''XMEX'') ex_wrapper_calls"
    by (simp add: ex_wrapper_calls_def wrapper_admissible_def)
  show ?thesis
    using ex_wrapper_run wrapped_tokens_are_backed [OF ex_wrapper_init ok, of 1] by (simp add: Let_def)
qed

end
