(* ===== verification/Governance.thy ===== *)
theory Governance
  imports EnergyQuery LkmexTransfer
begin

text \<open>
  Governance by energy (\<open>energy-integration/governance-v2/src\<close>): proposals with a deposit, votes weighted
  with the square root of the voter's energy, and the decision after the voting period.
\<close>

section \<open>Square root of a \<open>BigUint\<close>\<close>

text \<open>\<open>BigUint::sqrt\<close> of the framework is the rounded-down square root.\<close>

fun big_sqrt :: "biguint \<Rightarrow> biguint" where
  "big_sqrt n =
     (if n = 0 then 0
      else let r = 2 * big_sqrt (n div 4) in if (r + 1) * (r + 1) \<le> n then r + 1 else r)"

declare big_sqrt.simps [simp del]

lemma big_sqrt_bounds: "big_sqrt n * big_sqrt n \<le> n \<and> n < (big_sqrt n + 1) * (big_sqrt n + 1)"
proof (induction n rule: big_sqrt.induct)
  case (1 n)
  show ?case
  proof (cases "n = 0")
    case True
    then show ?thesis by (simp add: big_sqrt.simps)
  next
    case False
    define s where "s = big_sqrt (n div 4)"
    have IH: "s * s \<le> n div 4" "n div 4 < (s + 1) * (s + 1)" using 1 False by (simp_all add: s_def)
    have lo: "2 * s * (2 * s) \<le> n" using IH(1) by (simp add: algebra_simps)
    have "n < 4 * (n div 4) + 4" by (metis add.commute dividend_less_div_times mult.commute zero_less_numeral)
    moreover have "4 * (n div 4) + 4 \<le> 4 * ((s + 1) * (s + 1))" using IH(2) by linarith
    ultimately have hi: "n < (2 * s + 1 + 1) * (2 * s + 1 + 1)" by (simp add: algebra_simps)
    have "big_sqrt n = (if (2 * s + 1) * (2 * s + 1) \<le> n then 2 * s + 1 else 2 * s)"
      using False by (subst big_sqrt.simps) (simp add: s_def Let_def)
    then show ?thesis using lo hi by auto
  qed
qed

lemma big_sqrt_le: "big_sqrt n \<le> n"
  using big_sqrt_bounds [of n] by (metis le_square le_trans)

section \<open>errors.rs\<close>

definition WRONG_TOKEN_ID :: error where
  "WRONG_TOKEN_ID = SignalError ''Wrong payment token id for fee''"

definition NOT_ENOUGH_FEE :: error where
  "NOT_ENOUGH_FEE = SignalError ''Minimum fee required not reached''"

definition NOT_ENOUGH_ENERGY :: error where
  "NOT_ENOUGH_ENERGY = SignalError ''Not enough energy for propose''"

definition TOO_MUCH_GAS :: error where
  "TOO_MUCH_GAS = SignalError ''Actions require too much gas to be executed''"

definition PROPOSAL_NOT_ACTIVE :: error where
  "PROPOSAL_NOT_ACTIVE = SignalError ''Proposal is not active''"

definition GOV_ERROR_NOT_AN_ESDT :: error where
  "GOV_ERROR_NOT_AN_ESDT = SignalError ''Not a valid esdt id''"

definition ALREADY_VOTED_ERR_MSG :: error where
  "ALREADY_VOTED_ERR_MSG = SignalError ''Already voted for this proposal''"

definition EXEEDED_MAX_ACTIONS :: error where
  "EXEEDED_MAX_ACTIONS = SignalError ''Exceeded max actions per proposal''"

definition ONLY_PROPOSER_CANCEL :: error where
  "ONLY_PROPOSER_CANCEL = SignalError ''Only original proposer may cancel a pending proposal''"

definition ONLY_PROPOSER_WITHDRAW :: error where
  "ONLY_PROPOSER_WITHDRAW = SignalError ''Only original proposer may withdraw a pending proposal''"

definition FEE_ALREADY_WITHDRAWN :: error where
  "FEE_ALREADY_WITHDRAWN = SignalError ''Fee already withdrawn!''"

definition NO_PROPOSAL :: error where
  "NO_PROPOSAL = SignalError ''Proposal does not exist''"

definition WITHDRAW_NOT_ALLOWED :: error where
  "WITHDRAW_NOT_ALLOWED = SignalError ''You may not withdraw funds from this proposal!''"

definition PROPOSAL_NOT_ALLOWED_FOR_SC :: error where
  "PROPOSAL_NOT_ALLOWED_FOR_SC = SignalError ''Smart Contracts are not allowed to propose!''"

section \<open>proposal.rs\<close>

definition MAX_GOVERNANCE_PROPOSAL_ACTIONS :: nat where "MAX_GOVERNANCE_PROPOSAL_ACTIONS = 4"

type_synonym governance_action_multiarg = "u64 \<times> address \<times> string \<times> string list"

datatype governance_proposal_status =
    StatusNone
  | Pending
  | Active
  | Defeated
  | DefeatedWithVeto
  | Succeeded

record governance_action =
  gas_limit :: u64
  dest_address :: address
  function_name :: string
  action_arguments :: "string list"

definition into_multiarg :: "governance_action \<Rightarrow> governance_action_multiarg" where
  "into_multiarg a = (gas_limit a, dest_address a, function_name a, action_arguments a)"

definition action_from :: "governance_action_multiarg \<Rightarrow> governance_action" where
  "action_from x = (let (g, d, f, args) = x in
     \<lparr>gas_limit = g, dest_address = d, function_name = f, action_arguments = args\<rparr>)"

record governance_proposal =
  proposal_id :: nat
  proposer :: address
  proposal_actions :: "governance_action list"
  description :: string
  fee_payment :: esdt_payment
  minimum_quorum :: u64
  proposal_voting_delay :: u64
  proposal_voting_period :: u64
  proposal_withdraw_percentage :: u64
  total_quorum :: biguint
  proposal_start_block :: u64
  fee_withdrawn :: bool

definition default_proposal :: governance_proposal where
  "default_proposal = \<lparr>proposal_id = 0, proposer = zero_address, proposal_actions = [], description = '''',
     fee_payment = new_payment '''' 0 0, minimum_quorum = 0, proposal_voting_delay = 0,
     proposal_voting_period = 0, proposal_withdraw_percentage = 0, total_quorum = 0,
     proposal_start_block = 0, fee_withdrawn = False\<rparr>"

definition proposal_is_default :: "governance_proposal \<Rightarrow> bool" where
  "proposal_is_default p \<longleftrightarrow> proposal_id p = 0"

section \<open>proposal_storage.rs\<close>

datatype vote_type =
    UpVote
  | DownVote
  | DownVetoVote
  | AbstainVote

record proposal_votes =
  up_votes :: biguint
  down_votes :: biguint
  down_veto_votes :: biguint
  abstain_votes :: biguint
  quorum :: biguint

definition new_votes :: proposal_votes where
  "new_votes = \<lparr>up_votes = 0, down_votes = 0, down_veto_votes = 0, abstain_votes = 0, quorum = 0\<rparr>"

definition get_total_votes :: "proposal_votes \<Rightarrow> biguint" where
  "get_total_votes v = up_votes v + down_votes v + down_veto_votes v + abstain_votes v"

text \<open>
  The storage of the whole contract. Proposals are a \<open>VecMapper\<close>: indices start from 1, and an entry
  equal to the default proposal is stored as empty.
\<close>

record gov_storage = energy_query_storage +
  gov_permissions :: permission_map
  proposals :: "governance_proposal list"
  user_voted_proposals :: "address \<Rightarrow> nat list"
  proposal_votes_of :: "nat \<Rightarrow> proposal_votes option"
  min_energy_for_propose :: biguint
  min_fee_for_propose :: biguint
  quorum_percentage :: u64
  voting_delay_in_blocks :: u64
  voting_period_in_blocks :: u64
  fee_token_id :: token_id
  withdraw_percentage_defeated :: u64
  fees_collector_address :: address

definition vec_mapper_get :: "'a list \<Rightarrow> nat \<Rightarrow> error + 'a" where
  "vec_mapper_get xs i = require (1 \<le> i \<and> i \<le> length xs) IndexOutOfRange (Inr (xs ! (i - 1)))"

definition vec_mapper_set :: "'a list \<Rightarrow> nat \<Rightarrow> 'a \<Rightarrow> error + 'a list" where
  "vec_mapper_set xs i x = require (1 \<le> i \<and> i \<le> length xs) IndexOutOfRange (Inr (xs[i - 1 := x]))"

definition get_votes :: "gov_storage \<Rightarrow> nat \<Rightarrow> error + proposal_votes" where
  "get_votes st i = (case proposal_votes_of st i of None \<Rightarrow> Inl STORAGE_DECODE_ERROR | Some v \<Rightarrow> Inr v)"

definition clear_proposal :: "gov_storage \<Rightarrow> nat \<Rightarrow> error + gov_storage" where
  "clear_proposal st i =
     and_then (vec_mapper_set (proposals st) i default_proposal) (\<lambda>ps.
     Inr (st\<lparr>proposals := ps, proposal_votes_of := (proposal_votes_of st)(i := None)\<rparr>))"

section \<open>configurable.rs\<close>

definition MIN_VOTING_DELAY :: u64 where "MIN_VOTING_DELAY = 1"
definition MAX_VOTING_DELAY :: u64 where "MAX_VOTING_DELAY = 100800"
definition MIN_VOTING_PERIOD :: u64 where "MIN_VOTING_PERIOD = 14400"
definition MAX_VOTING_PERIOD :: u64 where "MAX_VOTING_PERIOD = 201600"
definition MIN_QUORUM :: u64 where "MIN_QUORUM = 1000"
definition MAX_QUORUM :: u64 where "MAX_QUORUM = 6000"
definition MIN_MIN_FEE_FOR_PROPOSE :: u64 where "MIN_MIN_FEE_FOR_PROPOSE = 2000000"
definition MAX_MIN_FEE_FOR_PROPOSE :: u64 where "MAX_MIN_FEE_FOR_PROPOSE = 200000000000"
definition DECIMALS_CONST :: u64 where "DECIMALS_CONST = 1000000000000000000"
definition MAX_GAS_LIMIT_PER_BLOCK :: u64 where "MAX_GAS_LIMIT_PER_BLOCK = 600000000"
definition FULL_PERCENTAGE :: u64 where "FULL_PERCENTAGE = 10000"

type_synonym gov_setter = "error + gov_storage"

definition try_change_min_energy_for_propose :: "gov_storage \<Rightarrow> biguint \<Rightarrow> gov_setter" where
  "try_change_min_energy_for_propose st new_value = Inr (st\<lparr>min_energy_for_propose := new_value\<rparr>)"

definition try_change_min_fee_for_propose :: "gov_storage \<Rightarrow> biguint \<Rightarrow> gov_setter" where
  "try_change_min_fee_for_propose st new_value =
     (let minimum_min_fee = unat MIN_MIN_FEE_FOR_PROPOSE * unat DECIMALS_CONST;
          maximum_min_fee = unat MAX_MIN_FEE_FOR_PROPOSE * unat DECIMALS_CONST in
      require (minimum_min_fee < new_value \<and> new_value < maximum_min_fee)
        (SignalError ''Not valid value for min fee!'')
        (Inr (st\<lparr>min_fee_for_propose := new_value\<rparr>)))"

definition try_change_quorum_percentage :: "gov_storage \<Rightarrow> u64 \<Rightarrow> gov_setter" where
  "try_change_quorum_percentage st new_quorum_percentage =
     require (MIN_QUORUM \<le> new_quorum_percentage \<and> new_quorum_percentage < MAX_QUORUM)
       (SignalError ''Not valid value for Quorum!'')
       (Inr (st\<lparr>quorum_percentage := new_quorum_percentage\<rparr>))"

definition try_change_voting_delay_in_blocks :: "gov_storage \<Rightarrow> u64 \<Rightarrow> gov_setter" where
  "try_change_voting_delay_in_blocks st new_voting_delay =
     require (MIN_VOTING_DELAY \<le> new_voting_delay \<and> new_voting_delay < MAX_VOTING_DELAY)
       (SignalError ''Not valid value for voting delay!'')
       (Inr (st\<lparr>voting_delay_in_blocks := new_voting_delay\<rparr>))"

definition try_change_voting_period_in_blocks :: "gov_storage \<Rightarrow> u64 \<Rightarrow> gov_setter" where
  "try_change_voting_period_in_blocks st new_voting_period =
     require (MIN_VOTING_PERIOD \<le> new_voting_period \<and> new_voting_period < MAX_VOTING_PERIOD)
       (SignalError ''Not valid value for voting period!'')
       (Inr (st\<lparr>voting_period_in_blocks := new_voting_period\<rparr>))"

definition try_change_withdraw_percentage_defeated :: "gov_storage \<Rightarrow> u64 \<Rightarrow> gov_setter" where
  "try_change_withdraw_percentage_defeated st new_withdraw_percentage =
     require (new_withdraw_percentage \<le> FULL_PERCENTAGE)
       (SignalError ''Not valid value for withdraw percentage if defeated!'')
       (Inr (st\<lparr>withdraw_percentage_defeated := new_withdraw_percentage\<rparr>))"

definition try_change_fee_token_id :: "'e blockchain_scheme \<Rightarrow> gov_storage \<Rightarrow> token_id \<Rightarrow> gov_setter" where
  "try_change_fee_token_id env st new_fee_token =
     require (is_valid_esdt_identifier env new_fee_token) GOV_ERROR_NOT_AN_ESDT
       (Inr (if fee_token_id st = '''' then st\<lparr>fee_token_id := new_fee_token\<rparr> else st))"

text \<open>The endpoints are the same changes, for the owner.\<close>

definition gov_only_owner :: "'e blockchain_scheme \<Rightarrow> error + 'a \<Rightarrow> error + 'a" where
  "gov_only_owner env k = require (get_caller env = get_owner_address env) ONLY_OWNER k"

definition change_min_energy_for_propose :: "'e blockchain_scheme \<Rightarrow> gov_storage \<Rightarrow> biguint \<Rightarrow> gov_setter" where
  "change_min_energy_for_propose env st v = gov_only_owner env (try_change_min_energy_for_propose st v)"

definition change_min_fee_for_propose :: "'e blockchain_scheme \<Rightarrow> gov_storage \<Rightarrow> biguint \<Rightarrow> gov_setter" where
  "change_min_fee_for_propose env st v = gov_only_owner env (try_change_min_fee_for_propose st v)"

definition change_quorum_percentage :: "'e blockchain_scheme \<Rightarrow> gov_storage \<Rightarrow> u64 \<Rightarrow> gov_setter" where
  "change_quorum_percentage env st v = gov_only_owner env (try_change_quorum_percentage st v)"

definition change_withdraw_percentage :: "'e blockchain_scheme \<Rightarrow> gov_storage \<Rightarrow> u64 \<Rightarrow> gov_setter" where
  "change_withdraw_percentage env st v = gov_only_owner env (try_change_withdraw_percentage_defeated st v)"

definition change_voting_delay_in_blocks :: "'e blockchain_scheme \<Rightarrow> gov_storage \<Rightarrow> u64 \<Rightarrow> gov_setter" where
  "change_voting_delay_in_blocks env st v = gov_only_owner env (try_change_voting_delay_in_blocks st v)"

definition change_voting_period_in_blocks :: "'e blockchain_scheme \<Rightarrow> gov_storage \<Rightarrow> u64 \<Rightarrow> gov_setter" where
  "change_voting_period_in_blocks env st v = gov_only_owner env (try_change_voting_period_in_blocks st v)"

definition smoothing_function :: "biguint \<Rightarrow> biguint" where
  "smoothing_function x = big_sqrt x"

section \<open>views.rs\<close>

definition vote_reached :: "gov_storage \<Rightarrow> nat \<Rightarrow> error + bool" where
  "vote_reached st i =
     and_then (get_votes st i) (\<lambda>v.
     let total_votes = get_total_votes v;
         third_total_votes = total_votes div 3;
         half_total_votes = total_votes div 2 in
     Inr (if third_total_votes < down_veto_votes v then False else half_total_votes < up_votes v))"

definition vote_down_with_veto :: "gov_storage \<Rightarrow> nat \<Rightarrow> error + bool" where
  "vote_down_with_veto st i =
     and_then (get_votes st i) (\<lambda>v.
     let third_total_votes = get_total_votes v div 3 in
     Inr (third_total_votes < down_veto_votes v))"

definition quorum_reached :: "gov_storage \<Rightarrow> nat \<Rightarrow> error + bool" where
  "quorum_reached st i =
     and_then (vec_mapper_get (proposals st) i) (\<lambda>p.
     let required_minimum_percentage = unat (minimum_quorum p) in
     and_then (get_votes st i) (\<lambda>v.
     Inr (required_minimum_percentage * total_quorum p \<le> quorum v * unat FULL_PERCENTAGE)))"

definition is_valid_proposal_id :: "gov_storage \<Rightarrow> nat \<Rightarrow> bool" where
  "is_valid_proposal_id st i \<longleftrightarrow> 1 \<le> i \<and> i \<le> length (proposals st)"

definition require_valid_proposal_id :: "gov_storage \<Rightarrow> nat \<Rightarrow> error + 'a \<Rightarrow> error + 'a" where
  "require_valid_proposal_id st i k = require (is_valid_proposal_id st i) (SignalError ''Invalid proposal ID'') k"

definition proposal_exists :: "gov_storage \<Rightarrow> nat \<Rightarrow> bool" where
  "proposal_exists st i \<longleftrightarrow>
     is_valid_proposal_id st i \<and> \<not> proposal_is_default (proposals st ! (i - 1))"

definition get_proposal_status ::
  "'e blockchain_scheme \<Rightarrow> gov_storage \<Rightarrow> nat \<Rightarrow> error + governance_proposal_status" where
  "get_proposal_status env st i =
     (if \<not> proposal_exists st i then Inr StatusNone
      else
        let current_block = get_block_nonce env in
        and_then (vec_mapper_get (proposals st) i) (\<lambda>p.
        let voting_start = proposal_start_block p + proposal_voting_delay p;
            voting_end = voting_start + proposal_voting_period p in
        if current_block < voting_start then Inr Pending
        else if voting_start \<le> current_block \<and> current_block < voting_end then Inr Active
        else
          and_then (quorum_reached st i) (\<lambda>enough.
          and_then (if enough then vote_reached st i else Inr False) (\<lambda>succeeded.
          if succeeded then Inr Succeeded
          else
            and_then (vote_down_with_veto st i) (\<lambda>veto.
            Inr (if veto then DefeatedWithVeto else Defeated))))))"

definition change_fees_collector_address ::
  "'e blockchain_scheme \<Rightarrow> gov_storage \<Rightarrow> address \<Rightarrow> gov_setter" where
  "change_fees_collector_address env st new_value =
     gov_only_owner env (Inr (st\<lparr>fees_collector_address := new_value\<rparr>))"

section \<open>lib.rs\<close>

text \<open>The fees collector answers with the week of its last update and the total energy of a week.\<close>

record gov_env = energy_query_env +
  read_last_global_update_week :: "address \<Rightarrow> nat"
  read_total_energy_for_week :: "address \<Rightarrow> nat \<Rightarrow> biguint"

definition gov_init ::
  "'e blockchain_scheme \<Rightarrow> gov_storage \<Rightarrow> biguint \<Rightarrow> biguint \<Rightarrow> u64 \<Rightarrow> u64 \<Rightarrow> u64 \<Rightarrow> u64 \<Rightarrow>
     address \<Rightarrow> address \<Rightarrow> token_id \<Rightarrow> gov_setter" where
  "gov_init env st min_energy min_fee quorum_pct delay period withdraw_pct factory collector fee_token =
     and_then (try_change_min_energy_for_propose st min_energy) (\<lambda>st.
     and_then (try_change_min_fee_for_propose st min_fee) (\<lambda>st.
     and_then (try_change_quorum_percentage st quorum_pct) (\<lambda>st.
     and_then (try_change_voting_delay_in_blocks st delay) (\<lambda>st.
     and_then (try_change_voting_period_in_blocks st period) (\<lambda>st.
     and_then (try_change_withdraw_percentage_defeated st withdraw_pct) (\<lambda>st.
     and_then (set_energy_factory_address env st factory) (\<lambda>st.
     let st = st\<lparr>fees_collector_address := collector\<rparr> in
     try_change_fee_token_id env st fee_token)))))))"

fun total_gas_needed :: "governance_action list \<Rightarrow> u64" where
  "total_gas_needed [] = 0"
| "total_gas_needed (a # actions) = gas_limit a + total_gas_needed actions"

fun gov_actions_loop :: "governance_action_multiarg list \<Rightarrow> error + governance_action list" where
  "gov_actions_loop [] = Inr []"
| "gov_actions_loop (x # xs) =
     (let gov_action = action_from x in
      require (gas_limit gov_action < MAX_GAS_LIMIT_PER_BLOCK)
        (SignalError ''A single action cannot use more than the max gas limit per block'')
     (and_then (gov_actions_loop xs) (\<lambda>gov_actions. Inr (gov_action # gov_actions))))"

definition gov_propose ::
  "'e energy_query_env_scheme \<Rightarrow> gov_storage \<Rightarrow> esdt_payment list \<Rightarrow> string \<Rightarrow>
     governance_action_multiarg list \<Rightarrow> error + (nat \<times> gov_storage)" where
  "gov_propose env st payments text actions =
     (let caller = get_caller env in
      require (\<not> is_smart_contract env caller) PROPOSAL_NOT_ALLOWED_FOR_SC
     (require (length actions \<le> MAX_GOVERNANCE_PROPOSAL_ACTIONS) EXEEDED_MAX_ACTIONS
     (let user_energy = query_energy_amount env st caller in
      require (min_energy_for_propose st \<le> user_energy) NOT_ENOUGH_ENERGY
     (and_then (single_esdt payments) (\<lambda>user_fee.
      require (fee_token_id st = token_identifier user_fee) WRONG_TOKEN_ID
     (require (min_fee_for_propose st = amount user_fee) NOT_ENOUGH_FEE
     (and_then (gov_actions_loop actions) (\<lambda>gov_actions.
      require (total_gas_needed gov_actions < MAX_GAS_LIMIT_PER_BLOCK) TOO_MUCH_GAS
     (let new_proposal =
            \<lparr>proposal_id = length (proposals st) + 1, proposer = caller, proposal_actions = gov_actions,
             description = text, fee_payment = user_fee, minimum_quorum = quorum_percentage st,
             proposal_voting_delay = voting_delay_in_blocks st,
             proposal_voting_period = voting_period_in_blocks st,
             proposal_withdraw_percentage = withdraw_percentage_defeated st, total_quorum = 0,
             proposal_start_block = get_block_nonce env, fee_withdrawn = False\<rparr>;
          st = st\<lparr>proposals := proposals st @ [new_proposal]\<rparr>;
          new_id = length (proposals st) in
      Inr (new_id, st\<lparr>proposal_votes_of := (proposal_votes_of st)(new_id := Some new_votes)\<rparr>))))))))))"

fun add_vote :: "vote_type \<Rightarrow> biguint \<Rightarrow> biguint \<Rightarrow> proposal_votes \<Rightarrow> proposal_votes" where
  "add_vote UpVote voting_power user_quorum v =
     v\<lparr>up_votes := up_votes v + voting_power, quorum := quorum v + user_quorum\<rparr>"
| "add_vote DownVote voting_power user_quorum v =
     v\<lparr>down_votes := down_votes v + voting_power, quorum := quorum v + user_quorum\<rparr>"
| "add_vote DownVetoVote voting_power user_quorum v =
     v\<lparr>down_veto_votes := down_veto_votes v + voting_power, quorum := quorum v + user_quorum\<rparr>"
| "add_vote AbstainVote voting_power user_quorum v =
     v\<lparr>abstain_votes := abstain_votes v + voting_power, quorum := quorum v + user_quorum\<rparr>"

definition update_total_quorum :: "'e gov_env_scheme \<Rightarrow> gov_storage \<Rightarrow> nat \<Rightarrow> gov_setter" where
  "update_total_quorum env st i =
     (let fees_collector_addr = fees_collector_address st;
          last_global_update_week = read_last_global_update_week env fees_collector_addr;
          total = read_total_energy_for_week env fees_collector_addr last_global_update_week in
      and_then (vec_mapper_get (proposals st) i) (\<lambda>p.
      and_then (vec_mapper_set (proposals st) i (p\<lparr>total_quorum := total\<rparr>)) (\<lambda>ps.
      Inr (st\<lparr>proposals := ps\<rparr>))))"

definition gov_vote :: "'e gov_env_scheme \<Rightarrow> gov_storage \<Rightarrow> nat \<Rightarrow> vote_type \<Rightarrow> gov_setter" where
  "gov_vote env st i cast =
     require_valid_proposal_id st i
    (and_then (get_proposal_status env st i) (\<lambda>status.
     require (status = Active) PROPOSAL_NOT_ACTIVE
    (let voter = get_caller env in
     require (i \<notin> set (user_voted_proposals st voter)) ALREADY_VOTED_ERR_MSG
    (let st = st\<lparr>user_voted_proposals :=
                 (user_voted_proposals st)(voter := unordered_insert (user_voted_proposals st voter) i)\<rparr> in
     and_then (get_votes st i) (\<lambda>v.
     and_then (if quorum v = 0 then update_total_quorum env st i else Inr st) (\<lambda>st.
     and_then (get_energy_amount_non_zero env st voter) (\<lambda>user_quorum.
     let voting_power = smoothing_function user_quorum in
     and_then (get_votes st i) (\<lambda>v.
     Inr (st\<lparr>proposal_votes_of :=
            (proposal_votes_of st)(i := Some (add_vote cast voting_power user_quorum v))\<rparr>)))))))))"

definition refund_proposal_fee :: "governance_proposal \<Rightarrow> biguint \<Rightarrow> effect list" where
  "refund_proposal_fee p refund_amount =
     send_tokens_non_zero (proposer p) (token_identifier (fee_payment p)) (token_nonce (fee_payment p)) refund_amount"

definition gov_cancel :: "'e blockchain_scheme \<Rightarrow> gov_storage \<Rightarrow> nat \<Rightarrow> error + (gov_storage \<times> effect list)" where
  "gov_cancel env st i =
     and_then (get_proposal_status env st i) (\<lambda>status.
     case status of
       StatusNone \<Rightarrow> Inl NO_PROPOSAL
     | Pending \<Rightarrow>
         and_then (vec_mapper_get (proposals st) i) (\<lambda>p.
         require (get_caller env = proposer p) ONLY_PROPOSER_CANCEL
        (let es = refund_proposal_fee p (amount (fee_payment p)) in
         and_then (clear_proposal st i) (\<lambda>st. Inr (st, es))))
     | _ \<Rightarrow> Inl (SignalError ''Action may not be cancelled''))"

definition mark_withdrawn :: "gov_storage \<Rightarrow> nat \<Rightarrow> governance_proposal \<Rightarrow> gov_setter" where
  "mark_withdrawn st i p =
     and_then (vec_mapper_set (proposals st) i (p\<lparr>fee_withdrawn := True\<rparr>)) (\<lambda>ps.
     Inr (st\<lparr>proposals := ps\<rparr>))"

definition esdt_non_zero_local_burn :: "token_id \<Rightarrow> u64 \<Rightarrow> biguint \<Rightarrow> effect list" where
  "esdt_non_zero_local_burn t n a = (if a = 0 then [] else esdt_local_burn t n a)"

definition withdraw_whole_deposit ::
  "'e blockchain_scheme \<Rightarrow> gov_storage \<Rightarrow> nat \<Rightarrow> error + (gov_storage \<times> effect list)" where
  "withdraw_whole_deposit env st i =
     and_then (vec_mapper_get (proposals st) i) (\<lambda>p.
     require (get_caller env = proposer p) ONLY_PROPOSER_WITHDRAW
    (require (\<not> fee_withdrawn p) FEE_ALREADY_WITHDRAWN
    (let es = refund_proposal_fee p (amount (fee_payment p)) in
     and_then (mark_withdrawn st i p) (\<lambda>st. Inr (st, es)))))"

definition withdraw_part_of_deposit ::
  "gov_storage \<Rightarrow> nat \<Rightarrow> error + (gov_storage \<times> effect list)" where
  "withdraw_part_of_deposit st i =
     and_then (vec_mapper_get (proposals st) i) (\<lambda>p.
     require (\<not> fee_withdrawn p) FEE_ALREADY_WITHDRAWN
    (let refund_percentage = unat (proposal_withdraw_percentage p);
         fee = fee_payment p;
         refund_amount = refund_percentage * amount fee div unat FULL_PERCENTAGE in
     and_then (big_sub (amount fee) refund_amount) (\<lambda>remaining_fee.
     let es = esdt_non_zero_local_burn (token_identifier fee) (token_nonce fee) remaining_fee @
              refund_proposal_fee p refund_amount in
     and_then (mark_withdrawn st i p) (\<lambda>st. Inr (st, es)))))"

definition gov_withdraw_deposit ::
  "'e blockchain_scheme \<Rightarrow> gov_storage \<Rightarrow> nat \<Rightarrow> error + (gov_storage \<times> effect list)" where
  "gov_withdraw_deposit env st i =
     and_then (get_proposal_status env st i) (\<lambda>status.
     case status of
       StatusNone \<Rightarrow> Inl NO_PROPOSAL
     | Succeeded \<Rightarrow> withdraw_whole_deposit env st i
     | Defeated \<Rightarrow> withdraw_whole_deposit env st i
     | DefeatedWithVeto \<Rightarrow> withdraw_part_of_deposit st i
     | _ \<Rightarrow> Inl WITHDRAW_NOT_ALLOWED)"

end
