(* ===== verification/GovernanceBooks.thy ===== *)
theory GovernanceBooks
  imports Governance
begin

text \<open>
  Governance as a step system with books: the tokens received and paid out or burnt, every vote that
  was cast with the energy it counted, and the block of the last call.
\<close>

datatype gov_call =
    GovPropose "esdt_payment list" string "governance_action_multiarg list"
  | GovVote nat vote_type
  | GovCancel nat
  | GovWithdraw nat
  | GovMinEnergy biguint
  | GovMinFee biguint
  | GovQuorum u64
  | GovWithdrawPercentage u64
  | GovVotingDelay u64
  | GovVotingPeriod u64
  | GovFeesCollector address
  | GovEnergyFactory address
  | GovAddAdmin address
  | GovRemoveAdmin address
  | GovUpdateOwner address

definition gov_quiet :: "gov_setter \<Rightarrow> error + (gov_storage \<times> effect list)" where
  "gov_quiet r = and_then r (\<lambda>st. Inr (st, []))"

definition gov_permission_call :: "gov_storage \<Rightarrow> error + permission_map \<Rightarrow> error + (gov_storage \<times> effect list)" where
  "gov_permission_call st r = and_then r (\<lambda>m. Inr (st\<lparr>gov_permissions := m\<rparr>, []))"

fun gov_exec :: "'e gov_env_scheme \<Rightarrow> gov_storage \<Rightarrow> gov_call \<Rightarrow> error + (gov_storage \<times> effect list)" where
  "gov_exec env st (GovPropose ps text actions) =
     and_then (gov_propose env st ps text actions) (\<lambda>(i, st). Inr (st, []))"
| "gov_exec env st (GovVote i v) = gov_quiet (gov_vote env st i v)"
| "gov_exec env st (GovCancel i) = gov_cancel env st i"
| "gov_exec env st (GovWithdraw i) = gov_withdraw_deposit env st i"
| "gov_exec env st (GovMinEnergy v) = gov_quiet (change_min_energy_for_propose env st v)"
| "gov_exec env st (GovMinFee v) = gov_quiet (change_min_fee_for_propose env st v)"
| "gov_exec env st (GovQuorum v) = gov_quiet (change_quorum_percentage env st v)"
| "gov_exec env st (GovWithdrawPercentage v) = gov_quiet (change_withdraw_percentage env st v)"
| "gov_exec env st (GovVotingDelay v) = gov_quiet (change_voting_delay_in_blocks env st v)"
| "gov_exec env st (GovVotingPeriod v) = gov_quiet (change_voting_period_in_blocks env st v)"
| "gov_exec env st (GovFeesCollector a) = gov_quiet (change_fees_collector_address env st a)"
| "gov_exec env st (GovEnergyFactory a) = gov_quiet (set_energy_factory_address env st a)"
| "gov_exec env st (GovAddAdmin a) =
     gov_permission_call st (add_admin_endpoint (gov_permissions st) (get_caller env) a)"
| "gov_exec env st (GovRemoveAdmin a) =
     gov_permission_call st (remove_admin_endpoint (gov_permissions st) (get_caller env) a)"
| "gov_exec env st (GovUpdateOwner a) =
     gov_permission_call st (update_owner_or_admin_endpoint (blockchain.truncate env) (gov_permissions st) a)"

fun gov_payments :: "gov_call \<Rightarrow> esdt_payment list" where
  "gov_payments (GovPropose ps text actions) = ps"
| "gov_payments call = []"

record ballot =
  ballot_proposal :: nat
  ballot_voter :: address
  ballot_vote :: vote_type
  ballot_energy :: biguint

text \<open>The energy a ballot counts is the one the caller has in the call's environment.\<close>

fun gov_ballots :: "'e gov_env_scheme \<Rightarrow> gov_storage \<Rightarrow> gov_call \<Rightarrow> ballot list" where
  "gov_ballots env st (GovVote i v) =
     [\<lparr>ballot_proposal = i, ballot_voter = get_caller env, ballot_vote = v,
       ballot_energy = query_energy_amount env st (get_caller env)\<rparr>]"
| "gov_ballots env st call = []"

record gov_books =
  gov_book :: gov_storage
  gov_received :: "token_id \<Rightarrow> biguint"
  gov_paid :: "token_id \<Rightarrow> biguint"
  ballots :: "ballot list"
  gov_block :: u64

text \<open>The blocks of the calls never go back.\<close>

definition gov_step :: "gov_books \<Rightarrow> gov_env \<times> gov_call \<Rightarrow> error + gov_books" where
  "gov_step b x =
     (let (env, call) = x in
      require (gov_block b \<le> get_block_nonce env) (CallFailed ''block of the past'')
     (and_then (gov_exec env (gov_book b) call) (\<lambda>(st', es).
      Inr \<lparr>gov_book = st',
           gov_received = (\<lambda>t. gov_received b t + paid_in t (gov_payments call)),
           gov_paid = (\<lambda>t. gov_paid b t + outflow t es),
           ballots = ballots b @ gov_ballots env (gov_book b) call,
           gov_block = get_block_nonce env\<rparr>)))"

text \<open>Block nonces far from the end of the 64 bit range, so that the end of a voting period is one too.\<close>

definition gov_admissible :: "gov_env \<times> gov_call \<Rightarrow> bool" where
  "gov_admissible x \<longleftrightarrow> get_block_nonce (fst x) < 2 ^ 63"

section \<open>What is kept\<close>

text \<open>The votes that a list of ballots gives a proposal.\<close>

definition counted :: "(ballot \<Rightarrow> bool) \<Rightarrow> (biguint \<Rightarrow> biguint) \<Rightarrow> ballot list \<Rightarrow> nat \<Rightarrow> biguint" where
  "counted kind weight bs i =
     sum_list (map (\<lambda>x. weight (ballot_energy x)) (filter (\<lambda>x. ballot_proposal x = i \<and> kind x) bs))"

definition tally :: "ballot list \<Rightarrow> nat \<Rightarrow> proposal_votes" where
  "tally bs i =
     \<lparr>up_votes = counted (\<lambda>x. ballot_vote x = UpVote) big_sqrt bs i,
      down_votes = counted (\<lambda>x. ballot_vote x = DownVote) big_sqrt bs i,
      down_veto_votes = counted (\<lambda>x. ballot_vote x = DownVetoVote) big_sqrt bs i,
      abstain_votes = counted (\<lambda>x. ballot_vote x = AbstainVote) big_sqrt bs i,
      quorum = counted (\<lambda>x. True) (\<lambda>e. e) bs i\<rparr>"

definition open_deposit :: "token_id \<Rightarrow> governance_proposal \<Rightarrow> biguint" where
  "open_deposit t p =
     (if proposal_is_default p \<or> fee_withdrawn p \<or> token_identifier (fee_payment p) \<noteq> t then 0
      else amount (fee_payment p))"

definition open_deposits :: "governance_proposal list \<Rightarrow> token_id \<Rightarrow> biguint" where
  "open_deposits ps t = sum_list (map (open_deposit t) ps)"

definition ballots_inv :: "gov_storage \<Rightarrow> ballot list \<Rightarrow> bool" where
  "ballots_inv st bs \<longleftrightarrow>
     (\<forall>i. proposal_exists st i \<longrightarrow> proposal_votes_of st i = Some (tally bs i)) \<and>
     distinct (map (\<lambda>x. (ballot_proposal x, ballot_voter x)) bs) \<and>
     (\<forall>u. set (user_voted_proposals st u) = {i. \<exists>x\<in>set bs. ballot_proposal x = i \<and> ballot_voter x = u}) \<and>
     (\<forall>x\<in>set bs. ballot_proposal x \<le> length (proposals st))"

definition voting_end :: "governance_proposal \<Rightarrow> nat" where
  "voting_end p = unat (proposal_start_block p) + unat (proposal_voting_delay p) + unat (proposal_voting_period p)"

definition proposal_ok :: "u64 \<Rightarrow> nat \<Rightarrow> governance_proposal \<Rightarrow> bool" where
  "proposal_ok now i p \<longleftrightarrow> proposal_is_default p \<or>
     proposal_id p = i \<and> proposal_start_block p \<le> now \<and>
     unat (proposal_voting_delay p) < unat MAX_VOTING_DELAY \<and>
     unat (proposal_voting_period p) < unat MAX_VOTING_PERIOD \<and>
     unat (proposal_withdraw_percentage p) \<le> unat FULL_PERCENTAGE \<and>
     (fee_withdrawn p \<longrightarrow> voting_end p \<le> unat now)"

definition gov_config_ok :: "gov_storage \<Rightarrow> bool" where
  "gov_config_ok st \<longleftrightarrow>
     unat (voting_delay_in_blocks st) < unat MAX_VOTING_DELAY \<and>
     unat (voting_period_in_blocks st) < unat MAX_VOTING_PERIOD \<and>
     unat (withdraw_percentage_defeated st) \<le> unat FULL_PERCENTAGE"

definition proposals_ok :: "u64 \<Rightarrow> governance_proposal list \<Rightarrow> bool" where
  "proposals_ok now ps \<longleftrightarrow> (\<forall>i<length ps. proposal_ok now (i + 1) (ps ! i))"

definition gov_inv :: "gov_books \<Rightarrow> bool" where
  "gov_inv b \<longleftrightarrow>
     (let st = gov_book b in
      gov_config_ok st \<and> proposals_ok (gov_block b) (proposals st) \<and> ballots_inv st (ballots b) \<and>
      (\<forall>t. gov_received b t = gov_paid b t + open_deposits (proposals st) t) \<and> gov_block b < 2 ^ 63)"

text \<open>What a later state still says about proposal \<open>i\<close>.\<close>

definition proposal_kept :: "gov_books \<Rightarrow> gov_books \<Rightarrow> nat \<Rightarrow> bool" where
  "proposal_kept b b' i \<longleftrightarrow>
     (let st = gov_book b; st' = gov_book b'; p = proposals st ! (i - 1); p' = proposals st' ! (i - 1) in
      if proposal_is_default p then proposal_is_default p'
      else
        (proposal_is_default p' \<and>
           unat (gov_block b) < unat (proposal_start_block p) + unat (proposal_voting_delay p)) \<or>
        (\<not> proposal_is_default p' \<and> p' = p\<lparr>total_quorum := total_quorum p', fee_withdrawn := fee_withdrawn p'\<rparr> \<and>
         (fee_withdrawn p \<longrightarrow> fee_withdrawn p') \<and>
         (voting_end p \<le> unat (gov_block b) \<longrightarrow>
            total_quorum p' = total_quorum p \<and> proposal_votes_of st' i = proposal_votes_of st i)))"

definition gov_le :: "gov_books \<Rightarrow> gov_books \<Rightarrow> bool" where
  "gov_le b b' \<longleftrightarrow> gov_block b \<le> gov_block b' \<and>
     length (proposals (gov_book b)) \<le> length (proposals (gov_book b')) \<and>
     (\<forall>i. is_valid_proposal_id (gov_book b) i \<longrightarrow> proposal_kept b b' i)"

section \<open>Sums\<close>

lemma counted_simps [simp]:
  "counted k w [] i = 0"
  "counted k w (bs @ cs) i = counted k w bs i + counted k w cs i"
  "counted k w [x] i = (if ballot_proposal x = i \<and> k x then w (ballot_energy x) else 0)"
  by (simp_all add: counted_def)

lemma counted_none: "(\<And>x. x \<in> set bs \<Longrightarrow> ballot_proposal x \<noteq> i) \<Longrightarrow> counted k w bs i = 0"
  by (simp add: counted_def filter_empty_conv)

lemma tally_none: "(\<And>x. x \<in> set bs \<Longrightarrow> ballot_proposal x \<noteq> i) \<Longrightarrow> tally bs i = new_votes"
  by (simp add: tally_def new_votes_def counted_none)

lemma tally_other: "ballot_proposal x \<noteq> i \<Longrightarrow> tally (bs @ [x]) i = tally bs i"
  by (simp add: tally_def)

lemma tally_add:
  "tally (bs @ [\<lparr>ballot_proposal = i, ballot_voter = u, ballot_vote = v, ballot_energy = e\<rparr>]) i =
     add_vote v (smoothing_function e) e (tally bs i)"
  by (cases v) (simp_all add: tally_def smoothing_function_def)

lemma open_deposits_simps [simp]:
  "open_deposits [] t = 0"
  "open_deposits (ps @ [p]) t = open_deposits ps t + open_deposit t p"
  by (simp_all add: open_deposits_def)

lemma open_deposits_update:
  assumes "i < length ps"
  shows "open_deposits (ps[i := p]) t + open_deposit t (ps ! i) = open_deposits ps t + open_deposit t p"
proof -
  have "map f (ps[i := p]) = (map f ps)[i := f p]" for f :: "governance_proposal \<Rightarrow> nat" by (rule map_update)
  moreover have "open_deposit t (ps ! i) \<le> open_deposits ps t"
    unfolding open_deposits_def using assms by (intro member_le_sum_list) auto
  ultimately show ?thesis
    using assms sum_list_update [of i "map (open_deposit t) ps" "open_deposit t p"]
    by (simp add: open_deposits_def)
qed

end
