(* ===== verification/GovernanceSteps.thy ===== *)
theory GovernanceSteps
  imports GovernanceBooks
begin

text \<open>Every call of governance keeps its books, and what was decided.\<close>

section \<open>Status\<close>

lemma vec_mapper_Inr [res_simps]:
  "vec_mapper_get xs i = Inr x \<longleftrightarrow> 1 \<le> i \<and> i \<le> length xs \<and> x = xs ! (i - 1)"
  "vec_mapper_set xs i y = Inr ys \<longleftrightarrow> 1 \<le> i \<and> i \<le> length xs \<and> ys = xs[i - 1 := y]"
  by (auto simp: vec_mapper_get_def vec_mapper_set_def res_simps)

lemma get_votes_Inr [res_simps]: "get_votes st i = Inr v \<longleftrightarrow> proposal_votes_of st i = Some v"
  by (auto simp: get_votes_def split: option.splits)

lemma unat_add3_u64:
  fixes a b c :: u64
  assumes "unat a < 2 ^ 63" "unat b < 2 ^ 62" "unat c < 2 ^ 61"
  shows "unat (a + b) = unat a + unat b" "unat (a + b + c) = unat a + unat b + unat c"
proof -
  have small: "unat a + unat b < 2 ^ LENGTH(64)" "unat a + unat b + unat c < 2 ^ LENGTH(64)"
    using assms by simp_all
  show ab: "unat (a + b) = unat a + unat b"
    using small(1) by (rule unat_add_lem [THEN iffD1])
  have "unat (a + b) + unat c < 2 ^ LENGTH(64)" using small(2) ab by simp
  then have "unat (a + b + c) = unat (a + b) + unat c" by (rule unat_add_lem [THEN iffD1])
  then show "unat (a + b + c) = unat a + unat b + unat c" by (simp add: ab)
qed

lemma proposal_times:
  assumes "proposal_ok now i p" "\<not> proposal_is_default p" "now < 2 ^ 63"
  shows "unat (proposal_start_block p + proposal_voting_delay p) =
      unat (proposal_start_block p) + unat (proposal_voting_delay p)"
    and "unat (proposal_start_block p + proposal_voting_delay p + proposal_voting_period p) = voting_end p"
proof -
  have "unat (proposal_start_block p) < 2 ^ 63" "unat (proposal_voting_delay p) < 2 ^ 62"
    "unat (proposal_voting_period p) < 2 ^ 61"
    using assms by (auto simp: proposal_ok_def MAX_VOTING_DELAY_def MAX_VOTING_PERIOD_def word_le_nat_alt word_less_nat_alt)
  from unat_add3_u64 [OF this]
  show "unat (proposal_start_block p + proposal_voting_delay p) =
      unat (proposal_start_block p) + unat (proposal_voting_delay p)"
    and "unat (proposal_start_block p + proposal_voting_delay p + proposal_voting_period p) = voting_end p"
    by (simp_all add: voting_end_def)
qed

lemma proposal_existsD:
  assumes "proposal_exists st i" "proposals_ok now (proposals st)"
  shows "1 \<le> i" "i \<le> length (proposals st)" "proposal_ok now i (proposals st ! (i - 1))"
    "\<not> proposal_is_default (proposals st ! (i - 1))"
proof -
  show i: "1 \<le> i" "i \<le> length (proposals st)" and "\<not> proposal_is_default (proposals st ! (i - 1))"
    using assms(1) by (simp_all add: proposal_exists_def is_valid_proposal_id_def)
  have "i - 1 < length (proposals st)" using i by simp
  then have "proposal_ok now (i - 1 + 1) (proposals st ! (i - 1))"
    using assms(2) unfolding proposals_ok_def by blast
  then show "proposal_ok now i (proposals st ! (i - 1))" using i by simp
qed

lemma status_exists:
  "get_proposal_status env st i = Inr s \<Longrightarrow> s \<noteq> StatusNone \<Longrightarrow> proposal_exists st i"
  by (auto simp: get_proposal_status_def split: if_splits)

lemma status_times:
  assumes status: "get_proposal_status env st i = Inr s" and s: "s \<noteq> StatusNone"
    and ok: "proposals_ok now (proposals st)" "now < 2 ^ 63"
  defines "p \<equiv> proposals st ! (i - 1)"
  shows "s = Pending \<Longrightarrow> unat (get_block_nonce env) < unat (proposal_start_block p) + unat (proposal_voting_delay p)"
    and "s = Active \<Longrightarrow> unat (get_block_nonce env) < voting_end p"
    and "s \<noteq> Pending \<Longrightarrow> s \<noteq> Active \<Longrightarrow> voting_end p \<le> unat (get_block_nonce env)"
proof -
  note ex = status_exists [OF status s]
  note i = proposal_existsD [OF ex ok(1), folded p_def]
  note times = proposal_times [OF i(3,4) ok(2)]
  have run: "(if get_block_nonce env < proposal_start_block p + proposal_voting_delay p then s = Pending
     else if get_block_nonce env < proposal_start_block p + proposal_voting_delay p + proposal_voting_period p then s = Active
     else s \<noteq> Pending \<and> s \<noteq> Active)"
    using status ex i(1,2)
    by (auto simp: get_proposal_status_def p_def Let_def res_simps not_less split: if_splits)
  show "s = Pending \<Longrightarrow> unat (get_block_nonce env) < unat (proposal_start_block p) + unat (proposal_voting_delay p)"
    using run times by (auto simp: word_less_nat_alt split: if_splits)
  show "s = Active \<Longrightarrow> unat (get_block_nonce env) < voting_end p"
    using run times by (auto simp: word_less_nat_alt split: if_splits)
  show "s \<noteq> Pending \<Longrightarrow> s \<noteq> Active \<Longrightarrow> voting_end p \<le> unat (get_block_nonce env)"
    using run times by (auto simp: word_less_nat_alt not_less split: if_splits)
qed

section \<open>What each operation does\<close>

lemma gov_actions_loop_length: "gov_actions_loop xs = Inr as \<Longrightarrow> length as = length xs"
  by (induction xs arbitrary: as) (auto simp: res_simps Let_def)

lemma gov_propose_Inr:
  assumes "gov_propose env st ps text actions = Inr (i, st')"
  obtains q p acts where "ps = [q]" "token_identifier q = fee_token_id st" "amount q = min_fee_for_propose st"
    "i = length (proposals st) + 1"
    "p = \<lparr>proposal_id = i, proposer = get_caller env, proposal_actions = acts,
       description = text, fee_payment = q, minimum_quorum = quorum_percentage st,
       proposal_voting_delay = voting_delay_in_blocks st, proposal_voting_period = voting_period_in_blocks st,
       proposal_withdraw_percentage = withdraw_percentage_defeated st, total_quorum = 0,
       proposal_start_block = get_block_nonce env, fee_withdrawn = False\<rparr>"
    "st' = st\<lparr>proposals := proposals st @ [p], proposal_votes_of := (proposal_votes_of st)(i := Some new_votes)\<rparr>"
  using assms by (auto simp: gov_propose_def Let_def res_simps)

lemma gov_vote_Inr:
  assumes "gov_vote env st i cast = Inr st'"
  obtains v q where "proposal_exists st i" "get_proposal_status env st i = Inr Active"
    "i \<notin> set (user_voted_proposals st (get_caller env))" "proposal_votes_of st i = Some v"
    "st' = st\<lparr>proposals := (proposals st)[i - 1 := (proposals st ! (i - 1))\<lparr>total_quorum := q\<rparr>],
       user_voted_proposals := (user_voted_proposals st)(get_caller env :=
         unordered_insert (user_voted_proposals st (get_caller env)) i),
       proposal_votes_of := (proposal_votes_of st)(i := Some (add_vote cast
         (smoothing_function (query_energy_amount env st (get_caller env))) (query_energy_amount env st (get_caller env)) v))\<rparr>"
    "0 < query_energy_amount env st (get_caller env)"
proof -
  let ?u = "get_caller env"
  define st1 where "st1 = st\<lparr>user_voted_proposals :=
    (user_voted_proposals st)(?u := unordered_insert (user_voted_proposals st ?u) i)\<rparr>"
  obtain v st2 e where active: "get_proposal_status env st i = Inr Active"
    and fresh: "i \<notin> set (user_voted_proposals st ?u)" and v: "proposal_votes_of st i = Some v"
    and st2: "(if quorum v = 0 then update_total_quorum env st1 i else Inr st1) = Inr st2"
    and e: "get_energy_amount_non_zero env st2 ?u = Inr e"
    and st': "\<exists>v'. proposal_votes_of st2 i = Some v' \<and> st' = st2\<lparr>proposal_votes_of :=
      (proposal_votes_of st2)(i := Some (add_vote cast (smoothing_function e) e v'))\<rparr>"
    using assms unfolding st1_def by (auto simp: gov_vote_def require_valid_proposal_id_def Let_def res_simps)
  have ex: "proposal_exists st i" using status_exists [OF active] by simp
  then have i: "1 \<le> i" "i \<le> length (proposals st)" by (simp_all add: proposal_exists_def is_valid_proposal_id_def)
  have "\<exists>q. st2 = st1\<lparr>proposals := (proposals st)[i - 1 := (proposals st ! (i - 1))\<lparr>total_quorum := q\<rparr>]\<rparr>"
  proof (cases "quorum v = 0")
    case True
    then show ?thesis using st2 by (auto simp: update_total_quorum_def Let_def res_simps st1_def)
  next
    case False
    have "(proposals st)[i - 1 := (proposals st ! (i - 1))\<lparr>total_quorum := total_quorum (proposals st ! (i - 1))\<rparr>] = proposals st"
      by simp
    then show ?thesis using False st2 by (auto simp: st1_def intro!: exI [of _ "total_quorum (proposals st ! (i - 1))"])
  qed
  then obtain q where q: "st2 = st1\<lparr>proposals := (proposals st)[i - 1 := (proposals st ! (i - 1))\<lparr>total_quorum := q\<rparr>]\<rparr>"
    by blast
  have "query_energy_amount env st2 ?u = query_energy_amount env st ?u"
    by (simp add: q st1_def query_energy_amount_def get_energy_entry_def)
  then have "e = query_energy_amount env st ?u" "0 < e"
    using e by (auto simp: get_energy_amount_non_zero_def Let_def res_simps)
  with st' show thesis
    by (intro that [OF ex active fresh v, of q]) (auto simp: q st1_def v)
qed

lemma gov_cancel_Inr:
  assumes "gov_cancel env st i = Inr (st', es)"
  obtains "proposal_exists st i" "get_proposal_status env st i = Inr Pending"
    "proposer (proposals st ! (i - 1)) = get_caller env"
    "es = refund_proposal_fee (proposals st ! (i - 1)) (amount (fee_payment (proposals st ! (i - 1))))"
    "st' = st\<lparr>proposals := (proposals st)[i - 1 := default_proposal], proposal_votes_of := (proposal_votes_of st)(i := None)\<rparr>"
proof -
  obtain s where s: "get_proposal_status env st i = Inr s" using assms by (auto simp: gov_cancel_def res_simps)
  then have "s = Pending" using assms by (cases s) (auto simp: gov_cancel_def)
  then show thesis
    using assms s status_exists [OF s]
    by (intro that) (auto simp: gov_cancel_def clear_proposal_def Let_def res_simps)
qed

lemma refund_flow [simp]:
  "outflow t (refund_proposal_fee p a) = (if token_identifier (fee_payment p) = t then a else 0)"
  by (simp add: refund_proposal_fee_def)

lemma burn_rest_flow [simp]: "outflow t (esdt_non_zero_local_burn u n a) = (if u = t then a else 0)"
  by (simp add: esdt_non_zero_local_burn_def esdt_local_burn_def)

lemma gov_withdraw_Inr:
  assumes "gov_withdraw_deposit env st i = Inr (st', es)"
  obtains s where "proposal_exists st i" "get_proposal_status env st i = Inr s"
    "s = Succeeded \<or> s = Defeated \<or> s = DefeatedWithVeto" "\<not> fee_withdrawn (proposals st ! (i - 1))"
    "st' = st\<lparr>proposals := (proposals st)[i - 1 := (proposals st ! (i - 1))\<lparr>fee_withdrawn := True\<rparr>]\<rparr>"
    "\<forall>t. outflow t es = open_deposit t (proposals st ! (i - 1))"
proof -
  let ?p = "proposals st ! (i - 1)"
  obtain s where s: "get_proposal_status env st i = Inr s" using assms by (auto simp: gov_withdraw_deposit_def res_simps)
  have final: "s = Succeeded \<or> s = Defeated \<or> s = DefeatedWithVeto"
    using assms s by (cases s) (auto simp: gov_withdraw_deposit_def)
  then have ex: "proposal_exists st i" using status_exists [OF s] by auto
  have run: "\<not> fee_withdrawn ?p" "st' = st\<lparr>proposals := (proposals st)[i - 1 := ?p\<lparr>fee_withdrawn := True\<rparr>]\<rparr>"
      "\<And>t. outflow t es = (if token_identifier (fee_payment ?p) = t then amount (fee_payment ?p) else 0)"
    using assms s final
    by (auto simp: gov_withdraw_deposit_def withdraw_whole_deposit_def withdraw_part_of_deposit_def
        mark_withdrawn_def Let_def res_simps)
  have "\<forall>t. outflow t es = open_deposit t ?p"
    using run ex by (simp add: open_deposit_def proposal_exists_def)
  with run show thesis by (intro that [OF ex s final])
qed

section \<open>The parts of the invariant\<close>

lemma proposal_ok_later: "proposal_ok now i p \<Longrightarrow> now \<le> now' \<Longrightarrow> proposal_ok now' i p"
  by (auto simp: proposal_ok_def word_le_nat_alt)

lemma proposals_ok_later: "proposals_ok now ps \<Longrightarrow> now \<le> now' \<Longrightarrow> proposals_ok now' ps"
  by (auto simp: proposals_ok_def intro: proposal_ok_later)

lemma proposals_ok_append:
  "proposals_ok now ps \<Longrightarrow> proposal_ok now (length ps + 1) p \<Longrightarrow> proposals_ok now (ps @ [p])"
  by (auto simp: proposals_ok_def nth_append less_Suc_eq)

lemma proposals_ok_update:
  "proposals_ok now ps \<Longrightarrow> 1 \<le> i \<Longrightarrow> proposal_ok now i p \<Longrightarrow> proposals_ok now (ps[i - 1 := p])"
  unfolding proposals_ok_def
proof (intro allI impI)
  fix j assume ps: "\<forall>j<length ps. proposal_ok now (j + 1) (ps ! j)" and i: "1 \<le> i" "proposal_ok now i p"
    and j: "j < length (ps[i - 1 := p])"
  show "proposal_ok now (j + 1) (ps[i - 1 := p] ! j)"
    using ps i j by (cases "j = i - 1") auto
qed

lemma exists_update:
  assumes "proposals st' = (proposals st)[i - 1 := p]" "proposal_exists st i"
  shows "proposal_exists st' j \<longleftrightarrow> (if j = i then \<not> proposal_is_default p else proposal_exists st j)"
  using assms by (auto simp: proposal_exists_def is_valid_proposal_id_def nth_list_update)

lemma deposits_update:
  assumes "1 \<le> i" "i \<le> length ps"
  shows "open_deposits (ps[i - 1 := p]) t + open_deposit t (ps ! (i - 1)) = open_deposits ps t + open_deposit t p"
  using assms by (intro open_deposits_update) simp

lemma kept_same: "proposals (gov_book b') ! (i - 1) = proposals (gov_book b) ! (i - 1) \<Longrightarrow>
    proposal_votes_of (gov_book b') i = proposal_votes_of (gov_book b) i \<Longrightarrow> proposal_kept b b' i"
  by (simp add: proposal_kept_def Let_def)

text \<open>One proposal is replaced, and the others are as before.\<close>

lemma gov_le_update:
  assumes "gov_block b \<le> gov_block b'" "proposals (gov_book b') = (proposals (gov_book b))[i - 1 := p']"
    and "proposal_exists (gov_book b) i" "proposal_kept b b' i"
    and "\<And>j. j \<noteq> i \<Longrightarrow> proposal_votes_of (gov_book b') j = proposal_votes_of (gov_book b) j"
  shows "gov_le b b'"
proof -
  have "proposal_kept b b' j" if "is_valid_proposal_id (gov_book b) j" for j
  proof (cases "j = i")
    case False
    then show ?thesis
      using assms(2,3,5) that
      by (intro kept_same) (auto simp: nth_list_update proposal_exists_def is_valid_proposal_id_def)
  qed (use assms(4) in simp)
  then show ?thesis using assms(1,2) by (simp add: gov_le_def)
qed

lemma ballots_inv_append:
  assumes inv: "ballots_inv st bs"
    and st': "proposals st' = proposals st @ [p]" "user_voted_proposals st' = user_voted_proposals st"
      "proposal_votes_of st' = (proposal_votes_of st)(length (proposals st) + 1 := Some new_votes)"
  shows "ballots_inv st' bs"
proof -
  let ?n = "length (proposals st)"
  have ex: "proposal_exists st' i \<longleftrightarrow> proposal_exists st i" if "i \<noteq> ?n + 1" for i
    using that by (auto simp: proposal_exists_def is_valid_proposal_id_def st' nth_append)
  have "tally bs (?n + 1) = new_votes"
    using inv by (intro tally_none) (force simp: ballots_inv_def)
  then have "\<forall>i. proposal_exists st' i \<longrightarrow> proposal_votes_of st' i = Some (tally bs i)"
    using inv ex by (auto simp: ballots_inv_def st'(3))
  moreover have "\<forall>x\<in>set bs. ballot_proposal x \<le> length (proposals st')"
    using inv by (auto simp: ballots_inv_def st' le_SucI)
  ultimately show ?thesis using inv by (simp add: ballots_inv_def st'(2))
qed

lemma ballots_inv_update:
  assumes inv: "ballots_inv st bs" and ex: "proposal_exists st i"
    and st': "proposals st' = (proposals st)[i - 1 := p]" "user_voted_proposals st' = user_voted_proposals st"
      "\<And>j. j \<noteq> i \<Longrightarrow> proposal_votes_of st' j = proposal_votes_of st j"
      "\<not> proposal_is_default p \<Longrightarrow> proposal_votes_of st' i = proposal_votes_of st i"
  shows "ballots_inv st' bs"
proof -
  have "\<forall>j. proposal_exists st' j \<longrightarrow> proposal_votes_of st' j = Some (tally bs j)"
    using inv ex st'(3,4) by (auto simp: ballots_inv_def exists_update [OF st'(1) ex])
  then show ?thesis using inv by (simp add: ballots_inv_def st'(1,2))
qed

lemma ballots_inv_vote:
  assumes inv: "ballots_inv st bs" and ex: "proposal_exists st i" and p: "\<not> proposal_is_default p"
    and x: "ballot_proposal x = i" "ballot_voter x = u" "i \<notin> set (user_voted_proposals st u)"
    and st': "proposals st' = (proposals st)[i - 1 := p]"
      "user_voted_proposals st' = (user_voted_proposals st)(u := unordered_insert (user_voted_proposals st u) i)"
      "\<And>j. j \<noteq> i \<Longrightarrow> proposal_votes_of st' j = proposal_votes_of st j"
      "proposal_votes_of st' i = Some (tally (bs @ [x]) i)"
  shows "ballots_inv st' (bs @ [x])"
proof -
  have voted: "\<And>v. set (user_voted_proposals st v) = {i. \<exists>x\<in>set bs. ballot_proposal x = i \<and> ballot_voter x = v}"
    using inv by (simp add: ballots_inv_def)
  have "proposal_votes_of st' j = Some (tally (bs @ [x]) j)" if "proposal_exists st' j" for j
    using that inv st'(3,4) x(1) tally_other [of x j bs]
    by (cases "j = i") (auto simp: ballots_inv_def exists_update [OF st'(1) ex])
  moreover have "distinct (map (\<lambda>x. (ballot_proposal x, ballot_voter x)) (bs @ [x]))"
    using inv x voted [of u] by (auto simp: ballots_inv_def)
  moreover have "set (user_voted_proposals st' v) = {i. \<exists>y\<in>set (bs @ [x]). ballot_proposal y = i \<and> ballot_voter y = v}" for v
    using voted [of v] x by (auto simp: st'(2))
  moreover have "\<forall>y\<in>set (bs @ [x]). ballot_proposal y \<le> length (proposals st')"
    using inv ex x by (auto simp: ballots_inv_def st'(1) proposal_exists_def is_valid_proposal_id_def)
  ultimately show ?thesis by (simp add: ballots_inv_def)
qed

section \<open>Every call\<close>

lemma gov_invD:
  assumes "gov_inv b"
  shows "gov_config_ok (gov_book b)" "proposals_ok (gov_block b) (proposals (gov_book b))"
    "ballots_inv (gov_book b) (ballots b)"
    "gov_received b t = gov_paid b t + open_deposits (proposals (gov_book b)) t" "gov_block b < 2 ^ 63"
  using assms by (simp_all add: gov_inv_def Let_def)

text \<open>Calls that touch neither proposals nor votes.\<close>

lemma gov_quiet_ok:
  assumes inv: "gov_inv b" and now: "gov_block b \<le> now" "now < 2 ^ 63"
    and st': "proposals st' = proposals (gov_book b)" "proposal_votes_of st' = proposal_votes_of (gov_book b)"
      "user_voted_proposals st' = user_voted_proposals (gov_book b)" "gov_config_ok st'"
  defines "b' \<equiv> \<lparr>gov_book = st', gov_received = gov_received b, gov_paid = gov_paid b, ballots = ballots b, gov_block = now\<rparr>"
  shows "gov_inv b' \<and> gov_le b b'"
proof -
  have "ballots_inv st' (ballots b)"
    using gov_invD(3) [OF inv] st' by (simp add: ballots_inv_def proposal_exists_def is_valid_proposal_id_def)
  moreover have "gov_le b b'" using now(1) st' by (simp add: gov_le_def b'_def kept_same)
  ultimately show ?thesis
    using gov_invD [OF inv] now st'(1,4) by (simp add: gov_inv_def b'_def proposals_ok_later)
qed

lemma gov_propose_ok:
  assumes run: "gov_propose env (gov_book b) ps text actions = Inr (i, st')" and inv: "gov_inv b"
    and now: "gov_block b \<le> get_block_nonce env" "get_block_nonce env < 2 ^ 63"
  defines "b' \<equiv> \<lparr>gov_book = st', gov_received = (\<lambda>t. gov_received b t + paid_in t ps), gov_paid = gov_paid b,
    ballots = ballots b, gov_block = get_block_nonce env\<rparr>"
  shows "gov_inv b' \<and> gov_le b b'"
proof -
  let ?st = "gov_book b"
  from gov_propose_Inr [OF run] obtain q p acts where ps: "ps = [q]" and i: "i = length (proposals ?st) + 1"
    and p: "p = \<lparr>proposal_id = i, proposer = get_caller env, proposal_actions = acts,
       description = text, fee_payment = q, minimum_quorum = quorum_percentage ?st,
       proposal_voting_delay = voting_delay_in_blocks ?st, proposal_voting_period = voting_period_in_blocks ?st,
       proposal_withdraw_percentage = withdraw_percentage_defeated ?st, total_quorum = 0,
       proposal_start_block = get_block_nonce env, fee_withdrawn = False\<rparr>"
    and st': "st' = ?st\<lparr>proposals := proposals ?st @ [p], proposal_votes_of := (proposal_votes_of ?st)(i := Some new_votes)\<rparr>"
    by blast
  note parts = gov_invD [OF inv]
  have "proposal_ok (get_block_nonce env) (length (proposals ?st) + 1) p"
    using parts(1) by (simp add: proposal_ok_def p i gov_config_ok_def)
  then have "proposals_ok (get_block_nonce env) (proposals st')"
    using proposals_ok_append [OF proposals_ok_later [OF parts(2) now(1)]] by (simp add: st')
  moreover have "ballots_inv st' (ballots b)"
    by (rule ballots_inv_append [OF parts(3)]) (simp_all add: st' i)
  moreover have "gov_config_ok st'" using parts(1) by (simp add: st' gov_config_ok_def)
  moreover have "open_deposit t p = paid_in t ps" for t
    by (simp add: open_deposit_def p i ps proposal_is_default_def)
  moreover have "gov_le b b'"
    using now(1) by (auto simp: gov_le_def b'_def st' is_valid_proposal_id_def nth_append i intro!: kept_same)
  ultimately show ?thesis using parts(4) now(2) by (simp add: gov_inv_def b'_def st')
qed

lemma gov_vote_ok:
  assumes run: "gov_vote env (gov_book b) i cast = Inr st'" and inv: "gov_inv b"
    and now: "gov_block b \<le> get_block_nonce env" "get_block_nonce env < 2 ^ 63"
  defines "b' \<equiv> \<lparr>gov_book = st', gov_received = gov_received b, gov_paid = gov_paid b,
    ballots = ballots b @ gov_ballots env (gov_book b) (GovVote i cast), gov_block = get_block_nonce env\<rparr>"
  shows "gov_inv b' \<and> gov_le b b'"
proof -
  let ?st = "gov_book b" and ?u = "get_caller env"
  let ?p = "proposals ?st ! (i - 1)" and ?e = "query_energy_amount env ?st ?u"
  from gov_vote_Inr [OF run] obtain v q where ex: "proposal_exists ?st i"
    and active: "get_proposal_status env ?st i = Inr Active"
    and fresh: "i \<notin> set (user_voted_proposals ?st ?u)" and v: "proposal_votes_of ?st i = Some v"
    and st': "st' = ?st\<lparr>proposals := (proposals ?st)[i - 1 := ?p\<lparr>total_quorum := q\<rparr>],
       user_voted_proposals := (user_voted_proposals ?st)(?u := unordered_insert (user_voted_proposals ?st ?u) i),
       proposal_votes_of := (proposal_votes_of ?st)(i := Some (add_vote cast (smoothing_function ?e) ?e v))\<rparr>"
    by blast
  note parts = gov_invD [OF inv]
  note i = proposal_existsD [OF ex proposals_ok_later [OF parts(2) now(1)]]
  have p': "\<not> proposal_is_default (?p\<lparr>total_quorum := q\<rparr>)" using i(4) by (simp add: proposal_is_default_def)
  have ok': "proposal_ok (get_block_nonce env) i (?p\<lparr>total_quorum := q\<rparr>)"
    using i(3) by (simp add: proposal_ok_def proposal_is_default_def voting_end_def)
  have before: "unat (get_block_nonce env) < voting_end ?p"
    by (rule status_times(2) [OF active _ proposals_ok_later [OF parts(2) now(1)] now(2)]) simp_all
  have v': "v = tally (ballots b) i" using parts(3) ex v by (simp add: ballots_inv_def)
  have "gov_config_ok st'" using parts(1) by (simp add: st' gov_config_ok_def)
  moreover have "proposals_ok (get_block_nonce env) (proposals st')"
    using proposals_ok_update [OF proposals_ok_later [OF parts(2) now(1)] i(1) ok'] by (simp add: st')
  moreover have "ballots_inv st' (ballots b @ gov_ballots env ?st (GovVote i cast))"
    unfolding gov_ballots.simps
    by (rule ballots_inv_vote [OF parts(3) ex p' _ _ fresh]) (simp_all add: st' tally_add v')
  moreover have "open_deposits (proposals st') t = open_deposits (proposals ?st) t" for t
  proof -
    have "open_deposit t (?p\<lparr>total_quorum := q\<rparr>) = open_deposit t ?p"
      by (simp add: open_deposit_def proposal_is_default_def cong: if_cong)
    then show ?thesis using deposits_update [OF i(1,2), of "?p\<lparr>total_quorum := q\<rparr>" t] by (simp add: st')
  qed
  moreover have "gov_le b b'"
  proof (rule gov_le_update [OF _ _ ex, where p' = "?p\<lparr>total_quorum := q\<rparr>"])
    have "\<not> voting_end ?p \<le> unat (gov_block b)"
      using before now(1) by (simp add: word_le_nat_alt)
    then show "proposal_kept b b' i"
      using i p' by (simp add: proposal_kept_def Let_def b'_def st')
  qed (use now in \<open>simp_all add: b'_def st'\<close>)
  ultimately show ?thesis using parts(4) now(2) by (simp add: gov_inv_def b'_def)
qed

lemma gov_cancel_ok:
  assumes run: "gov_cancel env (gov_book b) i = Inr (st', es)" and inv: "gov_inv b"
    and now: "gov_block b \<le> get_block_nonce env" "get_block_nonce env < 2 ^ 63"
  defines "b' \<equiv> \<lparr>gov_book = st', gov_received = gov_received b, gov_paid = (\<lambda>t. gov_paid b t + outflow t es),
    ballots = ballots b, gov_block = get_block_nonce env\<rparr>"
  shows "gov_inv b' \<and> gov_le b b'"
proof -
  let ?st = "gov_book b"
  let ?p = "proposals ?st ! (i - 1)"
  from gov_cancel_Inr [OF run] have ex: "proposal_exists ?st i"
    and pending: "get_proposal_status env ?st i = Inr Pending"
    and es: "es = refund_proposal_fee ?p (amount (fee_payment ?p))"
    and st': "st' = ?st\<lparr>proposals := (proposals ?st)[i - 1 := default_proposal], proposal_votes_of := (proposal_votes_of ?st)(i := None)\<rparr>"
    by blast+
  note parts = gov_invD [OF inv]
  note i = proposal_existsD [OF ex proposals_ok_later [OF parts(2) now(1)]]
  have default: "proposal_is_default default_proposal" by (simp add: proposal_is_default_def default_proposal_def)
  have before: "unat (get_block_nonce env) < unat (proposal_start_block ?p) + unat (proposal_voting_delay ?p)"
    by (rule status_times(1) [OF pending _ proposals_ok_later [OF parts(2) now(1)] now(2)]) simp_all
  have open_fee: "open_deposit t ?p = outflow t es" for t
    using i(3,4) before by (auto simp: open_deposit_def es proposal_ok_def voting_end_def)
  have "gov_config_ok st'" using parts(1) by (simp add: st' gov_config_ok_def)
  moreover have "proposals_ok (get_block_nonce env) (proposals st')"
    using proposals_ok_update [OF proposals_ok_later [OF parts(2) now(1)] i(1), of default_proposal] default
    by (simp add: st' proposal_ok_def)
  moreover have "ballots_inv st' (ballots b)"
    by (rule ballots_inv_update [OF parts(3) ex, where p = default_proposal]) (simp_all add: st' default)
  moreover have "open_deposits (proposals ?st) t = outflow t es + open_deposits (proposals st') t" for t
    using deposits_update [OF i(1,2), of default_proposal t] default open_fee [of t]
    by (simp add: st' open_deposit_def)
  moreover have "gov_le b b'"
  proof (rule gov_le_update [OF _ _ ex, where p' = default_proposal])
    have "unat (gov_block b) < unat (proposal_start_block ?p) + unat (proposal_voting_delay ?p)"
      using before now(1) by (simp add: word_le_nat_alt)
    then show "proposal_kept b b' i"
      using i default by (simp add: proposal_kept_def Let_def b'_def st')
  qed (use now in \<open>simp_all add: b'_def st'\<close>)
  ultimately show ?thesis using parts(4) now(2) by (simp add: gov_inv_def b'_def)
qed

lemma gov_withdraw_ok:
  assumes run: "gov_withdraw_deposit env (gov_book b) i = Inr (st', es)" and inv: "gov_inv b"
    and now: "gov_block b \<le> get_block_nonce env" "get_block_nonce env < 2 ^ 63"
  defines "b' \<equiv> \<lparr>gov_book = st', gov_received = gov_received b, gov_paid = (\<lambda>t. gov_paid b t + outflow t es),
    ballots = ballots b, gov_block = get_block_nonce env\<rparr>"
  shows "gov_inv b' \<and> gov_le b b'"
proof -
  let ?st = "gov_book b"
  let ?p = "proposals ?st ! (i - 1)"
  from gov_withdraw_Inr [OF run] obtain s where ex: "proposal_exists ?st i"
    and status: "get_proposal_status env ?st i = Inr s" "s = Succeeded \<or> s = Defeated \<or> s = DefeatedWithVeto"
    and open_fee: "\<not> fee_withdrawn ?p" "\<forall>t. outflow t es = open_deposit t ?p"
    and st': "st' = ?st\<lparr>proposals := (proposals ?st)[i - 1 := ?p\<lparr>fee_withdrawn := True\<rparr>]\<rparr>"
    by blast
  note parts = gov_invD [OF inv]
  note i = proposal_existsD [OF ex proposals_ok_later [OF parts(2) now(1)]]
  have after: "voting_end ?p \<le> unat (get_block_nonce env)"
    by (rule status_times(3) [OF status(1) _ proposals_ok_later [OF parts(2) now(1)] now(2)]) (use status(2) in auto)
  have p': "\<not> proposal_is_default (?p\<lparr>fee_withdrawn := True\<rparr>)" using i(4) by (simp add: proposal_is_default_def)
  have ok': "proposal_ok (get_block_nonce env) i (?p\<lparr>fee_withdrawn := True\<rparr>)"
    using i(3) after by (simp add: proposal_ok_def proposal_is_default_def voting_end_def)
  have "gov_config_ok st'" using parts(1) by (simp add: st' gov_config_ok_def)
  moreover have "proposals_ok (get_block_nonce env) (proposals st')"
    using proposals_ok_update [OF proposals_ok_later [OF parts(2) now(1)] i(1) ok'] by (simp add: st')
  moreover have "ballots_inv st' (ballots b)"
    by (rule ballots_inv_update [OF parts(3) ex]) (simp_all add: st')
  moreover have "open_deposits (proposals ?st) t = outflow t es + open_deposits (proposals st') t" for t
  proof -
    have "open_deposit t (?p\<lparr>fee_withdrawn := True\<rparr>) = 0" by (simp add: open_deposit_def)
    then show ?thesis
      using deposits_update [OF i(1,2), of "?p\<lparr>fee_withdrawn := True\<rparr>" t] open_fee(2) by (simp add: st')
  qed
  moreover have "gov_le b b'"
    by (rule gov_le_update [OF _ _ ex, where p' = "?p\<lparr>fee_withdrawn := True\<rparr>"])
      (use now i p' in \<open>simp_all add: b'_def st' proposal_kept_def Let_def\<close>)
  ultimately show ?thesis using parts(4) now(2) by (simp add: gov_inv_def b'_def)
qed

lemma gov_setters_quiet:
  assumes "try_change_min_energy_for_propose st v = Inr st' \<or> try_change_min_fee_for_propose st v = Inr st' \<or>
    try_change_quorum_percentage st w = Inr st' \<or> try_change_voting_delay_in_blocks st w = Inr st' \<or>
    try_change_voting_period_in_blocks st w = Inr st' \<or> try_change_withdraw_percentage_defeated st w = Inr st'"
    and "gov_config_ok st"
  shows "proposals st' = proposals st \<and> proposal_votes_of st' = proposal_votes_of st \<and>
    user_voted_proposals st' = user_voted_proposals st \<and> gov_config_ok st'"
  using assms
  by (auto simp: try_change_min_energy_for_propose_def try_change_min_fee_for_propose_def
      try_change_quorum_percentage_def try_change_voting_delay_in_blocks_def try_change_voting_period_in_blocks_def
      try_change_withdraw_percentage_defeated_def Let_def res_simps gov_config_ok_def word_less_nat_alt word_le_nat_alt)

lemmas gov_setting_defs =
  gov_quiet_def gov_only_owner_def change_min_energy_for_propose_def change_min_fee_for_propose_def
  change_quorum_percentage_def change_withdraw_percentage_def change_voting_delay_in_blocks_def
  change_voting_period_in_blocks_def change_fees_collector_address_def set_energy_factory_address_def
  gov_permission_call_def

lemma gov_setting_quiet:
  assumes "gov_exec env st call = Inr (st', es)" "gov_config_ok st"
    and "\<And>ps text acts. call \<noteq> GovPropose ps text acts" "\<And>i v. call \<noteq> GovVote i v"
      "\<And>i. call \<noteq> GovCancel i" "\<And>i. call \<noteq> GovWithdraw i"
  shows "(proposals st' = proposals st \<and> proposal_votes_of st' = proposal_votes_of st \<and>
    user_voted_proposals st' = user_voted_proposals st \<and> gov_config_ok st') \<and>
    es = [] \<and> gov_payments call = [] \<and> gov_ballots env st call = []"
  using assms gov_setters_quiet [of st _ st']
  by (cases call) (auto simp: gov_setting_defs res_simps, simp_all add: gov_config_ok_def)

lemma gov_step_ok:
  assumes inv: "gov_inv b" and ok: "gov_admissible x" and step: "gov_step b x = Inr b'"
  shows "gov_inv b' \<and> gov_le b b'"
proof -
  obtain env call where x: "x = (env, call)" by (cases x)
  let ?st = "gov_book b"
  obtain st' es where now: "gov_block b \<le> get_block_nonce env" and run: "gov_exec env ?st call = Inr (st', es)"
    and b': "b' = \<lparr>gov_book = st', gov_received = (\<lambda>t. gov_received b t + paid_in t (gov_payments call)),
           gov_paid = (\<lambda>t. gov_paid b t + outflow t es), ballots = ballots b @ gov_ballots env ?st call,
           gov_block = get_block_nonce env\<rparr>"
    using step by (auto simp: gov_step_def x res_simps)
  have early: "get_block_nonce env < 2 ^ 63" using ok by (simp add: gov_admissible_def x)
  consider ps msg acts where "call = GovPropose ps msg acts" | i v where "call = GovVote i v"
    | i where "call = GovCancel i" | i where "call = GovWithdraw i"
    | "\<And>ps msg acts. call \<noteq> GovPropose ps msg acts" "\<And>i v. call \<noteq> GovVote i v"
      "\<And>i. call \<noteq> GovCancel i" "\<And>i. call \<noteq> GovWithdraw i"
    by (cases call) auto
  then show ?thesis
  proof cases
    case 1
    then obtain i where "gov_propose env ?st ps msg acts = Inr (i, st')" "es = []"
      using run by (auto simp: res_simps)
    then show ?thesis using gov_propose_ok [OF _ inv now early, of ps msg acts i st'] by (simp add: b' 1)
  next
    case 2
    then have "gov_vote env ?st i v = Inr st'" "es = []" using run by (auto simp: gov_quiet_def res_simps)
    then show ?thesis using gov_vote_ok [OF _ inv now early, of i v st'] by (simp add: b' 2)
  next
    case 3
    then show ?thesis using run gov_cancel_ok [OF _ inv now early, of i st' es] by (simp add: b')
  next
    case 4
    then show ?thesis using run gov_withdraw_ok [OF _ inv now early, of i st' es] by (simp add: b')
  next
    case 5
    note quiet = gov_setting_quiet [OF run gov_invD(1) [OF inv] 5]
    then show ?thesis using gov_quiet_ok [OF inv now early, of st'] by (simp add: b')
  qed
qed

section \<open>Runs\<close>

lemma kept_trans:
  assumes "proposal_kept b c i" "proposal_kept c d i" "gov_block b \<le> gov_block c"
  shows "proposal_kept b d i"
proof -
  let ?p = "proposals (gov_book b) ! (i - 1)" and ?q = "proposals (gov_book c) ! (i - 1)"
    and ?r = "proposals (gov_book d) ! (i - 1)"
  have le: "unat (gov_block b) \<le> unat (gov_block c)" using assms(3) by (simp add: word_le_nat_alt)
  show ?thesis
  proof (cases "proposal_is_default ?p \<or> proposal_is_default ?q")
    case True
    then show ?thesis
      using assms(1,2) by (auto simp: proposal_kept_def Let_def split: if_splits)
  next
    case False
    then have q: "?q = ?p\<lparr>total_quorum := total_quorum ?q, fee_withdrawn := fee_withdrawn ?q\<rparr>"
      and pq: "fee_withdrawn ?p \<longrightarrow> fee_withdrawn ?q" "voting_end ?p \<le> unat (gov_block b) \<longrightarrow>
        total_quorum ?q = total_quorum ?p \<and> proposal_votes_of (gov_book c) i = proposal_votes_of (gov_book b) i"
      using assms(1) by (auto simp: proposal_kept_def Let_def)
    have same: "voting_end ?q = voting_end ?p" "proposal_start_block ?q = proposal_start_block ?p"
      "proposal_voting_delay ?q = proposal_voting_delay ?p"
      by (subst q, simp add: voting_end_def)+
    show ?thesis
    proof (cases "proposal_is_default ?r")
      case True
      then show ?thesis using False assms(2) same le by (auto simp: proposal_kept_def Let_def)
    next
      case r: False
      then have r': "?r = ?q\<lparr>total_quorum := total_quorum ?r, fee_withdrawn := fee_withdrawn ?r\<rparr>"
        and qr: "fee_withdrawn ?q \<longrightarrow> fee_withdrawn ?r" "voting_end ?q \<le> unat (gov_block c) \<longrightarrow>
          total_quorum ?r = total_quorum ?q \<and> proposal_votes_of (gov_book d) i = proposal_votes_of (gov_book c) i"
        using False assms(2) by (auto simp: proposal_kept_def Let_def)
      have "?r = ?p\<lparr>total_quorum := total_quorum ?r, fee_withdrawn := fee_withdrawn ?r\<rparr>"
        by (subst r', subst q) simp
      then show ?thesis
        using False r pq qr same le by (simp add: proposal_kept_def Let_def)
    qed
  qed
qed

interpretation gov_run: monotone_step_system gov_step gov_inv gov_admissible gov_le
proof
  fix s t u x assume "gov_inv s"
  then show "gov_admissible x \<Longrightarrow> gov_step s x = Inr t \<Longrightarrow> gov_inv t"
    and "gov_admissible x \<Longrightarrow> gov_step s x = Inr t \<Longrightarrow> gov_le s t"
    using gov_step_ok by blast+
  show "gov_le s s" by (simp add: gov_le_def kept_same)
  show "gov_le s t \<Longrightarrow> gov_le t u \<Longrightarrow> gov_le s u"
    using kept_trans [of s t _ u] order_trans [of "gov_block s" "gov_block t" "gov_block u"]
    by (auto simp: gov_le_def is_valid_proposal_id_def)
qed

definition empty_gov_storage :: gov_storage where
  "empty_gov_storage = \<lparr>energy_factory_address = None, gov_permissions = (\<lambda>a. 0), proposals = [],
     user_voted_proposals = (\<lambda>a. []), proposal_votes_of = Map.empty, min_energy_for_propose = 0,
     min_fee_for_propose = 0, quorum_percentage = 0, voting_delay_in_blocks = 0, voting_period_in_blocks = 0,
     fee_token_id = '''', withdraw_percentage_defeated = 0, fees_collector_address = zero_address\<rparr>"

definition new_gov_books :: "gov_storage \<Rightarrow> gov_books" where
  "new_gov_books st = \<lparr>gov_book = st, gov_received = (\<lambda>t. 0), gov_paid = (\<lambda>t. 0), ballots = [], gov_block = 0\<rparr>"

lemma new_gov_inv:
  assumes "gov_init env empty_gov_storage e f q d p w factory collector token = Inr st"
  shows "gov_inv (new_gov_books st)"
proof -
  have "proposals st = [] \<and> user_voted_proposals st = (\<lambda>a. []) \<and> gov_config_ok st"
    using assms
    by (auto simp: gov_init_def try_change_min_energy_for_propose_def try_change_min_fee_for_propose_def
      try_change_quorum_percentage_def try_change_voting_delay_in_blocks_def try_change_voting_period_in_blocks_def
      try_change_withdraw_percentage_defeated_def try_change_fee_token_id_def set_energy_factory_address_def
      Let_def res_simps gov_config_ok_def word_less_nat_alt word_le_nat_alt empty_gov_storage_def split: if_splits)
  then show ?thesis
    by (auto simp: gov_inv_def new_gov_books_def proposals_ok_def ballots_inv_def proposal_exists_def is_valid_proposal_id_def)
qed

end
