(* ===== verification/GovernanceProperties.thy ===== *)
theory GovernanceProperties
  imports GovernanceSteps
begin

text \<open>What governance promises: votes are counted once, decisions stand, deposits come back.\<close>

section \<open>The status in closed form\<close>

definition decision :: "governance_proposal \<Rightarrow> proposal_votes \<Rightarrow> governance_proposal_status" where
  "decision p v =
     (if unat (minimum_quorum p) * total_quorum p \<le> quorum v * unat FULL_PERCENTAGE \<and>
        down_veto_votes v \<le> get_total_votes v div 3 \<and> get_total_votes v div 2 < up_votes v then Succeeded
      else if get_total_votes v div 3 < down_veto_votes v then DefeatedWithVeto else Defeated)"

definition status_of :: "nat \<Rightarrow> governance_proposal \<Rightarrow> proposal_votes \<Rightarrow> governance_proposal_status" where
  "status_of block p v =
     (if proposal_is_default p then StatusNone
      else if block < unat (proposal_start_block p) + unat (proposal_voting_delay p) then Pending
      else if block < voting_end p then Active
      else decision p v)"

lemma get_proposal_status_eq:
  assumes inv: "gov_inv b" and i: "is_valid_proposal_id (gov_book b) i"
  shows "get_proposal_status env (gov_book b) i =
    Inr (status_of (unat (get_block_nonce env)) (proposals (gov_book b) ! (i - 1)) (tally (ballots b) i))"
proof (cases "proposal_is_default (proposals (gov_book b) ! (i - 1))")
  case True
  then show ?thesis by (simp add: get_proposal_status_def status_of_def proposal_exists_def)
next
  case False
  let ?st = "gov_book b" and ?p = "proposals (gov_book b) ! (i - 1)"
  have ex: "proposal_exists ?st i" using i False by (simp add: proposal_exists_def)
  note p = proposal_existsD [OF ex gov_invD(2) [OF inv]]
  note times = proposal_times [OF p(3,4) gov_invD(5) [OF inv]]
  have p_at: "vec_mapper_get (proposals ?st) i = Inr ?p" using p(1,2) by (simp add: vec_mapper_Inr)
  have v: "get_votes ?st i = Inr (tally (ballots b) i)"
    using gov_invD(3) [OF inv] ex by (simp add: get_votes_Inr ballots_inv_def)
  show ?thesis
    using ex False p_at v times
    by (auto simp: get_proposal_status_def status_of_def decision_def quorum_reached_def vote_reached_def
        vote_down_with_veto_def Let_def word_less_nat_alt word_le_nat_alt not_less split: if_splits)
qed

text \<open>The statuses a proposal can have later.\<close>

fun may_become :: "governance_proposal_status \<Rightarrow> governance_proposal_status \<Rightarrow> bool" where
  "may_become Pending s = True"
| "may_become Active s \<longleftrightarrow> s \<notin> {StatusNone, Pending}"
| "may_become r s \<longleftrightarrow> r = s"

lemma status_may_become:
  assumes kept: "proposal_kept b b' i" and le: "gov_block b \<le> gov_block b'"
    and v: "\<not> proposal_is_default (proposals (gov_book b') ! (i - 1)) \<Longrightarrow>
      proposal_votes_of (gov_book b) i = Some v \<and> proposal_votes_of (gov_book b') i = Some v'"
  shows "may_become (status_of (unat (gov_block b)) (proposals (gov_book b) ! (i - 1)) v)
    (status_of (unat (gov_block b')) (proposals (gov_book b') ! (i - 1)) v')"
proof -
  let ?p = "proposals (gov_book b) ! (i - 1)" and ?q = "proposals (gov_book b') ! (i - 1)"
  have le: "unat (gov_block b) \<le> unat (gov_block b')" using le by (simp add: word_le_nat_alt)
  show ?thesis
  proof (cases "proposal_is_default ?q")
    case True
    then show ?thesis using kept by (auto simp: proposal_kept_def Let_def status_of_def split: if_splits)
  next
    case False
    then have p: "\<not> proposal_is_default ?p"
      and q: "?q = ?p\<lparr>total_quorum := total_quorum ?q, fee_withdrawn := fee_withdrawn ?q\<rparr>"
      and stays: "voting_end ?p \<le> unat (gov_block b) \<longrightarrow> total_quorum ?q = total_quorum ?p \<and> v' = v"
      using kept v by (auto simp: proposal_kept_def Let_def split: if_splits)
    have same: "voting_end ?q = voting_end ?p" "proposal_start_block ?q = proposal_start_block ?p"
      "proposal_voting_delay ?q = proposal_voting_delay ?p" "minimum_quorum ?q = minimum_quorum ?p"
      by (subst q, simp add: voting_end_def)+
    have decided: "decision r w \<notin> {StatusNone, Pending, Active}" for r w by (simp add: decision_def)
    have after: "unat (proposal_start_block ?p) + unat (proposal_voting_delay ?p) \<le> voting_end ?p"
      by (simp add: voting_end_def)
    show ?thesis
    proof (cases "voting_end ?p \<le> unat (gov_block b)")
      case True
      then have "decision ?q v' = decision ?p v" using stays same by (simp add: decision_def)
      then show ?thesis
        using True p False same le after by (cases "decision ?p v") (auto simp: status_of_def)
    next
      case open_vote: False
      then show ?thesis
        using p False same le decided [of ?q v'] by (auto simp: status_of_def)
    qed
  qed
qed

section \<open>An example\<close>

text \<open>
  Users 7 and 8 have energies 10000 and 2500; the total energy is 20000 and the quorum 40 percent.
  User 7 proposes and votes for it, user 8 against it with a veto.
\<close>

definition ex_gov_env :: "address \<Rightarrow> u64 \<Rightarrow> gov_env" where
  "ex_gov_env caller block =
     \<lparr>get_caller = caller, get_sc_address = 30, get_owner_address = 2, get_block_epoch = 100,
      get_block_round = 0, get_block_nonce = block, get_block_timestamp = 0,
      is_smart_contract = (\<lambda>a. a < 5), is_valid_esdt_identifier = (\<lambda>t. t \<noteq> ''''),
      read_user_energy = (\<lambda>a. [7 \<mapsto> energy_new 10000 100 10, 8 \<mapsto> energy_new 2500 100 10]),
      read_base_token_id = (\<lambda>a. ''MEX''), read_locked_token_id = (\<lambda>a. ''XMEX''),
      read_last_global_update_week = (\<lambda>a. 12), read_total_energy_for_week = (\<lambda>a w. 20000)\<rparr>"

definition ex_gov_fee :: biguint where "ex_gov_fee = 3000000 * 10 ^ 18"

definition ex_gov :: gov_storage where
  "ex_gov = empty_gov_storage\<lparr>min_energy_for_propose := 500, min_fee_for_propose := ex_gov_fee,
     quorum_percentage := 4000, voting_delay_in_blocks := 10, voting_period_in_blocks := 14400,
     withdraw_percentage_defeated := 2500, energy_factory_address := Some 1, fees_collector_address := 3,
     fee_token_id := ''MEX''\<rparr>"

definition ex_gov_calls :: "(gov_env \<times> gov_call) list" where
  "ex_gov_calls =
     [(ex_gov_env 7 1000, GovPropose [new_payment ''MEX'' 0 ex_gov_fee] ''raise fees'' [(5000000, 40, ''setFee'', [''30''])]),
      (ex_gov_env 8 1001, GovPropose [new_payment ''MEX'' 0 ex_gov_fee] ''again'' []),
      (ex_gov_env 8 1002, GovCancel 2),
      (ex_gov_env 7 1003, GovVote 1 UpVote),
      (ex_gov_env 7 1010, GovVote 1 UpVote),
      (ex_gov_env 7 1011, GovVote 1 DownVote),
      (ex_gov_env 8 1012, GovVote 1 DownVetoVote)]"

lemma ex_gov_env_sel [simp]:
  "get_caller (ex_gov_env u c) = u" "get_block_nonce (ex_gov_env u c) = c" "get_owner_address (ex_gov_env u c) = 2"
  "get_block_epoch (ex_gov_env u c) = 100"
  "is_smart_contract (ex_gov_env u c) a \<longleftrightarrow> a < 5" "is_valid_esdt_identifier (ex_gov_env u c) t \<longleftrightarrow> t \<noteq> ''''"
  "read_user_energy (ex_gov_env u c) a = [7 \<mapsto> energy_new 10000 100 10, 8 \<mapsto> energy_new 2500 100 10]"
  "read_last_global_update_week (ex_gov_env u c) a = 12" "read_total_energy_for_week (ex_gov_env u c) a w = 20000"
  by (simp_all add: ex_gov_env_def)

lemma ex_gov_init: "gov_init (ex_gov_env 2 1) empty_gov_storage 500 ex_gov_fee 4000 10 14400 2500 1 3 ''MEX'' = Inr ex_gov"
  by (simp add: gov_init_def try_change_min_energy_for_propose_def try_change_min_fee_for_propose_def
      try_change_quorum_percentage_def try_change_voting_delay_in_blocks_def try_change_voting_period_in_blocks_def
      try_change_withdraw_percentage_defeated_def try_change_fee_token_id_def set_energy_factory_address_def
      MIN_MIN_FEE_FOR_PROPOSE_def MAX_MIN_FEE_FOR_PROPOSE_def DECIMALS_CONST_def MIN_QUORUM_def MAX_QUORUM_def
      MIN_VOTING_DELAY_def MAX_VOTING_DELAY_def MIN_VOTING_PERIOD_def MAX_VOTING_PERIOD_def FULL_PERCENTAGE_def
      require_sc_address_def ex_gov_def ex_gov_fee_def empty_gov_storage_def)

lemma ex_gov_admissible: "list_all gov_admissible ex_gov_calls"
  by (simp add: ex_gov_calls_def gov_admissible_def)

lemma ex_energies: "query_energy_amount (ex_gov_env u c) st 7 = 10000" "query_energy_amount (ex_gov_env u c) st 8 = 2500"
  if "energy_factory_address st = Some 1"
  using that by (simp_all add: query_energy_amount_def get_energy_entry_def energy_new_def deplete_def get_energy_amount_def)

lemma ex_roots: "big_sqrt 10000 = 100" "big_sqrt 2500 = 50"
  by (simp_all add: big_sqrt.simps)

lemmas gov_eval =
  gov_propose_def gov_vote_def gov_cancel_def gov_withdraw_deposit_def gov_quiet_def single_esdt_def
  MAX_GOVERNANCE_PROPOSAL_ACTIONS_def MAX_GAS_LIMIT_PER_BLOCK_def action_from_def
  require_valid_proposal_id_def is_valid_proposal_id_def get_proposal_status_def proposal_exists_def
  proposal_is_default_def default_proposal_def vec_mapper_get_def vec_mapper_set_def clear_proposal_def
  get_votes_def new_votes_def update_total_quorum_def get_energy_amount_non_zero_def smoothing_function_def
  unordered_insert_def quorum_reached_def vote_reached_def vote_down_with_veto_def get_total_votes_def
  withdraw_whole_deposit_def withdraw_part_of_deposit_def mark_withdrawn_def FULL_PERCENTAGE_def

lemma ex_gov_run: "(let b = run_txs gov_step (new_gov_books ex_gov) ex_gov_calls in
    (ballots b, gov_block b, length (proposals (gov_book b)), total_quorum (proposals (gov_book b) ! 0),
     gov_received b ''MEX'', gov_paid b ''MEX'', proposal_id (proposals (gov_book b) ! 0),
     proposer (proposals (gov_book b) ! 0), fee_payment (proposals (gov_book b) ! 0),
     fee_withdrawn (proposals (gov_book b) ! 0), get_proposal_status (ex_gov_env 7 20000) (gov_book b) 1)) =
   ([\<lparr>ballot_proposal = 1, ballot_voter = 7, ballot_vote = UpVote, ballot_energy = 10000\<rparr>,
     \<lparr>ballot_proposal = 1, ballot_voter = 8, ballot_vote = DownVetoVote, ballot_energy = 2500\<rparr>], 1012, 2, 20000,
    2 * ex_gov_fee, ex_gov_fee, 1, 7, new_payment ''MEX'' 0 ex_gov_fee, False, Inr Succeeded)"
  by (simp add: ex_gov_calls_def new_gov_books_def ex_gov_def empty_gov_storage_def gov_step_def gov_eval ex_roots
      query_energy_amount_def get_energy_entry_def energy_new_def deplete_def get_energy_amount_def
      cong: and_then_weak_cong require_weak_cong let_weak_cong)

lemma ex_gov_run_sel:
  defines "b \<equiv> run_txs gov_step (new_gov_books ex_gov) ex_gov_calls"
  shows "ballots b = [\<lparr>ballot_proposal = 1, ballot_voter = 7, ballot_vote = UpVote, ballot_energy = 10000\<rparr>,
     \<lparr>ballot_proposal = 1, ballot_voter = 8, ballot_vote = DownVetoVote, ballot_energy = 2500\<rparr>]"
    and "gov_block b = 1012" "gov_received b ''MEX'' = 2 * ex_gov_fee" "gov_paid b ''MEX'' = ex_gov_fee"
    and "is_valid_proposal_id (gov_book b) 1" "proposal_exists (gov_book b) 1"
    and "get_proposal_status (ex_gov_env 7 20000) (gov_book b) 1 = Inr Succeeded"
    and "proposer (proposals (gov_book b) ! 0) = 7" "fee_payment (proposals (gov_book b) ! 0) = new_payment ''MEX'' 0 ex_gov_fee"
    and "\<not> fee_withdrawn (proposals (gov_book b) ! 0)"
  using ex_gov_run by (simp_all add: b_def Let_def is_valid_proposal_id_def proposal_exists_def proposal_is_default_def)

lemma ex_gov_now: "list_all gov_admissible [(ex_gov_env 5 20000, GovWithdraw 1)]"
  by (simp add: gov_admissible_def)

section \<open>Properties\<close>

lemma counted_roots:
  "counted k big_sqrt bs i \<le> counted k (\<lambda>e. e) bs i"
  unfolding counted_def by (rule sum_list_mono) (simp add: big_sqrt_le)

lemma counted_split:
  "counted (\<lambda>x. ballot_vote x = UpVote) w bs i + counted (\<lambda>x. ballot_vote x = DownVote) w bs i +
   counted (\<lambda>x. ballot_vote x = DownVetoVote) w bs i + counted (\<lambda>x. ballot_vote x = AbstainVote) w bs i =
   counted (\<lambda>x. True) w bs i"
proof (induction bs)
  case (Cons x bs)
  then show ?case by (cases "ballot_vote x") (auto simp: counted_def)
qed simp

text \<open>C33: Every vote counts once, with the weight of the voter's energy. After any sequence of calls on
  newly deployed governance, the stored votes of an existing proposal are the sums over the ballots
  cast for it, of the square roots of the voters' energies for each kind of vote and of the energies
  for the quorum; no user has two ballots for one proposal; and the votes never exceed the quorum.\<close>

theorem votes_are_counted:
  assumes init: "gov_init env empty_gov_storage e f q d p w factory collector token = Inr st"
    and calls: "list_all gov_admissible calls"
  defines "b \<equiv> run_txs gov_step (new_gov_books st) calls"
  assumes ex: "proposal_exists (gov_book b) i"
  shows "get_votes (gov_book b) i = Inr (tally (ballots b) i) \<and>
    distinct (map (\<lambda>x. (ballot_proposal x, ballot_voter x)) (ballots b)) \<and>
    get_total_votes (tally (ballots b) i) \<le> quorum (tally (ballots b) i)"
proof (intro conjI)
  have "gov_inv b" unfolding b_def by (intro gov_run.run_inv new_gov_inv [OF init] calls)
  then have inv: "ballots_inv (gov_book b) (ballots b)" by (simp add: gov_inv_def Let_def)
  then show "get_votes (gov_book b) i = Inr (tally (ballots b) i)"
    using ex by (simp add: get_votes_Inr ballots_inv_def)
  show "distinct (map (\<lambda>x. (ballot_proposal x, ballot_voter x)) (ballots b))"
    using inv by (simp add: ballots_inv_def)
  show "get_total_votes (tally (ballots b) i) \<le> quorum (tally (ballots b) i)"
    using counted_split [of big_sqrt "ballots b" i] counted_roots [of "\<lambda>x. True" "ballots b" i]
    by (simp add: tally_def get_total_votes_def)
qed

theorem votes_are_counted_witness:
  "get_votes (gov_book (run_txs gov_step (new_gov_books ex_gov) ex_gov_calls)) 1 =
    Inr \<lparr>up_votes = 100, down_votes = 0, down_veto_votes = 50, abstain_votes = 0, quorum = 12500\<rparr>"
  using votes_are_counted [OF ex_gov_init ex_gov_admissible ex_gov_run_sel(6)]
  by (simp add: ex_gov_run_sel tally_def counted_def ex_roots)

text \<open>C34: Decisions are final. After any sequence of calls on newly deployed governance the status of
  every proposal can be read, and whatever calls follow, a proposal that was decided, as succeeded,
  defeated or defeated with veto, keeps that status; one that was open for votes is still open or
  decided; and one that was cancelled does not come back.\<close>

theorem decisions_are_final:
  assumes init: "gov_init env empty_gov_storage e f q d p w factory collector token = Inr st"
    and calls: "list_all gov_admissible calls" "list_all gov_admissible later"
  defines "b \<equiv> run_txs gov_step (new_gov_books st) calls"
  defines "b' \<equiv> run_txs gov_step b later"
  assumes i: "is_valid_proposal_id (gov_book b) i"
    and blocks: "get_block_nonce now = gov_block b" "get_block_nonce then_now = gov_block b'"
  shows "\<exists>s s'. get_proposal_status now (gov_book b) i = Inr s \<and>
    get_proposal_status then_now (gov_book b') i = Inr s' \<and> may_become s s'"
proof -
  have inv: "gov_inv b" unfolding b_def by (intro gov_run.run_inv new_gov_inv [OF init] calls)
  have inv': "gov_inv b'" unfolding b'_def by (intro gov_run.run_inv inv calls)
  have le: "gov_le b b'" unfolding b'_def by (intro gov_run.run_le inv calls)
  have i': "is_valid_proposal_id (gov_book b') i" using i le by (simp add: is_valid_proposal_id_def gov_le_def)
  have kept: "proposal_kept b b' i" using le i by (simp add: gov_le_def)
  have votes: "proposal_votes_of (gov_book b) i = Some (tally (ballots b) i) \<and>
      proposal_votes_of (gov_book b') i = Some (tally (ballots b') i)"
    if "\<not> proposal_is_default (proposals (gov_book b') ! (i - 1))"
  proof -
    have "\<not> proposal_is_default (proposals (gov_book b) ! (i - 1))"
      using kept that by (auto simp: proposal_kept_def Let_def split: if_splits)
    then show ?thesis
      using gov_invD(3) [OF inv] gov_invD(3) [OF inv'] that i i' by (simp add: ballots_inv_def proposal_exists_def)
  qed
  have "gov_block b \<le> gov_block b'" using le by (simp add: gov_le_def)
  from status_may_become [OF kept this votes] show ?thesis
    using get_proposal_status_eq [OF inv i, of now] get_proposal_status_eq [OF inv' i', of then_now] blocks by simp
qed

theorem decisions_are_final_witness:
  "\<exists>s s'. get_proposal_status (ex_gov_env 9 1012) (gov_book (run_txs gov_step (new_gov_books ex_gov) ex_gov_calls)) 1 = Inr s \<and>
     may_become s s'"
  using decisions_are_final [OF ex_gov_init ex_gov_admissible ex_gov_now ex_gov_run_sel(5), of "ex_gov_env 9 1012"
      "ex_gov_env 9 (gov_block (run_txs gov_step (run_txs gov_step (new_gov_books ex_gov) ex_gov_calls) [(ex_gov_env 5 20000, GovWithdraw 1)]))"]
    ex_gov_run_sel(2) by auto

text \<open>C35: Governance holds the deposits. After any sequence of calls on newly deployed governance the
  tokens received are, for every token, the tokens it has paid back or burnt and the deposits of the
  proposals that were neither cancelled nor withdrawn.\<close>

theorem governance_holds_open_deposits:
  assumes init: "gov_init env empty_gov_storage e f q d p w factory collector token = Inr st"
    and calls: "list_all gov_admissible calls"
  defines "b \<equiv> run_txs gov_step (new_gov_books st) calls"
  shows "gov_received b t = gov_paid b t + open_deposits (proposals (gov_book b)) t"
proof -
  have "gov_inv b" unfolding b_def by (intro gov_run.run_inv new_gov_inv [OF init] calls)
  then show ?thesis by (rule gov_invD)
qed

theorem governance_holds_open_deposits_witness:
  "open_deposits (proposals (gov_book (run_txs gov_step (new_gov_books ex_gov) ex_gov_calls))) ''MEX'' = ex_gov_fee"
  using governance_holds_open_deposits [OF ex_gov_init ex_gov_admissible, of "''MEX''"] by (simp add: ex_gov_run_sel)

text \<open>C36: A deposit comes back once. In every state of governance that a sequence of calls reaches, the
  proposer of a proposal that succeeded or was defeated, and anyone for one defeated with veto, can
  withdraw its deposit if nobody has: all of it goes to the proposer, or after a veto the share that
  was fixed with the proposal, with the rest burnt. A second withdrawal is refused.\<close>

theorem deposits_come_back_once:
  fixes i :: nat
  assumes init: "gov_init env empty_gov_storage e f q d p w factory collector token = Inr st"
    and calls: "list_all gov_admissible calls"
  defines "b \<equiv> run_txs gov_step (new_gov_books st) calls"
  defines "prop \<equiv> proposals (gov_book b) ! (i - 1)"
  assumes status: "get_proposal_status now (gov_book b) i = Inr s" "s \<in> {Succeeded, Defeated, DefeatedWithVeto}"
    and caller: "s = DefeatedWithVeto \<or> get_caller now = proposer prop"
  defines "fee \<equiv> fee_payment prop"
  defines "refund \<equiv> if s = DefeatedWithVeto then unat (proposal_withdraw_percentage prop) * amount fee div 10000 else amount fee"
  shows "if fee_withdrawn prop then gov_withdraw_deposit now (gov_book b) i = Inl FEE_ALREADY_WITHDRAWN
    else \<exists>st'. gov_withdraw_deposit now (gov_book b) i =
      Inr (st', esdt_non_zero_local_burn (token_identifier fee) (token_nonce fee) (amount fee - refund) @
        send_tokens_non_zero (proposer prop) (token_identifier fee) (token_nonce fee) refund) \<and>
      fee_withdrawn (proposals st' ! (i - 1))"
proof -
  have inv: "gov_inv b" unfolding b_def by (intro gov_run.run_inv new_gov_inv [OF init] calls)
  have ex: "proposal_exists (gov_book b) i" using status_exists [OF status(1)] status(2) by auto
  note ok = proposal_existsD [OF ex gov_invD(2) [OF inv]]
  have at: "vec_mapper_get (proposals (gov_book b)) i = Inr prop"
    "\<And>p. vec_mapper_set (proposals (gov_book b)) i p = Inr ((proposals (gov_book b))[i - 1 := p])"
    using ok(1,2) by (simp_all add: vec_mapper_Inr prop_def)
  have "unat (proposal_withdraw_percentage prop) \<le> 10000"
    using ok(3,4) by (simp add: proposal_ok_def prop_def FULL_PERCENTAGE_def)
  then have "unat (proposal_withdraw_percentage prop) * amount fee div 10000 \<le> amount fee"
    by (simp add: div_le_of_le_mult mult.commute)
  then show ?thesis
    using status caller at ok(1,2)
    by (auto simp: gov_withdraw_deposit_def withdraw_whole_deposit_def withdraw_part_of_deposit_def mark_withdrawn_def
        refund_def fee_def refund_proposal_fee_def esdt_non_zero_local_burn_def FULL_PERCENTAGE_def Let_def)
qed

theorem deposits_come_back_once_witness:
  "\<exists>st'. gov_withdraw_deposit (ex_gov_env 7 20000) (gov_book (run_txs gov_step (new_gov_books ex_gov) ex_gov_calls)) 1 =
     Inr (st', [DirectSend 7 [new_payment ''MEX'' 0 ex_gov_fee]])"
  using deposits_come_back_once [OF ex_gov_init ex_gov_admissible ex_gov_run_sel(7)]
  by (simp add: ex_gov_run_sel esdt_non_zero_local_burn_def send_tokens_non_zero_def ex_gov_fee_def)
    (blast)

end
