(* ===== verification/Router.thy ===== *)
theory Router
  imports PairContract LkmexTransfer
begin

text \<open>
  The router (\<open>dex/router/src\<close>): it deploys pairs and keeps the map of their addresses, passes on
  administration, swaps through several pairs in a row and lets users enable the swaps of their own
  pair. The other contracts are the router's surroundings: a value \<open>w\<close> and the answers to its calls.
\<close>

section \<open>Surroundings\<close>

text \<open>
  \<open>pair_at\<close> is the storage of a pair as the router reads it, \<open>call_pair\<close> a call of an endpoint with
  payments, which returns payments, \<open>deploy_pair\<close> the deployment from the template with the arguments
  of the pair's \<open>init\<close>, and \<open>read_attributes_of\<close> the attributes of tokens the router holds.
\<close>

record 'w router_env = blockchain +
  pair_at :: "'w \<Rightarrow> address \<Rightarrow> pair_storage"
  call_pair :: "'w \<Rightarrow> address \<Rightarrow> esdt_payment list \<Rightarrow> pair_call \<Rightarrow> error + (esdt_payment list \<times> 'w)"
  deploy_pair :: "'w \<Rightarrow> address \<Rightarrow> token_id \<times> token_id \<times> address \<times> address \<times> u64 \<times> u64 \<times> address \<times> address list \<Rightarrow>
    error + (address \<times> 'w)"
  read_attributes_of :: "token_id \<Rightarrow> u64 \<Rightarrow> locked_token_attributes option"

text \<open>What the router hands over to the protocol when a transaction ends with an asynchronous call.\<close>

datatype router_async =
    UpgradePair address address
  | IssueLpToken biguint string string address address
  | SetLocalRoles address token_id

section \<open>factory.rs and config.rs\<close>

definition TEMPORARY_OWNER_PERIOD_BLOCKS :: u64 where "TEMPORARY_OWNER_PERIOD_BLOCKS = 50"

record pair_tokens =
  tokens_first :: token_id
  tokens_second :: token_id

record pair_contract_metadata =
  metadata_first_token_id :: token_id
  metadata_second_token_id :: token_id
  metadata_address :: address

record enable_swap_by_user_config =
  config_locked_token_id :: token_id
  min_locked_token_value :: biguint
  min_lock_period_epochs :: u64

text \<open>The maps of the framework keep the order of insertion; an absent number or flag is 0 or false.\<close>

record router_storage =
  router_state :: bool
  pair_creation_enabled :: bool
  router_owner :: address
  pair_template_address :: "address option"
  temporary_owner_period :: u64
  pair_map :: "(pair_tokens \<times> address) list"
  pair_temporary_owner :: "(address \<times> address \<times> u64) list"
  enable_swap_by_user_config_of :: "token_id \<Rightarrow> enable_swap_by_user_config option"
  common_tokens_for_user_pairs :: "token_id list"

definition swapped_tokens :: "token_id \<Rightarrow> token_id \<Rightarrow> pair_tokens" where
  "swapped_tokens t u = \<lparr>tokens_first = u, tokens_second = t\<rparr>"

definition require_active :: "router_storage \<Rightarrow> error + 'a \<Rightarrow> error + 'a" where
  "require_active st k = require (router_state st) (SignalError ''Not active'') k"

definition check_is_pair_sc ::
  "('w, 'e) router_env_scheme \<Rightarrow> 'w \<Rightarrow> router_storage \<Rightarrow> address \<Rightarrow> error + 'a \<Rightarrow> error + 'a" where
  "check_is_pair_sc env w st a k =
     (let t = first_token_id (pair_at env w a);
          u = second_token_id (pair_at env w a);
          found = map_of (pair_map st) \<lparr>tokens_first = t, tokens_second = u\<rparr>;
          found = (if found = None then map_of (pair_map st) (swapped_tokens t u) else found) in
      require (found \<noteq> None) (SignalError ''Not a pair SC'')
     (require (found = Some a) (SignalError ''Not a pair SC'') k))"

definition router_only_owner :: "'e blockchain_scheme \<Rightarrow> error + 'a \<Rightarrow> error + 'a" where
  "router_only_owner env k = require (get_caller env = get_owner_address env) ONLY_OWNER k"

definition set_temporary_owner_period ::
  "'e blockchain_scheme \<Rightarrow> router_storage \<Rightarrow> u64 \<Rightarrow> error + router_storage" where
  "set_temporary_owner_period env st period_blocks =
     router_only_owner env (Inr (st\<lparr>temporary_owner_period := period_blocks\<rparr>))"

definition set_pair_template_address ::
  "'e blockchain_scheme \<Rightarrow> router_storage \<Rightarrow> address \<Rightarrow> error + router_storage" where
  "set_pair_template_address env st a = router_only_owner env (Inr (st\<lparr>pair_template_address := Some a\<rparr>))"

definition init_factory :: "router_storage \<Rightarrow> address option \<Rightarrow> router_storage" where
  "init_factory st template =
     (let st = (case template of Some a \<Rightarrow> st\<lparr>pair_template_address := Some a\<rparr> | None \<Rightarrow> st) in
      if temporary_owner_period st = 0
      then st\<lparr>temporary_owner_period := TEMPORARY_OWNER_PERIOD_BLOCKS\<rparr> else st)"

definition create_pair ::
  "('w, 'e) router_env_scheme \<Rightarrow> 'w \<Rightarrow> router_storage \<Rightarrow> token_id \<Rightarrow> token_id \<Rightarrow> address \<Rightarrow> u64 \<Rightarrow> u64 \<Rightarrow>
     address \<Rightarrow> address list \<Rightarrow> error + (address \<times> router_storage \<times> 'w)" where
  "create_pair env w st t u owner total_fee special_fee adder admins =
     (case pair_template_address st of
        None \<Rightarrow> Inl (SignalError ''pair contract template is empty'')
      | Some template \<Rightarrow>
          and_then (deploy_pair env w template
                      (t, u, get_sc_address env, owner, total_fee, special_fee, adder, admins)) (\<lambda>(new_address, w).
          Inr (new_address,
               st\<lparr>pair_map := AList.update \<lparr>tokens_first = t, tokens_second = u\<rparr> new_address (pair_map st),
                  pair_temporary_owner :=
                    AList.update new_address (get_caller env, get_block_nonce env) (pair_temporary_owner st)\<rparr>,
               w)))"

definition upgrade_pair :: "router_storage \<Rightarrow> address \<Rightarrow> error + router_async" where
  "upgrade_pair st a =
     (case pair_template_address st of
        None \<Rightarrow> Inl STORAGE_DECODE_ERROR | Some template \<Rightarrow> Inr (UpgradePair a template))"

definition get_all_pairs_addresses :: "router_storage \<Rightarrow> address list" where
  "get_all_pairs_addresses st = map snd (pair_map st)"

definition get_all_token_pairs :: "router_storage \<Rightarrow> pair_tokens list" where
  "get_all_token_pairs st = map fst (pair_map st)"

definition get_all_pair_contract_metadata :: "router_storage \<Rightarrow> pair_contract_metadata list" where
  "get_all_pair_contract_metadata st =
     map (\<lambda>(k, v). \<lparr>metadata_first_token_id = tokens_first k, metadata_second_token_id = tokens_second k,
                    metadata_address = v\<rparr>) (pair_map st)"

definition address_or_zero :: "address option \<Rightarrow> address" where
  "address_or_zero x = (case x of Some a \<Rightarrow> a | None \<Rightarrow> zero_address)"

definition get_pair :: "router_storage \<Rightarrow> token_id \<Rightarrow> token_id \<Rightarrow> address" where
  "get_pair st t u =
     (let a = address_or_zero (map_of (pair_map st) \<lparr>tokens_first = t, tokens_second = u\<rparr>) in
      if a = zero_address then address_or_zero (map_of (pair_map st) (swapped_tokens t u)) else a)"

definition get_pair_temporary_owner ::
  "'e blockchain_scheme \<Rightarrow> router_storage \<Rightarrow> address \<Rightarrow> address option \<times> router_storage" where
  "get_pair_temporary_owner env st a =
     (case map_of (pair_temporary_owner st) a of
        Some (temporary_owner, creation_block) \<Rightarrow>
          let expire_block = creation_block + temporary_owner_period st in
          if expire_block \<le> get_block_nonce env
          then (None, st\<lparr>pair_temporary_owner := AList.delete a (pair_temporary_owner st)\<rparr>)
          else (Some temporary_owner, st)
      | None \<Rightarrow> (None, st))"

definition clear_pair_temporary_owner_storage ::
  "'e blockchain_scheme \<Rightarrow> router_storage \<Rightarrow> error + (nat \<times> router_storage)" where
  "clear_pair_temporary_owner_storage env st =
     router_only_owner env (Inr (length (pair_temporary_owner st), st\<lparr>pair_temporary_owner := []\<rparr>))"

section \<open>contract.rs\<close>

definition DEFAULT_TOTAL_FEE_PERCENT :: u64 where "DEFAULT_TOTAL_FEE_PERCENT = 300"
definition DEFAULT_SPECIAL_FEE_PERCENT :: u64 where "DEFAULT_SPECIAL_FEE_PERCENT = 50"
definition MAX_TOTAL_FEE_PERCENT :: u64 where "MAX_TOTAL_FEE_PERCENT = 100000"
definition USER_DEFINED_TOTAL_FEE_PERCENT :: u64 where "USER_DEFINED_TOTAL_FEE_PERCENT = 1000"

definition router_init :: "'e blockchain_scheme \<Rightarrow> router_storage \<Rightarrow> address option \<Rightarrow> router_storage" where
  "router_init env st template =
     (let st = (if router_state st then st else st\<lparr>router_state := True\<rparr>);
          st = init_factory st template in
      st\<lparr>router_owner := get_caller env\<rparr>)"

definition router_upgrade :: "router_storage \<Rightarrow> router_storage" where
  "router_upgrade st = st\<lparr>router_state := False\<rparr>"

text \<open>A call of a pair whose result the router ignores.\<close>

definition tell_pair ::
  "('w, 'e) router_env_scheme \<Rightarrow> 'w \<Rightarrow> address \<Rightarrow> pair_call \<Rightarrow> error + 'w" where
  "tell_pair env w a call = and_then (call_pair env w a [] call) (\<lambda>(r, w). Inr w)"

definition router_pause ::
  "('w, 'e) router_env_scheme \<Rightarrow> 'w \<Rightarrow> router_storage \<Rightarrow> address \<Rightarrow> error + (router_storage \<times> 'w)" where
  "router_pause env w st a =
     router_only_owner env
    (if a = get_sc_address env then Inr (st\<lparr>router_state := False\<rparr>, w)
     else
       check_is_pair_sc env w st a
      (and_then (tell_pair env w a Pause) (\<lambda>w. Inr (st, w))))"

definition router_resume ::
  "('w, 'e) router_env_scheme \<Rightarrow> 'w \<Rightarrow> router_storage \<Rightarrow> address \<Rightarrow> error + (router_storage \<times> 'w)" where
  "router_resume env w st a =
     router_only_owner env
    (if a = get_sc_address env then Inr (st\<lparr>router_state := True\<rparr>, w)
     else
       check_is_pair_sc env w st a
      (and_then (tell_pair env w a Resume) (\<lambda>w. Inr (st, w))))"

definition require_distinct_tokens ::
  "'e blockchain_scheme \<Rightarrow> token_id \<Rightarrow> token_id \<Rightarrow> error + 'a \<Rightarrow> error + 'a" where
  "require_distinct_tokens env t u k =
     require (t \<noteq> u) (SignalError ''Identical tokens'')
    (require (is_valid_esdt_identifier env t) (SignalError ''First Token ID is not a valid esdt token ID'')
    (require (is_valid_esdt_identifier env u) (SignalError ''Second Token ID is not a valid esdt token ID'') k))"

definition require_creation_allowed ::
  "'e blockchain_scheme \<Rightarrow> router_storage \<Rightarrow> error + 'a \<Rightarrow> error + 'a" where
  "require_creation_allowed env st k =
     (if get_caller env \<noteq> router_owner st
      then require (pair_creation_enabled st) (SignalError ''Pair creation is disabled'') k else k)"

definition create_pair_endpoint ::
  "('w, 'e) router_env_scheme \<Rightarrow> 'w \<Rightarrow> router_storage \<Rightarrow> token_id \<Rightarrow> token_id \<Rightarrow> address \<Rightarrow>
     (u64 \<times> u64) option \<Rightarrow> address list \<Rightarrow> error + (address \<times> router_storage \<times> 'w)" where
  "create_pair_endpoint env w st t u adder fee_percents admins =
     require_active st
    (let owner = router_owner st; caller = get_caller env in
     require_creation_allowed env st
    (require_distinct_tokens env t u
    (require (get_pair st t u = zero_address) (SignalError ''Pair already exists'')
    (and_then
       (if caller = owner then
          (case fee_percents of
             Some (total_fee, special_fee) \<Rightarrow>
               require (special_fee \<le> total_fee \<and> total_fee < MAX_TOTAL_FEE_PERCENT)
                 (SignalError ''Bad percents'') (Inr (total_fee, special_fee))
           | None \<Rightarrow> Inl (SignalError ''Bad percents length''))
        else Inr (DEFAULT_TOTAL_FEE_PERCENT, DEFAULT_SPECIAL_FEE_PERCENT)) (\<lambda>(total_fee, special_fee).
     create_pair env w st t u owner total_fee special_fee adder (admins @ [caller]))))))"

definition upgrade_pair_endpoint ::
  "'e blockchain_scheme \<Rightarrow> router_storage \<Rightarrow> token_id \<Rightarrow> token_id \<Rightarrow> error + router_async" where
  "upgrade_pair_endpoint env st t u =
     router_only_owner env
    (require_active st
    (require_distinct_tokens env t u
    (let a = get_pair st t u in
     require (a \<noteq> zero_address) (SignalError ''Pair does not exists'') (upgrade_pair st a))))"

definition issue_lp_token ::
  "('w, 'e) router_env_scheme \<Rightarrow> 'w \<Rightarrow> router_storage \<Rightarrow> biguint \<Rightarrow> address \<Rightarrow> string \<Rightarrow> string \<Rightarrow>
     error + (router_storage \<times> router_async)" where
  "issue_lp_token env w st issue_cost a display_name ticker =
     require_active st
    (let caller = get_caller env in
     require_creation_allowed env st
    (check_is_pair_sc env w st a
    (let (result, st) = get_pair_temporary_owner env st a in
     require (case result of None \<Rightarrow> True | Some temporary_owner \<Rightarrow> caller = temporary_owner)
       (SignalError ''Temporary owner differs'')
    (require (\<not> is_valid_esdt_identifier env (lp_token_identifier (pair_at env w a)))
       (SignalError ''LP Token already issued'')
       (Inr (st, IssueLpToken issue_cost display_name ticker caller a))))))"

definition set_local_roles ::
  "('w, 'e) router_env_scheme \<Rightarrow> 'w \<Rightarrow> router_storage \<Rightarrow> address \<Rightarrow> error + router_async" where
  "set_local_roles env w st a =
     require_active st
    (check_is_pair_sc env w st a
    (let pair_token = lp_token_identifier (pair_at env w a) in
     require (is_valid_esdt_identifier env pair_token) (SignalError ''LP token not issued'')
       (Inr (SetLocalRoles a pair_token))))"

definition map_remove :: "pair_tokens \<Rightarrow> (pair_tokens \<times> address) list \<Rightarrow> address \<times> (pair_tokens \<times> address) list" where
  "map_remove k m = (address_or_zero (map_of m k), AList.delete k m)"

definition remove_pair ::
  "'e blockchain_scheme \<Rightarrow> router_storage \<Rightarrow> token_id \<Rightarrow> token_id \<Rightarrow> error + (address \<times> router_storage)" where
  "remove_pair env st t u =
     router_only_owner env
    (require_active st
    (require_distinct_tokens env t u
    (require (get_pair st t u \<noteq> zero_address) (SignalError ''Pair does not exists'')
    (let (a, m) = map_remove \<lparr>tokens_first = t, tokens_second = u\<rparr> (pair_map st);
         (a, m) = (if a = zero_address then map_remove (swapped_tokens t u) m else (a, m)) in
     Inr (a, st\<lparr>pair_map := m\<rparr>)))))"

definition router_set_fee_on ::
  "('w, 'e) router_env_scheme \<Rightarrow> 'w \<Rightarrow> router_storage \<Rightarrow> address \<Rightarrow> address \<Rightarrow> token_id \<Rightarrow> error + 'w" where
  "router_set_fee_on env w st a fee_to_address fee_token =
     router_only_owner env
    (require_active st
    (check_is_pair_sc env w st a (tell_pair env w a (SetFeeOn True fee_to_address fee_token))))"

definition router_set_fee_off ::
  "('w, 'e) router_env_scheme \<Rightarrow> 'w \<Rightarrow> router_storage \<Rightarrow> address \<Rightarrow> address \<Rightarrow> token_id \<Rightarrow> error + 'w" where
  "router_set_fee_off env w st a fee_to_address fee_token =
     router_only_owner env
    (require_active st
    (check_is_pair_sc env w st a (tell_pair env w a (SetFeeOn False fee_to_address fee_token))))"

text \<open>The callback of the issue: its result, and the token and amount that came with it.\<close>

definition lp_token_issue_callback ::
  "('w, 'e) router_env_scheme \<Rightarrow> 'w \<Rightarrow> router_storage \<Rightarrow> bool \<Rightarrow> egld_or_esdt \<Rightarrow> biguint \<Rightarrow> address \<Rightarrow> address \<Rightarrow>
     error + (router_storage \<times> 'w \<times> effect list)" where
  "lp_token_issue_callback env w st ok token returned_tokens caller a =
     (if ok then
        (case token of
           Egld \<Rightarrow> Inl UnwrapNone
         | Esdt t \<Rightarrow>
             and_then (tell_pair env w a (SetLpTokenIdentifier t)) (\<lambda>w.
             Inr (st\<lparr>pair_temporary_owner := AList.delete a (pair_temporary_owner st)\<rparr>, w, [])))
      else if token = Egld \<and> 0 < returned_tokens then Inr (st, w, [DirectEgld caller returned_tokens])
      else Inr (st, w, []))"

definition set_pair_creation_enabled ::
  "'e blockchain_scheme \<Rightarrow> router_storage \<Rightarrow> bool \<Rightarrow> error + router_storage" where
  "set_pair_creation_enabled env st enabled =
     router_only_owner env (Inr (st\<lparr>pair_creation_enabled := enabled\<rparr>))"

section \<open>multi_pair_swap.rs\<close>

type_synonym swap_operation = "address \<times> string \<times> token_id \<times> biguint"

definition actual_swap_fixed_input ::
  "('w, 'e) router_env_scheme \<Rightarrow> 'w \<Rightarrow> address \<Rightarrow> token_id \<Rightarrow> biguint \<Rightarrow> token_id \<Rightarrow> biguint \<Rightarrow>
     error + (esdt_payment \<times> 'w)" where
  "actual_swap_fixed_input env w a token_in amount_in token_out amount_out_min =
     and_then (call_pair env w a [new_payment token_in 0 amount_in] (SwapTokensFixedInput token_out amount_out_min))
       (\<lambda>(r, w). and_then (single_esdt r) (\<lambda>p. Inr (p, w)))"

definition actual_swap_fixed_output ::
  "('w, 'e) router_env_scheme \<Rightarrow> 'w \<Rightarrow> address \<Rightarrow> token_id \<Rightarrow> biguint \<Rightarrow> token_id \<Rightarrow> biguint \<Rightarrow>
     error + ((esdt_payment \<times> esdt_payment) \<times> 'w)" where
  "actual_swap_fixed_output env w a token_in amount_in_max token_out amount_out =
     and_then (call_pair env w a [new_payment token_in 0 amount_in_max] (SwapTokensFixedOutput token_out amount_out))
       (\<lambda>(r, w). and_then (multi_esdt2 r) (\<lambda>p. Inr (p, w)))"

fun multi_pair_swap_loop ::
  "('w, 'e) router_env_scheme \<Rightarrow> 'w \<Rightarrow> router_storage \<Rightarrow> esdt_payment list \<Rightarrow> esdt_payment \<Rightarrow> swap_operation list \<Rightarrow>
     error + (esdt_payment list \<times> esdt_payment \<times> 'w)" where
  "multi_pair_swap_loop env w st payments last_payment [] = Inr (payments, last_payment, w)"
| "multi_pair_swap_loop env w st payments last_payment ((a, endpoint, token_wanted, amount_wanted) # ops) =
     check_is_pair_sc env w st a
    (if endpoint = ''swapTokensFixedInput'' then
       and_then (actual_swap_fixed_input env w a (token_identifier last_payment) (amount last_payment)
                   token_wanted amount_wanted) (\<lambda>(last_payment, w).
       multi_pair_swap_loop env w st payments last_payment ops)
     else if endpoint = ''swapTokensFixedOutput'' then
       and_then (actual_swap_fixed_output env w a (token_identifier last_payment) (amount last_payment)
                   token_wanted amount_wanted) (\<lambda>((payment, residuum), w).
       multi_pair_swap_loop env w st (if 0 < amount residuum then payments @ [residuum] else payments) payment ops)
     else Inl (SignalError ''Invalid function to call''))"

definition multi_pair_swap ::
  "('w, 'e) router_env_scheme \<Rightarrow> 'w \<Rightarrow> router_storage \<Rightarrow> esdt_payment list \<Rightarrow> swap_operation list \<Rightarrow>
     error + (esdt_payment list \<times> 'w \<times> effect list)" where
  "multi_pair_swap env w st attached ops =
     require_active st
    (and_then (single_esdt attached) (\<lambda>p.
     require (token_nonce p = 0) (SignalError ''Invalid nonce. Should be zero'')
    (require (0 < amount p) (SignalError ''Invalid amount. Should not be zero'')
    (require (ops \<noteq> []) (SignalError ''Invalid swap operations chain. Should not be empty'')
    (and_then (multi_pair_swap_loop env w st [] (new_payment (token_identifier p) (token_nonce p) (amount p)) ops)
       (\<lambda>(payments, last_payment, w).
     let payments = payments @ [last_payment] in
     Inr (payments, w, [DirectSend (get_caller env) payments])))))))"

section \<open>enable_swap_by_user.rs\<close>

record safe_price_result =
  result_first_token_id :: token_id
  result_second_token_id :: token_id
  common_token_id :: token_id
  safe_price_in_common_token :: biguint

definition config_enable_by_user_parameters ::
  "'e blockchain_scheme \<Rightarrow> router_storage \<Rightarrow> token_id \<Rightarrow> token_id \<Rightarrow> biguint \<Rightarrow> u64 \<Rightarrow> error + router_storage" where
  "config_enable_by_user_parameters env st common_token locked_token min_value min_epochs =
     router_only_owner env
    (require (is_valid_esdt_identifier env common_token) (SignalError ''Invalid locked token ID'')
    (require (is_valid_esdt_identifier env locked_token) (SignalError ''Invalid locked token ID'')
    (require (common_token \<in> set (common_tokens_for_user_pairs st)) (SignalError ''Common token not whitelisted'')
      (Inr (st\<lparr>enable_swap_by_user_config_of := (enable_swap_by_user_config_of st)(common_token \<mapsto>
         \<lparr>config_locked_token_id = locked_token, min_locked_token_value = min_value,
          min_lock_period_epochs = min_epochs\<rparr>)\<rparr>)))))"

fun add_common_tokens_loop ::
  "'e blockchain_scheme \<Rightarrow> token_id list \<Rightarrow> token_id list \<Rightarrow> error + token_id list" where
  "add_common_tokens_loop env whitelisted [] = Inr whitelisted"
| "add_common_tokens_loop env whitelisted (t # ts) =
     require (is_valid_esdt_identifier env t) (SignalError ''Invalid token ID'')
       (add_common_tokens_loop env (unordered_insert whitelisted t) ts)"

definition add_common_tokens_for_user_pairs ::
  "'e blockchain_scheme \<Rightarrow> router_storage \<Rightarrow> token_id list \<Rightarrow> error + router_storage" where
  "add_common_tokens_for_user_pairs env st tokens =
     router_only_owner env
    (and_then (add_common_tokens_loop env (common_tokens_for_user_pairs st) tokens) (\<lambda>ts.
     Inr (st\<lparr>common_tokens_for_user_pairs := ts\<rparr>)))"

definition remove_common_tokens_for_user_pairs ::
  "'e blockchain_scheme \<Rightarrow> router_storage \<Rightarrow> token_id list \<Rightarrow> error + router_storage" where
  "remove_common_tokens_for_user_pairs env st tokens =
     router_only_owner env
    (Inr (st\<lparr>common_tokens_for_user_pairs :=
       foldl unordered_swap_remove (common_tokens_for_user_pairs st) tokens\<rparr>))"

definition try_get_config :: "router_storage \<Rightarrow> token_id \<Rightarrow> error + enable_swap_by_user_config" where
  "try_get_config st t =
     (case enable_swap_by_user_config_of st t of
        None \<Rightarrow> Inl (SignalError ''No config set'') | Some c \<Rightarrow> Inr c)"

definition get_pair_lp_token_id ::
  "('w, 'e) router_env_scheme \<Rightarrow> 'w \<Rightarrow> address \<Rightarrow> error + token_id" where
  "get_pair_lp_token_id env w a =
     (let lp_token = lp_token_identifier (pair_at env w a) in
      require (is_valid_esdt_identifier env lp_token) (SignalError ''Invalid LP token received from pair'')
        (Inr lp_token))"

definition get_lp_token_value ::
  "('w, 'e) router_env_scheme \<Rightarrow> 'w \<Rightarrow> router_storage \<Rightarrow> address \<Rightarrow> biguint \<Rightarrow> error + safe_price_result" where
  "get_lp_token_value env w st a lp_token_amount =
     and_then (get_tokens_for_given_position (pair_at env w a) lp_token_amount) (\<lambda>(p, q).
     let r = \<lparr>result_first_token_id = token_identifier p, result_second_token_id = token_identifier q,
              common_token_id = token_identifier p, safe_price_in_common_token = 0\<rparr>;
         allowed = set (common_tokens_for_user_pairs st) in
     if result_first_token_id r \<in> allowed then Inr (r\<lparr>safe_price_in_common_token := amount p\<rparr>)
     else if token_identifier q \<in> allowed then
       Inr (r\<lparr>common_token_id := token_identifier q, safe_price_in_common_token := amount q\<rparr>)
     else Inl (SignalError ''Invalid tokens in Pair contract''))"

definition require_state_active_no_swaps ::
  "('w, 'e) router_env_scheme \<Rightarrow> 'w \<Rightarrow> address \<Rightarrow> error + 'a \<Rightarrow> error + 'a" where
  "require_state_active_no_swaps env w a k =
     require (pair_state (pair_at env w a) = PartialActive) (SignalError ''Pair not in ActiveNoSwaps state'') k"

definition require_caller_initial_liquidity_adder ::
  "('w, 'e) router_env_scheme \<Rightarrow> 'w \<Rightarrow> address \<Rightarrow> address \<Rightarrow> error + 'a \<Rightarrow> error + 'a" where
  "require_caller_initial_liquidity_adder env w a caller k =
     (case initial_liquidity_adder (pair_at env w a) of
        Some adder \<Rightarrow> require (caller = adder) (SignalError ''Caller is not the initial liq adder'') k
      | None \<Rightarrow> Inl (SignalError ''No initial liq adder was set for pair''))"

definition router_set_fee_percents :: "('w, 'e) router_env_scheme \<Rightarrow> 'w \<Rightarrow> address \<Rightarrow> error + 'w" where
  "router_set_fee_percents env w a =
     tell_pair env w a (SetFeePercents USER_DEFINED_TOTAL_FEE_PERCENT DEFAULT_SPECIAL_FEE_PERCENT)"

definition pair_resume :: "('w, 'e) router_env_scheme \<Rightarrow> 'w \<Rightarrow> address \<Rightarrow> error + 'w" where
  "pair_resume env w a = tell_pair env w a Resume"

definition set_swap_enabled_by_user ::
  "('w, 'e) router_env_scheme \<Rightarrow> 'w \<Rightarrow> router_storage \<Rightarrow> esdt_payment list \<Rightarrow> address \<Rightarrow>
     error + ('w \<times> effect list)" where
  "set_swap_enabled_by_user env w st attached a =
     require_active st
    (check_is_pair_sc env w st a
    (require_state_active_no_swaps env w a
    (and_then (single_esdt attached) (\<lambda>payment.
    (case read_attributes_of env (token_identifier payment) (token_nonce payment) of
       None \<Rightarrow> Inl STORAGE_DECODE_ERROR
     | Some attrs \<Rightarrow>
         and_then (get_pair_lp_token_id env w a) (\<lambda>lp_token.
         require (original_token_id attrs = Esdt lp_token) (SignalError ''Invalid locked LP token'')
        (and_then (get_lp_token_value env w st a (amount payment)) (\<lambda>value_result.
         and_then (try_get_config st (common_token_id value_result)) (\<lambda>cfg.
         require (token_identifier payment = config_locked_token_id cfg) (SignalError ''Invalid locked token'')
        (require (min_locked_token_value cfg \<le> safe_price_in_common_token value_result)
           (SignalError ''Not enough value locked'')
        (let current_epoch = get_block_epoch env;
             unlock = locked_token_attributes.unlock_epoch attrs;
             locked_epochs = (if current_epoch < unlock then unlock - current_epoch else 0) in
         require (min_lock_period_epochs cfg \<le> locked_epochs) (SignalError ''Token not locked for long enough'')
        (let caller = get_caller env in
         require_caller_initial_liquidity_adder env w a caller
        (and_then (router_set_fee_percents env w a) (\<lambda>w.
         and_then (pair_resume env w a) (\<lambda>w.
         Inr (w, [DirectSend caller [new_payment (token_identifier payment) (token_nonce payment) (amount payment)]]))))))))))))))))"

end
