(* ===== verification/RouterChain.thy ===== *)
theory RouterChain
  imports Router
begin

text \<open>
  The router together with the pairs it deploys: its surroundings are a map from addresses to the
  storages of pair contracts, which answer a call by running the pair's own endpoint. The runs mix
  calls of the router with calls of the pairs by anyone.
\<close>

section \<open>Pairs as surroundings\<close>

type_synonym chain = "address \<Rightarrow> pair_storage option"

fun pair_reply ::
  "pair_env \<Rightarrow> esdt_payment list \<Rightarrow> pair_call \<Rightarrow> pair_storage \<Rightarrow> error + (esdt_payment list \<times> pair_storage)" where
  "pair_reply env ps (SwapTokensFixedInput t a) s =
     and_then (swap_tokens_fixed_input env ps t a s) (\<lambda>(r, s, es). Inr ([r], s))"
| "pair_reply env ps (SwapTokensFixedOutput t a) s =
     and_then (swap_tokens_fixed_output env ps t a s) (\<lambda>(r, s, es). Inr ([fst r, snd r], s))"
| "pair_reply env ps call s = and_then (exec_call env ps call s) (\<lambda>(s, es). Inr ([], s))"

text \<open>The router calls a pair in the same block, as the pair's caller and owner.\<close>

definition as_pair :: "pair_env \<Rightarrow> address \<Rightarrow> pair_env" where
  "as_pair env a = env\<lparr>get_caller := get_sc_address env, get_sc_address := a, get_owner_address := get_sc_address env\<rparr>"

definition chain_call_pair ::
  "pair_env \<Rightarrow> chain \<Rightarrow> address \<Rightarrow> esdt_payment list \<Rightarrow> pair_call \<Rightarrow> error + (esdt_payment list \<times> chain)" where
  "chain_call_pair env w a ps call =
     (case w a of
        None \<Rightarrow> Inl (CallFailed ''no contract'')
      | Some s \<Rightarrow> and_then (pair_reply (as_pair env a) ps call s) (\<lambda>(r, s). Inr (r, w(a \<mapsto> s))))"

definition chain_deploy_pair ::
  "pair_env \<Rightarrow> address \<Rightarrow> chain \<Rightarrow>
     token_id \<times> token_id \<times> address \<times> address \<times> u64 \<times> u64 \<times> address \<times> address list \<Rightarrow> error + (address \<times> chain)" where
  "chain_deploy_pair env new_address w args =
     (let (t, u, router, owner, total_fee, special_fee, adder, admins) = args in
      require (new_address \<noteq> zero_address \<and> w new_address = None) (CallFailed ''address in use'')
     (and_then (pair_init (as_pair env new_address) t u router owner total_fee special_fee adder admins
                  empty_pair_storage) (\<lambda>s.
      Inr (new_address, w(new_address \<mapsto> s)))))"

record chain_context =
  chain_pair_env :: pair_env
  next_address :: address
  lp_attributes :: "token_id \<Rightarrow> u64 \<Rightarrow> locked_token_attributes option"

definition chain_env :: "chain_context \<Rightarrow> chain router_env" where
  "chain_env cx = blockchain.extend (blockchain.truncate (chain_pair_env cx))
     \<lparr>pair_at = (\<lambda>w a. case w a of None \<Rightarrow> empty_pair_storage | Some s \<Rightarrow> s),
      call_pair = chain_call_pair (chain_pair_env cx),
      deploy_pair = (\<lambda>w template. chain_deploy_pair (chain_pair_env cx) (next_address cx) w),
      read_attributes_of = lp_attributes cx\<rparr>"

section \<open>Runs\<close>

text \<open>
  \<open>RouterIssued\<close> is the protocol's callback, and \<open>PairTransaction\<close> a call of a pair that does not come
  from the router.
\<close>

datatype chain_call =
    RouterPause address
  | RouterResume address
  | RouterCreatePair token_id token_id address "(u64 \<times> u64) option" "address list"
  | RouterUpgradePair token_id token_id
  | RouterIssue biguint address string string
  | RouterLocalRoles address
  | RouterRemovePair token_id token_id
  | RouterFeeOn address address token_id
  | RouterFeeOff address address token_id
  | RouterIssued bool egld_or_esdt biguint address address
  | RouterCreationEnabled bool
  | RouterOwnerPeriod u64
  | RouterTemplate address
  | RouterClearOwners
  | RouterMultiSwap "esdt_payment list" "swap_operation list"
  | RouterConfigEnable token_id token_id biguint u64
  | RouterAddCommon "token_id list"
  | RouterRemoveCommon "token_id list"
  | RouterEnableSwap "esdt_payment list" address
  | RouterUpgrade
  | PairTransaction address "esdt_payment list" pair_call

fun chain_exec ::
  "chain_context \<Rightarrow> router_storage \<Rightarrow> chain \<Rightarrow> chain_call \<Rightarrow> error + (router_storage \<times> chain)" where
  "chain_exec cx st w (RouterPause a) = router_pause (chain_env cx) w st a"
| "chain_exec cx st w (RouterResume a) = router_resume (chain_env cx) w st a"
| "chain_exec cx st w (RouterCreatePair t u adder fees admins) =
     and_then (create_pair_endpoint (chain_env cx) w st t u adder fees admins) (\<lambda>(a, r). Inr r)"
| "chain_exec cx st w (RouterUpgradePair t u) =
     and_then (upgrade_pair_endpoint (chain_env cx) st t u) (\<lambda>r. Inr (st, w))"
| "chain_exec cx st w (RouterIssue cost a name ticker) =
     and_then (issue_lp_token (chain_env cx) w st cost a name ticker) (\<lambda>(st, r). Inr (st, w))"
| "chain_exec cx st w (RouterLocalRoles a) = and_then (set_local_roles (chain_env cx) w st a) (\<lambda>r. Inr (st, w))"
| "chain_exec cx st w (RouterRemovePair t u) =
     and_then (remove_pair (chain_env cx) st t u) (\<lambda>(a, st). Inr (st, w))"
| "chain_exec cx st w (RouterFeeOn a b t) =
     and_then (router_set_fee_on (chain_env cx) w st a b t) (\<lambda>w. Inr (st, w))"
| "chain_exec cx st w (RouterFeeOff a b t) =
     and_then (router_set_fee_off (chain_env cx) w st a b t) (\<lambda>w. Inr (st, w))"
| "chain_exec cx st w (RouterIssued ok token returned caller a) =
     and_then (lp_token_issue_callback (chain_env cx) w st ok token returned caller a) (\<lambda>(st, w, es). Inr (st, w))"
| "chain_exec cx st w (RouterCreationEnabled enabled) =
     and_then (set_pair_creation_enabled (chain_env cx) st enabled) (\<lambda>st. Inr (st, w))"
| "chain_exec cx st w (RouterOwnerPeriod n) =
     and_then (set_temporary_owner_period (chain_env cx) st n) (\<lambda>st. Inr (st, w))"
| "chain_exec cx st w (RouterTemplate a) =
     and_then (set_pair_template_address (chain_env cx) st a) (\<lambda>st. Inr (st, w))"
| "chain_exec cx st w RouterClearOwners =
     and_then (clear_pair_temporary_owner_storage (chain_env cx) st) (\<lambda>(n, st). Inr (st, w))"
| "chain_exec cx st w (RouterMultiSwap ps ops) =
     and_then (multi_pair_swap (chain_env cx) w st ps ops) (\<lambda>(r, w, es). Inr (st, w))"
| "chain_exec cx st w (RouterConfigEnable t u v n) =
     and_then (config_enable_by_user_parameters (chain_env cx) st t u v n) (\<lambda>st. Inr (st, w))"
| "chain_exec cx st w (RouterAddCommon ts) =
     and_then (add_common_tokens_for_user_pairs (chain_env cx) st ts) (\<lambda>st. Inr (st, w))"
| "chain_exec cx st w (RouterRemoveCommon ts) =
     and_then (remove_common_tokens_for_user_pairs (chain_env cx) st ts) (\<lambda>st. Inr (st, w))"
| "chain_exec cx st w (RouterEnableSwap ps a) =
     and_then (set_swap_enabled_by_user (chain_env cx) w st ps a) (\<lambda>(w, es). Inr (st, w))"
| "chain_exec cx st w RouterUpgrade = Inr (router_upgrade st, w)"
| "chain_exec cx st w (PairTransaction a ps call) =
     (case w a of
        None \<Rightarrow> Inl (CallFailed ''no contract'')
      | Some s \<Rightarrow> and_then (exec_call (chain_pair_env cx) ps call s) (\<lambda>(s, es). Inr (st, w(a \<mapsto> s))))"

record chain_state =
  chain_router :: router_storage
  chain_pairs :: chain

definition chain_step :: "chain_state \<Rightarrow> chain_context \<times> chain_call \<Rightarrow> error + chain_state" where
  "chain_step b x =
     (let (cx, call) = x in
      and_then (chain_exec cx (chain_router b) (chain_pairs b) call) (\<lambda>(st, w).
      Inr \<lparr>chain_router = st, chain_pairs = w\<rparr>))"

definition chain_sound :: "chain \<Rightarrow> bool" where
  "chain_sound w \<longleftrightarrow> (\<forall>a s. w a = Some s \<longrightarrow> pair_inv s)"

definition pair_map_ok :: "chain \<Rightarrow> (pair_tokens \<times> address) list \<Rightarrow> bool" where
  "pair_map_ok w m \<longleftrightarrow> distinct (map fst m) \<and>
     (\<forall>k a. (k, a) \<in> set m \<longrightarrow> a \<noteq> zero_address \<and>
        swapped_tokens (tokens_first k) (tokens_second k) \<notin> set (map fst m) \<and>
        (\<exists>s. w a = Some s \<and> first_token_id s = tokens_first k \<and> second_token_id s = tokens_second k))"

definition chain_inv :: "chain_state \<Rightarrow> bool" where
  "chain_inv b \<longleftrightarrow> chain_sound (chain_pairs b) \<and> pair_map_ok (chain_pairs b) (pair_map (chain_router b))"

text \<open>What every call keeps: the pairs are the same, with the same tokens and no less value for each share.\<close>

definition pair_grows :: "pair_storage \<Rightarrow> pair_storage \<Rightarrow> bool" where
  "pair_grows s s' \<longleftrightarrow> pool_le (storage_cache_new s) (storage_cache_new s') \<and>
     first_token_id s' = first_token_id s \<and> second_token_id s' = second_token_id s"

definition chain_grows :: "chain \<Rightarrow> chain \<Rightarrow> bool" where
  "chain_grows w w' \<longleftrightarrow> (\<forall>a s. w a = Some s \<longrightarrow> (\<exists>s'. w' a = Some s' \<and> pair_grows s s'))"

definition chain_le :: "chain_state \<Rightarrow> chain_state \<Rightarrow> bool" where
  "chain_le b b' \<longleftrightarrow> chain_grows (chain_pairs b) (chain_pairs b')"

end
