(* ===== verification/RouterFacts.thy ===== *)
theory RouterFacts
  imports RouterChain
begin

text \<open>Every call of the router or of a pair keeps the map of pairs and the value of the pairs' shares.\<close>

section \<open>The surroundings\<close>

lemma chain_env_sel [simp]:
  "get_caller (chain_env cx) = get_caller (chain_pair_env cx)"
  "get_sc_address (chain_env cx) = get_sc_address (chain_pair_env cx)"
  "get_owner_address (chain_env cx) = get_owner_address (chain_pair_env cx)"
  "get_block_nonce (chain_env cx) = get_block_nonce (chain_pair_env cx)"
  "get_block_epoch (chain_env cx) = get_block_epoch (chain_pair_env cx)"
  "is_valid_esdt_identifier (chain_env cx) = is_valid_esdt_identifier (chain_pair_env cx)"
  "pair_at (chain_env cx) w a = (case w a of None \<Rightarrow> empty_pair_storage | Some s \<Rightarrow> s)"
  "call_pair (chain_env cx) = chain_call_pair (chain_pair_env cx)"
  "deploy_pair (chain_env cx) w template args = chain_deploy_pair (chain_pair_env cx) (next_address cx) w args"
  "read_attributes_of (chain_env cx) = lp_attributes cx"
  by (simp_all add: chain_env_def blockchain.defs)

lemma as_pair_sel [simp]:
  "call_lock_tokens (as_pair env a) = call_lock_tokens env" "get_caller (as_pair env a) = get_sc_address env"
  "is_valid_esdt_identifier (as_pair env a) = is_valid_esdt_identifier env"
  by (simp_all add: as_pair_def)

lemma pair_reply_exec:
  "pair_reply env ps call s = Inr (r, s') \<Longrightarrow> \<exists>es. exec_call env ps call s = Inr (s', es)"
  by (cases call) (auto simp: res_simps)

section \<open>Pairs\<close>

lemma pair_grows_refl [simp]: "pair_grows s s"
  by (simp add: pair_grows_def)

lemma pair_grows_trans: "pair_inv s \<Longrightarrow> pair_grows s t \<Longrightarrow> pair_grows t u \<Longrightarrow> pair_grows s u"
  by (auto simp: pair_grows_def pair_inv_def intro: pool_le_trans)

lemma chain_grows_refl [simp]: "chain_grows w w"
  by (simp add: chain_grows_def)

lemma chain_grows_trans:
  assumes "chain_sound w" "chain_grows w w'" "chain_grows w' w''"
  shows "chain_grows w w''"
  unfolding chain_grows_def
proof (intro allI impI)
  fix a s assume s: "w a = Some s"
  then obtain t where t: "w' a = Some t" "pair_grows s t" using assms(2) unfolding chain_grows_def by blast
  then obtain u where u: "w'' a = Some u" "pair_grows t u" using assms(3) unfolding chain_grows_def by blast
  have "pair_inv s" using assms(1) s by (simp add: chain_sound_def)
  from pair_grows_trans [OF this t(2) u(2)] show "\<exists>s'. w'' a = Some s' \<and> pair_grows s s'" using u(1) by blast
qed

lemma exec_call_grows:
  assumes "pair_inv s" "exec_call env ps call s = Inr (s', es)"
  shows "pair_inv s'" "pair_grows s s'"
  using exec_call_step [OF assms] by (simp_all add: pair_grows_def)

lemma chain_upd_ok:
  assumes "chain_sound w" "w a = Some s" "pair_inv s'" "pair_grows s s'"
  shows "chain_sound (w(a \<mapsto> s')) \<and> chain_grows w (w(a \<mapsto> s'))"
  using assms by (auto simp: chain_sound_def chain_grows_def)

lemma chain_call_pair_ok:
  assumes "chain_sound w" "chain_call_pair env w a ps call = Inr (r, w')"
  shows "chain_sound w' \<and> chain_grows w w'"
proof -
  obtain s s' where s: "w a = Some s" and run: "pair_reply (as_pair env a) ps call s = Inr (r, s')" and w': "w' = w(a \<mapsto> s')"
    using assms(2) by (auto simp: chain_call_pair_def res_simps split: option.splits)
  obtain es where "exec_call (as_pair env a) ps call s = Inr (s', es)" using pair_reply_exec [OF run] by blast
  moreover have "pair_inv s" using assms(1) s by (simp add: chain_sound_def)
  ultimately show ?thesis
    unfolding w' using exec_call_grows by (intro chain_upd_ok [OF assms(1) s]) auto
qed

lemma tell_pair_ok:
  assumes "tell_pair (chain_env cx) w a call = Inr w'" "chain_sound w" 
  shows "chain_sound w' \<and> chain_grows w w'"
  using assms chain_call_pair_ok by (auto simp: tell_pair_def res_simps)

lemma chain_deploy_ok:
  assumes "chain_deploy_pair env new w (t, u, router, owner, tf, sf, adder, admins) = Inr (a, w')"
    and "chain_sound w"
  shows "chain_sound w' \<and> chain_grows w w' \<and> a \<noteq> zero_address \<and>
    (\<exists>s. w' a = Some s \<and> first_token_id s = t \<and> second_token_id s = u)"
proof -
  obtain s where a: "a = new" "new \<noteq> zero_address" "w new = None" and w': "w' = w(new \<mapsto> s)"
    and s: "pair_init (as_pair env new) t u router owner tf sf adder admins empty_pair_storage = Inr s"
    using assms(1) by (auto simp: chain_deploy_pair_def res_simps)
  have "pair_inv s" by (rule pair_init_inv(1) [OF s])
  then show ?thesis
    using assms(2) a pair_init_inv(2,3) [OF s] by (auto simp: w' chain_sound_def chain_grows_def)
qed

section \<open>The map of pairs\<close>

lemma pair_map_grows:
  assumes "pair_map_ok w m" "chain_grows w w'"
  shows "pair_map_ok w' m"
proof -
  have "\<exists>s. w' a = Some s \<and> first_token_id s = tokens_first k \<and> second_token_id s = tokens_second k"
    if mem: "(k, a) \<in> set m" for k a
  proof -
    obtain s where "w a = Some s" "first_token_id s = tokens_first k" "second_token_id s = tokens_second k"
      using assms(1) mem unfolding pair_map_ok_def by blast
    then show ?thesis using assms(2) unfolding chain_grows_def pair_grows_def by fastforce
  qed
  then show ?thesis using assms(1) unfolding pair_map_ok_def by blast
qed

lemma delete_filter: "AList.delete k m = filter (\<lambda>x. fst x \<noteq> k) m"
  by (auto simp: AList.delete_eq intro: filter_cong)

lemma pair_map_delete: "pair_map_ok w m \<Longrightarrow> pair_map_ok w (AList.delete k m)"
  unfolding pair_map_ok_def by (auto simp: delete_filter distinct_map_filter)

lemma update_new: "k \<notin> set (map fst m) \<Longrightarrow> AList.update k a m = m @ [(k, a)]"
  by (induction m) auto

lemma swapped_twice [simp]:
  "swapped_tokens (tokens_first (swapped_tokens t u)) (tokens_second (swapped_tokens t u)) = \<lparr>tokens_first = t, tokens_second = u\<rparr>"
  by (simp add: swapped_tokens_def)

lemma pair_map_insert:
  assumes ok: "pair_map_ok w m" and tu: "t \<noteq> u"
    and fresh: "\<lparr>tokens_first = t, tokens_second = u\<rparr> \<notin> set (map fst m)" "swapped_tokens t u \<notin> set (map fst m)"
    and a: "a \<noteq> zero_address" "\<exists>s. w a = Some s \<and> first_token_id s = t \<and> second_token_id s = u"
  shows "pair_map_ok w (AList.update \<lparr>tokens_first = t, tokens_second = u\<rparr> a m)"
proof -
  let ?k = "\<lparr>tokens_first = t, tokens_second = u\<rparr>"
  have "swapped_tokens (tokens_first k) (tokens_second k) \<noteq> ?k" if "k \<in> set (map fst m)" for k
  proof
    assume "swapped_tokens (tokens_first k) (tokens_second k) = ?k"
    then have "k = swapped_tokens t u" by (cases k) (simp add: swapped_tokens_def)
    then show False using that fresh(2) by simp
  qed
  moreover have "swapped_tokens t u \<noteq> ?k" using tu by (simp add: swapped_tokens_def)
  ultimately show ?thesis
    using ok fresh a unfolding update_new [OF fresh(1)] pair_map_ok_def
    by (auto simp: image_iff) (metis fst_conv)+
qed

lemma map_of_map_ok: "pair_map_ok w m \<Longrightarrow> map_of m k = Some a \<longleftrightarrow> (k, a) \<in> set m"
  by (simp add: pair_map_ok_def)

lemma get_pair_zero:
  assumes "pair_map_ok w (pair_map st)"
  shows "get_pair st t u = zero_address \<longleftrightarrow>
    \<lparr>tokens_first = t, tokens_second = u\<rparr> \<notin> set (map fst (pair_map st)) \<and> swapped_tokens t u \<notin> set (map fst (pair_map st))"
proof -
  have "address_or_zero (map_of (pair_map st) k) = zero_address \<longleftrightarrow> k \<notin> set (map fst (pair_map st))" for k
  proof (cases "map_of (pair_map st) k")
    case None
    then have "k \<notin> set (map fst (pair_map st))" by (simp add: map_of_eq_None_iff)
    then show ?thesis using None by (simp add: address_or_zero_def)
  next
    case (Some a)
    then have "(k, a) \<in> set (pair_map st)" using assms by (simp add: map_of_map_ok)
    then show ?thesis using Some assms by (force simp: address_or_zero_def pair_map_ok_def)
  qed
  then show ?thesis by (simp add: get_pair_def Let_def)
qed

text \<open>\<open>check_is_pair_sc\<close> recognises exactly the addresses of the map.\<close>

lemma check_is_pair_sc_iff:
  assumes ok: "pair_map_ok w (pair_map st)"
  shows "check_is_pair_sc (chain_env cx) w st a k =
    (if a \<in> set (get_all_pairs_addresses st) then k else Inl (SignalError ''Not a pair SC''))"
proof (cases "a \<in> set (get_all_pairs_addresses st)")
  case True
  then obtain x where x: "(x, a) \<in> set (pair_map st)" by (auto simp: get_all_pairs_addresses_def)
  then obtain s where "w a = Some s" "first_token_id s = tokens_first x" "second_token_id s = tokens_second x"
    using ok unfolding pair_map_ok_def by blast
  moreover have "map_of (pair_map st) x = Some a" using x ok by (simp add: map_of_map_ok)
  ultimately show ?thesis using True by (cases x) (simp add: check_is_pair_sc_def Let_def)
next
  case False
  have "map_of (pair_map st) x \<noteq> Some a" for x
    using False by (auto simp: get_all_pairs_addresses_def dest!: map_of_SomeD) (metis image_eqI snd_conv)
  then show ?thesis using False by (auto simp: check_is_pair_sc_def Let_def require_def)
qed

section \<open>Every call\<close>

lemma check_is_pair_sc_Inr: "check_is_pair_sc env w st a k = Inr r \<Longrightarrow> k = Inr r"
  by (auto simp: check_is_pair_sc_def Let_def res_simps)

lemma check_is_pair_sc_listed:
  assumes "check_is_pair_sc env w st a k = Inr r"
  shows "a \<in> set (get_all_pairs_addresses st)"
proof -
  obtain x where "map_of (pair_map st) x = Some a"
    using assms by (auto simp: check_is_pair_sc_def Let_def res_simps split: if_splits)
  then show ?thesis by (force simp: get_all_pairs_addresses_def dest: map_of_SomeD)
qed

lemma multi_swap_loop_ok:
  assumes "multi_pair_swap_loop (chain_env cx) w st ps p ops = Inr (ps', p', w')"
    and "chain_sound w" 
  shows "chain_sound w' \<and> chain_grows w w'"
  using assms
proof (induction ops arbitrary: w ps p)
  case Nil
  then show ?case by simp
next
  case (Cons x ops)
  obtain a f t n where x: "x = (a, f, t, n)" by (cases x)
  obtain w1 ps1 p1 c r where call: "chain_call_pair (chain_pair_env cx) w a [new_payment (token_identifier p) 0 (amount p)] c = Inr (r, w1)"
    and rest: "multi_pair_swap_loop (chain_env cx) w1 st ps1 p1 ops = Inr (ps', p', w')"
    using check_is_pair_sc_Inr [OF Cons.prems(1) [unfolded x multi_pair_swap_loop.simps]]
    by (auto simp: actual_swap_fixed_input_def actual_swap_fixed_output_def res_simps split: if_splits)
  note w1 = chain_call_pair_ok [OF Cons.prems(2) call]
  then show ?case
    using Cons.IH [OF rest] chain_grows_trans [OF Cons.prems(2), of w1 w'] by blast
qed

lemma two_calls_ok:
  assumes "tell_pair (chain_env cx) w a c = Inr w1" "tell_pair (chain_env cx) w1 a d = Inr w2"
    and "chain_sound w" 
  shows "chain_sound w2 \<and> chain_grows w w2"
  using tell_pair_ok [OF assms(1,3)] tell_pair_ok [OF assms(2)] chain_grows_trans [OF assms(3)] by blast

lemma set_swap_enabled_Inr:
  assumes "set_swap_enabled_by_user env w st attached a = Inr (w', es)"
  obtains p x lp value_of cfg w1 where "a \<in> set (get_all_pairs_addresses st)" "router_state st" "pair_state (pair_at env w a) = PartialActive" "attached = [p]"
    "read_attributes_of env (token_identifier p) (token_nonce p) = Some x"
    "lp = lp_token_identifier (pair_at env w a)" "original_token_id x = Esdt lp"
    "get_lp_token_value env w st a (amount p) = Inr value_of" "try_get_config st (common_token_id value_of) = Inr cfg"
    "token_identifier p = config_locked_token_id cfg" "min_locked_token_value cfg \<le> safe_price_in_common_token value_of"
    "min_lock_period_epochs cfg \<le> (if get_block_epoch env < locked_token_attributes.unlock_epoch x
       then locked_token_attributes.unlock_epoch x - get_block_epoch env else 0)"
    "initial_liquidity_adder (pair_at env w a) = Some (get_caller env)"
    "router_set_fee_percents env w a = Inr w1" "pair_resume env w1 a = Inr w'" "es = [DirectSend (get_caller env) [p]]"
proof -
  have run: "require_state_active_no_swaps env w a (and_then (single_esdt attached) (\<lambda>payment.
      case read_attributes_of env (token_identifier payment) (token_nonce payment) of
       None \<Rightarrow> Inl STORAGE_DECODE_ERROR
     | Some attrs \<Rightarrow>
         and_then (get_pair_lp_token_id env w a) (\<lambda>lp_token.
         require (original_token_id attrs = Esdt lp_token) (SignalError ''Invalid locked LP token'')
        (and_then (get_lp_token_value env w st a (amount payment)) (\<lambda>value_result.
         and_then (try_get_config st (common_token_id value_result)) (\<lambda>cfg.
         require (token_identifier payment = config_locked_token_id cfg) (SignalError ''Invalid locked token'')
        (require (min_locked_token_value cfg \<le> safe_price_in_common_token value_result)
           (SignalError ''Not enough value locked'')
        (let current_epoch = get_block_epoch env;
             unlock = locked_token_attributes.unlock_epoch attrs;
             locked_epochs = (if current_epoch < unlock then unlock - current_epoch else 0) in
         require (min_lock_period_epochs cfg \<le> locked_epochs) (SignalError ''Token not locked for long enough'')
        (let caller = get_caller env in
         require_caller_initial_liquidity_adder env w a caller
        (and_then (router_set_fee_percents env w a) (\<lambda>w.
         and_then (pair_resume env w a) (\<lambda>w.
         Inr (w, [DirectSend caller [new_payment (token_identifier payment) (token_nonce payment) (amount payment)]]))))))))))))) =
    Inr (w', es)" and "router_state st" and "a \<in> set (get_all_pairs_addresses st)"
    using assms
    by (auto simp: set_swap_enabled_by_user_def require_active_def require_Inr
        dest: check_is_pair_sc_Inr check_is_pair_sc_listed)
  have collapse: "token_identifier p = t \<Longrightarrow> new_payment t (token_nonce p) (amount p) = p" for p :: esdt_payment and t
    by (cases p) (simp add: new_payment_def)
  from run obtain p x where state: "pair_state (pair_at env w a) = PartialActive" and p: "attached = [p]"
    and x: "read_attributes_of env (token_identifier p) (token_nonce p) = Some x"
    by (auto simp: require_state_active_no_swaps_def res_simps split: option.splits)
  have "\<exists>lp value_of cfg w1. lp = lp_token_identifier (pair_at env w a) \<and> original_token_id x = Esdt lp \<and>
      get_lp_token_value env w st a (amount p) = Inr value_of \<and> try_get_config st (common_token_id value_of) = Inr cfg \<and>
      token_identifier p = config_locked_token_id cfg \<and> min_locked_token_value cfg \<le> safe_price_in_common_token value_of \<and>
      min_lock_period_epochs cfg \<le> (if get_block_epoch env < locked_token_attributes.unlock_epoch x
        then locked_token_attributes.unlock_epoch x - get_block_epoch env else 0) \<and>
      initial_liquidity_adder (pair_at env w a) = Some (get_caller env) \<and>
      router_set_fee_percents env w a = Inr w1 \<and> pair_resume env w1 a = Inr w' \<and> es = [DirectSend (get_caller env) [p]]"
    using run state p x
    by (simp add: require_state_active_no_swaps_def res_simps get_pair_lp_token_id_def Let_def
        require_caller_initial_liquidity_adder_def split: option.splits) (auto simp: res_simps collapse)
  then show thesis using that [OF \<open>a \<in> set (get_all_pairs_addresses st)\<close> \<open>router_state st\<close> state p x] by blast
qed

lemma get_pair_temporary_owner_map: "get_pair_temporary_owner env st a = (x, st') \<Longrightarrow> pair_map st' = pair_map st"
  by (auto simp: get_pair_temporary_owner_def Let_def split: option.splits if_splits)

lemma create_pair_Inr:
  assumes "create_pair_endpoint env w st t u adder fees admins = Inr (a, st', w')"
  obtains template tf sf where "get_pair st t u = zero_address" "t \<noteq> u" "pair_template_address st = Some template"
    "deploy_pair env w template (t, u, get_sc_address env, router_owner st, tf, sf, adder, admins @ [get_caller env]) = Inr (a, w')"
    "pair_map st' = AList.update \<lparr>tokens_first = t, tokens_second = u\<rparr> a (pair_map st)"
    "if get_caller env = router_owner st then fees = Some (tf, sf) \<and> sf \<le> tf \<and> tf < MAX_TOTAL_FEE_PERCENT
     else pair_creation_enabled st \<and> tf = DEFAULT_TOTAL_FEE_PERCENT \<and> sf = DEFAULT_SPECIAL_FEE_PERCENT"
proof -
  have "\<exists>template tf sf. get_pair st t u = zero_address \<and> t \<noteq> u \<and> pair_template_address st = Some template \<and>
    deploy_pair env w template (t, u, get_sc_address env, router_owner st, tf, sf, adder, admins @ [get_caller env]) = Inr (a, w') \<and>
    pair_map st' = AList.update \<lparr>tokens_first = t, tokens_second = u\<rparr> a (pair_map st) \<and>
    (if get_caller env = router_owner st then fees = Some (tf, sf) \<and> sf \<le> tf \<and> tf < MAX_TOTAL_FEE_PERCENT
     else pair_creation_enabled st \<and> tf = DEFAULT_TOTAL_FEE_PERCENT \<and> sf = DEFAULT_SPECIAL_FEE_PERCENT)"
  proof (cases "get_caller env = router_owner st")
    case True
    then show ?thesis
      using assms
      by (auto simp: create_pair_endpoint_def require_active_def require_creation_allowed_def require_distinct_tokens_def
          create_pair_def Let_def res_simps split: option.splits)
  next
    case False
    then show ?thesis
      using assms
      by (auto simp: create_pair_endpoint_def require_active_def require_creation_allowed_def require_distinct_tokens_def
          create_pair_def Let_def res_simps split: option.splits)
  qed
  then show thesis using that by blast
qed

lemma remove_pair_map:
  "remove_pair env st t u = Inr (a, st') \<Longrightarrow> pair_map_ok w (pair_map st) \<Longrightarrow> pair_map_ok w (pair_map st')"
  by (auto simp: remove_pair_def require_active_def require_distinct_tokens_def router_only_owner_def map_remove_def
      res_simps Let_def split: if_splits intro!: pair_map_delete)

text \<open>Calls that do not change the map, with what they do to the pairs.\<close>

definition keeps_map :: "router_storage \<Rightarrow> chain \<Rightarrow> router_storage \<Rightarrow> chain \<Rightarrow> bool" where
  "keeps_map st w st' w' \<longleftrightarrow> pair_map st' = pair_map st \<and> chain_sound w' \<and> chain_grows w w'"

lemma keeps_same: "pair_map st' = pair_map st \<Longrightarrow> chain_sound w \<Longrightarrow> keeps_map st w st' w"
  by (simp add: keeps_map_def)

lemma keeps_told:
  "tell_pair (chain_env cx) w a c = Inr w' \<Longrightarrow> chain_sound w \<Longrightarrow>
   pair_map st' = pair_map st \<Longrightarrow> keeps_map st w st' w'"
  using tell_pair_ok by (simp add: keeps_map_def)

lemma chain_exec_keeps:
  assumes run: "chain_exec cx st w call = Inr (st', w')" and sound: "chain_sound w" 
    and "\<And>t u adder fees admins. call \<noteq> RouterCreatePair t u adder fees admins" "\<And>t u. call \<noteq> RouterRemovePair t u"
  shows "keeps_map st w st' w'"
proof (cases call)
  case (RouterPause a)
  then show ?thesis
    using run sound by (auto simp: router_pause_def router_only_owner_def res_simps keeps_same split: if_splits
        dest!: check_is_pair_sc_Inr intro: keeps_told)
next
  case (RouterResume a)
  then show ?thesis
    using run sound by (auto simp: router_resume_def router_only_owner_def res_simps keeps_same split: if_splits
        dest!: check_is_pair_sc_Inr intro: keeps_told)
next
  case (RouterIssue cost a name ticker)
  then show ?thesis
    using run sound by (auto simp: issue_lp_token_def require_active_def require_creation_allowed_def Let_def res_simps
        split: if_splits prod.splits dest!: check_is_pair_sc_Inr intro!: keeps_same dest: get_pair_temporary_owner_map)
next
  case (RouterFeeOn a b t)
  then show ?thesis
    using run sound by (auto simp: router_set_fee_on_def router_only_owner_def require_active_def res_simps
        dest!: check_is_pair_sc_Inr intro: keeps_told)
next
  case (RouterFeeOff a b t)
  then show ?thesis
    using run sound by (auto simp: router_set_fee_off_def router_only_owner_def require_active_def res_simps
        dest!: check_is_pair_sc_Inr intro: keeps_told)
next
  case (RouterIssued ok token returned caller a)
  then show ?thesis
    using run sound by (auto simp: lp_token_issue_callback_def res_simps keeps_same split: if_splits egld_or_esdt.splits
        intro: keeps_told)
next
  case (RouterMultiSwap ps ops)
  then show ?thesis
    using run sound multi_swap_loop_ok by (auto simp: multi_pair_swap_def require_active_def Let_def res_simps keeps_map_def)
next
  case (RouterEnableSwap ps a)
  then obtain es where en: "set_swap_enabled_by_user (chain_env cx) w st ps a = Inr (w', es)" and st': "st' = st"
    using run by (cases "set_swap_enabled_by_user (chain_env cx) w st ps a") (simp_all split: prod.splits)
  obtain w1 where "router_set_fee_percents (chain_env cx) w a = Inr w1" "pair_resume (chain_env cx) w1 a = Inr w'"
    by (rule set_swap_enabled_Inr [OF en])
  then show ?thesis
    using two_calls_ok [OF _ _ sound] st'
    unfolding router_set_fee_percents_def pair_resume_def keeps_map_def by blast
next
  case (PairTransaction a ps c)
  then obtain s s' es where s: "w a = Some s" and c: "exec_call (chain_pair_env cx) ps c s = Inr (s', es)"
    and w': "w' = w(a \<mapsto> s')" "st' = st"
    using run by (auto simp: res_simps split: option.splits)
  have "pair_inv s" using sound(1) s by (simp add: chain_sound_def)
  from chain_upd_ok [OF sound s exec_call_grows [OF this c]] show ?thesis by (simp add: keeps_map_def w')
next
  case (RouterUpgradePair t u)
  then show ?thesis using run sound by (auto simp: res_simps router_only_owner_def  intro!: keeps_same)
next
  case (RouterLocalRoles a)
  then show ?thesis using run sound by (auto simp: res_simps router_only_owner_def  intro!: keeps_same)
next
  case (RouterCreationEnabled x)
  then show ?thesis using run sound by (auto simp: res_simps router_only_owner_def set_pair_creation_enabled_def intro!: keeps_same)
next
  case (RouterOwnerPeriod n)
  then show ?thesis using run sound by (auto simp: res_simps router_only_owner_def set_temporary_owner_period_def intro!: keeps_same)
next
  case (RouterTemplate a)
  then show ?thesis using run sound by (auto simp: res_simps router_only_owner_def set_pair_template_address_def intro!: keeps_same)
next
  case RouterClearOwners
  then show ?thesis using run sound by (auto simp: res_simps router_only_owner_def clear_pair_temporary_owner_storage_def intro!: keeps_same)
next
  case (RouterConfigEnable t u v n)
  then show ?thesis using run sound by (auto simp: res_simps router_only_owner_def config_enable_by_user_parameters_def intro!: keeps_same)
next
  case (RouterAddCommon ts)
  then show ?thesis using run sound by (auto simp: res_simps router_only_owner_def add_common_tokens_for_user_pairs_def intro!: keeps_same)
next
  case (RouterRemoveCommon ts)
  then show ?thesis using run sound by (auto simp: res_simps router_only_owner_def remove_common_tokens_for_user_pairs_def intro!: keeps_same)
next
  case RouterUpgrade
  then show ?thesis using run sound by (auto simp: res_simps router_only_owner_def router_upgrade_def intro!: keeps_same)
qed (use assms(3,4) in blast)+

lemma chain_step_ok:
  assumes inv: "chain_inv b" and step: "chain_step b x = Inr b'"
  shows "chain_inv b' \<and> chain_le b b'"
proof -
  obtain cx call where x: "x = (cx, call)" by (cases x)
  let ?st = "chain_router b" and ?w = "chain_pairs b"
  obtain st' w' where run: "chain_exec cx ?st ?w call = Inr (st', w')" and b': "b' = \<lparr>chain_router = st', chain_pairs = w'\<rparr>"
    using step by (auto simp: chain_step_def x res_simps)
  have sound: "chain_sound ?w" and map: "pair_map_ok ?w (pair_map ?st)" using inv by (simp_all add: chain_inv_def)
  consider t u adder fees admins where "call = RouterCreatePair t u adder fees admins" | t u where "call = RouterRemovePair t u"
    | "\<And>t u adder fees admins. call \<noteq> RouterCreatePair t u adder fees admins" "\<And>t u. call \<noteq> RouterRemovePair t u"
    by (cases call) auto
  then show ?thesis
  proof cases
    case 1
    then obtain a where "create_pair_endpoint (chain_env cx) ?w ?st t u adder fees admins = Inr (a, st', w')"
      using run by (auto simp: res_simps)
    then obtain template tf sf where zero: "get_pair ?st t u = zero_address" and tu: "t \<noteq> u"
      and deploy: "deploy_pair (chain_env cx) ?w template (t, u, get_sc_address (chain_env cx), router_owner ?st, tf, sf, adder,
        admins @ [get_caller (chain_env cx)]) = Inr (a, w')"
      and st': "pair_map st' = AList.update \<lparr>tokens_first = t, tokens_second = u\<rparr> a (pair_map ?st)"
      by (rule create_pair_Inr) blast
    note new = chain_deploy_ok [OF deploy [unfolded chain_env_sel] sound]
    have "pair_map_ok w' (pair_map ?st)" using pair_map_grows [OF map] new by blast
    then have "pair_map_ok w' (pair_map st')"
      unfolding st' using new zero tu by (intro pair_map_insert) (simp_all add: get_pair_zero [OF map])
    then show ?thesis using new by (simp add: chain_inv_def chain_le_def b')
  next
    case 2
    then have "w' = ?w" "pair_map_ok ?w (pair_map st')" using run remove_pair_map [OF _ map] by (auto simp: res_simps)
    then show ?thesis using sound by (simp add: chain_inv_def chain_le_def b')
  next
    case 3
    from chain_exec_keeps [OF run sound 3] show ?thesis
      using pair_map_grows [OF map, of w'] by (simp add: keeps_map_def chain_inv_def chain_le_def b')
  qed
qed

interpretation chain_run: monotone_step_system chain_step chain_inv "\<lambda>x. True" chain_le
proof
  fix s t u x assume inv: "chain_inv s"
  then show "chain_step s x = Inr t \<Longrightarrow> chain_inv t" and "chain_step s x = Inr t \<Longrightarrow> chain_le s t"
    using chain_step_ok by blast+
  show "chain_le s s" by (simp add: chain_le_def)
  show "chain_le s t \<Longrightarrow> chain_le t u \<Longrightarrow> chain_le s u"
    using inv by (auto simp: chain_le_def chain_inv_def intro: chain_grows_trans)
qed

definition empty_router_storage :: router_storage where
  "empty_router_storage = \<lparr>router_state = False, pair_creation_enabled = False, router_owner = zero_address,
     pair_template_address = None, temporary_owner_period = 0, pair_map = [], pair_temporary_owner = [],
     enable_swap_by_user_config_of = Map.empty, common_tokens_for_user_pairs = []\<rparr>"

definition new_chain :: "'e blockchain_scheme \<Rightarrow> address option \<Rightarrow> chain_state" where
  "new_chain env template =
     \<lparr>chain_router = router_init env empty_router_storage template, chain_pairs = Map.empty\<rparr>"

lemma new_chain_inv: "chain_inv (new_chain env template)"
  by (simp add: chain_inv_def new_chain_def chain_sound_def pair_map_ok_def router_init_def init_factory_def
      empty_router_storage_def Let_def split: option.splits)

end
