(* ===== verification/RouterProperties.thy ===== *)
theory RouterProperties
  imports RouterFacts PairProperties
begin

text \<open>What the router promises, for the pairs as they are modelled.\<close>

section \<open>Swaps through the router\<close>

definition locks_whole :: "pair_env \<Rightarrow> bool" where
  "locks_whole env \<longleftrightarrow> (\<forall>a n p q. call_lock_tokens env a n p = Inr q \<longrightarrow> amount q = amount p)"

lemma chain_swap_in:
  assumes "chain_call_pair env w a ps (SwapTokensFixedInput t n) = Inr (r, w')"
  shows "\<exists>q. r = [q] \<and> n \<le> amount q"
proof -
  obtain s s' q es where r: "r = [q]" and run: "swap_tokens_fixed_input (as_pair env a) ps t n s = Inr (q, s', es)"
    using assms by (auto simp: chain_call_pair_def res_simps split: option.splits)
  from run obtain p :: esdt_payment and ord and s1 :: pair_storage and ctx c1 where swap: "perform_swap_fixed_input s1
      (swap_context_new (token_identifier p) (amount p) t n ord) (storage_cache_new s) = Inr (ctx, c1)"
    and q: "output_token_amount ctx \<le> amount q"
    by (rule swap_tokens_fixed_input_Inr) blast
  have "fee_amount (swap_context_new (token_identifier p) (amount p) t n ord) = 0" by (simp add: swap_context_new_def)
  from perform_swap_fixed_input_Inr(1) [OF swap this] have "output_token_amount ctx = n"
    by (simp add: swap_context_new_def)
  then show ?thesis using r q by simp
qed

lemma chain_swap_out:
  assumes "chain_call_pair env w a ps (SwapTokensFixedOutput t n) = Inr (r, w')" "locks_whole env"
  shows "\<exists>q d. r = [q, d] \<and> n \<le> amount q"
proof -
  obtain s s' q d es where r: "r = [q, d]" and run: "swap_tokens_fixed_output (as_pair env a) ps t n s = Inr ((q, d), s', es)"
    using assms(1) by (fastforce simp: chain_call_pair_def res_simps split: option.splits)
  from run obtain p :: esdt_payment and ord and s1 :: pair_storage and ctx c1 outs es2 where swap: "perform_swap_fixed_output s1
      (swap_context_new (token_identifier p) (amount p) t n ord) (storage_cache_new s) = Inr (ctx, c1)"
    and build: "build_swap_output_payments (as_pair env a) s1 ctx = Inr (outs, es2)" and q: "(q, d) = (outs ! 0, outs ! 1)"
    by (rule swap_tokens_fixed_output_Inr) blast
  have "fee_amount (swap_context_new (token_identifier p) (amount p) t n ord) = 0" by (simp add: swap_context_new_def)
  from swap this obtain b where "ctx = swap_context_new (token_identifier p) (amount p) t n ord
      \<lparr>final_input_amount := b, final_output_amount := n, fee_amount := swap_fee s1 b\<rparr>"
    by (rule perform_swap_fixed_output_Inr) (auto simp: swap_context_new_def)
  then have "final_output_amount ctx = n" by simp
  moreover have "amount (outs ! 0) = final_output_amount ctx"
    using build assms(2)
    by (auto simp: build_swap_output_payments_def lock_tokens_def res_simps locks_whole_def split: if_splits)
  ultimately show ?thesis using r q by simp
qed

lemma multi_swap_last:
  assumes "multi_pair_swap_loop (chain_env cx) w st ps p (ops @ [(a, f, t, n)]) = Inr (ps', p', w')"
    and "locks_whole (chain_pair_env cx)"
  shows "n \<le> amount p'"
  using assms(1)
proof (induction ops arbitrary: w ps p)
  case Nil
  let ?in = "[new_payment (token_identifier p) 0 (amount p)]"
  consider w1 where "chain_call_pair (chain_pair_env cx) w a ?in (SwapTokensFixedInput t n) = Inr ([p'], w1)"
    | w1 d where "chain_call_pair (chain_pair_env cx) w a ?in (SwapTokensFixedOutput t n) = Inr ([p', d], w1)"
    using check_is_pair_sc_Inr [OF Nil [unfolded append_Nil multi_pair_swap_loop.simps]]
    by (auto simp: actual_swap_fixed_input_def actual_swap_fixed_output_def res_simps split: if_splits)
  then show ?case
    using chain_swap_in chain_swap_out [OF _ assms(2)] by cases fastforce+
next
  case (Cons x ops)
  obtain b g u m where x: "x = (b, g, u, m)" by (cases x)
  from check_is_pair_sc_Inr [OF Cons.prems [unfolded x append_Cons multi_pair_swap_loop.simps]]
  obtain w1 ps1 p1 where "multi_pair_swap_loop (chain_env cx) w1 st ps1 p1 (ops @ [(a, f, t, n)]) = Inr (ps', p', w')"
    by (auto simp: res_simps split: if_splits)
  then show ?case by (rule Cons.IH)
qed

text \<open>
  What a chain of swaps is: every pair is a listed one and gets the output of the pair before, and
  \<open>rs\<close> are the payments that the pairs return, for a fixed output with the leftover.
\<close>

inductive swaps_served ::
  "pair_env \<Rightarrow> router_storage \<Rightarrow> chain \<Rightarrow> esdt_payment \<Rightarrow> swap_operation list \<Rightarrow> esdt_payment list list \<Rightarrow> chain \<Rightarrow> bool"
  for env st where
  none: "swaps_served env st w p [] [] w"
| fixed_input: "a \<in> set (get_all_pairs_addresses st) \<Longrightarrow>
    chain_call_pair env w a [new_payment (token_identifier p) 0 (amount p)] (SwapTokensFixedInput t n) = Inr ([q], w1) \<Longrightarrow>
    swaps_served env st w1 q ops rs w' \<Longrightarrow>
    swaps_served env st w p ((a, ''swapTokensFixedInput'', t, n) # ops) ([q] # rs) w'"
| fixed_output: "a \<in> set (get_all_pairs_addresses st) \<Longrightarrow>
    chain_call_pair env w a [new_payment (token_identifier p) 0 (amount p)] (SwapTokensFixedOutput t n) = Inr ([q, d], w1) \<Longrightarrow>
    swaps_served env st w1 q ops rs w' \<Longrightarrow>
    swaps_served env st w p ((a, ''swapTokensFixedOutput'', t, n) # ops) ([q, d] # rs) w'"

lemma multi_swap_loop_served:
  assumes "multi_pair_swap_loop (chain_env cx) w st ps p ops = Inr (ps', q, w')"
  shows "\<exists>rs. swaps_served (chain_pair_env cx) st w p ops rs w' \<and>
    ps' = ps @ filter (\<lambda>q. 0 < amount q) (concat (map tl rs)) \<and> q = hd (last ([p] # rs))"
  using assms
proof (induction ops arbitrary: w ps p)
  case Nil
  then show ?case by (auto intro: swaps_served.none)
next
  case (Cons x ops)
  obtain a f t n where x: "x = (a, f, t, n)" by (cases x)
  note loop = Cons.prems [unfolded x multi_pair_swap_loop.simps]
  have listed: "a \<in> set (get_all_pairs_addresses st)" by (rule check_is_pair_sc_listed [OF loop])
  let ?in = "[new_payment (token_identifier p) 0 (amount p)]"
  consider w1 q1 where "f = ''swapTokensFixedInput''"
      "chain_call_pair (chain_pair_env cx) w a ?in (SwapTokensFixedInput t n) = Inr ([q1], w1)"
      "multi_pair_swap_loop (chain_env cx) w1 st ps q1 ops = Inr (ps', q, w')"
    | w1 q1 d where "f = ''swapTokensFixedOutput''"
      "chain_call_pair (chain_pair_env cx) w a ?in (SwapTokensFixedOutput t n) = Inr ([q1, d], w1)"
      "multi_pair_swap_loop (chain_env cx) w1 st (if 0 < amount d then ps @ [d] else ps) q1 ops = Inr (ps', q, w')"
    using check_is_pair_sc_Inr [OF loop]
    by (auto simp: actual_swap_fixed_input_def actual_swap_fixed_output_def res_simps split: if_splits)
  then show ?case
  proof cases
    case 1
    from Cons.IH [OF 1(3)] obtain rs where "swaps_served (chain_pair_env cx) st w1 q1 ops rs w'"
      "ps' = ps @ filter (\<lambda>q. 0 < amount q) (concat (map tl rs))" "q = hd (last ([q1] # rs))" by blast
    then show ?thesis
      using swaps_served.fixed_input [OF listed 1(2)] by (intro exI [of _ "[q1] # rs"]) (auto simp: x 1(1))
  next
    case 2
    from Cons.IH [OF 2(3)] obtain rs where "swaps_served (chain_pair_env cx) st w1 q1 ops rs w'"
      "ps' = (if 0 < amount d then ps @ [d] else ps) @ filter (\<lambda>q. 0 < amount q) (concat (map tl rs))"
      "q = hd (last ([q1] # rs))" by blast
    then show ?thesis
      using swaps_served.fixed_output [OF listed 2(2)] by (intro exI [of _ "[q1, d] # rs"]) (auto simp: x 2(1))
  qed
qed

lemma served_paid:
  assumes "swaps_served env st w p ops rs w'" "rs \<noteq> []"
  shows "paid_in u (concat (map tl rs)) + paid_in u [hd (last rs)] + paid_in u (map hd (butlast rs)) = paid_in u (concat rs)"
  using assms by (induction rule: swaps_served.induct) auto

section \<open>An example\<close>

text \<open>
  The owner of the router at address 50, user 1, creates the pair of \<open>ALPHA\<close> and \<open>BETA\<close> at address 60
  with user 7 as the one who adds the initial liquidity, and resumes it; user 7 swaps through the router.
\<close>

definition ex_chain_env :: "address \<Rightarrow> address \<Rightarrow> pair_env" where
  "ex_chain_env caller sc = ex_env\<lparr>get_caller := caller, get_sc_address := sc, get_owner_address := 1\<rparr>"

definition ex_context :: "address \<Rightarrow> address \<Rightarrow> chain_context" where
  "ex_context caller sc = \<lparr>chain_pair_env = ex_chain_env caller sc, next_address = 60,
     lp_attributes = (\<lambda>t n. if t = ''LOCKEDLP'' then Some \<lparr>original_token_id = Esdt ''LPTOKEN'',
       original_token_nonce = 0, unlock_epoch = 200\<rparr> else None)\<rparr>"

definition ex_chain_calls :: "(chain_context \<times> chain_call) list" where
  "ex_chain_calls =
     [(ex_context 1 50, RouterTemplate 40),
      (ex_context 1 50, RouterCreatePair ''ALPHA'' ''BETA'' 7 (Some (300, 50)) []),
      (ex_context 1 50, RouterCreatePair ''BETA'' ''ALPHA'' 7 (Some (300, 50)) [])]"

definition ex_chain_later :: "(chain_context \<times> chain_call) list" where
  "ex_chain_later =
     [(ex_context 1 50, RouterIssued True (Esdt ''LPTOKEN'') 0 1 60),
      (ex_context 7 60, PairTransaction 60 [new_payment ''ALPHA'' 0 1000000, new_payment ''BETA'' 0 2000000] AddInitialLiquidity),
      (ex_context 1 50, RouterResume 60),
      (ex_context 7 50, RouterMultiSwap [new_payment ''ALPHA'' 0 10000] [(60, ''swapTokensFixedInput'', ''BETA'', 19000)])]"

definition ex_chain :: chain_state where
  "ex_chain = run_txs chain_step (new_chain (ex_chain_env 1 50) None) ex_chain_calls"

lemmas router_eval =
  chain_step_def router_only_owner_def require_active_def set_pair_template_address_def create_pair_endpoint_def
  require_creation_allowed_def require_distinct_tokens_def get_pair_def address_or_zero_def swapped_tokens_def
  MAX_TOTAL_FEE_PERCENT_def create_pair_def chain_deploy_pair_def pair_init_def set_fee_percents_def set_if_empty_token_def
  MAX_FEE_PERCENTAGE_def as_pair_def empty_pair_storage_def get_all_pairs_addresses_def

lemma ex_chain_eq: "(get_all_pairs_addresses (chain_router ex_chain), chain_pairs ex_chain 60 = None) = ([60], False)"
  by (simp add: ex_chain_def ex_chain_calls_def new_chain_def router_init_def init_factory_def empty_router_storage_def
      ex_context_def ex_chain_env_def ex_env_def router_eval Let_def
      cong: and_then_weak_cong require_weak_cong)

section \<open>Properties\<close>

text \<open>C37: The router lists every pair once. After any run of a newly deployed router and its pairs, with
  calls of anyone on both, the addresses it lists are distinct, the lookup does not depend on the
  order of the two tokens and gives a pair that trades exactly these tokens, and the check that
  guards the forwarded calls accepts exactly the listed addresses.\<close>

theorem router_lists_each_pair_once:
  fixes env :: "'e blockchain_scheme" and template :: "address option" and calls :: "(chain_context \<times> chain_call) list"
  defines "b \<equiv> run_txs chain_step (new_chain env template) calls"
  defines "st \<equiv> chain_router b" and "w \<equiv> chain_pairs b"
  shows "distinct (get_all_pairs_addresses st) \<and> get_pair st t u = get_pair st u t \<and>
    (get_pair st t u \<noteq> zero_address \<longrightarrow>
      (\<exists>s. w (get_pair st t u) = Some s \<and> {first_token_id s, second_token_id s} = {t, u})) \<and>
    check_is_pair_sc (chain_env cx) w st a (Inr ()) =
      (if a \<in> set (get_all_pairs_addresses st) then Inr () else Inl (SignalError ''Not a pair SC''))"
proof -
  have "chain_inv b" unfolding b_def by (intro chain_run.run_inv new_chain_inv) (simp add: list_all_iff)
  then have ok: "pair_map_ok w (pair_map st)" by (simp add: chain_inv_def st_def w_def)
  let ?m = "pair_map st"
  have tokens: "\<exists>s. w a = Some s \<and> first_token_id s = tokens_first k \<and> second_token_id s = tokens_second k"
    and nz: "a \<noteq> zero_address" and alone: "swapped_tokens (tokens_first k) (tokens_second k) \<notin> set (map fst ?m)"
    if "(k, a) \<in> set ?m" for k a
    using ok that by (auto simp: pair_map_ok_def)
  have "x = y" if mem: "x \<in> set ?m" "y \<in> set ?m" and same: "snd x = snd y" for x y
  proof -
    obtain s where "w (snd x) = Some s" "first_token_id s = tokens_first (fst x)" "second_token_id s = tokens_second (fst x)"
      using tokens [of "fst x" "snd x"] mem(1) by auto
    moreover obtain s' where "w (snd y) = Some s'" "first_token_id s' = tokens_first (fst y)" "second_token_id s' = tokens_second (fst y)"
      using tokens [of "fst y" "snd y"] mem(2) by auto
    ultimately have "fst x = fst y" using same by simp
    then show ?thesis using same by (simp add: prod_eq_iff)
  qed
  then have "inj_on snd (set ?m)" by (auto intro: inj_onI)
  moreover have "distinct ?m" using ok by (auto simp: pair_map_ok_def distinct_map)
  ultimately have one: "distinct (get_all_pairs_addresses st)" by (simp add: get_all_pairs_addresses_def distinct_map)
  have found: "get_pair st t u = (case map_of ?m \<lparr>tokens_first = t, tokens_second = u\<rparr> of Some a \<Rightarrow> a
      | None \<Rightarrow> (case map_of ?m (swapped_tokens t u) of Some a \<Rightarrow> a | None \<Rightarrow> zero_address))" for t u
    using nz [OF map_of_SomeD] by (auto simp: get_pair_def address_or_zero_def split: option.splits)
  have both: "map_of ?m \<lparr>tokens_first = t, tokens_second = u\<rparr> = None \<or> map_of ?m (swapped_tokens t u) = None" for t u
  proof (rule ccontr)
    assume "\<not> ?thesis"
    then obtain a where "(\<lparr>tokens_first = t, tokens_second = u\<rparr>, a) \<in> set ?m" and "swapped_tokens t u \<in> set (map fst ?m)"
      by (auto simp: map_of_eq_None_iff map_of_map_ok [OF ok])
    then show False using alone by fastforce
  qed
  have "get_pair st t u = get_pair st u t"
    using both [of t u] by (auto simp: found swapped_tokens_def split: option.splits)
  moreover have "get_pair st t u \<noteq> zero_address \<longrightarrow>
      (\<exists>s. w (get_pair st t u) = Some s \<and> {first_token_id s, second_token_id s} = {t, u})"
    using tokens [OF map_of_SomeD, of "\<lparr>tokens_first = t, tokens_second = u\<rparr>"]
      tokens [OF map_of_SomeD, of "\<lparr>tokens_first = u, tokens_second = t\<rparr>"]
    by (auto simp: found swapped_tokens_def split: option.splits)
  ultimately show ?thesis using one check_is_pair_sc_iff [OF ok, of cx a "Inr ()"] by simp
qed

text \<open>C38: Pairs keep their value under the router. In every run of a router and its pairs, whatever mix of
  creations, administration, swaps through several pairs and direct calls follows and whatever the
  contracts they call answer, every pair that was
  there is still there with the same tokens and a sound state, and a share of its liquidity is worth
  no less.\<close>

theorem pairs_keep_their_value_under_the_router:
  fixes env :: "'e blockchain_scheme" and template :: "address option" and calls later :: "(chain_context \<times> chain_call) list"
  defines "b \<equiv> run_txs chain_step (new_chain env template) calls"
  assumes pair: "chain_pairs b a = Some s"
  shows "\<exists>s'. chain_pairs (run_txs chain_step b later) a = Some s' \<and> pair_inv s' \<and>
    pool_le (storage_cache_new s) (storage_cache_new s') \<and>
    first_token_id s' = first_token_id s \<and> second_token_id s' = second_token_id s"
proof -
  have inv: "chain_inv b" unfolding b_def by (intro chain_run.run_inv new_chain_inv) (simp add: list_all_iff)
  have inv': "chain_inv (run_txs chain_step b later)" by (intro chain_run.run_inv inv) (simp add: list_all_iff)
  have "chain_le b (run_txs chain_step b later)" by (intro chain_run.run_le inv) (simp add: list_all_iff)
  then obtain s' where s': "chain_pairs (run_txs chain_step b later) a = Some s'" "pair_grows s s'"
    using pair unfolding chain_le_def chain_grows_def by blast
  then have "pair_inv s'" using inv' by (simp add: chain_inv_def chain_sound_def)
  then show ?thesis using s' by (simp add: pair_grows_def)
qed

text \<open>C39: A swap through several pairs keeps nothing back. When \<open>multiPairSwap\<close> succeeds, it was served by
  pairs that the router lists, the first with the caller's payment and each later one with the output of
  the one before; the caller gets, in one transfer, every leftover of the swaps with fixed output, in
  their order, and at the end the output of the last swap. So of every token the caller gets what the
  pairs have returned less what went on to the next pair, and if the contract that locks tokens locks
  them whole, the last payment is at least the amount wanted of the last pair.\<close>

theorem multi_swap_pays_what_was_asked:
  assumes run: "multi_pair_swap (chain_env cx) w st attached (ops @ [(a, f, t, n)]) = Inr (payments, w', es)"
  shows "\<exists>p rs. attached = [p] \<and> token_nonce p = 0 \<and>
    swaps_served (chain_pair_env cx) st w p (ops @ [(a, f, t, n)]) rs w' \<and>
    payments = filter (\<lambda>q. 0 < amount q) (concat (map tl rs)) @ [hd (last rs)] \<and>
    es = [DirectSend (get_caller (chain_pair_env cx)) payments] \<and>
    (\<forall>u. paid_in u payments + paid_in u (map hd (butlast rs)) = paid_in u (concat rs)) \<and>
    (locks_whole (chain_pair_env cx) \<longrightarrow> n \<le> amount (last payments))"
proof -
  have collapse: "token_nonce p = 0 \<Longrightarrow> new_payment (token_identifier p) 0 (amount p) = p" for p :: esdt_payment
    by (cases p) (simp add: new_payment_def)
  obtain p ps q where p: "attached = [p]" "token_nonce p = 0"
    and loop: "multi_pair_swap_loop (chain_env cx) w st [] p (ops @ [(a, f, t, n)]) = Inr (ps, q, w')"
    and payments: "payments = ps @ [q]" and es: "es = [DirectSend (get_caller (chain_pair_env cx)) payments]"
    using run by (auto simp: multi_pair_swap_def require_active_def Let_def res_simps single_esdt_Inr collapse)
  obtain rs where served: "swaps_served (chain_pair_env cx) st w p (ops @ [(a, f, t, n)]) rs w'"
    and ps: "ps = filter (\<lambda>q. 0 < amount q) (concat (map tl rs))" and q: "q = hd (last (([p]) # rs))"
    using multi_swap_loop_served [OF loop] by auto
  have ne: "rs \<noteq> []" using served by (auto elim: swaps_served.cases)
  then have q: "q = hd (last rs)" using q by simp
  have flow: "\<forall>u. paid_in u payments + paid_in u (map hd (butlast rs)) = paid_in u (concat rs)"
    using served_paid [OF served ne] by (simp add: payments ps q paid_in_non_zero)
  have "locks_whole (chain_pair_env cx) \<longrightarrow> n \<le> amount (last payments)"
    using multi_swap_last [OF loop] by (simp add: payments)
  moreover have "payments = filter (\<lambda>q. 0 < amount q) (concat (map tl rs)) @ [hd (last rs)]" by (simp add: payments ps q)
  ultimately show ?thesis using p served es flow by blast
qed

text \<open>C40: A user can open the swaps of a pair only with its liquidity locked. When
  \<open>setSwapEnabledByUser\<close> succeeds, the pair is one that the router lists, in the state without swaps, the caller is
  its initial liquidity adder and attached locked tokens of the pair's liquidity that are worth at
  least the configured value and stay locked for at least the configured epochs; afterwards the pair is
  active with a fee of 1 percent, nothing else is changed, and the tokens are returned.\<close>

theorem user_opens_swaps_with_locked_liquidity:
  assumes run: "set_swap_enabled_by_user (chain_env cx) w st attached a = Inr (w', es)"
  shows "\<exists>s p x r cfg. a \<in> set (get_all_pairs_addresses st) \<and> w a = Some s \<and> pair_state s = PartialActive \<and>
    initial_liquidity_adder s = Some (get_caller (chain_pair_env cx)) \<and> attached = [p] \<and>
    lp_attributes cx (token_identifier p) (token_nonce p) = Some x \<and>
    original_token_id x = Esdt (lp_token_identifier s) \<and>
    get_lp_token_value (chain_env cx) w st a (amount p) = Inr r \<and> try_get_config st (common_token_id r) = Inr cfg \<and>
    token_identifier p = config_locked_token_id cfg \<and> min_locked_token_value cfg \<le> safe_price_in_common_token r \<and>
    unat (get_block_epoch (chain_pair_env cx)) + unat (min_lock_period_epochs cfg) \<le>
      max (unat (locked_token_attributes.unlock_epoch x)) (unat (get_block_epoch (chain_pair_env cx))) \<and>
    w' = w(a \<mapsto> s\<lparr>pair_state := Active, total_fee_percent := 1000, special_fee_percent := 50\<rparr>) \<and>
    es = [DirectSend (get_caller (chain_pair_env cx)) [p]]"
proof -
  from run obtain p x lp r cfg w1 where listed: "a \<in> set (get_all_pairs_addresses st)" and state: "pair_state (pair_at (chain_env cx) w a) = PartialActive"
    and p: "attached = [p]" "read_attributes_of (chain_env cx) (token_identifier p) (token_nonce p) = Some x"
    and lp: "lp = lp_token_identifier (pair_at (chain_env cx) w a)" "original_token_id x = Esdt lp"
    and cfg: "get_lp_token_value (chain_env cx) w st a (amount p) = Inr r" "try_get_config st (common_token_id r) = Inr cfg"
      "token_identifier p = config_locked_token_id cfg" "min_locked_token_value cfg \<le> safe_price_in_common_token r"
    and period: "min_lock_period_epochs cfg \<le> (if get_block_epoch (chain_env cx) < locked_token_attributes.unlock_epoch x
       then locked_token_attributes.unlock_epoch x - get_block_epoch (chain_env cx) else 0)"
    and adder: "initial_liquidity_adder (pair_at (chain_env cx) w a) = Some (get_caller (chain_env cx))"
    and calls: "router_set_fee_percents (chain_env cx) w a = Inr w1" "pair_resume (chain_env cx) w1 a = Inr w'"
    and es: "es = [DirectSend (get_caller (chain_env cx)) [p]]"
    by (rule set_swap_enabled_Inr) blast
  obtain s where s: "w a = Some s"
    using state by (cases "w a") (auto simp: empty_pair_storage_def)
  have w1: "w1 = w(a \<mapsto> s\<lparr>total_fee_percent := 1000, special_fee_percent := 50\<rparr>)"
    using calls(1) by (auto simp: router_set_fee_percents_def tell_pair_def chain_call_pair_def s res_simps
        set_fee_percent_def set_fee_percents_def USER_DEFINED_TOTAL_FEE_PERCENT_def DEFAULT_SPECIAL_FEE_PERCENT_def)
  have "w' = w(a \<mapsto> s\<lparr>pair_state := Active, total_fee_percent := 1000, special_fee_percent := 50\<rparr>)"
    using calls(2) by (auto simp: pair_resume_def tell_pair_def chain_call_pair_def w1 res_simps with_state_def resume_def)
  moreover have "unat (get_block_epoch (chain_pair_env cx)) + unat (min_lock_period_epochs cfg) \<le>
      max (unat (locked_token_attributes.unlock_epoch x)) (unat (get_block_epoch (chain_pair_env cx)))"
    using period by (auto simp: word_le_nat_alt word_less_nat_alt unat_sub_u64 split: if_splits)
  ultimately show ?thesis
    using listed state p lp cfg adder es by (simp add: s)
qed

theorem router_lists_each_pair_once_witness:
  "chain_pairs ex_chain 60 \<noteq> None \<and> distinct (get_all_pairs_addresses (chain_router ex_chain)) \<and>
   check_is_pair_sc (chain_env (ex_context 1 50)) (chain_pairs ex_chain) (chain_router ex_chain) 60 (Inr ()) = Inr ()"
proof -
  have "check_is_pair_sc (chain_env (ex_context 1 50)) (chain_pairs ex_chain) (chain_router ex_chain) 60 (Inr ()) =
      (if 60 \<in> set (get_all_pairs_addresses (chain_router ex_chain)) then Inr () else Inl (SignalError ''Not a pair SC''))"
    "distinct (get_all_pairs_addresses (chain_router ex_chain))"
    using router_lists_each_pair_once [of "ex_chain_env 1 50" None ex_chain_calls, folded ex_chain_def] by blast+
  then show ?thesis using ex_chain_eq by simp
qed

theorem pairs_keep_their_value_under_the_router_witness:
  "\<exists>s s'. chain_pairs ex_chain 60 = Some s \<and> chain_pairs (run_txs chain_step ex_chain ex_chain_later) 60 = Some s' \<and>
     pair_inv s' \<and> pool_le (storage_cache_new s) (storage_cache_new s')"
proof -
  obtain s where s: "chain_pairs ex_chain 60 = Some s" using ex_chain_eq by auto
  then show ?thesis
    using pairs_keep_their_value_under_the_router [of "ex_chain_env 1 50" None ex_chain_calls 60 s ex_chain_later, folded ex_chain_def]
    by blast
qed

definition ex_router :: router_storage where
  "ex_router = router_init (ex_chain_env 1 50) empty_router_storage None
     \<lparr>pair_map := [(\<lparr>tokens_first = ''ALPHA'', tokens_second = ''BETA''\<rparr>, 60)],
      common_tokens_for_user_pairs := [''BETA''],
      enable_swap_by_user_config_of := [''BETA'' \<mapsto> \<lparr>config_locked_token_id = ''LOCKEDLP'',
        min_locked_token_value = 1000, min_lock_period_epochs = 90\<rparr>]\<rparr>"

lemma ex_chain_swap:
  "succeeds (multi_pair_swap (chain_env (ex_context 7 50)) [60 \<mapsto> ex_storage] ex_router [new_payment ''ALPHA'' 0 10000]
     ([] @ [(60, ''swapTokensFixedOutput'', ''BETA'', 19000)]))"
  by (simp add: multi_pair_swap_def ex_router_def router_init_def init_factory_def empty_router_storage_def chain_env_def
      ex_context_def ex_chain_env_def require_active_def check_is_pair_sc_def actual_swap_fixed_output_def
      chain_call_pair_def as_pair_def blockchain.defs ex_defs pair_eval_defs succeeds_def)

theorem multi_swap_pays_what_was_asked_witness:
  "\<exists>payments rs w' es. multi_pair_swap (chain_env (ex_context 7 50)) [60 \<mapsto> ex_storage] ex_router
       [new_payment ''ALPHA'' 0 10000] [(60, ''swapTokensFixedOutput'', ''BETA'', 19000)] = Inr (payments, w', es) \<and>
     payments = filter (\<lambda>q. 0 < amount q) (concat (map tl rs)) @ [hd (last rs)] \<and>
     19000 \<le> amount (last payments) \<and> es = [DirectSend 7 payments]"
proof -
  obtain payments w' es where run: "multi_pair_swap (chain_env (ex_context 7 50)) [60 \<mapsto> ex_storage] ex_router
      [new_payment ''ALPHA'' 0 10000] ([] @ [(60, ''swapTokensFixedOutput'', ''BETA'', 19000)]) = Inr (payments, w', es)"
    using succeedsD [OF ex_chain_swap] by (metis prod_cases3)
  have locks: "locks_whole (chain_pair_env (ex_context 7 50))" and "get_caller (chain_pair_env (ex_context 7 50)) = 7"
    by (auto simp: locks_whole_def ex_context_def ex_chain_env_def ex_env_def new_payment_def)
  with multi_swap_pays_what_was_asked [OF run] run show ?thesis by auto
qed

definition ex_closed_pair :: pair_storage where
  "ex_closed_pair = ex_storage\<lparr>pair_state := PartialActive, initial_liquidity_adder := Some 7,
     pair_permissions := (\<lambda>a. if a = 50 then 7 else 0)\<rparr>"

lemma ex_enable_swap:
  "succeeds (set_swap_enabled_by_user (chain_env (ex_context 7 50)) [60 \<mapsto> ex_closed_pair] ex_router
     [new_payment ''LOCKEDLP'' 1 500000] 60)"
  by (simp add: set_swap_enabled_by_user_def ex_router_def router_init_def init_factory_def empty_router_storage_def chain_env_def
      ex_context_def ex_chain_env_def require_active_def check_is_pair_sc_def 
      chain_call_pair_def as_pair_def blockchain.defs ex_closed_pair_def ex_defs pair_eval_defs succeeds_def
      require_state_active_no_swaps_def get_pair_lp_token_id_def get_lp_token_value_def get_tokens_for_given_position_def
      try_get_config_def require_caller_initial_liquidity_adder_def router_set_fee_percents_def pair_resume_def tell_pair_def
      get_both_tokens_for_given_position_def get_token_for_given_position_def not_payable_def set_fee_percent_def
      require_caller_has_owner_or_admin_permissions_def require_caller_any_of_def intersects_def set_fee_percents_def
      USER_DEFINED_TOTAL_FEE_PERCENT_def DEFAULT_SPECIAL_FEE_PERCENT_def MAX_FEE_PERCENTAGE_def with_state_def resume_def
      require_caller_has_pause_permissions_def OWNER_def ADMIN_def PAUSE_def)

theorem user_opens_swaps_with_locked_liquidity_witness:
  "\<exists>es. set_swap_enabled_by_user (chain_env (ex_context 7 50)) [60 \<mapsto> ex_closed_pair] ex_router
     [new_payment ''LOCKEDLP'' 1 500000] 60 =
     Inr ([60 \<mapsto> ex_closed_pair\<lparr>pair_state := Active, total_fee_percent := 1000, special_fee_percent := 50\<rparr>], es)"
proof -
  obtain w' es where run: "set_swap_enabled_by_user (chain_env (ex_context 7 50)) [60 \<mapsto> ex_closed_pair] ex_router
     [new_payment ''LOCKEDLP'' 1 500000] 60 = Inr (w', es)"
    using succeedsD [OF ex_enable_swap] by (metis prod.exhaust)
  from user_opens_swaps_with_locked_liquidity [OF run] run show ?thesis by auto
qed

end
