(* ===== verification/Staking.thy ===== *)
theory Staking
  imports FarmSettings
begin

text \<open>
  The staking farm (\<open>farm-staking/farm-staking/src\<close>): a farm whose farming and reward token are the
  same. Nothing is minted: rewards are taken from a capacity the admins pay in, and are bounded by a
  yearly percentage of what is staked. Leaving gives unbond tokens, which are tokens of the farm
  token's collection too, and they give the staked tokens back some epochs later. Whitelisted
  contracts (the proxy) may stake tokens that they hold elsewhere.
\<close>

section \<open>token_attributes.rs\<close>

record staking_attributes =
  staking_reward_per_share :: biguint
  staking_compounded_reward :: biguint
  staking_current_farm_amount :: biguint
  staking_original_owner :: address

definition staking_get_initial_farming_tokens :: "staking_attributes \<Rightarrow> error + biguint" where
  "staking_get_initial_farming_tokens a = big_sub (staking_current_farm_amount a) (staking_compounded_reward a)"

definition staking_get_total_supply :: "staking_attributes \<Rightarrow> biguint" where
  "staking_get_total_supply a = staking_current_farm_amount a"

definition staking_into_part :: "staking_attributes \<Rightarrow> biguint \<Rightarrow> error + staking_attributes" where
  "staking_into_part a part_amount =
     (if part_amount = staking_get_total_supply a then Inr a
      else
        and_then (rule_of_three (staking_get_total_supply a) part_amount (staking_compounded_reward a))
          (\<lambda>new_compounded_reward.
        Inr (a\<lparr>staking_compounded_reward := new_compounded_reward,
               staking_current_farm_amount := part_amount\<rparr>)))"

definition staking_can_merge_with :: "staking_attributes \<Rightarrow> staking_attributes \<Rightarrow> bool" where
  "staking_can_merge_with a b \<longleftrightarrow> True"

definition staking_merge_with :: "staking_attributes \<Rightarrow> staking_attributes \<Rightarrow> error + staking_attributes" where
  "staking_merge_with a b =
     require (staking_can_merge_with a b) CANNOT_MERGE
    (and_then (weighted_average_round_up (staking_reward_per_share a) (staking_get_total_supply a)
                 (staking_reward_per_share b) (staking_get_total_supply b)) (\<lambda>rps.
     Inr (a\<lparr>staking_reward_per_share := rps,
            staking_compounded_reward := staking_compounded_reward a + staking_compounded_reward b,
            staking_current_farm_amount := staking_current_farm_amount a + staking_current_farm_amount b\<rparr>)))"

interpretation staking_position: mergeable_supply staking_get_total_supply staking_into_part
  staking_can_merge_with staking_merge_with
  by unfold_locales
    (auto simp: staking_into_part_def staking_get_total_supply_def staking_can_merge_with_def
      staking_merge_with_def res_simps split: if_splits)

record unbond_sft_attributes =
  unbond_unlock_epoch :: u64

text \<open>
  The base operations store positions of type \<open>farm_token_attributes\<close>. A staking position is one of
  these without its entering epoch, which no operation of this contract reads.
\<close>

definition staking_view :: "farm_token_attributes \<Rightarrow> staking_attributes" where
  "staking_view a = \<lparr>staking_reward_per_share = reward_per_share a,
     staking_compounded_reward = compounded_reward a,
     staking_current_farm_amount = current_farm_amount a, staking_original_owner = original_owner a\<rparr>"

lemma staking_view_sel [simp]:
  "staking_reward_per_share (staking_view a) = reward_per_share a"
  "staking_compounded_reward (staking_view a) = compounded_reward a"
  "staking_current_farm_amount (staking_view a) = current_farm_amount a"
  "staking_original_owner (staking_view a) = original_owner a"
  by (simp_all add: staking_view_def)

lemma staking_view_upd:
  "staking_view (a\<lparr>reward_per_share := r\<rparr>) = (staking_view a)\<lparr>staking_reward_per_share := r\<rparr>"
  "staking_view (a\<lparr>compounded_reward := n\<rparr>) = (staking_view a)\<lparr>staking_compounded_reward := n\<rparr>"
  "staking_view (a\<lparr>current_farm_amount := n\<rparr>) = (staking_view a)\<lparr>staking_current_farm_amount := n\<rparr>"
  "staking_view (a\<lparr>original_owner := u\<rparr>) = (staking_view a)\<lparr>staking_original_owner := u\<rparr>"
  "staking_view (a\<lparr>entering_epoch := e\<rparr>) = staking_view a"
  by (simp_all add: staking_view_def)

lemma staking_view_total: "staking_get_total_supply (staking_view a) = farm_get_total_supply a"
  by (simp add: staking_get_total_supply_def farm_get_total_supply_def)

lemma staking_view_part: "staking_into_part (staking_view a) n = and_then (farm_into_part a n) (\<lambda>b. Inr (staking_view b))"
  by (cases "rule_of_three (farm_get_total_supply a) n (compounded_reward a)")
    (simp_all add: staking_into_part_def farm_into_part_def staking_view_total staking_view_upd)

lemma staking_view_merge:
  "staking_merge_with (staking_view a) (staking_view b) = and_then (farm_merge_with a b) (\<lambda>c. Inr (staking_view c))"
  by (cases "weighted_average_round_up (reward_per_share a) (farm_get_total_supply a) (reward_per_share b)
       (farm_get_total_supply b)")
    (simp_all add: staking_merge_with_def farm_merge_with_def staking_can_merge_with_def farm_can_merge_with_def
      staking_view_total staking_view_upd require_def)

section \<open>Storage\<close>

text \<open>\<open>unbond_attributes\<close> are the attributes of the nonces that are unbond tokens, data of the protocol.\<close>

record staking_storage = farm_storage +
  accumulated_rewards :: biguint
  reward_capacity :: biguint
  max_annual_percentage_rewards :: biguint
  min_unbond_epochs :: u64
  unbond_attributes :: "u64 \<Rightarrow> unbond_sft_attributes option"

definition STAKING_MAX_PERCENT :: nat where "STAKING_MAX_PERCENT = 10000"
definition BLOCKS_IN_YEAR :: nat where "BLOCKS_IN_YEAR = 31536000 div 6"
definition MAX_MIN_UNBOND_EPOCHS :: u64 where "MAX_MIN_UNBOND_EPOCHS = 30"
definition WITHDRAW_AMOUNT_TOO_HIGH :: error where
  "WITHDRAW_AMOUNT_TOO_HIGH = SignalError ''Withdraw amount is higher than the remaining uncollected rewards!''"

section \<open>base_impl_wrapper.rs\<close>

definition get_amount_apr_bounded :: "staking_storage \<Rightarrow> biguint \<Rightarrow> biguint" where
  "get_amount_apr_bounded st a =
     a * max_annual_percentage_rewards st div STAKING_MAX_PERCENT div BLOCKS_IN_YEAR"

text \<open>The rewards are there already.\<close>

definition staking_mint_rewards :: mint_rewards where
  "staking_mint_rewards token a = []"

definition staking_mint_per_block_rewards ::
  "'e blockchain_scheme \<Rightarrow> staking_storage \<Rightarrow> biguint \<times> staking_storage" where
  "staking_mint_per_block_rewards env st =
     (let current_block_nonce = get_block_nonce env; last_reward_nonce = last_reward_block_nonce st in
      if current_block_nonce \<le> last_reward_nonce then (0, st)
      else
        let extra_rewards_unbounded = calculate_per_block_rewards st current_block_nonce last_reward_nonce;
            extra_rewards_apr_bounded_per_block = get_amount_apr_bounded st (farm_token_supply st);
            block_nonce_diff = current_block_nonce - last_reward_nonce;
            extra_rewards_apr_bounded = extra_rewards_apr_bounded_per_block * unat block_nonce_diff in
        (min extra_rewards_unbounded extra_rewards_apr_bounded,
         st\<lparr>last_reward_block_nonce := current_block_nonce\<rparr>))"

definition staking_generate_aggregated_rewards ::
  "('e blockchain_scheme, staking_storage) farm_generate" where
  "staking_generate_aggregated_rewards env st c =
     and_then (big_sub (reward_capacity st) (accumulated_rewards st)) (\<lambda>remaining_rewards.
     let accumulated = accumulated_rewards st;
         (total_reward, st) = staking_mint_per_block_rewards env st;
         total_reward = min total_reward remaining_rewards in
     if total_reward = 0 then Inr (st, c, [])
     else
       let c = c\<lparr>cache_reward_reserve := cache_reward_reserve c + total_reward\<rparr>;
           st = st\<lparr>accumulated_rewards := accumulated + total_reward\<rparr> in
       and_then (take_reward_slice env st total_reward) (\<lambda>(split_rewards, st).
       if 0 < cache_farm_token_supply c then
         and_then (big_div (base_farm split_rewards * cache_division_safety_constant c) (cache_farm_token_supply c))
           (\<lambda>increase.
         Inr (st, c\<lparr>cache_reward_per_share := cache_reward_per_share c + increase\<rparr>, []))
       else Inr (st, c, [])))"

definition calculate_base_farm_rewards ::
  "biguint \<Rightarrow> farm_token_attributes \<Rightarrow> farm_cache \<Rightarrow> error + biguint" where
  "calculate_base_farm_rewards farm_token_amount attr c =
     (let token_rps = reward_per_share attr in
      if token_rps < cache_reward_per_share c then
        let rps_diff = cache_reward_per_share c - token_rps in
        big_div (farm_token_amount * rps_diff) (cache_division_safety_constant c)
      else Inr 0)"

definition staking_calculate_boosted_rewards ::
  "'e energy_query_env_scheme \<Rightarrow> staking_storage \<Rightarrow> address \<Rightarrow> error + (biguint \<times> staking_storage)" where
  "staking_calculate_boosted_rewards env st caller =
     (let user_total = user_total_farm_position st caller in
      claim_boosted_yields_rewards env st caller user_total)"

definition staking_calculate_rewards :: "('e energy_query_env_scheme, staking_storage) farm_calculate" where
  "staking_calculate_rewards env st caller farm_token_amount attr c =
     and_then (calculate_base_farm_rewards farm_token_amount attr c) (\<lambda>base_farm_reward.
     and_then (staking_calculate_boosted_rewards env st caller) (\<lambda>(boosted_yield_rewards, st).
     Inr (base_farm_reward + boosted_yield_rewards, st)))"

definition staking_enter_attributes :: "address \<Rightarrow> biguint \<Rightarrow> biguint \<Rightarrow> staking_attributes" where
  "staking_enter_attributes caller farming_token_amount current_reward_per_share =
     \<lparr>staking_reward_per_share = current_reward_per_share, staking_compounded_reward = 0,
      staking_current_farm_amount = farming_token_amount, staking_original_owner = caller\<rparr>"

definition staking_claim_attributes :: "address \<Rightarrow> staking_attributes \<Rightarrow> biguint \<Rightarrow> staking_attributes" where
  "staking_claim_attributes caller first current_reward_per_share =
     \<lparr>staking_reward_per_share = current_reward_per_share,
      staking_compounded_reward = staking_compounded_reward first,
      staking_current_farm_amount = staking_current_farm_amount first, staking_original_owner = caller\<rparr>"

definition staking_compound_attributes ::
  "address \<Rightarrow> staking_attributes \<Rightarrow> biguint \<Rightarrow> biguint \<Rightarrow> staking_attributes" where
  "staking_compound_attributes caller first current_reward_per_share rew =
     (let new_pos_compounded_reward = staking_compounded_reward first + rew;
          new_pos_current_farm_amount = staking_current_farm_amount first + rew in
      \<lparr>staking_reward_per_share = current_reward_per_share,
       staking_compounded_reward = new_pos_compounded_reward,
       staking_current_farm_amount = new_pos_current_farm_amount, staking_original_owner = caller\<rparr>)"

fun staking_check_and_update_user_farm_position ::
  "staking_storage \<Rightarrow> address \<Rightarrow> esdt_payment list \<Rightarrow> error + staking_storage" where
  "staking_check_and_update_user_farm_position st user [] = Inr st"
| "staking_check_and_update_user_farm_position st user (p # ps) =
     (if is_old_farm_position st (token_nonce p) then staking_check_and_update_user_farm_position st user ps
      else
        require_same_farm_token st (token_identifier p)
       (and_then (get_farm_token_attributes st (token_nonce p)) (\<lambda>attr.
        if original_owner attr \<noteq> user then
          and_then (decrease_user_farm_position st p) (\<lambda>st.
          staking_check_and_update_user_farm_position (increase_user_farm_position st user (amount p)) user ps)
        else staking_check_and_update_user_farm_position st user ps)))"

text \<open>
  What this contract replaces is, up to the entering epoch, what the base does: the base operations
  are used for it with the generation and the calculation of rewards above. The two checks of the
  positions differ only on tokens of another identifier, which the contexts have refused before.
\<close>

lemma staking_attributes_are_the_farms:
  "staking_view (create_enter_farm_initial_attributes env u n r) = staking_enter_attributes u n r"
  "staking_view (create_claim_rewards_initial_attributes u a r) = staking_claim_attributes u (staking_view a) r"
  "staking_view (create_compound_rewards_initial_attributes env u a r x) =
     staking_compound_attributes u (staking_view a) r x"
  by (simp_all add: staking_view_def create_enter_farm_initial_attributes_def staking_enter_attributes_def
      create_claim_rewards_initial_attributes_def staking_claim_attributes_def farm_get_total_supply_def
      create_compound_rewards_initial_attributes_def staking_compound_attributes_def)

lemma staking_calculate_rewards_eq: "staking_calculate_rewards = farm_calculate_rewards"
  by (simp add: fun_eq_iff staking_calculate_rewards_def farm_calculate_rewards_def calculate_base_farm_rewards_def
      default_calculate_rewards_def staking_calculate_boosted_rewards_def calculate_boosted_rewards_def Let_def)

lemma get_farm_token_id_positions [simp]:
  "get_farm_token_id (st\<lparr>user_total_farm_position := x\<rparr>) = get_farm_token_id st"
  by (simp add: get_farm_token_id_def)

lemma staking_check_and_update_eq:
  "list_all (\<lambda>p. get_farm_token_id st = Inr (token_identifier p)) ps \<Longrightarrow>
   staking_check_and_update_user_farm_position st user ps = check_and_update_user_farm_position st user ps"
proof (induction ps arbitrary: st)
  case (Cons p ps)
  let ?st = "\<lambda>t. increase_user_farm_position (st\<lparr>user_total_farm_position := t\<rparr>) user (amount p)"
  have same: "get_farm_token_id (?st t) = get_farm_token_id st" for t
    by (simp add: increase_user_farm_position_def)
  have "and_then (decrease_user_farm_position st p) (\<lambda>st.
      staking_check_and_update_user_farm_position (increase_user_farm_position st user (amount p)) user ps) =
    and_then (decrease_user_farm_position st p) (\<lambda>st.
      check_and_update_user_farm_position (increase_user_farm_position st user (amount p)) user ps)"
    if "\<not> is_old_farm_position st (token_nonce p)"
    using that Cons.prems Cons.IH [of "?st t" for t]
    by (cases "get_farm_token_attributes st (token_nonce p)")
      (auto simp: decrease_user_farm_position_def Let_def same simp del: fun_upd_apply)
  then show ?case
    using Cons by (auto simp: require_same_farm_token_def intro!: arg_cong [of _ _ "and_then _"])
qed simp

section \<open>The endpoints\<close>

text \<open>
  The endpoints of the staking farm: staking, claiming, compounding, unstaking, unbonding and the
  administration of the rewards. Every endpoint writes its storage cache back when it ends.
\<close>

type_synonym staking_result = "error + (esdt_payment list \<times> staking_storage \<times> effect list)"

section \<open>claim_only_boosted_staking_rewards.rs\<close>

definition staking_claim_only_boosted_payment ::
  "'e energy_query_env_scheme \<Rightarrow> staking_storage \<Rightarrow> address \<Rightarrow> error + (biguint \<times> staking_storage)" where
  "staking_claim_only_boosted_payment env st caller =
     and_then (staking_calculate_boosted_rewards env st caller) (\<lambda>(rew, st).
     if 0 < rew then
       and_then (big_sub (reward_reserve st) rew) (\<lambda>reserve. Inr (rew, st\<lparr>reward_reserve := reserve\<rparr>))
     else Inr (rew, st))"

definition staking_migrate_old_farm_positions ::
  "staking_storage \<Rightarrow> address \<Rightarrow> esdt_payment list \<Rightarrow> error + (biguint \<times> staking_storage)" where
  "staking_migrate_old_farm_positions st caller ps =
     and_then (get_farm_token_id st) (\<lambda>t.
     let migrated_amount = sum_list (map amount
           (filter (\<lambda>p. token_identifier p = t \<and> is_old_farm_position st (token_nonce p)) ps)) in
     Inr (migrated_amount,
          if 0 < migrated_amount then increase_user_farm_position st caller migrated_amount else st))"

definition staking_decrease_old_farm_positions ::
  "staking_storage \<Rightarrow> biguint \<Rightarrow> address \<Rightarrow> staking_storage" where
  "staking_decrease_old_farm_positions st migrated_amount caller =
     (if migrated_amount = 0 then st
      else st\<lparr>user_total_farm_position := (user_total_farm_position st)
        (caller := reduce_total_position (user_total_farm_position st caller) migrated_amount)\<rparr>)"

definition staking_claim_boosted_rewards ::
  "'e energy_query_env_scheme \<Rightarrow> staking_storage \<Rightarrow> address option \<Rightarrow> staking_result" where
  "staking_claim_boosted_rewards env st opt_user =
     (let caller = get_caller env;
          user = (case opt_user of Some u \<Rightarrow> u | None \<Rightarrow> caller) in
      require (user \<noteq> caller \<longrightarrow> allow_external_claim st user)
        (SignalError ''Cannot claim rewards for this address'')
     (require (user_total_farm_position st user \<noteq> 0)
        (SignalError ''User total farm position is empty!'')
     (and_then (farm_cache_new st) (\<lambda>c.
      validate_contract_state env c
     (and_then (staking_generate_aggregated_rewards env st c) (\<lambda>(st, c, es).
      and_then (staking_claim_only_boosted_payment env st user) (\<lambda>(boosted_rewards, st).
      let boosted_rewards_payment = new_payment (reward_token_id st) 0 boosted_rewards in
      and_then (set_farm_supply_for_current_week env st (cache_farm_token_supply c)) (\<lambda>st.
      Inr ([boosted_rewards_payment], farm_cache_drop c st,
           es @ send_payment_non_zero user boosted_rewards_payment)))))))))"

section \<open>stake_farm.rs\<close>

text \<open>\<open>transfers\<close> are the tokens of the call, \<open>ps\<close> what the farm is entered with.\<close>

definition stake_farm_common ::
  "'e energy_query_env_scheme \<Rightarrow> staking_storage \<Rightarrow> esdt_payment list \<Rightarrow> address \<Rightarrow> esdt_payment list \<Rightarrow>
     staking_result" where
  "stake_farm_common env st transfers original_caller ps =
     (let caller = get_caller env in
      and_then (staking_migrate_old_farm_positions st original_caller transfers) (\<lambda>(migrated_amount, st).
      and_then (staking_claim_only_boosted_payment env st original_caller) (\<lambda>(boosted_rewards, st).
      let boosted_rewards_payment = new_payment (reward_token_id st) 0 boosted_rewards in
      and_then (enter_farm_base staking_generate_aggregated_rewards env st original_caller ps)
        (\<lambda>(new_farm_token, c, st, es).
      and_then (set_farm_supply_for_current_week env st (cache_farm_token_supply c)) (\<lambda>st.
      and_then (update_energy_and_progress env st original_caller) (\<lambda>st.
      Inr ([new_farm_token, boosted_rewards_payment], farm_cache_drop c st,
           es @ send_payment_non_zero caller new_farm_token @
           send_payment_non_zero caller boosted_rewards_payment)))))))"

definition stake_farm_through_proxy ::
  "'e energy_query_env_scheme \<Rightarrow> staking_storage \<Rightarrow> esdt_payment list \<Rightarrow> biguint \<Rightarrow> address \<Rightarrow> staking_result" where
  "stake_farm_through_proxy env st transfers staked_token_amount original_caller =
     require_sc_address_whitelisted (farm_sc_whitelist st) (get_caller env)
    (let staked_token_id = farming_token_id st;
         staked_token_simulated_payment = new_payment staked_token_id 0 staked_token_amount in
     stake_farm_common env st transfers original_caller ([staked_token_simulated_payment] @ transfers))"

definition stake_farm_endpoint ::
  "'e energy_query_env_scheme \<Rightarrow> staking_storage \<Rightarrow> esdt_payment list \<Rightarrow> address option \<Rightarrow> staking_result" where
  "stake_farm_endpoint env st transfers opt_original_caller =
     (let caller = get_caller env in
      and_then (get_orig_caller_from_opt (farm_sc_whitelist st) caller opt_original_caller) (\<lambda>original_caller.
      and_then (get_non_empty_payments transfers) (\<lambda>ps.
      stake_farm_common env st transfers original_caller ps)))"

section \<open>claim_stake_farm_rewards.rs\<close>

text \<open>A whitelisted contract may give the position a new value while it claims.\<close>

definition set_new_farming_amount ::
  "staking_storage \<Rightarrow> farm_cache \<Rightarrow> farm_token_attributes \<Rightarrow> biguint \<Rightarrow> address \<Rightarrow> biguint option \<Rightarrow>
     error + (staking_storage \<times> farm_cache \<times> farm_token_attributes \<times> biguint)" where
  "set_new_farming_amount st c attr virtual_amount original_caller opt_new_farming_amount =
     (case opt_new_farming_amount of
        None \<Rightarrow> Inr (st, c, attr, virtual_amount)
      | Some new_amount \<Rightarrow>
          and_then (big_sub (cache_farm_token_supply c) virtual_amount) (\<lambda>supply.
          let c = c\<lparr>cache_farm_token_supply := supply + new_amount\<rparr> in
          and_then (big_sub (user_total_farm_position st original_caller) virtual_amount) (\<lambda>user_total.
          let st = st\<lparr>user_total_farm_position :=
                (user_total_farm_position st)(original_caller := user_total + new_amount)\<rparr> in
          Inr (st, c, attr\<lparr>current_farm_amount := new_amount\<rparr>, new_amount))))"

definition claim_rewards_common ::
  "'e energy_query_env_scheme \<Rightarrow> staking_storage \<Rightarrow> esdt_payment list \<Rightarrow> address \<Rightarrow> biguint option \<Rightarrow>
     staking_result" where
  "claim_rewards_common env st transfers original_caller opt_new_farming_amount =
     and_then (staking_migrate_old_farm_positions st original_caller transfers) (\<lambda>(migrated_amount, st).
     and_then (single_esdt transfers) (\<lambda>payment.
     and_then (claim_rewards_base_no_farm_token_mint staking_generate_aggregated_rewards staking_calculate_rewards
                 env st original_caller [payment]) (\<lambda>(rewards, attr, c, st, es1).
     and_then (set_new_farming_amount st c attr (farm_get_total_supply attr) original_caller
                 opt_new_farming_amount) (\<lambda>(st, c, attr, virtual_amount).
     and_then (set_farm_supply_for_current_week env st (cache_farm_token_supply c)) (\<lambda>st.
     and_then (update_energy_and_progress env st original_caller) (\<lambda>st.
     and_then (farm_nft_create st virtual_amount attr) (\<lambda>(virtual_farm_token, st, es2).
     let caller = get_caller env in
     Inr ([virtual_farm_token, rewards], farm_cache_drop c st,
          es1 @ es2 @ send_payment_non_zero caller virtual_farm_token @ send_payment_non_zero caller rewards))))))))"

definition staking_claim_rewards ::
  "'e energy_query_env_scheme \<Rightarrow> staking_storage \<Rightarrow> esdt_payment list \<Rightarrow> address option \<Rightarrow> staking_result" where
  "staking_claim_rewards env st transfers opt_original_caller =
     (let caller = get_caller env in
      and_then (get_orig_caller_from_opt (farm_sc_whitelist st) caller opt_original_caller) (\<lambda>original_caller.
      claim_rewards_common env st transfers original_caller None))"

definition claim_rewards_with_new_value ::
  "'e energy_query_env_scheme \<Rightarrow> staking_storage \<Rightarrow> esdt_payment list \<Rightarrow> biguint \<Rightarrow> address \<Rightarrow> staking_result" where
  "claim_rewards_with_new_value env st transfers new_farming_amount original_caller =
     require_sc_address_whitelisted (farm_sc_whitelist st) (get_caller env)
       (claim_rewards_common env st transfers original_caller (Some new_farming_amount))"

section \<open>compound_stake_farm_rewards.rs\<close>

definition staking_compound_rewards ::
  "'e energy_query_env_scheme \<Rightarrow> staking_storage \<Rightarrow> esdt_payment list \<Rightarrow> staking_result" where
  "staking_compound_rewards env st transfers =
     (let caller = get_caller env in
      and_then (staking_migrate_old_farm_positions st caller transfers) (\<lambda>(migrated_amount, st).
      and_then (get_non_empty_payments transfers) (\<lambda>ps.
      and_then (compound_rewards_base staking_generate_aggregated_rewards staking_calculate_rewards env st caller ps)
        (\<lambda>(new_farm_token, c, st, es).
      and_then (set_farm_supply_for_current_week env st (cache_farm_token_supply c)) (\<lambda>st.
      Inr ([new_farm_token], farm_cache_drop c st, es @ send_payment_non_zero caller new_farm_token))))))"

section \<open>unstake_farm.rs\<close>

definition create_and_send_unbond_tokens ::
  "'e blockchain_scheme \<Rightarrow> staking_storage \<Rightarrow> address \<Rightarrow> token_id \<Rightarrow> biguint \<Rightarrow>
     esdt_payment \<times> staking_storage \<times> effect list" where
  "create_and_send_unbond_tokens env st dest farm_token_id a =
     (let current_epoch = get_block_epoch env;
          nft_nonce = farm_last_nonce st + 1;
          attr = \<lparr>unbond_unlock_epoch = current_epoch + min_unbond_epochs st\<rparr>;
          p = new_payment farm_token_id nft_nonce a in
      (p, st\<lparr>unbond_attributes := (unbond_attributes st)(nft_nonce := Some attr), farm_last_nonce := nft_nonce\<rparr>,
       [NftCreate farm_token_id a, DirectSend dest [p]]))"

definition unstake_farm_common ::
  "'e energy_query_env_scheme \<Rightarrow> staking_storage \<Rightarrow> esdt_payment list \<Rightarrow> address \<Rightarrow> esdt_payment \<Rightarrow>
     biguint option \<Rightarrow> staking_result" where
  "unstake_farm_common env st transfers original_caller payment opt_unbond_amount =
     and_then (staking_migrate_old_farm_positions st original_caller transfers) (\<lambda>(migrated_amount, st).
     and_then (exit_farm_base staking_generate_aggregated_rewards staking_calculate_rewards env st original_caller payment)
       (\<lambda>(farming_token_payment, reward_payment, attr, c, st, es1).
     let st = staking_decrease_old_farm_positions st migrated_amount original_caller;
         unbond_token_amount = (case opt_unbond_amount of Some a \<Rightarrow> a | None \<Rightarrow> amount farming_token_payment);
         caller = get_caller env;
         (unbond_farm_token, st, es2) =
           create_and_send_unbond_tokens env st caller (cache_farm_token_id c) unbond_token_amount in
     and_then (clear_user_energy_if_needed env st original_caller) (\<lambda>st.
     and_then (set_farm_supply_for_current_week env st (cache_farm_token_supply c)) (\<lambda>st.
     Inr ([unbond_farm_token, reward_payment], farm_cache_drop c st,
          es1 @ es2 @ send_payment_non_zero caller reward_payment)))))"

definition unstake_farm ::
  "'e energy_query_env_scheme \<Rightarrow> staking_storage \<Rightarrow> esdt_payment list \<Rightarrow> address option \<Rightarrow> staking_result" where
  "unstake_farm env st transfers opt_original_caller =
     (let caller = get_caller env in
      and_then (get_orig_caller_from_opt (farm_sc_whitelist st) caller opt_original_caller) (\<lambda>original_caller.
      and_then (single_esdt transfers) (\<lambda>payment.
      unstake_farm_common env st transfers original_caller payment None)))"

definition unstake_farm_through_proxy ::
  "'e energy_query_env_scheme \<Rightarrow> staking_storage \<Rightarrow> esdt_payment list \<Rightarrow> address \<Rightarrow> staking_result" where
  "unstake_farm_through_proxy env st transfers original_caller =
     require_sc_address_whitelisted (farm_sc_whitelist st) (get_caller env)
    (and_then (multi_esdt2 transfers) (\<lambda>(first_payment, second_payment).
     let staking_token_id = farming_token_id st in
     require (token_identifier first_payment = staking_token_id) (SignalError ''Invalid staking token received'')
       (unstake_farm_common env st transfers original_caller second_payment (Some (amount first_payment)))))"

section \<open>unbond_farm.rs\<close>

definition get_unbond_attributes :: "staking_storage \<Rightarrow> u64 \<Rightarrow> error + unbond_sft_attributes" where
  "get_unbond_attributes st n =
     (case unbond_attributes st n of None \<Rightarrow> Inl STORAGE_DECODE_ERROR | Some a \<Rightarrow> Inr a)"

definition unbond_farm ::
  "'e blockchain_scheme \<Rightarrow> staking_storage \<Rightarrow> esdt_payment list \<Rightarrow> staking_result" where
  "unbond_farm env st transfers =
     and_then (farm_cache_new st) (\<lambda>c.
     validate_contract_state env c
    (and_then (single_esdt transfers) (\<lambda>payment.
     require_same_farm_token st (token_identifier payment)
    (and_then (get_unbond_attributes st (token_nonce payment)) (\<lambda>attributes.
     require (unbond_unlock_epoch attributes \<le> get_block_epoch env) (SignalError ''Unbond period not over'')
    (let caller = get_caller env;
         farming_tokens = new_payment (cache_farming_token_id c) 0 (amount payment) in
     Inr ([farming_tokens], farm_cache_drop c st,
          [NftBurn (token_identifier payment) (token_nonce payment) (amount payment)] @
          send_payment_non_zero caller farming_tokens)))))))"

section \<open>custom_rewards.rs\<close>

text \<open>The framework's \<open>single_fungible_esdt()\<close>.\<close>

definition single_fungible_esdt :: "esdt_payment list \<Rightarrow> error + (token_id \<times> biguint)" where
  "single_fungible_esdt ps =
     and_then (single_esdt ps) (\<lambda>p.
     require (token_nonce p = 0) (SignalError ''fungible ESDT token expected'') (Inr (token_identifier p, amount p)))"

definition top_up_rewards ::
  "'e blockchain_scheme \<Rightarrow> staking_storage \<Rightarrow> esdt_payment list \<Rightarrow> error + staking_storage" where
  "top_up_rewards env st transfers =
     require_caller_has_admin_permissions (farm_permissions st) (get_caller env)
    (and_then (single_fungible_esdt transfers) (\<lambda>(payment_token, part).
     require (payment_token = reward_token_id st) (SignalError ''Invalid token'')
       (Inr (st\<lparr>reward_capacity := reward_capacity st + part\<rparr>))))"

definition withdraw_rewards ::
  "'e blockchain_scheme \<Rightarrow> staking_storage \<Rightarrow> biguint \<Rightarrow> error + (staking_storage \<times> effect list)" where
  "withdraw_rewards env st withdraw_amount =
     require_caller_has_admin_permissions (farm_permissions st) (get_caller env)
    (and_then (farm_cache_new st) (\<lambda>c.
     and_then (staking_generate_aggregated_rewards env st c) (\<lambda>(st, c, es).
     and_then (big_sub (reward_capacity st) (accumulated_rewards st)) (\<lambda>remaining_rewards.
     require (withdraw_amount \<le> remaining_rewards) WITHDRAW_AMOUNT_TOO_HIGH
    (require (withdraw_amount \<le> reward_capacity st) (SignalError ''Not enough rewards to withdraw'')
    (and_then (big_sub (reward_capacity st) withdraw_amount) (\<lambda>rewards.
     let st = st\<lparr>reward_capacity := rewards\<rparr>; caller = get_caller env in
     Inr (farm_cache_drop c st, es @ send_tokens_non_zero caller (reward_token_id st) 0 withdraw_amount))))))))"

definition staking_end_produce_rewards ::
  "'e blockchain_scheme \<Rightarrow> staking_storage \<Rightarrow> error + (staking_storage \<times> effect list)" where
  "staking_end_produce_rewards env st =
     require_caller_has_admin_permissions (farm_permissions st) (get_caller env)
    (and_then (farm_cache_new st) (\<lambda>c.
     and_then (staking_generate_aggregated_rewards env st c) (\<lambda>(st, c, es).
     Inr (farm_cache_drop c (st\<lparr>produce_rewards_enabled := False\<rparr>), es))))"

definition staking_set_per_block_rewards ::
  "'e blockchain_scheme \<Rightarrow> staking_storage \<Rightarrow> biguint \<Rightarrow> error + (staking_storage \<times> effect list)" where
  "staking_set_per_block_rewards env st per_block_amount =
     require_caller_has_admin_permissions (farm_permissions st) (get_caller env)
    (require (per_block_amount \<noteq> 0) (SignalError ''Amount cannot be zero'')
    (and_then (farm_cache_new st) (\<lambda>c.
     and_then (staking_generate_aggregated_rewards env st c) (\<lambda>(st, c, es).
     Inr (farm_cache_drop c (st\<lparr>per_block_reward_amount := per_block_amount\<rparr>), es)))))"

definition set_max_apr ::
  "'e blockchain_scheme \<Rightarrow> staking_storage \<Rightarrow> biguint \<Rightarrow> error + (staking_storage \<times> effect list)" where
  "set_max_apr env st max_apr =
     require_caller_has_admin_permissions (farm_permissions st) (get_caller env)
    (require (max_apr \<noteq> 0) (SignalError ''Max APR cannot be zero'')
    (and_then (farm_cache_new st) (\<lambda>c.
     and_then (staking_generate_aggregated_rewards env st c) (\<lambda>(st, c, es).
     Inr (farm_cache_drop c (st\<lparr>max_annual_percentage_rewards := max_apr\<rparr>), es)))))"

definition try_set_min_unbond_epochs :: "staking_storage \<Rightarrow> u64 \<Rightarrow> error + staking_storage" where
  "try_set_min_unbond_epochs st epochs =
     require (epochs \<le> MAX_MIN_UNBOND_EPOCHS) (SignalError ''Invalid min unbond epochs'')
       (Inr (st\<lparr>min_unbond_epochs := epochs\<rparr>))"

definition set_min_unbond_epochs_endpoint ::
  "'e blockchain_scheme \<Rightarrow> staking_storage \<Rightarrow> u64 \<Rightarrow> error + staking_storage" where
  "set_min_unbond_epochs_endpoint env st epochs =
     require_caller_has_admin_permissions (farm_permissions st) (get_caller env)
       (try_set_min_unbond_epochs st epochs)"

definition staking_start_produce_rewards ::
  "'e blockchain_scheme \<Rightarrow> staking_storage \<Rightarrow> error + staking_storage" where
  "staking_start_produce_rewards env st =
     require_caller_has_admin_permissions (farm_permissions st) (get_caller env) (start_produce_rewards env st)"

section \<open>lib.rs\<close>

definition staking_init ::
  "'e blockchain_scheme \<Rightarrow> staking_storage \<Rightarrow> token_id \<Rightarrow> biguint \<Rightarrow> biguint \<Rightarrow> u64 \<Rightarrow> address \<Rightarrow> address list \<Rightarrow>
     error + staking_storage" where
  "staking_init env st farming_id dsc max_apr epochs owner admins =
     and_then (base_farm_init env st farming_id farming_id dsc owner admins) (\<lambda>st.
     require (0 < max_apr) (SignalError ''Invalid max APR percentage'')
    (let st = st\<lparr>max_annual_percentage_rewards :=
           (if max_annual_percentage_rewards st = 0 then max_apr else max_annual_percentage_rewards st)\<rparr> in
     require (epochs \<le> MAX_MIN_UNBOND_EPOCHS) (SignalError ''Invalid min unbond epochs'')
    (let st = st\<lparr>min_unbond_epochs := (if min_unbond_epochs st = 0 then epochs else min_unbond_epochs st),
               first_week_start_epoch :=
                 (if first_week_start_epoch st = 0 then get_block_epoch env else first_week_start_epoch st)\<rparr> in
     Inr (try_set_farm_position_migration_nonce st))))"

definition staking_upgrade :: "'e blockchain_scheme \<Rightarrow> staking_storage \<Rightarrow> staking_storage" where
  "staking_upgrade env st =
     try_set_farm_position_migration_nonce
       (st\<lparr>first_week_start_epoch :=
          (if first_week_start_epoch st = 0 then get_block_epoch env else first_week_start_epoch st)\<rparr>)"

definition staking_merge_farm_tokens ::
  "staking_storage \<Rightarrow> address \<Rightarrow> esdt_payment list \<Rightarrow>
     error + (farm_token_attributes \<times> staking_storage \<times> effect list)" where
  "staking_merge_farm_tokens st orig_caller transfers =
     and_then (get_non_empty_payments transfers) (\<lambda>ps.
     require_all_same_farm_token st ps
    (and_then (staking_check_and_update_user_farm_position st orig_caller ps) (\<lambda>st.
     and_then (merge_from_payments_and_burn st ps) (\<lambda>(attr, es). Inr (attr, st, es)))))"

definition staking_merge_and_update_farm_tokens ::
  "staking_storage \<Rightarrow> address \<Rightarrow> esdt_payment list \<Rightarrow> error + (esdt_payment \<times> staking_storage \<times> effect list)" where
  "staking_merge_and_update_farm_tokens st orig_caller transfers =
     and_then (staking_merge_farm_tokens st orig_caller transfers) (\<lambda>(output_attributes, st, es1).
     let output_attributes = output_attributes\<lparr>original_owner := orig_caller\<rparr>;
         new_token_amount = farm_get_total_supply output_attributes in
     and_then (farm_nft_create st new_token_amount output_attributes) (\<lambda>(p, st, es2). Inr (p, st, es1 @ es2)))"

definition staking_merge_farm_tokens_endpoint ::
  "'e energy_query_env_scheme \<Rightarrow> staking_storage \<Rightarrow> esdt_payment list \<Rightarrow> staking_result" where
  "staking_merge_farm_tokens_endpoint env st transfers =
     (let caller = get_caller env in
      and_then (staking_migrate_old_farm_positions st caller transfers) (\<lambda>(migrated_amount, st).
      and_then (staking_claim_only_boosted_payment env st caller) (\<lambda>(boosted_rewards, st).
      let boosted_rewards_payment = new_payment (reward_token_id st) 0 boosted_rewards in
      and_then (staking_merge_and_update_farm_tokens st caller transfers) (\<lambda>(merged_farm_token, st, es).
      Inr ([merged_farm_token, boosted_rewards_payment], st,
           es @ send_payment_non_zero caller merged_farm_token @
           send_payment_non_zero caller boosted_rewards_payment)))))"

definition staking_set_boosted_percentage ::
  "'e blockchain_scheme \<Rightarrow> staking_storage \<Rightarrow> u64 \<Rightarrow> error + (staking_storage \<times> effect list)" where
  "staking_set_boosted_percentage env st percentage =
     require_caller_has_admin_permissions (farm_permissions st) (get_caller env)
    (require (unat percentage \<le> MAX_PERCENT) (SignalError ''Invalid percentage'')
    (and_then (farm_cache_new st) (\<lambda>c.
     and_then (staking_generate_aggregated_rewards env st c) (\<lambda>(st, c, es).
     Inr (farm_cache_drop c (st\<lparr>boosted_yields_rewards_percentage := percentage\<rparr>), es)))))"

text \<open>A query: its changes of the storage are thrown away.\<close>

definition staking_calculate_rewards_for_given_position ::
  "'e energy_query_env_scheme \<Rightarrow> staking_storage \<Rightarrow> biguint \<Rightarrow> farm_token_attributes \<Rightarrow> error + biguint" where
  "staking_calculate_rewards_for_given_position env st farm_token_amount attr =
     require_queried env
    (and_then (farm_cache_new st) (\<lambda>c.
     and_then (staking_generate_aggregated_rewards env st c) (\<lambda>(st, c, es).
     and_then (staking_calculate_rewards env st zero_address farm_token_amount attr c) (\<lambda>(rew, st).
     Inr rew))))"

text \<open>What is copied from the farm is the farm's.\<close>

lemma require_all_same_cong:
  assumes "list_all (\<lambda>p. get_farm_token_id st = Inr (token_identifier p)) ps \<Longrightarrow> k = k'"
  shows "require_all_same_farm_token st ps k = require_all_same_farm_token st ps k'"
  using assms
proof (induction ps)
  case (Cons p ps)
  then show ?case
    by (cases "get_farm_token_id st") (auto simp: require_same_farm_token_def require_def)
qed simp

lemma staking_copies:
  "staking_claim_only_boosted_payment = claim_only_boosted_payment"
  "staking_decrease_old_farm_positions = decrease_old_farm_positions"
  "staking_merge_and_update_farm_tokens = merge_and_update_farm_tokens"
  "staking_upgrade env st = farm_upgrade env st"
proof -
  show "staking_claim_only_boosted_payment = claim_only_boosted_payment"
    by (simp add: fun_eq_iff staking_claim_only_boosted_payment_def claim_only_boosted_payment_def
        staking_calculate_boosted_rewards_def calculate_boosted_rewards_def Let_def)
  show "staking_decrease_old_farm_positions = decrease_old_farm_positions"
    by (simp add: fun_eq_iff staking_decrease_old_farm_positions_def decrease_old_farm_positions_def)
  have "staking_merge_farm_tokens st u ps = merge_and_return_attributes st u ps" for st u ps
  proof (cases "get_non_empty_payments ps")
    case (Inr b)
    have "require_all_same_farm_token st b (and_then (staking_check_and_update_user_farm_position st u b) f) =
        require_all_same_farm_token st b (and_then (check_and_update_user_farm_position st u b) f)"
      for f :: "staking_storage \<Rightarrow> error + farm_token_attributes \<times> staking_storage \<times> effect list"
      by (rule require_all_same_cong) (simp add: staking_check_and_update_eq)
    then show ?thesis by (simp add: staking_merge_farm_tokens_def merge_and_return_attributes_def Inr)
  qed (simp add: staking_merge_farm_tokens_def merge_and_return_attributes_def)
  then show "staking_merge_and_update_farm_tokens = merge_and_update_farm_tokens"
    by (simp add: fun_eq_iff staking_merge_and_update_farm_tokens_def merge_and_update_farm_tokens_def Let_def)
  show "staking_upgrade env st = farm_upgrade env st" by (simp add: staking_upgrade_def farm_upgrade_def)
qed

end
