(* ===== verification/StakingBooks.thy ===== *)
theory StakingBooks
  imports Staking FarmBooks
begin

text \<open>
  The staking farm meets the interface of generating rewards, and what its operations do to the
  storage that it adds to the farm's.
\<close>

section \<open>Generating rewards\<close>

definition staking_generated :: "'e blockchain_scheme \<Rightarrow> staking_storage \<Rightarrow> nat" where
  "staking_generated env st =
     min (fst (staking_mint_per_block_rewards env st)) (reward_capacity st - accumulated_rewards st)"

definition staking_rest ::
  "'e blockchain_scheme \<Rightarrow> staking_storage \<Rightarrow>
   \<lparr>accumulated_rewards :: biguint, reward_capacity :: biguint, max_annual_percentage_rewards :: biguint,
    min_unbond_epochs :: u64, unbond_attributes :: u64 \<Rightarrow> unbond_sft_attributes option\<rparr>" where
  "staking_rest env st =
     farm_storage.more (st\<lparr>accumulated_rewards := accumulated_rewards st + staking_generated env st\<rparr>)"


lemma staking_mint_Inr:
  "staking_mint_per_block_rewards env st =
     (fst (staking_mint_per_block_rewards env st),
      st\<lparr>last_reward_block_nonce := max (last_reward_block_nonce st) (get_block_nonce env)\<rparr>)"
  by (auto simp: staking_mint_per_block_rewards_def Let_def max_def)

lemma staking_generate_Inr:
  assumes "staking_generate_aggregated_rewards env st c = Inr (st', c', es)"
  obtains x y nonce acc where
    "st' = st\<lparr>last_reward_block_nonce := nonce, accumulated_rewards_for_week := acc,
       accumulated_rewards := accumulated_rewards st + staking_generated env st\<rparr>"
    and "boosted_total st' = boosted_total st + y"
    and "c' = c\<lparr>cache_reward_reserve := cache_reward_reserve c + staking_generated env st,
           cache_reward_per_share := cache_reward_per_share c + x\<rparr>"
    and "cache_farm_token_supply c * x + cache_division_safety_constant c * y \<le>
      cache_division_safety_constant c * staking_generated env st"
    and "es = []" "accumulated_rewards st \<le> reward_capacity st"
proof -
  define g where "g = staking_generated env st"
  define n where "n = max (last_reward_block_nonce st) (get_block_nonce env)"
  let ?st = "st\<lparr>last_reward_block_nonce := n\<rparr>" and ?acc = "accumulated_rewards st + g"
    and ?supply = "cache_farm_token_supply c" and ?dsc = "cache_division_safety_constant c"
  have le: "accumulated_rewards st \<le> reward_capacity st"
    using assms by (auto simp: staking_generate_aggregated_rewards_def and_then_Inr big_sub_Inr)
  define k where "k = fst (staking_mint_per_block_rewards env st)"
  have mint: "staking_mint_per_block_rewards env st = (k, ?st)"
    unfolding k_def n_def by (rule staking_mint_Inr)
  have g: "min k (reward_capacity st - accumulated_rewards st) = g"
    by (simp add: g_def staking_generated_def k_def)
  note run = assms [unfolded staking_generate_aggregated_rewards_def big_sub_ok [OF le] and_then_simps Let_def
      mint prod.case g]
  show thesis
  proof (cases "g = 0")
    case True
    then have res: "st' = ?st" "c' = c" "es = []" using run by simp_all
    show thesis
      by (rule that [where nonce = n and acc = "accumulated_rewards_for_week st" and x = 0 and y = 0])
        (simp_all add: res True g_def [symmetric] le boosted_total_def)
  next
    case False
    obtain s st1 where slice: "take_reward_slice env (?st\<lparr>accumulated_rewards := ?acc\<rparr>) g = Inr (s, st1)"
      using run [unfolded if_not_P [OF False] and_then_Inr] by fastforce
    note run1 = run [unfolded if_not_P [OF False] slice and_then_simps prod.case]
    define x where "x = (if ?supply \<noteq> 0 then base_farm s * ?dsc div ?supply else 0)"
    have res: "st' = st1 \<and> es = [] \<and>
      c' = c\<lparr>cache_reward_reserve := cache_reward_reserve c + g, cache_reward_per_share := cache_reward_per_share c + x\<rparr>"
      using run1 by (cases c; cases "?supply = 0") (auto simp: x_def and_then_Inr big_div_Inr)
    obtain acc where acc: "st1 = ?st\<lparr>accumulated_rewards := ?acc, accumulated_rewards_for_week := acc\<rparr>"
      "boosted_total st1 = boosted_total (?st\<lparr>accumulated_rewards := ?acc\<rparr>) + boosted_farm s" "base_farm s + boosted_farm s = g"
      using slice by (rule take_reward_slice_Inr)
    have "?supply * x \<le> ?dsc * base_farm s"
      by (simp add: x_def mult.commute [of "base_farm s"] times_div_less_eq_dividend)
    then have bound: "?supply * x + ?dsc * boosted_farm s \<le> ?dsc * g"
      by (simp only: flip: acc(3)) (simp add: distrib_left)
    show thesis
    proof (rule that [OF _ _ _ _ _ le, folded g_def, OF _ _ _ bound])
      show "st' = st\<lparr>last_reward_block_nonce := n, accumulated_rewards_for_week := acc, accumulated_rewards := ?acc\<rparr>"
        using res acc(1) by simp
      show "boosted_total st' = boosted_total st + boosted_farm s"
        using res acc(2) by (simp add: boosted_total_def)
    qed (use res in simp_all)
  qed
qed

lemma no_mint_effects [simp]: "mint_effects staking_mint_rewards t g = []"
  by (simp add: mint_effects_def staking_mint_rewards_def)

lemma staking_generated_positions:
  "staking_generated env (st\<lparr>user_total_farm_position := x\<rparr>) = staking_generated env st"
  by (simp add: staking_generated_def staking_mint_per_block_rewards_def
      calculate_per_block_rewards_def get_amount_apr_bounded_def Let_def)

interpretation staking_gen: farm_generation staking_generate_aggregated_rewards staking_generated
  staking_mint_rewards staking_rest
proof
  fix env :: "'e energy_query_env_scheme" and st st' c c' es L l
  assume run: "staking_generate_aggregated_rewards env st c = Inr (st', c', es)"
    and c: "cache_farm_token_supply c = (\<Sum>n\<in>UNIV. L n)" "cache_reward_per_share c = stored_reward_per_share st"
      "cache_division_safety_constant c = division_safety_constant st"
    and ok: "tokens_ok (farm_attributes st) l (stored_reward_per_share st) L"
  obtain x y nonce acc where st': "st' = st\<lparr>last_reward_block_nonce := nonce, accumulated_rewards_for_week := acc,
       accumulated_rewards := accumulated_rewards st + staking_generated env st\<rparr>"
    and total: "boosted_total st' = boosted_total st + y"
    and c': "c' = c\<lparr>cache_reward_reserve := cache_reward_reserve c + staking_generated env st,
           cache_reward_per_share := cache_reward_per_share c + x\<rparr>"
    and bound: "cache_farm_token_supply c * x + cache_division_safety_constant c * y \<le>
      cache_division_safety_constant c * staking_generated env st"
    and es: "es = []"
    using run by (rule staking_generate_Inr)
  have "st' = farm_storage.more_update (\<lambda>_. staking_rest env st)
      (st\<lparr>last_reward_block_nonce := nonce, accumulated_rewards_for_week := acc\<rparr>)"
    by (cases st) (simp add: st' staking_rest_def)
  moreover have "owed_base (farm_attributes st) (stored_reward_per_share st + x) L +
      division_safety_constant st * boosted_total st' \<le> farm_pot st L + division_safety_constant st * staking_generated env st"
    using bound c by (simp add: total farm_pot_def owed_base_mono [OF ok] distrib_left)
  ultimately show "\<exists>r nonce acc. st' = farm_storage.more_update (\<lambda>_. staking_rest env st)
        (st\<lparr>last_reward_block_nonce := nonce, accumulated_rewards_for_week := acc\<rparr>) \<and>
      c' = c\<lparr>cache_reward_reserve := cache_reward_reserve c + staking_generated env st, cache_reward_per_share := r\<rparr> \<and>
      stored_reward_per_share st \<le> r \<and>
      owed_base (farm_attributes st) r L + division_safety_constant st * boosted_total st' \<le>
        farm_pot st L + division_safety_constant st * staking_generated env st \<and>
      es = mint_effects staking_mint_rewards (cache_reward_token_id c) (staking_generated env st)"
    using c by (intro exI [of _ "stored_reward_per_share st + x"] exI [of _ nonce] exI [of _ acc]) (simp add: c' es)
next
  fix env :: "'e energy_query_env_scheme" and st x
  show "staking_generated env (st\<lparr>user_total_farm_position := x\<rparr>) = staking_generated env st"
    by (rule staking_generated_positions)
  show "staking_rest env (st\<lparr>user_total_farm_position := x\<rparr>) = staking_rest env st"
    unfolding staking_rest_def staking_generated_positions by (cases st) simp
qed

section \<open>The storage of the staking farm\<close>

text \<open>What the operations that know nothing of it leave as it was.\<close>

definition same_rest :: "staking_storage \<Rightarrow> staking_storage \<Rightarrow> bool" where
  "same_rest st st' \<longleftrightarrow> farm_storage.more st' = farm_storage.more st"

lemma same_restD:
  assumes "same_rest st st'"
  shows "accumulated_rewards st' = accumulated_rewards st" "reward_capacity st' = reward_capacity st"
    "max_annual_percentage_rewards st' = max_annual_percentage_rewards st"
    "min_unbond_epochs st' = min_unbond_epochs st" "unbond_attributes st' = unbond_attributes st"
  using assms by (cases st; cases st'; simp add: same_rest_def)+

lemma same_rest_trans: "same_rest st s \<Longrightarrow> same_rest s st' \<Longrightarrow> same_rest st st'"
  by (simp add: same_rest_def)

lemma same_rest_farm: "farm_rest st' = farm_rest st \<Longrightarrow> same_rest st st'"
  unfolding same_rest_def by (rule farm_rest_more)

lemma weekly_rest_more:
  assumes "weekly_rest st' = weekly_rest st"
  shows "same_rest st st'"
  using arg_cong [OF assms, of farm_storage.more] by (simp add: same_rest_def weekly_rest_def)

lemma claim_only_same_rest:
  assumes "claim_only_boosted_payment env st u = Inr (b, st')"
  shows "same_rest st st'"
proof -
  obtain st1 where calc: "calculate_boosted_rewards env st u = Inr (b, st1)"
    and st': "st' = st1\<lparr>reward_reserve := reward_reserve st1 - b\<rparr>"
    using assms by (auto simp: claim_only_boosted_payment_def and_then_Inr big_sub_Inr split: if_splits)
  show ?thesis
    using same_rest_farm [OF calculate_boosted_rewards_rel [OF calc, unfolded boosted_rel_def, THEN conjunct1]]
    by (simp add: same_rest_def st')
qed

lemma staking_restD:
  assumes "farm_storage.more st' = staking_rest env st"
  shows "accumulated_rewards st' = accumulated_rewards st + staking_generated env st"
    "reward_capacity st' = reward_capacity st" "unbond_attributes st' = unbond_attributes st"
    "min_unbond_epochs st' = min_unbond_epochs st"
  using assms by (cases st; cases st'; simp add: staking_rest_def staking_storage.defs)+

section \<open>The books\<close>

text \<open>
  The staking farm as a step system with books: the ledger of the farm token's collection, which holds
  positions and unbond tokens, what the contract has received and paid of every token, and what
  whitelisted contracts have declared as staked with them and have taken back.
\<close>

section \<open>Calls\<close>

text \<open>\<open>withdrawRewards\<close> takes payments too, and keeps them: the books do not count them.\<close>

datatype staking_call =
    StakeFarm "esdt_payment list" "address option"
  | StakeFarmThroughProxy "esdt_payment list" biguint address
  | StakingClaim "esdt_payment list" "address option"
  | StakingClaimNewValue "esdt_payment list" biguint address
  | StakingCompound "esdt_payment list"
  | UnstakeFarm "esdt_payment list" "address option"
  | UnstakeFarmThroughProxy "esdt_payment list" address
  | UnbondFarm "esdt_payment list"
  | StakingMerge "esdt_payment list"
  | StakingBoosted "address option"
  | TopUpRewards "esdt_payment list"
  | WithdrawRewards biguint
  | StakingEndProduce
  | StakingPerBlock biguint
  | StakingMaxApr biguint
  | StakingMinUnbondEpochs u64
  | StakingBoostedPercentage u64
  | StakingShared farm_setting
  | StakingTokenIssued token_id

text \<open>The settings that the contract takes from the farm's modules as they are.\<close>

fun staking_shared :: "farm_setting \<Rightarrow> bool" where
  "staking_shared EndProduceRewards = False"
| "staking_shared (SetPerBlockRewards a) = False"
| "staking_shared (SetBoostedPercentage n) = False"
| "staking_shared (SetPenaltyPercent n) = False"
| "staking_shared (SetMinimumFarmingEpochs n) = False"
| "staking_shared (SetBurnGasLimit n) = False"
| "staking_shared c = True"

definition staking_quiet :: "error + (staking_storage \<times> effect list) \<Rightarrow> staking_result" where
  "staking_quiet r = and_then r (\<lambda>(st, es). Inr ([], st, es))"

fun staking_exec :: "energy_query_env \<Rightarrow> staking_storage \<Rightarrow> staking_call \<Rightarrow> staking_result" where
  "staking_exec env st (StakeFarm ps opt) = stake_farm_endpoint env st ps opt"
| "staking_exec env st (StakeFarmThroughProxy ps a u) = stake_farm_through_proxy env st ps a u"
| "staking_exec env st (StakingClaim ps opt) = staking_claim_rewards env st ps opt"
| "staking_exec env st (StakingClaimNewValue ps a u) = claim_rewards_with_new_value env st ps a u"
| "staking_exec env st (StakingCompound ps) = staking_compound_rewards env st ps"
| "staking_exec env st (UnstakeFarm ps opt) = unstake_farm env st ps opt"
| "staking_exec env st (UnstakeFarmThroughProxy ps u) = unstake_farm_through_proxy env st ps u"
| "staking_exec env st (UnbondFarm ps) = unbond_farm env st ps"
| "staking_exec env st (StakingMerge ps) = staking_merge_farm_tokens_endpoint env st ps"
| "staking_exec env st (StakingBoosted opt) = staking_claim_boosted_rewards env st opt"
| "staking_exec env st (TopUpRewards ps) = and_then (top_up_rewards env st ps) (\<lambda>st. Inr ([], st, []))"
| "staking_exec env st (WithdrawRewards a) = staking_quiet (withdraw_rewards env st a)"
| "staking_exec env st StakingEndProduce = staking_quiet (staking_end_produce_rewards env st)"
| "staking_exec env st (StakingPerBlock a) = staking_quiet (staking_set_per_block_rewards env st a)"
| "staking_exec env st (StakingMaxApr a) = staking_quiet (set_max_apr env st a)"
| "staking_exec env st (StakingMinUnbondEpochs n) =
     and_then (set_min_unbond_epochs_endpoint env st n) (\<lambda>st. Inr ([], st, []))"
| "staking_exec env st (StakingBoostedPercentage n) = staking_quiet (staking_set_boosted_percentage env st n)"
| "staking_exec env st (StakingShared c) =
     require (staking_shared c) (CallFailed ''function not found'')
       (staking_quiet (farm_set staking_mint_rewards env st c))"
| "staking_exec env st (StakingTokenIssued t) = and_then (farm_token_issued st t) (\<lambda>st. Inr ([], st, []))"

fun staking_payments :: "staking_call \<Rightarrow> esdt_payment list" where
  "staking_payments (StakeFarm ps opt) = ps"
| "staking_payments (StakeFarmThroughProxy ps a u) = ps"
| "staking_payments (StakingClaim ps opt) = ps"
| "staking_payments (StakingClaimNewValue ps a u) = ps"
| "staking_payments (StakingCompound ps) = ps"
| "staking_payments (UnstakeFarm ps opt) = ps"
| "staking_payments (UnstakeFarmThroughProxy ps u) = ps"
| "staking_payments (UnbondFarm ps) = ps"
| "staking_payments (StakingMerge ps) = ps"
| "staking_payments (TopUpRewards ps) = ps"
| "staking_payments call = []"

text \<open>What a whitelisted contract declares as staked, and the value of the positions it gives back.\<close>

fun staking_declared :: "staking_storage \<Rightarrow> staking_call \<Rightarrow> biguint \<times> biguint" where
  "staking_declared st (StakeFarmThroughProxy ps a u) = (a, 0)"
| "staking_declared st (StakingClaimNewValue ps a u) = (a, total_amount (farm_part st ps))"
| "staking_declared st (UnstakeFarmThroughProxy ps u) = (0, total_amount (farm_part st ps))"
| "staking_declared st call = (0, 0)"

section \<open>Books\<close>

record staking_books =
  staking_book_storage :: staking_storage
  staking_book_ledger :: ledger
  staking_book_received :: "token_id \<Rightarrow> biguint"
  staking_book_paid :: "token_id \<Rightarrow> biguint"
  declared_in :: biguint
  declared_out :: biguint

definition staking_step :: "staking_books \<Rightarrow> energy_query_env \<times> staking_call \<Rightarrow> error + staking_books" where
  "staking_step b x =
     (let (env, call) = x; st = staking_book_storage b; T = staking_book_ledger b; ps = staking_payments call in
      require (covered T (farm_part st ps)) (CallFailed ''insufficient funds'')
     (require (farm_last_nonce st + 1 \<noteq> 0) (CallFailed ''nonces exhausted'')
     (and_then (staking_exec env st call) (\<lambda>(qs, st', es).
      Inr \<lparr>staking_book_storage = st', staking_book_ledger = next_ledger st T ps st' es,
           staking_book_received = (\<lambda>t. staking_book_received b t + paid_in t ps + inflow t es),
           staking_book_paid = (\<lambda>t. staking_book_paid b t + outflow t es),
           declared_in = declared_in b + fst (staking_declared st call),
           declared_out = declared_out b + snd (staking_declared st call)\<rparr>))))"

text \<open>The two kinds of tokens in the collection.\<close>

definition positions :: "staking_storage \<Rightarrow> ledger \<Rightarrow> ledger" where
  "positions st T = (\<lambda>n. if unbond_attributes st n = None then T n else 0)"

definition unbonding :: "staking_storage \<Rightarrow> ledger \<Rightarrow> nat" where
  "unbonding st T = (\<Sum>n\<in>UNIV. if unbond_attributes st n = None then 0 else T n)"

definition unbonds_ok :: "staking_storage \<Rightarrow> bool" where
  "unbonds_ok st \<longleftrightarrow>
     (\<forall>n. unbond_attributes st n \<noteq> None \<longrightarrow> n \<le> farm_last_nonce st \<and> farm_attributes st n = None)"

text \<open>A call never changes when an unbond token is due.\<close>

definition unbonds_kept :: "staking_storage \<Rightarrow> staking_storage \<Rightarrow> bool" where
  "unbonds_kept st st' \<longleftrightarrow> unbonds_ok st' \<and> unbond_attributes st \<subseteq>\<^sub>m unbond_attributes st'"

lemma unbonds_keptI: "unbonds_ok st' \<Longrightarrow> unbond_attributes st' = unbond_attributes st \<Longrightarrow> unbonds_kept st st'"
  by (simp add: unbonds_kept_def)

definition staking_sound :: "staking_storage \<Rightarrow> ledger \<Rightarrow> bool" where
  "staking_sound st T \<longleftrightarrow> farm_inv st (positions st T) \<and> unbonds_ok st \<and>
     accumulated_rewards st \<le> reward_capacity st \<and> farming_token_id st = reward_token_id st"

text \<open>
  What the contract needs of the staked token, times the division safety constant: what is staked
  and what is unbonding, the rewards that are not generated yet, and what it owes in rewards.
\<close>

definition staking_need :: "staking_storage \<Rightarrow> ledger \<Rightarrow> nat" where
  "staking_need st T = division_safety_constant st *
       (farm_token_supply st + unbonding st T + (reward_capacity st - accumulated_rewards st)) +
     farm_pot st (positions st T)"

definition staking_inv :: "staking_books \<Rightarrow> bool" where
  "staking_inv b \<longleftrightarrow>
     (let st = staking_book_storage b; T = staking_book_ledger b; dsc = division_safety_constant st;
          f = farming_token_id st in
      staking_sound st T \<and>
      staking_need st T + dsc * (staking_book_paid b f + declared_out b) \<le>
        dsc * (staking_book_received b f + declared_in b) \<and>
      (\<forall>t. t \<noteq> f \<longrightarrow> staking_book_paid b t \<le> staking_book_received b t))"

section \<open>What a call may do\<close>

definition staking_call_ok ::
  "staking_storage \<Rightarrow> ledger \<Rightarrow> esdt_payment list \<Rightarrow> staking_storage \<Rightarrow> ledger \<Rightarrow> effect list \<Rightarrow> nat \<times> nat \<Rightarrow> bool" where
  "staking_call_ok st T ps st' T' es d \<longleftrightarrow> (\<exists>g x.
     farm_moves st (positions st T) st' (positions st' T') g x \<and> unbonds_kept st st' \<and>
     accumulated_rewards st' = accumulated_rewards st + g \<and> accumulated_rewards st' \<le> reward_capacity st' \<and>
     (\<forall>t. (if t = farming_token_id st
            then farm_token_supply st' + unbonding st' T' + reward_capacity st' + snd d else 0) + outflow t es \<le>
          (if t = farming_token_id st
            then farm_token_supply st + unbonding st T + reward_capacity st + fst d + x else 0) +
          paid_in t ps + inflow t es))"

lemma staking_call_okI:
  assumes "farm_moves st (positions st T) st' (positions st' T') g x" "unbonds_kept st st'"
    and "accumulated_rewards st' = accumulated_rewards st + g" "accumulated_rewards st' \<le> reward_capacity st'"
    and "\<And>t. (if t = farming_token_id st
            then farm_token_supply st' + unbonding st' T' + reward_capacity st' + snd d else 0) + outflow t es \<le>
          (if t = farming_token_id st
            then farm_token_supply st + unbonding st T + reward_capacity st + fst d + x else 0) +
          paid_in t ps + inflow t es"
  shows "staking_call_ok st T ps st' T' es d"
  unfolding staking_call_ok_def using assms by blast

lemma staking_call_sound:
  assumes ok: "staking_call_ok st T ps st' T' es d" and sound: "staking_sound st T"
  shows "staking_sound st' T'" "farming_token_id st' = farming_token_id st"
    "division_safety_constant st' = division_safety_constant st"
    and "staking_need st' T' + division_safety_constant st * (outflow (farming_token_id st) es + snd d) \<le>
      staking_need st T + division_safety_constant st *
        (paid_in (farming_token_id st) ps + inflow (farming_token_id st) es + fst d)"
    and "t \<noteq> farming_token_id st \<Longrightarrow> outflow t es \<le> paid_in t ps + inflow t es"
    and "unbond_attributes st \<subseteq>\<^sub>m unbond_attributes st'" "farm_token st' = farm_token st"
proof -
  let ?f = "farming_token_id st" and ?dsc = "division_safety_constant st"
  obtain g x where m: "farm_moves st (positions st T) st' (positions st' T') g x" and u: "unbonds_kept st st'"
    and acc: "accumulated_rewards st' = accumulated_rewards st + g" "accumulated_rewards st' \<le> reward_capacity st'"
    and flow: "\<And>t. (if t = ?f then farm_token_supply st' + unbonding st' T' + reward_capacity st' + snd d else 0) +
        outflow t es \<le>
      (if t = ?f then farm_token_supply st + unbonding st T + reward_capacity st + fst d + x else 0) +
        paid_in t ps + inflow t es"
    using ok unfolding staking_call_ok_def by blast
  have frame: "farming_token_id st' = ?f" "reward_token_id st' = reward_token_id st" "division_safety_constant st' = ?dsc"
    and pot: "farm_pot st' (positions st' T') + ?dsc * x \<le> farm_pot st (positions st T) + ?dsc * g"
    and inv: "farm_inv st' (positions st' T')"
    using m by (simp_all add: farm_moves_def farm_frame_def)
  show "staking_sound st' T'" using sound inv u acc frame by (simp add: staking_sound_def unbonds_kept_def)
  show "farming_token_id st' = ?f" "division_safety_constant st' = ?dsc" by (fact frame)+
  have le: "accumulated_rewards st \<le> reward_capacity st" using sound by (simp add: staking_sound_def)
  have "farm_token_supply st' + unbonding st' T' + (reward_capacity st' - accumulated_rewards st') + snd d +
      outflow ?f es + g \<le> farm_token_supply st + unbonding st T + (reward_capacity st - accumulated_rewards st) +
      fst d + x + paid_in ?f ps + inflow ?f es"
    using flow [of ?f] le acc by simp
  from mult_le_mono2 [OF this, of ?dsc] pot
  show "staking_need st' T' + ?dsc * (outflow ?f es + snd d) \<le>
      staking_need st T + ?dsc * (paid_in ?f ps + inflow ?f es + fst d)"
    by (simp add: staking_need_def frame distrib_left)
  show "outflow t es \<le> paid_in t ps + inflow t es" if "t \<noteq> ?f"
    using flow [of t] that by simp
  show "unbond_attributes st \<subseteq>\<^sub>m unbond_attributes st'" using u by (simp add: unbonds_kept_def)
  show "farm_token st' = farm_token st" using m by (simp add: farm_moves_def farm_frame_def)
qed

end
