(* ===== verification/StakingSteps.thy ===== *)
theory StakingSteps
  imports StakingBooks
begin

text \<open>Every endpoint of the staking farm keeps the books.\<close>

section \<open>The ledger\<close>

lemma positions_covered:
  assumes "covered T ps" "\<And>p. p \<in> set ps \<Longrightarrow> unbond_attributes st (token_nonce p) = None"
  shows "covered (positions st T) ps"
  using assms by (auto simp: covered_def list_all_iff positions_def)

lemma unbonds_okD:
  assumes "unbonds_ok st" "farm_last_nonce st + 1 \<noteq> 0"
  shows "unbond_attributes st (farm_last_nonce st + 1) = None"
proof -
  have "farm_last_nonce st < farm_last_nonce st + 1"
    using assms(2) unatSuc [of "farm_last_nonce st"] by (simp add: word_less_nat_alt add.commute)
  then show ?thesis using assms(1) unfolding unbonds_ok_def by (meson not_le)
qed

lemma unbonds_ok_kept:
  assumes "unbonds_ok st" "unbond_attributes st' = unbond_attributes st" "attributes_kept st st'"
  shows "unbonds_ok st'"
  using assms unfolding unbonds_ok_def attributes_kept_def by (metis order_trans)

lemma positions_created:
  assumes "unbond_attributes st' = unbond_attributes st" "unbond_attributes st l = None"
  shows "positions st' ((spend T ps)(l := n)) = (spend (positions st T) ps)(l := n)"
  using assms by (auto simp: positions_def spend_def fun_eq_iff)

lemma unbonding_le:
  assumes "\<And>n. unbond_attributes st n \<noteq> None \<Longrightarrow> T' n \<le> T n" "unbond_attributes st' = unbond_attributes st"
  shows "unbonding st' T' \<le> unbonding st T"
  unfolding unbonding_def assms(2) by (rule sum_mono) (use assms(1) in auto)

lemma positions_spend: "positions st (spend T ps) = spend (positions st T) ps"
  by (auto simp: positions_def spend_def fun_eq_iff)

section \<open>Positions that are brought are known\<close>

lemma check_and_update_known:
  assumes "check_and_update_user_farm_position st user ps = Inr st'" "farm_position_migration_nonce st \<le> 1"
  shows "\<forall>p\<in>set ps. farm_attributes st (token_nonce p) \<noteq> None"
  using assms
proof (induction ps arbitrary: st)
  case (Cons p ps)
  have young: "\<not> is_old_farm_position st (token_nonce p)" using Cons.prems(2) by (rule no_old_positions)
  obtain a where a: "farm_attributes st (token_nonce p) = Some a"
    using Cons.prems(1) young by (auto simp: require_same_farm_token_def get_farm_token_attributes_def res_simps split: option.splits)
  obtain T where rest: "check_and_update_user_farm_position (st\<lparr>user_total_farm_position := T\<rparr>) user ps = Inr st'"
  proof (cases "original_owner a = user")
    case True
    then have "check_and_update_user_farm_position (st\<lparr>user_total_farm_position := user_total_farm_position st\<rparr>) user ps = Inr st'"
      using Cons.prems(1) young a by (auto simp: require_same_farm_token_def get_farm_token_attributes_def res_simps)
    then show thesis by (rule that)
  next
    case False
    then show thesis
      using Cons.prems(1) young a
      by (auto simp: require_same_farm_token_def get_farm_token_attributes_def decrease_user_farm_position_def
          increase_user_farm_position_def Let_def res_simps simp del: fun_upd_apply intro: that)
  qed
  from Cons.IH [OF this] Cons.prems(2) a show ?case by simp
qed simp

lemma known_not_unbond: "unbonds_ok st \<Longrightarrow> farm_attributes st n \<noteq> None \<Longrightarrow> unbond_attributes st n = None"
  unfolding unbonds_ok_def by metis

lemma known_positions:
  assumes "staking_sound st T" "\<forall>p\<in>set ps. farm_attributes st (token_nonce p) \<noteq> None" "covered T ps"
  shows "covered (positions st T) ps"
proof (rule positions_covered [OF assms(3)])
  fix p assume "p \<in> set ps"
  then show "unbond_attributes st (token_nonce p) = None"
    using assms(1,2) known_not_unbond [of st "token_nonce p"] by (simp add: staking_sound_def)
qed

lemma staking_not_migrated:
  assumes "farm_inv st L" "staking_migrate_old_farm_positions st user ps = Inr (m, st0)"
  shows "m = 0" "st0 = st"
proof -
  have "\<not> is_old_farm_position st n" for n
    by (rule no_old_positions) (use assms(1) in \<open>simp add: farm_inv_def books_ok_def\<close>)
  then show "m = 0" "st0 = st"
    using assms(2) by (auto simp: staking_migrate_old_farm_positions_def Let_def and_then_Inr)
qed

section \<open>Calls that create a position\<close>

lemma created_call_ok:
  assumes moves: "farm_moves st (positions st T) st' (ledger_after st (positions st T) ps n) g x"
    and sound: "staking_sound st T" and l: "farm_last_nonce st + 1 \<noteq> 0"
    and st': "farm_last_nonce st' = farm_last_nonce st + 1" "accumulated_rewards st' = accumulated_rewards st + g"
      "reward_capacity st' = reward_capacity st" "unbond_attributes st' = unbond_attributes st"
      "accumulated_rewards st' \<le> reward_capacity st'"
    and created: "farm_token st = Some t" "inflow t es = n"
    and flow: "\<And>u. (if u = farming_token_id st then farm_token_supply st' + snd d else 0) + outflow u es \<le>
        (if u = farming_token_id st then farm_token_supply st + fst d + x else 0) + paid_in u ps + inflow u es"
  shows "staking_call_ok st T ps st' (next_ledger st T ps st' es) es d"
proof -
  have ok: "unbonds_ok st" using sound by (simp add: staking_sound_def)
  note free = unbonds_okD [OF ok l]
  have ledger: "next_ledger st T ps st' es = (spend T (farm_part st ps))(farm_last_nonce st + 1 := n)"
    using next_ledger_created [OF created(1) st'(1) created(2)] by (simp add: ledger_after_def)
  have pos: "positions st' (next_ledger st T ps st' es) = ledger_after st (positions st T) ps n"
    unfolding ledger ledger_after_def by (rule positions_created [OF st'(4) free])
  have kept: "attributes_kept st st'" using moves by (simp add: farm_moves_def)
  have unb: "unbonding st' (next_ledger st T ps st' es) \<le> unbonding st T"
    unfolding ledger by (rule unbonding_le [OF _ st'(4)]) (use free in \<open>auto simp: spend_le\<close>)
  show ?thesis
  proof (rule staking_call_okI [OF moves [folded pos] unbonds_keptI [OF unbonds_ok_kept [OF ok st'(4) kept] st'(4)] st'(2,5)])
    fix u
    show "(if u = farming_token_id st then farm_token_supply st' + unbonding st' (next_ledger st T ps st' es) +
         reward_capacity st' + snd d else 0) + outflow u es \<le>
       (if u = farming_token_id st then farm_token_supply st + unbonding st T + reward_capacity st + fst d + x else 0) +
         paid_in u ps + inflow u es"
      using flow [of u] unb st'(3) by (auto split: if_splits)
  qed
qed

text \<open>What follows an operation: the supply of the week, the update of the energy, and the cache.\<close>

lemma drop_weekly:
  fixes s :: staking_storage
  assumes moves: "farm_moves st L (farm_cache_drop c s) L' g x"
    and weekly: "weekly_rest s' = weekly_rest (s\<lparr>farm_supply_for_week := f\<rparr>)"
  shows "farm_moves st L (farm_cache_drop c s') L' g x" "same_tokens (farm_cache_drop c s) (farm_cache_drop c s')"
    "same_rest (farm_cache_drop c s) (farm_cache_drop c s')"
proof -
  let ?s = "(farm_cache_drop c s)\<lparr>farm_supply_for_week := f\<rparr>"
  have commute: "weekly_rest (farm_cache_drop c v) = farm_cache_drop c (weekly_rest v)" for v :: staking_storage
    by (simp add: weekly_rest_def farm_cache_drop_def)
  have eq: "weekly_rest (farm_cache_drop c s') = weekly_rest ?s"
    using weekly by (simp add: commute flip: drop_upd)
  have "farm_moves st L ?s L' g x" using moves by simp
  note m = this weekly_moves [OF eq farm_moves_inv [OF this]]
  show "farm_moves st L (farm_cache_drop c s') L' g x" using farm_moves_trans [OF m(1,2)] by simp
  show "same_tokens (farm_cache_drop c s) (farm_cache_drop c s')" using m(3) by (simp add: same_tokens_def)
  show "same_rest (farm_cache_drop c s) (farm_cache_drop c s')"
    using weekly_rest_more [OF eq] by (simp add: same_rest_def)
qed

lemma enter_known:
  assumes "enter_farm_base generate env st user ps = Inr r" "farm_inv st L"
  shows "\<forall>p\<in>set (farm_part st ps). farm_attributes st (token_nonce p) \<noteq> None"
proof -
  obtain c p add s where c: "farm_cache_new st = Inr c" and ps: "ps = p # add"
    and p: "token_identifier p = cache_farming_token_id c"
    and moved: "check_and_update_user_farm_position st user add = Inr s"
    using assms(1) by (auto simp: enter_farm_base_def operation_Inr)
  have "farm_part st ps = farm_part st add"
    using p farm_cache_new_Inr [OF c] assms(2) by (auto simp: ps farm_part_def farm_inv_def books_ok_def)
  moreover have "farm_position_migration_nonce st \<le> 1" using assms(2) by (simp add: farm_inv_def books_ok_def)
  ultimately show ?thesis using check_and_update_known [OF moved] by (auto simp: farm_part_def)
qed

lemma stake_call_ok:
  assumes run: "stake_farm_common env st transfers user ps = Inr (qs, st', es)"
    and ps: "farm_part st ps = farm_part st transfers" "\<And>t. paid_in t ps = paid_in t transfers + (if t = farming_token_id st then a else 0)"
    and sound: "staking_sound st T" and cov: "covered T (farm_part st transfers)" and l: "farm_last_nonce st + 1 \<noteq> 0"
  shows "staking_call_ok st T transfers st' (next_ledger st T transfers st' es) es (a, 0)"
proof -
  have inv: "farm_inv st (positions st T)" and acc: "accumulated_rewards st \<le> reward_capacity st"
    and same_id: "farming_token_id st = reward_token_id st"
    using sound by (simp_all add: staking_sound_def)
  obtain m st0 b st1 q c s es1 s1 s2 w where mig: "staking_migrate_old_farm_positions st user transfers = Inr (m, st0)"
    and boost: "claim_only_boosted_payment env st0 user = Inr (b, st1)"
    and enter: "enter_farm_base staking_generate_aggregated_rewards env st1 user ps = Inr (q, c, s, es1)"
    and s1: "s1 = s\<lparr>farm_supply_for_week := w\<rparr>"
    and upd: "update_energy_and_progress env s1 user = Inr s2" and st': "st' = farm_cache_drop c s2"
    and es: "es = es1 @ send_payment_non_zero (get_caller env) q @
      send_payment_non_zero (get_caller env) (new_payment (reward_token_id st1) 0 b)"
    using run by (auto simp: stake_farm_common_def staking_copies Let_def operation_Inr)
  note st0 = staking_not_migrated(2) [OF inv mig]
  note claim = claim_only_moves [OF boost [unfolded st0] inv] and rest1 = claim_only_same_rest [OF boost [unfolded st0]]
  note inv1 = farm_moves_inv [OF claim(1)] and frame1 = farm_frame_of [OF claim(1), unfolded farm_frame_def]
  note same1 = claim(2) [unfolded same_tokens_def] and rest1' = same_restD [OF rest1]
  have kept1: "attributes_kept st st1" using claim(1) by (simp add: farm_moves_def)
  have part1: "farm_part st1 ps = farm_part st transfers" using same_tokens_part [OF claim(2)] ps(1) by simp
  have cov1: "covered (positions st T) (farm_part st1 ps)"
  proof (rule positions_covered [OF cov [folded part1]])
    fix p assume "p \<in> set (farm_part st1 ps)"
    then have "farm_attributes st1 (token_nonce p) \<noteq> None" using enter_known [OF enter inv1] by blast
    moreover have "unbonds_ok st1"
      using unbonds_ok_kept [OF _ _ kept1] sound rest1' by (simp add: staking_sound_def)
    ultimately show "unbond_attributes st (token_nonce p) = None"
      using known_not_unbond [of st1] rest1'(5) by simp
  qed
  have l1: "farm_last_nonce st1 + 1 \<noteq> 0" using l same1 by simp
  obtain p add where enters: "ps = p # add" "token_identifier p = farming_token_id st1" "farm_part st1 ps = add"
    and moves: "farm_moves st1 (positions st T) (farm_cache_drop c s) (ledger_after st1 (positions st T) ps (amount q))
      (staking_generated env st1) 0"
    and q: "farm_token st1 = Some (token_identifier q)" "token_nonce q = farm_last_nonce st1 + 1"
      "amount q = amount p + total_amount add"
      "farm_token_supply (farm_cache_drop c s) = farm_token_supply st1 + amount p"
      "farm_last_nonce (farm_cache_drop c s) = farm_last_nonce st1 + 1"
      "farm_storage.more (farm_cache_drop c s) = staking_rest env st1"
    and es1: "es1 = [NftCreate (token_identifier q) (amount q)] @ esdt_local_burn_multi add"
    by (rule staking_gen.enter_base_moves [OF enter refl inv1 cov1 l1]) auto
  note weekly = drop_weekly [OF moves update_energy_and_progress_rest [OF upd, unfolded s1], folded st']
  note rest = staking_restD [OF q(6)] and same2 = weekly(2) [unfolded same_tokens_def] and rest2 = same_restD [OF weekly(3)]
  have "ledger_after st1 (positions st T) ps (amount q) = ledger_after st (positions st T) transfers (amount q)"
    unfolding ledger_after_def part1 using same1 by simp
  then have all: "farm_moves st (positions st T) st' (ledger_after st (positions st T) transfers (amount q))
      (staking_generated env st1) b"
    using farm_moves_trans [OF claim(1) weekly(1)] by simp
  have tok: "farm_token st = Some (token_identifier q)" using q(1) same1 by simp
  note toks = farm_inv_tokens [OF inv tok]
  have "farm_part st1 add = add" using enters(3) by (auto simp: farm_part_def filter_id_conv split: if_splits)
  then have paid: "paid_in t add = (if t = token_identifier q then total_amount add else 0)" for t
    using q(1) by (simp add: paid_farm_part)
  have bound: "staking_generated env st1 \<le> reward_capacity st - accumulated_rewards st"
    using rest1' by (simp add: staking_generated_def)
  show ?thesis
  proof (rule created_call_ok [OF all sound l _ _ _ _ _ tok])
    show "inflow (token_identifier q) es = amount q" using toks frame1 by (simp add: es es1 new_payment_def)
    fix u
    show "(if u = farming_token_id st then farm_token_supply st' + snd (a, 0) else 0) + outflow u es \<le>
        (if u = farming_token_id st then farm_token_supply st + fst (a, 0::nat) + b else 0) + paid_in u transfers + inflow u es"
      using ps(2) [of u] toks frame1 same_id same1 same2 q(3,4) enters(2)
      by (auto simp: es es1 new_payment_def enters(1) paid)
  qed (use acc bound rest rest1' rest2 same1 same2 q(5) in simp_all)
qed

section \<open>The other endpoints\<close>

text \<open>The other endpoints of the staking farm keep the books too; then the step system.\<close>

section \<open>Staking\<close>

lemma stake_endpoints_ok:
  assumes sound: "staking_sound st T" and cov: "covered T (farm_part st ps)" and l: "farm_last_nonce st + 1 \<noteq> 0"
  shows "stake_farm_endpoint env st ps opt = Inr (qs, st', es) \<Longrightarrow>
      staking_call_ok st T ps st' (next_ledger st T ps st' es) es (0, 0)"
    and "stake_farm_through_proxy env st ps a u = Inr (qs, st', es) \<Longrightarrow>
      staking_call_ok st T ps st' (next_ledger st T ps st' es) es (a, 0)"
proof -
  assume "stake_farm_endpoint env st ps opt = Inr (qs, st', es)"
  then obtain u where run: "stake_farm_common env st ps u ps = Inr (qs, st', es)"
    by (auto simp: stake_farm_endpoint_def get_non_empty_payments_def operation_Inr)
  show "staking_call_ok st T ps st' (next_ledger st T ps st' es) es (0, 0)"
    by (rule stake_call_ok [OF run refl _ sound cov l]) simp
next
  let ?p = "new_payment (farming_token_id st) 0 a"
  assume "stake_farm_through_proxy env st ps a u = Inr (qs, st', es)"
  then have run: "stake_farm_common env st ps u (?p # ps) = Inr (qs, st', es)"
    by (auto simp: stake_farm_through_proxy_def require_sc_address_whitelisted_def operation_Inr)
  have "farm_part st (?p # ps) = farm_part st ps"
    using sound by (auto simp: farm_part_def new_payment_def staking_sound_def farm_inv_def books_ok_def)
  then show "staking_call_ok st T ps st' (next_ledger st T ps st' es) es (a, 0)"
    by (rule stake_call_ok [OF run _ _ sound cov l]) (simp add: new_payment_def)
qed

section \<open>Claiming\<close>

lemma claim_known:
  assumes "claim_rewards_base_no_farm_token_mint generate calculate env st user [p] = Inr r"
  shows "farm_attributes st (token_nonce p) \<noteq> None"
  using assms by (auto simp: claim_rewards_base_no_farm_token_mint_def claim_rewards_context_new_def
      get_farm_token_attributes_def operation_Inr split: option.splits)

lemma claim_single_rps:
  assumes "claim_rewards_base_no_farm_token_mint generate calculate env st user [p] = Inr (r, attr, c, s, es)"
  shows "reward_per_share attr = cache_reward_per_share c"
  using assms by (auto simp: claim_rewards_base_no_farm_token_mint_def claim_rewards_context_new_def
      create_claim_rewards_initial_attributes_def Let_def operation_Inr)

lemma new_amount_Inr:
  assumes "set_new_farming_amount st c attr n user opt = Inr (st', c', attr', m)"
    and "n \<le> user_total_farm_position st user"
  shows "st' = st\<lparr>user_total_farm_position := (user_total_farm_position st)(user := user_total_farm_position st user - n + m)\<rparr>"
    and "cache_farm_token_supply c' + n = cache_farm_token_supply c + m"
    and "cache_reward_reserve c' = cache_reward_reserve c" "cache_reward_per_share c' = cache_reward_per_share c"
    and "opt = None \<Longrightarrow> attr' = attr \<and> m = n" "opt = Some k \<Longrightarrow> attr' = attr\<lparr>current_farm_amount := m\<rparr> \<and> m = k"
proof -
  have "st' = st\<lparr>user_total_farm_position := (user_total_farm_position st)(user := user_total_farm_position st user - n + m)\<rparr> \<and>
    cache_farm_token_supply c' + n = cache_farm_token_supply c + m \<and>
    cache_reward_reserve c' = cache_reward_reserve c \<and> cache_reward_per_share c' = cache_reward_per_share c \<and>
    (case opt of None \<Rightarrow> attr' = attr \<and> m = n | Some k \<Rightarrow> attr' = attr\<lparr>current_farm_amount := m\<rparr> \<and> m = k)"
  proof (cases opt)
    case None
    then have "st' = st" "c' = c" "attr' = attr" "m = n" using assms(1) by (simp_all add: set_new_farming_amount_def)
    then show ?thesis using None assms(2) by (simp add: fun_upd_idem)
  next
    case (Some k)
    show ?thesis
      using assms(1) by (auto simp: Some set_new_farming_amount_def Let_def and_then_Inr big_sub_Inr)
  qed
  then show "st' = st\<lparr>user_total_farm_position := (user_total_farm_position st)(user := user_total_farm_position st user - n + m)\<rparr>"
    and "cache_farm_token_supply c' + n = cache_farm_token_supply c + m"
    and "cache_reward_reserve c' = cache_reward_reserve c" "cache_reward_per_share c' = cache_reward_per_share c"
    and "opt = None \<Longrightarrow> attr' = attr \<and> m = n" "opt = Some k \<Longrightarrow> attr' = attr\<lparr>current_farm_amount := m\<rparr> \<and> m = k"
    by simp_all
qed

lemma claim_common_ok:
  assumes run: "claim_rewards_common env st ps user opt = Inr (qs, st', es)"
    and sound: "staking_sound st T" and cov: "covered T (farm_part st ps)" and l: "farm_last_nonce st + 1 \<noteq> 0"
  shows "staking_call_ok st T ps st' (next_ledger st T ps st' es) es
    (case opt of None \<Rightarrow> (0, 0) | Some a \<Rightarrow> (a, total_amount (farm_part st ps)))"
proof -
  let ?A = "farm_attributes st" and ?dsc = "division_safety_constant st" and ?L = "positions st T"
  have inv: "farm_inv st ?L" and acc: "accumulated_rewards st \<le> reward_capacity st"
    and same_id: "farming_token_id st = reward_token_id st" and unb: "unbonds_ok st"
    using sound by (simp_all add: staking_sound_def)
  obtain m st0 p rewards attr c s es1 s1 c1 attr1 n s2 w s3 q s4 es2
    where mig: "staking_migrate_old_farm_positions st user ps = Inr (m, st0)" and ps: "ps = [p]"
    and base: "claim_rewards_base_no_farm_token_mint staking_generate_aggregated_rewards farm_calculate_rewards
      env st0 user [p] = Inr (rewards, attr, c, s, es1)"
    and new: "set_new_farming_amount s c attr (farm_get_total_supply attr) user opt = Inr (s1, c1, attr1, n)"
    and s2: "s2 = s1\<lparr>farm_supply_for_week := w\<rparr>"
    and upd: "update_energy_and_progress env s2 user = Inr s3"
    and create: "farm_nft_create s3 n attr1 = Inr (q, s4, es2)" and st': "st' = farm_cache_drop c1 s4"
    and es: "es = es1 @ es2 @ send_payment_non_zero (get_caller env) q @ send_payment_non_zero (get_caller env) rewards"
    using run by (auto simp: claim_rewards_common_def staking_calculate_rewards_eq Let_def operation_Inr single_esdt_Inr)
  note st0 = staking_not_migrated(2) [OF inv mig] and base = base [unfolded st0]
  have covp: "covered ?L (farm_part st [p])"
    using claim_known [OF base] cov [unfolded ps]
    by (intro known_positions [OF sound]) (auto simp: farm_part_def)
  obtain t r y z where part: "farm_part st [p] = [p]" and tok: "farm_token st = Some t"
    and rew: "rewards = new_payment (reward_token_id st) 0 (amount rewards)"
    and owed: "?dsc * amount rewards \<le> y + ?dsc * z"
    and r: "stored_reward_per_share st \<le> r" "reward_per_share attr \<le> r"
    and attr: "current_farm_amount attr = total_amount [p]" "original_owner attr = user"
    and pos: "position_owed r attr + y \<le> sum_list (map (\<lambda>p. amount p * (r - rps_in ?A (token_nonce p))) [p])"
    and pot: "owed_base ?A r ?L + ?dsc * boosted_total s + ?dsc * z \<le> farm_pot st ?L + ?dsc * staking_generated env st"
    and enough: "amount rewards \<le> reward_reserve st + staking_generated env st"
    and c: "cache_reward_reserve c = reward_reserve st + staking_generated env st - amount rewards"
      "cache_reward_per_share c = r" "cache_farm_token_supply c = farm_token_supply st"
    and s: "farm_attributes s = ?A" "farm_last_nonce s = farm_last_nonce st" "farm_frame st s"
      "user_total_farm_position s = moved_to ?A ?L user [p]" "farm_storage.more s = staking_rest env st"
    and es1: "es1 = [NftBurn t (token_nonce p) (amount p)]"
    by (rule staking_gen.claim_base_moves [OF base inv covp]) (auto simp: esdt_local_burn_multi_def)
  have rps: "reward_per_share attr = r" using claim_single_rps [OF base] c(2) by simp
  have whole: "farm_get_total_supply attr = amount p" using attr by (simp add: farm_get_total_supply_def)
  have "amount p \<le> user_total_farm_position s user" by (simp add: s(4) moved_to_def)
  note new = new_amount_Inr [OF new, unfolded whole, OF this]
  have attr1: "current_farm_amount attr1 = n" "reward_per_share attr1 = r" "original_owner attr1 = user"
    using new(5,6) attr rps by (cases opt; simp)+
  note rest3 = update_energy_and_progress_rest [OF upd]
  note f3 = farm_restD [OF farm_rest_weekly [OF rest3]] and rel = boosted_rel_weekly [OF rest3]
  note q = farm_nft_create_Inr [OF create]
  have tokq: "token_identifier q = t" using q(2) tok s(3) by (simp add: f3 s2 new(1) farm_frame_def)
  have amount_q: "amount q = n" by (subst q(1)) (simp add: new_payment_def)
  note final = st' q(3) farm_cache_drop_def
  have "boosted_total st' \<le> boosted_total s"
    using rel [unfolded boosted_rel_def] by (simp add: final s2 new(1) boosted_total_def)
  then have pot': "owed_base ?A r ?L + ?dsc * boosted_total st' + ?dsc * z \<le>
      farm_pot st ?L + ?dsc * staking_generated env st"
    using mult_le_mono2 [of "boosted_total st'" "boosted_total s" ?dsc] pot by linarith
  have owed1: "position_owed r attr1 + y \<le> sum_list (map (\<lambda>p. amount p * (r - rps_in ?A (token_nonce p))) [p])"
    using pos by (simp add: position_owed_def attr1 rps)
  have moves: "farm_moves st ?L st' ((spend ?L [p])(farm_last_nonce st + 1 := current_farm_amount attr1))
      (staking_generated env st) (amount rewards)"
  proof (rule farm_moves_replace [OF inv l _ _ _ _ _ _ _ r(1) _ owed1 pot' owed])
    show "covered ?L [p]" using covp part by simp
    show "user_total_farm_position st' u = held_by ?A (spend ?L [p]) u +
        (if original_owner attr1 = u then current_farm_amount attr1 else 0)" for u
      by (simp add: final f3 s2 new(1) s(4) moved_to_def attr1)
    show "farm_frame st st'" using s(3) by (simp add: final f3 s2 new(1) farm_frame_def)
  qed (use enough new(2,3,4) c s(1,2) in \<open>simp_all add: final f3 s2 new(1) attr1\<close>)
  then have moves: "farm_moves st ?L st' (ledger_after st ?L ps n) (staking_generated env st) (amount rewards)"
    by (simp add: ledger_after_def ps part attr1)
  have "same_rest s st'"
    using weekly_rest_more [OF rest3] by (simp add: same_rest_def final s2 new(1))
  note rest' = same_restD [OF this] and rest = staking_restD [OF s(5)]
  note toks = farm_inv_tokens [OF inv tok]
  have idp: "token_identifier p = t" using part tok by (auto simp: farm_part_def split: if_splits)
  have idr: "token_identifier rewards = farming_token_id st" by (subst rew) (simp add: new_payment_def same_id)
  have supplied: "farm_token_supply st' + amount p = farm_token_supply st + n"
    using new(2) c(3) by (simp add: final)
  have d: "farm_token_supply st' + snd (case opt of None \<Rightarrow> (0, 0) | Some a \<Rightarrow> (a, total_amount (farm_part st ps))) =
      farm_token_supply st + fst (case opt of None \<Rightarrow> (0, 0) | Some a \<Rightarrow> (a, total_amount (farm_part st ps)))"
    using supplied new(5,6) by (cases opt) (auto simp: ps part)
  have es2: "es2 = [NftCreate t n]" using q(4) tokq by simp
  show ?thesis
  proof (rule created_call_ok [OF moves sound l _ _ _ _ _ tok])
    show "inflow t es = n" using toks same_id by (simp add: es es1 es2)
    fix u
    show "(if u = farming_token_id st then farm_token_supply st' +
          snd (case opt of None \<Rightarrow> (0, 0) | Some a \<Rightarrow> (a, total_amount (farm_part st ps))) else 0) + outflow u es \<le>
        (if u = farming_token_id st then farm_token_supply st +
          fst (case opt of None \<Rightarrow> (0, 0) | Some a \<Rightarrow> (a, total_amount (farm_part st ps))) + amount rewards else 0) +
          paid_in u ps + inflow u es"
      unfolding d using toks by (auto simp: es es1 es2 ps idp idr tokq amount_q)
  qed (use acc rest rest' s(2) in \<open>simp_all add: final f3 s2 new(1) staking_generated_def\<close>)
qed

section \<open>Compounding\<close>

lemma compound_known:
  assumes "compound_rewards_base generate calculate env st user ps = Inr r" "farm_inv st L"
    and "\<And>env st c st' c' es. generate env st c = Inr (st', c', es) \<Longrightarrow>
      farm_attributes st' = farm_attributes st \<and> farm_position_migration_nonce st' = farm_position_migration_nonce st"
    and "\<And>env st u n a c x st'. calculate env st u n a c = Inr (x, st') \<Longrightarrow>
      farm_attributes st' = farm_attributes st \<and> farm_position_migration_nonce st' = farm_position_migration_nonce st"
  shows "\<forall>p\<in>set ps. farm_attributes st (token_nonce p) \<noteq> None"
proof -
  obtain s st2 st1 x1 x2 x3 x4 where "generate env st x1 = Inr (st1, x2)" "calculate env st1 user (fst x3) (snd x3) (fst x2) = Inr (x4, st2)"
    and moved: "check_and_update_user_farm_position st2 user ps = Inr s"
    using assms(1) by (fastforce simp: compound_rewards_base_def operation_Inr)
  then have "farm_attributes st2 = farm_attributes st" "farm_position_migration_nonce st2 = farm_position_migration_nonce st"
    using assms(3,4) by (metis prod.collapse)+
  with check_and_update_known [OF moved] assms(2) show ?thesis by (simp add: farm_inv_def books_ok_def)
qed

end
