(* ===== verification/StakingSystem.thy ===== *)
theory StakingSystem
  imports StakingSteps
begin

text \<open>The remaining endpoints, and the step system of the staking farm.\<close>

lemma staking_compound_known:
  assumes "compound_rewards_base staking_generate_aggregated_rewards farm_calculate_rewards env st user ps = Inr r"
    and "farm_inv st L"
  shows "\<forall>p\<in>set ps. farm_attributes st (token_nonce p) \<noteq> None"
proof (rule compound_known [OF assms])
  fix env :: "'b energy_query_env_scheme" and st st' :: staking_storage and c c' es
  assume "staking_generate_aggregated_rewards env st c = Inr (st', c', es)"
  then show "farm_attributes st' = farm_attributes st \<and> farm_position_migration_nonce st' = farm_position_migration_nonce st"
    by (rule staking_generate_Inr) simp
next
  fix env :: "'b energy_query_env_scheme" and st st' :: staking_storage and u n a c x
  assume "farm_calculate_rewards env st u n a c = Inr (x, st')"
  then obtain b where "calculate_boosted_rewards env st u = Inr (b, st')"
    by (auto simp: farm_calculate_rewards_def and_then_Inr)
  note rel = calculate_boosted_rewards_rel [OF this, unfolded boosted_rel_def, THEN conjunct1]
  show "farm_attributes st' = farm_attributes st \<and> farm_position_migration_nonce st' = farm_position_migration_nonce st"
    by (simp add: farm_restD [OF rel])
qed

lemma compound_call_sound:
  assumes run: "staking_compound_rewards env st ps = Inr (qs, st', es)"
    and sound: "staking_sound st T" and cov: "covered T (farm_part st ps)" and l: "farm_last_nonce st + 1 \<noteq> 0"
  shows "staking_call_ok st T ps st' (next_ledger st T ps st' es) es (0, 0)"
proof -
  let ?L = "positions st T"
  have inv: "farm_inv st ?L" and acc: "accumulated_rewards st \<le> reward_capacity st"
    using sound by (simp_all add: staking_sound_def)
  obtain m st0 q c s es1 w where mig: "staking_migrate_old_farm_positions st (get_caller env) ps = Inr (m, st0)"
    and base: "compound_rewards_base staking_generate_aggregated_rewards farm_calculate_rewards env st0 (get_caller env) ps
      = Inr (q, c, s, es1)"
    and st': "st' = farm_cache_drop c (s\<lparr>farm_supply_for_week := w\<rparr>)"
    and es: "es = es1 @ send_payment_non_zero (get_caller env) q"
    using run by (auto simp: staking_compound_rewards_def staking_calculate_rewards_eq get_non_empty_payments_def
        Let_def operation_Inr)
  note base = base [unfolded staking_not_migrated(2) [OF inv mig]]
  have "\<forall>p\<in>set (farm_part st ps). farm_attributes st (token_nonce p) \<noteq> None"
    using staking_compound_known [OF base inv] by (simp add: farm_part_def)
  note covp = known_positions [OF sound this cov]
  obtain rew where part: "farm_part st ps = ps" "ps \<noteq> []"
    and moves: "farm_moves st ?L (farm_cache_drop c s) (ledger_after st ?L ps (amount q)) (staking_generated env st) rew"
    and q: "farm_token st = Some (token_identifier q)" "amount q = total_amount ps + rew"
      "farm_token_supply (farm_cache_drop c s) = farm_token_supply st + rew"
      "farm_last_nonce (farm_cache_drop c s) = farm_last_nonce st + 1"
      "farm_storage.more (farm_cache_drop c s) = staking_rest env st"
    and es1: "es1 = [NftCreate (token_identifier q) (amount q)] @
      [NftBurn (token_identifier q) (token_nonce (hd ps)) (amount (hd ps))] @ esdt_local_burn_multi (tl ps)"
    by (rule staking_gen.compound_base_moves [OF base refl inv covp l]) auto
  have moves: "farm_moves st ?L st' (ledger_after st ?L ps (amount q)) (staking_generated env st) rew"
    using moves by (simp add: st' drop_upd)
  note rest = staking_restD [OF q(5)] and toks = farm_inv_tokens [OF inv q(1)]
  note flow = burn_positions_flow [OF part(1) q(1) part(2)]
  have paid: "paid_in t ps = (if t = token_identifier q then total_amount ps else 0)" for t
    by (rule paid_farm_part [OF part(1) q(1)])
  have kept: "accumulated_rewards (st'') = accumulated_rewards (farm_cache_drop c s) \<and>
      reward_capacity st'' = reward_capacity (farm_cache_drop c s) \<and>
      unbond_attributes st'' = unbond_attributes (farm_cache_drop c s)"
    if "st'' = st'" for st''
    using that by (simp add: st' drop_upd)
  show ?thesis
  proof (rule created_call_ok [OF moves sound l _ _ _ _ _ q(1)])
    show "inflow (token_identifier q) es = amount q" by (simp add: es es1)
    fix u
    show "(if u = farming_token_id st then farm_token_supply st' + snd (0::nat, 0) else 0) + outflow u es \<le>
        (if u = farming_token_id st then farm_token_supply st + fst (0::nat, 0::nat) + rew else 0) + paid_in u ps + inflow u es"
      using toks flow(2) q(3) by (simp add: es es1 flow(1) paid st' drop_upd)
  qed (use acc rest kept q(4) in \<open>simp_all add: staking_generated_def\<close>, simp add: st' drop_upd)
qed

section \<open>Unstaking and unbonding\<close>

lemma moves_unbond:
  fixes st st' :: staking_storage
  assumes "farm_moves st L st' L' g x" "farm_last_nonce st' + 1 \<noteq> 0"
  shows "farm_moves st L (st'\<lparr>unbond_attributes := v, farm_last_nonce := farm_last_nonce st' + 1\<rparr>) L' g x"
proof -
  have le: "farm_last_nonce st' \<le> farm_last_nonce st' + 1"
    using assms(2) unatSuc [of "farm_last_nonce st'"] by (simp add: word_le_nat_alt add.commute)
  have "tokens_ok A (farm_last_nonce st' + 1) r L'" if "tokens_ok A (farm_last_nonce st') r L'" for A r
    using that le unfolding tokens_ok_def by (meson order_trans)
  then show ?thesis
    using assms(1) le unfolding farm_moves_def farm_frame_def farm_inv_def books_ok_def attributes_kept_def
    by (auto simp: farm_pot_def boosted_total_def)
qed

lemma drop_unbond:
  "farm_cache_drop c (s\<lparr>unbond_attributes := v, farm_last_nonce := l\<rparr>) =
     (farm_cache_drop c s)\<lparr>unbond_attributes := v, farm_last_nonce := l\<rparr>"
  by (cases s) (simp add: farm_cache_drop_def)

lemma unstake_common_moves:
  assumes run: "unstake_farm_common env st ps user p opt = Inr (qs, st', es)"
    and ps: "ps = [p] \<or> (\<exists>f. ps = [f, p] \<and> token_identifier f = farming_token_id st)"
    and sound: "staking_sound st T" and cov: "covered T (farm_part st ps)" and l: "farm_last_nonce st + 1 \<noteq> 0"
  defines "x \<equiv> (case opt of None \<Rightarrow> amount p | Some a \<Rightarrow> a)"
  obtains rewards where "farm_token st = Some (token_identifier p)" "farm_part st ps = [p]"
    and "qs = [new_payment (token_identifier p) (farm_last_nonce st + 1) x, rewards]"
    and "token_identifier rewards = farming_token_id st"
    and "farm_moves st (positions st T) st' (spend (positions st T) [p]) (staking_generated env st) (amount rewards)"
    and "accumulated_rewards st' = accumulated_rewards st + staking_generated env st" "reward_capacity st' = reward_capacity st"
    and "unbond_attributes st' = (unbond_attributes st)(farm_last_nonce st + 1 :=
      Some \<lparr>unbond_unlock_epoch = get_block_epoch env + min_unbond_epochs st\<rparr>)"
    and "farm_last_nonce st' = farm_last_nonce st + 1" "farm_token_supply st' + amount p = farm_token_supply st"
    and "farm_attributes st' (farm_last_nonce st + 1) = None"
    and "es = esdt_local_burn (token_identifier p) (token_nonce p) (amount p) @
      [NftCreate (token_identifier p) x, DirectSend (get_caller env) [new_payment (token_identifier p) (farm_last_nonce st + 1) x]] @
      send_payment_non_zero (get_caller env) rewards"
proof -
  let ?L = "positions st T"
  have inv: "farm_inv st ?L" and same_id: "farming_token_id st = reward_token_id st"
    using sound by (simp_all add: staking_sound_def)
  obtain m st0 r rewards attr c s es1 s2 s3 w t where mig: "staking_migrate_old_farm_positions st user ps = Inr (m, st0)"
    and base: "exit_farm_base staking_generate_aggregated_rewards farm_calculate_rewards env st0 user p
      = Inr (r, rewards, attr, c, s, es1)"
    and t: "t = cache_farm_token_id c"
    and s2: "s2 = (decrease_old_farm_positions s m user)
      \<lparr>unbond_attributes := (unbond_attributes (decrease_old_farm_positions s m user))
         (farm_last_nonce (decrease_old_farm_positions s m user) + 1 :=
          Some \<lparr>unbond_unlock_epoch = get_block_epoch env + min_unbond_epochs (decrease_old_farm_positions s m user)\<rparr>),
       farm_last_nonce := farm_last_nonce (decrease_old_farm_positions s m user) + 1\<rparr>"
    and clear: "clear_user_energy_if_needed env s2 user = Inr s3"
    and st': "st' = farm_cache_drop c (s3\<lparr>farm_supply_for_week := w\<rparr>)"
    and qs: "qs = [new_payment t (farm_last_nonce (decrease_old_farm_positions s m user) + 1)
        (case opt of None \<Rightarrow> amount r | Some a \<Rightarrow> a), rewards]"
    and es: "es = es1 @ [NftCreate t (case opt of None \<Rightarrow> amount r | Some a \<Rightarrow> a),
        DirectSend (get_caller env) [new_payment t (farm_last_nonce (decrease_old_farm_positions s m user) + 1)
          (case opt of None \<Rightarrow> amount r | Some a \<Rightarrow> a)]] @
      send_payment_non_zero (get_caller env) rewards"
    using run by (auto simp: unstake_farm_common_def create_and_send_unbond_tokens_def staking_calculate_rewards_eq
        staking_copies Let_def operation_Inr)
  note mig = staking_not_migrated [OF inv mig]
  note base = base [unfolded mig(2)]
  obtain c0 where c0: "farm_cache_new st = Inr c0" "token_identifier p = cache_farm_token_id c0"
    and known: "farm_attributes st (token_nonce p) \<noteq> None"
    using base by (auto simp: exit_farm_base_def exit_farm_context_new_def get_farm_token_attributes_def operation_Inr
        split: option.splits)
  have tok: "farm_token st = Some (token_identifier p)" using farm_cache_new_Inr(1) [OF c0(1)] c0(2) by simp
  have part: "farm_part st ps = [p]" using ps tok farm_inv_tokens [OF inv tok] by (auto simp: farm_part_def)
  have partp: "farm_part st [p] = [p]" using tok by (simp add: farm_part_def)
  have covp: "covered ?L (farm_part st [p])"
    unfolding partp using known cov [unfolded part] by (intro known_positions [OF sound]) auto
  obtain r: "r = new_payment (farming_token_id st) 0 (amount p)"
    and rew: "rewards = new_payment (reward_token_id st) 0 (amount rewards)"
    and moves: "farm_moves st ?L (farm_cache_drop c s) (spend ?L [p]) (staking_generated env st) (amount rewards)"
    and final: "farm_token_supply (farm_cache_drop c s) + amount p = farm_token_supply st"
      "farm_last_nonce (farm_cache_drop c s) = farm_last_nonce st"
      "farm_storage.more (farm_cache_drop c s) = staking_rest env st"
    and es1: "es1 = esdt_local_burn (token_identifier p) (token_nonce p) (amount p)"
    by (rule staking_gen.exit_base_moves [OF base refl inv covp]) auto
  have t: "t = token_identifier p"
    using base c0 by (auto simp: t exit_farm_base_def Let_def operation_Inr elim!: staking_generate_Inr)
  have x: "(case opt of None \<Rightarrow> amount r | Some a \<Rightarrow> a) = x" by (cases opt) (simp_all add: x_def r new_payment_def)
  note rest = staking_restD [OF final(3)]
  have dec: "decrease_old_farm_positions s m user = s" by (simp add: decrease_old_farm_positions_def mig(1))
  have fs: "farm_last_nonce s = farm_last_nonce st" "unbond_attributes s = unbond_attributes st"
    "accumulated_rewards s = accumulated_rewards st + staking_generated env st" "reward_capacity s = reward_capacity st"
    "min_unbond_epochs s = min_unbond_epochs st"
    using final(2) rest by (simp_all add: farm_cache_drop_def)
  define v where "v = (unbond_attributes st)(farm_last_nonce st + 1 :=
      Some \<lparr>unbond_unlock_epoch = get_block_epoch env + min_unbond_epochs st\<rparr>)"
  have s2: "s2 = s\<lparr>unbond_attributes := v, farm_last_nonce := farm_last_nonce st + 1\<rparr>"
    by (simp add: s2 dec fs v_def)
  have weekly: "weekly_rest s3 = weekly_rest s2"
    using clear by (auto simp: clear_user_energy_if_needed_def and_then_Inr dest: clear_user_energy_rest split: option.splits)
  have "farm_moves st ?L (farm_cache_drop c s2) (spend ?L [p]) (staking_generated env st) (amount rewards)"
    using moves_unbond [OF moves, of v] l final(2) by (simp add: s2 drop_unbond)
  note after = drop_weekly [OF this, of s3 "farm_supply_for_week s2"]
  have after: "farm_moves st ?L st' (spend ?L [p]) (staking_generated env st) (amount rewards)"
    "same_tokens (farm_cache_drop c s2) st'" "same_rest (farm_cache_drop c s2) st'"
    using after weekly by (simp_all add: st' drop_upd same_tokens_def same_rest_def)
  have rest': "accumulated_rewards st' = accumulated_rewards st + staking_generated env st"
    "reward_capacity st' = reward_capacity st" "unbond_attributes st' = v" "farm_last_nonce st' = farm_last_nonce st + 1"
    "farm_token_supply st' + amount p = farm_token_supply st"
    using same_restD [OF after(3)] after(2) fs final(1) by (simp_all add: s2 farm_cache_drop_def same_tokens_def)
  have new_none: "farm_attributes st' (farm_last_nonce st + 1) = None"
  proof -
    have "farm_last_nonce (farm_cache_drop c s) < farm_last_nonce st + 1"
      using l final(2) unatSuc [of "farm_last_nonce st"] by (simp add: word_less_nat_alt add.commute)
    moreover have "tokens_ok (farm_attributes (farm_cache_drop c s)) (farm_last_nonce (farm_cache_drop c s))
        (stored_reward_per_share (farm_cache_drop c s)) (spend ?L [p])"
      using moves by (simp add: farm_moves_def farm_inv_def books_ok_def)
    ultimately have "farm_attributes (farm_cache_drop c s) (farm_last_nonce st + 1) = None"
      unfolding tokens_ok_def by (metis not_le option.exhaust)
    then show ?thesis using farm_restD(16) [OF farm_rest_weekly [OF weekly]] by (simp add: st' farm_cache_drop_def s2)
  qed
  have idr: "token_identifier rewards = farming_token_id st" by (subst rew) (simp add: new_payment_def same_id)
  show thesis
    by (rule that [OF tok part _ idr after(1) rest'(1,2) _ rest'(4,5) new_none])
      (use dec fs x in \<open>simp_all add: rest' v_def qs es es1 t\<close>)
qed

lemma unstake_common_ok:
  assumes run: "unstake_farm_common env st ps user p opt = Inr (qs, st', es)"
    and ps: "ps = [p] \<or> (\<exists>f. ps = [f, p] \<and> token_identifier f = farming_token_id st)"
    and paid: "\<And>u. paid_in u ps = (if u = token_identifier p then amount p else 0) +
        (if u = farming_token_id st then (case opt of None \<Rightarrow> 0 | Some a \<Rightarrow> a) else 0)"
    and sound: "staking_sound st T" and cov: "covered T (farm_part st ps)" and l: "farm_last_nonce st + 1 \<noteq> 0"
  shows "staking_call_ok st T ps st' (next_ledger st T ps st' es) es
    (0, case opt of None \<Rightarrow> 0 | Some a \<Rightarrow> total_amount (farm_part st ps))"
proof -
  let ?L = "positions st T"
  have inv: "farm_inv st ?L" and acc: "accumulated_rewards st \<le> reward_capacity st"
    and same_id: "farming_token_id st = reward_token_id st" and unb: "unbonds_ok st"
    using sound by (simp_all add: staking_sound_def)
  define x where "x = (case opt of None \<Rightarrow> amount p | Some a \<Rightarrow> a)"
  define v where "v = (unbond_attributes st)(farm_last_nonce st + 1 :=
      Some \<lparr>unbond_unlock_epoch = get_block_epoch env + min_unbond_epochs st\<rparr>)"
  obtain rewards where tok: "farm_token st = Some (token_identifier p)" and part: "farm_part st ps = [p]"
    and idr: "token_identifier rewards = farming_token_id st"
    and moves: "farm_moves st ?L st' (spend ?L [p]) (staking_generated env st) (amount rewards)"
    and rest': "accumulated_rewards st' = accumulated_rewards st + staking_generated env st"
      "reward_capacity st' = reward_capacity st" "unbond_attributes st' = v" "farm_last_nonce st' = farm_last_nonce st + 1"
      "farm_token_supply st' + amount p = farm_token_supply st"
    and new_none: "farm_attributes st' (farm_last_nonce st + 1) = None"
    and es: "es = esdt_local_burn (token_identifier p) (token_nonce p) (amount p) @
      [NftCreate (token_identifier p) x, DirectSend (get_caller env) [new_payment (token_identifier p) (farm_last_nonce st + 1) x]] @
      send_payment_non_zero (get_caller env) rewards"
    by (rule unstake_common_moves [OF run ps sound cov l, folded x_def v_def]) blast
  note toks = farm_inv_tokens [OF inv tok]
  have inflow: "inflow (token_identifier p) es = x" using toks same_id by (simp add: es burn_one_flow)
  have ledger: "next_ledger st T ps st' es = (spend T [p])(farm_last_nonce st + 1 := x)"
    using next_ledger_created [OF tok rest'(4) inflow] by (simp add: ledger_after_def part)
  note free = unbonds_okD [OF unb l]
  have zero: "?L (farm_last_nonce st + 1) = 0"
  proof -
    have "farm_last_nonce st < farm_last_nonce st + 1"
      using l unatSuc [of "farm_last_nonce st"] by (simp add: word_less_nat_alt add.commute)
    then show ?thesis
      using inv unfolding farm_inv_def books_ok_def tokens_ok_def by (metis not_le option.exhaust)
  qed
  have pos: "positions st' (next_ledger st T ps st' es) = spend ?L [p]"
    unfolding ledger using zero free by (auto simp: positions_def rest' v_def spend_def fun_eq_iff)
  have sum: "unbonding st' (next_ledger st T ps st' es) \<le> unbonding st T + x"
  proof -
    have eq: "(if v n = None then 0 else ((spend T [p])(farm_last_nonce st + 1 := x)) n) \<le>
        (if unbond_attributes st n = None then 0 else T n) + (if n = farm_last_nonce st + 1 then x else 0)" for n
      using free by (auto simp: v_def spend_def)
    have "unbonding st' (next_ledger st T ps st' es) \<le>
        (\<Sum>n\<in>UNIV. (if unbond_attributes st n = None then 0 else T n) + (if n = farm_last_nonce st + 1 then x else 0))"
      unfolding ledger unbonding_def rest' by (rule sum_mono) (rule eq)
    then show ?thesis by (simp add: sum.distrib unbonding_def)
  qed
  have kept: "attributes_kept st st'" using moves by (simp add: farm_moves_def)
  have unb': "unbonds_ok st'"
  proof -
    have "n \<le> farm_last_nonce st' \<and> farm_attributes st' n = None" if "v n \<noteq> None" for n
    proof (cases "n = farm_last_nonce st + 1")
      case True
      then show ?thesis using new_none rest'(4) by simp
    next
      case False
      then have "unbond_attributes st n \<noteq> None" using that by (simp add: v_def)
      then have "n \<le> farm_last_nonce st" "farm_attributes st n = None" using unb unfolding unbonds_ok_def by metis+
      then show ?thesis using kept unfolding attributes_kept_def by (metis order_trans)
    qed
    then show ?thesis by (simp add: unbonds_ok_def rest'(3))
  qed
  have kept': "unbonds_kept st st'" using unb' free by (auto simp: unbonds_kept_def rest'(3) v_def map_le_def)
  show ?thesis
  proof (rule staking_call_okI [OF moves [folded pos] kept' rest'(1)])
    show "accumulated_rewards st' \<le> reward_capacity st'" using acc rest' by (simp add: staking_generated_def)
    fix u
    show "(if u = farming_token_id st then farm_token_supply st' + unbonding st' (next_ledger st T ps st' es) +
        reward_capacity st' + snd (0, case opt of None \<Rightarrow> 0 | Some a \<Rightarrow> total_amount (farm_part st ps)) else 0) + outflow u es \<le>
      (if u = farming_token_id st then farm_token_supply st + unbonding st T + reward_capacity st +
        fst (0, case opt of None \<Rightarrow> 0 | Some a \<Rightarrow> total_amount (farm_part st ps)) + amount rewards else 0) +
        paid_in u ps + inflow u es"
      using paid [of u] sum rest'(2,5) toks idr
      by (cases opt) (auto simp: es burn_one_flow part x_def new_payment_def)
  qed
qed

section \<open>Every call\<close>

text \<open>The step system of the staking farm: every call keeps the invariant of the books.\<close>

lemma unstake_endpoints_ok:
  assumes sound: "staking_sound st T" and cov: "covered T (farm_part st ps)" and l: "farm_last_nonce st + 1 \<noteq> 0"
  shows "unstake_farm env st ps opt = Inr (qs, st', es) \<Longrightarrow>
      staking_call_ok st T ps st' (next_ledger st T ps st' es) es (0, 0)"
    and "unstake_farm_through_proxy env st ps u = Inr (qs, st', es) \<Longrightarrow>
      staking_call_ok st T ps st' (next_ledger st T ps st' es) es (0, total_amount (farm_part st ps))"
proof -
  assume "unstake_farm env st ps opt = Inr (qs, st', es)"
  then obtain u p where ps: "ps = [p]" and run: "unstake_farm_common env st ps u p None = Inr (qs, st', es)"
    by (auto simp: unstake_farm_def operation_Inr single_esdt_Inr)
  show "staking_call_ok st T ps st' (next_ledger st T ps st' es) es (0, 0)"
    using unstake_common_ok [OF run _ _ sound cov l] by (simp add: ps)
next
  assume "unstake_farm_through_proxy env st ps u = Inr (qs, st', es)"
  then obtain f p where ps: "ps = [f, p]" "token_identifier f = farming_token_id st"
    and run: "unstake_farm_common env st ps u p (Some (amount f)) = Inr (qs, st', es)"
    by (auto simp: unstake_farm_through_proxy_def require_sc_address_whitelisted_def multi_esdt2_Inr operation_Inr)
  show "staking_call_ok st T ps st' (next_ledger st T ps st' es) es (0, total_amount (farm_part st ps))"
    using unstake_common_ok [OF run _ _ sound cov l] by (simp add: ps)
qed

lemma unbond_call_ok:
  assumes run: "unbond_farm env st ps = Inr (qs, st', es)"
    and sound: "staking_sound st T" and cov: "covered T (farm_part st ps)"
  shows "staking_call_ok st T ps st' (next_ledger st T ps st' es) es (0, 0)"
proof -
  have inv: "farm_inv st (positions st T)" and acc: "accumulated_rewards st \<le> reward_capacity st" and unb: "unbonds_ok st"
    using sound by (simp_all add: staking_sound_def)
  obtain c p a where c: "farm_cache_new st = Inr c" and ps: "ps = [p]" and tok: "farm_token st = Some (token_identifier p)"
    and a: "unbond_attributes st (token_nonce p) = Some a" and st': "st' = farm_cache_drop c st"
    and es: "es = [NftBurn (token_identifier p) (token_nonce p) (amount p)] @
      send_payment_non_zero (get_caller env) (new_payment (cache_farming_token_id c) 0 (amount p))"
    using run by (auto simp: unbond_farm_def require_same_farm_token_def get_farm_token_id_def get_unbond_attributes_def
        Let_def operation_Inr single_esdt_Inr split: option.splits)
  note cache = farm_cache_new_Inr [OF c] and toks = farm_inv_tokens [OF inv tok]
  have same: "st' = st" by (simp add: st' farm_cache_drop_def cache)
  have part: "farm_part st ps = [p]" using tok by (simp add: farm_part_def ps)
  have ledger: "next_ledger st T ps st' es = spend T [p]" by (simp add: next_ledger_def same part)
  have pos: "positions st' (spend T [p]) = positions st T"
    using a by (auto simp: positions_def spend_def same fun_eq_iff)
  have le: "amount p \<le> T (token_nonce p)" using cov by (simp add: part covered_def)
  have "unbonding st' (spend T [p]) + amount p = unbonding st T"
  proof -
    have "(if unbond_attributes st n = None then 0 else T n) =
        (if unbond_attributes st n = None then 0 else spend T [p] n) + (if n = token_nonce p then amount p else 0)" for n
      using a le by (auto simp: spend_def)
    then have "unbonding st T = (\<Sum>n\<in>UNIV. (if unbond_attributes st n = None then 0 else spend T [p] n) +
        (if n = token_nonce p then amount p else 0))"
      unfolding unbonding_def by (intro sum.cong) auto
    then show ?thesis by (simp add: sum.distrib unbonding_def same)
  qed
  then have "staking_call_ok st T ps st' (spend T [p]) es (0, 0)"
    using farm_moves_refl [OF inv] unbonds_keptI [OF unb refl] acc toks
    by (intro staking_call_okI [where g = 0 and x = 0]) (auto simp: pos, auto simp: same es ps cache new_payment_def)
  then show ?thesis by (simp add: ledger)
qed

section \<open>Merging, boosted rewards and settings\<close>

lemma merge_attributes_known:
  assumes "merge_and_update_farm_tokens st user ps = Inr r" "farm_inv st L"
  shows "\<forall>p\<in>set ps. farm_attributes st (token_nonce p) \<noteq> None"
proof -
  obtain s where "check_and_update_user_farm_position st user ps = Inr s"
    using assms(1) by (auto simp: merge_and_update_farm_tokens_def merge_and_return_attributes_def
        require_all_same_Inr get_non_empty_payments_def operation_Inr)
  moreover have "farm_position_migration_nonce st \<le> 1" using assms(2) by (simp add: farm_inv_def books_ok_def)
  ultimately show ?thesis by (rule check_and_update_known)
qed

lemma merge_same_rest:
  assumes "merge_and_update_farm_tokens st user ps = Inr (q, st', es)" "farm_inv st L" "covered L (farm_part st ps)"
  shows "same_rest st st'"
proof -
  have totals: "\<And>u. user_total_farm_position st u = held_by (farm_attributes st) L u"
    and young: "farm_position_migration_nonce st \<le> 1" using assms(2) by (simp_all add: farm_inv_def books_ok_def)
  obtain s n a es2 where moved: "check_and_update_user_farm_position st user ps = Inr s"
    and same: "\<forall>p\<in>set ps. farm_token st = Some (token_identifier p)"
    and create: "farm_nft_create s n a = Inr (q, st', es2)"
    using assms(1) by (auto simp: merge_and_update_farm_tokens_def merge_and_return_attributes_def
        require_all_same_Inr get_non_empty_payments_def Let_def operation_Inr)
  have "farm_part st ps = ps" using same by (simp add: farm_part_def)
  then have "s = st\<lparr>user_total_farm_position := moved_to (farm_attributes st) L user ps\<rparr>"
    using farm_inv_moved [OF moved young _ totals] assms(3) by simp
  then show ?thesis using farm_nft_create_Inr(3) [OF create] by (simp add: same_rest_def)
qed

lemma staking_merge_call_ok:
  assumes run: "staking_merge_farm_tokens_endpoint env st ps = Inr (qs, st', es)"
    and sound: "staking_sound st T" and cov: "covered T (farm_part st ps)" and l: "farm_last_nonce st + 1 \<noteq> 0"
  shows "staking_call_ok st T ps st' (next_ledger st T ps st' es) es (0, 0)"
proof -
  let ?L = "positions st T" and ?u = "get_caller env"
  have inv: "farm_inv st ?L" and acc: "accumulated_rewards st \<le> reward_capacity st"
    and same_id: "farming_token_id st = reward_token_id st"
    using sound by (simp_all add: staking_sound_def)
  obtain m st0 b st1 q es1 where mig: "staking_migrate_old_farm_positions st ?u ps = Inr (m, st0)"
    and boost: "claim_only_boosted_payment env st0 ?u = Inr (b, st1)"
    and merge: "merge_and_update_farm_tokens st1 ?u ps = Inr (q, st', es1)"
    and es: "es = es1 @ send_payment_non_zero ?u q @ send_payment_non_zero ?u (new_payment (reward_token_id st1) 0 b)"
    using run by (auto simp: staking_merge_farm_tokens_endpoint_def staking_copies Let_def operation_Inr)
  note boost = boost [unfolded staking_not_migrated(2) [OF inv mig]]
  note claim = claim_only_moves [OF boost inv] and rest1 = same_restD [OF claim_only_same_rest [OF boost]]
  note inv1 = farm_moves_inv [OF claim(1)] and frame1 = farm_frame_of [OF claim(1), unfolded farm_frame_def]
  note same1 = claim(2) [unfolded same_tokens_def]
  have kept1: "attributes_kept st st1" using claim(1) by (simp add: farm_moves_def)
  have unb1: "unbonds_ok st1" using unbonds_ok_kept [OF _ _ kept1] sound rest1 by (simp add: staking_sound_def)
  have cov1: "covered ?L (farm_part st1 ps)"
  proof (rule positions_covered)
    show "covered T (farm_part st1 ps)" using cov by (simp add: same_tokens_part [OF claim(2)])
    fix p assume "p \<in> set (farm_part st1 ps)"
    then have "farm_attributes st1 (token_nonce p) \<noteq> None"
      using merge_attributes_known [OF merge inv1] by (simp add: farm_part_def)
    then show "unbond_attributes st (token_nonce p) = None" using known_not_unbond [OF unb1] rest1(5) by simp
  qed
  have l1: "farm_last_nonce st1 + 1 \<noteq> 0" using l same1 by simp
  obtain part1: "farm_part st1 ps = ps" and ne: "ps \<noteq> []"
    and moves: "farm_moves st1 ?L st' (ledger_after st1 ?L ps (amount q)) 0 0"
    and q: "farm_token st1 = Some (token_identifier q)" "token_nonce q = farm_last_nonce st1 + 1"
    and final: "amount q = total_amount ps" "farm_token_supply st' = farm_token_supply st1"
      "farm_last_nonce st' = farm_last_nonce st1 + 1"
    and es1: "es1 = [NftBurn (token_identifier q) (token_nonce (hd ps)) (amount (hd ps))] @ esdt_local_burn_multi (tl ps) @
      [NftCreate (token_identifier q) (amount q)]"
    by (rule farm_merge_moves [OF merge inv1 cov1 l1])
  note rest' = same_restD [OF merge_same_rest [OF merge inv1 cov1]]
  have all: "farm_moves st ?L st' (ledger_after st ?L ps (amount q)) 0 b"
    using farm_moves_trans [OF claim(1) moves] same_tokens_ledger [OF claim(2)] by simp
  have tok: "farm_token st = Some (token_identifier q)" using q(1) same1 by simp
  note toks = farm_inv_tokens [OF inv tok] and flow = burn_positions_flow [OF part1 q(1) ne]
  have paid: "paid_in t ps = (if t = token_identifier q then total_amount ps else 0)" for t
    by (rule paid_farm_part [OF part1 q(1)])
  show ?thesis
  proof (rule created_call_ok [OF all sound l _ _ _ _ _ tok])
    show "inflow (token_identifier q) es = amount q" by (simp add: es es1)
    fix u
    show "(if u = farming_token_id st then farm_token_supply st' + snd (0::nat, 0) else 0) + outflow u es \<le>
        (if u = farming_token_id st then farm_token_supply st + fst (0::nat, 0::nat) + b else 0) + paid_in u ps + inflow u es"
      using toks flow(2) final same1 frame1 same_id by (simp add: es es1 flow(1) paid new_payment_def)
  qed (use acc rest1 rest' same1 final in simp_all)
qed

text \<open>Calls that leave the positions alone.\<close>

lemma quiet_call_ok:
  assumes moves: "farm_moves st (positions st T) st' (positions st T) g x" and same: "same_tokens st st'"
    and sound: "staking_sound st T"
    and st': "unbond_attributes st' = unbond_attributes st" "accumulated_rewards st' = accumulated_rewards st + g"
      "accumulated_rewards st' \<le> reward_capacity st'" and ps: "farm_part st ps = []"
    and flow: "\<And>u. (if u = farming_token_id st then reward_capacity st' else 0) + outflow u es \<le>
        (if u = farming_token_id st then reward_capacity st + x else 0) + paid_in u ps + inflow u es"
  shows "staking_call_ok st T ps st' (next_ledger st T ps st' es) es (0, 0)"
proof -
  have ledger: "next_ledger st T ps st' es = T" using same by (simp add: next_ledger_def ps same_tokens_def)
  have pos: "positions st' T = positions st T" and unb: "unbonding st' T = unbonding st T"
    by (simp_all add: positions_def unbonding_def st'(1))
  have ok: "unbonds_ok st'"
    using unbonds_ok_kept [OF _ st'(1)] moves sound by (simp add: staking_sound_def farm_moves_def)
  have "staking_call_ok st T ps st' T es (0, 0)"
  proof (rule staking_call_okI [OF _ unbonds_keptI [OF ok st'(1)] st'(2,3)])
    show "farm_moves st (positions st T) st' (positions st' T) g x" using moves by (simp add: pos)
    fix u
    show "(if u = farming_token_id st then farm_token_supply st' + unbonding st' T + reward_capacity st' + snd (0::nat, 0) else 0) +
        outflow u es \<le> (if u = farming_token_id st then farm_token_supply st + unbonding st T + reward_capacity st +
          fst (0::nat, 0::nat) + x else 0) + paid_in u ps + inflow u es"
      using flow [of u] same by (auto simp: unb same_tokens_def split: if_splits)
  qed
  then show ?thesis by (simp add: ledger)
qed

lemma generating_call_ok:
  fixes env :: "'e energy_query_env_scheme"
  assumes c: "farm_cache_new st = Inr c" and gen: "staking_generate_aggregated_rewards env st c = Inr (st1, c1, es1)"
    and sound: "staking_sound st T"
    and moves: "farm_moves st (positions st T) (farm_cache_drop c1 st1) (positions st T) (staking_generated env st) 0 \<Longrightarrow>
      farm_moves st (positions st T) st' (positions st T) (staking_generated env st) 0"
    and same: "same_tokens (farm_cache_drop c1 st1) st'" and ps: "farm_part st ps = []"
    and st': "accumulated_rewards st' = accumulated_rewards (farm_cache_drop c1 st1)"
      "unbond_attributes st' = unbond_attributes (farm_cache_drop c1 st1)"
      "accumulated_rewards st' \<le> reward_capacity st'"
    and flow: "\<And>u. es1 = [] \<Longrightarrow> (if u = farming_token_id st then reward_capacity st' else 0) + outflow u es \<le>
        (if u = farming_token_id st then reward_capacity st else 0) + paid_in u ps + inflow u es"
  shows "staking_call_ok st T ps st' (next_ledger st T ps st' es) es (0, 0)"
proof -
  have inv: "farm_inv st (positions st T)" using sound by (simp add: staking_sound_def)
  note g = staking_gen.generate_moves [OF c inv gen] and rest = staking_restD [OF staking_gen.generate_moves(5) [OF c inv gen]]
  have "farm_token (farm_cache_drop c1 st1) = farm_token st" "farm_last_nonce (farm_cache_drop c1 st1) = farm_last_nonce st"
    using farm_frame_of [OF g(1)] g(4) by (simp_all add: farm_frame_def) (simp add: farm_cache_drop_def)
  then have same: "same_tokens st st'" using same g(3) by (simp add: same_tokens_def)
  have "es1 = []" using g(2) by simp
  note flow = flow [OF this]
  show ?thesis
  proof (rule quiet_call_ok [OF moves [OF g(1)] same sound _ _ st'(3) ps])
    fix u
    show "(if u = farming_token_id st then reward_capacity st' else 0) + outflow u es \<le>
        (if u = farming_token_id st then reward_capacity st + 0 else 0) + paid_in u ps + inflow u es"
      using flow [of u] by (cases "u = farming_token_id st") simp_all
  qed (use rest st'(1,2) in simp_all)
qed


lemma drop_staking:
  "farm_cache_drop c (s\<lparr>reward_capacity := v\<rparr>) = (farm_cache_drop c s)\<lparr>reward_capacity := v\<rparr>"
  "farm_cache_drop c (s\<lparr>max_annual_percentage_rewards := v\<rparr>) = (farm_cache_drop c s)\<lparr>max_annual_percentage_rewards := v\<rparr>"
  by (cases s; simp add: farm_cache_drop_def)+

lemma staking_moves_upd [simp]:
  fixes st st' :: staking_storage
  shows "farm_moves st L (st'\<lparr>reward_capacity := v\<rparr>) L' g x = farm_moves st L st' L' g x"
    "farm_moves st L (st'\<lparr>max_annual_percentage_rewards := v\<rparr>) L' g x = farm_moves st L st' L' g x"
    "farm_moves st L (st'\<lparr>min_unbond_epochs := n\<rparr>) L' g x = farm_moves st L st' L' g x"
  by (simp_all add: farm_moves_def farm_frame_def farm_inv_def books_ok_def farm_pot_def boosted_total_def
      attributes_kept_def)

lemma generate_bound:
  fixes env :: "'e energy_query_env_scheme"
  assumes "farm_cache_new st = Inr c" "staking_generate_aggregated_rewards env st c = Inr (st1, c1, es1)"
    and "staking_sound st T"
  shows "accumulated_rewards (farm_cache_drop c1 st1) \<le> reward_capacity (farm_cache_drop c1 st1)"
    "reward_capacity (farm_cache_drop c1 st1) = reward_capacity st" "es1 = []"
    "reward_token_id st1 = reward_token_id st"
proof -
  have inv: "farm_inv st (positions st T)" and acc: "accumulated_rewards st \<le> reward_capacity st"
    using assms(3) by (simp_all add: staking_sound_def)
  note g = staking_gen.generate_moves [OF assms(1) inv assms(2)]
  show "accumulated_rewards (farm_cache_drop c1 st1) \<le> reward_capacity (farm_cache_drop c1 st1)"
    "reward_capacity (farm_cache_drop c1 st1) = reward_capacity st"
    using staking_restD [OF g(5)] acc by (simp_all add: staking_generated_def)
  show "es1 = []" using g(2) by simp
  show "reward_token_id st1 = reward_token_id st"
    using farm_frame_of [OF g(1)] by (simp add: farm_frame_def farm_cache_drop_def)
qed

lemma end_produce_ok:
  fixes env :: "'e energy_query_env_scheme"
  assumes sound: "staking_sound st T"
  shows "staking_end_produce_rewards env st = Inr (st', es) \<Longrightarrow> staking_call_ok st T [] st' (next_ledger st T [] st' es) es (0, 0)"
    and "staking_set_per_block_rewards env st a = Inr (st', es) \<Longrightarrow> staking_call_ok st T [] st' (next_ledger st T [] st' es) es (0, 0)"
    and "set_max_apr env st a = Inr (st', es) \<Longrightarrow> staking_call_ok st T [] st' (next_ledger st T [] st' es) es (0, 0)"
    and "staking_set_boosted_percentage env st n = Inr (st', es) \<Longrightarrow>
      staking_call_ok st T [] st' (next_ledger st T [] st' es) es (0, 0)"
proof -
  have quiet: "staking_call_ok st T [] st' (next_ledger st T [] st' es) es (0, 0)"
    if "farm_cache_new st = Inr c" "staking_generate_aggregated_rewards env st c = Inr (st1, c1, es)"
      and st': "st' = (farm_cache_drop c1 st1)\<lparr>produce_rewards_enabled := False\<rparr> \<or> st' = (farm_cache_drop c1 st1)\<lparr>per_block_reward_amount := a\<rparr> \<or>
       st' = (farm_cache_drop c1 st1)\<lparr>max_annual_percentage_rewards := a\<rparr> \<or> st' = (farm_cache_drop c1 st1)\<lparr>boosted_yields_rewards_percentage := n\<rparr>"
    for c st1 c1 st'
  proof (rule generating_call_ok [OF that(1,2) sound])
    note b = generate_bound [OF that(1,2) sound]
    show "accumulated_rewards st' \<le> reward_capacity st'" using b(1,2) st' by auto
    show "(if u = farming_token_id st then reward_capacity st' else 0) + outflow u es \<le>
        (if u = farming_token_id st then reward_capacity st else 0) + paid_in u [] + inflow u es" if "es = []" for u
      using b(2) st' that by auto
    show "farm_part st [] = []" by (simp add: farm_part_def)
  qed (use st' in \<open>auto simp: same_tokens_def\<close>)
  show "staking_end_produce_rewards env st = Inr (st', es) \<Longrightarrow> staking_call_ok st T [] st' (next_ledger st T [] st' es) es (0, 0)"
    by (auto simp: staking_end_produce_rewards_def require_caller_has_admin_permissions_def res_simps drop_upd intro: quiet)
  show "staking_set_per_block_rewards env st a = Inr (st', es) \<Longrightarrow> staking_call_ok st T [] st' (next_ledger st T [] st' es) es (0, 0)"
    by (auto simp: staking_set_per_block_rewards_def require_caller_has_admin_permissions_def res_simps drop_upd intro: quiet)
  show "set_max_apr env st a = Inr (st', es) \<Longrightarrow> staking_call_ok st T [] st' (next_ledger st T [] st' es) es (0, 0)"
    by (auto simp: set_max_apr_def require_caller_has_admin_permissions_def res_simps drop_staking intro: quiet)
  show "staking_set_boosted_percentage env st n = Inr (st', es) \<Longrightarrow>
      staking_call_ok st T [] st' (next_ledger st T [] st' es) es (0, 0)"
    by (auto simp: staking_set_boosted_percentage_def require_caller_has_admin_permissions_def res_simps drop_upd intro: quiet)
qed

end
