(* ===== verification/StakingExec.thy ===== *)
theory StakingExec
  imports StakingSystem
begin

text \<open>Every call of the staking farm keeps the books, and what a run of calls keeps.\<close>

section \<open>The rest of the calls\<close>

lemma withdraw_rewards_ok:
  fixes env :: "'e energy_query_env_scheme"
  assumes sound: "staking_sound st T" and run: "withdraw_rewards env st a = Inr (st', es)"
  shows "staking_call_ok st T [] st' (next_ledger st T [] st' es) es (0, 0)"
proof -
  obtain c st1 c1 es1 where c: "farm_cache_new st = Inr c"
    and gen: "staking_generate_aggregated_rewards env st c = Inr (st1, c1, es1)"
    and le: "accumulated_rewards st1 \<le> reward_capacity st1" "a \<le> reward_capacity st1 - accumulated_rewards st1"
    and st': "st' = (farm_cache_drop c1 st1)\<lparr>reward_capacity := reward_capacity st1 - a\<rparr>"
    and es: "es = es1 @ send_tokens_non_zero (get_caller env) (reward_token_id st1) 0 a"
    using run by (auto simp: withdraw_rewards_def require_caller_has_admin_permissions_def res_simps big_sub_Inr
        drop_staking Let_def)
  note b = generate_bound [OF c gen sound]
  have same_id: "farming_token_id st = reward_token_id st" using sound by (simp add: staking_sound_def)
  have drop: "reward_capacity (farm_cache_drop c1 st1) = reward_capacity st1"
    "accumulated_rewards (farm_cache_drop c1 st1) = accumulated_rewards st1"
    by (cases st1; simp add: farm_cache_drop_def)+
  show ?thesis
  proof (rule generating_call_ok [OF c gen sound])
    show "accumulated_rewards st' \<le> reward_capacity st'" using le drop by (simp add: st')
    show "(if u = farming_token_id st then reward_capacity st' else 0) + outflow u es \<le>
        (if u = farming_token_id st then reward_capacity st else 0) + paid_in u [] + inflow u es" if "es1 = []" for u
      using b le that same_id drop by (simp add: st' es send_tokens_non_zero_def)
    show "farm_part st [] = []" by (simp add: farm_part_def)
  qed (auto simp: st' same_tokens_def)
qed

lemma top_up_ok:
  assumes sound: "staking_sound st T" and run: "top_up_rewards env st ps = Inr st'"
  shows "staking_call_ok st T ps st' (next_ledger st T ps st' []) [] (0, 0)"
proof -
  have inv: "farm_inv st (positions st T)" using sound by (simp add: staking_sound_def)
  obtain p where ps: "ps = [p]" "token_identifier p = reward_token_id st"
    and st': "st' = st\<lparr>reward_capacity := reward_capacity st + amount p\<rparr>"
    using run by (auto simp: top_up_rewards_def single_fungible_esdt_def require_caller_has_admin_permissions_def
        res_simps single_esdt_Inr)
  have same_id: "farming_token_id st = reward_token_id st" and le: "accumulated_rewards st \<le> reward_capacity st"
    using sound by (simp_all add: staking_sound_def)
  show ?thesis
  proof (rule quiet_call_ok [OF _ _ sound, where g = 0 and x = 0])
    show "farm_part st ps = []" using ps inv by (auto simp: farm_part_def farm_inv_def books_ok_def)
    show "farm_moves st (positions st T) st' (positions st T) 0 0" using farm_moves_refl [OF inv] by (simp add: st')
  qed (use le ps same_id in \<open>auto simp: st' same_tokens_def\<close>)
qed

lemma min_unbond_ok:
  assumes sound: "staking_sound st T" and run: "set_min_unbond_epochs_endpoint env st n = Inr st'"
  shows "staking_call_ok st T [] st' (next_ledger st T [] st' []) [] (0, 0)"
proof -
  have inv: "farm_inv st (positions st T)" and le: "accumulated_rewards st \<le> reward_capacity st"
    using sound by (simp_all add: staking_sound_def)
  have st': "st' = st\<lparr>min_unbond_epochs := n\<rparr>"
    using run by (auto simp: set_min_unbond_epochs_endpoint_def try_set_min_unbond_epochs_def
        require_caller_has_admin_permissions_def res_simps)
  show ?thesis
    by (rule quiet_call_ok [OF _ _ sound, where g = 0 and x = 0])
      (use farm_moves_refl [OF inv] le in \<open>auto simp: st' same_tokens_def farm_part_def\<close>)
qed

lemma boosted_ok:
  fixes env :: "'e energy_query_env_scheme"
  assumes sound: "staking_sound st T" and run: "staking_claim_boosted_rewards env st opt = Inr (qs, st', es)"
  shows "staking_call_ok st T [] st' (next_ledger st T [] st' es) es (0, 0)"
proof -
  have inv: "farm_inv st (positions st T)" and le: "accumulated_rewards st \<le> reward_capacity st"
    and same_id: "farming_token_id st = reward_token_id st"
    using sound by (simp_all add: staking_sound_def)
  define u where "u = (case opt of Some u \<Rightarrow> u | None \<Rightarrow> get_caller env)"
  note boosted_Inr = staking_claim_boosted_rewards_def staking_copies Let_def u_def [symmetric] and_then_Inr
    require_Inr validate_contract_state_Inr set_supply_Inr
  obtain c where c: "farm_cache_new st = Inr c"
    using run by (auto simp: boosted_Inr)
  obtain st1 c1 es1 where gen: "staking_generate_aggregated_rewards env st c = Inr (st1, c1, es1)"
    using run c by (auto simp: boosted_Inr)
  obtain b st2 where boost: "claim_only_boosted_payment env st1 u = Inr (b, st2)"
    using run c gen by (auto simp: boosted_Inr)
  obtain w where es: "es = es1 @ send_payment_non_zero u (new_payment (reward_token_id st2) 0 b)"
    and st': "st' = farm_cache_drop c1
      (st2\<lparr>farm_supply_for_week := (farm_supply_for_week st2)(w := cache_farm_token_supply c1)\<rparr>)"
    using run c gen boost by (auto simp: boosted_Inr)
  note core = staking_gen.boosted_core [OF c gen boost inv st'] and rest = staking_restD [OF core(5)]
  show ?thesis
  proof (rule quiet_call_ok [OF core(1,2) sound])
    show "accumulated_rewards st' \<le> reward_capacity st'" using rest le by (simp add: staking_generated_def)
    show "(if t = farming_token_id st then reward_capacity st' else 0) + outflow t es \<le>
        (if t = farming_token_id st then reward_capacity st + b else 0) + paid_in t [] + inflow t es" for t
      using rest core(3,4) same_id by (simp add: es new_payment_def)
  qed (use rest in \<open>simp_all add: farm_part_def\<close>)
qed

section \<open>Settings\<close>

lemma shared_same_rest:
  assumes run: "farm_set mint env st c = Inr (st', es)" and shared: "staking_shared c"
  shows "same_rest st st'"
proof (cases c)
  case CollectUndistributed
  then have "collect_undistributed_boosted_rewards env st = Inr st'" using run by (simp add: farm_quiet_Inr)
  then obtain n w x where "st' = st \<or> st' = (collect_undistributed_loop n w st)\<lparr>last_undistributed_collect_week := x\<rparr>"
    by (auto simp: collect_undistributed_boosted_rewards_def Let_def require_caller_has_admin_permissions_def
        res_simps simp del: collect_undistributed_loop.simps split: if_splits)
  moreover have "same_rest st (collect_undistributed_loop n w st)"
    by (rule same_rest_farm, rule collect_undistributed_loop_rel [unfolded boosted_rel_def, THEN conjunct1])
  ultimately show ?thesis by (auto simp: same_rest_def)
next
  case (FarmUpdateEnergy u)
  then have "update_energy_for_user env st u = Inr st'" using run by (simp add: farm_quiet_Inr)
  then show ?thesis by (intro weekly_rest_more update_energy_for_user_rest)
next
  case StartProduceRewards
  then show ?thesis
    using run by (auto simp: farm_quiet_Inr start_produce_rewards_endpoint_def start_produce_rewards_def
        require_caller_has_admin_permissions_def res_simps same_rest_def)
next
  case (SetBoostedFactors f)
  then show ?thesis
    using run by (auto simp: farm_quiet_Inr set_boosted_yields_factors_def require_caller_has_admin_permissions_def
        res_simps same_rest_def split: option.splits)
next
  case (FarmEnergyFactory a)
  then show ?thesis
    using run by (auto simp: farm_quiet_Inr set_energy_factory_address_def res_simps same_rest_def)
next
  case UpgradeFarm
  then show ?thesis
    using run by (auto simp: farm_upgrade_def try_set_farm_position_migration_nonce_def same_rest_def)
qed (use run shared in \<open>auto simp: with_Inr same_rest_def\<close>)

lemma shared_ok:
  fixes env :: "'e energy_query_env_scheme"
  assumes sound: "staking_sound st T" and shared: "staking_shared c"
    and run: "farm_set staking_mint_rewards env st c = Inr (st', es)"
  shows "staking_call_ok st T [] st' (next_ledger st T [] st' es) es (0, 0)"
proof -
  have inv: "farm_inv st (positions st T)" and le: "accumulated_rewards st \<le> reward_capacity st"
    using sound by (simp_all add: staking_sound_def)
  have "\<not> setting_generates c" using shared by (cases c) simp_all
  then have sets: "sets staking_mint_rewards st (positions st T) st' es 0" using farm_set_sets [OF run inv] by simp
  note rest = same_restD [OF shared_same_rest [OF run shared]]
  show ?thesis
    by (rule quiet_call_ok [OF _ _ sound, where g = 0 and x = 0])
      (use sets rest le in \<open>auto simp: sets_def farm_part_def\<close>)
qed

section \<open>Calls\<close>

lemma claim_endpoints_ok:
  assumes sound: "staking_sound st T" and cov: "covered T (farm_part st ps)" and l: "farm_last_nonce st + 1 \<noteq> 0"
  shows "staking_claim_rewards env st ps opt = Inr (qs, st', es) \<Longrightarrow>
      staking_call_ok st T ps st' (next_ledger st T ps st' es) es (0, 0)"
    and "claim_rewards_with_new_value env st ps a u = Inr (qs, st', es) \<Longrightarrow>
      staking_call_ok st T ps st' (next_ledger st T ps st' es) es (a, total_amount (farm_part st ps))"
proof -
  assume "staking_claim_rewards env st ps opt = Inr (qs, st', es)"
  then obtain v where "claim_rewards_common env st ps v None = Inr (qs, st', es)"
    by (auto simp: staking_claim_rewards_def and_then_Inr)
  from claim_common_ok [OF this sound cov l] show "staking_call_ok st T ps st' (next_ledger st T ps st' es) es (0, 0)"
    by simp
next
  assume "claim_rewards_with_new_value env st ps a u = Inr (qs, st', es)"
  then have "claim_rewards_common env st ps u (Some a) = Inr (qs, st', es)"
    by (auto simp: claim_rewards_with_new_value_def require_sc_address_whitelisted_def res_simps)
  from claim_common_ok [OF this sound cov l]
  show "staking_call_ok st T ps st' (next_ledger st T ps st' es) es (a, total_amount (farm_part st ps))" by simp
qed

lemma staking_exec_ok:
  fixes call :: staking_call
  assumes run: "staking_exec env st call = Inr (qs, st', es)" and sound: "staking_sound st T"
    and cov: "covered T (farm_part st (staking_payments call))" and l: "farm_last_nonce st + 1 \<noteq> 0"
    and no: "\<nexists>t. call = StakingTokenIssued t"
  shows "staking_call_ok st T (staking_payments call) st' (next_ledger st T (staking_payments call) st' es) es
    (staking_declared st call)"
proof (cases call)
  case (StakeFarm ps opt)
  then show ?thesis using stake_endpoints_ok(1) [OF sound _ l] run cov by simp
next
  case (StakeFarmThroughProxy ps a u)
  then show ?thesis using stake_endpoints_ok(2) [OF sound _ l] run cov by simp
next
  case (StakingClaim ps opt)
  then show ?thesis using claim_endpoints_ok(1) [OF sound _ l] run cov by simp
next
  case (StakingClaimNewValue ps a u)
  then show ?thesis using claim_endpoints_ok(2) [OF sound _ l] run cov by simp
next
  case (StakingCompound ps)
  then show ?thesis using compound_call_sound [OF _ sound _ l] run cov by simp
next
  case (UnstakeFarm ps opt)
  then show ?thesis using unstake_endpoints_ok(1) [OF sound _ l] run cov by simp
next
  case (UnstakeFarmThroughProxy ps u)
  then show ?thesis using unstake_endpoints_ok(2) [OF sound _ l] run cov by simp
next
  case (UnbondFarm ps)
  then show ?thesis using unbond_call_ok [OF _ sound] run cov by simp
next
  case (StakingMerge ps)
  then show ?thesis using staking_merge_call_ok [OF _ sound _ l] run cov by simp
next
  case (StakingBoosted opt)
  then show ?thesis using boosted_ok [OF sound] run by simp
next
  case (TopUpRewards ps)
  then show ?thesis using top_up_ok [OF sound] run by (auto simp: and_then_Inr)
next
  case (WithdrawRewards a)
  then show ?thesis using withdraw_rewards_ok [OF sound] run by (auto simp: staking_quiet_def and_then_Inr)
next
  case StakingEndProduce
  then show ?thesis using end_produce_ok(1) [OF sound] run by (auto simp: staking_quiet_def and_then_Inr)
next
  case (StakingPerBlock a)
  then show ?thesis using end_produce_ok(2) [OF sound] run by (auto simp: staking_quiet_def and_then_Inr)
next
  case (StakingMaxApr a)
  then show ?thesis using end_produce_ok(3) [OF sound] run by (auto simp: staking_quiet_def and_then_Inr)
next
  case (StakingMinUnbondEpochs n)
  then show ?thesis using min_unbond_ok [OF sound] run by (auto simp: and_then_Inr)
next
  case (StakingBoostedPercentage n)
  then show ?thesis using end_produce_ok(4) [OF sound] run by (auto simp: staking_quiet_def and_then_Inr)
next
  case (StakingShared c)
  then show ?thesis using shared_ok [OF sound] run by (auto simp: staking_quiet_def and_then_Inr require_Inr)
qed (use no in simp)

section \<open>The step system\<close>

text \<open>What no call changes: the tokens, once they are set, and when an unbond token is due.\<close>

definition staking_le :: "staking_books \<Rightarrow> staking_books \<Rightarrow> bool" where
  "staking_le b b' \<longleftrightarrow>
     (let st = staking_book_storage b; st' = staking_book_storage b' in
      farming_token_id st' = farming_token_id st \<and> (farm_token st \<noteq> None \<longrightarrow> farm_token st' = farm_token st) \<and>
      unbond_attributes st \<subseteq>\<^sub>m unbond_attributes st')"

lemma staking_step_ok:
  assumes "staking_inv b" "staking_step b x = Inr b'"
  shows "staking_inv b' \<and> staking_le b b'"
proof -
  obtain env call where x: "x = (env, call)" by (cases x)
  let ?st = "staking_book_storage b" and ?T = "staking_book_ledger b" and ?ps = "staking_payments call"
  let ?f = "farming_token_id ?st" and ?d = "staking_declared ?st call" and ?dsc = "division_safety_constant ?st"
  obtain qs st' es where cov: "covered ?T (farm_part ?st ?ps)" and l: "farm_last_nonce ?st + 1 \<noteq> 0"
    and run: "staking_exec env ?st call = Inr (qs, st', es)"
    and b': "b' = \<lparr>staking_book_storage = st', staking_book_ledger = next_ledger ?st ?T ?ps st' es,
           staking_book_received = (\<lambda>t. staking_book_received b t + paid_in t ?ps + inflow t es),
           staking_book_paid = (\<lambda>t. staking_book_paid b t + outflow t es),
           declared_in = declared_in b + fst ?d, declared_out = declared_out b + snd ?d\<rparr>"
    using assms(2) by (auto simp: staking_step_def x Let_def res_simps)
  have sound: "staking_sound ?st ?T"
    and solvent: "staking_need ?st ?T + ?dsc * (staking_book_paid b ?f + declared_out b) \<le>
        ?dsc * (staking_book_received b ?f + declared_in b)"
    and others: "\<And>t. t \<noteq> ?f \<Longrightarrow> staking_book_paid b t \<le> staking_book_received b t"
    using assms(1) by (simp_all add: staking_inv_def Let_def)
  show ?thesis
  proof (cases "\<exists>t. call = StakingTokenIssued t")
    case True
    then obtain t where st': "st' = ?st\<lparr>farm_token := Some t\<rparr>" and rest: "es = []" "?ps = []" "?d = (0, 0)"
      and t: "t \<noteq> ?f" "t \<noteq> reward_token_id ?st" "farm_token ?st = None"
      using run by (auto simp: farm_token_issued_def and_then_Inr require_Inr)
    have pos: "positions st' ?T = positions ?st ?T" "unbonding st' ?T = unbonding ?st ?T"
      by (simp_all add: positions_def unbonding_def st')
    have "farm_pot st' L = farm_pot ?st L" for L by (simp add: farm_pot_def st' boosted_total_def)
    then have need: "staking_need st' ?T = staking_need ?st ?T" by (simp add: staking_need_def pos) (simp add: st')
    have ledger: "next_ledger ?st ?T [] st' [] = ?T" by (simp add: next_ledger_def farm_part_def st')
    have "staking_sound st' ?T"
      using sound t by (simp add: staking_sound_def pos, simp add: st' farm_inv_def books_ok_def unbonds_ok_def)
    then show ?thesis
      using solvent others t(3)
      by (simp add: staking_inv_def staking_le_def b' ledger rest need Let_def) (simp add: st')
  next
    case False
    note ok = staking_call_sound [OF staking_exec_ok [OF run sound cov l False] sound]
    from ok(4) solvent have "staking_need st' (next_ledger ?st ?T ?ps st' es) +
        ?dsc * (staking_book_paid b ?f + outflow ?f es + (declared_out b + snd ?d)) \<le>
        ?dsc * (staking_book_received b ?f + paid_in ?f ?ps + inflow ?f es + (declared_in b + fst ?d))"
      by (simp add: distrib_left)
    moreover have "staking_book_paid b t + outflow t es \<le> staking_book_received b t + paid_in t ?ps + inflow t es"
      if "t \<noteq> ?f" for t
      using ok(5) [OF that] others [OF that] by simp
    ultimately show ?thesis using ok(1-3,6,7) by (simp add: staking_inv_def staking_le_def b' Let_def)
  qed
qed

interpretation staking_run: monotone_step_system staking_step staking_inv "\<lambda>x. True" staking_le
proof
  fix s t u x assume "staking_inv s"
  then show "staking_step s x = Inr t \<Longrightarrow> staking_inv t" and "staking_step s x = Inr t \<Longrightarrow> staking_le s t"
    using staking_step_ok by blast+
  show "staking_le s s" by (simp add: staking_le_def)
  show "staking_le s t \<Longrightarrow> staking_le t u \<Longrightarrow> staking_le s u"
    by (auto simp: staking_le_def Let_def intro: map_le_trans)
qed

section \<open>Deployment\<close>

definition empty_staking_storage :: staking_storage where
  "empty_staking_storage = farm_storage.extend empty_farm_storage
     \<lparr>accumulated_rewards = 0, reward_capacity = 0, max_annual_percentage_rewards = 0, min_unbond_epochs = 0,
      unbond_attributes = Map.empty\<rparr>"

definition new_staking_books :: "staking_storage \<Rightarrow> staking_books" where
  "new_staking_books st = \<lparr>staking_book_storage = st, staking_book_ledger = (\<lambda>n. 0),
     staking_book_received = (\<lambda>t. 0), staking_book_paid = (\<lambda>t. 0), declared_in = 0, declared_out = 0\<rparr>"

lemma new_staking_books_inv:
  assumes "staking_init env empty_staking_storage farming_id dsc max_apr epochs owner admins = Inr st"
  shows "staking_inv (new_staking_books st)"
proof -
  obtain perms where "dsc \<noteq> 0"
    and "st = empty_staking_storage\<lparr>division_safety_constant := dsc, reward_token_id := farming_id,
      farming_token_id := farming_id, farm_permissions := perms, max_annual_percentage_rewards := max_apr,
      min_unbond_epochs := epochs, first_week_start_epoch := get_block_epoch env,
      farm_position_migration_nonce := 1\<rparr>"
    using assms
    by (auto simp: staking_init_def base_farm_init_def try_set_farm_position_migration_nonce_def
        DEFAULT_FARM_POSITION_MIGRATION_NONCE_def Let_def res_simps empty_staking_storage_def
        empty_farm_storage_def farm_storage.defs)
  then show ?thesis
    by (simp add: staking_inv_def new_staking_books_def staking_sound_def staking_need_def farm_inv_def books_ok_def
        tokens_ok_def farm_pot_def owed_base_def boosted_total_def held_by_def unbonds_ok_def unbonding_def
        positions_def empty_staking_storage_def empty_farm_storage_def farm_storage.defs)
qed

end
