(* ===== verification/StakingProperties.thy ===== *)
theory StakingProperties
  imports StakingExec FarmProperties
begin

text \<open>The properties of the staking farm, with a run as the input of their witnesses.\<close>

definition ex_staking :: staking_storage where
  "ex_staking = empty_staking_storage\<lparr>division_safety_constant := 1000000000000, reward_token_id := ''STK'',
     farming_token_id := ''STK'', farm_permissions := (\<lambda>a. 0)(2 := 7), max_annual_percentage_rewards := 2500,
     min_unbond_epochs := 10, first_week_start_epoch := 10, farm_position_migration_nonce := 1\<rparr>"

lemma ex_staking_init:
  "staking_init (ex_farm_env 2 10 11) empty_staking_storage ''STK'' 1000000000000 2500 10 0 [] = Inr ex_staking"
  by (simp add: staking_init_def base_farm_init_def try_set_farm_position_migration_nonce_def Let_def
      ex_staking_def ex_farm_env_def empty_staking_storage_def empty_farm_storage_def farm_storage.defs
      DEFAULT_FARM_POSITION_MIGRATION_NONCE_def add_permissions_def set_permissions_def OWNER_def ADMIN_def PAUSE_def
      MAX_MIN_UNBOND_EPOCHS_def fun_eq_iff)

definition ex_staking_calls :: "(energy_query_env \<times> staking_call) list" where
  "ex_staking_calls =
    [(ex_farm_env 2 10 11, StakingTokenIssued ''SFARM''), (ex_farm_env 2 10 11, StakingShared ResumeFarm),
     (ex_farm_env 2 10 11, TopUpRewards [new_payment ''STK'' 0 50000]),
     (ex_farm_env 2 10 11, StakingPerBlock 1000), (ex_farm_env 2 10 11, StakingShared StartProduceRewards),
     (ex_farm_env 7 10 12, StakeFarm [new_payment ''STK'' 0 100000000000] None),
     (ex_farm_env 8 10 14, StakeFarm [new_payment ''STK'' 0 300000000000] None),
     (ex_farm_env 7 11 22, StakingClaim [new_payment ''SFARM'' 1 100000000000] None),
     (ex_farm_env 8 11 24, UnstakeFarm [new_payment ''SFARM'' 2 120000000000] None),
     (ex_farm_env 2 11 40, WithdrawRewards 1000)]"

abbreviation ex_staking_books :: staking_books where
  "ex_staking_books \<equiv> run_txs staking_step (new_staking_books ex_staking) ex_staking_calls"

lemmas staking_eval =
  ex_staking_def empty_staking_storage_def farm_storage.defs new_staking_books_def staking_step_def staking_quiet_def
  top_up_rewards_def single_fungible_esdt_def staking_set_per_block_rewards_def staking_generate_aggregated_rewards_def
  staking_mint_per_block_rewards_def get_amount_apr_bounded_def STAKING_MAX_PERCENT_def BLOCKS_IN_YEAR_def
  stake_farm_endpoint_def stake_farm_common_def staking_migrate_old_farm_positions_def staking_copies
  staking_calculate_rewards_eq staking_claim_rewards_def claim_rewards_common_def set_new_farming_amount_def
  unstake_farm_def unstake_farm_common_def create_and_send_unbond_tokens_def unbond_farm_def get_unbond_attributes_def
  withdraw_rewards_def staking_mint_rewards_def

definition ex_staking_view :: "staking_books \<Rightarrow> nat list \<times> (u64 \<Rightarrow> unbond_sft_attributes option)" where
  "ex_staking_view b = (let st = staking_book_storage b in
     ([staking_book_received b ''STK'', staking_book_paid b ''STK'', farm_token_supply st, reward_capacity st,
       accumulated_rewards st], unbond_attributes st))"

lemma ex_staking_run:
  "ex_staking_view ex_staking_books = ([400000050000, 8000, 280000000000, 49000, 28000], [4 \<mapsto> \<lparr>unbond_unlock_epoch = 21\<rparr>])"
  by (simp add: farm_eval farm_weekly_eval staking_eval ex_staking_calls_def ex_staking_view_def
      cong: and_then_weak_cong require_weak_cong let_weak_cong)

section \<open>Solvency\<close>

text \<open>C5: The staking farm stays solvent. Whatever calls are made after its deployment, by users,
  administrators and whitelisted contracts, what it has received of the staked token and what
  whitelisted contracts have declared as staked with them covers everything it has paid out and what
  they have taken back, together with what is staked, what is unbonding, the rewards that are still to
  be generated and all rewards that positions and boosted yields are owed (all times the division
  safety constant, in which these are counted). No more rewards have been generated than were put in
  and left there, the recorded supply is exactly what the positions in circulation hold, and of every
  other token it has received or minted at least what it has paid out and burned.
\<close>

theorem staking_stays_solvent:
  fixes xs :: "(energy_query_env \<times> staking_call) list"
  assumes "staking_init env empty_staking_storage farming_id dsc max_apr epochs owner admins = Inr st"
  defines "b \<equiv> run_txs staking_step (new_staking_books st) xs"
  defines "s \<equiv> staking_book_storage b" and "T \<equiv> staking_book_ledger b"
  shows "division_safety_constant s * (farm_token_supply s + unbonding s T + (reward_capacity s - accumulated_rewards s)) +
      farm_pot s (positions s T) +
      division_safety_constant s * (staking_book_paid b (farming_token_id s) + declared_out b) \<le>
      division_safety_constant s * (staking_book_received b (farming_token_id s) + declared_in b) \<and>
    accumulated_rewards s \<le> reward_capacity s \<and> farm_token_supply s = (\<Sum>n\<in>UNIV. positions s T n) \<and>
    (t \<noteq> farming_token_id s \<longrightarrow> staking_book_paid b t \<le> staking_book_received b t)"
proof -
  have "staking_inv b"
    unfolding b_def by (rule staking_run.run_inv [OF new_staking_books_inv [OF assms(1)]]) (simp add: list_all_iff)
  then have sound: "staking_sound s T"
    and need: "staking_need s T + division_safety_constant s * (staking_book_paid b (farming_token_id s) + declared_out b) \<le>
      division_safety_constant s * (staking_book_received b (farming_token_id s) + declared_in b)"
    and others: "\<forall>t. t \<noteq> farming_token_id s \<longrightarrow> staking_book_paid b t \<le> staking_book_received b t"
    unfolding staking_inv_def Let_def s_def T_def by blast+
  have "farm_token_supply s = (\<Sum>n\<in>UNIV. positions s T n)" "accumulated_rewards s \<le> reward_capacity s"
    using sound by (simp_all add: staking_sound_def farm_inv_def books_ok_def)
  with need others show ?thesis unfolding staking_need_def by blast
qed

lemma staking_stays_solvent_witness:
  "accumulated_rewards (staking_book_storage ex_staking_books) = 28000 \<and>
   accumulated_rewards (staking_book_storage ex_staking_books) \<le> reward_capacity (staking_book_storage ex_staking_books) \<and>
   staking_book_paid ex_staking_books ''SFARM'' \<le> staking_book_received ex_staking_books ''SFARM'' \<and>
   farm_token_supply (staking_book_storage ex_staking_books) = 280000000000"
proof -
  have "accumulated_rewards (staking_book_storage ex_staking_books) = 28000"
    "farm_token_supply (staking_book_storage ex_staking_books) = 280000000000"
    using ex_staking_run unfolding ex_staking_view_def Let_def by simp_all
  moreover have "farming_token_id (staking_book_storage ex_staking_books) = ''STK''"
  proof -
    have "staking_le (new_staking_books ex_staking) ex_staking_books"
      by (rule staking_run.run_le [OF new_staking_books_inv [OF ex_staking_init]]) (simp add: list_all_iff)
    then show ?thesis by (simp add: staking_le_def Let_def new_staking_books_def) (simp add: ex_staking_def)
  qed
  ultimately show ?thesis
    using staking_stays_solvent [OF ex_staking_init, of ex_staking_calls "''SFARM''"] by simp
qed

section \<open>Unbonding\<close>

lemma unbond_of_token:
  assumes "farm_state s = Active" "farm_token s = Some t" "is_valid_esdt_identifier env t"
    and "unbond_attributes s k = Some \<lparr>unbond_unlock_epoch = e\<rparr>" "0 < n"
  shows "unbond_farm env s [new_payment t k n] =
    (if e \<le> get_block_epoch env
     then Inr ([new_payment (farming_token_id s) 0 n], s,
       [NftBurn t k n, DirectSend (get_caller env) [new_payment (farming_token_id s) 0 n]])
     else Inl (SignalError ''Unbond period not over''))"
  using assms
  by (simp add: unbond_farm_def farm_cache_new_def get_farm_token_id_def validate_contract_state_def single_esdt_def
      require_same_farm_token_def get_unbond_attributes_def new_payment_def send_payment_non_zero_def
      send_tokens_non_zero_def farm_cache_drop_def Let_def)

text \<open>C15: Unstaked tokens come back when the period is over, and not before. Whoever leaves the staking
  farm gets unbond tokens for the whole position; whatever calls follow, of anyone and changes of the
  period included, any part of them that is in circulation is refused before the period that was set
  on leaving has passed, and from then on is burned for the same amount of the staked token, as long
  as the farm is active and the farm token's identifier is a valid one (the two checks of
  \<^verbatim>\<open>validate_contract_state\<close>); and what is left of what the farm has received and was declared
  with covers it.
\<close>

theorem unbonding_waits_for_its_period:
  fixes xs ys :: "(energy_query_env \<times> staking_call) list"
  assumes "staking_init env0 empty_staking_storage farming_id dsc max_apr epochs owner admins = Inr st"
  defines "b \<equiv> run_txs staking_step (new_staking_books st) xs"
  assumes step: "staking_step b (env, UnstakeFarm [p] opt) = Inr b1"
    and run: "unstake_farm env (staking_book_storage b) [p] opt = Inr ([q, r], st1, es)"
  defines "b2 \<equiv> run_txs staking_step b1 ys"
  defines "s \<equiv> staking_book_storage b2"
  assumes "farm_state s = Active" "is_valid_esdt_identifier env' (token_identifier q)"
    and "0 < n" "n \<le> staking_book_ledger b2 (token_nonce q)"
  shows "amount q = amount p \<and>
    unbond_farm env' s [new_payment (token_identifier q) (token_nonce q) n] =
      (if get_block_epoch env + min_unbond_epochs (staking_book_storage b) \<le> get_block_epoch env'
       then Inr ([new_payment (farming_token_id s) 0 n], s, [NftBurn (token_identifier q) (token_nonce q) n,
         DirectSend (get_caller env') [new_payment (farming_token_id s) 0 n]])
       else Inl (SignalError ''Unbond period not over'')) \<and>
    n + staking_book_paid b2 (farming_token_id s) + declared_out b2 \<le>
      staking_book_received b2 (farming_token_id s) + declared_in b2"
proof -
  let ?st = "staking_book_storage b" and ?T = "staking_book_ledger b"
  have inv: "staking_inv b"
    unfolding b_def by (rule staking_run.run_inv [OF new_staking_books_inv [OF assms(1)]]) (simp add: list_all_iff)
  then have sound: "staking_sound ?st ?T" by (simp add: staking_inv_def Let_def)
  have cov: "covered ?T (farm_part ?st [p])" and l: "farm_last_nonce ?st + 1 \<noteq> 0" and st1: "staking_book_storage b1 = st1"
    using step run by (auto simp: staking_step_def Let_def res_simps)
  obtain u where "unstake_farm_common env ?st [p] u p None = Inr ([q, r], st1, es)"
    using run by (auto simp: unstake_farm_def operation_Inr single_esdt_Inr)
  note common = this
  have q: "q = new_payment (token_identifier p) (farm_last_nonce ?st + 1) (amount p)"
    and tok: "farm_token ?st = Some (token_identifier p)"
    and unbond: "unbond_attributes st1 = (unbond_attributes ?st)(farm_last_nonce ?st + 1 :=
      Some \<lparr>unbond_unlock_epoch = get_block_epoch env + min_unbond_epochs ?st\<rparr>)"
    by (rule unstake_common_moves [OF common disjI1 [OF refl] sound cov l], simp)+
  have due: "unbond_attributes st1 (token_nonce q) =
      Some \<lparr>unbond_unlock_epoch = get_block_epoch env + min_unbond_epochs ?st\<rparr>"
    by (simp add: unbond q new_payment_def)
  note ok1 = staking_step_ok [OF inv step]
  have le: "staking_le b1 b2" and inv2: "staking_inv b2"
    unfolding b2_def
    using staking_run.run_le [OF conjunct1 [OF ok1], of ys] staking_run.run_inv [OF conjunct1 [OF ok1], of ys]
    by (simp_all add: list_all_iff)
  have same: "unbond_attributes s (token_nonce q) = unbond_attributes st1 (token_nonce q)"
  proof -
    have "unbond_attributes st1 \<subseteq>\<^sub>m unbond_attributes s"
      using le unfolding staking_le_def Let_def s_def st1 by blast
    then show ?thesis unfolding map_le_def using due by (metis domI)
  qed
  have token: "farm_token s = Some (token_identifier q)"
    using le conjunct2 [OF ok1] tok by (auto simp: staking_le_def Let_def s_def q new_payment_def)
  have "n \<le> unbonding s (staking_book_ledger b2)"
    unfolding unbonding_def using same due assms(10)
    by (intro order_trans [OF _ member_le_sum [of "token_nonce q"]]) auto
  moreover have "division_safety_constant s * (unbonding s (staking_book_ledger b2) +
      (staking_book_paid b2 (farming_token_id s) + declared_out b2)) \<le>
      division_safety_constant s * (staking_book_received b2 (farming_token_id s) + declared_in b2)"
    using inv2 by (simp add: staking_inv_def staking_need_def s_def distrib_left Let_def)
  moreover have "0 < division_safety_constant s"
    using inv2 by (simp add: staking_inv_def staking_sound_def farm_inv_def books_ok_def s_def Let_def)
  ultimately have covers: "n + staking_book_paid b2 (farming_token_id s) + declared_out b2 \<le>
      staking_book_received b2 (farming_token_id s) + declared_in b2" by simp
  show ?thesis
    using unbond_of_token [OF assms(7) token assms(8) same [unfolded due] assms(9)] covers by (simp add: q new_payment_def)
qed

text \<open>The witness: a part of the position that was left in the run above, before and when it is due.\<close>

abbreviation ex_before_leaving :: staking_books where
  "ex_before_leaving \<equiv> run_txs staking_step (new_staking_books ex_staking) (take 8 ex_staking_calls)"

abbreviation ex_leaving :: "energy_query_env \<times> staking_call" where
  "ex_leaving \<equiv> (ex_farm_env 8 11 24, UnstakeFarm [new_payment ''SFARM'' 2 120000000000] None)"

abbreviation ex_later :: "(energy_query_env \<times> staking_call) list" where
  "ex_later \<equiv> [(ex_farm_env 2 11 40, WithdrawRewards 1000)]"

lemma ex_leaving_run:
  "(case unstake_farm (fst ex_leaving) (staking_book_storage ex_before_leaving) [new_payment ''SFARM'' 2 120000000000] None of
      Inl e \<Rightarrow> None | Inr (qs, st, es) \<Rightarrow> Some (qs, min_unbond_epochs (staking_book_storage ex_before_leaving))) =
    Some ([new_payment ''SFARM'' 4 120000000000, new_payment ''STK'' 0 3000], 10)"
  by (simp add: farm_eval farm_weekly_eval staking_eval ex_staking_calls_def
      cong: and_then_weak_cong require_weak_cong let_weak_cong)

lemma ex_leaving_step:
  "(case staking_step ex_before_leaving ex_leaving of Inl e \<Rightarrow> None
    | Inr b \<Rightarrow> (let b' = run_txs staking_step b ex_later; s = staking_book_storage b' in
        Some (farm_state s, farming_token_id s, staking_book_ledger b' 4))) =
    Some (Active, ''STK'', 120000000000)"
  by (simp add: farm_eval farm_weekly_eval staking_eval ex_staking_calls_def
      cong: and_then_weak_cong require_weak_cong let_weak_cong)

lemma unbonding_waits_for_its_period_witness:
  "\<exists>s. farm_state s = Active \<and>
     unbond_farm (ex_farm_env 8 20 50) s [new_payment ''SFARM'' 4 70000000000] =
       Inl (SignalError ''Unbond period not over'') \<and>
     unbond_farm (ex_farm_env 8 21 60) s [new_payment ''SFARM'' 4 70000000000] =
       Inr ([new_payment ''STK'' 0 70000000000], s,
         [NftBurn ''SFARM'' 4 70000000000, DirectSend 8 [new_payment ''STK'' 0 70000000000]])"
proof -
  obtain st1 es where run: "unstake_farm (ex_farm_env 8 11 24) (staking_book_storage ex_before_leaving)
      [new_payment ''SFARM'' 2 120000000000] None =
      Inr ([new_payment ''SFARM'' 4 120000000000, new_payment ''STK'' 0 3000], st1, es)"
    and period: "min_unbond_epochs (staking_book_storage ex_before_leaving) = 10"
    using ex_leaving_run by (auto split: sum.splits)
  obtain b1 where step: "staking_step ex_before_leaving ex_leaving = Inr b1"
    and later: "farm_state (staking_book_storage (run_txs staking_step b1 ex_later)) = Active"
      "farming_token_id (staking_book_storage (run_txs staking_step b1 ex_later)) = ''STK''"
      "staking_book_ledger (run_txs staking_step b1 ex_later) 4 = 120000000000"
    using ex_leaving_step unfolding Let_def by (auto split: sum.splits simp del: run_txs.simps)
  note due = unbonding_waits_for_its_period [OF ex_staking_init step run later(1), of _ 70000000000]
  have env: "get_block_epoch (ex_farm_env u e k) = e" "get_caller (ex_farm_env u e k) = u"
    "is_valid_esdt_identifier (ex_farm_env u e k) t" for u e k t by (simp_all add: ex_farm_env_def)
  have pay: "token_identifier (new_payment t k n) = t" "token_nonce (new_payment t k n) = k" for t k n
    by (simp_all add: new_payment_def)
  show ?thesis
    using later(1) due [of "ex_farm_env 8 20 50"] due [of "ex_farm_env 8 21 60"]
    by (intro exI [of _ "staking_book_storage (run_txs staking_step b1 ex_later)"]) (simp only: env pay later period simp_thms; simp)
qed

end
