(* ===== verification/Spec2Isabelle.thy ===== *)
theory Spec2Isabelle
  imports PairSafePriceProperties EnergyProperties LockProperties UnstakeProperties FeesProperties
    FarmProperties FarmLockedProperties PriceDiscoveryProperties TransferProperties GovernanceProperties
    RouterProperties StakingProperties
begin

text \<open>
  A model of the contracts of the exchange and its theorems.

  \<^bold>\<open>The program.\<close> The repository holds smart contracts of a decentralised exchange, written in
  Rust for the MultiversX virtual machine. Pairs (\<^verbatim>\<open>dex/pair\<close>) keep the reserves of two tokens
  and swap one for the other. The energy factory (\<^verbatim>\<open>locked-asset/energy-factory\<close>) locks the base
  asset until a later epoch and keeps for every user an energy, the locked amounts weighted with
  the epochs they stay locked. Token unstake (\<^verbatim>\<open>locked-asset/token-unstake\<close>) holds the tokens of
  users who leave the factory before the time, for an unbonding period in which they can come
  back. The fees collector (\<^verbatim>\<open>energy-integration/fees-collector\<close>) gets fees from pairs and from
  token unstake and shares them every week among the users by their energy. Farms (\<^verbatim>\<open>dex/farm\<close>,
  \<^verbatim>\<open>dex/farm-with-locked-rewards\<close>, \<^verbatim>\<open>farm-staking/farm-staking\<close>) give rewards for each block on
  staked tokens, a part of them boosted by the energy of the user. The router (\<^verbatim>\<open>dex/router\<close>)
  deploys and lists pairs and swaps along several of them; price discovery (\<^verbatim>\<open>dex/price-discovery\<close>)
  finds the first price of a token; \<^verbatim>\<open>lkmex-transfer\<close> and \<^verbatim>\<open>locked-token-wrapper\<close> move locked
  tokens between users with their energy; \<^verbatim>\<open>governance-v2\<close> lets users vote with their energy.

  \<^bold>\<open>The model.\<close> A contract is a record of its storage. An endpoint is a function from the
  environment of a call (caller, block, the answers of other contracts), the storage and the
  arguments, payments included, to \<open>error + result\<close>: every \<^verbatim>\<open>require!\<close>, every failing decode, every
  \<open>BigUint\<close> subtraction below zero and every index out of range is an \<open>Inl\<close>. A result holds the
  values returned, the new storage and the list of effects, which are the transfers, mints and burns
  asked of the virtual machine. A call that fails leaves the storage of before, as the virtual
  machine reverts it; \<open>run_txs\<close> runs lists of calls that way. \<open>BigUint\<close> is \<open>nat\<close> and \<open>BigInt\<close> is
  \<open>int\<close>; \<open>u64\<close>, epochs, rounds, nonces and percentages are words of their width, which wrap as
  the release build does; \<open>usize\<close> of the virtual machine is a word of 32 bits. Storage mappers
  are functions, options, lists or sets as they behave. What a call asks of another contract is
  answered by a function in the environment, and what that contract sends back is an effect
  (\<open>ReceivedFrom\<close>) that the books credit. Where both contracts are modelled the answers are the
  model's own: token unstake with the energy factory, transfers with the energies of the factory,
  and the router, whose surroundings are a chain of modelled pairs. The remaining theorems hold for
  any answers, unless they name what they need of them.

  \<^bold>\<open>The theories.\<close>

  \<^item> \<open>Prelude\<close>: the types of the framework, results and their sequencing, checked subtraction and
    division, the locales \<open>step_system\<close> (an invariant along all runs) and \<open>monotone_step_system\<close>.
  \<^item> \<open>CommonModules\<close>, \<open>CommonLib\<close>: \<^verbatim>\<open>common/modules\<close> (permissions, pausable, token send, math,
    whitelist, utils) and \<^verbatim>\<open>common/traits\<close>; the traits \<^verbatim>\<open>Mergeable\<close> and \<^verbatim>\<open>FixedSupplyToken\<close> are
    locales, interpreted on payments, farm positions and locked amounts.
  \<^item> The pair: \<open>PairState\<close> (storage, errors, environment, \<^verbatim>\<open>contexts/base.rs\<close>), \<open>PairAmm\<close> (\<^verbatim>\<open>amm.rs\<close>,
    with the locale \<open>price_curve\<close>), \<open>PairSafePrice\<close> (\<^verbatim>\<open>safe_price.rs\<close>), \<open>PairLiquidity\<close>
    (\<^verbatim>\<open>liquidity_pool.rs\<close>), \<open>PairFee\<close> (\<^verbatim>\<open>fee.rs\<close>), \<open>PairConfig\<close> (\<^verbatim>\<open>config.rs\<close>, \<^verbatim>\<open>lib.rs\<close>,
    \<^verbatim>\<open>locking_wrapper.rs\<close>), \<open>PairActions\<close> (\<^verbatim>\<open>pair_actions/\<close>), \<open>PairSafePriceView\<close>
    (\<^verbatim>\<open>safe_price_view.rs\<close>), \<open>PairContract\<close> (all endpoints as one call).
  \<^item> The energy factory: \<open>LockedTokens\<close> (\<^verbatim>\<open>simple-lock\<close>'s locked tokens and their nonces),
    \<open>UnlockSchedule\<close> (the legacy schedules of \<^verbatim>\<open>common_structs/locked_token_types.rs\<close>),
    \<open>LockOptions\<close> (\<^verbatim>\<open>lock_options*.rs\<close>, \<^verbatim>\<open>penalty.rs\<close>), \<open>Energy\<close> (\<^verbatim>\<open>energy.rs\<close>), \<open>EnergyFactory\<close>
    (\<^verbatim>\<open>lib.rs\<close>, \<^verbatim>\<open>extend_lock.rs\<close>, \<^verbatim>\<open>unlock_with_penalty.rs\<close>, \<^verbatim>\<open>unstake.rs\<close>), \<open>EnergyMerging\<close>
    (\<^verbatim>\<open>token_merging.rs\<close>, \<^verbatim>\<open>virtual_lock.rs\<close>, \<^verbatim>\<open>migration.rs\<close>, \<^verbatim>\<open>locked_token_transfer.rs\<close>).
  \<^item> \<open>EnergyQuery\<close> (\<^verbatim>\<open>energy-query\<close>) and \<open>TokenUnstake\<close> (\<^verbatim>\<open>token-unstake/src\<close>).
  \<^item> Weekly rewards: \<open>WeeklyEnergy\<close> (\<^verbatim>\<open>week-timekeeping\<close>, \<^verbatim>\<open>weekly-rewards-splitting\<close>) and
    \<open>FeesCollector\<close> (\<^verbatim>\<open>fees-collector/src\<close>, \<^verbatim>\<open>locking_module/lock_with_energy_module.rs\<close>).
  \<^item> The farms: \<open>FarmState\<close> (storage, configuration, contexts and the storage cache of
    \<^verbatim>\<open>common/modules/farm\<close>), \<open>FarmBoosted\<close> (\<^verbatim>\<open>farm-boosted-yields\<close>), \<open>FarmBase\<close> (the base operations
    of \<^verbatim>\<open>farm_base_impl\<close>, which take the generation and the calculation of rewards of the contract
    as arguments), \<open>FarmContract\<close> (\<^verbatim>\<open>dex/farm/src\<close>), \<open>FarmLocked\<close>
    (\<^verbatim>\<open>dex/farm-with-locked-rewards/src\<close>), \<open>Staking\<close> (\<^verbatim>\<open>farm-staking/farm-staking/src\<close>).
  \<^item> \<open>PriceDiscovery\<close> (\<^verbatim>\<open>dex/price-discovery/src\<close>, \<^verbatim>\<open>locking_module/locking_module.rs\<close>);
    \<open>EnergyTransfer\<close>, \<open>LkmexTransfer\<close> and \<open>TokenWrapper\<close> (\<^verbatim>\<open>lkmex-transfer/src\<close>,
    \<^verbatim>\<open>locked-token-wrapper/src\<close>); \<open>Governance\<close> (\<^verbatim>\<open>governance-v2/src\<close>).
  \<^item> \<open>Router\<close> (\<^verbatim>\<open>dex/router/src\<close>, over any surroundings in which the pairs live) and \<open>RouterChain\<close>
    (the surroundings made of the modelled pairs, and the calls of users and of the router on them).

  \<^bold>\<open>What the lemmas show.\<close>

  \<^item> \<open>PairPool\<close>, \<open>PairInvariant\<close>, \<open>PairFacts\<close>: every endpoint keeps the storage invariant, never
    lowers the value of a share (the preorder \<open>pool_le\<close>), and leaves the contract with at least
    the reserves it records; what swaps and round trips pay. \<open>PairProperties\<close> states it for runs.
  \<^item> \<open>PairSafePriceFacts\<close>: the ring of observations against its abstract history, the list from
    the oldest to the newest; the binary search finds what the list has.
  \<^item> \<open>EnergyFacts\<close>, \<open>EnergySteps\<close>, \<open>EnergyMergeSteps\<close>, \<open>EnergyCalls\<close>: the abstract energy of a user
    is a multiset of positions (amount, unlock epoch); every endpoint replaces the positions it
    takes by the positions it creates, and passes on the tokens it gets.
  \<^item> \<open>UnstakeFacts\<close>: the entries of token unstake hold the tokens they promise; an early exit and
    its cancellation, run on both contracts, restore the energy.
  \<^item> \<open>WeeklyFacts\<close>: the totals per week that the contract moves with its buckets are the sums over
    all users (\<open>bucket_inv\<close>); \<open>WeeklyInvariant\<close>: the operations keep that, and never fail for
    lack of tokens in a bucket; \<open>WeeklyClaims\<close>: the locale \<open>reward_wrapper\<close>, the contract between
    the module and what a contract pays for a week, under which a claim pays no more than the pot
    loses. \<open>FeesFacts\<close> interprets it on the fees collector, \<open>FeesBooks\<close> keeps the books.
  \<^item> \<open>FarmFacts\<close>, \<open>FarmLedger\<close>, \<open>FarmInvariant\<close>, \<open>FarmMoves\<close>: the ledger of the farm tokens in
    circulation and what the farm owes on them (\<open>farm_pot\<close>); the locale \<open>farm_generation\<close> is what
    the base operations ask of a contract's generation of rewards. \<open>FarmOperations\<close>,
    \<open>FarmSettings\<close>, \<open>FarmBooks\<close>: every endpoint of the farm moves the pot by what it generates and
    pays; the farm with locked rewards (\<open>FarmLockedBooks\<close>) and the staking farm (\<open>StakingBooks\<close>,
    \<open>StakingSteps\<close>, \<open>StakingSystem\<close>, \<open>StakingExec\<close>) reuse them, with their own books on top.
  \<^item> \<open>PriceDiscoveryBooks\<close>, \<open>LkmexBooks\<close>, \<open>GovernanceBooks\<close>, \<open>GovernanceSteps\<close>: the books of these
    contracts, and that every call keeps them. \<open>RouterFacts\<close>: the router and the pairs it has
    deployed keep one invariant, whoever calls them.
  \<^item> The theories named \<open>Properties\<close> state what this shows of whole runs, each with a concrete run
    on which its hypotheses hold.

  \<^bold>\<open>Bounds.\<close> No definition uses fuel: all loops recurse on lists, on counters, or on the width of the
  interval of the binary search. The ring of observations has 65536 entries, as in the code. Lock
  options are at most \<open>2 ^ 50\<close> epochs and the calls of the factory come in epochs in which the
  months do not wrap (\<open>calendar_ok\<close>); the fees collector is considered up to epoch \<open>2 ^ 33\<close>, in
  which the number of the week fits its 32 bits, and governance up to block \<open>2 ^ 63\<close>. An epoch is a
  day and a block takes seconds, so none is ever reached. The steps of the farms end when all
  \<open>2 ^ 64\<close> nonces of the farm token are used, as the protocol would end them.

  \<^bold>\<open>Behaviour worth knowing.\<close> The fees collector emits locked tokens only for the week before the
  one of the call, so a week without any call emits none. A user whose energy has come down to
  zero exactly in the current week still counts in the total of locked tokens until the next one.
  \<^verbatim>\<open>claimBoostedRewards\<close> of all three farms writes the reward reserve of before the claim back when
  its cache is dropped, so the recorded reserve keeps what was paid; the books of the farms count
  what is owed, not that number. No endpoint of a farm writes \<^verbatim>\<open>allow_external_claim\<close>, so only
  users themselves can claim their boosted rewards. The contract that locks the output of a pair may send back
  any token, those of the pool included (simple lock returns the tokens themselves once the epoch
  has passed); the books of the pair credit it. With no lock option stored and none given, the
  checks of \<^verbatim>\<open>add_lock_options\<close> read outside an array without a check: what the virtual machine does
  there is the argument \<open>outside\<close>. The quorum of governance is a share of the energy that was
  recorded at the first vote, and counts all votes.

  \<^bold>\<open>Not modelled.\<close> Events and views that only read a mapper; token issuing, local roles and the pause
  switch of the framework, which are calls of the framework (the flag is part of the storage); the
  wrappers of positions (\<^verbatim>\<open>proxy_dex\<close>, \<^verbatim>\<open>farm-staking-proxy\<close>), which call the pair, the farms and the
  factory; the older governance; of simple lock the wrapping of liquidity and farm positions;
  \<^verbatim>\<open>energy-update\<close>, \<^verbatim>\<open>pause-all\<close> and the deployers, which are loops of calls; mocks, the fuzzer and the
  legacy contracts kept for tests.
\<close>

end
